(* ===== verification/Prelude.thy ===== *)
theory Prelude
  imports Main "HOL-Library.AList" "HOL-Library.Char_ord" "HOL-Library.List_Lexorder"
    "HOL-Library.Product_Lexorder"
begin

text \<open>
  Shared vocabulary of the development: results of fallible code, monadic loops,
  insertion-ordered dictionaries and the string operations of the Python standard library
  that the workflow kernel uses. Component theories only add facts to the collections
  declared here.
\<close>

named_theorems result_simps \<open>rewriting of results: bind, guards and loops\<close>
named_theorems dict_simps \<open>lookups in updated dictionaries\<close>

section \<open>Fallible code\<close>

text \<open>A Python function that may raise returns \<open>Inl\<close> of the exception or \<open>Inr\<close> of its value.\<close>

fun rbind :: "'e + 'a \<Rightarrow> ('a \<Rightarrow> 'e + 'b) \<Rightarrow> 'e + 'b" where
  "rbind (Inl e) f = Inl e"
| "rbind (Inr x) f = f x"

text \<open>\<open>if not cond: raise e\<close>\<close>

definition ensure :: "bool \<Rightarrow> 'e \<Rightarrow> 'e + unit" where
  "ensure b e = (if b then Inr () else Inl e)"

text \<open>A lookup \<open>d[k]\<close> that raises when the key is missing.\<close>

definition get_or_raise :: "'v option \<Rightarrow> 'e \<Rightarrow> 'e + 'v" where
  "get_or_raise v e = (case v of None \<Rightarrow> Inl e | Some x \<Rightarrow> Inr x)"

text \<open>A \<open>for\<close> loop over a state, stopped by the first exception of its body.\<close>

fun foldM :: "('x \<Rightarrow> 's \<Rightarrow> 'e + 's) \<Rightarrow> 'x list \<Rightarrow> 's \<Rightarrow> 'e + 's" where
  "foldM f [] s = Inr s"
| "foldM f (x # xs) s = rbind (f x s) (foldM f xs)"

fun mapM :: "('x \<Rightarrow> 'e + 'y) \<Rightarrow> 'x list \<Rightarrow> 'e + 'y list" where
  "mapM f [] = Inr []"
| "mapM f (x # xs) = rbind (f x) (\<lambda>y. rbind (mapM f xs) (\<lambda>ys. Inr (y # ys)))"

fun is_ok :: "'e + 'a \<Rightarrow> bool" where
  "is_ok (Inl _) = False"
| "is_ok (Inr _) = True"

lemma rbind_Inr_iff [result_simps]:
  "rbind m f = Inr y \<longleftrightarrow> (\<exists>x. m = Inr x \<and> f x = Inr y)"
  by (cases m) auto

lemma rbind_Inl_iff [result_simps]:
  "rbind m f = Inl e \<longleftrightarrow> m = Inl e \<or> (\<exists>x. m = Inr x \<and> f x = Inl e)"
  by (cases m) auto

lemma ensure_Inr_iff [result_simps]: "ensure b e = Inr u \<longleftrightarrow> b"
  by (simp add: ensure_def)

lemma ensure_Inl_iff [result_simps]: "ensure b e = Inl e' \<longleftrightarrow> \<not> b \<and> e' = e"
  by (auto simp: ensure_def)

lemma ensure_True [simp]: "ensure True e = Inr ()"
  by (simp add: ensure_def)

lemma ensure_False [simp]: "ensure False e = Inl e"
  by (simp add: ensure_def)

lemma get_or_raise_Inr_iff [result_simps]: "get_or_raise v e = Inr x \<longleftrightarrow> v = Some x"
  by (auto simp: get_or_raise_def split: option.splits)

lemma get_or_raise_Inl_iff [result_simps]: "get_or_raise v e = Inl e' \<longleftrightarrow> v = None \<and> e' = e"
  by (auto simp: get_or_raise_def split: option.splits)

lemma get_or_raise_simps [simp]:
  "get_or_raise (Some x) e = Inr x" "get_or_raise None e = Inl e"
  by (simp_all add: get_or_raise_def)

lemma rbindE:
  assumes "rbind m f = Inr y"
  obtains x where "m = Inr x" "f x = Inr y"
  using assms by (cases m) auto

lemma ensureE:
  assumes "ensure b e = Inr u"
  obtains b
  using assms by (simp add: ensure_Inr_iff)

lemma rbind_assoc: "rbind (rbind m f) g = rbind m (\<lambda>x. rbind (f x) g)"
  by (cases m) auto

lemma rbind_Inr_id [simp]: "rbind m Inr = m"
  by (cases m) auto

lemma foldM_append [result_simps]:
  "foldM f (xs @ ys) s = rbind (foldM f xs s) (foldM f ys)"
proof (induction xs arbitrary: s)
  case (Cons x xs)
  show ?case by (cases "f x s") (simp_all add: Cons.IH)
qed simp

lemma foldM_cong [fundef_cong]:
  assumes "xs = ys" and "s = t" and "\<And>x s. x \<in> set ys \<Longrightarrow> f x s = g x s"
  shows "foldM f xs s = foldM g ys t"
proof -
  have "foldM f ys s = foldM g ys s"
    using assms(3)
  proof (induction ys arbitrary: s)
    case (Cons y ys)
    then show ?case by (cases "g y s") auto
  qed simp
  with assms(1,2) show ?thesis by simp
qed

text \<open>An invariant of the loop body is an invariant of the loop.\<close>

lemma foldM_invariant:
  assumes "foldM f xs s = Inr t" and "P s"
    and "\<And>x s t. x \<in> set xs \<Longrightarrow> P s \<Longrightarrow> f x s = Inr t \<Longrightarrow> P t"
  shows "P t"
  using assms
proof (induction xs arbitrary: s)
  case (Cons x xs)
  from Cons.prems(1) obtain u where "f x s = Inr u" and u: "foldM f xs u = Inr t"
    by (auto simp: result_simps)
  with Cons.prems(2,3) have "P u" by (meson list.set_intros(1))
  with u Cons.prems(3) show ?case by (intro Cons.IH) auto
qed auto

text \<open>A relation that each pass extends relates the start and the end of the loop.\<close>

lemma foldM_relation:
  assumes "foldM f xs s = Inr t" and "\<And>s. R s s" and "\<And>s t u. R s t \<Longrightarrow> R t u \<Longrightarrow> R s u"
    and "\<And>x s t. x \<in> set xs \<Longrightarrow> f x s = Inr t \<Longrightarrow> R s t"
  shows "R s t"
  using assms(1,4)
proof (induction xs arbitrary: s)
  case Nil
  then show ?case using assms(2) by simp
next
  case (Cons x xs)
  from Cons.prems(1) obtain u where u: "f x s = Inr u" "foldM f xs u = Inr t"
    by (auto simp: result_simps)
  then have "R s u" using Cons.prems(2) by (meson list.set_intros(1))
  moreover have "R u t" using Cons u by auto
  ultimately show ?case using assms(3) by blast
qed

lemma mapM_Inr_length: "mapM f xs = Inr ys \<Longrightarrow> length ys = length xs"
  by (induction xs arbitrary: ys) (auto simp: result_simps)

lemma mapM_Inr_iff: "mapM f xs = Inr ys \<longleftrightarrow> list_all2 (\<lambda>x y. f x = Inr y) xs ys"
proof (induction xs arbitrary: ys)
  case (Cons x xs)
  then show ?case by (cases ys) (auto simp: result_simps)
qed auto

section \<open>Insertion-ordered dictionaries\<close>

text \<open>
  A Python \<open>dict\<close> iterates in insertion order: assigning to a present key keeps its place, a
  new key goes to the end, deleting and inserting again moves it there. Association lists
  with \<open>AList.update\<close>, \<open>AList.delete\<close> and \<open>AList.map_entry\<close> (mutation of the stored object)
  behave in the same way.
\<close>

type_synonym ('k, 'v) odict = "('k \<times> 'v) list"

abbreviation dget :: "('k, 'v) odict \<Rightarrow> 'k \<Rightarrow> 'v option" where
  "dget d k \<equiv> map_of d k"

abbreviation dput :: "'k \<Rightarrow> 'v \<Rightarrow> ('k, 'v) odict \<Rightarrow> ('k, 'v) odict" where
  "dput k v d \<equiv> AList.update k v d"

abbreviation dmodify :: "'k \<Rightarrow> ('v \<Rightarrow> 'v) \<Rightarrow> ('k, 'v) odict \<Rightarrow> ('k, 'v) odict" where
  "dmodify k f d \<equiv> AList.map_entry k f d"

abbreviation dpop :: "'k \<Rightarrow> ('k, 'v) odict \<Rightarrow> ('k, 'v) odict" where
  "dpop k d \<equiv> AList.delete k d"

abbreviation dkeys :: "('k, 'v) odict \<Rightarrow> 'k list" where
  "dkeys d \<equiv> map fst d"

lemma dget_dput [dict_simps]: "dget (dput k v d) j = (if j = k then Some v else dget d j)"
  by (simp add: update_conv')

lemma dget_dmodify [dict_simps]:
  "dget (dmodify k f d) j = (if j = k then map_option f (dget d k) else dget d j)"
  by (induction d) auto

lemma dget_dpop [dict_simps]: "dget (dpop k d) j = (if j = k then None else dget d j)"
  by (simp add: delete_conv')

lemma dkeys_dmodify [dict_simps]: "dkeys (dmodify k f d) = dkeys d"
  by (induction d) auto

lemma set_dkeys_dput [dict_simps]: "set (dkeys (dput k v d)) = insert k (set (dkeys d))"
  by (simp add: dom_update)

lemma fst_set_dput [dict_simps]: "fst ` set (dput k v d) = insert k (fst ` set d)"
  using set_dkeys_dput [of k v d] by simp

lemma distinct_dkeys_dput [dict_simps]: "distinct (dkeys d) \<Longrightarrow> distinct (dkeys (dput k v d))"
  by (rule distinct_update)

lemma distinct_dkeys_dpop: "distinct (dkeys d) \<Longrightarrow> distinct (dkeys (dpop k d))"
  by (rule distinct_delete)

lemma set_dkeys_dpop [dict_simps]: "set (dkeys (dpop k d)) = set (dkeys d) - {k}"
  by (simp add: delete_keys)

lemma fst_set_dpop [dict_simps]: "fst ` set (dpop k d) = fst ` set d - {k}"
  using set_dkeys_dpop [of k d] by simp

lemma dget_Some_in_dkeys: "dget d k = Some v \<Longrightarrow> k \<in> set (dkeys d)"
  by (metis domI dom_map_of_conv_image_fst list.set_map)

lemma in_dkeys_dget: "k \<in> set (dkeys d) \<longleftrightarrow> (\<exists>v. dget d k = Some v)"
  by (metis domIff dom_map_of_conv_image_fst list.set_map not_None_eq)

lemma dget_None_iff: "dget d k = None \<longleftrightarrow> k \<notin> set (dkeys d)"
  by (simp add: map_of_eq_None_iff)

lemma dput_new: "k \<notin> set (dkeys d) \<Longrightarrow> dput k v d = d @ [(k, v)]"
  by (induction d) auto

lemma dput_same: "dget d k = Some v \<Longrightarrow> dput k v d = d"
  by (induction d) auto

lemma dget_filter_keys [dict_simps]:
  "dget (filter (\<lambda>(k, v). P k) d) j = (if P j then dget d j else None)"
  by (induction d) auto

section \<open>Python strings\<close>

text \<open>
  Strings are lists of \<open>char\<close>, read as the code points 0 to 255. \<open>str.strip\<close> removes the code
  points for which \<open>str.isspace\<close> holds.
\<close>

definition py_space :: "char \<Rightarrow> bool" where
  "py_space c = (let n = (of_char c :: nat) in
     (9 \<le> n \<and> n \<le> 13) \<or> (28 \<le> n \<and> n \<le> 32) \<or> n = 133 \<or> n = 160)"

definition py_strip :: "string \<Rightarrow> string" where
  "py_strip s = rev (dropWhile py_space (rev (dropWhile py_space s)))"

text \<open>\<open>not s.strip()\<close>\<close>

definition blank :: "string \<Rightarrow> bool" where
  "blank s = (py_strip s = [])"

lemma dropWhile_Nil_iff: "dropWhile P xs = [] \<longleftrightarrow> (\<forall>x \<in> set xs. P x)"
  by (induction xs) auto

lemma blank_iff: "blank s \<longleftrightarrow> (\<forall>c \<in> set s. py_space c)"
proof -
  have "blank s \<longleftrightarrow> (\<forall>c \<in> set (dropWhile py_space s). py_space c)"
    by (simp add: blank_def py_strip_def dropWhile_Nil_iff)
  also have "\<dots> \<longleftrightarrow> (\<forall>c \<in> set s. py_space c)"
  proof
    assume all: "\<forall>c \<in> set (dropWhile py_space s). py_space c"
    have "dropWhile py_space s = []"
    proof (rule ccontr)
      assume ne: "dropWhile py_space s \<noteq> []"
      then have "\<not> py_space (hd (dropWhile py_space s))" by (rule hd_dropWhile)
      with all ne show False by simp
    qed
    then show "\<forall>c \<in> set s. py_space c" by (simp add: dropWhile_Nil_iff)
  next
    assume "\<forall>c \<in> set s. py_space c"
    then show "\<forall>c \<in> set (dropWhile py_space s). py_space c"
      by (metis UnI2 set_append takeWhile_dropWhile_id)
  qed
  finally show ?thesis .
qed

lemma dropWhile_idem_hd: "xs = [] \<or> \<not> P (hd xs) \<Longrightarrow> dropWhile P xs = xs"
  by (cases xs) auto

lemma hd_rev_dropWhile_rev:
  assumes "ys = rev (dropWhile P (rev xs))" and "ys \<noteq> []"
  shows "hd ys = hd xs"
proof -
  have "xs = rev (dropWhile P (rev xs)) @ rev (takeWhile P (rev xs))"
    by (metis rev_append rev_rev_ident takeWhile_dropWhile_id)
  with assms show ?thesis by (metis hd_append2)
qed

lemma py_strip_idem [simp]: "py_strip (py_strip s) = py_strip s"
proof (cases "py_strip s = []")
  case True
  have "py_strip [] = []" by (simp add: py_strip_def)
  with True show ?thesis by simp
next
  case False
  let ?d = "dropWhile py_space s"
  have "hd (py_strip s) = hd ?d"
    using hd_rev_dropWhile_rev [of "py_strip s" py_space ?d] False by (simp add: py_strip_def)
  moreover have "\<not> py_space (hd ?d)"
    using False by (intro hd_dropWhile notI) (simp only: py_strip_def, simp)
  ultimately have 1: "dropWhile py_space (py_strip s) = py_strip s"
    by (intro dropWhile_idem_hd) auto
  have "rev (py_strip s) = dropWhile py_space (rev ?d)"
    by (simp add: py_strip_def)
  then have 2: "dropWhile py_space (rev (py_strip s)) = rev (py_strip s)"
    using False by (intro dropWhile_idem_hd) (metis hd_dropWhile rev_is_Nil_conv)
  have "py_strip (py_strip s) = rev (dropWhile py_space (rev (py_strip s)))"
    unfolding py_strip_def [of "py_strip s"] 1 ..
  then show ?thesis by (simp add: 2)
qed

lemma not_blank_strip: "\<not> blank s \<Longrightarrow> \<not> blank (py_strip s)"
  by (simp add: blank_def)

text \<open>\<open>str(n)\<close> of an integer.\<close>

definition digit_char :: "nat \<Rightarrow> char" where
  "digit_char d = char_of (48 + d)"

fun dec_nat :: "nat \<Rightarrow> string" where
  "dec_nat n = (if n < 10 then [digit_char n] else dec_nat (n div 10) @ [digit_char (n mod 10)])"

declare dec_nat.simps [simp del]

definition dec_int :: "int \<Rightarrow> string" where
  "dec_int n = (if n < 0 then CHR ''-'' # dec_nat (nat (- n)) else dec_nat (nat n))"

text \<open>The value a decimal numeral denotes: the inverse of \<open>dec_nat\<close>.\<close>

definition undec :: "string \<Rightarrow> nat" where
  "undec s = foldl (\<lambda>n c. 10 * n + (of_char c - 48)) 0 s"

lemma undec_dec_nat: "undec (dec_nat n) = n"
proof (induction n rule: dec_nat.induct)
  case (1 n)
  have digit: "of_char (digit_char d) = 48 + d" if "d < 10" for d
    using that by (simp add: digit_char_def of_char_of)
  show ?case
  proof (cases "n < 10")
    case True
    then show ?thesis by (subst dec_nat.simps) (simp add: undec_def digit)
  next
    case False
    with "1.IH" have "undec (dec_nat (n div 10)) = n div 10" by simp
    with False show ?thesis
      by (subst dec_nat.simps) (simp add: undec_def digit [of "n mod 10"])
  qed
qed

lemma dec_nat_inject [simp]: "dec_nat m = dec_nat n \<longleftrightarrow> m = n"
  by (metis undec_dec_nat)

section \<open>Lists and sums\<close>

lemma distinct_filter_map_of:
  "distinct (dkeys d) \<Longrightarrow> (k, v) \<in> set d \<longleftrightarrow> dget d k = Some v"
  by (metis map_of_eq_Some_iff)

lemma sum_list_le_map: "(\<And>x. x \<in> set xs \<Longrightarrow> f x \<le> g x) \<Longrightarrow>
   sum_list (map f xs) \<le> sum_list (map (g :: _ \<Rightarrow> nat) xs)"
  by (rule sum_list_mono)

end
