(* ===== verification/Domain_Model.thy ===== *)
theory Domain_Model
  imports Prelude
begin

text \<open>
  The domain types of \<open>src/larkflow/workflow/model.py\<close>: the JSON-like values carried by work
  definitions and results, the status enumerations, and one record per dataclass. Times are
  integers (microseconds since the epoch), \<open>None\<close> is the option type, dictionaries keep their
  insertion order. The exceptions raised by the kernel are the constructors of \<open>exn\<close>; the
  string they carry is the constant head of the message.
\<close>

section \<open>Exceptions\<close>

datatype exn =
    ValueError string
  | TypeError string
  | AttributeError string
  | KeyError string
  | GraphValidationError string
  | DeliverableContractError string
  | DeliverableValidationError string
  | TransitionError string
  | CancellationNotAllowedError string
  | StaleCancellationError string
  | RestartNotAllowedError string
  | RestartPreviewNotFoundError string
  | RestartPreviewExpiredError string
  | StaleRestartPreviewError string
  | AuthorizationError string
  | StaleAttemptError string
  | InvalidClaimError string
  | ClaimExpiredError string
  | ClaimNotExpiredError string
  | RecoveryNotAllowedError string
  | StaleRecoveryError string
  | GraphEditNotAllowedError string
  | GraphEditPreviewNotFoundError string
  | GraphEditPreviewExpiredError string
  | StaleGraphEditPreviewError string
  | HumanDecisionNotAllowedError string
  | StaleHumanDecisionError string
  | HumanDecisionFeedbackError string
  | HumanTaskTransferNotAllowedError string
  | InstanceNotFoundError string
  | InstanceAlreadyExistsError string
  | ConcurrentUpdateError string
  | TemplateNotFoundError string
  | TemplateAlreadyExistsError string
  | ConcurrentTemplateUpdateError string
  | InvalidOutboxClaimError string
  | DirectoryValidationError string
  | TemplateValidationError string
  | InvalidTemplateTransitionError string
  | DuplicateTemplateContentError string
  | DraftGenerationRejected string
  | RoleBindingRejected string
  | DraftCapabilityUnavailable string
  | RuntimeError string
  | InvalidPairingCodeError string
  | PairingCodeExpiredError string
  | PairingCodeUsedError string
  | InvalidDeviceCredentialError string
  | DeviceRevokedError string
  | EdgeDeviceNotFoundError string
  | UnsupportedEdgeCapabilityError string
  | InvalidInboxClaimError string
  | RetryableInboundError string
  | InvalidRoleBindingClaimError string
  | AgentContextRejected string
  | AgentContextUnavailable string
  | ConsoleDraftNotFoundError string
  | ConsoleDraftConflictError string
  | InvalidConsoleDraftClaimError string
  | ConsoleAttachmentNotFoundError string
  | ConsoleAttachmentConflictError string
  | AttachmentContextRejected string
  | AttachmentBlobUnavailableError string
  | FileExistsError string
  | FileNotFoundError string
  | ExternalError string

type_synonym 'a res = "exn + 'a"

section \<open>Values\<close>

text \<open>
  A Python value as it occurs in a work definition, an input or a result. \<open>PDict\<close> is a plain
  dictionary with string keys, \<open>PFrozen\<close> a \<open>FrozenDict\<close>; \<open>PFloat\<close> carries the text of the
  float (\<open>float.__repr__\<close>), which is all the kernel ever uses of one; members of a string
  enumeration are their string values, to which they compare equal.
\<close>

datatype pval =
    PNone
  | PBool bool
  | PInt int
  | PFloat string
  | PStr string
  | PBytes string
  | PList "pval list"
  | PTuple "pval list"
  | PSet "pval list"
  | PDict "(string \<times> pval) list"
  | PFrozen "(string \<times> pval) list"

type_synonym pmap = "(string, pval) odict"

text \<open>\<open>_freeze\<close> and the constructor of \<open>FrozenDict\<close>.\<close>

primrec freeze :: "pval \<Rightarrow> pval" where
  "freeze PNone = PNone"
| "freeze (PBool b) = PBool b"
| "freeze (PInt n) = PInt n"
| "freeze (PFloat t) = PFloat t"
| "freeze (PStr s) = PStr s"
| "freeze (PBytes s) = PBytes s"
| "freeze (PList xs) = PTuple (map freeze xs)"
| "freeze (PTuple xs) = PTuple (map freeze xs)"
| "freeze (PSet xs) = PSet (map freeze xs)"
| "freeze (PDict m) = PFrozen (map (map_prod id freeze) m)"
| "freeze (PFrozen m) = PFrozen m"

definition freeze_map :: "pmap \<Rightarrow> pmap" where
  "freeze_map m = map (map_prod id freeze) m"

text \<open>A value no part of which can be mutated, as long as every \<open>FrozenDict\<close> in it was built by
  its constructor.\<close>

fun frozen :: "pval \<Rightarrow> bool" where
  "frozen (PList xs) = False"
| "frozen (PDict m) = False"
| "frozen (PTuple xs) = (\<forall>x \<in> set xs. frozen x)"
| "frozen (PSet xs) = (\<forall>x \<in> set xs. frozen x)"
| "frozen (PFrozen m) = (\<forall>(k, v) \<in> set m. frozen v)"
| "frozen _ = True"

text \<open>The \<open>FrozenDict\<close> values inside a value are themselves frozen: the class invariant.\<close>

fun frozen_parts :: "pval \<Rightarrow> bool" where
  "frozen_parts (PList xs) = (\<forall>x \<in> set xs. frozen_parts x)"
| "frozen_parts (PTuple xs) = (\<forall>x \<in> set xs. frozen_parts x)"
| "frozen_parts (PSet xs) = (\<forall>x \<in> set xs. frozen_parts x)"
| "frozen_parts (PDict m) = (\<forall>(k, v) \<in> set m. frozen_parts v)"
| "frozen_parts (PFrozen m) = (\<forall>(k, v) \<in> set m. frozen v)"
| "frozen_parts _ = True"

lemma freeze_frozen: "frozen_parts v \<Longrightarrow> frozen (freeze v)"
  by (induction v rule: frozen_parts.induct) fastforce+

lemma freeze_frozen_id: "frozen v \<Longrightarrow> freeze v = v"
  by (induction v rule: frozen.induct) (auto simp: map_idI)

lemma freeze_idem: "frozen_parts v \<Longrightarrow> freeze (freeze v) = freeze v"
  by (simp add: freeze_frozen freeze_frozen_id)

subsection \<open>Views of a value\<close>

text \<open>\<open>isinstance(v, Mapping)\<close>, \<open>isinstance(v, Sequence)\<close> (strings apart), \<open>isinstance(v, str)\<close>.\<close>

fun as_map :: "pval \<Rightarrow> pmap option" where
  "as_map (PDict m) = Some m"
| "as_map (PFrozen m) = Some m"
| "as_map _ = None"

fun as_seq :: "pval \<Rightarrow> pval list option" where
  "as_seq (PList xs) = Some xs"
| "as_seq (PTuple xs) = Some xs"
| "as_seq _ = None"

fun as_str :: "pval \<Rightarrow> string option" where
  "as_str (PStr s) = Some s"
| "as_str _ = None"

text \<open>\<open>isinstance(v, str) and v.strip()\<close>\<close>

definition is_text :: "pval \<Rightarrow> bool" where
  "is_text v = (case as_str v of None \<Rightarrow> False | Some s \<Rightarrow> \<not> blank s)"

text \<open>\<open>m.get(key)\<close> and \<open>m.get(key, default)\<close>.\<close>

definition get_or :: "pmap \<Rightarrow> string \<Rightarrow> pval \<Rightarrow> pval" where
  "get_or m k d = (case dget m k of None \<Rightarrow> d | Some v \<Rightarrow> v)"

abbreviation getv :: "pmap \<Rightarrow> string \<Rightarrow> pval" where
  "getv m k \<equiv> get_or m k PNone"

text \<open>\<open>m.get(key)\<close> of a value that may be no mapping at all.\<close>

definition sub_get :: "pval \<Rightarrow> string \<Rightarrow> pval option" where
  "sub_get v k = (case as_map v of None \<Rightarrow> None | Some m \<Rightarrow> Some (getv m k))"

text \<open>The truth value of a Python value.\<close>

fun truthy :: "pval \<Rightarrow> bool" where
  "truthy PNone = False"
| "truthy (PBool b) = b"
| "truthy (PInt n) = (n \<noteq> 0)"
| "truthy (PFloat t) = (t \<noteq> ''0.0'' \<and> t \<noteq> ''-0.0'')"
| "truthy (PStr s) = (s \<noteq> [])"
| "truthy (PBytes s) = (s \<noteq> [])"
| "truthy (PList xs) = (xs \<noteq> [])"
| "truthy (PTuple xs) = (xs \<noteq> [])"
| "truthy (PSet xs) = (xs \<noteq> [])"
| "truthy (PDict m) = (m \<noteq> [])"
| "truthy (PFrozen m) = (m \<noteq> [])"

text \<open>
  \<open>==\<close> on values: numbers and booleans compare by value, lists and tuples are different,
  a dictionary equals a \<open>FrozenDict\<close> with the same items in any order.
\<close>

definition dict_eq :: "('v \<Rightarrow> 'v \<Rightarrow> bool) \<Rightarrow> (string \<times> 'v) list \<Rightarrow> (string \<times> 'v) list \<Rightarrow> bool" where
  "dict_eq eq m m' = (length m = length m' \<and>
     list_all (\<lambda>p. case dget m' (fst p) of None \<Rightarrow> False | Some w \<Rightarrow> eq (snd p) w) m)"

lemma dict_eq_cong [fundef_cong]:
  assumes "m = n" and "m' = n'" and "\<And>p w. p \<in> set n \<Longrightarrow> eq (snd p) w = eq' (snd p) w"
  shows "dict_eq eq m m' = dict_eq eq' n n'"
  using assms by (auto simp: dict_eq_def list_all_iff split: option.splits)

fun py_eq :: "pval \<Rightarrow> pval \<Rightarrow> bool" where
  "py_eq PNone w = (w = PNone)"
| "py_eq (PBool b) w = (w = PBool b \<or> w = PInt (if b then 1 else 0))"
| "py_eq (PInt n) w = (w = PInt n \<or> (n = 1 \<and> w = PBool True) \<or> (n = 0 \<and> w = PBool False))"
| "py_eq (PFloat t) w = (w = PFloat t)"
| "py_eq (PStr s) w = (w = PStr s)"
| "py_eq (PBytes s) w = (w = PBytes s)"
| "py_eq (PList xs) w = (case w of PList ys \<Rightarrow> list_all2 py_eq xs ys | _ \<Rightarrow> False)"
| "py_eq (PTuple xs) w = (case w of PTuple ys \<Rightarrow> list_all2 py_eq xs ys | _ \<Rightarrow> False)"
| "py_eq (PSet xs) w = (case w of
     PSet ys \<Rightarrow> length xs = length ys \<and> list_all (\<lambda>x. list_ex (py_eq x) ys) xs | _ \<Rightarrow> False)"
| "py_eq (PDict m) w = (case as_map w of None \<Rightarrow> False | Some m' \<Rightarrow> dict_eq py_eq m m')"
| "py_eq (PFrozen m) w = (case as_map w of None \<Rightarrow> False | Some m' \<Rightarrow> dict_eq py_eq m m')"

abbreviation map_eq :: "pmap \<Rightarrow> pmap \<Rightarrow> bool" where
  "map_eq m m' \<equiv> dict_eq py_eq m m'"

section \<open>Enumerations\<close>

datatype executor_kind = HUMAN | AGENT | TOOL

datatype instance_status =
    I_DRAFT | I_RUNNING | I_PAUSED | I_DONE | I_FAILED | I_CANCELED | I_DISCARDED

datatype template_status = T_DRAFT | T_ENABLED | T_DISABLED | T_DELETED

datatype node_status =
    N_PENDING | N_READY | N_RUNNING | N_WAITING_HUMAN | N_DONE | N_FAILED | N_CANCELED

datatype attempt_status =
    A_PENDING | A_RUNNING | A_WAITING_HUMAN | A_DONE | A_FAILED | A_CANCELED

datatype quality_verdict = Q_PASS | Q_FAIL

text \<open>The \<open>value\<close> of an enumeration member.\<close>

fun executor_value :: "executor_kind \<Rightarrow> string" where
  "executor_value HUMAN = ''human''"
| "executor_value AGENT = ''agent''"
| "executor_value TOOL = ''tool''"

fun instance_status_value :: "instance_status \<Rightarrow> string" where
  "instance_status_value I_DRAFT = ''draft''"
| "instance_status_value I_RUNNING = ''running''"
| "instance_status_value I_PAUSED = ''paused''"
| "instance_status_value I_DONE = ''done''"
| "instance_status_value I_FAILED = ''failed''"
| "instance_status_value I_CANCELED = ''canceled''"
| "instance_status_value I_DISCARDED = ''discarded''"

fun node_status_value :: "node_status \<Rightarrow> string" where
  "node_status_value N_PENDING = ''pending''"
| "node_status_value N_READY = ''ready''"
| "node_status_value N_RUNNING = ''running''"
| "node_status_value N_WAITING_HUMAN = ''waiting_human''"
| "node_status_value N_DONE = ''done''"
| "node_status_value N_FAILED = ''failed''"
| "node_status_value N_CANCELED = ''canceled''"

fun verdict_value :: "quality_verdict \<Rightarrow> string" where
  "verdict_value Q_PASS = ''pass''"
| "verdict_value Q_FAIL = ''fail''"

text \<open>\<open>ExecutorKind(value)\<close>, which raises \<open>ValueError\<close> for anything but a member's value.\<close>

definition to_executor :: "pval \<Rightarrow> executor_kind res" where
  "to_executor v =
     (if v = PStr ''human'' then Inr HUMAN
      else if v = PStr ''agent'' then Inr AGENT
      else if v = PStr ''tool'' then Inr TOOL
      else Inl (ValueError ''not a valid ExecutorKind''))"

definition to_verdict :: "string \<Rightarrow> quality_verdict res" where
  "to_verdict v =
     (if v = ''pass'' then Inr Q_PASS
      else if v = ''fail'' then Inr Q_FAIL
      else Inl (ValueError ''not a valid QualityVerdict''))"

lemma to_executor_value [simp]: "to_executor (PStr (executor_value k)) = Inr k"
  by (cases k) (simp_all add: to_executor_def)

lemma to_verdict_value [simp]: "to_verdict (verdict_value q) = Inr q"
  by (cases q) (simp_all add: to_verdict_def)

section \<open>Records\<close>

type_synonym time = int

record quality_result =
  qr_verdict :: quality_verdict
  qr_evidence :: string
  qr_suggestion :: string

definition mk_quality_result :: "quality_verdict \<Rightarrow> string \<Rightarrow> string \<Rightarrow> quality_result res" where
  "mk_quality_result v evidence suggestion =
     (if v = Q_FAIL \<and> blank evidence
      then Inl (ValueError ''failed quality result requires evidence'')
      else Inr \<lparr>qr_verdict = v, qr_evidence = evidence, qr_suggestion = suggestion\<rparr>)"

record node_spec =
  ns_key :: string
  ns_title :: string
  ns_owner_person_id :: string
  ns_executor :: executor_kind
  ns_deps :: "string list"
  ns_work :: pmap

definition mk_node_spec ::
    "string \<Rightarrow> string \<Rightarrow> string \<Rightarrow> executor_kind \<Rightarrow> string list \<Rightarrow> pmap \<Rightarrow> node_spec" where
  "mk_node_spec key title owner executor deps work =
     \<lparr>ns_key = key, ns_title = title, ns_owner_person_id = owner, ns_executor = executor,
      ns_deps = deps, ns_work = freeze_map work\<rparr>"

record instance_snapshot =
  sn_nodes :: "node_spec list"
  sn_goal :: string
  sn_template_version_id :: "string option"
  sn_locked :: bool
  sn_inputs :: pmap
  sn_schema_version :: string

definition mk_snapshot ::
    "node_spec list \<Rightarrow> string \<Rightarrow> string option \<Rightarrow> bool \<Rightarrow> pmap \<Rightarrow> string \<Rightarrow> instance_snapshot" where
  "mk_snapshot nodes goal template_version_id locked inputs schema_version =
     \<lparr>sn_nodes = nodes, sn_goal = goal, sn_template_version_id = template_version_id,
      sn_locked = locked, sn_inputs = freeze_map inputs, sn_schema_version = schema_version\<rparr>"

text \<open>\<open>InstanceSnapshot.node\<close>: the first node with the key, or \<open>KeyError\<close>.\<close>

definition snapshot_node :: "instance_snapshot \<Rightarrow> string \<Rightarrow> node_spec res" where
  "snapshot_node s key = get_or_raise (find (\<lambda>n. ns_key n = key) (sn_nodes s)) (KeyError key)"

abbreviation snapshot_keys :: "instance_snapshot \<Rightarrow> string list" where
  "snapshot_keys s \<equiv> map ns_key (sn_nodes s)"

record workflow_template =
  wt_id :: string
  wt_tenant_id :: string
  wt_name :: string
  wt_status :: template_status
  wt_version :: int
  wt_created_at :: time
  wt_updated_at :: time
  wt_deleted_at :: "time option"

record workflow_template_version =
  tv_id :: string
  tv_tenant_id :: string
  tv_template_id :: string
  tv_version :: int
  tv_schema_version :: string
  tv_locked :: bool
  tv_definition :: pmap
  tv_content_hash :: string
  tv_created_at :: time

record template_audit_event =
  te_id :: string
  te_tenant_id :: string
  te_template_id :: string
  te_event_type :: string
  te_actor_person_id :: string
  te_aggregate_version :: int
  te_payload :: pmap
  te_occurred_at :: time

record node_instance =
  ni_id :: string
  ni_instance_id :: string
  ni_node_key :: string
  ni_owner_person_id :: string
  ni_executor :: executor_kind
  ni_status :: node_status
  ni_current_attempt_no :: int
  ni_version :: int
  ni_ready_at :: "time option"
  ni_started_at :: "time option"
  ni_completed_at :: "time option"

record node_attempt =
  na_id :: string
  na_node_instance_id :: string
  na_attempt_no :: int
  na_status :: attempt_status
  na_input_snapshot :: pmap
  na_result :: "pmap option"
  na_quality_result :: "quality_result option"
  na_claimed_by :: "string option"
  na_claim_token :: "string option"
  na_claim_expires_at :: "time option"
  na_started_at :: "time option"
  na_completed_at :: "time option"
  na_submitted_by_person_id :: "string option"
  na_error_code :: "string option"
  na_error_message :: "string option"

record workflow_instance =
  wi_id :: string
  wi_tenant_id :: string
  wi_owner_person_id :: string
  wi_snapshot :: instance_snapshot
  wi_status :: instance_status
  wi_graph_revision :: int
  wi_version :: int
  wi_nodes :: "(string, node_instance) odict"
  wi_attempts :: "(string \<times> int, node_attempt) odict"
  wi_created_at :: "time option"
  wi_confirmed_at :: "time option"
  wi_completed_at :: "time option"

text \<open>Constructor calls with the defaults of the dataclasses.\<close>

definition new_node_instance ::
    "string \<Rightarrow> string \<Rightarrow> string \<Rightarrow> string \<Rightarrow> executor_kind \<Rightarrow> node_status \<Rightarrow> time option \<Rightarrow> node_instance" where
  "new_node_instance nid iid key owner executor status ready_at =
     \<lparr>ni_id = nid, ni_instance_id = iid, ni_node_key = key, ni_owner_person_id = owner,
      ni_executor = executor, ni_status = status, ni_current_attempt_no = 1, ni_version = 0,
      ni_ready_at = ready_at, ni_started_at = None, ni_completed_at = None\<rparr>"

definition new_node_attempt ::
    "string \<Rightarrow> string \<Rightarrow> int \<Rightarrow> attempt_status \<Rightarrow> pmap \<Rightarrow> node_attempt" where
  "new_node_attempt aid nid no status input =
     \<lparr>na_id = aid, na_node_instance_id = nid, na_attempt_no = no, na_status = status,
      na_input_snapshot = freeze_map input, na_result = None, na_quality_result = None,
      na_claimed_by = None, na_claim_token = None, na_claim_expires_at = None,
      na_started_at = None, na_completed_at = None, na_submitted_by_person_id = None,
      na_error_code = None, na_error_message = None\<rparr>"

definition new_instance ::
    "string \<Rightarrow> string \<Rightarrow> string \<Rightarrow> instance_snapshot \<Rightarrow> time \<Rightarrow> workflow_instance" where
  "new_instance iid tenant owner snapshot created_at =
     \<lparr>wi_id = iid, wi_tenant_id = tenant, wi_owner_person_id = owner, wi_snapshot = snapshot,
      wi_status = I_DRAFT, wi_graph_revision = 1, wi_version = 0, wi_nodes = [], wi_attempts = [],
      wi_created_at = Some created_at, wi_confirmed_at = None, wi_completed_at = None\<rparr>"

text \<open>\<open>instance.nodes[key]\<close> and \<open>instance.current_attempt(key)\<close>.\<close>

definition get_node :: "workflow_instance \<Rightarrow> string \<Rightarrow> node_instance res" where
  "get_node w key = get_or_raise (dget (wi_nodes w) key) (KeyError key)"

definition current_attempt :: "workflow_instance \<Rightarrow> string \<Rightarrow> node_attempt res" where
  "current_attempt w key =
     rbind (get_node w key) (\<lambda>n.
       get_or_raise (dget (wi_attempts w) (key, ni_current_attempt_no n)) (KeyError key))"

text \<open>Mutation of the node object stored under a key, and of its current attempt object.\<close>

definition put_node :: "string \<Rightarrow> node_instance \<Rightarrow> workflow_instance \<Rightarrow> workflow_instance" where
  "put_node key n w = w\<lparr>wi_nodes := dput key n (wi_nodes w)\<rparr>"

definition put_attempt :: "string \<Rightarrow> int \<Rightarrow> node_attempt \<Rightarrow> workflow_instance \<Rightarrow> workflow_instance" where
  "put_attempt key no a w = w\<lparr>wi_attempts := dput (key, no) a (wi_attempts w)\<rparr>"

record workflow_instance_summary =
  ws_id :: string
  ws_goal :: string
  ws_status :: instance_status
  ws_completed_nodes :: nat
  ws_total_nodes :: nat
  ws_created_at :: time

record human_task_summary =
  ht_instance_id :: string
  ht_goal :: string
  ht_instance_status :: instance_status
  ht_instance_owner_person_id :: string
  ht_node_key :: string
  ht_node_title :: string
  ht_attempt_no :: int
  ht_node_version :: int
  ht_started_at :: time

record attention_candidate =
  ac_instance_id :: string
  ac_goal :: string
  ac_instance_status :: instance_status
  ac_created_at :: time
  ac_node_key :: "string option"
  ac_node_title :: "string option"
  ac_node_status :: "node_status option"
  ac_node_executor :: "executor_kind option"
  ac_node_owner_person_id :: "string option"
  ac_node_occurred_at :: "time option"
  ac_reject_target :: "string option"

record node_activation =
  act_instance_id :: string
  act_node_key :: string
  act_node_instance_id :: string
  act_attempt_id :: string
  act_attempt_no :: int
  act_owner_person_id :: string
  act_executor :: executor_kind
  act_status :: node_status
  act_expected_node_version :: int
  act_claimed_by :: "string option"
  act_claim_token :: "string option"
  act_claim_expires_at :: "time option"
  act_recovered :: bool

end
