(* ===== verification/Py_Text.thy ===== *)
theory Py_Text
  imports Domain_Model
begin

text \<open>
  The text conversions of the Python standard library that the kernel relies on: \<open>str\<close> and
  \<open>repr\<close> of a value, \<open>json.dumps(..., ensure_ascii=False, separators=(",", ":"))\<close>, the length
  of its UTF-8 encoding, \<open>date.fromisoformat\<close> (Python 3.10: only \<open>YYYY-MM-DD\<close>) and
  \<open>datetime.isoformat\<close> of a UTC time.
\<close>

section \<open>Joining and hexadecimal digits\<close>

fun join :: "string \<Rightarrow> string list \<Rightarrow> string" where
  "join sep [] = []"
| "join sep [s] = s"
| "join sep (s # t # ts) = s @ sep @ join sep (t # ts)"

definition hex_digit :: "nat \<Rightarrow> char" where
  "hex_digit n = (if n < 10 then char_of (48 + n) else char_of (87 + n))"

definition hex2 :: "nat \<Rightarrow> string" where
  "hex2 n = [hex_digit (n div 16 mod 16), hex_digit (n mod 16)]"

section \<open>str and repr\<close>

definition repr_char :: "char \<Rightarrow> char \<Rightarrow> string" where
  "repr_char q c = (let n = (of_char c :: nat) in
     if c = q \<or> n = 92 then [CHR 0x5C, c]
     else if n = 9 then [CHR 0x5C, CHR ''t'']
     else if n = 10 then [CHR 0x5C, CHR ''n'']
     else if n = 13 then [CHR 0x5C, CHR ''r'']
     else if n < 32 \<or> (127 \<le> n \<and> n \<le> 160) \<or> n = 173 then [CHR 0x5C, CHR ''x''] @ hex2 n
     else [c])"

definition repr_str :: "string \<Rightarrow> string" where
  "repr_str s = (let q = (if CHR 0x27 \<in> set s \<and> CHR 0x22 \<notin> set s then CHR 0x22 else CHR 0x27)
     in [q] @ concat (map (repr_char q) s) @ [q])"

definition bool_text :: "bool \<Rightarrow> string" where
  "bool_text b = (if b then ''True'' else ''False'')"

definition repr_items :: "(string \<times> string) list \<Rightarrow> string" where
  "repr_items m = ''{'' @ join '', '' (map (\<lambda>(k, t). repr_str k @ '': '' @ t) m) @ ''}''"

primrec py_repr :: "pval \<Rightarrow> string" where
  "py_repr PNone = ''None''"
| "py_repr (PBool b) = bool_text b"
| "py_repr (PInt n) = dec_int n"
| "py_repr (PFloat t) = t"
| "py_repr (PStr s) = repr_str s"
| "py_repr (PBytes s) = CHR ''b'' # repr_str s"
| "py_repr (PList xs) = ''['' @ join '', '' (map py_repr xs) @ '']''"
| "py_repr (PTuple xs) = ''('' @ join '', '' (map py_repr xs) @
     (if length xs = 1 then '',)'' else '')'')"
| "py_repr (PSet xs) = (if xs = [] then ''frozenset()''
     else ''frozenset({'' @ join '', '' (map py_repr xs) @ ''})'')"
| "py_repr (PDict m) = repr_items (map (map_prod id py_repr) m)"
| "py_repr (PFrozen m) = ''FrozenDict('' @ repr_items (map (map_prod id py_repr) m) @ '')''"

definition py_str :: "pval \<Rightarrow> string" where
  "py_str v = (case as_str v of Some s \<Rightarrow> s | None \<Rightarrow> py_repr v)"

lemma py_str_PStr [simp]: "py_str (PStr s) = s"
  by (simp add: py_str_def)

section \<open>JSON\<close>

definition json_char :: "char \<Rightarrow> string" where
  "json_char c = (let n = (of_char c :: nat) in
     if n = 34 \<or> n = 92 then [CHR 0x5C, c]
     else if n = 8 then [CHR 0x5C, CHR ''b'']
     else if n = 9 then [CHR 0x5C, CHR ''t'']
     else if n = 10 then [CHR 0x5C, CHR ''n'']
     else if n = 12 then [CHR 0x5C, CHR ''f'']
     else if n = 13 then [CHR 0x5C, CHR ''r'']
     else if n < 32 then [CHR 0x5C, CHR ''u'', CHR ''0'', CHR ''0''] @ hex2 n
     else [c])"

definition json_str :: "string \<Rightarrow> string" where
  "json_str s = [CHR 0x22] @ concat (map json_char s) @ [CHR 0x22]"

definition json_float :: "string \<Rightarrow> string" where
  "json_float t = (if t = ''nan'' then ''NaN'' else if t = ''inf'' then ''Infinity''
     else if t = ''-inf'' then ''-Infinity'' else t)"

definition json_items :: "bool \<Rightarrow> (string \<times> string option) list \<Rightarrow> string option" where
  "json_items sort_keys m =
     map_option (\<lambda>ps. ''{'' @ join '','' (map (\<lambda>(k, t). json_str k @ '':'' @ t)
         (if sort_keys then sort_key fst ps else ps)) @ ''}'')
       (those (map (\<lambda>(k, t). map_option (Pair k) t) m))"

text \<open>\<open>None\<close> where \<open>json.dumps\<close> raises \<open>TypeError\<close>: a \<open>FrozenDict\<close> is no \<open>dict\<close>.\<close>

primrec json_text :: "bool \<Rightarrow> pval \<Rightarrow> string option" where
  "json_text srt PNone = Some ''null''"
| "json_text srt (PBool b) = Some (if b then ''true'' else ''false'')"
| "json_text srt (PInt n) = Some (dec_int n)"
| "json_text srt (PFloat t) = Some (json_float t)"
| "json_text srt (PStr s) = Some (json_str s)"
| "json_text srt (PBytes s) = None"
| "json_text srt (PList xs) =
     map_option (\<lambda>ts. ''['' @ join '','' ts @ '']'') (those (map (json_text srt) xs))"
| "json_text srt (PTuple xs) =
     map_option (\<lambda>ts. ''['' @ join '','' ts @ '']'') (those (map (json_text srt) xs))"
| "json_text srt (PSet xs) = None"
| "json_text srt (PDict m) = json_items srt (map (map_prod id (json_text srt)) m)"
| "json_text srt (PFrozen m) = None"

definition utf8_length :: "string \<Rightarrow> nat" where
  "utf8_length s = sum_list (map (\<lambda>c. if (of_char c :: nat) < 128 then 1 else 2) s)"

definition utf8_encode :: "string \<Rightarrow> nat list" where
  "utf8_encode s = concat (map (\<lambda>c. let n = of_char c in
     if n < 128 then [n] else [192 + n div 64, 128 + n mod 64]) s)"

lemma length_utf8_encode: "length (utf8_encode s) = utf8_length s"
  by (induction s) (simp_all add: utf8_encode_def utf8_length_def Let_def)

section \<open>Dates and times\<close>

definition leap_year :: "int \<Rightarrow> bool" where
  "leap_year y = (y mod 4 = 0 \<and> (y mod 100 \<noteq> 0 \<or> y mod 400 = 0))"

definition days_in_month :: "int \<Rightarrow> int \<Rightarrow> int" where
  "days_in_month y m = (if m = 2 then (if leap_year y then 29 else 28)
     else if m \<in> {4, 6, 9, 11} then 30 else 31)"

definition is_digit :: "char \<Rightarrow> bool" where
  "is_digit c = (CHR ''0'' \<le> c \<and> c \<le> CHR ''9'')"

definition date_valid :: "string \<Rightarrow> bool" where
  "date_valid s = (length s = 10 \<and> s ! 4 = CHR ''-'' \<and> s ! 7 = CHR ''-'' \<and>
     list_all is_digit (take 4 s) \<and> list_all is_digit (take 2 (drop 5 s)) \<and>
     list_all is_digit (drop 8 s) \<and>
     (let y = int (undec (take 4 s)); m = int (undec (take 2 (drop 5 s)));
          d = int (undec (drop 8 s))
      in 1 \<le> y \<and> 1 \<le> m \<and> m \<le> 12 \<and> 1 \<le> d \<and> d \<le> days_in_month y m))"

text \<open>Proleptic Gregorian date of a day number (days since 1970-01-01).\<close>

definition civil_of_days :: "int \<Rightarrow> int \<times> int \<times> int" where
  "civil_of_days days =
     (let z = days + 719468; era = z div 146097; doe = z mod 146097;
          yoe = (doe - doe div 1460 + doe div 36524 - doe div 146096) div 365;
          doy = doe - (365 * yoe + yoe div 4 - yoe div 100);
          mp = (5 * doy + 2) div 153;
          d = doy - (153 * mp + 2) div 5 + 1;
          m = (if mp < 10 then mp + 3 else mp - 9);
          y = yoe + era * 400
      in (if m \<le> 2 then y + 1 else y, m, d))"

definition pad_dec :: "nat \<Rightarrow> int \<Rightarrow> string" where
  "pad_dec w n = (let s = dec_int n in replicate (w - length s) CHR ''0'' @ s)"

definition isoformat :: "time \<Rightarrow> string" where
  "isoformat t =
     (let us = t mod 1000000; secs = t div 1000000; sod = secs mod 86400;
          (y, m, d) = civil_of_days (secs div 86400)
      in pad_dec 4 y @ ''-'' @ pad_dec 2 m @ ''-'' @ pad_dec 2 d @ ''T'' @
         pad_dec 2 (sod div 3600) @ '':'' @ pad_dec 2 (sod div 60 mod 60) @ '':'' @
         pad_dec 2 (sod mod 60) @ (if us = 0 then [] else ''.'' @ pad_dec 6 us) @ ''+00:00'')"

section \<open>Hashability and iteration\<close>

text \<open>Membership in a \<open>set\<close> hashes the value first: lists and mappings raise \<open>TypeError\<close>.\<close>

fun hashable :: "pval \<Rightarrow> bool" where
  "hashable (PList xs) = False"
| "hashable (PDict m) = False"
| "hashable (PFrozen m) = False"
| "hashable (PTuple xs) = (\<forall>x \<in> set xs. hashable x)"
| "hashable _ = True"

definition in_str_set :: "pval \<Rightarrow> string list \<Rightarrow> bool res" where
  "in_str_set v names =
     (if hashable v then Inr (case as_str v of None \<Rightarrow> False | Some s \<Rightarrow> s \<in> set names)
      else Inl (TypeError ''unhashable type''))"

fun iter_items :: "pval \<Rightarrow> pval list res" where
  "iter_items (PList xs) = Inr xs"
| "iter_items (PTuple xs) = Inr xs"
| "iter_items (PSet xs) = Inr xs"
| "iter_items (PStr s) = Inr (map (\<lambda>c. PStr [c]) s)"
| "iter_items (PBytes s) = Inr (map (\<lambda>c. PInt (int (of_char c))) s)"
| "iter_items (PDict m) = Inr (map (PStr \<circ> fst) m)"
| "iter_items (PFrozen m) = Inr (map (PStr \<circ> fst) m)"
| "iter_items _ = Inl (TypeError ''object is not iterable'')"

end
