(* ===== verification/Deliverables.thy ===== *)
theory Deliverables
  imports Py_Text
begin

text \<open>
  Human decision contracts (\<open>src/larkflow/workflow/decision.py\<close>) and typed node deliverables
  (\<open>src/larkflow/workflow/deliverables.py\<close>): validation of a declared output contract, and
  validation and normalisation of a submitted result against it.
\<close>

section \<open>Human decisions\<close>

datatype human_decision = ACCEPT | REJECT

fun decision_value :: "human_decision \<Rightarrow> string" where
  "decision_value ACCEPT = ''accept''"
| "decision_value REJECT = ''reject''"

abbreviation HUMAN_DECISION_KIND :: string where
  "HUMAN_DECISION_KIND \<equiv> ''accept_reject''"

abbreviation MAX_HUMAN_DECISION_FEEDBACK_CHARS :: nat where
  "MAX_HUMAN_DECISION_FEEDBACK_CHARS \<equiv> 1000"

definition human_decision_config :: "pmap \<Rightarrow> pmap option" where
  "human_decision_config work =
     (case as_map (getv work ''decision'') of
        None \<Rightarrow> None
      | Some value \<Rightarrow>
          if getv value ''kind'' = PStr HUMAN_DECISION_KIND then Some value else None)"

definition human_decision_action_name :: "human_decision \<Rightarrow> string" where
  "human_decision_action_name d = ''human_decision_'' @ decision_value d"

definition normalize_human_decision_feedback ::
    "human_decision \<Rightarrow> pval \<Rightarrow> string option res" where
  "normalize_human_decision_feedback decision feedback =
     (if decision = ACCEPT then Inr None
      else case as_str feedback of
        None \<Rightarrow> Inl (HumanDecisionFeedbackError ''feedback is required'')
      | Some s \<Rightarrow>
          if blank s then Inl (HumanDecisionFeedbackError ''feedback is required'')
          else if length (py_strip s) > MAX_HUMAN_DECISION_FEEDBACK_CHARS
            then Inl (HumanDecisionFeedbackError ''feedback is too long'')
          else Inr (Some (py_strip s)))"

section \<open>Output contracts\<close>

definition SUPPORTED_OUTPUT_TYPES :: "string list" where
  "SUPPORTED_OUTPUT_TYPES =
     [''boolean'', ''choice'', ''data'', ''date'', ''decision'', ''document'', ''file'',
      ''integer'', ''long_text'', ''money'', ''number'', ''object'', ''string_list'', ''text'', ''url'']"

abbreviation MAX_DELIVERABLE_TEXT_CHARS :: nat where
  "MAX_DELIVERABLE_TEXT_CHARS \<equiv> 12000"

abbreviation MAX_DELIVERABLE_JSON_BYTES :: nat where
  "MAX_DELIVERABLE_JSON_BYTES \<equiv> 32000"

text \<open>\<open>re.compile(r"^[a-z][a-z0-9_]*$").fullmatch\<close>, of node keys and of output ids.\<close>

definition lower_alpha :: "char \<Rightarrow> bool" where
  "lower_alpha c = (CHR ''a'' \<le> c \<and> c \<le> CHR ''z'')"

fun snake_case :: "string \<Rightarrow> bool" where
  "snake_case [] = False"
| "snake_case (c # cs) =
     (lower_alpha c \<and> list_all (\<lambda>d. lower_alpha d \<or> is_digit d \<or> d = CHR ''_'') cs)"

text \<open>\<open>isinstance(v, Sequence) and not isinstance(v, (str, bytes))\<close> is \<open>as_seq v \<noteq> None\<close>.\<close>

definition text_options :: "pval \<Rightarrow> bool" where
  "text_options v = (case as_seq v of None \<Rightarrow> False | Some xs \<Rightarrow> xs \<noteq> [] \<and> list_all is_text xs)"

text \<open>One pass of the loop over the declared outputs; the state is the set \<open>seen\<close>.\<close>

definition check_output :: "pval \<Rightarrow> string list \<Rightarrow> string list res" where
  "check_output raw seen =
     (case as_map raw of
        None \<Rightarrow> Inl (DeliverableContractError ''work output must be an object'')
      | Some m \<Rightarrow>
          (case as_str (getv m ''id'') of
             None \<Rightarrow> Inl (DeliverableContractError ''work output id must be lower snake_case'')
           | Some output_id \<Rightarrow>
               if \<not> snake_case output_id
                 then Inl (DeliverableContractError ''work output id must be lower snake_case'')
               else if output_id \<in> set seen
                 then Inl (DeliverableContractError ''duplicate work output id'')
               else rbind (in_str_set (getv m ''type'') SUPPORTED_OUTPUT_TYPES) (\<lambda>supported.
                 if \<not> supported
                   then Inl (DeliverableContractError ''unsupported work output type'')
                 else if get_or m ''required'' (PBool False) \<notin> {PBool True, PBool False}
                   then Inl (DeliverableContractError ''work output required must be boolean'')
                 else if \<exists>field \<in> set [''label'', ''help'', ''placeholder''].
                     dget m field \<noteq> None \<and> \<not> is_text (getv m field)
                   then Inl (DeliverableContractError ''work output field must be text'')
                 else if getv m ''type'' = PStr ''choice'' \<and> \<not> text_options (getv m ''options'')
                   then Inl (DeliverableContractError ''choice output requires text options'')
                 else if getv m ''type'' \<noteq> PStr ''choice'' \<and> dget m ''options'' \<noteq> None
                   then Inl (DeliverableContractError ''only choice output accepts options'')
                 else Inr (output_id # seen))))"

definition validate_output_contract :: "pval \<Rightarrow> unit res" where
  "validate_output_contract outputs =
     (case as_seq outputs of
        None \<Rightarrow> Inl (DeliverableContractError ''work outputs are required'')
      | Some [] \<Rightarrow> Inl (DeliverableContractError ''work outputs are required'')
      | Some xs \<Rightarrow> rbind (foldM check_output xs []) (\<lambda>_. Inr ()))"

definition requires_structured_human_input :: "pmap \<Rightarrow> bool" where
  "requires_structured_human_input work =
     (case as_seq (getv work ''outputs'') of
        None \<Rightarrow> False
      | Some xs \<Rightarrow> list_ex (\<lambda>item. sub_get item ''required'' = Some (PBool True)) xs)"

section \<open>Submitted results\<close>

fun meaningful :: "pval \<Rightarrow> bool" where
  "meaningful PNone = False"
| "meaningful (PStr s) = (\<not> blank s)"
| "meaningful (PDict m) = (m \<noteq> [])"
| "meaningful (PFrozen m) = (m \<noteq> [])"
| "meaningful (PList xs) = (xs \<noteq> [])"
| "meaningful (PTuple xs) = (xs \<noteq> [])"
| "meaningful _ = True"

definition prefix_of :: "string \<Rightarrow> string \<Rightarrow> bool" where
  "prefix_of p s = (take (length p) s = p)"

text \<open>\<open>_validate_value\<close>.\<close>

definition validate_value :: "pmap \<Rightarrow> pval \<Rightarrow> pval res" where
  "validate_value declaration value =
     (let kind = py_str (getv declaration ''type'') in
      if kind \<in> {''text'', ''long_text'', ''document'', ''file'', ''url''} then
        (case as_str value of
           None \<Rightarrow> Inl (DeliverableValidationError ''text is required'')
         | Some s \<Rightarrow>
             if blank s then Inl (DeliverableValidationError ''text is required'')
             else if length (py_strip s) > MAX_DELIVERABLE_TEXT_CHARS
               then Inl (DeliverableValidationError ''text is too long'')
             else if kind = ''url'' \<and> \<not> (prefix_of ''https://'' (py_strip s) \<or> prefix_of ''http://'' (py_strip s))
               then Inl (DeliverableValidationError ''not an HTTP address'')
             else Inr (PStr (py_strip s)))
      else if kind = ''integer'' then
        (case value of PInt n \<Rightarrow> Inr value
         | _ \<Rightarrow> Inl (DeliverableValidationError ''an integer is required''))
      else if kind \<in> {''number'', ''money''} then
        (case value of PInt n \<Rightarrow> Inr value | PFloat t \<Rightarrow> Inr value
         | _ \<Rightarrow> Inl (DeliverableValidationError ''a number is required''))
      else if kind = ''boolean'' then
        (case value of PBool b \<Rightarrow> Inr value
         | _ \<Rightarrow> Inl (DeliverableValidationError ''a boolean is required''))
      else if kind = ''date'' then
        (case as_str value of
           None \<Rightarrow> Inl (DeliverableValidationError ''a date is required'')
         | Some s \<Rightarrow> if date_valid s then Inr value
             else Inl (DeliverableValidationError ''a valid date is required''))
      else if kind = ''choice'' then
        rbind (iter_items (get_or declaration ''options'' (PTuple []))) (\<lambda>options.
          case as_str value of
            None \<Rightarrow> Inl (DeliverableValidationError ''not one of the options'')
          | Some s \<Rightarrow> if s \<in> set (map py_str options) then Inr value
              else Inl (DeliverableValidationError ''not one of the options''))
      else if kind = ''string_list'' then
        (case as_seq value of
           None \<Rightarrow> Inl (DeliverableValidationError ''a list of texts is required'')
         | Some xs \<Rightarrow>
             if xs = [] \<or> \<not> list_all is_text xs
               then Inl (DeliverableValidationError ''a list of texts is required'')
             else Inr (PList (map (\<lambda>x. PStr (py_strip (py_str x))) xs)))
      else if kind = ''object'' \<and> as_map value = None then
        Inl (DeliverableValidationError ''an object is required'')
      else Inr value)"

text \<open>\<open>{str(item["id"]): item for item in outputs if ...}\<close>\<close>

definition declared_outputs :: "pval list \<Rightarrow> (string, pmap) odict" where
  "declared_outputs outputs =
     foldl (\<lambda>d item. case as_map item of
              None \<Rightarrow> d
            | Some m \<Rightarrow> (case as_str (getv m ''id'') of None \<Rightarrow> d | Some k \<Rightarrow> dput k m d))
       [] outputs"

definition required_outputs :: "(string, pmap) odict \<Rightarrow> (string, pmap) odict" where
  "required_outputs declared = filter (\<lambda>(k, m). getv m ''required'' = PBool True) declared"

text \<open>The loop that normalises the declared values in place.\<close>

definition normalize_output ::
    "(string, pmap) odict \<Rightarrow> string \<times> pval \<Rightarrow> (string \<times> pval) res" where
  "normalize_output declared entry =
     (case dget declared (fst entry) of
        None \<Rightarrow> Inr entry
      | Some declaration \<Rightarrow>
          if getv declaration ''required'' = PBool True \<or> meaningful (snd entry)
            then rbind (validate_value declaration (snd entry)) (\<lambda>v. Inr (fst entry, v))
          else Inr entry)"

definition strict_normalize ::
    "(string, pmap) odict \<Rightarrow> bool \<Rightarrow> pmap \<Rightarrow> pmap res" where
  "strict_normalize declared allow_undeclared normalized =
     (if (\<exists>k \<in> set (dkeys normalized). k \<notin> set (dkeys declared)) \<and> \<not> allow_undeclared
        then Inl (DeliverableValidationError ''undeclared fields'')
      else if \<exists>k \<in> set (dkeys (required_outputs declared)).
          dget normalized k = None \<or> \<not> meaningful (getv normalized k)
        then Inl (DeliverableValidationError ''a required deliverable is missing'')
      else mapM (normalize_output declared) normalized)"

text \<open>The final check that the result can be stored, and is small enough.\<close>

definition check_json :: "bool \<Rightarrow> pmap \<Rightarrow> pmap res" where
  "check_json strict normalized =
     (case json_text False (PDict normalized) of
        None \<Rightarrow> Inl (DeliverableValidationError ''not JSON serializable'')
      | Some t \<Rightarrow>
          if strict \<and> utf8_length t > MAX_DELIVERABLE_JSON_BYTES
            then Inl (DeliverableValidationError ''deliverable is too large'')
          else Inr normalized)"

definition validate_node_deliverable :: "pmap \<Rightarrow> pval \<Rightarrow> bool \<Rightarrow> pmap res" where
  "validate_node_deliverable work result allow_undeclared =
     (case as_map result of
        None \<Rightarrow> Inl (DeliverableValidationError ''deliverable is empty'')
      | Some normalized \<Rightarrow>
          if \<not> list_ex (\<lambda>(k, v). meaningful v) normalized
            then Inl (DeliverableValidationError ''deliverable is empty'')
          else (case as_seq (getv work ''outputs'') of
              None \<Rightarrow> check_json False normalized
            | Some outputs \<Rightarrow>
                let declared = declared_outputs outputs in
                if required_outputs declared = [] then check_json False normalized
                else rbind (strict_normalize declared allow_undeclared normalized)
                       (check_json True)))"

definition validate_human_deliverable :: "pmap \<Rightarrow> pval \<Rightarrow> pmap res" where
  "validate_human_deliverable work result = validate_node_deliverable work result False"

section \<open>What an accepted deliverable satisfies\<close>

text \<open>A value of a declared type, in normal form: text is stripped, not blank and bounded, a
  choice is one of the options, a list of texts has no blank or unstripped entry.\<close>

definition normal_text :: "pval \<Rightarrow> bool" where
  "normal_text v = (case as_str v of None \<Rightarrow> False | Some s \<Rightarrow> \<not> blank s \<and> py_strip s = s)"

definition conforms :: "pmap \<Rightarrow> pval \<Rightarrow> bool" where
  "conforms declaration v =
     (let kind = py_str (getv declaration ''type'') in
      if kind \<in> {''text'', ''long_text'', ''document'', ''file'', ''url''} then
        normal_text v \<and> length (py_str v) \<le> MAX_DELIVERABLE_TEXT_CHARS \<and>
        (kind = ''url'' \<longrightarrow> prefix_of ''https://'' (py_str v) \<or> prefix_of ''http://'' (py_str v))
      else if kind = ''integer'' then (\<exists>n. v = PInt n)
      else if kind \<in> {''number'', ''money''} then (\<exists>n. v = PInt n) \<or> (\<exists>t. v = PFloat t)
      else if kind = ''boolean'' then (\<exists>b. v = PBool b)
      else if kind = ''date'' then (\<exists>s. v = PStr s \<and> date_valid s)
      else if kind = ''choice'' then
        (\<exists>s options. v = PStr s \<and>
           iter_items (get_or declaration ''options'' (PTuple [])) = Inr options \<and>
           s \<in> set (map py_str options))
      else if kind = ''string_list'' then
        (\<exists>xs. v = PList xs \<and> xs \<noteq> [] \<and> (\<forall>x \<in> set xs. normal_text x))
      else kind = ''object'' \<longrightarrow> as_map v \<noteq> None)"

lemma as_str_Some_iff [simp]: "as_str v = Some s \<longleftrightarrow> v = PStr s"
  by (cases v) auto

lemma normal_text_strip: "is_text v \<Longrightarrow> normal_text (PStr (py_strip (py_str v)))"
  by (auto simp: is_text_def normal_text_def not_blank_strip split: option.splits)

lemma choice_Inr:
  assumes "rbind items (\<lambda>options. case as_str w of
             None \<Rightarrow> Inl e
           | Some s \<Rightarrow> if s \<in> set (map py_str options) then Inr w else Inl e) = Inr v"
  shows "\<exists>s options. v = PStr s \<and> items = Inr options \<and> s \<in> set (map py_str options)"
  using assms by (cases items) (auto split: option.split_asm if_split_asm)

lemma validate_value_conforms:
  assumes "validate_value declaration w = Inr v"
  shows "conforms declaration v"
proof -
  define kind where "kind = py_str (getv declaration ''type'')"
  define texts where "texts = {''text'', ''long_text'', ''document'', ''file'', ''url''}"
  note val = assms [unfolded validate_value_def Let_def, folded kind_def texts_def]
  have lists: "\<exists>ys. v = PList ys \<and> ys \<noteq> [] \<and> (\<forall>x \<in> set ys. normal_text x)"
    if "xs \<noteq> [] \<and> list_all is_text xs" "PList (map (\<lambda>x. PStr (py_strip (py_str x))) xs) = v" for xs
    using that by (auto simp: list_all_iff normal_text_strip)
  have "(if kind \<in> texts then normal_text v \<and> length (py_str v) \<le> MAX_DELIVERABLE_TEXT_CHARS \<and>
        (kind = ''url'' \<longrightarrow> prefix_of ''https://'' (py_str v) \<or> prefix_of ''http://'' (py_str v))
      else if kind = ''integer'' then (\<exists>n. v = PInt n)
      else if kind \<in> {''number'', ''money''} then (\<exists>n. v = PInt n) \<or> (\<exists>t. v = PFloat t)
      else if kind = ''boolean'' then (\<exists>b. v = PBool b)
      else if kind = ''date'' then (\<exists>s. v = PStr s \<and> date_valid s)
      else if kind = ''choice'' then
        (\<exists>s options. v = PStr s \<and>
           iter_items (get_or declaration ''options'' (PTuple [])) = Inr options \<and>
           s \<in> set (map py_str options))
      else if kind = ''string_list'' then
        (\<exists>xs. v = PList xs \<and> xs \<noteq> [] \<and> (\<forall>x \<in> set xs. normal_text x))
      else kind = ''object'' \<longrightarrow> as_map v \<noteq> None)"
  proof (cases "kind \<in> texts")
    case True
    with val show ?thesis
      by (simp split: option.split_asm if_split_asm) (auto simp: normal_text_def not_blank_strip)
  next
    case False
    note val = val [unfolded if_not_P [OF False]]
    show ?thesis unfolding if_not_P [OF False] using val
      apply (simp only: split: if_split)
      apply (intro conjI impI)
             apply (simp_all split: pval.split_asm option.split_asm if_split_asm)
            apply (rule lists; assumption)
           apply (drule choice_Inr, simp)
          apply (rule exI, rule conjI, erule sym, assumption)
         apply (rule exI, erule sym | rule disjI1, rule exI, erule sym | rule disjI2, rule exI, erule sym)+
      done
  qed
  then show ?thesis
    unfolding conforms_def Let_def kind_def texts_def .
qed

end
