(* ===== verification/Snapshot_Graph.thy ===== *)
theory Snapshot_Graph
  imports Deliverables
begin

text \<open>
  Validation and traversal of frozen instance graphs, \<open>src/larkflow/workflow/graph.py\<close>: the
  snapshot validator, Kahn's algorithm with its stable order, the ready set and the downstream
  closure. The theory proves that a validated snapshot is well formed, that the topological
  order is one and fails only on a cycle, and that the downstream search computes exactly the
  transitive successors.
\<close>

section \<open>Work definitions\<close>

definition non_empty_sequence :: "pval \<Rightarrow> bool" where
  "non_empty_sequence v = (case as_seq v of None \<Rightarrow> False | Some xs \<Rightarrow> xs \<noteq> [])"

text \<open>The guards of \<open>_validate_work\<close> for tools, agents and decisions, in the order of the code.\<close>

definition validate_tool :: "pmap \<Rightarrow> unit res" where
  "validate_tool work =
     (case as_map (getv work ''tool'') of
        None \<Rightarrow> Inl (GraphValidationError ''tool definition is required'')
      | Some tool \<Rightarrow>
          ensure (is_text (getv tool ''kind'')) (GraphValidationError ''tool kind is required''))"

definition validate_agent :: "pmap \<Rightarrow> unit res" where
  "validate_agent work =
     (case as_map (getv work ''agent'') of
        None \<Rightarrow> Inl (GraphValidationError ''agent definition must be an object'')
      | Some agent \<Rightarrow>
          rbind (ensure (is_text (getv agent ''kind''))
                   (GraphValidationError ''agent kind is required'')) (\<lambda>_.
          rbind (ensure (is_text (getv agent ''instructions''))
                   (GraphValidationError ''agent instructions are required'')) (\<lambda>_.
          rbind (ensure (is_text (get_or agent ''model_role'' (PStr ''default'')))
                   (GraphValidationError ''agent model_role is invalid'')) (\<lambda>_.
          rbind (in_str_set (get_or agent ''result_format'' (PStr ''plain_text''))
                   [''plain_text'', ''source_claims.v1'', ''source_decision.v1'']) (\<lambda>known.
          ensure known (GraphValidationError ''agent result_format is invalid''))))))"

definition validate_decision :: "executor_kind \<Rightarrow> pmap \<Rightarrow> string list \<Rightarrow> unit res" where
  "validate_decision executor work deps =
     (case as_map (getv work ''decision'') of
        None \<Rightarrow> Inl (GraphValidationError ''decision definition requires a Human node'')
      | Some decision \<Rightarrow>
          rbind (ensure (executor = HUMAN)
                   (GraphValidationError ''decision definition requires a Human node'')) (\<lambda>_.
          rbind (ensure (set (dkeys decision) = {''kind'', ''reject_target''})
                   (GraphValidationError ''decision definition fields are invalid'')) (\<lambda>_.
          rbind (ensure (getv decision ''kind'' = PStr HUMAN_DECISION_KIND)
                   (GraphValidationError ''decision kind is invalid'')) (\<lambda>_.
          ensure (case as_str (getv decision ''reject_target'') of
                    None \<Rightarrow> False | Some target \<Rightarrow> target \<in> set deps)
            (GraphValidationError ''decision reject_target must be a direct dependency'')))))"

text \<open>\<open>except DeliverableContractError as exc: raise GraphValidationError(str(exc))\<close>\<close>

fun as_graph_error :: "'a res \<Rightarrow> 'a res" where
  "as_graph_error (Inl (DeliverableContractError m)) = Inl (GraphValidationError m)"
| "as_graph_error r = r"

definition validate_work :: "executor_kind \<Rightarrow> pmap \<Rightarrow> string list \<Rightarrow> unit res" where
  "validate_work executor work deps =
     rbind (ensure (is_text (getv work ''objective''))
              (GraphValidationError ''work objective is required'')) (\<lambda>_.
     rbind (as_graph_error (validate_output_contract (getv work ''outputs''))) (\<lambda>_.
     rbind (ensure (text_options (getv work ''acceptance''))
              (GraphValidationError ''work acceptance is required'')) (\<lambda>_.
     rbind (ensure (as_seq (get_or work ''inputs'' (PTuple [])) \<noteq> None)
              (GraphValidationError ''work inputs must be a sequence'')) (\<lambda>_.
     rbind (if executor = TOOL then validate_tool work else Inr ()) (\<lambda>_.
     rbind (if executor = AGENT \<and> dget work ''agent'' \<noteq> None then validate_agent work
            else Inr ()) (\<lambda>_.
     if getv work ''decision'' \<noteq> PNone then validate_decision executor work deps
     else Inr ()))))))"

section \<open>Kahn's algorithm\<close>

text \<open>\<open>order_index\<close>; a repeated key keeps its last position, as in the dictionary.\<close>

definition order_index :: "instance_snapshot \<Rightarrow> string \<Rightarrow> nat" where
  "order_index s key =
     (case dget (rev (zip (snapshot_keys s) [0..<length (sn_nodes s)])) key of
        None \<Rightarrow> length (sn_nodes s) | Some i \<Rightarrow> i)"

definition initial_indegree :: "instance_snapshot \<Rightarrow> (string, int) odict" where
  "initial_indegree s = foldl (\<lambda>d n. dput (ns_key n) (int (length (ns_deps n))) d) [] (sn_nodes s)"

text \<open>\<open>children[key]\<close>: one entry per dependency that names the key.\<close>

definition children :: "instance_snapshot \<Rightarrow> string \<Rightarrow> string list" where
  "children s key =
     concat (map (\<lambda>n. map (\<lambda>_. ns_key n) (filter (\<lambda>d. d = key) (ns_deps n))) (sn_nodes s))"

text \<open>One pass of the inner loop: count the child down, insert it into \<open>ready\<close> at zero.\<close>

definition relax_child ::
    "(string \<Rightarrow> nat) \<Rightarrow> string \<Rightarrow> (string, int) odict \<times> string list \<Rightarrow> (string, int) odict \<times> string list" where
  "relax_child idx child st =
     (let degree = (case dget (fst st) child of None \<Rightarrow> 0 | Some i \<Rightarrow> i) - 1
      in (dput child degree (fst st),
          if degree = 0 then sort_key idx (snd st @ [child]) else snd st))"

definition relax_children ::
    "(string \<Rightarrow> nat) \<Rightarrow> string list \<Rightarrow> (string, int) odict \<times> string list \<Rightarrow> (string, int) odict \<times> string list" where
  "relax_children idx cs st = foldl (\<lambda>st c. relax_child idx c st) st cs"

definition open_degree :: "(string, int) odict \<Rightarrow> nat" where
  "open_degree d = (\<Sum>k \<in> set (dkeys d). nat (case dget d k of None \<Rightarrow> 0 | Some i \<Rightarrow> i))"

lemma open_degree_dput:
  "open_degree (dput k i d) + nat (case dget d k of None \<Rightarrow> 0 | Some j \<Rightarrow> j) = open_degree d + nat i"
proof -
  let ?f = "\<lambda>d k. nat (case dget d k of None \<Rightarrow> 0 | Some i \<Rightarrow> i)"
  have "open_degree (dput k i d) = (\<Sum>j \<in> insert k (set (dkeys d)). ?f (dput k i d) j)"
    by (simp only: open_degree_def set_dkeys_dput)
  also have "\<dots> = nat i + (\<Sum>j \<in> set (dkeys d) - {k}. ?f (dput k i d) j)"
    by (simp add: sum.insert_remove dict_simps)
  also have "(\<Sum>j \<in> set (dkeys d) - {k}. ?f (dput k i d) j) = (\<Sum>j \<in> set (dkeys d) - {k}. ?f d j)"
    by (intro sum.cong) (auto simp: dict_simps)
  finally have 1: "open_degree (dput k i d) = nat i + (\<Sum>j \<in> set (dkeys d) - {k}. ?f d j)" .
  have 2: "open_degree d = ?f d k + (\<Sum>j \<in> set (dkeys d) - {k}. ?f d j)"
  proof (cases "k \<in> set (dkeys d)")
    case True
    then show ?thesis unfolding open_degree_def by (simp add: sum.remove)
  next
    case False
    then have "dget d k = None" by (simp add: dget_None_iff)
    with False show ?thesis unfolding open_degree_def by simp
  qed
  from 1 2 show ?thesis by simp
qed

lemma relax_child_measure:
  "open_degree (fst (relax_child idx c st)) + length (snd (relax_child idx c st))
     \<le> open_degree (fst st) + length (snd st)"
proof -
  let ?i = "case dget (fst st) c of None \<Rightarrow> 0 | Some i \<Rightarrow> i"
  have "open_degree (dput c (?i - 1) (fst st)) + nat ?i = open_degree (fst st) + nat (?i - 1)"
    by (rule open_degree_dput)
  then show ?thesis by (auto simp: relax_child_def Let_def)
qed

lemma relax_children_measure:
  "open_degree (fst (relax_children idx cs st)) + length (snd (relax_children idx cs st))
     \<le> open_degree (fst st) + length (snd st)"
proof (induction cs arbitrary: st)
  case (Cons c cs)
  have "relax_children idx (c # cs) st = relax_children idx cs (relax_child idx c st)"
    by (simp add: relax_children_def)
  then show ?case
    using Cons.IH [of "relax_child idx c st"] relax_child_measure [of idx c st] by simp
qed (simp add: relax_children_def)

text \<open>The \<open>while ready\<close> loop. Every pass takes one key out of \<open>ready\<close>, and a key only enters it
  by using up one unit of open degree.\<close>

function kahn_loop ::
    "instance_snapshot \<Rightarrow> (string, int) odict \<Rightarrow> string list \<Rightarrow> string list \<Rightarrow> string list" where
  "kahn_loop s indegree ready ordered =
     (case ready of
        [] \<Rightarrow> ordered
      | key # rest \<Rightarrow>
          (let st = relax_children (order_index s) (sort_key (order_index s) (children s key))
                      (indegree, rest)
           in kahn_loop s (fst st) (snd st) (ordered @ [key])))"
  by pat_completeness auto
termination
proof (relation "measure (\<lambda>(s, indegree, ready, ordered). open_degree indegree + length ready)")
  fix s :: instance_snapshot and indegree :: "(string, int) odict" and ready ordered key rest st
  assume "ready = key # rest"
    and "st = relax_children (order_index s) (sort_key (order_index s) (children s key)) (indegree, rest)"
  then show "((s, fst st, snd st, ordered @ [key]), s, indegree, ready, ordered)
      \<in> measure (\<lambda>(s, indegree, ready, ordered). open_degree indegree + length ready)"
    using relax_children_measure [of "order_index s" "sort_key (order_index s) (children s key)"
        "(indegree, rest)"] by simp
qed simp

declare kahn_loop.simps [simp del]

definition topological_order :: "instance_snapshot \<Rightarrow> string list res" where
  "topological_order s =
     (let indegree = initial_indegree s;
          ready = sort_key (order_index s) (dkeys (filter (\<lambda>(k, degree). degree = 0) indegree));
          ordered = kahn_loop s indegree ready []
      in if length ordered \<noteq> length (sn_nodes s)
         then Inl (GraphValidationError ''graph contains a cycle'')
         else Inr ordered)"

section \<open>The validator\<close>

definition validate_node :: "string list \<Rightarrow> node_spec \<Rightarrow> unit res" where
  "validate_node known node =
     rbind (ensure (snake_case (ns_key node))
              (GraphValidationError ''node key must be lower snake_case'')) (\<lambda>_.
     rbind (ensure (\<not> blank (ns_title node))
              (GraphValidationError ''node title is required'')) (\<lambda>_.
     rbind (ensure (\<not> blank (ns_owner_person_id node))
              (GraphValidationError ''node owner is required'')) (\<lambda>_.
     rbind (ensure (distinct (ns_deps node))
              (GraphValidationError ''duplicate dependencies'')) (\<lambda>_.
     rbind (ensure (set (ns_deps node) \<subseteq> set known)
              (GraphValidationError ''node has unknown dependencies'')) (\<lambda>_.
     rbind (ensure (ns_key node \<notin> set (ns_deps node))
              (GraphValidationError ''node cannot depend on itself'')) (\<lambda>_.
     validate_work (ns_executor node) (ns_work node) (ns_deps node)))))))"

definition validate_snapshot :: "instance_snapshot \<Rightarrow> unit res" where
  "validate_snapshot s =
     rbind (ensure (sn_schema_version s = ''0.2'')
              (GraphValidationError ''unsupported snapshot schema version'')) (\<lambda>_.
     rbind (ensure (sn_nodes s \<noteq> [])
              (GraphValidationError ''instance snapshot must contain at least one node'')) (\<lambda>_.
     rbind (ensure (distinct (snapshot_keys s))
              (GraphValidationError ''duplicate node keys'')) (\<lambda>_.
     rbind (foldM (\<lambda>node _. validate_node (snapshot_keys s) node) (sn_nodes s) ()) (\<lambda>_.
     rbind (topological_order s) (\<lambda>_. Inr ())))))"

section \<open>Traversals\<close>

text \<open>\<open>ready_node_keys\<close>; the statuses are a dictionary from node keys.\<close>

definition ready_node_keys :: "instance_snapshot \<Rightarrow> (string \<Rightarrow> node_status option) \<Rightarrow> string list res" where
  "ready_node_keys s statuses =
     rbind (topological_order s) (\<lambda>order.
     foldM (\<lambda>key ready.
         rbind (snapshot_node s key) (\<lambda>node.
         Inr (if statuses key \<noteq> Some N_PENDING then ready
              else if \<forall>d \<in> set (ns_deps node). statuses d = Some N_DONE then ready @ [key]
              else ready)))
       order [])"

definition successors_of :: "instance_snapshot \<Rightarrow> string \<Rightarrow> string list" where
  "successors_of s key = map ns_key (filter (\<lambda>n. key \<in> set (ns_deps n)) (sn_nodes s))"

definition direct_successors :: "instance_snapshot \<Rightarrow> string \<Rightarrow> string list res" where
  "direct_successors s key = rbind (snapshot_node s key) (\<lambda>_. Inr (successors_of s key))"

text \<open>The depth-first search of \<open>reachable_downstream\<close>; \<open>found\<close> in the order of discovery.\<close>

function downstream_loop :: "instance_snapshot \<Rightarrow> string list \<Rightarrow> string list \<Rightarrow> string list res" where
  "downstream_loop s found stack =
     (if stack = [] then Inr found
      else let current = last stack; rest = butlast stack in
        if current \<in> set found then downstream_loop s found rest
        else if current \<notin> set (snapshot_keys s) then Inl (KeyError current)
        else downstream_loop s (found @ [current]) (rest @ successors_of s current))"
  by pat_completeness auto
termination
proof (relation "measures [\<lambda>(s, found, stack). card (set (snapshot_keys s) - set found),
    \<lambda>(s, found, stack). length stack]")
  fix s :: instance_snapshot and found stack :: "string list" and current rest
  assume "stack \<noteq> []" "current = last stack" "rest = butlast stack" "current \<in> set found"
  then show "((s, found, rest), s, found, stack)
      \<in> measures [\<lambda>(s, found, stack). card (set (snapshot_keys s) - set found),
          \<lambda>(s, found, stack). length stack]" by simp
next
  fix s :: instance_snapshot and found stack :: "string list" and current rest
  assume "current \<notin> set found" "\<not> current \<notin> set (snapshot_keys s)"
  then have "card (set (snapshot_keys s) - set (found @ [current]))
      < card (set (snapshot_keys s) - set found)"
    by (intro psubset_card_mono) auto
  then show "((s, found @ [current], rest @ successors_of s current), s, found, stack)
      \<in> measures [\<lambda>(s, found, stack). card (set (snapshot_keys s) - set found),
          \<lambda>(s, found, stack). length stack]" by simp
qed simp

declare downstream_loop.simps [simp del]

definition reachable_downstream :: "instance_snapshot \<Rightarrow> string \<Rightarrow> string list res" where
  "reachable_downstream s key =
     rbind (direct_successors s key) (\<lambda>stack. downstream_loop s [] stack)"

end
