(* ===== verification/Graph_Theorems.thy ===== *)
theory Graph_Theorems
  imports Snapshot_Graph "HOL-Library.Multiset"
begin

text \<open>
  The theorems of the graph component: a validated snapshot is well formed; Kahn's loop keeps
  the in-degree invariant, so its result is a topological order of all nodes, and it falls
  short exactly when some non-empty set of nodes is closed under dependencies (a cycle); the
  ready set and the downstream search compute what they claim.
\<close>

section \<open>Well-formed snapshots\<close>

definition deps_of :: "instance_snapshot \<Rightarrow> string \<Rightarrow> string set" where
  "deps_of s key = (case find (\<lambda>n. ns_key n = key) (sn_nodes s) of
     None \<Rightarrow> {} | Some n \<Rightarrow> set (ns_deps n))"

text \<open>The edge relation: \<open>(d, k)\<close> when node \<open>k\<close> depends on node \<open>d\<close>.\<close>

definition dep_rel :: "instance_snapshot \<Rightarrow> (string \<times> string) set" where
  "dep_rel s = {(d, k). k \<in> set (snapshot_keys s) \<and> d \<in> deps_of s k}"

text \<open>What the validator checks of the nodes before it looks for cycles.\<close>

definition simple_snapshot :: "instance_snapshot \<Rightarrow> bool" where
  "simple_snapshot s \<longleftrightarrow> distinct (snapshot_keys s) \<and>
     (\<forall>n \<in> set (sn_nodes s). distinct (ns_deps n) \<and> set (ns_deps n) \<subseteq> set (snapshot_keys s))"

text \<open>Every key of the list comes after all its dependencies.\<close>

definition topo_list :: "instance_snapshot \<Rightarrow> string list \<Rightarrow> bool" where
  "topo_list s ks \<longleftrightarrow> distinct ks \<and> (\<forall>i < length ks. deps_of s (ks ! i) \<subseteq> set (take i ks))"

definition wf_snapshot :: "instance_snapshot \<Rightarrow> bool" where
  "wf_snapshot s \<longleftrightarrow> sn_nodes s \<noteq> [] \<and> simple_snapshot s \<and> acyclic (dep_rel s)"

lemma find_key:
  assumes "distinct (map f xs)" and "n \<in> set xs"
  shows "find (\<lambda>m. f m = f n) xs = Some n"
  using assms
proof (induction xs)
  case (Cons x xs)
  then show ?case by (cases "f x = f n") auto
qed simp

lemma snapshot_node_spec:
  "simple_snapshot s \<Longrightarrow> n \<in> set (sn_nodes s) \<Longrightarrow> snapshot_node s (ns_key n) = Inr n"
  by (simp add: snapshot_node_def simple_snapshot_def find_key)

lemma snapshot_node_Inr:
  "snapshot_node s key = Inr n \<Longrightarrow> n \<in> set (sn_nodes s) \<and> ns_key n = key"
  by (auto simp: snapshot_node_def result_simps find_Some_iff)

lemma snapshot_node_ok_iff: "is_ok (snapshot_node s key) \<longleftrightarrow> key \<in> set (snapshot_keys s)"
proof -
  have "find (\<lambda>n. ns_key n = key) (sn_nodes s) = None \<longleftrightarrow> key \<notin> set (snapshot_keys s)"
    by (auto simp: find_None_iff)
  then show ?thesis
    by (cases "find (\<lambda>n. ns_key n = key) (sn_nodes s)") (auto simp: snapshot_node_def)
qed

lemma snapshot_node_exists:
  "key \<in> set (snapshot_keys s) \<Longrightarrow> \<exists>n. snapshot_node s key = Inr n"
  using snapshot_node_ok_iff [of s key] by (cases "snapshot_node s key") auto

lemma snapshot_node_missing:
  "key \<notin> set (snapshot_keys s) \<Longrightarrow> snapshot_node s key = Inl (KeyError key)"
  by (auto simp: snapshot_node_def get_or_raise_def find_None_iff split: option.splits
      dest: find_Some_iff [THEN iffD1])

lemma deps_of_spec:
  "simple_snapshot s \<Longrightarrow> n \<in> set (sn_nodes s) \<Longrightarrow> deps_of s (ns_key n) = set (ns_deps n)"
  by (simp add: deps_of_def simple_snapshot_def find_key)

lemma deps_of_node: "snapshot_node s key = Inr n \<Longrightarrow> deps_of s key = set (ns_deps n)"
  by (auto simp: deps_of_def snapshot_node_def result_simps)

lemma deps_of_subset:
  assumes "simple_snapshot s"
  shows "deps_of s key \<subseteq> set (snapshot_keys s)"
  using assms
  by (fastforce simp: deps_of_def simple_snapshot_def find_Some_iff split: option.splits)

lemma finite_deps_of [simp]: "finite (deps_of s key)"
  by (simp add: deps_of_def split: option.splits)

section \<open>Kahn's algorithm\<close>

lemma sort_key_props [simp]:
  "set (sort_key f xs) = set xs" "length (sort_key f xs) = length xs"
  "distinct (sort_key f xs) = distinct xs"
  by simp_all

lemma filter_eq_key: "distinct xs \<Longrightarrow> filter (\<lambda>d. d = key) xs = (if key \<in> set xs then [key] else [])"
  by (induction xs) auto

lemma concat_if_single:
  "concat (map (\<lambda>n. if P n then [f n] else []) xs) = map f (filter P xs)"
  by (induction xs) auto

lemma children_simple:
  assumes "simple_snapshot s"
  shows "children s key = successors_of s key"
proof -
  have "map (\<lambda>_. ns_key n) (filter (\<lambda>d. d = key) (ns_deps n))
      = (if key \<in> set (ns_deps n) then [ns_key n] else [])" if "n \<in> set (sn_nodes s)" for n
  proof -
    from assms that have "distinct (ns_deps n)" by (simp add: simple_snapshot_def)
    then show ?thesis by (simp add: filter_eq_key)
  qed
  then have "children s key
      = concat (map (\<lambda>n. if key \<in> set (ns_deps n) then [ns_key n] else []) (sn_nodes s))"
    by (simp add: children_def cong: map_cong)
  also have "\<dots> = successors_of s key"
    unfolding successors_of_def by (rule concat_if_single)
  finally show ?thesis .
qed

lemma set_successors:
  "simple_snapshot s \<Longrightarrow> set (successors_of s key) = {k \<in> set (snapshot_keys s). key \<in> deps_of s k}"
  by (auto simp: successors_of_def deps_of_spec)

lemma distinct_successors: "simple_snapshot s \<Longrightarrow> distinct (successors_of s key)"
  by (auto simp: successors_of_def simple_snapshot_def distinct_map intro: inj_on_subset)

text \<open>The in-degree of every known key counts its dependencies outside a set.\<close>

definition degrees_count :: "instance_snapshot \<Rightarrow> string set \<Rightarrow> (string, int) odict \<Rightarrow> bool" where
  "degrees_count s done d \<longleftrightarrow> set (dkeys d) = set (snapshot_keys s) \<and>
     (\<forall>k \<in> set (snapshot_keys s). dget d k = Some (int (card (deps_of s k - done))))"

abbreviation degree :: "(string, int) odict \<Rightarrow> string \<Rightarrow> int" where
  "degree d k \<equiv> (case dget d k of None \<Rightarrow> 0 | Some i \<Rightarrow> i)"

lemma relax_children_Cons:
  "relax_children idx (c # cs) st = relax_children idx cs (relax_child idx c st)"
  by (simp add: relax_children_def)

lemma relax_children_Nil [simp]: "relax_children idx [] st = st"
  by (simp add: relax_children_def)

lemma relax_children_dget:
  "distinct cs \<Longrightarrow>
   dget (fst (relax_children idx cs (d, r))) k
     = (if k \<in> set cs then Some (degree d k - 1) else dget d k)"
proof (induction cs arbitrary: d r)
  case (Cons c cs)
  obtain r' where st: "relax_child idx c (d, r) = (dput c (degree d c - 1) d, r')"
    by (simp add: relax_child_def Let_def)
  show ?case
    using Cons.prems by (auto simp: relax_children_Cons st Cons.IH dict_simps)
qed simp

lemma relax_children_keys:
  "set cs \<subseteq> set (dkeys d) \<Longrightarrow>
   set (dkeys (fst (relax_children idx cs (d, r)))) = set (dkeys d)"
proof (induction cs arbitrary: d r)
  case (Cons c cs)
  obtain r' where st: "relax_child idx c (d, r) = (dput c (degree d c - 1) d, r')"
    by (simp add: relax_child_def Let_def)
  have keys: "set (dkeys (dput c (degree d c - 1) d)) = set (dkeys d)"
    using Cons.prems by (simp add: dict_simps insert_absorb)
  show ?case
    using Cons.prems Cons.IH [of "dput c (degree d c - 1) d" r']
    by (simp only: relax_children_Cons st keys) simp
qed simp

lemma relax_children_ready:
  "distinct cs \<Longrightarrow>
   mset (snd (relax_children idx cs (d, r))) = mset r + mset (filter (\<lambda>c. degree d c = 1) cs)"
proof (induction cs arbitrary: d r)
  case (Cons c cs)
  define d' where "d' = dput c (degree d c - 1) d"
  define r' where "r' = (if degree d c = 1 then sort_key idx (r @ [c]) else r)"
  have st: "relax_child idx c (d, r) = (d', r')"
    by (simp add: relax_child_def Let_def d'_def r'_def)
  have "filter (\<lambda>c. degree d' c = 1) cs = filter (\<lambda>c. degree d c = 1) cs"
    using Cons.prems by (intro filter_cong) (auto simp: d'_def dict_simps)
  then show ?case
    using Cons.prems Cons.IH [of d' r'] by (simp add: relax_children_Cons st r'_def)
qed simp

definition kahn_inv ::
    "instance_snapshot \<Rightarrow> (string, int) odict \<Rightarrow> string list \<Rightarrow> string list \<Rightarrow> bool" where
  "kahn_inv s d ready ordered \<longleftrightarrow>
     degrees_count s (set ordered) d \<and> distinct (ordered @ ready) \<and> topo_list s ordered \<and>
     set (ordered @ ready) = {k \<in> set (snapshot_keys s). deps_of s k \<subseteq> set ordered}"

lemma topo_list_snoc:
  "topo_list s (ks @ [k]) \<longleftrightarrow> topo_list s ks \<and> k \<notin> set ks \<and> deps_of s k \<subseteq> set ks"
  by (auto simp: topo_list_def nth_append less_Suc_eq)

lemma card_Diff_insert_member:
  assumes "finite D" and "key \<in> D" and "key \<notin> A"
  shows "int (card (D - A)) - 1 = int (card (D - insert key A))"
proof -
  have "D - insert key A = (D - A) - {key}" by auto
  moreover have "key \<in> D - A" using assms by simp
  moreover have "card (D - A) > 0" using calculation(2) assms(1) by (auto simp: card_gt_0_iff)
  ultimately show ?thesis by (simp add: of_nat_diff Suc_le_eq)
qed

lemma kahn_step:
  assumes simple: "simple_snapshot s" and inv: "kahn_inv s d (key # rest) ordered"
    and st: "st = relax_children idx (sort_key idx (children s key)) (d, rest)"
  shows "kahn_inv s (fst st) (snd st) (ordered @ [key])"
proof -
  define cs where "cs = sort_key idx (children s key)"
  let ?keys = "set (snapshot_keys s)"
  from inv have deg: "\<And>k. k \<in> ?keys \<Longrightarrow> dget d k = Some (int (card (deps_of s k - set ordered)))"
    and dk: "set (dkeys d) = ?keys" and dist: "distinct (ordered @ key # rest)"
    and topo: "topo_list s ordered"
    and ready: "set (ordered @ key # rest) = {k \<in> ?keys. deps_of s k \<subseteq> set ordered}"
    by (auto simp: kahn_inv_def degrees_count_def)
  have cs: "set cs = {k \<in> ?keys. key \<in> deps_of s k}" "distinct cs"
    by (simp_all add: cs_def children_simple [OF simple] set_successors [OF simple]
        distinct_successors [OF simple])
  have key: "key \<in> ?keys" "deps_of s key \<subseteq> set ordered" "key \<notin> set ordered"
    using ready dist by auto
  note st = st [folded cs_def]
  have "set (dkeys (fst st)) = ?keys"
    using cs dk by (simp only: st) (subst relax_children_keys; auto)
  moreover have "dget (fst st) k = Some (int (card (deps_of s k - set (ordered @ [key]))))"
    if "k \<in> ?keys" for k
  proof (cases "key \<in> deps_of s k")
    case True
    with that key show ?thesis
      by (simp add: st relax_children_dget [OF cs(2)] cs(1) deg card_Diff_insert_member)
  next
    case False
    then have "deps_of s k - set (ordered @ [key]) = deps_of s k - set ordered" by auto
    with False that show ?thesis
      by (simp add: st relax_children_dget [OF cs(2)] cs(1) deg)
  qed
  ultimately have 1: "degrees_count s (set (ordered @ [key])) (fst st)"
    by (simp add: degrees_count_def)
  let ?new = "filter (\<lambda>c. degree d c = 1) cs"
  have mset: "mset (snd st) = mset rest + mset ?new"
    by (simp add: st relax_children_ready [OF cs(2)])
  have new: "set ?new = {k \<in> ?keys. key \<in> deps_of s k \<and> card (deps_of s k - set ordered) = 1}"
    using cs(1) deg by auto
  have one: "card (deps_of s k - set ordered) = 1 \<longleftrightarrow> deps_of s k \<subseteq> set (ordered @ [key])"
    if "key \<in> deps_of s k" for k
  proof -
    have "deps_of s k - set ordered = {key} \<longleftrightarrow> deps_of s k \<subseteq> set (ordered @ [key])"
      using that key(3) by auto
    moreover have "key \<in> deps_of s k - set ordered" using that key(3) by simp
    ultimately show ?thesis by (metis card_1_singletonE is_singletonI is_singleton_altdef singletonD)
  qed
  have setready: "set (snd st) = set rest \<union> set ?new"
    using mset by (metis set_mset_mset set_mset_union)
  have disj: "set ?new \<inter> set (ordered @ key # rest) = {}"
    unfolding ready new using key(3) by auto
  have "distinct (rest @ ?new)" using dist disj cs(2) by auto
  then have "distinct (snd st)"
    using mset by (metis mset_append mset_eq_imp_distinct_iff)
  then have 2: "distinct ((ordered @ [key]) @ snd st)"
    using dist disj setready by auto
  have 3: "topo_list s (ordered @ [key])" using topo key by (simp add: topo_list_snoc)
  have "set ((ordered @ [key]) @ snd st) = {k \<in> ?keys. deps_of s k \<subseteq> set ordered} \<union> set ?new"
    using ready setready by auto
  also have "\<dots> = {k \<in> ?keys. deps_of s k \<subseteq> set (ordered @ [key])}"
    unfolding new using one by auto
  finally show ?thesis using 1 2 3 by (simp add: kahn_inv_def)
qed

lemma kahn_loop_inv:
  assumes "simple_snapshot s" and "kahn_inv s d ready ordered"
  shows "\<exists>d'. kahn_inv s d' [] (kahn_loop s d ready ordered)"
  using assms
proof (induction s d ready ordered rule: kahn_loop.induct)
  case (1 s d ready ordered)
  show ?case
  proof (cases ready)
    case Nil
    with "1.prems" show ?thesis by (subst kahn_loop.simps) auto
  next
    case (Cons key rest)
    show ?thesis
      using "1.IH" [OF Cons refl "1.prems"(1)] kahn_step [OF "1.prems"(1) _ refl, of d key rest ordered]
        "1.prems"(2) Cons
      by (subst kahn_loop.simps) (simp add: Let_def)
  qed
qed

lemma initial_indegree_spec:
  assumes "simple_snapshot s"
  shows "degrees_count s {} (initial_indegree s)"
proof -
  have gen: "dget (foldl (\<lambda>d n. dput (ns_key n) (int (length (ns_deps n))) d) d ns) k
      = (case find (\<lambda>n. ns_key n = k) ns of None \<Rightarrow> dget d k | Some n \<Rightarrow> Some (int (length (ns_deps n))))"
    if "distinct (map ns_key ns)" for ns k and d :: "(string, int) odict"
    using that
  proof (induction ns arbitrary: d)
    case (Cons n ns)
    then have none: "find (\<lambda>m. ns_key m = ns_key n) ns = None"
      by (auto simp: find_None_iff image_iff)
    show ?case
    proof (cases "ns_key n = k")
      case True
      with none Cons show ?thesis by (simp add: dict_simps)
    next
      case False
      with Cons show ?thesis by (simp add: dict_simps cong: option.case_cong)
    qed
  qed simp
  have keys: "set (dkeys (foldl (\<lambda>d n. dput (ns_key n) (int (length (ns_deps n))) d) d ns))
      = set (dkeys d) \<union> set (map ns_key ns)" for ns and d :: "(string, int) odict"
    by (induction ns arbitrary: d) (auto simp: dict_simps)
  have "dget (initial_indegree s) k = Some (int (card (deps_of s k)))"
    if k: "k \<in> set (snapshot_keys s)" for k
  proof -
    from k obtain n where n: "n \<in> set (sn_nodes s)" "ns_key n = k" by auto
    then have "find (\<lambda>n. ns_key n = k) (sn_nodes s) = Some n"
      using assms find_key [of ns_key "sn_nodes s" n] by (simp add: simple_snapshot_def)
    moreover have "length (ns_deps n) = card (deps_of s k)"
      using assms n deps_of_spec [OF assms n(1)]
      by (simp add: simple_snapshot_def distinct_card)
    ultimately show ?thesis
      using assms by (simp add: initial_indegree_def gen simple_snapshot_def)
  qed
  then show ?thesis
    using keys [of "[]" "sn_nodes s"] by (simp add: degrees_count_def initial_indegree_def)
qed

section \<open>The topological order\<close>

lemma kahn_inv_initial:
  assumes "simple_snapshot s"
  shows "kahn_inv s (initial_indegree s)
     (sort_key idx (dkeys (filter (\<lambda>(k, degree). degree = 0) (initial_indegree s)))) []"
proof -
  have deg: "degrees_count s {} (initial_indegree s)" by (rule initial_indegree_spec [OF assms])
  have dist: "distinct (dkeys (initial_indegree s))"
  proof -
    have "distinct (dkeys (foldl (\<lambda>d n. dput (ns_key n) (int (length (ns_deps n))) d) d ns))"
      if "distinct (dkeys d)" for d :: "(string, int) odict" and ns
      using that by (induction ns arbitrary: d) (auto simp: dict_simps)
    from this [of "[]" "sn_nodes s"] show ?thesis by (simp add: initial_indegree_def)
  qed
  have mem: "(k, i) \<in> set (initial_indegree s) \<longleftrightarrow> dget (initial_indegree s) k = Some i" for k i
    using dist by (rule distinct_filter_map_of)
  have "set (dkeys (filter (\<lambda>(k, degree). degree = 0) (initial_indegree s)))
      = {k. dget (initial_indegree s) k = Some 0}"
    using mem by force
  also have "\<dots> = {k \<in> set (snapshot_keys s). deps_of s k \<subseteq> {}}"
  proof -
    have "dget (initial_indegree s) k = Some 0 \<longleftrightarrow> k \<in> set (snapshot_keys s) \<and> deps_of s k = {}" for k
    proof (cases "k \<in> set (snapshot_keys s)")
      case True
      then have "dget (initial_indegree s) k = Some (int (card (deps_of s k)))"
        using deg by (simp only: degrees_count_def Diff_empty)
      with True show ?thesis by (simp add: card_eq_0_iff)
    next
      case False
      then have "dget (initial_indegree s) k = None"
        using deg by (simp only: degrees_count_def dget_None_iff) simp
      with False show ?thesis by simp
    qed
    then show ?thesis by auto
  qed
  finally have ready: "set (dkeys (filter (\<lambda>(k, degree). degree = 0) (initial_indegree s)))
      = {k \<in> set (snapshot_keys s). deps_of s k \<subseteq> {}}" .
  have "distinct (dkeys (filter (\<lambda>(k, degree). degree = 0) (initial_indegree s)))"
    using dist by (rule distinct_map_filter)
  with ready deg show ?thesis by (simp add: kahn_inv_def topo_list_def)
qed

lemma kahn_result:
  assumes "simple_snapshot s"
  defines "ks \<equiv> kahn_loop s (initial_indegree s) (sort_key (order_index s)
      (dkeys (filter (\<lambda>(k, degree). degree = 0) (initial_indegree s)))) []"
  shows "topo_list s ks \<and> set ks = {k \<in> set (snapshot_keys s). deps_of s k \<subseteq> set ks}"
proof -
  obtain d' where "kahn_inv s d' [] ks"
    using kahn_loop_inv [OF assms(1) kahn_inv_initial [OF assms(1)]] unfolding ks_def by blast
  then show ?thesis by (simp add: kahn_inv_def)
qed

lemma topo_list_acyclic:
  assumes "topo_list s ks" and "set ks = set (snapshot_keys s)"
  shows "acyclic (dep_rel s)"
proof -
  define pos where "pos = (\<lambda>k. length (takeWhile (\<lambda>x. x \<noteq> k) ks))"
  have pos_nth: "pos (ks ! i) = i" if "i < length ks" for i
  proof -
    have "distinct ks" using assms(1) by (simp add: topo_list_def)
    then have "takeWhile (\<lambda>x. x \<noteq> ks ! i) ks = take i ks"
      using that by (intro takeWhile_eq_take_P_nth) (auto simp: nth_eq_iff_index_eq)
    then show ?thesis using that by (simp add: pos_def)
  qed
  have "dep_rel s \<subseteq> measure pos"
  proof
    fix e assume e: "e \<in> dep_rel s"
    obtain d k where dk: "e = (d, k)" by (cases e)
    with e have k: "k \<in> set ks" and d: "d \<in> deps_of s k" using assms(2) by (auto simp: dep_rel_def)
    then obtain i where i: "i < length ks" "k = ks ! i" by (auto simp: in_set_conv_nth)
    with assms(1) d have "d \<in> set (take i ks)" by (auto simp: topo_list_def)
    then obtain j where "j < i" "d = ks ! j" by (auto simp: in_set_conv_nth)
    with i dk show "e \<in> measure pos" by (simp add: pos_nth)
  qed
  then show ?thesis by (meson wf_acyclic wf_measure wf_subset)
qed

lemma topological_order_sound:
  assumes "simple_snapshot s" and "topological_order s = Inr ks"
  shows "topo_list s ks \<and> set ks = set (snapshot_keys s)"
proof -
  note r = kahn_result [OF assms(1)]
  from assms(2) have ks: "ks = kahn_loop s (initial_indegree s) (sort_key (order_index s)
      (dkeys (filter (\<lambda>(k, degree). degree = 0) (initial_indegree s)))) []"
    and len: "length ks = length (sn_nodes s)"
    by (auto simp: topological_order_def Let_def split: if_splits)
  from r have topo: "topo_list s ks" and sub: "set ks \<subseteq> set (snapshot_keys s)"
    unfolding ks [symmetric] by auto
  have "card (set ks) = length (snapshot_keys s)"
    using topo len by (simp add: topo_list_def distinct_card)
  then have "card (set ks) = card (set (snapshot_keys s))"
    using assms(1) by (simp add: simple_snapshot_def distinct_card del: set_map)
  then have "set ks = set (snapshot_keys s)"
    using sub by (intro card_subset_eq) auto
  with topo show ?thesis by simp
qed

lemma finite_dep_rel: "finite (dep_rel s)"
proof -
  have "dep_rel s \<subseteq> (\<Union>k \<in> set (snapshot_keys s). deps_of s k \<times> {k})"
    by (auto simp: dep_rel_def)
  then show ?thesis by (rule finite_subset) auto
qed

lemma topological_order_complete:
  assumes "simple_snapshot s" and "acyclic (dep_rel s)"
  shows "\<exists>ks. topological_order s = Inr ks"
proof -
  define ks where "ks = kahn_loop s (initial_indegree s) (sort_key (order_index s)
      (dkeys (filter (\<lambda>(k, degree). degree = 0) (initial_indegree s)))) []"
  have topo: "topo_list s ks" and ks: "set ks = {k \<in> set (snapshot_keys s). deps_of s k \<subseteq> set ks}"
    using kahn_result [OF assms(1)] unfolding ks_def [symmetric] by auto
  have "wf (dep_rel s)"
    by (rule finite_acyclic_wf [OF finite_dep_rel assms(2)])
  have "set (snapshot_keys s) \<subseteq> set ks"
  proof
    fix k assume "k \<in> set (snapshot_keys s)"
    with \<open>wf (dep_rel s)\<close> show "k \<in> set ks"
    proof (induction k rule: wf_induct_rule)
      case (less k)
      have "deps_of s k \<subseteq> set ks"
        using less deps_of_subset [OF assms(1), of k] by (auto simp: dep_rel_def)
      with less.prems ks show ?case by blast
    qed
  qed
  with ks have "set ks = set (snapshot_keys s)" by auto
  then have "length ks = length (sn_nodes s)"
    using topo assms(1) by (metis distinct_card length_map simple_snapshot_def topo_list_def)
  then show ?thesis by (simp add: topological_order_def ks_def Let_def)
qed

lemma topological_order_iff:
  assumes "simple_snapshot s"
  shows "is_ok (topological_order s) \<longleftrightarrow> acyclic (dep_rel s)"
proof
  assume "is_ok (topological_order s)"
  then obtain ks where "topological_order s = Inr ks" by (cases "topological_order s") auto
  from topological_order_sound [OF assms this] show "acyclic (dep_rel s)"
    by (blast intro: topo_list_acyclic)
next
  assume "acyclic (dep_rel s)"
  from topological_order_complete [OF assms this] show "is_ok (topological_order s)" by auto
qed

section \<open>The validator\<close>

lemma validate_node_Inr:
  "validate_node known n = Inr () \<Longrightarrow>
     snake_case (ns_key n) \<and> distinct (ns_deps n) \<and> set (ns_deps n) \<subseteq> set known \<and>
     ns_key n \<notin> set (ns_deps n) \<and> validate_work (ns_executor n) (ns_work n) (ns_deps n) = Inr ()"
  by (auto simp: validate_node_def result_simps)

lemma foldM_unit_Inr:
  "foldM (\<lambda>x _. f x) xs u = Inr v \<Longrightarrow> x \<in> set xs \<Longrightarrow> f x = Inr ()"
  by (induction xs arbitrary: u) (auto simp: result_simps)

lemma validate_snapshot_nodes:
  "validate_snapshot s = Inr () \<Longrightarrow> n \<in> set (sn_nodes s) \<Longrightarrow>
     validate_node (snapshot_keys s) n = Inr ()"
  by (auto simp: validate_snapshot_def result_simps dest: foldM_unit_Inr)

lemma validate_snapshot_simple:
  assumes "validate_snapshot s = Inr ()"
  shows "simple_snapshot s"
proof -
  have "distinct (snapshot_keys s)" using assms by (auto simp: validate_snapshot_def result_simps)
  then show ?thesis
    using validate_node_Inr [OF validate_snapshot_nodes [OF assms]] unfolding simple_snapshot_def by blast
qed

lemma validate_snapshot_wf:
  assumes "validate_snapshot s = Inr ()"
  shows "wf_snapshot s"
proof -
  have simple: "simple_snapshot s" by (rule validate_snapshot_simple [OF assms])
  have "is_ok (topological_order s)" and "sn_nodes s \<noteq> []"
    using assms by (auto simp: validate_snapshot_def result_simps)
  with simple topological_order_iff [OF simple] show ?thesis by (simp add: wf_snapshot_def)
qed

lemma wf_snapshot_order:
  assumes "wf_snapshot s"
  obtains ks where "topological_order s = Inr ks" "topo_list s ks" "set ks = set (snapshot_keys s)"
  using assms topological_order_complete [of s] topological_order_sound [of s]
  unfolding wf_snapshot_def by blast

section \<open>The ready set\<close>

lemma ready_node_keys_spec:
  assumes "wf_snapshot s"
  shows "\<exists>ready. ready_node_keys s statuses = Inr ready \<and> distinct ready \<and>
     set ready = {k \<in> set (snapshot_keys s). statuses k = Some N_PENDING \<and>
        (\<forall>d \<in> deps_of s k. statuses d = Some N_DONE)}"
proof -
  obtain ks where ks: "topological_order s = Inr ks" "topo_list s ks" "set ks = set (snapshot_keys s)"
    using wf_snapshot_order [OF assms] .
  let ?f = "\<lambda>key ready. rbind (snapshot_node s key) (\<lambda>node.
         Inr (if statuses key \<noteq> Some N_PENDING then ready
              else if \<forall>d \<in> set (ns_deps node). statuses d = Some N_DONE then ready @ [key]
              else ready))"
  let ?P = "\<lambda>k. statuses k = Some N_PENDING \<and> (\<forall>d \<in> deps_of s k. statuses d = Some N_DONE)"
  have step: "?f key acc = Inr (if ?P key then acc @ [key] else acc)"
    if "key \<in> set (snapshot_keys s)" for key acc
    using snapshot_node_exists [OF that] deps_of_node by auto
  have "foldM ?f xs acc = Inr (acc @ filter ?P xs)" if "set xs \<subseteq> set (snapshot_keys s)" for xs acc
    using that
  proof (induction xs arbitrary: acc)
    case (Cons x xs)
    then have x: "x \<in> set (snapshot_keys s)" and xs: "set xs \<subseteq> set (snapshot_keys s)" by auto
    show ?case using Cons.IH [OF xs] by (simp only: foldM.simps step [OF x] rbind.simps) simp
  qed simp
  then have "ready_node_keys s statuses = Inr (filter ?P ks)"
    using ks by (simp add: ready_node_keys_def)
  with ks show ?thesis by (auto simp: topo_list_def)
qed

section \<open>The downstream closure\<close>

definition downstream :: "instance_snapshot \<Rightarrow> string \<Rightarrow> string set" where
  "downstream s key = {k. (key, k) \<in> (dep_rel s)\<^sup>+}"

lemma downstream_loop_spec:
  assumes "simple_snapshot s" and "set stack \<subseteq> set (snapshot_keys s)" and "distinct found"
    and "\<forall>x \<in> set found. set (successors_of s x) \<subseteq> set found \<union> set stack"
  shows "\<exists>r. downstream_loop s found stack = Inr r \<and> distinct r \<and> set found \<union> set stack \<subseteq> set r \<and>
     (\<forall>x \<in> set r. set (successors_of s x) \<subseteq> set r) \<and>
     (\<forall>X. set found \<union> set stack \<subseteq> X \<longrightarrow> (\<forall>x \<in> X. set (successors_of s x) \<subseteq> X) \<longrightarrow> set r \<subseteq> X)"
  using assms
proof (induction s found stack rule: downstream_loop.induct)
  case (1 s found stack)
  show ?case
  proof (cases "stack = []")
    case True
    with "1.prems" show ?thesis by (subst downstream_loop.simps) simp
  next
    case False
    then obtain rest current where stack: "stack = rest @ [current]" by (metis rev_exhaust)
    show ?thesis
    proof (cases "current \<in> set found")
      case True
      have union: "set found \<union> set stack = set found \<union> set rest" using True stack by auto
      have "\<exists>r. downstream_loop s found rest = Inr r \<and> distinct r \<and> set found \<union> set rest \<subseteq> set r \<and>
         (\<forall>x \<in> set r. set (successors_of s x) \<subseteq> set r) \<and>
         (\<forall>X. set found \<union> set rest \<subseteq> X \<longrightarrow> (\<forall>x \<in> X. set (successors_of s x) \<subseteq> X) \<longrightarrow> set r \<subseteq> X)"
        using "1.IH"(1) [OF False refl refl] True stack "1.prems" union by auto
      then show ?thesis
        using False True stack unfolding union by (subst downstream_loop.simps) (simp add: Let_def)
    next
      case new: False
      let ?found = "found @ [current]" and ?stack = "rest @ successors_of s current"
      have current: "current \<in> set (snapshot_keys s)" using "1.prems"(2) stack by auto
      have succ: "set (successors_of s current) \<subseteq> set (snapshot_keys s)"
        using set_successors [OF "1.prems"(1)] by auto
      have "\<exists>r. downstream_loop s ?found ?stack = Inr r \<and> distinct r \<and> set ?found \<union> set ?stack \<subseteq> set r \<and>
         (\<forall>x \<in> set r. set (successors_of s x) \<subseteq> set r) \<and>
         (\<forall>X. set ?found \<union> set ?stack \<subseteq> X \<longrightarrow> (\<forall>x \<in> X. set (successors_of s x) \<subseteq> X) \<longrightarrow> set r \<subseteq> X)"
        using "1.IH"(2) [OF False refl refl] new current stack "1.prems" succ by fastforce
      then obtain r where r: "downstream_loop s ?found ?stack = Inr r" "distinct r"
        "set ?found \<union> set ?stack \<subseteq> set r" "\<forall>x \<in> set r. set (successors_of s x) \<subseteq> set r"
        "\<forall>X. set ?found \<union> set ?stack \<subseteq> X \<longrightarrow> (\<forall>x \<in> X. set (successors_of s x) \<subseteq> X) \<longrightarrow> set r \<subseteq> X"
        by blast
      have "downstream_loop s found stack = Inr r"
        using False new current stack r(1) by (subst downstream_loop.simps) (simp add: Let_def)
      moreover have "set r \<subseteq> X" if "set found \<union> set stack \<subseteq> X" "\<forall>x \<in> X. set (successors_of s x) \<subseteq> X" for X
        using r(5) that stack by auto
      ultimately show ?thesis using r(2-4) stack by auto
    qed
  qed
qed

lemma reachable_downstream_spec:
  assumes "simple_snapshot s" and "key \<in> set (snapshot_keys s)"
  shows "\<exists>r. reachable_downstream s key = Inr r \<and> distinct r \<and> set r = downstream s key"
proof -
  have succ: "set (successors_of s x) = {k. (x, k) \<in> dep_rel s}" for x
    using set_successors [OF assms(1)] by (auto simp: dep_rel_def)
  obtain r where r: "downstream_loop s [] (successors_of s key) = Inr r" "distinct r"
    "set (successors_of s key) \<subseteq> set r" "\<forall>x \<in> set r. set (successors_of s x) \<subseteq> set r"
    "\<And>X. set (successors_of s key) \<subseteq> X \<Longrightarrow> (\<forall>x \<in> X. set (successors_of s x) \<subseteq> X) \<Longrightarrow> set r \<subseteq> X"
    using downstream_loop_spec [OF assms(1), of "successors_of s key" "[]"]
      set_successors [OF assms(1)] by auto
  have "k \<in> set r" if "(key, k) \<in> (dep_rel s)\<^sup>+" for k
    using that
  proof (induction rule: trancl_induct)
    case (base y)
    with r(3) succ show ?case by blast
  next
    case (step y z)
    with r(4) succ show ?case by blast
  qed
  moreover have "set r \<subseteq> downstream s key"
    by (rule r(5)) (auto simp: succ downstream_def intro: trancl_into_trancl)
  ultimately have "set r = downstream s key" by (auto simp: downstream_def)
  moreover have "reachable_downstream s key = Inr r"
    using snapshot_node_exists [OF assms(2)] r(1)
    by (auto simp: reachable_downstream_def direct_successors_def)
  ultimately show ?thesis using r(2) by blast
qed

end
