(* ===== verification/Transitions.thy ===== *)
theory Transitions
  imports Graph_Theorems
begin

text \<open>
  The explicit state machines of \<open>src/larkflow/workflow/transitions.py\<close> for instances, nodes
  and attempts. The locale \<open>status_machine\<close> is their common contract (a step happens exactly
  when the table allows it, and then sets the status); \<open>ranked_machine\<close> adds that a step moves
  forward, from which the length of every run is bounded. Both are interpreted on the three
  guards of the code.
\<close>

section \<open>Transition tables\<close>

fun INSTANCE_TRANSITIONS :: "instance_status \<Rightarrow> instance_status set" where
  "INSTANCE_TRANSITIONS I_DRAFT = {I_RUNNING, I_DISCARDED}"
| "INSTANCE_TRANSITIONS I_RUNNING = {I_PAUSED, I_DONE, I_FAILED, I_CANCELED}"
| "INSTANCE_TRANSITIONS I_PAUSED = {I_RUNNING, I_DONE, I_FAILED, I_CANCELED}"
| "INSTANCE_TRANSITIONS _ = {}"

fun NODE_TRANSITIONS :: "node_status \<Rightarrow> node_status set" where
  "NODE_TRANSITIONS N_PENDING = {N_READY, N_CANCELED}"
| "NODE_TRANSITIONS N_READY = {N_RUNNING, N_WAITING_HUMAN, N_CANCELED}"
| "NODE_TRANSITIONS N_RUNNING = {N_DONE, N_FAILED, N_CANCELED}"
| "NODE_TRANSITIONS N_WAITING_HUMAN = {N_DONE, N_FAILED, N_CANCELED}"
| "NODE_TRANSITIONS _ = {}"

fun ATTEMPT_TRANSITIONS :: "attempt_status \<Rightarrow> attempt_status set" where
  "ATTEMPT_TRANSITIONS A_PENDING = {A_RUNNING, A_WAITING_HUMAN, A_CANCELED}"
| "ATTEMPT_TRANSITIONS A_RUNNING = {A_DONE, A_FAILED, A_CANCELED}"
| "ATTEMPT_TRANSITIONS A_WAITING_HUMAN = {A_DONE, A_FAILED, A_CANCELED}"
| "ATTEMPT_TRANSITIONS _ = {}"

section \<open>Guarded transitions\<close>

definition transition_instance ::
    "workflow_instance \<Rightarrow> instance_status \<Rightarrow> time \<Rightarrow> workflow_instance res" where
  "transition_instance w target now =
     (if target \<notin> INSTANCE_TRANSITIONS (wi_status w)
        then Inl (TransitionError ''illegal instance transition'')
      else Inr (w\<lparr>wi_status := target,
        wi_confirmed_at := (if target = I_RUNNING \<and> wi_confirmed_at w = None
           then Some now else wi_confirmed_at w),
        wi_completed_at := (if target \<in> {I_DONE, I_FAILED, I_CANCELED}
           then Some now else wi_completed_at w)\<rparr>))"

definition transition_node :: "node_instance \<Rightarrow> node_status \<Rightarrow> time \<Rightarrow> node_instance res" where
  "transition_node n target now =
     (if target \<notin> NODE_TRANSITIONS (ni_status n)
        then Inl (TransitionError ''illegal node transition'')
      else Inr (n\<lparr>ni_status := target, ni_version := ni_version n + 1,
        ni_ready_at := (if target = N_READY then Some now else ni_ready_at n),
        ni_started_at := (if target \<in> {N_RUNNING, N_WAITING_HUMAN} then Some now
           else ni_started_at n),
        ni_completed_at := (if target \<in> {N_DONE, N_FAILED, N_CANCELED} then Some now
           else ni_completed_at n)\<rparr>))"

definition transition_attempt :: "node_attempt \<Rightarrow> attempt_status \<Rightarrow> time \<Rightarrow> node_attempt res" where
  "transition_attempt a target now =
     (if target \<notin> ATTEMPT_TRANSITIONS (na_status a)
        then Inl (TransitionError ''illegal attempt transition'')
      else Inr (a\<lparr>na_status := target,
        na_started_at := (if target \<in> {A_RUNNING, A_WAITING_HUMAN} then Some now
           else na_started_at a),
        na_completed_at := (if target \<in> {A_DONE, A_FAILED, A_CANCELED} then Some now
           else na_completed_at a)\<rparr>))"

lemma transition_instance_Inr [result_simps]:
  "transition_instance w target now = Inr w' \<longleftrightarrow>
     target \<in> INSTANCE_TRANSITIONS (wi_status w) \<and>
     w' = w\<lparr>wi_status := target,
        wi_confirmed_at := (if target = I_RUNNING \<and> wi_confirmed_at w = None
           then Some now else wi_confirmed_at w),
        wi_completed_at := (if target \<in> {I_DONE, I_FAILED, I_CANCELED}
           then Some now else wi_completed_at w)\<rparr>"
  by (auto simp: transition_instance_def)

lemma transition_node_Inr [result_simps]:
  "transition_node n target now = Inr n' \<longleftrightarrow>
     target \<in> NODE_TRANSITIONS (ni_status n) \<and>
     n' = n\<lparr>ni_status := target, ni_version := ni_version n + 1,
        ni_ready_at := (if target = N_READY then Some now else ni_ready_at n),
        ni_started_at := (if target \<in> {N_RUNNING, N_WAITING_HUMAN} then Some now
           else ni_started_at n),
        ni_completed_at := (if target \<in> {N_DONE, N_FAILED, N_CANCELED} then Some now
           else ni_completed_at n)\<rparr>"
  by (auto simp: transition_node_def)

lemma transition_attempt_Inr [result_simps]:
  "transition_attempt a target now = Inr a' \<longleftrightarrow>
     target \<in> ATTEMPT_TRANSITIONS (na_status a) \<and>
     a' = a\<lparr>na_status := target,
        na_started_at := (if target \<in> {A_RUNNING, A_WAITING_HUMAN} then Some now
           else na_started_at a),
        na_completed_at := (if target \<in> {A_DONE, A_FAILED, A_CANCELED} then Some now
           else na_completed_at a)\<rparr>"
  by (auto simp: transition_attempt_def)

section \<open>The contract of a guarded state machine\<close>

locale status_machine =
  fixes allowed :: "'s \<Rightarrow> 's set"
    and status :: "'o \<Rightarrow> 's"
    and step :: "'o \<Rightarrow> 's \<Rightarrow> time \<Rightarrow> 'o res"
  assumes step_allowed: "step x t now = Inr y \<Longrightarrow> t \<in> allowed (status x)"
    and step_status: "step x t now = Inr y \<Longrightarrow> status y = t"
    and step_defined: "t \<in> allowed (status x) \<Longrightarrow> \<exists>y. step x t now = Inr y"
begin

lemma step_ok_iff: "is_ok (step x t now) \<longleftrightarrow> t \<in> allowed (status x)"
proof
  assume "is_ok (step x t now)"
  then obtain y where "step x t now = Inr y" by (cases "step x t now") auto
  then show "t \<in> allowed (status x)" by (rule step_allowed)
next
  assume "t \<in> allowed (status x)"
  then show "is_ok (step x t now)" using step_defined [of t x now] by auto
qed

lemma terminal_stuck: "allowed (status x) = {} \<Longrightarrow> \<exists>e. step x t now = Inl e"
  using step_allowed [of x t now] by (cases "step x t now") auto

lemma terminal_run:
  assumes "allowed (status x) = {}"
    and "foldM (\<lambda>(t, now) x. step x t now) ts x = Inr y"
  shows "ts = [] \<and> y = x"
proof (cases ts)
  case Nil
  with assms(2) show ?thesis by simp
next
  case (Cons p rest)
  with assms(2) obtain u where "step x (fst p) (snd p) = Inr u"
    by (auto simp: result_simps split: prod.splits)
  with assms(1) step_allowed show ?thesis by blast
qed

lemma run_status:
  assumes "foldM (\<lambda>(t, now) x. step x t now) ts x = Inr y"
  shows "status y = (if ts = [] then status x else fst (last ts))"
  using assms
proof (induction ts arbitrary: x)
  case (Cons p ts)
  then obtain u where u: "step x (fst p) (snd p) = Inr u"
    and rest: "foldM (\<lambda>(t, now) x. step x t now) ts u = Inr y"
    by (auto simp: result_simps split: prod.splits)
  with Cons.IH [OF rest] step_status [OF u] show ?case by auto
qed simp

end

locale ranked_machine = status_machine +
  fixes rank :: "'s \<Rightarrow> nat" and bound :: nat
  assumes rank_step: "t \<in> allowed s \<Longrightarrow> rank s < rank t"
    and rank_bound: "rank s \<le> bound"
begin

lemma run_length:
  assumes "foldM (\<lambda>(t, now) x. step x t now) ts x = Inr y"
  shows "rank (status x) + length ts \<le> rank (status y)"
  using assms
proof (induction ts arbitrary: x)
  case (Cons p ts)
  then obtain u where u: "step x (fst p) (snd p) = Inr u"
    and rest: "foldM (\<lambda>(t, now) x. step x t now) ts u = Inr y"
    by (auto simp: result_simps split: prod.splits)
  have "rank (status x) < rank (status u)"
    using rank_step [OF step_allowed [OF u]] step_status [OF u] by simp
  with Cons.IH [OF rest] show ?case by simp
qed simp

lemma run_bounded:
  "foldM (\<lambda>(t, now) x. step x t now) ts x = Inr y \<Longrightarrow> length ts \<le> bound"
  using run_length rank_bound by (meson add_leD2 le_trans)

lemma no_return:
  assumes "foldM (\<lambda>(t, now) x. step x t now) ts x = Inr y" and "ts \<noteq> []"
  shows "status y \<noteq> status x"
  using run_length [OF assms(1)] assms(2) by (cases ts) auto

end

fun node_rank :: "node_status \<Rightarrow> nat" where
  "node_rank N_PENDING = 0"
| "node_rank N_READY = 1"
| "node_rank N_RUNNING = 2"
| "node_rank N_WAITING_HUMAN = 2"
| "node_rank _ = 3"

fun attempt_rank :: "attempt_status \<Rightarrow> nat" where
  "attempt_rank A_PENDING = 0"
| "attempt_rank A_RUNNING = 1"
| "attempt_rank A_WAITING_HUMAN = 1"
| "attempt_rank _ = 2"

interpretation instance_machine: status_machine INSTANCE_TRANSITIONS wi_status transition_instance
  by unfold_locales (auto simp: transition_instance_def split: if_splits)

interpretation node_machine: ranked_machine NODE_TRANSITIONS ni_status transition_node node_rank 3
proof unfold_locales
  fix s t assume "t \<in> NODE_TRANSITIONS s"
  then show "node_rank s < node_rank t" by (cases s) auto
next
  fix s show "node_rank s \<le> 3" by (cases s) auto
qed (auto simp: transition_node_def split: if_splits)

interpretation attempt_machine:
  ranked_machine ATTEMPT_TRANSITIONS na_status transition_attempt attempt_rank 2
proof unfold_locales
  fix s t assume "t \<in> ATTEMPT_TRANSITIONS s"
  then show "attempt_rank s < attempt_rank t" by (cases s) auto
next
  fix s show "attempt_rank s \<le> 2" by (cases s) auto
qed (auto simp: transition_attempt_def split: if_splits)

abbreviation attempt_finished :: "node_attempt \<Rightarrow> bool" where
  "attempt_finished a \<equiv> ATTEMPT_TRANSITIONS (na_status a) = {}"

lemma attempt_finished_iff:
  "attempt_finished a \<longleftrightarrow> na_status a \<in> {A_DONE, A_FAILED, A_CANCELED}"
  by (cases "na_status a") auto

end
