(* ===== verification/Aggregate.thy ===== *)
theory Aggregate
  imports Transitions
begin

text \<open>
  The invariant of a workflow aggregate, stated once for all operations: the runtime records
  agree with the frozen snapshot (\<open>core_inv\<close>), the execution frontier respects the dependency
  graph (\<open>frontier_ok\<close>), and the status of the instance agrees with those of its nodes
  (\<open>phase_ok\<close>). Each operation of the kernel is shown to preserve \<open>instance_inv\<close> in its own
  theory; the lemmas here reduce that to the change of one node, of one set of nodes, or of the
  graph.
\<close>

section \<open>Identifiers\<close>

text \<open>\<open>f"{instance.id}:{spec.key}"\<close> and \<open>f"{node_id}:attempt:{n}"\<close>.\<close>

definition node_id_of :: "string \<Rightarrow> string \<Rightarrow> string" where
  "node_id_of iid key = iid @ '':'' @ key"

definition attempt_id_of :: "string \<Rightarrow> int \<Rightarrow> string" where
  "attempt_id_of nid no = nid @ '':attempt:'' @ dec_int no"

lemma attempt_id_inject:
  "0 \<le> m \<Longrightarrow> 0 \<le> n \<Longrightarrow> attempt_id_of nid m = attempt_id_of nid n \<longleftrightarrow> m = n"
  by (auto simp: attempt_id_of_def dec_int_def)

section \<open>The invariant\<close>

abbreviation node_at :: "workflow_instance \<Rightarrow> string \<Rightarrow> node_instance option" where
  "node_at w k \<equiv> dget (wi_nodes w) k"

abbreviation attempt_at :: "workflow_instance \<Rightarrow> string \<Rightarrow> int \<Rightarrow> node_attempt option" where
  "attempt_at w k m \<equiv> dget (wi_attempts w) (k, m)"

definition node_statuses :: "workflow_instance \<Rightarrow> string \<Rightarrow> node_status option" where
  "node_statuses w k = map_option ni_status (node_at w k)"

fun status_agrees :: "node_status \<Rightarrow> attempt_status \<Rightarrow> bool" where
  "status_agrees N_PENDING a = (a = A_PENDING)"
| "status_agrees N_READY a = (a = A_PENDING)"
| "status_agrees N_RUNNING a = (a = A_RUNNING)"
| "status_agrees N_WAITING_HUMAN a = (a = A_WAITING_HUMAN)"
| "status_agrees N_DONE a = (a = A_DONE)"
| "status_agrees N_FAILED a = (a = A_FAILED)"
| "status_agrees N_CANCELED a = (a = A_CANCELED)"

text \<open>An attempt holds a claim exactly while it is running.\<close>

definition claim_ok :: "node_attempt \<Rightarrow> bool" where
  "claim_ok a = (if na_status a = A_RUNNING
     then na_claimed_by a \<noteq> None \<and> na_claim_token a \<noteq> None \<and> na_claim_expires_at a \<noteq> None
     else na_claimed_by a = None \<and> na_claim_token a = None \<and> na_claim_expires_at a = None)"

definition node_ok :: "workflow_instance \<Rightarrow> string \<Rightarrow> node_instance \<Rightarrow> bool" where
  "node_ok w k n \<longleftrightarrow>
     ni_node_key n = k \<and> ni_instance_id n = wi_id w \<and> ni_id n = node_id_of (wi_id w) k \<and>
     (\<forall>spec. snapshot_node (wi_snapshot w) k = Inr spec \<longrightarrow> ni_executor n = ns_executor spec) \<and>
     (ni_status n = N_RUNNING \<longrightarrow> ni_executor n \<noteq> HUMAN) \<and> 1 \<le> ni_current_attempt_no n \<and>
     (\<exists>a. attempt_at w k (ni_current_attempt_no n) = Some a \<and> status_agrees (ni_status n) (na_status a))"

definition attempt_ok :: "workflow_instance \<Rightarrow> string \<Rightarrow> int \<Rightarrow> node_attempt \<Rightarrow> bool" where
  "attempt_ok w k m a \<longleftrightarrow>
     na_attempt_no a = m \<and> na_node_instance_id a = node_id_of (wi_id w) k \<and>
     na_id a = attempt_id_of (node_id_of (wi_id w) k) m \<and> claim_ok a \<and>
     (\<exists>n. node_at w k = Some n \<and> 1 \<le> m \<and> m \<le> ni_current_attempt_no n \<and>
        (m < ni_current_attempt_no n \<longrightarrow> attempt_finished a))"

definition core_inv :: "workflow_instance \<Rightarrow> bool" where
  "core_inv w \<longleftrightarrow>
     distinct (dkeys (wi_nodes w)) \<and> distinct (dkeys (wi_attempts w)) \<and>
     set (dkeys (wi_nodes w)) = set (snapshot_keys (wi_snapshot w)) \<and>
     (\<forall>k n. node_at w k = Some n \<longrightarrow> node_ok w k n) \<and>
     (\<forall>k m a. attempt_at w k m = Some a \<longrightarrow> attempt_ok w k m a)"

definition deps_done :: "instance_snapshot \<Rightarrow> (string \<Rightarrow> node_status option) \<Rightarrow> string \<Rightarrow> bool" where
  "deps_done s f k \<longleftrightarrow> (\<forall>d \<in> deps_of s k. f d = Some N_DONE)"

text \<open>A node past \<open>pending\<close> has all its dependencies done (safety); a pending node still waits for
  one (no node is forgotten).\<close>

definition frontier_ok :: "instance_snapshot \<Rightarrow> (string \<Rightarrow> node_status option) \<Rightarrow> bool" where
  "frontier_ok s f \<longleftrightarrow> (\<forall>k.
     (f k \<in> {Some N_READY, Some N_RUNNING, Some N_WAITING_HUMAN, Some N_DONE, Some N_FAILED} \<longrightarrow>
        deps_done s f k) \<and>
     (f k = Some N_PENDING \<longrightarrow> \<not> deps_done s f k))"

fun phase_ok :: "instance_status \<Rightarrow> node_status option set \<Rightarrow> bool" where
  "phase_ok I_DRAFT S = True"
| "phase_ok I_DISCARDED S = True"
| "phase_ok I_RUNNING S = (Some N_FAILED \<notin> S \<and> Some N_CANCELED \<notin> S \<and> \<not> S \<subseteq> {Some N_DONE})"
| "phase_ok I_PAUSED S = (Some N_FAILED \<notin> S \<and> Some N_CANCELED \<notin> S \<and> \<not> S \<subseteq> {Some N_DONE})"
| "phase_ok I_DONE S = (S \<subseteq> {Some N_DONE})"
| "phase_ok I_FAILED S = (Some N_FAILED \<in> S \<and> Some N_CANCELED \<notin> S)"
| "phase_ok I_CANCELED S = (S \<subseteq> {Some N_DONE, Some N_CANCELED})"

definition is_draft :: "workflow_instance \<Rightarrow> bool" where
  "is_draft w \<longleftrightarrow> wi_status w \<in> {I_DRAFT, I_DISCARDED}"

text \<open>The statuses of the nodes of the snapshot.\<close>

definition status_set :: "workflow_instance \<Rightarrow> node_status option set" where
  "status_set w = node_statuses w ` set (snapshot_keys (wi_snapshot w))"

definition instance_inv :: "workflow_instance \<Rightarrow> bool" where
  "instance_inv w \<longleftrightarrow>
     validate_snapshot (wi_snapshot w) = Inr () \<and>
     (if is_draft w then wi_nodes w = [] \<and> wi_attempts w = []
      else core_inv w \<and> frontier_ok (wi_snapshot w) (node_statuses w) \<and>
        phase_ok (wi_status w) (status_set w))"

section \<open>Reading an aggregate\<close>

lemma node_at_put_node [dict_simps]:
  "node_at (put_node k n w) j = (if j = k then Some n else node_at w j)"
  by (simp add: put_node_def dict_simps)

lemma node_at_put_attempt [dict_simps]: "node_at (put_attempt k m a w) j = node_at w j"
  by (simp add: put_attempt_def)

lemma attempt_at_put_node [dict_simps]: "attempt_at (put_node k n w) j m = attempt_at w j m"
  by (simp add: put_node_def)

lemma attempt_at_put_attempt [dict_simps]:
  "attempt_at (put_attempt k m a w) j i = (if j = k \<and> i = m then Some a else attempt_at w j i)"
  by (simp add: put_attempt_def dict_simps)

lemma put_node_fields [simp]:
  "wi_id (put_node k n w) = wi_id w" "wi_tenant_id (put_node k n w) = wi_tenant_id w"
  "wi_owner_person_id (put_node k n w) = wi_owner_person_id w"
  "wi_snapshot (put_node k n w) = wi_snapshot w" "wi_status (put_node k n w) = wi_status w"
  "wi_graph_revision (put_node k n w) = wi_graph_revision w"
  "wi_version (put_node k n w) = wi_version w" "wi_attempts (put_node k n w) = wi_attempts w"
  "wi_created_at (put_node k n w) = wi_created_at w"
  "wi_confirmed_at (put_node k n w) = wi_confirmed_at w"
  "wi_completed_at (put_node k n w) = wi_completed_at w"
  by (simp_all add: put_node_def)

lemma put_attempt_fields [simp]:
  "wi_id (put_attempt k m a w) = wi_id w" "wi_tenant_id (put_attempt k m a w) = wi_tenant_id w"
  "wi_owner_person_id (put_attempt k m a w) = wi_owner_person_id w"
  "wi_snapshot (put_attempt k m a w) = wi_snapshot w" "wi_status (put_attempt k m a w) = wi_status w"
  "wi_graph_revision (put_attempt k m a w) = wi_graph_revision w"
  "wi_version (put_attempt k m a w) = wi_version w" "wi_nodes (put_attempt k m a w) = wi_nodes w"
  "wi_created_at (put_attempt k m a w) = wi_created_at w"
  "wi_confirmed_at (put_attempt k m a w) = wi_confirmed_at w"
  "wi_completed_at (put_attempt k m a w) = wi_completed_at w"
  by (simp_all add: put_attempt_def)

lemma get_node_Inr [result_simps]: "get_node w k = Inr n \<longleftrightarrow> node_at w k = Some n"
  by (simp add: get_node_def result_simps)

lemma current_attempt_Inr [result_simps]:
  "current_attempt w k = Inr a \<longleftrightarrow>
     (\<exists>n. node_at w k = Some n \<and> attempt_at w k (ni_current_attempt_no n) = Some a)"
  by (auto simp: current_attempt_def result_simps)

lemma node_statuses_Some:
  "node_statuses w k = Some s \<longleftrightarrow> (\<exists>n. node_at w k = Some n \<and> ni_status n = s)"
  by (auto simp: node_statuses_def)

lemma node_statuses_put_node [dict_simps]:
  "node_statuses (put_node k n w) = (node_statuses w)(k \<mapsto> ni_status n)"
  by (auto simp: node_statuses_def dict_simps)

lemma node_statuses_put_attempt [dict_simps]: "node_statuses (put_attempt k m a w) = node_statuses w"
  by (auto simp: node_statuses_def dict_simps)

lemma core_inv_node:
  assumes "core_inv w" and "node_at w k = Some n"
  shows "node_ok w k n" and "k \<in> set (snapshot_keys (wi_snapshot w))"
proof -
  show "node_ok w k n" using assms by (simp add: core_inv_def)
  show "k \<in> set (snapshot_keys (wi_snapshot w))"
    using assms(1) dget_Some_in_dkeys [OF assms(2)] unfolding core_inv_def by metis
qed

lemma core_inv_attempt: "core_inv w \<Longrightarrow> attempt_at w k m = Some a \<Longrightarrow> attempt_ok w k m a"
  by (simp add: core_inv_def)

lemma core_inv_key:
  assumes "core_inv w" and "k \<in> set (snapshot_keys (wi_snapshot w))"
  obtains n a where "node_at w k = Some n" "attempt_at w k (ni_current_attempt_no n) = Some a"
    "node_ok w k n" "attempt_ok w k (ni_current_attempt_no n) a" "status_agrees (ni_status n) (na_status a)"
proof -
  from assms obtain n where n: "node_at w k = Some n"
    unfolding core_inv_def by (metis in_dkeys_dget)
  with core_inv_node(1) [OF assms(1) n] obtain a
    where a: "attempt_at w k (ni_current_attempt_no n) = Some a" "status_agrees (ni_status n) (na_status a)"
    by (auto simp: node_ok_def)
  with n core_inv_node(1) [OF assms(1) n] core_inv_attempt [OF assms(1) a(1)] that show ?thesis by blast
qed

lemma core_inv_missing:
  "core_inv w \<Longrightarrow> k \<notin> set (snapshot_keys (wi_snapshot w)) \<Longrightarrow> node_at w k = None"
  by (metis core_inv_node(2) not_None_eq)

section \<open>Changes of one node\<close>

text \<open>The identity of a node or attempt record, which no operation changes.\<close>

definition same_node :: "node_instance \<Rightarrow> node_instance \<Rightarrow> bool" where
  "same_node n n' \<longleftrightarrow> ni_id n' = ni_id n \<and> ni_instance_id n' = ni_instance_id n \<and>
     ni_node_key n' = ni_node_key n \<and> ni_executor n' = ni_executor n"

definition same_attempt :: "node_attempt \<Rightarrow> node_attempt \<Rightarrow> bool" where
  "same_attempt a a' \<longleftrightarrow> na_id a' = na_id a \<and> na_node_instance_id a' = na_node_instance_id a \<and>
     na_attempt_no a' = na_attempt_no a"

lemma core_inv_point:
  assumes inv: "core_inv w" and n: "node_at w k = Some n"
    and a: "attempt_at w k (ni_current_attempt_no n) = Some a"
    and same: "same_node n n'" "same_attempt a a'"
    and cur: "ni_current_attempt_no n' = ni_current_attempt_no n"
    and local: "status_agrees (ni_status n') (na_status a')" "claim_ok a'"
      "ni_status n' = N_RUNNING \<Longrightarrow> ni_executor n \<noteq> HUMAN"
  shows "core_inv (put_attempt k (ni_current_attempt_no n) a' (put_node k n' w))"
    (is "core_inv ?w")
proof -
  have keys: "set (dkeys (wi_nodes ?w)) = set (dkeys (wi_nodes w))"
    using dget_Some_in_dkeys [OF n]
    by (simp add: put_node_def put_attempt_def dict_simps insert_absorb)
  have "node_ok ?w j m" if "node_at ?w j = Some m" for j m
  proof (cases "j = k")
    case True
    with that have "m = n'" by (simp add: dict_simps)
    with True core_inv_node(1) [OF inv n] same(1) cur local show ?thesis
      by (auto simp: node_ok_def same_node_def dict_simps)
  next
    case False
    with that have "node_at w j = Some m" by (simp add: dict_simps)
    from core_inv_node(1) [OF inv this] False show ?thesis by (auto simp: node_ok_def dict_simps)
  qed
  moreover have "attempt_ok ?w j m b" if "attempt_at ?w j m = Some b" for j m b
  proof (cases "j = k \<and> m = ni_current_attempt_no n")
    case True
    with that have "b = a'" by (simp add: dict_simps)
    with True core_inv_attempt [OF inv a] core_inv_node(1) [OF inv n] same(2) cur local(2) show ?thesis
      by (auto simp: attempt_ok_def same_attempt_def dict_simps node_ok_def)
  next
    case False
    with that have b: "attempt_at w j m = Some b" by (auto simp: dict_simps split: if_splits)
    with core_inv_attempt [OF inv b] n cur show ?thesis
      by (auto simp: attempt_ok_def dict_simps)
  qed
  moreover have "distinct (dkeys (wi_nodes ?w))" "distinct (dkeys (wi_attempts ?w))"
    using inv unfolding core_inv_def put_node_def put_attempt_def
    by (simp_all add: distinct_dkeys_dput)
  ultimately show ?thesis using inv keys unfolding core_inv_def by simp
qed

lemma core_inv_put_node:
  assumes "core_inv w" and "node_at w k = Some n" and "same_node n n'"
    and "ni_current_attempt_no n' = ni_current_attempt_no n"
    and "\<And>a. status_agrees (ni_status n) a \<Longrightarrow> status_agrees (ni_status n') a"
    and "ni_status n' = N_RUNNING \<Longrightarrow> ni_executor n \<noteq> HUMAN"
  shows "core_inv (put_node k n' w)"
proof -
  obtain a where a: "attempt_at w k (ni_current_attempt_no n) = Some a" "status_agrees (ni_status n) (na_status a)"
    using core_inv_node(1) [OF assms(1,2)] by (auto simp: node_ok_def)
  have "claim_ok a" using core_inv_attempt [OF assms(1) a(1)] by (simp add: attempt_ok_def)
  then have "core_inv (put_attempt k (ni_current_attempt_no n) a (put_node k n' w))"
    using assms a by (intro core_inv_point [OF assms(1,2) a(1)]) (auto simp: same_attempt_def)
  moreover have "put_attempt k (ni_current_attempt_no n) a (put_node k n' w) = put_node k n' w"
    using a(1) by (simp add: put_attempt_def put_node_def dput_same)
  ultimately show ?thesis by simp
qed

text \<open>The current attempt is closed and a fresh one follows it.\<close>

lemma core_inv_next_attempt:
  assumes inv: "core_inv w" and n: "node_at w k = Some n"
    and a: "attempt_at w k (ni_current_attempt_no n) = Some a"
    and same: "same_node n n'" "same_attempt a a'"
    and cur: "ni_current_attempt_no n' = ni_current_attempt_no n + 1"
    and closed: "attempt_finished a'" "claim_ok a'"
    and fresh: "na_attempt_no b = ni_current_attempt_no n + 1" "na_node_instance_id b = ni_id n"
      "na_id b = attempt_id_of (ni_id n) (ni_current_attempt_no n + 1)" "claim_ok b"
    and local: "status_agrees (ni_status n') (na_status b)"
      "ni_status n' = N_RUNNING \<Longrightarrow> ni_executor n \<noteq> HUMAN"
  shows "core_inv (put_attempt k (ni_current_attempt_no n + 1) b
     (put_attempt k (ni_current_attempt_no n) a' (put_node k n' w)))"
    (is "core_inv ?w")
proof -
  let ?c = "ni_current_attempt_no n"
  have keys: "set (dkeys (wi_nodes ?w)) = set (dkeys (wi_nodes w))"
    using dget_Some_in_dkeys [OF n]
    by (simp add: put_node_def put_attempt_def dict_simps insert_absorb)
  have nok: "node_ok w k n" by (rule core_inv_node(1) [OF inv n])
  have "node_ok ?w j m" if "node_at ?w j = Some m" for j m
  proof (cases "j = k")
    case True
    with that have "m = n'" by (simp add: dict_simps)
    with True nok same(1) cur local show ?thesis
      by (auto simp: node_ok_def same_node_def dict_simps)
  next
    case False
    with that have "node_at w j = Some m" by (simp add: dict_simps)
    from core_inv_node(1) [OF inv this] False show ?thesis by (auto simp: node_ok_def dict_simps)
  qed
  moreover have "attempt_ok ?w j m c" if "attempt_at ?w j m = Some c" for j m c
  proof -
    consider (new) "j = k \<and> m = ?c + 1" | (old) "j = k \<and> m = ?c"
      | (other) "\<not> (j = k \<and> m = ?c + 1)" "\<not> (j = k \<and> m = ?c)" by blast
    then show ?thesis
    proof cases
      case new
      with that have "c = b" by (simp add: dict_simps)
      with new nok fresh cur show ?thesis by (auto simp: attempt_ok_def node_ok_def dict_simps)
    next
      case old
      with that have "c = a'" by (simp add: dict_simps)
      with old core_inv_attempt [OF inv a] nok same(2) closed cur show ?thesis
        by (auto simp: attempt_ok_def same_attempt_def node_ok_def dict_simps)
    next
      case other
      with that have c: "attempt_at w j m = Some c" by (auto simp: dict_simps split: if_splits)
      with core_inv_attempt [OF inv c] n cur other show ?thesis
        by (auto simp: attempt_ok_def dict_simps)
    qed
  qed
  moreover have "distinct (dkeys (wi_nodes ?w))" "distinct (dkeys (wi_attempts ?w))"
    using inv unfolding core_inv_def put_node_def put_attempt_def
    by (simp_all add: distinct_dkeys_dput)
  ultimately show ?thesis using inv keys unfolding core_inv_def by simp
qed

text \<open>The fields of the instance itself do not matter to the runtime records.\<close>

lemma core_inv_fields [simp]:
  "core_inv (w\<lparr>wi_status := s\<rparr>) = core_inv w"
  "core_inv (w\<lparr>wi_version := v\<rparr>) = core_inv w"
  "core_inv (w\<lparr>wi_graph_revision := g\<rparr>) = core_inv w"
  "core_inv (w\<lparr>wi_confirmed_at := t\<rparr>) = core_inv w"
  "core_inv (w\<lparr>wi_completed_at := t\<rparr>) = core_inv w"
  by (simp_all add: core_inv_def node_ok_def attempt_ok_def)

lemma node_statuses_fields [simp]:
  "node_statuses (w\<lparr>wi_status := s\<rparr>) = node_statuses w"
  "node_statuses (w\<lparr>wi_version := v\<rparr>) = node_statuses w"
  "node_statuses (w\<lparr>wi_graph_revision := g\<rparr>) = node_statuses w"
  "node_statuses (w\<lparr>wi_confirmed_at := t\<rparr>) = node_statuses w"
  "node_statuses (w\<lparr>wi_completed_at := t\<rparr>) = node_statuses w"
  by (simp_all add: node_statuses_def fun_eq_iff)

section \<open>The frontier\<close>

lemma frontier_active:
  "frontier_ok s f \<Longrightarrow>
     f k \<in> {Some N_READY, Some N_RUNNING, Some N_WAITING_HUMAN, Some N_DONE, Some N_FAILED} \<Longrightarrow>
     deps_done s f k"
  unfolding frontier_ok_def by blast

lemma deps_done_upd_other: "\<not> (k \<in> deps_of s j) \<Longrightarrow> deps_done s (f(k \<mapsto> x)) j = deps_done s f j"
  by (auto simp: deps_done_def)

text \<open>A node that leaves \<open>ready\<close>, \<open>running\<close> or \<open>waiting\<close> for another status that is neither
  \<open>pending\<close> nor \<open>done\<close> changes nothing for the others.\<close>

lemma frontier_point:
  assumes "frontier_ok s f" and "f k \<in> {Some N_READY, Some N_RUNNING, Some N_WAITING_HUMAN, Some N_FAILED}"
    and "x \<in> {N_READY, N_RUNNING, N_WAITING_HUMAN, N_FAILED, N_CANCELED}" and "k \<notin> deps_of s k"
  shows "frontier_ok s (f(k \<mapsto> x))"
proof -
  have same: "deps_done s (f(k \<mapsto> x)) j = deps_done s f j" for j
  proof -
    have "f k \<noteq> Some N_DONE" "x \<noteq> N_DONE" using assms(2,3) by auto
    then show ?thesis by (auto simp: deps_done_def)
  qed
  have "deps_done s f k" using assms(1,2) by (auto simp: frontier_ok_def)
  with assms same show ?thesis by (auto simp: frontier_ok_def)
qed

lemma wf_no_self_dep: "wf_snapshot s \<Longrightarrow> k \<notin> deps_of s k"
proof
  assume wf: "wf_snapshot s" and k: "k \<in> deps_of s k"
  then have "k \<in> set (snapshot_keys s)" using deps_of_subset by (auto simp: wf_snapshot_def)
  with k have "(k, k) \<in> dep_rel s" by (simp add: dep_rel_def)
  with wf show False by (auto simp: wf_snapshot_def acyclic_def)
qed

text \<open>The node is done and exactly those successors become ready that waited for nothing else.\<close>

definition unlocked :: "instance_snapshot \<Rightarrow> string \<Rightarrow> (string \<Rightarrow> node_status option) \<Rightarrow> string set" where
  "unlocked s k f = {j \<in> set (snapshot_keys s). k \<in> deps_of s j \<and> f j = Some N_PENDING \<and> deps_done s f j}"

lemma frontier_unlock:
  assumes fr: "frontier_ok s f" and old: "f k \<in> {Some N_RUNNING, Some N_WAITING_HUMAN}"
    and self: "k \<notin> deps_of s k" and dom: "\<And>j. f j \<noteq> None \<Longrightarrow> j \<in> set (snapshot_keys s)"
    and g: "g = (\<lambda>j. if j \<in> unlocked s k (f(k \<mapsto> N_DONE)) then Some N_READY else (f(k \<mapsto> N_DONE)) j)"
  shows "frontier_ok s g"
proof -
  let ?h = "f(k \<mapsto> N_DONE)"
  have mono: "deps_done s f j \<Longrightarrow> deps_done s ?h j" for j by (auto simp: deps_done_def)
  have gh: "deps_done s g j = deps_done s ?h j" for j
    using g by (auto simp: deps_done_def unlocked_def split: if_splits)
  have "deps_done s ?h k" using fr old mono by (auto simp: frontier_ok_def)
  have "(g j \<in> {Some N_READY, Some N_RUNNING, Some N_WAITING_HUMAN, Some N_DONE, Some N_FAILED} \<longrightarrow>
        deps_done s g j) \<and> (g j = Some N_PENDING \<longrightarrow> \<not> deps_done s g j)" for j
  proof (cases "j \<in> unlocked s k ?h")
    case True
    then show ?thesis using g gh by (simp add: unlocked_def)
  next
    case notin: False
    show ?thesis
    proof (cases "j = k")
      case True
      with notin g gh \<open>deps_done s ?h k\<close> show ?thesis by simp
    next
      case False
      with notin g have gj: "g j = f j" by simp
      moreover have "\<not> deps_done s ?h j" if "f j = Some N_PENDING"
      proof (cases "k \<in> deps_of s j")
        case True
        with notin False that dom [of j] show ?thesis by (auto simp: unlocked_def)
      next
        case nodep: False
        with fr that show ?thesis by (simp add: frontier_ok_def deps_done_upd_other)
      qed
      ultimately show ?thesis using fr gh mono by (auto simp: frontier_ok_def)
    qed
  qed
  then show ?thesis by (simp add: frontier_ok_def)
qed

lemma instance_inv_wf: "instance_inv w \<Longrightarrow> wf_snapshot (wi_snapshot w)"
  by (simp add: instance_inv_def validate_snapshot_wf)

lemma instance_inv_simple: "instance_inv w \<Longrightarrow> simple_snapshot (wi_snapshot w)"
  by (simp add: instance_inv_def validate_snapshot_simple)

lemma instance_inv_runtime:
  assumes "instance_inv w" and "wi_status w \<notin> {I_DRAFT, I_DISCARDED}"
  shows "core_inv w" "frontier_ok (wi_snapshot w) (node_statuses w)"
    "phase_ok (wi_status w) (status_set w)" "validate_snapshot (wi_snapshot w) = Inr ()"
  using assms by (auto simp: instance_inv_def is_draft_def)

lemma instance_invI:
  assumes "validate_snapshot (wi_snapshot w) = Inr ()" and "core_inv w"
    and "frontier_ok (wi_snapshot w) (node_statuses w)" and "phase_ok (wi_status w) (status_set w)"
    and "wi_status w \<notin> {I_DRAFT, I_DISCARDED}"
  shows "instance_inv w"
  using assms by (auto simp: instance_inv_def is_draft_def)

lemma status_set_mem: "core_inv w \<Longrightarrow> node_at w k = Some n \<Longrightarrow> Some (ni_status n) \<in> status_set w"
  using core_inv_node(2) by (force simp: status_set_def node_statuses_def)

lemma status_set_None: "core_inv w \<Longrightarrow> None \<notin> status_set w"
  by (auto simp: status_set_def node_statuses_def elim!: core_inv_key)

lemma status_set_point:
  "status_set w' \<subseteq> insert (Some x) (status_set w)" "k \<in> set (snapshot_keys (wi_snapshot w)) \<Longrightarrow> Some x \<in> status_set w'"
  if "wi_snapshot w' = wi_snapshot w" "node_statuses w' = (node_statuses w)(k \<mapsto> x)"
  using that by (auto simp: status_set_def)

section \<open>How an aggregate may evolve\<close>

text \<open>
  Finished attempts are never rewritten, a node record only changes together with an increase
  of its version, and the identity of the aggregate stays.
\<close>

definition history_kept :: "workflow_instance \<Rightarrow> workflow_instance \<Rightarrow> bool" where
  "history_kept w w' \<longleftrightarrow>
     (\<forall>k m a. attempt_at w k m = Some a \<and> attempt_finished a \<longrightarrow> attempt_at w' k m = Some a)"

definition versions_strict :: "workflow_instance \<Rightarrow> workflow_instance \<Rightarrow> bool" where
  "versions_strict w w' \<longleftrightarrow>
     (\<forall>k n n'. node_at w k = Some n \<longrightarrow> node_at w' k = Some n' \<longrightarrow> n' = n \<or> ni_version n < ni_version n')"

definition same_aggregate :: "workflow_instance \<Rightarrow> workflow_instance \<Rightarrow> bool" where
  "same_aggregate w w' \<longleftrightarrow> wi_id w' = wi_id w \<and> wi_tenant_id w' = wi_tenant_id w \<and>
     wi_owner_person_id w' = wi_owner_person_id w \<and> wi_created_at w' = wi_created_at w \<and>
     wi_version w' = wi_version w"

definition evolves :: "workflow_instance \<Rightarrow> workflow_instance \<Rightarrow> bool" where
  "evolves w w' \<longleftrightarrow> history_kept w w' \<and> versions_strict w w' \<and> same_aggregate w w' \<and>
     (\<forall>k. node_at w k \<noteq> None \<longrightarrow> node_at w' k \<noteq> None)"

lemma evolves_refl [simp]: "evolves w w"
  by (simp add: evolves_def history_kept_def versions_strict_def same_aggregate_def)

lemma evolves_trans:
  assumes "evolves u v" and "evolves v w"
  shows "evolves u w"
proof -
  have "history_kept u w" using assms unfolding evolves_def history_kept_def by blast
  moreover have "versions_strict u w"
    unfolding versions_strict_def
  proof (intro allI impI)
    fix k n n' assume u: "node_at u k = Some n" and w: "node_at w k = Some n'"
    with assms(1) obtain m where m: "node_at v k = Some m" by (fastforce simp: evolves_def)
    with assms u have "m = n \<or> ni_version n < ni_version m" by (auto simp: evolves_def versions_strict_def)
    moreover from m assms(2) w have "n' = m \<or> ni_version m < ni_version n'"
      by (auto simp: evolves_def versions_strict_def)
    ultimately show "n' = n \<or> ni_version n < ni_version n'" by auto
  qed
  moreover have "same_aggregate u w" using assms by (simp add: evolves_def same_aggregate_def)
  moreover have "\<forall>k. node_at u k \<noteq> None \<longrightarrow> node_at w k \<noteq> None" using assms by (simp add: evolves_def)
  ultimately show ?thesis by (simp add: evolves_def)
qed

lemma evolves_fields [simp]:
  "evolves w (u\<lparr>wi_status := s\<rparr>) = evolves w u"
  "evolves w (u\<lparr>wi_graph_revision := g\<rparr>) = evolves w u"
  "evolves w (u\<lparr>wi_confirmed_at := t\<rparr>) = evolves w u"
  "evolves w (u\<lparr>wi_completed_at := t\<rparr>) = evolves w u"
  by (simp_all add: evolves_def history_kept_def versions_strict_def same_aggregate_def)

lemma evolves_put_node:
  "node_at w k = Some n \<Longrightarrow> ni_version n < ni_version n' \<Longrightarrow> evolves w (put_node k n' w)"
  by (auto simp: evolves_def history_kept_def versions_strict_def same_aggregate_def dict_simps)

lemma evolves_put_attempt:
  "(\<And>a. attempt_at w k m = Some a \<Longrightarrow> attempt_finished a \<Longrightarrow> b = a) \<Longrightarrow> evolves w (put_attempt k m b w)"
  by (auto simp: evolves_def history_kept_def versions_strict_def same_aggregate_def dict_simps)

text \<open>A node and its current, unfinished attempt change together.\<close>

lemma evolves_point:
  assumes "node_at w k = Some n" and "ni_version n < ni_version n'"
    and "attempt_at w k m = Some a" and "\<not> attempt_finished a"
  shows "evolves w (put_attempt k m b (put_node k n' w))"
proof -
  have "evolves w (put_node k n' w)" by (rule evolves_put_node [OF assms(1,2)])
  moreover have "evolves (put_node k n' w) (put_attempt k m b (put_node k n' w))"
    using assms(3,4) by (intro evolves_put_attempt) (simp add: dict_simps)
  ultimately show ?thesis by (rule evolves_trans)
qed

lemma status_agrees_finished:
  "status_agrees s a \<Longrightarrow> ATTEMPT_TRANSITIONS a = {} \<longleftrightarrow> NODE_TRANSITIONS s = {}"
  by (cases s) auto

lemma status_agrees_canceled [simp]: "status_agrees N_CANCELED A_CANCELED" by simp

lemma point_fields:
  "node_statuses (put_attempt k m a (put_node k n w)) = (node_statuses w)(k \<mapsto> ni_status n)"
  by (simp add: dict_simps)

end
