(* ===== verification/Scheduler.thy ===== *)
theory Scheduler
  imports Aggregate
begin

text \<open>
  \<open>src/larkflow/workflow/scheduler.py\<close>: confirming a draft materialises a node and a first
  attempt for every node of the snapshot; finishing a node unlocks exactly the successors that
  waited for nothing else, and finishes the instance with its last node.
\<close>

section \<open>Operations\<close>

text \<open>\<open>{"deps": spec.deps, "work": spec.work}\<close>\<close>

definition pending_input :: "node_spec \<Rightarrow> pmap" where
  "pending_input spec =
     [(''deps'', PTuple (map PStr (ns_deps spec))), (''work'', PFrozen (ns_work spec))]"

definition materialize_node :: "time \<Rightarrow> node_spec \<Rightarrow> workflow_instance \<Rightarrow> workflow_instance" where
  "materialize_node now spec w =
     (let nid = node_id_of (wi_id w) (ns_key spec); is_root = (ns_deps spec = []) in
      put_attempt (ns_key spec) 1
        (new_node_attempt (attempt_id_of nid 1) nid 1 A_PENDING (pending_input spec))
        (put_node (ns_key spec)
          (new_node_instance nid (wi_id w) (ns_key spec) (ns_owner_person_id spec)
             (ns_executor spec) (if is_root then N_READY else N_PENDING)
             (if is_root then Some now else None)) w))"

definition scheduler_confirm :: "workflow_instance \<Rightarrow> time \<Rightarrow> workflow_instance res" where
  "scheduler_confirm w now =
     rbind (validate_snapshot (wi_snapshot w)) (\<lambda>_.
     rbind (transition_instance w I_RUNNING now) (\<lambda>w.
     Inr (foldl (\<lambda>w spec. materialize_node now spec w) w (sn_nodes (wi_snapshot w)))))"

definition set_ready :: "time \<Rightarrow> string list \<Rightarrow> string \<Rightarrow> workflow_instance \<Rightarrow> workflow_instance res" where
  "set_ready now ready key w =
     (if key \<in> set ready then
        rbind (get_node w key) (\<lambda>n. rbind (transition_node n N_READY now) (\<lambda>n'. Inr (put_node key n' w)))
      else Inr w)"

definition all_nodes_done :: "workflow_instance \<Rightarrow> bool" where
  "all_nodes_done w = (wi_nodes w \<noteq> [] \<and> list_all (\<lambda>(k, n). ni_status n = N_DONE) (wi_nodes w))"

definition unlock_after :: "workflow_instance \<Rightarrow> string \<Rightarrow> time \<Rightarrow> workflow_instance res" where
  "unlock_after w key now =
     rbind (ready_node_keys (wi_snapshot w) (node_statuses w)) (\<lambda>ready.
     rbind (direct_successors (wi_snapshot w) key) (\<lambda>succs.
     rbind (foldM (set_ready now ready) succs w) (\<lambda>w.
     if all_nodes_done w then transition_instance w I_DONE now else Inr w)))"

definition fail_instance :: "workflow_instance \<Rightarrow> time \<Rightarrow> workflow_instance res" where
  "fail_instance w now = transition_instance w I_FAILED now"

section \<open>Confirmation\<close>

lemma materialize_fields [simp]:
  "wi_id (materialize_node now spec w) = wi_id w"
  "wi_snapshot (materialize_node now spec w) = wi_snapshot w"
  "wi_status (materialize_node now spec w) = wi_status w"
  "wi_version (materialize_node now spec w) = wi_version w"
  "wi_tenant_id (materialize_node now spec w) = wi_tenant_id w"
  "wi_owner_person_id (materialize_node now spec w) = wi_owner_person_id w"
  by (simp_all add: materialize_node_def Let_def)

lemma materialize_all_fields [simp]:
  "wi_id (foldl (\<lambda>w spec. materialize_node now spec w) w specs) = wi_id w"
  "wi_snapshot (foldl (\<lambda>w spec. materialize_node now spec w) w specs) = wi_snapshot w"
  "wi_status (foldl (\<lambda>w spec. materialize_node now spec w) w specs) = wi_status w"
  "wi_version (foldl (\<lambda>w spec. materialize_node now spec w) w specs) = wi_version w"
  "wi_tenant_id (foldl (\<lambda>w spec. materialize_node now spec w) w specs) = wi_tenant_id w"
  "wi_owner_person_id (foldl (\<lambda>w spec. materialize_node now spec w) w specs) = wi_owner_person_id w"
  by (induction specs arbitrary: w) simp_all

definition first_node :: "string \<Rightarrow> time \<Rightarrow> node_spec \<Rightarrow> node_instance" where
  "first_node iid now spec =
     new_node_instance (node_id_of iid (ns_key spec)) iid (ns_key spec) (ns_owner_person_id spec)
       (ns_executor spec) (if ns_deps spec = [] then N_READY else N_PENDING)
       (if ns_deps spec = [] then Some now else None)"

definition first_attempt :: "string \<Rightarrow> node_spec \<Rightarrow> node_attempt" where
  "first_attempt iid spec =
     new_node_attempt (attempt_id_of (node_id_of iid (ns_key spec)) 1) (node_id_of iid (ns_key spec)) 1
       A_PENDING (pending_input spec)"

lemma materialize_all:
  assumes "distinct (map ns_key specs)"
    and "\<forall>spec \<in> set specs. ns_key spec \<notin> set (dkeys (wi_nodes w)) \<and> (ns_key spec, 1) \<notin> set (dkeys (wi_attempts w))"
  shows "wi_nodes (foldl (\<lambda>w spec. materialize_node now spec w) w specs)
       = wi_nodes w @ map (\<lambda>spec. (ns_key spec, first_node (wi_id w) now spec)) specs \<and>
     wi_attempts (foldl (\<lambda>w spec. materialize_node now spec w) w specs)
       = wi_attempts w @ map (\<lambda>spec. ((ns_key spec, 1), first_attempt (wi_id w) spec)) specs"
  using assms
proof (induction specs arbitrary: w)
  case (Cons spec specs)
  let ?w = "materialize_node now spec w"
  have w: "wi_nodes ?w = wi_nodes w @ [(ns_key spec, first_node (wi_id w) now spec)]"
    "wi_attempts ?w = wi_attempts w @ [((ns_key spec, 1), first_attempt (wi_id w) spec)]"
    using Cons.prems(2)
    by (simp_all add: materialize_node_def Let_def put_node_def put_attempt_def dput_new
        first_node_def first_attempt_def)
  have "\<forall>sp \<in> set specs. ns_key sp \<notin> set (dkeys (wi_nodes ?w)) \<and> (ns_key sp, 1) \<notin> set (dkeys (wi_attempts ?w))"
    using Cons.prems by (auto simp: w image_iff)
  moreover have "distinct (map ns_key specs)" using Cons.prems(1) by simp
  ultimately have "wi_nodes (foldl (\<lambda>w spec. materialize_node now spec w) ?w specs)
       = wi_nodes ?w @ map (\<lambda>spec. (ns_key spec, first_node (wi_id ?w) now spec)) specs \<and>
     wi_attempts (foldl (\<lambda>w spec. materialize_node now spec w) ?w specs)
       = wi_attempts ?w @ map (\<lambda>spec. ((ns_key spec, 1), first_attempt (wi_id ?w) spec)) specs"
    by (rule Cons.IH [rotated])
  then show ?case by (simp add: w)
qed simp

lemma dget_map_key:
  "distinct (map f xs) \<Longrightarrow> x \<in> set xs \<Longrightarrow> dget (map (\<lambda>x. (f x, g x)) xs) (f x) = Some (g x)"
  by (induction xs) (auto simp: image_iff)

lemma dget_map_key_Some:
  "dget (map (\<lambda>x. (f x, g x)) xs) k = Some v \<Longrightarrow> \<exists>x \<in> set xs. f x = k \<and> v = g x"
  by (induction xs) (auto split: if_splits)

lemma dkeys_map_key: "dkeys (map (\<lambda>x. (f x, g x)) xs) = map f xs"
  by simp

theorem scheduler_confirm_inv:
  assumes inv: "instance_inv w" and draft: "is_draft w" and ok: "scheduler_confirm w now = Inr w'"
  shows "instance_inv w' \<and> wi_status w' = I_RUNNING \<and> wi_status w = I_DRAFT \<and> wi_snapshot w' = wi_snapshot w \<and>
     (\<forall>spec \<in> set (sn_nodes (wi_snapshot w)). node_statuses w' (ns_key spec) =
        Some (if ns_deps spec = [] then N_READY else N_PENDING))"
proof -
  let ?s = "wi_snapshot w"
  obtain w0 where valid: "validate_snapshot ?s = Inr ()" and w0: "transition_instance w I_RUNNING now = Inr w0"
    and w': "w' = foldl (\<lambda>w spec. materialize_node now spec w) w0 (sn_nodes (wi_snapshot w0))"
    using ok by (auto simp: scheduler_confirm_def rbind_Inr_iff)
  have empty: "wi_nodes w = []" "wi_attempts w = []" using inv draft by (auto simp: instance_inv_def)
  have st: "wi_status w = I_DRAFT"
    using w0 draft by (auto simp: transition_instance_Inr is_draft_def)
  have w0': "wi_snapshot w0 = ?s" "wi_status w0 = I_RUNNING" "wi_nodes w0 = []" "wi_attempts w0 = []"
    "wi_id w0 = wi_id w" using w0 empty by (auto simp: transition_instance_Inr)
  have simple: "simple_snapshot ?s" by (rule validate_snapshot_simple [OF valid])
  have wf: "wf_snapshot ?s" by (rule validate_snapshot_wf [OF valid])
  have dist: "distinct (map ns_key (sn_nodes ?s))" using simple by (simp add: simple_snapshot_def)
  have "wi_nodes w' = map (\<lambda>spec. (ns_key spec, first_node (wi_id w) now spec)) (sn_nodes ?s) \<and>
     wi_attempts w' = map (\<lambda>spec. ((ns_key spec, 1), first_attempt (wi_id w) spec)) (sn_nodes ?s)"
    unfolding w' using materialize_all [of "sn_nodes ?s" w0 now] dist w0' by simp
  then have nodes: "wi_nodes w' = map (\<lambda>spec. (ns_key spec, first_node (wi_id w) now spec)) (sn_nodes ?s)"
    and atts: "wi_attempts w' = map (\<lambda>spec. ((ns_key spec, 1), first_attempt (wi_id w) spec)) (sn_nodes ?s)"
    by simp_all
  have fields: "wi_id w' = wi_id w" "wi_snapshot w' = ?s" "wi_status w' = I_RUNNING"
    unfolding w' by (simp_all add: w0')
  have dist2: "distinct (map (\<lambda>spec. (ns_key spec, 1::int)) (sn_nodes ?s))"
    using dist by (simp add: distinct_map inj_on_def)
  have at: "node_at w' (ns_key spec) = Some (first_node (wi_id w) now spec)"
    "attempt_at w' (ns_key spec) 1 = Some (first_attempt (wi_id w) spec)"
    if "spec \<in> set (sn_nodes ?s)" for spec
    using dget_map_key [OF dist that, of "first_node (wi_id w) now"]
      dget_map_key [OF dist2 that, of "first_attempt (wi_id w)"]
    by (simp_all only: nodes atts)
  have spec_of: "\<exists>spec \<in> set (sn_nodes ?s). ns_key spec = k \<and> n = first_node (wi_id w) now spec"
    if "node_at w' k = Some n" for k n
    using dget_map_key_Some [OF that [unfolded nodes]] by blast
  have "node_ok w' k n" if "node_at w' k = Some n" for k n
  proof -
    obtain spec where spec: "spec \<in> set (sn_nodes ?s)" "ns_key spec = k"
      "n = first_node (wi_id w) now spec" using spec_of [OF \<open>node_at w' k = Some n\<close>] by blast
    with at [OF spec(1)] snapshot_node_spec [OF simple spec(1)] fields show ?thesis
      by (auto simp: node_ok_def first_node_def new_node_instance_def first_attempt_def new_node_attempt_def)
  qed
  moreover have "attempt_ok w' k m a" if at_a: "attempt_at w' k m = Some a" for k m a
  proof -
    obtain spec where spec: "spec \<in> set (sn_nodes ?s)" "ns_key spec = k" "m = 1"
      "a = first_attempt (wi_id w) spec"
      using dget_map_key_Some [OF at_a [unfolded atts]] by auto
    with at [OF spec(1)] fields show ?thesis
      by (auto simp: attempt_ok_def first_node_def new_node_instance_def first_attempt_def
          new_node_attempt_def claim_ok_def)
  qed
  moreover have "distinct (dkeys (wi_nodes w'))" "distinct (dkeys (wi_attempts w'))"
    "set (dkeys (wi_nodes w')) = set (snapshot_keys ?s)"
    unfolding nodes atts dkeys_map_key using dist dist2 by simp_all
  ultimately have core: "core_inv w'" unfolding core_inv_def fields by blast
  have status: "node_statuses w' (ns_key spec) = Some (if ns_deps spec = [] then N_READY else N_PENDING)"
    if "spec \<in> set (sn_nodes ?s)" for spec
    using at [OF that] by (simp add: node_statuses_def first_node_def new_node_instance_def)
  have not_done: "node_statuses w' k \<noteq> Some N_DONE" for k
    by (auto simp: node_statuses_def first_node_def new_node_instance_def dest!: spec_of split: if_splits)
  have "frontier_ok ?s (node_statuses w')"
    unfolding frontier_ok_def
  proof (rule allI, rule conjI; rule impI)
    fix k assume k: "node_statuses w' k \<in> {Some N_READY, Some N_RUNNING, Some N_WAITING_HUMAN,
        Some N_DONE, Some N_FAILED}"
    then obtain n where "node_at w' k = Some n" by (auto simp: node_statuses_def)
    then obtain spec where spec: "spec \<in> set (sn_nodes ?s)" "ns_key spec = k" using spec_of by blast
    with k status [OF spec(1)] have "ns_deps spec = []" by (auto split: if_splits)
    with deps_of_spec [OF simple spec(1)] spec show "deps_done ?s (node_statuses w') k"
      by (simp add: deps_done_def)
  next
    fix k assume k: "node_statuses w' k = Some N_PENDING"
    then obtain n where "node_at w' k = Some n" by (auto simp: node_statuses_def)
    then obtain spec where spec: "spec \<in> set (sn_nodes ?s)" "ns_key spec = k" using spec_of by blast
    with k status [OF spec(1)] have "ns_deps spec \<noteq> []" by (auto split: if_splits)
    with deps_of_spec [OF simple spec(1)] spec not_done show "\<not> deps_done ?s (node_statuses w') k"
      by (auto simp: deps_done_def neq_Nil_conv)
  qed
  moreover have "phase_ok I_RUNNING (status_set w')"
  proof -
    have "status_set w' \<subseteq> {Some N_READY, Some N_PENDING}"
      using status by (auto simp: status_set_def fields)
    moreover have "status_set w' \<noteq> {}" using wf by (simp add: status_set_def fields wf_snapshot_def)
    ultimately show ?thesis by auto
  qed
  ultimately have "instance_inv w'"
    using core valid fields by (intro instance_invI) auto
  with fields st status show ?thesis by simp
qed

section \<open>Unlocking\<close>

lemma set_ready_loop:
  assumes "core_inv w" and "distinct xs"
    and "\<forall>j \<in> set xs \<inter> set ready. node_statuses w j = Some N_PENDING"
  shows "\<exists>ns. foldM (set_ready now ready) xs w = Inr (w\<lparr>wi_nodes := ns\<rparr>) \<and>
     (\<forall>i. i \<notin> set xs \<inter> set ready \<longrightarrow> dget ns i = node_at w i) \<and> core_inv (w\<lparr>wi_nodes := ns\<rparr>) \<and>
     evolves w (w\<lparr>wi_nodes := ns\<rparr>) \<and>
     node_statuses (w\<lparr>wi_nodes := ns\<rparr>)
       = (\<lambda>j. if j \<in> set xs \<inter> set ready then Some N_READY else node_statuses w j)"
  using assms
proof (induction xs arbitrary: w)
  case Nil
  have "w\<lparr>wi_nodes := wi_nodes w\<rparr> = w" by simp
  with Nil show ?case by (intro exI [of _ "wi_nodes w"]) simp
next
  case (Cons j xs)
  show ?case
  proof (cases "j \<in> set ready")
    case True
    with Cons.prems(3) obtain n where n: "node_at w j = Some n" "ni_status n = N_PENDING"
      by (auto simp: node_statuses_Some)
    define n' where "n' = n\<lparr>ni_status := N_READY, ni_version := ni_version n + 1, ni_ready_at := Some now\<rparr>"
    define u where "u = put_node j n' w"
    have t: "transition_node n N_READY now = Inr n'"
      using n(2) by (simp add: transition_node_def n'_def)
    have "core_inv u"
      unfolding u_def using n
      by (intro core_inv_put_node [OF Cons.prems(1) n(1)]) (auto simp: same_node_def n'_def)
    moreover have ust: "node_statuses u = (node_statuses w)(j \<mapsto> N_READY)"
      by (simp add: u_def n'_def node_statuses_put_node)
    moreover have "evolves w u"
      unfolding u_def using n by (intro evolves_put_node) (auto simp: n'_def)
    moreover have step: "set_ready now ready j w = Inr u"
      using True n(1) t by (simp add: set_ready_def get_node_def u_def)
    moreover have "\<forall>i \<in> set xs \<inter> set ready. node_statuses u i = Some N_PENDING"
      using Cons.prems(2,3) ust by auto
    ultimately obtain ns where ns: "foldM (set_ready now ready) xs u = Inr (u\<lparr>wi_nodes := ns\<rparr>)"
      "\<forall>i. i \<notin> set xs \<inter> set ready \<longrightarrow> dget ns i = node_at u i"
      "core_inv (u\<lparr>wi_nodes := ns\<rparr>)" "evolves u (u\<lparr>wi_nodes := ns\<rparr>)"
      "node_statuses (u\<lparr>wi_nodes := ns\<rparr>)
         = (\<lambda>i. if i \<in> set xs \<inter> set ready then Some N_READY else node_statuses u i)"
      using Cons.IH [of u] Cons.prems(2) by auto
    have eq: "u\<lparr>wi_nodes := ns\<rparr> = w\<lparr>wi_nodes := ns\<rparr>" by (simp add: u_def put_node_def)
    have other: "node_at u i = node_at w i" if "i \<noteq> j" for i
      using that by (simp add: u_def dict_simps)
    show ?thesis
    proof (intro exI [of _ ns] conjI)
      show "foldM (set_ready now ready) (j # xs) w = Inr (w\<lparr>wi_nodes := ns\<rparr>)"
        using step ns(1) eq by simp
      show "\<forall>i. i \<notin> set (j # xs) \<inter> set ready \<longrightarrow> dget ns i = node_at w i"
      proof (intro allI impI)
        fix i assume i: "i \<notin> set (j # xs) \<inter> set ready"
        with True have "i \<noteq> j" by auto
        with i ns(2) other show "dget ns i = node_at w i" by simp
      qed
      show "core_inv (w\<lparr>wi_nodes := ns\<rparr>)" using ns(3) by (simp only: eq)
      show "evolves w (w\<lparr>wi_nodes := ns\<rparr>)"
        using evolves_trans [OF \<open>evolves w u\<close> ns(4)] by (simp only: eq)
      show "node_statuses (w\<lparr>wi_nodes := ns\<rparr>)
         = (\<lambda>i. if i \<in> set (j # xs) \<inter> set ready then Some N_READY else node_statuses w i)"
        using ns(5) True by (simp only: eq) (auto simp: fun_eq_iff ust)
    qed
  next
    case False
    then have "set_ready now ready j w = Inr w" by (simp add: set_ready_def)
    moreover obtain ns where "foldM (set_ready now ready) xs w = Inr (w\<lparr>wi_nodes := ns\<rparr>)"
      "\<forall>i. i \<notin> set xs \<inter> set ready \<longrightarrow> dget ns i = node_at w i"
      "core_inv (w\<lparr>wi_nodes := ns\<rparr>)" "evolves w (w\<lparr>wi_nodes := ns\<rparr>)"
      "node_statuses (w\<lparr>wi_nodes := ns\<rparr>)
         = (\<lambda>i. if i \<in> set xs \<inter> set ready then Some N_READY else node_statuses w i)"
      using Cons.IH [of w] Cons.prems by auto
    ultimately show ?thesis using False by (intro exI [of _ ns]) auto
  qed
qed

lemma all_nodes_done_iff:
  assumes "core_inv w" and "wf_snapshot (wi_snapshot w)"
  shows "all_nodes_done w \<longleftrightarrow> status_set w \<subseteq> {Some N_DONE}"
proof -
  have dist: "distinct (dkeys (wi_nodes w))"
    and keys: "set (dkeys (wi_nodes w)) = set (snapshot_keys (wi_snapshot w))"
    using assms(1) by (simp_all add: core_inv_def)
  have ne: "wi_nodes w \<noteq> []" using keys assms(2) by (auto simp: wf_snapshot_def)
  have "list_all (\<lambda>(k, n). ni_status n = N_DONE) (wi_nodes w)
      \<longleftrightarrow> (\<forall>k \<in> set (dkeys (wi_nodes w)). node_statuses w k = Some N_DONE)"
  proof
    assume all: "list_all (\<lambda>(k, n). ni_status n = N_DONE) (wi_nodes w)"
    show "\<forall>k \<in> set (dkeys (wi_nodes w)). node_statuses w k = Some N_DONE"
    proof
      fix k assume "k \<in> set (dkeys (wi_nodes w))"
      then obtain n where n: "node_at w k = Some n" by (auto simp only: in_dkeys_dget)
      then have "(k, n) \<in> set (wi_nodes w)" by (rule map_of_SomeD)
      with all have "ni_status n = N_DONE" by (auto simp: list_all_iff)
      with n show "node_statuses w k = Some N_DONE" by (simp add: node_statuses_def)
    qed
  next
    assume all: "\<forall>k \<in> set (dkeys (wi_nodes w)). node_statuses w k = Some N_DONE"
    show "list_all (\<lambda>(k, n). ni_status n = N_DONE) (wi_nodes w)"
      unfolding list_all_iff
    proof clarify
      fix k n assume kn: "(k, n) \<in> set (wi_nodes w)"
      then have n: "node_at w k = Some n" using dist by simp
      from kn have "k \<in> set (dkeys (wi_nodes w))" by force
      with all have "node_statuses w k = Some N_DONE" by (rule bspec)
      with n show "ni_status n = N_DONE" by (simp add: node_statuses_def)
    qed
  qed
  then show ?thesis unfolding all_nodes_done_def keys using ne by (auto simp: status_set_def)
qed

text \<open>Finishing an active node and unlocking after it restores the invariant.\<close>

lemma unlock_after_spec:
  assumes core: "core_inv w" and valid: "validate_snapshot (wi_snapshot w) = Inr ()"
    and active: "wi_status w \<in> {I_RUNNING, I_PAUSED}"
    and fr: "frontier_ok (wi_snapshot w) f" and ph: "phase_ok (wi_status w) (f ` set (snapshot_keys (wi_snapshot w)))"
    and st: "node_statuses w = f(k \<mapsto> N_DONE)" and old: "f k \<in> {Some N_RUNNING, Some N_WAITING_HUMAN}"
  shows "\<exists>w'. unlock_after w k now = Inr w' \<and> instance_inv w' \<and> evolves w w' \<and>
     wi_snapshot w' = wi_snapshot w \<and> wi_attempts w' = wi_attempts w \<and> node_at w' k = node_at w k \<and>
     node_statuses w' = (\<lambda>j. if j \<in> unlocked (wi_snapshot w) k (node_statuses w)
        then Some N_READY else node_statuses w j) \<and>
     wi_status w' = (if status_set w \<subseteq> {Some N_DONE} then I_DONE else wi_status w)"
proof -
  let ?s = "wi_snapshot w" and ?g = "node_statuses w"
  have simple: "simple_snapshot ?s" and wf: "wf_snapshot ?s"
    using valid validate_snapshot_simple validate_snapshot_wf by auto
  have "node_statuses w k = Some N_DONE" using st by simp
  then obtain n where "node_at w k = Some n" by (auto simp: node_statuses_Some)
  then have key: "k \<in> set (snapshot_keys ?s)" by (rule core_inv_node(2) [OF core])
  obtain ready where ready: "ready_node_keys ?s ?g = Inr ready"
    and rset: "set ready = {j \<in> set (snapshot_keys ?s). ?g j = Some N_PENDING \<and> (\<forall>d \<in> deps_of ?s j. ?g d = Some N_DONE)}"
    using ready_node_keys_spec [OF wf] by blast
  obtain spec where spec: "snapshot_node ?s k = Inr spec" using snapshot_node_exists [OF key] by blast
  have succ: "direct_successors ?s k = Inr (successors_of ?s k)"
    by (simp add: direct_successors_def spec)
  have unl: "set (successors_of ?s k) \<inter> set ready = unlocked ?s k ?g"
    using rset set_successors [OF simple, of k] by (auto simp: unlocked_def deps_done_def)
  have pend: "\<forall>j \<in> set (successors_of ?s k) \<inter> set ready. ?g j = Some N_PENDING" using rset by blast
  obtain ns where ns: "foldM (set_ready now ready) (successors_of ?s k) w = Inr (w\<lparr>wi_nodes := ns\<rparr>)"
      "\<forall>i. i \<notin> unlocked ?s k ?g \<longrightarrow> dget ns i = node_at w i"
      "core_inv (w\<lparr>wi_nodes := ns\<rparr>)" "evolves w (w\<lparr>wi_nodes := ns\<rparr>)"
      "node_statuses (w\<lparr>wi_nodes := ns\<rparr>) = (\<lambda>j. if j \<in> unlocked ?s k ?g then Some N_READY else ?g j)"
    using set_ready_loop [OF core distinct_successors [OF simple] pend, of now] unfolding unl by blast
  define u where "u = w\<lparr>wi_nodes := ns\<rparr>"
  have gk: "?g k = Some N_DONE" using st by simp
  have self: "k \<notin> deps_of ?s k" by (rule wf_no_self_dep [OF wf])
  have ufr: "frontier_ok ?s (node_statuses u)"
  proof (rule frontier_unlock [OF fr old self])
    fix j assume "f j \<noteq> None"
    then have "?g j \<noteq> None" using st by simp
    then show "j \<in> set (snapshot_keys ?s)"
      using core_inv_node(2) [OF core] by (auto simp: node_statuses_def)
  next
    show "node_statuses u = (\<lambda>j. if j \<in> unlocked ?s k (f(k \<mapsto> N_DONE)) then Some N_READY else (f(k \<mapsto> N_DONE)) j)"
      using ns(5) unfolding u_def st .
  qed
  have uk: "node_at u k = node_at w k" using ns(2) gk by (simp add: u_def unlocked_def)
  have ust: "status_set u \<subseteq> {Some N_DONE} \<longleftrightarrow> status_set w \<subseteq> {Some N_DONE}"
    using ns(5) by (auto simp: status_set_def u_def unlocked_def image_subset_iff)
  have bad: "Some N_FAILED \<notin> status_set u" "Some N_CANCELED \<notin> status_set u"
    using ns(5) ph active st by (auto simp: status_set_def u_def image_iff split: if_splits)
  have done_iff: "all_nodes_done u \<longleftrightarrow> status_set w \<subseteq> {Some N_DONE}"
    using all_nodes_done_iff [of u] ns(3) wf ust by (simp add: u_def)
  have run: "unlock_after w k now = (if status_set w \<subseteq> {Some N_DONE} then transition_instance u I_DONE now else Inr u)"
    using ready succ ns(1) done_iff by (simp add: unlock_after_def u_def)
  define w' where "w' = (if status_set w \<subseteq> {Some N_DONE}
    then u\<lparr>wi_status := I_DONE, wi_completed_at := Some now\<rparr> else u)"
  have confirmed: "u\<lparr>wi_status := I_DONE, wi_confirmed_at := wi_confirmed_at u, wi_completed_at := Some now\<rparr>
      = u\<lparr>wi_status := I_DONE, wi_completed_at := Some now\<rparr>" by simp
  have "unlock_after w k now = Inr w'"
    unfolding run w'_def using active confirmed by (auto simp: transition_instance_def u_def)
  moreover have "instance_inv w'"
  proof (rule instance_invI)
    show "validate_snapshot (wi_snapshot w') = Inr ()" using valid by (simp add: w'_def u_def)
    show "core_inv w'" using ns(3) by (simp add: w'_def u_def)
    show "frontier_ok (wi_snapshot w') (node_statuses w')" using ufr by (simp add: w'_def u_def)
    have "status_set w' = status_set u" by (simp add: w'_def status_set_def u_def)
    moreover have "phase_ok (wi_status w') (status_set u)"
    proof (cases "status_set w \<subseteq> {Some N_DONE}")
      case True
      then have "wi_status w' = I_DONE" by (simp add: w'_def)
      with True ust show ?thesis by simp
    next
      case False
      then have "wi_status w' = wi_status w" by (simp add: w'_def u_def)
      then consider "wi_status w' = I_RUNNING" | "wi_status w' = I_PAUSED" using active by force
      then show ?thesis using False ust bad by cases simp_all
    qed
    ultimately show "phase_ok (wi_status w') (status_set w')" by simp
    show "wi_status w' \<notin> {I_DRAFT, I_DISCARDED}" using active by (auto simp: w'_def u_def)
  qed
  moreover have "evolves w w'" using ns(4) by (simp add: w'_def u_def)
  moreover have "node_statuses w' = (\<lambda>j. if j \<in> unlocked ?s k ?g then Some N_READY else ?g j)"
    using ns(5) by (simp add: w'_def u_def)
  moreover have "wi_snapshot w' = ?s" "wi_attempts w' = wi_attempts w" "node_at w' k = node_at w k"
    "wi_status w' = (if status_set w \<subseteq> {Some N_DONE} then I_DONE else wi_status w)"
    using uk by (simp_all add: w'_def u_def)
  ultimately show ?thesis by (intro exI [of _ w'] conjI)
qed

section \<open>Changing one active node\<close>

text \<open>
  The three ways in which an operation on one node keeps the invariant: the node stays active,
  it is done and its successors are unlocked, or it fails and the instance with it. \<open>point\<close> is
  the change they share.
\<close>

definition point ::
    "workflow_instance \<Rightarrow> string \<Rightarrow> node_instance \<Rightarrow> node_attempt \<Rightarrow> node_instance \<Rightarrow> node_attempt \<Rightarrow> bool" where
  "point w k n a n' a' \<longleftrightarrow>
     node_at w k = Some n \<and> attempt_at w k (ni_current_attempt_no n) = Some a \<and>
     same_node n n' \<and> same_attempt a a' \<and> ni_current_attempt_no n' = ni_current_attempt_no n \<and>
     status_agrees (ni_status n') (na_status a') \<and> claim_ok a' \<and>
     (ni_status n' = N_RUNNING \<longrightarrow> ni_executor n \<noteq> HUMAN)"

lemma point_core:
  assumes "core_inv w" and "point w k n a n' a'"
  shows "core_inv (put_attempt k (ni_current_attempt_no n) a' (put_node k n' w))"
  using assms(2) by (intro core_inv_point [OF assms(1)]) (auto simp: point_def)

lemma point_evolves:
  assumes "core_inv w" and "point w k n a n' a'" and "ni_version n < ni_version n'"
    and "ni_status n \<in> {N_READY, N_RUNNING, N_WAITING_HUMAN}"
  shows "evolves w (put_attempt k (ni_current_attempt_no n) a' (put_node k n' w))"
proof -
  have n: "node_at w k = Some n" and a: "attempt_at w k (ni_current_attempt_no n) = Some a"
    using assms(2) by (simp_all add: point_def)
  have "status_agrees (ni_status n) (na_status a)"
    using core_inv_node(1) [OF assms(1) n] a by (auto simp: node_ok_def)
  then have "\<not> attempt_finished a" using assms(4) by (auto simp: status_agrees_finished)
  then show ?thesis by (rule evolves_point [OF n assms(3) a])
qed

lemma point_statuses:
  "node_statuses (put_attempt k m a (put_node k n w)) = (node_statuses w)(k \<mapsto> ni_status n)"
  by (rule point_fields)

lemma active_phase: "s \<in> {I_RUNNING, I_PAUSED} \<Longrightarrow>
    phase_ok s S \<longleftrightarrow> Some N_FAILED \<notin> S \<and> Some N_CANCELED \<notin> S \<and> \<not> S \<subseteq> {Some N_DONE}"
  by (cases s) simp_all

lemma active_not_draft: "s \<in> {I_RUNNING, I_PAUSED} \<Longrightarrow> s \<notin> {I_DRAFT, I_DISCARDED}"
  by auto

lemma point_active:
  assumes inv: "instance_inv w" and active: "wi_status w \<in> {I_RUNNING, I_PAUSED}"
    and pt: "point w k n a n' a'" and old: "ni_status n \<in> {N_READY, N_RUNNING, N_WAITING_HUMAN}"
    and new: "ni_status n' \<in> {N_READY, N_RUNNING, N_WAITING_HUMAN}"
  shows "instance_inv (put_attempt k (ni_current_attempt_no n) a' (put_node k n' w))"
    (is "instance_inv ?w")
proof -
  note rt = instance_inv_runtime [OF inv active_not_draft [OF active]]
  have n: "node_at w k = Some n" using pt by (simp add: point_def)
  have key: "k \<in> set (snapshot_keys (wi_snapshot w))" by (rule core_inv_node(2) [OF rt(1) n])
  have st: "node_statuses ?w = (node_statuses w)(k \<mapsto> ni_status n')" by (rule point_statuses)
  have wf: "wf_snapshot (wi_snapshot w)" by (rule instance_inv_wf [OF inv])
  show ?thesis
  proof (rule instance_invI)
    show "validate_snapshot (wi_snapshot ?w) = Inr ()" using rt(4) by simp
    show "core_inv ?w" by (rule point_core [OF rt(1) pt])
    have "frontier_ok (wi_snapshot w) ((node_statuses w)(k \<mapsto> ni_status n'))"
      using rt(2) n old new by (intro frontier_point wf_no_self_dep [OF wf]) (auto simp: node_statuses_def)
    then show "frontier_ok (wi_snapshot ?w) (node_statuses ?w)" using st by simp
    have sub: "status_set ?w \<subseteq> insert (Some (ni_status n')) (status_set w)"
      and mem: "Some (ni_status n') \<in> status_set ?w"
      using status_set_point [of ?w w k "ni_status n'"] st key by simp_all
    have old: "Some N_FAILED \<notin> status_set w" "Some N_CANCELED \<notin> status_set w"
      using rt(3) unfolding active_phase [OF active] by auto
    have "Some N_FAILED \<notin> status_set ?w" "Some N_CANCELED \<notin> status_set ?w" "\<not> status_set ?w \<subseteq> {Some N_DONE}"
      using sub mem old new by fastforce+
    then show "phase_ok (wi_status ?w) (status_set ?w)" using active by (simp add: active_phase)
    show "wi_status ?w \<notin> {I_DRAFT, I_DISCARDED}" using active_not_draft [OF active] by simp
  qed
qed

lemma point_failed:
  assumes inv: "instance_inv w" and active: "wi_status w \<in> {I_RUNNING, I_PAUSED}"
    and pt: "point w k n a n' a'" and old: "ni_status n \<in> {N_RUNNING, N_WAITING_HUMAN}"
    and new: "ni_status n' = N_FAILED"
  shows "\<exists>w'. fail_instance (put_attempt k (ni_current_attempt_no n) a' (put_node k n' w)) now = Inr w' \<and>
     instance_inv w' \<and> wi_status w' = I_FAILED \<and> wi_nodes w' = dput k n' (wi_nodes w) \<and>
     wi_attempts w' = dput (k, ni_current_attempt_no n) a' (wi_attempts w) \<and>
     w' = (put_attempt k (ni_current_attempt_no n) a' (put_node k n' w))\<lparr>wi_status := I_FAILED, wi_completed_at := Some now\<rparr>"
proof -
  note rt = instance_inv_runtime [OF inv active_not_draft [OF active]]
  let ?u = "put_attempt k (ni_current_attempt_no n) a' (put_node k n' w)"
  define w' where "w' = ?u\<lparr>wi_status := I_FAILED, wi_completed_at := Some now\<rparr>"
  have "?u\<lparr>wi_status := I_FAILED, wi_confirmed_at := wi_confirmed_at ?u, wi_completed_at := Some now\<rparr> = w'"
    by (simp add: w'_def)
  then have run: "fail_instance ?u now = Inr w'"
    using active by (auto simp: fail_instance_def transition_instance_def)
  have n: "node_at w k = Some n" using pt by (simp add: point_def)
  have key: "k \<in> set (snapshot_keys (wi_snapshot w))" by (rule core_inv_node(2) [OF rt(1) n])
  have wf: "wf_snapshot (wi_snapshot w)" by (rule instance_inv_wf [OF inv])
  have st: "node_statuses w' = (node_statuses w)(k \<mapsto> N_FAILED)"
    by (simp add: w'_def point_statuses new)
  have "instance_inv w'"
  proof (rule instance_invI)
    show "validate_snapshot (wi_snapshot w') = Inr ()" using rt(4) by (simp add: w'_def)
    show "core_inv w'" using point_core [OF rt(1) pt] by (simp add: w'_def)
    have "frontier_ok (wi_snapshot w) ((node_statuses w)(k \<mapsto> N_FAILED))"
      using rt(2) n old by (intro frontier_point wf_no_self_dep [OF wf]) (auto simp: node_statuses_def)
    then show "frontier_ok (wi_snapshot w') (node_statuses w')" using st by (simp add: w'_def)
    have sub: "status_set w' \<subseteq> insert (Some N_FAILED) (status_set w)" and mem: "Some N_FAILED \<in> status_set w'"
      using status_set_point [of w' w k N_FAILED] st key by (simp_all add: w'_def)
    have "Some N_CANCELED \<notin> status_set w" using rt(3) unfolding active_phase [OF active] by auto
    then show "phase_ok (wi_status w') (status_set w')" using sub mem by (auto simp: w'_def)
    show "wi_status w' \<notin> {I_DRAFT, I_DISCARDED}" by (simp add: w'_def)
  qed
  moreover have "wi_status w' = I_FAILED" "wi_nodes w' = dput k n' (wi_nodes w)"
    "wi_attempts w' = dput (k, ni_current_attempt_no n) a' (wi_attempts w)"
    by (simp_all add: w'_def put_node_def put_attempt_def)
  ultimately show ?thesis using run w'_def by blast
qed

lemma point_done:
  assumes inv: "instance_inv w" and active: "wi_status w \<in> {I_RUNNING, I_PAUSED}"
    and pt: "point w k n a n' a'" and old: "ni_status n \<in> {N_RUNNING, N_WAITING_HUMAN}"
    and new: "ni_status n' = N_DONE"
  shows "\<exists>w'. unlock_after (put_attempt k (ni_current_attempt_no n) a' (put_node k n' w)) k now = Inr w' \<and>
     instance_inv w' \<and> evolves (put_attempt k (ni_current_attempt_no n) a' (put_node k n' w)) w' \<and>
     wi_snapshot w' = wi_snapshot w \<and>
     wi_attempts w' = dput (k, ni_current_attempt_no n) a' (wi_attempts w) \<and> node_at w' k = Some n' \<and>
     node_statuses w' = (\<lambda>j. if j = k then Some N_DONE
        else if j \<in> unlocked (wi_snapshot w) k ((node_statuses w)(k \<mapsto> N_DONE)) then Some N_READY
        else node_statuses w j) \<and>
     wi_status w' = (if \<forall>j \<in> set (snapshot_keys (wi_snapshot w)) - {k}. node_statuses w j = Some N_DONE
        then I_DONE else wi_status w)"
proof -
  let ?u = "put_attempt k (ni_current_attempt_no n) a' (put_node k n' w)"
  note rt = instance_inv_runtime [OF inv active_not_draft [OF active]]
  have n: "node_at w k = Some n" using pt by (simp add: point_def)
  have key: "k \<in> set (snapshot_keys (wi_snapshot w))" by (rule core_inv_node(2) [OF rt(1) n])
  have st: "node_statuses ?u = (node_statuses w)(k \<mapsto> N_DONE)" by (simp add: point_statuses new)
  have fk: "node_statuses w k \<in> {Some N_RUNNING, Some N_WAITING_HUMAN}"
    using n old by (auto simp: node_statuses_def)
  have "phase_ok (wi_status ?u) (node_statuses w ` set (snapshot_keys (wi_snapshot ?u)))"
    using rt(3) by (simp add: status_set_def)
  moreover have "core_inv ?u" by (rule point_core [OF rt(1) pt])
  ultimately obtain w' where w': "unlock_after ?u k now = Inr w'" "instance_inv w'" "evolves ?u w'"
     "wi_snapshot w' = wi_snapshot ?u" "wi_attempts w' = wi_attempts ?u" "node_at w' k = node_at ?u k"
     "node_statuses w' = (\<lambda>j. if j \<in> unlocked (wi_snapshot ?u) k (node_statuses ?u)
        then Some N_READY else node_statuses ?u j)"
     "wi_status w' = (if status_set ?u \<subseteq> {Some N_DONE} then I_DONE else wi_status ?u)"
    using unlock_after_spec [of ?u "node_statuses w" k now] rt(2,4) active st fk by auto
  have "status_set ?u \<subseteq> {Some N_DONE} \<longleftrightarrow>
      (\<forall>j \<in> set (snapshot_keys (wi_snapshot w)) - {k}. node_statuses w j = Some N_DONE)"
    unfolding status_set_def st by (simp add: image_subset_iff) blast
  moreover have "k \<notin> unlocked (wi_snapshot w) k ((node_statuses w)(k \<mapsto> N_DONE))"
    by (simp add: unlocked_def)
  ultimately show ?thesis using w' unfolding st
    by (intro exI [of _ w']) (auto simp: put_node_def put_attempt_def dict_simps fun_eq_iff)
qed

end
