(* ===== verification/Lifecycle.thy ===== *)
theory Lifecycle
  imports Scheduler
begin

text \<open>
  \<open>src/larkflow/workflow/lifecycle.py\<close>: the preview and the application of the cancellation of
  a whole instance. Every unfinished node and its current attempt is cancelled, claims are
  revoked, finished nodes keep their history.
\<close>

section \<open>Operations\<close>

record cancellation_preview =
  cp_instance_id :: string
  cp_expected_instance_version :: int
  cp_affected_node_keys :: "string list"
  cp_active_node_keys :: "string list"

definition CANCELABLE_INSTANCE_STATUSES :: "instance_status list" where
  "CANCELABLE_INSTANCE_STATUSES = [I_RUNNING, I_PAUSED]"

definition ACTIVE_NODE_STATUSES :: "node_status list" where
  "ACTIVE_NODE_STATUSES = [N_RUNNING, N_WAITING_HUMAN]"

definition CANCELABLE_NODE_STATUSES :: "node_status list" where
  "CANCELABLE_NODE_STATUSES = [N_PENDING, N_READY, N_RUNNING, N_WAITING_HUMAN]"

definition CANCELABLE_ATTEMPT_STATUSES :: "attempt_status list" where
  "CANCELABLE_ATTEMPT_STATUSES = [A_PENDING, A_RUNNING, A_WAITING_HUMAN]"

text \<open>\<open>tuple(spec.key for spec in snapshot.nodes if nodes[spec.key].status in statuses)\<close>\<close>

definition keys_with_status :: "workflow_instance \<Rightarrow> node_status list \<Rightarrow> string list res" where
  "keys_with_status w statuses =
     foldM (\<lambda>spec acc. rbind (get_node w (ns_key spec)) (\<lambda>n.
         Inr (if ni_status n \<in> set statuses then acc @ [ns_key spec] else acc)))
       (sn_nodes (wi_snapshot w)) []"

definition preview_cancellation :: "workflow_instance \<Rightarrow> cancellation_preview res" where
  "preview_cancellation w =
     rbind (ensure (wi_status w \<in> set CANCELABLE_INSTANCE_STATUSES)
        (CancellationNotAllowedError ''instance cannot be canceled'')) (\<lambda>_.
     rbind (keys_with_status w CANCELABLE_NODE_STATUSES) (\<lambda>affected.
     rbind (keys_with_status w ACTIVE_NODE_STATUSES) (\<lambda>active.
     Inr \<lparr>cp_instance_id = wi_id w, cp_expected_instance_version = wi_version w,
          cp_affected_node_keys = affected, cp_active_node_keys = active\<rparr>)))"

text \<open>\<open>attempt.claimed_by or attempt.claim_token or attempt.claim_expires_at\<close>\<close>

definition text_set :: "string option \<Rightarrow> bool" where
  "text_set t = (case t of None \<Rightarrow> False | Some s \<Rightarrow> s \<noteq> [])"

definition has_claim :: "node_attempt \<Rightarrow> bool" where
  "has_claim a \<longleftrightarrow> text_set (na_claimed_by a) \<or> text_set (na_claim_token a) \<or> na_claim_expires_at a \<noteq> None"

definition clear_claim :: "node_attempt \<Rightarrow> node_attempt" where
  "clear_claim a = a\<lparr>na_claimed_by := None, na_claim_token := None, na_claim_expires_at := None\<rparr>"

definition cancel_node ::
    "time \<Rightarrow> node_spec \<Rightarrow> workflow_instance \<times> string list \<times> string list
       \<Rightarrow> (workflow_instance \<times> string list \<times> string list) res" where
  "cancel_node now spec = (\<lambda>(w, canceled, revoked).
     rbind (get_node w (ns_key spec)) (\<lambda>n.
     if ni_status n \<notin> set CANCELABLE_NODE_STATUSES then Inr (w, canceled, revoked)
     else rbind (current_attempt w (ns_key spec)) (\<lambda>a.
       let revoked' = (if ns_executor spec \<noteq> HUMAN \<and> has_claim a then revoked @ [ns_key spec] else revoked)
       in rbind (transition_node n N_CANCELED now) (\<lambda>n'.
          rbind (if na_status a \<in> set CANCELABLE_ATTEMPT_STATUSES
                 then transition_attempt a A_CANCELED now else Inr a) (\<lambda>a'.
          Inr (put_attempt (ns_key spec) (ni_current_attempt_no n) (clear_claim a')
                 (put_node (ns_key spec) n' w),
               canceled @ [ns_key spec], revoked'))))))"

definition apply_cancellation ::
    "workflow_instance \<Rightarrow> int \<Rightarrow> time \<Rightarrow> (workflow_instance \<times> string list \<times> string list) res" where
  "apply_cancellation w expected_instance_version now =
     rbind (ensure (wi_status w \<in> set CANCELABLE_INSTANCE_STATUSES)
        (CancellationNotAllowedError ''instance cannot be canceled'')) (\<lambda>_.
     rbind (ensure (wi_version w = expected_instance_version)
        (StaleCancellationError ''instance changed after the cancellation preview'')) (\<lambda>_.
     rbind (foldM (cancel_node now) (sn_nodes (wi_snapshot w)) (w, [], [])) (\<lambda>(w, canceled, revoked).
     rbind (transition_instance w I_CANCELED now) (\<lambda>w.
     Inr (w, canceled, revoked)))))"

section \<open>What cancelling does\<close>

abbreviation cancelable :: "workflow_instance \<Rightarrow> node_spec \<Rightarrow> bool" where
  "cancelable w spec \<equiv> node_statuses w (ns_key spec) \<in>
     {Some N_PENDING, Some N_READY, Some N_RUNNING, Some N_WAITING_HUMAN}"

lemma cancelable_statuses:
  "s \<in> set CANCELABLE_NODE_STATUSES \<longleftrightarrow> N_CANCELED \<in> NODE_TRANSITIONS s"
  by (cases s) (auto simp: CANCELABLE_NODE_STATUSES_def)

lemma keys_with_status_fold:
  assumes "\<forall>spec \<in> set specs. node_at w (ns_key spec) \<noteq> None"
  shows "foldM (\<lambda>spec acc. rbind (get_node w (ns_key spec)) (\<lambda>n.
           Inr (if ni_status n \<in> set statuses then acc @ [ns_key spec] else acc))) specs acc
     = Inr (acc @ map ns_key (filter (\<lambda>spec. node_statuses w (ns_key spec) \<in> Some ` set statuses) specs))"
  using assms
proof (induction specs arbitrary: acc)
  case (Cons spec specs)
  then obtain n where n: "node_at w (ns_key spec) = Some n" by auto
  then have "node_statuses w (ns_key spec) = Some (ni_status n)" by (simp add: node_statuses_def)
  with n Cons show ?case by (auto simp: get_node_def image_iff)
qed simp

lemma core_inv_nodes_exist:
  "core_inv w \<Longrightarrow> \<forall>spec \<in> set (sn_nodes (wi_snapshot w)). node_at w (ns_key spec) \<noteq> None"
  by (metis core_inv_key image_eqI list.set_map option.discI)

lemma keys_with_status_spec:
  assumes "core_inv w"
  shows "keys_with_status w statuses = Inr (map ns_key (filter
     (\<lambda>spec. node_statuses w (ns_key spec) \<in> Some ` set statuses) (sn_nodes (wi_snapshot w))))"
  using keys_with_status_fold [OF core_inv_nodes_exist [OF assms], of statuses "[]"]
  by (simp add: keys_with_status_def)

lemma cancel_node_step:
  assumes core: "core_inv w" and n: "node_at w (ns_key spec) = Some n"
    and exec: "ni_executor n = ns_executor spec"
  shows "\<exists>w'. cancel_node now spec (w, c, r) = Inr (w',
       c @ (if cancelable w spec then [ns_key spec] else []),
       r @ (if node_statuses w (ns_key spec) = Some N_RUNNING then [ns_key spec] else [])) \<and>
     core_inv w' \<and> evolves w w' \<and> wi_snapshot w' = wi_snapshot w \<and> wi_status w' = wi_status w \<and>
     wi_confirmed_at w' = wi_confirmed_at w \<and>
     node_statuses w' = (\<lambda>j. if j = ns_key spec \<and> cancelable w spec then Some N_CANCELED else node_statuses w j)"
proof (cases "N_CANCELED \<in> NODE_TRANSITIONS (ni_status n)")
  case False
  then have "\<not> cancelable w spec" "node_statuses w (ns_key spec) \<noteq> Some N_RUNNING"
    using n by (auto simp: node_statuses_def)
  with False n core show ?thesis
    by (intro exI [of _ w]) (auto simp: cancel_node_def get_node_def cancelable_statuses)
next
  case True
  let ?k = "ns_key spec"
  obtain a where a: "attempt_at w ?k (ni_current_attempt_no n) = Some a"
    "status_agrees (ni_status n) (na_status a)"
    using core_inv_node(1) [OF core n] by (auto simp: node_ok_def)
  have claim: "claim_ok a" using core_inv_attempt [OF core a(1)] by (simp add: attempt_ok_def)
  have open_a: "na_status a \<in> set CANCELABLE_ATTEMPT_STATUSES" "\<not> attempt_finished a"
    "A_CANCELED \<in> ATTEMPT_TRANSITIONS (na_status a)"
    using a(2) True by (cases "ni_status n"; auto simp: CANCELABLE_ATTEMPT_STATUSES_def)+
  have can: "cancelable w spec" using True n by (cases "ni_status n") (auto simp: node_statuses_def)
  have human: "ni_status n = N_RUNNING \<Longrightarrow> ns_executor spec \<noteq> HUMAN"
    using core_inv_node(1) [OF core n] exec by (simp add: node_ok_def)
  have rev: "ns_executor spec \<noteq> HUMAN \<and> has_claim a \<longleftrightarrow> ni_status n = N_RUNNING"
  proof -
    have "has_claim a \<longleftrightarrow> na_status a = A_RUNNING"
      using claim by (auto simp: claim_ok_def has_claim_def text_set_def split: if_splits)
    moreover have "na_status a = A_RUNNING \<longleftrightarrow> ni_status n = N_RUNNING"
      using a(2) by (cases "ni_status n") auto
    ultimately show ?thesis using human by auto
  qed
  obtain n' where n': "transition_node n N_CANCELED now = Inr n'"
    using True by (auto simp: transition_node_def)
  obtain a' where a': "transition_attempt a A_CANCELED now = Inr a'"
    using open_a(3) by (auto simp: transition_attempt_def)
  define w' where "w' = put_attempt ?k (ni_current_attempt_no n) (clear_claim a') (put_node ?k n' w)"
  have nf: "same_node n n'" "ni_current_attempt_no n' = ni_current_attempt_no n"
    "ni_status n' = N_CANCELED" "ni_version n' = ni_version n + 1"
    using n' by (auto simp: transition_node_Inr same_node_def)
  have af: "same_attempt a (clear_claim a')" "na_status (clear_claim a') = A_CANCELED" "claim_ok (clear_claim a')"
    using a' by (auto simp: transition_attempt_Inr same_attempt_def clear_claim_def claim_ok_def)
  have run: "cancel_node now spec (w, c, r) = Inr (w', c @ [?k],
       if ni_status n = N_RUNNING then r @ [?k] else r)"
    using True n a n' a' open_a(1) rev
    by (simp add: cancel_node_def get_node_def current_attempt_def cancelable_statuses w'_def)
  moreover have "core_inv w'"
    unfolding w'_def using nf af by (intro core_inv_point [OF core n a(1)]) simp_all
  moreover have "evolves w w'"
    unfolding w'_def using nf open_a(2) by (intro evolves_point [OF n _ a(1)]) simp_all
  moreover have "node_statuses w' = (node_statuses w)(?k \<mapsto> N_CANCELED)"
    by (simp add: w'_def point_fields nf)
  moreover have "node_statuses w ?k = Some N_RUNNING \<longleftrightarrow> ni_status n = N_RUNNING"
    using n by (simp add: node_statuses_def)
  moreover have "wi_snapshot w' = wi_snapshot w" "wi_status w' = wi_status w" "wi_confirmed_at w' = wi_confirmed_at w"
    by (simp_all add: w'_def)
  ultimately show ?thesis using can by (intro exI [of _ w']) (simp add: fun_eq_iff)
qed

lemma cancel_loop:
  assumes "core_inv w" and "distinct (map ns_key specs)"
    and "\<forall>spec \<in> set specs. snapshot_node (wi_snapshot w) (ns_key spec) = Inr spec"
  shows "\<exists>w'. foldM (cancel_node now) specs (w, c, r) = Inr (w',
       c @ map ns_key (filter (cancelable w) specs),
       r @ map ns_key (filter (\<lambda>spec. node_statuses w (ns_key spec) = Some N_RUNNING) specs)) \<and>
     core_inv w' \<and> evolves w w' \<and> wi_snapshot w' = wi_snapshot w \<and> wi_status w' = wi_status w \<and>
     wi_confirmed_at w' = wi_confirmed_at w \<and>
     node_statuses w' = (\<lambda>j. if \<exists>spec \<in> set specs. ns_key spec = j \<and> cancelable w spec
        then Some N_CANCELED else node_statuses w j)"
  using assms
proof (induction specs arbitrary: w c r)
  case Nil
  then show ?case by (intro exI [of _ w]) simp
next
  case (Cons spec specs)
  let ?k = "ns_key spec"
  from Cons.prems(3) have spec: "snapshot_node (wi_snapshot w) ?k = Inr spec" by simp
  then have "?k \<in> set (snapshot_keys (wi_snapshot w))"
    by (auto simp: snapshot_node_def result_simps find_Some_iff)
  with Cons.prems(1) obtain n where n: "node_at w ?k = Some n" "node_ok w ?k n" by (rule core_inv_key)
  with spec have exec: "ni_executor n = ns_executor spec" by (simp add: node_ok_def)
  obtain u where u: "cancel_node now spec (w, c, r) = Inr (u,
       c @ (if cancelable w spec then [?k] else []),
       r @ (if node_statuses w ?k = Some N_RUNNING then [?k] else []))"
     "core_inv u" "evolves w u" "wi_snapshot u = wi_snapshot w" "wi_status u = wi_status w"
     "wi_confirmed_at u = wi_confirmed_at w"
     "node_statuses u = (\<lambda>j. if j = ?k \<and> cancelable w spec then Some N_CANCELED else node_statuses w j)"
    using cancel_node_step [OF Cons.prems(1) n(1) exec] by blast
  have same: "node_statuses u (ns_key sp) = node_statuses w (ns_key sp)" if "sp \<in> set specs" for sp
  proof -
    have "ns_key sp \<in> ns_key ` set specs" using that by simp
    with Cons.prems(2) have "ns_key sp \<noteq> ?k" by auto
    then show ?thesis by (simp add: u(7))
  qed
  have filters: "filter (cancelable u) specs = filter (cancelable w) specs"
    "filter (\<lambda>sp. node_statuses u (ns_key sp) = Some N_RUNNING) specs
       = filter (\<lambda>sp. node_statuses w (ns_key sp) = Some N_RUNNING) specs"
    by (intro filter_cong refl; simp only: same)+
  have "\<forall>sp \<in> set specs. snapshot_node (wi_snapshot u) (ns_key sp) = Inr sp"
    using Cons.prems(3) u(4) by simp
  moreover have "distinct (map ns_key specs)" using Cons.prems(2) by simp
  ultimately obtain w' where w': "foldM (cancel_node now) specs (u,
         c @ (if cancelable w spec then [?k] else []),
         r @ (if node_statuses w ?k = Some N_RUNNING then [?k] else [])) = Inr (w',
       (c @ (if cancelable w spec then [?k] else [])) @ map ns_key (filter (cancelable w) specs),
       (r @ (if node_statuses w ?k = Some N_RUNNING then [?k] else []))
         @ map ns_key (filter (\<lambda>sp. node_statuses w (ns_key sp) = Some N_RUNNING) specs))"
     "core_inv w'" "evolves u w'" "wi_snapshot w' = wi_snapshot w" "wi_status w' = wi_status w"
     "wi_confirmed_at w' = wi_confirmed_at w"
     "node_statuses w' = (\<lambda>j. if \<exists>sp \<in> set specs. ns_key sp = j \<and> cancelable u sp
        then Some N_CANCELED else node_statuses u j)"
    using Cons.IH [OF u(2)] unfolding filters u(4,5,6) by blast
  have "node_statuses w' = (\<lambda>j. if \<exists>sp \<in> set (spec # specs). ns_key sp = j \<and> cancelable w sp
        then Some N_CANCELED else node_statuses w j)"
  proof
    fix j
    have "(\<exists>sp \<in> set specs. ns_key sp = j \<and> cancelable u sp)
        \<longleftrightarrow> (\<exists>sp \<in> set specs. ns_key sp = j \<and> cancelable w sp)" using same by auto
    then show "node_statuses w' j = (if \<exists>sp \<in> set (spec # specs). ns_key sp = j \<and> cancelable w sp
        then Some N_CANCELED else node_statuses w j)"
      unfolding w'(7) u(7) by (cases "j = ?k") auto
  qed
  moreover have "evolves w w'" using u(3) w'(3) by (rule evolves_trans)
  ultimately show ?case using u(1) w' by (intro exI [of _ w'] conjI) simp_all
qed

text \<open>Cancelling an active instance succeeds, cancels exactly the unfinished nodes, revokes exactly
  the claims of running ones, and keeps the invariant and the history.\<close>

lemma apply_cancellation_spec:
  assumes inv: "instance_inv w" and active: "wi_status w \<in> {I_RUNNING, I_PAUSED}"
    and version: "wi_version w = v"
  shows "\<exists>w'. apply_cancellation w v now = Inr (w',
       map ns_key (filter (cancelable w) (sn_nodes (wi_snapshot w))),
       map ns_key (filter (\<lambda>spec. node_statuses w (ns_key spec) = Some N_RUNNING) (sn_nodes (wi_snapshot w)))) \<and>
     instance_inv w' \<and> evolves w w' \<and> wi_snapshot w' = wi_snapshot w \<and> wi_status w' = I_CANCELED \<and>
     node_statuses w' = (\<lambda>j. if node_statuses w j \<in> {None, Some N_DONE} then node_statuses w j
        else Some N_CANCELED)"
proof -
  let ?s = "wi_snapshot w"
  have st: "wi_status w \<notin> {I_DRAFT, I_DISCARDED}" using active by auto
  note rt = instance_inv_runtime [OF inv st]
  have simple: "simple_snapshot ?s" by (rule instance_inv_simple [OF inv])
  have "distinct (map ns_key (sn_nodes ?s))" using simple by (simp add: simple_snapshot_def)
  moreover have "\<forall>spec \<in> set (sn_nodes ?s). snapshot_node ?s (ns_key spec) = Inr spec"
    using snapshot_node_spec [OF simple] by blast
  ultimately obtain u where u: "foldM (cancel_node now) (sn_nodes ?s) (w, [], []) = Inr (u,
       map ns_key (filter (cancelable w) (sn_nodes ?s)),
       map ns_key (filter (\<lambda>spec. node_statuses w (ns_key spec) = Some N_RUNNING) (sn_nodes ?s)))"
     "core_inv u" "evolves w u" "wi_snapshot u = ?s" "wi_status u = wi_status w"
     "node_statuses u = (\<lambda>j. if \<exists>spec \<in> set (sn_nodes ?s). ns_key spec = j \<and> cancelable w spec
        then Some N_CANCELED else node_statuses w j)"
    using cancel_loop [OF rt(1), of "sn_nodes ?s" now "[]" "[]"] by auto
  have bad: "Some N_FAILED \<notin> status_set w" "Some N_CANCELED \<notin> status_set w"
    using rt(3) active by auto
  have key: "j \<in> set (snapshot_keys ?s)" if "node_statuses w j \<noteq> None" for j
    using that core_inv_node(2) [OF rt(1)] by (auto simp: node_statuses_def)
  have st_u: "node_statuses u j = (if node_statuses w j \<in> {None, Some N_DONE} then node_statuses w j
        else Some N_CANCELED)" for j
  proof (cases "node_statuses w j")
    case None
    then have "\<not> (\<exists>spec \<in> set (sn_nodes ?s). ns_key spec = j \<and> cancelable w spec)" by auto
    with None u(6) show ?thesis by simp
  next
    case (Some x)
    with key [of j] have j: "j \<in> set (snapshot_keys ?s)" by simp
    with Some bad have "x \<noteq> N_FAILED" "x \<noteq> N_CANCELED" by (auto simp: status_set_def image_iff)
    then have "cancelable w spec \<longleftrightarrow> x \<noteq> N_DONE" if "ns_key spec = j" for spec
      using Some that by (cases x) auto
    then have "(\<exists>spec \<in> set (sn_nodes ?s). ns_key spec = j \<and> cancelable w spec) \<longleftrightarrow> x \<noteq> N_DONE"
      using j by auto
    with Some u(6) show ?thesis by simp
  qed
  define w' where "w' = u\<lparr>wi_status := I_CANCELED, wi_completed_at := Some now\<rparr>"
  have "u\<lparr>wi_status := I_CANCELED, wi_confirmed_at := wi_confirmed_at u, wi_completed_at := Some now\<rparr> = w'"
    by (simp add: w'_def)
  then have "apply_cancellation w v now = Inr (w',
       map ns_key (filter (cancelable w) (sn_nodes ?s)),
       map ns_key (filter (\<lambda>spec. node_statuses w (ns_key spec) = Some N_RUNNING) (sn_nodes ?s)))"
    using active version u(1,5)
    by (auto simp: apply_cancellation_def CANCELABLE_INSTANCE_STATUSES_def transition_instance_def)
  moreover have "instance_inv w'"
  proof (rule instance_invI)
    show "validate_snapshot (wi_snapshot w') = Inr ()" using rt(4) u(4) by (simp add: w'_def)
    show "core_inv w'" using u(2) by (simp add: w'_def)
    have fr: "frontier_ok ?s (node_statuses w)" by (rule rt(2))
    show "frontier_ok (wi_snapshot w') (node_statuses w')"
      unfolding frontier_ok_def
    proof (intro allI conjI impI)
      fix j assume j: "node_statuses w' j \<in> {Some N_READY, Some N_RUNNING, Some N_WAITING_HUMAN, Some N_DONE, Some N_FAILED}"
      then have "node_statuses w j = Some N_DONE" using st_u [of j] by (auto simp: w'_def split: if_splits)
      then have "deps_done ?s (node_statuses w) j" using fr by (intro frontier_active) simp_all
      then show "deps_done (wi_snapshot w') (node_statuses w') j"
        using st_u u(4) by (simp add: deps_done_def w'_def)
    next
      fix j assume "node_statuses w' j = Some N_PENDING"
      then show "\<not> deps_done (wi_snapshot w') (node_statuses w') j"
        using st_u [of j] by (auto simp: w'_def split: if_splits)
    qed
    have "None \<notin> status_set w" by (rule status_set_None [OF rt(1)])
    then have "status_set w' \<subseteq> {Some N_DONE, Some N_CANCELED}"
      using st_u u(4) by (auto simp: status_set_def w'_def image_iff)
    then show "phase_ok (wi_status w') (status_set w')" by (simp add: w'_def)
    show "wi_status w' \<notin> {I_DRAFT, I_DISCARDED}" by (simp add: w'_def)
  qed
  moreover have "evolves w w'" using u(3) by (simp add: w'_def)
  moreover have "wi_snapshot w' = ?s" "wi_status w' = I_CANCELED" using u(4) by (simp_all add: w'_def)
  moreover have "node_statuses w' = (\<lambda>j. if node_statuses w j \<in> {None, Some N_DONE}
      then node_statuses w j else Some N_CANCELED)" using st_u by (auto simp: w'_def)
  ultimately show ?thesis by (intro exI [of _ w'] conjI)
qed

end
