(* ===== verification/Runner.thy ===== *)
theory Runner
  imports Lifecycle
begin

text \<open>
  \<open>src/larkflow/workflow/runner.py\<close>: claiming a ready node, reclaiming an expired claim, and
  accepting or rejecting the result of the current attempt of a node. A fresh claim token is
  an argument (the value drawn from the \<open>token_factory\<close>). Every operation is shown to touch
  only the node and the current attempt it is about.
\<close>

section \<open>Guards\<close>

text \<open>
  \<open>secrets.compare_digest\<close> of two strings: it compares ASCII strings and raises \<open>TypeError\<close>
  for a string with any other character.
\<close>

definition ascii :: "string \<Rightarrow> bool" where
  "ascii s = list_all (\<lambda>c. of_char c < (128::nat)) s"

definition compare_digest :: "string \<Rightarrow> string \<Rightarrow> bool res" where
  "compare_digest a b =
     (if ascii a \<and> ascii b then Inr (a = b)
      else Inl (TypeError ''comparing strings with non-ASCII characters is not supported''))"

definition expect_digest :: "string option \<Rightarrow> string \<Rightarrow> exn \<Rightarrow> unit res" where
  "expect_digest actual supplied e =
     (case actual of
        None \<Rightarrow> Inl e
      | Some t \<Rightarrow> if t = [] then Inl e
          else rbind (compare_digest t supplied) (\<lambda>same. ensure same e))"

definition expect_claim :: "string option \<Rightarrow> string \<Rightarrow> unit res" where
  "expect_claim actual supplied =
     expect_digest actual supplied (InvalidClaimError ''claim token does not match the current attempt'')"

definition expect_worker :: "string option \<Rightarrow> string \<Rightarrow> unit res" where
  "expect_worker actual supplied =
     expect_digest actual supplied (InvalidClaimError ''worker does not own the current attempt claim'')"

definition require_worker_id :: "string option \<Rightarrow> string res" where
  "require_worker_id w =
     (case w of
        None \<Rightarrow> Inl (ValueError ''worker_id is required for automated claims'')
      | Some s \<Rightarrow> if blank s then Inl (ValueError ''worker_id is required for automated claims'')
          else Inr s)"

definition expect_node :: "int \<Rightarrow> int \<Rightarrow> unit res" where
  "expect_node actual expected = ensure (actual = expected) (StaleAttemptError ''expected version'')"

text \<open>\<open>NodeRunner._current_attempt\<close>\<close>

definition runner_current_attempt :: "workflow_instance \<Rightarrow> string \<Rightarrow> int \<Rightarrow> node_attempt res" where
  "runner_current_attempt w key attempt_no =
     rbind (get_node w key) (\<lambda>n.
     rbind (ensure (attempt_no = ni_current_attempt_no n) (StaleAttemptError ''node is on attempt'')) (\<lambda>_.
     current_attempt w key))"

section \<open>Activation\<close>

text \<open>\<open>_capture_input_snapshot\<close>\<close>

definition tool_kind_of :: "node_spec \<Rightarrow> pval" where
  "tool_kind_of spec =
     (if ns_executor spec = TOOL then
        (case sub_get (getv (ns_work spec) ''tool'') ''kind'' of
           Some (PStr kind) \<Rightarrow> PStr kind
         | _ \<Rightarrow> PNone)
      else PNone)"

definition result_value :: "node_attempt \<Rightarrow> pval" where
  "result_value a = (case na_result a of None \<Rightarrow> PNone | Some m \<Rightarrow> PFrozen m)"

definition capture_dependency ::
    "workflow_instance \<Rightarrow> string \<Rightarrow> pmap \<times> pmap \<Rightarrow> (pmap \<times> pmap) res" where
  "capture_dependency w dependency = (\<lambda>(dependencies, provenance).
     rbind (snapshot_node (wi_snapshot w) dependency) (\<lambda>dependency_spec.
     rbind (current_attempt w dependency) (\<lambda>a.
     Inr (dput dependency (result_value a) dependencies,
          dput dependency (PDict
            [(''node_key'', PStr dependency),
             (''executor'', PStr (executor_value (ns_executor dependency_spec))),
             (''tool_kind'', tool_kind_of dependency_spec),
             (''attempt_id'', PStr (na_id a)),
             (''attempt_no'', PInt (na_attempt_no a))]) provenance))))"

definition capture_input_snapshot :: "workflow_instance \<Rightarrow> string \<Rightarrow> pmap res" where
  "capture_input_snapshot w key =
     rbind (snapshot_node (wi_snapshot w) key) (\<lambda>spec.
     rbind (current_attempt w key) (\<lambda>pending.
     rbind (foldM (capture_dependency w) (ns_deps spec) ([], [])) (\<lambda>(dependencies, provenance).
       let captured = [(''instance_inputs'', PFrozen (sn_inputs (wi_snapshot w))),
                       (''dependencies'', PDict dependencies),
                       (''dependency_provenance'', PDict provenance),
                       (''work'', PFrozen (ns_work spec))];
           feedback = getv (na_input_snapshot pending) ''rework_feedback''
       in Inr (freeze_map (if as_map feedback \<noteq> None
                 then dput ''rework_feedback'' feedback captured else captured)))))"

definition activation_of ::
    "workflow_instance \<Rightarrow> string \<Rightarrow> node_instance \<Rightarrow> node_attempt \<Rightarrow> bool \<Rightarrow> node_activation" where
  "activation_of w key n a recovered =
     \<lparr>act_instance_id = wi_id w, act_node_key = key, act_node_instance_id = ni_id n,
      act_attempt_id = na_id a, act_attempt_no = na_attempt_no a,
      act_owner_person_id = ni_owner_person_id n, act_executor = ni_executor n,
      act_status = ni_status n, act_expected_node_version = ni_version n,
      act_claimed_by = na_claimed_by a, act_claim_token = na_claim_token a,
      act_claim_expires_at = na_claim_expires_at a, act_recovered = recovered\<rparr>"

definition activate ::
    "int \<Rightarrow> string \<Rightarrow> workflow_instance \<Rightarrow> string \<Rightarrow> string option \<Rightarrow> time
       \<Rightarrow> (workflow_instance \<times> node_activation) res" where
  "activate claim_ttl token w key worker_id now =
     rbind (get_node w key) (\<lambda>n.
     rbind (current_attempt w key) (\<lambda>a.
     rbind (ensure (ni_status n = N_READY) (TransitionError ''node is not ready'')) (\<lambda>_.
     rbind (capture_input_snapshot w key) (\<lambda>input.
     let a = a\<lparr>na_input_snapshot := input\<rparr> in
     if ni_executor n = HUMAN then
       rbind (transition_node n N_WAITING_HUMAN now) (\<lambda>n'.
       rbind (transition_attempt a A_WAITING_HUMAN now) (\<lambda>a'.
       Inr (put_attempt key (ni_current_attempt_no n) a' (put_node key n' w),
            (activation_of w key n' a' False)\<lparr>act_claim_token := None, act_claim_expires_at := None\<rparr>)))
     else
       rbind (require_worker_id worker_id) (\<lambda>worker.
       rbind (transition_node n N_RUNNING now) (\<lambda>n'.
       rbind (transition_attempt a A_RUNNING now) (\<lambda>a'.
       let a' = a'\<lparr>na_claimed_by := Some worker, na_claim_token := Some token,
                  na_claim_expires_at := Some (now + claim_ttl)\<rparr>
       in Inr (put_attempt key (ni_current_attempt_no n) a' (put_node key n' w),
               activation_of w key n' a' False))))))))"

definition reclaim_expired ::
    "int \<Rightarrow> string \<Rightarrow> workflow_instance \<Rightarrow> string \<Rightarrow> string \<Rightarrow> time
       \<Rightarrow> (workflow_instance \<times> node_activation) res" where
  "reclaim_expired claim_ttl token w key worker_id now =
     rbind (get_node w key) (\<lambda>n.
     rbind (ensure (ni_executor n \<noteq> HUMAN) (TransitionError ''human node has no automated claim'')) (\<lambda>_.
     rbind (current_attempt w key) (\<lambda>a.
     rbind (ensure (ni_status n = N_RUNNING \<and> na_status a = A_RUNNING)
        (TransitionError ''node has no running automated attempt'')) (\<lambda>_.
     rbind (ensure (case na_claim_expires_at a of None \<Rightarrow> False | Some t \<Rightarrow> t \<le> now)
        (ClaimNotExpiredError ''claim has not expired'')) (\<lambda>_.
     rbind (require_worker_id (Some worker_id)) (\<lambda>worker.
     let n' = n\<lparr>ni_version := ni_version n + 1\<rparr>;
         a' = a\<lparr>na_claimed_by := Some worker, na_claim_token := Some token,
               na_claim_expires_at := Some (now + claim_ttl)\<rparr>
     in Inr (put_attempt key (ni_current_attempt_no n) a' (put_node key n' w),
             activation_of w key n' a' True)))))))"

definition is_reclaimable :: "workflow_instance \<Rightarrow> string \<Rightarrow> time \<Rightarrow> bool res" where
  "is_reclaimable w key now =
     rbind (get_node w key) (\<lambda>n.
     if ni_executor n = HUMAN \<or> ni_status n \<noteq> N_RUNNING then Inr False
     else rbind (current_attempt w key) (\<lambda>a.
       Inr (na_status a = A_RUNNING \<and>
            (case na_claim_expires_at a of None \<Rightarrow> False | Some t \<Rightarrow> t \<le> now))))"

section \<open>Human results\<close>

definition check_human_submission ::
    "workflow_instance \<Rightarrow> string \<Rightarrow> string \<Rightarrow> int \<Rightarrow> int \<Rightarrow> unit res" where
  "check_human_submission w key actor attempt_no expected_node_version =
     rbind (get_node w key) (\<lambda>n.
     rbind (ensure (actor = ni_owner_person_id n) (AuthorizationError ''only the node owner may submit'')) (\<lambda>_.
     rbind (runner_current_attempt w key attempt_no) (\<lambda>_.
     rbind (expect_node (ni_version n) expected_node_version) (\<lambda>_.
     ensure (ni_status n = N_WAITING_HUMAN) (TransitionError ''node is not waiting for a human'')))))"

definition submit_human ::
    "workflow_instance \<Rightarrow> string \<Rightarrow> string \<Rightarrow> int \<Rightarrow> int \<Rightarrow> pmap \<Rightarrow> quality_result option \<Rightarrow> time
       \<Rightarrow> workflow_instance res" where
  "submit_human w key actor attempt_no expected_node_version result quality now =
     rbind (check_human_submission w key actor attempt_no expected_node_version) (\<lambda>_.
     rbind (get_node w key) (\<lambda>n.
     rbind (current_attempt w key) (\<lambda>a.
     rbind (transition_node n N_DONE now) (\<lambda>n'.
     rbind (transition_attempt a A_DONE now) (\<lambda>a'.
     Inr (put_attempt key (ni_current_attempt_no n)
            (a'\<lparr>na_result := Some (freeze_map result), na_quality_result := quality,
               na_submitted_by_person_id := Some actor\<rparr>)
            (put_node key n' w)))))))"

definition HUMAN_REJECTED :: string where
  "HUMAN_REJECTED = ''human_rejected''"

definition HUMAN_REJECTED_MESSAGE :: string where
  "HUMAN_REJECTED_MESSAGE = ''Node Owner rejected the submitted result''"

definition reject_human ::
    "workflow_instance \<Rightarrow> string \<Rightarrow> string \<Rightarrow> int \<Rightarrow> int \<Rightarrow> pmap \<Rightarrow> quality_result \<Rightarrow> time
       \<Rightarrow> workflow_instance res" where
  "reject_human w key actor attempt_no expected_node_version result quality now =
     rbind (get_node w key) (\<lambda>n.
     rbind (ensure (actor = ni_owner_person_id n) (AuthorizationError ''only the node owner may reject'')) (\<lambda>_.
     rbind (runner_current_attempt w key attempt_no) (\<lambda>a.
     rbind (expect_node (ni_version n) expected_node_version) (\<lambda>_.
     rbind (ensure (ni_status n = N_WAITING_HUMAN) (TransitionError ''node is not waiting for a human'')) (\<lambda>_.
     rbind (ensure (verdict_value (qr_verdict quality) = ''fail'')
        (ValueError ''Human rejection requires failed quality evidence'')) (\<lambda>_.
     rbind (transition_node n N_FAILED now) (\<lambda>n'.
     rbind (transition_attempt a A_FAILED now) (\<lambda>a'.
     Inr (put_attempt key (ni_current_attempt_no n)
            (a'\<lparr>na_result := Some (freeze_map result), na_quality_result := Some quality,
               na_submitted_by_person_id := Some actor, na_error_code := Some HUMAN_REJECTED,
               na_error_message := Some HUMAN_REJECTED_MESSAGE\<rparr>)
            (put_node key n' w))))))))))"

section \<open>Automated results\<close>

text \<open>
  The guards that completion, failure and renewal of an automated claim share, in their order;
  \<open>strict\<close> says whether a claim without expiry counts as expired (only renewal does so).
\<close>

definition check_claim ::
    "bool \<Rightarrow> workflow_instance \<Rightarrow> string \<Rightarrow> int \<Rightarrow> int \<Rightarrow> string \<Rightarrow> string \<Rightarrow> time
       \<Rightarrow> (node_instance \<times> node_attempt) res" where
  "check_claim strict w key attempt_no expected_node_version claim_token worker_id now =
     rbind (get_node w key) (\<lambda>n.
     rbind (ensure (ni_executor n \<noteq> HUMAN) (TransitionError ''human node has no automated claim'')) (\<lambda>_.
     rbind (runner_current_attempt w key attempt_no) (\<lambda>a.
     rbind (expect_node (ni_version n) expected_node_version) (\<lambda>_.
     rbind (expect_claim (na_claim_token a) claim_token) (\<lambda>_.
     rbind (expect_worker (na_claimed_by a) worker_id) (\<lambda>_.
     rbind (ensure (case na_claim_expires_at a of None \<Rightarrow> \<not> strict | Some t \<Rightarrow> now < t)
        (ClaimExpiredError ''claim expired'')) (\<lambda>_.
     rbind (ensure (ni_status n = N_RUNNING \<and> (strict \<longrightarrow> na_status a = A_RUNNING))
        (TransitionError ''node is not running'')) (\<lambda>_.
     Inr (n, a)))))))))"

definition check_automated_completion ::
    "workflow_instance \<Rightarrow> string \<Rightarrow> int \<Rightarrow> int \<Rightarrow> string \<Rightarrow> string \<Rightarrow> time \<Rightarrow> unit res" where
  "check_automated_completion w key attempt_no expected_node_version claim_token worker_id now =
     rbind (check_claim False w key attempt_no expected_node_version claim_token worker_id now)
       (\<lambda>_. Inr ())"

definition complete_automated ::
    "workflow_instance \<Rightarrow> string \<Rightarrow> int \<Rightarrow> int \<Rightarrow> string \<Rightarrow> string \<Rightarrow> pmap \<Rightarrow> quality_result option
       \<Rightarrow> time \<Rightarrow> workflow_instance res" where
  "complete_automated w key attempt_no expected_node_version claim_token worker_id result quality now =
     rbind (check_automated_completion w key attempt_no expected_node_version claim_token worker_id now) (\<lambda>_.
     rbind (get_node w key) (\<lambda>n.
     rbind (current_attempt w key) (\<lambda>a.
     rbind (transition_node n N_DONE now) (\<lambda>n'.
     rbind (transition_attempt a A_DONE now) (\<lambda>a'.
     Inr (put_attempt key (ni_current_attempt_no n)
            (clear_claim (a'\<lparr>na_result := Some (freeze_map result), na_quality_result := quality\<rparr>))
            (put_node key n' w)))))))"

definition renew_automated_claim ::
    "int \<Rightarrow> workflow_instance \<Rightarrow> string \<Rightarrow> int \<Rightarrow> int \<Rightarrow> string \<Rightarrow> string \<Rightarrow> time
       \<Rightarrow> (workflow_instance \<times> time) res" where
  "renew_automated_claim claim_ttl w key attempt_no expected_node_version claim_token worker_id now =
     rbind (check_claim True w key attempt_no expected_node_version claim_token worker_id now) (\<lambda>(n, a).
       let expires = (case na_claim_expires_at a of None \<Rightarrow> now + claim_ttl
                        | Some t \<Rightarrow> max t (now + claim_ttl))
       in Inr (put_attempt key (ni_current_attempt_no n) (a\<lparr>na_claim_expires_at := Some expires\<rparr>) w,
               expires))"

definition fail_automated ::
    "workflow_instance \<Rightarrow> string \<Rightarrow> int \<Rightarrow> int \<Rightarrow> string \<Rightarrow> string \<Rightarrow> string \<Rightarrow> string
       \<Rightarrow> time \<Rightarrow> workflow_instance res" where
  "fail_automated w key attempt_no expected_node_version claim_token worker_id code message now =
     rbind (check_claim False w key attempt_no expected_node_version claim_token worker_id now) (\<lambda>(n, a).
     rbind (transition_node n N_FAILED now) (\<lambda>n'.
     rbind (transition_attempt a A_FAILED now) (\<lambda>a'.
     Inr (put_attempt key (ni_current_attempt_no n)
            (clear_claim (a'\<lparr>na_error_code := Some code, na_error_message := Some message\<rparr>))
            (put_node key n' w)))))"

section \<open>What the guards check\<close>

lemma expect_digest_Inr [result_simps]:
  "expect_digest actual supplied e = Inr u \<longleftrightarrow> actual = Some supplied \<and> supplied \<noteq> [] \<and> ascii supplied"
  by (auto simp: expect_digest_def compare_digest_def result_simps split: option.splits if_splits)

lemma expect_claim_Inr [result_simps]:
  "expect_claim actual supplied = Inr u \<longleftrightarrow> actual = Some supplied \<and> supplied \<noteq> [] \<and> ascii supplied"
  by (simp add: expect_claim_def result_simps)

lemma expect_worker_Inr [result_simps]:
  "expect_worker actual supplied = Inr u \<longleftrightarrow> actual = Some supplied \<and> supplied \<noteq> [] \<and> ascii supplied"
  by (simp add: expect_worker_def result_simps)

lemma require_worker_id_Inr [result_simps]:
  "require_worker_id w = Inr s \<longleftrightarrow> w = Some s \<and> \<not> blank s"
  by (auto simp: require_worker_id_def split: option.splits)

lemma expect_node_Inr [result_simps]: "expect_node m n = Inr u \<longleftrightarrow> m = n"
  by (simp add: expect_node_def result_simps)

lemma runner_current_attempt_Inr [result_simps]:
  "runner_current_attempt w key no = Inr a \<longleftrightarrow>
     (\<exists>n. node_at w key = Some n \<and> no = ni_current_attempt_no n \<and> attempt_at w key no = Some a)"
  by (auto simp: runner_current_attempt_def result_simps)

lemma check_human_submission_Inr [result_simps]:
  "check_human_submission w key actor no v = Inr u \<longleftrightarrow>
     (\<exists>n a. node_at w key = Some n \<and> attempt_at w key no = Some a \<and> actor = ni_owner_person_id n \<and>
        no = ni_current_attempt_no n \<and> ni_version n = v \<and> ni_status n = N_WAITING_HUMAN)"
  by (auto simp: check_human_submission_def result_simps)

lemma check_claim_Inr:
  "check_claim strict w key no v token worker now = Inr (n, a) \<longleftrightarrow>
     node_at w key = Some n \<and> attempt_at w key no = Some a \<and> ni_executor n \<noteq> HUMAN \<and>
     no = ni_current_attempt_no n \<and> ni_version n = v \<and>
     na_claim_token a = Some token \<and> token \<noteq> [] \<and> ascii token \<and>
     na_claimed_by a = Some worker \<and> worker \<noteq> [] \<and> ascii worker \<and>
     (case na_claim_expires_at a of None \<Rightarrow> \<not> strict | Some t \<Rightarrow> now < t) \<and>
     ni_status n = N_RUNNING \<and> (strict \<longrightarrow> na_status a = A_RUNNING)"
  unfolding check_claim_def by (auto simp: result_simps)

section \<open>Each operation changes one node\<close>

text \<open>The effect that the operations of this theory have in common.\<close>

abbreviation pointed ::
    "workflow_instance \<Rightarrow> string \<Rightarrow> node_instance \<Rightarrow> node_instance \<Rightarrow> node_attempt \<Rightarrow> workflow_instance" where
  "pointed w k n n' a' \<equiv> put_attempt k (ni_current_attempt_no n) a' (put_node k n' w)"

lemma agrees_at:
  assumes "core_inv w" and "node_at w k = Some n" and "attempt_at w k (ni_current_attempt_no n) = Some a"
  shows "status_agrees (ni_status n) (na_status a)" and "claim_ok a"
    and "ni_status n = N_RUNNING \<Longrightarrow> ni_executor n \<noteq> HUMAN"
proof -
  show "status_agrees (ni_status n) (na_status a)" "ni_status n = N_RUNNING \<Longrightarrow> ni_executor n \<noteq> HUMAN"
    using core_inv_node(1) [OF assms(1,2)] assms(3) by (auto simp: node_ok_def)
  show "claim_ok a" using core_inv_attempt [OF assms(1,3)] by (simp add: attempt_ok_def)
qed

lemma submit_human_point:
  assumes "core_inv w" and "submit_human w key actor no v result quality now = Inr u"
  shows "\<exists>n a n' a'. point w key n a n' a' \<and> u = pointed w key n n' a' \<and>
     ni_owner_person_id n = actor \<and> no = ni_current_attempt_no n \<and> ni_version n = v \<and>
     ni_status n = N_WAITING_HUMAN \<and> ni_status n' = N_DONE \<and> ni_version n' = v + 1 \<and>
     na_result a' = Some (freeze_map result) \<and> na_quality_result a' = quality \<and>
     na_submitted_by_person_id a' = Some actor"
proof -
  obtain n a n' a' where *: "node_at w key = Some n" "attempt_at w key no = Some a"
      "actor = ni_owner_person_id n" "no = ni_current_attempt_no n" "ni_version n = v"
      "ni_status n = N_WAITING_HUMAN" "transition_node n N_DONE now = Inr n'"
      "transition_attempt a A_DONE now = Inr a'"
      "u = pointed w key n n' (a'\<lparr>na_result := Some (freeze_map result),
          na_quality_result := quality, na_submitted_by_person_id := Some actor\<rparr>)"
    using assms(2) by (auto simp: submit_human_def rbind_Inr_iff check_human_submission_Inr
        get_node_Inr current_attempt_Inr)
  let ?a = "a'\<lparr>na_result := Some (freeze_map result), na_quality_result := quality,
      na_submitted_by_person_id := Some actor\<rparr>"
  have "na_status a = A_WAITING_HUMAN" "claim_ok a"
    using agrees_at [OF assms(1) *(1)] * by simp_all
  with * have "point w key n a n' ?a"
    by (auto simp: point_def same_node_def same_attempt_def claim_ok_def transition_node_Inr
        transition_attempt_Inr)
  with * show ?thesis
    by (intro exI [of _ n] exI [of _ a] exI [of _ n'] exI [of _ ?a]) (auto simp: transition_node_Inr)
qed

lemma reject_human_point:
  assumes "core_inv w" and "reject_human w key actor no v result quality now = Inr u"
  shows "\<exists>n a n' a'. point w key n a n' a' \<and> u = pointed w key n n' a' \<and>
     ni_owner_person_id n = actor \<and> no = ni_current_attempt_no n \<and> ni_version n = v \<and>
     ni_status n = N_WAITING_HUMAN \<and> ni_status n' = N_FAILED \<and> ni_version n' = v + 1 \<and>
     na_result a' = Some (freeze_map result) \<and> na_quality_result a' = Some quality \<and>
     na_submitted_by_person_id a' = Some actor \<and> qr_verdict quality = Q_FAIL"
proof -
  have verdict: "verdict_value q = ''fail'' \<longleftrightarrow> q = Q_FAIL" for q by (cases q) simp_all
  obtain n a n' a' where *: "node_at w key = Some n" "attempt_at w key no = Some a"
      "actor = ni_owner_person_id n" "no = ni_current_attempt_no n" "ni_version n = v"
      "ni_status n = N_WAITING_HUMAN" "qr_verdict quality = Q_FAIL" "transition_node n N_FAILED now = Inr n'"
      "transition_attempt a A_FAILED now = Inr a'"
      "u = pointed w key n n' (a'\<lparr>na_result := Some (freeze_map result),
         na_quality_result := Some quality, na_submitted_by_person_id := Some actor,
         na_error_code := Some HUMAN_REJECTED,
         na_error_message := Some HUMAN_REJECTED_MESSAGE\<rparr>)"
    using assms(2) unfolding reject_human_def verdict
    by (auto simp: rbind_Inr_iff ensure_Inr_iff expect_node_Inr runner_current_attempt_Inr get_node_Inr)
  define b where "b = a'\<lparr>na_result := Some (freeze_map result),
         na_quality_result := Some quality, na_submitted_by_person_id := Some actor,
         na_error_code := Some HUMAN_REJECTED,
         na_error_message := Some HUMAN_REJECTED_MESSAGE\<rparr>"
  have b: "na_status b = na_status a'" "same_attempt a' b" "claim_ok b = claim_ok a'"
    "na_result b = Some (freeze_map result)" "na_quality_result b = Some quality"
    "na_submitted_by_person_id b = Some actor"
    by (simp_all add: b_def same_attempt_def claim_ok_def)
  have "na_status a = A_WAITING_HUMAN" "claim_ok a"
    using agrees_at [OF assms(1) *(1)] * by simp_all
  with *(1-9) b have "point w key n a n' b"
    by (auto simp: point_def same_node_def same_attempt_def claim_ok_def transition_node_Inr
        transition_attempt_Inr)
  with *(3-8) *(10) b show ?thesis unfolding b_def [symmetric]
    by (intro exI [of _ n] exI [of _ a] exI [of _ n'] exI [of _ b]) (auto simp: transition_node_Inr)
qed

lemma complete_automated_point:
  assumes "core_inv w" and "complete_automated w key no v token worker result quality now = Inr u"
  shows "\<exists>n a n' a'. point w key n a n' a' \<and> u = pointed w key n n' a' \<and>
     ni_executor n \<noteq> HUMAN \<and> no = ni_current_attempt_no n \<and> ni_version n = v \<and>
     na_claim_token a = Some token \<and> na_claimed_by a = Some worker \<and>
     (\<exists>t. na_claim_expires_at a = Some t \<and> now < t) \<and>
     ni_status n = N_RUNNING \<and> ni_status n' = N_DONE \<and> ni_version n' = v + 1 \<and>
     na_result a' = Some (freeze_map result) \<and> na_quality_result a' = quality"
proof -
  obtain n a n' a' where *: "check_claim False w key no v token worker now = Inr (n, a)"
      "node_at w key = Some n" "attempt_at w key no = Some a" "no = ni_current_attempt_no n"
      "ni_status n = N_RUNNING" "transition_node n N_DONE now = Inr n'"
      "transition_attempt a A_DONE now = Inr a'"
      "u = pointed w key n n' (clear_claim (a'\<lparr>na_result := Some (freeze_map result), na_quality_result := quality\<rparr>))"
    using assms(2) by (auto simp: complete_automated_def check_automated_completion_def rbind_Inr_iff
        check_claim_Inr get_node_Inr current_attempt_Inr)
  let ?a = "clear_claim (a'\<lparr>na_result := Some (freeze_map result), na_quality_result := quality\<rparr>)"
  have a: "na_status a = A_RUNNING" "claim_ok a" "ni_executor n \<noteq> HUMAN"
    using agrees_at [OF assms(1) *(2)] *(3,4,5) by simp_all
  with * have "point w key n a n' ?a"
    by (auto simp: point_def same_node_def same_attempt_def claim_ok_def clear_claim_def
        transition_node_Inr transition_attempt_Inr)
  with * a show ?thesis
    by (intro exI [of _ n] exI [of _ a] exI [of _ n'] exI [of _ ?a])
      (auto simp: check_claim_Inr transition_node_Inr clear_claim_def claim_ok_def)
qed

lemma fail_automated_point:
  assumes "core_inv w" and "fail_automated w key no v token worker code message now = Inr u"
  shows "\<exists>n a n' a'. point w key n a n' a' \<and> u = pointed w key n n' a' \<and>
     ni_executor n \<noteq> HUMAN \<and> no = ni_current_attempt_no n \<and> ni_version n = v \<and>
     na_claim_token a = Some token \<and> na_claimed_by a = Some worker \<and>
     (\<exists>t. na_claim_expires_at a = Some t \<and> now < t) \<and>
     ni_status n = N_RUNNING \<and> ni_status n' = N_FAILED \<and> ni_version n' = v + 1"
proof -
  obtain n a n' a' where *: "check_claim False w key no v token worker now = Inr (n, a)"
      "node_at w key = Some n" "attempt_at w key no = Some a" "no = ni_current_attempt_no n"
      "ni_status n = N_RUNNING" "transition_node n N_FAILED now = Inr n'"
      "transition_attempt a A_FAILED now = Inr a'"
      "u = pointed w key n n' (clear_claim (a'\<lparr>na_error_code := Some code, na_error_message := Some message\<rparr>))"
    using assms(2) by (auto simp: fail_automated_def rbind_Inr_iff check_claim_Inr)
  let ?a = "clear_claim (a'\<lparr>na_error_code := Some code, na_error_message := Some message\<rparr>)"
  have a: "na_status a = A_RUNNING" "claim_ok a" "ni_executor n \<noteq> HUMAN"
    using agrees_at [OF assms(1) *(2)] *(3,4,5) by simp_all
  with * have "point w key n a n' ?a"
    by (auto simp: point_def same_node_def same_attempt_def claim_ok_def clear_claim_def
        transition_node_Inr transition_attempt_Inr)
  with * a show ?thesis
    by (intro exI [of _ n] exI [of _ a] exI [of _ n'] exI [of _ ?a])
      (auto simp: check_claim_Inr transition_node_Inr clear_claim_def claim_ok_def)
qed

text \<open>Renewal only moves the expiry of the live claim, and never back.\<close>

lemma renew_automated_claim_point:
  assumes "core_inv w" and "renew_automated_claim ttl w key no v token worker now = Inr (u, expires)"
  shows "\<exists>n a. node_at w key = Some n \<and> attempt_at w key no = Some a \<and> no = ni_current_attempt_no n \<and>
     ni_version n = v \<and> ni_status n = N_RUNNING \<and> na_status a = A_RUNNING \<and>
     na_claim_token a = Some token \<and> na_claimed_by a = Some worker \<and>
     (\<exists>t. na_claim_expires_at a = Some t \<and> now < t \<and> expires = max t (now + ttl)) \<and>
     u = put_attempt key no (a\<lparr>na_claim_expires_at := Some expires\<rparr>) w \<and>
     point w key n a n (a\<lparr>na_claim_expires_at := Some expires\<rparr>)"
proof -
  obtain n a where *: "check_claim True w key no v token worker now = Inr (n, a)"
      "u = put_attempt key (ni_current_attempt_no n) (a\<lparr>na_claim_expires_at := Some expires\<rparr>) w"
      "expires = (case na_claim_expires_at a of None \<Rightarrow> now + ttl | Some t \<Rightarrow> max t (now + ttl))"
    using assms(2) by (auto simp: renew_automated_claim_def rbind_Inr_iff Let_def)
  then have c: "node_at w key = Some n" "attempt_at w key no = Some a" "no = ni_current_attempt_no n"
    "ni_status n = N_RUNNING" "na_status a = A_RUNNING" "ni_executor n \<noteq> HUMAN"
    by (auto simp: check_claim_Inr)
  then have "claim_ok a" using agrees_at [OF assms(1)] by simp
  with c have "point w key n a n (a\<lparr>na_claim_expires_at := Some expires\<rparr>)"
    by (auto simp: point_def same_node_def same_attempt_def claim_ok_def)
  with * c show ?thesis
    by (intro exI [of _ n] exI [of _ a]) (auto simp: check_claim_Inr split: option.split_asm)
qed

lemma reclaim_expired_point:
  assumes "core_inv w" and "reclaim_expired ttl token w key worker now = Inr (u, act)"
  shows "\<exists>n a n' a'. point w key n a n' a' \<and> u = pointed w key n n' a' \<and>
     ni_status n = N_RUNNING \<and> ni_status n' = N_RUNNING \<and> ni_version n' = ni_version n + 1 \<and>
     (\<exists>t. na_claim_expires_at a = Some t \<and> t \<le> now) \<and>
     na_claimed_by a' = Some worker \<and> na_claim_token a' = Some token \<and>
     na_claim_expires_at a' = Some (now + ttl) \<and> act = activation_of w key n' a' True"
proof -
  obtain n a where *: "node_at w key = Some n" "attempt_at w key (ni_current_attempt_no n) = Some a"
      "ni_executor n \<noteq> HUMAN" "ni_status n = N_RUNNING" "na_status a = A_RUNNING"
      "case na_claim_expires_at a of None \<Rightarrow> False | Some t \<Rightarrow> t \<le> now"
      "u = pointed w key n (n\<lparr>ni_version := ni_version n + 1\<rparr>) (a\<lparr>na_claimed_by := Some worker,
         na_claim_token := Some token, na_claim_expires_at := Some (now + ttl)\<rparr>)"
      "act = activation_of w key (n\<lparr>ni_version := ni_version n + 1\<rparr>) (a\<lparr>na_claimed_by := Some worker,
         na_claim_token := Some token, na_claim_expires_at := Some (now + ttl)\<rparr>) True"
    using assms(2) unfolding reclaim_expired_def Let_def
    by (simp only: rbind_Inr_iff ensure_Inr_iff require_worker_id_Inr get_node_Inr
        current_attempt_Inr Inr_inject prod.inject option.inject) force
  let ?n = "n\<lparr>ni_version := ni_version n + 1\<rparr>"
  let ?a = "a\<lparr>na_claimed_by := Some worker, na_claim_token := Some token,
       na_claim_expires_at := Some (now + ttl)\<rparr>"
  from * have "point w key n a ?n ?a"
    by (simp add: point_def same_node_def same_attempt_def claim_ok_def)
  with * show ?thesis
    by (intro exI [of _ n] exI [of _ a] exI [of _ ?n] exI [of _ ?a]) (simp split: option.splits)
qed

section \<open>Activation\<close>

lemma capture_dependency_ok:
  assumes "core_inv w" and "d \<in> set (snapshot_keys (wi_snapshot w))"
  shows "\<exists>y. capture_dependency w d x = Inr y"
proof -
  obtain spec where "snapshot_node (wi_snapshot w) d = Inr spec"
    using snapshot_node_exists [OF assms(2)] by blast
  moreover obtain n a where "node_at w d = Some n" "attempt_at w d (ni_current_attempt_no n) = Some a"
    using assms by (rule core_inv_key)
  ultimately show ?thesis by (cases x) (simp add: capture_dependency_def current_attempt_def get_node_def)
qed

lemma foldM_total: "\<lbrakk>\<And>x s. x \<in> set xs \<Longrightarrow> \<exists>t. f x s = Inr t\<rbrakk> \<Longrightarrow> \<exists>t. foldM f xs s = Inr t"
proof (induction xs arbitrary: s)
  case (Cons x xs)
  from Cons.prems [of x s] obtain u where u: "f x s = Inr u" by auto
  have "\<exists>t. foldM f xs u = Inr t" by (rule Cons.IH) (simp add: Cons.prems)
  with u show ?case by simp
qed simp

text \<open>A node of a well-formed aggregate can always capture the results of its dependencies.\<close>

lemma capture_input_ok:
  assumes inv: "instance_inv w" and core: "core_inv w" and key: "key \<in> set (snapshot_keys (wi_snapshot w))"
  shows "\<exists>m. capture_input_snapshot w key = Inr m"
proof -
  have simple: "simple_snapshot (wi_snapshot w)" by (rule instance_inv_simple [OF inv])
  have wf: "wf_snapshot (wi_snapshot w)" by (rule instance_inv_wf [OF inv])
  obtain spec where spec: "snapshot_node (wi_snapshot w) key = Inr spec"
    using snapshot_node_exists [OF key] by blast
  obtain n a where na: "node_at w key = Some n" "attempt_at w key (ni_current_attempt_no n) = Some a"
    using core key by (rule core_inv_key)
  have "set (ns_deps spec) = deps_of (wi_snapshot w) key"
    using deps_of_node [OF spec] by simp
  then have "set (ns_deps spec) \<subseteq> set (snapshot_keys (wi_snapshot w))"
    using deps_of_subset [OF simple, of key] by simp
  then have "\<exists>t. foldM (capture_dependency w) (ns_deps spec) ([], []) = Inr t"
    by (intro foldM_total capture_dependency_ok [OF core]) auto
  with spec na show ?thesis
    by (auto simp: capture_input_snapshot_def current_attempt_def get_node_def Let_def)
qed

lemma activate_point:
  assumes "core_inv w" and "activate ttl token w key worker now = Inr (u, act)"
  shows "\<exists>n a n' a'. point w key n a n' a' \<and> u = pointed w key n n' a' \<and>
     ni_status n = N_READY \<and> ni_version n' = ni_version n + 1 \<and>
     act_node_key act = key \<and> act_executor act = ni_executor n \<and> act_status act = ni_status n' \<and>
     act_attempt_no act = ni_current_attempt_no n \<and> act_expected_node_version act = ni_version n' \<and>
     act_claim_token act = na_claim_token a' \<and> act_claimed_by act = na_claimed_by a' \<and>
     act_claim_expires_at act = na_claim_expires_at a' \<and> \<not> act_recovered act \<and>
     (if ni_executor n = HUMAN then ni_status n' = N_WAITING_HUMAN
      else ni_status n' = N_RUNNING \<and> na_claimed_by a' = worker \<and> worker \<noteq> None \<and>
        na_claim_token a' = Some token \<and> na_claim_expires_at a' = Some (now + ttl))"
proof -
  obtain n a input where *: "node_at w key = Some n" "attempt_at w key (ni_current_attempt_no n) = Some a"
      "ni_status n = N_READY" "capture_input_snapshot w key = Inr input"
    using assms(2) by (auto simp: activate_def rbind_Inr_iff ensure_Inr_iff get_node_Inr current_attempt_Inr)
  have a: "na_status a = A_PENDING" "claim_ok a" using agrees_at [OF assms(1) *(1,2)] *(3) by simp_all
  have no: "na_attempt_no a = ni_current_attempt_no n"
    using core_inv_attempt [OF assms(1) *(2)] by (simp add: attempt_ok_def)
  let ?a = "a\<lparr>na_input_snapshot := input\<rparr>"
  show ?thesis
  proof (cases "ni_executor n = HUMAN")
    case True
    with assms(2) * obtain n' a' where t: "transition_node n N_WAITING_HUMAN now = Inr n'"
        "transition_attempt ?a A_WAITING_HUMAN now = Inr a'" "u = pointed w key n n' a'"
        "act = (activation_of w key n' a' False)\<lparr>act_claim_token := None, act_claim_expires_at := None\<rparr>"
      by (auto simp: activate_def rbind_Inr_iff get_node_def current_attempt_def Let_def)
    have "point w key n a n' a'"
      using * a t by (auto simp: point_def same_node_def same_attempt_def claim_ok_def
          transition_node_Inr transition_attempt_Inr)
    with True * a t no show ?thesis
      by (intro exI [of _ n] exI [of _ a] exI [of _ n'] exI [of _ a'])
        (auto simp: activation_of_def transition_node_Inr transition_attempt_Inr claim_ok_def)
  next
    case False
    with assms(2) * obtain wk n' a0 where t: "worker = Some wk" "transition_node n N_RUNNING now = Inr n'"
        "transition_attempt ?a A_RUNNING now = Inr a0"
        "u = pointed w key n n' (a0\<lparr>na_claimed_by := Some wk, na_claim_token := Some token,
                  na_claim_expires_at := Some (now + ttl)\<rparr>)"
        "act = activation_of w key n' (a0\<lparr>na_claimed_by := Some wk, na_claim_token := Some token,
                  na_claim_expires_at := Some (now + ttl)\<rparr>) False"
      by (auto simp: activate_def rbind_Inr_iff get_node_def current_attempt_def Let_def require_worker_id_Inr)
    let ?b = "a0\<lparr>na_claimed_by := Some wk, na_claim_token := Some token,
                  na_claim_expires_at := Some (now + ttl)\<rparr>"
    have "point w key n a n' ?b"
      using * a t False by (auto simp: point_def same_node_def same_attempt_def claim_ok_def
          transition_node_Inr transition_attempt_Inr)
    with False * a t no show ?thesis
      by (intro exI [of _ n] exI [of _ a] exI [of _ n'] exI [of _ ?b])
        (auto simp: activation_of_def transition_node_Inr transition_attempt_Inr)
  qed
qed

text \<open>Activation of a ready node never fails, given a worker for an automated one.\<close>

lemma activate_ok:
  assumes inv: "instance_inv w" and core: "core_inv w" and n: "node_at w key = Some n" "ni_status n = N_READY"
    and worker: "ni_executor n \<noteq> HUMAN \<Longrightarrow> \<exists>s. worker = Some s \<and> \<not> blank s"
  shows "\<exists>u act. activate ttl token w key worker now = Inr (u, act)"
proof -
  have key: "key \<in> set (snapshot_keys (wi_snapshot w))" by (rule core_inv_node(2) [OF core n(1)])
  obtain m where m: "capture_input_snapshot w key = Inr m" using capture_input_ok [OF inv core key] by blast
  obtain a where a: "attempt_at w key (ni_current_attempt_no n) = Some a"
    using core_inv_node(1) [OF core n(1)] by (auto simp: node_ok_def)
  have st: "na_status a = A_PENDING" using agrees_at(1) [OF core n(1) a] n(2) by simp
  show ?thesis
  proof (cases "ni_executor n = HUMAN")
    case True
    with n a m st show ?thesis
      by (simp add: activate_def get_node_def current_attempt_def transition_node_def transition_attempt_def Let_def)
  next
    case False
    with worker obtain s where "worker = Some s" "\<not> blank s" by blast
    with False n a m st show ?thesis
      by (simp add: activate_def get_node_def current_attempt_def transition_node_def
          transition_attempt_def Let_def require_worker_id_def)
  qed
qed

end
