(* ===== verification/Workflow_Spec.thy ===== *)
theory Workflow_Spec
  imports Aggregate
begin

text \<open>
  The abstract specification of a workflow instance: a machine whose state is the status of the
  instance and the status of each node, without attempts, versions, claims, owners and times. The
  operations of the kernel refine it (\<open>Kernel_Steps\<close>, \<open>System\<close>). The machine itself keeps the
  frontier legal, cannot get stuck, and its work is bounded, so a process whose nodes are worked on
  and do not fail is done after finitely many steps.
\<close>

type_synonym view = "instance_status \<times> (string \<Rightarrow> node_status option)"

definition view :: "workflow_instance \<Rightarrow> view" where
  "view w = (wi_status w, node_statuses w)"

section \<open>The machine\<close>

definition spec_start :: "instance_snapshot \<Rightarrow> string \<Rightarrow> node_status option" where
  "spec_start s k = (if k \<notin> set (snapshot_keys s) then None
     else Some (if deps_of s k = {} then N_READY else N_PENDING))"

definition spec_finish ::
    "instance_snapshot \<Rightarrow> string \<Rightarrow> (string \<Rightarrow> node_status option) \<Rightarrow> string \<Rightarrow> node_status option" where
  "spec_finish s k f = (\<lambda>j. if j = k then Some N_DONE
     else if j \<in> unlocked s k (f(k \<mapsto> N_DONE)) then Some N_READY else f j)"

definition spec_phase ::
    "instance_snapshot \<Rightarrow> string \<Rightarrow> instance_status \<Rightarrow> (string \<Rightarrow> node_status option) \<Rightarrow> instance_status" where
  "spec_phase s k p f =
     (if \<forall>j \<in> set (snapshot_keys s) - {k}. f j = Some N_DONE then I_DONE else p)"

definition spec_reopened ::
    "instance_snapshot \<Rightarrow> string set \<Rightarrow> (string \<Rightarrow> node_status option) \<Rightarrow> (string \<Rightarrow> node_status option) \<Rightarrow> bool" where
  "spec_reopened s A f g \<longleftrightarrow> A \<noteq> {} \<and> A \<subseteq> set (snapshot_keys s) \<and>
     (\<forall>j k. k \<in> deps_of s j \<longrightarrow> k \<in> A \<longrightarrow> j \<in> A) \<and>
     (\<forall>j \<in> A. g j = Some (if deps_done s g j then N_READY else N_PENDING)) \<and> (\<forall>j. j \<notin> A \<longrightarrow> g j = f j)"

text \<open>Work on a node: it is started, or it is finished and unlocks others.\<close>

inductive work_step :: "instance_snapshot \<Rightarrow> view \<Rightarrow> view \<Rightarrow> bool" for s where
  start: "p \<in> {I_RUNNING, I_PAUSED} \<Longrightarrow> f k = Some N_READY \<Longrightarrow> x \<in> {N_RUNNING, N_WAITING_HUMAN} \<Longrightarrow>
    work_step s (p, f) (p, f(k \<mapsto> x))"
| finish: "p \<in> {I_RUNNING, I_PAUSED} \<Longrightarrow> f k \<in> {Some N_RUNNING, Some N_WAITING_HUMAN} \<Longrightarrow>
    work_step s (p, f) (spec_phase s k p f, spec_finish s k f)"

inductive spec_step :: "instance_snapshot \<Rightarrow> view \<Rightarrow> view \<Rightarrow> bool" for s where
  confirm: "spec_step s (I_DRAFT, f) (I_RUNNING, spec_start s)"
| discard: "spec_step s (I_DRAFT, f) (I_DISCARDED, f)"
| pause: "spec_step s (I_RUNNING, f) (I_PAUSED, f)"
| resume: "spec_step s (I_PAUSED, f) (I_RUNNING, f)"
| work: "work_step s v v' \<Longrightarrow> spec_step s v v'"
| fail: "p \<in> {I_RUNNING, I_PAUSED} \<Longrightarrow> f k \<in> {Some N_RUNNING, Some N_WAITING_HUMAN} \<Longrightarrow>
    spec_step s (p, f) (I_FAILED, f(k \<mapsto> N_FAILED))"
| cancel: "p \<in> {I_RUNNING, I_PAUSED} \<Longrightarrow>
    spec_step s (p, f) (I_CANCELED, \<lambda>j. if f j \<in> {None, Some N_DONE} then f j else Some N_CANCELED)"
| reopen: "p \<in> {I_RUNNING, I_DONE, I_FAILED} \<Longrightarrow> spec_reopened s A f g \<Longrightarrow> spec_step s (p, f) (I_RUNNING, g)"
| takeover: "f k = Some N_FAILED \<Longrightarrow> spec_step s (I_FAILED, f) (I_RUNNING, f(k \<mapsto> N_WAITING_HUMAN))"

inductive_cases work_stepE: "work_step s (p, f) v"
inductive_cases spec_draftE: "spec_step s (I_DRAFT, f) v"
inductive_cases spec_canceledE: "spec_step s (I_CANCELED, f) v"

definition spec_run :: "instance_snapshot \<Rightarrow> view \<Rightarrow> view \<Rightarrow> bool" where
  "spec_run s = (spec_step s)\<^sup>*\<^sup>*"

lemma spec_run_refl [simp]: "spec_run s v v"
  by (simp add: spec_run_def)

lemma spec_run_trans: "spec_run s u v \<Longrightarrow> spec_run s v v' \<Longrightarrow> spec_run s u v'"
  by (simp add: spec_run_def)

lemma spec_runI: "spec_step s u v \<Longrightarrow> spec_run s u v"
  by (simp add: spec_run_def)

lemma spec_reopenI:
  assumes "frontier_ok s g" and "A \<noteq> {}" "A \<subseteq> set (snapshot_keys s)"
    and "\<forall>j k. k \<in> deps_of s j \<longrightarrow> k \<in> A \<longrightarrow> j \<in> A" and "\<forall>j \<in> A. g j \<in> {Some N_READY, Some N_PENDING}"
    and "\<forall>j. j \<notin> A \<longrightarrow> g j = f j" and "p \<in> {I_RUNNING, I_DONE, I_FAILED}"
  shows "spec_step s (p, f) (I_RUNNING, g)"
proof -
  have "g j = Some (if deps_done s g j then N_READY else N_PENDING)" if "j \<in> A" for j
    using assms(1,5) that unfolding frontier_ok_def by fastforce
  with assms(2-4,6) have "spec_reopened s A f g" unfolding spec_reopened_def by blast
  with assms(7) show ?thesis by (rule spec_step.reopen)
qed

lemma view_fields [simp]:
  "view (w\<lparr>wi_version := i\<rparr>) = view w"
  "fst (view w) = wi_status w" "snd (view w) = node_statuses w"
  by (simp_all add: view_def)

section \<open>A cancelled or discarded instance is final\<close>

lemma spec_final:
  assumes "spec_run s (p, f) v" and "p \<in> {I_CANCELED, I_DISCARDED}"
  shows "v = (p, f)"
  using assms unfolding spec_run_def
  by (induction rule: rtranclp_induct) (auto elim: spec_step.cases work_step.cases)

section \<open>No deadlock\<close>

text \<open>In a legal frontier that is not all done, of an acyclic graph, some node can be worked on.\<close>

lemma frontier_live:
  assumes wf: "wf_snapshot s" and fr: "frontier_ok s f"
    and dom: "\<forall>k \<in> set (snapshot_keys s). f k \<in> {Some N_PENDING, Some N_READY, Some N_RUNNING, Some N_WAITING_HUMAN, Some N_DONE}"
    and key: "k \<in> set (snapshot_keys s)" "f k \<noteq> Some N_DONE"
  shows "\<exists>j \<in> set (snapshot_keys s). f j \<in> {Some N_READY, Some N_RUNNING, Some N_WAITING_HUMAN}"
proof -
  have deps: "deps_of s j \<subseteq> set (snapshot_keys s)" for j using wf deps_of_subset by (simp add: wf_snapshot_def)
  have "dep_rel s \<subseteq> set (snapshot_keys s) \<times> set (snapshot_keys s)" 
    using deps unfolding dep_rel_def by blast
  then have fin: "finite (dep_rel s)" by (rule finite_subset) simp
  have "acyclic (dep_rel s)" using wf by (simp add: wf_snapshot_def)
  with fin have "wf (dep_rel s)" by (rule finite_acyclic_wf)
  then show ?thesis using key
  proof (induction k rule: wf_induct_rule)
    case (less k)
    show ?case
    proof (cases "f k = Some N_PENDING")
      case True
      with fr obtain d where d: "d \<in> deps_of s k" "f d \<noteq> Some N_DONE"
        unfolding frontier_ok_def deps_done_def by blast
      then have "(d, k) \<in> dep_rel s" "d \<in> set (snapshot_keys s)"
        using less.prems(1) deps unfolding dep_rel_def by blast+
      with less.IH d(2) show ?thesis by blast
    next
      case False
      with dom less.prems show ?thesis by blast
    qed
  qed
qed

section \<open>Work is bounded\<close>

text \<open>What is left to do for a node, and for the process.\<close>

fun effort :: "node_status option \<Rightarrow> nat" where
  "effort (Some N_PENDING) = 2"
| "effort (Some N_READY) = 2"
| "effort (Some N_RUNNING) = 1"
| "effort (Some N_WAITING_HUMAN) = 1"
| "effort _ = 0"

definition efforts :: "instance_snapshot \<Rightarrow> (string \<Rightarrow> node_status option) \<Rightarrow> nat" where
  "efforts s f = (\<Sum>k \<in> set (snapshot_keys s). effort (f k))"

lemma efforts_bound: "efforts s f \<le> 2 * card (set (snapshot_keys s))"
proof -
  have "effort x \<le> 2" for x by (cases x rule: effort.cases) simp_all
  then have "efforts s f \<le> (\<Sum>k \<in> set (snapshot_keys s). 2)" unfolding efforts_def by (intro sum_mono)
  then show ?thesis by simp
qed

lemma efforts_less:
  assumes "k \<in> set (snapshot_keys s)" and "effort (g k) < effort (f k)" and "\<And>j. j \<noteq> k \<Longrightarrow> effort (g j) = effort (f j)"
  shows "efforts s g < efforts s f"
proof -
  have "effort (g j) \<le> effort (f j)" for j using assms(2,3) by (cases "j = k") simp_all
  then show ?thesis unfolding efforts_def using assms(1,2) by (intro sum_strict_mono_ex1) blast+
qed

lemma work_decreases:
  assumes "work_step s (p, f) (q, g)" and dom: "\<And>k. f k \<noteq> None \<Longrightarrow> k \<in> set (snapshot_keys s)"
  shows "efforts s g < efforts s f \<and> (\<forall>k. g k \<noteq> None \<longrightarrow> k \<in> set (snapshot_keys s))"
  using assms(1)
proof cases
  case (start k x)
  have k: "k \<in> set (snapshot_keys s)" using start(4) by (intro dom) simp
  have "efforts s (f(k \<mapsto> x)) < efforts s f" using start(4,5) by (intro efforts_less [OF k]) auto
  with start(2) k dom show ?thesis by (simp split: if_splits)
next
  case (finish k)
  have k: "k \<in> set (snapshot_keys s)" using finish(4) by (intro dom) auto
  have "efforts s (spec_finish s k f) < efforts s f"
    using finish(4) by (intro efforts_less [OF k]) (auto simp: spec_finish_def unlocked_def)
  moreover have "spec_finish s k f j \<noteq> None \<Longrightarrow> j \<in> set (snapshot_keys s)" for j
    using k dom [of j] unfolding spec_finish_def unlocked_def by (simp split: if_splits)
  ultimately show ?thesis unfolding finish(2) by blast
qed

text \<open>A run of work steps alone makes at most two steps for each node.\<close>

lemma work_bounded:
  assumes "(work_step s ^^ n) (p, f) (q, g)" and "\<And>k. f k \<noteq> None \<Longrightarrow> k \<in> set (snapshot_keys s)"
  shows "n + efforts s g \<le> efforts s f \<and> n \<le> 2 * card (set (snapshot_keys s))"
proof -
  have "n + efforts s g \<le> efforts s f \<and> (\<forall>k. g k \<noteq> None \<longrightarrow> k \<in> set (snapshot_keys s))"
    using assms(1)
  proof (induction n arbitrary: q g)
    case 0
    with assms(2) show ?case by auto
  next
    case (Suc n)
    then obtain p' f' where "(work_step s ^^ n) (p, f) (p', f')" "work_step s (p', f') (q, g)"
      by (auto elim!: relcomppE)
    with Suc.IH work_decreases [of s p' f' q g] show ?case by fastforce
  qed
  with efforts_bound [of s f] show ?thesis by linarith
qed

section \<open>Every run of work ends with the process done\<close>

definition spec_active :: "instance_snapshot \<Rightarrow> (string \<Rightarrow> node_status option) \<Rightarrow> bool" where
  "spec_active s f \<longleftrightarrow> frontier_ok s f \<and> (\<forall>k. f k \<noteq> None \<longrightarrow> k \<in> set (snapshot_keys s)) \<and>
     (\<forall>k \<in> set (snapshot_keys s).
        f k \<in> {Some N_PENDING, Some N_READY, Some N_RUNNING, Some N_WAITING_HUMAN, Some N_DONE})"

lemma spec_activeD:
  "spec_active s f \<Longrightarrow> frontier_ok s f"
  "spec_active s f \<Longrightarrow> f k \<noteq> None \<Longrightarrow> k \<in> set (snapshot_keys s)"
  "spec_active s f \<Longrightarrow> k \<in> set (snapshot_keys s) \<Longrightarrow>
     f k \<in> {Some N_PENDING, Some N_READY, Some N_RUNNING, Some N_WAITING_HUMAN, Some N_DONE}"
  unfolding spec_active_def by blast+

lemma view_active:
  assumes inv: "instance_inv w" and run: "wi_status w \<in> {I_RUNNING, I_PAUSED}"
  shows "spec_active (wi_snapshot w) (node_statuses w) \<and>
     \<not> (\<forall>k \<in> set (snapshot_keys (wi_snapshot w)). node_statuses w k = Some N_DONE)"
proof -
  have nd: "wi_status w \<notin> {I_DRAFT, I_DISCARDED}" using run by auto
  note rt = instance_inv_runtime [OF inv nd]
  have "node_statuses w k \<in> {Some N_PENDING, Some N_READY, Some N_RUNNING, Some N_WAITING_HUMAN, Some N_DONE}"
    if "k \<in> set (snapshot_keys (wi_snapshot w))" for k
  proof -
    have in_set: "node_statuses w k \<in> status_set w" unfolding status_set_def using that by (rule imageI)
    with status_set_None [OF rt(1)] obtain x where x: "node_statuses w k = Some x" by (cases "node_statuses w k") auto
    with in_set rt(3) run have "x \<notin> {N_FAILED, N_CANCELED}" by auto
    with x show ?thesis by (cases x) simp_all
  qed
  moreover have "k \<in> set (snapshot_keys (wi_snapshot w))" if "node_statuses w k \<noteq> None" for k
  proof (rule ccontr)
    assume "k \<notin> set (snapshot_keys (wi_snapshot w))"
    then have "node_at w k = None" by (rule core_inv_missing [OF rt(1)])
    with that show False by (simp add: node_statuses_def)
  qed
  moreover have "\<exists>k \<in> set (snapshot_keys (wi_snapshot w)). node_statuses w k \<noteq> Some N_DONE"
  proof -
    have "\<not> status_set w \<subseteq> {Some N_DONE}" using rt(3) run by auto
    then show ?thesis unfolding status_set_def by blast
  qed
  ultimately show ?thesis using rt(2) unfolding spec_active_def by blast
qed

lemma running_live:
  assumes inv: "instance_inv w" and run: "wi_status w \<in> {I_RUNNING, I_PAUSED}"
  shows "\<exists>k n. node_at w k = Some n \<and> ni_status n \<in> {N_READY, N_RUNNING, N_WAITING_HUMAN}"
proof -
  from view_active [OF assms] obtain k where act: "spec_active (wi_snapshot w) (node_statuses w)"
    and k: "k \<in> set (snapshot_keys (wi_snapshot w))" "node_statuses w k \<noteq> Some N_DONE" by blast
  have "\<exists>j \<in> set (snapshot_keys (wi_snapshot w)). node_statuses w j \<in> {Some N_READY, Some N_RUNNING, Some N_WAITING_HUMAN}"
    by (rule frontier_live [OF instance_inv_wf [OF inv] spec_activeD(1) [OF act] _ k]) (use spec_activeD(3) [OF act] in blast)
  then show ?thesis by (auto simp: node_statuses_Some)
qed

lemma work_keeps_active:
  assumes act: "spec_active s f" and wf: "wf_snapshot s" and step: "work_step s (p, f) (q, g)"
  shows "spec_active s g \<and> (q \<in> {I_RUNNING, I_PAUSED} \<and> (\<forall>k \<in> set (snapshot_keys s). g k = Some N_DONE) \<longrightarrow>
     (\<forall>k \<in> set (snapshot_keys s). f k = Some N_DONE))"
  using step
proof cases
  case (start k x)
  have k: "k \<in> set (snapshot_keys s)" using start(4) by (intro spec_activeD(2) [OF act]) simp
  have "frontier_ok s (f(k \<mapsto> x))"
    using start(4,5) by (intro frontier_point spec_activeD(1) [OF act] wf_no_self_dep [OF wf]) auto
  with start k act show ?thesis unfolding spec_active_def by auto
next
  case (finish k)
  let ?g = "spec_finish s k f"
  have k: "k \<in> set (snapshot_keys s)" using finish(4) by (intro spec_activeD(2) [OF act]) auto
  have fr: "frontier_ok s ?g"
    using finish(4) by (intro frontier_unlock [OF spec_activeD(1) [OF act], of k] wf_no_self_dep [OF wf]
        spec_activeD(2) [OF act]) (auto simp: spec_finish_def fun_eq_iff unlocked_def)
  have g: "?g j = (if j = k then Some N_DONE else if j \<in> unlocked s k (f(k \<mapsto> N_DONE)) then Some N_READY else f j)" for j
    by (simp add: spec_finish_def)
  have un: "j \<in> set (snapshot_keys s)" if "j \<in> unlocked s k (f(k \<mapsto> N_DONE))" for j
    using that unfolding unlocked_def by blast
  have "spec_active s ?g" unfolding spec_active_def
  proof (intro conjI allI impI ballI)
    fix j
    show "j \<in> set (snapshot_keys s)" if "?g j \<noteq> None"
      using that k un [of j] spec_activeD(2) [OF act, of j] unfolding g by (cases "j = k"; cases "j \<in> unlocked s k (f(k \<mapsto> N_DONE))") simp_all
    show "?g j \<in> {Some N_PENDING, Some N_READY, Some N_RUNNING, Some N_WAITING_HUMAN, Some N_DONE}"
      if "j \<in> set (snapshot_keys s)"
      using spec_activeD(3) [OF act that] unfolding g by (cases "j = k"; cases "j \<in> unlocked s k (f(k \<mapsto> N_DONE))") simp_all
  qed (rule fr)
  moreover have "q = I_DONE" if "\<forall>j \<in> set (snapshot_keys s). ?g j = Some N_DONE"
  proof -
    have "f j = Some N_DONE" if j: "j \<in> set (snapshot_keys s) - {k}" for j
    proof -
      from that j have "?g j = Some N_DONE" "j \<noteq> k" using \<open>\<forall>j \<in> set (snapshot_keys s). ?g j = Some N_DONE\<close> by blast+
      then show ?thesis unfolding g by (simp split: if_splits)
    qed
    then have "\<forall>j \<in> set (snapshot_keys s) - {k}. f j = Some N_DONE" by blast
    then show ?thesis unfolding finish(1) spec_phase_def by (rule if_P)
  qed
  ultimately show ?thesis using finish(2) by auto
qed

theorem work_completes:
  assumes wf: "wf_snapshot s" and act: "spec_active s f" "p \<in> {I_RUNNING, I_PAUSED}"
    and todo: "\<not> (\<forall>k \<in> set (snapshot_keys s). f k = Some N_DONE)" and run: "(work_step s ^^ n) (p, f) (q, g)"
  shows "n \<le> 2 * card (set (snapshot_keys s)) \<and> (q = I_DONE \<or> (\<exists>v. work_step s (q, g) v))"
proof -
  have "spec_active s g \<and> (q \<in> {I_RUNNING, I_PAUSED} \<and> \<not> (\<forall>k \<in> set (snapshot_keys s). g k = Some N_DONE) \<or> q = I_DONE)"
    using run
  proof (induction n arbitrary: q g)
    case 0
    with act todo show ?case by auto
  next
    case (Suc n)
    then obtain p' f' where *: "(work_step s ^^ n) (p, f) (p', f')" "work_step s (p', f') (q, g)"
      by (auto elim!: relcomppE)
    have "p' \<in> {I_RUNNING, I_PAUSED}" using *(2) by (cases rule: work_step.cases) auto
    with Suc.IH [OF *(1)] have i: "spec_active s f'" "\<not> (\<forall>k \<in> set (snapshot_keys s). f' k = Some N_DONE)" by auto
    have "q \<in> {I_RUNNING, I_PAUSED, I_DONE}" using *(2) by (cases rule: work_step.cases) (auto simp: spec_phase_def)
    with work_keeps_active [OF i(1) wf *(2)] i(2) show ?case by blast
  qed
  then have end_state: "spec_active s g"
    "q \<in> {I_RUNNING, I_PAUSED} \<and> \<not> (\<forall>k \<in> set (snapshot_keys s). g k = Some N_DONE) \<or> q = I_DONE" by blast+
  have "\<exists>v. work_step s (q, g) v" if "q \<noteq> I_DONE"
  proof -
    from that end_state(2) have q: "q \<in> {I_RUNNING, I_PAUSED}" and
      "\<exists>k \<in> set (snapshot_keys s). g k \<noteq> Some N_DONE" by blast+
    then obtain k where k: "k \<in> set (snapshot_keys s)" "g k \<noteq> Some N_DONE" by blast
    from frontier_live [OF wf spec_activeD(1) [OF end_state(1)] _ k] spec_activeD(3) [OF end_state(1)]
    obtain j where "g j \<in> {Some N_READY, Some N_RUNNING, Some N_WAITING_HUMAN}" by blast
    then consider "g j = Some N_READY" | "g j \<in> {Some N_RUNNING, Some N_WAITING_HUMAN}" by blast
    then show ?thesis by cases (use q in \<open>blast intro: work_step.intros\<close>)+
  qed
  with work_bounded [OF run spec_activeD(2) [OF act(1)]] show ?thesis by blast
qed

end
