(* ===== verification/Restart.thy ===== *)
theory Restart
  imports Runner Workflow_Spec
begin

text \<open>
  \<open>src/larkflow/workflow/restart.py\<close>: the impact set of restarting one node (the node and
  everything downstream of it) or the whole instance, and the application of a restart
  preview, which closes the current attempt of every affected node and opens a fresh one.
\<close>

section \<open>Previews\<close>

datatype restart_scope = NODE | INSTANCE

record restart_preview =
  rp_id :: string
  rp_tenant_id :: string
  rp_instance_id :: string
  rp_actor_person_id :: string
  rp_node_key :: "string option"
  rp_affected_node_keys :: "string list"
  rp_expected_instance_version :: int
  rp_graph_revision :: int
  rp_created_at :: time
  rp_expires_at :: time
  rp_scope :: restart_scope
  rp_consumed_at :: "time option"
  rp_applied_instance_version :: "int option"

fun scope_value :: "restart_scope \<Rightarrow> string" where
  "scope_value NODE = ''node''"
| "scope_value INSTANCE = ''instance''"

text \<open>\<open>RestartPreview.__post_init__\<close>\<close>

definition check_restart_preview :: "restart_preview \<Rightarrow> restart_preview res" where
  "check_restart_preview p =
     rbind (ensure (\<not> (rp_scope p = NODE \<and> rp_node_key p \<in> {None, Some []}))
        (ValueError ''node restart preview requires node_key'')) (\<lambda>_.
     rbind (ensure (\<not> (rp_scope p = INSTANCE \<and> rp_node_key p \<noteq> None))
        (ValueError ''instance restart preview cannot have node_key'')) (\<lambda>_.
     rbind (ensure (rp_affected_node_keys p \<noteq> [])
        (ValueError ''restart preview requires affected nodes'')) (\<lambda>_.
     rbind (ensure (distinct (rp_affected_node_keys p))
        (ValueError ''restart preview affected nodes must be unique'')) (\<lambda>_.
     Inr p))))"

definition mk_restart_preview ::
    "string \<Rightarrow> string \<Rightarrow> string \<Rightarrow> string \<Rightarrow> string option \<Rightarrow> string list \<Rightarrow> int \<Rightarrow> int \<Rightarrow> time
       \<Rightarrow> time \<Rightarrow> restart_scope \<Rightarrow> restart_preview res" where
  "mk_restart_preview pid tenant instance_id actor key affected version revision created expires scope =
     check_restart_preview
       \<lparr>rp_id = pid, rp_tenant_id = tenant, rp_instance_id = instance_id, rp_actor_person_id = actor,
        rp_node_key = key, rp_affected_node_keys = affected, rp_expected_instance_version = version,
        rp_graph_revision = revision, rp_created_at = created, rp_expires_at = expires,
        rp_scope = scope, rp_consumed_at = None, rp_applied_instance_version = None\<rparr>"

section \<open>The impact of a restart\<close>

definition RESTARTABLE_INSTANCE_STATUSES :: "instance_status list" where
  "RESTARTABLE_INSTANCE_STATUSES = [I_RUNNING, I_DONE, I_FAILED]"

definition RESTARTABLE_TARGET_STATUSES :: "node_status list" where
  "RESTARTABLE_TARGET_STATUSES = [N_RUNNING, N_WAITING_HUMAN, N_DONE, N_FAILED]"

text \<open>\<open>any(instance.nodes[d].status != DONE for d in deps)\<close>, with its lookups.\<close>

fun incomplete_dependency :: "workflow_instance \<Rightarrow> string list \<Rightarrow> bool res" where
  "incomplete_dependency w [] = Inr False"
| "incomplete_dependency w (d # ds) =
     rbind (get_node w d) (\<lambda>n. if ni_status n \<noteq> N_DONE then Inr True else incomplete_dependency w ds)"

definition known_node ::
    "workflow_instance \<Rightarrow> string \<Rightarrow> exn \<Rightarrow> (node_instance \<times> node_spec) res" where
  "known_node w key e =
     (case (get_node w key, snapshot_node (wi_snapshot w) key) of
        (Inr n, Inr spec) \<Rightarrow> Inr (n, spec)
      | _ \<Rightarrow> Inl e)"

definition affected_restart_node_keys :: "workflow_instance \<Rightarrow> string \<Rightarrow> string list res" where
  "affected_restart_node_keys w key =
     rbind (ensure (wi_status w \<in> set RESTARTABLE_INSTANCE_STATUSES)
        (RestartNotAllowedError ''instance cannot be restarted'')) (\<lambda>_.
     rbind (known_node w key (RestartNotAllowedError ''unknown restart node'')) (\<lambda>(target, spec).
     rbind (ensure (ni_status target \<in> set RESTARTABLE_TARGET_STATUSES)
        (RestartNotAllowedError ''node cannot be restarted'')) (\<lambda>_.
     rbind (incomplete_dependency w (ns_deps spec)) (\<lambda>incomplete.
     rbind (ensure (\<not> incomplete)
        (RestartNotAllowedError ''restart target has incomplete dependencies'')) (\<lambda>_.
     rbind (reachable_downstream (wi_snapshot w) key) (\<lambda>below.
     let affected = insert key (set below) in
     rbind (ensure (list_all (\<lambda>(k, n). \<not> (k \<notin> affected \<and> ni_status n = N_FAILED)) (wi_nodes w))
        (RestartNotAllowedError ''restart does not cover failed nodes'')) (\<lambda>_.
     rbind (topological_order (wi_snapshot w)) (\<lambda>order.
     Inr (filter (\<lambda>k. k \<in> affected) order)))))))))"

definition affected_instance_restart_node_keys :: "workflow_instance \<Rightarrow> string list res" where
  "affected_instance_restart_node_keys w =
     rbind (ensure (wi_status w \<in> set RESTARTABLE_INSTANCE_STATUSES)
        (RestartNotAllowedError ''instance cannot be restarted'')) (\<lambda>_.
     rbind (topological_order (wi_snapshot w)) (\<lambda>affected.
     rbind (ensure (affected \<noteq> []) (RestartNotAllowedError ''instance has no nodes to restart'')) (\<lambda>_.
     Inr affected)))"

section \<open>Rework feedback\<close>

text \<open>One pass of the search for rejections that name the target; a candidate is the tuple
  \<open>(completed, attempt_no, key, feedback)\<close>, an attempt without completion time counts as
  one second before the epoch.\<close>

type_synonym rework_candidate = "int \<times> int \<times> string \<times> string"

definition rework_candidate ::
    "workflow_instance \<Rightarrow> string \<Rightarrow> node_spec \<Rightarrow> rework_candidate list \<Rightarrow> rework_candidate list res" where
  "rework_candidate w target spec acc =
     (case human_decision_config (ns_work spec) of
        None \<Rightarrow> Inr acc
      | Some config \<Rightarrow>
          if py_str (getv config ''reject_target'') \<noteq> target then Inr acc
          else rbind (current_attempt w (ns_key spec)) (\<lambda>a.
            case na_result a of
              None \<Rightarrow> Inr acc
            | Some result \<Rightarrow>
                if getv result ''decision'' \<noteq> PStr ''rejected'' then Inr acc
                else case as_str (getv result ''feedback'') of
                    None \<Rightarrow> Inr acc
                  | Some feedback \<Rightarrow>
                      if blank feedback then Inr acc
                      else Inr (acc @ [(case na_completed_at a of None \<Rightarrow> - 1000000 | Some t \<Rightarrow> t,
                                        na_attempt_no a, ns_key spec, py_strip feedback)])))"

definition rework_feedback_for_target :: "workflow_instance \<Rightarrow> string \<Rightarrow> pmap option res" where
  "rework_feedback_for_target w target =
     rbind (foldM (rework_candidate w target) (sn_nodes (wi_snapshot w)) []) (\<lambda>candidates.
     Inr (case candidates of
        [] \<Rightarrow> None
      | c # cs \<Rightarrow>
          (case foldl max c cs of (completed, attempt_no, source, feedback) \<Rightarrow>
             Some [(''source_node_key'', PStr source), (''source_attempt_no'', PInt attempt_no),
                   (''feedback'', PStr feedback)])))"

section \<open>Applying a restart\<close>

definition close_attempt :: "time \<Rightarrow> node_attempt \<Rightarrow> node_attempt" where
  "close_attempt now a =
     clear_claim (if na_status a \<in> {A_PENDING, A_RUNNING, A_WAITING_HUMAN}
       then a\<lparr>na_status := A_CANCELED, na_completed_at := Some now\<rparr> else a)"

definition reset_node ::
    "time \<Rightarrow> string option \<Rightarrow> pmap option \<Rightarrow> string \<Rightarrow> workflow_instance \<Rightarrow> workflow_instance res" where
  "reset_node now target feedback key w =
     rbind (snapshot_node (wi_snapshot w) key) (\<lambda>spec.
     rbind (get_node w key) (\<lambda>n.
     rbind (current_attempt w key) (\<lambda>a.
     let no = ni_current_attempt_no n + 1;
         n' = n\<lparr>ni_current_attempt_no := no, ni_version := ni_version n + 1, ni_status := N_PENDING,
               ni_ready_at := None, ni_started_at := None, ni_completed_at := None\<rparr>;
         input = pending_input spec @ (case feedback of
             Some m \<Rightarrow> if target = Some key then [(''rework_feedback'', PFrozen m)] else []
           | None \<Rightarrow> [])
     in Inr (put_attempt key no (new_node_attempt (attempt_id_of (ni_id n) no) (ni_id n) no A_PENDING input)
          (put_attempt key (ni_current_attempt_no n) (close_attempt now a) (put_node key n' w))))))"

definition mark_ready :: "time \<Rightarrow> string \<Rightarrow> workflow_instance \<Rightarrow> workflow_instance res" where
  "mark_ready now key w =
     rbind (get_node w key) (\<lambda>n.
     Inr (put_node key (n\<lparr>ni_status := N_READY, ni_ready_at := Some now\<rparr>) w))"

definition restart_nodes :: "workflow_instance \<Rightarrow> restart_preview \<Rightarrow> time \<Rightarrow> workflow_instance res" where
  "restart_nodes w p now =
     rbind (ensure (wi_id w = rp_instance_id p \<and> wi_tenant_id w = rp_tenant_id p)
        (StaleRestartPreviewError ''restart preview targets another instance'')) (\<lambda>_.
     rbind (ensure (wi_version w = rp_expected_instance_version p)
        (StaleRestartPreviewError ''instance changed after restart preview'')) (\<lambda>_.
     rbind (ensure (wi_graph_revision w = rp_graph_revision p)
        (StaleRestartPreviewError ''graph changed after restart preview'')) (\<lambda>_.
     rbind (if rp_scope p = NODE
            then (case rp_node_key p of
                None \<Rightarrow> Inl (StaleRestartPreviewError ''node restart preview has no target'')
              | Some key \<Rightarrow> affected_restart_node_keys w key)
            else affected_instance_restart_node_keys w) (\<lambda>affected.
     rbind (ensure (affected = rp_affected_node_keys p)
        (StaleRestartPreviewError ''restart impact changed after preview'')) (\<lambda>_.
     rbind (case (rp_scope p, rp_node_key p) of
              (NODE, Some key) \<Rightarrow> rework_feedback_for_target w key
            | _ \<Rightarrow> Inr None) (\<lambda>feedback.
     rbind (foldM (reset_node now (rp_node_key p) feedback) affected w) (\<lambda>w.
     let ready = (if rp_scope p = NODE
                  then (case rp_node_key p of None \<Rightarrow> [] | Some key \<Rightarrow> [key])
                  else map ns_key (filter (\<lambda>spec. ns_deps spec = []) (sn_nodes (wi_snapshot w))))
     in rbind (foldM (mark_ready now) ready w) (\<lambda>w.
        Inr (w\<lparr>wi_status := I_RUNNING, wi_completed_at := None\<rparr>)))))))))"

definition apply_restart :: "workflow_instance \<Rightarrow> restart_preview \<Rightarrow> time \<Rightarrow> workflow_instance res" where
  "apply_restart w p now =
     (if rp_scope p = NODE then
        rbind (ensure (rp_node_key p \<noteq> None)
          (StaleRestartPreviewError ''restart preview is not node-scoped'')) (\<lambda>_. restart_nodes w p now)
      else
        rbind (ensure (rp_node_key p = None)
          (StaleRestartPreviewError ''restart preview is not instance-scoped'')) (\<lambda>_. restart_nodes w p now))"

section \<open>The impact set\<close>

text \<open>Every ancestor of a node that has started is done.\<close>

lemma frontier_ancestors:
  assumes "frontier_ok s f" and "(d, k) \<in> (dep_rel s)\<^sup>+"
    and "f k \<in> {Some N_READY, Some N_RUNNING, Some N_WAITING_HUMAN, Some N_DONE, Some N_FAILED}"
  shows "f d = Some N_DONE"
  using assms(2,3)
proof (induction rule: converse_trancl_induct)
  case (base d)
  then show ?case using frontier_active [OF assms(1), of k] by (auto simp: dep_rel_def deps_done_def)
next
  case (step d e)
  then have "f e = Some N_DONE" by blast
  then have "deps_done s f e" by (intro frontier_active [OF assms(1)]) simp
  with step show ?case by (auto simp: dep_rel_def deps_done_def)
qed

lemma incomplete_dependency_spec:
  assumes "\<forall>d \<in> set ds. node_at w d \<noteq> None"
  shows "incomplete_dependency w ds = Inr (\<exists>d \<in> set ds. node_statuses w d \<noteq> Some N_DONE)"
  using assms by (induction ds) (auto simp: get_node_def node_statuses_def)

lemma known_node_Inr:
  "known_node w key e = Inr (n, spec) \<longleftrightarrow>
     node_at w key = Some n \<and> snapshot_node (wi_snapshot w) key = Inr spec"
  by (auto simp: known_node_def get_node_def get_or_raise_def split: sum.splits option.splits)

lemma affected_restart_spec:
  assumes inv: "instance_inv w" and ok: "affected_restart_node_keys w key = Inr ks"
  shows "key \<in> set (snapshot_keys (wi_snapshot w)) \<and> wi_status w \<in> {I_RUNNING, I_DONE, I_FAILED} \<and>
     distinct ks \<and> set ks = insert key (downstream (wi_snapshot w) key) \<and>
     node_statuses w key \<in> {Some N_RUNNING, Some N_WAITING_HUMAN, Some N_DONE, Some N_FAILED} \<and>
     deps_done (wi_snapshot w) (node_statuses w) key \<and>
     (\<forall>k. k \<notin> set ks \<longrightarrow> node_statuses w k \<noteq> Some N_FAILED)"
proof -
  let ?s = "wi_snapshot w"
  obtain n spec incomplete below order where
    st: "wi_status w \<in> set RESTARTABLE_INSTANCE_STATUSES" and
    n: "node_at w key = Some n" and spec: "snapshot_node ?s key = Inr spec" and
    nst: "ni_status n \<in> set RESTARTABLE_TARGET_STATUSES" and
    inc: "incomplete_dependency w (ns_deps spec) = Inr incomplete" "\<not> incomplete" and
    below: "reachable_downstream ?s key = Inr below" and
    failed: "list_all (\<lambda>(k, n). \<not> (k \<notin> insert key (set below) \<and> ni_status n = N_FAILED)) (wi_nodes w)" and
    order: "topological_order ?s = Inr order" and
    ks: "ks = filter (\<lambda>k. k \<in> insert key (set below)) order"
    using ok unfolding affected_restart_node_keys_def Let_def
    by (auto simp: rbind_Inr_iff ensure_Inr_iff known_node_Inr)
  have st': "wi_status w \<in> {I_RUNNING, I_DONE, I_FAILED}"
    using st by (auto simp: RESTARTABLE_INSTANCE_STATUSES_def)
  then have "wi_status w \<notin> {I_DRAFT, I_DISCARDED}" by auto
  note rt = instance_inv_runtime [OF inv this]
  have simple: "simple_snapshot ?s" by (rule instance_inv_simple [OF inv])
  have key: "key \<in> set (snapshot_keys ?s)" by (rule core_inv_node(2) [OF rt(1) n])
  have below': "set below = downstream ?s key"
    using reachable_downstream_spec [OF simple key] below by auto
  have order': "distinct order" "set order = set (snapshot_keys ?s)"
    using topological_order_sound [OF simple order] by (auto simp: topo_list_def)
  have "downstream ?s key \<subseteq> set (snapshot_keys ?s)"
    by (auto simp: downstream_def dep_rel_def elim: tranclE)
  then have "set ks = insert key (downstream ?s key)"
    unfolding ks using below' order' key by auto
  moreover have "distinct ks" unfolding ks using order' by simp
  moreover have "deps_done ?s (node_statuses w) key"
  proof -
    have "set (ns_deps spec) = deps_of ?s key" using deps_of_node [OF spec] by simp
    moreover have "\<forall>d \<in> set (ns_deps spec). node_at w d \<noteq> None"
      using deps_of_subset [OF simple, of key] deps_of_node [OF spec]
      by (metis core_inv_key [OF rt(1)] option.discI subsetD)
    ultimately show ?thesis using incomplete_dependency_spec [of "ns_deps spec" w] inc
      by (simp add: deps_done_def)
  qed
  moreover have "node_statuses w key \<in> {Some N_RUNNING, Some N_WAITING_HUMAN, Some N_DONE, Some N_FAILED}"
    using n nst by (auto simp: node_statuses_def RESTARTABLE_TARGET_STATUSES_def)
  moreover have "\<forall>k. k \<notin> set ks \<longrightarrow> node_statuses w k \<noteq> Some N_FAILED"
  proof (intro allI impI notI)
    fix k assume k: "k \<notin> set ks" and f: "node_statuses w k = Some N_FAILED"
    then obtain m where m: "node_at w k = Some m" "ni_status m = N_FAILED" by (auto simp: node_statuses_Some)
    then have "k \<in> set (snapshot_keys ?s)" using core_inv_node(2) [OF rt(1)] by blast
    with k ks order' have "k \<notin> insert key (set below)" by auto
    moreover have "(k, m) \<in> set (wi_nodes w)" using m(1) by (rule map_of_SomeD)
    ultimately show False using failed m(2) by (auto simp: list_all_iff)
  qed
  ultimately show ?thesis using key st' by blast
qed

section \<open>The reset loop\<close>

text \<open>The node is on a new attempt, one past the old one.\<close>

definition renewed :: "workflow_instance \<Rightarrow> workflow_instance \<Rightarrow> string \<Rightarrow> bool" where
  "renewed w w' k \<longleftrightarrow> (\<forall>n. node_at w k = Some n \<longrightarrow>
     (\<exists>n'. node_at w' k = Some n' \<and> ni_version n' = ni_version n + 1 \<and>
        ni_current_attempt_no n' = ni_current_attempt_no n + 1 \<and>
        (\<forall>a. attempt_at w k (ni_current_attempt_no n) = Some a \<longrightarrow>
           (\<exists>a'. attempt_at w' k (ni_current_attempt_no n) = Some a' \<and> attempt_finished a' \<and>
              na_result a' = na_result a))))"

definition untouched :: "workflow_instance \<Rightarrow> workflow_instance \<Rightarrow> string \<Rightarrow> bool" where
  "untouched w w' k \<longleftrightarrow> node_at w' k = node_at w k \<and> (\<forall>m. attempt_at w' k m = attempt_at w k m)"

definition same_frame :: "workflow_instance \<Rightarrow> workflow_instance \<Rightarrow> bool" where
  "same_frame w w' \<longleftrightarrow> wi_snapshot w' = wi_snapshot w \<and> wi_status w' = wi_status w \<and>
     wi_graph_revision w' = wi_graph_revision w \<and> wi_confirmed_at w' = wi_confirmed_at w \<and>
     wi_completed_at w' = wi_completed_at w"

lemma close_attempt_props:
  "claim_ok a \<Longrightarrow> attempt_finished (close_attempt now a)"
  "claim_ok (close_attempt now a) \<or> na_status a = A_RUNNING"
  "same_attempt a (close_attempt now a)" "na_result (close_attempt now a) = na_result a"
  by (cases "na_status a"; simp add: close_attempt_def clear_claim_def claim_ok_def same_attempt_def)+

lemma close_attempt_claim: "claim_ok (close_attempt now a)"
  by (cases "na_status a") (simp_all add: close_attempt_def clear_claim_def claim_ok_def)

lemma close_attempt_finished_id: "claim_ok a \<Longrightarrow> attempt_finished a \<Longrightarrow> close_attempt now a = a"
  by (cases "na_status a") (simp_all add: close_attempt_def clear_claim_def claim_ok_def)

lemma no_later_attempt:
  assumes "core_inv w" and "node_at w k = Some n"
  shows "attempt_at w k (ni_current_attempt_no n + 1) = None"
proof (rule ccontr)
  assume "attempt_at w k (ni_current_attempt_no n + 1) \<noteq> None"
  then obtain a where "attempt_at w k (ni_current_attempt_no n + 1) = Some a" by auto
  from core_inv_attempt [OF assms(1) this] assms(2) show False by (auto simp: attempt_ok_def)
qed

lemma evolves_next:
  assumes core: "core_inv w" and n: "node_at w k = Some n" and v: "ni_version n < ni_version n'"
    and a: "attempt_at w k (ni_current_attempt_no n) = Some a"
    and keep: "attempt_finished a \<Longrightarrow> a' = a"
  shows "evolves w (put_attempt k (ni_current_attempt_no n + 1) b
     (put_attempt k (ni_current_attempt_no n) a' (put_node k n' w)))"
proof -
  have "evolves w (put_node k n' w)" by (rule evolves_put_node [OF n v])
  moreover have "evolves (put_node k n' w) (put_attempt k (ni_current_attempt_no n) a' (put_node k n' w))"
    using a keep by (intro evolves_put_attempt) (simp add: dict_simps)
  moreover have "evolves (put_attempt k (ni_current_attempt_no n) a' (put_node k n' w))
      (put_attempt k (ni_current_attempt_no n + 1) b
        (put_attempt k (ni_current_attempt_no n) a' (put_node k n' w)))"
    using no_later_attempt [OF core n] by (intro evolves_put_attempt) (simp add: dict_simps)
  ultimately show ?thesis by (blast intro: evolves_trans)
qed

lemma reset_step:
  assumes core: "core_inv w" and key: "key \<in> set (snapshot_keys (wi_snapshot w))"
  shows "\<exists>w'. reset_node now target feedback key w = Inr w' \<and> core_inv w' \<and> evolves w w' \<and>
     same_frame w w' \<and> node_statuses w' = (node_statuses w)(key \<mapsto> N_PENDING) \<and>
     renewed w w' key \<and> (\<forall>j. j \<noteq> key \<longrightarrow> untouched w w' j)"
proof -
  obtain n a where n: "node_at w key = Some n" and a: "attempt_at w key (ni_current_attempt_no n) = Some a"
    and nok: "node_ok w key n" and aok: "attempt_ok w key (ni_current_attempt_no n) a"
    using core key by (rule core_inv_key)
  obtain spec where spec: "snapshot_node (wi_snapshot w) key = Inr spec"
    using snapshot_node_exists [OF key] by blast
  let ?no = "ni_current_attempt_no n + 1"
  define n' where "n' = n\<lparr>ni_current_attempt_no := ?no, ni_version := ni_version n + 1,
    ni_status := N_PENDING, ni_ready_at := None, ni_started_at := None, ni_completed_at := None\<rparr>"
  define input where "input = pending_input spec @ (case feedback of
             Some m \<Rightarrow> if target = Some key then [(''rework_feedback'', PFrozen m)] else []
           | None \<Rightarrow> [])"
  define b where "b = new_node_attempt (attempt_id_of (ni_id n) ?no) (ni_id n) ?no A_PENDING input"
  define w' where "w' = put_attempt key ?no b
    (put_attempt key (ni_current_attempt_no n) (close_attempt now a) (put_node key n' w))"
  have n'f: "same_node n n'" "ni_version n' = ni_version n + 1" "ni_status n' = N_PENDING"
    "ni_current_attempt_no n' = ?no" by (simp_all add: n'_def same_node_def)
  have claim: "claim_ok a" using aok by (simp add: attempt_ok_def)
  have bf: "na_attempt_no b = ?no" "na_node_instance_id b = ni_id n" "na_id b = attempt_id_of (ni_id n) ?no"
    "claim_ok b" "na_status b = A_PENDING"
    by (simp_all add: b_def new_node_attempt_def claim_ok_def)
  have "reset_node now target feedback key w = Inr w'"
    using spec n a by (simp add: reset_node_def get_node_def current_attempt_def Let_def w'_def n'_def b_def input_def)
  moreover have "core_inv w'"
    unfolding w'_def using n'f bf close_attempt_props(1) [OF claim, of now] close_attempt_props(3) [of a now]
      close_attempt_claim [of now a]
    by (intro core_inv_next_attempt [OF core n a]) simp_all
  moreover have "evolves w w'"
    unfolding w'_def using n'f close_attempt_finished_id [OF claim]
    by (intro evolves_next [OF core n _ a]) simp_all
  moreover have "same_frame w w'" by (simp add: same_frame_def w'_def)
  moreover have "node_statuses w' = (node_statuses w)(key \<mapsto> N_PENDING)"
    by (simp add: w'_def dict_simps n'f)
  moreover have "renewed w w' key"
    using n a n'f close_attempt_props(1) [OF claim, of now] close_attempt_props(4) [of now a]
    by (simp add: renewed_def w'_def dict_simps)
  moreover have "\<forall>j. j \<noteq> key \<longrightarrow> untouched w w' j" by (simp add: untouched_def w'_def dict_simps)
  ultimately show ?thesis by blast
qed

lemma renewed_untouched: "renewed u w' k \<Longrightarrow> untouched w u k \<Longrightarrow> renewed w w' k"
  by (simp add: renewed_def untouched_def)

lemma untouched_renewed: "renewed w u k \<Longrightarrow> untouched u w' k \<Longrightarrow> renewed w w' k"
  by (simp add: renewed_def untouched_def)

lemma untouched_trans: "untouched u v k \<Longrightarrow> untouched v w k \<Longrightarrow> untouched u w k"
  by (simp add: untouched_def)

lemma reset_loop:
  assumes "core_inv w" and "distinct ks" and "set ks \<subseteq> set (snapshot_keys (wi_snapshot w))"
  shows "\<exists>w'. foldM (reset_node now target feedback) ks w = Inr w' \<and> core_inv w' \<and> evolves w w' \<and>
     same_frame w w' \<and>
     node_statuses w' = (\<lambda>j. if j \<in> set ks then Some N_PENDING else node_statuses w j) \<and>
     (\<forall>j \<in> set ks. renewed w w' j) \<and> (\<forall>j. j \<notin> set ks \<longrightarrow> untouched w w' j)"
  using assms
proof (induction ks arbitrary: w)
  case Nil
  then show ?case by (intro exI [of _ w]) (simp add: same_frame_def untouched_def)
next
  case (Cons k ks)
  from Cons.prems have k: "k \<in> set (snapshot_keys (wi_snapshot w))" "k \<notin> set ks" "distinct ks" by simp_all
  obtain u where u: "reset_node now target feedback k w = Inr u" "core_inv u" "evolves w u"
      "same_frame w u" "node_statuses u = (node_statuses w)(k \<mapsto> N_PENDING)"
      "renewed w u k" "\<forall>j. j \<noteq> k \<longrightarrow> untouched w u j"
    using reset_step [OF Cons.prems(1) k(1)] by blast
  have "set ks \<subseteq> set (snapshot_keys (wi_snapshot u))"
    using Cons.prems(3) u(4) by (simp add: same_frame_def)
  from Cons.IH [OF u(2) k(3) this] obtain w' where w':
      "foldM (reset_node now target feedback) ks u = Inr w'" "core_inv w'" "evolves u w'" "same_frame u w'"
      "node_statuses w' = (\<lambda>j. if j \<in> set ks then Some N_PENDING else node_statuses u j)"
      "\<forall>j \<in> set ks. renewed u w' j" "\<forall>j. j \<notin> set ks \<longrightarrow> untouched u w' j" by blast
  show ?case
  proof (intro exI [of _ w'] conjI)
    show "foldM (reset_node now target feedback) (k # ks) w = Inr w'" using u(1) w'(1) by simp
    show "core_inv w'" by (rule w'(2))
    show "evolves w w'" by (rule evolves_trans [OF u(3) w'(3)])
    show "same_frame w w'" using u(4) w'(4) by (simp add: same_frame_def)
    show "node_statuses w' = (\<lambda>j. if j \<in> set (k # ks) then Some N_PENDING else node_statuses w j)"
      using w'(5) u(5) by auto
    show "\<forall>j \<in> set (k # ks). renewed w w' j"
    proof
      fix j assume "j \<in> set (k # ks)"
      then consider "j = k" | "j \<in> set ks" "j \<noteq> k" using k(2) by auto
      then show "renewed w w' j"
      proof cases
        case 1
        with k(2) w'(7) u(6) show ?thesis by (blast intro: untouched_renewed)
      next
        case 2
        with w'(6) u(7) show ?thesis by (blast intro: renewed_untouched)
      qed
    qed
    show "\<forall>j. j \<notin> set (k # ks) \<longrightarrow> untouched w w' j"
      using u(7) w'(7) by (auto intro: untouched_trans)
  qed
qed

text \<open>Marking pending nodes ready, after they were renewed.\<close>

lemma mark_ready_loop:
  assumes "core_inv u" and "evolves w u" and "distinct ks"
    and "\<forall>k \<in> set ks. node_statuses u k = Some N_PENDING \<and> renewed w u k \<and> node_at w k \<noteq> None"
  shows "\<exists>w'. foldM (mark_ready now) ks u = Inr w' \<and> core_inv w' \<and> evolves w w' \<and> same_frame u w' \<and>
     wi_attempts w' = wi_attempts u \<and>
     node_statuses w' = (\<lambda>j. if j \<in> set ks then Some N_READY else node_statuses u j) \<and>
     (\<forall>j. j \<notin> set ks \<longrightarrow> untouched u w' j) \<and>
     (\<forall>j. renewed w u j \<longrightarrow> renewed w w' j)"
  using assms
proof (induction ks arbitrary: u)
  case Nil
  then show ?case by (intro exI [of _ u]) (simp add: same_frame_def untouched_def)
next
  case (Cons k ks)
  then obtain n where n: "node_at u k = Some n" "ni_status n = N_PENDING"
    by (auto simp: node_statuses_Some)
  define n' where "n' = n\<lparr>ni_status := N_READY, ni_ready_at := Some now\<rparr>"
  define v where "v = put_node k n' u"
  have step: "mark_ready now k u = Inr v" using n by (simp add: mark_ready_def get_node_def v_def n'_def)
  have core: "core_inv v"
    unfolding v_def using n
    by (intro core_inv_put_node [OF Cons.prems(1) n(1)]) (auto simp: same_node_def n'_def)
  have ren: "renewed w v j" if "renewed w u j" for j
  proof (cases "j = k")
    case True
    with that n show ?thesis by (auto simp: renewed_def v_def n'_def dict_simps)
  next
    case False
    with that show ?thesis by (intro untouched_renewed [OF that]) (simp add: untouched_def v_def dict_simps)
  qed
  have ev: "evolves w v"
  proof -
    from Cons.prems(4) have "renewed w u k" "node_at w k \<noteq> None" by simp_all
    then obtain n0 where n0: "node_at w k = Some n0" "ni_version n0 < ni_version n'"
      using n(1) by (auto simp: renewed_def n'_def)
    with Cons.prems(2) show ?thesis
      by (auto simp: v_def evolves_def history_kept_def versions_strict_def same_aggregate_def dict_simps)
  qed
  have st: "node_statuses v = (node_statuses u)(k \<mapsto> N_READY)" by (simp add: v_def dict_simps n'_def)
  have "\<forall>j \<in> set ks. node_statuses v j = Some N_PENDING \<and> renewed w v j \<and> node_at w j \<noteq> None"
    using Cons.prems(3,4) st ren by auto
  from Cons.IH [OF core ev _ this] Cons.prems(3) obtain w' where w':
      "foldM (mark_ready now) ks v = Inr w'" "core_inv w'" "evolves w w'" "same_frame v w'"
      "wi_attempts w' = wi_attempts v"
      "node_statuses w' = (\<lambda>j. if j \<in> set ks then Some N_READY else node_statuses v j)"
      "\<forall>j. j \<notin> set ks \<longrightarrow> untouched v w' j" "\<forall>j. renewed w v j \<longrightarrow> renewed w w' j" by auto
  show ?case
  proof (intro exI [of _ w'] conjI)
    show "foldM (mark_ready now) (k # ks) u = Inr w'" using step w'(1) by simp
    show "same_frame u w'" using w'(4) by (simp add: same_frame_def v_def)
    show "wi_attempts w' = wi_attempts u" using w'(5) by (simp add: v_def)
    show "node_statuses w' = (\<lambda>j. if j \<in> set (k # ks) then Some N_READY else node_statuses u j)"
      using w'(6) st by auto
    show "\<forall>j. j \<notin> set (k # ks) \<longrightarrow> untouched u w' j"
      using w'(7) by (auto simp: untouched_def v_def dict_simps)
    show "\<forall>j. renewed w u j \<longrightarrow> renewed w w' j" using ren w'(8) by blast
  qed (rule w')+
qed

section \<open>A restart keeps the invariant\<close>

text \<open>
  Resetting a set of nodes that is closed under dependents, and marking those of them ready
  whose dependencies lie outside and are done, gives a legal frontier.
\<close>

lemma frontier_restart:
  assumes fr: "frontier_ok s f" and closed: "\<And>j k. k \<in> deps_of s j \<Longrightarrow> k \<in> A \<Longrightarrow> j \<in> A"
    and ready: "R \<subseteq> A" "\<And>k. k \<in> R \<Longrightarrow> deps_of s k \<inter> A = {} \<and> deps_done s f k"
    and rest: "\<And>k. k \<in> A - R \<Longrightarrow> deps_of s k \<inter> A \<noteq> {}"
    and g: "g = (\<lambda>j. if j \<in> R then Some N_READY else if j \<in> A then Some N_PENDING else f j)"
  shows "frontier_ok s g"
proof -
  have out: "deps_done s g j = deps_done s f j" if "deps_of s j \<inter> A = {}" for j
    using that ready(1) by (auto simp: deps_done_def g)
  have blocked: "\<not> deps_done s g j" if "deps_of s j \<inter> A \<noteq> {}" for j
    using that by (auto simp: deps_done_def g)
  show ?thesis
    unfolding frontier_ok_def
  proof (intro allI)
    fix j
    show "(g j \<in> {Some N_READY, Some N_RUNNING, Some N_WAITING_HUMAN, Some N_DONE, Some N_FAILED} \<longrightarrow>
        deps_done s g j) \<and> (g j = Some N_PENDING \<longrightarrow> \<not> deps_done s g j)"
    proof (cases "j \<in> A")
      case True
      show ?thesis
      proof (cases "j \<in> R")
        case True
        with ready(2) out show ?thesis by (simp add: g)
      next
        case False
        with \<open>j \<in> A\<close> rest blocked show ?thesis by (simp add: g)
      qed
    next
      case False
      then have "deps_of s j \<inter> A = {}" using closed by blast
      with False ready(1) out fr show ?thesis by (auto simp: g frontier_ok_def)
    qed
  qed
qed

lemma restart_core:
  assumes inv: "instance_inv w" and core: "core_inv w" and fr: "frontier_ok (wi_snapshot w) (node_statuses w)"
    and ks: "distinct ks" "set ks \<subseteq> set (snapshot_keys (wi_snapshot w))"
    and rs: "distinct rs" "set rs \<subseteq> set ks" "rs \<noteq> []"
    and closed: "\<forall>j k. k \<in> deps_of (wi_snapshot w) j \<longrightarrow> k \<in> set ks \<longrightarrow> j \<in> set ks"
    and ready: "\<forall>k \<in> set rs. deps_of (wi_snapshot w) k \<inter> set ks = {} \<and>
        deps_done (wi_snapshot w) (node_statuses w) k"
    and rest: "\<forall>k \<in> set ks - set rs. deps_of (wi_snapshot w) k \<inter> set ks \<noteq> {}"
    and bad: "\<forall>k. k \<notin> set ks \<longrightarrow> node_statuses w k \<notin> {Some N_FAILED, Some N_CANCELED}"
  shows "\<exists>u v. foldM (reset_node now target feedback) ks w = Inr u \<and> wi_snapshot u = wi_snapshot w \<and>
     foldM (mark_ready now) rs u = Inr v \<and>
     instance_inv (v\<lparr>wi_status := I_RUNNING, wi_completed_at := None\<rparr>) \<and>
     evolves w (v\<lparr>wi_status := I_RUNNING, wi_completed_at := None\<rparr>) \<and>
     wi_snapshot v = wi_snapshot w \<and> wi_graph_revision v = wi_graph_revision w \<and>
     node_statuses v = (\<lambda>j. if j \<in> set rs then Some N_READY else if j \<in> set ks then Some N_PENDING
        else node_statuses w j) \<and>
     (\<forall>j \<in> set ks. renewed w v j) \<and> (\<forall>j. j \<notin> set ks \<longrightarrow> untouched w v j)"
proof -
  obtain u where u: "foldM (reset_node now target feedback) ks w = Inr u" "core_inv u" "evolves w u"
      "same_frame w u" "node_statuses u = (\<lambda>j. if j \<in> set ks then Some N_PENDING else node_statuses w j)"
      "\<forall>j \<in> set ks. renewed w u j" "\<forall>j. j \<notin> set ks \<longrightarrow> untouched w u j"
    using reset_loop [OF core ks] by blast
  have "\<forall>k \<in> set rs. node_statuses u k = Some N_PENDING \<and> renewed w u k \<and> node_at w k \<noteq> None"
  proof
    fix k assume "k \<in> set rs"
    then have k: "k \<in> set ks" using rs(2) by auto
    then have "k \<in> set (snapshot_keys (wi_snapshot w))" using ks(2) by auto
    with core obtain n where "node_at w k = Some n" by (rule core_inv_key)
    with k u show "node_statuses u k = Some N_PENDING \<and> renewed w u k \<and> node_at w k \<noteq> None" by simp
  qed
  from mark_ready_loop [OF u(2,3) rs(1) this] obtain v where v:
      "foldM (mark_ready now) rs u = Inr v" "core_inv v" "evolves w v" "same_frame u v"
      "node_statuses v = (\<lambda>j. if j \<in> set rs then Some N_READY else node_statuses u j)"
      "\<forall>j. j \<notin> set rs \<longrightarrow> untouched u v j" "\<forall>j. renewed w u j \<longrightarrow> renewed w v j" by blast
  have snap: "wi_snapshot v = wi_snapshot w" "wi_graph_revision v = wi_graph_revision w"
    using u(4) v(4) by (simp_all add: same_frame_def)
  have st: "node_statuses v = (\<lambda>j. if j \<in> set rs then Some N_READY else if j \<in> set ks then Some N_PENDING
        else node_statuses w j)" unfolding v(5) u(5) ..
  let ?w = "v\<lparr>wi_status := I_RUNNING, wi_completed_at := None\<rparr>"
  have "instance_inv ?w"
  proof (rule instance_invI)
    show "validate_snapshot (wi_snapshot ?w) = Inr ()" using inv snap by (simp add: instance_inv_def)
    show "core_inv ?w" using v(2) by simp
    have "frontier_ok (wi_snapshot w) (node_statuses v)"
      using closed ready rest by (intro frontier_restart [OF fr _ rs(2) _ _ st]) blast+
    then show "frontier_ok (wi_snapshot ?w) (node_statuses ?w)" using snap by simp
    have "\<exists>k. k \<in> set rs" using rs(3) by (cases rs) auto
    then obtain k where k: "k \<in> set rs" by blast
    have "k \<in> set (snapshot_keys (wi_snapshot w))" using k rs(2) ks(2) by auto
    then have mem: "Some N_READY \<in> status_set ?w"
      unfolding status_set_def using st k snap by (intro image_eqI [of _ _ k]) simp_all
    have no: "node_statuses v j \<notin> {Some N_FAILED, Some N_CANCELED}" for j
      using st bad by auto
    have "Some N_FAILED \<notin> status_set ?w" "Some N_CANCELED \<notin> status_set ?w"
      unfolding status_set_def using no by fastforce+
    with mem show "phase_ok (wi_status ?w) (status_set ?w)" by auto
    show "wi_status ?w \<notin> {I_DRAFT, I_DISCARDED}" by simp
  qed
  moreover have "wi_snapshot u = wi_snapshot w" using u(4) by (simp add: same_frame_def)
  moreover have "\<forall>j. j \<notin> set ks \<longrightarrow> untouched w v j"
    using u(7) v(6) rs(2) by (meson subsetD untouched_trans)
  moreover have "evolves w ?w" using v(3) by simp
  ultimately show ?thesis using u(1,6) v(1,7) snap st by blast
qed

lemma dep_rel_in: "simple_snapshot s \<Longrightarrow> k \<in> deps_of s j \<longleftrightarrow> (k, j) \<in> dep_rel s"
proof -
  have "deps_of s j = {}" if "j \<notin> set (snapshot_keys s)" for j
    using that by (auto simp: deps_of_def find_Some_iff split: option.splits)
  then show ?thesis by (auto simp: dep_rel_def)
qed

theorem apply_restart_inv:
  assumes inv: "instance_inv w" and ok: "apply_restart w p now = Inr w'"
  shows "instance_inv w' \<and> evolves w w' \<and> wi_status w' = I_RUNNING \<and> wi_snapshot w' = wi_snapshot w \<and>
     (\<forall>j \<in> set (rp_affected_node_keys p). renewed w w' j) \<and>
     (\<forall>j. j \<notin> set (rp_affected_node_keys p) \<longrightarrow> untouched w w' j) \<and>
     spec_step (wi_snapshot w) (view w) (view w')"
proof -
  let ?s = "wi_snapshot w" and ?ks = "rp_affected_node_keys p"
  have simple: "simple_snapshot ?s" by (rule instance_inv_simple [OF inv])
  have wf: "wf_snapshot ?s" by (rule instance_inv_wf [OF inv])
  have run: "restart_nodes w p now = Inr w'"
    using ok by (auto simp: apply_restart_def rbind_Inr_iff split: if_splits)
  obtain feedback u v rs where affected: "(if rp_scope p = NODE
            then (case rp_node_key p of
                None \<Rightarrow> Inl (StaleRestartPreviewError ''node restart preview has no target'')
              | Some key \<Rightarrow> affected_restart_node_keys w key)
            else affected_instance_restart_node_keys w) = Inr ?ks"
    and u: "foldM (reset_node now (rp_node_key p) feedback) ?ks w = Inr u"
    and rs: "rs = (if rp_scope p = NODE
                  then (case rp_node_key p of None \<Rightarrow> [] | Some key \<Rightarrow> [key])
                  else map ns_key (filter (\<lambda>spec. ns_deps spec = []) (sn_nodes (wi_snapshot u))))"
    and v: "foldM (mark_ready now) rs u = Inr v"
    and w': "w' = v\<lparr>wi_status := I_RUNNING, wi_completed_at := None\<rparr>"
    using run unfolding restart_nodes_def Let_def rbind_Inr_iff ensure_Inr_iff by blast
  have result: ?thesis
    if core: "core_inv w" and fr: "frontier_ok ?s (node_statuses w)"
      and ks: "distinct ?ks" "set ?ks \<subseteq> set (snapshot_keys ?s)"
      and props: "rs' = (if rp_scope p = NODE then (case rp_node_key p of None \<Rightarrow> [] | Some key \<Rightarrow> [key])
          else map ns_key (filter (\<lambda>spec. ns_deps spec = []) (sn_nodes ?s)))"
        "distinct rs'" "set rs' \<subseteq> set ?ks" "rs' \<noteq> []"
        "\<forall>j k. k \<in> deps_of ?s j \<longrightarrow> k \<in> set ?ks \<longrightarrow> j \<in> set ?ks"
        "\<forall>k \<in> set rs'. deps_of ?s k \<inter> set ?ks = {} \<and> deps_done ?s (node_statuses w) k"
        "\<forall>k \<in> set ?ks - set rs'. deps_of ?s k \<inter> set ?ks \<noteq> {}"
        "\<forall>k. k \<notin> set ?ks \<longrightarrow> node_statuses w k \<notin> {Some N_FAILED, Some N_CANCELED}"
        "wi_status w \<in> {I_RUNNING, I_DONE, I_FAILED}"
    for rs'
  proof -
    obtain u' v' where r: "foldM (reset_node now (rp_node_key p) feedback) ?ks w = Inr u'"
       "wi_snapshot u' = ?s" "foldM (mark_ready now) rs' u' = Inr v'"
       "instance_inv (v'\<lparr>wi_status := I_RUNNING, wi_completed_at := None\<rparr>)"
       "evolves w (v'\<lparr>wi_status := I_RUNNING, wi_completed_at := None\<rparr>)"
       "wi_snapshot v' = ?s" "\<forall>j \<in> set ?ks. renewed w v' j" "\<forall>j. j \<notin> set ?ks \<longrightarrow> untouched w v' j"
       "node_statuses v' = (\<lambda>j. if j \<in> set rs' then Some N_READY else if j \<in> set ?ks then Some N_PENDING
          else node_statuses w j)"
      using restart_core [OF inv core fr ks props(2-8), where now = now and target = "rp_node_key p"
          and feedback = feedback] by blast
    have "u' = u" using u r(1) by simp
    then have "rs = rs'" using rs props(1) r(2) by simp
    then have vv: "v' = v" using v r(3) \<open>u' = u\<close> by simp
    have i': "instance_inv w'" "wi_status w' \<notin> {I_DRAFT, I_DISCARDED}" using r(4) w' vv by simp_all
    have fr': "frontier_ok ?s (node_statuses w')"
      using instance_inv_runtime(2) [OF i'] r(6) w' vv by simp
    have ns: "node_statuses w' = (\<lambda>j. if j \<in> set rs' then Some N_READY else if j \<in> set ?ks then Some N_PENDING
          else node_statuses w j)" using r(9) w' vv by simp
    have "spec_step ?s (wi_status w, node_statuses w) (I_RUNNING, node_statuses w')"
    proof (rule spec_reopenI [OF fr' _ ks(2) props(5)])
      show "set ?ks \<noteq> {}" using props(3,4) by auto
      show "\<forall>j \<in> set ?ks. node_statuses w' j \<in> {Some N_READY, Some N_PENDING}" by (simp add: ns)
      show "\<forall>j. j \<notin> set ?ks \<longrightarrow> node_statuses w' j = node_statuses w j" using props(3) by (auto simp: ns)
    qed (rule props(9))
    then have "spec_step ?s (view w) (view w')" by (simp add: view_def w')
    with r(4-8) w' vv show ?thesis by (simp add: renewed_def untouched_def)
  qed
  show ?thesis
  proof (cases "rp_scope p")
    case NODE
    with affected obtain key where key: "rp_node_key p = Some key" "affected_restart_node_keys w key = Inr ?ks"
      by (auto split: option.splits)
    have a: "key \<in> set (snapshot_keys ?s)" "wi_status w \<in> {I_RUNNING, I_DONE, I_FAILED}" "distinct ?ks"
      "set ?ks = insert key (downstream ?s key)"
      "deps_done ?s (node_statuses w) key" "\<forall>k. k \<notin> set ?ks \<longrightarrow> node_statuses w k \<noteq> Some N_FAILED"
      using affected_restart_spec [OF inv key(2)] by simp_all
    have st: "wi_status w \<notin> {I_DRAFT, I_DISCARDED}" using a(2) by auto
    note rt = instance_inv_runtime [OF inv st]
    have nc: "node_statuses w k \<noteq> Some N_CANCELED" for k
    proof
      assume c: "node_statuses w k = Some N_CANCELED"
      then obtain n where "node_at w k = Some n" "ni_status n = N_CANCELED" by (auto simp: node_statuses_Some)
      with status_set_mem [OF rt(1)] have "Some N_CANCELED \<in> status_set w" by fastforce
      with rt(3) a(2) show False by auto
    qed
    have sub: "set ?ks \<subseteq> set (snapshot_keys ?s)"
      using a(1,4) by (auto simp: downstream_def dep_rel_def elim: tranclE)
    have acyclic: "(key, key) \<notin> (dep_rel ?s)\<^sup>+" using wf by (simp add: wf_snapshot_def acyclic_def)
    show ?thesis
    proof (rule result [OF rt(1,2) a(3) sub, of "[key]"])
      show "[key] = (if rp_scope p = NODE then (case rp_node_key p of None \<Rightarrow> [] | Some key \<Rightarrow> [key])
          else map ns_key (filter (\<lambda>spec. ns_deps spec = []) (sn_nodes ?s)))" using NODE key(1) by simp
      show "\<forall>j k. k \<in> deps_of ?s j \<longrightarrow> k \<in> set ?ks \<longrightarrow> j \<in> set ?ks"
        unfolding dep_rel_in [OF simple] a(4) downstream_def
        by (auto intro: trancl_into_trancl)
      show "\<forall>k \<in> set [key]. deps_of ?s k \<inter> set ?ks = {} \<and> deps_done ?s (node_statuses w) k"
      proof -
        have "d \<notin> set ?ks" if "d \<in> deps_of ?s key" for d
          using that acyclic unfolding dep_rel_in [OF simple] a(4) downstream_def
          by (auto intro: trancl_into_trancl)
        with a(5) show ?thesis by auto
      qed
      show "\<forall>k \<in> set ?ks - set [key]. deps_of ?s k \<inter> set ?ks \<noteq> {}"
      proof
        fix k assume "k \<in> set ?ks - set [key]"
        then have "(key, k) \<in> (dep_rel ?s)\<^sup>+" using a(4) by (auto simp: downstream_def)
        then obtain d where "d = key \<or> (key, d) \<in> (dep_rel ?s)\<^sup>+" "(d, k) \<in> dep_rel ?s"
          by (cases rule: tranclE) blast+
        then have "d \<in> set ?ks" "d \<in> deps_of ?s k" using a(4) by (auto simp: downstream_def dep_rel_in [OF simple])
        then show "deps_of ?s k \<inter> set ?ks \<noteq> {}" by blast
      qed
      show "\<forall>k. k \<notin> set ?ks \<longrightarrow> node_statuses w k \<notin> {Some N_FAILED, Some N_CANCELED}"
        using a(6) nc by simp
      show "wi_status w \<in> {I_RUNNING, I_DONE, I_FAILED}" by (rule a(2))
    qed (use a(4) in simp_all)
  next
    case INSTANCE
    with affected have aff: "wi_status w \<in> set RESTARTABLE_INSTANCE_STATUSES" "topological_order ?s = Inr ?ks"
      by (auto simp: affected_instance_restart_node_keys_def rbind_Inr_iff ensure_Inr_iff)
    have st: "wi_status w \<notin> {I_DRAFT, I_DISCARDED}" using aff(1) by (auto simp: RESTARTABLE_INSTANCE_STATUSES_def)
    note rt = instance_inv_runtime [OF inv st]
    have ks: "distinct ?ks" "set ?ks = set (snapshot_keys ?s)" "topo_list ?s ?ks"
      using topological_order_sound [OF simple aff(2)] by (auto simp: topo_list_def)
    have ne: "?ks \<noteq> []" using ks(2) wf by (auto simp: wf_snapshot_def)
    let ?rs = "map ns_key (filter (\<lambda>spec. ns_deps spec = []) (sn_nodes ?s))"
    have roots: "set ?rs = {k \<in> set (snapshot_keys ?s). deps_of ?s k = {}}"
      using deps_of_spec [OF simple] by auto
    have dist: "distinct ?rs" using simple by (simp add: simple_snapshot_def distinct_map_filter)
    have sub: "deps_of ?s k \<subseteq> set ?ks" for k using deps_of_subset [OF simple] ks(2) by simp
    have first: "?ks ! 0 \<in> set ?rs"
    proof -
      have "0 < length ?ks" using ne by simp
      then have "deps_of ?s (?ks ! 0) \<subseteq> set (take 0 ?ks)" using ks(3) by (simp only: topo_list_def)
      moreover have "?ks ! 0 \<in> set (snapshot_keys ?s)" using \<open>0 < length ?ks\<close> ks(2) by (metis nth_mem)
      ultimately show ?thesis unfolding roots by simp
    qed
    show ?thesis
    proof (rule result [OF rt(1,2) ks(1) _, of ?rs])
      show "set ?ks \<subseteq> set (snapshot_keys ?s)" using ks(2) by simp
      show "?rs = (if rp_scope p = NODE then (case rp_node_key p of None \<Rightarrow> [] | Some key \<Rightarrow> [key])
          else map ns_key (filter (\<lambda>spec. ns_deps spec = []) (sn_nodes ?s)))" using INSTANCE by simp
      show "distinct ?rs" by (rule dist)
      show "set ?rs \<subseteq> set ?ks" unfolding roots ks(2) by blast
      show "?rs \<noteq> []" using first by force
      show "\<forall>j k. k \<in> deps_of ?s j \<longrightarrow> k \<in> set ?ks \<longrightarrow> j \<in> set ?ks"
      proof (intro allI impI)
        fix j k assume "k \<in> deps_of ?s j"
        then have "(k, j) \<in> dep_rel ?s" by (simp only: dep_rel_in [OF simple])
        then show "j \<in> set ?ks" unfolding ks(2) by (simp add: dep_rel_def)
      qed
      show "\<forall>k \<in> set ?rs. deps_of ?s k \<inter> set ?ks = {} \<and> deps_done ?s (node_statuses w) k"
        unfolding roots by (simp add: deps_done_def)
      show "\<forall>k \<in> set ?ks - set ?rs. deps_of ?s k \<inter> set ?ks \<noteq> {}"
        using sub unfolding roots ks(2) by blast
      show "\<forall>k. k \<notin> set ?ks \<longrightarrow> node_statuses w k \<notin> {Some N_FAILED, Some N_CANCELED}"
        using core_inv_missing [OF rt(1)] ks(2) by (simp add: node_statuses_def)
      show "wi_status w \<in> {I_RUNNING, I_DONE, I_FAILED}" using aff(1) by (simp add: RESTARTABLE_INSTANCE_STATUSES_def)
    qed
  qed
qed

end
