(* ===== verification/Recovery.thy ===== *)
theory Recovery
  imports Restart
begin

text \<open>
  \<open>src/larkflow/workflow/recovery.py\<close>: the owner of a failed automated node either retries it
  (a node restart with a preview made on the spot) or takes it over, which opens a fresh attempt
  that waits for a human.
\<close>

section \<open>Operations\<close>

datatype recovery_action = RETRY | HUMAN_TAKEOVER

fun recovery_action_value :: "recovery_action \<Rightarrow> string" where
  "recovery_action_value RETRY = ''retry''"
| "recovery_action_value HUMAN_TAKEOVER = ''human_takeover''"

definition recovery_action_name :: "recovery_action \<Rightarrow> string" where
  "recovery_action_name action = ''workflow_recovery_'' @ recovery_action_value action"

definition validate_recovery_target ::
    "workflow_instance \<Rightarrow> string \<Rightarrow> string \<Rightarrow> int \<Rightarrow> int \<Rightarrow> int \<Rightarrow> node_instance res" where
  "validate_recovery_target w key actor expected_instance_version expected_node_version expected_attempt_no =
     rbind (ensure (wi_version w = expected_instance_version)
        (StaleRecoveryError ''instance changed after the failure card was sent'')) (\<lambda>_.
     rbind (ensure (wi_status w = I_FAILED) (RecoveryNotAllowedError ''instance is not failed'')) (\<lambda>_.
     rbind (known_node w key (RecoveryNotAllowedError ''unknown recovery node'')) (\<lambda>(n, spec).
     rbind (ensure (ni_owner_person_id n = actor)
        (AuthorizationError ''only the failed node owner may recover it'')) (\<lambda>_.
     rbind (ensure (ni_version n = expected_node_version)
        (StaleRecoveryError ''node changed after the failure card was sent'')) (\<lambda>_.
     rbind (ensure (ni_current_attempt_no n = expected_attempt_no)
        (StaleRecoveryError ''node is now on another Attempt'')) (\<lambda>_.
     rbind (ensure (ns_executor spec \<noteq> HUMAN \<and> ni_executor n \<noteq> HUMAN)
        (RecoveryNotAllowedError ''human nodes do not use automated recovery'')) (\<lambda>_.
     rbind (current_attempt w key) (\<lambda>a.
     rbind (ensure (ni_status n = N_FAILED \<and> na_status a = A_FAILED)
        (RecoveryNotAllowedError ''node has no failed automated Attempt'')) (\<lambda>_.
     rbind (ensure (na_submitted_by_person_id a = None)
        (RecoveryNotAllowedError ''human-submitted Attempts cannot use this recovery'')) (\<lambda>_.
     Inr n))))))))))"

text \<open>\<open>except RestartNotAllowedError as exc: raise RecoveryNotAllowedError(str(exc))\<close>\<close>

definition as_recovery_error :: "'a res \<Rightarrow> 'a res" where
  "as_recovery_error r = (case r of
     Inl (RestartNotAllowedError m) \<Rightarrow> Inl (RecoveryNotAllowedError m) | _ \<Rightarrow> r)"

definition takeover_dependencies :: "workflow_instance \<Rightarrow> string list \<Rightarrow> pmap res" where
  "takeover_dependencies w deps =
     foldM (\<lambda>d m. rbind (current_attempt w d) (\<lambda>a. Inr (dput d (result_value a) m))) deps []"

definition human_takeover :: "workflow_instance \<Rightarrow> string \<Rightarrow> node_instance \<Rightarrow> time \<Rightarrow> workflow_instance res" where
  "human_takeover w key n now =
     rbind (snapshot_node (wi_snapshot w) key) (\<lambda>spec.
     let no = ni_current_attempt_no n + 1;
         n' = n\<lparr>ni_current_attempt_no := no, ni_version := ni_version n + 1, ni_status := N_WAITING_HUMAN,
               ni_ready_at := None, ni_started_at := Some now, ni_completed_at := None\<rparr>;
         u = put_node key n' w
     in rbind (takeover_dependencies u (ns_deps spec)) (\<lambda>dependencies.
        Inr ((put_attempt key no
           ((new_node_attempt (attempt_id_of (ni_id n) no) (ni_id n) no A_WAITING_HUMAN
              [(''instance_inputs'', PFrozen (sn_inputs (wi_snapshot w))),
               (''dependencies'', PDict dependencies),
               (''work'', PFrozen (ns_work spec))])\<lparr>na_started_at := Some now\<rparr>) u)
           \<lparr>wi_status := I_RUNNING, wi_completed_at := None\<rparr>)))"

definition apply_failed_node_recovery ::
    "workflow_instance \<Rightarrow> string \<Rightarrow> recovery_action \<Rightarrow> string \<Rightarrow> int \<Rightarrow> int \<Rightarrow> int \<Rightarrow> time
       \<Rightarrow> (workflow_instance \<times> string list) res" where
  "apply_failed_node_recovery w key action actor expected_instance_version expected_node_version
       expected_attempt_no now =
     rbind (validate_recovery_target w key actor expected_instance_version expected_node_version
        expected_attempt_no) (\<lambda>n.
     rbind (as_recovery_error (affected_restart_node_keys w key)) (\<lambda>affected.
     if action = RETRY then
       rbind (mk_restart_preview
          (''recovery:'' @ wi_id w @ '':'' @ key @ '':'' @ dec_int expected_attempt_no)
          (wi_tenant_id w) (wi_id w) actor (Some key) affected (wi_version w) (wi_graph_revision w)
          now now NODE) (\<lambda>preview.
       rbind (apply_restart w preview now) (\<lambda>w'. Inr (w', affected)))
     else rbind (human_takeover w key n now) (\<lambda>w'. Inr (w', [key]))))"

section \<open>Correctness\<close>

lemma validate_recovery_target_Inr:
  "validate_recovery_target w key actor iv nv no = Inr n \<Longrightarrow>
     wi_version w = iv \<and> wi_status w = I_FAILED \<and> node_at w key = Some n \<and>
     ni_owner_person_id n = actor \<and> ni_version n = nv \<and> ni_current_attempt_no n = no \<and>
     ni_executor n \<noteq> HUMAN \<and> ni_status n = N_FAILED \<and>
     (\<exists>a. attempt_at w key no = Some a \<and> na_status a = A_FAILED \<and> na_submitted_by_person_id a = None)"
  unfolding validate_recovery_target_def
  by (auto simp: rbind_Inr_iff ensure_Inr_iff known_node_Inr current_attempt_Inr)

lemma as_recovery_error_Inr [result_simps]: "as_recovery_error r = Inr x \<longleftrightarrow> r = Inr x"
  by (auto simp: as_recovery_error_def split: sum.splits exn.splits)

lemma mk_restart_preview_Inr:
  "mk_restart_preview pid tenant iid actor key affected version revision created expires scope = Inr p
   \<Longrightarrow> rp_affected_node_keys p = affected \<and> rp_id p = pid \<and> rp_tenant_id p = tenant \<and>
     rp_instance_id p = iid \<and> rp_actor_person_id p = actor \<and> rp_node_key p = key \<and>
     rp_expected_instance_version p = version \<and> rp_graph_revision p = revision \<and>
     rp_expires_at p = expires \<and> rp_scope p = scope \<and> rp_consumed_at p = None \<and>
     affected \<noteq> [] \<and> distinct affected"
  by (auto simp: mk_restart_preview_def check_restart_preview_def rbind_Inr_iff ensure_Inr_iff)

lemma takeover_inv:
  assumes inv: "instance_inv w" and failed: "wi_status w = I_FAILED"
    and n: "node_at w key = Some n" "ni_status n = N_FAILED"
    and aff: "affected_restart_node_keys w key = Inr ks" and ok: "human_takeover w key n now = Inr w'"
  shows "instance_inv w' \<and> evolves w w' \<and> wi_status w' = I_RUNNING \<and> wi_snapshot w' = wi_snapshot w \<and>
     renewed w w' key \<and> (\<forall>j. j \<noteq> key \<longrightarrow> untouched w w' j) \<and>
     spec_step (wi_snapshot w) (view w) (view w')"
proof -
  let ?s = "wi_snapshot w"
  note rt = instance_inv_runtime [OF inv, unfolded failed, simplified]
  have wf: "wf_snapshot ?s" by (rule instance_inv_wf [OF inv])
  obtain a where a: "attempt_at w key (ni_current_attempt_no n) = Some a"
    using core_inv_node(1) [OF rt(1) n(1)] by (auto simp: node_ok_def)
  have ag: "status_agrees (ni_status n) (na_status a)" "claim_ok a" using agrees_at [OF rt(1) n(1) a] by simp_all
  let ?no = "ni_current_attempt_no n + 1"
  define n' where "n' = n\<lparr>ni_current_attempt_no := ?no, ni_version := ni_version n + 1,
    ni_status := N_WAITING_HUMAN, ni_ready_at := None, ni_started_at := Some now, ni_completed_at := None\<rparr>"
  obtain b where w': "w' = (put_attempt key ?no b (put_node key n' w))\<lparr>wi_status := I_RUNNING, wi_completed_at := None\<rparr>"
    and b: "na_attempt_no b = ?no" "na_node_instance_id b = ni_id n" "na_id b = attempt_id_of (ni_id n) ?no"
      "claim_ok b" "na_status b = A_WAITING_HUMAN"
    using ok by (auto simp: human_takeover_def rbind_Inr_iff Let_def n'_def new_node_attempt_def claim_ok_def)
  let ?v = "put_attempt key ?no b (put_attempt key (ni_current_attempt_no n) a (put_node key n' w))"
  have "put_attempt key (ni_current_attempt_no n) a (put_node key n' w) = put_node key n' w"
    using a by (simp add: put_attempt_def put_node_def dput_same)
  then have w'v: "w' = ?v\<lparr>wi_status := I_RUNNING, wi_completed_at := None\<rparr>" using w' by simp
  have n'f: "same_node n n'" "ni_version n' = ni_version n + 1" "ni_status n' = N_WAITING_HUMAN"
    "ni_current_attempt_no n' = ?no" by (simp_all add: n'_def same_node_def)
  have fin: "attempt_finished a" using ag(1) n(2) by simp
  have core: "core_inv ?v"
    using n'f b ag(2) fin
    by (intro core_inv_next_attempt [OF rt(1) n(1) a]) (simp_all add: same_attempt_def)
  have ev: "evolves w ?v" using n'f by (intro evolves_next [OF rt(1) n(1) _ a]) simp_all
  have st: "node_statuses ?v = (node_statuses w)(key \<mapsto> N_WAITING_HUMAN)" by (simp add: dict_simps n'f)
  have key: "key \<in> set (snapshot_keys ?s)" by (rule core_inv_node(2) [OF rt(1) n(1)])
  have fk: "node_statuses w key = Some N_FAILED" using n by (simp add: node_statuses_def)
  have spec: "set ks = insert key (downstream ?s key)" "\<forall>k. k \<notin> set ks \<longrightarrow> node_statuses w k \<noteq> Some N_FAILED"
    using affected_restart_spec [OF inv aff] by simp_all
  have single: "j = key" if "node_statuses w j = Some N_FAILED" for j
  proof (rule ccontr)
    assume "j \<noteq> key"
    with that spec have "(key, j) \<in> (dep_rel ?s)\<^sup>+" by (auto simp: downstream_def)
    then have "node_statuses w key = Some N_DONE" by (rule frontier_ancestors [OF rt(2)]) (simp add: that)
    with fk show False by simp
  qed
  have "instance_inv w'"
  proof (rule instance_invI)
    show "validate_snapshot (wi_snapshot w') = Inr ()" using rt(4) by (simp add: w')
    show "core_inv w'" using core by (simp add: w'v)
    have "frontier_ok ?s ((node_statuses w)(key \<mapsto> N_WAITING_HUMAN))"
      using rt(2) fk by (intro frontier_point wf_no_self_dep [OF wf]) simp_all
    then show "frontier_ok (wi_snapshot w') (node_statuses w')" using st by (simp add: w'v)
    have no: "node_statuses w' j \<noteq> Some N_FAILED \<and> node_statuses w' j \<noteq> Some N_CANCELED"
      if "j \<in> set (snapshot_keys ?s)" for j
    proof -
      have "Some N_CANCELED \<notin> status_set w" using rt(3) by simp
      moreover have "node_statuses w j \<in> status_set w"
        unfolding status_set_def using that by (rule imageI)
      ultimately have "node_statuses w j \<noteq> Some N_CANCELED" by metis
      with st single [of j] show ?thesis by (auto simp: w'v)
    qed
    have "Some N_WAITING_HUMAN \<in> status_set w'"
      unfolding status_set_def using st key by (intro image_eqI [of _ _ key]) (simp_all add: w'v)
    moreover have "wi_snapshot w' = ?s" by (simp add: w')
    then have "Some N_FAILED \<notin> status_set w'" "Some N_CANCELED \<notin> status_set w'"
      unfolding status_set_def using no by (metis imageE)+
    ultimately show "phase_ok (wi_status w') (status_set w')" by (auto simp: w')
    show "wi_status w' \<notin> {I_DRAFT, I_DISCARDED}" by (simp add: w')
  qed
  moreover have "renewed w w' key"
    using n a n'f fin by (simp add: renewed_def w'v dict_simps)
  moreover have "\<forall>j. j \<noteq> key \<longrightarrow> untouched w w' j" by (simp add: untouched_def w' dict_simps)
  moreover have "spec_step ?s (view w) (view w')"
    using spec_step.takeover [of "node_statuses w" key ?s, OF fk] st by (simp add: view_def failed w'v)
  ultimately show ?thesis using ev by (simp add: w'v)
qed

text \<open>A recovery is accepted only for the current failed automated attempt of its owner, and
  brings the instance back to \<open>running\<close> with its history.\<close>

lemma apply_recovery_inv:
  assumes inv: "instance_inv w"
    and ok: "apply_failed_node_recovery w key action actor iv nv no now = Inr (w', affected)"
  shows "instance_inv w' \<and> evolves w w' \<and> wi_status w = I_FAILED \<and> wi_status w' = I_RUNNING \<and>
     wi_snapshot w' = wi_snapshot w \<and> key \<in> set affected \<and>
     (\<forall>j \<in> set affected. renewed w w' j) \<and> (\<forall>j. j \<notin> set affected \<longrightarrow> untouched w w' j) \<and>
     spec_step (wi_snapshot w) (view w) (view w')"
proof -
  obtain n ks where n: "validate_recovery_target w key actor iv nv no = Inr n"
    and ks: "affected_restart_node_keys w key = Inr ks"
    and rest: "(if action = RETRY then
       rbind (mk_restart_preview
          (''recovery:'' @ wi_id w @ '':'' @ key @ '':'' @ dec_int no)
          (wi_tenant_id w) (wi_id w) actor (Some key) ks (wi_version w) (wi_graph_revision w)
          now now NODE) (\<lambda>preview.
       rbind (apply_restart w preview now) (\<lambda>w'. Inr (w', ks)))
     else rbind (human_takeover w key n now) (\<lambda>w'. Inr (w', [key]))) = Inr (w', affected)"
    using ok unfolding apply_failed_node_recovery_def rbind_Inr_iff as_recovery_error_Inr by blast
  note v = validate_recovery_target_Inr [OF n]
  show ?thesis
  proof (cases action)
    case RETRY
    then obtain p where p: "rp_affected_node_keys p = ks" "apply_restart w p now = Inr w'" "affected = ks"
      using rest by (auto simp: rbind_Inr_iff dest!: mk_restart_preview_Inr)
    from apply_restart_inv [OF inv p(2)] p affected_restart_spec [OF inv ks] v show ?thesis by simp
  next
    case HUMAN_TAKEOVER
    then have "human_takeover w key n now = Inr w'" "affected = [key]"
      using rest by (auto simp: rbind_Inr_iff)
    with takeover_inv [OF inv _ _ _ ks] v show ?thesis by simp
  qed
qed

end
