(* ===== verification/Serde.thy ===== *)
theory Serde
  imports Graph_Theorems
begin

text \<open>
  \<open>src/larkflow/workflow/serde.py\<close> and \<open>src/larkflow/workflow/events.py\<close>: the JSON form of
  snapshots and quality results with its round trips, and the audit and outbox records.
\<close>

section \<open>JSON values\<close>

text \<open>\<open>to_json_value\<close>; enumeration members are already their values, and no \<open>datetime\<close> occurs
  inside a \<open>pval\<close>.\<close>

primrec to_json_value :: "pval \<Rightarrow> pval" where
  "to_json_value PNone = PNone"
| "to_json_value (PBool b) = PBool b"
| "to_json_value (PInt n) = PInt n"
| "to_json_value (PFloat t) = PFloat t"
| "to_json_value (PStr s) = PStr s"
| "to_json_value (PBytes s) = PBytes s"
| "to_json_value (PList xs) = PList (map to_json_value xs)"
| "to_json_value (PTuple xs) = PList (map to_json_value xs)"
| "to_json_value (PSet xs) = PList (map to_json_value xs)"
| "to_json_value (PDict m) = PDict (map (map_prod id to_json_value) m)"
| "to_json_value (PFrozen m) = PDict (map (map_prod id to_json_value) m)"

definition to_json_map :: "pmap \<Rightarrow> pmap" where
  "to_json_map m = map (map_prod id to_json_value) m"

section \<open>Snapshots\<close>

definition node_to_dict :: "node_spec \<Rightarrow> pval" where
  "node_to_dict n = PDict
     [(''key'', PStr (ns_key n)), (''title'', PStr (ns_title n)),
      (''owner_person_id'', PStr (ns_owner_person_id n)),
      (''executor'', PStr (executor_value (ns_executor n))),
      (''deps'', PList (map PStr (ns_deps n))), (''work'', PDict (to_json_map (ns_work n)))]"

definition snapshot_to_dict :: "instance_snapshot \<Rightarrow> pmap" where
  "snapshot_to_dict s =
     [(''schema_version'', PStr (sn_schema_version s)), (''goal'', PStr (sn_goal s)),
      (''template_version_id'', case sn_template_version_id s of None \<Rightarrow> PNone | Some t \<Rightarrow> PStr t),
      (''locked'', PBool (sn_locked s)), (''inputs'', PDict (to_json_map (sn_inputs s))),
      (''nodes'', PList (map node_to_dict (sn_nodes s)))]"

text \<open>\<open>d[key]\<close>, and the values that the dataclass fields admit: strings as dependencies and as
  template version id, a mapping as work and as inputs (an exception otherwise).\<close>

definition item :: "pval \<Rightarrow> string \<Rightarrow> pval res" where
  "item v key = (case as_map v of
     None \<Rightarrow> Inl (TypeError ''indices must be integers'')
   | Some m \<Rightarrow> get_or_raise (dget m key) (KeyError key))"

definition as_string_item :: "pval \<Rightarrow> string res" where
  "as_string_item v = get_or_raise (as_str v) (TypeError ''not a string'')"

text \<open>\<open>d.get(key) or {}\<close> given to the constructor of \<open>FrozenDict\<close>.\<close>

definition or_empty_map :: "pval \<Rightarrow> pmap res" where
  "or_empty_map v = (if truthy v then get_or_raise (as_map v) (AttributeError ''items'') else Inr [])"

definition node_from_dict :: "pval \<Rightarrow> node_spec res" where
  "node_from_dict v =
     rbind (item v ''key'') (\<lambda>key.
     rbind (item v ''title'') (\<lambda>title.
     rbind (item v ''owner_person_id'') (\<lambda>owner.
     rbind (item v ''executor'') (\<lambda>executor.
     let m = (case as_map v of None \<Rightarrow> [] | Some m \<Rightarrow> m) in
     rbind (if truthy (getv m ''deps'')
            then rbind (iter_items (getv m ''deps'')) (mapM as_string_item) else Inr []) (\<lambda>deps.
     rbind (to_executor (PStr (py_str executor))) (\<lambda>executor.
     rbind (or_empty_map (getv m ''work'')) (\<lambda>work.
     Inr (mk_node_spec (py_str key) (py_str title) (py_str owner) executor deps work))))))))"

definition snapshot_from_dict :: "pmap \<Rightarrow> instance_snapshot res" where
  "snapshot_from_dict data =
     rbind (get_or_raise (dget data ''schema_version'') (KeyError ''schema_version'')) (\<lambda>schema.
     rbind (case getv data ''template_version_id'' of
        PNone \<Rightarrow> Inr None | v \<Rightarrow> rbind (as_string_item v) (\<lambda>t. Inr (Some t))) (\<lambda>template.
     rbind (get_or_raise (dget data ''nodes'') (KeyError ''nodes'')) (\<lambda>nodes.
     rbind (iter_items nodes) (\<lambda>items.
     rbind (mapM node_from_dict items) (\<lambda>nodes.
     rbind (or_empty_map (getv data ''inputs'')) (\<lambda>inputs.
     Inr (mk_snapshot nodes (py_str (get_or data ''goal'' (PStr []))) template
        (truthy (get_or data ''locked'' (PBool False))) inputs (py_str schema))))))))"

section \<open>Quality results\<close>

definition quality_to_dict :: "quality_result option \<Rightarrow> pmap option" where
  "quality_to_dict q = map_option (\<lambda>q.
     [(''verdict'', PStr (verdict_value (qr_verdict q))), (''evidence'', PStr (qr_evidence q)),
      (''suggestion'', PStr (qr_suggestion q))]) q"

definition quality_from_dict :: "pmap option \<Rightarrow> quality_result option res" where
  "quality_from_dict data =
     (case data of
        None \<Rightarrow> Inr None
      | Some m \<Rightarrow>
          rbind (get_or_raise (dget m ''verdict'') (KeyError ''verdict'')) (\<lambda>v.
          rbind (to_verdict (py_str v)) (\<lambda>verdict.
          rbind (mk_quality_result verdict (py_str (get_or m ''evidence'' (PStr [])))
             (py_str (get_or m ''suggestion'' (PStr [])))) (\<lambda>q. Inr (Some q)))))"

section \<open>Events\<close>

datatype outbox_status = Q_PENDING | Q_PROCESSING | Q_PUBLISHED | Q_FAILED | Q_EXHAUSTED

record audit_event =
  ae_id :: string
  ae_tenant_id :: string
  ae_instance_id :: string
  ae_event_type :: string
  ae_source :: string
  ae_correlation_id :: string
  ae_aggregate_version :: int
  ae_occurred_at :: time
  ae_actor_person_id :: "string option"
  ae_node_key :: "string option"
  ae_attempt_no :: "int option"
  ae_payload :: pmap

record outbox_event =
  oe_id :: string
  oe_tenant_id :: string
  oe_aggregate_type :: string
  oe_aggregate_id :: string
  oe_aggregate_version :: int
  oe_event_type :: string
  oe_payload :: pmap
  oe_created_at :: time
  oe_available_at :: time

type_synonym dedupe = "string \<times> string \<times> string \<times> int"

definition dedupe_key :: "outbox_event \<Rightarrow> dedupe" where
  "dedupe_key e = (oe_event_type e, oe_aggregate_type e, oe_aggregate_id e, oe_aggregate_version e)"

record outbox_claim =
  oc_event :: outbox_event
  oc_claim_token :: string
  oc_claimed_by :: string
  oc_claim_expires_at :: time
  oc_attempt_count :: int

record outbox_record =
  or_event :: outbox_event
  or_status :: outbox_status
  or_attempt_count :: int
  or_claimed_by :: "string option"
  or_claim_token :: "string option"
  or_claim_expires_at :: "time option"
  or_published_at :: "time option"
  or_exhausted_at :: "time option"
  or_last_error :: "string option"

definition new_outbox_record :: "outbox_event \<Rightarrow> outbox_record" where
  "new_outbox_record e =
     \<lparr>or_event = e, or_status = Q_PENDING, or_attempt_count = 0, or_claimed_by = None,
      or_claim_token = None, or_claim_expires_at = None, or_published_at = None,
      or_exhausted_at = None, or_last_error = None\<rparr>"

section \<open>Round trips\<close>

text \<open>A frozen value that JSON can represent.\<close>

fun json_clean :: "pval \<Rightarrow> bool" where
  "json_clean (PTuple xs) = (\<forall>x \<in> set xs. json_clean x)"
| "json_clean (PFrozen m) = (\<forall>(k, v) \<in> set m. json_clean v)"
| "json_clean (PList xs) = False"
| "json_clean (PSet xs) = False"
| "json_clean (PDict m) = False"
| "json_clean (PBytes s) = False"
| "json_clean _ = True"

definition json_clean_map :: "pmap \<Rightarrow> bool" where
  "json_clean_map m = list_all (\<lambda>(k, v). json_clean v) m"

lemma freeze_to_json: "json_clean v \<Longrightarrow> freeze (to_json_value v) = v"
proof (induction v rule: json_clean.induct)
  case (2 m)
  then have "map (map_prod id (freeze \<circ> to_json_value)) m = m" by (intro map_idI) fastforce
  then show ?case by (simp add: prod.map_comp o_def map_prod_def comp_def id_def case_prod_unfold)
qed (auto simp: map_idI)

lemma freeze_to_json_map: "json_clean_map m \<Longrightarrow> freeze_map (to_json_map m) = m"
  using freeze_to_json [of "PFrozen m"]
  by (simp add: json_clean_map_def list_all_iff freeze_map_def to_json_map_def)

lemma or_empty_map_dict: "or_empty_map (PDict m) = Inr m"
  by (simp add: or_empty_map_def)

lemma mapM_PStr: "mapM as_string_item (map PStr xs) = Inr xs"
  by (induction xs) (simp_all add: as_string_item_def)

lemma node_round_trip: "json_clean_map (ns_work n) \<Longrightarrow> node_from_dict (node_to_dict n) = Inr n"
  by (cases n) (simp add: node_from_dict_def node_to_dict_def item_def get_or_def or_empty_map_dict
      mapM_PStr mk_node_spec_def freeze_to_json_map)

lemma nodes_round_trip:
  "list_all (\<lambda>n. json_clean_map (ns_work n)) ns \<Longrightarrow> mapM node_from_dict (map node_to_dict ns) = Inr ns"
  by (induction ns) (simp_all add: node_round_trip)

lemma snapshot_round_trip:
  assumes "json_clean_map (sn_inputs s)" and "list_all (\<lambda>n. json_clean_map (ns_work n)) (sn_nodes s)"
  shows "snapshot_from_dict (snapshot_to_dict s) = Inr s"
proof -
  have "(case (case t of None \<Rightarrow> PNone | Some t \<Rightarrow> PStr t) of
      PNone \<Rightarrow> Inr None | v \<Rightarrow> rbind (as_string_item v) (\<lambda>t. Inr (Some t))) = (Inr t :: string option res)" for t
    by (cases t) (simp_all add: as_string_item_def)
  then show ?thesis
    using assms by (cases s) (simp add: snapshot_from_dict_def snapshot_to_dict_def get_or_def
        or_empty_map_dict nodes_round_trip mk_snapshot_def freeze_to_json_map)
qed

lemma quality_round_trip:
  assumes "\<And>q. quality = Some q \<Longrightarrow> qr_verdict q = Q_FAIL \<Longrightarrow> \<not> blank (qr_evidence q)"
  shows "quality_from_dict (quality_to_dict quality) = Inr quality"
proof (cases quality)
  case (Some q)
  with assms have "\<not> (qr_verdict q = Q_FAIL \<and> blank (qr_evidence q))" by blast
  with Some show ?thesis
    by (cases q) (simp add: quality_from_dict_def quality_to_dict_def mk_quality_result_def get_or_def)
qed (simp add: quality_from_dict_def quality_to_dict_def)

end
