(* ===== verification/Editing.thy ===== *)
theory Editing
  imports Recovery Serde Sha256
begin

text \<open>
  \<open>src/larkflow/workflow/editing.py\<close>: the grammar of graph edit operations, their application
  to a draft or to the pristine future nodes of a running instance, and the digest that ties a
  confirmation to its preview.
\<close>

section \<open>Plans and previews\<close>

record graph_edit_plan =
  gp_operations :: "pmap list"
  gp_added_node_keys :: "string list"
  gp_updated_node_keys :: "string list"
  gp_removed_node_keys :: "string list"
  gp_candidate_snapshot_hash :: string
  gp_proposed_graph_revision :: int

record graph_edit_preview =
  ge_id :: string
  ge_tenant_id :: string
  ge_instance_id :: string
  ge_actor_person_id :: string
  ge_operations :: "pmap list"
  ge_added_node_keys :: "string list"
  ge_updated_node_keys :: "string list"
  ge_removed_node_keys :: "string list"
  ge_candidate_snapshot_hash :: string
  ge_expected_instance_version :: int
  ge_graph_revision :: int
  ge_proposed_graph_revision :: int
  ge_created_at :: time
  ge_expires_at :: time
  ge_consumed_at :: "time option"
  ge_applied_instance_version :: "int option"

text \<open>\<open>GraphEditPreview.__post_init__\<close>\<close>

definition check_graph_edit_preview :: "graph_edit_preview \<Rightarrow> graph_edit_preview res" where
  "check_graph_edit_preview p =
     rbind (ensure (ge_operations p \<noteq> []) (ValueError ''graph edit preview requires operations'')) (\<lambda>_.
     rbind (ensure (ge_proposed_graph_revision p = ge_graph_revision p + 1)
        (ValueError ''graph edit preview revision must advance by one'')) (\<lambda>_.
     rbind (ensure (length (ge_candidate_snapshot_hash p) = 64)
        (ValueError ''graph edit preview requires a SHA-256 snapshot hash'')) (\<lambda>_.
     Inr (p\<lparr>ge_operations := map freeze_map (ge_operations p)\<rparr>))))"

definition MAX_GRAPH_EDIT_OPERATIONS :: nat where "MAX_GRAPH_EDIT_OPERATIONS = 50"
definition MAX_GRAPH_NODES :: nat where "MAX_GRAPH_NODES = 100"

section \<open>The operation grammar\<close>

definition required_text :: "pval \<Rightarrow> string res" where
  "required_text v = (case as_str v of
     None \<Rightarrow> Inl (GraphEditNotAllowedError ''text is required'')
   | Some s \<Rightarrow> if blank s then Inl (GraphEditNotAllowedError ''text is required'') else Inr (py_strip s))"

definition string_tuple :: "pval \<Rightarrow> string list res" where
  "string_tuple v = (case as_seq v of
     None \<Rightarrow> Inl (GraphEditNotAllowedError ''must be an array'')
   | Some items \<Rightarrow> mapM required_text items)"

definition require_exact_keys :: "pmap \<Rightarrow> string list \<Rightarrow> unit res" where
  "require_exact_keys m expected =
     ensure (set (dkeys m) = set expected) (GraphEditNotAllowedError ''invalid graph edit fields'')"

definition edit_executor :: "pval \<Rightarrow> executor_kind res" where
  "edit_executor v = (case to_executor v of
     Inl _ \<Rightarrow> Inl (GraphEditNotAllowedError ''executor is invalid'') | Inr k \<Rightarrow> Inr k)"

definition edit_mapping :: "pval \<Rightarrow> exn \<Rightarrow> pmap res" where
  "edit_mapping v e = get_or_raise (as_map v) e"

definition node_spec_from_payload :: "pval \<Rightarrow> node_spec res" where
  "node_spec_from_payload value =
     rbind (edit_mapping value (GraphEditNotAllowedError ''add_node node must be an object'')) (\<lambda>m.
     rbind (require_exact_keys m
        [''key'', ''title'', ''owner_person_id'', ''executor'', ''deps'', ''work'']) (\<lambda>_.
     rbind (edit_executor (getv m ''executor'')) (\<lambda>executor.
     rbind (edit_mapping (getv m ''work'') (GraphEditNotAllowedError ''work must be an object'')) (\<lambda>work.
     rbind (required_text (getv m ''key'')) (\<lambda>key.
     rbind (required_text (getv m ''title'')) (\<lambda>title.
     rbind (required_text (getv m ''owner_person_id'')) (\<lambda>owner.
     rbind (string_tuple (getv m ''deps'')) (\<lambda>deps.
     Inr (mk_node_spec key title owner executor deps work)))))))))"

definition node_spec_to_dict :: "node_spec \<Rightarrow> pmap" where
  "node_spec_to_dict n = freeze_map
     [(''key'', PStr (ns_key n)), (''title'', PStr (ns_title n)),
      (''owner_person_id'', PStr (ns_owner_person_id n)),
      (''executor'', PStr (executor_value (ns_executor n))),
      (''deps'', PTuple (map PStr (ns_deps n))), (''work'', to_json_value (PFrozen (ns_work n)))]"

definition EDIT_FIELDS :: "string list" where
  "EDIT_FIELDS = [''title'', ''owner_person_id'', ''executor'', ''deps'', ''work'']"

text \<open>One optional field of \<open>_normalize_changes\<close>.\<close>

definition change_field :: "pmap \<Rightarrow> string \<Rightarrow> (pval \<Rightarrow> pval res) \<Rightarrow> pmap \<Rightarrow> pmap res" where
  "change_field value name f acc = (case dget value name of
     None \<Rightarrow> Inr acc | Some v \<Rightarrow> rbind (f v) (\<lambda>v. Inr (dput name v acc)))"

definition normalize_changes :: "pval \<Rightarrow> pmap res" where
  "normalize_changes v =
     (case as_map v of
        None \<Rightarrow> Inl (GraphEditNotAllowedError ''update_node set must be a non-empty object'')
      | Some value \<Rightarrow>
          rbind (ensure (value \<noteq> []) (GraphEditNotAllowedError ''update_node set must be a non-empty object'')) (\<lambda>_.
          rbind (ensure (set (dkeys value) \<subseteq> set EDIT_FIELDS)
             (GraphEditNotAllowedError ''unsupported update fields'')) (\<lambda>_.
          rbind (change_field value ''title'' (\<lambda>v. rbind (required_text v) (\<lambda>s. Inr (PStr s))) []) (\<lambda>acc.
          rbind (change_field value ''owner_person_id'' (\<lambda>v. rbind (required_text v) (\<lambda>s. Inr (PStr s))) acc) (\<lambda>acc.
          rbind (change_field value ''executor''
             (\<lambda>v. rbind (edit_executor v) (\<lambda>k. Inr (PStr (executor_value k)))) acc) (\<lambda>acc.
          rbind (change_field value ''deps''
             (\<lambda>v. rbind (string_tuple v) (\<lambda>ds. Inr (PTuple (map PStr ds)))) acc) (\<lambda>acc.
          rbind (change_field value ''work''
             (\<lambda>v. rbind (edit_mapping v (GraphEditNotAllowedError ''work must be an object''))
                (\<lambda>m. Inr (PFrozen (freeze_map m)))) acc) (\<lambda>acc.
          Inr (freeze_map acc)))))))))"

definition ADD_NODE :: string where "ADD_NODE = ''add_node''"
definition UPDATE_NODE :: string where "UPDATE_NODE = ''update_node''"
definition REMOVE_NODE :: string where "REMOVE_NODE = ''remove_node''"

text \<open>One raw operation: its key and its frozen normal form.\<close>

definition normalize_operation :: "pval \<Rightarrow> (string \<times> pmap) res" where
  "normalize_operation raw =
     rbind (edit_mapping raw (GraphEditNotAllowedError ''graph edit operation must be an object'')) (\<lambda>m.
     let op = getv m ''op'' in
     if op = PStr ADD_NODE then
       rbind (require_exact_keys m [''op'', ''node'']) (\<lambda>_.
       rbind (node_spec_from_payload (getv m ''node'')) (\<lambda>node.
       Inr (ns_key node, [(''op'', PStr ADD_NODE), (''node'', PFrozen (node_spec_to_dict node))])))
     else if op = PStr UPDATE_NODE then
       rbind (require_exact_keys m [''op'', ''node_key'', ''set'']) (\<lambda>_.
       rbind (required_text (getv m ''node_key'')) (\<lambda>key.
       rbind (normalize_changes (getv m ''set'')) (\<lambda>changes.
       Inr (key, [(''op'', PStr UPDATE_NODE), (''node_key'', PStr key), (''set'', PFrozen changes)]))))
     else if op = PStr REMOVE_NODE then
       rbind (require_exact_keys m [''op'', ''node_key'']) (\<lambda>_.
       rbind (required_text (getv m ''node_key'')) (\<lambda>key.
       Inr (key, [(''op'', PStr REMOVE_NODE), (''node_key'', PStr key)])))
     else Inl (GraphEditNotAllowedError ''unsupported graph edit operation''))"

definition normalize_step :: "pval \<Rightarrow> string list \<times> pmap list \<Rightarrow> (string list \<times> pmap list) res" where
  "normalize_step raw = (\<lambda>(touched, normalized).
     rbind (normalize_operation raw) (\<lambda>(key, operation).
     rbind (ensure (key \<notin> set touched)
        (GraphEditNotAllowedError ''graph edit touches a node more than once'')) (\<lambda>_.
     Inr (touched @ [key], normalized @ [freeze_map operation]))))"

definition normalize_graph_edit_operations :: "pval \<Rightarrow> pmap list res" where
  "normalize_graph_edit_operations operations =
     (case as_seq operations of
        None \<Rightarrow> Inl (GraphEditNotAllowedError ''graph edit operations must be an array'')
      | Some ops \<Rightarrow>
          rbind (ensure (ops \<noteq> []) (GraphEditNotAllowedError ''graph edit requires at least one operation'')) (\<lambda>_.
          rbind (ensure (length ops \<le> MAX_GRAPH_EDIT_OPERATIONS)
             (GraphEditNotAllowedError ''graph edit exceeds the maximum of operations'')) (\<lambda>_.
          rbind (foldM normalize_step ops ([], [])) (\<lambda>(touched, normalized). Inr normalized))))"

section \<open>The candidate graph\<close>

record edit_state =
  es_specs :: "node_spec list"
  es_by_key :: "(string, node_spec) odict"
  es_added :: "string list"
  es_updated :: "string list"
  es_removed :: "string list"

definition require_pristine_future_node :: "workflow_instance \<Rightarrow> string \<Rightarrow> unit res" where
  "require_pristine_future_node w key =
     rbind (get_node w key) (\<lambda>n.
     rbind (current_attempt w key) (\<lambda>a.
     rbind (ensure (ni_status n \<in> {N_PENDING, N_READY})
        (GraphEditNotAllowedError ''node has crossed the edit frontier'')) (\<lambda>_.
     ensure (na_status a = A_PENDING \<and> na_result a = None \<and> na_quality_result a = None \<and>
         na_claim_token a = None \<and> na_claimed_by a = None \<and> na_claim_expires_at a = None \<and>
         na_started_at a = None \<and> na_completed_at a = None \<and> na_submitted_by_person_id a = None \<and>
         na_error_code a = None \<and> na_error_message a = None)
       (GraphEditNotAllowedError ''node has execution history''))))"

text \<open>\<open>dataclasses.replace(current, **changes)\<close> with normalized changes.\<close>

definition replace_spec :: "node_spec \<Rightarrow> pmap \<Rightarrow> node_spec res" where
  "replace_spec current changes =
     rbind (as_string_item (get_or changes ''title'' (PStr (ns_title current)))) (\<lambda>title.
     rbind (as_string_item (get_or changes ''owner_person_id'' (PStr (ns_owner_person_id current)))) (\<lambda>owner.
     rbind (to_executor (get_or changes ''executor'' (PStr (executor_value (ns_executor current))))) (\<lambda>executor.
     rbind (iter_items (get_or changes ''deps'' (PTuple (map PStr (ns_deps current))))) (\<lambda>items.
     rbind (mapM as_string_item items) (\<lambda>deps.
     rbind (get_or_raise (as_map (get_or changes ''work'' (PFrozen (ns_work current))))
        (AttributeError ''items'')) (\<lambda>work.
     Inr (mk_node_spec (ns_key current) title owner executor deps work)))))))"

definition spec_eq :: "node_spec \<Rightarrow> node_spec \<Rightarrow> bool" where
  "spec_eq a b \<longleftrightarrow> ns_key a = ns_key b \<and> ns_title a = ns_title b \<and>
     ns_owner_person_id a = ns_owner_person_id b \<and> ns_executor a = ns_executor b \<and>
     ns_deps a = ns_deps b \<and> map_eq (ns_work a) (ns_work b)"

text \<open>The end of one pass of the loop, for the removal or the update of a known node.\<close>

definition edit_known :: "pmap \<Rightarrow> string \<Rightarrow> node_spec \<Rightarrow> edit_state \<Rightarrow> edit_state res" where
  "edit_known operation key current st =
     (if py_str (getv operation ''op'') = REMOVE_NODE then
        Inr (st\<lparr>es_specs := filter (\<lambda>spec. ns_key spec \<noteq> key) (es_specs st),
                es_by_key := dpop key (es_by_key st), es_removed := es_removed st @ [key]\<rparr>)
      else
        rbind (edit_mapping (getv operation ''set'') (AttributeError ''items'')) (\<lambda>changes.
        rbind (replace_spec current changes) (\<lambda>replacement.
        rbind (ensure (\<not> spec_eq replacement current)
           (GraphEditNotAllowedError ''graph edit does not change node'')) (\<lambda>_.
        Inr (st\<lparr>es_specs := map (\<lambda>spec. if ns_key spec = key then replacement else spec) (es_specs st),
                es_by_key := dput key replacement (es_by_key st),
                es_updated := es_updated st @ [key]\<rparr>)))))"

definition edit_step :: "workflow_instance \<Rightarrow> pmap \<Rightarrow> edit_state \<Rightarrow> edit_state res" where
  "edit_step w operation st =
     (if py_str (getv operation ''op'') = ADD_NODE then
        rbind (node_spec_from_payload (getv operation ''node'')) (\<lambda>node.
        rbind (ensure (dget (es_by_key st) (ns_key node) = None)
           (GraphEditNotAllowedError ''node already exists'')) (\<lambda>_.
        Inr (st\<lparr>es_specs := es_specs st @ [node], es_by_key := dput (ns_key node) node (es_by_key st),
                es_added := es_added st @ [ns_key node]\<rparr>)))
      else
        let key = py_str (getv operation ''node_key'') in
        rbind (get_or_raise (dget (es_by_key st) key) (GraphEditNotAllowedError ''unknown graph edit node'')) (\<lambda>current.
        rbind (if wi_status w = I_DRAFT then Inr () else require_pristine_future_node w key) (\<lambda>_.
        edit_known operation key current st)))"

section \<open>Applying an edit\<close>

definition future_status :: "workflow_instance \<Rightarrow> node_spec \<Rightarrow> node_status" where
  "future_status w spec =
     (if list_all (\<lambda>d. case dget (wi_nodes w) d of None \<Rightarrow> False | Some n \<Rightarrow> ni_status n = N_DONE) (ns_deps spec)
      then N_READY else N_PENDING)"

definition remove_runtime :: "string \<Rightarrow> workflow_instance \<Rightarrow> workflow_instance res" where
  "remove_runtime key w =
     rbind (get_node w key) (\<lambda>_.
     Inr (w\<lparr>wi_nodes := dpop key (wi_nodes w),
            wi_attempts := filter (\<lambda>((k, _), _). k \<noteq> key) (wi_attempts w)\<rparr>))"

definition update_runtime :: "instance_snapshot \<Rightarrow> time \<Rightarrow> string \<Rightarrow> workflow_instance \<Rightarrow> workflow_instance res" where
  "update_runtime candidate now key w =
     rbind (snapshot_node candidate key) (\<lambda>spec.
     rbind (get_node w key) (\<lambda>n.
     rbind (current_attempt w key) (\<lambda>a.
     let status = future_status w spec;
         n' = n\<lparr>ni_owner_person_id := ns_owner_person_id spec, ni_executor := ns_executor spec,
               ni_version := ni_version n + 1, ni_status := status,
               ni_ready_at := (if status = N_READY then Some now else None)\<rparr>;
         a' = a\<lparr>na_status := A_PENDING, na_input_snapshot := freeze_map (pending_input spec)\<rparr>
     in Inr (put_attempt key (ni_current_attempt_no n) a' (put_node key n' w)))))"

definition add_runtime :: "instance_snapshot \<Rightarrow> time \<Rightarrow> string \<Rightarrow> workflow_instance \<Rightarrow> workflow_instance res" where
  "add_runtime candidate now key w =
     rbind (snapshot_node candidate key) (\<lambda>spec.
     let nid = node_id_of (wi_id w) key; status = future_status w spec
     in Inr (put_attempt key 1 (new_node_attempt (attempt_id_of nid 1) nid 1 A_PENDING (pending_input spec))
          (put_node key (new_node_instance nid (wi_id w) key (ns_owner_person_id spec) (ns_executor spec)
             status (if status = N_READY then Some now else None)) w)))"

definition snapshot_hash :: "instance_snapshot \<Rightarrow> string res" where
  "snapshot_hash s = (case json_text True (PDict (snapshot_to_dict s)) of
     None \<Rightarrow> Inl (TypeError ''object is not JSON serializable'')
   | Some text \<Rightarrow> Inr (sha256_hex (utf8_encode text)))"

definition as_edit_error :: "'a res \<Rightarrow> 'a res" where
  "as_edit_error r = (case r of
     Inl (GraphValidationError m) \<Rightarrow> Inl (GraphEditNotAllowedError m) | _ \<Rightarrow> r)"

definition candidate_snapshot :: "instance_snapshot \<Rightarrow> node_spec list \<Rightarrow> instance_snapshot" where
  "candidate_snapshot s specs = mk_snapshot specs (sn_goal s) (sn_template_version_id s) (sn_locked s)
     (sn_inputs s) (sn_schema_version s)"

text \<open>The runtime records of a running instance, and the fields set at the end of an edit.\<close>

definition edit_records ::
    "instance_snapshot \<Rightarrow> edit_state \<Rightarrow> time \<Rightarrow> workflow_instance \<Rightarrow> workflow_instance res" where
  "edit_records candidate st now w =
     rbind (foldM remove_runtime (es_removed st) w) (\<lambda>w.
     rbind (foldM (update_runtime candidate now) (es_updated st) w) (\<lambda>w.
     foldM (add_runtime candidate now) (es_added st) w))"

definition close_edit :: "bool \<Rightarrow> instance_snapshot \<Rightarrow> time \<Rightarrow> workflow_instance \<Rightarrow> workflow_instance" where
  "close_edit draft candidate now w =
     (let w = w\<lparr>wi_snapshot := candidate, wi_graph_revision := wi_graph_revision w + 1\<rparr>
      in if \<not> draft \<and> all_nodes_done w then w\<lparr>wi_status := I_DONE, wi_completed_at := Some now\<rparr> else w)"

text \<open>The checks and the candidate of an edit, before any record changes.\<close>

definition edit_candidate :: "workflow_instance \<Rightarrow> pval \<Rightarrow> (pmap list \<times> edit_state) res" where
  "edit_candidate w operations =
     rbind (ensure (wi_status w \<in> {I_DRAFT, I_RUNNING})
        (GraphEditNotAllowedError ''only draft or running instances can be edited'')) (\<lambda>_.
     rbind (ensure (\<not> sn_locked (wi_snapshot w))
        (GraphEditNotAllowedError ''locked instance snapshots cannot be edited'')) (\<lambda>_.
     rbind (ensure (\<not> (wi_status w = I_DRAFT \<and> (wi_nodes w \<noteq> [] \<or> wi_attempts w \<noteq> [])))
        (GraphEditNotAllowedError ''draft instance has unexpected runtime state'')) (\<lambda>_.
     rbind (normalize_graph_edit_operations operations) (\<lambda>normalized.
     rbind (foldM (edit_step w) normalized
        \<lparr>es_specs = sn_nodes (wi_snapshot w),
         es_by_key = foldl (\<lambda>m n. dput (ns_key n) n m) [] (sn_nodes (wi_snapshot w)),
         es_added = [], es_updated = [], es_removed = []\<rparr>) (\<lambda>st.
     rbind (ensure (length (es_specs st) \<le> MAX_GRAPH_NODES)
        (GraphEditNotAllowedError ''graph exceeds the maximum of nodes'')) (\<lambda>_.
     Inr (normalized, st)))))))"

definition apply_future_graph_edit ::
    "workflow_instance \<Rightarrow> pval \<Rightarrow> time \<Rightarrow> (workflow_instance \<times> graph_edit_plan) res" where
  "apply_future_graph_edit w operations now =
     rbind (edit_candidate w operations) (\<lambda>(normalized, st).
     let draft = (wi_status w = I_DRAFT);
         candidate = candidate_snapshot (wi_snapshot w) (es_specs st) in
     rbind (as_edit_error (validate_snapshot candidate)) (\<lambda>_.
     rbind (if draft then Inr w else edit_records candidate st now w) (\<lambda>u.
     rbind (snapshot_hash candidate) (\<lambda>h.
     let w' = close_edit draft candidate now u
     in Inr (w', \<lparr>gp_operations = map freeze_map normalized, gp_added_node_keys = es_added st,
                  gp_updated_node_keys = es_updated st, gp_removed_node_keys = es_removed st,
                  gp_candidate_snapshot_hash = h, gp_proposed_graph_revision = wi_graph_revision w'\<rparr>)))))"

section \<open>The operations of one edit touch different nodes\<close>

text \<open>The node an operation in normal form is about.\<close>

definition op_key :: "pmap \<Rightarrow> string" where
  "op_key op = (if py_str (getv op ''op'') = ADD_NODE
     then (case as_map (getv op ''node'') of None \<Rightarrow> [] | Some m \<Rightarrow> py_strip (py_str (getv m ''key'')))
     else py_str (getv op ''node_key''))"

lemma required_text_Inr: "required_text v = Inr s \<longleftrightarrow> (\<exists>t. v = PStr t \<and> \<not> blank t \<and> s = py_strip t)"
  by (cases v) (auto simp: required_text_def)

lemma payload_key:
  assumes "node_spec_from_payload v = Inr n"
  shows "\<exists>m. as_map v = Some m \<and> ns_key n = py_strip (py_str (getv m ''key''))"
proof -
  obtain m key where "as_map v = Some m" "required_text (getv m ''key'') = Inr key" "ns_key n = key"
    using assms unfolding node_spec_from_payload_def edit_mapping_def
    by (auto simp: rbind_Inr_iff get_or_raise_Inr_iff mk_node_spec_def)
  then show ?thesis by (auto simp: required_text_Inr)
qed

lemma payload_stripped: "node_spec_from_payload v = Inr n \<Longrightarrow> py_strip (ns_key n) = ns_key n"
  using payload_key by fastforce

lemma op_names [simp]: "ADD_NODE \<noteq> UPDATE_NODE" "ADD_NODE \<noteq> REMOVE_NODE" "UPDATE_NODE \<noteq> REMOVE_NODE"
  "UPDATE_NODE \<noteq> ADD_NODE" "REMOVE_NODE \<noteq> ADD_NODE" "REMOVE_NODE \<noteq> UPDATE_NODE"
  by (simp_all add: ADD_NODE_def UPDATE_NODE_def REMOVE_NODE_def)

lemma node_dict_key: "as_map (freeze (PFrozen (node_spec_to_dict n))) = Some (node_spec_to_dict n)"
  "getv (node_spec_to_dict n) ''key'' = PStr (ns_key n)"
  by (simp_all add: node_spec_to_dict_def freeze_map_def get_or_def)

lemma normalize_operation_key:
  assumes "normalize_operation raw = Inr (key, op)"
  shows "op_key (freeze_map op) = key"
proof -
  obtain m where m: "as_map raw = Some m" and run: "(let op = getv m ''op'' in
     if op = PStr ADD_NODE then
       rbind (require_exact_keys m [''op'', ''node'']) (\<lambda>_.
       rbind (node_spec_from_payload (getv m ''node'')) (\<lambda>node.
       Inr (ns_key node, [(''op'', PStr ADD_NODE), (''node'', PFrozen (node_spec_to_dict node))])))
     else if op = PStr UPDATE_NODE then
       rbind (require_exact_keys m [''op'', ''node_key'', ''set'']) (\<lambda>_.
       rbind (required_text (getv m ''node_key'')) (\<lambda>key.
       rbind (normalize_changes (getv m ''set'')) (\<lambda>changes.
       Inr (key, [(''op'', PStr UPDATE_NODE), (''node_key'', PStr key), (''set'', PFrozen changes)]))))
     else if op = PStr REMOVE_NODE then
       rbind (require_exact_keys m [''op'', ''node_key'']) (\<lambda>_.
       rbind (required_text (getv m ''node_key'')) (\<lambda>key.
       Inr (key, [(''op'', PStr REMOVE_NODE), (''node_key'', PStr key)])))
     else Inl (GraphEditNotAllowedError ''unsupported graph edit operation'')) = Inr (key, op)"
    using assms unfolding normalize_operation_def edit_mapping_def rbind_Inr_iff get_or_raise_Inr_iff by blast
  consider (add) "getv m ''op'' = PStr ADD_NODE" | (update) "getv m ''op'' = PStr UPDATE_NODE"
    | (remove) "getv m ''op'' = PStr REMOVE_NODE"
    using run by (auto simp: Let_def split: if_splits)
  then show ?thesis
  proof cases
    case add
    with run obtain node where node: "node_spec_from_payload (getv m ''node'') = Inr node"
      and eq: "key = ns_key node" "op = [(''op'', PStr ADD_NODE), (''node'', PFrozen (node_spec_to_dict node))]"
      by (auto simp: Let_def rbind_Inr_iff)
    have "getv (freeze_map op) ''op'' = PStr ADD_NODE"
      "getv (freeze_map op) ''node'' = freeze (PFrozen (node_spec_to_dict node))"
      by (simp_all add: eq freeze_map_def get_or_def)
    with payload_stripped [OF node] show ?thesis by (simp add: op_key_def eq(1) node_dict_key del: freeze.simps)
  next
    case update
    with run obtain changes where
      eq: "op = [(''op'', PStr UPDATE_NODE), (''node_key'', PStr key), (''set'', PFrozen changes)]"
      by (auto simp: Let_def rbind_Inr_iff)
    have "getv (freeze_map op) ''op'' = PStr UPDATE_NODE" "getv (freeze_map op) ''node_key'' = PStr key"
      by (simp_all add: eq freeze_map_def get_or_def)
    then show ?thesis by (simp add: op_key_def)
  next
    case remove
    with run have eq: "op = [(''op'', PStr REMOVE_NODE), (''node_key'', PStr key)]"
      by (auto simp: Let_def rbind_Inr_iff)
    have "getv (freeze_map op) ''op'' = PStr REMOVE_NODE" "getv (freeze_map op) ''node_key'' = PStr key"
      by (simp_all add: eq freeze_map_def get_or_def)
    then show ?thesis by (simp add: op_key_def)
  qed
qed

lemma normalized_distinct:
  assumes "normalize_graph_edit_operations ops = Inr normalized"
  shows "distinct (map op_key normalized)"
proof -
  obtain items touched where fold: "foldM normalize_step items ([], []) = Inr (touched, normalized)"
    using assms unfolding normalize_graph_edit_operations_def
    by (auto simp: rbind_Inr_iff split: option.splits)
  let ?P = "\<lambda>(touched, normalized). distinct touched \<and> map op_key normalized = touched"
  have "?P (touched, normalized)"
  proof (rule foldM_invariant [OF fold])
    fix raw st st' assume P: "?P st" and step: "normalize_step raw st = Inr st'"
    then obtain key op where key: "normalize_operation raw = Inr (key, op)" "key \<notin> set (fst st)"
        "st' = (fst st @ [key], snd st @ [freeze_map op])"
      by (auto simp: normalize_step_def rbind_Inr_iff ensure_Inr_iff split: prod.splits)
    with P normalize_operation_key [OF key(1)] show "?P st'" by (auto split: prod.splits)
  qed simp
  then show ?thesis by auto
qed

section \<open>The candidate graph of an edit\<close>

definition spec_at :: "node_spec list \<Rightarrow> string \<Rightarrow> node_spec option" where
  "spec_at specs k = find (\<lambda>s. ns_key s = k) specs"

lemma spec_at_None: "spec_at specs k = None \<longleftrightarrow> k \<notin> set (map ns_key specs)"
  by (auto simp: spec_at_def find_None_iff)

lemma spec_at_key: "spec_at specs k = Some s \<Longrightarrow> ns_key s = k \<and> s \<in> set specs"
  by (auto simp: spec_at_def find_Some_iff)

lemma spec_at_append: "spec_at (xs @ [s]) k = (case spec_at xs k of
     None \<Rightarrow> if ns_key s = k then Some s else None | Some t \<Rightarrow> Some t)"
  by (induction xs) (auto simp: spec_at_def)

lemma spec_at_filter: "spec_at (filter (\<lambda>s. ns_key s \<noteq> key) specs) k = (if k = key then None else spec_at specs k)"
  by (induction specs) (auto simp: spec_at_def)

lemma spec_at_map:
  "ns_key r = key \<Longrightarrow> spec_at (map (\<lambda>s. if ns_key s = key then r else s) specs) k
     = (if k = key \<and> spec_at specs k \<noteq> None then Some r else spec_at specs k)"
  by (induction specs) (auto simp: spec_at_def)

lemma by_key_init:
  assumes "distinct (map ns_key specs)"
  shows "dget (foldl (\<lambda>m n. dput (ns_key n) n m) m0 specs) k
     = (case spec_at specs k of None \<Rightarrow> dget m0 k | Some s \<Rightarrow> Some s)"
  using assms
proof (induction specs arbitrary: m0)
  case (Cons s specs)
  have IH: "dget (foldl (\<lambda>m n. dput (ns_key n) n m) m1 specs) k
     = (case spec_at specs k of None \<Rightarrow> dget m1 k | Some s \<Rightarrow> Some s)" for m1
    using Cons by simp
  show ?case
  proof (cases "ns_key s = k")
    case True
    then have "spec_at specs k = None" using Cons.prems by (auto simp: spec_at_None)
    with True show ?thesis by (simp add: IH dict_simps) (simp add: spec_at_def)
  next
    case False
    then have "spec_at (s # specs) k = spec_at specs k" by (simp add: spec_at_def)
    with False show ?thesis by (simp add: IH dict_simps split: option.splits)
  qed
qed (simp add: spec_at_def)

text \<open>What the state of the edit says after the operations on the keys \<open>T\<close>.\<close>

definition pristine :: "workflow_instance \<Rightarrow> string \<Rightarrow> bool" where
  "pristine w k \<longleftrightarrow> require_pristine_future_node w k = Inr ()"

definition edit_ok :: "workflow_instance \<Rightarrow> string set \<Rightarrow> edit_state \<Rightarrow> bool" where
  "edit_ok w T st \<longleftrightarrow>
     distinct (map ns_key (es_specs st)) \<and>
     (\<forall>k. dget (es_by_key st) k = spec_at (es_specs st) k) \<and>
     (\<forall>k. k \<notin> T \<longrightarrow> spec_at (es_specs st) k = spec_at (sn_nodes (wi_snapshot w)) k) \<and>
     distinct (es_added st @ es_updated st @ es_removed st) \<and>
     set (es_added st @ es_updated st @ es_removed st) = T \<and>
     (\<forall>k \<in> set (es_added st). spec_at (sn_nodes (wi_snapshot w)) k = None \<and> spec_at (es_specs st) k \<noteq> None) \<and>
     (\<forall>k \<in> set (es_updated st). spec_at (sn_nodes (wi_snapshot w)) k \<noteq> None \<and> spec_at (es_specs st) k \<noteq> None \<and>
        (wi_status w \<noteq> I_DRAFT \<longrightarrow> pristine w k)) \<and>
     (\<forall>k \<in> set (es_removed st). spec_at (sn_nodes (wi_snapshot w)) k \<noteq> None \<and> spec_at (es_specs st) k = None \<and>
        (wi_status w \<noteq> I_DRAFT \<longrightarrow> pristine w k))"

lemma edit_okD:
  assumes "edit_ok w T st"
  shows "distinct (map ns_key (es_specs st))"
    and "dget (es_by_key st) k = spec_at (es_specs st) k"
    and "k \<notin> T \<Longrightarrow> spec_at (es_specs st) k = spec_at (sn_nodes (wi_snapshot w)) k"
    and "distinct (es_added st @ es_updated st @ es_removed st)"
    and "set (es_added st @ es_updated st @ es_removed st) = T"
    and "k \<in> set (es_added st) \<Longrightarrow>
       spec_at (sn_nodes (wi_snapshot w)) k = None \<and> spec_at (es_specs st) k \<noteq> None"
    and "k \<in> set (es_updated st) \<Longrightarrow> spec_at (sn_nodes (wi_snapshot w)) k \<noteq> None \<and>
       spec_at (es_specs st) k \<noteq> None \<and> (wi_status w \<noteq> I_DRAFT \<longrightarrow> pristine w k)"
    and "k \<in> set (es_removed st) \<Longrightarrow> spec_at (sn_nodes (wi_snapshot w)) k \<noteq> None \<and>
       spec_at (es_specs st) k = None \<and> (wi_status w \<noteq> I_DRAFT \<longrightarrow> pristine w k)"
  using assms unfolding edit_ok_def by blast+

text \<open>The operations change the specification at one key, which was untouched before.\<close>

lemma edit_ok_change:
  assumes ok: "edit_ok w T st" and fresh: "key \<notin> T"
    and at: "\<And>k. spec_at (es_specs st') k = (if k = key then new else spec_at (es_specs st) k)"
    and d: "distinct (map ns_key (es_specs st'))"
    and b: "\<And>k. dget (es_by_key st') k = (if k = key then new else dget (es_by_key st) k)"
    and lists: "(es_added st' = es_added st @ [key] \<and> es_updated st' = es_updated st \<and>
          es_removed st' = es_removed st \<and> spec_at (es_specs st) key = None \<and> new \<noteq> None) \<or>
       (es_added st' = es_added st \<and> es_updated st' = es_updated st @ [key] \<and>
          es_removed st' = es_removed st \<and> spec_at (es_specs st) key \<noteq> None \<and> new \<noteq> None \<and>
          (wi_status w \<noteq> I_DRAFT \<longrightarrow> pristine w key)) \<or>
       (es_added st' = es_added st \<and> es_updated st' = es_updated st \<and>
          es_removed st' = es_removed st @ [key] \<and> spec_at (es_specs st) key \<noteq> None \<and> new = None \<and>
          (wi_status w \<noteq> I_DRAFT \<longrightarrow> pristine w key))"
  shows "edit_ok w (insert key T) st'"
proof -
  note D = edit_okD [OF ok]
  have notin: "key \<notin> set (es_added st)" "key \<notin> set (es_updated st)" "key \<notin> set (es_removed st)"
    using fresh D(5) by auto
  have orig: "spec_at (sn_nodes (wi_snapshot w)) key = spec_at (es_specs st) key" using D(3) fresh by simp
  have dist: "distinct (es_added st' @ es_updated st' @ es_removed st')"
    using lists D(4) notin by auto
  have T: "set (es_added st' @ es_updated st' @ es_removed st') = insert key T"
    unfolding D(5) [symmetric] using lists by auto
  have other: "k \<noteq> key" if "k \<in> set (es_added st) \<or> k \<in> set (es_updated st) \<or> k \<in> set (es_removed st)" for k
    using that notin by blast
  have "spec_at (sn_nodes (wi_snapshot w)) k = None \<and> spec_at (es_specs st') k \<noteq> None"
    if "k \<in> set (es_added st')" for k
  proof (cases "k \<in> set (es_added st)")
    case True
    with D(6) other show ?thesis by (simp add: at)
  next
    case False
    with that lists have "k = key" "spec_at (es_specs st) key = None" "new \<noteq> None" by auto
    with orig show ?thesis by (simp add: at)
  qed
  moreover have "spec_at (sn_nodes (wi_snapshot w)) k \<noteq> None \<and> spec_at (es_specs st') k \<noteq> None \<and>
       (wi_status w \<noteq> I_DRAFT \<longrightarrow> pristine w k)" if "k \<in> set (es_updated st')" for k
  proof (cases "k \<in> set (es_updated st)")
    case True
    with D(7) [OF True] other [of k] show ?thesis by (simp add: at)
  next
    case False
    with that lists have "k = key" "spec_at (es_specs st) key \<noteq> None" "new \<noteq> None"
      "wi_status w \<noteq> I_DRAFT \<longrightarrow> pristine w key" by auto
    with orig show ?thesis by (simp add: at)
  qed
  moreover have "spec_at (sn_nodes (wi_snapshot w)) k \<noteq> None \<and> spec_at (es_specs st') k = None \<and>
       (wi_status w \<noteq> I_DRAFT \<longrightarrow> pristine w k)" if "k \<in> set (es_removed st')" for k
  proof (cases "k \<in> set (es_removed st)")
    case True
    with D(8) [OF True] other [of k] show ?thesis by (simp add: at)
  next
    case False
    with that lists have "k = key" "spec_at (es_specs st) key \<noteq> None" "new = None"
      "wi_status w \<noteq> I_DRAFT \<longrightarrow> pristine w key" by auto
    with orig show ?thesis by (simp add: at)
  qed
  moreover have "spec_at (es_specs st') k = spec_at (sn_nodes (wi_snapshot w)) k" if "k \<notin> insert key T" for k
    using that D(3) by (simp add: at)
  moreover have "dget (es_by_key st') k = spec_at (es_specs st') k" for k using D(2) by (simp add: b at)
  ultimately show ?thesis unfolding edit_ok_def using d dist T by blast
qed

lemma replace_spec_key: "replace_spec current changes = Inr r \<Longrightarrow> ns_key r = ns_key current"
  by (auto simp: replace_spec_def rbind_Inr_iff mk_node_spec_def)

lemma distinct_replace_keys:
  "ns_key r = key \<Longrightarrow> map ns_key (map (\<lambda>s. if ns_key s = key then r else s) specs) = map ns_key specs"
  by (induction specs) auto

lemma edit_step_ok:
  assumes ok: "edit_ok w T st" and fresh: "op_key op \<notin> T" and step: "edit_step w op st = Inr st'"
  shows "edit_ok w (insert (op_key op) T) st'"
proof (cases "py_str (getv op ''op'') = ADD_NODE")
  case True
  with step obtain node where node: "node_spec_from_payload (getv op ''node'') = Inr node"
      "dget (es_by_key st) (ns_key node) = None"
      and st': "st' = st\<lparr>es_specs := es_specs st @ [node], es_by_key := dput (ns_key node) node (es_by_key st),
                es_added := es_added st @ [ns_key node]\<rparr>"
    by (auto simp: edit_step_def Let_def rbind_Inr_iff ensure_Inr_iff)
  have key: "op_key op = ns_key node" using True payload_key [OF node(1)] by (auto simp: op_key_def)
  have none: "spec_at (es_specs st) (ns_key node) = None" using edit_okD(2) [OF ok] node(2) by simp
  have "distinct (map ns_key (es_specs st'))"
    using edit_okD(1) [OF ok] none by (auto simp: st' spec_at_None)
  then have "edit_ok w (insert (ns_key node) T) st'"
    using fresh none unfolding key
    by (intro edit_ok_change [OF ok, where new = "Some node"])
      (auto simp: st' dict_simps spec_at_append split: option.splits)
  then show ?thesis by (simp only: key)
next
  case False
  let ?key = "py_str (getv op ''node_key'')"
  have key: "op_key op = ?key" using False by (simp add: op_key_def)
  from step False obtain current where cur: "dget (es_by_key st) ?key = Some current"
    and pr: "(if wi_status w = I_DRAFT then Inr () else require_pristine_future_node w ?key) = Inr ()"
    and rest: "edit_known op ?key current st = Inr st'"
    unfolding edit_step_def Let_def by (auto simp only: if_False rbind_Inr_iff get_or_raise_Inr_iff) auto
  have pris: "wi_status w \<noteq> I_DRAFT \<longrightarrow> pristine w ?key" using pr by (simp add: pristine_def split: if_splits)
  have at0: "spec_at (es_specs st) ?key = Some current" using edit_okD(2) [OF ok] cur by simp
  have fresh': "?key \<notin> T" using fresh key by simp
  show ?thesis
  proof (cases "py_str (getv op ''op'') = REMOVE_NODE")
    case True
    with rest have st': "st' = st\<lparr>es_specs := filter (\<lambda>spec. ns_key spec \<noteq> ?key) (es_specs st),
                  es_by_key := dpop ?key (es_by_key st), es_removed := es_removed st @ [?key]\<rparr>"
      by (simp add: edit_known_def)
    have "distinct (map ns_key (es_specs st'))"
      using edit_okD(1) [OF ok] by (simp add: st' distinct_map_filter)
    then show ?thesis
      unfolding key using at0 pris
      by (intro edit_ok_change [OF ok fresh', where new = None]) (simp_all add: st' dict_simps spec_at_filter)
  next
    case False
    with rest obtain r changes where r: "replace_spec current changes = Inr r"
      and st': "st' = st\<lparr>es_specs := map (\<lambda>spec. if ns_key spec = ?key then r else spec) (es_specs st),
                  es_by_key := dput ?key r (es_by_key st), es_updated := es_updated st @ [?key]\<rparr>"
      by (auto simp: edit_known_def rbind_Inr_iff)
    have rk: "ns_key r = ?key" using replace_spec_key [OF r] spec_at_key [OF at0] by simp
    have "distinct (map ns_key (es_specs st'))"
    proof -
      have "es_specs st' = map (\<lambda>s. if ns_key s = ?key then r else s) (es_specs st)" by (simp add: st')
      then have "map ns_key (es_specs st') = map ns_key (es_specs st)"
        by (simp only: distinct_replace_keys [OF rk])
      then show ?thesis using edit_okD(1) [OF ok] by (simp only:)
    qed
    then show ?thesis
      unfolding key using at0 pris
      by (intro edit_ok_change [OF ok fresh', where new = "Some r"])
        (simp_all add: st' dict_simps spec_at_map [OF rk])
  qed
qed

lemma edit_loop_ok:
  assumes "edit_ok w T st" and "distinct (map op_key ops)" and "\<forall>op \<in> set ops. op_key op \<notin> T"
    and "foldM (edit_step w) ops st = Inr st'"
  shows "edit_ok w (T \<union> set (map op_key ops)) st'"
  using assms
proof (induction ops arbitrary: T st)
  case (Cons op ops)
  then obtain u where u: "edit_step w op st = Inr u" "foldM (edit_step w) ops u = Inr st'"
    by (auto simp: rbind_Inr_iff)
  have "edit_ok w (insert (op_key op) T) u"
    using Cons.prems(1,3) u(1) by (intro edit_step_ok) auto
  moreover have "\<forall>op' \<in> set ops. op_key op' \<notin> insert (op_key op) T"
  proof
    fix op' assume "op' \<in> set ops"
    then have "op_key op' \<in> op_key ` set ops" "op_key op' \<notin> T" using Cons.prems(3) by simp_all
    moreover have "op_key op \<notin> op_key ` set ops" using Cons.prems(2) by simp
    ultimately show "op_key op' \<notin> insert (op_key op) T" by (metis insertE)
  qed
  ultimately have "edit_ok w (insert (op_key op) T \<union> set (map op_key ops)) st'"
    using Cons.prems(2) u(2) by (intro Cons.IH) auto
  then show ?case by simp
qed simp

lemma edit_init_ok:
  assumes "simple_snapshot (wi_snapshot w)"
  shows "edit_ok w {} \<lparr>es_specs = sn_nodes (wi_snapshot w),
      es_by_key = foldl (\<lambda>m n. dput (ns_key n) n m) [] (sn_nodes (wi_snapshot w)),
      es_added = [], es_updated = [], es_removed = []\<rparr>"
proof -
  have d: "distinct (map ns_key (sn_nodes (wi_snapshot w)))" using assms by (simp add: simple_snapshot_def)
  show ?thesis
    unfolding edit_ok_def using d by_key_init [OF d, of "[]"] by (simp split: option.splits)
qed

section \<open>The runtime records of an edit\<close>

definition key_ok :: "workflow_instance \<Rightarrow> instance_snapshot \<Rightarrow> string \<Rightarrow> bool" where
  "key_ok u cand k \<longleftrightarrow>
     (\<forall>n. node_at u k = Some n \<longrightarrow> node_ok (u\<lparr>wi_snapshot := cand\<rparr>) k n) \<and>
     (\<forall>m a. attempt_at u k m = Some a \<longrightarrow> attempt_ok u k m a)"

lemma core_inv_keys:
  "core_inv (u\<lparr>wi_snapshot := cand\<rparr>) \<longleftrightarrow>
     distinct (dkeys (wi_nodes u)) \<and> distinct (dkeys (wi_attempts u)) \<and>
     set (dkeys (wi_nodes u)) = set (snapshot_keys cand) \<and> (\<forall>k. key_ok u cand k)"
proof -
  have "attempt_ok (u\<lparr>wi_snapshot := cand\<rparr>) k m a = attempt_ok u k m a" for k m a
    by (simp add: attempt_ok_def)
  then show ?thesis unfolding core_inv_def key_ok_def by auto
qed

lemma key_ok_w: "core_inv w \<Longrightarrow> key_ok w (wi_snapshot w) k"
  using core_inv_keys [where u = w and cand = "wi_snapshot w"] by simp

text \<open>The node is a fresh part of the future: its records fit the candidate, and its status says
  whether all its dependencies are done in the old instance.\<close>

definition future_node :: "workflow_instance \<Rightarrow> instance_snapshot \<Rightarrow> workflow_instance \<Rightarrow> string \<Rightarrow> bool" where
  "future_node w cand u k \<longleftrightarrow> (\<exists>n spec. node_at u k = Some n \<and> snapshot_node cand k = Inr spec \<and>
     key_ok u cand k \<and>
     ni_status n = (if \<forall>d \<in> set (ns_deps spec). node_statuses w d = Some N_DONE then N_READY else N_PENDING) \<and>
     (\<forall>n0. node_at w k = Some n0 \<longrightarrow> ni_version n0 < ni_version n) \<and>
     (\<forall>m a. attempt_at w k m = Some a \<and> attempt_finished a \<longrightarrow> attempt_at u k m = Some a))"

lemma future_node_status:
  assumes "future_node w cand u k"
  shows "node_statuses u k =
     Some (if \<forall>d \<in> deps_of cand k. node_statuses w d = Some N_DONE then N_READY else N_PENDING)"
proof -
  obtain n spec where "node_at u k = Some n" "snapshot_node cand k = Inr spec"
    "ni_status n = (if \<forall>d \<in> set (ns_deps spec). node_statuses w d = Some N_DONE then N_READY else N_PENDING)"
    using assms unfolding future_node_def by blast
  then show ?thesis using deps_of_node [of cand k spec] by (simp add: node_statuses_def [of u])
qed

definition edit_runtime ::
    "workflow_instance \<Rightarrow> instance_snapshot \<Rightarrow> string set \<Rightarrow> string set \<Rightarrow> workflow_instance \<Rightarrow> bool" where
  "edit_runtime w cand A R u \<longleftrightarrow>
     (\<exists>ns as. u = w\<lparr>wi_nodes := ns, wi_attempts := as\<rparr>) \<and>
     distinct (dkeys (wi_nodes u)) \<and> distinct (dkeys (wi_attempts u)) \<and>
     (\<forall>k \<in> A. future_node w cand u k) \<and>
     (\<forall>k \<in> R. node_at u k = None \<and> (\<forall>m. attempt_at u k m = None)) \<and>
     (\<forall>k. k \<notin> A \<longrightarrow> k \<notin> R \<longrightarrow> untouched w u k)"

lemma future_status_eq:
  assumes J: "edit_runtime w cand A R u" and old: "\<forall>k \<in> A \<union> R. node_statuses w k \<noteq> Some N_DONE"
  shows "future_status u spec =
     (if \<forall>d \<in> set (ns_deps spec). node_statuses w d = Some N_DONE then N_READY else N_PENDING)"
proof -
  have "(case node_at u d of None \<Rightarrow> False | Some n \<Rightarrow> ni_status n = N_DONE) \<longleftrightarrow> node_statuses w d = Some N_DONE" for d
  proof (cases "d \<in> A \<union> R")
    case True
    then have "node_statuses w d \<noteq> Some N_DONE" using old by blast
    moreover have "\<not> (case node_at u d of None \<Rightarrow> False | Some n \<Rightarrow> ni_status n = N_DONE)"
      using True J by (auto simp: edit_runtime_def future_node_def split: if_splits)
    ultimately show ?thesis by blast
  next
    case False
    then have "node_at u d = node_at w d" using J by (simp add: edit_runtime_def untouched_def)
    then show ?thesis by (simp add: node_statuses_def split: option.splits)
  qed
  then show ?thesis by (simp add: future_status_def list_all_iff)
qed

lemma key_ok_cong:
  assumes "node_at u k = node_at v k" and "\<forall>m. attempt_at u k m = attempt_at v k m" and "wi_id u = wi_id v"
    and "\<And>spec. snapshot_node c k = Inr spec \<Longrightarrow> snapshot_node c' k = Inr spec" and "key_ok v c' k"
  shows "key_ok u c k"
  using assms unfolding key_ok_def node_ok_def attempt_ok_def by auto

lemma future_node_cong:
  assumes "node_at u k = node_at v k" and "\<forall>m. attempt_at u k m = attempt_at v k m" and "wi_id u = wi_id v"
    and "future_node w cand v k"
  shows "future_node w cand u k"
proof -
  from assms(4) obtain n spec where n: "node_at v k = Some n" "snapshot_node cand k = Inr spec" "key_ok v cand k"
    "ni_status n = (if \<forall>d \<in> set (ns_deps spec). node_statuses w d = Some N_DONE then N_READY else N_PENDING)"
    "\<forall>n0. node_at w k = Some n0 \<longrightarrow> ni_version n0 < ni_version n"
    "\<forall>m a. attempt_at w k m = Some a \<and> attempt_finished a \<longrightarrow> attempt_at v k m = Some a"
    unfolding future_node_def by blast
  have "key_ok u cand k" by (rule key_ok_cong [OF assms(1-3) _ n(3)])
  then show ?thesis unfolding future_node_def using n assms(1,2) by (intro exI [of _ n] exI [of _ spec] conjI) simp_all
qed

lemma dget_attempts_filter:
  "dget (filter (\<lambda>((k, _), _). k \<noteq> key) d) (k, m) = (if k = key then None else dget d (k, m))"
  by (induction d) auto

lemma remove_step:
  assumes J: "edit_runtime w cand {} R u" and step: "remove_runtime key u = Inr u'"
  shows "edit_runtime w cand {} (insert key R) u'"
proof -
  have u': "u' = u\<lparr>wi_nodes := dpop key (wi_nodes u),
            wi_attempts := filter (\<lambda>((k, _), _). k \<noteq> key) (wi_attempts u)\<rparr>"
    using step by (auto simp: remove_runtime_def rbind_Inr_iff)
  have at: "node_at u' k = (if k = key then None else node_at u k)"
    "attempt_at u' k m = (if k = key then None else attempt_at u k m)" for k m
    by (simp_all add: u' dict_simps dget_attempts_filter)
  have "distinct (dkeys (wi_nodes u'))" "distinct (dkeys (wi_attempts u'))"
    using J by (simp_all add: u' edit_runtime_def distinct_dkeys_dpop distinct_map_filter)
  moreover have "\<exists>ns as. u' = w\<lparr>wi_nodes := ns, wi_attempts := as\<rparr>"
  proof -
    obtain ns as where "u = w\<lparr>wi_nodes := ns, wi_attempts := as\<rparr>" using J by (auto simp: edit_runtime_def)
    then have "u' = w\<lparr>wi_nodes := wi_nodes u', wi_attempts := wi_attempts u'\<rparr>" using u' by simp
    then show ?thesis by blast
  qed
  ultimately show ?thesis
    using J at unfolding edit_runtime_def by (auto simp: untouched_def)
qed

lemma remove_loop:
  assumes "edit_runtime w cand {} R u" and "foldM remove_runtime ks u = Inr u'"
  shows "edit_runtime w cand {} (R \<union> set ks) u'"
  using assms
proof (induction ks arbitrary: R u)
  case (Cons k ks)
  then obtain v where "remove_runtime k u = Inr v" "foldM remove_runtime ks v = Inr u'"
    by (auto simp: rbind_Inr_iff)
  with Cons have "edit_runtime w cand {} (insert k R \<union> set ks) u'" by (blast intro: remove_step)
  then show ?case by simp
qed simp

lemma pristineD:
  assumes "pristine w k"
  shows "\<exists>n a. node_at w k = Some n \<and> attempt_at w k (ni_current_attempt_no n) = Some a \<and>
     ni_status n \<in> {N_PENDING, N_READY} \<and> na_status a = A_PENDING \<and> na_claimed_by a = None \<and>
     na_claim_token a = None \<and> na_claim_expires_at a = None \<and> na_result a = None"
  using assms unfolding pristine_def require_pristine_future_node_def
  by (auto simp: rbind_Inr_iff ensure_Inr_iff get_node_Inr current_attempt_Inr)

lemma pristine_not_done: "pristine w k \<Longrightarrow> node_statuses w k \<noteq> Some N_DONE"
  using pristineD [of w k] by (auto simp: node_statuses_def)

text \<open>Changing the records of one new key.\<close>

lemma edit_runtime_put:
  assumes J: "edit_runtime w cand A R u" and new: "k \<notin> A" "k \<notin> R"
    and fut: "future_node w cand (put_attempt k m a (put_node k n u)) k"
  shows "edit_runtime w cand (insert k A) R (put_attempt k m a (put_node k n u))"
    (is "edit_runtime w cand _ R ?v")
proof -
  have "future_node w cand ?v j" if "j \<in> A" for j
  proof (rule future_node_cong [of ?v j u])
    have "j \<noteq> k" using that new by auto
    then show "node_at ?v j = node_at u j" "\<forall>m. attempt_at ?v j m = attempt_at u j m"
      by (simp_all add: dict_simps)
    show "future_node w cand u j" using that J by (simp add: edit_runtime_def)
  qed simp
  moreover have "\<exists>ns as. ?v = w\<lparr>wi_nodes := ns, wi_attempts := as\<rparr>"
  proof -
    obtain ns as where "u = w\<lparr>wi_nodes := ns, wi_attempts := as\<rparr>" using J by (auto simp: edit_runtime_def)
    then have "?v = w\<lparr>wi_nodes := wi_nodes ?v, wi_attempts := wi_attempts ?v\<rparr>"
      by (simp add: put_node_def put_attempt_def)
    then show ?thesis by blast
  qed
  moreover have "distinct (dkeys (wi_nodes ?v))" "distinct (dkeys (wi_attempts ?v))"
    using J by (simp_all add: edit_runtime_def put_node_def put_attempt_def distinct_dkeys_dput)
  moreover have "\<forall>j \<in> R. node_at ?v j = None \<and> (\<forall>m. attempt_at ?v j m = None)"
    using J new by (auto simp: edit_runtime_def dict_simps)
  moreover have "\<forall>j. j \<notin> insert k A \<longrightarrow> j \<notin> R \<longrightarrow> untouched w ?v j"
    using J by (auto simp: edit_runtime_def untouched_def dict_simps)
  ultimately show ?thesis unfolding edit_runtime_def using fut by blast
qed

lemma update_step:
  assumes J: "edit_runtime w cand A R u" and core: "core_inv w" and new: "k \<notin> A" "k \<notin> R"
    and old: "\<forall>k \<in> A \<union> R. node_statuses w k \<noteq> Some N_DONE" and pr: "pristine w k"
    and step: "update_runtime cand now k u = Inr u'"
  shows "edit_runtime w cand (insert k A) R u'"
proof -
  obtain n a where n: "node_at w k = Some n" and a: "attempt_at w k (ni_current_attempt_no n) = Some a"
    and nst: "ni_status n \<in> {N_PENDING, N_READY}" and ast: "na_status a = A_PENDING" "claim_ok a"
    using pristineD [OF pr] by (auto simp: claim_ok_def)
  have un: "untouched w u k" using J new by (simp add: edit_runtime_def)
  have uid: "wi_id u = wi_id w" using J by (auto simp: edit_runtime_def)
  obtain spec where spec: "snapshot_node cand k = Inr spec"
    and u': "u' = put_attempt k (ni_current_attempt_no n)
         (a\<lparr>na_status := A_PENDING, na_input_snapshot := freeze_map (pending_input spec)\<rparr>)
         (put_node k (n\<lparr>ni_owner_person_id := ns_owner_person_id spec, ni_executor := ns_executor spec,
               ni_version := ni_version n + 1, ni_status := future_status u spec,
               ni_ready_at := (if future_status u spec = N_READY then Some now else None)\<rparr>) u)"
    using step n a un by (auto simp: update_runtime_def rbind_Inr_iff get_node_Inr current_attempt_Inr
        Let_def untouched_def)
  define n' where "n' = n\<lparr>ni_owner_person_id := ns_owner_person_id spec, ni_executor := ns_executor spec,
               ni_version := ni_version n + 1, ni_status := future_status u spec,
               ni_ready_at := (if future_status u spec = N_READY then Some now else None)\<rparr>"
  define a' where "a' = a\<lparr>na_status := A_PENDING, na_input_snapshot := freeze_map (pending_input spec)\<rparr>"
  have u'2: "u' = put_attempt k (ni_current_attempt_no n) a' (put_node k n' u)" by (simp add: u' n'_def a'_def)
  have st: "ni_status n' = (if \<forall>d \<in> set (ns_deps spec). node_statuses w d = Some N_DONE then N_READY else N_PENDING)"
    using future_status_eq [OF J old] by (simp add: n'_def)
  have at: "node_at u' k = Some n'"
    "attempt_at u' k m = (if m = ni_current_attempt_no n then Some a' else attempt_at w k m)" for m
    using un by (auto simp: u'2 dict_simps untouched_def)
  have nok: "node_ok w k n" by (rule core_inv_node(1) [OF core n])
  have cur: "ni_current_attempt_no n' = ni_current_attempt_no n" by (simp add: n'_def)
  have u'id: "wi_id u' = wi_id w" using uid by (simp add: u'2)
  have "node_ok (u'\<lparr>wi_snapshot := cand\<rparr>) k n'"
    using nok spec st at u'id by (simp add: node_ok_def n'_def a'_def)
  moreover have "attempt_ok u' k m b" if "attempt_at u' k m = Some b" for m b
  proof (cases "m = ni_current_attempt_no n")
    case True
    with that at have "b = a'" by simp
    with True core_inv_attempt [OF core a] at n u'id ast cur show ?thesis
      by (simp add: attempt_ok_def a'_def claim_ok_def)
  next
    case False
    with that at have "attempt_at w k m = Some b" by simp
    from core_inv_attempt [OF core this] n at u'id cur show ?thesis by (simp add: attempt_ok_def)
  qed
  ultimately have key: "key_ok u' cand k" using at(1) by (simp add: key_ok_def)
  have "\<forall>m b. attempt_at w k m = Some b \<and> attempt_finished b \<longrightarrow> attempt_at u' k m = Some b"
    using at a ast by auto
  moreover have "\<forall>n0. node_at w k = Some n0 \<longrightarrow> ni_version n0 < ni_version n'" using n by (simp add: n'_def)
  ultimately have "future_node w cand u' k"
    unfolding future_node_def using at(1) spec key st by blast
  then show ?thesis unfolding u'2 by (rule edit_runtime_put [OF J new])
qed

lemma add_step:
  assumes J: "edit_runtime w cand A R u" and core: "core_inv w" and new: "k \<notin> A" "k \<notin> R"
    and old: "\<forall>k \<in> A \<union> R. node_statuses w k \<noteq> Some N_DONE" and absent: "node_at w k = None"
    and step: "add_runtime cand now k u = Inr u'"
  shows "edit_runtime w cand (insert k A) R u'"
proof -
  have no: "attempt_at w k m = None" for m
  proof (rule ccontr)
    assume "attempt_at w k m \<noteq> None"
    then obtain b where "attempt_at w k m = Some b" by auto
    from core_inv_attempt [OF core this] absent show False by (simp add: attempt_ok_def)
  qed
  have un: "untouched w u k" using J new by (simp add: edit_runtime_def)
  have uid: "wi_id u = wi_id w" using J by (auto simp: edit_runtime_def)
  obtain spec where spec: "snapshot_node cand k = Inr spec"
    and u': "u' = put_attempt k 1 (new_node_attempt (attempt_id_of (node_id_of (wi_id u) k) 1)
         (node_id_of (wi_id u) k) 1 A_PENDING (pending_input spec))
       (put_node k (new_node_instance (node_id_of (wi_id u) k) (wi_id u) k (ns_owner_person_id spec)
          (ns_executor spec) (future_status u spec)
          (if future_status u spec = N_READY then Some now else None)) u)"
    using step by (auto simp: add_runtime_def rbind_Inr_iff Let_def)
  define n' where "n' = new_node_instance (node_id_of (wi_id u) k) (wi_id u) k (ns_owner_person_id spec)
          (ns_executor spec) (future_status u spec)
          (if future_status u spec = N_READY then Some now else None)"
  define a' where "a' = new_node_attempt (attempt_id_of (node_id_of (wi_id u) k) 1)
         (node_id_of (wi_id u) k) 1 A_PENDING (pending_input spec)"
  have u'2: "u' = put_attempt k 1 a' (put_node k n' u)" by (simp add: u' n'_def a'_def)
  have st: "ni_status n' = (if \<forall>d \<in> set (ns_deps spec). node_statuses w d = Some N_DONE then N_READY else N_PENDING)"
    using future_status_eq [OF J old] by (simp add: n'_def new_node_instance_def)
  have at: "node_at u' k = Some n'" "attempt_at u' k m = (if m = 1 then Some a' else None)" for m
    using un no by (auto simp: u'2 dict_simps untouched_def)
  have u'id: "wi_id u' = wi_id u" by (simp add: u'2)
  have "node_ok (u'\<lparr>wi_snapshot := cand\<rparr>) k n'"
    using spec st at u'id
    by (simp add: node_ok_def n'_def a'_def new_node_instance_def new_node_attempt_def)
  moreover have "attempt_ok u' k m b" if "attempt_at u' k m = Some b" for m b
    using that at u'id by (auto simp: attempt_ok_def a'_def n'_def new_node_instance_def
        new_node_attempt_def claim_ok_def split: if_splits)
  ultimately have key: "key_ok u' cand k" using at(1) by (simp add: key_ok_def)
  then have "future_node w cand u' k"
    unfolding future_node_def using at(1) spec st absent no by auto
  then show ?thesis unfolding u'2 by (rule edit_runtime_put [OF J new])
qed

lemma update_loop:
  assumes "edit_runtime w cand A R u" and "core_inv w" and "distinct ks" and "set ks \<inter> (A \<union> R) = {}"
    and "\<forall>k \<in> A \<union> R. node_statuses w k \<noteq> Some N_DONE" and "\<forall>k \<in> set ks. pristine w k"
    and "foldM (update_runtime cand now) ks u = Inr u'"
  shows "edit_runtime w cand (A \<union> set ks) R u'"
  using assms
proof (induction ks arbitrary: A u)
  case (Cons k ks)
  then obtain v where v: "update_runtime cand now k u = Inr v" "foldM (update_runtime cand now) ks v = Inr u'"
    by (auto simp: rbind_Inr_iff)
  have k: "k \<notin> A" "k \<notin> R" "pristine w k" using Cons.prems(4,6) by auto
  have "edit_runtime w cand (insert k A) R v"
    by (rule update_step [OF Cons.prems(1,2) k(1,2) Cons.prems(5) k(3) v(1)])
  moreover have "\<forall>j \<in> insert k A \<union> R. node_statuses w j \<noteq> Some N_DONE"
    using Cons.prems(5) pristine_not_done [OF k(3)] by auto
  ultimately have "edit_runtime w cand (insert k A \<union> set ks) R u'"
    using Cons.prems v(2) by (intro Cons.IH) auto
  then show ?case by simp
qed simp

lemma add_loop:
  assumes "edit_runtime w cand A R u" and "core_inv w" and "distinct ks" and "set ks \<inter> (A \<union> R) = {}"
    and "\<forall>k \<in> A \<union> R. node_statuses w k \<noteq> Some N_DONE" and "\<forall>k \<in> set ks. node_at w k = None"
    and "foldM (add_runtime cand now) ks u = Inr u'"
  shows "edit_runtime w cand (A \<union> set ks) R u'"
  using assms
proof (induction ks arbitrary: A u)
  case (Cons k ks)
  then obtain v where v: "add_runtime cand now k u = Inr v" "foldM (add_runtime cand now) ks v = Inr u'"
    by (auto simp: rbind_Inr_iff)
  have k: "k \<notin> A" "k \<notin> R" "node_at w k = None" using Cons.prems(4,6) by auto
  have "edit_runtime w cand (insert k A) R v"
    by (rule add_step [OF Cons.prems(1,2) k(1,2) Cons.prems(5) k(3) v(1)])
  moreover have "\<forall>j \<in> insert k A \<union> R. node_statuses w j \<noteq> Some N_DONE"
    using Cons.prems(5) k(3) by (auto simp: node_statuses_def)
  ultimately have "edit_runtime w cand (insert k A \<union> set ks) R u'"
    using Cons.prems v(2) by (intro Cons.IH) auto
  then show ?case by simp
qed simp

section \<open>An edit keeps the invariant\<close>

text \<open>The aggregate evolves except for the nodes of a set.\<close>

definition evolves_except :: "string set \<Rightarrow> workflow_instance \<Rightarrow> workflow_instance \<Rightarrow> bool" where
  "evolves_except R w w' \<longleftrightarrow> same_aggregate w w' \<and>
     (\<forall>k m a. k \<notin> R \<longrightarrow> attempt_at w k m = Some a \<and> attempt_finished a \<longrightarrow> attempt_at w' k m = Some a) \<and>
     (\<forall>k n. k \<notin> R \<longrightarrow> node_at w k = Some n \<longrightarrow>
        (\<exists>n'. node_at w' k = Some n' \<and> (n' = n \<or> ni_version n < ni_version n')))"

lemma evolves_except_empty: "evolves_except {} w w' \<longleftrightarrow> evolves w w'"
  unfolding evolves_except_def evolves_def history_kept_def versions_strict_def
  by (auto; metis option.inject not_None_eq)

lemma snapshot_node_find: "snapshot_node s k = get_or_raise (spec_at (sn_nodes s) k) (KeyError k)"
  by (simp add: snapshot_node_def spec_at_def)

lemma deps_of_find: "deps_of s k = (case spec_at (sn_nodes s) k of None \<Rightarrow> {} | Some n \<Rightarrow> set (ns_deps n))"
  by (simp add: deps_of_def spec_at_def)

text \<open>The nodes of a running instance after an edit.\<close>

lemma edit_records_inv:
  assumes inv: "instance_inv w" and running: "wi_status w = I_RUNNING"
    and ok: "edit_ok w T st" and cand: "sn_nodes cand = es_specs st"
    and valid: "validate_snapshot cand = Inr ()" and run: "edit_records cand st now w = Inr u"
  shows "instance_inv (close_edit False cand now u) \<and>
     evolves_except (set (es_removed st)) w (close_edit False cand now u)"
proof -
  let ?s = "wi_snapshot w"
  let ?A = "set (es_updated st) \<union> set (es_added st)" and ?R = "set (es_removed st)"
  note rt = instance_inv_runtime [OF inv, unfolded running, simplified]
  note D = edit_okD [OF ok]
  have pr: "pristine w k" if "k \<in> set (es_updated st) \<or> k \<in> ?R" for k
    using that D(7,8) running by auto
  have absent: "node_at w k = None" if "k \<in> set (es_added st)" for k
    using that D(6) core_inv_missing [OF rt(1)] by (simp add: spec_at_None)
  have old: "\<forall>k \<in> ?A \<union> ?R. node_statuses w k \<noteq> Some N_DONE"
    using pr pristine_not_done absent by (auto simp: node_statuses_def)
  have dist: "distinct (es_updated st)" "distinct (es_added st)" "set (es_updated st) \<inter> ?R = {}"
    "set (es_added st) \<inter> (set (es_updated st) \<union> ?R) = {}" using D(4) by auto
  obtain u1 u2 where runs: "foldM remove_runtime (es_removed st) w = Inr u1"
      "foldM (update_runtime cand now) (es_updated st) u1 = Inr u2"
      "foldM (add_runtime cand now) (es_added st) u2 = Inr u"
    using run by (auto simp: edit_records_def rbind_Inr_iff)
  have "w = w\<lparr>wi_nodes := wi_nodes w, wi_attempts := wi_attempts w\<rparr>" by simp
  then have "\<exists>ns as. w = w\<lparr>wi_nodes := ns, wi_attempts := as\<rparr>" by blast
  then have "edit_runtime w cand {} {} w"
    using rt(1) unfolding edit_runtime_def core_inv_def by (simp add: untouched_def)
  then have "edit_runtime w cand {} ({} \<union> ?R) u1" using runs(1) by (rule remove_loop)
  then have "edit_runtime w cand ({} \<union> set (es_updated st)) ?R u2"
    using update_loop [of w cand "{}" ?R u1 "es_updated st" now u2] rt(1) dist old pr runs(2) by simp
  then have J: "edit_runtime w cand ?A ?R u"
  proof (simp only: Un_empty_left, intro add_loop [OF _ rt(1) dist(2,4)])
    show "\<forall>k \<in> set (es_updated st) \<union> ?R. node_statuses w k \<noteq> Some N_DONE" using old by blast
    show "\<forall>k \<in> set (es_added st). node_at w k = None" using absent by blast
  qed (use runs(3) in simp_all)
  have same_spec: "spec_at (sn_nodes cand) k = spec_at (sn_nodes ?s) k" if "k \<notin> ?A" "k \<notin> ?R" for k
    using that D(3,5) unfolding cand by auto
  obtain ns as where frame: "u = w\<lparr>wi_nodes := ns, wi_attempts := as\<rparr>" using J by (auto simp: edit_runtime_def)
  have un: "untouched w u k" if "k \<notin> ?A" "k \<notin> ?R" for k using that J by (simp add: edit_runtime_def)
  have gone: "node_at u k = None" "attempt_at u k m = None" if "k \<in> ?R" for k m
    using that J by (simp_all add: edit_runtime_def)
  have fut: "future_node w cand u k" if "k \<in> ?A" for k using that J by (simp add: edit_runtime_def)
  have key: "key_ok u cand k" for k
  proof (cases "k \<in> ?A \<or> k \<in> ?R")
    case True
    then show ?thesis
    proof
      assume "k \<in> ?A"
      from fut [OF this] show ?thesis unfolding future_node_def by blast
    next
      assume "k \<in> ?R"
      with gone show ?thesis by (simp add: key_ok_def)
    qed
  next
    case False
    then have f: "k \<notin> ?A" "k \<notin> ?R" by auto
    show ?thesis
      by (rule key_ok_cong [of u k w cand ?s])
        (use un [OF f] same_spec [OF f] key_ok_w [OF rt(1)] frame in
          \<open>auto simp: untouched_def snapshot_node_find\<close>)
  qed
  have keys: "set (dkeys (wi_nodes u)) = set (snapshot_keys cand)"
  proof (rule set_eqI)
    fix k
    show "k \<in> set (dkeys (wi_nodes u)) \<longleftrightarrow> k \<in> set (snapshot_keys cand)"
    proof -
      consider "k \<in> ?A" | "k \<in> ?R" "k \<notin> ?A" | "k \<notin> ?A" "k \<notin> ?R" by blast
      then have "node_at u k = None \<longleftrightarrow> spec_at (sn_nodes cand) k = None"
      proof cases
        case 1
        then have "spec_at (sn_nodes cand) k \<noteq> None" using D(6,7) unfolding cand by auto
        with fut [OF 1] show ?thesis by (auto simp: future_node_def)
      next
        case 2
        with D(8) gone show ?thesis unfolding cand by simp
      next
        case 3
        have "node_at w k = None \<longleftrightarrow> spec_at (sn_nodes ?s) k = None"
          using rt(1) unfolding core_inv_def dget_None_iff spec_at_None by blast
        with un [OF 3] same_spec [OF 3] show ?thesis by (simp add: untouched_def)
      qed
      then show ?thesis unfolding dget_None_iff spec_at_None by blast
    qed
  qed
  let ?u = "u\<lparr>wi_snapshot := cand\<rparr>"
  have core: "core_inv ?u"
    unfolding core_inv_keys using J keys key unfolding edit_runtime_def by blast
  have wf: "wf_snapshot cand" by (rule validate_snapshot_wf [OF valid])
  have st: "node_statuses u k = node_statuses w k" if "k \<notin> ?A" "k \<notin> ?R" for k
    using un [OF that] by (simp add: untouched_def node_statuses_def)
  have done_iff: "node_statuses u k = Some N_DONE \<longleftrightarrow> node_statuses w k = Some N_DONE" for k
  proof -
    consider "k \<in> ?A" | "k \<in> ?R" | "k \<notin> ?A" "k \<notin> ?R" by blast
    then show ?thesis
    proof cases
      case 1
      then have "node_statuses w k \<noteq> Some N_DONE" using old by blast
      moreover have "node_statuses u k \<noteq> Some N_DONE" using future_node_status [OF fut [OF 1]] by simp
      ultimately show ?thesis by simp
    next
      case 2
      then have "node_statuses w k \<noteq> Some N_DONE" using old by blast
      with 2 gone show ?thesis by (simp add: node_statuses_def [of u])
    next
      case 3
      with st show ?thesis by simp
    qed
  qed
  have dd: "deps_done cand (node_statuses u) k \<longleftrightarrow> (\<forall>d \<in> deps_of cand k. node_statuses w d = Some N_DONE)" for k
    by (simp add: deps_done_def done_iff)
  have fut_st: "node_statuses u k = Some (if deps_done cand (node_statuses u) k then N_READY else N_PENDING)"
    if "k \<in> ?A" for k
    unfolding dd by (rule future_node_status [OF fut [OF that]])
  have fr: "frontier_ok cand (node_statuses u)"
    unfolding frontier_ok_def
  proof
    fix k
    consider "k \<in> ?A" | "k \<in> ?R" | "k \<notin> ?A" "k \<notin> ?R" by blast
    then show "(node_statuses u k \<in> {Some N_READY, Some N_RUNNING, Some N_WAITING_HUMAN, Some N_DONE, Some N_FAILED} \<longrightarrow>
        deps_done cand (node_statuses u) k) \<and>
       (node_statuses u k = Some N_PENDING \<longrightarrow> \<not> deps_done cand (node_statuses u) k)"
    proof cases
      case 1
      from fut_st [OF this] show ?thesis by simp
    next
      case 2
      with gone show ?thesis by (simp add: node_statuses_def)
    next
      case 3
      have "deps_of cand k = deps_of ?s k" using same_spec [OF 3] by (simp add: deps_of_find)
      then have "deps_done cand (node_statuses u) k = deps_done ?s (node_statuses w) k"
        unfolding dd by (simp add: deps_done_def)
      with rt(2) st [OF 3] show ?thesis by (simp add: frontier_ok_def)
    qed
  qed
  have bad: "node_statuses u k \<noteq> Some N_FAILED \<and> node_statuses u k \<noteq> Some N_CANCELED" for k
  proof -
    consider "k \<in> ?A" | "k \<in> ?R" | "k \<notin> ?A" "k \<notin> ?R" by blast
    then show ?thesis
    proof cases
      case 1
      from fut_st [OF this] show ?thesis by simp
    next
      case 2
      with gone show ?thesis by (simp add: node_statuses_def)
    next
      case 3
      have "node_statuses w k = None \<or> node_statuses w k \<in> status_set w"
        using status_set_mem [OF rt(1), of k] by (cases "node_at w k") (simp_all add: node_statuses_def)
      with rt(3) st [OF 3] show ?thesis by auto
    qed
  qed
  let ?w = "close_edit False cand now u"
  have w': "?w = (if status_set ?u \<subseteq> {Some N_DONE}
     then ?u\<lparr>wi_graph_revision := wi_graph_revision u + 1, wi_status := I_DONE, wi_completed_at := Some now\<rparr>
     else ?u\<lparr>wi_graph_revision := wi_graph_revision u + 1\<rparr>)"
  proof -
    have "all_nodes_done (?u\<lparr>wi_graph_revision := wi_graph_revision u + 1\<rparr>) = all_nodes_done ?u"
      by (simp add: all_nodes_done_def)
    moreover have "all_nodes_done ?u \<longleftrightarrow> status_set ?u \<subseteq> {Some N_DONE}"
      using all_nodes_done_iff [OF core] wf by simp
    ultimately show ?thesis by (simp add: close_edit_def Let_def)
  qed
  have stu: "node_statuses ?u = node_statuses u" by (simp add: node_statuses_def fun_eq_iff)
  have w'st: "node_statuses ?w = node_statuses u" "status_set ?w = status_set ?u" "wi_snapshot ?w = cand"
    unfolding w' by (simp_all add: stu status_set_def)
  have "instance_inv ?w"
  proof (rule instance_invI)
    show "validate_snapshot (wi_snapshot ?w) = Inr ()" using valid w'st by simp
    show "core_inv ?w" using core unfolding w' by simp
    show "frontier_ok (wi_snapshot ?w) (node_statuses ?w)" using fr w'st by simp
    have "Some N_FAILED \<notin> status_set ?u" "Some N_CANCELED \<notin> status_set ?u"
      using bad unfolding status_set_def stu by (metis imageE)+
    then show "phase_ok (wi_status ?w) (status_set ?w)"
      unfolding w'st unfolding w' using running frame by simp
    show "wi_status ?w \<notin> {I_DRAFT, I_DISCARDED}" unfolding w' using running frame by simp
  qed
  moreover have "evolves_except ?R w ?w"
  proof -
    have at: "node_at ?w k = node_at u k" "attempt_at ?w k m = attempt_at u k m" for k m
      unfolding w' by simp_all
    have agg: "same_aggregate w ?w" unfolding w' by (simp add: same_aggregate_def frame)
    have hist: "attempt_at u k m = Some a" if "k \<notin> ?R" "attempt_at w k m = Some a" "attempt_finished a" for k m a
    proof (cases "k \<in> ?A")
      case True
      from fut [OF this] that show ?thesis by (auto simp: future_node_def)
    next
      case False
      with un that show ?thesis by (simp add: untouched_def)
    qed
    have ver: "\<exists>n'. node_at u k = Some n' \<and> (n' = n \<or> ni_version n < ni_version n')"
      if "k \<notin> ?R" "node_at w k = Some n" for k n
    proof (cases "k \<in> ?A")
      case True
      from fut [OF this] that show ?thesis by (auto simp: future_node_def)
    next
      case False
      with un that show ?thesis by (simp add: untouched_def)
    qed
    show ?thesis unfolding evolves_except_def at using agg hist ver by blast
  qed
  ultimately show ?thesis by simp
qed

lemma as_edit_error_Inr [result_simps]: "as_edit_error r = Inr x \<longleftrightarrow> r = Inr x"
  by (auto simp: as_edit_error_def split: sum.splits exn.splits)

text \<open>An accepted edit keeps the invariant; only nodes it removes lose records.\<close>

lemma apply_edit_inv:
  assumes inv: "instance_inv w" and ok: "apply_future_graph_edit w ops now = Inr (w', plan)"
  shows "instance_inv w' \<and> evolves_except (set (gp_removed_node_keys plan)) w w' \<and>
     wi_graph_revision w' = wi_graph_revision w + 1 \<and>
     gp_proposed_graph_revision plan = wi_graph_revision w' \<and>
     length (gp_candidate_snapshot_hash plan) = 64 \<and> gp_operations plan \<noteq> [] \<and>
     wi_status w \<in> {I_DRAFT, I_RUNNING} \<and> \<not> sn_locked (wi_snapshot w) \<and>
     (\<forall>k \<in> set (gp_updated_node_keys plan) \<union> set (gp_removed_node_keys plan).
        wi_status w = I_RUNNING \<longrightarrow> pristine w k)"
proof -
  let ?s = "wi_snapshot w" and ?draft = "wi_status w = I_DRAFT"
  let ?init = "\<lparr>es_specs = sn_nodes ?s, es_by_key = foldl (\<lambda>m n. dput (ns_key n) n m) [] (sn_nodes ?s),
         es_added = [], es_updated = [], es_removed = []\<rparr>"
  obtain normalized st where first: "edit_candidate w ops = Inr (normalized, st)"
    and rest: "(let draft = ?draft; candidate = candidate_snapshot ?s (es_specs st) in
     rbind (as_edit_error (validate_snapshot candidate)) (\<lambda>_.
     rbind (if draft then Inr w else edit_records candidate st now w) (\<lambda>u.
     rbind (snapshot_hash candidate) (\<lambda>h.
     let w' = close_edit draft candidate now u
     in Inr (w', \<lparr>gp_operations = map freeze_map normalized, gp_added_node_keys = es_added st,
                  gp_updated_node_keys = es_updated st, gp_removed_node_keys = es_removed st,
                  gp_candidate_snapshot_hash = h, gp_proposed_graph_revision = wi_graph_revision w'\<rparr>))))) = Inr (w', plan)"
    using ok unfolding apply_future_graph_edit_def by (elim rbindE) (simp only: prod.case split: prod.split_asm)
  have status: "wi_status w \<in> {I_DRAFT, I_RUNNING}" "\<not> sn_locked ?s"
    and norm: "normalize_graph_edit_operations ops = Inr normalized"
    and loop: "foldM (edit_step w) normalized ?init = Inr st"
    using first unfolding edit_candidate_def by (auto simp: rbind_Inr_iff ensure_Inr_iff)
  obtain u h where valid: "validate_snapshot (candidate_snapshot ?s (es_specs st)) = Inr ()"
    and rec: "(if ?draft then Inr w else edit_records (candidate_snapshot ?s (es_specs st)) st now w) = Inr u"
    and w': "w' = close_edit ?draft (candidate_snapshot ?s (es_specs st)) now u"
    and hash: "snapshot_hash (candidate_snapshot ?s (es_specs st)) = Inr h"
    and plan: "plan = \<lparr>gp_operations = map freeze_map normalized, gp_added_node_keys = es_added st,
                 gp_updated_node_keys = es_updated st, gp_removed_node_keys = es_removed st,
                 gp_candidate_snapshot_hash = h, gp_proposed_graph_revision = wi_graph_revision w'\<rparr>"
    using rest unfolding Let_def by (elim rbindE) (auto simp: as_edit_error_Inr)
  let ?cand = "candidate_snapshot ?s (es_specs st)"
  have est: "edit_ok w (set (map op_key normalized)) st"
    using edit_loop_ok [OF edit_init_ok [OF instance_inv_simple [OF inv]] normalized_distinct [OF norm] _ loop]
    by simp
  have cand: "sn_nodes ?cand = es_specs st" by (simp add: candidate_snapshot_def mk_snapshot_def)
  have len: "length h = 64"
    using hash by (auto simp: snapshot_hash_def length_sha256_hex split: option.splits)
  have ne: "normalized \<noteq> []"
  proof
    assume n: "normalized = []"
    obtain items touched where items: "items \<noteq> []" "foldM normalize_step items ([], []) = Inr (touched, normalized)"
      using norm unfolding normalize_graph_edit_operations_def
      by (auto simp: rbind_Inr_iff ensure_Inr_iff split: option.splits)
    have grow: "length (snd st') = length (snd st) + length xs"
      if "foldM normalize_step xs st = Inr st'" for xs st st'
      using that
    proof (induction xs arbitrary: st)
      case (Cons x xs)
      from Cons.prems obtain v where "normalize_step x st = Inr v" "foldM normalize_step xs v = Inr st'"
        by (auto simp: rbind_Inr_iff)
      have "length (snd v) = Suc (length (snd st))"
        using \<open>normalize_step x st = Inr v\<close> by (auto simp: normalize_step_def rbind_Inr_iff split: prod.splits)
      with Cons.IH [OF \<open>foldM normalize_step xs v = Inr st'\<close>] show ?case by simp
    qed simp
    from grow [OF items(2)] items(1) n show False by simp
  qed
  have pris: "\<forall>k \<in> set (es_updated st) \<union> set (es_removed st). wi_status w = I_RUNNING \<longrightarrow> pristine w k"
    using edit_okD(7,8) [OF est] by auto
  have rev: "wi_graph_revision w' = wi_graph_revision u + 1" by (simp add: w' close_edit_def Let_def)
  have "instance_inv w' \<and> evolves_except (set (es_removed st)) w w' \<and> wi_graph_revision u = wi_graph_revision w"
  proof (cases ?draft)
    case True
    then have u: "u = w" using rec by simp
    have rt: "wi_nodes w = []" "wi_attempts w = []" using inv True by (simp_all add: instance_inv_def is_draft_def)
    have "w' = w\<lparr>wi_snapshot := ?cand, wi_graph_revision := wi_graph_revision w + 1\<rparr>"
      by (simp add: w' u close_edit_def True)
    with rt valid True u show ?thesis
      by (simp add: instance_inv_def is_draft_def evolves_except_def same_aggregate_def)
  next
    case False
    then have running: "wi_status w = I_RUNNING" using status(1) by simp
    have run: "edit_records ?cand st now w = Inr u" using rec False by simp
    have "wi_graph_revision u = wi_graph_revision w"
    proof -
      have rem: "foldM remove_runtime ks v = Inr v' \<Longrightarrow> wi_graph_revision v' = wi_graph_revision v" for ks v v'
        by (rule foldM_relation [where R = "\<lambda>a b. wi_graph_revision b = wi_graph_revision a"])
          (auto simp: remove_runtime_def rbind_Inr_iff)
      have upd: "foldM (update_runtime ?cand now) ks v = Inr v' \<Longrightarrow> wi_graph_revision v' = wi_graph_revision v" for ks v v'
        by (rule foldM_relation [where R = "\<lambda>a b. wi_graph_revision b = wi_graph_revision a"])
          (auto simp: update_runtime_def rbind_Inr_iff Let_def)
      have add: "foldM (add_runtime ?cand now) ks v = Inr v' \<Longrightarrow> wi_graph_revision v' = wi_graph_revision v" for ks v v'
        by (rule foldM_relation [where R = "\<lambda>a b. wi_graph_revision b = wi_graph_revision a"])
          (auto simp: add_runtime_def rbind_Inr_iff Let_def)
      from run rem upd add show ?thesis unfolding edit_records_def rbind_Inr_iff by metis
    qed
    with edit_records_inv [OF inv running est cand valid run] False show ?thesis by (simp add: w')
  qed
  with rev len ne pris status show ?thesis by (simp add: plan)
qed

end
