(* ===== verification/Repository.thy ===== *)
theory Repository
  imports Editing
begin

text \<open>
  The in-memory repository of \<open>src/larkflow/workflow/repository.py\<close>: instances with
  optimistic concurrency, audit log and transactional outbox with their deduplication, restart and
  graph edit previews, projections, and the queries over them. Copies (\<open>deepcopy\<close>) are values
  here; an operation that fails leaves the store as it was.
\<close>

section \<open>State\<close>

record projection_record =
  pj_id :: string
  pj_tenant_id :: string
  pj_instance_id :: string
  pj_node_instance_id :: string
  pj_attempt_no :: int
  pj_kind :: string
  pj_idempotency_key :: string
  pj_sync_version :: int
  pj_state :: pmap
  pj_created_at :: time
  pj_updated_at :: time
  pj_external_id :: "string option"
  pj_external_url :: "string option"

type_synonym aggregate_key = "string \<times> string"

record repository =
  r_instances :: "(aggregate_key, workflow_instance) odict"
  r_audit_events :: "audit_event list"
  r_audit_ids :: "aggregate_key list"
  r_outbox :: "(aggregate_key, outbox_record) odict"
  r_outbox_dedupe :: "(string \<times> dedupe) list"
  r_projections :: "(string \<times> string \<times> int \<times> string, projection_record) odict"
  r_restart_previews :: "(aggregate_key, restart_preview) odict"
  r_graph_edit_previews :: "(aggregate_key, graph_edit_preview) odict"

definition empty_repository :: repository where
  "empty_repository = \<lparr>r_instances = [], r_audit_events = [], r_audit_ids = [], r_outbox = [],
     r_outbox_dedupe = [], r_projections = [], r_restart_previews = [], r_graph_edit_previews = []\<rparr>"

abbreviation instance_key :: "workflow_instance \<Rightarrow> aggregate_key" where
  "instance_key w \<equiv> (wi_tenant_id w, wi_id w)"

section \<open>Events\<close>

definition validate_events ::
    "workflow_instance \<Rightarrow> audit_event list \<Rightarrow> outbox_event list \<Rightarrow> unit res" where
  "validate_events w audits outboxes =
     rbind (ensure (list_all (\<lambda>e. ae_tenant_id e = wi_tenant_id w \<and> ae_instance_id e = wi_id w) audits)
        (ValueError ''audit event does not belong to the aggregate'')) (\<lambda>_.
     ensure (list_all (\<lambda>e. oe_tenant_id e = wi_tenant_id w) outboxes)
        (ValueError ''outbox event does not belong to the aggregate tenant''))"

definition append_audit :: "audit_event \<Rightarrow> repository \<Rightarrow> repository" where
  "append_audit e r = (let key = (ae_tenant_id e, ae_id e) in
     if key \<in> set (r_audit_ids r) then r
     else r\<lparr>r_audit_ids := r_audit_ids r @ [key], r_audit_events := r_audit_events r @ [e]\<rparr>)"

definition append_outbox :: "outbox_event \<Rightarrow> repository \<Rightarrow> repository" where
  "append_outbox e r = (let dedupe = (oe_tenant_id e, dedupe_key e) in
     if dedupe \<in> set (r_outbox_dedupe r) then r
     else r\<lparr>r_outbox_dedupe := r_outbox_dedupe r @ [dedupe],
            r_outbox := dput (oe_tenant_id e, oe_id e) (new_outbox_record e) (r_outbox r)\<rparr>)"

definition append_events :: "audit_event list \<Rightarrow> outbox_event list \<Rightarrow> repository \<Rightarrow> repository" where
  "append_events audits outboxes r = fold append_outbox outboxes (fold append_audit audits r)"

section \<open>Instances\<close>

definition repo_add ::
    "repository \<Rightarrow> workflow_instance \<Rightarrow> audit_event list \<Rightarrow> outbox_event list \<Rightarrow> repository res" where
  "repo_add r w audits outboxes =
     rbind (ensure (dget (r_instances r) (instance_key w) = None)
        (InstanceAlreadyExistsError (wi_id w))) (\<lambda>_.
     rbind (validate_events w audits outboxes) (\<lambda>_.
     Inr (append_events audits outboxes (r\<lparr>r_instances := dput (instance_key w) w (r_instances r)\<rparr>))))"

definition repo_get :: "repository \<Rightarrow> string \<Rightarrow> string \<Rightarrow> workflow_instance res" where
  "repo_get r tenant iid = get_or_raise (dget (r_instances r) (tenant, iid)) (InstanceNotFoundError iid)"

text \<open>The instance part of a save: compare and swap of the aggregate version.\<close>

definition store_instance :: "repository \<Rightarrow> workflow_instance \<Rightarrow> int \<Rightarrow> repository" where
  "store_instance r w expected_version =
     r\<lparr>r_instances := dput (instance_key w) (w\<lparr>wi_version := expected_version + 1\<rparr>) (r_instances r)\<rparr>"

definition check_version :: "workflow_instance \<Rightarrow> int \<Rightarrow> unit res" where
  "check_version current expected_version =
     ensure (wi_version current = expected_version) (ConcurrentUpdateError ''expected version'')"

definition repo_save ::
    "repository \<Rightarrow> workflow_instance \<Rightarrow> int \<Rightarrow> audit_event list \<Rightarrow> outbox_event list \<Rightarrow> repository res" where
  "repo_save r w expected_version audits outboxes =
     rbind (get_or_raise (dget (r_instances r) (instance_key w)) (InstanceNotFoundError (wi_id w))) (\<lambda>current.
     rbind (check_version current expected_version) (\<lambda>_.
     rbind (validate_events w audits outboxes) (\<lambda>_.
     Inr (append_events audits outboxes (store_instance r w expected_version)))))"

section \<open>Previews\<close>

definition add_restart_preview :: "repository \<Rightarrow> restart_preview \<Rightarrow> repository res" where
  "add_restart_preview r p =
     rbind (ensure (dget (r_restart_previews r) (rp_tenant_id p, rp_id p) = None)
        (ValueError ''restart preview already exists'')) (\<lambda>_.
     rbind (ensure (dget (r_instances r) (rp_tenant_id p, rp_instance_id p) \<noteq> None)
        (InstanceNotFoundError (rp_instance_id p))) (\<lambda>_.
     Inr (r\<lparr>r_restart_previews := dput (rp_tenant_id p, rp_id p) p (r_restart_previews r)\<rparr>)))"

definition get_restart_preview :: "repository \<Rightarrow> string \<Rightarrow> string \<Rightarrow> restart_preview res" where
  "get_restart_preview r tenant pid =
     get_or_raise (dget (r_restart_previews r) (tenant, pid)) (RestartPreviewNotFoundError pid)"

definition save_restart ::
    "repository \<Rightarrow> workflow_instance \<Rightarrow> restart_preview \<Rightarrow> int \<Rightarrow> time \<Rightarrow> audit_event list \<Rightarrow>
       outbox_event list \<Rightarrow> (repository \<times> bool) res" where
  "save_restart r w p expected_version consumed_at audits outboxes =
     rbind (get_or_raise (dget (r_instances r) (instance_key w)) (InstanceNotFoundError (wi_id w))) (\<lambda>current.
     rbind (get_or_raise (dget (r_restart_previews r) (rp_tenant_id p, rp_id p))
        (RestartPreviewNotFoundError (rp_id p))) (\<lambda>stored.
     if rp_consumed_at stored \<noteq> None then Inr (r, False)
     else
       rbind (ensure (stored = p) (ValueError ''restart preview changed before confirmation'')) (\<lambda>_.
       rbind (ensure (consumed_at < rp_expires_at stored) (RestartPreviewExpiredError (rp_id p))) (\<lambda>_.
       rbind (check_version current expected_version) (\<lambda>_.
       rbind (validate_events w audits outboxes) (\<lambda>_.
       Inr (append_events audits outboxes ((store_instance r w expected_version)
              \<lparr>r_restart_previews := dput (rp_tenant_id p, rp_id p)
                 (p\<lparr>rp_consumed_at := Some consumed_at,
                    rp_applied_instance_version := Some (expected_version + 1)\<rparr>) (r_restart_previews r)\<rparr>),
            True)))))))"

definition add_graph_edit_preview :: "repository \<Rightarrow> graph_edit_preview \<Rightarrow> repository res" where
  "add_graph_edit_preview r p =
     rbind (ensure (dget (r_graph_edit_previews r) (ge_tenant_id p, ge_id p) = None)
        (ValueError ''graph edit preview already exists'')) (\<lambda>_.
     rbind (ensure (dget (r_instances r) (ge_tenant_id p, ge_instance_id p) \<noteq> None)
        (InstanceNotFoundError (ge_instance_id p))) (\<lambda>_.
     Inr (r\<lparr>r_graph_edit_previews := dput (ge_tenant_id p, ge_id p) p (r_graph_edit_previews r)\<rparr>)))"

definition get_graph_edit_preview :: "repository \<Rightarrow> string \<Rightarrow> string \<Rightarrow> graph_edit_preview res" where
  "get_graph_edit_preview r tenant pid =
     get_or_raise (dget (r_graph_edit_previews r) (tenant, pid)) (GraphEditPreviewNotFoundError pid)"

text \<open>\<open>==\<close> of two previews; the operations compare as dictionaries.\<close>

definition same_preview :: "graph_edit_preview \<Rightarrow> graph_edit_preview \<Rightarrow> bool" where
  "same_preview p q \<longleftrightarrow> list_all2 map_eq (ge_operations p) (ge_operations q) \<and>
     p\<lparr>ge_operations := []\<rparr> = q\<lparr>ge_operations := []\<rparr>"

definition save_graph_edit ::
    "repository \<Rightarrow> workflow_instance \<Rightarrow> graph_edit_preview \<Rightarrow> int \<Rightarrow> time \<Rightarrow> audit_event list \<Rightarrow>
       outbox_event list \<Rightarrow> (repository \<times> bool) res" where
  "save_graph_edit r w p expected_version consumed_at audits outboxes =
     rbind (get_or_raise (dget (r_instances r) (instance_key w)) (InstanceNotFoundError (wi_id w))) (\<lambda>current.
     rbind (get_or_raise (dget (r_graph_edit_previews r) (ge_tenant_id p, ge_id p))
        (GraphEditPreviewNotFoundError (ge_id p))) (\<lambda>stored.
     if ge_consumed_at stored \<noteq> None then Inr (r, False)
     else
       rbind (ensure (same_preview stored p) (ValueError ''graph edit preview changed before confirmation'')) (\<lambda>_.
       rbind (ensure (consumed_at < ge_expires_at stored) (GraphEditPreviewExpiredError (ge_id p))) (\<lambda>_.
       rbind (check_version current expected_version) (\<lambda>_.
       rbind (validate_events w audits outboxes) (\<lambda>_.
       Inr (append_events audits outboxes ((store_instance r w expected_version)
              \<lparr>r_graph_edit_previews := dput (ge_tenant_id p, ge_id p)
                 (p\<lparr>ge_consumed_at := Some consumed_at,
                    ge_applied_instance_version := Some (expected_version + 1)\<rparr>) (r_graph_edit_previews r)\<rparr>),
            True)))))))"

section \<open>Queries\<close>

definition check_limit :: "int \<Rightarrow> int \<Rightarrow> unit res" where
  "check_limit limit most = ensure (1 \<le> limit \<and> limit \<le> most) (ValueError ''limit is out of range'')"

definition check_positive :: "int \<Rightarrow> unit res" where
  "check_positive limit = ensure (1 \<le> limit) (ValueError ''limit must be positive'')"

text \<open>\<open>sort(key=..., reverse=True)\<close> keeps the order of elements with equal keys.\<close>

definition sort_desc :: "('a \<Rightarrow> 'k::linorder) \<Rightarrow> 'a list \<Rightarrow> 'a list" where
  "sort_desc f xs = rev (sort_key f (rev xs))"

text \<open>The due times of one instance.\<close>

definition due_step :: "workflow_instance \<Rightarrow> time \<Rightarrow> string \<times> node_instance \<Rightarrow> time list \<Rightarrow> time list res" where
  "due_step w now = (\<lambda>(key, n) acc.
     case (ni_status n, ni_ready_at n) of
       (N_READY, Some t) \<Rightarrow> Inr (acc @ [t])
     | _ \<Rightarrow>
         if ni_executor n = HUMAN \<or> ni_status n \<noteq> N_RUNNING then Inr acc
         else rbind (current_attempt w key) (\<lambda>a.
           Inr (case na_claim_expires_at a of
                  None \<Rightarrow> acc
                | Some t \<Rightarrow> if na_status a = A_RUNNING \<and> t \<le> now then acc @ [t] else acc)))"

definition runnable_step ::
    "string \<Rightarrow> time \<Rightarrow> aggregate_key \<times> workflow_instance \<Rightarrow> (time \<times> string) list \<Rightarrow> (time \<times> string) list res" where
  "runnable_step tenant now = (\<lambda>((t, iid), w) acc.
     if t \<noteq> tenant \<or> wi_status w \<noteq> I_RUNNING then Inr acc
     else rbind (foldM (due_step w now) (wi_nodes w) []) (\<lambda>due.
       Inr (case due of [] \<Rightarrow> acc | d # ds \<Rightarrow> acc @ [(foldl min d ds, iid)])))"

definition runnable_instance_ids :: "repository \<Rightarrow> string \<Rightarrow> time \<Rightarrow> int \<Rightarrow> string list res" where
  "runnable_instance_ids r tenant now limit =
     rbind (check_positive limit) (\<lambda>_.
     rbind (foldM (runnable_step tenant now) (r_instances r) []) (\<lambda>candidates.
     Inr (map snd (take (nat limit) (sort candidates)))))"

definition owned_by :: "string \<Rightarrow> string \<Rightarrow> aggregate_key \<times> workflow_instance \<Rightarrow> bool" where
  "owned_by tenant owner = (\<lambda>((t, _), w).
     t = tenant \<and> wi_owner_person_id w = owner \<and> wi_created_at w \<noteq> None)"

definition created :: "workflow_instance \<Rightarrow> time" where
  "created w = (case wi_created_at w of None \<Rightarrow> 0 | Some t \<Rightarrow> t)"

definition recent_of_owner :: "repository \<Rightarrow> string \<Rightarrow> string \<Rightarrow> workflow_instance list" where
  "recent_of_owner r tenant owner =
     sort_desc (\<lambda>w. (created w, wi_id w)) (map snd (filter (owned_by tenant owner) (r_instances r)))"

definition summary_of :: "workflow_instance \<Rightarrow> workflow_instance_summary" where
  "summary_of w =
     \<lparr>ws_id = wi_id w, ws_goal = sn_goal (wi_snapshot w), ws_status = wi_status w,
      ws_completed_nodes = length (filter (\<lambda>(_, n). ni_status n = N_DONE) (wi_nodes w)),
      ws_total_nodes = length (sn_nodes (wi_snapshot w)), ws_created_at = created w\<rparr>"

definition repo_list_for_owner ::
    "repository \<Rightarrow> string \<Rightarrow> string \<Rightarrow> int \<Rightarrow> workflow_instance_summary list res" where
  "repo_list_for_owner r tenant owner limit =
     rbind (check_limit limit 100) (\<lambda>_.
     Inr (map summary_of (take (nat limit) (recent_of_owner r tenant owner))))"

definition or_else :: "'a option \<Rightarrow> 'a option \<Rightarrow> 'a option" where
  "or_else a b = (case a of None \<Rightarrow> b | Some x \<Rightarrow> Some x)"

definition attention_plain :: "workflow_instance \<Rightarrow> attention_candidate" where
  "attention_plain w =
     \<lparr>ac_instance_id = wi_id w, ac_goal = sn_goal (wi_snapshot w), ac_instance_status = wi_status w,
      ac_created_at = created w, ac_node_key = None, ac_node_title = None, ac_node_status = None,
      ac_node_executor = None, ac_node_owner_person_id = None, ac_node_occurred_at = None,
      ac_reject_target = None\<rparr>"

definition attention_node :: "workflow_instance \<Rightarrow> node_instance \<Rightarrow> node_spec \<Rightarrow> attention_candidate" where
  "attention_node w n spec =
     (let target = (case as_map (getv (ns_work spec) ''decision'') of
          None \<Rightarrow> PNone | Some m \<Rightarrow> getv m ''reject_target'')
      in (attention_plain w)
       \<lparr>ac_node_key := Some (ni_node_key n), ac_node_title := Some (ns_title spec),
        ac_node_status := Some (ni_status n), ac_node_executor := Some (ni_executor n),
        ac_node_owner_person_id := Some (ni_owner_person_id n),
        ac_node_occurred_at := or_else (ni_completed_at n) (or_else (ni_started_at n)
           (or_else (ni_ready_at n) (wi_created_at w))),
        ac_reject_target := (if truthy target then Some (py_str target) else None)\<rparr>)"

definition attention_relevant :: "string \<Rightarrow> node_instance \<Rightarrow> bool" where
  "attention_relevant owner n \<longleftrightarrow> ni_status n = N_FAILED \<or>
     (ni_status n = N_WAITING_HUMAN \<and> ni_owner_person_id n = owner)"

definition attention_step ::
    "string \<Rightarrow> workflow_instance \<Rightarrow> attention_candidate list \<Rightarrow> attention_candidate list res" where
  "attention_step owner w acc =
     (case filter (attention_relevant owner) (map snd (wi_nodes w)) of
        [] \<Rightarrow> Inr (acc @ [attention_plain w])
      | relevant \<Rightarrow> rbind (mapM (\<lambda>n. rbind (snapshot_node (wi_snapshot w) (ni_node_key n)) (\<lambda>spec.
            Inr (attention_node w n spec))) relevant) (\<lambda>found. Inr (acc @ found)))"

definition list_attention_for_owner ::
    "repository \<Rightarrow> string \<Rightarrow> string \<Rightarrow> int \<Rightarrow> attention_candidate list res" where
  "list_attention_for_owner r tenant owner limit =
     rbind (check_limit limit 100) (\<lambda>_.
     foldM (attention_step owner) (take (nat limit) (recent_of_owner r tenant owner)) [])"

definition human_task_of :: "workflow_instance \<Rightarrow> node_instance \<Rightarrow> node_spec \<Rightarrow> time \<Rightarrow> human_task_summary" where
  "human_task_of w n spec started =
     \<lparr>ht_instance_id = wi_id w, ht_goal = sn_goal (wi_snapshot w), ht_instance_status = wi_status w,
      ht_instance_owner_person_id = wi_owner_person_id w, ht_node_key = ni_node_key n,
      ht_node_title = ns_title spec, ht_attempt_no = ni_current_attempt_no n,
      ht_node_version = ni_version n, ht_started_at = started\<rparr>"

definition human_task_step ::
    "string \<Rightarrow> workflow_instance \<Rightarrow> node_instance \<Rightarrow> human_task_summary list \<Rightarrow> human_task_summary list res" where
  "human_task_step owner w n acc =
     (case ni_started_at n of
        None \<Rightarrow> Inr acc
      | Some started \<Rightarrow>
          if ni_executor n \<noteq> HUMAN \<or> ni_status n \<noteq> N_WAITING_HUMAN \<or> ni_owner_person_id n \<noteq> owner
          then Inr acc
          else rbind (snapshot_node (wi_snapshot w) (ni_node_key n)) (\<lambda>spec.
            Inr (acc @ [human_task_of w n spec started])))"

definition list_human_tasks_for_owner ::
    "repository \<Rightarrow> string \<Rightarrow> string \<Rightarrow> int \<Rightarrow> human_task_summary list res" where
  "list_human_tasks_for_owner r tenant owner limit =
     rbind (check_limit limit 100) (\<lambda>_.
     rbind (foldM (\<lambda>((t, _), w) acc.
         if t \<noteq> tenant \<or> wi_created_at w = None \<or> wi_status w \<notin> {I_RUNNING, I_PAUSED} then Inr acc
         else foldM (human_task_step owner w) (map snd (wi_nodes w)) acc) (r_instances r) []) (\<lambda>tasks.
     Inr (take (nat limit) (sort_desc (\<lambda>t. (ht_started_at t, ht_instance_id t, ht_node_key t)) tasks))))"

definition audit_log :: "repository \<Rightarrow> string \<Rightarrow> string \<Rightarrow> audit_event list" where
  "audit_log r tenant iid =
     filter (\<lambda>e. ae_tenant_id e = tenant \<and> ae_instance_id e = iid) (r_audit_events r)"

definition recent_audit_log :: "repository \<Rightarrow> string \<Rightarrow> string \<Rightarrow> int \<Rightarrow> audit_event list res" where
  "recent_audit_log r tenant iid limit =
     rbind (check_limit limit 500) (\<lambda>_.
       let events = audit_log r tenant iid in Inr (drop (length events - nat limit) events))"

definition outbox_records :: "repository \<Rightarrow> string \<Rightarrow> outbox_record list" where
  "outbox_records r tenant = map snd (filter (\<lambda>((t, _), _). t = tenant) (r_outbox r))"

section \<open>Projections\<close>

abbreviation projection_key :: "projection_record \<Rightarrow> string \<times> string \<times> int \<times> string" where
  "projection_key p \<equiv> (pj_tenant_id p, pj_node_instance_id p, pj_attempt_no p, pj_kind p)"

definition get_projection :: "repository \<Rightarrow> string \<Rightarrow> string \<Rightarrow> int \<Rightarrow> string \<Rightarrow> projection_record option" where
  "get_projection r tenant nid no kind = dget (r_projections r) (tenant, nid, no, kind)"

definition get_projection_by_external_id ::
    "repository \<Rightarrow> string \<Rightarrow> string \<Rightarrow> string \<Rightarrow> projection_record option res" where
  "get_projection_by_external_id r tenant kind external_id =
     (let matches = map snd (filter (\<lambda>((t, _, _, k), p). t = tenant \<and> k = kind \<and>
          pj_external_id p = Some external_id) (r_projections r))
      in if 1 < length matches then Inl (ValueError ''projection external identity is not unique'')
         else Inr (case matches of [] \<Rightarrow> None | p # _ \<Rightarrow> Some p))"

definition save_projection :: "repository \<Rightarrow> projection_record \<Rightarrow> repository res" where
  "save_projection r p =
     rbind (case dget (r_projections r) (projection_key p) of
        None \<Rightarrow> Inr ()
      | Some old \<Rightarrow>
          rbind (ensure (pj_idempotency_key old = pj_idempotency_key p)
             (ValueError ''projection idempotency key cannot change'')) (\<lambda>_.
          rbind (ensure (pj_external_id old = None \<or> pj_external_id old = pj_external_id p)
             (ValueError ''projection external id cannot change'')) (\<lambda>_.
          ensure (pj_sync_version old \<le> pj_sync_version p)
             (ValueError ''projection sync version cannot move backwards'')))) (\<lambda>_.
     Inr (r\<lparr>r_projections := dput (projection_key p) p (r_projections r)\<rparr>))"

definition replace_projection_external ::
    "repository \<Rightarrow> projection_record \<Rightarrow> string \<Rightarrow> string \<Rightarrow> repository res" where
  "replace_projection_external r p expected_external_id expected_idempotency_key =
     rbind (ensure (case dget (r_projections r) (projection_key p) of
        None \<Rightarrow> False
      | Some old \<Rightarrow> pj_id old = pj_id p \<and> pj_external_id old = Some expected_external_id \<and>
          pj_idempotency_key old = expected_idempotency_key \<and> pj_sync_version old \<le> pj_sync_version p)
        (ValueError ''projection replacement lost a concurrent update'')) (\<lambda>_.
     Inr (r\<lparr>r_projections := dput (projection_key p) p (r_projections r)\<rparr>))"

definition needs_projection :: "repository \<Rightarrow> string \<Rightarrow> node_instance \<Rightarrow> bool" where
  "needs_projection r tenant n \<longleftrightarrow>
     ni_status n = N_WAITING_HUMAN \<or>
     (ni_status n \<in> {N_DONE, N_FAILED, N_CANCELED} \<and>
      (case dget (r_projections r) (tenant, ni_id n, ni_current_attempt_no n, ''feishu_task'') of
         None \<Rightarrow> False | Some p \<Rightarrow> \<not> truthy (getv (pj_state p) ''completed'')))"

definition projection_instance_ids :: "repository \<Rightarrow> string \<Rightarrow> string option \<Rightarrow> int \<Rightarrow> string list res" where
  "projection_instance_ids r tenant after_id limit =
     rbind (check_positive limit) (\<lambda>_.
     Inr (take (nat limit) (sort (map (snd \<circ> fst) (filter (\<lambda>((t, iid), w).
         t = tenant \<and> (case after_id of None \<Rightarrow> True | Some a \<Rightarrow> a < iid) \<and>
         list_ex (\<lambda>(_, n). needs_projection r tenant n) (wi_nodes w)) (r_instances r))))))"

section \<open>The outbox\<close>

definition claimable :: "outbox_record \<Rightarrow> time \<Rightarrow> bool" where
  "claimable q now \<longleftrightarrow>
     (if or_status q \<in> {Q_PENDING, Q_FAILED} then oe_available_at (or_event q) \<le> now
      else or_status q = Q_PROCESSING \<and>
        (case or_claim_expires_at q of None \<Rightarrow> False | Some t \<Rightarrow> t \<le> now))"

text \<open>The claim of the \<open>i\<close>-th candidate with the \<open>i\<close>-th fresh token.\<close>

definition claim_step ::
    "(nat \<Rightarrow> string) \<Rightarrow> string \<Rightarrow> time \<Rightarrow> aggregate_key \<Rightarrow> repository \<times> outbox_claim list
       \<Rightarrow> repository \<times> outbox_claim list" where
  "claim_step tokens worker expires key = (\<lambda>(r, claims).
     case dget (r_outbox r) key of
       None \<Rightarrow> (r, claims)
     | Some q \<Rightarrow>
         let token = tokens (length claims);
             q' = q\<lparr>or_status := Q_PROCESSING, or_attempt_count := or_attempt_count q + 1,
                    or_claimed_by := Some worker, or_claim_token := Some token,
                    or_claim_expires_at := Some expires\<rparr>
         in (r\<lparr>r_outbox := dput key q' (r_outbox r)\<rparr>,
             claims @ [\<lparr>oc_event = or_event q, oc_claim_token = token, oc_claimed_by = worker,
                        oc_claim_expires_at = expires, oc_attempt_count = or_attempt_count q + 1\<rparr>]))"

definition claim_candidates ::
    "repository \<Rightarrow> string \<Rightarrow> time \<Rightarrow> string list option \<Rightarrow> aggregate_key list" where
  "claim_candidates r tenant now event_types =
     map fst (sort_key (\<lambda>(_, q). (oe_available_at (or_event q), oe_created_at (or_event q), oe_id (or_event q)))
       (filter (\<lambda>((t, _), q). t = tenant \<and> claimable q now \<and>
          (case event_types of None \<Rightarrow> True | Some types \<Rightarrow> oe_event_type (or_event q) \<in> set types))
        (r_outbox r)))"

definition claim_outbox ::
    "(nat \<Rightarrow> string) \<Rightarrow> repository \<Rightarrow> string \<Rightarrow> string \<Rightarrow> time \<Rightarrow> int \<Rightarrow> int \<Rightarrow> string list option
       \<Rightarrow> (repository \<times> outbox_claim list) res" where
  "claim_outbox tokens r tenant worker now limit claim_ttl event_types =
     rbind (ensure (\<not> blank worker) (ValueError ''worker_id is required'')) (\<lambda>_.
     rbind (check_positive limit) (\<lambda>_.
     rbind (ensure (0 < claim_ttl) (ValueError ''claim_ttl must be positive'')) (\<lambda>_.
     if event_types = Some [] then Inr (r, [])
     else Inr (fold (claim_step tokens worker (now + claim_ttl))
            (take (nat limit) (claim_candidates r tenant now event_types)) (r, [])))))"

definition claimed_record :: "repository \<Rightarrow> string \<Rightarrow> string \<Rightarrow> string \<Rightarrow> outbox_record res" where
  "claimed_record r tenant eid token =
     (case dget (r_outbox r) (tenant, eid) of
        None \<Rightarrow> Inl (InvalidOutboxClaimError eid)
      | Some q \<Rightarrow>
          (case or_claim_token q of
             None \<Rightarrow> Inl (InvalidOutboxClaimError eid)
           | Some t \<Rightarrow>
               if or_status q \<noteq> Q_PROCESSING then Inl (InvalidOutboxClaimError eid)
               else rbind (compare_digest t token) (\<lambda>same.
                 rbind (ensure same (InvalidOutboxClaimError eid)) (\<lambda>_. Inr q))))"

definition release :: "outbox_record \<Rightarrow> outbox_record" where
  "release q = q\<lparr>or_claimed_by := None, or_claim_token := None, or_claim_expires_at := None\<rparr>"

definition put_outbox :: "string \<Rightarrow> string \<Rightarrow> outbox_record \<Rightarrow> repository \<Rightarrow> repository" where
  "put_outbox tenant eid q r = r\<lparr>r_outbox := dput (tenant, eid) q (r_outbox r)\<rparr>"

definition mark_outbox_published :: "repository \<Rightarrow> string \<Rightarrow> string \<Rightarrow> string \<Rightarrow> time \<Rightarrow> repository res" where
  "mark_outbox_published r tenant eid token now =
     rbind (claimed_record r tenant eid token) (\<lambda>q.
     Inr (put_outbox tenant eid (release (q\<lparr>or_status := Q_PUBLISHED, or_published_at := Some now,
        or_last_error := None\<rparr>)) r))"

definition mark_outbox_failed ::
    "repository \<Rightarrow> string \<Rightarrow> string \<Rightarrow> string \<Rightarrow> string \<Rightarrow> time \<Rightarrow> repository res" where
  "mark_outbox_failed r tenant eid token error retry_at =
     rbind (claimed_record r tenant eid token) (\<lambda>q.
     Inr (put_outbox tenant eid (release (q\<lparr>or_status := Q_FAILED,
        or_event := (or_event q)\<lparr>oe_available_at := retry_at\<rparr>, or_last_error := Some error\<rparr>)) r))"

definition mark_outbox_exhausted ::
    "repository \<Rightarrow> string \<Rightarrow> string \<Rightarrow> string \<Rightarrow> string \<Rightarrow> time \<Rightarrow> repository res" where
  "mark_outbox_exhausted r tenant eid token error now =
     rbind (claimed_record r tenant eid token) (\<lambda>q.
     Inr (put_outbox tenant eid (release (q\<lparr>or_status := Q_EXHAUSTED,
        or_event := (or_event q)\<lparr>oe_available_at := now\<rparr>, or_exhausted_at := Some now,
        or_last_error := Some error\<rparr>)) r))"

end
