(* ===== verification/Store_Contracts.thy ===== *)
theory Store_Contracts
  imports Repository
begin

text \<open>
  The contracts of the stores, as locales interpreted on the repository of the code:
  \<open>versioned_store\<close> is optimistic concurrency (compare and swap on the aggregate version),
  \<open>one_shot_store\<close> the consumption of a preview together with the instance it applies to. The
  invariant \<open>repo_inv\<close> of the whole repository is preserved by all its operations.
\<close>

section \<open>Optimistic concurrency\<close>

locale versioned_store =
  fixes find_in :: "'s \<Rightarrow> 'k \<Rightarrow> 'v option"
    and version_of :: "'v \<Rightarrow> int"
    and key_of :: "'c \<Rightarrow> 'k"
    and swap :: "'s \<Rightarrow> int \<Rightarrow> 'c \<Rightarrow> 's res"
  assumes swap_old: "swap s e c = Inr s' \<Longrightarrow> \<exists>v. find_in s (key_of c) = Some v \<and> version_of v = e"
    and swap_new: "swap s e c = Inr s' \<Longrightarrow> \<exists>v. find_in s' (key_of c) = Some v \<and> version_of v = e + 1"
    and swap_other: "swap s e c = Inr s' \<Longrightarrow> k \<noteq> key_of c \<Longrightarrow> find_in s' k = find_in s k"
begin

lemma stale_rejected:
  assumes "find_in s (key_of c) = Some v" and "version_of v \<noteq> e"
  shows "\<exists>err. swap s e c = Inl err"
  using swap_old [of s e c] assms by (cases "swap s e c") auto

text \<open>Of two writers that read the same version, the second one to save is rejected.\<close>

lemma no_lost_update:
  assumes "swap s e c = Inr s'" and "key_of d = key_of c"
  shows "\<exists>err. swap s' e d = Inl err"
  using swap_new [OF assms(1)] assms(2) by (auto intro: stale_rejected)

abbreviation run :: "(int \<times> 'c) list \<Rightarrow> 's \<Rightarrow> 's res" where
  "run ops s \<equiv> foldM (\<lambda>(e, c) s. swap s e c) ops s"

text \<open>The version counts the writes of its key.\<close>

lemma run_version:
  assumes "run ops s = Inr s'" and "find_in s k = Some v"
  shows "\<exists>v'. find_in s' k = Some v' \<and>
     version_of v' = version_of v + int (length (filter (\<lambda>(e, c). key_of c = k) ops))"
  using assms
proof (induction ops arbitrary: s v)
  case (Cons op ops)
  obtain e c where op: "op = (e, c)" by (cases op)
  with Cons.prems(1) obtain u where u: "swap s e c = Inr u" "run ops u = Inr s'"
    by (auto simp: rbind_Inr_iff)
  show ?case
  proof (cases "key_of c = k")
    case True
    with swap_old [OF u(1)] swap_new [OF u(1)] Cons.prems(2) obtain v1
      where v1: "find_in u k = Some v1" "version_of v1 = version_of v + 1" by auto
    from Cons.IH [OF u(2) v1(1)] v1(2) True show ?thesis by (auto simp: op)
  next
    case False
    then have "find_in u k = Some v" using swap_other [OF u(1), of k] Cons.prems(2) by simp
    from Cons.IH [OF u(2) this] False show ?thesis by (auto simp: op)
  qed
qed simp

lemma run_untouched:
  assumes "run ops s = Inr s'" and "\<forall>(e, c) \<in> set ops. key_of c \<noteq> k"
  shows "find_in s' k = find_in s k"
  using assms
proof (induction ops arbitrary: s)
  case (Cons op ops)
  obtain e c where op: "op = (e, c)" by (cases op)
  with Cons.prems(1) obtain u where u: "swap s e c = Inr u" "run ops u = Inr s'"
    by (auto simp: rbind_Inr_iff)
  with Cons op swap_other [OF u(1), of k] show ?case by auto
qed simp

text \<open>Between two reads of the same version nothing was written.\<close>

lemma same_version_same_value:
  assumes "run ops s = Inr s'" and "find_in s k = Some v" and "find_in s' k = Some v'"
    and "version_of v' = version_of v"
  shows "v' = v"
proof -
  have "filter (\<lambda>(e, c). key_of c = k) ops = []"
    using run_version [OF assms(1,2)] assms(3,4) by auto
  then have "\<forall>(e, c) \<in> set ops. key_of c \<noteq> k" by (auto simp: filter_empty_conv)
  with run_untouched [OF assms(1)] assms(2,3) show ?thesis by simp
qed

end

section \<open>Events do not touch instances or previews\<close>

lemma append_audit_fields [simp]:
  "r_instances (append_audit e r) = r_instances r" "r_outbox (append_audit e r) = r_outbox r"
  "r_outbox_dedupe (append_audit e r) = r_outbox_dedupe r"
  "r_projections (append_audit e r) = r_projections r"
  "r_restart_previews (append_audit e r) = r_restart_previews r"
  "r_graph_edit_previews (append_audit e r) = r_graph_edit_previews r"
  by (simp_all add: append_audit_def Let_def)

lemma append_outbox_fields [simp]:
  "r_instances (append_outbox e r) = r_instances r"
  "r_audit_events (append_outbox e r) = r_audit_events r" "r_audit_ids (append_outbox e r) = r_audit_ids r"
  "r_projections (append_outbox e r) = r_projections r"
  "r_restart_previews (append_outbox e r) = r_restart_previews r"
  "r_graph_edit_previews (append_outbox e r) = r_graph_edit_previews r"
  by (simp_all add: append_outbox_def Let_def)

lemma fold_append_fields [simp]:
  "r_instances (fold append_audit es r) = r_instances r" "r_instances (fold append_outbox os r) = r_instances r"
  "r_restart_previews (fold append_audit es r) = r_restart_previews r"
  "r_restart_previews (fold append_outbox os r) = r_restart_previews r"
  "r_graph_edit_previews (fold append_audit es r) = r_graph_edit_previews r"
  "r_graph_edit_previews (fold append_outbox os r) = r_graph_edit_previews r"
  "r_outbox (fold append_audit es r) = r_outbox r"
  "r_outbox_dedupe (fold append_audit es r) = r_outbox_dedupe r"
  "r_audit_events (fold append_outbox os r) = r_audit_events r"
  "r_audit_ids (fold append_outbox os r) = r_audit_ids r"
  by (induction es arbitrary: r, simp_all) (induction os arbitrary: r, simp_all)+

lemma append_events_fields [simp]:
  "r_instances (append_events es os r) = r_instances r"
  "r_restart_previews (append_events es os r) = r_restart_previews r"
  "r_graph_edit_previews (append_events es os r) = r_graph_edit_previews r"
  by (simp_all add: append_events_def)

lemma store_instance_fields [simp]:
  "dget (r_instances (store_instance r w e)) k
     = (if k = instance_key w then Some (w\<lparr>wi_version := e + 1\<rparr>) else dget (r_instances r) k)"
  "r_restart_previews (store_instance r w e) = r_restart_previews r"
  "r_graph_edit_previews (store_instance r w e) = r_graph_edit_previews r"
  "r_outbox (store_instance r w e) = r_outbox r" "r_outbox_dedupe (store_instance r w e) = r_outbox_dedupe r"
  "r_audit_events (store_instance r w e) = r_audit_events r" "r_audit_ids (store_instance r w e) = r_audit_ids r"
  by (simp_all add: store_instance_def dict_simps)

section \<open>What a save does\<close>

lemma check_version_Inr [result_simps]: "check_version w e = Inr u \<longleftrightarrow> wi_version w = e"
  by (simp add: check_version_def result_simps)

lemma repo_save_Inr:
  "repo_save r w e es os = Inr r' \<longleftrightarrow>
     (\<exists>old. dget (r_instances r) (instance_key w) = Some old \<and> wi_version old = e) \<and>
     validate_events w es os = Inr () \<and> r' = append_events es os (store_instance r w e)"
  by (auto simp: repo_save_def result_simps)

lemma save_restart_Inr:
  "save_restart r w p e t es os = Inr (r', b) \<longleftrightarrow>
     (\<exists>old stored. dget (r_instances r) (instance_key w) = Some old \<and>
        dget (r_restart_previews r) (rp_tenant_id p, rp_id p) = Some stored \<and>
        (if rp_consumed_at stored \<noteq> None then r' = r \<and> \<not> b
         else b \<and> stored = p \<and> t < rp_expires_at p \<and> wi_version old = e \<and> validate_events w es os = Inr () \<and>
           r' = append_events es os ((store_instance r w e)
              \<lparr>r_restart_previews := dput (rp_tenant_id p, rp_id p)
                 (p\<lparr>rp_consumed_at := Some t, rp_applied_instance_version := Some (e + 1)\<rparr>)
                 (r_restart_previews r)\<rparr>)))"
  by (cases "dget (r_instances r) (instance_key w)";
      cases "dget (r_restart_previews r) (rp_tenant_id p, rp_id p)")
    (auto simp: save_restart_def result_simps)

lemma save_graph_edit_Inr:
  "save_graph_edit r w p e t es os = Inr (r', b) \<longleftrightarrow>
     (\<exists>old stored. dget (r_instances r) (instance_key w) = Some old \<and>
        dget (r_graph_edit_previews r) (ge_tenant_id p, ge_id p) = Some stored \<and>
        (if ge_consumed_at stored \<noteq> None then r' = r \<and> \<not> b
         else b \<and> same_preview stored p \<and> t < ge_expires_at stored \<and> wi_version old = e \<and>
           validate_events w es os = Inr () \<and>
           r' = append_events es os ((store_instance r w e)
              \<lparr>r_graph_edit_previews := dput (ge_tenant_id p, ge_id p)
                 (p\<lparr>ge_consumed_at := Some t, ge_applied_instance_version := Some (e + 1)\<rparr>)
                 (r_graph_edit_previews r)\<rparr>)))"
  by (cases "dget (r_instances r) (instance_key w)";
      cases "dget (r_graph_edit_previews r) (ge_tenant_id p, ge_id p)")
    (auto simp: save_graph_edit_def result_simps)

abbreviation find_instance :: "repository \<Rightarrow> aggregate_key \<Rightarrow> workflow_instance option" where
  "find_instance r k \<equiv> dget (r_instances r) k"

text \<open>A confirmation counts as a write only when it applied the preview.\<close>

definition applied :: "(repository \<times> bool) res \<Rightarrow> repository res" where
  "applied x = rbind x (\<lambda>(r, b). if b then Inr r else Inl (ValueError ''already applied''))"

lemma applied_Inr [result_simps]: "applied x = Inr r \<longleftrightarrow> x = Inr (r, True)"
  by (auto simp: applied_def result_simps split: if_splits)

interpretation instance_store: versioned_store find_instance wi_version "\<lambda>(w, es, os). instance_key w"
  "\<lambda>r e (w, es, os). repo_save r w e es os"
  by unfold_locales (auto simp: repo_save_Inr split: prod.splits)

interpretation restart_store: versioned_store find_instance wi_version "\<lambda>(w, p, t, es, os). instance_key w"
  "\<lambda>r e (w, p, t, es, os). applied (save_restart r w p e t es os)"
  by unfold_locales (auto simp: applied_Inr save_restart_Inr split: prod.splits if_splits)

interpretation edit_store: versioned_store find_instance wi_version "\<lambda>(w, p, t, es, os). instance_key w"
  "\<lambda>r e (w, p, t, es, os). applied (save_graph_edit r w p e t es os)"
  by unfold_locales (auto simp: applied_Inr save_graph_edit_Inr split: prod.splits if_splits)

section \<open>Previews are consumed once\<close>

text \<open>
  \<open>consume s p c\<close> confirms the preview \<open>p\<close>: it answers \<open>True\<close> when it applied the preview and
  \<open>False\<close> when an earlier confirmation had done so.
\<close>

locale one_shot_store =
  fixes find_preview :: "'s \<Rightarrow> 'k \<Rightarrow> 'p option"
    and preview_key :: "'p \<Rightarrow> 'k"
    and consumed :: "'p \<Rightarrow> bool"
    and consume :: "'s \<Rightarrow> 'p \<Rightarrow> 'c \<Rightarrow> ('s \<times> bool) res"
  assumes consume_applied: "consume s p c = Inr (s', True) \<Longrightarrow>
      \<exists>q. find_preview s (preview_key p) = Some q \<and> \<not> consumed q"
    and consume_marks: "consume s p c = Inr (s', True) \<Longrightarrow>
      \<exists>q. find_preview s' (preview_key p) = Some q \<and> consumed q"
    and consume_other: "consume s p c = Inr (s', b) \<Longrightarrow> k \<noteq> preview_key p \<Longrightarrow>
      find_preview s' k = find_preview s k"
    and consume_replay: "consume s p c = Inr (s', False) \<Longrightarrow> s' = s"
begin

lemma second_is_replay:
  assumes "consume s p c = Inr (s', True)" and "preview_key q = preview_key p"
    and "consume s' q d = Inr (s'', b)"
  shows "\<not> b \<and> s'' = s'"
proof -
  have "\<not> b" using consume_marks [OF assms(1)] consume_applied [of s' q d s''] assms(2,3) by (cases b) auto
  with consume_replay [of s' q d s''] assms(3) show ?thesis by (cases b) auto
qed

lemma stays_consumed:
  assumes "find_preview s k = Some q" and "consumed q" and "consume s p c = Inr (s', b)"
  shows "\<exists>q. find_preview s' k = Some q \<and> consumed q"
proof (cases "b \<and> k = preview_key p")
  case True
  with consume_marks [of s p c s'] assms(3) show ?thesis by auto
next
  case False
  then have "find_preview s' k = find_preview s k"
    using consume_other [OF assms(3)] consume_replay [of s p c s'] assms(3) by (cases b) auto
  with assms show ?thesis by simp
qed

text \<open>In every sequence of confirmations at most one of those of a preview applies it.\<close>

fun consume_all :: "('p \<times> 'c) list \<Rightarrow> 's \<Rightarrow> ('s \<times> bool list) res" where
  "consume_all [] s = Inr (s, [])"
| "consume_all ((p, c) # rest) s =
     rbind (consume s p c) (\<lambda>(s, b). rbind (consume_all rest s) (\<lambda>(s, bs). Inr (s, b # bs)))"

lemma consumed_never_again:
  assumes "consume_all ops s = Inr (s', bs)" and "find_preview s k = Some q" and "consumed q"
  shows "\<forall>i < length ops. preview_key (fst (ops ! i)) = k \<longrightarrow> \<not> bs ! i"
  using assms
proof (induction ops arbitrary: s bs q)
  case (Cons op ops)
  obtain p c where op: "op = (p, c)" by (cases op)
  with Cons.prems(1) obtain u b bs' where u: "consume s p c = Inr (u, b)"
      "consume_all ops u = Inr (s', bs')" "bs = b # bs'"
    by (auto simp: rbind_Inr_iff split: prod.splits)
  from stays_consumed [OF Cons.prems(2,3) u(1)] obtain q' where "find_preview u k = Some q'" "consumed q'"
    by blast
  from Cons.IH [OF u(2) this] have "\<forall>i < length ops. preview_key (fst (ops ! i)) = k \<longrightarrow> \<not> bs' ! i" .
  moreover have "preview_key p = k \<longrightarrow> \<not> b"
    using consume_applied [of s p c u] u(1) Cons.prems(2,3) by (cases b) auto
  ultimately show ?case using u(3) op by (auto simp: nth_Cons split: nat.splits)
qed simp

lemma applied_at_most_once:
  assumes "consume_all ops s = Inr (s', bs)" and "i < j" and "j < length ops"
    and "preview_key (fst (ops ! i)) = k" and "preview_key (fst (ops ! j)) = k"
  shows "\<not> (bs ! i \<and> bs ! j)"
  using assms
proof (induction ops arbitrary: s bs i j)
  case (Cons op ops)
  obtain p c where op: "op = (p, c)" by (cases op)
  with Cons.prems(1) obtain u b bs' where u: "consume s p c = Inr (u, b)"
      "consume_all ops u = Inr (s', bs')" "bs = b # bs'"
    by (auto simp: rbind_Inr_iff split: prod.splits)
  from Cons.prems(2) obtain j' where j': "j = Suc j'" by (cases j) auto
  show ?case
  proof (cases i)
    case 0
    show ?thesis
    proof
      assume "bs ! i \<and> bs ! j"
      then have "b" and later: "bs' ! j'" using u(3) 0 j' by simp_all
      then obtain q where "find_preview u k = Some q" "consumed q"
        using consume_marks [of s p c u] u(1) Cons.prems(4) 0 op by auto
      from consumed_never_again [OF u(2) this] later Cons.prems(3,5) j' show False by simp
    qed
  next
    case (Suc i')
    with Cons.IH [OF u(2), of i' j'] Cons.prems u(3) j' show ?thesis by simp
  qed
qed simp

end

interpretation restart_preview_store: one_shot_store
  "\<lambda>r k. dget (r_restart_previews r) k" "\<lambda>p. (rp_tenant_id p, rp_id p)" "\<lambda>p. rp_consumed_at p \<noteq> None"
  "\<lambda>r p (w, e, t, es, os). save_restart r w p e t es os"
  by unfold_locales (auto simp: save_restart_Inr dict_simps split: prod.splits if_splits)

interpretation graph_edit_preview_store: one_shot_store
  "\<lambda>r k. dget (r_graph_edit_previews r) k" "\<lambda>p. (ge_tenant_id p, ge_id p)" "\<lambda>p. ge_consumed_at p \<noteq> None"
  "\<lambda>r p (w, e, t, es, os). save_graph_edit r w p e t es os"
  by unfold_locales (auto simp: save_graph_edit_Inr dict_simps split: prod.splits if_splits)

end
