(* ===== verification/Service.thy ===== *)
theory Service
  imports Store_Contracts
begin

text \<open>
  \<open>src/larkflow/workflow/service.py\<close>: the commands of the application service. A command reads
  the repository \<open>r\<close>, computes on its private copy of the aggregate, and saves to the repository
  \<open>r'\<close> found at that moment, which other commands may have changed since the read; it returns
  the repository after the save. The factories of the service are fields of \<open>env\<close>: the ids and
  claim tokens a call draws, in the order it draws them, and the time read from the clock.
\<close>

section \<open>Environment\<close>

record directory_person =
  dp_person_id :: string
  dp_active :: bool
  dp_name :: string

record env =
  env_ids :: "nat \<Rightarrow> string"
  env_tokens :: "nat \<Rightarrow> string"
  env_now :: time
  env_claim_ttl :: int
  env_restart_preview_ttl :: int
  env_graph_edit_preview_ttl :: int
  env_directory :: "(string \<Rightarrow> string \<Rightarrow> directory_person res) option"

text \<open>\<open>correlation_id or self.id_factory()\<close>: the id, and how many ids have been drawn.\<close>

definition correlation :: "env \<Rightarrow> string option \<Rightarrow> string \<times> nat" where
  "correlation env c = (case c of
     Some s \<Rightarrow> if s = [] then (env_ids env 0, 1) else (s, 0)
   | None \<Rightarrow> (env_ids env 0, 1))"

definition mk_audit ::
    "env \<Rightarrow> nat \<Rightarrow> workflow_instance \<Rightarrow> string \<Rightarrow> string option \<Rightarrow> string \<Rightarrow> int \<Rightarrow> string option
       \<Rightarrow> int option \<Rightarrow> pmap \<Rightarrow> audit_event" where
  "mk_audit env i w event_type actor correlation_id aggregate_version key attempt_no payload =
     \<lparr>ae_id = env_ids env i, ae_tenant_id = wi_tenant_id w, ae_instance_id = wi_id w,
      ae_event_type = event_type, ae_source = ''workflow_service'',
      ae_correlation_id = correlation_id, ae_aggregate_version = aggregate_version,
      ae_occurred_at = env_now env, ae_actor_person_id = actor, ae_node_key = key,
      ae_attempt_no = attempt_no, ae_payload = freeze_map payload\<rparr>"

definition mk_outbox ::
    "env \<Rightarrow> nat \<Rightarrow> workflow_instance \<Rightarrow> string \<Rightarrow> string \<Rightarrow> string \<Rightarrow> int \<Rightarrow> pmap \<Rightarrow> outbox_event" where
  "mk_outbox env i w event_type aggregate_type aggregate_id aggregate_version payload =
     \<lparr>oe_id = env_ids env i, oe_tenant_id = wi_tenant_id w, oe_aggregate_type = aggregate_type,
      oe_aggregate_id = aggregate_id, oe_aggregate_version = aggregate_version,
      oe_event_type = event_type, oe_payload = freeze_map payload,
      oe_created_at = env_now env, oe_available_at = env_now env\<rparr>"

definition require_instance_owner :: "workflow_instance \<Rightarrow> string \<Rightarrow> unit res" where
  "require_instance_owner w actor =
     ensure (actor = wi_owner_person_id w) (AuthorizationError ''only the instance owner may perform this command'')"

definition require_active :: "workflow_instance \<Rightarrow> unit res" where
  "require_active w = ensure (wi_status w \<in> {I_RUNNING, I_PAUSED}) (TransitionError ''instance is not running'')"

text \<open>\<open>directory.validate_snapshot_owners\<close>\<close>

definition check_person :: "(string \<Rightarrow> string \<Rightarrow> directory_person res) \<Rightarrow> string \<Rightarrow> string \<Rightarrow> unit res" where
  "check_person directory tenant person =
     rbind (directory tenant person) (\<lambda>p.
     ensure (dp_person_id p = person \<and> dp_active p)
       (DirectoryValidationError ''workflow owner is not active in the enterprise directory''))"

definition validate_snapshot_owners ::
    "(string \<Rightarrow> string \<Rightarrow> directory_person res) \<Rightarrow> string \<Rightarrow> string \<Rightarrow> string list \<Rightarrow> unit res" where
  "validate_snapshot_owners directory tenant owner nodes =
     foldM (\<lambda>person _. check_person directory tenant person) (sort (remdups (owner # nodes))) ()"

definition check_owners :: "env \<Rightarrow> string \<Rightarrow> string \<Rightarrow> instance_snapshot \<Rightarrow> unit res" where
  "check_owners env tenant owner s = (case env_directory env of
     None \<Rightarrow> Inr ()
   | Some d \<Rightarrow> validate_snapshot_owners d tenant owner (map ns_owner_person_id (sn_nodes s)))"

text \<open>The save, followed by the read that the command returns.\<close>

definition save_and_get ::
    "repository \<Rightarrow> workflow_instance \<Rightarrow> int \<Rightarrow> audit_event list \<Rightarrow> outbox_event list
       \<Rightarrow> (repository \<times> workflow_instance) res" where
  "save_and_get r w expected_version audits outboxes =
     rbind (repo_save r w expected_version audits outboxes) (\<lambda>r.
     rbind (repo_get r (wi_tenant_id w) (wi_id w)) (\<lambda>w. Inr (r, w)))"

text \<open>\<open>except ConcurrentUpdateError\<close> around a save.\<close>

definition on_conflict :: "'a res \<Rightarrow> 'a res \<Rightarrow> 'a res" where
  "on_conflict x handler = (case x of Inl (ConcurrentUpdateError m) \<Rightarrow> handler | _ \<Rightarrow> x)"

section \<open>Drafts\<close>

definition create_draft ::
    "env \<Rightarrow> repository \<Rightarrow> string \<Rightarrow> string \<Rightarrow> string \<Rightarrow> instance_snapshot \<Rightarrow> string \<Rightarrow> string option
       \<Rightarrow> (repository \<times> workflow_instance) res" where
  "create_draft env r' iid tenant owner snapshot actor corr =
     rbind (ensure (\<not> blank iid) (ValueError ''instance_id is required'')) (\<lambda>_.
     rbind (ensure (\<not> blank tenant) (ValueError ''tenant_id is required'')) (\<lambda>_.
     rbind (ensure (\<not> blank owner) (ValueError ''owner_person_id is required'')) (\<lambda>_.
     rbind (ensure (\<not> blank actor) (ValueError ''actor_person_id is required'')) (\<lambda>_.
     rbind (validate_snapshot snapshot) (\<lambda>_.
     rbind (check_owners env tenant owner snapshot) (\<lambda>_.
     let w = new_instance iid tenant owner snapshot (env_now env);
         (c, i) = correlation env corr;
         audit = mk_audit env i w ''instance.draft_created'' (Some actor) c 0 None None []
     in rbind (repo_add r' w [audit] []) (\<lambda>r1.
        rbind (repo_get r1 tenant iid) (\<lambda>w. Inr (r1, w)))))))))"

definition preview_draft :: "repository \<Rightarrow> string \<Rightarrow> string \<Rightarrow> string \<Rightarrow> workflow_instance res" where
  "preview_draft r tenant iid actor =
     rbind (repo_get r tenant iid) (\<lambda>w.
     rbind (require_instance_owner w actor) (\<lambda>_.
     rbind (ensure (wi_status w = I_DRAFT) (TransitionError ''instance is not a draft'')) (\<lambda>_.
     rbind (validate_snapshot (wi_snapshot w)) (\<lambda>_. Inr w))))"

definition confirm_outbox :: "env \<Rightarrow> nat \<Rightarrow> workflow_instance \<Rightarrow> outbox_event list" where
  "confirm_outbox env i w = map (\<lambda>(j, n).
      mk_outbox env j w ''node.projection_create_requested'' ''node_instance'' (ni_id n) (ni_version n)
        [(''instance_id'', PStr (wi_id w)), (''node_key'', PStr (ni_node_key n)),
         (''attempt_no'', PInt (ni_current_attempt_no n))]) (enumerate i (map snd (wi_nodes w)))"

definition confirm_draft ::
    "env \<Rightarrow> repository \<Rightarrow> repository \<Rightarrow> string \<Rightarrow> string \<Rightarrow> string \<Rightarrow> string option
       \<Rightarrow> (repository \<times> workflow_instance) res" where
  "confirm_draft env r r' tenant iid actor corr =
     rbind (repo_get r tenant iid) (\<lambda>w.
     let version = wi_version w in
     rbind (require_instance_owner w actor) (\<lambda>_.
     rbind (ensure (wi_status w = I_DRAFT) (TransitionError ''instance is not a draft'')) (\<lambda>_.
     rbind (scheduler_confirm w (env_now env)) (\<lambda>w.
     let (c, i) = correlation env corr;
         audit = mk_audit env i w ''instance.confirmed'' (Some actor) c (version + 1) None None []
     in save_and_get r' w version [audit] (confirm_outbox env (i + 1) w)))))"

definition discard_draft ::
    "env \<Rightarrow> repository \<Rightarrow> repository \<Rightarrow> string \<Rightarrow> string \<Rightarrow> string \<Rightarrow> string option
       \<Rightarrow> (repository \<times> workflow_instance) res" where
  "discard_draft env r r' tenant iid actor corr =
     rbind (repo_get r tenant iid) (\<lambda>w.
     let version = wi_version w in
     rbind (require_instance_owner w actor) (\<lambda>_.
     rbind (transition_instance w I_DISCARDED (env_now env)) (\<lambda>w.
     let (c, i) = correlation env corr;
         audit = mk_audit env i w ''instance.discarded'' (Some actor) c (version + 1) None None []
     in save_and_get r' w version [audit] [])))"

section \<open>Pause, resume, cancel\<close>

text \<open>After a lost race: the repeated command succeeds when the other writer did the same.\<close>

definition same_outcome ::
    "repository \<Rightarrow> string \<Rightarrow> string \<Rightarrow> string \<Rightarrow> instance_status \<Rightarrow> (repository \<times> workflow_instance) res" where
  "same_outcome r tenant iid actor target =
     rbind (repo_get r tenant iid) (\<lambda>current.
     rbind (require_instance_owner current actor) (\<lambda>_.
     rbind (ensure (wi_status current = target) (ConcurrentUpdateError ''expected version'')) (\<lambda>_.
     Inr (r, current))))"

definition pause_instance ::
    "env \<Rightarrow> repository \<Rightarrow> repository \<Rightarrow> string \<Rightarrow> string \<Rightarrow> string \<Rightarrow> string option
       \<Rightarrow> (repository \<times> workflow_instance) res" where
  "pause_instance env r r' tenant iid actor corr =
     rbind (repo_get r tenant iid) (\<lambda>w.
     rbind (require_instance_owner w actor) (\<lambda>_.
     if wi_status w = I_PAUSED then Inr (r', w)
     else
       let version = wi_version w in
       rbind (transition_instance w I_PAUSED (env_now env)) (\<lambda>w.
       rbind (keys_with_status w ACTIVE_NODE_STATUSES) (\<lambda>active.
       let (c, i) = correlation env corr;
           audit = mk_audit env i w ''instance.paused'' (Some actor) c (version + 1) None None
             [(''active_node_keys'', PTuple (map PStr active))]
       in on_conflict (save_and_get r' w version [audit] []) (same_outcome r' tenant iid actor I_PAUSED)))))"

definition resume_instance ::
    "env \<Rightarrow> repository \<Rightarrow> repository \<Rightarrow> string \<Rightarrow> string \<Rightarrow> string \<Rightarrow> string option
       \<Rightarrow> (repository \<times> workflow_instance) res" where
  "resume_instance env r r' tenant iid actor corr =
     rbind (repo_get r tenant iid) (\<lambda>w.
     rbind (require_instance_owner w actor) (\<lambda>_.
     if wi_status w = I_RUNNING then Inr (r', w)
     else
       let version = wi_version w in
       rbind (transition_instance w I_RUNNING (env_now env)) (\<lambda>w.
       let (c, i) = correlation env corr;
           audit = mk_audit env i w ''instance.resumed'' (Some actor) c (version + 1) None None []
       in on_conflict (save_and_get r' w version [audit] []) (same_outcome r' tenant iid actor I_RUNNING))))"

definition service_preview_cancellation ::
    "repository \<Rightarrow> string \<Rightarrow> string \<Rightarrow> string \<Rightarrow> cancellation_preview res" where
  "service_preview_cancellation r tenant iid actor =
     rbind (repo_get r tenant iid) (\<lambda>w.
     rbind (require_instance_owner w actor) (\<lambda>_. preview_cancellation w))"

record cancellation_confirmation =
  cc_instance :: workflow_instance
  cc_canceled_node_keys :: "string list"
  cc_revoked_claim_node_keys :: "string list"
  cc_already_applied :: bool

definition already_canceled :: "workflow_instance \<Rightarrow> cancellation_confirmation res" where
  "already_canceled w =
     rbind (keys_with_status w [N_CANCELED]) (\<lambda>keys.
     Inr \<lparr>cc_instance = w, cc_canceled_node_keys = keys, cc_revoked_claim_node_keys = [],
          cc_already_applied = True\<rparr>)"

text \<open>\<open>human_work\<close>: whether the current attempt of a node shows in a human's task list.\<close>

definition is_human_work :: "workflow_instance \<Rightarrow> string \<Rightarrow> bool res" where
  "is_human_work w key =
     rbind (get_node w key) (\<lambda>n.
     if ni_executor n = HUMAN then Inr True
     else rbind (current_attempt w key) (\<lambda>a.
       Inr (na_status a = A_WAITING_HUMAN \<or> na_submitted_by_person_id a \<noteq> None)))"

definition human_work_keys :: "workflow_instance \<Rightarrow> string list \<Rightarrow> string list res" where
  "human_work_keys w keys =
     foldM (\<lambda>key acc. rbind (is_human_work w key) (\<lambda>b. Inr (if b then acc @ [key] else acc))) keys []"

text \<open>The projection events of nodes that were cancelled under their users.\<close>

definition canceled_outbox ::
    "env \<Rightarrow> nat \<Rightarrow> workflow_instance \<Rightarrow> (string \<Rightarrow> node_instance \<Rightarrow> int) \<Rightarrow> string list \<Rightarrow> outbox_event list res" where
  "canceled_outbox env i w attempt_of keys =
     mapM (\<lambda>(j, key). rbind (get_node w key) (\<lambda>n.
       Inr (mk_outbox env j w ''node.projection_sync_requested'' ''node_instance'' (ni_id n) (ni_version n)
         [(''instance_id'', PStr (wi_id w)), (''node_key'', PStr key),
          (''attempt_no'', PInt (attempt_of key n)), (''status'', PStr ''canceled'')]))) (enumerate i keys)"

definition confirm_cancellation ::
    "env \<Rightarrow> repository \<Rightarrow> repository \<Rightarrow> string \<Rightarrow> string \<Rightarrow> string \<Rightarrow> int \<Rightarrow> string option
       \<Rightarrow> (repository \<times> cancellation_confirmation) res" where
  "confirm_cancellation env r r' tenant iid actor expected_instance_version corr =
     rbind (repo_get r tenant iid) (\<lambda>w.
     rbind (require_instance_owner w actor) (\<lambda>_.
     if wi_status w = I_CANCELED then rbind (already_canceled w) (\<lambda>c. Inr (r', c))
     else
       let version = wi_version w; from_status = wi_status w in
       rbind (ensure (version = expected_instance_version)
          (StaleCancellationError ''instance changed after the cancellation preview'')) (\<lambda>_.
       rbind (human_work_keys w (snapshot_keys (wi_snapshot w))) (\<lambda>human_work.
       rbind (apply_cancellation w expected_instance_version (env_now env)) (\<lambda>(w, canceled, revoked).
       let (c, i) = correlation env corr;
           audit = mk_audit env i w ''instance.canceled'' (Some actor) c (version + 1) None None
             [(''from_status'', PStr (instance_status_value from_status)),
              (''canceled_node_keys'', PTuple (map PStr canceled)),
              (''revoked_claim_node_keys'', PTuple (map PStr revoked))]
       in rbind (canceled_outbox env (i + 1) w (\<lambda>_. ni_current_attempt_no)
            (filter (\<lambda>k. k \<in> set human_work) canceled)) (\<lambda>outbox.
          on_conflict
            (rbind (save_and_get r' w version [audit] outbox) (\<lambda>(r1, saved).
             Inr (r1, \<lparr>cc_instance = saved, cc_canceled_node_keys = canceled,
                        cc_revoked_claim_node_keys = revoked, cc_already_applied = False\<rparr>)))
            (rbind (repo_get r' tenant iid) (\<lambda>current.
             rbind (require_instance_owner current actor) (\<lambda>_.
             rbind (ensure (wi_status current = I_CANCELED)
                (StaleCancellationError ''instance changed while applying cancellation'')) (\<lambda>_.
             rbind (already_canceled current) (\<lambda>c. Inr (r', c))))))))))))"

end
