(* ===== verification/Service_Work.thy ===== *)
theory Service_Work
  imports Service
begin

text \<open>
  \<open>src/larkflow/workflow/service.py\<close>, continued: dispatch of ready and of expired work, human
  submission, transfer and decision, completion, renewal and failure of automated work, recovery
  of a failed node, and the reads for the owner.
\<close>

section \<open>Dispatch\<close>

record dispatch_state =
  ds_instance :: workflow_instance
  ds_activations :: "node_activation list"
  ds_automated :: nat

definition dispatched :: "bool \<Rightarrow> workflow_instance \<times> node_activation \<Rightarrow> dispatch_state \<Rightarrow> dispatch_state" where
  "dispatched automated = (\<lambda>(w, a) st.
     \<lparr>ds_instance = w, ds_activations = ds_activations st @ [a],
      ds_automated = ds_automated st + (if automated then 1 else 0)\<rparr>)"

definition dispatch_human :: "env \<Rightarrow> node_spec \<Rightarrow> dispatch_state \<Rightarrow> dispatch_state res" where
  "dispatch_human env spec st =
     rbind (get_node (ds_instance st) (ns_key spec)) (\<lambda>n.
     if ni_status n = N_READY \<and> ni_executor n = HUMAN
     then rbind (activate (env_claim_ttl env) [] (ds_instance st) (ns_key spec) None (env_now env))
            (\<lambda>wa. Inr (dispatched False wa st))
     else Inr st)"

definition allowed :: "string list option \<Rightarrow> string \<Rightarrow> bool" where
  "allowed keys key = (case keys of None \<Rightarrow> True | Some ks \<Rightarrow> key \<in> set ks)"

definition dispatch_expired ::
    "env \<Rightarrow> string \<Rightarrow> int \<Rightarrow> string list option \<Rightarrow> node_spec \<Rightarrow> dispatch_state \<Rightarrow> dispatch_state res" where
  "dispatch_expired env worker max_automated keys spec st =
     (if max_automated \<le> int (ds_automated st) then Inr st
      else rbind (get_node (ds_instance st) (ns_key spec)) (\<lambda>n.
        rbind (if ni_executor n \<noteq> HUMAN \<and> allowed keys (ns_key spec)
               then is_reclaimable (ds_instance st) (ns_key spec) (env_now env) else Inr False) (\<lambda>due.
        if due
        then rbind (reclaim_expired (env_claim_ttl env) (env_tokens env (ds_automated st))
               (ds_instance st) (ns_key spec) worker (env_now env)) (\<lambda>wa. Inr (dispatched True wa st))
        else Inr st)))"

definition dispatch_automated ::
    "env \<Rightarrow> string option \<Rightarrow> int \<Rightarrow> string list option \<Rightarrow> node_spec \<Rightarrow> dispatch_state \<Rightarrow> dispatch_state res" where
  "dispatch_automated env worker max_automated keys spec st =
     (if max_automated \<le> int (ds_automated st) then Inr st
      else rbind (get_node (ds_instance st) (ns_key spec)) (\<lambda>n.
        if ni_status n = N_READY \<and> ni_executor n \<noteq> HUMAN \<and> allowed keys (ns_key spec)
        then rbind (activate (env_claim_ttl env) (env_tokens env (ds_automated st))
               (ds_instance st) (ns_key spec) worker (env_now env)) (\<lambda>wa. Inr (dispatched True wa st))
        else Inr st))"

definition dispatch_loops ::
    "env \<Rightarrow> workflow_instance \<Rightarrow> string option \<Rightarrow> int \<Rightarrow> bool \<Rightarrow> string list option \<Rightarrow> dispatch_state res" where
  "dispatch_loops env w worker max_automated recover_expired keys =
     (let specs = sn_nodes (wi_snapshot w) in
      rbind (foldM (dispatch_human env) specs
         \<lparr>ds_instance = w, ds_activations = [], ds_automated = 0\<rparr>) (\<lambda>st.
      rbind (if recover_expired
             then foldM (dispatch_expired env (case worker of None \<Rightarrow> [] | Some s \<Rightarrow> s) max_automated keys) specs st
             else Inr st) (\<lambda>st.
      foldM (dispatch_automated env worker max_automated keys) specs st)))"

definition text_or_none :: "string option \<Rightarrow> pval" where
  "text_or_none t = (case t of None \<Rightarrow> PNone | Some s \<Rightarrow> PStr s)"

definition dispatch_audits ::
    "env \<Rightarrow> nat \<Rightarrow> workflow_instance \<Rightarrow> string \<Rightarrow> node_activation list \<Rightarrow> audit_event list" where
  "dispatch_audits env i w c acts = map (\<lambda>(j, a).
     mk_audit env j w (if act_recovered a then ''node.claim_recovered'' else ''node.activated'') None c
       (wi_version w + 1) (Some (act_node_key a)) (Some (act_attempt_no a))
       [(''executor'', PStr (executor_value (act_executor a))),
        (''worker_id'', text_or_none (act_claimed_by a))]) (enumerate i acts)"

text \<open>\<open>_activation_outbox\<close>\<close>

definition activation_outbox :: "env \<Rightarrow> nat \<Rightarrow> workflow_instance \<Rightarrow> node_activation \<Rightarrow> outbox_event" where
  "activation_outbox env j w a =
     mk_outbox env j w ''node.projection_sync_requested'' ''node_instance'' (act_node_instance_id a)
       (act_expected_node_version a)
       [(''instance_id'', PStr (wi_id w)), (''node_key'', PStr (act_node_key a)),
        (''attempt_no'', PInt (act_attempt_no a)),
        (''expected_node_version'', PInt (act_expected_node_version a)),
        (''claim_token'', text_or_none (act_claim_token a))]"

definition dispatch_outbox :: "env \<Rightarrow> nat \<Rightarrow> workflow_instance \<Rightarrow> node_activation list \<Rightarrow> outbox_event list" where
  "dispatch_outbox env i w acts =
     map (\<lambda>(j, a). activation_outbox env j w a)
       (enumerate i (filter (\<lambda>a. act_executor a = HUMAN) acts))"

definition dispatch ::
    "env \<Rightarrow> repository \<Rightarrow> repository \<Rightarrow> string \<Rightarrow> string \<Rightarrow> string option \<Rightarrow> int \<Rightarrow> bool \<Rightarrow> string list option
       \<Rightarrow> string option \<Rightarrow> (repository \<times> node_activation list) res" where
  "dispatch env r r' tenant iid worker max_automated recover_expired keys corr =
     rbind (repo_get r tenant iid) (\<lambda>w.
     rbind (ensure (wi_status w = I_RUNNING) (TransitionError ''instance is not running'')) (\<lambda>_.
     rbind (dispatch_loops env w worker max_automated recover_expired keys) (\<lambda>st.
     let acts = ds_activations st; (c, i) = correlation env corr in
     if acts = [] then Inr (r', [])
     else rbind (repo_save r' (ds_instance st) (wi_version w)
             (dispatch_audits env i (ds_instance st) c acts)
             (dispatch_outbox env (i + length acts) (ds_instance st) acts)) (\<lambda>r1.
          Inr (r1, acts)))))"

definition dispatch_ready ::
    "env \<Rightarrow> repository \<Rightarrow> repository \<Rightarrow> string \<Rightarrow> string \<Rightarrow> string option \<Rightarrow> int \<Rightarrow> string option
       \<Rightarrow> (repository \<times> node_activation list) res" where
  "dispatch_ready env r r' tenant iid worker max_automated corr =
     rbind (ensure (0 \<le> max_automated) (ValueError ''max_automated cannot be negative'')) (\<lambda>_.
     dispatch env r r' tenant iid worker max_automated False None corr)"

definition dispatch_due ::
    "env \<Rightarrow> repository \<Rightarrow> repository \<Rightarrow> string \<Rightarrow> string \<Rightarrow> string \<Rightarrow> int \<Rightarrow> string list option \<Rightarrow> string option
       \<Rightarrow> (repository \<times> node_activation list) res" where
  "dispatch_due env r r' tenant iid worker max_automated keys corr =
     rbind (ensure (\<not> blank worker) (ValueError ''worker_id is required'')) (\<lambda>_.
     rbind (ensure (0 \<le> max_automated) (ValueError ''max_automated cannot be negative'')) (\<lambda>_.
     dispatch env r r' tenant iid (Some worker) max_automated True keys corr))"

section \<open>Events of a finished node\<close>

text \<open>\<open>_completion_audits\<close> and \<open>_completion_outboxes\<close>; a list is as long as the ids it draws.\<close>

definition completion_audits ::
    "env \<Rightarrow> nat \<Rightarrow> workflow_instance \<Rightarrow> string \<Rightarrow> string option \<Rightarrow> string \<Rightarrow> int \<Rightarrow> string \<Rightarrow> int \<Rightarrow> pmap
       \<Rightarrow> audit_event list" where
  "completion_audits env i w event_type actor key attempt_no c version payload =
     mk_audit env i w event_type actor c version (Some key) (Some attempt_no) payload
     # (if wi_status w = I_DONE
        then [mk_audit env (i + 1) w ''instance.completed'' actor c version None None []] else [])"

definition completion_outboxes ::
    "env \<Rightarrow> nat \<Rightarrow> workflow_instance \<Rightarrow> string \<Rightarrow> outbox_event list res" where
  "completion_outboxes env i w key =
     rbind (get_node w key) (\<lambda>n. Inr (
       mk_outbox env i w ''node.projection_sync_requested'' ''node_instance'' (ni_id n) (ni_version n)
         [(''instance_id'', PStr (wi_id w)), (''node_key'', PStr key),
          (''attempt_no'', PInt (ni_current_attempt_no n)),
          (''status'', PStr (node_status_value (ni_status n)))]
       # (if wi_status w = I_DONE
          then [mk_outbox env (i + 1) w ''instance.projection_completed_requested'' ''workflow_instance''
                  (wi_id w) (wi_version w + 1) [(''instance_id'', PStr (wi_id w))]] else [])))"

text \<open>The tail that the commands finishing a node share: the events, then the save.\<close>

definition save_completion ::
    "env \<Rightarrow> repository \<Rightarrow> workflow_instance \<Rightarrow> string \<Rightarrow> string option \<Rightarrow> string \<Rightarrow> int \<Rightarrow> string option \<Rightarrow> pmap
       \<Rightarrow> (repository \<times> workflow_instance) res" where
  "save_completion env r' w event_type actor key attempt_no corr payload =
     (let (c, i) = correlation env corr;
          audits = completion_audits env i w event_type actor key attempt_no c (wi_version w + 1) payload
      in rbind (completion_outboxes env (i + length audits) w key) (\<lambda>outbox.
         save_and_get r' w (wi_version w) audits outbox))"

section \<open>Human work\<close>

text \<open>The deliverable check is skipped for a key that the snapshot does not have.\<close>

definition human_deliverable :: "workflow_instance \<Rightarrow> string \<Rightarrow> pmap \<Rightarrow> pmap res" where
  "human_deliverable w key result = (case snapshot_node (wi_snapshot w) key of
     Inl _ \<Rightarrow> Inr result
   | Inr spec \<Rightarrow> validate_human_deliverable (ns_work spec) (PDict result))"

definition service_submit_human ::
    "env \<Rightarrow> repository \<Rightarrow> repository \<Rightarrow> string \<Rightarrow> string \<Rightarrow> string \<Rightarrow> string \<Rightarrow> int \<Rightarrow> int \<Rightarrow> pmap
       \<Rightarrow> quality_result option \<Rightarrow> string option \<Rightarrow> (repository \<times> workflow_instance) res" where
  "service_submit_human env r r' tenant iid key actor attempt_no expected_node_version result quality corr =
     rbind (repo_get r tenant iid) (\<lambda>w.
     rbind (require_active w) (\<lambda>_.
     rbind (check_human_submission w key actor attempt_no expected_node_version) (\<lambda>_.
     rbind (human_deliverable w key result) (\<lambda>result.
     rbind (submit_human w key actor attempt_no expected_node_version result quality (env_now env)) (\<lambda>w.
     rbind (unlock_after w key (env_now env)) (\<lambda>w.
     save_completion env r' w ''node.human_submitted'' (Some actor) key attempt_no corr []))))))"

definition transfer_allowed :: "env \<Rightarrow> workflow_instance \<Rightarrow> string \<Rightarrow> string \<Rightarrow> string \<Rightarrow> int \<Rightarrow> int
       \<Rightarrow> (node_instance \<times> string) res" where
  "transfer_allowed env w key actor new_owner attempt_no expected_node_version =
     rbind (known_node w key (HumanTaskTransferNotAllowedError ''unknown Human task node'')) (\<lambda>(n, spec).
     rbind (ensure (ni_executor n = HUMAN \<and> human_decision_config (ns_work spec) = None)
        (HumanTaskTransferNotAllowedError ''only ordinary Human tasks can be transferred'')) (\<lambda>_.
     rbind (if ni_status n = N_WAITING_HUMAN
            then rbind (current_attempt w key) (\<lambda>a. Inr (na_status a = A_WAITING_HUMAN))
            else Inr False) (\<lambda>waiting.
     rbind (ensure waiting
        (HumanTaskTransferNotAllowedError ''Human task is not waiting for its current owner'')) (\<lambda>_.
     rbind (ensure (attempt_no = ni_current_attempt_no n) (StaleAttemptError ''node is on another attempt'')) (\<lambda>_.
     rbind (expect_node (ni_version n) expected_node_version) (\<lambda>_.
     rbind (ensure (actor = ni_owner_person_id n)
        (AuthorizationError ''only the current node owner may transfer the task'')) (\<lambda>_.
     let person = py_strip new_owner in
     rbind (ensure (person \<noteq> ni_owner_person_id n)
        (HumanTaskTransferNotAllowedError ''Human task is already assigned to that person'')) (\<lambda>_.
     Inr (n, person)))))))))"

definition check_new_owner :: "env \<Rightarrow> string \<Rightarrow> string \<Rightarrow> unit res" where
  "check_new_owner env tenant person =
     (case env_directory env of
        None \<Rightarrow> Inl (HumanTaskTransferNotAllowedError ''tenant directory validation is unavailable'')
      | Some directory \<Rightarrow>
          (case directory tenant person of
             Inl (DirectoryValidationError m) \<Rightarrow>
               Inl (HumanTaskTransferNotAllowedError ''new owner is not an active tenant member'')
           | Inl e \<Rightarrow> Inl e
           | Inr p \<Rightarrow> ensure (dp_person_id p = person \<and> dp_active p)
               (HumanTaskTransferNotAllowedError ''new owner is not an active tenant member'')))"

definition transfer_node :: "workflow_instance \<Rightarrow> string \<Rightarrow> node_instance \<Rightarrow> string \<Rightarrow> workflow_instance" where
  "transfer_node w key n person =
     put_node key (n\<lparr>ni_owner_person_id := person, ni_version := ni_version n + 1\<rparr>) w"

definition transfer_human_task ::
    "env \<Rightarrow> repository \<Rightarrow> repository \<Rightarrow> string \<Rightarrow> string \<Rightarrow> string \<Rightarrow> string \<Rightarrow> string \<Rightarrow> int \<Rightarrow> int
       \<Rightarrow> string option \<Rightarrow> (repository \<times> workflow_instance) res" where
  "transfer_human_task env r r' tenant iid key actor new_owner attempt_no expected_node_version corr =
     rbind (ensure (\<not> blank new_owner) (ValueError ''new_owner_person_id is required'')) (\<lambda>_.
     rbind (repo_get r tenant iid) (\<lambda>w.
     rbind (require_active w) (\<lambda>_.
     rbind (transfer_allowed env w key actor new_owner attempt_no expected_node_version) (\<lambda>(n, person).
     rbind (check_new_owner env tenant person) (\<lambda>_.
     let w' = transfer_node w key n person;
         (c, i) = correlation env corr;
         audit = mk_audit env i w' ''node.human_task_transferred'' (Some actor) c (wi_version w + 1)
           (Some key) (Some attempt_no)
           [(''from_owner_person_id'', PStr (ni_owner_person_id n)),
            (''to_owner_person_id'', PStr person), (''authored_owner_preserved'', PBool True)];
         outbox = mk_outbox env (i + 1) w' ''node.projection_sync_requested'' ''node_instance''
           (ni_id n) (ni_version n + 1)
           [(''instance_id'', PStr (wi_id w)), (''node_key'', PStr key), (''attempt_no'', PInt attempt_no),
            (''status'', PStr (node_status_value (ni_status n))),
            (''transfer_from_person_id'', PStr (ni_owner_person_id n))]
     in save_and_get r' w' (wi_version w) [audit] [outbox])))))"

text \<open>The evidence and the suggestion of a rejection. These literals have characters beyond the
  range of \<open>char\<close>; they stand here as their UTF-8 bytes.\<close>

definition REJECTION_EVIDENCE :: string where
  "REJECTION_EVIDENCE = map char_of
     [232, 138, 130, 231, 130, 185, 32, 79, 119, 110, 101, 114, 32, 230, 152, 142, 231, 161, 174, 233,
      128, 128, 229, 155, 158, 239, 188, 154 :: nat]"

definition REJECTION_SUGGESTION :: string where
  "REJECTION_SUGGESTION = map char_of
     [231, 148, 177, 32, 73, 110, 115, 116, 97, 110, 99, 101, 32, 79, 119, 110, 101, 114, 32, 233, 128,
      154, 232, 191, 135, 232, 138, 130, 231, 130, 185, 233, 135, 141, 229, 144, 175, 233, 162, 132,
      232, 167, 136, 233, 128, 137, 230, 139, 169, 232, 191, 148, 229, 183, 165, 232, 140, 131, 229,
      155, 180, 239, 188, 140, 230, 150, 176, 32, 65, 116, 116, 101, 109, 112, 116, 32, 228, 188, 154,
      230, 144, 186, 229, 184, 166, 230, 156, 172, 230, 172, 161, 233, 128, 128, 229, 155, 158, 230,
      132, 143, 232, 167, 129, 239, 188, 140, 230, 151, 167, 32, 65, 116, 116, 101, 109, 112, 116, 227,
      128, 129, 231, 187, 147, 230, 158, 156, 229, 146, 140, 229, 174, 161, 232, 174, 161, 231, 187,
      167, 231, 187, 173, 228, 191, 157, 231, 149, 153, 227, 128, 130 :: nat]"

definition feedback_value :: "string option \<Rightarrow> pval" where
  "feedback_value f = (case f of None \<Rightarrow> PNone | Some s \<Rightarrow> PStr s)"

text \<open>\<open>f"...{normalized_feedback}"\<close>: a rejection always has feedback.\<close>

definition rejection_quality :: "string option \<Rightarrow> quality_result res" where
  "rejection_quality feedback =
     mk_quality_result Q_FAIL (REJECTION_EVIDENCE @ (case feedback of None \<Rightarrow> ''None'' | Some s \<Rightarrow> s))
       REJECTION_SUGGESTION"

definition apply_decision ::
    "workflow_instance \<Rightarrow> string \<Rightarrow> human_decision \<Rightarrow> string \<Rightarrow> int \<Rightarrow> int \<Rightarrow> string option \<Rightarrow> time
       \<Rightarrow> workflow_instance res" where
  "apply_decision w key decision actor attempt_no expected_node_version feedback now =
     (case decision of
        ACCEPT \<Rightarrow>
          rbind (submit_human w key actor attempt_no expected_node_version
             [(''decision'', PStr ''accepted'')] None now) (\<lambda>w.
          unlock_after w key now)
      | REJECT \<Rightarrow>
          rbind (rejection_quality feedback) (\<lambda>quality.
          rbind (reject_human w key actor attempt_no expected_node_version
             [(''decision'', PStr ''rejected''), (''feedback'', feedback_value feedback)] quality now) (\<lambda>w.
          fail_instance w now)))"

definition decision_event :: "human_decision \<Rightarrow> string" where
  "decision_event d = (case d of ACCEPT \<Rightarrow> ''node.human_decision_accepted''
     | REJECT \<Rightarrow> ''node.human_decision_rejected'')"

definition decision_allowed :: "workflow_instance \<Rightarrow> string \<Rightarrow> string \<Rightarrow> pmap res" where
  "decision_allowed w key actor =
     rbind (known_node w key (HumanDecisionNotAllowedError ''unknown Human decision node'')) (\<lambda>(n, spec).
     case human_decision_config (ns_work spec) of
       None \<Rightarrow> Inl (HumanDecisionNotAllowedError ''node is not an accept or reject decision'')
     | Some config \<Rightarrow>
         rbind (ensure (ni_executor n = HUMAN)
           (HumanDecisionNotAllowedError ''node is not an accept or reject decision'')) (\<lambda>_.
         rbind (ensure (actor = ni_owner_person_id n)
           (AuthorizationError ''only the node owner may submit'')) (\<lambda>_. Inr config)))"

definition submit_human_decision ::
    "env \<Rightarrow> repository \<Rightarrow> repository \<Rightarrow> string \<Rightarrow> string \<Rightarrow> string \<Rightarrow> human_decision \<Rightarrow> string \<Rightarrow> int \<Rightarrow> int
       \<Rightarrow> int \<Rightarrow> pval \<Rightarrow> string option \<Rightarrow> (repository \<times> workflow_instance) res" where
  "submit_human_decision env r r' tenant iid key decision actor attempt_no expected_instance_version
       expected_node_version feedback corr =
     rbind (repo_get r tenant iid) (\<lambda>w.
     rbind (ensure (wi_version w = expected_instance_version)
        (StaleHumanDecisionError ''instance changed after the decision card was sent'')) (\<lambda>_.
     rbind (require_active w) (\<lambda>_.
     rbind (decision_allowed w key actor) (\<lambda>config.
     rbind (normalize_human_decision_feedback decision feedback) (\<lambda>feedback.
     rbind (apply_decision w key decision actor attempt_no expected_node_version feedback (env_now env)) (\<lambda>w.
     on_conflict
       (save_completion env r' w (decision_event decision) (Some actor) key attempt_no corr
          [(''decision'', PStr (decision_value decision)),
           (''reject_target'', getv config ''reject_target''),
           (''feedback'', feedback_value feedback)])
       (Inl (StaleHumanDecisionError ''instance changed while applying the decision''))))))))"

section \<open>Automated work\<close>

definition search_query :: "node_spec res \<Rightarrow> pmap \<Rightarrow> pmap" where
  "search_query spec result =
     (case spec of
        Inl _ \<Rightarrow> []
      | Inr spec \<Rightarrow>
          (case as_map (getv (ns_work spec) ''tool'') of
             None \<Rightarrow> []
           | Some tool \<Rightarrow>
               if ns_executor spec = TOOL \<and> getv tool ''kind'' = PStr ''web.search''
               then (case as_str (getv result ''query'') of
                  None \<Rightarrow> []
                | Some q \<Rightarrow> if 0 < length q \<and> length q \<le> 100 then [(''search_query'', PStr q)] else [])
               else []))"

definition automated_deliverable :: "node_spec res \<Rightarrow> pmap \<Rightarrow> pmap res" where
  "automated_deliverable spec result =
     (case spec of
        Inl _ \<Rightarrow> Inr result
      | Inr spec \<Rightarrow> validate_node_deliverable (ns_work spec) (to_json_value (PDict result)) True)"

definition service_complete_automated ::
    "env \<Rightarrow> repository \<Rightarrow> repository \<Rightarrow> string \<Rightarrow> string \<Rightarrow> string \<Rightarrow> int \<Rightarrow> int \<Rightarrow> string \<Rightarrow> pmap
       \<Rightarrow> quality_result option \<Rightarrow> string \<Rightarrow> string option \<Rightarrow> (repository \<times> workflow_instance) res" where
  "service_complete_automated env r r' tenant iid key attempt_no expected_node_version claim_token result
       quality worker corr =
     rbind (ensure (\<not> blank worker) (ValueError ''worker_id is required'')) (\<lambda>_.
     rbind (repo_get r tenant iid) (\<lambda>w.
     rbind (require_active w) (\<lambda>_.
     rbind (check_automated_completion w key attempt_no expected_node_version claim_token worker (env_now env)) (\<lambda>_.
     let spec = snapshot_node (wi_snapshot w) key in
     rbind (automated_deliverable spec result) (\<lambda>result.
     rbind (complete_automated w key attempt_no expected_node_version claim_token worker result quality
        (env_now env)) (\<lambda>w.
     rbind (unlock_after w key (env_now env)) (\<lambda>w.
     save_completion env r' w ''node.automated_completed'' None key attempt_no corr
       ((''worker_id'', PStr worker) # search_query spec result))))))))"

definition service_renew_automated_claim ::
    "env \<Rightarrow> repository \<Rightarrow> repository \<Rightarrow> string \<Rightarrow> string \<Rightarrow> string \<Rightarrow> int \<Rightarrow> int \<Rightarrow> string \<Rightarrow> string
       \<Rightarrow> string option \<Rightarrow> (repository \<times> time) res" where
  "service_renew_automated_claim env r r' tenant iid key attempt_no expected_node_version claim_token worker corr =
     rbind (ensure (\<not> blank worker) (ValueError ''worker_id is required'')) (\<lambda>_.
     rbind (repo_get r tenant iid) (\<lambda>w.
     rbind (require_active w) (\<lambda>_.
     rbind (renew_automated_claim (env_claim_ttl env) w key attempt_no expected_node_version claim_token worker
        (env_now env)) (\<lambda>(w', expires).
     let (c, i) = correlation env corr;
         audit = mk_audit env i w' ''node.claim_renewed'' None c (wi_version w + 1) (Some key) (Some attempt_no)
           [(''worker_id'', PStr worker), (''claim_expires_at'', PStr (isoformat expires))]
     in rbind (repo_save r' w' (wi_version w) [audit] []) (\<lambda>r1. Inr (r1, expires))))))"

definition service_fail_automated ::
    "env \<Rightarrow> repository \<Rightarrow> repository \<Rightarrow> string \<Rightarrow> string \<Rightarrow> string \<Rightarrow> int \<Rightarrow> int \<Rightarrow> string \<Rightarrow> string \<Rightarrow> string
       \<Rightarrow> string \<Rightarrow> string option \<Rightarrow> (repository \<times> workflow_instance) res" where
  "service_fail_automated env r r' tenant iid key attempt_no expected_node_version claim_token code message
       worker corr =
     rbind (ensure (\<not> blank worker) (ValueError ''worker_id is required'')) (\<lambda>_.
     rbind (repo_get r tenant iid) (\<lambda>w.
     rbind (require_active w) (\<lambda>_.
     rbind (fail_automated w key attempt_no expected_node_version claim_token worker code message
        (env_now env)) (\<lambda>w.
     rbind (fail_instance w (env_now env)) (\<lambda>w.
     let (c, i) = correlation env corr;
         audit = mk_audit env i w ''node.automated_failed'' None c (wi_version w + 1) (Some key) (Some attempt_no)
           [(''worker_id'', PStr worker), (''error_code'', PStr code)]
     in rbind (completion_outboxes env (i + 1) w key) (\<lambda>outbox.
        save_and_get r' w (wi_version w) [audit] outbox))))))"

definition recovery_event :: "recovery_action \<Rightarrow> string" where
  "recovery_event action = (case action of RETRY \<Rightarrow> ''node.automated_retry_started''
     | HUMAN_TAKEOVER \<Rightarrow> ''node.human_takeover_started'')"

definition recovery_outbox ::
    "env \<Rightarrow> nat \<Rightarrow> workflow_instance \<Rightarrow> string \<Rightarrow> node_instance \<Rightarrow> recovery_action \<Rightarrow> outbox_event list" where
  "recovery_outbox env i w key n action =
     (if action = HUMAN_TAKEOVER
      then [mk_outbox env i w ''node.projection_create_requested'' ''node_instance'' (ni_id n) (ni_version n)
        [(''instance_id'', PStr (wi_id w)), (''node_key'', PStr key),
         (''attempt_no'', PInt (ni_current_attempt_no n)),
         (''status'', PStr (node_status_value (ni_status n))),
         (''recovery_action'', PStr (recovery_action_value action))]]
      else [])"

definition recover_failed_node ::
    "env \<Rightarrow> repository \<Rightarrow> repository \<Rightarrow> string \<Rightarrow> string \<Rightarrow> string \<Rightarrow> recovery_action \<Rightarrow> string \<Rightarrow> int \<Rightarrow> int
       \<Rightarrow> int \<Rightarrow> string option \<Rightarrow> (repository \<times> workflow_instance) res" where
  "recover_failed_node env r r' tenant iid key action actor expected_instance_version
       expected_node_version expected_attempt_no corr =
     rbind (repo_get r tenant iid) (\<lambda>w.
     rbind (apply_failed_node_recovery w key action actor expected_instance_version expected_node_version
        expected_attempt_no (env_now env)) (\<lambda>(w', affected).
     rbind (get_node w' key) (\<lambda>n.
     let (c, i) = correlation env corr;
         audit = mk_audit env i w' (recovery_event action) (Some actor) c (wi_version w + 1) (Some key)
           (Some (ni_current_attempt_no n))
           [(''failed_attempt_no'', PInt expected_attempt_no),
            (''recovery_action'', PStr (recovery_action_value action)),
            (''affected_node_keys'', PTuple (map PStr affected))]
     in save_and_get r' w' (wi_version w) [audit] (recovery_outbox env (i + 1) w' key n action))))"

section \<open>Reads for the owner\<close>

definition get_for_owner :: "repository \<Rightarrow> string \<Rightarrow> string \<Rightarrow> string \<Rightarrow> workflow_instance res" where
  "get_for_owner r tenant iid actor =
     rbind (repo_get r tenant iid) (\<lambda>w. rbind (require_instance_owner w actor) (\<lambda>_. Inr w))"

definition list_for_owner ::
    "repository \<Rightarrow> string \<Rightarrow> string \<Rightarrow> int \<Rightarrow> workflow_instance_summary list res" where
  "list_for_owner r tenant actor limit =
     rbind (ensure (\<not> blank tenant) (ValueError ''tenant_id is required'')) (\<lambda>_.
     rbind (ensure (\<not> blank actor) (ValueError ''actor_person_id is required'')) (\<lambda>_.
     rbind (ensure (1 \<le> limit \<and> limit \<le> 100) (ValueError ''limit must be between 1 and 100'')) (\<lambda>_.
     repo_list_for_owner r tenant actor limit)))"

end
