(* ===== verification/Service_Preview.thy ===== *)
theory Service_Preview
  imports Service_Work
begin

text \<open>
  \<open>src/larkflow/workflow/service.py\<close>, continued: the previewed commands. A graph edit or a restart
  is first previewed, which stores what it would do and to which version, and then confirmed,
  which recomputes it, compares, applies it and consumes the preview in one save.
\<close>

record 'p confirmation =
  cf_instance :: workflow_instance
  cf_preview :: 'p
  cf_already_applied :: bool

section \<open>Graph edits\<close>

definition edit_preview_of ::
    "env \<Rightarrow> workflow_instance \<Rightarrow> string \<Rightarrow> graph_edit_plan \<Rightarrow> graph_edit_preview" where
  "edit_preview_of env w actor plan =
     \<lparr>ge_id = env_ids env 0, ge_tenant_id = wi_tenant_id w, ge_instance_id = wi_id w,
      ge_actor_person_id = actor, ge_operations = gp_operations plan,
      ge_added_node_keys = gp_added_node_keys plan, ge_updated_node_keys = gp_updated_node_keys plan,
      ge_removed_node_keys = gp_removed_node_keys plan,
      ge_candidate_snapshot_hash = gp_candidate_snapshot_hash plan,
      ge_expected_instance_version = wi_version w, ge_graph_revision = wi_graph_revision w,
      ge_proposed_graph_revision = gp_proposed_graph_revision plan,
      ge_created_at = env_now env, ge_expires_at = env_now env + env_graph_edit_preview_ttl env,
      ge_consumed_at = None, ge_applied_instance_version = None\<rparr>"

text \<open>\<open>_validate_edited_snapshot_owners\<close>\<close>

definition validate_edited_snapshot_owners :: "env \<Rightarrow> workflow_instance \<Rightarrow> unit res" where
  "validate_edited_snapshot_owners env w =
     check_owners env (wi_tenant_id w) (wi_owner_person_id w) (wi_snapshot w)"

definition preview_graph_edit ::
    "env \<Rightarrow> repository \<Rightarrow> repository \<Rightarrow> string \<Rightarrow> string \<Rightarrow> pval \<Rightarrow> string
       \<Rightarrow> (repository \<times> graph_edit_preview) res" where
  "preview_graph_edit env r r' tenant iid operations actor =
     rbind (repo_get r tenant iid) (\<lambda>w.
     rbind (require_instance_owner w actor) (\<lambda>_.
     rbind (apply_future_graph_edit w operations (env_now env)) (\<lambda>(w', plan).
     rbind (validate_edited_snapshot_owners env w') (\<lambda>_.
     rbind (check_graph_edit_preview (edit_preview_of env w actor plan)) (\<lambda>p.
     rbind (add_graph_edit_preview r' p) (\<lambda>r1. Inr (r1, p)))))))"

definition same_plan :: "graph_edit_plan \<Rightarrow> graph_edit_preview \<Rightarrow> bool" where
  "same_plan plan p \<longleftrightarrow>
     list_all2 map_eq (gp_operations plan) (ge_operations p) \<and>
     gp_added_node_keys plan = ge_added_node_keys p \<and>
     gp_updated_node_keys plan = ge_updated_node_keys p \<and>
     gp_removed_node_keys plan = ge_removed_node_keys p \<and>
     gp_candidate_snapshot_hash plan = ge_candidate_snapshot_hash p \<and>
     gp_proposed_graph_revision plan = ge_proposed_graph_revision p"

definition keys_value :: "string list \<Rightarrow> pval" where
  "keys_value ks = PTuple (map PStr ks)"

definition graph_edit_audit :: "env \<Rightarrow> workflow_instance \<Rightarrow> string \<Rightarrow> graph_edit_preview \<Rightarrow> int \<Rightarrow> audit_event" where
  "graph_edit_audit env w actor p version =
     mk_audit env 0 w ''instance.graph_edited'' (Some actor) (ge_id p) version None None
       [(''operations'', PTuple (map PFrozen (ge_operations p))),
        (''added_node_keys'', keys_value (ge_added_node_keys p)),
        (''updated_node_keys'', keys_value (ge_updated_node_keys p)),
        (''removed_node_keys'', keys_value (ge_removed_node_keys p)),
        (''previous_graph_revision'', PInt (ge_graph_revision p)),
        (''graph_revision'', PInt (ge_proposed_graph_revision p)),
        (''candidate_snapshot_hash'', PStr (ge_candidate_snapshot_hash p))]"

definition graph_edit_outbox :: "env \<Rightarrow> workflow_instance \<Rightarrow> int \<Rightarrow> outbox_event list" where
  "graph_edit_outbox env w version =
     (if wi_status w = I_DONE
      then [mk_outbox env 1 w ''instance.projection_completed_requested'' ''workflow_instance'' (wi_id w) version
         [(''instance_id'', PStr (wi_id w)), (''status'', PStr (instance_status_value (wi_status w)))]]
      else [])"

text \<open>What a confirmation returns: the instance and the preview as they are stored now.\<close>

definition confirmed_edit ::
    "repository \<Rightarrow> string \<Rightarrow> string \<Rightarrow> string \<Rightarrow> bool
       \<Rightarrow> (repository \<times> graph_edit_preview confirmation) res" where
  "confirmed_edit r tenant iid pid already =
     rbind (repo_get r tenant iid) (\<lambda>w.
     rbind (get_graph_edit_preview r tenant pid) (\<lambda>p.
     Inr (r, \<lparr>cf_instance = w, cf_preview = p, cf_already_applied = already\<rparr>)))"

definition confirm_graph_edit ::
    "env \<Rightarrow> repository \<Rightarrow> repository \<Rightarrow> string \<Rightarrow> string \<Rightarrow> string
       \<Rightarrow> (repository \<times> graph_edit_preview confirmation) res" where
  "confirm_graph_edit env r r' tenant pid actor =
     rbind (get_graph_edit_preview r tenant pid) (\<lambda>p.
     rbind (ensure (ge_actor_person_id p = actor)
        (AuthorizationError ''only the preview actor may confirm graph edit'')) (\<lambda>_.
     rbind (repo_get r tenant (ge_instance_id p)) (\<lambda>w.
     rbind (require_instance_owner w actor) (\<lambda>_.
     if ge_consumed_at p \<noteq> None
     then Inr (r', \<lparr>cf_instance = w, cf_preview = p, cf_already_applied = True\<rparr>)
     else
       rbind (ensure (env_now env < ge_expires_at p) (GraphEditPreviewExpiredError (ge_id p))) (\<lambda>_.
       rbind (ensure (wi_version w = ge_expected_instance_version p \<and> wi_graph_revision w = ge_graph_revision p)
          (StaleGraphEditPreviewError ''instance changed after graph edit preview'')) (\<lambda>_.
       rbind (apply_future_graph_edit w (PTuple (map PFrozen (ge_operations p))) (env_now env)) (\<lambda>(w', plan).
       rbind (ensure (same_plan plan p)
          (StaleGraphEditPreviewError ''graph edit semantics changed after preview'')) (\<lambda>_.
       rbind (validate_edited_snapshot_owners env w') (\<lambda>_.
       rbind (on_conflict
          (save_graph_edit r' w' p (wi_version w) (env_now env)
             [graph_edit_audit env w' actor p (wi_version w + 1)]
             (graph_edit_outbox env w' (wi_version w + 1)))
          (Inl (StaleGraphEditPreviewError ''instance changed while confirming graph edit''))) (\<lambda>(r1, saved).
       confirmed_edit r1 tenant (ge_instance_id p) pid (\<not> saved)))))))))))"

section \<open>Restarts\<close>

text \<open>\<open>_add_restart_preview\<close>\<close>

definition service_add_restart_preview ::
    "env \<Rightarrow> repository \<Rightarrow> workflow_instance \<Rightarrow> string \<Rightarrow> restart_scope \<Rightarrow> string option \<Rightarrow> string list
       \<Rightarrow> (repository \<times> restart_preview) res" where
  "service_add_restart_preview env r' w actor scope key affected =
     rbind (mk_restart_preview (env_ids env 0) (wi_tenant_id w) (wi_id w) actor key affected (wi_version w)
        (wi_graph_revision w) (env_now env) (env_now env + env_restart_preview_ttl env) scope) (\<lambda>p.
     rbind (add_restart_preview r' p) (\<lambda>r1. Inr (r1, p)))"

definition preview_node_restart ::
    "env \<Rightarrow> repository \<Rightarrow> repository \<Rightarrow> string \<Rightarrow> string \<Rightarrow> string \<Rightarrow> string
       \<Rightarrow> (repository \<times> restart_preview) res" where
  "preview_node_restart env r r' tenant iid key actor =
     rbind (repo_get r tenant iid) (\<lambda>w.
     rbind (require_instance_owner w actor) (\<lambda>_.
     rbind (affected_restart_node_keys w key) (\<lambda>affected.
     service_add_restart_preview env r' w actor NODE (Some key) affected)))"

definition preview_instance_restart ::
    "env \<Rightarrow> repository \<Rightarrow> repository \<Rightarrow> string \<Rightarrow> string \<Rightarrow> string
       \<Rightarrow> (repository \<times> restart_preview) res" where
  "preview_instance_restart env r r' tenant iid actor =
     rbind (repo_get r tenant iid) (\<lambda>w.
     rbind (require_instance_owner w actor) (\<lambda>_.
     rbind (affected_instance_restart_node_keys w) (\<lambda>affected.
     service_add_restart_preview env r' w actor INSTANCE None affected)))"

text \<open>\<open>old_attempt_nos\<close>, in the order of the affected nodes.\<close>

definition old_attempt_nos :: "workflow_instance \<Rightarrow> string list \<Rightarrow> (string, int) odict res" where
  "old_attempt_nos w keys =
     foldM (\<lambda>key acc. rbind (get_node w key) (\<lambda>n. Inr (dput key (ni_current_attempt_no n) acc))) keys []"

definition restart_audit ::
    "env \<Rightarrow> workflow_instance \<Rightarrow> string \<Rightarrow> restart_preview \<Rightarrow> int \<Rightarrow> audit_event res" where
  "restart_audit env w actor p version =
     rbind (case rp_node_key p of
        None \<Rightarrow> Inr None
      | Some key \<Rightarrow> rbind (get_node w key) (\<lambda>n. Inr (Some (ni_current_attempt_no n)))) (\<lambda>attempt_no.
     Inr (mk_audit env 0 w (if rp_scope p = NODE then ''instance.node_restarted'' else ''instance.restarted'')
       (Some actor) (rp_id p) version (rp_node_key p) attempt_no
       [(''scope'', PStr (scope_value (rp_scope p))),
        (''affected_node_keys'', keys_value (rp_affected_node_keys p)),
        (''graph_revision'', PInt (rp_graph_revision p)),
        (''preview_instance_version'', PInt (rp_expected_instance_version p))]))"

definition confirmed_restart ::
    "repository \<Rightarrow> string \<Rightarrow> string \<Rightarrow> string \<Rightarrow> bool \<Rightarrow> (repository \<times> restart_preview confirmation) res" where
  "confirmed_restart r tenant iid pid already =
     rbind (repo_get r tenant iid) (\<lambda>w.
     rbind (get_restart_preview r tenant pid) (\<lambda>p.
     Inr (r, \<lparr>cf_instance = w, cf_preview = p, cf_already_applied = already\<rparr>)))"

text \<open>The affected nodes before the restart: their attempt numbers, and which are human work.\<close>

definition before_restart ::
    "workflow_instance \<Rightarrow> string list \<Rightarrow> ((string, int) odict \<times> string list) res" where
  "before_restart w keys =
     rbind (old_attempt_nos w keys) (\<lambda>old. rbind (human_work_keys w keys) (\<lambda>human. Inr (old, human)))"

definition restart_events ::
    "env \<Rightarrow> workflow_instance \<Rightarrow> string \<Rightarrow> restart_preview \<Rightarrow> int \<Rightarrow> (string, int) odict \<Rightarrow> string list
       \<Rightarrow> (audit_event \<times> outbox_event list) res" where
  "restart_events env w actor p version old human =
     rbind (restart_audit env w actor p version) (\<lambda>audit.
     rbind (canceled_outbox env 1 w (\<lambda>key n. case dget old key of None \<Rightarrow> ni_current_attempt_no n | Some no \<Rightarrow> no)
        (filter (\<lambda>key. key \<in> set human) (rp_affected_node_keys p))) (\<lambda>outbox. Inr (audit, outbox)))"

definition service_confirm_restart ::
    "env \<Rightarrow> repository \<Rightarrow> repository \<Rightarrow> string \<Rightarrow> string \<Rightarrow> string \<Rightarrow> restart_scope option
       \<Rightarrow> (repository \<times> restart_preview confirmation) res" where
  "service_confirm_restart env r r' tenant pid actor expected_scope =
     rbind (get_restart_preview r tenant pid) (\<lambda>p.
     rbind (ensure (expected_scope = None \<or> expected_scope = Some (rp_scope p))
        (StaleRestartPreviewError ''restart preview scope does not match'')) (\<lambda>_.
     rbind (ensure (rp_actor_person_id p = actor)
        (AuthorizationError ''only the preview actor may confirm restart'')) (\<lambda>_.
     rbind (repo_get r tenant (rp_instance_id p)) (\<lambda>w.
     rbind (require_instance_owner w actor) (\<lambda>_.
     if rp_consumed_at p \<noteq> None
     then Inr (r', \<lparr>cf_instance = w, cf_preview = p, cf_already_applied = True\<rparr>)
     else
       rbind (ensure (env_now env < rp_expires_at p) (RestartPreviewExpiredError (rp_id p))) (\<lambda>_.
       rbind (before_restart w (rp_affected_node_keys p)) (\<lambda>(old, human).
       rbind (apply_restart w p (env_now env)) (\<lambda>w'.
       rbind (restart_events env w' actor p (wi_version w + 1) old human) (\<lambda>(audit, outbox).
       rbind (on_conflict (save_restart r' w' p (wi_version w) (env_now env) [audit] outbox)
          (Inl (StaleRestartPreviewError ''instance changed while confirming restart''))) (\<lambda>(r1, saved).
       confirmed_restart r1 tenant (rp_instance_id p) pid (\<not> saved)))))))))))"

definition confirm_node_restart ::
    "env \<Rightarrow> repository \<Rightarrow> repository \<Rightarrow> string \<Rightarrow> string \<Rightarrow> string
       \<Rightarrow> (repository \<times> restart_preview confirmation) res" where
  "confirm_node_restart env r r' tenant pid actor =
     service_confirm_restart env r r' tenant pid actor (Some NODE)"

definition confirm_restart ::
    "env \<Rightarrow> repository \<Rightarrow> repository \<Rightarrow> string \<Rightarrow> string \<Rightarrow> string
       \<Rightarrow> (repository \<times> restart_preview confirmation) res" where
  "confirm_restart env r r' tenant pid actor = service_confirm_restart env r r' tenant pid actor None"

end
