(* ===== verification/Kernel_Steps.thy ===== *)
theory Kernel_Steps
  imports Service_Preview
begin

text \<open>
  What each command does to the aggregate it has read, in one form: \<open>kernel_step\<close> says that the
  invariant is kept and that the aggregate makes \<open>progress\<close>: within one revision of the graph
  history is not rewritten, and the statuses follow a run of the machine of \<open>Workflow_Spec\<close>.
\<close>

section \<open>Progress\<close>

definition progress :: "workflow_instance \<Rightarrow> workflow_instance \<Rightarrow> bool" where
  "progress w w' \<longleftrightarrow> same_aggregate w w' \<and> wi_graph_revision w \<le> wi_graph_revision w' \<and>
     (wi_graph_revision w' = wi_graph_revision w \<longrightarrow> evolves w w' \<and> wi_snapshot w' = wi_snapshot w \<and>
        spec_run (wi_snapshot w) (view w) (view w'))"

definition kernel_step :: "workflow_instance \<Rightarrow> workflow_instance \<Rightarrow> bool" where
  "kernel_step w w' \<longleftrightarrow> (instance_inv w \<longrightarrow> instance_inv w' \<and> progress w w')"

lemma progress_refl [simp]: "progress w w"
  by (simp add: progress_def same_aggregate_def)

lemma progress_trans: "progress u v \<Longrightarrow> progress v w \<Longrightarrow> progress u w"
  unfolding progress_def same_aggregate_def by (auto intro: evolves_trans spec_run_trans)

lemma kernel_step_refl [simp]: "kernel_step w w"
  by (simp add: kernel_step_def)

lemma kernel_step_trans: "kernel_step u v \<Longrightarrow> kernel_step v w \<Longrightarrow> kernel_step u w"
  unfolding kernel_step_def by (blast intro: progress_trans)

lemma kernel_step_key: "kernel_step w w' \<Longrightarrow> instance_inv w \<Longrightarrow> instance_key w' = instance_key w"
  by (simp add: kernel_step_def progress_def same_aggregate_def)

section \<open>The graph revision\<close>

text \<open>The parts of an aggregate that only a graph edit changes.\<close>

definition same_graph :: "workflow_instance \<Rightarrow> workflow_instance \<Rightarrow> bool" where
  "same_graph w w' \<longleftrightarrow> wi_graph_revision w' = wi_graph_revision w \<and> wi_snapshot w' = wi_snapshot w"

lemma same_graph_refl [simp]: "same_graph w w" by (simp add: same_graph_def)

lemma same_graph_trans: "same_graph u v \<Longrightarrow> same_graph v w \<Longrightarrow> same_graph u w" by (simp add: same_graph_def)

lemma same_graph_put [simp]:
  "same_graph w (put_node k n u) = same_graph w u" "same_graph w (put_attempt k m a u) = same_graph w u"
  "same_graph w (u\<lparr>wi_status := s\<rparr>) = same_graph w u"
  "same_graph w (u\<lparr>wi_confirmed_at := t\<rparr>) = same_graph w u"
  "same_graph w (u\<lparr>wi_completed_at := t\<rparr>) = same_graph w u"
  by (simp_all add: same_graph_def)

lemma same_graph_loop:
  assumes "foldM f xs w = Inr w'" and "\<And>x u v. f x u = Inr v \<Longrightarrow> same_graph u v"
  shows "same_graph w w'"
  using assms(1) by (rule foldM_relation) (blast intro: same_graph_refl same_graph_trans assms(2))+

lemma transition_same_graph: "transition_instance w s now = Inr w' \<Longrightarrow> same_graph w w'"
  by (auto simp: transition_instance_Inr)

lemma set_ready_same_graph: "set_ready now ready k w = Inr w' \<Longrightarrow> same_graph w w'"
  by (auto simp: set_ready_def rbind_Inr_iff split: if_splits)

lemma unlock_same_graph:
  assumes "unlock_after w k now = Inr w'"
  shows "same_graph w w'"
proof -
  obtain ready succs u where "foldM (set_ready now ready) succs w = Inr u"
    and rest: "(if all_nodes_done u then transition_instance u I_DONE now else Inr u) = Inr w'"
    using assms unfolding unlock_after_def by (elim rbindE) simp
  then have "same_graph w u" by (intro same_graph_loop [OF _ set_ready_same_graph])
  moreover have "same_graph u w'" using rest transition_same_graph by (cases "all_nodes_done u") auto
  ultimately show ?thesis by (rule same_graph_trans)
qed

lemma cancel_node_same_graph: "cancel_node now spec s = Inr t \<Longrightarrow> same_graph (fst s) (fst t)"
  unfolding cancel_node_def by (auto simp: rbind_Inr_iff Let_def split: prod.splits if_splits)

lemma cancellation_same_graph:
  assumes "apply_cancellation w v now = Inr (w', ks, rs)"
  shows "same_graph w w'"
proof -
  obtain u where u: "foldM (cancel_node now) (sn_nodes (wi_snapshot w)) (w, [], []) = Inr (u, ks, rs)"
    and t: "transition_instance u I_CANCELED now = Inr w'"
    using assms unfolding apply_cancellation_def by (auto simp: rbind_Inr_iff)
  have "same_graph (fst (w, [] :: string list, [] :: string list)) (fst (u, ks, rs))"
    using u by (rule foldM_relation) (blast intro: same_graph_refl same_graph_trans cancel_node_same_graph)+
  with transition_same_graph [OF t] show ?thesis by (auto intro: same_graph_trans)
qed

lemma reset_node_same_graph: "reset_node now target feedback k w = Inr w' \<Longrightarrow> same_graph w w'"
  unfolding reset_node_def Let_def by (elim rbindE) (auto simp del: split_paired_Ex)

lemma mark_ready_same_graph: "mark_ready now k w = Inr w' \<Longrightarrow> same_graph w w'"
  unfolding mark_ready_def by (elim rbindE) auto

lemma restart_same_graph:
  assumes "apply_restart w p now = Inr w'"
  shows "same_graph w w'"
proof -
  have run: "restart_nodes w p now = Inr w'"
    using assms by (auto simp: apply_restart_def rbind_Inr_iff split: if_splits)
  obtain target feedback affected ready u v
    where u: "foldM (reset_node now target feedback) affected w = Inr u"
      and v: "foldM (mark_ready now) ready u = Inr v"
      and w': "w' = v\<lparr>wi_status := I_RUNNING, wi_completed_at := None\<rparr>"
    using run unfolding restart_nodes_def Let_def by (elim rbindE) simp
  have "same_graph w u" by (rule same_graph_loop [OF u reset_node_same_graph])
  moreover have "same_graph u v" by (rule same_graph_loop [OF v mark_ready_same_graph])
  ultimately show ?thesis by (auto simp: w' intro: same_graph_trans)
qed

lemma takeover_same_graph: "human_takeover w k n now = Inr w' \<Longrightarrow> same_graph w w'"
  unfolding human_takeover_def Let_def by (elim rbindE) auto

lemma recovery_same_graph:
  assumes "apply_failed_node_recovery w key action actor iv nv no now = Inr (w', ks)"
  shows "same_graph w w'"
  using assms unfolding apply_failed_node_recovery_def
  by (elim rbindE) (auto simp: rbind_Inr_iff split: if_splits intro: restart_same_graph takeover_same_graph)

section \<open>The operations are kernel steps\<close>

lemma kernel_stepI:
  assumes "instance_inv w \<Longrightarrow> instance_inv w'" and "instance_inv w \<Longrightarrow> evolves w w'" and "same_graph w w'"
    and "instance_inv w \<Longrightarrow> spec_run (wi_snapshot w) (view w) (view w')"
  shows "kernel_step w w'"
  using assms by (auto simp: kernel_step_def progress_def evolves_def same_graph_def)

abbreviation active :: "workflow_instance \<Rightarrow> bool" where
  "active w \<equiv> wi_status w \<in> {I_RUNNING, I_PAUSED}"

lemma active_core: "instance_inv w \<Longrightarrow> active w \<Longrightarrow> core_inv w"
  by (rule instance_inv_runtime(1) [OF _ active_not_draft])

lemma draft_runtime: "instance_inv w \<Longrightarrow> wi_status w = I_DRAFT \<Longrightarrow> wi_nodes w = [] \<and> wi_attempts w = []"
  by (simp add: instance_inv_def is_draft_def)

lemma no_runtime_evolves:
  "wi_nodes w = [] \<Longrightarrow> wi_attempts w = [] \<Longrightarrow> same_aggregate w w' \<Longrightarrow> evolves w w'"
  by (simp add: evolves_def history_kept_def versions_strict_def)

lemma materialize_created [simp]:
  "wi_created_at (foldl (\<lambda>w spec. materialize_node now spec w) w specs) = wi_created_at w"
  "wi_graph_revision (foldl (\<lambda>w spec. materialize_node now spec w) w specs) = wi_graph_revision w"
  by (induction specs arbitrary: w) (simp_all add: materialize_node_def Let_def)

lemma confirm_run:
  assumes inv: "instance_inv w" and draft: "is_draft w" and ok: "scheduler_confirm w now = Inr w'"
  shows "spec_run (wi_snapshot w) (view w) (view w')"
proof -
  let ?s = "wi_snapshot w"
  have st: "wi_status w = I_DRAFT" "wi_status w' = I_RUNNING" and inv': "instance_inv w'"
    and snap: "wi_snapshot w' = ?s"
    and ns: "\<forall>k \<in> set (snapshot_keys ?s). node_statuses w' k = Some (if deps_of ?s k = {} then N_READY else N_PENDING)"
    using scheduler_confirm_inv [OF inv draft ok] deps_of_spec [OF instance_inv_simple [OF inv]] by auto
  have "wi_status w' \<notin> {I_DRAFT, I_DISCARDED}" using st by simp
  note rt = instance_inv_runtime [OF inv' this]
  have "node_statuses w' = spec_start ?s"
  proof
    fix k
    show "node_statuses w' k = spec_start ?s k"
    proof (cases "k \<in> set (snapshot_keys ?s)")
      case True
      with ns show ?thesis unfolding spec_start_def by (simp only: simp_thms if_False)
    next
      case False
      with core_inv_missing [OF rt(1), of k] snap show ?thesis
        unfolding spec_start_def by (simp only: simp_thms if_True node_statuses_def) simp
    qed
  qed
  then show ?thesis using st by (auto simp: view_def intro: spec_runI spec_step.confirm)
qed

lemma confirm_step:
  assumes ok: "scheduler_confirm w now = Inr w'" and draft: "wi_status w = I_DRAFT"
  shows "kernel_step w w'"
proof -
  obtain u where u: "transition_instance w I_RUNNING now = Inr u"
    and w': "w' = foldl (\<lambda>w spec. materialize_node now spec w) u (sn_nodes (wi_snapshot u))"
    using ok by (auto simp: scheduler_confirm_def rbind_Inr_iff)
  have agg: "same_aggregate w w'" using u by (auto simp: w' same_aggregate_def transition_instance_Inr)
  have "same_graph w w'" using u by (auto simp: w' same_graph_def transition_instance_Inr)
  moreover have "is_draft w" using draft by (simp add: is_draft_def)
  moreover have "spec_run (wi_snapshot w) (view w) (view w')" if "instance_inv w"
    by (rule confirm_run [OF that \<open>is_draft w\<close> ok])
  ultimately show ?thesis
    using scheduler_confirm_inv [OF _ _ ok] no_runtime_evolves [OF _ _ agg] draft_runtime [OF _ draft]
    by (intro kernel_stepI) auto
qed

lemma transition_evolves: "transition_instance w s now = Inr w' \<Longrightarrow> evolves w w'"
  by (auto simp: transition_instance_Inr evolves_def history_kept_def versions_strict_def same_aggregate_def)

lemma transition_runtime:
  "transition_instance w s now = Inr w' \<Longrightarrow> wi_nodes w' = wi_nodes w \<and> wi_attempts w' = wi_attempts w \<and>
     wi_snapshot w' = wi_snapshot w \<and> wi_status w' = s \<and> wi_id w' = wi_id w"
  by (auto simp: transition_instance_Inr)

lemma discard_step:
  assumes "transition_instance w I_DISCARDED now = Inr w'"
  shows "kernel_step w w'"
proof -
  have d: "wi_status w = I_DRAFT" using assms by (cases "wi_status w") (auto simp: transition_instance_Inr)
  have "view w' = (I_DISCARDED, node_statuses w)"
    using transition_runtime [OF assms] by (auto simp: view_def node_statuses_def)
  then have "spec_run (wi_snapshot w) (view w) (view w')"
    using d by (auto simp: view_def intro: spec_runI spec_step.discard)
  with d show ?thesis using assms transition_evolves transition_same_graph transition_runtime [OF assms]
    by (intro kernel_stepI) (auto simp: instance_inv_def is_draft_def)
qed

text \<open>Pausing and resuming leave the records alone.\<close>

lemma core_inv_cong:
  assumes "wi_nodes w' = wi_nodes w" "wi_attempts w' = wi_attempts w" "wi_snapshot w' = wi_snapshot w"
    "wi_id w' = wi_id w"
  shows "core_inv w' \<longleftrightarrow> core_inv w"
  unfolding core_inv_def node_ok_def attempt_ok_def assms by simp

lemma switch_step:
  assumes t: "transition_instance w s now = Inr w'" and "active w" and s: "s \<in> {I_RUNNING, I_PAUSED}"
  shows "kernel_step w w'"
proof (rule kernel_stepI)
  note rt = transition_runtime [OF t]
  assume "instance_inv w"
  note iv = instance_inv_runtime [OF this active_not_draft [OF assms(2)]]
  have "node_statuses w' = node_statuses w" using rt by (auto simp: node_statuses_def)
  moreover have "phase_ok (wi_status w') (status_set w')"
    using iv(3) rt \<open>active w\<close> s \<open>node_statuses w' = node_statuses w\<close>
    by (simp add: status_set_def active_phase)
  ultimately show "instance_inv w'" using iv rt s core_inv_cong [of w' w] by (intro instance_invI) auto
next
  have "node_statuses w' = node_statuses w" using transition_runtime [OF t] by (auto simp: node_statuses_def)
  then have "view w' = (s, node_statuses w)" using transition_runtime [OF t] by (simp add: view_def)
  moreover have "spec_run (wi_snapshot w) (p, f) (s, f)" if "p \<in> {I_RUNNING, I_PAUSED}" for p f
    using that s by (auto intro: spec_runI spec_step.pause spec_step.resume)
  ultimately show "spec_run (wi_snapshot w) (view w) (view w')" using \<open>active w\<close> by (simp add: view_def)
qed (use t transition_evolves transition_same_graph in auto)

lemma to_paused: "I_PAUSED \<in> INSTANCE_TRANSITIONS s \<Longrightarrow> s \<in> {I_RUNNING, I_PAUSED}"
  by (cases s) simp_all

lemma to_running: "I_RUNNING \<in> INSTANCE_TRANSITIONS s \<Longrightarrow> s \<noteq> I_DRAFT \<Longrightarrow> s \<in> {I_RUNNING, I_PAUSED}"
  by (cases s) simp_all

lemma pause_step:
  assumes "transition_instance w I_PAUSED now = Inr w'"
  shows "kernel_step w w'"
proof (rule switch_step [OF assms])
  show "active w" using assms by (intro to_paused) (simp add: transition_instance_Inr)
qed simp

lemma resume_step:
  assumes "transition_instance w I_RUNNING now = Inr w'" and "wi_status w \<noteq> I_DRAFT"
  shows "kernel_step w w'"
proof (rule switch_step [OF assms(1)])
  show "active w" using assms by (intro to_running) (simp_all add: transition_instance_Inr)
qed simp

lemma cancel_step:
  assumes ok: "apply_cancellation w v now = Inr (w', ks, rs)"
  shows "kernel_step w w'"
proof -
  have "active w" "wi_version w = v"
    using ok by (auto simp: apply_cancellation_def rbind_Inr_iff ensure_Inr_iff CANCELABLE_INSTANCE_STATUSES_def)
  then have *: "instance_inv w' \<and> evolves w w' \<and> view w' = (I_CANCELED, \<lambda>j. if node_statuses w j \<in> {None, Some N_DONE}
      then node_statuses w j else Some N_CANCELED)" if "instance_inv w"
    using apply_cancellation_spec [OF that, of v now] ok by (auto simp: view_def)
  have "spec_run (wi_snapshot w) (view w) (view w')" if "instance_inv w"
    using * [OF that] spec_step.cancel [of "wi_status w" "wi_snapshot w" "node_statuses w"] \<open>active w\<close>
    by (auto simp: view_def intro: spec_runI)
  with * show ?thesis using cancellation_same_graph [OF ok] by (intro kernel_stepI) auto
qed

text \<open>An operation on one node that stays active, or that is done, or that fails.\<close>

lemma point_status: "point w k n a n' a' \<Longrightarrow> node_statuses w k = Some (ni_status n)"
  by (simp add: point_def node_statuses_def)

lemma point_view: "point w k n a n' a' \<Longrightarrow>
    view w = (wi_status w, node_statuses w) \<and>
    view (pointed w k n n' a') = (wi_status w, (node_statuses w)(k \<mapsto> ni_status n'))"
  by (simp add: view_def point_statuses)

lemma active_step:
  assumes act: "active w" and pt: "instance_inv w \<Longrightarrow> \<exists>n a n' a'. point w k n a n' a' \<and> u = pointed w k n n' a' \<and>
      ni_version n < ni_version n' \<and> ni_status n \<in> {N_READY, N_RUNNING, N_WAITING_HUMAN} \<and>
      ni_status n' \<in> {N_READY, N_RUNNING, N_WAITING_HUMAN} \<and>
      (ni_status n' = ni_status n \<or> ni_status n = N_READY \<and> ni_status n' \<noteq> N_READY)"
  shows "instance_inv w \<Longrightarrow> kernel_step w u \<and> wi_status u = wi_status w"
proof -
  assume inv: "instance_inv w"
  from pt [OF inv] obtain n a n' a' where p: "point w k n a n' a'" "u = pointed w k n n' a'"
      "ni_version n < ni_version n'" "ni_status n \<in> {N_READY, N_RUNNING, N_WAITING_HUMAN}"
      "ni_status n' \<in> {N_READY, N_RUNNING, N_WAITING_HUMAN}"
      "ni_status n' = ni_status n \<or> ni_status n = N_READY \<and> ni_status n' \<noteq> N_READY" by blast
  have "instance_inv u" unfolding p(2) by (rule point_active [OF inv act p(1,4,5)])
  moreover have "evolves w u" unfolding p(2) by (rule point_evolves [OF active_core [OF inv act] p(1,3,4)])
  moreover have "spec_run (wi_snapshot w) (view w) (view u)"
  proof (cases "ni_status n' = ni_status n")
    case True
    then have "view u = view w" using point_view [OF p(1)] point_status [OF p(1)] unfolding p(2) by (simp add: fun_upd_idem)
    then show ?thesis by simp
  next
    case False
    then have "spec_step (wi_snapshot w) (wi_status w, node_statuses w) (wi_status w, (node_statuses w)(k \<mapsto> ni_status n'))"
      using point_status [OF p(1)] p(5,6) act by (intro spec_step.work work_step.start) auto
    then show ?thesis using point_view [OF p(1)] unfolding p(2) by (simp add: spec_runI)
  qed
  ultimately show ?thesis using p(2) by (auto intro!: kernel_stepI)
qed

lemma done_step:
  assumes act: "active w" and pt: "instance_inv w \<Longrightarrow> \<exists>n a n' a'. point w k n a n' a' \<and> u = pointed w k n n' a' \<and>
      ni_version n < ni_version n' \<and> ni_status n \<in> {N_RUNNING, N_WAITING_HUMAN} \<and> ni_status n' = N_DONE"
    and un: "unlock_after u k now = Inr w'"
  shows "kernel_step w w'"
proof (unfold kernel_step_def, intro impI)
  assume inv: "instance_inv w"
  from pt [OF inv] obtain n a n' a' where p: "point w k n a n' a'" "u = pointed w k n n' a'"
      "ni_version n < ni_version n'" "ni_status n \<in> {N_RUNNING, N_WAITING_HUMAN}" "ni_status n' = N_DONE" by blast
  have "instance_inv w'" "evolves u w'" and v: "view w' = (spec_phase (wi_snapshot w) k (wi_status w) (node_statuses w),
      spec_finish (wi_snapshot w) k (node_statuses w))"
    using point_done [OF inv act p(1,4,5), of now] un unfolding p(2) view_def spec_phase_def spec_finish_def by auto
  moreover have "evolves w u"
    unfolding p(2) by (rule point_evolves [OF active_core [OF inv act] p(1,3)]) (use p(4) in auto)
  moreover have "same_graph w w'"
    using unlock_same_graph [OF un] by (rule same_graph_trans [rotated]) (simp add: p(2))
  moreover have "spec_run (wi_snapshot w) (view w) (view w')"
    unfolding v using point_status [OF p(1)] p(4) act
    by (auto simp: view_def intro!: spec_runI spec_step.work work_step.finish)
  ultimately have "kernel_step w w'" by (intro kernel_stepI) (auto intro: evolves_trans)
  with inv show "instance_inv w' \<and> progress w w'" by (simp add: kernel_step_def)
qed

lemma failed_step:
  assumes act: "active w" and pt: "instance_inv w \<Longrightarrow> \<exists>n a n' a'. point w k n a n' a' \<and> u = pointed w k n n' a' \<and>
      ni_version n < ni_version n' \<and> ni_status n \<in> {N_RUNNING, N_WAITING_HUMAN} \<and> ni_status n' = N_FAILED"
    and f: "fail_instance u now = Inr w'"
  shows "kernel_step w w'"
proof (unfold kernel_step_def, intro impI)
  assume inv: "instance_inv w"
  from pt [OF inv] obtain n a n' a' where p: "point w k n a n' a'" "u = pointed w k n n' a'"
      "ni_version n < ni_version n'" "ni_status n \<in> {N_RUNNING, N_WAITING_HUMAN}" "ni_status n' = N_FAILED" by blast
  have "instance_inv w'" "w' = u\<lparr>wi_status := I_FAILED, wi_completed_at := Some now\<rparr>"
    using point_failed [OF inv act p(1,4,5), of now] f unfolding p(2) by auto
  moreover have "spec_run (wi_snapshot w) (view w) (view w')"
    using calculation(2) point_view [OF p(1)] point_status [OF p(1)] p(4,5) act unfolding p(2)
    by (auto simp: view_def intro!: spec_runI spec_step.fail)
  moreover have "evolves w u"
    unfolding p(2) by (rule point_evolves [OF active_core [OF inv act] p(1,3)]) (use p(4) in auto)
  ultimately have "kernel_step w w'" using p(2) by (intro kernel_stepI) auto
  with inv show "instance_inv w' \<and> progress w w'" by (simp add: kernel_step_def)
qed

section \<open>Human and automated work\<close>

lemma submit_step:
  assumes act: "active w" and ok: "submit_human w key actor no v result quality now = Inr u"
    and un: "unlock_after u key now = Inr w'"
  shows "kernel_step w w'"
  using submit_human_point [OF active_core [OF _ act] ok]
  by (intro done_step [OF act _ un]) fastforce

lemma complete_step:
  assumes act: "active w" and ok: "complete_automated w key no v token worker result quality now = Inr u"
    and un: "unlock_after u key now = Inr w'"
  shows "kernel_step w w'"
  using complete_automated_point [OF active_core [OF _ act] ok]
  by (intro done_step [OF act _ un]) fastforce

lemma reject_step:
  assumes act: "active w" and ok: "reject_human w key actor no v result quality now = Inr u"
    and f: "fail_instance u now = Inr w'"
  shows "kernel_step w w'"
  using reject_human_point [OF active_core [OF _ act] ok]
  by (intro failed_step [OF act _ f]) fastforce

lemma fail_step:
  assumes act: "active w" and ok: "fail_automated w key no v token worker code message now = Inr u"
    and f: "fail_instance u now = Inr w'"
  shows "kernel_step w w'"
  using fail_automated_point [OF active_core [OF _ act] ok]
  by (intro failed_step [OF act _ f]) fastforce

lemma decision_step:
  assumes "active w" and "apply_decision w key decision actor no v feedback now = Inr w'"
  shows "kernel_step w w'"
  using assms(2) unfolding apply_decision_def
  by (cases decision) (auto simp: rbind_Inr_iff intro: submit_step [OF assms(1)] reject_step [OF assms(1)])

lemma renew_step:
  assumes act: "active w" and ok: "renew_automated_claim ttl w key no v token worker now = Inr (u, expires)"
  shows "kernel_step w u"
proof (unfold kernel_step_def, intro impI)
  assume inv: "instance_inv w"
  from renew_automated_claim_point [OF active_core [OF inv act] ok] obtain n a
    where n: "node_at w key = Some n" "attempt_at w key no = Some a" "no = ni_current_attempt_no n"
      "ni_status n = N_RUNNING" "na_status a = A_RUNNING"
      and u: "u = put_attempt key no (a\<lparr>na_claim_expires_at := Some expires\<rparr>) w"
      and pt: "point w key n a n (a\<lparr>na_claim_expires_at := Some expires\<rparr>)" by blast
  have same: "put_node key n w = w" using n(1) by (simp add: put_node_def dput_same)
  have "instance_inv u"
    using point_active [OF inv act pt] n(3,4) unfolding u same by simp
  moreover have "evolves w u" unfolding u using n by (intro evolves_put_attempt) auto
  moreover have "same_graph w u" by (simp add: u)
  moreover have "view u = view w" by (simp add: u view_def dict_simps)
  ultimately have "kernel_step w u" by (intro kernel_stepI) simp_all
  with inv show "instance_inv u \<and> progress w u" by (simp add: kernel_step_def)
qed

lemma transfer_step:
  assumes act: "active w" and ok: "transfer_allowed env w key actor new no v = Inr (n, person)"
  shows "kernel_step w (transfer_node w key n person)"
proof (unfold kernel_step_def, intro impI)
  let ?n = "n\<lparr>ni_owner_person_id := person, ni_version := ni_version n + 1\<rparr>"
  assume inv: "instance_inv w"
  have n: "node_at w key = Some n" "ni_status n = N_WAITING_HUMAN"
    using ok unfolding transfer_allowed_def Let_def
    by (elim rbindE; auto simp: known_node_Inr rbind_Inr_iff ensure_Inr_iff split: if_splits)+
  obtain a where a: "attempt_at w key (ni_current_attempt_no n) = Some a"
    using core_inv_node(1) [OF active_core [OF inv act] n(1)] by (auto simp: node_ok_def)
  have pt: "point w key n a ?n a"
    using n a agrees_at [OF active_core [OF inv act] n(1) a]
    by (simp add: point_def same_node_def same_attempt_def)
  have eq: "transfer_node w key n person = pointed w key n ?n a"
    using a by (simp add: transfer_node_def put_node_def put_attempt_def dput_same)
  show "instance_inv (transfer_node w key n person) \<and> progress w (transfer_node w key n person)"
    using active_step [OF act _ inv, of key "transfer_node w key n person"] pt eq n(2) inv
    unfolding kernel_step_def by fastforce
qed

section \<open>Dispatch\<close>

definition running_step :: "workflow_instance \<Rightarrow> workflow_instance \<Rightarrow> bool" where
  "running_step w w' \<longleftrightarrow> (instance_inv w \<and> wi_status w = I_RUNNING \<longrightarrow>
     instance_inv w' \<and> wi_status w' = I_RUNNING \<and> progress w w')"

lemma running_step_refl: "running_step w w" by (simp add: running_step_def)

lemma running_step_trans: "running_step u v \<Longrightarrow> running_step v w \<Longrightarrow> running_step u w"
  unfolding running_step_def by (blast intro: progress_trans)

lemma running_stepI:
  assumes "\<lbrakk>instance_inv w; core_inv w; wi_status w = I_RUNNING\<rbrakk> \<Longrightarrow>
      \<exists>n a n' a'. point w k n a n' a' \<and> u = pointed w k n n' a' \<and> ni_version n < ni_version n' \<and>
      ni_status n \<in> {N_READY, N_RUNNING, N_WAITING_HUMAN} \<and> ni_status n' \<in> {N_READY, N_RUNNING, N_WAITING_HUMAN} \<and>
      (ni_status n' = ni_status n \<or> ni_status n = N_READY \<and> ni_status n' \<noteq> N_READY)"
  shows "running_step w u"
proof (unfold running_step_def, intro impI)
  assume inv: "instance_inv w \<and> wi_status w = I_RUNNING"
  then have "active w" by simp
  from active_step [OF this, of k u] assms active_core [OF _ this] inv
  show "instance_inv u \<and> wi_status u = I_RUNNING \<and> progress w u" by (auto simp: kernel_step_def)
qed

lemma activate_running:
  assumes "activate ttl token w key worker now = Inr (u, act)"
  shows "running_step w u"
proof (rule running_stepI)
  assume "core_inv w"
  from activate_point [OF this assms] obtain n a n' a' where "point w key n a n' a'" "u = pointed w key n n' a'"
     "ni_status n = N_READY" "ni_version n' = ni_version n + 1"
     and new: "if ni_executor n = HUMAN then ni_status n' = N_WAITING_HUMAN
      else ni_status n' = N_RUNNING \<and> na_claimed_by a' = worker \<and> worker \<noteq> None \<and>
        na_claim_token a' = Some token \<and> na_claim_expires_at a' = Some (now + ttl)"
    by blast
  from new have "ni_status n' \<in> {N_READY, N_RUNNING, N_WAITING_HUMAN}" "ni_status n' \<noteq> N_READY"
    by (simp_all split: if_splits)
  then show "\<exists>n a n' a'. point w key n a n' a' \<and> u = pointed w key n n' a' \<and> ni_version n < ni_version n' \<and>
      ni_status n \<in> {N_READY, N_RUNNING, N_WAITING_HUMAN} \<and> ni_status n' \<in> {N_READY, N_RUNNING, N_WAITING_HUMAN} \<and>
      (ni_status n' = ni_status n \<or> ni_status n = N_READY \<and> ni_status n' \<noteq> N_READY)"
    using \<open>point w key n a n' a'\<close> \<open>u = pointed w key n n' a'\<close> \<open>ni_status n = N_READY\<close>
      \<open>ni_version n' = ni_version n + 1\<close>
    by (intro exI [of _ n] exI [of _ a] exI [of _ n'] exI [of _ a']) simp
qed

lemma reclaim_running:
  assumes "reclaim_expired ttl token w key worker now = Inr (u, act)"
  shows "running_step w u"
proof (rule running_stepI)
  assume "core_inv w"
  from reclaim_expired_point [OF this assms] obtain n a n' a' where "point w key n a n' a'"
     "u = pointed w key n n' a'" "ni_status n = N_RUNNING" "ni_status n' = N_RUNNING"
     "ni_version n' = ni_version n + 1" by blast
  then show "\<exists>n a n' a'. point w key n a n' a' \<and> u = pointed w key n n' a' \<and> ni_version n < ni_version n' \<and>
      ni_status n \<in> {N_READY, N_RUNNING, N_WAITING_HUMAN} \<and> ni_status n' \<in> {N_READY, N_RUNNING, N_WAITING_HUMAN} \<and>
      (ni_status n' = ni_status n \<or> ni_status n = N_READY \<and> ni_status n' \<noteq> N_READY)"
    by (intro exI [of _ n] exI [of _ a] exI [of _ n'] exI [of _ a']) simp
qed

abbreviation dispatch_running :: "dispatch_state \<Rightarrow> dispatch_state \<Rightarrow> bool" where
  "dispatch_running st st' \<equiv> running_step (ds_instance st) (ds_instance st')"

lemma dispatched_instance [simp]: "ds_instance (dispatched b wa st) = fst wa"
  by (simp add: dispatched_def split: prod.splits)

lemma dispatch_human_running: "dispatch_human env spec st = Inr st' \<Longrightarrow> dispatch_running st st'"
  unfolding dispatch_human_def
  by (elim rbindE) (auto simp: rbind_Inr_iff running_step_refl split: if_splits intro: activate_running)

lemma dispatch_expired_running: "dispatch_expired env wk m ks spec st = Inr st' \<Longrightarrow> dispatch_running st st'"
  unfolding dispatch_expired_def
  by (auto simp: rbind_Inr_iff running_step_refl split: if_splits intro: reclaim_running)

lemma dispatch_automated_running: "dispatch_automated env wk m ks spec st = Inr st' \<Longrightarrow> dispatch_running st st'"
  unfolding dispatch_automated_def
  by (auto simp: rbind_Inr_iff running_step_refl split: if_splits intro: activate_running)

lemma dispatch_fold:
  assumes "foldM f xs st = Inr st'" and "\<And>x u v. f x u = Inr v \<Longrightarrow> dispatch_running u v"
  shows "dispatch_running st st'"
  using assms(1) by (rule foldM_relation) (blast intro: running_step_refl running_step_trans assms(2))+

lemma dispatch_loops_step:
  assumes ok: "dispatch_loops env w worker m recover ks = Inr st" and run: "wi_status w = I_RUNNING"
  shows "kernel_step w (ds_instance st)"
proof -
  obtain s1 s2 where s1: "foldM (dispatch_human env) (sn_nodes (wi_snapshot w))
         \<lparr>ds_instance = w, ds_activations = [], ds_automated = 0\<rparr> = Inr s1"
    and s2: "(if recover then foldM (dispatch_expired env (case worker of None \<Rightarrow> [] | Some s \<Rightarrow> s) m ks)
           (sn_nodes (wi_snapshot w)) s1 else Inr s1) = Inr s2"
    and s3: "foldM (dispatch_automated env worker m ks) (sn_nodes (wi_snapshot w)) s2 = Inr st"
    using ok unfolding dispatch_loops_def Let_def by (elim rbindE) simp
  have "running_step w (ds_instance s1)" using dispatch_fold [OF s1 dispatch_human_running] by simp
  moreover have "dispatch_running s1 s2"
    using s2 dispatch_fold [OF _ dispatch_expired_running] by (auto split: if_splits simp: running_step_refl)
  moreover have "dispatch_running s2 st" by (rule dispatch_fold [OF s3 dispatch_automated_running])
  ultimately have "running_step w (ds_instance st)" by (meson running_step_trans)
  then show ?thesis using run by (simp add: running_step_def kernel_step_def)
qed

section \<open>Recovery, restart, edit\<close>

lemma recovery_step:
  assumes "apply_failed_node_recovery w key action actor iv nv no now = Inr (w', ks)"
  shows "kernel_step w w'"
  using apply_recovery_inv [OF _ assms] recovery_same_graph [OF assms] spec_runI by (intro kernel_stepI) auto

lemma restart_step:
  assumes "apply_restart w p now = Inr w'"
  shows "kernel_step w w'"
  using apply_restart_inv [OF _ assms] restart_same_graph [OF assms] spec_runI by (intro kernel_stepI) auto

lemma graph_edit_step:
  assumes "apply_future_graph_edit w ops now = Inr (w', plan)"
  shows "kernel_step w w'"
  using apply_edit_inv [OF _ assms] by (auto simp: kernel_step_def progress_def evolves_except_def)

end
