(* ===== verification/Outbox.thy ===== *)
theory Outbox
  imports Store_Contracts
begin

text \<open>
  The transactional outbox of \<open>src/larkflow/workflow/repository.py\<close>: which records a claim takes
  and what it makes of them, that a live claim excludes every other, and that only the holder of
  the current token settles a record.
\<close>

section \<open>The store of records\<close>

text \<open>Keys are unique, and a record carries a claim exactly while it is processing.\<close>

definition claim_fields :: "outbox_record \<Rightarrow> bool" where
  "claim_fields q = (if or_status q = Q_PROCESSING
     then or_claimed_by q \<noteq> None \<and> or_claim_token q \<noteq> None \<and> or_claim_expires_at q \<noteq> None
     else or_claimed_by q = None \<and> or_claim_token q = None \<and> or_claim_expires_at q = None)"

definition outbox_inv :: "repository \<Rightarrow> bool" where
  "outbox_inv r \<longleftrightarrow> distinct (dkeys (r_outbox r)) \<and>
     (\<forall>k q. dget (r_outbox r) k = Some q \<longrightarrow> claim_fields q)"

text \<open>What a claim makes of a record, and the claim it hands out.\<close>

definition claimed_by :: "string \<Rightarrow> string \<Rightarrow> time \<Rightarrow> outbox_record \<Rightarrow> outbox_record" where
  "claimed_by worker token expires q =
     q\<lparr>or_status := Q_PROCESSING, or_attempt_count := or_attempt_count q + 1,
       or_claimed_by := Some worker, or_claim_token := Some token, or_claim_expires_at := Some expires\<rparr>"

definition claim_of :: "string \<Rightarrow> string \<Rightarrow> time \<Rightarrow> outbox_record \<Rightarrow> outbox_claim" where
  "claim_of worker token expires q =
     \<lparr>oc_event = or_event q, oc_claim_token = token, oc_claimed_by = worker,
      oc_claim_expires_at = expires, oc_attempt_count = or_attempt_count q + 1\<rparr>"

lemma claim_step_Some:
  "dget (r_outbox r) k = Some q \<Longrightarrow> claim_step tokens wk t k (r, cs) =
     (r\<lparr>r_outbox := dput k (claimed_by wk (tokens (length cs)) t q) (r_outbox r)\<rparr>,
      cs @ [claim_of wk (tokens (length cs)) t q])"
  by (simp add: claim_step_def Let_def claimed_by_def claim_of_def)

lemma claim_fold:
  assumes "distinct ks" and "\<forall>k \<in> set ks. dget (r_outbox r) k \<noteq> None"
  shows "\<exists>r1 claims. fold (claim_step tokens wk t) ks (r, cs) = (r1, cs @ claims) \<and> length claims = length ks \<and>
     (\<forall>i q. i < length ks \<longrightarrow> dget (r_outbox r) (ks ! i) = Some q \<longrightarrow>
        claims ! i = claim_of wk (tokens (length cs + i)) t q \<and>
        dget (r_outbox r1) (ks ! i) = Some (claimed_by wk (tokens (length cs + i)) t q)) \<and>
     (\<forall>k. k \<notin> set ks \<longrightarrow> dget (r_outbox r1) k = dget (r_outbox r) k) \<and>
     dkeys (r_outbox r1) = dkeys (r_outbox r)"
  using assms
proof (induction ks arbitrary: r cs)
  case (Cons k ks)
  from Cons.prems(2) obtain q where q: "dget (r_outbox r) k = Some q" by auto
  let ?u = "r\<lparr>r_outbox := dput k (claimed_by wk (tokens (length cs)) t q) (r_outbox r)\<rparr>"
  let ?c = "claim_of wk (tokens (length cs)) t q"
  have step: "claim_step tokens wk t k (r, cs) = (?u, cs @ [?c])" by (rule claim_step_Some [OF q])
  have keys: "dkeys (r_outbox ?u) = dkeys (r_outbox r)"
    using dget_Some_in_dkeys [OF q] by (simp add: update_keys)
  have at: "dget (r_outbox ?u) j = (if j = k then Some (claimed_by wk (tokens (length cs)) t q) else dget (r_outbox r) j)" for j
    by (simp add: dict_simps)
  have "\<forall>j \<in> set ks. dget (r_outbox ?u) j \<noteq> None" using Cons.prems(2) at by auto
  with Cons.IH [of ?u "cs @ [?c]"] Cons.prems(1) obtain r1 claims
    where f: "fold (claim_step tokens wk t) ks (?u, cs @ [?c]) = (r1, (cs @ [?c]) @ claims)"
      and len: "length claims = length ks"
      and at1: "\<And>i q. i < length ks \<Longrightarrow> dget (r_outbox ?u) (ks ! i) = Some q \<Longrightarrow>
        claims ! i = claim_of wk (tokens (length (cs @ [?c]) + i)) t q \<and>
        dget (r_outbox r1) (ks ! i) = Some (claimed_by wk (tokens (length (cs @ [?c]) + i)) t q)"
      and other: "\<And>j. j \<notin> set ks \<Longrightarrow> dget (r_outbox r1) j = dget (r_outbox ?u) j"
      and dk: "dkeys (r_outbox r1) = dkeys (r_outbox ?u)"
    by (auto simp del: append_assoc)
  have "(?c # claims) ! i = claim_of wk (tokens (length cs + i)) t p \<and>
      dget (r_outbox r1) ((k # ks) ! i) = Some (claimed_by wk (tokens (length cs + i)) t p)"
    if "i < length (k # ks)" "dget (r_outbox r) ((k # ks) ! i) = Some p" for i p
  proof (cases i)
    case 0
    with that q other [of k] at [of k] Cons.prems(1) show ?thesis by simp
  next
    case (Suc i')
    then have "ks ! i' \<noteq> k" using that(1) Cons.prems(1) by auto
    with Suc that at1 [of i' p] at [of "ks ! i'"] show ?thesis by simp
  qed
  moreover have "dget (r_outbox r1) j = dget (r_outbox r) j" if "j \<notin> set (k # ks)" for j
    using that other [of j] at [of j] by simp
  moreover have "fold (claim_step tokens wk t) (k # ks) (r, cs) = (r1, cs @ (?c # claims))"
    using f step by simp
  ultimately show ?case using len dk keys
    by (intro exI [of _ r1] exI [of _ "?c # claims"]) auto
qed simp

section \<open>Claiming\<close>

text \<open>A record that a claim at \<open>now\<close> may take.\<close>

definition due :: "repository \<Rightarrow> string \<Rightarrow> time \<Rightarrow> string list option \<Rightarrow> aggregate_key \<Rightarrow> bool" where
  "due r tenant now types k \<longleftrightarrow> fst k = tenant \<and> (\<exists>q. dget (r_outbox r) k = Some q \<and> claimable q now \<and>
     (case types of None \<Rightarrow> True | Some ts \<Rightarrow> oe_event_type (or_event q) \<in> set ts))"

lemma fst_filter: "k \<in> fst ` {x \<in> S. P x} \<longleftrightarrow> (\<exists>q. (k, q) \<in> S \<and> P (k, q))"
  by force

lemma claim_candidates_props:
  assumes "distinct (dkeys (r_outbox r))"
  shows "distinct (claim_candidates r tenant now types)"
    and "k \<in> set (claim_candidates r tenant now types) \<longleftrightarrow> due r tenant now types k"
proof -
  let ?P = "\<lambda>((t, _), q). t = tenant \<and> claimable q now \<and>
     (case types of None \<Rightarrow> True | Some ts \<Rightarrow> oe_event_type (or_event q) \<in> set ts)"
  let ?f = "\<lambda>(k, q). (oe_available_at (or_event q), oe_created_at (or_event q), oe_id (or_event q))"
  have "distinct (map fst (filter ?P (r_outbox r)))" using assms by (simp add: distinct_map_filter)
  moreover have "mset (claim_candidates r tenant now types) = mset (map fst (filter ?P (r_outbox r)))"
    by (simp only: claim_candidates_def mset_map mset_sort)
  ultimately show "distinct (claim_candidates r tenant now types)"
    using mset_eq_imp_distinct_iff by blast
  have at: "dget (r_outbox r) j = Some q \<longleftrightarrow> (j, q) \<in> set (r_outbox r)" for j q
    using assms by (rule map_of_eq_Some_iff)
  have "set (claim_candidates r tenant now types) = fst ` {x \<in> set (r_outbox r). ?P x}"
    by (simp add: claim_candidates_def)
  then have "k \<in> set (claim_candidates r tenant now types) \<longleftrightarrow> (\<exists>q. (k, q) \<in> set (r_outbox r) \<and> ?P (k, q))"
    by (simp only: fst_filter)
  also have "\<dots> \<longleftrightarrow> due r tenant now types k"
    unfolding due_def at by (cases types) (auto simp: case_prod_unfold)
  finally show "k \<in> set (claim_candidates r tenant now types) \<longleftrightarrow> due r tenant now types k" .
qed

lemma claim_outbox_spec:
  assumes inv: "distinct (dkeys (r_outbox r))"
    and ok: "claim_outbox tokens r tenant wk now limit ttl types = Inr (r1, claims)"
  shows "\<exists>ks. ks = take (nat limit) (claim_candidates r tenant now types) \<and> length claims = length ks \<and> 0 < ttl \<and>
     (\<forall>i q. i < length ks \<longrightarrow> dget (r_outbox r) (ks ! i) = Some q \<longrightarrow>
        claims ! i = claim_of wk (tokens i) (now + ttl) q \<and>
        dget (r_outbox r1) (ks ! i) = Some (claimed_by wk (tokens i) (now + ttl) q)) \<and>
     (\<forall>k. k \<notin> set ks \<longrightarrow> dget (r_outbox r1) k = dget (r_outbox r) k) \<and>
     dkeys (r_outbox r1) = dkeys (r_outbox r)"
proof -
  let ?ks = "take (nat limit) (claim_candidates r tenant now types)"
  have none: "claim_candidates r tenant now (Some []) = []"
    by (simp add: claim_candidates_def case_prod_unfold)
  have f: "(r1, claims) = fold (claim_step tokens wk (now + ttl)) ?ks (r, [])" and pos: "0 < ttl"
    using ok none by (auto simp: claim_outbox_def rbind_Inr_iff ensure_Inr_iff split: if_splits)
  have "distinct ?ks" using claim_candidates_props(1) [OF inv] by (rule distinct_take)
  moreover have "dget (r_outbox r) k \<noteq> None" if "k \<in> set ?ks" for k
  proof -
    have "k \<in> set (claim_candidates r tenant now types)" using that by (rule in_set_takeD)
    then show ?thesis using claim_candidates_props(2) [OF inv] by (auto simp: due_def)
  qed
  ultimately show ?thesis
    using claim_fold [of ?ks r tokens wk "now + ttl" "[]"] f pos by (intro exI [of _ ?ks]) auto
qed

text \<open>Every operation of the outbox keeps its invariant.\<close>

lemma claim_keeps_inv:
  assumes inv: "outbox_inv r" and ok: "claim_outbox tokens r tenant wk now limit ttl types = Inr (r1, claims)"
  shows "outbox_inv r1"
proof -
  have d: "distinct (dkeys (r_outbox r))" using inv by (simp add: outbox_inv_def)
  obtain ks where ks: "ks = take (nat limit) (claim_candidates r tenant now types)"
     "\<And>i q. i < length ks \<Longrightarrow> dget (r_outbox r) (ks ! i) = Some q \<Longrightarrow>
        dget (r_outbox r1) (ks ! i) = Some (claimed_by wk (tokens i) (now + ttl) q)"
     "\<And>k. k \<notin> set ks \<Longrightarrow> dget (r_outbox r1) k = dget (r_outbox r) k"
     "dkeys (r_outbox r1) = dkeys (r_outbox r)"
    using claim_outbox_spec [OF d ok] by blast
  have "claim_fields q" if "dget (r_outbox r1) k = Some q" for k q
  proof (cases "k \<in> set ks")
    case True
    then obtain i where i: "i < length ks" "ks ! i = k" by (auto simp: in_set_conv_nth)
    have "k \<in> set (dkeys (r_outbox r))" using dget_Some_in_dkeys [OF that] ks(4) by simp
    then obtain p where "dget (r_outbox r) k = Some p" unfolding in_dkeys_dget by blast
    with ks(2) [OF i(1)] i(2) that show ?thesis by (auto simp: claim_fields_def claimed_by_def)
  next
    case False
    with ks(3) that have "dget (r_outbox r) k = Some q" by simp
    with inv show ?thesis unfolding outbox_inv_def by blast
  qed
  then show ?thesis using d ks(4) by (simp add: outbox_inv_def)
qed

lemma outbox_inv_put:
  assumes "outbox_inv r" and "claim_fields q" and "r_outbox r1 = dput k q (r_outbox r)"
  shows "outbox_inv r1"
proof -
  have "distinct (dkeys (r_outbox r))" using assms(1) by (simp add: outbox_inv_def)
  then have "distinct (dkeys (r_outbox r1))" unfolding assms(3) by (rule distinct_dkeys_dput)
  moreover have "claim_fields p" if "dget (r_outbox r1) j = Some p" for j p
  proof (cases "j = k")
    case True
    with that assms(2,3) show ?thesis by (simp add: dget_dput)
  next
    case False
    with that have "dget (r_outbox r) j = Some p" by (simp add: assms(3) dget_dput)
    with assms(1) show ?thesis unfolding outbox_inv_def by blast
  qed
  ultimately show ?thesis unfolding outbox_inv_def by blast
qed

lemma put_outbox_inv: "outbox_inv r \<Longrightarrow> claim_fields q \<Longrightarrow> outbox_inv (put_outbox tenant eid q r)"
  by (erule outbox_inv_put) (simp_all add: put_outbox_def)

lemma release_claim_fields: "or_status q \<noteq> Q_PROCESSING \<Longrightarrow> claim_fields (release q)"
  by (simp add: release_def claim_fields_def)

lemma mark_keeps_inv:
  "outbox_inv r \<Longrightarrow> mark_outbox_published r tenant eid token now = Inr r1 \<Longrightarrow> outbox_inv r1"
  "outbox_inv r \<Longrightarrow> mark_outbox_failed r tenant eid token err now = Inr r1 \<Longrightarrow> outbox_inv r1"
  "outbox_inv r \<Longrightarrow> mark_outbox_exhausted r tenant eid token err now = Inr r1 \<Longrightarrow> outbox_inv r1"
  by (auto simp: mark_outbox_published_def mark_outbox_failed_def mark_outbox_exhausted_def rbind_Inr_iff
      intro!: put_outbox_inv release_claim_fields)

lemma append_outbox_inv: "outbox_inv r \<Longrightarrow> outbox_inv (append_outbox e r)"
proof (cases "(oe_tenant_id e, dedupe_key e) \<in> set (r_outbox_dedupe r)")
  case False
  assume "outbox_inv r"
  moreover have "claim_fields (new_outbox_record e)" by (simp add: claim_fields_def new_outbox_record_def)
  ultimately show ?thesis
    by (rule outbox_inv_put) (simp add: append_outbox_def False)
qed (simp add: append_outbox_def)

lemma append_events_outbox_inv:
  assumes "outbox_inv r"
  shows "outbox_inv (append_events es os r)"
proof -
  have "outbox_inv (fold append_audit es r)" using assms by (simp add: outbox_inv_def)
  then show ?thesis unfolding append_events_def
    by (induction os arbitrary: es r rule: rev_induct) (auto intro: append_outbox_inv)
qed

section \<open>Exclusion\<close>

lemma dget_distinct: "outbox_inv r \<Longrightarrow> distinct (dkeys (r_outbox r))"
  by (simp add: outbox_inv_def)

text \<open>What was claimed until \<open>now + ttl\<close> is not due before that time.\<close>

lemma claimed_not_due:
  assumes inv: "outbox_inv r" and ok: "claim_outbox tokens r tenant wk now limit ttl types = Inr (r1, claims)"
    and k: "k \<in> set (take (nat limit) (claim_candidates r tenant now types))" and later: "now' < now + ttl"
  shows "\<not> due r1 tenant' now' types' k"
proof -
  let ?ks = "take (nat limit) (claim_candidates r tenant now types)"
  have at: "\<And>i q. i < length ?ks \<Longrightarrow> dget (r_outbox r) (?ks ! i) = Some q \<Longrightarrow>
        dget (r_outbox r1) (?ks ! i) = Some (claimed_by wk (tokens i) (now + ttl) q)"
    using claim_outbox_spec [OF dget_distinct [OF inv] ok] by blast
  obtain i where i: "i < length ?ks" "?ks ! i = k" using k by (auto simp: in_set_conv_nth)
  have "due r tenant now types k"
    using claim_candidates_props(2) [OF dget_distinct [OF inv]] in_set_takeD [OF k] by blast
  then obtain q where "dget (r_outbox r) k = Some q" unfolding due_def by blast
  with at [OF i(1)] i(2) have "dget (r_outbox r1) k = Some (claimed_by wk (tokens i) (now + ttl) q)" by simp
  with later show ?thesis by (simp add: due_def claimable_def claimed_by_def)
qed

text \<open>Two claims within the lifetime of the first hand out different events.\<close>

lemma claims_disjoint:
  assumes inv: "outbox_inv r"
    and c1: "claim_outbox tokens r tenant wk now limit ttl types = Inr (r1, claims)"
    and c2: "claim_outbox tokens' r1 tenant' wk' now' limit' ttl' types' = Inr (r2, claims')"
    and later: "now' < now + ttl"
  shows "set (take (nat limit) (claim_candidates r tenant now types)) \<inter>
      set (take (nat limit') (claim_candidates r1 tenant' now' types')) = {}"
proof -
  have "\<not> due r1 tenant' now' types' k" if "k \<in> set (take (nat limit) (claim_candidates r tenant now types))" for k
    using claimed_not_due [OF inv c1 that later] .
  moreover have "due r1 tenant' now' types' k" if "k \<in> set (take (nat limit') (claim_candidates r1 tenant' now' types'))" for k
    using claim_candidates_props(2) [OF dget_distinct [OF claim_keeps_inv [OF inv c1]]] in_set_takeD [OF that] by blast
  ultimately show ?thesis by blast
qed

text \<open>Settling needs the token of the live claim; a settled record is never claimed or settled again.\<close>

lemma claimed_record_Inr:
  "claimed_record r tenant eid token = Inr q \<longleftrightarrow> dget (r_outbox r) (tenant, eid) = Some q \<and>
     or_status q = Q_PROCESSING \<and> or_claim_token q = Some token \<and> ascii token"
  by (auto simp: claimed_record_def compare_digest_def rbind_Inr_iff ensure_Inr_iff
      split: option.splits if_splits)

lemma settled_final:
  assumes q: "dget (r_outbox r) k = Some q" "or_status q \<in> {Q_PUBLISHED, Q_EXHAUSTED}" and inv: "outbox_inv r"
  shows "claim_outbox tokens r tenant wk now limit ttl types = Inr (r1, claims) \<Longrightarrow> dget (r_outbox r1) k = Some q"
    and "mark_outbox_published r tenant eid token now = Inr r1 \<Longrightarrow> dget (r_outbox r1) k = Some q"
    and "mark_outbox_failed r tenant eid token err now = Inr r1 \<Longrightarrow> dget (r_outbox r1) k = Some q"
    and "mark_outbox_exhausted r tenant eid token err now = Inr r1 \<Longrightarrow> dget (r_outbox r1) k = Some q"
proof -
  have "\<not> claimable q now" using q(2) by (auto simp: claimable_def)
  then have "\<not> due r tenant now types k" using q(1) by (simp add: due_def)
  then have "k \<notin> set (take (nat limit) (claim_candidates r tenant now types))"
    using claim_candidates_props(2) [OF dget_distinct [OF inv]] in_set_takeD by metis
  moreover assume "claim_outbox tokens r tenant wk now limit ttl types = Inr (r1, claims)"
  ultimately have "dget (r_outbox r1) k = dget (r_outbox r) k"
    using claim_outbox_spec [OF dget_distinct [OF inv]] by blast
  then show "dget (r_outbox r1) k = Some q" using q(1) by simp
qed (use q in \<open>auto simp: mark_outbox_published_def mark_outbox_failed_def mark_outbox_exhausted_def
    rbind_Inr_iff claimed_record_Inr put_outbox_def dget_dput\<close>)

section \<open>Every event is queued once\<close>

text \<open>Two records never carry the same event, in the sense of the deduplication key.\<close>

definition event_key :: "outbox_record \<Rightarrow> string \<times> string \<times> string \<times> string \<times> int" where
  "event_key q = (oe_tenant_id (or_event q), dedupe_key (or_event q))"

definition queued_once :: "repository \<Rightarrow> bool" where
  "queued_once r \<longleftrightarrow>
     (\<forall>k q. dget (r_outbox r) k = Some q \<longrightarrow> event_key q \<in> set (r_outbox_dedupe r)) \<and>
     (\<forall>k k' q q'. dget (r_outbox r) k = Some q \<longrightarrow> dget (r_outbox r) k' = Some q' \<longrightarrow>
        event_key q = event_key q' \<longrightarrow> k = k')"

definition outbox_ok :: "repository \<Rightarrow> bool" where
  "outbox_ok r \<longleftrightarrow> outbox_inv r \<and> queued_once r"

lemma queued_onceD:
  "queued_once r \<Longrightarrow> dget (r_outbox r) k = Some q \<Longrightarrow> event_key q \<in> set (r_outbox_dedupe r)"
  "queued_once r \<Longrightarrow> dget (r_outbox r) k = Some q \<Longrightarrow> dget (r_outbox r) k' = Some q' \<Longrightarrow>
     event_key q = event_key q' \<Longrightarrow> k = k'"
  unfolding queued_once_def by blast+

lemma queued_once_events:
  assumes once: "queued_once r" and same: "r_outbox_dedupe r1 = r_outbox_dedupe r"
    and ev: "\<And>k q. dget (r_outbox r1) k = Some q \<Longrightarrow> \<exists>p. dget (r_outbox r) k = Some p \<and> event_key p = event_key q"
  shows "queued_once r1"
  unfolding queued_once_def same using ev queued_onceD [OF once] by metis

lemma append_outbox_once:
  assumes once: "queued_once r"
  shows "queued_once (append_outbox e r)"
proof (cases "(oe_tenant_id e, dedupe_key e) \<in> set (r_outbox_dedupe r)")
  case True
  with once show ?thesis by (simp add: append_outbox_def)
next
  case False
  let ?r = "append_outbox e r" and ?k = "(oe_tenant_id e, oe_id e)"
  have ek: "event_key (new_outbox_record e) = (oe_tenant_id e, dedupe_key e)"
    by (simp add: event_key_def new_outbox_record_def)
  have at: "dget (r_outbox ?r) j = (if j = ?k then Some (new_outbox_record e) else dget (r_outbox r) j)" for j
    using False by (auto simp: append_outbox_def Let_def dget_dput)
  have de: "set (r_outbox_dedupe ?r) = insert (oe_tenant_id e, dedupe_key e) (set (r_outbox_dedupe r))"
    using False by (simp add: append_outbox_def Let_def)
  have new: "event_key q \<noteq> event_key (new_outbox_record e)" if "dget (r_outbox r) j = Some q" for j q
    using queued_onceD(1) [OF once that] False ek by auto
  show ?thesis unfolding queued_once_def
  proof (intro conjI allI impI)
    fix j q assume "dget (r_outbox ?r) j = Some q"
    then show "event_key q \<in> set (r_outbox_dedupe ?r)"
      using queued_onceD(1) [OF once] ek by (auto simp: at de split: if_splits)
  next
    fix j j' q q' assume "dget (r_outbox ?r) j = Some q" "dget (r_outbox ?r) j' = Some q'" "event_key q = event_key q'"
    then show "j = j'" using queued_onceD(2) [OF once] new unfolding at by (metis option.inject)
  qed
qed

lemma append_events_outbox_ok [simp]: "outbox_ok r \<Longrightarrow> outbox_ok (append_events es os r)"
proof -
  assume ok: "outbox_ok r"
  have "queued_once (fold append_audit es r)" using ok by (simp add: outbox_ok_def queued_once_def)
  then have "queued_once (fold append_outbox os (fold append_audit es r))"
    by (induction os arbitrary: es r rule: rev_induct) (auto intro: append_outbox_once)
  with ok append_events_outbox_inv show ?thesis by (simp add: outbox_ok_def append_events_def)
qed

lemma outbox_ok_fields [simp]:
  "outbox_ok (r\<lparr>r_instances := x\<rparr>) = outbox_ok r"
  "outbox_ok (r\<lparr>r_restart_previews := y\<rparr>) = outbox_ok r"
  "outbox_ok (r\<lparr>r_graph_edit_previews := z\<rparr>) = outbox_ok r"
  "outbox_ok (store_instance r w e) = outbox_ok r"
  by (simp_all add: outbox_ok_def outbox_inv_def queued_once_def store_instance_def)

lemma put_outbox_once:
  assumes "queued_once r" and "dget (r_outbox r) (tenant, eid) = Some p" and "event_key q = event_key p"
  shows "queued_once (put_outbox tenant eid q r)"
  by (rule queued_once_events [OF assms(1)])
    (use assms(2,3) in \<open>auto simp: put_outbox_def dget_dput split: if_splits\<close>)

lemma mark_once:
  assumes "queued_once r" and "claimed_record r tenant eid token = Inr p" and "event_key q = event_key p"
  shows "queued_once (put_outbox tenant eid (release q) r)"
  using assms unfolding claimed_record_Inr
  by (elim conjE, intro put_outbox_once) (simp_all add: event_key_def release_def)

lemma event_key_cong:
  "oe_tenant_id (or_event q) = oe_tenant_id (or_event p) \<Longrightarrow> dedupe_key (or_event q) = dedupe_key (or_event p) \<Longrightarrow>
     event_key q = event_key p"
  by (simp add: event_key_def)

lemma dedupe_key_available [simp]: "dedupe_key (e\<lparr>oe_available_at := t\<rparr>) = dedupe_key e"
  by (simp add: dedupe_key_def)

lemma mark_outbox_ok:
  assumes "outbox_ok r" and "mark_outbox_published r tenant eid token now = Inr r1 \<or>
    mark_outbox_failed r tenant eid token err now = Inr r1 \<or> mark_outbox_exhausted r tenant eid token err now = Inr r1"
  shows "outbox_ok r1"
proof -
  have once: "queued_once r" and inv: "outbox_inv r" using assms(1) by (simp_all add: outbox_ok_def)
  obtain p q where p: "claimed_record r tenant eid token = Inr p"
    and "(Inr (put_outbox tenant eid (release q) r) :: repository res) = Inr r1" and q: "event_key q = event_key p"
    using assms(2) unfolding mark_outbox_published_def mark_outbox_failed_def mark_outbox_exhausted_def rbind_Inr_iff
    by (elim disjE exE conjE) (rule that, assumption, assumption, rule event_key_cong, simp, simp)+
  then have r1: "r1 = put_outbox tenant eid (release q) r" by simp
  have "queued_once r1" unfolding r1 by (rule mark_once [OF once p q])
  moreover have "outbox_inv r1" using assms(2) mark_keeps_inv [OF inv] by blast
  ultimately show ?thesis by (simp add: outbox_ok_def)
qed

lemma claim_step_dedupe: "r_outbox_dedupe (fst (claim_step tokens wk t k s)) = r_outbox_dedupe (fst s)"
  by (cases s) (simp add: claim_step_def Let_def put_outbox_def split: option.split)

lemma claim_outbox_ok:
  assumes ok: "outbox_ok r" and run: "claim_outbox tokens r tenant wk now limit ttl types = Inr (r1, claims)"
  shows "outbox_ok r1"
proof -
  have inv: "outbox_inv r" and once: "queued_once r" using ok by (simp_all add: outbox_ok_def)
  obtain ks where ks: "ks = take (nat limit) (claim_candidates r tenant now types)"
     "\<And>i q. i < length ks \<Longrightarrow> dget (r_outbox r) (ks ! i) = Some q \<Longrightarrow>
        dget (r_outbox r1) (ks ! i) = Some (claimed_by wk (tokens i) (now + ttl) q)"
     "\<And>k. k \<notin> set ks \<Longrightarrow> dget (r_outbox r1) k = dget (r_outbox r) k"
     "dkeys (r_outbox r1) = dkeys (r_outbox r)"
    using claim_outbox_spec [OF dget_distinct [OF inv] run] by blast
  have fold: "r_outbox_dedupe (fst (fold (claim_step tokens wk t) js s)) = r_outbox_dedupe (fst s)" for t js s
    by (induction js arbitrary: s) (simp_all add: claim_step_dedupe)
  have "r_outbox_dedupe r1 = r_outbox_dedupe r"
    using run fold [of "now + ttl" "take (nat limit) (claim_candidates r tenant now types)" "(r, [])"]
    by (auto simp: claim_outbox_def rbind_Inr_iff split: if_splits)
  moreover have "\<exists>p. dget (r_outbox r) k = Some p \<and> event_key p = event_key q" if "dget (r_outbox r1) k = Some q" for k q
  proof (cases "k \<in> set ks")
    case True
    then obtain i where i: "i < length ks" "ks ! i = k" by (auto simp: in_set_conv_nth)
    have "k \<in> set (dkeys (r_outbox r))" using dget_Some_in_dkeys [OF that] ks(4) by simp
    then obtain p where "dget (r_outbox r) k = Some p" unfolding in_dkeys_dget by blast
    with ks(2) [OF i(1)] i(2) that show ?thesis by (auto simp: claimed_by_def event_key_def)
  next
    case False
    with ks(3) that show ?thesis by simp
  qed
  ultimately have "queued_once r1" by (rule queued_once_events [OF once])
  with claim_keeps_inv [OF inv run] show ?thesis by (simp add: outbox_ok_def)
qed

end
