(* ===== verification/System.thy ===== *)
theory System
  imports Kernel_Steps Outbox "HOL-Library.Sublist"
begin

text \<open>
  The service as a concurrent system. A \<open>command\<close> reads one state of the repository and saves to
  another, later one; a \<open>history\<close> is the sequence of the repository states, in which each command
  may have read any earlier state, however stale. The theorems say what holds in every history:
  the invariant of every stored instance, versions that identify what they number, and a past
  that is never rewritten.
\<close>

section \<open>Commands\<close>

inductive command :: "repository \<Rightarrow> repository \<Rightarrow> repository \<Rightarrow> bool" for r r' :: repository where
  "create_draft env r' iid tenant owner snapshot actor corr = Inr (r1, w) \<Longrightarrow> command r r' r1"
| "confirm_draft env r r' tenant iid actor corr = Inr (r1, w) \<Longrightarrow> command r r' r1"
| "discard_draft env r r' tenant iid actor corr = Inr (r1, w) \<Longrightarrow> command r r' r1"
| "pause_instance env r r' tenant iid actor corr = Inr (r1, w) \<Longrightarrow> command r r' r1"
| "resume_instance env r r' tenant iid actor corr = Inr (r1, w) \<Longrightarrow>
     (\<And>w. repo_get r tenant iid = Inr w \<Longrightarrow> wi_status w \<noteq> I_DRAFT) \<Longrightarrow> command r r' r1"
| "confirm_cancellation env r r' tenant iid actor version corr = Inr (r1, c) \<Longrightarrow> command r r' r1"
| "dispatch_ready env r r' tenant iid worker m corr = Inr (r1, acts) \<Longrightarrow> command r r' r1"
| "dispatch_due env r r' tenant iid wk m ks corr = Inr (r1, acts) \<Longrightarrow> command r r' r1"
| "service_submit_human env r r' tenant iid key actor no v result quality corr = Inr (r1, w) \<Longrightarrow> command r r' r1"
| "transfer_human_task env r r' tenant iid key actor new no v corr = Inr (r1, w) \<Longrightarrow> command r r' r1"
| "submit_human_decision env r r' tenant iid key decision actor no iv nv feedback corr = Inr (r1, w) \<Longrightarrow>
     command r r' r1"
| "service_complete_automated env r r' tenant iid key no v token result quality wk corr = Inr (r1, w) \<Longrightarrow>
     command r r' r1"
| "service_renew_automated_claim env r r' tenant iid key no v token wk corr = Inr (r1, t) \<Longrightarrow> command r r' r1"
| "service_fail_automated env r r' tenant iid key no v token code message wk corr = Inr (r1, w) \<Longrightarrow>
     command r r' r1"
| "recover_failed_node env r r' tenant iid key action actor iv nv no corr = Inr (r1, w) \<Longrightarrow> command r r' r1"
| "preview_graph_edit env r r' tenant iid ops actor = Inr (r1, ep) \<Longrightarrow> command r r' r1"
| "confirm_graph_edit env r r' tenant pid actor = Inr (r1, ec) \<Longrightarrow> command r r' r1"
| "preview_node_restart env r r' tenant iid key actor = Inr (r1, rp) \<Longrightarrow> command r r' r1"
| "preview_instance_restart env r r' tenant iid actor = Inr (r1, rp) \<Longrightarrow> command r r' r1"
| "service_confirm_restart env r r' tenant pid actor scope = Inr (r1, rc) \<Longrightarrow> command r r' r1"
| "claim_outbox tokens r' tenant wk now limit ttl types = Inr (r1, claims) \<Longrightarrow> command r r' r1"
| "mark_outbox_published r' tenant eid token now = Inr r1 \<Longrightarrow> command r r' r1"
| "mark_outbox_failed r' tenant eid token err now = Inr r1 \<Longrightarrow> command r r' r1"
| "mark_outbox_exhausted r' tenant eid token err now = Inr r1 \<Longrightarrow> command r r' r1"
| "save_projection r' pj = Inr r1 \<Longrightarrow> command r r' r1"
| "replace_projection_external r' pj ext idem = Inr r1 \<Longrightarrow> command r r' r1"

section \<open>The effect of a command\<close>

definition repo_inv :: "repository \<Rightarrow> bool" where
  "repo_inv r \<longleftrightarrow> (\<forall>k w. find_instance r k = Some w \<longrightarrow>
     instance_key w = k \<and> instance_inv w \<and> 0 \<le> wi_version w)"

definition created_one :: "repository \<Rightarrow> repository \<Rightarrow> bool" where
  "created_one r' r1 \<longleftrightarrow> (\<exists>w. find_instance r' (instance_key w) = None \<and> wi_status w = I_DRAFT \<and>
     instance_inv w \<and> wi_version w = 0 \<and> r_instances r1 = dput (instance_key w) w (r_instances r'))"

lemma repo_invD:
  "repo_inv r \<Longrightarrow> find_instance r k = Some w \<Longrightarrow> instance_key w = k \<and> instance_inv w \<and> 0 \<le> wi_version w"
  unfolding repo_inv_def by blast

lemma repo_invI:
  "(\<And>k w. find_instance r k = Some w \<Longrightarrow> instance_key w = k \<and> instance_inv w \<and> 0 \<le> wi_version w) \<Longrightarrow> repo_inv r"
  unfolding repo_inv_def by blast

text \<open>A save of what a command made of the instance it had read, at the version it had read.\<close>

definition swapped_one :: "repository \<Rightarrow> repository \<Rightarrow> repository \<Rightarrow> bool" where
  "swapped_one r r' r1 \<longleftrightarrow> (\<exists>k w w' current. find_instance r k = Some w \<and>
     find_instance r' k = Some current \<and> wi_version current = wi_version w \<and>
     instance_inv w' \<and> progress w w' \<and>
     r_instances r1 = dput k (w'\<lparr>wi_version := wi_version w + 1\<rparr>) (r_instances r'))"

text \<open>A stored preview changes at most once, when it is consumed.\<close>

definition consumed_once :: "('p \<Rightarrow> bool) \<Rightarrow> ('k, 'p) odict \<Rightarrow> ('k, 'p) odict \<Rightarrow> bool" where
  "consumed_once consumed m m' \<longleftrightarrow> (\<forall>k p. dget m k = Some p \<longrightarrow>
     (\<exists>p'. dget m' k = Some p' \<and> (p' = p \<or> (\<not> consumed p \<and> consumed p'))))"

definition previews_kept :: "repository \<Rightarrow> repository \<Rightarrow> bool" where
  "previews_kept r' r1 \<longleftrightarrow>
     consumed_once (\<lambda>p. rp_consumed_at p \<noteq> None) (r_restart_previews r') (r_restart_previews r1) \<and>
     consumed_once (\<lambda>p. ge_consumed_at p \<noteq> None) (r_graph_edit_previews r') (r_graph_edit_previews r1)"

lemma consumed_once_refl [simp]: "consumed_once c m m"
  by (simp add: consumed_once_def)

lemma consumed_once_trans:
  assumes "consumed_once c m u" and "consumed_once c u v"
  shows "consumed_once c m v"
  unfolding consumed_once_def
proof (intro allI impI)
  fix k p assume "dget m k = Some p"
  with assms(1) obtain q where q: "dget u k = Some q" "q = p \<or> (\<not> c p \<and> c q)" unfolding consumed_once_def by blast
  with assms(2) obtain s where "dget v k = Some s" "s = q \<or> (\<not> c q \<and> c s)" unfolding consumed_once_def by blast
  with q(2) show "\<exists>s. dget v k = Some s \<and> (s = p \<or> (\<not> c p \<and> c s))" by auto
qed

lemma consumed_once_put:
  assumes "\<And>p. dget m k = Some p \<Longrightarrow> \<not> c p \<and> c q"
  shows "consumed_once c m (dput k q m)"
  using assms by (auto simp: consumed_once_def dict_simps)

lemma previews_kept_trans: "previews_kept r u \<Longrightarrow> previews_kept u v \<Longrightarrow> previews_kept r v"
  unfolding previews_kept_def by (blast intro: consumed_once_trans)

definition effect :: "repository \<Rightarrow> repository \<Rightarrow> repository \<Rightarrow> bool" where
  "effect r r' r1 \<longleftrightarrow>
     (r_instances r1 = r_instances r' \<or> created_one r' r1 \<or> swapped_one r r' r1) \<and>
     prefix (r_audit_events r') (r_audit_events r1) \<and> previews_kept r' r1 \<and> (outbox_ok r' \<longrightarrow> outbox_ok r1)"

lemma previews_kept_same [simp]:
  "r_restart_previews r1 = r_restart_previews r' \<Longrightarrow> r_graph_edit_previews r1 = r_graph_edit_previews r' \<Longrightarrow>
     previews_kept r' r1"
  by (simp add: previews_kept_def)

lemma effect_refl [simp]: "effect r r' r'"
  by (simp add: effect_def)

lemma append_audit_prefix: "prefix (r_audit_events r) (r_audit_events (append_audit e r))"
  by (simp add: append_audit_def Let_def)

lemma append_events_prefix: "prefix (r_audit_events r) (r_audit_events (append_events es os r))"
proof -
  have "prefix (r_audit_events r) (r_audit_events (fold append_audit es r))"
    by (induction es arbitrary: r) (auto intro: append_audit_prefix prefix_order.trans)
  then show ?thesis by (simp add: append_events_def)
qed

lemma store_instance_instances:
  "r_instances (store_instance r w e) = dput (instance_key w) (w\<lparr>wi_version := e + 1\<rparr>) (r_instances r)"
  by (simp add: store_instance_def)

text \<open>What the three forms of a save do.\<close>

lemma swapped_oneI:
  assumes inv: "repo_inv r" and read: "find_instance r k = Some w" and step: "kernel_step w w'"
    and e: "e \<in> {wi_version w, wi_version w'}"
    and cur: "find_instance r' (instance_key w') = Some old" "wi_version old = e"
    and new: "r_instances r1 = dput (instance_key w') (w'\<lparr>wi_version := e + 1\<rparr>) (r_instances r')"
  shows "swapped_one r r' r1"
proof -
  have w: "instance_key w = k" "instance_inv w" using repo_invD [OF inv read] by simp_all
  then have "instance_inv w'" "progress w w'" using step by (auto simp: kernel_step_def)
  moreover from this(2) have "instance_key w' = k" "wi_version w' = wi_version w"
    using w(1) by (auto simp: progress_def same_aggregate_def)
  moreover have "e = wi_version w" "wi_version old = wi_version w" using calculation(4) e cur(2) by auto
  ultimately show ?thesis unfolding swapped_one_def using read cur(1) new
    by (intro exI [of _ k] exI [of _ w] exI [of _ w'] exI [of _ old]) simp
qed

lemma save_effect:
  assumes "repo_inv r" and "repo_get r tenant iid = Inr w" and "kernel_step w w'"
    and "e \<in> {wi_version w, wi_version w'}" and "repo_save r' w' e es os = Inr r1"
  shows "effect r r' r1"
proof -
  from assms(5) obtain old where old: "find_instance r' (instance_key w') = Some old" "wi_version old = e"
    and r1: "r1 = append_events es os (store_instance r' w' e)" by (auto simp: repo_save_Inr)
  have "find_instance r (tenant, iid) = Some w" using assms(2) by (simp add: repo_get_def result_simps)
  then have "swapped_one r r' r1"
    using swapped_oneI [OF assms(1) _ assms(3,4) old] by (simp add: r1 store_instance_instances)
  moreover have "prefix (r_audit_events r') (r_audit_events r1)"
    using append_events_prefix [of "store_instance r' w' e"] by (simp add: r1)
  ultimately show ?thesis by (simp add: effect_def r1)
qed

lemma save_and_get_effect:
  assumes "repo_inv r" and "repo_get r tenant iid = Inr w" and "kernel_step w w'"
    and "e \<in> {wi_version w, wi_version w'}" and "save_and_get r' w' e es os = Inr (r1, x)"
  shows "effect r r' r1"
  using assms(5) save_effect [OF assms(1-4)] by (auto simp: save_and_get_def rbind_Inr_iff)

lemma save_completion_effect:
  assumes "repo_inv r" and "repo_get r tenant iid = Inr w" and "kernel_step w w'"
    and "save_completion env r' w' event actor key no corr payload = Inr (r1, x)"
  shows "effect r r' r1"
  using assms(4) save_and_get_effect [OF assms(1-3), of "wi_version w'"]
  by (auto simp: save_completion_def rbind_Inr_iff Let_def split: prod.splits)

lemma on_conflict_Inr:
  "on_conflict x h = Inr y \<longleftrightarrow> x = Inr y \<or> (\<exists>m. x = Inl (ConcurrentUpdateError m) \<and> h = Inr y)"
  by (auto simp: on_conflict_def split: sum.splits exn.splits)

section \<open>Drafts, pause, resume, cancel\<close>

lemma create_draft_effect:
  assumes "create_draft env r' iid tenant owner snapshot actor corr = Inr (r1, x)"
  shows "effect r r' r1"
proof -
  let ?w = "new_instance iid tenant owner snapshot (env_now env)"
  obtain audits where valid: "validate_snapshot snapshot = Inr ()"
    and add: "repo_add r' ?w audits [] = Inr r1"
    using assms unfolding create_draft_def Let_def
    by (elim rbindE) (auto simp: rbind_Inr_iff split: prod.splits)
  have w: "instance_key ?w = (tenant, iid)" "instance_inv ?w" "wi_version ?w = 0" "wi_status ?w = I_DRAFT"
    using valid by (simp_all add: new_instance_def instance_inv_def is_draft_def)
  from add have new: "find_instance r' (instance_key ?w) = None"
    and r1: "r1 = append_events audits [] (r'\<lparr>r_instances := dput (instance_key ?w) ?w (r_instances r')\<rparr>)"
    by (auto simp: repo_add_def rbind_Inr_iff ensure_Inr_iff)
  have "created_one r' r1" unfolding created_one_def using new w r1 by (intro exI [of _ ?w]) simp
  moreover have "prefix (r_audit_events r') (r_audit_events r1)"
    using append_events_prefix [of "r'\<lparr>r_instances := dput (instance_key ?w) ?w (r_instances r')\<rparr>"] by (simp add: r1)
  ultimately show ?thesis by (simp add: effect_def r1)
qed

lemma confirm_draft_effect:
  assumes inv: "repo_inv r" and ok: "confirm_draft env r r' tenant iid actor corr = Inr (r1, x)"
  shows "effect r r' r1"
proof -
  obtain w w' es os where "repo_get r tenant iid = Inr w" "wi_status w = I_DRAFT"
      "scheduler_confirm w (env_now env) = Inr w'" "save_and_get r' w' (wi_version w) es os = Inr (r1, x)"
    using ok unfolding confirm_draft_def Let_def
    by (elim rbindE) (auto simp: rbind_Inr_iff ensure_Inr_iff split: prod.splits)
  then show ?thesis by (intro save_and_get_effect [OF inv _ confirm_step]) auto
qed

lemma discard_draft_effect:
  assumes inv: "repo_inv r" and ok: "discard_draft env r r' tenant iid actor corr = Inr (r1, x)"
  shows "effect r r' r1"
proof -
  obtain w w' es os where "repo_get r tenant iid = Inr w"
      "transition_instance w I_DISCARDED (env_now env) = Inr w'" "save_and_get r' w' (wi_version w) es os = Inr (r1, x)"
    using ok unfolding discard_draft_def Let_def
    by (elim rbindE) (auto simp: rbind_Inr_iff split: prod.splits)
  then show ?thesis by (intro save_and_get_effect [OF inv _ discard_step]) auto
qed

lemma on_conflict_same:
  "on_conflict x (same_outcome r' tenant iid actor target) = Inr (r1, y) \<Longrightarrow> r1 \<noteq> r' \<Longrightarrow> x = Inr (r1, y)"
  by (auto simp: on_conflict_Inr same_outcome_def rbind_Inr_iff)

lemma effectI:
  assumes "repo_inv r" and "repo_get r tenant iid = Inr w"
    and "r1 \<noteq> r' \<Longrightarrow> \<exists>w' es os y. kernel_step w w' \<and> save_and_get r' w' (wi_version w) es os = Inr (r1, y)"
  shows "effect r r' r1"
proof (cases "r1 = r'")
  case False
  with assms(3) obtain w' es os y where "kernel_step w w'" "save_and_get r' w' (wi_version w) es os = Inr (r1, y)"
    by blast
  then show ?thesis by (intro save_and_get_effect [OF assms(1,2)]) simp_all
qed simp

lemma pause_effect:
  assumes inv: "repo_inv r" and ok: "pause_instance env r r' tenant iid actor corr = Inr (r1, x)"
  shows "effect r r' r1"
proof -
  obtain c i where ci: "correlation env corr = (c, i)" by fastforce
  obtain w where w: "repo_get r tenant iid = Inr w" and s: "r1 \<noteq> r' \<Longrightarrow>
      \<exists>w' es. transition_instance w I_PAUSED (env_now env) = Inr w' \<and>
      on_conflict (save_and_get r' w' (wi_version w) es []) (same_outcome r' tenant iid actor I_PAUSED) = Inr (r1, x)"
    using ok unfolding pause_instance_def Let_def
    by (elim rbindE) (simp add: rbind_Inr_iff ci split: if_splits, blast)
  show ?thesis using on_conflict_same s pause_step by (intro effectI [OF inv w]) blast
qed

lemma resume_effect:
  assumes inv: "repo_inv r" and ok: "resume_instance env r r' tenant iid actor corr = Inr (r1, x)"
    and no_draft: "\<And>w. repo_get r tenant iid = Inr w \<Longrightarrow> wi_status w \<noteq> I_DRAFT"
  shows "effect r r' r1"
proof -
  obtain c i where ci: "correlation env corr = (c, i)" by fastforce
  obtain w where w: "repo_get r tenant iid = Inr w" and s: "r1 \<noteq> r' \<Longrightarrow>
      \<exists>w' es. transition_instance w I_RUNNING (env_now env) = Inr w' \<and>
      on_conflict (save_and_get r' w' (wi_version w) es []) (same_outcome r' tenant iid actor I_RUNNING) = Inr (r1, x)"
    using ok unfolding resume_instance_def Let_def
    by (elim rbindE) (simp add: rbind_Inr_iff ci split: if_splits, blast)
  show ?thesis using on_conflict_same s resume_step no_draft [OF w] by (intro effectI [OF inv w]) blast
qed

lemma cancel_effect:
  assumes inv: "repo_inv r" and ok: "confirm_cancellation env r r' tenant iid actor v corr = Inr (r1, x)"
  shows "effect r r' r1"
proof -
  obtain c i where ci: "correlation env corr = (c, i)" by fastforce
  obtain w where w: "repo_get r tenant iid = Inr w" and s: "r1 \<noteq> r' \<Longrightarrow>
      \<exists>w' ks rs es os y. apply_cancellation w v (env_now env) = Inr (w', ks, rs) \<and>
      save_and_get r' w' (wi_version w) es os = Inr (r1, y)"
    using ok unfolding confirm_cancellation_def Let_def
    by (elim rbindE) (simp add: rbind_Inr_iff on_conflict_Inr ci split: if_splits prod.splits, blast)
  with cancel_step show ?thesis by (intro effectI [OF inv w]) blast
qed

section \<open>Work\<close>

lemma require_active_Inr [result_simps]: "require_active w = Inr u \<longleftrightarrow> active w"
  by (auto simp: require_active_def result_simps)

lemma dispatch_effect:
  assumes inv: "repo_inv r" and ok: "dispatch env r r' tenant iid worker m recover ks corr = Inr (r1, acts)"
  shows "effect r r' r1"
proof -
  obtain c i where ci: "correlation env corr = (c, i)" by fastforce
  obtain w st where w: "repo_get r tenant iid = Inr w" and run: "wi_status w = I_RUNNING"
    and st: "dispatch_loops env w worker m recover ks = Inr st"
    and s: "r1 \<noteq> r' \<Longrightarrow> \<exists>es os. repo_save r' (ds_instance st) (wi_version w) es os = Inr r1"
    using ok unfolding dispatch_def Let_def ci
    by (elim rbindE) (simp add: rbind_Inr_iff ensure_Inr_iff split: if_splits, blast)
  show ?thesis
  proof (cases "r1 = r'")
    case False
    with s obtain es os where "repo_save r' (ds_instance st) (wi_version w) es os = Inr r1" by blast
    from save_effect [OF inv w dispatch_loops_step [OF st run] _ this] show ?thesis by simp
  qed simp
qed

lemma dispatch_ready_effect:
  "repo_inv r \<Longrightarrow> dispatch_ready env r r' tenant iid worker m corr = Inr (r1, acts) \<Longrightarrow> effect r r' r1"
  unfolding dispatch_ready_def by (elim rbindE) (rule dispatch_effect)

lemma dispatch_due_effect:
  "repo_inv r \<Longrightarrow> dispatch_due env r r' tenant iid wk m ks corr = Inr (r1, acts) \<Longrightarrow> effect r r' r1"
  unfolding dispatch_due_def by (elim rbindE) (rule dispatch_effect)

lemma submit_human_effect:
  assumes inv: "repo_inv r"
    and ok: "service_submit_human env r r' tenant iid key actor no v result quality corr = Inr (r1, x)"
  shows "effect r r' r1"
proof -
  obtain w u res w' where "repo_get r tenant iid = Inr w" "active w"
      "submit_human w key actor no v res quality (env_now env) = Inr u" "unlock_after u key (env_now env) = Inr w'"
      "save_completion env r' w' ''node.human_submitted'' (Some actor) key no corr [] = Inr (r1, x)"
    using ok unfolding service_submit_human_def by (elim rbindE) (simp only: require_active_Inr)
  then show ?thesis by (intro save_completion_effect [OF inv _ submit_step])
qed

lemma transfer_effect:
  assumes inv: "repo_inv r" and ok: "transfer_human_task env r r' tenant iid key actor new no v corr = Inr (r1, x)"
  shows "effect r r' r1"
proof -
  obtain c i where ci: "correlation env corr = (c, i)" by fastforce
  obtain w n person es os where w: "repo_get r tenant iid = Inr w" and act: "active w"
    and t: "transfer_allowed env w key actor new no v = Inr (n, person)"
    and s: "save_and_get r' (transfer_node w key n person) (wi_version w) es os = Inr (r1, x)"
    using ok unfolding transfer_human_task_def Let_def ci
    by (elim rbindE) (simp add: require_active_Inr rbind_Inr_iff split: prod.split_asm; blast)
  from transfer_step [OF act t] s show ?thesis by (intro save_and_get_effect [OF inv w]) simp_all
qed

lemma decision_effect:
  assumes inv: "repo_inv r"
    and ok: "submit_human_decision env r r' tenant iid key decision actor no iv nv feedback corr = Inr (r1, x)"
  shows "effect r r' r1"
proof -
  obtain w f w' payload where w: "repo_get r tenant iid = Inr w" and act: "active w"
    and d: "apply_decision w key decision actor no nv f (env_now env) = Inr w'"
    and s: "on_conflict (save_completion env r' w' (decision_event decision) (Some actor) key no corr payload)
       (Inl (StaleHumanDecisionError ''instance changed while applying the decision'')) = Inr (r1, x)"
    using ok unfolding submit_human_decision_def by (elim rbindE) (simp only: require_active_Inr)
  from s have "save_completion env r' w' (decision_event decision) (Some actor) key no corr payload = Inr (r1, x)"
    by (simp add: on_conflict_Inr)
  then show ?thesis by (rule save_completion_effect [OF inv w decision_step [OF act d]])
qed

lemma complete_effect:
  assumes inv: "repo_inv r"
    and ok: "service_complete_automated env r r' tenant iid key no v token result quality wk corr = Inr (r1, x)"
  shows "effect r r' r1"
proof -
  obtain w u res w' event payload where "repo_get r tenant iid = Inr w" "active w"
      "complete_automated w key no v token wk res quality (env_now env) = Inr u"
      "unlock_after u key (env_now env) = Inr w'"
      "save_completion env r' w' event None key no corr payload = Inr (r1, x)"
    using ok unfolding service_complete_automated_def Let_def by (elim rbindE) (simp only: require_active_Inr)
  then show ?thesis by (intro save_completion_effect [OF inv _ complete_step])
qed

lemma renew_effect:
  assumes inv: "repo_inv r"
    and ok: "service_renew_automated_claim env r r' tenant iid key no v token wk corr = Inr (r1, x)"
  shows "effect r r' r1"
proof -
  obtain c i where ci: "correlation env corr = (c, i)" by fastforce
  obtain w w' t es where w: "repo_get r tenant iid = Inr w" "active w"
      "renew_automated_claim (env_claim_ttl env) w key no v token wk (env_now env) = Inr (w', t)"
      and s: "repo_save r' w' (wi_version w) es [] = Inr r1"
    using ok unfolding service_renew_automated_claim_def Let_def ci
    by (elim rbindE) (auto simp: require_active_Inr rbind_Inr_iff)
  show ?thesis by (rule save_effect [OF inv w(1) renew_step [OF w(2,3)] _ s]) simp
qed

lemma fail_effect:
  assumes inv: "repo_inv r"
    and ok: "service_fail_automated env r r' tenant iid key no v token code message wk corr = Inr (r1, x)"
  shows "effect r r' r1"
proof -
  obtain c i where ci: "correlation env corr = (c, i)" by fastforce
  obtain w u w' es os where w: "repo_get r tenant iid = Inr w" "active w"
      "fail_automated w key no v token wk code message (env_now env) = Inr u"
      "fail_instance u (env_now env) = Inr w'" and s: "save_and_get r' w' (wi_version w') es os = Inr (r1, x)"
    using ok unfolding service_fail_automated_def Let_def ci
    by (elim rbindE) (simp add: require_active_Inr rbind_Inr_iff; blast)
  show ?thesis by (rule save_and_get_effect [OF inv w(1) fail_step [OF w(2-4)] _ s]) simp
qed

lemma recover_effect:
  assumes inv: "repo_inv r"
    and ok: "recover_failed_node env r r' tenant iid key action actor iv nv no corr = Inr (r1, x)"
  shows "effect r r' r1"
proof -
  obtain c i where ci: "correlation env corr = (c, i)" by fastforce
  obtain w w' ks es os where w: "repo_get r tenant iid = Inr w"
    and rec: "apply_failed_node_recovery w key action actor iv nv no (env_now env) = Inr (w', ks)"
    and s: "save_and_get r' w' (wi_version w) es os = Inr (r1, x)"
    using ok unfolding recover_failed_node_def Let_def ci
    by (elim rbindE) (simp add: rbind_Inr_iff split: prod.split_asm; blast)
  show ?thesis by (rule save_and_get_effect [OF inv w recovery_step [OF rec] _ s]) simp
qed

section \<open>Previews\<close>

lemma kept_restart_put:
  assumes "\<And>p. dget (r_restart_previews r') k = Some p \<Longrightarrow> rp_consumed_at p = None \<and> rp_consumed_at q \<noteq> None"
    and "r_restart_previews r1 = dput k q (r_restart_previews r')"
    and "r_graph_edit_previews r1 = r_graph_edit_previews r'"
  shows "previews_kept r' r1"
  unfolding previews_kept_def assms(2,3) using assms(1) by (auto intro!: consumed_once_put)

lemma kept_edit_put:
  assumes "\<And>p. dget (r_graph_edit_previews r') k = Some p \<Longrightarrow> ge_consumed_at p = None \<and> ge_consumed_at q \<noteq> None"
    and "r_graph_edit_previews r1 = dput k q (r_graph_edit_previews r')"
    and "r_restart_previews r1 = r_restart_previews r'"
  shows "previews_kept r' r1"
  unfolding previews_kept_def assms(2,3) using assms(1) by (auto intro!: consumed_once_put)

lemma add_restart_effect: "add_restart_preview r' p = Inr r1 \<Longrightarrow> effect r r' r1"
  by (auto simp: add_restart_preview_def rbind_Inr_iff ensure_Inr_iff effect_def previews_kept_def consumed_once_def dict_simps)

lemma add_edit_effect: "add_graph_edit_preview r' p = Inr r1 \<Longrightarrow> effect r r' r1"
  by (auto simp: add_graph_edit_preview_def rbind_Inr_iff ensure_Inr_iff effect_def previews_kept_def consumed_once_def dict_simps)

lemma preview_edit_effect: "preview_graph_edit env r r' tenant iid ops actor = Inr (r1, x) \<Longrightarrow> effect r r' r1"
  unfolding preview_graph_edit_def
  by (elim rbindE) (auto simp: rbind_Inr_iff split: prod.split_asm intro: add_edit_effect)

lemma preview_node_restart_effect:
  "preview_node_restart env r r' tenant iid key actor = Inr (r1, x) \<Longrightarrow> effect r r' r1"
  unfolding preview_node_restart_def service_add_restart_preview_def
  by (elim rbindE) (auto simp: rbind_Inr_iff intro: add_restart_effect)

lemma preview_instance_restart_effect:
  "preview_instance_restart env r r' tenant iid actor = Inr (r1, x) \<Longrightarrow> effect r r' r1"
  unfolding preview_instance_restart_def service_add_restart_preview_def
  by (elim rbindE) (auto simp: rbind_Inr_iff intro: add_restart_effect)

lemma save_restart_effect:
  assumes inv: "repo_inv r" and w: "repo_get r tenant iid = Inr w" and step: "kernel_step w w'"
    and s: "save_restart r' w' p (wi_version w) t es os = Inr (r1, b)"
  shows "effect r r' r1"
proof -
  obtain old stored where old: "find_instance r' (instance_key w') = Some old"
    and st: "dget (r_restart_previews r') (rp_tenant_id p, rp_id p) = Some stored"
    and eff: "if rp_consumed_at stored \<noteq> None then r1 = r' \<and> \<not> b
         else b \<and> stored = p \<and> t < rp_expires_at p \<and> wi_version old = wi_version w \<and> validate_events w' es os = Inr () \<and>
           r1 = append_events es os ((store_instance r' w' (wi_version w))
              \<lparr>r_restart_previews := dput (rp_tenant_id p, rp_id p)
                 (p\<lparr>rp_consumed_at := Some t, rp_applied_instance_version := Some (wi_version w + 1)\<rparr>)
                 (r_restart_previews r')\<rparr>)"
    using s unfolding save_restart_Inr by blast
  show ?thesis
  proof (cases "rp_consumed_at stored = None")
    case True
    let ?s = "(store_instance r' w' (wi_version w)) \<lparr>r_restart_previews := dput (rp_tenant_id p, rp_id p)
                 (p\<lparr>rp_consumed_at := Some t, rp_applied_instance_version := Some (wi_version w + 1)\<rparr>)
                 (r_restart_previews r')\<rparr>"
    from True eff have r1: "r1 = append_events es os ?s" and v: "wi_version old = wi_version w" "stored = p" by auto
    have read: "find_instance r (tenant, iid) = Some w" using w by (simp add: repo_get_def result_simps)
    have "swapped_one r r' r1"
      by (rule swapped_oneI [OF inv read step _ old v(1)]) (simp_all add: r1 store_instance_instances)
    moreover have "prefix (r_audit_events r') (r_audit_events r1)"
      using append_events_prefix [of ?s] by (simp add: r1)
    moreover have "previews_kept r' r1"
      by (rule kept_restart_put [where k = "(rp_tenant_id p, rp_id p)"
          and q = "p\<lparr>rp_consumed_at := Some t, rp_applied_instance_version := Some (wi_version w + 1)\<rparr>"])
        (use True v(2) st in \<open>auto simp: r1\<close>)
    ultimately show ?thesis by (simp add: effect_def r1)
  qed (use eff in auto)
qed

lemma save_graph_edit_effect:
  assumes inv: "repo_inv r" and w: "repo_get r tenant iid = Inr w" and step: "kernel_step w w'"
    and s: "save_graph_edit r' w' p (wi_version w) t es os = Inr (r1, b)"
  shows "effect r r' r1"
proof -
  obtain old stored where old: "find_instance r' (instance_key w') = Some old"
    and st: "dget (r_graph_edit_previews r') (ge_tenant_id p, ge_id p) = Some stored"
    and eff: "if ge_consumed_at stored \<noteq> None then r1 = r' \<and> \<not> b
         else b \<and> same_preview stored p \<and> t < ge_expires_at stored \<and> wi_version old = wi_version w \<and>
           validate_events w' es os = Inr () \<and>
           r1 = append_events es os ((store_instance r' w' (wi_version w))
              \<lparr>r_graph_edit_previews := dput (ge_tenant_id p, ge_id p)
                 (p\<lparr>ge_consumed_at := Some t, ge_applied_instance_version := Some (wi_version w + 1)\<rparr>)
                 (r_graph_edit_previews r')\<rparr>)"
    using s unfolding save_graph_edit_Inr by blast
  show ?thesis
  proof (cases "ge_consumed_at stored = None")
    case True
    let ?s = "(store_instance r' w' (wi_version w)) \<lparr>r_graph_edit_previews := dput (ge_tenant_id p, ge_id p)
                 (p\<lparr>ge_consumed_at := Some t, ge_applied_instance_version := Some (wi_version w + 1)\<rparr>)
                 (r_graph_edit_previews r')\<rparr>"
    from True eff have r1: "r1 = append_events es os ?s" and v: "wi_version old = wi_version w" by auto
    have read: "find_instance r (tenant, iid) = Some w" using w by (simp add: repo_get_def result_simps)
    have "swapped_one r r' r1"
      by (rule swapped_oneI [OF inv read step _ old v]) (simp_all add: r1 store_instance_instances)
    moreover have "prefix (r_audit_events r') (r_audit_events r1)"
      using append_events_prefix [of ?s] by (simp add: r1)
    moreover have "previews_kept r' r1"
      by (rule kept_edit_put [where k = "(ge_tenant_id p, ge_id p)"
          and q = "p\<lparr>ge_consumed_at := Some t, ge_applied_instance_version := Some (wi_version w + 1)\<rparr>"])
        (use True st in \<open>auto simp: r1\<close>)
    ultimately show ?thesis by (simp add: effect_def r1)
  qed (use eff in auto)
qed

lemma confirm_edit_effect:
  assumes inv: "repo_inv r" and ok: "confirm_graph_edit env r r' tenant pid actor = Inr (r1, x)"
  shows "effect r r' r1"
proof -
  obtain p w where w: "repo_get r tenant (ge_instance_id p) = Inr w"
    and s: "r1 \<noteq> r' \<Longrightarrow> \<exists>w' plan es os b. apply_future_graph_edit w (PTuple (map PFrozen (ge_operations p))) (env_now env)
        = Inr (w', plan) \<and> save_graph_edit r' w' p (wi_version w) (env_now env) es os = Inr (r1, b)"
    using ok unfolding confirm_graph_edit_def
    by (elim rbindE) (simp add: rbind_Inr_iff on_conflict_Inr confirmed_edit_def split: if_splits prod.split_asm; blast)
  show ?thesis
  proof (cases "r1 = r'")
    case False
    with s obtain w' plan es os b where
      "apply_future_graph_edit w (PTuple (map PFrozen (ge_operations p))) (env_now env) = Inr (w', plan)"
      "save_graph_edit r' w' p (wi_version w) (env_now env) es os = Inr (r1, b)" by blast
    then show ?thesis by (intro save_graph_edit_effect [OF inv w graph_edit_step])
  qed simp
qed

lemma confirm_restart_effect:
  assumes inv: "repo_inv r" and ok: "service_confirm_restart env r r' tenant pid actor scope = Inr (r1, x)"
  shows "effect r r' r1"
proof -
  obtain p w where w: "repo_get r tenant (rp_instance_id p) = Inr w"
    and s: "r1 \<noteq> r' \<Longrightarrow> \<exists>w' es os b. apply_restart w p (env_now env) = Inr w' \<and>
        save_restart r' w' p (wi_version w) (env_now env) es os = Inr (r1, b)"
    using ok unfolding service_confirm_restart_def
    by (elim rbindE) (simp add: rbind_Inr_iff on_conflict_Inr confirmed_restart_def split: if_splits prod.split_asm; blast)
  show ?thesis
  proof (cases "r1 = r'")
    case False
    with s obtain w' es os b where "apply_restart w p (env_now env) = Inr w'"
      "save_restart r' w' p (wi_version w) (env_now env) es os = Inr (r1, b)" by blast
    then show ?thesis by (intro save_restart_effect [OF inv w restart_step])
  qed simp
qed

section \<open>Outbox and projections\<close>

abbreviation same_core :: "repository \<Rightarrow> repository \<Rightarrow> bool" where
  "same_core r' r1 \<equiv> r_instances r1 = r_instances r' \<and> r_audit_events r1 = r_audit_events r' \<and>
     r_restart_previews r1 = r_restart_previews r' \<and> r_graph_edit_previews r1 = r_graph_edit_previews r'"

lemma same_core_effect: "same_core r' r1 \<Longrightarrow> (outbox_ok r' \<Longrightarrow> outbox_ok r1) \<Longrightarrow> effect r r' r1"
  by (simp add: effect_def)

lemma claim_step_same: "same_core r' (fst s) \<Longrightarrow> same_core r' (fst (claim_step tokens wk t k s))"
  by (cases s) (simp add: claim_step_def Let_def split: option.split)

lemma claim_fold_same: "same_core r' (fst s) \<Longrightarrow> same_core r' (fst (fold (claim_step tokens wk t) ks s))"
proof (induction ks arbitrary: s)
  case (Cons k ks)
  from Cons.IH [OF claim_step_same [OF Cons.prems]] show ?case by simp
qed simp

lemma claim_outbox_same:
  assumes "claim_outbox tokens r' tenant wk now limit ttl types = Inr (r1, claims)"
  shows "same_core r' r1"
proof -
  have "same_core r' (fst (r', [] :: outbox_claim list))" by simp
  from claim_fold_same [OF this, of tokens wk "now + ttl" "take (nat limit) (claim_candidates r' tenant now types)"]
  show ?thesis using assms by (auto simp: claim_outbox_def rbind_Inr_iff split: if_splits)
qed

lemma put_outbox_same: "same_core r' (put_outbox tenant eid q r')"
  by (simp add: put_outbox_def)

lemma mark_same:
  "mark_outbox_published r' tenant eid token now = Inr r1 \<Longrightarrow> same_core r' r1"
  "mark_outbox_failed r' tenant eid token err now = Inr r1 \<Longrightarrow> same_core r' r1"
  "mark_outbox_exhausted r' tenant eid token err now = Inr r1 \<Longrightarrow> same_core r' r1"
  using put_outbox_same
  by (auto simp: mark_outbox_published_def mark_outbox_failed_def mark_outbox_exhausted_def rbind_Inr_iff)

lemma projection_same:
  "save_projection r' pj = Inr r1 \<Longrightarrow> same_core r' r1 \<and> outbox_ok r1 = outbox_ok r'"
  "replace_projection_external r' pj ext idem = Inr r1 \<Longrightarrow> same_core r' r1 \<and> outbox_ok r1 = outbox_ok r'"
  by (auto simp: save_projection_def replace_projection_external_def rbind_Inr_iff
      outbox_ok_def outbox_inv_def queued_once_def)

lemma claim_effect:
  assumes "claim_outbox tokens r' tenant wk now limit ttl types = Inr (r1, claims)"
  shows "effect r r' r1"
  by (rule same_core_effect [OF claim_outbox_same [OF assms] claim_outbox_ok [OF _ assms]])

lemma mark_effect_any:
  assumes "mark_outbox_published r' tenant eid token now = Inr r1 \<or>
    mark_outbox_failed r' tenant eid token err now = Inr r1 \<or> mark_outbox_exhausted r' tenant eid token err now = Inr r1"
  shows "effect r r' r1"
proof (rule same_core_effect [OF _ mark_outbox_ok [OF _ assms]])
  show "same_core r' r1" using assms by (elim disjE) (erule mark_same)+
qed

lemmas mark_effect = mark_effect_any [OF disjI1] mark_effect_any [OF disjI2, OF disjI1]
  mark_effect_any [OF disjI2, OF disjI2]

lemma projection_effect:
  "save_projection r' pj = Inr r1 \<Longrightarrow> effect r r' r1"
  "replace_projection_external r' pj ext idem = Inr r1 \<Longrightarrow> effect r r' r1"
  by (rule same_core_effect, drule projection_same, simp, drule projection_same, simp)+

lemmas command_effects =
  create_draft_effect confirm_draft_effect discard_draft_effect pause_effect cancel_effect
  dispatch_ready_effect dispatch_due_effect submit_human_effect transfer_effect decision_effect
  complete_effect renew_effect fail_effect recover_effect preview_edit_effect confirm_edit_effect
  preview_node_restart_effect preview_instance_restart_effect confirm_restart_effect
  claim_effect mark_effect projection_effect

lemma command_effect:
  assumes "repo_inv r" and "command r r' r1"
  shows "effect r r' r1"
  using assms(2)
proof cases
  case (5 env tenant iid actor corr w)
  with assms(1) show ?thesis by (intro resume_effect)
qed (rule command_effects; (rule assms(1) | assumption))+

section \<open>Histories\<close>

text \<open>The states in the order they were stored; a command may have read any of them.\<close>

inductive history :: "repository list \<Rightarrow> bool" where
  "history [empty_repository]"
| "history rs \<Longrightarrow> r \<in> set rs \<Longrightarrow> command r (last rs) r1 \<Longrightarrow> history (rs @ [r1])"

lemma history_not_empty: "history rs \<Longrightarrow> rs \<noteq> []"
  by (induction rule: history.induct) simp_all

text \<open>How a stored instance relates to what is stored under its key later.\<close>

definition later :: "workflow_instance \<Rightarrow> workflow_instance \<Rightarrow> bool" where
  "later w v \<longleftrightarrow> wi_version w \<le> wi_version v \<and> (wi_version v = wi_version w \<longrightarrow> v = w) \<and>
     progress w (v\<lparr>wi_version := wi_version w\<rparr>)"

lemma later_refl [simp]: "later w w"
  by (simp add: later_def)

lemma progress_version:
  "progress u v \<Longrightarrow> progress (u\<lparr>wi_version := i\<rparr>) (v\<lparr>wi_version := i\<rparr>)"
  by (simp add: progress_def same_aggregate_def evolves_def history_kept_def versions_strict_def)

lemma later_trans:
  assumes "later u v" and "later v w"
  shows "later u w"
proof -
  have "progress u (v\<lparr>wi_version := wi_version u\<rparr>)" using assms(1) by (simp add: later_def)
  moreover have "progress (v\<lparr>wi_version := wi_version u\<rparr>) (w\<lparr>wi_version := wi_version u\<rparr>)"
    using assms(2) progress_version [of v "w\<lparr>wi_version := wi_version v\<rparr>" "wi_version u"] by (simp add: later_def)
  ultimately have "progress u (w\<lparr>wi_version := wi_version u\<rparr>)" by (rule progress_trans)
  moreover have "w = u" if "wi_version w = wi_version u"
  proof -
    have "wi_version v = wi_version u" "wi_version w = wi_version v" using assms that by (auto simp: later_def)
    then show ?thesis using assms by (simp add: later_def)
  qed
  ultimately show ?thesis using assms by (auto simp: later_def)
qed

definition repo_later :: "repository \<Rightarrow> repository \<Rightarrow> bool" where
  "repo_later r r' \<longleftrightarrow>
     (\<forall>k w. find_instance r k = Some w \<longrightarrow> (\<exists>v. find_instance r' k = Some v \<and> later w v)) \<and>
     prefix (r_audit_events r) (r_audit_events r') \<and> previews_kept r r'"

lemma repo_later_refl [simp]: "repo_later r r" by (auto simp: repo_later_def)

lemma repo_later_trans: "repo_later r u \<Longrightarrow> repo_later u v \<Longrightarrow> repo_later r v"
  unfolding repo_later_def by (blast intro: later_trans previews_kept_trans prefix_order.trans)

lemma repo_laterD:
  "repo_later r r' \<Longrightarrow> find_instance r k = Some w \<Longrightarrow> \<exists>v. find_instance r' k = Some v \<and> later w v"
  unfolding repo_later_def by blast

text \<open>A compare and swap that succeeds replaces exactly the instance its command has read.\<close>

lemma swapped_current:
  assumes inv: "repo_inv r" and later: "repo_later r r'" and swap: "swapped_one r r' r1"
  obtains w w' where "find_instance r' (instance_key w) = Some w" "instance_inv w'" "progress w w'" "0 \<le> wi_version w"
    "r_instances r1 = dput (instance_key w) (w'\<lparr>wi_version := wi_version w + 1\<rparr>) (r_instances r')"
    "instance_key w' = instance_key w"
proof -
  from swap obtain k w w' current where *: "find_instance r k = Some w" "find_instance r' k = Some current"
      "wi_version current = wi_version w" "instance_inv w'" "progress w w'"
      "r_instances r1 = dput k (w'\<lparr>wi_version := wi_version w + 1\<rparr>) (r_instances r')"
    unfolding swapped_one_def by blast
  from repo_laterD [OF later *(1)] *(2,3) have "current = w" by (auto simp: later_def)
  moreover have "instance_key w = k" "0 \<le> wi_version w" using repo_invD [OF inv *(1)] by simp_all
  moreover have "instance_key w' = instance_key w" using *(5) by (simp add: progress_def same_aggregate_def)
  ultimately show thesis using * by (intro that [of w w']) simp_all
qed

lemma instance_inv_version [simp]: "instance_inv (w\<lparr>wi_version := i\<rparr>) = instance_inv w"
  by (simp add: instance_inv_def is_draft_def core_inv_def node_ok_def attempt_ok_def node_statuses_def status_set_def)

lemma progress_set_version: "progress w w' \<Longrightarrow> wi_version w' = wi_version w \<and> w'\<lparr>wi_version := wi_version w\<rparr> = w'"
  by (simp add: progress_def same_aggregate_def)

lemma effect_repo:
  assumes inv: "repo_inv r" "repo_inv r'" and later: "repo_later r r'" and eff: "effect r r' r1"
  shows "repo_inv r1 \<and> repo_later r' r1"
proof -
  have rest: "prefix (r_audit_events r') (r_audit_events r1)" "previews_kept r' r1"
    using eff by (simp_all add: effect_def)
  from eff consider "r_instances r1 = r_instances r'" | "created_one r' r1" | "swapped_one r r' r1"
    unfolding effect_def by blast
  then show ?thesis
  proof cases
    case 1
    then have "repo_inv r1" using inv(2) by (simp add: repo_inv_def)
    with 1 rest show ?thesis by (auto simp: repo_later_def)
  next
    case 2
    then obtain w where w: "find_instance r' (instance_key w) = None" "instance_inv w" "wi_version w = 0"
        "r_instances r1 = dput (instance_key w) w (r_instances r')" unfolding created_one_def by blast
    have at: "find_instance r1 k = (if k = instance_key w then Some w else find_instance r' k)" for k
      unfolding w(4) by (simp add: dict_simps)
    have "repo_inv r1"
    proof (rule repo_invI)
      fix k u assume "find_instance r1 k = Some u"
      show "instance_key u = k \<and> instance_inv u \<and> 0 \<le> wi_version u"
      proof (cases "k = instance_key w")
        case True
        with \<open>find_instance r1 k = Some u\<close> have "u = w" by (simp add: at)
        with True w(2,3) show ?thesis by simp
      next
        case False
        with \<open>find_instance r1 k = Some u\<close> have "find_instance r' k = Some u" by (simp add: at)
        then show ?thesis by (rule repo_invD [OF inv(2)])
      qed
    qed
    moreover have "\<exists>v. find_instance r1 k = Some v \<and> later u v" if "find_instance r' k = Some u" for k u
      using that w(1) by (intro exI [of _ u]) (auto simp: at)
    ultimately show ?thesis using rest by (simp add: repo_later_def)
  next
    case 3
    obtain w w' where w: "find_instance r' (instance_key w) = Some w" "instance_inv w'" "progress w w'" "0 \<le> wi_version w"
        "r_instances r1 = dput (instance_key w) (w'\<lparr>wi_version := wi_version w + 1\<rparr>) (r_instances r')"
        "instance_key w' = instance_key w"
      by (rule swapped_current [OF inv(1) later 3])
    let ?v = "w'\<lparr>wi_version := wi_version w + 1\<rparr>"
    have at: "find_instance r1 k = (if k = instance_key w then Some ?v else find_instance r' k)" for k
      unfolding w(5) by (simp add: dict_simps)
    have "repo_inv r1"
    proof (rule repo_invI)
      fix k u assume "find_instance r1 k = Some u"
      show "instance_key u = k \<and> instance_inv u \<and> 0 \<le> wi_version u"
      proof (cases "k = instance_key w")
        case True
        with \<open>find_instance r1 k = Some u\<close> have "u = ?v" by (simp add: at)
        with True w(2,4,6) show ?thesis by simp
      next
        case False
        with \<open>find_instance r1 k = Some u\<close> have "find_instance r' k = Some u" by (simp add: at)
        then show ?thesis by (rule repo_invD [OF inv(2)])
      qed
    qed
    moreover have "\<exists>v. find_instance r1 k = Some v \<and> later u v" if "find_instance r' k = Some u" for k u
    proof (cases "k = instance_key w")
      case True
      with that w(1) have "u = w" by simp
      moreover have "later w ?v" using w(3) progress_set_version [OF w(3)] by (simp add: later_def)
      ultimately show ?thesis using True by (simp add: at)
    qed (use that in \<open>simp add: at\<close>)
    ultimately show ?thesis using rest by (simp add: repo_later_def)
  qed
qed

lemma repo_inv_empty [simp]: "repo_inv empty_repository"
  by (simp add: repo_inv_def empty_repository_def)

lemma history_invariant:
  "history rs \<Longrightarrow> (\<forall>r \<in> set rs. repo_inv r \<and> repo_later r (last rs)) \<and> sorted_wrt repo_later rs"
proof (induction rule: history.induct)
  case (2 rs r r1)
  have ne: "rs \<noteq> []" using 2(1) by (rule history_not_empty)
  from 2 ne have r: "repo_inv r" "repo_later r (last rs)" "repo_inv (last rs)" by auto
  have new: "repo_inv r1 \<and> repo_later (last rs) r1"
    by (rule effect_repo [OF r(1,3,2) command_effect [OF r(1) 2(3)]])
  moreover from this 2(4) have "\<forall>u \<in> set rs. repo_later u r1" by (blast intro: repo_later_trans)
  ultimately show ?case using 2(4) by (simp add: sorted_wrt_append)
qed simp

lemma history_repo_inv: "history rs \<Longrightarrow> r \<in> set rs \<Longrightarrow> repo_inv r"
  using history_invariant by blast

lemma history_outbox: "history rs \<Longrightarrow> r \<in> set rs \<Longrightarrow> outbox_ok r"
proof (induction arbitrary: r rule: history.induct)
  case 1
  then show ?case by (simp add: outbox_ok_def outbox_inv_def queued_once_def empty_repository_def)
next
  case (2 rs u r1)
  have "effect u (last rs) r1" by (rule command_effect [OF history_repo_inv [OF 2(1,2)] 2(3)])
  moreover have "outbox_ok (last rs)" using 2(4) history_not_empty [OF 2(1)] by simp
  ultimately have "outbox_ok r1" by (simp add: effect_def)
  with 2(4,5) show ?case by auto
qed

lemma history_repo_later:
  assumes "history rs" and "i \<le> j" and "j < length rs"
  shows "repo_later (rs ! i) (rs ! j)"
proof (cases "i = j")
  case False
  with assms history_invariant [OF assms(1)] show ?thesis by (auto intro: sorted_wrt_nth_less)
qed simp

end
