(* ===== verification/Template_Store.thy ===== *)
theory Template_Store
  imports Store_Contracts
begin

text \<open>
  \<open>InMemoryTemplateStore\<close> of \<open>src/larkflow/workflow/repository.py\<close>. An operation appends its audit
  event last, after the template and the version are stored, and that append can fail; so an
  operation returns the store it leaves behind together with its result, also when it raises.
\<close>

record template_store =
  ts_templates :: "(string \<times> string, workflow_template) odict"
  ts_versions :: "(string \<times> string \<times> int, workflow_template_version) odict"
  ts_events :: "template_audit_event list"
  ts_event_ids :: "(string \<times> string) list"

definition empty_template_store :: template_store where
  "empty_template_store = \<lparr>ts_templates = [], ts_versions = [], ts_events = [], ts_event_ids = []\<rparr>"

section \<open>Operations\<close>

definition get_template :: "template_store \<Rightarrow> string \<Rightarrow> string \<Rightarrow> workflow_template res" where
  "get_template s tenant tid = get_or_raise (dget (ts_templates s) (tenant, tid)) (TemplateNotFoundError tid)"

definition list_templates :: "template_store \<Rightarrow> string \<Rightarrow> workflow_template list" where
  "list_templates s tenant = sort_key (\<lambda>t. (wt_created_at t, wt_id t))
     (map snd (filter (\<lambda>((t, _), _). t = tenant) (ts_templates s)))"

definition version_numbers :: "template_store \<Rightarrow> string \<Rightarrow> string \<Rightarrow> int list" where
  "version_numbers s tenant tid =
     map (\<lambda>((_, _, n), _). n) (filter (\<lambda>((t, i, _), _). t = tenant \<and> i = tid) (ts_versions s))"

definition get_template_version ::
    "template_store \<Rightarrow> string \<Rightarrow> string \<Rightarrow> int option \<Rightarrow> workflow_template_version res" where
  "get_template_version s tenant tid version =
     rbind (get_template s tenant tid) (\<lambda>_.
     rbind (case version of
         Some n \<Rightarrow> Inr n
       | None \<Rightarrow> (case version_numbers s tenant tid of
             [] \<Rightarrow> Inl (TemplateNotFoundError tid)
           | n # ns \<Rightarrow> Inr (foldl max n ns))) (\<lambda>n.
     get_or_raise (dget (ts_versions s) (tenant, tid, n)) (TemplateNotFoundError tid)))"

definition validate_template_version ::
    "workflow_template \<Rightarrow> workflow_template_version \<Rightarrow> int \<Rightarrow> unit res" where
  "validate_template_version t v expected_number =
     ensure (tv_tenant_id v = wt_tenant_id t \<and> tv_template_id v = wt_id t \<and> tv_version v = expected_number)
       (ValueError ''template version does not belong to the aggregate'')"

definition validate_template_event :: "workflow_template \<Rightarrow> template_audit_event \<Rightarrow> int \<Rightarrow> unit res" where
  "validate_template_event t e aggregate_version =
     ensure (te_tenant_id e = wt_tenant_id t \<and> te_template_id e = wt_id t \<and>
         te_aggregate_version e = aggregate_version)
       (ValueError ''template event does not belong to the aggregate'')"

definition append_template_event :: "template_store \<Rightarrow> template_audit_event \<Rightarrow> template_store \<times> unit res" where
  "append_template_event s e = (let key = (te_tenant_id e, te_id e) in
     if key \<in> set (ts_event_ids s) then (s, Inl (ValueError ''duplicate template event id''))
     else (s\<lparr>ts_event_ids := ts_event_ids s @ [key], ts_events := ts_events s @ [e]\<rparr>, Inr ()))"

text \<open>The stores before the event: a template, a version, or both.\<close>

definition store_template :: "workflow_template \<Rightarrow> template_store \<Rightarrow> template_store" where
  "store_template t s = s\<lparr>ts_templates := dput (wt_tenant_id t, wt_id t) t (ts_templates s)\<rparr>"

definition store_version :: "workflow_template \<Rightarrow> int \<Rightarrow> workflow_template_version \<Rightarrow> template_store \<Rightarrow> template_store" where
  "store_version t n v s = s\<lparr>ts_versions := dput (wt_tenant_id t, wt_id t, n) v (ts_versions s)\<rparr>"

text \<open>The rest of an operation after its writes: the event, then the value it returns.\<close>

definition finish_with :: "template_store \<Rightarrow> template_audit_event \<Rightarrow> 'a \<Rightarrow> template_store \<times> 'a res" where
  "finish_with s e x = (case append_template_event s e of
     (s, Inl err) \<Rightarrow> (s, Inl err) | (s, Inr _) \<Rightarrow> (s, Inr x))"

definition add_template ::
    "template_store \<Rightarrow> workflow_template \<Rightarrow> workflow_template_version \<Rightarrow> template_audit_event
       \<Rightarrow> template_store \<times> unit res" where
  "add_template s t v e =
     (case rbind (ensure (dget (ts_templates s) (wt_tenant_id t, wt_id t) = None)
             (TemplateAlreadyExistsError (wt_id t))) (\<lambda>_.
           rbind (validate_template_version t v 1) (\<lambda>_. validate_template_event t e 0)) of
        Inl err \<Rightarrow> (s, Inl err)
      | Inr _ \<Rightarrow> finish_with (store_version t 1 v (store_template t s)) e ())"

definition add_template_version ::
    "template_store \<Rightarrow> workflow_template_version \<Rightarrow> int \<Rightarrow> time \<Rightarrow> template_audit_event
       \<Rightarrow> template_store \<times> workflow_template res" where
  "add_template_version s v expected_template_version updated_at e =
     (case rbind (get_template s (tv_tenant_id v) (tv_template_id v)) (\<lambda>t.
           rbind (ensure (wt_version t = expected_template_version) (ConcurrentTemplateUpdateError (wt_id t))) (\<lambda>_.
           rbind (get_template_version s (wt_tenant_id t) (wt_id t) None) (\<lambda>latest.
           rbind (validate_template_version t v (tv_version latest + 1)) (\<lambda>_.
           rbind (validate_template_event t e (expected_template_version + 1)) (\<lambda>_. Inr t))))) of
        Inl err \<Rightarrow> (s, Inl err)
      | Inr t \<Rightarrow>
          let updated = t\<lparr>wt_version := expected_template_version + 1, wt_updated_at := updated_at\<rparr>
          in finish_with (store_version t (tv_version v) v (store_template updated s)) e updated)"

definition set_template_status ::
    "template_store \<Rightarrow> string \<Rightarrow> string \<Rightarrow> int \<Rightarrow> template_status \<Rightarrow> time \<Rightarrow> time option
       \<Rightarrow> template_audit_event \<Rightarrow> template_store \<times> workflow_template res" where
  "set_template_status s tenant tid expected_template_version status updated_at deleted_at e =
     (case rbind (get_template s tenant tid) (\<lambda>t.
           rbind (ensure (wt_version t = expected_template_version) (ConcurrentTemplateUpdateError (wt_id t))) (\<lambda>_.
           rbind (validate_template_event t e (expected_template_version + 1)) (\<lambda>_. Inr t))) of
        Inl err \<Rightarrow> (s, Inl err)
      | Inr t \<Rightarrow>
          let updated = t\<lparr>wt_status := status, wt_version := expected_template_version + 1,
                          wt_updated_at := updated_at, wt_deleted_at := deleted_at\<rparr>
          in finish_with (s\<lparr>ts_templates := dput (tenant, tid) updated (ts_templates s)\<rparr>) e updated)"

definition template_audit_log :: "template_store \<Rightarrow> string \<Rightarrow> string \<Rightarrow> template_audit_event list" where
  "template_audit_log s tenant tid =
     filter (\<lambda>e. te_tenant_id e = tenant \<and> te_template_id e = tid) (ts_events s)"

section \<open>The invariant\<close>

text \<open>
  Templates are stored under their own key, a version under the key of a stored template, and the
  versions of a template are numbered from one without a gap.
\<close>

definition template_numbers :: "template_store \<Rightarrow> string \<times> string \<Rightarrow> int set" where
  "template_numbers s k = {n. dget (ts_versions s) (fst k, snd k, n) \<noteq> None}"

definition template_inv :: "template_store \<Rightarrow> bool" where
  "template_inv s \<longleftrightarrow> distinct (dkeys (ts_versions s)) \<and>
     (\<forall>k t. dget (ts_templates s) k = Some t \<longrightarrow> (wt_tenant_id t, wt_id t) = k \<and>
        (\<exists>m \<ge> 1. template_numbers s k = {1..m})) \<and>
     (\<forall>t i n v. dget (ts_versions s) (t, i, n) = Some v \<longrightarrow>
        tv_version v = n \<and> tv_tenant_id v = t \<and> tv_template_id v = i \<and> dget (ts_templates s) (t, i) \<noteq> None)"

section \<open>Every operation keeps it\<close>

lemma finish_with_fields [simp]:
  "ts_templates (fst (finish_with s e x)) = ts_templates s" "ts_versions (fst (finish_with s e x)) = ts_versions s"
  by (auto simp: finish_with_def append_template_event_def Let_def)

lemma finish_with_ok: "snd (finish_with s e x) = Inr y \<Longrightarrow> y = x"
  by (auto simp: finish_with_def append_template_event_def Let_def split: if_splits)

lemma template_inv_cong:
  "ts_templates s' = ts_templates s \<Longrightarrow> ts_versions s' = ts_versions s \<Longrightarrow> template_inv s' = template_inv s"
  by (simp add: template_inv_def template_numbers_def)

lemma template_inv_finish [simp]: "template_inv (fst (finish_with s e x)) = template_inv s"
  by (rule template_inv_cong) simp_all

lemma template_inv_key:
  "template_inv s \<Longrightarrow> dget (ts_templates s) k = Some t \<Longrightarrow>
     (wt_tenant_id t, wt_id t) = k \<and> (\<exists>m \<ge> 1. template_numbers s k = {1..m})"
  unfolding template_inv_def by blast

lemma template_inv_version:
  assumes "template_inv s" and "dget (ts_versions s) (tenant, tid, n) = Some v"
  shows "tv_version v = n \<and> tv_tenant_id v = tenant \<and> tv_template_id v = tid \<and>
     dget (ts_templates s) (tenant, tid) \<noteq> None"
  using assms unfolding template_inv_def by blast

text \<open>Replacing a stored template keeps the invariant.\<close>

lemma replace_template_inv:
  assumes inv: "template_inv s" and t: "dget (ts_templates s) k = Some t"
    and u: "(wt_tenant_id u, wt_id u) = k"
  shows "template_inv (s\<lparr>ts_templates := dput k u (ts_templates s)\<rparr>)" (is "template_inv ?s")
  unfolding template_inv_def
proof (intro conjI allI impI)
  show "distinct (dkeys (ts_versions ?s))" using inv by (simp add: template_inv_def)
next
  fix j v assume j: "dget (ts_templates ?s) j = Some v"
  show "(wt_tenant_id v, wt_id v) = j"
  proof (cases "j = k")
    case False
    with j have "dget (ts_templates s) j = Some v" by (simp add: dget_dput)
    then show ?thesis using template_inv_key [OF inv] by blast
  qed (use j u in \<open>simp add: dget_dput\<close>)
  have "\<exists>v. dget (ts_templates s) j = Some v" using j t by (auto simp: dget_dput split: if_splits)
  then have "\<exists>m \<ge> 1. template_numbers s j = {1..m}" using template_inv_key [OF inv] by blast
  then show "\<exists>m \<ge> 1. template_numbers ?s j = {1..m}" by (simp add: template_numbers_def)
next
  fix a i n v assume "dget (ts_versions ?s) (a, i, n) = Some v"
  then have "dget (ts_versions s) (a, i, n) = Some v" by simp
  note v = template_inv_version [OF inv this]
  show "tv_version v = n" "tv_tenant_id v = a" "tv_template_id v = i" using v by simp_all
  show "dget (ts_templates ?s) (a, i) \<noteq> None" using v by (simp add: dget_dput)
qed

text \<open>The next version of a template.\<close>

lemma next_version_inv:
  assumes inv: "template_inv s" and t: "dget (ts_templates s) k = Some t"
    and m: "template_numbers s k = {1..m}" "m \<ge> 1"
    and v: "tv_version v = m + 1" "(tv_tenant_id v, tv_template_id v) = k"
  shows "template_inv (s\<lparr>ts_versions := dput (fst k, snd k, m + 1) v (ts_versions s)\<rparr>)" (is "template_inv ?s")
proof -
  have nums: "template_numbers ?s j = (if j = k then insert (m + 1) (template_numbers s j) else template_numbers s j)" for j
    by (cases j; cases k) (auto simp: template_numbers_def dget_dput)
  have "{1..m + 1} = insert (m + 1) {1..m}" using m(2) by auto
  then have k: "template_numbers ?s k = {1..m + 1}" using nums m by simp
  show ?thesis unfolding template_inv_def
  proof (intro conjI allI impI)
    show "distinct (dkeys (ts_versions ?s))"
      using inv by (simp add: template_inv_def distinct_dkeys_dput del: list.set_map)
  next
    fix j u assume "dget (ts_templates ?s) j = Some u"
    then have "dget (ts_templates s) j = Some u" by simp
    note j = template_inv_key [OF inv this]
    from j show "(wt_tenant_id u, wt_id u) = j" by blast
    show "\<exists>m' \<ge> 1. template_numbers ?s j = {1..m'}"
    proof (cases "j = k")
      case True
      with k m(2) show ?thesis by (intro exI [of _ "m + 1"]) simp
    next
      case False
      with j nums [of j] show ?thesis by simp
    qed
  next
    fix a i n u assume u: "dget (ts_versions ?s) (a, i, n) = Some u"
    have "tv_version u = n \<and> tv_tenant_id u = a \<and> tv_template_id u = i \<and> dget (ts_templates s) (a, i) \<noteq> None"
    proof (cases "(a, i, n) = (fst k, snd k, m + 1)")
      case True
      with u v t show ?thesis by (cases k) (simp add: dget_dput)
    next
      case False
      with u have "dget (ts_versions s) (a, i, n) = Some u" by (auto simp: dget_dput split: if_splits)
      then show ?thesis by (rule template_inv_version [OF inv])
    qed
    then show "tv_version u = n" "tv_tenant_id u = a" "tv_template_id u = i"
      "dget (ts_templates ?s) (a, i) \<noteq> None" by simp_all
  qed
qed

text \<open>Without a version number, the latest version is returned.\<close>

lemma foldl_max: "foldl max n ns \<in> set (n # ns) \<and> (\<forall>x \<in> set (n # ns). x \<le> foldl max n (ns :: int list))"
proof (induction ns arbitrary: n)
  case (Cons a ns)
  from Cons.IH [of "max n a"] show ?case by (auto simp: max_def split: if_splits)
qed simp

lemma set_version_numbers: "set (version_numbers s tenant tid) = template_numbers s (tenant, tid)"
proof -
  have "n \<in> set (version_numbers s tenant tid) \<longleftrightarrow> (tenant, tid, n) \<in> set (dkeys (ts_versions s))" for n
    by (force simp: version_numbers_def image_iff)
  then show ?thesis unfolding template_numbers_def in_dkeys_dget by auto
qed

lemma latest_version:
  assumes inv: "template_inv s" and t: "dget (ts_templates s) (tenant, tid) = Some t"
  shows "\<exists>m \<ge> 1. \<exists>v. template_numbers s (tenant, tid) = {1..m} \<and>
     get_template_version s tenant tid None = Inr v \<and> tv_version v = m"
proof -
  obtain m where m: "m \<ge> 1" "template_numbers s (tenant, tid) = {1..m}" using template_inv_key [OF inv t] by blast
  then have "version_numbers s tenant tid \<noteq> []" using set_version_numbers [of s tenant tid] by auto
  then obtain n ns where ns: "version_numbers s tenant tid = n # ns" by (cases "version_numbers s tenant tid") auto
  then have "set (n # ns) = {1..m}" using set_version_numbers [of s tenant tid] m(2) by simp
  with foldl_max [of n ns] m(1) have max: "foldl max n ns = m" by (metis atLeastAtMost_iff order_antisym order_refl)
  have "m \<in> template_numbers s (tenant, tid)" using m by simp
  then obtain v where v: "dget (ts_versions s) (tenant, tid, m) = Some v" by (auto simp: template_numbers_def)
  then have "tv_version v = m" using template_inv_version [OF inv v] by simp
  with v t ns max m show ?thesis
    by (intro exI [of _ m] exI [of _ v]) (simp add: get_template_version_def get_template_def get_or_raise_def)
qed

lemma add_template_keeps:
  assumes inv: "template_inv s"
  shows "template_inv (fst (add_template s t v e))"
proof (cases "dget (ts_templates s) (wt_tenant_id t, wt_id t) = None \<and>
    validate_template_version t v 1 = Inr () \<and> validate_template_event t e 0 = Inr ()")
  case False
  then have "fst (add_template s t v e) = s"
    by (auto simp: add_template_def rbind_Inr_iff ensure_Inr_iff split: sum.splits)
  with inv show ?thesis by simp
next
  case True
  let ?k = "(wt_tenant_id t, wt_id t)"
  let ?u = "s\<lparr>ts_templates := dput ?k t (ts_templates s), ts_versions := dput (fst ?k, snd ?k, 1) v (ts_versions s)\<rparr>"
  have none: "dget (ts_versions s) (fst ?k, snd ?k, n) = None" for n
    using True template_inv_version [OF inv, of "fst ?k" "snd ?k" n] by (cases "dget (ts_versions s) (fst ?k, snd ?k, n)") auto
  have nums: "template_numbers ?u j = (if j = ?k then {1} else template_numbers s j)" for j
    using none by (cases j) (auto simp: template_numbers_def dget_dput)
  have "template_inv ?u" unfolding template_inv_def
  proof (intro conjI allI impI)
    show "distinct (dkeys (ts_versions ?u))"
      using inv by (simp add: template_inv_def distinct_dkeys_dput del: list.set_map)
  next
    fix j w assume j: "dget (ts_templates ?u) j = Some w"
    have "(wt_tenant_id w, wt_id w) = j \<and> (\<exists>m \<ge> 1. template_numbers ?u j = {1..m})"
    proof (cases "j = ?k")
      case True
      with j have "w = t" by (simp add: dget_dput)
      moreover have "template_numbers ?u j = {1..1}" using nums True by simp
      ultimately show ?thesis using True by (intro conjI exI [of _ 1]) simp_all
    next
      case False
      with j have "dget (ts_templates s) j = Some w" by (simp add: dget_dput)
      with template_inv_key [OF inv this] nums [of j] False show ?thesis by simp
    qed
    then show "(wt_tenant_id w, wt_id w) = j" "\<exists>m \<ge> 1. template_numbers ?u j = {1..m}" by simp_all
  next
    fix a i n w assume w: "dget (ts_versions ?u) (a, i, n) = Some w"
    have "tv_version w = n \<and> tv_tenant_id w = a \<and> tv_template_id w = i \<and> dget (ts_templates ?u) (a, i) \<noteq> None"
    proof (cases "(a, i, n) = (fst ?k, snd ?k, 1)")
      case True': True
      with w True show ?thesis by (simp add: dget_dput validate_template_version_def ensure_Inr_iff)
    next
      case False
      with w have "dget (ts_versions s) (a, i, n) = Some w" by (auto simp: dget_dput split: if_splits)
      from template_inv_version [OF inv this] show ?thesis by (simp add: dget_dput)
    qed
    then show "tv_version w = n" "tv_tenant_id w = a" "tv_template_id w = i" "dget (ts_templates ?u) (a, i) \<noteq> None" by simp_all
  qed
  moreover have "fst (add_template s t v e) = fst (finish_with ?u e ())"
    using True by (simp add: add_template_def store_version_def store_template_def)
  ultimately show ?thesis by simp
qed

lemma add_version_keeps:
  assumes inv: "template_inv s"
  shows "template_inv (fst (add_template_version s v expected now e))"
proof (cases "rbind (get_template s (tv_tenant_id v) (tv_template_id v)) (\<lambda>t.
           rbind (ensure (wt_version t = expected) (ConcurrentTemplateUpdateError (wt_id t))) (\<lambda>_.
           rbind (get_template_version s (wt_tenant_id t) (wt_id t) None) (\<lambda>latest.
           rbind (validate_template_version t v (tv_version latest + 1)) (\<lambda>_.
           rbind (validate_template_event t e (expected + 1)) (\<lambda>_. Inr t)))))")
  case (Inl err)
  with inv show ?thesis by (simp add: add_template_version_def)
next
  case (Inr t)
  let ?k = "(wt_tenant_id t, wt_id t)"
  let ?u = "t\<lparr>wt_version := expected + 1, wt_updated_at := now\<rparr>"
  let ?s1 = "s\<lparr>ts_templates := dput ?k ?u (ts_templates s)\<rparr>"
  obtain latest where t: "dget (ts_templates s) (tv_tenant_id v, tv_template_id v) = Some t"
    and l: "get_template_version s (wt_tenant_id t) (wt_id t) None = Inr latest"
    and v: "tv_tenant_id v = wt_tenant_id t" "tv_template_id v = wt_id t" "tv_version v = tv_version latest + 1"
    using Inr by (auto simp: rbind_Inr_iff ensure_Inr_iff get_template_def get_or_raise_Inr_iff
        validate_template_version_def)
  have tk: "dget (ts_templates s) ?k = Some t" using t v by simp
  from latest_version [OF inv tk] l obtain m where m: "m \<ge> 1" "template_numbers s ?k = {1..m}" "tv_version latest = m"
    by auto
  have inv1: "template_inv ?s1" by (rule replace_template_inv [OF inv tk]) simp
  have "template_inv (?s1\<lparr>ts_versions := dput (fst ?k, snd ?k, m + 1) v (ts_versions ?s1)\<rparr>)"
  proof (rule next_version_inv [OF inv1])
    show "dget (ts_templates ?s1) ?k = Some ?u" by (simp add: dget_dput)
    show "template_numbers ?s1 ?k = {1..m}" using m(2) by (simp add: template_numbers_def)
  qed (use m v in simp_all)
  moreover have "fst (add_template_version s v expected now e) = fst (finish_with
      (?s1\<lparr>ts_versions := dput (fst ?k, snd ?k, m + 1) v (ts_versions ?s1)\<rparr>) e ?u)"
    using Inr v m(3) by (simp add: add_template_version_def store_version_def store_template_def Let_def)
  ultimately show ?thesis by simp
qed

lemma set_status_keeps:
  assumes inv: "template_inv s"
  shows "template_inv (fst (set_template_status s tenant tid expected status now deleted e))"
proof (cases "rbind (get_template s tenant tid) (\<lambda>t.
           rbind (ensure (wt_version t = expected) (ConcurrentTemplateUpdateError (wt_id t))) (\<lambda>_.
           rbind (validate_template_event t e (expected + 1)) (\<lambda>_. Inr t)))")
  case (Inl err)
  with inv show ?thesis by (simp add: set_template_status_def)
next
  case (Inr t)
  let ?u = "t\<lparr>wt_status := status, wt_version := expected + 1, wt_updated_at := now, wt_deleted_at := deleted\<rparr>"
  have t: "dget (ts_templates s) (tenant, tid) = Some t"
    using Inr by (auto simp: rbind_Inr_iff get_template_def get_or_raise_Inr_iff)
  have "template_inv (s\<lparr>ts_templates := dput (tenant, tid) ?u (ts_templates s)\<rparr>)"
    by (rule replace_template_inv [OF inv t]) (use template_inv_key [OF inv t] in simp)
  with Inr show ?thesis by (simp add: set_template_status_def Let_def)
qed

section \<open>Optimistic concurrency and atomicity\<close>

text \<open>The store after an operation that succeeded.\<close>

definition committed :: "template_store \<times> 'a res \<Rightarrow> template_store res" where
  "committed p = (case snd p of Inl e \<Rightarrow> Inl e | Inr _ \<Rightarrow> Inr (fst p))"

lemma committed_Inr: "committed p = Inr s \<longleftrightarrow> (\<exists>x. p = (s, Inr x))"
  by (cases p) (auto simp: committed_def split: sum.splits)

lemma finish_with_committed:
  "finish_with s e x = (s', Inr y) \<Longrightarrow> ts_templates s' = ts_templates s \<and> ts_versions s' = ts_versions s"
  using finish_with_fields [of s e x] by simp

lemma add_version_committed:
  assumes "committed (add_template_version s v n now e) = Inr s'"
  shows "\<exists>t. dget (ts_templates s) (tv_tenant_id v, tv_template_id v) = Some t \<and> wt_version t = n \<and>
     ts_templates s' = dput (tv_tenant_id v, tv_template_id v)
       (t\<lparr>wt_version := n + 1, wt_updated_at := now\<rparr>) (ts_templates s)"
proof -
  obtain x where x: "add_template_version s v n now e = (s', Inr x)" using assms by (auto simp: committed_Inr)
  then obtain t where t: "dget (ts_templates s) (tv_tenant_id v, tv_template_id v) = Some t" "wt_version t = n"
      "tv_tenant_id v = wt_tenant_id t" "tv_template_id v = wt_id t"
    and f: "finish_with (store_version t (tv_version v) v (store_template (t\<lparr>wt_version := n + 1, wt_updated_at := now\<rparr>) s)) e
        (t\<lparr>wt_version := n + 1, wt_updated_at := now\<rparr>) = (s', Inr x)"
    by (auto simp: add_template_version_def Let_def rbind_Inr_iff ensure_Inr_iff get_template_def
        get_or_raise_Inr_iff validate_template_version_def split: sum.split_asm)
  with finish_with_committed [OF f] show ?thesis by (auto simp: store_version_def store_template_def)
qed

lemma set_status_committed:
  assumes "committed (set_template_status s tenant tid n status now deleted e) = Inr s'"
  shows "\<exists>t. dget (ts_templates s) (tenant, tid) = Some t \<and> wt_version t = n \<and>
     ts_templates s' = dput (tenant, tid)
       (t\<lparr>wt_status := status, wt_version := n + 1, wt_updated_at := now, wt_deleted_at := deleted\<rparr>) (ts_templates s)"
proof -
  obtain x where x: "set_template_status s tenant tid n status now deleted e = (s', Inr x)"
    using assms by (auto simp: committed_Inr)
  then obtain t where t: "dget (ts_templates s) (tenant, tid) = Some t" "wt_version t = n"
    and f: "finish_with (s\<lparr>ts_templates := dput (tenant, tid)
         (t\<lparr>wt_status := status, wt_version := n + 1, wt_updated_at := now, wt_deleted_at := deleted\<rparr>) (ts_templates s)\<rparr>) e
        (t\<lparr>wt_status := status, wt_version := n + 1, wt_updated_at := now, wt_deleted_at := deleted\<rparr>) = (s', Inr x)"
    by (auto simp: set_template_status_def Let_def rbind_Inr_iff ensure_Inr_iff get_template_def
        get_or_raise_Inr_iff split: sum.split_asm)
  with finish_with_committed [OF f] show ?thesis by auto
qed

interpretation template_version_store: versioned_store "\<lambda>s k. dget (ts_templates s) k" wt_version
  "\<lambda>(v, t, e). (tv_tenant_id v, tv_template_id v)"
  "\<lambda>s n (v, t, e). committed (add_template_version s v n t e)"
  by unfold_locales (auto dest!: add_version_committed simp: dget_dput split: prod.splits if_splits)

interpretation template_status_store: versioned_store "\<lambda>s k. dget (ts_templates s) k" wt_version
  "\<lambda>(tenant, tid, status, t, d, e). (tenant, tid)"
  "\<lambda>s n (tenant, tid, status, t, d, e). committed (set_template_status s tenant tid n status t d e)"
  by unfold_locales (auto dest!: set_status_committed simp: dget_dput split: prod.splits if_splits)

end
