(* ===== verification/Demo.thy ===== *)
theory Demo
  imports System Outbox Template_Store
begin

text \<open>
  A small process on which the theorems are instantiated: a person writes a brief, an agent
  writes a text from it, and the first person accepts or rejects that text. Each \<open>demo_r\<close> is the
  repository after one more command of the service.
\<close>

definition demo_work :: pmap where
  "demo_work = [(''objective'', PStr ''write''),
     (''outputs'', PTuple [PFrozen [(''id'', PStr ''body''), (''label'', PStr ''Body''),
        (''type'', PStr ''text''), (''required'', PBool True)]]),
     (''acceptance'', PTuple [PStr ''complete''])]"

definition demo_decision_work :: pmap where
  "demo_decision_work = [(''objective'', PStr ''sign''),
     (''outputs'', PTuple [PFrozen [(''id'', PStr ''decision''), (''label'', PStr ''Decision''),
        (''type'', PStr ''decision''), (''required'', PBool True)]]),
     (''acceptance'', PTuple [PStr ''signed'']),
     (''decision'', PFrozen [(''kind'', PStr ''accept_reject''), (''reject_target'', PStr ''text'')])]"

definition demo_snapshot :: instance_snapshot where
  "demo_snapshot = mk_snapshot
     [\<lparr>ns_key = ''brief'', ns_title = ''Brief'', ns_owner_person_id = ''ann'', ns_executor = HUMAN,
       ns_deps = [], ns_work = demo_work\<rparr>,
      \<lparr>ns_key = ''text'', ns_title = ''Text'', ns_owner_person_id = ''bob'', ns_executor = AGENT,
       ns_deps = [''brief''], ns_work = demo_work\<rparr>,
      \<lparr>ns_key = ''sign'', ns_title = ''Sign'', ns_owner_person_id = ''ann'', ns_executor = HUMAN,
       ns_deps = [''text''], ns_work = demo_decision_work\<rparr>]
     ''publish'' None False [] ''0.2''"

text \<open>The environment of the \<open>n\<close>-th command, at time \<open>n\<close>; its ids are its own.\<close>

definition demo_env :: "nat \<Rightarrow> env" where
  "demo_env n = \<lparr>env_ids = \<lambda>i. ''id-'' @ dec_nat n @ ''-'' @ dec_nat i,
     env_tokens = \<lambda>i. ''token-'' @ dec_nat n @ ''-'' @ dec_nat i, env_now = int n,
     env_claim_ttl = 10, env_restart_preview_ttl = 10, env_graph_edit_preview_ttl = 10,
     env_directory = None\<rparr>"

definition ok_store :: "(repository \<times> 'a) res \<Rightarrow> repository" where
  "ok_store x = (case x of Inl _ \<Rightarrow> empty_repository | Inr (r, _) \<Rightarrow> r)"

text \<open>Each command reads and saves the same state \<open>r\<close>.\<close>

definition demo_create :: "repository \<Rightarrow> (repository \<times> workflow_instance) res" where
  "demo_create r = create_draft (demo_env 1) r ''p1'' ''acme'' ''ann'' demo_snapshot ''ann'' None"

definition demo_confirm :: "repository \<Rightarrow> (repository \<times> workflow_instance) res" where
  "demo_confirm r = confirm_draft (demo_env 2) r r ''acme'' ''p1'' ''ann'' None"

definition demo_dispatch :: "repository \<Rightarrow> (repository \<times> node_activation list) res" where
  "demo_dispatch r = dispatch_due (demo_env 3) r r ''acme'' ''p1'' ''worker'' 1 None None"

definition demo_submit :: "repository \<Rightarrow> (repository \<times> workflow_instance) res" where
  "demo_submit r = service_submit_human (demo_env 4) r r ''acme'' ''p1'' ''brief'' ''ann'' 1 1
     [(''body'', PStr '' hello '')] None None"

definition demo_claim :: "repository \<Rightarrow> (repository \<times> node_activation list) res" where
  "demo_claim r = dispatch_due (demo_env 5) r r ''acme'' ''p1'' ''worker'' 1 None None"

definition demo_complete :: "repository \<Rightarrow> (repository \<times> workflow_instance) res" where
  "demo_complete r = service_complete_automated (demo_env 6) r r ''acme'' ''p1'' ''text'' 1 2 ''token-5-0''
     [(''body'', PStr ''hello world'')] None ''worker'' None"

definition demo_ask :: "repository \<Rightarrow> (repository \<times> node_activation list) res" where
  "demo_ask r = dispatch_due (demo_env 7) r r ''acme'' ''p1'' ''worker'' 1 None None"

definition demo_reject :: "repository \<Rightarrow> (repository \<times> workflow_instance) res" where
  "demo_reject r = submit_human_decision (demo_env 8) r r ''acme'' ''p1'' ''sign'' REJECT ''ann'' 1 6 2
     (PStr ''too short'') None"

definition demo_r1 :: repository where "demo_r1 = ok_store (demo_create empty_repository)"
definition demo_r2 :: repository where "demo_r2 = ok_store (demo_confirm demo_r1)"
definition demo_r3 :: repository where "demo_r3 = ok_store (demo_dispatch demo_r2)"
definition demo_r4 :: repository where "demo_r4 = ok_store (demo_submit demo_r3)"
definition demo_r5 :: repository where "demo_r5 = ok_store (demo_claim demo_r4)"
definition demo_r6 :: repository where "demo_r6 = ok_store (demo_complete demo_r5)"
definition demo_r7 :: repository where "demo_r7 = ok_store (demo_ask demo_r6)"
definition demo_r8 :: repository where "demo_r8 = ok_store (demo_reject demo_r7)"

text \<open>A command that succeeds yields the next state.\<close>

lemma ok_storeD: "is_ok x \<Longrightarrow> \<exists>y. x = Inr (ok_store x, y)"
  by (cases x) (auto simp: ok_store_def)

lemma demo_runs:
  "\<exists>w. demo_create empty_repository = Inr (demo_r1, w)" "\<exists>w. demo_confirm demo_r1 = Inr (demo_r2, w)"
  "\<exists>acts. demo_dispatch demo_r2 = Inr (demo_r3, acts)"
proof -
  have "is_ok (demo_create empty_repository)" "is_ok (demo_confirm demo_r1)" "is_ok (demo_dispatch demo_r2)"
    by code_simp+
  from this [THEN ok_storeD] show "\<exists>w. demo_create empty_repository = Inr (demo_r1, w)"
    "\<exists>w. demo_confirm demo_r1 = Inr (demo_r2, w)" "\<exists>acts. demo_dispatch demo_r2 = Inr (demo_r3, acts)"
    by (simp_all only: demo_r1_def [symmetric] demo_r2_def [symmetric] demo_r3_def [symmetric])
qed

lemma demo_history: "history [empty_repository, demo_r1, demo_r2, demo_r3]"
proof -
  have c: "command empty_repository empty_repository demo_r1" "command demo_r1 demo_r1 demo_r2"
    "command demo_r2 demo_r2 demo_r3"
    using demo_runs unfolding demo_create_def demo_confirm_def demo_dispatch_def
    by (blast intro: command.intros)+
  have "history [empty_repository, demo_r1]"
    using history.intros(2) [OF history.intros(1), of empty_repository demo_r1] c(1) by simp
  from history.intros(2) [OF this, of demo_r1 demo_r2] c(2) have "history [empty_repository, demo_r1, demo_r2]" by simp
  from history.intros(2) [OF this, of demo_r2 demo_r3] c(3) show ?thesis by simp
qed

lemma demo_stored:
  "\<exists>w. find_instance demo_r2 (''acme'', ''p1'') = Some w \<and> wi_status w = I_RUNNING \<and> wi_version w = 1"
  "\<exists>w. find_instance demo_r3 (''acme'', ''p1'') = Some w \<and> wi_status w = I_RUNNING \<and> wi_version w = 2"
proof -
  have "case find_instance demo_r2 (''acme'', ''p1'') of None \<Rightarrow> False
      | Some w \<Rightarrow> wi_status w = I_RUNNING \<and> wi_version w = 1"
    "case find_instance demo_r3 (''acme'', ''p1'') of None \<Rightarrow> False
      | Some w \<Rightarrow> wi_status w = I_RUNNING \<and> wi_version w = 2" by code_simp+
  then show "\<exists>w. find_instance demo_r2 (''acme'', ''p1'') = Some w \<and> wi_status w = I_RUNNING \<and> wi_version w = 1"
    "\<exists>w. find_instance demo_r3 (''acme'', ''p1'') = Some w \<and> wi_status w = I_RUNNING \<and> wi_version w = 2"
    by (simp_all split: option.splits)
qed

section \<open>Checking the invariant of a concrete instance\<close>

text \<open>The quantifiers of the invariant range over the records that are stored.\<close>

definition node_check :: "workflow_instance \<Rightarrow> string \<Rightarrow> node_instance \<Rightarrow> bool" where
  "node_check w k n \<longleftrightarrow>
     ni_node_key n = k \<and> ni_instance_id n = wi_id w \<and> ni_id n = node_id_of (wi_id w) k \<and>
     (case snapshot_node (wi_snapshot w) k of Inl _ \<Rightarrow> True | Inr spec \<Rightarrow> ni_executor n = ns_executor spec) \<and>
     (ni_status n = N_RUNNING \<longrightarrow> ni_executor n \<noteq> HUMAN) \<and> 1 \<le> ni_current_attempt_no n \<and>
     (case attempt_at w k (ni_current_attempt_no n) of
        None \<Rightarrow> False | Some a \<Rightarrow> status_agrees (ni_status n) (na_status a))"

definition attempt_check :: "workflow_instance \<Rightarrow> string \<Rightarrow> int \<Rightarrow> node_attempt \<Rightarrow> bool" where
  "attempt_check w k m a \<longleftrightarrow>
     na_attempt_no a = m \<and> na_node_instance_id a = node_id_of (wi_id w) k \<and>
     na_id a = attempt_id_of (node_id_of (wi_id w) k) m \<and> claim_ok a \<and>
     (case node_at w k of None \<Rightarrow> False
      | Some n \<Rightarrow> 1 \<le> m \<and> m \<le> ni_current_attempt_no n \<and>
          (m < ni_current_attempt_no n \<longrightarrow> na_status a \<in> {A_DONE, A_FAILED, A_CANCELED}))"

definition frontier_check :: "workflow_instance \<Rightarrow> string \<Rightarrow> node_instance \<Rightarrow> bool" where
  "frontier_check w k n \<longleftrightarrow>
     (ni_status n \<in> {N_READY, N_RUNNING, N_WAITING_HUMAN, N_DONE, N_FAILED} \<longrightarrow>
        deps_done (wi_snapshot w) (node_statuses w) k) \<and>
     (ni_status n = N_PENDING \<longrightarrow> \<not> deps_done (wi_snapshot w) (node_statuses w) k)"

definition instance_check :: "workflow_instance \<Rightarrow> bool" where
  "instance_check w \<longleftrightarrow>
     validate_snapshot (wi_snapshot w) = Inr () \<and> \<not> is_draft w \<and>
     distinct (dkeys (wi_nodes w)) \<and> distinct (dkeys (wi_attempts w)) \<and>
     set (dkeys (wi_nodes w)) = set (snapshot_keys (wi_snapshot w)) \<and>
     list_all (\<lambda>(k, n). node_check w k n \<and> frontier_check w k n) (wi_nodes w) \<and>
     list_all (\<lambda>((k, m), a). attempt_check w k m a) (wi_attempts w) \<and>
     phase_ok (wi_status w) (status_set w)"

lemma list_all_dget: "list_all (\<lambda>(k, v). P k v) d \<Longrightarrow> dget d k = Some v \<Longrightarrow> P k v"
  using map_of_SomeD by (fastforce simp: list_all_iff)

lemma instance_check_inv:
  assumes c: "instance_check w"
  shows "instance_inv w"
proof (rule instance_invI)
  have nodes: "node_check w k n \<and> frontier_check w k n" if "node_at w k = Some n" for k n
    using c list_all_dget [of "\<lambda>k n. node_check w k n \<and> frontier_check w k n", OF _ that]
    by (simp add: instance_check_def)
  have atts: "attempt_check w k m a" if "attempt_at w k m = Some a" for k m a
    using c list_all_dget [of "\<lambda>(k, m) a. attempt_check w k m a", OF _ that]
    by (simp add: instance_check_def case_prod_unfold)
  have "node_ok w k n" if "node_at w k = Some n" for k n
    using nodes [OF that] by (auto simp: node_ok_def node_check_def split: option.splits)
  moreover have "attempt_ok w k m a" if "attempt_at w k m = Some a" for k m a
    using atts [OF that] by (auto simp: attempt_ok_def attempt_check_def attempt_finished_iff split: option.splits)
  ultimately show "core_inv w" using c unfolding core_inv_def instance_check_def by blast
  show "frontier_ok (wi_snapshot w) (node_statuses w)"
    unfolding frontier_ok_def
  proof (intro allI)
    fix k
    show "(node_statuses w k \<in> {Some N_READY, Some N_RUNNING, Some N_WAITING_HUMAN, Some N_DONE, Some N_FAILED} \<longrightarrow>
        deps_done (wi_snapshot w) (node_statuses w) k) \<and>
      (node_statuses w k = Some N_PENDING \<longrightarrow> \<not> deps_done (wi_snapshot w) (node_statuses w) k)"
    proof (cases "node_at w k")
      case (Some n)
      then have "node_statuses w k = Some (ni_status n)" by (simp add: node_statuses_def)
      with nodes [OF Some] show ?thesis by (simp add: frontier_check_def)
    qed (simp add: node_statuses_def)
  qed
qed (use c in \<open>simp_all add: instance_check_def is_draft_def\<close>)

section \<open>The process in any state\<close>

fun demo_attempt_status :: "node_status \<Rightarrow> attempt_status" where
  "demo_attempt_status N_PENDING = A_PENDING"
| "demo_attempt_status N_READY = A_PENDING"
| "demo_attempt_status N_RUNNING = A_RUNNING"
| "demo_attempt_status N_WAITING_HUMAN = A_WAITING_HUMAN"
| "demo_attempt_status N_DONE = A_DONE"
| "demo_attempt_status N_FAILED = A_FAILED"
| "demo_attempt_status N_CANCELED = A_CANCELED"

definition demo_attempt :: "string \<Rightarrow> node_status \<Rightarrow> node_attempt" where
  "demo_attempt key status =
     (let nid = node_id_of ''p1'' key;
          a = new_node_attempt (attempt_id_of nid 1) nid 1 (demo_attempt_status status) []
      in if status = N_RUNNING
         then a\<lparr>na_claimed_by := Some ''worker'', na_claim_token := Some ''token'', na_claim_expires_at := Some 10\<rparr>
         else if status = N_DONE then a\<lparr>na_result := Some [(''body'', PStr ''hello'')]\<rparr>
         else a)"

definition demo_node :: "node_spec \<Rightarrow> node_status \<Rightarrow> node_instance" where
  "demo_node spec status =
     new_node_instance (node_id_of ''p1'' (ns_key spec)) ''p1'' (ns_key spec) (ns_owner_person_id spec)
       (ns_executor spec) status None"

text \<open>The aggregate with the given statuses of its three nodes.\<close>

definition demo_at :: "instance_status \<Rightarrow> node_status list \<Rightarrow> workflow_instance" where
  "demo_at status statuses =
     (new_instance ''p1'' ''acme'' ''ann'' demo_snapshot 0)
       \<lparr>wi_status := status, wi_version := 5,
        wi_nodes := map (\<lambda>(spec, st). (ns_key spec, demo_node spec st)) (zip (sn_nodes demo_snapshot) statuses),
        wi_attempts := map (\<lambda>(spec, st). ((ns_key spec, 1), demo_attempt (ns_key spec) st))
          (zip (sn_nodes demo_snapshot) statuses)\<rparr>"

definition demo_brief :: workflow_instance where
  "demo_brief = demo_at I_RUNNING [N_WAITING_HUMAN, N_PENDING, N_PENDING]"

definition demo_ready :: workflow_instance where
  "demo_ready = demo_at I_RUNNING [N_DONE, N_READY, N_PENDING]"

definition demo_text :: workflow_instance where
  "demo_text = demo_at I_RUNNING [N_DONE, N_RUNNING, N_PENDING]"

definition demo_sign :: workflow_instance where
  "demo_sign = demo_at I_RUNNING [N_DONE, N_DONE, N_WAITING_HUMAN]"

definition demo_failed :: workflow_instance where
  "demo_failed = demo_at I_FAILED [N_DONE, N_FAILED, N_PENDING]"

definition demo_done :: workflow_instance where
  "demo_done = demo_at I_DONE [N_DONE, N_DONE, N_DONE]"

lemma demo_inv:
  "instance_inv demo_brief" "instance_inv demo_ready" "instance_inv demo_text" "instance_inv demo_sign"
  "instance_inv demo_failed" "instance_inv demo_done"
  by (intro instance_check_inv; code_simp)+

text \<open>The restart of the text, as it is previewed, and the removal of the last node.\<close>

definition demo_restart :: restart_preview where
  "demo_restart = \<lparr>rp_id = ''r1'', rp_tenant_id = ''acme'', rp_instance_id = ''p1'', rp_actor_person_id = ''ann'',
     rp_node_key = Some ''text'', rp_affected_node_keys = [''text'', ''sign''], rp_expected_instance_version = 5,
     rp_graph_revision = 1, rp_created_at = 0, rp_expires_at = 10, rp_scope = NODE,
     rp_consumed_at = None, rp_applied_instance_version = None\<rparr>"

definition demo_removal :: pval where
  "demo_removal = PList [PDict [(''op'', PStr ''remove_node''), (''node_key'', PStr ''sign'')]]"

definition demo_edit_preview :: graph_edit_preview where
  "demo_edit_preview = \<lparr>ge_id = ''g1'', ge_tenant_id = ''acme'', ge_instance_id = ''p1'', ge_actor_person_id = ''ann'',
     ge_operations = [[(''op'', PStr ''remove_node''), (''node_key'', PStr ''sign'')]],
     ge_added_node_keys = [], ge_updated_node_keys = [], ge_removed_node_keys = [''sign''],
     ge_candidate_snapshot_hash = replicate 64 (CHR ''0''), ge_expected_instance_version = 5, ge_graph_revision = 1,
     ge_proposed_graph_revision = 2, ge_created_at = 0, ge_expires_at = 10,
     ge_consumed_at = None, ge_applied_instance_version = None\<rparr>"

text \<open>A repository with one instance and the two previews.\<close>

definition demo_store :: "workflow_instance \<Rightarrow> repository" where
  "demo_store w = empty_repository\<lparr>r_instances := [(instance_key w, w)],
     r_restart_previews := [((''acme'', ''r1''), demo_restart)],
     r_graph_edit_previews := [((''acme'', ''g1''), demo_edit_preview)]\<rparr>"

end
