(* ===== verification/Kernel_Properties.thy ===== *)
theory Kernel_Properties
  imports Demo
begin

text \<open>
  The properties of the pure kernel (graph, state machines, scheduler, runner, cancellation,
  restart, recovery, editing, data), each with an instance on the process of \<open>Demo\<close>.
\<close>

section \<open>Graphs\<close>

text \<open>C11: Kahn's algorithm answers with all the nodes, every node after its dependencies, when the
  dependency graph is acyclic, and with the cycle error exactly when it is not.\<close>

theorem topological_order_correct:
  assumes "simple_snapshot s"
  shows "case topological_order s of
       Inr ks \<Rightarrow> acyclic (dep_rel s) \<and> topo_list s ks \<and> set ks = set (snapshot_keys s)
     | Inl e \<Rightarrow> \<not> acyclic (dep_rel s) \<and> e = GraphValidationError ''graph contains a cycle''"
proof (cases "topological_order s")
  case (Inl e)
  then have "e = GraphValidationError ''graph contains a cycle''"
    by (simp only: topological_order_def Let_def split: if_splits) simp_all
  with Inl topological_order_iff [OF assms] show ?thesis by simp
next
  case (Inr ks)
  with topological_order_iff [OF assms] topological_order_sound [OF assms Inr] show ?thesis by simp
qed

theorem topological_order_correct_witness:
  "simple_snapshot demo_snapshot \<and> topological_order demo_snapshot = Inr [''brief'', ''text'', ''sign''] \<and>
     acyclic (dep_rel demo_snapshot)"
proof -
  have s: "simple_snapshot demo_snapshot" by code_simp
  have o: "topological_order demo_snapshot = Inr [''brief'', ''text'', ''sign'']" by code_simp
  from topological_order_correct [OF s] s o show ?thesis by simp
qed

text \<open>C16: a snapshot that passes the validator is not empty, has unique keys, only refers to nodes
  it has, and its dependencies form no cycle.\<close>

theorem validator_sound:
  assumes "validate_snapshot s = Inr ()"
  shows "sn_nodes s \<noteq> [] \<and> distinct (snapshot_keys s) \<and> acyclic (dep_rel s) \<and>
     (\<forall>n \<in> set (sn_nodes s). distinct (ns_deps n) \<and> set (ns_deps n) \<subseteq> set (snapshot_keys s) \<and>
        ns_key n \<notin> set (ns_deps n))"
proof -
  have wf: "wf_snapshot s" by (rule validate_snapshot_wf [OF assms])
  then have simple: "simple_snapshot s" by (simp add: wf_snapshot_def)
  have "ns_key n \<notin> set (ns_deps n)" if "n \<in> set (sn_nodes s)" for n
    using wf_no_self_dep [OF wf, of "ns_key n"] deps_of_spec [OF simple that] by simp
  with wf show ?thesis by (simp add: wf_snapshot_def simple_snapshot_def)
qed

theorem validator_sound_witness:
  "validate_snapshot demo_snapshot = Inr () \<and> acyclic (dep_rel demo_snapshot)"
proof -
  have v: "validate_snapshot demo_snapshot = Inr ()" by code_simp
  from validator_sound [OF v] v show ?thesis by simp
qed

text \<open>C15: the ready set holds exactly the pending nodes all of whose dependencies are done, each
  once; the search never fails on a validated graph.\<close>

theorem ready_nodes_exact:
  assumes "wf_snapshot s"
  shows "\<exists>ready. ready_node_keys s statuses = Inr ready \<and> distinct ready \<and>
     set ready = {k \<in> set (snapshot_keys s). statuses k = Some N_PENDING \<and>
        (\<forall>d \<in> deps_of s k. statuses d = Some N_DONE)}"
  by (rule ready_node_keys_spec [OF assms])

theorem ready_nodes_exact_witness:
  "wf_snapshot demo_snapshot \<and>
   (\<exists>ready. ready_node_keys demo_snapshot (Map.empty(''brief'' \<mapsto> N_DONE, ''text'' \<mapsto> N_PENDING)) = Inr ready \<and>
      distinct ready)"
proof -
  have "validate_snapshot demo_snapshot = Inr ()" by code_simp
  then have wf: "wf_snapshot demo_snapshot" by (rule validate_snapshot_wf)
  from ready_nodes_exact [OF wf] wf show ?thesis by blast
qed

text \<open>The depth-first search computes the transitive closure of the dependency relation, the
  nodes that a restart of the given node invalidates.\<close>

lemma downstream_is_closure:
  assumes "simple_snapshot s" and "key \<in> set (snapshot_keys s)"
  shows "\<exists>r. reachable_downstream s key = Inr r \<and> distinct r \<and> set r = {k. (key, k) \<in> (dep_rel s)\<^sup>+}"
  using reachable_downstream_spec [OF assms] by (simp add: downstream_def)

section \<open>State machines\<close>

text \<open>C17: a run of guarded node transitions makes at most three steps, never returns to a status it
  has left, and ends where its last target says.\<close>

theorem node_runs_bounded:
  assumes "foldM (\<lambda>(t, now) n. transition_node n t now) ts n = Inr n'"
  shows "length ts \<le> 3 \<and> (ts \<noteq> [] \<longrightarrow> ni_status n' = fst (last ts) \<and> ni_status n' \<noteq> ni_status n)"
  using node_machine.run_bounded [OF assms] node_machine.run_status [OF assms]
    node_machine.no_return [OF assms] by simp

theorem node_runs_bounded_witness:
  "\<exists>n'. foldM (\<lambda>(t, now) n. transition_node n t now) [(N_READY, 1), (N_RUNNING, 2), (N_DONE, 3)]
       (new_node_instance ''n'' ''i'' ''k'' ''ann'' AGENT N_PENDING None) = Inr n' \<and>
     ni_status n' = N_DONE \<and> ni_status n' \<noteq> N_PENDING"
proof -
  obtain n' where n': "foldM (\<lambda>(t, now) n. transition_node n t now) [(N_READY, 1), (N_RUNNING, 2), (N_DONE, 3)]
       (new_node_instance ''n'' ''i'' ''k'' ''ann'' AGENT N_PENDING None) = Inr n'"
    by (simp add: transition_node_def new_node_instance_def)
  from node_runs_bounded [OF n'] n' show ?thesis by (simp add: new_node_instance_def)
qed

text \<open>An attempt that is done, failed or cancelled accepts no further transition, and a run of
  attempt transitions makes at most two steps.\<close>

lemma attempt_runs_bounded:
  assumes "foldM (\<lambda>(t, now) a. transition_attempt a t now) ts a = Inr a'"
  shows "length ts \<le> 2 \<and> (attempt_finished a \<longrightarrow> ts = [] \<and> a' = a)"
  using attempt_machine.run_bounded [OF assms] attempt_machine.terminal_run [OF _ assms]
  by auto

section \<open>Scheduling and results\<close>

text \<open>Confirming a draft materialises one node and one first attempt per node of the snapshot;
  the nodes without dependencies are ready, all others pending, and the invariant of a running
  instance holds.\<close>

lemma confirmation_materialises:
  assumes "instance_inv w" and "is_draft w" and "scheduler_confirm w now = Inr w'"
  shows "instance_inv w' \<and> wi_status w = I_DRAFT \<and> wi_status w' = I_RUNNING \<and>
     set (dkeys (wi_nodes w')) = set (snapshot_keys (wi_snapshot w)) \<and>
     (\<forall>spec \<in> set (sn_nodes (wi_snapshot w)). node_statuses w' (ns_key spec) =
        Some (if ns_deps spec = [] then N_READY else N_PENDING))"
proof -
  note c = scheduler_confirm_inv [OF assms]
  then have "core_inv w'" by (intro instance_inv_runtime) simp_all
  with c show ?thesis by (simp add: core_inv_def del: set_map)
qed

text \<open>C5: when the owner submits the result of a waiting human node, the node is done with the
  frozen result, exactly the successors that waited for nothing else become ready, the instance is
  done if it was the last node, nothing else changes status, and this never fails.\<close>

theorem human_submission_unlocks:
  assumes "instance_inv w" and "wi_status w \<in> {I_RUNNING, I_PAUSED}"
    and "submit_human w key actor no v result quality now = Inr u"
  shows "\<exists>w' n. unlock_after u key now = Inr w' \<and> instance_inv w' \<and>
     node_at w key = Some n \<and> ni_owner_person_id n = actor \<and> ni_version n = v \<and> ni_current_attempt_no n = no \<and>
     (\<exists>a. attempt_at w' key no = Some a \<and> na_result a = Some (freeze_map result) \<and> na_quality_result a = quality) \<and>
     node_statuses w' = (\<lambda>j. if j = key then Some N_DONE
        else if j \<in> unlocked (wi_snapshot w) key ((node_statuses w)(key \<mapsto> N_DONE)) then Some N_READY
        else node_statuses w j) \<and>
     wi_status w' = (if \<forall>j \<in> set (snapshot_keys (wi_snapshot w)) - {key}. node_statuses w j = Some N_DONE
        then I_DONE else wi_status w)"
proof -
  have core: "core_inv w" using assms(1,2) by (intro instance_inv_runtime) auto
  obtain n a n' a' where p: "point w key n a n' a'" "u = pointed w key n n' a'"
    "ni_owner_person_id n = actor" "no = ni_current_attempt_no n" "ni_version n = v"
    "ni_status n = N_WAITING_HUMAN" "ni_status n' = N_DONE"
    "na_result a' = Some (freeze_map result)" "na_quality_result a' = quality"
    using submit_human_point [OF core assms(3)] by blast
  from point_done [OF assms(1,2) p(1) _ p(7), of now] p obtain w' where w':
    "unlock_after u key now = Inr w'" "instance_inv w'"
    "wi_attempts w' = dput (key, no) a' (wi_attempts w)"
    "node_statuses w' = (\<lambda>j. if j = key then Some N_DONE
        else if j \<in> unlocked (wi_snapshot w) key ((node_statuses w)(key \<mapsto> N_DONE)) then Some N_READY
        else node_statuses w j)"
    "wi_status w' = (if \<forall>j \<in> set (snapshot_keys (wi_snapshot w)) - {key}. node_statuses w j = Some N_DONE
        then I_DONE else wi_status w)"
    by auto
  have "attempt_at w' key no = Some a'" by (simp add: w'(3) dict_simps)
  moreover have "node_at w key = Some n" using p(1) by (simp add: point_def)
  ultimately show ?thesis using w' p(3-5,8,9) by blast
qed

theorem human_submission_unlocks_witness:
  "\<exists>u w'. submit_human demo_brief ''brief'' ''ann'' 1 0 [(''body'', PStr ''hi'')] None 9 = Inr u \<and>
     unlock_after u ''brief'' 9 = Inr w' \<and> instance_inv w' \<and> node_statuses w' ''brief'' = Some N_DONE"
proof -
  have "is_ok (submit_human demo_brief ''brief'' ''ann'' 1 0 [(''body'', PStr ''hi'')] None 9)" by code_simp
  then obtain u where u: "submit_human demo_brief ''brief'' ''ann'' 1 0 [(''body'', PStr ''hi'')] None 9 = Inr u"
    by (cases "submit_human demo_brief ''brief'' ''ann'' 1 0 [(''body'', PStr ''hi'')] None 9") auto
  have s: "wi_status demo_brief \<in> {I_RUNNING, I_PAUSED}" by code_simp
  from human_submission_unlocks [OF demo_inv(1) s u] u show ?thesis by auto
qed

text \<open>C6: only the holder of the current, unexpired claim on the current attempt and version of a
  running automated node completes it; the completion then unlocks like a human submission.\<close>

theorem automated_completion_needs_claim:
  assumes "instance_inv w" and "wi_status w \<in> {I_RUNNING, I_PAUSED}"
    and "complete_automated w key no v token worker result quality now = Inr u"
  shows "\<exists>w' n a. unlock_after u key now = Inr w' \<and> instance_inv w' \<and>
     node_at w key = Some n \<and> attempt_at w key no = Some a \<and>
     ni_status n = N_RUNNING \<and> ni_executor n \<noteq> HUMAN \<and> ni_version n = v \<and> ni_current_attempt_no n = no \<and>
     na_claim_token a = Some token \<and> na_claimed_by a = Some worker \<and>
     (\<exists>t. na_claim_expires_at a = Some t \<and> now < t) \<and>
     node_statuses w' = (\<lambda>j. if j = key then Some N_DONE
        else if j \<in> unlocked (wi_snapshot w) key ((node_statuses w)(key \<mapsto> N_DONE)) then Some N_READY
        else node_statuses w j)"
proof -
  have core: "core_inv w" using assms(1,2) by (intro instance_inv_runtime) auto
  obtain n a n' a' where p: "point w key n a n' a'" "u = pointed w key n n' a'"
    "ni_executor n \<noteq> HUMAN" "no = ni_current_attempt_no n" "ni_version n = v"
    "na_claim_token a = Some token" "na_claimed_by a = Some worker"
    "\<exists>t. na_claim_expires_at a = Some t \<and> now < t" "ni_status n = N_RUNNING" "ni_status n' = N_DONE"
    using complete_automated_point [OF core assms(3)] by blast
  from point_done [OF assms(1,2) p(1) _ p(10), of now] p obtain w' where w':
    "unlock_after u key now = Inr w'" "instance_inv w'"
    "node_statuses w' = (\<lambda>j. if j = key then Some N_DONE
        else if j \<in> unlocked (wi_snapshot w) key ((node_statuses w)(key \<mapsto> N_DONE)) then Some N_READY
        else node_statuses w j)"
    by auto
  have "node_at w key = Some n" "attempt_at w key no = Some a" using p(1,4) by (simp_all add: point_def)
  with w' p show ?thesis by blast
qed

theorem automated_completion_needs_claim_witness:
  "\<exists>u w'. complete_automated demo_text ''text'' 1 0 ''token'' ''worker'' [(''body'', PStr ''hi'')] None 9 = Inr u \<and>
     unlock_after u ''text'' 9 = Inr w' \<and> node_statuses w' ''text'' = Some N_DONE"
proof -
  have "is_ok (complete_automated demo_text ''text'' 1 0 ''token'' ''worker'' [(''body'', PStr ''hi'')] None 9)"
    by code_simp
  then obtain u where
    u: "complete_automated demo_text ''text'' 1 0 ''token'' ''worker'' [(''body'', PStr ''hi'')] None 9 = Inr u"
    by (cases "complete_automated demo_text ''text'' 1 0 ''token'' ''worker'' [(''body'', PStr ''hi'')] None 9") auto
  have s: "wi_status demo_text \<in> {I_RUNNING, I_PAUSED}" by code_simp
  from automated_completion_needs_claim [OF demo_inv(3) s u] u show ?thesis by auto
qed

lemma put_frame:
  assumes "wi_nodes w' = dput k n (wi_nodes w)"
  shows "node_statuses w' = (node_statuses w)(k \<mapsto> ni_status n) \<and> (\<forall>j. j \<noteq> k \<longrightarrow> node_at w' j = node_at w j)"
  using assms by (auto simp: node_statuses_def dict_simps)

text \<open>A rejected human node, like a failed automated one, fails its instance and nothing else:
  every other node keeps its record, and the invariant of a failed instance holds.\<close>

lemma rejection_fails_instance:
  assumes "instance_inv w" and "wi_status w \<in> {I_RUNNING, I_PAUSED}"
    and "reject_human w key actor no v result quality now = Inr u"
  shows "\<exists>w'. fail_instance u now = Inr w' \<and> instance_inv w' \<and> wi_status w' = I_FAILED \<and>
     node_statuses w' = (node_statuses w)(key \<mapsto> N_FAILED) \<and> (\<forall>j. j \<noteq> key \<longrightarrow> node_at w' j = node_at w j)"
proof -
  have core: "core_inv w" using assms(1,2) by (intro instance_inv_runtime) auto
  obtain n a n' a' where p: "point w key n a n' a'" "u = pointed w key n n' a'"
    "ni_status n = N_WAITING_HUMAN" "ni_status n' = N_FAILED"
    using reject_human_point [OF core assms(3)] by blast
  from point_failed [OF assms(1,2) p(1) _ p(4), of now] p obtain w' where w':
    "fail_instance u now = Inr w'" "instance_inv w'" "wi_status w' = I_FAILED" "wi_nodes w' = dput key n' (wi_nodes w)"
    by auto
  with put_frame [OF w'(4)] p(4) show ?thesis by simp
qed

text \<open>A worker that fails its node must hold the live claim; the instance becomes failed, the
  failed attempt keeps the error and holds no claim, every other node keeps its record.\<close>

lemma automated_failure_fails_instance:
  assumes "instance_inv w" and "wi_status w \<in> {I_RUNNING, I_PAUSED}"
    and "fail_automated w key no v token worker code message now = Inr u"
  shows "\<exists>w' a. fail_instance u now = Inr w' \<and> instance_inv w' \<and> wi_status w' = I_FAILED \<and>
     attempt_at w key no = Some a \<and> na_claim_token a = Some token \<and> na_claimed_by a = Some worker \<and>
     (\<exists>t. na_claim_expires_at a = Some t \<and> now < t) \<and>
     node_statuses w' = (node_statuses w)(key \<mapsto> N_FAILED) \<and> (\<forall>j. j \<noteq> key \<longrightarrow> node_at w' j = node_at w j)"
proof -
  have core: "core_inv w" using assms(1,2) by (intro instance_inv_runtime) auto
  obtain n a n' a' where p: "point w key n a n' a'" "u = pointed w key n n' a'"
    "no = ni_current_attempt_no n" "na_claim_token a = Some token" "na_claimed_by a = Some worker"
    "\<exists>t. na_claim_expires_at a = Some t \<and> now < t" "ni_status n = N_RUNNING" "ni_status n' = N_FAILED"
    using fail_automated_point [OF core assms(3)] by blast
  from point_failed [OF assms(1,2) p(1) _ p(8), of now] p obtain w' where w':
    "fail_instance u now = Inr w'" "instance_inv w'" "wi_status w' = I_FAILED" "wi_nodes w' = dput key n' (wi_nodes w)"
    by auto
  have "attempt_at w key no = Some a" using p(1,3) by (simp add: point_def)
  with put_frame [OF w'(4)] w' p show ?thesis by simp
qed

section \<open>Activation and claims\<close>

text \<open>A ready node can always be activated (its dependencies are done, so its input can be
  captured); a human node then waits for its owner, an automated one runs under the new claim.\<close>

lemma activation_succeeds:
  assumes "instance_inv w" and "wi_status w \<in> {I_RUNNING, I_PAUSED}"
    and "node_at w key = Some n" and "ni_status n = N_READY"
    and "ni_executor n \<noteq> HUMAN \<Longrightarrow> \<exists>s. worker = Some s \<and> \<not> blank s"
  shows "\<exists>u act. activate ttl token w key worker now = Inr (u, act) \<and> instance_inv u \<and>
     node_statuses u = (node_statuses w)(key \<mapsto> if ni_executor n = HUMAN then N_WAITING_HUMAN else N_RUNNING) \<and>
     (ni_executor n \<noteq> HUMAN \<longrightarrow> (\<exists>a. attempt_at u key (ni_current_attempt_no n) = Some a \<and>
        na_claimed_by a = worker \<and> na_claim_token a = Some token \<and> na_claim_expires_at a = Some (now + ttl)))"
proof -
  have core: "core_inv w" using assms(1,2) by (intro instance_inv_runtime) auto
  obtain u act where ok: "activate ttl token w key worker now = Inr (u, act)"
    using activate_ok [OF assms(1) core assms(3-5)] by blast
  obtain m a n' a' where p: "point w key m a n' a'" "u = pointed w key m n' a'" "ni_status m = N_READY"
    and kind: "if ni_executor m = HUMAN then ni_status n' = N_WAITING_HUMAN
      else ni_status n' = N_RUNNING \<and> na_claimed_by a' = worker \<and> worker \<noteq> None \<and>
        na_claim_token a' = Some token \<and> na_claim_expires_at a' = Some (now + ttl)"
    using activate_point [OF core ok] by blast
  have mn: "m = n" using p(1) assms(3) by (simp add: point_def)
  have new: "ni_status n' \<in> {N_READY, N_RUNNING, N_WAITING_HUMAN}" using kind by (auto split: if_splits)
  have "instance_inv u" unfolding p(2) by (rule point_active [OF assms(1,2) p(1) _ new]) (simp add: p(3))
  moreover have "node_statuses u = (node_statuses w)(key \<mapsto> ni_status n')" by (simp add: p(2) point_fields)
  moreover have "attempt_at u key (ni_current_attempt_no n) = Some a'" by (simp add: p(2) mn dict_simps)
  ultimately show ?thesis using ok kind mn by (intro exI [of _ u] exI [of _ act]) (auto split: if_splits)
qed

text \<open>Reclaiming an expired claim revokes it: the node gets a new version and a new claim, and
  every later completion that still names the old node version fails, whatever token and worker it
  shows.\<close>

lemma reclaim_revokes:
  assumes "instance_inv w" and "wi_status w \<in> {I_RUNNING, I_PAUSED}" and "node_at w key = Some n"
    and "reclaim_expired ttl token w key worker now = Inr (u, act)"
  shows "instance_inv u \<and> node_statuses u = node_statuses w \<and> act_claim_token act = Some token \<and>
     act_recovered act \<and> act_expected_node_version act = ni_version n + 1 \<and>
     (\<forall>no token' worker' result quality now'.
        \<exists>e. complete_automated u key no (ni_version n) token' worker' result quality now' = Inl e)"
proof -
  have core: "core_inv w" using assms(1,2) by (intro instance_inv_runtime) auto
  obtain m a n' a' where p: "point w key m a n' a'" "u = pointed w key m n' a'" "ni_status m = N_RUNNING"
    "ni_status n' = N_RUNNING" "ni_version n' = ni_version m + 1" "na_claim_token a' = Some token"
    "act = activation_of w key n' a' True"
    using reclaim_expired_point [OF core assms(4)] by blast
  have mn: "m = n" using p(1) assms(3) by (simp add: point_def)
  have "instance_inv u" unfolding p(2) by (rule point_active [OF assms(1,2) p(1)]) (simp_all add: p(3,4))
  moreover have "node_statuses u = node_statuses w"
    using assms(3) p(3,4) mn by (auto simp: p(2) point_fields node_statuses_def)
  moreover have "\<exists>e. complete_automated u key no (ni_version n) token' worker' result quality now' = Inl e"
    for no token' worker' result quality now'
  proof (cases "complete_automated u key no (ni_version n) token' worker' result quality now'")
    case (Inr v)
    then have "\<exists>k. node_at u key = Some k \<and> ni_version k = ni_version n"
      by (auto simp: complete_automated_def check_automated_completion_def rbind_Inr_iff check_claim_Inr)
    then show ?thesis using p(5) mn by (simp add: p(2) dict_simps)
  qed simp
  ultimately show ?thesis using p(5,6,7) mn by (simp add: activation_of_def)
qed

text \<open>Renewing a live claim never shortens it, changes nothing but its expiry, and fails once the
  claim has expired.\<close>

lemma renewal_extends:
  assumes "instance_inv w" and "wi_status w \<in> {I_RUNNING, I_PAUSED}" and "attempt_at w key no = Some a"
    and "renew_automated_claim ttl w key no v token worker now = Inr (u, expires)"
  shows "instance_inv u \<and> na_claim_token a = Some token \<and> na_claimed_by a = Some worker \<and>
     (\<exists>t. na_claim_expires_at a = Some t \<and> now < t \<and> t \<le> expires \<and> now + ttl \<le> expires) \<and>
     u = put_attempt key no (a\<lparr>na_claim_expires_at := Some expires\<rparr>) w"
proof -
  have core: "core_inv w" using assms(1,2) by (intro instance_inv_runtime) auto
  obtain n b where n: "node_at w key = Some n" "attempt_at w key no = Some b" "no = ni_current_attempt_no n"
      "ni_status n = N_RUNNING" "na_claim_token b = Some token" "na_claimed_by b = Some worker"
      "\<exists>t. na_claim_expires_at b = Some t \<and> now < t \<and> expires = max t (now + ttl)"
      "u = put_attempt key no (b\<lparr>na_claim_expires_at := Some expires\<rparr>) w"
    using renew_automated_claim_point [OF core assms(4)] by blast
  have "kernel_step w u" by (rule renew_step [OF assms(2,4)])
  then have "instance_inv u" using assms(1) by (simp add: kernel_step_def)
  moreover have "b = a" using n(2) assms(3) by simp
  ultimately show ?thesis using n by auto
qed

text \<open>A worker whose id is not ASCII can be given a node, but can then never complete it: the
  constant-time comparison of the ids raises.\<close>

lemma non_ascii_worker_never_completes:
  assumes "attempt_at w key no = Some a" and "na_claimed_by a = Some worker" and "\<not> ascii worker"
  shows "\<exists>e. complete_automated w key no v token worker result quality now = Inl e"
proof (cases "complete_automated w key no v token worker result quality now")
  case (Inr u)
  then show ?thesis using assms
    by (auto simp: complete_automated_def check_automated_completion_def rbind_Inr_iff check_claim_Inr)
qed simp

section \<open>Cancellation, restart, recovery and editing\<close>

text \<open>Cancelling an active instance never fails at the version it was previewed for; every
  unfinished node becomes cancelled, done nodes and their results stay, and no claim survives.\<close>

lemma cancellation_complete:
  assumes "instance_inv w" and "wi_status w \<in> {I_RUNNING, I_PAUSED}"
  shows "\<exists>w' canceled revoked. apply_cancellation w (wi_version w) now = Inr (w', canceled, revoked) \<and>
     instance_inv w' \<and> wi_status w' = I_CANCELED \<and> wi_snapshot w' = wi_snapshot w \<and> history_kept w w' \<and>
     node_statuses w' = (\<lambda>j. if node_statuses w j \<in> {None, Some N_DONE} then node_statuses w j
        else Some N_CANCELED) \<and>
     (\<forall>k m a. attempt_at w' k m = Some a \<longrightarrow> na_claim_token a = None)"
proof -
  obtain w' canceled revoked where c: "apply_cancellation w (wi_version w) now = Inr (w', canceled, revoked)"
      "instance_inv w'" "evolves w w'" "wi_snapshot w' = wi_snapshot w" "wi_status w' = I_CANCELED"
      "node_statuses w' = (\<lambda>j. if node_statuses w j \<in> {None, Some N_DONE} then node_statuses w j
        else Some N_CANCELED)"
    using apply_cancellation_spec [OF assms refl, of now] by blast
  have core: "core_inv w'" using c(2,5) by (intro instance_inv_runtime) auto
  have none: "na_claim_token a = None" if a: "attempt_at w' k m = Some a" for k m a
  proof -
    obtain n where n: "node_at w' k = Some n" "m \<le> ni_current_attempt_no n"
        "m < ni_current_attempt_no n \<longrightarrow> attempt_finished a" "claim_ok a"
      using core_inv_attempt [OF core a] by (auto simp: attempt_ok_def)
    have "node_ok w' k n" by (rule core_inv_node [OF core n(1)])
    moreover have "ni_status n \<noteq> N_RUNNING"
      using c(6) n(1) by (auto simp: node_statuses_def fun_eq_iff split: if_splits dest!: spec [of _ k])
    ultimately have "na_status a \<noteq> A_RUNNING"
      using n a by (cases "m = ni_current_attempt_no n"; cases "ni_status n") (auto simp: node_ok_def)
    with n(4) show ?thesis by (simp add: claim_ok_def)
  qed
  have "history_kept w w'" using c(3) by (simp add: evolves_def)
  with c none show ?thesis by blast
qed

text \<open>C12: a confirmed restart keeps the invariant and all history: every affected node gets a fresh
  attempt while its previous one stays, closed, with its result; the affected nodes of a node
  restart are the node and everything downstream of it, and no other node is touched.\<close>

theorem restart_keeps_history:
  assumes "instance_inv w" and "apply_restart w p now = Inr w'"
  shows "instance_inv w' \<and> wi_status w' = I_RUNNING \<and> history_kept w w' \<and>
     (\<forall>j \<in> set (rp_affected_node_keys p). renewed w w' j) \<and>
     (\<forall>j. j \<notin> set (rp_affected_node_keys p) \<longrightarrow> untouched w w' j) \<and>
     (case rp_node_key p of None \<Rightarrow> True
      | Some key \<Rightarrow> set (rp_affected_node_keys p) = insert key (downstream (wi_snapshot w) key))"
proof -
  have "set (rp_affected_node_keys p) = insert key (downstream (wi_snapshot w) key)"
    if key: "rp_node_key p = Some key" for key
  proof -
    have "rp_scope p = NODE \<and> affected_restart_node_keys w key = Inr (rp_affected_node_keys p)"
      using assms(2) key
      by (cases "rp_scope p") (auto simp: apply_restart_def restart_nodes_def rbind_Inr_iff ensure_Inr_iff)
    with affected_restart_spec [OF assms(1)] show ?thesis by blast
  qed
  then show ?thesis using apply_restart_inv [OF assms] by (auto simp: evolves_def split: option.split)
qed

theorem restart_keeps_history_witness:
  "\<exists>w'. apply_restart demo_done demo_restart 9 = Inr w' \<and> instance_inv w' \<and> wi_status w' = I_RUNNING \<and>
     untouched demo_done w' ''brief''"
proof -
  have "is_ok (apply_restart demo_done demo_restart 9)" by code_simp
  then obtain w' where w': "apply_restart demo_done demo_restart 9 = Inr w'"
    by (cases "apply_restart demo_done demo_restart 9") auto
  have "''brief'' \<notin> set (rp_affected_node_keys demo_restart)" by code_simp
  with restart_keeps_history [OF demo_inv(6) w'] w' show ?thesis by blast
qed

text \<open>Recovering a failed automated node, by retry or by human takeover, makes the instance run
  again; the recovered nodes get a fresh attempt, the failed attempt stays in the history, and no
  other node is touched.\<close>

lemma recovery_reopens:
  assumes "instance_inv w" and "apply_failed_node_recovery w key action actor iv nv no now = Inr (w', affected)"
  shows "instance_inv w' \<and> wi_status w = I_FAILED \<and> wi_status w' = I_RUNNING \<and> history_kept w w' \<and>
     key \<in> set affected \<and> (\<forall>j \<in> set affected. renewed w w' j) \<and>
     (\<forall>j. j \<notin> set affected \<longrightarrow> untouched w w' j) \<and>
     (\<exists>n. node_at w key = Some n \<and> ni_owner_person_id n = actor \<and> ni_version n = nv \<and> wi_version w = iv)"
proof -
  have "\<exists>n. validate_recovery_target w key actor iv nv no = Inr n"
    using assms(2) unfolding apply_failed_node_recovery_def rbind_Inr_iff by blast
  with apply_recovery_inv [OF assms] show ?thesis
    by (auto simp: evolves_def dest!: validate_recovery_target_Inr)
qed


text \<open>An edit of a running instance succeeds when its candidate is valid and can be serialised.\<close>

lemma edit_succeeds:
  assumes "wi_status w = I_RUNNING" and "edit_candidate w ops = Inr (normalized, st)"
    and "validate_snapshot (candidate_snapshot (wi_snapshot w) (es_specs st)) = Inr ()"
    and "edit_records (candidate_snapshot (wi_snapshot w) (es_specs st)) st now w = Inr u"
    and "json_text True (PDict (snapshot_to_dict (candidate_snapshot (wi_snapshot w) (es_specs st)))) \<noteq> None"
  shows "\<exists>w' plan. apply_future_graph_edit w ops now = Inr (w', plan) \<and>
     gp_removed_node_keys plan = es_removed st \<and> wi_attempts w' = wi_attempts u"
  using assms by (auto simp: apply_future_graph_edit_def as_edit_error_def snapshot_hash_def close_edit_def Let_def)


section \<open>Findings about editing\<close>

definition demo_redone :: workflow_instance where
  "demo_redone = (case apply_restart demo_done demo_restart 9 of Inr w \<Rightarrow> w | Inl _ \<Rightarrow> demo_done)"

text \<open>A graph edit can remove a node that has already been executed: once a restart has opened a
  fresh pending attempt for it, the node counts as a future node, and its removal deletes the finished
  attempt of the earlier run and its result.\<close>

lemma edit_deletes_history:
  "\<exists>w' plan a. (\<exists>w. apply_restart demo_done demo_restart 9 = Inr w \<and>
       attempt_at w ''sign'' 1 = Some a \<and> attempt_finished a \<and> na_result a \<noteq> None \<and>
       apply_future_graph_edit w demo_removal 10 = Inr (w', plan)) \<and> attempt_at w' ''sign'' 1 = None"
proof -
  let ?c = "edit_candidate demo_redone demo_removal"
  let ?cand = "\<lambda>st. candidate_snapshot (wi_snapshot demo_redone) (es_specs st)"
  have c: "is_ok (apply_restart demo_done demo_restart 9) \<and> wi_status demo_redone = I_RUNNING \<and>
    (case attempt_at demo_redone ''sign'' 1 of None \<Rightarrow> False | Some a \<Rightarrow> na_status a = A_DONE \<and> na_result a \<noteq> None) \<and>
    (case ?c of Inl _ \<Rightarrow> False | Inr (normalized, st) \<Rightarrow>
      validate_snapshot (?cand st) = Inr () \<and>
      (case edit_records (?cand st) st 10 demo_redone of Inl _ \<Rightarrow> False | Inr u \<Rightarrow> attempt_at u ''sign'' 1 = None) \<and>
      json_text True (PDict (snapshot_to_dict (?cand st))) \<noteq> None)"
    by code_simp
  obtain normalized st where st: "?c = Inr (normalized, st)" using c by (cases ?c) auto
  have v: "validate_snapshot (?cand st) = Inr ()"
    and j: "json_text True (PDict (snapshot_to_dict (?cand st))) \<noteq> None"
    and r: "case edit_records (?cand st) st 10 demo_redone of Inl _ \<Rightarrow> False | Inr u \<Rightarrow> attempt_at u ''sign'' 1 = None"
    using c unfolding st by simp_all
  from r obtain u where u: "edit_records (?cand st) st 10 demo_redone = Inr u" "attempt_at u ''sign'' 1 = None"
    by (auto split: sum.splits)
  have run: "wi_status demo_redone = I_RUNNING" using c by blast
  from edit_succeeds [OF run st v u(1) j] obtain w' plan where
    w': "apply_future_graph_edit demo_redone demo_removal 10 = Inr (w', plan)" "wi_attempts w' = wi_attempts u" by blast
  obtain w where w: "apply_restart demo_done demo_restart 9 = Inr w" using c by (cases "apply_restart demo_done demo_restart 9") auto
  then have dw: "demo_redone = w" by (simp add: demo_redone_def)
  obtain a where a: "attempt_at w ''sign'' 1 = Some a" "na_status a = A_DONE" "na_result a \<noteq> None"
    using c unfolding dw by (auto split: option.splits)
  have "attempt_finished a" unfolding attempt_finished_iff a(2) by simp
  with a w w' u(2) dw show ?thesis by metis
qed

section \<open>Data\<close>

text \<open>A value that passes the validation of a deliverable is normalised and has the type its
  declaration asks for (texts are stripped, not empty and bounded, choices are among the options).\<close>

lemma deliverable_conforms:
  assumes "validate_value declaration raw = Inr v"
  shows "conforms declaration v"
  by (rule validate_value_conforms [OF assms])

text \<open>C19: reading back the JSON form of a snapshot gives the same snapshot, when its values are frozen
  JSON values (scalars, tuples and frozen mappings, which is what the constructors store).\<close>

theorem snapshot_serialisation:
  assumes "json_clean_map (sn_inputs s)" and "list_all (\<lambda>n. json_clean_map (ns_work n)) (sn_nodes s)"
  shows "snapshot_from_dict (snapshot_to_dict s) = Inr s"
  by (rule snapshot_round_trip [OF assms])

theorem snapshot_serialisation_witness:
  "snapshot_from_dict (snapshot_to_dict demo_snapshot) = Inr demo_snapshot"
proof -
  have i: "json_clean_map (sn_inputs demo_snapshot)" by code_simp
  have n: "list_all (\<lambda>n. json_clean_map (ns_work n)) (sn_nodes demo_snapshot)" by code_simp
  show ?thesis by (rule snapshot_serialisation [OF i n])
qed

end
