(* ===== verification/System_Properties.thy ===== *)
theory System_Properties
  imports Demo
begin

text \<open>
  The properties of the service and of the stores: optimistic concurrency and one-shot previews,
  who may do what, dispatch, the outbox and the templates.
\<close>

section \<open>Optimistic concurrency\<close>

text \<open>No update is lost: after a save, every other save that was computed from the same version of
  that instance is rejected.\<close>

lemma save_no_lost_update:
  assumes "repo_save r w e audits outboxes = Inr r1" and "instance_key u = instance_key w"
  shows "\<exists>err. repo_save r1 u e audits' outboxes' = Inl err"
  using instance_store.no_lost_update [of r e "(w, audits, outboxes)" r1 "(u, audits', outboxes')"] assms by simp

text \<open>A save without events of the stored demo instance.\<close>

lemma demo_save: "\<exists>w r1. find_instance demo_r2 (''acme'', ''p1'') = Some w \<and> instance_key w = (''acme'', ''p1'') \<and>
    repo_save demo_r2 w 1 [] [] = Inr r1"
proof -
  obtain w where w: "find_instance demo_r2 (''acme'', ''p1'') = Some w" "wi_version w = 1"
    using demo_stored(1) by blast
  have "demo_r2 \<in> set [empty_repository, demo_r1, demo_r2, demo_r3]" by simp
  then have k: "instance_key w = (''acme'', ''p1'')" using history_repo_inv [OF demo_history] repo_invD w(1) by blast
  then have "repo_save demo_r2 w 1 [] [] = Inr (append_events [] [] (store_instance demo_r2 w 1))"
    using w by (simp add: repo_save_Inr validate_events_def)
  with w k show ?thesis by blast
qed

text \<open>Tenants are isolated: a save changes the instance under its own tenant and id and leaves
  every other instance, in particular those of other tenants, as it is.\<close>

lemma save_is_local:
  assumes "repo_save r w e audits outboxes = Inr r1"
  shows "find_instance r1 (instance_key w) = Some (w\<lparr>wi_version := e + 1\<rparr>) \<and>
     (\<forall>k. k \<noteq> instance_key w \<longrightarrow> find_instance r1 k = find_instance r k)"
  using assms by (auto simp: repo_save_Inr)

text \<open>A restart preview is applied at most once: when a confirmation has applied it, every later
  confirmation of it that succeeds is a replay and changes nothing.\<close>

lemma restart_applied_once:
  assumes "save_restart r w p e t audits outboxes = Inr (r1, True)"
    and "(rp_tenant_id q, rp_id q) = (rp_tenant_id p, rp_id p)"
    and "save_restart r1 u q e' t' audits' outboxes' = Inr (r2, b)"
  shows "\<not> b \<and> r2 = r1"
  using restart_preview_store.second_is_replay [of r p "(w, e, t, audits, outboxes)" r1 q
      "(u, e', t', audits', outboxes')" r2 b] assms by simp

text \<open>So is a preview of a graph edit.\<close>

lemma graph_edit_applied_once:
  assumes "save_graph_edit r w p e t audits outboxes = Inr (r1, True)"
    and "(ge_tenant_id q, ge_id q) = (ge_tenant_id p, ge_id p)"
    and "save_graph_edit r1 u q e' t' audits' outboxes' = Inr (r2, b)"
  shows "\<not> b \<and> r2 = r1"
  using graph_edit_preview_store.second_is_replay [of r p "(w, e, t, audits, outboxes)" r1 q
      "(u, e', t', audits', outboxes')" r2 b] assms by simp

section \<open>Who may do what\<close>

lemma require_instance_owner_Inr [result_simps]:
  "require_instance_owner w actor = Inr u \<longleftrightarrow> actor = wi_owner_person_id w"
  by (simp add: require_instance_owner_def result_simps)

text \<open>A command that starts by reading an instance and checking its owner.\<close>

lemma owner_checked:
  assumes "is_ok (rbind (repo_get r tenant iid) (\<lambda>w. rbind (require_instance_owner w actor) (f w)))"
  shows "\<exists>w. find_instance r (tenant, iid) = Some w \<and> wi_owner_person_id w = actor"
  using assms
  by (cases "find_instance r (tenant, iid)")
    (auto simp: repo_get_def get_or_raise_def require_instance_owner_def ensure_def split: if_splits)

text \<open>C18: only the owner of an instance confirms, discards, pauses, resumes, cancels, previews an edit
  or a restart of it: whenever one of these commands succeeds, its actor owns the instance it read.\<close>

theorem only_owner_commands:
  assumes "is_ok (confirm_draft env r r' tenant iid actor corr) \<or>
     is_ok (discard_draft env r r' tenant iid actor corr) \<or>
     is_ok (pause_instance env r r' tenant iid actor corr) \<or>
     is_ok (resume_instance env r r' tenant iid actor corr) \<or>
     is_ok (confirm_cancellation env r r' tenant iid actor v corr) \<or>
     is_ok (preview_graph_edit env r r' tenant iid ops actor) \<or>
     is_ok (preview_node_restart env r r' tenant iid key actor) \<or>
     is_ok (preview_instance_restart env r r' tenant iid actor)"
  shows "\<exists>w. find_instance r (tenant, iid) = Some w \<and> wi_owner_person_id w = actor"
  using assms
  unfolding confirm_draft_def discard_draft_def pause_instance_def resume_instance_def
    confirm_cancellation_def preview_graph_edit_def preview_node_restart_def preview_instance_restart_def Let_def
  by (elim disjE; elim owner_checked)

theorem only_owner_commands_witness:
  "is_ok (confirm_draft (demo_env 2) demo_r1 demo_r1 ''acme'' ''p1'' ''ann'' None) \<and>
   (\<exists>w. find_instance demo_r1 (''acme'', ''p1'') = Some w \<and> wi_owner_person_id w = ''ann'')"
proof -
  have ok: "is_ok (confirm_draft (demo_env 2) demo_r1 demo_r1 ''acme'' ''p1'' ''ann'' None)"
    using demo_runs(2) unfolding demo_confirm_def by auto
  from only_owner_commands [OF disjI1, OF ok] ok show ?thesis by blast
qed

section \<open>Dispatch\<close>

text \<open>The automated activations are counted, and the count stays within the limit.\<close>

definition within :: "int \<Rightarrow> dispatch_state \<Rightarrow> bool" where
  "within m st \<longleftrightarrow> int (ds_automated st) \<le> m \<and>
     length (filter (\<lambda>a. act_executor a \<noteq> HUMAN) (ds_activations st)) = ds_automated st"

lemma activate_executor:
  "activate ttl token w key worker now = Inr (u, act) \<Longrightarrow> node_at w key = Some n \<Longrightarrow> act_executor act = ni_executor n"
  unfolding activate_def Let_def
  by (auto simp: rbind_Inr_iff get_node_Inr transition_node_Inr activation_of_def split: if_splits)

lemma reclaim_executor:
  "reclaim_expired ttl token w key worker now = Inr (u, act) \<Longrightarrow> act_executor act \<noteq> HUMAN"
  unfolding reclaim_expired_def Let_def
  by (auto simp: rbind_Inr_iff get_node_Inr ensure_Inr_iff activation_of_def)

lemma dispatch_human_within: "dispatch_human env spec st = Inr st' \<Longrightarrow> within m st \<Longrightarrow> within m st'"
  unfolding dispatch_human_def dispatched_def
  by (auto simp: rbind_Inr_iff get_node_Inr within_def dest: activate_executor split: if_splits)

lemma dispatch_expired_within: "dispatch_expired env wk m ks spec st = Inr st' \<Longrightarrow> within m st \<Longrightarrow> within m st'"
  unfolding dispatch_expired_def dispatched_def
  by (auto simp: rbind_Inr_iff within_def dest: reclaim_executor split: if_splits)

lemma dispatch_automated_within: "dispatch_automated env wk m ks spec st = Inr st' \<Longrightarrow> within m st \<Longrightarrow> within m st'"
  unfolding dispatch_automated_def dispatched_def
  by (auto simp: rbind_Inr_iff get_node_Inr within_def dest: activate_executor split: if_splits)

lemma dispatch_loops_within:
  assumes "dispatch_loops env w worker m recover ks = Inr st" and "0 \<le> m"
  shows "within m st"
proof -
  obtain s1 s2 where f: "foldM (dispatch_human env) (sn_nodes (wi_snapshot w))
        \<lparr>ds_instance = w, ds_activations = [], ds_automated = 0\<rparr> = Inr s1"
      "(if recover then foldM (dispatch_expired env (case worker of None \<Rightarrow> [] | Some s \<Rightarrow> s) m ks) (sn_nodes (wi_snapshot w)) s1
        else Inr s1) = Inr s2"
      "foldM (dispatch_automated env worker m ks) (sn_nodes (wi_snapshot w)) s2 = Inr st"
    using assms(1) unfolding dispatch_loops_def Let_def rbind_Inr_iff by blast
  have "within m s1"
    by (rule foldM_invariant [OF f(1) _ dispatch_human_within]) (use assms(2) in \<open>simp_all add: within_def\<close>)
  then have "within m s2"
    using f(2) foldM_invariant [of "dispatch_expired env (case worker of None \<Rightarrow> [] | Some s \<Rightarrow> s) m ks" _ s1 s2 "within m"]
      dispatch_expired_within by (auto split: if_splits)
  then show ?thesis by (rule foldM_invariant [OF f(3) _ dispatch_automated_within])
qed

text \<open>One dispatch only works on a running instance, and starts or takes over at most
  \<open>max_automated\<close> automated nodes; human tasks are not limited.\<close>

lemma dispatch_bounded:
  assumes "dispatch_due env r r' tenant iid worker m keys corr = Inr (r1, acts)"
  shows "(\<exists>w. find_instance r (tenant, iid) = Some w \<and> wi_status w = I_RUNNING) \<and> 0 \<le> m \<and>
     int (length (filter (\<lambda>a. act_executor a \<noteq> HUMAN) acts)) \<le> m"
proof -
  obtain c i where ci: "correlation env corr = (c, i)" by fastforce
  obtain w st where w: "repo_get r tenant iid = Inr w" "wi_status w = I_RUNNING" "0 \<le> m"
    and st: "dispatch_loops env w (Some worker) m True keys = Inr st" and acts: "acts = ds_activations st"
    using assms unfolding dispatch_due_def dispatch_def Let_def ci
    by (elim rbindE) (simp add: rbind_Inr_iff ensure_Inr_iff split: if_splits; blast)
  have "find_instance r (tenant, iid) = Some w" using w(1) by (simp add: repo_get_def get_or_raise_Inr_iff)
  with w dispatch_loops_within [OF st w(3)] acts show ?thesis by (simp add: within_def)
qed

text \<open>A paused instance does no automated work: dispatching it is refused.\<close>

lemma paused_is_not_dispatched:
  assumes "find_instance r (tenant, iid) = Some w" and "wi_status w \<noteq> I_RUNNING"
  shows "(\<exists>e. dispatch_due env r r' tenant iid worker m keys corr = Inl e) \<and>
     (\<exists>e. dispatch_ready env r r' tenant iid worker' m corr = Inl e)"
  using assms
  by (auto simp: dispatch_due_def dispatch_ready_def dispatch_def repo_get_def get_or_raise_def ensure_def)

section \<open>Outbox\<close>

lemma outbox_check:
  "distinct (dkeys (r_outbox r)) \<Longrightarrow> list_all (\<lambda>(k, q). claim_fields q) (r_outbox r) \<Longrightarrow> outbox_inv r"
  unfolding outbox_inv_def by (auto dest: list_all_dget)

lemma demo_outbox: "outbox_inv demo_r2"
  by (rule outbox_check) code_simp+

definition demo_tokens :: "nat \<Rightarrow> string" where "demo_tokens i = ''t'' @ dec_nat i"

definition demo_claimed :: repository where
  "demo_claimed = ok_store (claim_outbox demo_tokens demo_r2 ''acme'' ''w1'' 5 2 10 None)"

lemma demo_claim_runs:
  "\<exists>claims. claim_outbox demo_tokens demo_r2 ''acme'' ''w1'' 5 2 10 None = Inr (demo_claimed, claims)"
  "\<exists>r2 claims. claim_outbox demo_tokens demo_claimed ''acme'' ''w2'' 6 2 10 None = Inr (r2, claims)"
proof -
  have "is_ok (claim_outbox demo_tokens demo_r2 ''acme'' ''w1'' 5 2 10 None)"
    "is_ok (claim_outbox demo_tokens demo_claimed ''acme'' ''w2'' 6 2 10 None)" by code_simp+
  from this [THEN ok_storeD] show
    "\<exists>claims. claim_outbox demo_tokens demo_r2 ''acme'' ''w1'' 5 2 10 None = Inr (demo_claimed, claims)"
    "\<exists>r2 claims. claim_outbox demo_tokens demo_claimed ''acme'' ''w2'' 6 2 10 None = Inr (r2, claims)"
    unfolding demo_claimed_def by blast+
qed

text \<open>A claim takes, in the order of their due times, at most \<open>limit\<close> of the records that are due,
  puts a fresh token and the new expiry on each, and leaves every other record as it is.\<close>

lemma outbox_claim_exact:
  assumes "outbox_inv r" and "claim_outbox tokens r tenant worker now limit ttl types = Inr (r1, claims)"
  shows "\<exists>ks. ks = take (nat limit) (claim_candidates r tenant now types) \<and> length claims = length ks \<and>
     distinct ks \<and> (\<forall>k \<in> set ks. due r tenant now types k) \<and>
     (\<forall>i q. i < length ks \<longrightarrow> dget (r_outbox r) (ks ! i) = Some q \<longrightarrow>
        oc_claim_token (claims ! i) = tokens i \<and>
        (\<exists>q'. dget (r_outbox r1) (ks ! i) = Some q' \<and> or_status q' = Q_PROCESSING \<and>
           or_claim_token q' = Some (tokens i) \<and> or_claim_expires_at q' = Some (now + ttl) \<and>
           or_event q' = or_event q)) \<and>
     (\<forall>k. k \<notin> set ks \<longrightarrow> dget (r_outbox r1) k = dget (r_outbox r) k) \<and> outbox_inv r1"
proof -
  have d: "distinct (dkeys (r_outbox r))" using assms(1) by (simp add: outbox_inv_def)
  let ?ks = "take (nat limit) (claim_candidates r tenant now types)"
  have "distinct ?ks" "\<forall>k \<in> set ?ks. due r tenant now types k"
    using claim_candidates_props [OF d] by (auto simp: distinct_take dest: in_set_takeD)
  with claim_outbox_spec [OF d assms(2)] claim_keeps_inv [OF assms] show ?thesis
    by (intro exI [of _ ?ks]) (auto simp: claim_of_def claimed_by_def)
qed

text \<open>While a claim lives, no other claim takes any of its records.\<close>

lemma live_claims_disjoint:
  assumes "outbox_inv r"
    and "claim_outbox tokens r tenant worker now limit ttl types = Inr (r1, claims)"
    and "claim_outbox tokens' r1 tenant' worker' now' limit' ttl' types' = Inr (r2, claims')"
    and "now' < now + ttl"
  shows "set (take (nat limit) (claim_candidates r tenant now types)) \<inter>
      set (take (nat limit') (claim_candidates r1 tenant' now' types')) = {}"
  by (rule claims_disjoint [OF assms])

text \<open>A published or exhausted record is final: no later claim, publication, failure or exhaustion
  changes it.\<close>

lemma settled_records_final:
  assumes "outbox_inv r" and "dget (r_outbox r) k = Some q" and "or_status q \<in> {Q_PUBLISHED, Q_EXHAUSTED}"
    and "(\<exists>claims. claim_outbox tokens r tenant worker now limit ttl types = Inr (r1, claims)) \<or>
      mark_outbox_published r tenant eid token now = Inr r1 \<or>
      mark_outbox_failed r tenant eid token err now = Inr r1 \<or>
      mark_outbox_exhausted r tenant eid token err now = Inr r1"
  shows "dget (r_outbox r1) k = Some q"
  using assms(4) by (elim disjE exE) (erule settled_final [OF assms(2,3,1)])+

definition demo_published :: repository where
  "demo_published = (case mark_outbox_published demo_claimed ''acme'' (oe_id (or_event (snd (hd (r_outbox demo_claimed))))) ''t0'' 6
     of Inr r \<Rightarrow> r | Inl _ \<Rightarrow> demo_claimed)"

section \<open>Templates\<close>

definition demo_template :: workflow_template where
  "demo_template = \<lparr>wt_id = ''t1'', wt_tenant_id = ''acme'', wt_name = ''Brief'', wt_status = T_DRAFT, wt_version = 0,
     wt_created_at = 0, wt_updated_at = 0, wt_deleted_at = None\<rparr>"

definition demo_version :: "int \<Rightarrow> workflow_template_version" where
  "demo_version n = \<lparr>tv_id = ''v'' @ dec_int n, tv_tenant_id = ''acme'', tv_template_id = ''t1'', tv_version = n,
     tv_schema_version = ''0.2'', tv_locked = False, tv_definition = [], tv_content_hash = [], tv_created_at = 0\<rparr>"

definition demo_event :: "string \<Rightarrow> int \<Rightarrow> template_audit_event" where
  "demo_event eid n = \<lparr>te_id = eid, te_tenant_id = ''acme'', te_template_id = ''t1'', te_event_type = ''template.changed'',
     te_actor_person_id = ''ann'', te_aggregate_version = n, te_payload = [], te_occurred_at = 0\<rparr>"

definition demo_templates :: template_store where
  "demo_templates = fst (add_template empty_template_store demo_template (demo_version 1) (demo_event ''e1'' 0))"

lemma demo_templates_inv: "template_inv demo_templates"
proof -
  have "template_inv empty_template_store" by (simp add: template_inv_def empty_template_store_def)
  then show ?thesis unfolding demo_templates_def by (rule add_template_keeps)
qed

text \<open>In a template store every version belongs to a stored template and the versions of a template
  are numbered from one without a gap; every operation keeps this, also when it fails.\<close>

lemma template_versions_gapless:
  assumes "template_inv s"
  shows "template_inv (fst (add_template s t v e)) \<and>
     template_inv (fst (add_template_version s v expected now e)) \<and>
     template_inv (fst (set_template_status s tenant tid expected status now deleted e))"
  by (intro conjI add_template_keeps add_version_keeps set_status_keeps assms)

text \<open>The latest version of a stored template exists and has the number of versions stored, so the
  next version that is accepted has exactly the next number.\<close>

lemma next_template_version:
  assumes "template_inv s" and "committed (add_template_version s v n now e) = Inr s'"
  shows "\<exists>m \<ge> 1. template_numbers s (tv_tenant_id v, tv_template_id v) = {1..m} \<and> tv_version v = m + 1"
proof -
  obtain t latest where t: "dget (ts_templates s) (tv_tenant_id v, tv_template_id v) = Some t"
    and l: "get_template_version s (tv_tenant_id v) (tv_template_id v) None = Inr latest"
    and v: "tv_version v = tv_version latest + 1"
    using assms(2) unfolding add_template_version_def Let_def
    by (auto simp: committed_Inr rbind_Inr_iff ensure_Inr_iff get_template_def get_or_raise_Inr_iff
        validate_template_version_def split: sum.split_asm)
  from latest_version [OF assms(1) t] l v show ?thesis by auto
qed

text \<open>A template update is not lost: of two changes made to one version of a template, in either
  order and of either kind, the second is rejected.\<close>

lemma no_lost_template_update:
  assumes "committed (set_template_status s tenant tid n status now deleted e) = Inr s'"
  shows "(\<exists>err. committed (set_template_status s' tenant tid n status' now' deleted' e') = Inl err) \<and>
     (tv_tenant_id v = tenant \<longrightarrow> tv_template_id v = tid \<longrightarrow>
        (\<exists>err. committed (add_template_version s' v n now' e') = Inl err))"
proof
  show "\<exists>err. committed (set_template_status s' tenant tid n status' now' deleted' e') = Inl err"
    using template_status_store.no_lost_update [of s n "(tenant, tid, status, now, deleted, e)" s'
        "(tenant, tid, status', now', deleted', e')"] assms by simp
  obtain t where "dget (ts_templates s') (tenant, tid) = Some t" "wt_version t = n + 1"
    using set_status_committed [OF assms] by (auto simp: dget_dput)
  then show "tv_tenant_id v = tenant \<longrightarrow> tv_template_id v = tid \<longrightarrow>
        (\<exists>err. committed (add_template_version s' v n now' e') = Inl err)"
    using template_version_store.stale_rejected [of s' "(v, now', e')" t n] by auto
qed

text \<open>Adding a template is not atomic: with an event id that is already taken, the call raises, but
  the template and its first version have been stored and stay.\<close>

lemma add_template_not_atomic:
  assumes "dget (ts_templates s) (wt_tenant_id t, wt_id t) = None"
    and "validate_template_version t v 1 = Inr ()" and "validate_template_event t e 0 = Inr ()"
    and "(te_tenant_id e, te_id e) \<in> set (ts_event_ids s)"
  shows "\<exists>s'. add_template s t v e = (s', Inl (ValueError ''duplicate template event id'')) \<and>
     dget (ts_templates s') (wt_tenant_id t, wt_id t) = Some t \<and> s' \<noteq> s"
proof -
  let ?s = "store_version t 1 v (store_template t s)"
  have eq: "add_template s t v e = (?s, Inl (ValueError ''duplicate template event id''))"
    using assms by (simp add: add_template_def finish_with_def append_template_event_def
        store_version_def store_template_def)
  have at: "dget (ts_templates ?s) (wt_tenant_id t, wt_id t) = Some t"
    by (simp add: store_version_def store_template_def dget_dput)
  with assms(1) have "?s \<noteq> s" by auto
  with eq at show ?thesis by blast
qed

section \<open>Findings about the service\<close>

text \<open>The owner can resume a draft that was never confirmed: the command succeeds and stores a
  running instance that has no nodes, which violates the invariant of running instances.\<close>

lemma resume_starts_draft:
  "\<exists>r w v. resume_instance (demo_env 2) demo_r1 demo_r1 ''acme'' ''p1'' ''ann'' None = Inr (r, w) \<and>
     find_instance r (''acme'', ''p1'') = Some v \<and> wi_status v = I_RUNNING \<and> wi_nodes v = [] \<and> \<not> instance_inv v"
proof -
  let ?x = "resume_instance (demo_env 2) demo_r1 demo_r1 ''acme'' ''p1'' ''ann'' None"
  have "case ?x of Inl _ \<Rightarrow> False | Inr (r, w) \<Rightarrow>
      (case find_instance r (''acme'', ''p1'') of None \<Rightarrow> False
       | Some v \<Rightarrow> wi_status v = I_RUNNING \<and> wi_nodes v = [] \<and> snapshot_keys (wi_snapshot v) \<noteq> [])" by code_simp
  then obtain r w v where x: "?x = Inr (r, w)" "find_instance r (''acme'', ''p1'') = Some v"
      "wi_status v = I_RUNNING" "wi_nodes v = []" "snapshot_keys (wi_snapshot v) \<noteq> []"
    by (auto split: sum.splits option.splits)
  have "\<not> instance_inv v"
  proof
    assume "instance_inv v"
    then have "core_inv v" using x(3) by (intro instance_inv_runtime) simp_all
    with x(4,5) show False by (simp add: core_inv_def del: set_map)
  qed
  with x show ?thesis by blast
qed

text \<open>Cancelling a draft, even at its current version, does not answer that a draft cannot be
  cancelled: it fails with a lookup error of the first node.\<close>

lemma cancel_draft_key_error:
  "\<exists>key. confirm_cancellation (demo_env 2) demo_r1 demo_r1 ''acme'' ''p1'' ''ann'' 0 None = Inl (KeyError key) \<and>
     (\<exists>w. find_instance demo_r1 (''acme'', ''p1'') = Some w \<and> wi_status w = I_DRAFT \<and> wi_version w = 0)"
proof -
  have "case confirm_cancellation (demo_env 2) demo_r1 demo_r1 ''acme'' ''p1'' ''ann'' 0 None of
      Inl (KeyError key) \<Rightarrow> True | _ \<Rightarrow> False" by code_simp
  moreover have "case find_instance demo_r1 (''acme'', ''p1'') of None \<Rightarrow> False
      | Some w \<Rightarrow> wi_status w = I_DRAFT \<and> wi_version w = 0" by code_simp
  ultimately show ?thesis by (auto split: sum.splits exn.splits option.splits)
qed

text \<open>An outbox event whose type, aggregate and version were used before is dropped without an
  error, whatever its payload: the repository stays as it is.\<close>

lemma reused_dedupe_key_drops_event:
  assumes "(oe_tenant_id e, dedupe_key e) \<in> set (r_outbox_dedupe r)"
    and "find_instance r (instance_key w) = Some w" and "oe_tenant_id e = wi_tenant_id w"
  shows "\<exists>r1. repo_save r w (wi_version w) [] [e] = Inr r1 \<and> r_outbox r1 = r_outbox r"
  using assms
  by (simp add: repo_save_Inr validate_events_def append_events_def append_outbox_def store_instance_def ensure_def)

end
