(* ===== verification/Template_Service.thy ===== *)
theory Template_Service
  imports Template_Store Editing
begin

text \<open>
  \<open>src/larkflow/workflow/template_service.py\<close>: authored template documents are parsed and validated
  into immutable versions, a template moves between draft, enabled, disabled and deleted, and an
  enabled template, or a one-off definition, is instantiated with inputs and owners into a snapshot.
  An operation of the service takes the store and returns it, as the store may change before an
  exception.
\<close>

section \<open>Small checks\<close>

definition PARAMETER_TYPES :: "string list" where
  "PARAMETER_TYPES = [''array'', ''boolean'', ''document_ref'', ''integer'', ''number'', ''object'', ''string'', ''text'']"

definition MAX_INLINE_NODES :: nat where "MAX_INLINE_NODES = 100"

text \<open>\<open>_required_text\<close> and \<open>_reject_unknown_fields\<close>.\<close>

definition template_text :: "pval \<Rightarrow> string res" where
  "template_text v = (case as_str v of
     None \<Rightarrow> Inl (TemplateValidationError ''text is required'')
   | Some s \<Rightarrow> if blank s then Inl (TemplateValidationError ''text is required'') else Inr (py_strip s))"

definition reject_unknown_fields :: "pmap \<Rightarrow> string list \<Rightarrow> unit res" where
  "reject_unknown_fields m allowed =
     ensure (set (dkeys m) \<subseteq> set allowed) (TemplateValidationError ''unsupported fields'')"

definition parameter_matches :: "string \<Rightarrow> pval \<Rightarrow> bool" where
  "parameter_matches kind v =
     (if kind \<in> {''string'', ''text'', ''document_ref''} then as_str v \<noteq> None
      else if kind = ''integer'' then (case v of PInt _ \<Rightarrow> True | _ \<Rightarrow> False)
      else if kind = ''number'' then (case v of PInt _ \<Rightarrow> True | PFloat _ \<Rightarrow> True | _ \<Rightarrow> False)
      else if kind = ''boolean'' then (case v of PBool _ \<Rightarrow> True | _ \<Rightarrow> False)
      else if kind = ''object'' then as_map v \<noteq> None
      else kind = ''array'' \<and> as_seq v \<noteq> None)"

definition validate_parameter_value :: "string \<Rightarrow> pval \<Rightarrow> unit res" where
  "validate_parameter_value kind v =
     ensure (parameter_matches kind v) (TemplateValidationError ''template input does not match its type'')"

text \<open>\<open>v or {}\<close> and \<open>v or ()\<close>.\<close>

definition or_empty :: "pval \<Rightarrow> pval \<Rightarrow> pval" where
  "or_empty v d = (if truthy v then v else d)"

section \<open>Validation of a definition\<close>

definition validate_parameter :: "string \<times> pval \<Rightarrow> unit res" where
  "validate_parameter = (\<lambda>(key, spec).
     rbind (ensure (snake_case key) (TemplateValidationError ''parameter ids must be lower snake_case'')) (\<lambda>_.
     rbind (get_or_raise (as_map spec) (TemplateValidationError ''parameter definition must be an object'')) (\<lambda>spec.
     rbind (reject_unknown_fields spec [''type'', ''required'', ''default'']) (\<lambda>_.
     rbind (in_str_set (getv spec ''type'') PARAMETER_TYPES) (\<lambda>known.
     rbind (ensure known (TemplateValidationError ''unsupported parameter type'')) (\<lambda>_.
     rbind (ensure (case get_or spec ''required'' (PBool False) of PBool _ \<Rightarrow> True | _ \<Rightarrow> False)
              (TemplateValidationError ''parameter required must be boolean'')) (\<lambda>_.
     case dget spec ''default'' of
       None \<Rightarrow> Inr ()
     | Some v \<Rightarrow> validate_parameter_value (py_str (getv spec ''type'')) v)))))))"

definition template_parameters :: "pmap \<Rightarrow> pmap res" where
  "template_parameters definition =
     get_or_raise (as_map (or_empty (getv definition ''parameters'') (PDict [])))
       (TemplateValidationError ''template parameters must be an object'')"

definition WORK_FIELDS :: "string list" where
  "WORK_FIELDS = [''objective'', ''inputs'', ''outputs'', ''acceptance'', ''agent'', ''tool'', ''decision'']"

definition check_agent :: "string \<Rightarrow> pval \<Rightarrow> unit res" where
  "check_agent executor agent =
     rbind (ensure (case as_map agent of None \<Rightarrow> True
             | Some m \<Rightarrow> \<not> list_ex (\<lambda>k. dget m k \<noteq> None) [''api_key'', ''base_url'', ''model''])
         (TemplateValidationError ''template agent cannot contain provider configuration'')) (\<lambda>_.
     if executor = ''agent'' then
       rbind (get_or_raise (as_map agent) (TemplateValidationError ''template agent definition is required'')) (\<lambda>m.
       reject_unknown_fields m [''kind'', ''model_role'', ''instructions'', ''result_format''])
     else ensure (agent = PNone) (TemplateValidationError ''agent definition requires agent executor''))"

definition check_tool :: "string \<Rightarrow> pval \<Rightarrow> unit res" where
  "check_tool executor tool =
     (if executor = ''tool'' then
        rbind (get_or_raise (as_map tool) (TemplateValidationError ''template tool definition is required'')) (\<lambda>m.
        reject_unknown_fields m [''kind'', ''args''])
      else ensure (tool = PNone) (TemplateValidationError ''tool definition requires tool executor''))"

definition check_decision :: "string \<Rightarrow> pval \<Rightarrow> unit res" where
  "check_decision executor decision =
     (if decision = PNone then Inr ()
      else if executor \<noteq> ''human'' then Inl (TemplateValidationError ''decision definition requires Human executor'')
      else rbind (get_or_raise (as_map decision)
              (TemplateValidationError ''decision definition requires Human executor'')) (\<lambda>m.
           reject_unknown_fields m [''kind'', ''reject_target'']))"

text \<open>One pass of the loop over the input references of a node.\<close>

definition check_reference :: "pmap \<Rightarrow> string list \<Rightarrow> pval \<Rightarrow> unit res" where
  "check_reference parameters deps ref =
     rbind (get_or_raise (as_str ref) (TemplateValidationError ''template input references must be strings'')) (\<lambda>r.
     if prefix_of ''instance_inputs.'' r then
       ensure (dget parameters (drop 16 r) \<noteq> None) (TemplateValidationError ''node references unknown parameter'')
     else if prefix_of ''dependencies.'' r then
       ensure (drop 13 r \<in> set deps) (TemplateValidationError ''node references undeclared dependency'')
     else Inl (TemplateValidationError ''unsupported template input reference''))"

definition check_inputs :: "pmap \<Rightarrow> pmap \<Rightarrow> pmap \<Rightarrow> string list res" where
  "check_inputs parameters node work =
     rbind (get_or_raise (as_seq (or_empty (getv work ''inputs'') (PTuple [])))
              (TemplateValidationError ''node inputs must be a sequence'')) (\<lambda>inputs.
     rbind (get_or_raise (as_seq (or_empty (getv node ''deps'') (PTuple [])))
              (TemplateValidationError ''node deps must be a sequence'')) (\<lambda>raw_deps.
     rbind (get_or_raise (those (map as_str raw_deps))
              (TemplateValidationError ''node deps must contain strings'')) (\<lambda>deps.
     rbind (foldM (\<lambda>ref _. check_reference parameters deps ref) inputs ()) (\<lambda>_. Inr deps))))"

text \<open>One pass of the loop over the nodes: the node with its role as a placeholder owner.\<close>

definition template_node :: "pmap \<Rightarrow> pval \<Rightarrow> node_spec res" where
  "template_node parameters raw =
     rbind (get_or_raise (as_map raw) (TemplateValidationError ''template nodes must be objects'')) (\<lambda>node.
     rbind (reject_unknown_fields node [''id'', ''title'', ''owner_role'', ''executor'', ''deps'', ''work'']) (\<lambda>_.
     rbind (ensure (dget node ''owner_person_id'' = None)
              (TemplateValidationError ''templates cannot contain owner_person_id'')) (\<lambda>_.
     rbind (template_text (getv node ''id'')) (\<lambda>key.
     rbind (template_text (getv node ''title'')) (\<lambda>title.
     rbind (template_text (getv node ''owner_role'')) (\<lambda>role.
     rbind (ensure (snake_case role) (TemplateValidationError ''node owner_role must be lower snake_case'')) (\<lambda>_.
     rbind (get_or_raise (as_map (or_empty (getv node ''work'') (PDict [])))
              (TemplateValidationError ''node work must be an object'')) (\<lambda>work.
     rbind (reject_unknown_fields work WORK_FIELDS) (\<lambda>_.
     rbind (template_text (getv node ''executor'')) (\<lambda>executor.
     rbind (check_agent executor (getv work ''agent'')) (\<lambda>_.
     rbind (check_tool executor (getv work ''tool'')) (\<lambda>_.
     rbind (check_decision executor (getv work ''decision'')) (\<lambda>_.
     rbind (check_inputs parameters node work) (\<lambda>deps.
     case to_executor (PStr executor) of
       Inl _ \<Rightarrow> Inl (TemplateValidationError ''not a valid ExecutorKind'')
     | Inr kind \<Rightarrow> Inr (mk_node_spec key title (''role:'' @ role) kind deps work)))))))))))))))"

fun as_template_error :: "'a res \<Rightarrow> 'a res" where
  "as_template_error (Inl (GraphValidationError m)) = Inl (TemplateValidationError m)"
| "as_template_error r = r"

definition validate_template_definition :: "pmap \<Rightarrow> unit res" where
  "validate_template_definition definition =
     rbind (template_parameters definition) (\<lambda>parameters.
     rbind (foldM (\<lambda>p _. validate_parameter p) parameters ()) (\<lambda>_.
     rbind (ensure (non_empty_sequence (getv definition ''nodes''))
              (TemplateValidationError ''template must contain at least one node'')) (\<lambda>_.
     rbind (iter_items (getv definition ''nodes'')) (\<lambda>nodes.
     rbind (mapM (template_node parameters) nodes) (\<lambda>specs.
     as_template_error (validate_snapshot (mk_snapshot specs [] None False [] ''0.2'')))))))"

section \<open>Parsing a template document\<close>

record parsed_template =
  pt_template_id :: string
  pt_name :: string
  pt_version :: int
  pt_locked :: bool
  pt_definition :: pmap
  pt_content_hash :: string

definition check_version_number :: "pval \<Rightarrow> int option \<Rightarrow> int res" where
  "check_version_number raw expected = (case raw of
     PInt n \<Rightarrow>
       rbind (ensure (1 \<le> n) (TemplateValidationError ''template.version must be a positive integer'')) (\<lambda>_.
       rbind (ensure (expected \<in> {None, Some n}) (TemplateValidationError ''template.version must be the next'')) (\<lambda>_.
       Inr n))
   | _ \<Rightarrow> Inl (TemplateValidationError ''template.version must be a positive integer''))"

definition parsed_definition :: "string \<Rightarrow> pmap \<Rightarrow> pmap" where
  "parsed_definition goal document =
     [(''goal'', PStr goal),
      (''parameters'', to_json_value (or_empty (getv document ''parameters'') (PDict []))),
      (''nodes'', to_json_value (or_empty (getv document ''nodes'') (PTuple [])))]"

definition content_hash_of :: "bool \<Rightarrow> pmap \<Rightarrow> string res" where
  "content_hash_of locked definition =
     (case json_text True (PDict [(''locked'', PBool locked), (''definition'', PDict definition)]) of
        None \<Rightarrow> Inl (TypeError ''object is not JSON serializable'')
      | Some canonical \<Rightarrow> Inr (sha256_hex (utf8_encode canonical)))"

definition parse_metadata :: "pmap \<Rightarrow> string option \<Rightarrow> int option \<Rightarrow> (string \<times> string \<times> int \<times> bool) res" where
  "parse_metadata metadata expected_id expected_version =
     rbind (reject_unknown_fields metadata [''id'', ''version'', ''name'', ''status'', ''locked'']) (\<lambda>_.
     rbind (template_text (getv metadata ''id'')) (\<lambda>tid.
     rbind (ensure (snake_case tid) (TemplateValidationError ''template.id must be lower snake_case'')) (\<lambda>_.
     rbind (ensure (expected_id \<in> {None, Some tid})
              (TemplateValidationError ''template.id does not match the target template'')) (\<lambda>_.
     rbind (template_text (getv metadata ''name'')) (\<lambda>name.
     rbind (check_version_number (getv metadata ''version'') expected_version) (\<lambda>version.
     rbind (ensure (getv metadata ''status'' = PStr ''draft'')
              (TemplateValidationError ''authored template status must be draft'')) (\<lambda>_.
     case get_or metadata ''locked'' (PBool False) of
       PBool locked \<Rightarrow> Inr (tid, name, version, locked)
     | _ \<Rightarrow> Inl (TemplateValidationError ''template.locked must be boolean''))))))))"

definition parse_template_document ::
    "pmap \<Rightarrow> string option \<Rightarrow> int option \<Rightarrow> parsed_template res" where
  "parse_template_document document expected_id expected_version =
     rbind (reject_unknown_fields document [''schema_version'', ''template'', ''goal'', ''parameters'', ''nodes'']) (\<lambda>_.
     rbind (ensure (py_str (get_or document ''schema_version'' (PStr [])) = ''0.2'')
              (TemplateValidationError ''unsupported template schema version'')) (\<lambda>_.
     rbind (get_or_raise (as_map (getv document ''template''))
              (TemplateValidationError ''template metadata is required'')) (\<lambda>metadata.
     rbind (parse_metadata metadata expected_id expected_version) (\<lambda>(tid, name, version, locked).
     rbind (get_or_raise (as_str (get_or document ''goal'' (PStr [])))
              (TemplateValidationError ''template goal must be text'')) (\<lambda>goal.
     let definition = parsed_definition goal document in
     rbind (validate_template_definition definition) (\<lambda>_.
     rbind (content_hash_of locked definition) (\<lambda>hash.
     Inr \<lparr>pt_template_id = tid, pt_name = name, pt_version = version, pt_locked = locked,
          pt_definition = definition, pt_content_hash = hash\<rparr>)))))))"

section \<open>Instantiation\<close>

text \<open>One pass of the loop over the parameters: the value given, or the default, or nothing.\<close>

definition resolve_input :: "pmap \<Rightarrow> string \<times> pval \<Rightarrow> pmap \<Rightarrow> pmap res" where
  "resolve_input inputs = (\<lambda>(key, spec) resolved.
     let m = (case as_map spec of None \<Rightarrow> [] | Some m \<Rightarrow> m);
         chosen = (case dget inputs key of
             Some v \<Rightarrow> Inr (Some v)
           | None \<Rightarrow> (case dget m ''default'' of
               Some v \<Rightarrow> Inr (Some (to_json_value v))
             | None \<Rightarrow> if truthy (get_or m ''required'' (PBool False))
                 then Inl (TemplateValidationError ''missing required template input'') else Inr None))
     in rbind chosen (\<lambda>value. case value of
          None \<Rightarrow> Inr resolved
        | Some v \<Rightarrow>
            rbind (item spec ''type'') (\<lambda>kind.
            rbind (validate_parameter_value (py_str kind) v) (\<lambda>_.
            Inr (dput key (to_json_value v) resolved)))))"

definition node_role :: "pval \<Rightarrow> string res" where
  "node_role node = rbind (item node ''owner_role'') (\<lambda>role. Inr (py_str role))"

text \<open>The roles the nodes name are exactly those bound, each to a non-blank person.\<close>

definition check_bindings :: "string list \<Rightarrow> (string, string) odict \<Rightarrow> unit res" where
  "check_bindings roles bindings =
     rbind (ensure (set (dkeys bindings) \<subseteq> set roles) (TemplateValidationError ''unknown owner bindings'')) (\<lambda>_.
     rbind (ensure (set roles \<subseteq> set (dkeys bindings)) (TemplateValidationError ''missing owner bindings'')) (\<lambda>_.
     foldM (\<lambda>(_, person) _. rbind (template_text (PStr person)) (\<lambda>_. Inr ())) bindings ()))"

definition bound_node :: "(string, string) odict \<Rightarrow> pval \<Rightarrow> node_spec res" where
  "bound_node bindings node =
     rbind (item node ''id'') (\<lambda>key.
     rbind (item node ''title'') (\<lambda>title.
     rbind (node_role node) (\<lambda>role.
     rbind (get_or_raise (dget bindings role) (KeyError role)) (\<lambda>owner.
     rbind (item node ''executor'') (\<lambda>executor.
     let m = (case as_map node of None \<Rightarrow> [] | Some m \<Rightarrow> m) in
     rbind (if truthy (getv m ''deps'') then rbind (iter_items (getv m ''deps'')) (mapM as_string_item) else Inr []) (\<lambda>deps.
     rbind (or_empty_map (to_json_value (getv m ''work''))) (\<lambda>work.
     rbind (to_executor (PStr (py_str executor))) (\<lambda>kind.
     Inr (mk_node_spec (py_str key) (py_str title) owner kind deps work)))))))))"

definition instantiate_template_version ::
    "workflow_template_version \<Rightarrow> pmap \<Rightarrow> (string, string) odict \<Rightarrow> instance_snapshot res" where
  "instantiate_template_version v inputs bindings =
     rbind (validate_template_definition (tv_definition v)) (\<lambda>_.
     rbind (template_parameters (tv_definition v)) (\<lambda>parameters.
     rbind (ensure (set (dkeys inputs) \<subseteq> set (dkeys parameters)) (TemplateValidationError ''unknown template inputs'')) (\<lambda>_.
     rbind (foldM (resolve_input inputs) parameters []) (\<lambda>resolved.
     rbind (get_or_raise (dget (tv_definition v) ''nodes'') (KeyError ''nodes'')) (\<lambda>raw.
     rbind (iter_items raw) (\<lambda>nodes.
     rbind (mapM node_role nodes) (\<lambda>roles.
     rbind (check_bindings roles bindings) (\<lambda>_.
     rbind (mapM (bound_node bindings) nodes) (\<lambda>specs.
     let snapshot = mk_snapshot specs (py_str (get_or (tv_definition v) ''goal'' (PStr []))) (Some (tv_id v))
           (tv_locked v) resolved (tv_schema_version v) in
     rbind (validate_snapshot snapshot) (\<lambda>_. Inr snapshot))))))))))"

section \<open>One-off definitions\<close>

definition inline_parameter_type :: "pval \<Rightarrow> string res" where
  "inline_parameter_type v = (case v of
     PBool _ \<Rightarrow> Inr ''boolean''
   | PInt _ \<Rightarrow> Inr ''integer''
   | PFloat _ \<Rightarrow> Inr ''number''
   | PStr _ \<Rightarrow> Inr ''text''
   | _ \<Rightarrow> if as_map v \<noteq> None then Inr ''object''
       else if as_seq v \<noteq> None then Inr ''array''
       else Inl (TemplateValidationError ''inline workflow input has an unsupported JSON value''))"

definition inline_input :: "string \<times> pval \<Rightarrow> pmap \<times> pmap \<Rightarrow> (pmap \<times> pmap) res" where
  "inline_input = (\<lambda>(key, value) (parameters, resolved).
     rbind (ensure (snake_case key) (TemplateValidationError ''inline workflow input ids must be lower snake_case'')) (\<lambda>_.
     rbind (inline_parameter_type value) (\<lambda>kind.
     Inr (dput key (PDict [(''type'', PStr kind), (''required'', PBool True)]) parameters,
          dput key (to_json_value value) resolved))))"

text \<open>\<open>node.get("work", {}).get("agent")\<close>, and the refusal of personal agents.\<close>

definition check_inline_agent :: "pval \<Rightarrow> unit res" where
  "check_inline_agent node =
     rbind (get_or_raise (as_map node) (AttributeError ''get'')) (\<lambda>m.
     rbind (get_or_raise (as_map (get_or m ''work'' (PDict []))) (AttributeError ''get'')) (\<lambda>work.
     ensure (case as_map (getv work ''agent'') of None \<Rightarrow> True | Some agent \<Rightarrow> getv agent ''kind'' \<noteq> PStr ''personal.readonly'')
       (TemplateValidationError ''inline workflows cannot request Personal Agent Edge capabilities'')))"

definition parse_inline_definition :: "pmap \<Rightarrow> (pmap \<times> pmap) res" where
  "parse_inline_definition document =
     rbind (reject_unknown_fields document [''schema_version'', ''goal'', ''inputs'', ''nodes'']) (\<lambda>_.
     rbind (ensure (py_str (get_or document ''schema_version'' (PStr ''0.2'')) = ''0.2'')
              (TemplateValidationError ''unsupported inline workflow schema version'')) (\<lambda>_.
     rbind (template_text (getv document ''goal'')) (\<lambda>goal.
     rbind (get_or_raise (as_map (or_empty (getv document ''inputs'') (PDict [])))
              (TemplateValidationError ''inline workflow inputs must be an object'')) (\<lambda>inputs.
     rbind (get_or_raise (as_seq (getv document ''nodes''))
              (TemplateValidationError ''inline workflow must contain at least one node'')) (\<lambda>nodes.
     rbind (ensure (nodes \<noteq> []) (TemplateValidationError ''inline workflow must contain at least one node'')) (\<lambda>_.
     rbind (ensure (length nodes \<le> MAX_INLINE_NODES) (TemplateValidationError ''inline workflow exceeds 100 nodes'')) (\<lambda>_.
     rbind (foldM inline_input inputs ([], [])) (\<lambda>(parameters, resolved).
     let nodes = map to_json_value nodes;
         definition = [(''goal'', PStr goal), (''parameters'', PDict parameters), (''nodes'', PList nodes)] in
     rbind (validate_template_definition definition) (\<lambda>_.
     rbind (foldM (\<lambda>node _. check_inline_agent node) nodes ()) (\<lambda>_.
     Inr (definition, resolved)))))))))))"

definition inline_nodes :: "pmap \<Rightarrow> pval list res" where
  "inline_nodes definition =
     rbind (get_or_raise (dget definition ''nodes'') (KeyError ''nodes'')) iter_items"

definition inline_owner_roles :: "pmap \<Rightarrow> string list res" where
  "inline_owner_roles document =
     rbind (parse_inline_definition document) (\<lambda>(definition, _).
     rbind (inline_nodes definition) (\<lambda>nodes.
     rbind (mapM node_role nodes) (\<lambda>roles. Inr (sort (remdups roles)))))"

definition instantiate_inline_definition :: "pmap \<Rightarrow> (string, string) odict \<Rightarrow> instance_snapshot res" where
  "instantiate_inline_definition document bindings =
     rbind (parse_inline_definition document) (\<lambda>(definition, resolved).
     rbind (inline_nodes definition) (\<lambda>nodes.
     rbind (mapM node_role nodes) (\<lambda>roles.
     rbind (check_bindings roles bindings) (\<lambda>_.
     rbind (get_or_raise (dget definition ''goal'') (KeyError ''goal'')) (\<lambda>goal.
     rbind (mapM (bound_node bindings) nodes) (\<lambda>specs.
     let snapshot = mk_snapshot specs (py_str goal) None False resolved ''0.2'' in
     rbind (validate_snapshot snapshot) (\<lambda>_. Inr snapshot)))))))"

section \<open>The document of a stored version\<close>

fun template_status_value :: "template_status \<Rightarrow> string" where
  "template_status_value T_DRAFT = ''draft''"
| "template_status_value T_ENABLED = ''enabled''"
| "template_status_value T_DISABLED = ''disabled''"
| "template_status_value T_DELETED = ''deleted''"

definition template_document :: "workflow_template \<Rightarrow> workflow_template_version \<Rightarrow> pmap" where
  "template_document t v =
     [(''schema_version'', PStr (tv_schema_version v)),
      (''template'', PDict
         [(''id'', PStr (wt_id t)), (''version'', PInt (tv_version v)), (''name'', PStr (wt_name t)),
          (''status'', PStr (template_status_value (wt_status t))), (''locked'', PBool (tv_locked v))]),
      (''goal'', PStr (py_str (get_or (tv_definition v) ''goal'' (PStr [])))),
      (''parameters'', to_json_value (or_empty (getv (tv_definition v) ''parameters'') (PDict []))),
      (''nodes'', to_json_value (or_empty (getv (tv_definition v) ''nodes'') (PTuple [])))]"

section \<open>The service\<close>

text \<open>\<open>_version\<close> and \<open>_event\<close>; the id of the event and the time are drawn by the caller.\<close>

definition mk_version :: "workflow_template \<Rightarrow> parsed_template \<Rightarrow> time \<Rightarrow> workflow_template_version" where
  "mk_version t p now =
     \<lparr>tv_id = wt_id t @ '':'' @ dec_int (pt_version p), tv_tenant_id = wt_tenant_id t, tv_template_id = wt_id t,
      tv_version = pt_version p, tv_schema_version = ''0.2'', tv_locked = pt_locked p,
      tv_definition = freeze_map (pt_definition p), tv_content_hash = pt_content_hash p, tv_created_at = now\<rparr>"

definition mk_template_event ::
    "string \<Rightarrow> workflow_template \<Rightarrow> string \<Rightarrow> string \<Rightarrow> int \<Rightarrow> pmap \<Rightarrow> time \<Rightarrow> template_audit_event" where
  "mk_template_event eid t event_type actor aggregate_version payload now =
     \<lparr>te_id = eid, te_tenant_id = wt_tenant_id t, te_template_id = wt_id t, te_event_type = event_type,
      te_actor_person_id = actor, te_aggregate_version = aggregate_version, te_payload = freeze_map payload,
      te_occurred_at = now\<rparr>"

text \<open>The rest of a command after a write to the store: nothing more when the write raised.\<close>

definition after_store :: "template_store \<times> 'a res \<Rightarrow> (template_store \<Rightarrow> 'a \<Rightarrow> 'b res) \<Rightarrow> template_store \<times> 'b res" where
  "after_store x f = (case x of (s, Inl err) \<Rightarrow> (s, Inl err) | (s, Inr a) \<Rightarrow> (s, f s a))"

definition before_store :: "template_store \<Rightarrow> 'a res \<Rightarrow> ('a \<Rightarrow> template_store \<times> 'b res) \<Rightarrow> template_store \<times> 'b res" where
  "before_store s x f = (case x of Inl err \<Rightarrow> (s, Inl err) | Inr a \<Rightarrow> f a)"

definition create_template ::
    "string \<Rightarrow> time \<Rightarrow> template_store \<Rightarrow> string \<Rightarrow> string \<Rightarrow> pmap
       \<Rightarrow> template_store \<times> (workflow_template \<times> workflow_template_version) res" where
  "create_template eid now s tenant actor document =
     before_store s
       (rbind (template_text (PStr tenant)) (\<lambda>_.
        rbind (template_text (PStr actor)) (\<lambda>_. parse_template_document document None (Some 1))))
       (\<lambda>p. let t = \<lparr>wt_id = pt_template_id p, wt_tenant_id = tenant, wt_name = pt_name p, wt_status = T_DRAFT,
                    wt_version = 0, wt_created_at = now, wt_updated_at = now, wt_deleted_at = None\<rparr>;
               v = mk_version t p now;
               e = mk_template_event eid t ''template.created'' actor 0
                     [(''template_version_id'', PStr (tv_id v)), (''content_hash'', PStr (tv_content_hash v))] now
            in after_store (add_template s t v e) (\<lambda>s _.
                 rbind (get_template s tenant (wt_id t)) (\<lambda>t'.
                 rbind (get_template_version s tenant (wt_id t) (Some 1)) (\<lambda>v'. Inr (t', v')))))"

definition next_version ::
    "template_store \<Rightarrow> string \<Rightarrow> string \<Rightarrow> string \<Rightarrow> pmap \<Rightarrow> (workflow_template \<times> parsed_template) res" where
  "next_version s tenant tid actor document =
     rbind (template_text (PStr actor)) (\<lambda>_.
     rbind (get_template s tenant tid) (\<lambda>t.
     rbind (ensure (wt_status t \<in> {T_DRAFT, T_DISABLED})
              (InvalidTemplateTransitionError ''template must be draft or disabled before adding a version'')) (\<lambda>_.
     rbind (get_template_version s tenant tid None) (\<lambda>latest.
     rbind (parse_template_document document (Some tid) (Some (tv_version latest + 1))) (\<lambda>p.
     rbind (ensure (pt_name p = wt_name t) (TemplateValidationError ''template name cannot change in a version'')) (\<lambda>_.
     rbind (ensure (pt_content_hash p \<noteq> tv_content_hash latest)
              (DuplicateTemplateContentError ''new template version has the same content hash'')) (\<lambda>_.
     Inr (t, p))))))))"

definition add_version ::
    "string \<Rightarrow> time \<Rightarrow> template_store \<Rightarrow> string \<Rightarrow> string \<Rightarrow> string \<Rightarrow> pmap
       \<Rightarrow> template_store \<times> (workflow_template \<times> workflow_template_version) res" where
  "add_version eid now s tenant tid actor document =
     before_store s (next_version s tenant tid actor document) (\<lambda>(t, p).
       let v = mk_version t p now;
           e = mk_template_event eid t ''template.version_added'' actor (wt_version t + 1)
                 [(''template_version_id'', PStr (tv_id v)), (''version'', PInt (tv_version v)),
                  (''content_hash'', PStr (tv_content_hash v))] now
       in after_store (add_template_version s v (wt_version t) now e) (\<lambda>s updated.
            rbind (get_template_version s tenant tid (Some (tv_version v))) (\<lambda>v'. Inr (updated, v'))))"

definition set_status ::
    "string \<Rightarrow> time \<Rightarrow> template_store \<Rightarrow> workflow_template \<Rightarrow> template_status \<Rightarrow> string \<Rightarrow> pmap
       \<Rightarrow> template_store \<times> workflow_template res" where
  "set_status eid now s t status actor payload =
     before_store s (template_text (PStr actor)) (\<lambda>_.
       set_template_status s (wt_tenant_id t) (wt_id t) (wt_version t) status now
         (if status = T_DELETED then Some now else None)
         (mk_template_event eid t (''template.'' @ template_status_value status) actor (wt_version t + 1) payload now))"

definition enable ::
    "string \<Rightarrow> time \<Rightarrow> template_store \<Rightarrow> string \<Rightarrow> string \<Rightarrow> string \<Rightarrow> template_store \<times> workflow_template res" where
  "enable eid now s tenant tid actor =
     before_store s
       (rbind (get_template s tenant tid) (\<lambda>t.
        rbind (ensure (wt_status t \<in> {T_DRAFT, T_DISABLED})
                 (InvalidTemplateTransitionError ''template cannot be enabled'')) (\<lambda>_.
        rbind (get_template_version s tenant tid None) (\<lambda>latest.
        rbind (validate_template_definition (tv_definition latest)) (\<lambda>_. Inr (t, latest))))))
       (\<lambda>(t, latest). set_status eid now s t T_ENABLED actor [(''active_template_version_id'', PStr (tv_id latest))])"

definition disable ::
    "string \<Rightarrow> time \<Rightarrow> template_store \<Rightarrow> string \<Rightarrow> string \<Rightarrow> string \<Rightarrow> template_store \<times> workflow_template res" where
  "disable eid now s tenant tid actor =
     before_store s
       (rbind (get_template s tenant tid) (\<lambda>t.
        rbind (ensure (wt_status t = T_ENABLED)
                 (InvalidTemplateTransitionError ''template cannot be disabled'')) (\<lambda>_. Inr t)))
       (\<lambda>t. set_status eid now s t T_DISABLED actor [])"

definition delete ::
    "string \<Rightarrow> time \<Rightarrow> template_store \<Rightarrow> string \<Rightarrow> string \<Rightarrow> string \<Rightarrow> template_store \<times> workflow_template res" where
  "delete eid now s tenant tid actor =
     before_store s
       (rbind (get_template s tenant tid) (\<lambda>t.
        rbind (ensure (wt_status t \<in> {T_DRAFT, T_DISABLED})
                 (InvalidTemplateTransitionError ''enabled templates must be disabled before deletion'')) (\<lambda>_. Inr t)))
       (\<lambda>t. set_status eid now s t T_DELETED actor [])"

definition instantiate ::
    "template_store \<Rightarrow> string \<Rightarrow> string \<Rightarrow> pmap \<Rightarrow> (string, string) odict \<Rightarrow> instance_snapshot res" where
  "instantiate s tenant tid inputs bindings =
     rbind (get_template s tenant tid) (\<lambda>t.
     rbind (ensure (wt_status t = T_ENABLED) (InvalidTemplateTransitionError ''template is not enabled'')) (\<lambda>_.
     rbind (get_template_version s tenant tid None) (\<lambda>v.
     instantiate_template_version v inputs bindings)))"

end
