(* ===== verification/Template_Theorems.thy ===== *)
theory Template_Theorems
  imports Template_Service
begin

text \<open>
  What \<open>Template_Service\<close> guarantees: the validation of a definition decides whether it can be
  instantiated, an exported document parses back to the same version, and the invariant of the
  service, under which every enabled template has a valid latest version.
\<close>

section \<open>The validator does not look at the owners\<close>

definition shape :: "node_spec \<Rightarrow> node_spec" where
  "shape n = n\<lparr>ns_owner_person_id := []\<rparr>"

lemma shape_fields [simp]:
  "ns_key (shape n) = ns_key n" "ns_title (shape n) = ns_title n" "ns_executor (shape n) = ns_executor n"
  "ns_deps (shape n) = ns_deps n" "ns_work (shape n) = ns_work n"
  by (simp_all add: shape_def)

lemma shape_eq_fields:
  assumes "shape n = shape n'"
  shows "ns_key n = ns_key n'" "ns_title n = ns_title n'" "ns_executor n = ns_executor n'"
    "ns_deps n = ns_deps n'" "ns_work n = ns_work n'"
  using arg_cong [OF assms, of ns_key] arg_cong [OF assms, of ns_title] arg_cong [OF assms, of ns_executor]
    arg_cong [OF assms, of ns_deps] arg_cong [OF assms, of ns_work] by simp_all

lemma map_shape: "map shape ns = map shape ns' \<Longrightarrow> (\<And>n. f (shape n) = f n) \<Longrightarrow> map f ns = map f ns'"
proof -
  assume eq: "map shape ns = map shape ns'" and f: "\<And>n. f (shape n) = f n"
  have "map f ns = map f (map shape ns)" using f by simp
  also have "\<dots> = map f (map shape ns')" by (simp only: eq)
  also have "\<dots> = map f ns'" using f by simp
  finally show ?thesis .
qed

lemma kahn_loop_cong:
  assumes "order_index s = order_index s'" and "\<And>k. children s k = children s' k"
  shows "kahn_loop s d r ks = kahn_loop s' d r ks"
  using assms
proof (induction s d r ks rule: kahn_loop.induct)
  case (1 s d r ks)
  show ?case
  proof (cases r)
    case Nil
    then show ?thesis by (subst (1 2) kahn_loop.simps) simp
  next
    case (Cons key rest)
    let ?st = "relax_children (order_index s) (sort_key (order_index s) (children s key)) (d, rest)"
    have "kahn_loop s (fst ?st) (snd ?st) (ks @ [key]) = kahn_loop s' (fst ?st) (snd ?st) (ks @ [key])"
      by (rule "1.IH" [OF Cons refl "1.prems"])
    then show ?thesis using "1.prems" Cons by (subst (1 2) kahn_loop.simps) (simp add: Let_def)
  qed
qed

lemma same_shape_order:
  assumes eq: "map shape (sn_nodes s) = map shape (sn_nodes s')"
  shows "topological_order s = topological_order s'"
proof -
  have len: "length (sn_nodes s) = length (sn_nodes s')" using arg_cong [OF eq, of length] by simp
  have keys: "snapshot_keys s = snapshot_keys s'" by (rule map_shape [OF eq]) simp
  have idx: "order_index s = order_index s'" by (rule ext) (simp only: order_index_def keys len)
  have ch: "children s k = children s' k" for k
    unfolding children_def by (rule arg_cong [OF map_shape [OF eq]]) simp
  have "map (\<lambda>n. (ns_key n, int (length (ns_deps n)))) (sn_nodes s) =
      map (\<lambda>n. (ns_key n, int (length (ns_deps n)))) (sn_nodes s')" by (rule map_shape [OF eq]) simp
  moreover have "initial_indegree t = foldl (\<lambda>d p. dput (fst p) (snd p) d) []
      (map (\<lambda>n. (ns_key n, int (length (ns_deps n)))) (sn_nodes t))" for t
    by (simp add: initial_indegree_def foldl_map)
  ultimately have deg: "initial_indegree s = initial_indegree s'" by (simp only:)
  show ?thesis
    unfolding topological_order_def idx deg len kahn_loop_cong [OF idx ch] ..
qed

lemma same_shape_node:
  assumes "shape n = shape n'" and "\<not> blank (ns_owner_person_id n)" and "\<not> blank (ns_owner_person_id n')"
  shows "validate_node known n = validate_node known n'"
  unfolding validate_node_def shape_eq_fields [OF assms(1)] using assms(2,3) by simp

lemma same_shape_nodes:
  assumes "map shape ns = map shape ns'"
    and "\<forall>n \<in> set ns \<union> set ns'. \<not> blank (ns_owner_person_id n)"
  shows "foldM (\<lambda>n _. validate_node known n) ns () = foldM (\<lambda>n _. validate_node known n) ns' ()"
  using assms
proof (induction ns arbitrary: ns')
  case (Cons n ns)
  then obtain m ms where ns': "ns' = m # ms" "shape n = shape m" "map shape ns = map shape ms" by auto
  have "validate_node known n = validate_node known m"
    by (rule same_shape_node [OF ns'(2)]) (use Cons.prems(2) ns'(1) in auto)
  moreover have "foldM (\<lambda>n _. validate_node known n) ns () = foldM (\<lambda>n _. validate_node known n) ms ()"
    by (rule Cons.IH [OF ns'(3)]) (use Cons.prems(2) ns'(1) in auto)
  ultimately show ?case unfolding ns'(1) by (cases "validate_node known m") auto
qed simp

lemma validate_snapshot_owners:
  assumes eq: "map shape (sn_nodes s) = map shape (sn_nodes s')" and "sn_schema_version s = sn_schema_version s'"
    and "\<forall>n \<in> set (sn_nodes s) \<union> set (sn_nodes s'). \<not> blank (ns_owner_person_id n)"
  shows "validate_snapshot s = validate_snapshot s'"
proof -
  have keys: "snapshot_keys s = snapshot_keys s'" by (rule map_shape [OF eq]) simp
  have "sn_nodes s = [] \<longleftrightarrow> sn_nodes s' = []" using arg_cong [OF eq, of length] by auto
  then show ?thesis
    unfolding validate_snapshot_def keys same_shape_order [OF eq] same_shape_nodes [OF eq assms(3)] assms(2)
    by (simp only:)
qed

section \<open>Frozen JSON values\<close>

lemma truthy_json [simp]: "truthy (to_json_value v) = truthy v" "truthy (freeze v) = truthy v"
  by (cases v; simp)+

lemma json_freeze_json [simp]: "to_json_value (freeze (to_json_value v)) = to_json_value v"
proof (induction v)
  case (PDict m)
  then have "map_prod id (to_json_value \<circ> (freeze \<circ> to_json_value)) p = map_prod id to_json_value p" if "p \<in> set m" for p
    using that by (cases p) (auto simp: snds.simps)
  then show ?case by (simp add: prod.map_comp map_prod.comp)
next
  case (PFrozen m)
  then have "map_prod id (to_json_value \<circ> (freeze \<circ> to_json_value)) p = map_prod id to_json_value p" if "p \<in> set m" for p
    using that by (cases p) (auto simp: snds.simps)
  then show ?case by (simp add: prod.map_comp map_prod.comp)
qed auto

lemma to_json_idem [simp]: "to_json_value (to_json_value v) = to_json_value v"
proof (induction v)
  case (PDict m)
  then have "map_prod id (to_json_value \<circ> to_json_value) p = map_prod id to_json_value p" if "p \<in> set m" for p
    using that by (cases p) (auto simp: snds.simps)
  then show ?case by (simp add: prod.map_comp map_prod.comp)
next
  case (PFrozen m)
  then have "map_prod id (to_json_value \<circ> to_json_value) p = map_prod id to_json_value p" if "p \<in> set m" for p
    using that by (cases p) (auto simp: snds.simps)
  then show ?case by (simp add: prod.map_comp map_prod.comp)
qed auto

lemma json_clean_frozen: "json_clean v \<Longrightarrow> frozen v"
  by (induction v rule: json_clean.induct) auto

lemma json_clean_map_frozen: "json_clean_map m \<Longrightarrow> freeze_map m = m"
  using json_clean_frozen [of "PFrozen m"] freeze_frozen_id
  by (auto simp: json_clean_map_def list_all_iff freeze_map_def intro!: map_idI)

lemma json_clean_getv: "json_clean_map m \<Longrightarrow> json_clean (getv m k)"
  by (induction m) (auto simp: get_or_def json_clean_map_def split: option.splits)

lemma json_clean_as_map: "json_clean v \<Longrightarrow> as_map v = Some m \<Longrightarrow> v = PFrozen m \<and> json_clean_map m"
  by (cases v) (auto simp: json_clean_map_def list_all_iff)

lemma json_clean_as_seq: "json_clean v \<Longrightarrow> as_seq v = Some xs \<Longrightarrow> v = PTuple xs \<and> (\<forall>x \<in> set xs. json_clean x)"
  by (cases v) auto

lemma matches_json: "parameter_matches kind v \<Longrightarrow> parameter_matches kind (to_json_value v)"
  by (cases v) (simp_all add: parameter_matches_def split: if_splits)

section \<open>From the validated to the instantiated node\<close>

text \<open>The texts of a node have no surrounding white space, which the instantiation would keep.\<close>

definition trimmed_text :: "pmap \<Rightarrow> string \<Rightarrow> bool" where
  "trimmed_text m k = (case getv m k of PStr s \<Rightarrow> py_strip s = s | _ \<Rightarrow> True)"

definition trimmed_node :: "pval \<Rightarrow> bool" where
  "trimmed_node node = (case as_map node of None \<Rightarrow> True
     | Some m \<Rightarrow> list_all (trimmed_text m) [''id'', ''title'', ''owner_role'', ''executor''])"

lemma template_text_Inr: "template_text v = Inr t \<longleftrightarrow> (\<exists>s. v = PStr s \<and> \<not> blank s \<and> t = py_strip s)"
  by (auto simp: template_text_def split: option.splits)

lemma trimmed_template_text:
  assumes "template_text (getv m k) = Inr t" and "trimmed_text m k"
  shows "dget m k = Some (PStr t) \<and> \<not> blank t"
  using assms by (auto simp: template_text_Inr trimmed_text_def get_or_def split: option.splits)

lemma those_as_str: "those (map as_str xs) = Some ss \<Longrightarrow> mapM as_string_item xs = Inr ss"
  by (induction xs arbitrary: ss) (auto simp: as_string_item_def split: option.splits)

lemma deps_agree:
  assumes "as_seq (or_empty v (PTuple [])) = Some raw" and "those (map as_str raw) = Some deps"
  shows "(if truthy v then rbind (iter_items v) (mapM as_string_item) else Inr []) = Inr deps"
proof (cases "truthy v")
  case True
  with assms(1) have "as_seq v = Some raw" by (simp add: or_empty_def)
  then have "iter_items v = Inr raw" by (cases v) simp_all
  with True those_as_str [OF assms(2)] show ?thesis by simp
next
  case False
  with assms show ?thesis by (simp add: or_empty_def)
qed

lemma work_agrees:
  assumes "as_map (or_empty v (PDict [])) = Some work" and "json_clean v"
  shows "\<exists>m. or_empty_map (to_json_value v) = Inr m \<and> freeze_map m = work \<and> freeze_map work = work"
proof (cases "truthy v")
  case True
  with assms have v: "v = PFrozen work" "json_clean_map work"
    using json_clean_as_map [of v work] by (simp_all add: or_empty_def)
  then show ?thesis using True freeze_to_json_map json_clean_map_frozen
    by (intro exI [of _ "to_json_map work"]) (simp add: or_empty_map_def to_json_map_def)
next
  case False
  with assms(1) show ?thesis by (simp add: or_empty_def or_empty_map_def freeze_map_def)
qed

lemma template_nodeE:
  assumes "template_node parameters raw = Inr spec"
  obtains m key title role work executor deps kind where
    "as_map raw = Some m" "template_text (getv m ''id'') = Inr key" "template_text (getv m ''title'') = Inr title"
    "template_text (getv m ''owner_role'') = Inr role" "snake_case role"
    "as_map (or_empty (getv m ''work'') (PDict [])) = Some work"
    "template_text (getv m ''executor'') = Inr executor" "check_inputs parameters m work = Inr deps"
    "to_executor (PStr executor) = Inr kind" "spec = mk_node_spec key title (''role:'' @ role) kind deps work"
  using assms unfolding template_node_def
  by (elim rbindE) (auto simp: result_simps split: sum.splits intro: that)

lemma check_inputsE:
  assumes "check_inputs parameters m work = Inr deps"
  obtains raw where "as_seq (or_empty (getv m ''deps'') (PTuple [])) = Some raw" "those (map as_str raw) = Some deps"
  using assms unfolding check_inputs_def by (elim rbindE) (auto simp: result_simps intro: that)

text \<open>The role of a validated node, and the node that instantiation makes of it.\<close>

lemma bound_node_ok:
  assumes spec: "template_node parameters raw = Inr spec" and clean: "json_clean raw" and trim: "trimmed_node raw"
  obtains role where "node_role raw = Inr role" "ns_owner_person_id spec = ''role:'' @ role"
    "\<And>(bindings :: (string, string) odict) owner. dget bindings role = Some owner \<Longrightarrow>
       bound_node bindings raw = Inr (spec\<lparr>ns_owner_person_id := owner\<rparr>)"
proof -
  obtain m key title role work executor deps kind where
    m: "as_map raw = Some m" and t: "template_text (getv m ''id'') = Inr key" "template_text (getv m ''title'') = Inr title"
      "template_text (getv m ''owner_role'') = Inr role"
    and w: "as_map (or_empty (getv m ''work'') (PDict [])) = Some work"
    and e: "template_text (getv m ''executor'') = Inr executor" and ci: "check_inputs parameters m work = Inr deps"
    and k: "to_executor (PStr executor) = Inr kind" and s: "spec = mk_node_spec key title (''role:'' @ role) kind deps work"
    using spec by (rule template_nodeE)
  have trims: "trimmed_text m ''id''" "trimmed_text m ''title''" "trimmed_text m ''owner_role''" "trimmed_text m ''executor''"
    using trim m by (simp_all add: trimmed_node_def)
  have d: "dget m ''id'' = Some (PStr key)" "dget m ''title'' = Some (PStr title)"
    "dget m ''owner_role'' = Some (PStr role)" "dget m ''executor'' = Some (PStr executor)"
    using trimmed_template_text t e trims by blast+
  note it = d [THEN get_or_raise_Inr_iff [THEN iffD2]]
  have role: "node_role raw = Inr role" unfolding node_role_def item_def m by (simp only: option.case it rbind.simps py_str_PStr)
  obtain xs where xs: "as_seq (or_empty (getv m ''deps'') (PTuple [])) = Some xs" "those (map as_str xs) = Some deps"
    using ci by (rule check_inputsE)
  have "json_clean_map m" using json_clean_as_map [OF clean m] by simp
  from work_agrees [OF w json_clean_getv [OF this]] obtain j where
    j: "or_empty_map (to_json_value (getv m ''work'')) = Inr j" "freeze_map j = work" "freeze_map work = work" by blast
  show thesis
  proof (rule that [OF role])
    show "ns_owner_person_id spec = ''role:'' @ role" unfolding s mk_node_spec_def by simp
    fix bindings :: "(string, string) odict" and owner assume b: "dget bindings role = Some owner"
    show "bound_node bindings raw = Inr (spec\<lparr>ns_owner_person_id := owner\<rparr>)"
      unfolding bound_node_def role unfolding item_def m
      by (simp only: option.case it rbind.simps py_str_PStr Let_def deps_agree [OF xs] j(1) k
          b [THEN get_or_raise_Inr_iff [THEN iffD2]]) (simp add: s mk_node_spec_def j(2,3))
  qed
qed

lemma bound_nodes_ok:
  assumes "mapM (template_node parameters) raws = Inr specs" and "\<forall>raw \<in> set raws. json_clean raw \<and> trimmed_node raw"
  obtains roles where "mapM node_role raws = Inr roles"
    "\<And>(bindings :: (string, string) odict). set roles \<subseteq> set (dkeys bindings) \<Longrightarrow> \<exists>nodes. mapM (bound_node bindings) raws = Inr nodes \<and>
       map shape nodes = map shape specs \<and> (\<forall>n \<in> set nodes. \<exists>role. dget bindings role = Some (ns_owner_person_id n))"
proof -
  have "\<exists>roles. mapM node_role raws = Inr roles \<and> (\<forall>bindings. set roles \<subseteq> set (dkeys bindings) \<longrightarrow>
     (\<exists>nodes. mapM (bound_node bindings) raws = Inr nodes \<and>
       map shape nodes = map shape specs \<and> (\<forall>n \<in> set nodes. \<exists>role. dget bindings role = Some (ns_owner_person_id n))))"
    using assms
  proof (induction raws arbitrary: specs)
    case (Cons raw raws)
    then obtain spec rest where spec: "template_node parameters raw = Inr spec"
      and rest: "mapM (template_node parameters) raws = Inr rest" "specs = spec # rest" by (auto simp: result_simps)
    obtain role where r: "node_role raw = Inr role" "\<And>bindings owner. dget bindings role = Some owner \<Longrightarrow>
       bound_node bindings raw = Inr (spec\<lparr>ns_owner_person_id := owner\<rparr>)"
      using bound_node_ok [OF spec] Cons.prems(2) by (metis list.set_intros(1))
    from Cons.IH [OF rest(1)] Cons.prems(2) obtain roles where roles: "mapM node_role raws = Inr roles"
      and b: "\<And>bindings. set roles \<subseteq> set (dkeys bindings) \<Longrightarrow> \<exists>nodes. mapM (bound_node bindings) raws = Inr nodes \<and>
       map shape nodes = map shape rest \<and> (\<forall>n \<in> set nodes. \<exists>role. dget bindings role = Some (ns_owner_person_id n))"
      by auto
    have "\<exists>nodes. mapM (bound_node bindings) (raw # raws) = Inr nodes \<and>
       map shape nodes = map shape specs \<and> (\<forall>n \<in> set nodes. \<exists>role. dget bindings role = Some (ns_owner_person_id n))"
      if sub: "set (role # roles) \<subseteq> set (dkeys bindings)" for bindings
    proof -
      from sub obtain owner where owner: "dget bindings role = Some owner" using in_dkeys_dget [of role bindings] by auto
      from b sub obtain nodes where nodes: "mapM (bound_node bindings) raws = Inr nodes"
        "map shape nodes = map shape rest" "\<forall>n \<in> set nodes. \<exists>role. dget bindings role = Some (ns_owner_person_id n)"
        by (meson set_subset_Cons subset_trans)
      have "shape (spec\<lparr>ns_owner_person_id := owner\<rparr>) = shape spec" by (simp add: shape_def)
      then show ?thesis using r(2) [OF owner] nodes owner rest(2)
        by (intro exI [of _ "spec\<lparr>ns_owner_person_id := owner\<rparr> # nodes"]) auto
    qed
    moreover have "mapM node_role (raw # raws) = Inr (role # roles)" using r(1) roles by simp
    ultimately show ?case by blast
  qed simp
  then show thesis using that by blast
qed


section \<open>A valid template is instantiated\<close>

lemma validate_definitionE:
  assumes "validate_template_definition d = Inr ()"
  obtains parameters nodes specs where
    "template_parameters d = Inr parameters" "\<forall>p \<in> set parameters. validate_parameter p = Inr ()"
    "iter_items (getv d ''nodes'') = Inr nodes" "mapM (template_node parameters) nodes = Inr specs"
    "validate_snapshot (mk_snapshot specs [] None False [] ''0.2'') = Inr ()"
proof -
  have all: "foldM (\<lambda>p _. validate_parameter p) ps () = Inr u \<Longrightarrow> \<forall>p \<in> set ps. validate_parameter p = Inr ()" for ps u
    by (induction ps) (auto simp: result_simps)
  have err: "as_template_error r = Inr u \<Longrightarrow> r = Inr u" for r :: "unit res" and u
    by (induction r rule: as_template_error.induct) auto
  show thesis
    using assms unfolding validate_template_definition_def
  proof (elim rbindE, goal_cases)
    case (1 parameters u w nodes specs)
    show thesis by (rule that [OF 1(1) all [OF 1(2)] 1(4,5) err [OF 1(6)]])
  qed
qed

lemma known_type: "in_str_set v names = Inr True \<Longrightarrow> \<exists>s \<in> set names. v = PStr s"
  by (cases v) (auto simp: in_str_set_def split: if_splits)

lemma validate_parameterE:
  assumes "validate_parameter (key, spec) = Inr ()"
  obtains m kind where "as_map spec = Some m" "dget m ''type'' = Some (PStr kind)" "snake_case key"
    "kind \<in> set PARAMETER_TYPES"
    "\<And>v. dget m ''default'' = Some v \<Longrightarrow> parameter_matches kind v"
proof -
  obtain m where m: "as_map spec = Some m" and key: "snake_case key"
    and known: "in_str_set (getv m ''type'') PARAMETER_TYPES = Inr True"
    and d: "(case dget m ''default'' of None \<Rightarrow> Inr ()
      | Some v \<Rightarrow> validate_parameter_value (py_str (getv m ''type'')) v) = Inr ()"
    using assms unfolding validate_parameter_def prod.case
    by (elim rbindE) (simp only: ensure_Inr_iff get_or_raise_Inr_iff)
  from known_type [OF known] obtain kind where kind: "getv m ''type'' = PStr kind" "kind \<in> set PARAMETER_TYPES" by blast
  have "dget m ''type'' = Some (PStr kind)"
    using kind(1) by (cases "dget m ''type''") (simp_all add: get_or_def)
  moreover have "parameter_matches kind v" if "dget m ''default'' = Some v" for v
    using d unfolding that kind(1) py_str_PStr validate_parameter_value_def by (simp add: ensure_Inr_iff)
  ultimately show thesis using m key kind(2) by (intro that)
qed

text \<open>The inputs fit: a given value has the declared type, a required one is given or has a default.\<close>

definition input_fits :: "pmap \<Rightarrow> string \<times> pval \<Rightarrow> bool" where
  "input_fits inputs = (\<lambda>(key, spec). case as_map spec of None \<Rightarrow> False
     | Some m \<Rightarrow> (case dget inputs key of
           Some v \<Rightarrow> parameter_matches (py_str (getv m ''type'')) v
         | None \<Rightarrow> dget m ''default'' \<noteq> None \<or> \<not> truthy (get_or m ''required'' (PBool False))))"

definition inputs_fit :: "pmap \<Rightarrow> pmap \<Rightarrow> bool" where
  "inputs_fit parameters inputs \<longleftrightarrow>
     set (dkeys inputs) \<subseteq> set (dkeys parameters) \<and> list_all (input_fits inputs) parameters"

lemma resolve_input_ok:
  assumes "validate_parameter p = Inr ()" and fits: "input_fits inputs p"
  shows "\<exists>r'. resolve_input inputs p r = Inr r'"
proof (cases p)
  case (Pair key spec)
  obtain m kind where m: "as_map spec = Some m" "dget m ''type'' = Some (PStr kind)"
    and d: "\<And>v. dget m ''default'' = Some v \<Longrightarrow> parameter_matches kind v"
    using assms(1) unfolding Pair by (rule validate_parameterE) blast
  have kind: "item spec ''type'' = Inr (PStr kind)"
    unfolding item_def m(1) by (simp only: option.case m(2) get_or_raise_simps)
  have t: "py_str (getv m ''type'') = kind" unfolding get_or_def m(2) by (simp only: option.case py_str_PStr)
  have put: "parameter_matches kind v \<Longrightarrow> \<exists>r'. rbind (item spec ''type'') (\<lambda>kind.
            rbind (validate_parameter_value (py_str kind) v) (\<lambda>_. Inr (dput key (to_json_value v) r))) = Inr r'" for v
    by (simp add: kind validate_parameter_value_def)
  show ?thesis
  proof (cases "dget inputs key")
    case (Some v)
    with fits m(1) t have "parameter_matches kind v" unfolding Pair input_fits_def by simp
    from put [OF this] show ?thesis unfolding Pair resolve_input_def by (simp add: m(1) Some)
  next
    case None
    show ?thesis
    proof (cases "dget m ''default''")
      case (Some v)
      from put [OF matches_json [OF d [OF Some]]] None Some show ?thesis
        unfolding Pair resolve_input_def by (simp add: m(1))
    next
      case default: None
      with fits None m(1) have "\<not> truthy (get_or m ''required'' (PBool False))" unfolding Pair input_fits_def by simp
      with default None show ?thesis unfolding Pair resolve_input_def by (simp add: m(1))
    qed
  qed
qed

lemma resolve_inputs_ok:
  assumes "\<forall>p \<in> set parameters. validate_parameter p = Inr () \<and> input_fits inputs p"
  shows "\<exists>r'. foldM (resolve_input inputs) parameters r = Inr r'"
  using assms
proof (induction parameters arbitrary: r)
  case (Cons p ps)
  then obtain r1 where "resolve_input inputs p r = Inr r1" using resolve_input_ok [of p inputs r] by auto
  with Cons show ?case by auto
qed simp

text \<open>The owners: exactly the roles of the nodes are bound, each to a person that is not blank.\<close>

definition bindings_fit :: "pmap \<Rightarrow> (string, string) odict \<Rightarrow> bool" where
  "bindings_fit d bindings \<longleftrightarrow>
     (case rbind (inline_nodes d) (mapM node_role) of Inl _ \<Rightarrow> False | Inr roles \<Rightarrow> set (dkeys bindings) = set roles) \<and>
     (\<forall>p \<in> set bindings. \<not> blank (snd p))"

lemma check_bindings_ok:
  assumes "set (dkeys bindings) = set roles" and "\<forall>p \<in> set bindings. \<not> blank (snd p)"
  shows "check_bindings roles bindings = Inr ()"
proof -
  have "foldM (\<lambda>(_, person) _. rbind (template_text (PStr person)) (\<lambda>_. Inr ())) bindings () = Inr ()"
    using assms(2) by (induction bindings) (auto simp: template_text_def)
  with assms(1) show ?thesis unfolding check_bindings_def by simp
qed

lemma role_owner_not_blank: "\<not> blank (''role:'' @ role)"
  by (simp add: blank_iff py_space_def)

text \<open>A definition as it is stored: JSON values, texts without surrounding white space.\<close>

definition stored_definition :: "pmap \<Rightarrow> bool" where
  "stored_definition d \<longleftrightarrow> json_clean_map d \<and>
     (case iter_items (getv d ''nodes'') of Inl _ \<Rightarrow> False | Inr nodes \<Rightarrow> list_all trimmed_node nodes)"

lemma json_clean_items: "json_clean v \<Longrightarrow> iter_items v = Inr xs \<Longrightarrow> x \<in> set xs \<Longrightarrow> json_clean x"
  by (cases v) auto

lemma validated_template_instantiates:
  assumes valid: "validate_template_definition (tv_definition v) = Inr ()"
    and stored: "stored_definition (tv_definition v)" and schema: "tv_schema_version v = ''0.2''"
    and parameters: "template_parameters (tv_definition v) = Inr parameters" and inputs: "inputs_fit parameters inputs"
    and bindings: "bindings_fit (tv_definition v) bindings"
  obtains s where "instantiate_template_version v inputs bindings = Inr s" "validate_snapshot s = Inr ()"
    "sn_template_version_id s = Some (tv_id v)" "\<forall>n \<in> set (sn_nodes s). ns_owner_person_id n \<in> snd ` set bindings"
proof -
  let ?d = "tv_definition v"
  obtain nodes specs where p: "\<forall>p \<in> set parameters. validate_parameter p = Inr ()"
    and nodes: "iter_items (getv ?d ''nodes'') = Inr nodes" and specs: "mapM (template_node parameters) nodes = Inr specs"
    and ok: "validate_snapshot (mk_snapshot specs [] None False [] ''0.2'') = Inr ()"
    using validate_definitionE [OF valid] parameters by (metis sum.inject(2))
  from stored have clean: "json_clean_map ?d" and trim: "list_all trimmed_node nodes"
    unfolding stored_definition_def nodes by simp_all
  have each: "\<forall>raw \<in> set nodes. json_clean raw \<and> trimmed_node raw"
    using json_clean_items [OF json_clean_getv [OF clean] nodes] trim by (simp add: list_all_iff)
  obtain roles where roles: "mapM node_role nodes = Inr roles" and
    b: "\<And>(bindings :: (string, string) odict). set roles \<subseteq> set (dkeys bindings) \<Longrightarrow>
       \<exists>nodes'. mapM (bound_node bindings) nodes = Inr nodes' \<and>
       map shape nodes' = map shape specs \<and> (\<forall>n \<in> set nodes'. \<exists>role. dget bindings role = Some (ns_owner_person_id n))"
    using bound_nodes_ok [OF specs each] by blast
  obtain raw where raw: "dget ?d ''nodes'' = Some raw" and raw_nodes: "iter_items raw = Inr nodes"
    using nodes by (cases "dget ?d ''nodes''") (simp_all add: get_or_def)
  from bindings have bound: "set (dkeys bindings) = set roles" and owners: "\<forall>p \<in> set bindings. \<not> blank (snd p)"
    unfolding bindings_fit_def inline_nodes_def raw get_or_raise_simps rbind.simps raw_nodes roles by simp_all
  from b bound obtain ns where ns: "mapM (bound_node bindings) nodes = Inr ns" "map shape ns = map shape specs"
    and own: "\<forall>n \<in> set ns. \<exists>role. dget bindings role = Some (ns_owner_person_id n)" by blast
  obtain resolved where resolved: "foldM (resolve_input inputs) parameters [] = Inr resolved"
    using resolve_inputs_ok [of parameters inputs "[]"] p inputs unfolding inputs_fit_def list_all_iff by blast
  let ?s = "mk_snapshot ns (py_str (get_or ?d ''goal'' (PStr []))) (Some (tv_id v)) (tv_locked v) resolved ''0.2''"
  have mem: "\<forall>n \<in> set ns. ns_owner_person_id n \<in> snd ` set bindings"
    using own by (force dest: map_of_SomeD)
  have not_blank: "\<forall>n \<in> set ns. \<not> blank (ns_owner_person_id n)" using mem owners by (metis imageE)
  have spec_owner: "\<not> blank (ns_owner_person_id spec)" if "spec \<in> set specs" for spec
  proof -
    from that specs obtain r where "template_node parameters r = Inr spec"
      by (auto simp: mapM_Inr_iff list_all2_conv_all_nth in_set_conv_nth)
    then show ?thesis by (rule template_nodeE) (simp add: mk_node_spec_def role_owner_not_blank del: append.simps)
  qed
  have "validate_snapshot ?s = validate_snapshot (mk_snapshot specs [] None False [] ''0.2'')"
    by (rule validate_snapshot_owners) (use ns(2) not_blank spec_owner in \<open>auto simp: mk_snapshot_def\<close>)
  then have valid_s: "validate_snapshot ?s = Inr ()" using ok by simp
  have "instantiate_template_version v inputs bindings = Inr ?s"
    unfolding instantiate_template_version_def valid parameters raw rbind.simps get_or_raise_simps raw_nodes roles
      check_bindings_ok [OF bound owners] ns(1) resolved schema Let_def valid_s
    using inputs by (simp add: inputs_fit_def)
  then show thesis by (rule that [OF _ valid_s]) (use mem in \<open>simp_all add: mk_snapshot_def\<close>)
qed


section \<open>One-off definitions\<close>

text \<open>\<open>work.agent.kind == "personal.readonly"\<close>.\<close>

definition personal_agent :: "pmap \<Rightarrow> bool" where
  "personal_agent work = (case as_map (getv work ''agent'') of None \<Rightarrow> False
     | Some agent \<Rightarrow> getv agent ''kind'' = PStr ''personal.readonly'')"

definition json_frozen :: "pval \<Rightarrow> pval" where "json_frozen v = freeze (to_json_value v)"

lemma json_frozen_eq: "map_prod (\<lambda>x. x) (\<lambda>v. freeze (to_json_value v)) = map_prod id json_frozen"
  by (rule ext) (simp add: json_frozen_def map_prod_def split: prod.split)

lemma mapM_ok_each: "mapM f xs = Inr ys \<Longrightarrow> x \<in> set xs \<Longrightarrow> \<exists>y \<in> set ys. f x = Inr y"
  by (induction xs arbitrary: ys) (auto simp: result_simps)

lemma mapM_in: "mapM f xs = Inr ys \<Longrightarrow> y \<in> set ys \<Longrightarrow> \<exists>x \<in> set xs. f x = Inr y"
  by (induction xs arbitrary: ys) (auto simp: result_simps)

lemma getv_json_frozen: "getv (map (map_prod id json_frozen) m) k = json_frozen (getv m k)"
  by (induction m) (auto simp: get_or_def json_frozen_def split: option.splits)

lemma as_map_json_frozen: "as_map (json_frozen v) = map_option (map (map_prod id json_frozen)) (as_map v)"
  by (cases v) (simp_all add: json_frozen_def prod.map_comp comp_def json_frozen_eq)

lemma json_frozen_PStr: "json_frozen v = PStr s \<longleftrightarrow> v = PStr s"
  by (cases v) (simp_all add: json_frozen_def)

lemma personal_agent_json_frozen: "personal_agent (map (map_prod id json_frozen) work) = personal_agent work"
  unfolding personal_agent_def getv_json_frozen as_map_json_frozen
  by (simp add: getv_json_frozen json_frozen_PStr split: option.split)

lemma bound_nodeE:
  assumes "bound_node bindings node = Inr n"
  obtains role m j where "node_role node = Inr role" "dget bindings role = Some (ns_owner_person_id n)" "as_map node = Some m"
    "or_empty_map (to_json_value (getv m ''work'')) = Inr j" "ns_work n = freeze_map j"
  using assms unfolding bound_node_def Let_def
proof (elim rbindE, goal_cases)
  case (1 key title role owner executor deps work kind)
  then show ?case
    by (cases "as_map node") (auto simp: item_def mk_node_spec_def get_or_raise_Inr_iff)
qed

lemma bound_node_work:
  assumes "as_map node = Some m" and "or_empty_map (to_json_value (getv m ''work'')) = Inr j"
    and "as_map (get_or m ''work'' (PDict [])) = Some work"
  shows "freeze_map j = map (map_prod id json_frozen) work"
proof (cases "dget m ''work''")
  case None
  with assms show ?thesis by (simp add: get_or_def or_empty_map_def freeze_map_def)
next
  case (Some v)
  with assms(3) have v: "as_map v = Some work" by (simp add: get_or_def)
  then have "to_json_value v = PDict (map (map_prod id to_json_value) work)" by (cases v) simp_all
  with assms(2) Some have "j = map (map_prod id to_json_value) work"
    by (auto simp: get_or_def or_empty_map_def split: if_splits)
  then show ?thesis by (simp add: freeze_map_def prod.map_comp comp_def json_frozen_eq)
qed

lemma check_inline_agentE:
  assumes "check_inline_agent node = Inr ()"
  obtains m work where "as_map node = Some m" "as_map (get_or m ''work'' (PDict [])) = Some work" "\<not> personal_agent work"
  using assms unfolding check_inline_agent_def personal_agent_def
  by (elim rbindE) (auto simp: ensure_Inr_iff get_or_raise_Inr_iff intro: that split: option.splits)

lemma parse_inlineE:
  assumes "parse_inline_definition document = Inr (d, resolved)"
  obtains goal parameters raws where "as_seq (getv document ''nodes'') = Some raws"
    "d = [(''goal'', PStr goal), (''parameters'', PDict parameters), (''nodes'', PList (map to_json_value raws))]"
    "length raws \<le> MAX_INLINE_NODES" "\<forall>node \<in> set (map to_json_value raws). check_inline_agent node = Inr ()"
    "validate_template_definition d = Inr ()"
proof -
  have all: "foldM (\<lambda>node _. check_inline_agent node) ns () = Inr u \<Longrightarrow> \<forall>node \<in> set ns. check_inline_agent node = Inr ()" for ns u
    by (induction ns) (auto simp: result_simps)
  show thesis
    using assms unfolding parse_inline_definition_def Let_def
  proof (elim rbindE, goal_cases)
    case (1 a b goal inputs nodes c e pr)
    obtain parameters r where pr: "pr = (parameters, r)" by (cases pr)
    note small = 1(7)
    have raws: "as_seq (getv document ''nodes'') = Some nodes" using 1(5) by (simp only: get_or_raise_Inr_iff)
    from 1(9) [unfolded pr prod.case] show thesis
    proof (elim rbindE, goal_cases)
      case (1 u w)
      show thesis
      proof (rule that [OF raws])
        show "d = [(''goal'', PStr goal), (''parameters'', PDict parameters), (''nodes'', PList (map to_json_value nodes))]"
          using 1(3) by simp
        show "length nodes \<le> MAX_INLINE_NODES" using small by (simp only: ensure_Inr_iff)
        show "\<forall>node \<in> set (map to_json_value nodes). check_inline_agent node = Inr ()" by (rule all [OF 1(2)])
        show "validate_template_definition d = Inr ()" using 1(1,3) by simp
      qed
    qed
  qed
qed

lemma check_bindings_keys: "check_bindings roles bindings = Inr () \<Longrightarrow> set (dkeys bindings) = set roles"
  unfolding check_bindings_def
  by (elim rbindE, rule subset_antisym) (simp_all only: ensure_Inr_iff)

lemma inline_instanceE:
  assumes "instantiate_inline_definition document bindings = Inr s"
  obtains raws roles where "as_seq (getv document ''nodes'') = Some raws"
    "mapM (bound_node bindings) (map to_json_value raws) = Inr (sn_nodes s)" "validate_snapshot s = Inr ()"
    "sn_template_version_id s = None" "\<not> sn_locked s" "length raws \<le> MAX_INLINE_NODES"
    "\<forall>node \<in> set (map to_json_value raws). check_inline_agent node = Inr ()"
    "inline_owner_roles document = Inr roles" "set roles = set (dkeys bindings)"
    "\<exists>parameters. \<forall>raw \<in> set raws. \<exists>spec. template_node parameters (to_json_value raw) = Inr spec"
proof -
  obtain d resolved where p: "parse_inline_definition document = Inr (d, resolved)"
    using assms by (auto simp: instantiate_inline_definition_def rbind_Inr_iff)
  obtain goal parameters raws where raws: "as_seq (getv document ''nodes'') = Some raws"
    and d: "d = [(''goal'', PStr goal), (''parameters'', PDict parameters), (''nodes'', PList (map to_json_value raws))]"
    and len: "length raws \<le> MAX_INLINE_NODES" and agents: "\<forall>node \<in> set (map to_json_value raws). check_inline_agent node = Inr ()"
    and valid: "validate_template_definition d = Inr ()"
    using p by (rule parse_inlineE)
  let ?nodes = "map to_json_value raws"
  have n: "inline_nodes d = Inr ?nodes" "dget d ''goal'' = Some (PStr goal)" by (simp_all add: d inline_nodes_def)
  obtain roles specs where roles: "mapM node_role ?nodes = Inr roles" and b: "check_bindings roles bindings = Inr ()"
    and specs: "mapM (bound_node bindings) ?nodes = Inr specs"
    and s: "s = mk_snapshot specs goal None False resolved ''0.2''" "validate_snapshot s = Inr ()"
    using assms unfolding instantiate_inline_definition_def p rbind.simps prod.case n Let_def get_or_raise_simps py_str_PStr
  proof (elim rbindE, goal_cases)
    case (1 roles u specs w)
    then show thesis by (intro that [of roles specs]) simp_all
  qed
  show thesis
  proof (rule that [OF raws])
    show "mapM (bound_node bindings) ?nodes = Inr (sn_nodes s)" using specs s(1) by (simp add: mk_snapshot_def)
    show "inline_owner_roles document = Inr (sort (remdups roles))" by (simp add: inline_owner_roles_def p n roles)
    show "set (sort (remdups roles)) = set (dkeys bindings)" using check_bindings_keys [OF b] by simp
    from valid obtain parameters nodes specs where "iter_items (getv d ''nodes'') = Inr nodes"
      "mapM (template_node parameters) nodes = Inr specs" by (rule validate_definitionE)
    moreover have "getv d ''nodes'' = PList ?nodes" by (simp add: d get_or_def)
    ultimately have templates: "mapM (template_node parameters) ?nodes = Inr specs" by simp
    show "\<exists>parameters. \<forall>raw \<in> set raws. \<exists>spec. template_node parameters (to_json_value raw) = Inr spec"
    proof (intro exI [of _ parameters] ballI)
      fix raw assume "raw \<in> set raws"
      then have "to_json_value raw \<in> set ?nodes" by simp
      from mapM_ok_each [OF templates this] show "\<exists>spec. template_node parameters (to_json_value raw) = Inr spec" by blast
    qed
  qed (use s len agents in \<open>simp_all add: mk_snapshot_def\<close>)
qed

lemma inline_sound:
  assumes "instantiate_inline_definition document bindings = Inr s"
  shows "validate_snapshot s = Inr ()" "sn_template_version_id s = None" "\<not> sn_locked s" "length (sn_nodes s) \<le> MAX_INLINE_NODES"
    "\<exists>roles. inline_owner_roles document = Inr roles \<and> set roles = set (dkeys bindings)"
    "\<forall>n \<in> set (sn_nodes s). \<not> personal_agent (ns_work n) \<and> ns_owner_person_id n \<in> snd ` set bindings"
proof -
  obtain raws roles where r: "mapM (bound_node bindings) (map to_json_value raws) = Inr (sn_nodes s)"
    "validate_snapshot s = Inr ()" "sn_template_version_id s = None" "\<not> sn_locked s" "length raws \<le> MAX_INLINE_NODES"
    "\<forall>node \<in> set (map to_json_value raws). check_inline_agent node = Inr ()"
    "inline_owner_roles document = Inr roles" "set roles = set (dkeys bindings)"
    using assms by (rule inline_instanceE)
  show "validate_snapshot s = Inr ()" "sn_template_version_id s = None" "\<not> sn_locked s" by (rule r)+
  show "length (sn_nodes s) \<le> MAX_INLINE_NODES" using r(5) mapM_Inr_length [OF r(1)] by simp
  show "\<exists>roles. inline_owner_roles document = Inr roles \<and> set roles = set (dkeys bindings)" using r(7,8) by blast
  show "\<forall>n \<in> set (sn_nodes s). \<not> personal_agent (ns_work n) \<and> ns_owner_person_id n \<in> snd ` set bindings"
  proof
    fix x assume "x \<in> set (sn_nodes s)"
    then obtain node where node: "node \<in> set (map to_json_value raws)" "bound_node bindings node = Inr x"
      using mapM_in [OF r(1)] by blast
    obtain role m j where x: "dget bindings role = Some (ns_owner_person_id x)" "as_map node = Some m"
      "or_empty_map (to_json_value (getv m ''work'')) = Inr j" "ns_work x = freeze_map j" using node(2) by (rule bound_nodeE)
    obtain m' work where w: "as_map node = Some m'" "as_map (get_or m' ''work'' (PDict [])) = Some work" "\<not> personal_agent work"
      using r(6) [rule_format, OF node(1)] by (rule check_inline_agentE)
    then have "ns_work x = map (map_prod id json_frozen) work" using bound_node_work [OF x(2,3)] x(2,4) by simp
    with w(3) map_of_SomeD [OF x(1)] show "\<not> personal_agent (ns_work x) \<and> ns_owner_person_id x \<in> snd ` set bindings"
      by (force simp: personal_agent_json_frozen)
  qed
qed

end
