(* ===== verification/Template_Histories.thy ===== *)
theory Template_Histories
  imports Template_Theorems
begin

text \<open>
  The template service over time: commands as steps on the store, the invariant \<open>service_inv\<close> that
  every command keeps, whether it succeeds or raises, and what follows for the stored versions.
\<close>

section \<open>What parsing leaves\<close>

lemma those_SomeD: "those xs = Some ys \<Longrightarrow> x \<in> set xs \<Longrightarrow> x \<noteq> None"
  by (induction xs arbitrary: ys) (auto split: option.splits)

lemma those_map_SomeD: "those (map f xs) \<noteq> None \<Longrightarrow> x \<in> set xs \<Longrightarrow> f x \<noteq> None"
  using those_SomeD [of "map f xs" _ "f x"] by auto

lemma json_text_items:
  assumes "json_text srt (PDict m) \<noteq> None" and "(k, v) \<in> set m"
  shows "json_text srt v \<noteq> None"
  using assms those_map_SomeD [of "\<lambda>(k, t). map_option (Pair k) t" "map (map_prod id (json_text srt)) m" "(k, json_text srt v)"]
  by (force simp: json_items_def)

lemma json_text_clean: "json_text srt (to_json_value v) \<noteq> None \<Longrightarrow> json_clean (freeze (to_json_value v))"
proof (induction v)
  case (PList xs)
  then have "json_text srt (to_json_value x) \<noteq> None" if "x \<in> set xs" for x
    using that those_map_SomeD [of "json_text srt \<circ> to_json_value" xs x] by auto
  with PList show ?case by simp
next
  case (PTuple xs)
  then have "json_text srt (to_json_value x) \<noteq> None" if "x \<in> set xs" for x
    using that those_map_SomeD [of "json_text srt \<circ> to_json_value" xs x] by auto
  with PTuple show ?case by simp
next
  case (PSet xs)
  then have "json_text srt (to_json_value x) \<noteq> None" if "x \<in> set xs" for x
    using that those_map_SomeD [of "json_text srt \<circ> to_json_value" xs x] by auto
  with PSet show ?case by simp
next
  case (PDict m)
  have "json_clean (freeze (to_json_value v))" if "(k, v) \<in> set m" for k v
  proof (rule PDict.IH [OF that])
    show "v \<in> Basic_BNFs.snds (k, v)" by (simp add: snds.simps)
    show "json_text srt (to_json_value v) \<noteq> None"
      by (rule json_text_items [of srt "map (map_prod id to_json_value) m" k])
        (use PDict.prems that in \<open>simp_all add: rev_image_eqI\<close>)
  qed
  then show ?case by auto
next
  case (PFrozen m)
  have "json_clean (freeze (to_json_value v))" if "(k, v) \<in> set m" for k v
  proof (rule PFrozen.IH [OF that])
    show "v \<in> Basic_BNFs.snds (k, v)" by (simp add: snds.simps)
    show "json_text srt (to_json_value v) \<noteq> None"
      by (rule json_text_items [of srt "map (map_prod id to_json_value) m" k])
        (use PFrozen.prems that in \<open>simp_all add: rev_image_eqI\<close>)
  qed
  then show ?case by auto
qed auto

lemma check_version_number_ok: "check_version_number raw expected = Inr n \<longleftrightarrow>
    raw = PInt n \<and> 1 \<le> n \<and> expected \<in> {None, Some n}"
  by (cases raw) (auto simp: check_version_number_def result_simps)

lemma parse_metadataE:
  assumes "parse_metadata m eid ever = Inr (tid, name, version, locked)"
  obtains "snake_case tid" "eid \<in> {None, Some tid}" "\<not> blank name" "py_strip name = name" "1 \<le> version"
    "ever \<in> {None, Some version}"
proof -
  have "snake_case tid \<and> eid \<in> {None, Some tid} \<and> template_text (getv m ''name'') = Inr name \<and>
      check_version_number (getv m ''version'') ever = Inr version"
    using assms unfolding parse_metadata_def
  proof (elim rbindE, goal_cases)
    case (1 u i v w n k l)
    then show ?case by (cases "get_or m ''locked'' (PBool False)") (simp_all add: ensure_Inr_iff)
  qed
  then show thesis
    by (intro that) (auto simp: check_version_number_ok template_text_Inr not_blank_strip)
qed

lemma parse_templateE:
  assumes "parse_template_document document eid ever = Inr p"
  obtains goal where "pt_definition p = parsed_definition goal document"
    "validate_template_definition (pt_definition p) = Inr ()"
    "content_hash_of (pt_locked p) (pt_definition p) = Inr (pt_content_hash p)"
    "snake_case (pt_template_id p)" "eid \<in> {None, Some (pt_template_id p)}"
    "\<not> blank (pt_name p)" "py_strip (pt_name p) = pt_name p" "1 \<le> pt_version p" "ever \<in> {None, Some (pt_version p)}"
  using assms unfolding parse_template_document_def Let_def
proof (elim rbindE, goal_cases)
  case (1 u w metadata x)
  obtain tid name version locked where x: "x = (tid, name, version, locked)" by (metis prod_cases4)
  note rest = 1(6) [unfolded x prod.case]
  from 1(5) [unfolded x] show ?case
  proof (rule parse_metadataE)
    assume m: "snake_case tid" "eid \<in> {None, Some tid}" "\<not> blank name" "py_strip name = name" "1 \<le> version"
      "ever \<in> {None, Some version}"
    from rest show ?case
    proof (elim rbindE, goal_cases)
      case (1 goal y hash)
      then show ?case by (intro that [of goal]) (use m in \<open>auto\<close>)
    qed
  qed
qed


section \<open>Commands\<close>

text \<open>A command of \<open>WorkflowTemplateService\<close> and the store it leaves behind.\<close>

datatype template_command =
    Create string string pmap
  | Add_Version string string string pmap
  | Enable string string string
  | Disable string string string
  | Delete string string string

fun run_template_command :: "string \<Rightarrow> time \<Rightarrow> template_command \<Rightarrow> template_store \<Rightarrow> template_store" where
  "run_template_command eid now (Create tenant actor document) s = fst (create_template eid now s tenant actor document)"
| "run_template_command eid now (Add_Version tenant tid actor document) s = fst (add_version eid now s tenant tid actor document)"
| "run_template_command eid now (Enable tenant tid actor) s = fst (enable eid now s tenant tid actor)"
| "run_template_command eid now (Disable tenant tid actor) s = fst (disable eid now s tenant tid actor)"
| "run_template_command eid now (Delete tenant tid actor) s = fst (delete eid now s tenant tid actor)"

text \<open>The stores reached by commands, each with its event id and its time.\<close>

definition template_service_run :: "(string \<times> time \<times> template_command) list \<Rightarrow> template_store" where
  "template_service_run cs = fold (\<lambda>(eid, now, c). run_template_command eid now c) cs empty_template_store"

section \<open>What the store operations write\<close>

lemma add_template_writes:
  "fst (add_template s t v e) = s \<or>
   (dget (ts_templates s) (wt_tenant_id t, wt_id t) = None \<and>
    ts_templates (fst (add_template s t v e)) = dput (wt_tenant_id t, wt_id t) t (ts_templates s) \<and>
    ts_versions (fst (add_template s t v e)) = dput (wt_tenant_id t, wt_id t, 1) v (ts_versions s))"
  by (auto simp: add_template_def store_version_def store_template_def rbind_Inr_iff ensure_Inr_iff split: sum.splits)

lemma add_template_version_writes:
  "fst (add_template_version s v n now e) = s \<or>
   (\<exists>t. dget (ts_templates s) (tv_tenant_id v, tv_template_id v) = Some t \<and> wt_version t = n \<and>
    ts_templates (fst (add_template_version s v n now e)) =
      dput (tv_tenant_id v, tv_template_id v) (t\<lparr>wt_version := n + 1, wt_updated_at := now\<rparr>) (ts_templates s) \<and>
    ts_versions (fst (add_template_version s v n now e)) =
      dput (tv_tenant_id v, tv_template_id v, tv_version v) v (ts_versions s))"
  by (auto simp: add_template_version_def Let_def store_version_def store_template_def rbind_Inr_iff ensure_Inr_iff
      get_template_def get_or_raise_Inr_iff validate_template_version_def split: sum.splits)

lemma set_template_status_writes:
  "fst (set_template_status s tenant tid n status now deleted e) = s \<or>
   (\<exists>t. dget (ts_templates s) (tenant, tid) = Some t \<and> wt_version t = n \<and>
    ts_templates (fst (set_template_status s tenant tid n status now deleted e)) = dput (tenant, tid)
      (t\<lparr>wt_status := status, wt_version := n + 1, wt_updated_at := now, wt_deleted_at := deleted\<rparr>) (ts_templates s) \<and>
    ts_versions (fst (set_template_status s tenant tid n status now deleted e)) = ts_versions s)"
  by (auto simp: set_template_status_def Let_def rbind_Inr_iff ensure_Inr_iff get_template_def
      get_or_raise_Inr_iff split: sum.splits)

section \<open>The invariant of the service\<close>

text \<open>The latest version of a template.\<close>

definition latest :: "template_store \<Rightarrow> string \<times> string \<Rightarrow> workflow_template_version \<Rightarrow> bool" where
  "latest s k v \<longleftrightarrow> (\<exists>m \<ge> 1. template_numbers s k = {1..m} \<and> dget (ts_versions s) (fst k, snd k, m) = Some v)"

text \<open>A version that was made from a parsed document, and a template whose name and id came from one.\<close>

definition authored :: "workflow_template_version \<Rightarrow> bool" where
  "authored v \<longleftrightarrow> (\<exists>document eid ever p t now.
     parse_template_document document eid ever = Inr p \<and> v = mk_version t p now)"

definition well_named :: "workflow_template \<Rightarrow> bool" where
  "well_named t \<longleftrightarrow> snake_case (wt_id t) \<and> \<not> blank (wt_name t) \<and> py_strip (wt_name t) = wt_name t"

definition service_inv :: "template_store \<Rightarrow> bool" where
  "service_inv s \<longleftrightarrow> template_inv s \<and>
     (\<forall>k t. dget (ts_templates s) k = Some t \<longrightarrow> well_named t) \<and>
     (\<forall>k v. dget (ts_versions s) k = Some v \<longrightarrow> authored v) \<and>
     (\<forall>k t v. dget (ts_templates s) k = Some t \<longrightarrow> wt_status t = T_ENABLED \<longrightarrow> latest s k v \<longrightarrow>
        validate_template_definition (tv_definition v) = Inr ())"

lemma service_invD:
  assumes "service_inv s"
  shows "template_inv s" "dget (ts_templates s) k = Some t \<Longrightarrow> well_named t"
    "dget (ts_versions s) j = Some v \<Longrightarrow> authored v"
    "dget (ts_templates s) k = Some t \<Longrightarrow> wt_status t = T_ENABLED \<Longrightarrow> latest s k v \<Longrightarrow>
       validate_template_definition (tv_definition v) = Inr ()"
  using assms unfolding service_inv_def by blast+

lemma get_latest:
  assumes inv: "template_inv s" and t: "dget (ts_templates s) (tenant, tid) = Some t"
  shows "get_template_version s tenant tid None = Inr v \<longleftrightarrow> latest s (tenant, tid) v"
proof -
  obtain m v' where m: "m \<ge> 1" "template_numbers s (tenant, tid) = {1..m}"
    and g: "get_template_version s tenant tid None = Inr v'" "tv_version v' = m"
    using latest_version [OF inv t] by blast
  obtain n where n: "dget (ts_versions s) (tenant, tid, n) = Some v'"
    using g(1) unfolding get_template_version_def by (elim rbindE) (auto simp: get_or_raise_Inr_iff)
  have "n = m" using template_inv_version [OF inv n] g(2) by simp
  moreover have "{1..m'} = {1..m} \<Longrightarrow> m' \<ge> 1 \<Longrightarrow> m' = m" for m' :: int using m(1)
    by (metis atLeastatMost_empty_iff2 atLeastAtMost_iff order_antisym order_refl)
  ultimately show ?thesis using m n g(1) unfolding latest_def
    by (auto intro: exI [of _ m])
qed

lemma latest_cong:
  "(\<And>n. dget (ts_versions s') (fst k, snd k, n) = dget (ts_versions s) (fst k, snd k, n)) \<Longrightarrow>
     latest s' k v = latest s k v"
  by (simp add: latest_def template_numbers_def)

text \<open>Commands that write a template and leave the versions.\<close>

lemma service_inv_template:
  assumes inv: "service_inv s" and new: "template_inv s'"
    and T: "ts_templates s' = dput k u (ts_templates s)" and V: "ts_versions s' = ts_versions s"
    and u: "well_named u"
    and valid: "\<And>v. wt_status u = T_ENABLED \<Longrightarrow> latest s k v \<Longrightarrow> validate_template_definition (tv_definition v) = Inr ()"
  shows "service_inv s'"
proof -
  have l: "latest s' j v = latest s j v" for j v by (rule latest_cong) (simp add: V)
  show ?thesis unfolding service_inv_def l V T dget_dput
    using new u valid service_invD [OF inv] by (auto split: if_splits)
qed

text \<open>Commands that write a template that is not enabled and one of its versions.\<close>

lemma service_inv_version:
  assumes inv: "service_inv s" and new: "template_inv s'"
    and T: "ts_templates s' = dput k u (ts_templates s)"
    and V: "ts_versions s' = dput (fst k, snd k, n) v (ts_versions s)"
    and u: "well_named u" "wt_status u \<noteq> T_ENABLED" and v: "authored v"
  shows "service_inv s'"
proof -
  have l: "latest s' j w = latest s j w" if "j \<noteq> k" for j w
    by (rule latest_cong) (use that in \<open>auto simp: V dget_dput prod_eq_iff\<close>)
  show ?thesis unfolding service_inv_def
  proof (intro conjI allI impI)
    show "template_inv s'" by (rule new)
    show "well_named t" if "dget (ts_templates s') j = Some t" for j t
      using that u service_invD(2) [OF inv] unfolding T dget_dput by (auto split: if_splits)
    show "authored w" if "dget (ts_versions s') j = Some w" for j w
      using that v service_invD(3) [OF inv] unfolding V dget_dput by (auto split: if_splits)
    fix j t w
    assume t: "dget (ts_templates s') j = Some t" "wt_status t = T_ENABLED" "latest s' j w"
    then have "j \<noteq> k" using u(2) by (auto simp: T dget_dput)
    with t l [of j w] service_invD(4) [OF inv, of j t w]
    show "validate_template_definition (tv_definition w) = Inr ()" by (simp add: T dget_dput)
  qed
qed


section \<open>Every command keeps the invariant\<close>

lemma fst_before_store: "fst (before_store s x f) = (case x of Inl _ \<Rightarrow> s | Inr a \<Rightarrow> fst (f a))"
  by (simp add: before_store_def split: sum.split)

lemma fst_after_store [simp]: "fst (after_store x f) = fst x"
  by (simp add: after_store_def split: prod.split sum.split)

lemma fst_set_status: "fst (set_status eid now s t status actor payload) = s \<or>
    (\<exists>deleted e. fst (set_status eid now s t status actor payload) =
       fst (set_template_status s (wt_tenant_id t) (wt_id t) (wt_version t) status now deleted e))"
  by (cases "template_text (PStr actor)") (auto simp: set_status_def before_store_def)

lemma mk_version_fields [simp]:
  "tv_tenant_id (mk_version t p now) = wt_tenant_id t" "tv_template_id (mk_version t p now) = wt_id t"
  "tv_version (mk_version t p now) = pt_version p" "tv_schema_version (mk_version t p now) = ''0.2''"
  "tv_definition (mk_version t p now) = freeze_map (pt_definition p)"
  "tv_locked (mk_version t p now) = pt_locked p" "tv_content_hash (mk_version t p now) = pt_content_hash p"
  by (simp_all add: mk_version_def)

lemma well_named_cong:
  "wt_id u = wt_id t \<Longrightarrow> wt_name u = wt_name t \<Longrightarrow> well_named u = well_named t"
  by (simp add: well_named_def)

lemma create_template_keeps:
  assumes inv: "service_inv s"
  shows "service_inv (fst (create_template eid now s tenant actor document))" (is "service_inv ?s")
proof (cases "rbind (template_text (PStr tenant)) (\<lambda>_. rbind (template_text (PStr actor)) (\<lambda>_.
    parse_template_document document None (Some 1)))")
  case (Inl err)
  with inv show ?thesis by (simp add: create_template_def before_store_def)
next
  case (Inr p)
  then have p: "parse_template_document document None (Some 1) = Inr p" by (elim rbindE)
  define t where "t = \<lparr>wt_id = pt_template_id p, wt_tenant_id = tenant, wt_name = pt_name p, wt_status = T_DRAFT,
                    wt_version = 0, wt_created_at = now, wt_updated_at = now, wt_deleted_at = None\<rparr>"
  obtain e where s: "?s = fst (add_template s t (mk_version t p now) e)"
    using Inr by (simp add: create_template_def before_store_def Let_def t_def)
  have named: "well_named t" using p by (rule parse_templateE) (simp add: t_def well_named_def)
  have new: "template_inv ?s" unfolding s by (rule add_template_keeps [OF service_invD(1) [OF inv]])
  from add_template_writes [of s t "mk_version t p now" e] show ?thesis
  proof (elim disjE conjE)
    assume "fst (add_template s t (mk_version t p now) e) = s"
    with inv s show ?thesis by simp
  next
    assume w: "ts_templates (fst (add_template s t (mk_version t p now) e)) = dput (wt_tenant_id t, wt_id t) t (ts_templates s)"
      "ts_versions (fst (add_template s t (mk_version t p now) e)) = dput (wt_tenant_id t, wt_id t, 1) (mk_version t p now) (ts_versions s)"
    have "authored (mk_version t p now)" using p unfolding authored_def by blast
    moreover have "wt_status t \<noteq> T_ENABLED" by (simp add: t_def)
    ultimately show ?thesis
      using service_inv_version [OF inv new, of "(wt_tenant_id t, wt_id t)" t 1 "mk_version t p now"] w named s by simp
  qed
qed

lemma next_versionE:
  assumes "next_version s tenant tid actor document = Inr (t, p)"
  obtains v where "dget (ts_templates s) (tenant, tid) = Some t" "wt_status t \<in> {T_DRAFT, T_DISABLED}"
    "get_template_version s tenant tid None = Inr v" "parse_template_document document (Some tid) (Some (tv_version v + 1)) = Inr p"
    "pt_name p = wt_name t" "pt_content_hash p \<noteq> tv_content_hash v"
  using assms unfolding next_version_def get_template_def
  by (elim rbindE) (auto simp: result_simps intro: that)

lemma add_version_keeps_service:
  assumes inv: "service_inv s"
  shows "service_inv (fst (add_version eid now s tenant tid actor document))" (is "service_inv ?s")
proof (cases "next_version s tenant tid actor document")
  case (Inl err)
  with inv show ?thesis by (simp add: add_version_def before_store_def)
next
  case (Inr x)
  obtain t p where x: "x = (t, p)" by (cases x)
  let ?v = "mk_version t p now"
  obtain e where s: "?s = fst (add_template_version s ?v (wt_version t) now e)"
    using Inr x by (simp add: add_version_def before_store_def Let_def)
  obtain v :: workflow_template_version where
    v: "dget (ts_templates s) (tenant, tid) = Some t" "wt_status t \<in> {T_DRAFT, T_DISABLED}"
    "parse_template_document document (Some tid) (Some (tv_version v + 1)) = Inr p"
    using Inr unfolding x by (elim next_versionE) blast
  have new: "template_inv ?s" unfolding s by (rule add_version_keeps [OF service_invD(1) [OF inv]])
  have key: "wt_tenant_id t = tenant" "wt_id t = tid" using template_inv_key [OF service_invD(1) [OF inv] v(1)] by simp_all
  from add_template_version_writes [of s ?v "wt_version t" now e] show ?thesis
  proof (elim disjE exE conjE)
    assume "fst (add_template_version s ?v (wt_version t) now e) = s"
    with inv s show ?thesis by simp
  next
    fix u assume u: "dget (ts_templates s) (tv_tenant_id ?v, tv_template_id ?v) = Some u"
      and w: "ts_templates (fst (add_template_version s ?v (wt_version t) now e)) =
          dput (tv_tenant_id ?v, tv_template_id ?v) (u\<lparr>wt_version := wt_version t + 1, wt_updated_at := now\<rparr>) (ts_templates s)"
        "ts_versions (fst (add_template_version s ?v (wt_version t) now e)) =
          dput (tv_tenant_id ?v, tv_template_id ?v, tv_version ?v) ?v (ts_versions s)"
    have "u = t" using u v(1) key by simp
    show ?thesis
    proof (rule service_inv_version [OF inv new, of "(tenant, tid)" "t\<lparr>wt_version := wt_version t + 1, wt_updated_at := now\<rparr>" "pt_version p" ?v])
      show "well_named (t\<lparr>wt_version := wt_version t + 1, wt_updated_at := now\<rparr>)"
        using service_invD(2) [OF inv v(1)] by (simp add: well_named_def)
      show "authored ?v" using v(3) unfolding authored_def by blast
    qed (use w s key v(2) \<open>u = t\<close> in auto)
  qed
qed

lemma set_status_keeps_service:
  assumes inv: "service_inv s" and t: "dget (ts_templates s) (tenant, tid) = Some t"
    and valid: "\<And>v. status = T_ENABLED \<Longrightarrow> latest s (tenant, tid) v \<Longrightarrow> validate_template_definition (tv_definition v) = Inr ()"
  shows "service_inv (fst (set_status eid now s t status actor payload))" (is "service_inv ?s")
proof -
  have key: "wt_tenant_id t = tenant" "wt_id t = tid" using template_inv_key [OF service_invD(1) [OF inv] t] by simp_all
  from fst_set_status [of eid now s t status actor payload] show ?thesis
  proof (elim disjE exE)
    assume "?s = s"
    with inv show ?thesis by simp
  next
    fix deleted e
    assume s: "?s = fst (set_template_status s (wt_tenant_id t) (wt_id t) (wt_version t) status now deleted e)"
    have new: "template_inv ?s" unfolding s by (rule set_status_keeps [OF service_invD(1) [OF inv]])
    from set_template_status_writes [of s "wt_tenant_id t" "wt_id t" "wt_version t" status now deleted e] show ?thesis
    proof (elim disjE exE conjE)
      assume "fst (set_template_status s (wt_tenant_id t) (wt_id t) (wt_version t) status now deleted e) = s"
      with inv s show ?thesis by simp
    next
      fix u assume u: "dget (ts_templates s) (wt_tenant_id t, wt_id t) = Some u"
        and w: "ts_templates (fst (set_template_status s (wt_tenant_id t) (wt_id t) (wt_version t) status now deleted e)) =
           dput (wt_tenant_id t, wt_id t) (u\<lparr>wt_status := status, wt_version := wt_version t + 1, wt_updated_at := now,
             wt_deleted_at := deleted\<rparr>) (ts_templates s)"
          "ts_versions (fst (set_template_status s (wt_tenant_id t) (wt_id t) (wt_version t) status now deleted e)) = ts_versions s"
      show ?thesis
      proof (rule service_inv_template [OF inv new, of "(tenant, tid)"])
        show "ts_templates ?s = dput (tenant, tid) (u\<lparr>wt_status := status, wt_version := wt_version t + 1,
            wt_updated_at := now, wt_deleted_at := deleted\<rparr>) (ts_templates s)" using w(1) s key by simp
        show "well_named (u\<lparr>wt_status := status, wt_version := wt_version t + 1, wt_updated_at := now, wt_deleted_at := deleted\<rparr>)"
          using service_invD(2) [OF inv t] u t key by (simp add: well_named_def)
      qed (use w s valid in auto)
    qed
  qed
qed

lemma enable_keeps: "service_inv s \<Longrightarrow> service_inv (fst (enable eid now s tenant tid actor))"
  unfolding enable_def fst_before_store get_template_def
  by (auto simp: result_simps get_latest service_invD(1) split: sum.split intro!: set_status_keeps_service)
    (auto simp: latest_def)

lemma disable_keeps: "service_inv s \<Longrightarrow> service_inv (fst (disable eid now s tenant tid actor))"
  unfolding disable_def fst_before_store get_template_def
  by (auto simp: result_simps split: sum.split intro!: set_status_keeps_service)

lemma delete_keeps: "service_inv s \<Longrightarrow> service_inv (fst (delete eid now s tenant tid actor))"
  unfolding delete_def fst_before_store get_template_def
  by (auto simp: result_simps split: sum.split intro!: set_status_keeps_service)

lemma command_keeps: "service_inv s \<Longrightarrow> service_inv (run_template_command eid now c s)"
  by (cases c) (simp_all add: create_template_keeps add_version_keeps_service enable_keeps disable_keeps delete_keeps)

lemma service_run_inv: "service_inv (template_service_run cs)"
proof -
  have "service_inv s \<Longrightarrow> service_inv (fold (\<lambda>(eid, now, c). run_template_command eid now c) cs s)" for s
    by (induction cs arbitrary: s) (auto simp: command_keeps)
  moreover have "service_inv empty_template_store"
    by (simp add: service_inv_def template_inv_def empty_template_store_def)
  ultimately show ?thesis by (simp add: template_service_run_def)
qed


section \<open>Deleted templates\<close>

text \<open>No command changes a deleted template or adds a version to it.\<close>

lemma deleted_refused:
  assumes "get_template s tenant tid = Inr t" and "wt_status t = T_DELETED"
  shows "fst (add_version eid now s tenant tid actor document) = s" "fst (enable eid now s tenant tid actor) = s"
    "fst (disable eid now s tenant tid actor) = s" "fst (delete eid now s tenant tid actor) = s"
    "\<not> is_ok (instantiate s tenant tid inputs bindings)"
proof -
  have "\<not> is_ok (next_version s tenant tid actor document)"
    by (cases "template_text (PStr actor)") (simp_all add: next_version_def assms)
  then show "fst (add_version eid now s tenant tid actor document) = s"
    by (cases "next_version s tenant tid actor document") (simp_all add: add_version_def before_store_def)
qed (simp_all add: enable_def disable_def delete_def instantiate_def before_store_def assms)

text \<open>What a command leaves of another template: everything.\<close>

definition template_view :: "template_store \<Rightarrow> string \<times> string \<Rightarrow> workflow_template option \<times> (int \<Rightarrow> workflow_template_version option)" where
  "template_view s k = (dget (ts_templates s) k, \<lambda>n. dget (ts_versions s) (fst k, snd k, n))"

lemma template_viewI:
  "dget (ts_templates s') k = dget (ts_templates s) k \<Longrightarrow>
   (\<And>n. dget (ts_versions s') (fst k, snd k, n) = dget (ts_versions s) (fst k, snd k, n)) \<Longrightarrow>
   template_view s' k = template_view s k"
  by (simp add: template_view_def)

lemma add_template_view:
  assumes "dget (ts_templates s) k \<noteq> None"
  shows "template_view (fst (add_template s t v e)) k = template_view s k"
proof -
  from add_template_writes [of s t v e] show ?thesis
  proof (elim disjE conjE)
    assume w: "dget (ts_templates s) (wt_tenant_id t, wt_id t) = None"
      "ts_templates (fst (add_template s t v e)) = dput (wt_tenant_id t, wt_id t) t (ts_templates s)"
      "ts_versions (fst (add_template s t v e)) = dput (wt_tenant_id t, wt_id t, 1) v (ts_versions s)"
    then have "(wt_tenant_id t, wt_id t) \<noteq> k" using assms by auto
    with w show ?thesis by (intro template_viewI) (auto simp: dget_dput prod_eq_iff)
  qed simp
qed

lemma add_template_version_view:
  assumes "(tv_tenant_id v, tv_template_id v) \<noteq> k"
  shows "template_view (fst (add_template_version s v n now e)) k = template_view s k"
  using add_template_version_writes [of s v n now e] assms
  by (cases k) (auto simp: template_view_def dget_dput)

lemma set_template_status_view:
  assumes "(tenant, tid) \<noteq> k"
  shows "template_view (fst (set_template_status s tenant tid n status now deleted e)) k = template_view s k"
  using set_template_status_writes [of s tenant tid n status now deleted e] assms
  by (auto simp: template_view_def dget_dput)

lemma set_status_view:
  assumes "(wt_tenant_id t, wt_id t) \<noteq> k"
  shows "template_view (fst (set_status eid now s t status actor payload)) k = template_view s k"
  using fst_set_status [of eid now s t status actor payload] set_template_status_view [OF assms] by auto

lemma deleted_stays:
  assumes inv: "service_inv s" and t: "dget (ts_templates s) k = Some t" "wt_status t = T_DELETED"
  shows "template_view (run_template_command eid now c s) k = template_view s k"
proof -
  have key: "(wt_tenant_id u, wt_id u) = (tenant, tid)" if "dget (ts_templates s) (tenant, tid) = Some u" for tenant tid u
    using template_inv_key [OF service_invD(1) [OF inv] that] by simp
  have refused: "k = (tenant, tid) \<Longrightarrow> get_template s tenant tid = Inr t" for tenant tid
    using t by (simp add: get_template_def)
  show ?thesis
  proof (cases c)
    case (Create tenant actor document)
    show ?thesis unfolding Create run_template_command.simps create_template_def fst_before_store Let_def
      using t by (auto split: sum.split simp: add_template_view)
  next
    case (Add_Version tenant tid actor document)
    show ?thesis
    proof (cases "k = (tenant, tid)")
      case True
      from deleted_refused(1) [OF refused [OF True] t(2)] show ?thesis unfolding Add_Version by simp
    next
      case False
      show ?thesis unfolding Add_Version run_template_command.simps add_version_def fst_before_store Let_def
        using False key by (auto split: sum.split prod.split elim!: next_versionE intro!: add_template_version_view)
    qed
  next
    case (Enable tenant tid actor)
    show ?thesis
    proof (cases "k = (tenant, tid)")
      case True
      from deleted_refused(2) [OF refused [OF True] t(2)] show ?thesis unfolding Enable by simp
    next
      case False
      show ?thesis unfolding Enable run_template_command.simps enable_def fst_before_store get_template_def
        using False key by (auto split: sum.split simp: result_simps intro!: set_status_view)
    qed
  next
    case (Disable tenant tid actor)
    show ?thesis
    proof (cases "k = (tenant, tid)")
      case True
      from deleted_refused(3) [OF refused [OF True] t(2)] show ?thesis unfolding Disable by simp
    next
      case False
      show ?thesis unfolding Disable run_template_command.simps disable_def fst_before_store get_template_def
        using False key by (auto split: sum.split simp: result_simps intro!: set_status_view)
    qed
  next
    case (Delete tenant tid actor)
    show ?thesis
    proof (cases "k = (tenant, tid)")
      case True
      from deleted_refused(4) [OF refused [OF True] t(2)] show ?thesis unfolding Delete by simp
    next
      case False
      show ?thesis unfolding Delete run_template_command.simps delete_def fst_before_store get_template_def
        using False key by (auto split: sum.split simp: result_simps intro!: set_status_view)
    qed
  qed
qed


section \<open>Exported documents\<close>

lemma json_or_empty:
  assumes "P = to_json_value (or_empty w d)" and "\<not> truthy d"
  shows "to_json_value (or_empty P d) = P" "to_json_value (or_empty (freeze P) d) = P"
  using assms by (auto simp: or_empty_def)

lemma template_document_keys: "dkeys (template_document t v) = [''schema_version'', ''template'', ''goal'', ''parameters'', ''nodes'']"
  by (simp add: template_document_def)

lemma template_document_get:
  "get_or (template_document t v) ''schema_version'' d = PStr (tv_schema_version v)"
  "get_or (template_document t v) ''template'' d = PDict
     [(''id'', PStr (wt_id t)), (''version'', PInt (tv_version v)), (''name'', PStr (wt_name t)),
      (''status'', PStr (template_status_value (wt_status t))), (''locked'', PBool (tv_locked v))]"
  "get_or (template_document t v) ''goal'' d = PStr (py_str (get_or (tv_definition v) ''goal'' (PStr [])))"
  "get_or (template_document t v) ''parameters'' d = to_json_value (or_empty (getv (tv_definition v) ''parameters'') (PDict []))"
  "get_or (template_document t v) ''nodes'' d = to_json_value (or_empty (getv (tv_definition v) ''nodes'') (PTuple []))"
  by (simp_all add: template_document_def get_or_def)

lemma parse_own_metadata:
  assumes "snake_case tid" and "py_strip tid = tid" and "\<not> blank name" and "py_strip name = name" and "1 \<le> version"
  shows "parse_metadata [(''id'', PStr tid), (''version'', PInt version), (''name'', PStr name), (''status'', PStr ''draft''),
      (''locked'', PBool locked)] (Some tid) (Some version) = Inr (tid, name, version, locked)"
proof -
  have "\<not> blank tid" using assms(1,2) by (cases tid) (simp_all add: blank_def)
  then show ?thesis
    using assms by (simp add: parse_metadata_def reject_unknown_fields_def get_or_def template_text_def check_version_number_def)
qed

lemma lower_alpha_not_space: "lower_alpha c \<or> is_digit c \<or> c = CHR ''_'' \<Longrightarrow> \<not> py_space c"
  by (auto simp: lower_alpha_def is_digit_def less_eq_char_def py_space_def Let_def)

lemma snake_case_strip: "snake_case s \<Longrightarrow> py_strip s = s"
proof (cases s)
  case (Cons c cs)
  assume "snake_case s"
  then have all: "\<forall>c \<in> set s. \<not> py_space c" using Cons lower_alpha_not_space by (auto simp: list_all_iff)
  have "dropWhile py_space (rev s) = rev s" and "dropWhile py_space s = s"
    using all by (auto intro!: dropWhile_idem_hd) (metis Cons hd_in_set list.distinct(1) rev_is_Nil_conv set_rev)+
  then show ?thesis by (simp add: py_strip_def)
qed simp

lemma freeze_parsed:
  "freeze_map (parsed_definition goal document) =
     [(''goal'', PStr goal),
      (''parameters'', freeze (to_json_value (or_empty (getv document ''parameters'') (PDict [])))),
      (''nodes'', freeze (to_json_value (or_empty (getv document ''nodes'') (PTuple []))))]"
  by (simp add: parsed_definition_def freeze_map_def)

text \<open>The definition of an exported version is the one that was parsed.\<close>

lemma reparsed_definition:
  assumes "tv_definition v = freeze_map (parsed_definition goal document)"
  shows "py_str (get_or (tv_definition v) ''goal'' (PStr [])) = goal"
    "parsed_definition goal (template_document t v) = parsed_definition goal document"
proof -
  let ?P = "to_json_value (or_empty (getv document ''parameters'') (PDict []))"
  let ?N = "to_json_value (or_empty (getv document ''nodes'') (PTuple []))"
  have g: "get_or (tv_definition v) ''goal'' (PStr []) = PStr goal" "getv (tv_definition v) ''parameters'' = freeze ?P"
    "getv (tv_definition v) ''nodes'' = freeze ?N"
    unfolding assms freeze_parsed get_or_def by simp_all
  show "py_str (get_or (tv_definition v) ''goal'' (PStr [])) = goal" by (simp add: g(1))
  note P = json_or_empty [of ?P "getv document ''parameters''" "PDict []", OF refl]
  note N = json_or_empty [of ?N "getv document ''nodes''" "PTuple []", OF refl]
  show "parsed_definition goal (template_document t v) = parsed_definition goal document"
    unfolding parsed_definition_def template_document_get g(2,3) using P N by simp
qed

lemma document_round_trip:
  assumes inv: "service_inv s" and t: "get_template s tenant tid = Inr t" "wt_status t = T_DRAFT"
    and v: "get_template_version s tenant tid n = Inr v"
  shows "\<exists>p. parse_template_document (template_document t v) (Some tid) (Some (tv_version v)) = Inr p \<and>
     pt_name p = wt_name t \<and> mk_version t p (tv_created_at v) = v"
proof -
  obtain m where dv: "dget (ts_versions s) (tenant, tid, m) = Some v"
    using v unfolding get_template_version_def by (elim rbindE) (auto simp: get_or_raise_Inr_iff)
  have dt: "dget (ts_templates s) (tenant, tid) = Some t"
    using t(1) by (simp add: get_template_def get_or_raise_Inr_iff)
  have key: "wt_tenant_id t = tenant" "wt_id t = tid" using template_inv_key [OF service_invD(1) [OF inv] dt] by simp_all
  obtain document eid ever p t0 now where p: "parse_template_document document eid ever = Inr p"
    and mk: "v = mk_version t0 p now" using service_invD(3) [OF inv dv] unfolding authored_def by blast
  have own: "tv_tenant_id v = tenant" "tv_template_id v = tid" using template_inv_version [OF service_invD(1) [OF inv] dv] by simp_all
  have named: "snake_case tid" "\<not> blank (wt_name t)" "py_strip (wt_name t) = wt_name t"
    using service_invD(2) [OF inv dt] key by (simp_all add: well_named_def)
  obtain goal where d: "pt_definition p = parsed_definition goal document"
    and valid: "validate_template_definition (pt_definition p) = Inr ()"
    and hash: "content_hash_of (pt_locked p) (pt_definition p) = Inr (pt_content_hash p)" and pos: "1 \<le> pt_version p"
    using p by (rule parse_templateE)
  have td: "tv_definition v = freeze_map (parsed_definition goal document)" using d mk by simp
  note re = reparsed_definition [OF td]
  have meta: "parse_metadata [(''id'', PStr (wt_id t)), (''version'', PInt (tv_version v)), (''name'', PStr (wt_name t)),
      (''status'', PStr (template_status_value (wt_status t))), (''locked'', PBool (tv_locked v))] (Some tid) (Some (tv_version v)) =
      Inr (tid, wt_name t, tv_version v, tv_locked v)"
    unfolding t(2) template_status_value.simps key
    by (rule parse_own_metadata) (use named snake_case_strip pos mk in simp_all)
  let ?p = "\<lparr>pt_template_id = tid, pt_name = wt_name t, pt_version = tv_version v, pt_locked = tv_locked v,
      pt_definition = pt_definition p, pt_content_hash = tv_content_hash v\<rparr>"
  have "reject_unknown_fields (template_document t v) [''schema_version'', ''template'', ''goal'', ''parameters'', ''nodes''] = Inr ()"
    unfolding reject_unknown_fields_def template_document_keys by simp
  moreover have "tv_schema_version v = ''0.2''" using mk by simp
  ultimately have "parse_template_document (template_document t v) (Some tid) (Some (tv_version v)) = Inr ?p"
    unfolding parse_template_document_def template_document_get Let_def re(1)
    using meta re(2) [of t] d valid hash mk by simp
  moreover have "mk_version t ?p (tv_created_at v) = v"
    using mk own key by (simp add: mk_version_def)
  ultimately show ?thesis by (intro exI [of _ ?p]) simp
qed

end
