(* ===== verification/Template_Properties.thy ===== *)
theory Template_Properties
  imports Template_Histories Demo
begin

text \<open>
  The properties of the template service (\<open>src/larkflow/workflow/template_service.py\<close>), and a small
  template on which they are instantiated.
\<close>

section \<open>A template\<close>

definition demo_definition_node :: "string \<Rightarrow> string \<Rightarrow> string list \<Rightarrow> pval" where
  "demo_definition_node executor key deps = PDict
     [(''id'', PStr key), (''title'', PStr key), (''owner_role'', PStr ''lead''), (''executor'', PStr executor),
      (''deps'', PList (map PStr deps)), (''work'', PDict demo_work)]"

definition demo_document :: "string \<Rightarrow> pmap" where
  "demo_document executor =
     [(''schema_version'', PStr ''0.2''),
      (''template'', PDict [(''id'', PStr ''launch''), (''version'', PInt 1), (''name'', PStr ''Launch''),
         (''status'', PStr ''draft''), (''locked'', PBool True)]),
      (''goal'', PStr ''launch''),
      (''parameters'', PDict [(''topic'', PDict [(''type'', PStr ''text''), (''required'', PBool True)])]),
      (''nodes'', PList [demo_definition_node executor ''brief'' [], demo_definition_node ''human'' ''text'' [''brief'']])]"

definition demo_definition :: "string \<Rightarrow> pmap" where
  "demo_definition executor = parsed_definition ''launch'' (demo_document executor)"

definition demo_created :: "string \<times> time \<times> template_command" where
  "demo_created = (''e1'', 1, Create ''acme'' ''ann'' (demo_document ''human''))"

definition demo_enabled :: "string \<times> time \<times> template_command" where
  "demo_enabled = (''e2'', 2, Enable ''acme'' ''launch'' ''ann'')"

definition demo_disabled :: "string \<times> time \<times> template_command" where
  "demo_disabled = (''e3'', 3, Disable ''acme'' ''launch'' ''ann'')"

definition demo_deleted :: "string \<times> time \<times> template_command" where
  "demo_deleted = (''e4'', 4, Delete ''acme'' ''launch'' ''ann'')"

lemma ok_unit: "is_ok r \<Longrightarrow> r = Inr ()" for r :: "'e + unit"
  by (cases r) simp_all

lemma demo_valid:
  "validate_template_definition (demo_definition ''human'') = Inr ()"
  "validate_template_definition (freeze_map (demo_definition ''human'')) = Inr ()"
  "validate_template_definition (demo_definition '' human'') = Inr ()"
  by (rule ok_unit, code_simp)+

lemma demo_json: "json_text True (PDict [(''locked'', PBool True), (''definition'', PDict (demo_definition ''human''))]) \<noteq> None"
  by code_simp

text \<open>The hash is left as it is: the proofs do not compute it.\<close>

lemma demo_parsed: "\<exists>h. parse_template_document (demo_document ''human'') None (Some 1) =
    Inr \<lparr>pt_template_id = ''launch'', pt_name = ''Launch'', pt_version = 1, pt_locked = True,
      pt_definition = demo_definition ''human'', pt_content_hash = h\<rparr>"
proof -
  obtain h where h: "content_hash_of True (demo_definition ''human'') = Inr h"
    using demo_json unfolding content_hash_of_def by (auto split: option.splits)
  have d: "getv (demo_document ''human'') ''template'' = PDict [(''id'', PStr ''launch''), (''version'', PInt 1),
      (''name'', PStr ''Launch''), (''status'', PStr ''draft''), (''locked'', PBool True)]"
    "get_or (demo_document ''human'') ''schema_version'' (PStr []) = PStr ''0.2''"
    "get_or (demo_document ''human'') ''goal'' (PStr []) = PStr ''launch''"
    "reject_unknown_fields (demo_document ''human'') [''schema_version'', ''template'', ''goal'', ''parameters'', ''nodes''] = Inr ()"
    by (simp_all add: demo_document_def get_or_def reject_unknown_fields_def)
  have m: "parse_metadata [(''id'', PStr ''launch''), (''version'', PInt 1),
      (''name'', PStr ''Launch''), (''status'', PStr ''draft''), (''locked'', PBool True)] None (Some 1) =
      Inr (''launch'', ''Launch'', 1, True)" by code_simp
  have p: "parsed_definition ''launch'' (demo_document ''human'') = demo_definition ''human''"
    by (simp only: demo_definition_def)
  show ?thesis unfolding parse_template_document_def d
    by (simp add: m p demo_valid h)
qed


definition demo_template_at :: "template_status \<Rightarrow> int \<Rightarrow> workflow_template" where
  "demo_template_at status n =
     \<lparr>wt_id = ''launch'', wt_tenant_id = ''acme'', wt_name = ''Launch'', wt_status = status, wt_version = n,
      wt_created_at = 1, wt_updated_at = n + 1, wt_deleted_at = (if status = T_DELETED then Some (n + 1) else None)\<rparr>"

definition demo_template_version :: "string \<Rightarrow> workflow_template_version" where
  "demo_template_version h =
     \<lparr>tv_id = ''launch:1'', tv_tenant_id = ''acme'', tv_template_id = ''launch'', tv_version = 1,
      tv_schema_version = ''0.2'', tv_locked = True, tv_definition = freeze_map (demo_definition ''human''),
      tv_content_hash = h, tv_created_at = 1\<rparr>"

lemma dec_one: "dec_int 1 = ''1''" by code_simp

lemma demo_create:
  obtains h e where "template_service_run [demo_created] =
    \<lparr>ts_templates = [((''acme'', ''launch''), demo_template_at T_DRAFT 0)],
     ts_versions = [((''acme'', ''launch'', 1), demo_template_version h)],
     ts_events = [e], ts_event_ids = [(''acme'', ''e1'')]\<rparr>"
proof -
  obtain h where h: "parse_template_document (demo_document ''human'') None (Some 1) =
    Inr \<lparr>pt_template_id = ''launch'', pt_name = ''Launch'', pt_version = 1, pt_locked = True,
      pt_definition = demo_definition ''human'', pt_content_hash = h\<rparr>" using demo_parsed by blast
  have t: "template_text (PStr ''acme'') = Inr ''acme''" "template_text (PStr ''ann'') = Inr ''ann''" by code_simp+
  show thesis
    by (rule that [of h "mk_template_event ''e1'' (demo_template_at T_DRAFT 0) ''template.created'' ''ann'' 0
        [(''template_version_id'', PStr ''launch:1''), (''content_hash'', PStr h)] 1"])
      (simp add: template_service_run_def demo_created_def create_template_def before_store_def t h Let_def
        add_template_def empty_template_store_def validate_template_version_def validate_template_event_def
        mk_template_event_def finish_with_def append_template_event_def store_version_def store_template_def
        demo_template_at_def demo_template_version_def mk_version_def dec_one)
qed

lemma run_last: "template_service_run (cs @ [(eid, now, c)]) = run_template_command eid now c (template_service_run cs)"
  by (simp add: template_service_run_def)

lemma demo_set_status:
  assumes s: "s = \<lparr>ts_templates = [((''acme'', ''launch''), demo_template_at old n)],
     ts_versions = [((''acme'', ''launch'', 1), demo_template_version h)], ts_events = es, ts_event_ids = ids\<rparr>"
    and "(''acme'', eid) \<notin> set ids"
  shows "\<exists>es'. fst (set_status eid (n + 2) s (demo_template_at old n) status ''ann'' payload) =
    \<lparr>ts_templates = [((''acme'', ''launch''), demo_template_at status (n + 1))],
     ts_versions = [((''acme'', ''launch'', 1), demo_template_version h)], ts_events = es', ts_event_ids = ids @ [(''acme'', eid)]\<rparr>"
proof -
  have t: "template_text (PStr ''ann'') = Inr ''ann''" by code_simp
  show ?thesis using assms
    by (simp add: set_status_def before_store_def t set_template_status_def get_template_def
        validate_template_event_def mk_template_event_def finish_with_def append_template_event_def Let_def
        demo_template_at_def)
qed

lemma demo_latest: "s = \<lparr>ts_templates = [((''acme'', ''launch''), demo_template_at old n)],
     ts_versions = [((''acme'', ''launch'', 1), demo_template_version h)], ts_events = es, ts_event_ids = ids\<rparr> \<Longrightarrow>
  get_template s ''acme'' ''launch'' = Inr (demo_template_at old n) \<and>
  get_template_version s ''acme'' ''launch'' None = Inr (demo_template_version h)"
  by (simp add: get_template_def get_template_version_def version_numbers_def)

lemma demo_enable:
  obtains h es where "template_service_run [demo_created, demo_enabled] =
    \<lparr>ts_templates = [((''acme'', ''launch''), demo_template_at T_ENABLED 1)],
     ts_versions = [((''acme'', ''launch'', 1), demo_template_version h)], ts_events = es,
     ts_event_ids = [(''acme'', ''e1''), (''acme'', ''e2'')]\<rparr>"
proof -
  obtain h e where c: "template_service_run [demo_created] =
    \<lparr>ts_templates = [((''acme'', ''launch''), demo_template_at T_DRAFT 0)],
     ts_versions = [((''acme'', ''launch'', 1), demo_template_version h)],
     ts_events = [e], ts_event_ids = [(''acme'', ''e1'')]\<rparr>" by (rule demo_create)
  have d: "tv_definition (demo_template_version h) = freeze_map (demo_definition ''human'')"
    by (simp add: demo_template_version_def)
  have "wt_status (demo_template_at T_DRAFT 0) = T_DRAFT" by (simp add: demo_template_at_def)
  then have "template_service_run [demo_created, demo_enabled] = fst (set_status ''e2'' (0 + 2) (template_service_run [demo_created])
      (demo_template_at T_DRAFT 0) T_ENABLED ''ann'' [(''active_template_version_id'', PStr (tv_id (demo_template_version h)))])"
    using run_last [of "[demo_created]" "''e2''" 2 "Enable ''acme'' ''launch'' ''ann''"] demo_latest [OF c]
    by (simp add: demo_enabled_def enable_def before_store_def d demo_valid)
  with demo_set_status [OF c, of "''e2''" T_ENABLED] show thesis using that by force
qed

lemma demo_delete:
  obtains h es where "template_service_run [demo_created, demo_enabled, demo_disabled, demo_deleted] =
    \<lparr>ts_templates = [((''acme'', ''launch''), demo_template_at T_DELETED 3)],
     ts_versions = [((''acme'', ''launch'', 1), demo_template_version h)], ts_events = es,
     ts_event_ids = [(''acme'', ''e1''), (''acme'', ''e2''), (''acme'', ''e3''), (''acme'', ''e4'')]\<rparr>"
proof -
  obtain h es where c: "template_service_run [demo_created, demo_enabled] =
    \<lparr>ts_templates = [((''acme'', ''launch''), demo_template_at T_ENABLED 1)],
     ts_versions = [((''acme'', ''launch'', 1), demo_template_version h)], ts_events = es,
     ts_event_ids = [(''acme'', ''e1''), (''acme'', ''e2'')]\<rparr>" by (rule demo_enable)
  have st: "wt_status (demo_template_at x n) = x" for x n by (simp add: demo_template_at_def)
  have "template_service_run [demo_created, demo_enabled, demo_disabled] =
      fst (set_status ''e3'' (1 + 2) (template_service_run [demo_created, demo_enabled])
        (demo_template_at T_ENABLED 1) T_DISABLED ''ann'' [])"
    using run_last [of "[demo_created, demo_enabled]" "''e3''" 3 "Disable ''acme'' ''launch'' ''ann''"] demo_latest [OF c]
    by (simp add: demo_disabled_def disable_def before_store_def st)
  with demo_set_status [OF c, of "''e3''" T_DISABLED "[]"] obtain es' where
    d: "template_service_run [demo_created, demo_enabled, demo_disabled] =
    \<lparr>ts_templates = [((''acme'', ''launch''), demo_template_at T_DISABLED 2)],
     ts_versions = [((''acme'', ''launch'', 1), demo_template_version h)], ts_events = es',
     ts_event_ids = [(''acme'', ''e1''), (''acme'', ''e2''), (''acme'', ''e3'')]\<rparr>" by force
  have "template_service_run [demo_created, demo_enabled, demo_disabled, demo_deleted] =
      fst (set_status ''e4'' (2 + 2) (template_service_run [demo_created, demo_enabled, demo_disabled])
        (demo_template_at T_DISABLED 2) T_DELETED ''ann'' [])"
    using run_last [of "[demo_created, demo_enabled, demo_disabled]" "''e4''" 4 "Delete ''acme'' ''launch'' ''ann''"] demo_latest [OF d]
    by (simp add: demo_deleted_def delete_def before_store_def st)
  with demo_set_status [OF d, of "''e4''" T_DELETED "[]"] show thesis using that by force
qed


section \<open>Properties\<close>

lemma authored_facts:
  assumes "authored v"
  shows "tv_schema_version v = ''0.2''" "json_clean_map (tv_definition v)"
    "validate_template_definition (to_json_map (tv_definition v)) = Inr ()"
    "content_hash_of (tv_locked v) (to_json_map (tv_definition v)) = Inr (tv_content_hash v)"
proof -
  obtain document eid ever p t now where p: "parse_template_document document eid ever = Inr p"
    and v: "v = mk_version t p now" using assms unfolding authored_def by blast
  obtain goal where d: "pt_definition p = parsed_definition goal document"
    and valid: "validate_template_definition (pt_definition p) = Inr ()"
    and hash: "content_hash_of (pt_locked p) (pt_definition p) = Inr (pt_content_hash p)"
    using p by (rule parse_templateE)
  have td: "tv_definition v = freeze_map (parsed_definition goal document)" using v d by simp
  have same: "to_json_map (tv_definition v) = pt_definition p"
    unfolding td d freeze_parsed unfolding to_json_map_def parsed_definition_def by simp
  show "tv_schema_version v = ''0.2''" using v by simp
  show "validate_template_definition (to_json_map (tv_definition v)) = Inr ()" using valid same by simp
  show "content_hash_of (tv_locked v) (to_json_map (tv_definition v)) = Inr (tv_content_hash v)" using hash same v by simp
  have "json_text True (PDict [(''locked'', PBool (pt_locked p)), (''definition'', PDict (pt_definition p))]) \<noteq> None"
    using hash by (auto simp: content_hash_of_def split: option.splits)
  from json_text_items [OF this, of "''definition''" "PDict (pt_definition p)"]
  have whole: "json_text True (PDict (pt_definition p)) \<noteq> None" by simp
  have item: "json_clean (freeze (to_json_value x))" if "(k, to_json_value x) \<in> set (pt_definition p)" for k x
    by (rule json_text_clean [OF json_text_items [OF whole that]])
  have "json_clean (freeze (to_json_value (or_empty (getv document ''parameters'') (PDict []))))"
    by (rule item [of "''parameters''"]) (simp add: d parsed_definition_def)
  moreover have "json_clean (freeze (to_json_value (or_empty (getv document ''nodes'') (PTuple []))))"
    by (rule item [of "''nodes''"]) (simp add: d parsed_definition_def)
  ultimately show "json_clean_map (tv_definition v)"
    unfolding td freeze_parsed json_clean_map_def by simp
qed

text \<open>C21: in every store the commands of the template service reach, the versions of a template are
  numbered from one without a gap, and every stored version is a valid definition of schema 0.2 whose
  content hash is the hash of what is stored; failed commands included.\<close>

theorem template_store_sound:
  assumes "s = template_service_run cs" and "dget (ts_templates s) (tenant, tid) = Some t"
  shows "(\<exists>m \<ge> 1. template_numbers s (tenant, tid) = {1..m}) \<and>
     (\<forall>n v. dget (ts_versions s) (tenant, tid, n) = Some v \<longrightarrow> tv_version v = n \<and> tv_schema_version v = ''0.2'' \<and>
        validate_template_definition (to_json_map (tv_definition v)) = Inr () \<and>
        content_hash_of (tv_locked v) (to_json_map (tv_definition v)) = Inr (tv_content_hash v))"
proof -
  have inv: "service_inv s" unfolding assms(1) by (rule service_run_inv)
  have "tv_version v = n \<and> authored v" if "dget (ts_versions s) (tenant, tid, n) = Some v" for n v
    using template_inv_version [OF service_invD(1) [OF inv] that] service_invD(3) [OF inv that] by blast
  with template_inv_key [OF service_invD(1) [OF inv] assms(2)] authored_facts show ?thesis by blast
qed

theorem template_store_sound_witness:
  "\<exists>v. dget (ts_versions (template_service_run [demo_created])) (''acme'', ''launch'', 1) = Some v \<and>
     content_hash_of (tv_locked v) (to_json_map (tv_definition v)) = Inr (tv_content_hash v)"
proof -
  obtain h e where c: "template_service_run [demo_created] =
    \<lparr>ts_templates = [((''acme'', ''launch''), demo_template_at T_DRAFT 0)],
     ts_versions = [((''acme'', ''launch'', 1), demo_template_version h)],
     ts_events = [e], ts_event_ids = [(''acme'', ''e1'')]\<rparr>" by (rule demo_create)
  then have "dget (ts_templates (template_service_run [demo_created])) (''acme'', ''launch'') = Some (demo_template_at T_DRAFT 0)"
    and v: "dget (ts_versions (template_service_run [demo_created])) (''acme'', ''launch'', 1) = Some (demo_template_version h)"
    by simp_all
  from template_store_sound [OF refl this(1)] v show ?thesis by blast
qed

text \<open>C20: a template that is enabled can be used: its latest version instantiates, with any inputs that
  fit its parameters and one person for each of its roles, to a snapshot that passes validation, names
  the version and is owned by the persons given; provided the ids, titles, roles and executors of its
  nodes carry no surrounding white space.\<close>

theorem enabled_template_instantiates:
  assumes "s = template_service_run cs" and "get_template s tenant tid = Inr t" and "wt_status t = T_ENABLED"
    and "get_template_version s tenant tid None = Inr v" and "iter_items (getv (tv_definition v) ''nodes'') = Inr nodes"
    and "list_all trimmed_node nodes" and "template_parameters (tv_definition v) = Inr parameters"
    and "inputs_fit parameters inputs" and "bindings_fit (tv_definition v) bindings"
  shows "\<exists>snapshot. instantiate s tenant tid inputs bindings = Inr snapshot \<and> validate_snapshot snapshot = Inr () \<and>
     sn_template_version_id snapshot = Some (tv_id v) \<and>
     (\<forall>n \<in> set (sn_nodes snapshot). ns_owner_person_id n \<in> snd ` set bindings)"
proof -
  have inv: "service_inv s" unfolding assms(1) by (rule service_run_inv)
  have t: "dget (ts_templates s) (tenant, tid) = Some t"
    using assms(2) by (simp add: get_template_def get_or_raise_Inr_iff)
  have l: "latest s (tenant, tid) v" using assms(4) get_latest [OF service_invD(1) [OF inv] t] by blast
  then have a: "authored v" using service_invD(3) [OF inv] by (auto simp: latest_def)
  have stored: "stored_definition (tv_definition v)"
    unfolding stored_definition_def assms(5) using authored_facts(2) [OF a] assms(6) by simp
  obtain x where "instantiate_template_version v inputs bindings = Inr x" "validate_snapshot x = Inr ()"
    "sn_template_version_id x = Some (tv_id v)" "\<forall>n \<in> set (sn_nodes x). ns_owner_person_id n \<in> snd ` set bindings"
    by (rule validated_template_instantiates [OF service_invD(4) [OF inv t assms(3) l] stored authored_facts(1) [OF a] assms(7-9)])
  then show ?thesis by (intro exI [of _ x]) (simp add: instantiate_def assms(2-4))
qed

lemma demo_fits:
  "iter_items (getv (freeze_map (demo_definition ''human'')) ''nodes'') =
     Inr [freeze (to_json_value (demo_definition_node ''human'' ''brief'' [])),
          freeze (to_json_value (demo_definition_node ''human'' ''text'' [''brief'']))]"
  "list_all trimmed_node [freeze (to_json_value (demo_definition_node ''human'' ''brief'' [])),
          freeze (to_json_value (demo_definition_node ''human'' ''text'' [''brief'']))]"
  "template_parameters (freeze_map (demo_definition ''human'')) =
     Inr [(''topic'', PFrozen [(''type'', PStr ''text''), (''required'', PBool True)])]"
  "inputs_fit [(''topic'', PFrozen [(''type'', PStr ''text''), (''required'', PBool True)])] [(''topic'', PStr ''x'')]"
  "bindings_fit (freeze_map (demo_definition ''human'')) [(''lead'', ''ou_1'')]"
  by code_simp+

theorem enabled_template_instantiates_witness:
  "\<exists>snapshot. instantiate (template_service_run [demo_created, demo_enabled]) ''acme'' ''launch''
     [(''topic'', PStr ''x'')] [(''lead'', ''ou_1'')] = Inr snapshot \<and> validate_snapshot snapshot = Inr ()"
proof -
  obtain h es where c: "template_service_run [demo_created, demo_enabled] =
    \<lparr>ts_templates = [((''acme'', ''launch''), demo_template_at T_ENABLED 1)],
     ts_versions = [((''acme'', ''launch'', 1), demo_template_version h)], ts_events = es,
     ts_event_ids = [(''acme'', ''e1''), (''acme'', ''e2'')]\<rparr>" by (rule demo_enable)
  have d: "tv_definition (demo_template_version h) = freeze_map (demo_definition ''human'')"
    by (simp add: demo_template_version_def)
  have st: "wt_status (demo_template_at T_ENABLED 1) = T_ENABLED" by (simp add: demo_template_at_def)
  from demo_latest [OF c] have g: "get_template (template_service_run [demo_created, demo_enabled]) ''acme'' ''launch'' =
      Inr (demo_template_at T_ENABLED 1)"
    "get_template_version (template_service_run [demo_created, demo_enabled]) ''acme'' ''launch'' None =
      Inr (demo_template_version h)" by blast+
  from enabled_template_instantiates [OF refl g(1) st g(2), unfolded d, OF demo_fits] show ?thesis by blast
qed

text \<open>C23: deletion is final: whatever commands follow, a deleted template and its versions stay as they
  are and it cannot be instantiated.\<close>

theorem deleted_template_final:
  assumes "dget (ts_templates (template_service_run cs)) k = Some t" and "wt_status t = T_DELETED"
  shows "template_view (template_service_run (cs @ cs')) k = template_view (template_service_run cs) k \<and>
     \<not> is_ok (instantiate (template_service_run (cs @ cs')) (fst k) (snd k) inputs bindings)"
proof -
  have stays: "template_view (template_service_run (cs @ cs')) k = template_view (template_service_run cs) k"
  proof (induction cs' rule: rev_induct)
    case (snoc c cs')
    obtain eid now cmd where c: "c = (eid, now, cmd)" by (cases c)
    from snoc assms(1) have "dget (ts_templates (template_service_run (cs @ cs'))) k = Some t"
      by (simp add: template_view_def)
    from deleted_stays [OF service_run_inv this assms(2), of eid now cmd] snoc
    show ?case using run_last [of "cs @ cs'" eid now cmd] by (simp add: c)
  qed simp
  then have "get_template (template_service_run (cs @ cs')) (fst k) (snd k) = Inr t"
    using assms(1) by (simp add: template_view_def get_template_def)
  with stays deleted_refused(5) [OF this assms(2)] show ?thesis by blast
qed

theorem deleted_template_final_witness:
  "template_view (template_service_run ([demo_created, demo_enabled, demo_disabled, demo_deleted] @ [demo_enabled]))
     (''acme'', ''launch'') =
   template_view (template_service_run [demo_created, demo_enabled, demo_disabled, demo_deleted]) (''acme'', ''launch'')"
proof -
  obtain h es where "template_service_run [demo_created, demo_enabled, demo_disabled, demo_deleted] =
    \<lparr>ts_templates = [((''acme'', ''launch''), demo_template_at T_DELETED 3)],
     ts_versions = [((''acme'', ''launch'', 1), demo_template_version h)], ts_events = es,
     ts_event_ids = [(''acme'', ''e1''), (''acme'', ''e2''), (''acme'', ''e3''), (''acme'', ''e4'')]\<rparr>" by (rule demo_delete)
  then have t: "dget (ts_templates (template_service_run [demo_created, demo_enabled, demo_disabled, demo_deleted]))
      (''acme'', ''launch'') = Some (demo_template_at T_DELETED 3)" by simp
  have "wt_status (demo_template_at T_DELETED 3) = T_DELETED" by (simp add: demo_template_at_def)
  from deleted_template_final [OF t this] show ?thesis by blast
qed

text \<open>C22: an exported draft is an import of itself: the document of any stored version of a draft
  template parses, under its own id and number, to a definition from which the service makes the same
  version again, hash included.\<close>

theorem template_document_round_trip:
  assumes "s = template_service_run cs" and "get_template s tenant tid = Inr t" and "wt_status t = T_DRAFT"
    and "get_template_version s tenant tid n = Inr v"
  shows "\<exists>p. parse_template_document (template_document t v) (Some tid) (Some (tv_version v)) = Inr p \<and>
     pt_name p = wt_name t \<and> mk_version t p (tv_created_at v) = v"
  using document_round_trip [OF service_run_inv assms(2-4) [unfolded assms(1)]] by (simp add: assms(1))

theorem template_document_round_trip_witness:
  "\<exists>h p. parse_template_document (template_document (demo_template_at T_DRAFT 0) (demo_template_version h))
     (Some ''launch'') (Some 1) = Inr p \<and> pt_name p = ''Launch''"
proof -
  obtain h e where c: "template_service_run [demo_created] =
    \<lparr>ts_templates = [((''acme'', ''launch''), demo_template_at T_DRAFT 0)],
     ts_versions = [((''acme'', ''launch'', 1), demo_template_version h)],
     ts_events = [e], ts_event_ids = [(''acme'', ''e1'')]\<rparr>" by (rule demo_create)
  have d: "wt_status (demo_template_at T_DRAFT 0) = T_DRAFT" "wt_name (demo_template_at T_DRAFT 0) = ''Launch''"
    "tv_version (demo_template_version h) = 1" by (simp_all add: demo_template_at_def demo_template_version_def)
  from demo_latest [OF c] have "get_template (template_service_run [demo_created]) ''acme'' ''launch'' = Inr (demo_template_at T_DRAFT 0)"
    "get_template_version (template_service_run [demo_created]) ''acme'' ''launch'' None = Inr (demo_template_version h)" by blast+
  from template_document_round_trip [OF refl this(1) d(1) this(2), unfolded d] show ?thesis by blast
qed



text \<open>A one-off definition that is instantiated gives a valid, unlocked snapshot without a template, of
  at most a hundred nodes, owned by the persons bound to exactly the roles it names, none of whose agents
  asks for the personal capability.\<close>

lemma inline_definition_sound:
  assumes "instantiate_inline_definition document bindings = Inr s"
  shows "validate_snapshot s = Inr () \<and> sn_template_version_id s = None \<and> \<not> sn_locked s \<and>
     length (sn_nodes s) \<le> MAX_INLINE_NODES \<and>
     (\<exists>roles. inline_owner_roles document = Inr roles \<and> set roles = set (dkeys bindings)) \<and>
     (\<forall>n \<in> set (sn_nodes s). \<not> personal_agent (ns_work n) \<and> ns_owner_person_id n \<in> snd ` set bindings)"
  using inline_sound [OF assms] by blast

definition demo_inline :: pmap where
  "demo_inline = [(''goal'', PStr ''launch''), (''inputs'', PDict [(''budget'', PInt 3)]),
     (''nodes'', PList [demo_definition_node ''human'' ''brief'' []])]"

end
