(* ===== verification/Shared_World.thy ===== *)
theory Shared_World
  imports System
begin

text \<open>
  The processes around the service: workers, gateways and daemons call it on one shared repository.
  Between any two accesses of one of them the others may extend the history of the repository; what
  they do is a parameter. A process that only uses the commands of the service takes steps of the
  system, whatever the others do.
\<close>

section \<open>The shared repository\<close>

text \<open>
  The states of the repository so far, the last of which is the present one, and the number of times
  the process has let others run. \<open>wd_others\<close> says what they do at such a moment;
  \<open>wd_env\<close> is the environment (ids, tokens, clock) of its calls.
\<close>

record world =
  wd_env :: "nat \<Rightarrow> env"
  wd_others :: "nat \<Rightarrow> repository list \<Rightarrow> repository list"

record shared =
  sh_states :: "repository list"
  sh_turn :: nat

definition others_run :: "world \<Rightarrow> shared \<Rightarrow> shared" where
  "others_run wd sh = \<lparr>sh_states = wd_others wd (sh_turn sh) (sh_states sh), sh_turn = sh_turn sh + 1\<rparr>"

text \<open>A read, and a command, which reads at one moment and saves at a later one.\<close>

definition shared_read :: "world \<Rightarrow> (env \<Rightarrow> repository \<Rightarrow> 'a res) \<Rightarrow> shared \<Rightarrow> shared \<times> 'a res" where
  "shared_read wd f sh = (let sh = others_run wd sh in (sh, f (wd_env wd (sh_turn sh)) (last (sh_states sh))))"

definition shared_command ::
    "world \<Rightarrow> (env \<Rightarrow> repository \<Rightarrow> repository \<Rightarrow> (repository \<times> 'a) res) \<Rightarrow> shared \<Rightarrow> shared \<times> 'a res" where
  "shared_command wd f sh =
     (let sh1 = others_run wd sh; sh2 = others_run wd sh1 in
      case f (wd_env wd (sh_turn sh2)) (last (sh_states sh1)) (last (sh_states sh2)) of
        Inl e \<Rightarrow> (sh2, Inl e)
      | Inr (r1, x) \<Rightarrow> (sh2\<lparr>sh_states := sh_states sh2 @ [r1]\<rparr>, Inr x))"

section \<open>Histories\<close>

text \<open>The other processes only extend the history of the repository by commands.\<close>

definition others_are_commands :: "world \<Rightarrow> bool" where
  "others_are_commands wd \<longleftrightarrow>
     (\<forall>n rs. history rs \<longrightarrow> history (wd_others wd n rs) \<and> set rs \<subseteq> set (wd_others wd n rs))"

lemma others_run_history:
  "others_are_commands wd \<Longrightarrow> history (sh_states sh) \<Longrightarrow>
     history (sh_states (others_run wd sh)) \<and> set (sh_states sh) \<subseteq> set (sh_states (others_run wd sh))"
  by (simp add: others_are_commands_def others_run_def)

lemma shared_read_history:
  "others_are_commands wd \<Longrightarrow> history (sh_states sh) \<Longrightarrow> history (sh_states (fst (shared_read wd f sh)))"
  by (simp add: shared_read_def Let_def others_run_history)

lemma shared_read_after:
  "shared_read wd f sh = (sh', x) \<Longrightarrow> others_are_commands wd \<Longrightarrow> history (sh_states sh) \<Longrightarrow> history (sh_states sh')"
  using shared_read_history [of wd sh f] by simp

lemma shared_command_history:
  assumes others: "others_are_commands wd" and hist: "history (sh_states sh)"
    and cmd: "\<And>env r r' r1 x. f env r r' = Inr (r1, x) \<Longrightarrow> command r r' r1"
  shows "history (sh_states (fst (shared_command wd f sh)))"
proof -
  let ?sh1 = "others_run wd sh"
  let ?sh2 = "others_run wd ?sh1"
  have h1: "history (sh_states ?sh1)" using others_run_history [OF others hist] by simp
  note h2 = others_run_history [OF others h1]
  have r: "last (sh_states ?sh1) \<in> set (sh_states ?sh2)"
    using h2 history_not_empty [OF h1] last_in_set by blast
  show ?thesis
  proof (cases "f (wd_env wd (sh_turn ?sh2)) (last (sh_states ?sh1)) (last (sh_states ?sh2))")
    case (Inl e)
    with h2 show ?thesis by (simp add: shared_command_def Let_def)
  next
    case (Inr p)
    obtain r1 x where p: "p = (r1, x)" by (cases p)
    from history.intros(2) [OF _ r cmd [OF Inr [unfolded p]]] h2 Inr p
    show ?thesis by (simp add: shared_command_def Let_def)
  qed
qed

text \<open>A process that has read or written knows states of the history that is then on record.\<close>

lemma shared_readE:
  assumes "shared_read wd f sh = (sh', x)" and "others_are_commands wd" and "history (sh_states sh)"
  obtains env r where "x = f env r" "r \<in> set (sh_states sh')" "history (sh_states sh')" "set (sh_states sh) \<subseteq> set (sh_states sh')"
proof -
  have sh': "sh' = others_run wd sh" "x = f (wd_env wd (sh_turn sh')) (last (sh_states sh'))"
    using assms(1) by (auto simp: shared_read_def Let_def)
  note h = others_run_history [OF assms(2,3)]
  then have "last (sh_states sh') \<in> set (sh_states sh')" unfolding sh'(1) using history_not_empty last_in_set by blast
  with that h sh' show thesis by blast
qed

lemma shared_commandE:
  assumes "shared_command wd f sh = (sh', Inr x)" and "others_are_commands wd" and "history (sh_states sh)"
    and cmd: "\<And>env r r' r1 x. f env r r' = Inr (r1, x) \<Longrightarrow> command r r' r1"
  obtains env r r' r1 where "f env r r' = Inr (r1, x)" "r \<in> set (sh_states sh')" "r' \<in> set (sh_states sh')" "r1 \<in> set (sh_states sh')"
    "r1 = last (sh_states sh')" "history (sh_states sh')" "set (sh_states sh) \<subseteq> set (sh_states sh')"
proof -
  let ?sh1 = "others_run wd sh"
  let ?sh2 = "others_run wd ?sh1"
  note h1 = others_run_history [OF assms(2,3)]
  note h2 = others_run_history [OF assms(2) conjunct1 [OF h1]]
  have last: "last (sh_states ?sh1) \<in> set (sh_states ?sh2)" "last (sh_states ?sh2) \<in> set (sh_states ?sh2)"
    using h1 h2 history_not_empty last_in_set by blast+
  obtain r1 where f: "f (wd_env wd (sh_turn ?sh2)) (last (sh_states ?sh1)) (last (sh_states ?sh2)) = Inr (r1, x)"
    and sh': "sh' = ?sh2\<lparr>sh_states := sh_states ?sh2 @ [r1]\<rparr>"
    using assms(1) by (auto simp: shared_command_def Let_def split: sum.splits)
  have "history (sh_states sh')" using shared_command_history [OF assms(2,3) cmd, of f] assms(1) by simp
  moreover have "set (sh_states ?sh2) \<subseteq> set (sh_states sh')" "r1 \<in> set (sh_states sh')" "r1 = last (sh_states sh')" by (auto simp: sh')
  ultimately show thesis using that [OF f] last h1 h2 by blast
qed

end
