(* ===== verification/Worker.thy ===== *)
theory Worker
  imports Shared_World
begin

text \<open>
  \<open>WorkflowWorker\<close> of \<open>src/larkflow/workflow/runtime.py\<close>: one tick lists the due instances,
  dispatches each, runs at most one claimed automated node in its executor and reports the outcome to
  the service. The executors are external: a parameter.
\<close>

section \<open>Requests, results, executors\<close>

record execution_request =
  er_tenant_id :: string
  er_instance_id :: string
  er_node_key :: string
  er_attempt_id :: string
  er_attempt_no :: int
  er_owner_person_id :: string
  er_executor :: executor_kind
  er_work :: pmap
  er_input_snapshot :: pmap
  er_expected_node_version :: int
  er_claim_token :: string
  er_claim_expires_at :: time

definition idempotency_key :: "execution_request \<Rightarrow> string" where
  "idempotency_key q = er_tenant_id q @ '':'' @ er_attempt_id q"

record execution_result =
  ex_result :: pmap
  ex_quality_result :: "quality_result option"

text \<open>What a call of an executor does: it raises, with the value of the attribute \<open>error_code\<close> (or the
  default of \<open>getattr\<close>) and the text \<open>type: message\<close>, or it returns.\<close>

datatype execution_outcome = Raised pval string | Returned execution_result

record automated_executor =
  ax_accepts :: "(executor_kind \<Rightarrow> pmap \<Rightarrow> bool) option"
  ax_execute :: "execution_request \<Rightarrow> execution_outcome"

record worker =
  wk_tenant_id :: string
  wk_worker_id :: string
  wk_executors :: "executor_kind \<Rightarrow> automated_executor option"
  wk_candidate_limit :: int

definition mk_worker ::
    "string \<Rightarrow> string \<Rightarrow> (executor_kind \<Rightarrow> automated_executor option) \<Rightarrow> int \<Rightarrow> worker res" where
  "mk_worker tenant wid executors limit =
     rbind (ensure (\<not> blank tenant) (ValueError ''tenant_id is required'')) (\<lambda>_.
     rbind (ensure (\<not> blank wid) (ValueError ''worker_id is required'')) (\<lambda>_.
     rbind (ensure (1 \<le> limit) (ValueError ''candidate_limit must be positive'')) (\<lambda>_.
     rbind (ensure (executors HUMAN = None) (ValueError ''human work cannot be registered as an automated executor'')) (\<lambda>_.
     Inr \<lparr>wk_tenant_id = tenant, wk_worker_id = wid, wk_executors = executors, wk_candidate_limit = limit\<rparr>))))"

record worker_report =
  wr_candidates :: nat
  wr_human_dispatched :: nat
  wr_automated_claimed :: nat
  wr_recovered :: nat
  wr_completed :: nat
  wr_failed :: nat
  wr_conflicts :: nat
  wr_stale_results :: nat
  wr_errors :: "string list"

definition empty_report :: worker_report where
  "empty_report = \<lparr>wr_candidates = 0, wr_human_dispatched = 0, wr_automated_claimed = 0, wr_recovered = 0,
     wr_completed = 0, wr_failed = 0, wr_conflicts = 0, wr_stale_results = 0, wr_errors = []\<rparr>"

section \<open>One tick\<close>

text \<open>The state of a tick, and sequences of its steps, stopped by an exception.\<close>

record tick =
  tk_shared :: shared
  tk_remaining :: int
  tk_report :: worker_report

fun tick_loop :: "('x \<Rightarrow> tick \<Rightarrow> tick \<times> unit res) \<Rightarrow> 'x list \<Rightarrow> tick \<Rightarrow> tick \<times> unit res" where
  "tick_loop f [] tk = (tk, Inr ())"
| "tick_loop f (x # xs) tk = (case f x tk of (tk, Inl e) \<Rightarrow> (tk, Inl e) | (tk, Inr _) \<Rightarrow> tick_loop f xs tk)"

fun stale_result_error :: "exn \<Rightarrow> bool" where
  "stale_result_error (ClaimExpiredError _) = True"
| "stale_result_error (ConcurrentUpdateError _) = True"
| "stale_result_error (InvalidClaimError _) = True"
| "stale_result_error (StaleAttemptError _) = True"
| "stale_result_error (TransitionError _) = True"
| "stale_result_error _ = False"

definition unless_stale :: "shared \<times> 'a res \<Rightarrow> shared \<times> bool res" where
  "unless_stale x = (case x of
     (sh, Inr _) \<Rightarrow> (sh, Inr True)
   | (sh, Inl e) \<Rightarrow> if stale_result_error e then (sh, Inr False) else (sh, Inl e))"

definition token_or_empty :: "node_activation \<Rightarrow> string" where
  "token_or_empty a = (case act_claim_token a of None \<Rightarrow> [] | Some t \<Rightarrow> t)"

definition worker_complete ::
    "world \<Rightarrow> worker \<Rightarrow> node_activation \<Rightarrow> execution_result \<Rightarrow> shared \<Rightarrow> shared \<times> bool res" where
  "worker_complete wd wk a result sh = unless_stale (shared_command wd (\<lambda>env r r'.
     service_complete_automated env r r' (wk_tenant_id wk) (act_instance_id a) (act_node_key a) (act_attempt_no a)
       (act_expected_node_version a) (token_or_empty a) (ex_result result) (ex_quality_result result)
       (wk_worker_id wk) None) sh)"

definition worker_fail ::
    "world \<Rightarrow> worker \<Rightarrow> node_activation \<Rightarrow> string \<Rightarrow> string \<Rightarrow> shared \<Rightarrow> shared \<times> bool res" where
  "worker_fail wd wk a code message sh = unless_stale (shared_command wd (\<lambda>env r r'.
     service_fail_automated env r r' (wk_tenant_id wk) (act_instance_id a) (act_node_key a) (act_attempt_no a)
       (act_expected_node_version a) (token_or_empty a) code message (wk_worker_id wk) None) sh)"

definition worker_request :: "world \<Rightarrow> worker \<Rightarrow> node_activation \<Rightarrow> shared \<Rightarrow> shared \<times> execution_request res" where
  "worker_request wd wk a = shared_read wd (\<lambda>env r.
     rbind (repo_get r (wk_tenant_id wk) (act_instance_id a)) (\<lambda>w.
     rbind (current_attempt w (act_node_key a)) (\<lambda>attempt.
     rbind (get_or_raise (act_claim_token a) (InvalidClaimError ''automated activation is missing its claim lease'')) (\<lambda>token.
     rbind (get_or_raise (act_claim_expires_at a) (InvalidClaimError ''automated activation is missing its claim lease'')) (\<lambda>expires.
     rbind (snapshot_node (wi_snapshot w) (act_node_key a)) (\<lambda>spec.
     Inr \<lparr>er_tenant_id = wk_tenant_id wk, er_instance_id = act_instance_id a, er_node_key = act_node_key a,
          er_attempt_id = act_attempt_id a, er_attempt_no = act_attempt_no a,
          er_owner_person_id = act_owner_person_id a, er_executor = act_executor a,
          er_work = freeze_map (ns_work spec), er_input_snapshot = freeze_map (na_input_snapshot attempt),
          er_expected_node_version = act_expected_node_version a, er_claim_token = token,
          er_claim_expires_at = expires\<rparr>))))))"

definition eligible_keys :: "worker \<Rightarrow> workflow_instance \<Rightarrow> string list" where
  "eligible_keys wk w = map ns_key (filter (\<lambda>spec. ns_executor spec \<noteq> HUMAN \<and>
     (case wk_executors wk (ns_executor spec) of None \<Rightarrow> False
      | Some x \<Rightarrow> (case ax_accepts x of None \<Rightarrow> True | Some accepts \<Rightarrow> accepts (ns_executor spec) (ns_work spec))))
     (sn_nodes (wi_snapshot w)))"

definition eligible_automated_node_keys :: "world \<Rightarrow> worker \<Rightarrow> string \<Rightarrow> shared \<Rightarrow> shared \<times> string list res" where
  "eligible_automated_node_keys wd wk iid = shared_read wd (\<lambda>env r.
     rbind (repo_get r (wk_tenant_id wk) iid) (\<lambda>w. Inr (eligible_keys wk w)))"

text \<open>The outcome of a claimed node in the report: completed, or failed with an error, or stale.\<close>

definition count_completed :: "bool \<Rightarrow> worker_report \<Rightarrow> worker_report" where
  "count_completed ok p = (if ok then p\<lparr>wr_completed := wr_completed p + 1\<rparr>
     else p\<lparr>wr_stale_results := wr_stale_results p + 1\<rparr>)"

definition count_failed :: "bool \<Rightarrow> string \<Rightarrow> worker_report \<Rightarrow> worker_report" where
  "count_failed ok err p = (if ok then p\<lparr>wr_failed := wr_failed p + 1, wr_errors := wr_errors p @ [err]\<rparr>
     else p\<lparr>wr_stale_results := wr_stale_results p + 1, wr_errors := wr_errors p @ [err]\<rparr>)"

definition count_claimed :: "node_activation \<Rightarrow> tick \<Rightarrow> tick" where
  "count_claimed a tk = tk\<lparr>tk_remaining := tk_remaining tk - 1,
     tk_report := (tk_report tk)\<lparr>wr_automated_claimed := wr_automated_claimed (tk_report tk) + 1,
       wr_recovered := wr_recovered (tk_report tk) + (if act_recovered a then 1 else 0)\<rparr>\<rparr>"

text \<open>A call on the shared repository within a tick, and what the report says of its result.\<close>

definition on_shared ::
    "(shared \<Rightarrow> shared \<times> 'a res) \<Rightarrow> ('a \<Rightarrow> tick \<Rightarrow> tick \<times> unit res) \<Rightarrow> tick \<Rightarrow> tick \<times> unit res" where
  "on_shared f g tk = (case f (tk_shared tk) of
     (sh, Inl e) \<Rightarrow> (tk\<lparr>tk_shared := sh\<rparr>, Inl e)
   | (sh, Inr x) \<Rightarrow> g x (tk\<lparr>tk_shared := sh\<rparr>))"

definition report_failure ::
    "world \<Rightarrow> worker \<Rightarrow> node_activation \<Rightarrow> string \<Rightarrow> string \<Rightarrow> tick \<Rightarrow> tick \<times> unit res" where
  "report_failure wd wk a code err = on_shared (worker_fail wd wk a code err)
     (\<lambda>ok tk. (tk\<lparr>tk_report := count_failed ok err (tk_report tk)\<rparr>, Inr ()))"

text \<open>\<open>exc.error_code\<close> when it is a non-blank string.\<close>

definition error_code_of :: "pval \<Rightarrow> string" where
  "error_code_of v = (if is_text v then py_str v else ''executor_error'')"

definition report_result ::
    "world \<Rightarrow> worker \<Rightarrow> node_activation \<Rightarrow> execution_result \<Rightarrow> tick \<Rightarrow> tick \<times> unit res" where
  "report_result wd wk a result tk = (case worker_complete wd wk a result (tk_shared tk) of
     (sh, Inl (DeliverableValidationError m)) \<Rightarrow>
       report_failure wd wk a ''deliverable_invalid'' (''DeliverableValidationError: '' @ m) (tk\<lparr>tk_shared := sh\<rparr>)
   | (sh, Inl e) \<Rightarrow> (tk\<lparr>tk_shared := sh\<rparr>, Inl e)
   | (sh, Inr ok) \<Rightarrow> (tk\<lparr>tk_shared := sh, tk_report := count_completed ok (tk_report tk)\<rparr>, Inr ()))"

definition work_on :: "world \<Rightarrow> worker \<Rightarrow> node_activation \<Rightarrow> tick \<Rightarrow> tick \<times> unit res" where
  "work_on wd wk a tk =
     (if act_executor a = HUMAN then
        (tk\<lparr>tk_report := (tk_report tk)\<lparr>wr_human_dispatched := wr_human_dispatched (tk_report tk) + 1\<rparr>\<rparr>, Inr ())
      else on_shared (worker_request wd wk a) (\<lambda>request tk.
        case wk_executors wk (act_executor a) of
          None \<Rightarrow> report_failure wd wk a ''executor_not_configured''
                    (''no executor registered for '' @ executor_value (act_executor a)) tk
        | Some x \<Rightarrow>
            (case ax_execute x request of
               Raised code err \<Rightarrow> report_failure wd wk a (error_code_of code) err tk
             | Returned result \<Rightarrow> report_result wd wk a result tk))
        (count_claimed a tk))"

definition due_command :: "world \<Rightarrow> worker \<Rightarrow> string \<Rightarrow> int \<Rightarrow> string list \<Rightarrow> shared \<Rightarrow> shared \<times> node_activation list res" where
  "due_command wd wk iid remaining keys = shared_command wd (\<lambda>env r r'.
     dispatch_due env r r' (wk_tenant_id wk) iid (wk_worker_id wk) remaining (Some keys) None)"

definition work_instance :: "world \<Rightarrow> worker \<Rightarrow> string \<Rightarrow> tick \<Rightarrow> tick \<times> unit res" where
  "work_instance wd wk iid = on_shared (eligible_automated_node_keys wd wk iid) (\<lambda>keys tk.
     case due_command wd wk iid (tk_remaining tk) keys (tk_shared tk) of
       (sh, Inl (ConcurrentUpdateError m)) \<Rightarrow>
         (tk\<lparr>tk_shared := sh,
             tk_report := (tk_report tk)\<lparr>wr_conflicts := wr_conflicts (tk_report tk) + 1\<rparr>\<rparr>, Inr ())
     | (sh, Inl e) \<Rightarrow> (tk\<lparr>tk_shared := sh\<rparr>, Inl e)
     | (sh, Inr acts) \<Rightarrow> tick_loop (work_on wd wk) acts (tk\<lparr>tk_shared := sh\<rparr>))"

definition run_once :: "world \<Rightarrow> worker \<Rightarrow> shared \<Rightarrow> shared \<times> worker_report res" where
  "run_once wd wk sh =
     (case shared_read wd (\<lambda>env r. runnable_instance_ids r (wk_tenant_id wk) (env_now env) (wk_candidate_limit wk)) sh of
        (sh, Inl e) \<Rightarrow> (sh, Inl e)
      | (sh, Inr iids) \<Rightarrow>
          (case tick_loop (work_instance wd wk) iids \<lparr>tk_shared = sh, tk_remaining = 1, tk_report = empty_report\<rparr> of
             (tk, Inl e) \<Rightarrow> (tk_shared tk, Inl e)
           | (tk, Inr _) \<Rightarrow> (tk_shared tk, Inr ((tk_report tk)\<lparr>wr_candidates := length iids\<rparr>))))"

end
