(* ===== verification/Worker_Properties.thy ===== *)
theory Worker_Properties
  imports Worker System_Properties
begin

text \<open>
  The properties of \<open>WorkflowWorker.run_once\<close>: whatever the executors return and whatever other
  processes do meanwhile, a tick only takes steps of the system, works on at most one automated node
  and accounts for it in its report.
\<close>

section \<open>A tick is a sequence of commands\<close>


lemma fst_on_shared:
  assumes "P (fst (f (tk_shared tk)))"
    and "\<And>x sh. f (tk_shared tk) = (sh, Inr x) \<Longrightarrow> P (tk_shared (fst (g x (tk\<lparr>tk_shared := sh\<rparr>))))"
  shows "P (tk_shared (fst (on_shared f g tk)))"
  using assms by (auto simp: on_shared_def split: prod.splits sum.splits)











section \<open>The report\<close>

text \<open>What the counters of a tick say while it runs: one automated node is still allowed, or it has been
  claimed and has one outcome.\<close>

definition accounts :: "tick \<Rightarrow> bool" where
  "accounts tk \<longleftrightarrow> (let p = tk_report tk in
     0 \<le> tk_remaining tk \<and> int (wr_automated_claimed p) + tk_remaining tk = 1 \<and>
     wr_completed p + wr_failed p + wr_stale_results p = wr_automated_claimed p \<and>
     wr_recovered p \<le> wr_automated_claimed p \<and> wr_failed p \<le> length (wr_errors p) \<and>
     wr_completed p + length (wr_errors p) \<le> wr_automated_claimed p)"

text \<open>The same between the claim of a node and its outcome.\<close>

definition pending_outcome :: "tick \<Rightarrow> bool" where
  "pending_outcome tk \<longleftrightarrow> (let p = tk_report tk in
     0 \<le> tk_remaining tk \<and> int (wr_automated_claimed p) + tk_remaining tk = 1 \<and>
     wr_completed p + wr_failed p + wr_stale_results p + 1 = wr_automated_claimed p \<and>
     wr_recovered p \<le> wr_automated_claimed p \<and> wr_failed p \<le> length (wr_errors p) \<and>
     wr_completed p + length (wr_errors p) < wr_automated_claimed p)"

lemma accounts_shared [simp]:
  "accounts (tk\<lparr>tk_shared := sh\<rparr>) = accounts tk" "pending_outcome (tk\<lparr>tk_shared := sh\<rparr>) = pending_outcome tk"
  by (simp_all add: accounts_def pending_outcome_def)

lemma report_failure_accounts:
  "report_failure wd wk a code err tk = (tk', Inr u) \<Longrightarrow> pending_outcome tk \<Longrightarrow>
     accounts tk' \<and> tk_remaining tk' = tk_remaining tk \<and> wr_conflicts (tk_report tk') = wr_conflicts (tk_report tk)"
  by (auto simp: report_failure_def on_shared_def count_failed_def accounts_def pending_outcome_def Let_def
      split: prod.splits sum.splits if_splits)

lemma report_result_accounts:
  assumes "report_result wd wk a result tk = (tk', Inr u)" and "pending_outcome tk"
  shows "accounts tk' \<and> tk_remaining tk' = tk_remaining tk \<and> wr_conflicts (tk_report tk') = wr_conflicts (tk_report tk)"
proof -
  obtain sh x where c: "worker_complete wd wk a result (tk_shared tk) = (sh, x)" by fastforce
  show ?thesis
  proof (cases x)
    case (Inl e)
    have "pending_outcome (tk\<lparr>tk_shared := sh\<rparr>)" using assms(2) by simp
    note f = report_failure_accounts [OF _ this]
    show ?thesis using assms(1) Inl c by (cases e) (auto simp: report_result_def dest: f)
  next
    case (Inr ok)
    then show ?thesis using assms c
      by (auto simp: report_result_def count_completed_def accounts_def pending_outcome_def Let_def)
  qed
qed

lemma work_on_accounts:
  assumes "work_on wd wk a tk = (tk', Inr u)" and "accounts tk"
    and "act_executor a \<noteq> HUMAN \<Longrightarrow> 1 \<le> tk_remaining tk"
  shows "accounts tk' \<and> tk_remaining tk' = tk_remaining tk - (if act_executor a = HUMAN then 0 else 1) \<and>
     wr_conflicts (tk_report tk') = wr_conflicts (tk_report tk)"
proof (cases "act_executor a = HUMAN")
  case True
  with assms(1,2) show ?thesis by (auto simp: work_on_def accounts_def Let_def)
next
  case False
  let ?tk = "count_claimed a tk"
  have c: "pending_outcome ?tk" "tk_remaining ?tk = tk_remaining tk - 1" "wr_conflicts (tk_report ?tk) = wr_conflicts (tk_report tk)"
    using assms(2) assms(3) [OF False] by (auto simp: count_claimed_def accounts_def pending_outcome_def Let_def)
  obtain sh request where w: "worker_request wd wk a (tk_shared ?tk) = (sh, Inr request)"
    and r: "(case wk_executors wk (act_executor a) of
          None \<Rightarrow> report_failure wd wk a ''executor_not_configured''
                    (''no executor registered for '' @ executor_value (act_executor a)) (?tk\<lparr>tk_shared := sh\<rparr>)
        | Some x \<Rightarrow>
            (case ax_execute x request of
               Raised code err \<Rightarrow> report_failure wd wk a (error_code_of code) err (?tk\<lparr>tk_shared := sh\<rparr>)
             | Returned result \<Rightarrow> report_result wd wk a result (?tk\<lparr>tk_shared := sh\<rparr>))) = (tk', Inr u)"
    using assms(1) False unfolding work_on_def on_shared_def by (auto split: prod.splits sum.splits)
  have p: "pending_outcome (?tk\<lparr>tk_shared := sh\<rparr>)" using c(1) by simp
  from r report_failure_accounts [OF _ p] report_result_accounts [OF _ p] c(2,3) False
  show ?thesis by (auto split: option.splits execution_outcome.splits)
qed

definition automated :: "node_activation list \<Rightarrow> nat" where
  "automated acts = length (filter (\<lambda>a. act_executor a \<noteq> HUMAN) acts)"

lemma work_activations_accounts:
  "tick_loop (work_on wd wk) acts tk = (tk', Inr u) \<Longrightarrow> accounts tk \<Longrightarrow> int (automated acts) \<le> tk_remaining tk \<Longrightarrow>
     accounts tk' \<and> wr_conflicts (tk_report tk') = wr_conflicts (tk_report tk)"
proof (induction acts arbitrary: tk)
  case (Cons a acts)
  obtain tk1 v where s: "work_on wd wk a tk = (tk1, Inr v)" "tick_loop (work_on wd wk) acts tk1 = (tk', Inr u)"
    using Cons.prems(1) by (auto split: prod.splits sum.splits)
  have n: "automated (a # acts) = (if act_executor a = HUMAN then 0 else 1) + automated acts" by (simp add: automated_def)
  have a: "act_executor a \<noteq> HUMAN \<Longrightarrow> 1 \<le> tk_remaining tk" using Cons.prems(3) n by simp
  note w = work_on_accounts [OF s(1) Cons.prems(2) a]
  have "int (automated acts) \<le> tk_remaining tk1" using w n Cons.prems(3) by (auto split: if_splits)
  with Cons.IH [OF s(2)] w show ?case by auto
qed simp

lemma due_command_within:
  assumes "due_command wd wk iid m keys sh = (sh', Inr acts)"
  shows "int (automated acts) \<le> m"
proof -
  obtain env r r' r1 where d: "dispatch_due env r r' (wk_tenant_id wk) iid (wk_worker_id wk) m (Some keys) None = Inr (r1, acts)"
    using assms by (auto simp: due_command_def shared_command_def Let_def split: sum.splits prod.splits)
  obtain c i where ci: "correlation env None = (c, i)" by fastforce
  obtain w st where m: "0 \<le> m" and st: "dispatch_loops env w (Some (wk_worker_id wk)) m True (Some keys) = Inr st"
    and acts: "acts = ds_activations st"
    using d unfolding dispatch_due_def dispatch_def Let_def ci
    by (elim rbindE) (simp add: rbind_Inr_iff ensure_Inr_iff split: if_splits; blast)
  with dispatch_loops_within [OF st m] show ?thesis by (simp add: within_def automated_def)
qed

lemma work_instance_accounts:
  assumes "work_instance wd wk iid tk = (tk', Inr u)" and "accounts tk"
  shows "accounts tk' \<and> wr_conflicts (tk_report tk') \<le> wr_conflicts (tk_report tk) + 1"
proof -
  obtain sh keys where q: "eligible_automated_node_keys wd wk iid (tk_shared tk) = (sh, Inr keys)"
    using assms(1) by (auto simp: work_instance_def on_shared_def split: prod.splits sum.splits)
  obtain sh' y where d: "due_command wd wk iid (tk_remaining tk) keys sh = (sh', y)" by fastforce
  show ?thesis
  proof (cases y)
    case (Inl e)
    then show ?thesis using assms q d
      by (cases e) (auto simp: work_instance_def on_shared_def accounts_def Let_def)
  next
    case (Inr acts)
    have "accounts (tk\<lparr>tk_shared := sh'\<rparr>)" using assms(2) by simp
    with assms(1) q d Inr due_command_within [OF d [unfolded Inr]]
      work_activations_accounts [of wd wk acts "tk\<lparr>tk_shared := sh'\<rparr>" tk' u]
    show ?thesis by (simp add: work_instance_def on_shared_def)
  qed
qed

lemma work_instances_accounts:
  "tick_loop (work_instance wd wk) iids tk = (tk', Inr u) \<Longrightarrow> accounts tk \<Longrightarrow>
     accounts tk' \<and> wr_conflicts (tk_report tk') \<le> wr_conflicts (tk_report tk) + length iids"
proof (induction iids arbitrary: tk)
  case (Cons i iids)
  obtain tk1 v where s: "work_instance wd wk i tk = (tk1, Inr v)" "tick_loop (work_instance wd wk) iids tk1 = (tk', Inr u)"
    using Cons.prems(1) by (auto split: prod.splits sum.splits)
  from work_instance_accounts [OF s(1) Cons.prems(2)] Cons.IH [OF s(2)] show ?case by auto
qed simp


section \<open>A worker and its world\<close>

definition demo_executor :: automated_executor where
  "demo_executor = \<lparr>ax_accepts = None,
     ax_execute = \<lambda>q. Returned \<lparr>ex_result = [(''body'', PStr (''about '' @ er_node_key q))], ex_quality_result = None\<rparr>\<rparr>"

definition demo_worker :: worker where
  "demo_worker = \<lparr>wk_tenant_id = ''acme'', wk_worker_id = ''worker'',
     wk_executors = \<lambda>k. if k = AGENT then Some demo_executor else None, wk_candidate_limit = 10\<rparr>"

definition demo_world :: world where
  "demo_world = \<lparr>wd_env = \<lambda>n. demo_env (10 + n), wd_others = \<lambda>n rs. rs\<rparr>"

definition demo_shared :: "workflow_instance \<Rightarrow> shared" where
  "demo_shared w = \<lparr>sh_states = [demo_store w], sh_turn = 0\<rparr>"

text \<open>The first node, a human one, is ready.\<close>

definition demo_due :: workflow_instance where
  "demo_due = (let w = demo_at I_RUNNING [N_READY, N_PENDING, N_PENDING] in
     w\<lparr>wi_nodes := dmodify ''brief'' (\<lambda>n. n\<lparr>ni_ready_at := Some 0\<rparr>) (wi_nodes w)\<rparr>)"

definition demo_tick_report :: worker_report where
  "demo_tick_report = empty_report\<lparr>wr_candidates := 1, wr_human_dispatched := 1\<rparr>"

definition reported :: "shared \<times> worker_report res \<Rightarrow> worker_report \<Rightarrow> bool" where
  "reported x p = (case snd x of Inl _ \<Rightarrow> False | Inr q \<Rightarrow> q = p)"

lemma demo_tick: "\<exists>sh. run_once demo_world demo_worker (demo_shared demo_due) = (sh, Inr demo_tick_report)"
proof -
  have "reported (run_once demo_world demo_worker (demo_shared demo_due)) demo_tick_report" by code_simp
  then show ?thesis
    by (cases "run_once demo_world demo_worker (demo_shared demo_due)") (simp add: reported_def split: sum.splits)
qed

section \<open>Properties\<close>



text \<open>A tick claims at most one automated node, and its report accounts for it: the node is completed,
  failed or its result is stale; it does not list more errors than claims, nor more conflicts than
  candidates, of which there are at most as many as the limit.\<close>

lemma worker_tick_accounts:
  assumes "run_once wd wk sh = (sh', Inr p)"
  shows "wr_automated_claimed p \<le> 1 \<and> wr_completed p + wr_failed p + wr_stale_results p = wr_automated_claimed p \<and>
     wr_recovered p \<le> wr_automated_claimed p \<and> wr_failed p \<le> length (wr_errors p) \<and>
     wr_completed p + length (wr_errors p) \<le> wr_automated_claimed p \<and>
     wr_conflicts p \<le> wr_candidates p \<and> int (wr_candidates p) \<le> wk_candidate_limit wk"
proof -
  let ?list = "\<lambda>env r. runnable_instance_ids r (wk_tenant_id wk) (env_now env) (wk_candidate_limit wk)"
  obtain sh1 iids where l: "shared_read wd ?list sh = (sh1, Inr iids)"
    using assms by (auto simp: run_once_def split: prod.splits sum.splits)
  let ?tk = "\<lparr>tk_shared = sh1, tk_remaining = 1, tk_report = empty_report\<rparr>"
  obtain tk u where t: "tick_loop (work_instance wd wk) iids ?tk = (tk, Inr u)"
    and p: "p = (tk_report tk)\<lparr>wr_candidates := length iids\<rparr>"
    using assms l by (auto simp: run_once_def split: prod.splits sum.splits)
  have "accounts ?tk" by (simp add: accounts_def empty_report_def)
  note a = work_instances_accounts [OF t this]
  obtain r now where "runnable_instance_ids r (wk_tenant_id wk) now (wk_candidate_limit wk) = Inr iids"
    using l by (auto simp: shared_read_def Let_def)
  then have "int (length iids) \<le> wk_candidate_limit wk"
    unfolding runnable_instance_ids_def by (auto simp: rbind_Inr_iff check_positive_def ensure_Inr_iff)
  with a p show ?thesis by (auto simp: accounts_def Let_def empty_report_def)
qed

text \<open>An instance that is paused between the listing and the dispatch of a tick aborts the whole tick
  with a \<open>TransitionError\<close>, before the other candidates are looked at: only a lost compare and swap is
  counted as a conflict.\<close>

lemma pause_aborts_tick:
  "snd (run_once (demo_world\<lparr>wd_others := \<lambda>n rs. if n = 2 then rs @ [demo_store (demo_text\<lparr>wi_status := I_PAUSED\<rparr>)] else rs\<rparr>)
     demo_worker (demo_shared demo_text)) = Inl (TransitionError ''instance is not running'')"
  by code_simp

end
