(* ===== verification/Draft_Validation.thy ===== *)
theory Draft_Validation
  imports Template_Theorems
begin

text \<open>
  \<open>GeneratedDraftValidator\<close> of \<open>src/larkflow/workflow/draft_validation.py\<close>: what a workflow definition
  that a language model has written must satisfy before a person sees it. The check of the travel
  domain (\<open>_validate_domain_shape\<close>: regular expressions over Chinese text) is a parameter.
\<close>

section \<open>The checks of one node\<close>

definition MAX_GENERATED_NODES :: nat where "MAX_GENERATED_NODES = 8"

definition reject_unless :: "bool \<Rightarrow> unit res" where
  "reject_unless b = ensure b (DraftGenerationRejected ''generated draft is invalid'')"

text \<open>The request's authorised context: only whether it has attachments and enterprise documents matters here.\<close>

record draft_context =
  dc_attachments :: "string list"
  dc_enterprise_knowledge :: "string list"

text \<open>One pass of the loop over the outputs: the types of the outputs seen.\<close>

definition check_draft_output :: "pval \<Rightarrow> pmap \<Rightarrow> pmap res" where
  "check_draft_output output types =
     rbind (get_or_raise (as_map output) (DraftGenerationRejected ''outputs must be objects'')) (\<lambda>m.
     rbind (get_or_raise (as_str (getv m ''id'')) (DraftGenerationRejected ''outputs must declare an id'')) (\<lambda>oid.
     rbind (reject_unless (oid \<noteq> [])) (\<lambda>_.
     rbind (reject_unless (dget types oid = None)) (\<lambda>_.
     rbind (reject_unless (getv m ''required'' = PBool True)) (\<lambda>_.
     rbind (reject_unless (is_text (getv m ''label''))) (\<lambda>_.
     Inr (dput oid (getv m ''type'') types)))))))"

definition draft_outputs :: "pmap \<Rightarrow> pmap res" where
  "draft_outputs work = (case getv work ''outputs'' of
     PList outputs \<Rightarrow> rbind (reject_unless (outputs \<noteq> [])) (\<lambda>_. foldM check_draft_output outputs [])
   | _ \<Rightarrow> Inl (DraftGenerationRejected ''outputs are required''))"

definition draft_inputs :: "pmap \<Rightarrow> pval list res" where
  "draft_inputs work = (case or_empty (getv work ''inputs'') (PList []) of
     PList inputs \<Rightarrow> Inr inputs
   | _ \<Rightarrow> Inl (DraftGenerationRejected ''inputs must be a list''))"

text \<open>The dependencies that the inputs consume are the declared ones.\<close>

definition dependency_input_list :: "pval list \<Rightarrow> string list" where
  "dependency_input_list inputs = concat (map (\<lambda>v. case as_str v of None \<Rightarrow> []
     | Some s \<Rightarrow> if prefix_of ''dependencies.'' s then [drop 13 s] else []) inputs)"

definition check_consumed :: "pval \<Rightarrow> pval list \<Rightarrow> unit res" where
  "check_consumed deps inputs =
     rbind (iter_items deps) (\<lambda>ds.
     rbind (ensure (list_all hashable ds) (TypeError ''unhashable type'')) (\<lambda>_.
     reject_unless (set ds = PStr ` set (dependency_input_list inputs))))"

definition check_draft_agent :: "draft_context option \<Rightarrow> pval \<Rightarrow> pmap \<Rightarrow> pval list \<Rightarrow> pmap \<Rightarrow> unit res" where
  "check_draft_agent bundle deps work inputs types =
     rbind (reject_unless (truthy deps)) (\<lambda>_.
     rbind (reject_unless (dget types ''content'' \<noteq> None)) (\<lambda>_.
     rbind (reject_unless (case as_map (getv work ''agent'') of None \<Rightarrow> False
             | Some agent \<Rightarrow> getv agent ''model_role'' = PStr ''default'')) (\<lambda>_.
     case bundle of
       None \<Rightarrow> Inr ()
     | Some c \<Rightarrow>
         rbind (reject_unless (dc_attachments c = [] \<or> PStr ''instance_inputs.project_attachments'' \<in> set inputs)) (\<lambda>_.
         reject_unless (dc_enterprise_knowledge c = [] \<or> PStr ''instance_inputs.enterprise_knowledge'' \<in> set inputs)))))"

definition check_freshness :: "pval \<Rightarrow> unit res" where
  "check_freshness v = reject_unless (case v of PNone \<Rightarrow> True | PInt n \<Rightarrow> 1 \<le> n \<and> n \<le> 3650 | _ \<Rightarrow> False)"

definition check_draft_tool :: "pval \<Rightarrow> pmap \<Rightarrow> pmap \<Rightarrow> unit res" where
  "check_draft_tool deps work types =
     rbind (reject_unless (truthy deps)) (\<lambda>_.
     rbind (reject_unless (set (dkeys types) = {''content'', ''sources''})) (\<lambda>_.
     rbind (reject_unless (getv types ''content'' = PStr ''text'' \<and> getv types ''sources'' = PStr ''string_list'')) (\<lambda>_.
     rbind (get_or_raise (as_map (getv work ''tool'')) (DraftGenerationRejected ''tool definition is incomplete'')) (\<lambda>tool.
     rbind (reject_unless (set (dkeys tool) = {''kind'', ''args''})) (\<lambda>_.
     rbind (reject_unless (getv tool ''kind'' = PStr ''web.search'')) (\<lambda>_.
     rbind (get_or_raise (as_map (getv tool ''args'')) (DraftGenerationRejected ''web.search args are incomplete'')) (\<lambda>args.
     rbind (reject_unless ({''model_role'', ''instructions''} \<subseteq> set (dkeys args) \<and>
             set (dkeys args) \<subseteq> {''model_role'', ''instructions'', ''freshness_max_age_days''})) (\<lambda>_.
     rbind (reject_unless (getv args ''model_role'' = PStr ''default'')) (\<lambda>_.
     rbind (reject_unless (is_text (getv args ''instructions''))) (\<lambda>_.
     check_freshness (getv args ''freshness_max_age_days'')))))))))))"

section \<open>The loop over the nodes\<close>

record draft_scan =
  sc_has_agent :: bool
  sc_reviewed :: bool
  sc_agents :: "string list"
  sc_nodes :: "(string, pmap) odict"
  sc_depended :: "string list"

text \<open>\<open>isinstance(deps, list)\<close>, and the strings in it.\<close>

definition listed_strings :: "pval \<Rightarrow> string list" where
  "listed_strings v = (case v of PList xs \<Rightarrow> concat (map (\<lambda>x. case as_str x of None \<Rightarrow> [] | Some s \<Rightarrow> [s]) xs) | _ \<Rightarrow> [])"

text \<open>Whether a human node depends on an agent listed before it.\<close>

definition note_review :: "pval \<Rightarrow> draft_scan \<Rightarrow> draft_scan" where
  "note_review deps sc =
     (if set (listed_strings deps) \<inter> set (sc_agents sc) \<noteq> {} then sc\<lparr>sc_reviewed := True\<rparr> else sc)"

definition check_draft_human :: "pval \<Rightarrow> pmap \<Rightarrow> pmap \<Rightarrow> draft_scan \<Rightarrow> draft_scan res" where
  "check_draft_human deps work types sc =
     (case human_decision_config work of
        None \<Rightarrow> Inr (note_review deps sc)
      | Some decision \<Rightarrow>
          rbind (reject_unless (dget types ''decision'' \<noteq> None)) (\<lambda>_.
          rbind (reject_unless (case dget (sc_nodes sc) (py_str (getv decision ''reject_target'')) of
              None \<Rightarrow> False | Some target \<Rightarrow> getv target ''executor'' = PStr ''agent'')) (\<lambda>_.
          Inr (note_review deps sc))))"

definition note_node :: "pmap \<Rightarrow> draft_scan \<Rightarrow> draft_scan" where
  "note_node m sc = sc\<lparr>
     sc_nodes := (case as_str (getv m ''id'') of None \<Rightarrow> sc_nodes sc | Some i \<Rightarrow> dput i m (sc_nodes sc)),
     sc_depended := sc_depended sc @ listed_strings (or_empty (getv m ''deps'') (PList []))\<rparr>"

definition note_agent :: "string \<Rightarrow> draft_scan \<Rightarrow> draft_scan" where
  "note_agent i sc = sc\<lparr>sc_has_agent := True, sc_agents := sc_agents sc @ [i]\<rparr>"

text \<open>What depends on the executor of a node.\<close>

definition check_draft_kind ::
    "draft_context option \<Rightarrow> pmap \<Rightarrow> pmap \<Rightarrow> pval list \<Rightarrow> pmap \<Rightarrow> draft_scan \<Rightarrow> draft_scan res" where
  "check_draft_kind bundle m work inputs types sc =
     (let executor = getv m ''executor''; deps = or_empty (getv m ''deps'') (PList []) in
      rbind (case as_str (getv m ''id'') of
               None \<Rightarrow> Inr sc
             | Some i \<Rightarrow> if executor = PStr ''agent''
                 then rbind (check_draft_agent bundle deps work inputs types) (\<lambda>_. Inr (note_agent i sc))
                 else Inr sc) (\<lambda>sc.
      rbind (if executor = PStr ''tool'' then check_draft_tool deps work types else Inr ()) (\<lambda>_.
      if executor = PStr ''human'' then check_draft_human deps work types sc else Inr sc)))"

definition check_draft_node :: "bool \<Rightarrow> draft_context option \<Rightarrow> pval \<Rightarrow> draft_scan \<Rightarrow> draft_scan res" where
  "check_draft_node allow_web bundle raw sc =
     rbind (get_or_raise (as_map raw) (DraftGenerationRejected ''nodes must be objects'')) (\<lambda>m.
     rbind (in_str_set (getv m ''executor'') (if allow_web then [''human'', ''agent'', ''tool''] else [''human'', ''agent''])) (\<lambda>known.
     rbind (reject_unless known) (\<lambda>_.
     let sc = note_node m sc in
     rbind (get_or_raise (as_map (or_empty (getv m ''work'') (PDict []))) (DraftGenerationRejected ''work must be an object'')) (\<lambda>work.
     rbind (draft_outputs work) (\<lambda>types.
     rbind (draft_inputs work) (\<lambda>inputs.
     rbind (check_consumed (or_empty (getv m ''deps'') (PList [])) inputs) (\<lambda>_.
     check_draft_kind bundle m work inputs types sc)))))))"

section \<open>The whole definition\<close>

definition empty_scan :: draft_scan where
  "empty_scan = \<lparr>sc_has_agent = False, sc_reviewed = False, sc_agents = [], sc_nodes = [], sc_depended = []\<rparr>"

text \<open>A node object and its work, as the last checks read them.\<close>

definition node_map :: "pval \<Rightarrow> pmap" where
  "node_map raw = (case as_map raw of None \<Rightarrow> [] | Some m \<Rightarrow> m)"

definition work_map :: "pval \<Rightarrow> pmap" where
  "work_map raw = (case as_map (or_empty (getv (node_map raw) ''work'') (PDict [])) of None \<Rightarrow> [] | Some w \<Rightarrow> w)"

definition is_root :: "pval \<Rightarrow> bool" where
  "is_root raw \<longleftrightarrow> \<not> truthy (getv (node_map raw) ''deps'')"

definition executed_by :: "string \<Rightarrow> pval \<Rightarrow> bool" where
  "executed_by kind raw \<longleftrightarrow> getv (node_map raw) ''executor'' = PStr kind"

definition decides :: "pval \<Rightarrow> bool" where
  "decides raw \<longleftrightarrow> human_decision_config (work_map raw) \<noteq> None"

definition is_terminal :: "draft_scan \<Rightarrow> pval \<Rightarrow> bool" where
  "is_terminal sc raw \<longleftrightarrow> getv (node_map raw) ''id'' \<notin> PStr ` set (sc_depended sc)"

definition check_draft_graph :: "pval list \<Rightarrow> draft_scan \<Rightarrow> unit res" where
  "check_draft_graph nodes sc =
     (if \<not> sc_has_agent sc then Inr ()
      else rbind (reject_unless (sc_reviewed sc)) (\<lambda>_.
           rbind (reject_unless (filter is_root nodes \<noteq> [] \<and>
             list_all (\<lambda>root. executed_by ''human'' root \<and> \<not> decides root) (filter is_root nodes))) (\<lambda>_.
           reject_unless (list_all (\<lambda>t. executed_by ''human'' t \<and> decides t) (filter (is_terminal sc) nodes)))))"

fun as_draft_error :: "'a res \<Rightarrow> 'a res" where
  "as_draft_error (Inl (TemplateValidationError m)) = Inl (DraftGenerationRejected m)"
| "as_draft_error r = r"

definition draft_bindings :: "string list \<Rightarrow> (string, string) odict" where
  "draft_bindings roles = map (\<lambda>r. (r, ''person_'' @ r)) roles"

definition validate_generated_draft ::
    "(pmap \<Rightarrow> draft_context option \<Rightarrow> unit res) \<Rightarrow> bool \<Rightarrow> pmap \<Rightarrow> draft_context option \<Rightarrow> unit res" where
  "validate_generated_draft domain allow_web definition bundle =
     (case getv definition ''nodes'' of
        PList nodes \<Rightarrow>
          rbind (reject_unless (1 \<le> length nodes \<and> length nodes \<le> MAX_GENERATED_NODES)) (\<lambda>_.
          rbind (as_draft_error (inline_owner_roles definition)) (\<lambda>roles.
          rbind (reject_unless (set roles \<subseteq> {''requester'', ''collaborator''})) (\<lambda>_.
          rbind (foldM (check_draft_node allow_web bundle) nodes empty_scan) (\<lambda>sc.
          rbind (check_draft_graph nodes sc) (\<lambda>_.
          rbind (domain definition bundle) (\<lambda>_.
          rbind (as_draft_error (instantiate_inline_definition definition (draft_bindings roles))) (\<lambda>_.
          Inr ())))))))
      | _ \<Rightarrow> Inl (DraftGenerationRejected ''nodes are required''))"

section \<open>Server-owned inputs\<close>

text \<open>\<open>bind_project_attachment_inputs\<close> and \<open>bind_enterprise_knowledge_inputs\<close> mutate the plain
  dictionaries and lists of the definition.\<close>

definition bind_node_input :: "string \<Rightarrow> pval \<Rightarrow> pval" where
  "bind_node_input reference node = (case node of
     PDict m \<Rightarrow>
       if getv m ''executor'' = PStr ''agent'' then
         (case getv m ''work'' of
            PDict work \<Rightarrow>
              (case getv work ''inputs'' of
                 PList inputs \<Rightarrow>
                   if PStr reference \<in> set inputs then node
                   else PDict (dput ''work'' (PDict (dput ''inputs'' (PList (inputs @ [PStr reference])) work)) m)
               | _ \<Rightarrow> node)
          | _ \<Rightarrow> node)
       else node
   | _ \<Rightarrow> node)"

definition bind_inputs :: "string \<Rightarrow> pmap \<Rightarrow> pmap" where
  "bind_inputs reference definition = (case getv definition ''nodes'' of
     PList nodes \<Rightarrow> dput ''nodes'' (PList (map (bind_node_input reference) nodes)) definition
   | _ \<Rightarrow> definition)"

definition bind_project_attachment_inputs :: "pmap \<Rightarrow> pmap" where
  "bind_project_attachment_inputs = bind_inputs ''instance_inputs.project_attachments''"

definition bind_enterprise_knowledge_inputs :: "pmap \<Rightarrow> pmap" where
  "bind_enterprise_knowledge_inputs = bind_inputs ''instance_inputs.enterprise_knowledge''"

end
