(* ===== verification/Draft_Theorems.thy ===== *)
theory Draft_Theorems
  imports Draft_Validation Demo
begin

text \<open>
  What the validation of a generated draft guarantees of the workflow that is made of it: every result of
  an agent is reviewed by a person, tools only search the web, and only the requester and one
  collaborator own work.
\<close>

section \<open>From the definition to the snapshot\<close>

lemma getv_to_json: "getv (map (map_prod id to_json_value) m) k = to_json_value (getv m k)"
  by (induction m) (auto simp: get_or_def split: option.splits)

lemma as_map_to_json: "as_map (to_json_value v) = map_option (map (map_prod id to_json_value)) (as_map v)"
  by (cases v) simp_all

text \<open>The node that instantiation makes of a node object of the definition.\<close>

lemma bound_json_nodeE:
  assumes "bound_node bindings (to_json_value raw) = Inr n"
  obtains m where "as_map raw = Some m" "ns_key n = py_str (to_json_value (getv m ''id''))"
    "to_executor (PStr (py_str (to_json_value (getv m ''executor'')))) = Inr (ns_executor n)"
    "(if truthy (getv m ''deps'') then rbind (iter_items (to_json_value (getv m ''deps''))) (mapM as_string_item) else Inr []) = Inr (ns_deps n)"
    "\<exists>j. or_empty_map (to_json_value (getv m ''work'')) = Inr j \<and> ns_work n = freeze_map j"
    "ns_owner_person_id n \<in> snd ` set bindings"
  using assms unfolding bound_node_def Let_def
proof (elim rbindE, goal_cases)
  case (1 key title role owner executor deps work kind)
  obtain m where m: "as_map raw = Some m" "as_map (to_json_value raw) = Some (map (map_prod id to_json_value) m)"
    using 1(2) by (cases "as_map raw") (simp_all add: item_def as_map_to_json)
  have item: "item (to_json_value raw) k = Inr x \<Longrightarrow> x = to_json_value (getv m k)" for k x
    unfolding item_def m(2) using getv_to_json [of m k]
    by (simp add: get_or_raise_Inr_iff get_or_def split: option.splits)
  have n: "n = mk_node_spec (py_str key) (py_str title) owner kind deps work" using 1(10) by simp
  show ?case
  proof (rule 1(1) [OF m(1)])
    show "ns_key n = py_str (to_json_value (getv m ''id''))" using item [OF 1(2)] n by (simp add: mk_node_spec_def)
    show "to_executor (PStr (py_str (to_json_value (getv m ''executor'')))) = Inr (ns_executor n)"
      using item [OF 1(6)] 1(9) n by (simp add: mk_node_spec_def)
    show "(if truthy (getv m ''deps'') then rbind (iter_items (to_json_value (getv m ''deps''))) (mapM as_string_item) else Inr []) = Inr (ns_deps n)"
      using 1(7) n unfolding m(2) option.case getv_to_json by (simp add: mk_node_spec_def)
    show "\<exists>j. or_empty_map (to_json_value (getv m ''work'')) = Inr j \<and> ns_work n = freeze_map j"
      using 1(8) n unfolding m(2) option.case getv_to_json by (simp add: mk_node_spec_def)
    show "ns_owner_person_id n \<in> snd ` set bindings"
      using map_of_SomeD 1(5) n by (force simp: get_or_raise_Inr_iff mk_node_spec_def)
  qed
qed

lemma json_work:
  assumes "as_map (or_empty v (PDict [])) = Some work" and "or_empty_map (to_json_value v) = Inr j"
  shows "freeze_map j = map (map_prod id json_frozen) work"
proof (cases "truthy v")
  case False
  with assms show ?thesis by (simp add: or_empty_def or_empty_map_def freeze_map_def)
next
  case True
  with assms(1) have v: "as_map v = Some work" by (simp add: or_empty_def)
  then have "to_json_value v = PDict (map (map_prod id to_json_value) work)" by (cases v) simp_all
  with assms(2) True have "j = map (map_prod id to_json_value) work" by (auto simp: or_empty_map_def split: if_splits)
  then show ?thesis by (simp add: freeze_map_def prod.map_comp comp_def json_frozen_eq)
qed

lemma json_decision:
  "human_decision_config (map (map_prod id json_frozen) work) \<noteq> None \<longleftrightarrow> human_decision_config work \<noteq> None"
  unfolding human_decision_config_def getv_json_frozen as_map_json_frozen
  by (simp add: getv_json_frozen json_frozen_PStr split: option.split)

section \<open>What the scan has checked\<close>

lemma known_executor:
  "in_str_set v names = Inr True \<Longrightarrow> \<exists>s \<in> set names. v = PStr s"
  by (cases v) (auto simp: in_str_set_def split: if_splits)

definition draft_deps :: "pval \<Rightarrow> string list" where
  "draft_deps raw = listed_strings (or_empty (getv (node_map raw) ''deps'') (PList []))"

lemma check_draft_nodeE:
  assumes "check_draft_node allow_web bundle raw sc = Inr sc'"
  obtains m work types inputs executor where "as_map raw = Some m" "getv m ''executor'' = PStr executor"
    "executor \<in> set (if allow_web then [''human'', ''agent'', ''tool''] else [''human'', ''agent''])"
    "as_map (or_empty (getv m ''work'') (PDict [])) = Some work"
    "check_draft_kind bundle m work inputs types (note_node m sc) = Inr sc'"
  using assms unfolding check_draft_node_def Let_def
proof (elim rbindE, goal_cases)
  case (1 m known u work types inputs w)
  have known using 1(4) unfolding reject_unless_def by (simp add: ensure_Inr_iff)
  then have "in_str_set (getv m ''executor'') (if allow_web then [''human'', ''agent'', ''tool''] else [''human'', ''agent'']) = Inr True"
    using 1(3) by simp
  from known_executor [OF this] obtain executor where
    "executor \<in> set (if allow_web then [''human'', ''agent'', ''tool''] else [''human'', ''agent''])"
    "getv m ''executor'' = PStr executor" by blast
  then show ?case using 1(2,5,9) by (intro 1(1) [of m executor work inputs types]) (simp_all only: get_or_raise_Inr_iff)
qed

lemma check_draft_human_scan:
  assumes "check_draft_human deps work types sc = Inr sc'"
  shows "sc_depended sc' = sc_depended sc \<and> sc_has_agent sc' = sc_has_agent sc"
proof -
  have "sc' = note_review deps sc"
    using assms unfolding check_draft_human_def
    by (cases "human_decision_config work") (simp_all add: rbind_Inr_iff)
  then show ?thesis by (simp add: note_review_def)
qed

lemma check_draft_kind_scan:
  assumes "check_draft_kind bundle m work inputs types sc = Inr sc'"
  shows "sc_depended sc' = sc_depended sc"
    "sc_has_agent sc' = (sc_has_agent sc \<or> getv m ''executor'' = PStr ''agent'' \<and> as_str (getv m ''id'') \<noteq> None)"
proof -
  have "sc_depended sc' = sc_depended sc \<and>
    sc_has_agent sc' = (sc_has_agent sc \<or> getv m ''executor'' = PStr ''agent'' \<and> as_str (getv m ''id'') \<noteq> None)"
    using assms unfolding check_draft_kind_def Let_def
  proof (elim rbindE, goal_cases)
    case (1 sc1 u)
    have 2: "sc_depended sc1 = sc_depended sc" "sc_has_agent sc1 = (sc_has_agent sc \<or> getv m ''executor'' = PStr ''agent'' \<and> as_str (getv m ''id'') \<noteq> None)"
      using 1(1) by (auto simp: note_agent_def rbind_Inr_iff split: option.splits if_splits)
    have "sc_depended sc' = sc_depended sc1 \<and> sc_has_agent sc' = sc_has_agent sc1"
    proof (cases "getv m ''executor'' = PStr ''human''")
      case True
      then have "check_draft_human (or_empty (getv m ''deps'') (PList [])) work types sc1 = Inr sc'" using 1(3) by simp
      then show ?thesis by (rule check_draft_human_scan)
    qed (use 1(3) in simp)
    with 2 show ?case by simp
  qed
  then show "sc_depended sc' = sc_depended sc"
    "sc_has_agent sc' = (sc_has_agent sc \<or> getv m ''executor'' = PStr ''agent'' \<and> as_str (getv m ''id'') \<noteq> None)" by simp_all
qed

lemma check_draft_node_scan:
  assumes "check_draft_node allow_web bundle raw sc = Inr sc'"
  shows "sc_depended sc' = sc_depended sc @ draft_deps raw"
    "sc_has_agent sc' = (sc_has_agent sc \<or> executed_by ''agent'' raw \<and> as_str (getv (node_map raw) ''id'') \<noteq> None)"
proof -
  obtain m work types inputs where m: "as_map raw = Some m" and k: "check_draft_kind bundle m work inputs types (note_node m sc) = Inr sc'"
    using assms by (rule check_draft_nodeE)
  have "node_map raw = m" by (simp add: node_map_def m)
  with check_draft_kind_scan [OF k]
  show "sc_depended sc' = sc_depended sc @ draft_deps raw"
    "sc_has_agent sc' = (sc_has_agent sc \<or> executed_by ''agent'' raw \<and> as_str (getv (node_map raw) ''id'') \<noteq> None)"
    by (simp_all add: note_node_def draft_deps_def executed_by_def)
qed

lemma scan_nodes:
  assumes "foldM (check_draft_node allow_web bundle) raws sc = Inr sc'"
  shows "sc_depended sc' = sc_depended sc @ concat (map draft_deps raws)"
    "sc_has_agent sc' = (sc_has_agent sc \<or> (\<exists>raw \<in> set raws. executed_by ''agent'' raw \<and> as_str (getv (node_map raw) ''id'') \<noteq> None))"
    "\<forall>raw \<in> set raws. \<exists>sc sc'. check_draft_node allow_web bundle raw sc = Inr sc'"
proof -
  have "sc_depended sc' = sc_depended sc @ concat (map draft_deps raws) \<and>
    sc_has_agent sc' = (sc_has_agent sc \<or> (\<exists>raw \<in> set raws. executed_by ''agent'' raw \<and> as_str (getv (node_map raw) ''id'') \<noteq> None)) \<and>
    (\<forall>raw \<in> set raws. \<exists>sc sc'. check_draft_node allow_web bundle raw sc = Inr sc')"
    using assms
  proof (induction raws arbitrary: sc)
    case (Cons raw raws)
    obtain sc1 where s: "check_draft_node allow_web bundle raw sc = Inr sc1" "foldM (check_draft_node allow_web bundle) raws sc1 = Inr sc'"
      using Cons.prems by (auto simp: rbind_Inr_iff)
    from Cons.IH [OF s(2)] check_draft_node_scan [OF s(1)] s(1) show ?case by auto
  qed simp
  then show "sc_depended sc' = sc_depended sc @ concat (map draft_deps raws)"
    "sc_has_agent sc' = (sc_has_agent sc \<or> (\<exists>raw \<in> set raws. executed_by ''agent'' raw \<and> as_str (getv (node_map raw) ''id'') \<noteq> None))"
    "\<forall>raw \<in> set raws. \<exists>sc sc'. check_draft_node allow_web bundle raw sc = Inr sc'" by blast+
qed


section \<open>An accepted draft\<close>

lemma as_draft_error_Inr: "as_draft_error r = Inr x \<longleftrightarrow> r = Inr x"
  by (induction r rule: as_draft_error.induct) auto

lemma reject_unless_Inr: "reject_unless b = Inr u \<longleftrightarrow> b"
  by (simp add: reject_unless_def ensure_Inr_iff)

lemma accepted_draftE:
  assumes "validate_generated_draft domain allow_web d bundle = Inr ()"
  obtains raws roles sc s where "getv d ''nodes'' = PList raws" "1 \<le> length raws" "length raws \<le> MAX_GENERATED_NODES"
    "inline_owner_roles d = Inr roles"
    "set roles \<subseteq> {''requester'', ''collaborator''}" "foldM (check_draft_node allow_web bundle) raws empty_scan = Inr sc"
    "check_draft_graph raws sc = Inr ()" "domain d bundle = Inr ()"
    "instantiate_inline_definition d (draft_bindings roles) = Inr s"
proof (cases "getv d ''nodes''")
  case (PList raws)
  show thesis
    using assms unfolding validate_generated_draft_def PList pval.case
  proof (elim rbindE, goal_cases)
    case (1 u roles w sc v x s)
    then show thesis by (intro that [OF PList, of roles sc s]) (simp_all add: reject_unless_Inr as_draft_error_Inr)
  qed
qed (use assms in \<open>simp_all add: validate_generated_draft_def\<close>)

text \<open>A node object of an accepted draft and the node it became.\<close>

definition drafted :: "bool \<Rightarrow> pval \<Rightarrow> node_spec \<Rightarrow> bool" where
  "drafted allow_web raw n \<longleftrightarrow>
     getv (node_map raw) ''id'' = PStr (ns_key n) \<and> getv (node_map raw) ''executor'' = PStr (executor_value (ns_executor n)) \<and>
     (ns_executor n = TOOL \<longrightarrow> allow_web) \<and> set (draft_deps raw) \<subseteq> set (ns_deps n) \<and>
     (decides raw \<longleftrightarrow> human_decision_config (ns_work n) \<noteq> None)"

lemma to_json_PStr [simp]: "to_json_value v = PStr s \<longleftrightarrow> v = PStr s"
  by (cases v) simp_all

lemma to_executor_Inr: "to_executor (PStr e) = Inr k \<Longrightarrow> e = executor_value k"
  by (auto simp: to_executor_def split: if_splits)

lemma Some_as_str: "Some s = as_str v \<longleftrightarrow> v = PStr s"
  by (cases v) auto

lemma listed_strings_item: "s \<in> set (listed_strings v) \<Longrightarrow> \<exists>xs. v = PList xs \<and> PStr s \<in> set xs"
  by (cases v) (auto simp: listed_strings_def Some_as_str split: option.splits)

lemma mapM_string_item: "mapM as_string_item xs = Inr ss \<Longrightarrow> PStr s \<in> set xs \<Longrightarrow> s \<in> set ss"
  by (induction xs arbitrary: ss) (auto simp: result_simps as_string_item_def)

lemma drafted_node:
  assumes bound: "bound_node bindings (to_json_value raw) = Inr n"
    and checked: "check_draft_node allow_web bundle raw sc = Inr sc'"
    and template: "template_node parameters (to_json_value raw) = Inr spec"
  shows "drafted allow_web raw n"
proof -
  obtain m j where m: "as_map raw = Some m" and key: "ns_key n = py_str (to_json_value (getv m ''id''))"
    and kind: "to_executor (PStr (py_str (to_json_value (getv m ''executor'')))) = Inr (ns_executor n)"
    and deps: "(if truthy (getv m ''deps'') then rbind (iter_items (to_json_value (getv m ''deps''))) (mapM as_string_item) else Inr []) = Inr (ns_deps n)"
    and j: "or_empty_map (to_json_value (getv m ''work'')) = Inr j" "ns_work n = freeze_map j"
    using bound by (rule bound_json_nodeE) blast
  have nm: "node_map raw = m" by (simp add: node_map_def m)
  obtain executor work where e: "getv m ''executor'' = PStr executor"
      "executor \<in> set (if allow_web then [''human'', ''agent'', ''tool''] else [''human'', ''agent''])"
    and w: "as_map (or_empty (getv m ''work'') (PDict [])) = Some work"
    using checked by (rule check_draft_nodeE) (simp add: m)
  have ex: "executor = executor_value (ns_executor n)" using kind unfolding e(1) by (simp add: to_executor_Inr)
  obtain m' k where "as_map (to_json_value raw) = Some m'" "template_text (getv m' ''id'') = Inr k"
    using template by (rule template_nodeE)
  then have m': "m' = map (map_prod id to_json_value) m" "template_text (getv m' ''id'') = Inr k"
    using m by (simp_all add: as_map_to_json)
  have "template_text (to_json_value (getv m ''id'')) = Inr k" using m'(2) unfolding m'(1) getv_to_json .
  then obtain i where i: "getv m ''id'' = PStr i" by (auto simp: template_text_Inr)
  have "ns_key n = i" using key unfolding i by simp
  moreover have "allow_web" if "ns_executor n = TOOL"
  proof (rule ccontr)
    assume "\<not> allow_web"
    with e(2) ex that show False by simp
  qed
  moreover have "set (draft_deps raw) \<subseteq> set (ns_deps n)"
  proof
    fix x assume "x \<in> set (draft_deps raw)"
    then obtain xs where xs: "or_empty (getv m ''deps'') (PList []) = PList xs" "PStr x \<in> set xs"
      unfolding draft_deps_def nm using listed_strings_item by blast
    then have "getv m ''deps'' = PList xs" "truthy (getv m ''deps'')" by (auto simp: or_empty_def split: if_splits)
    then have "mapM as_string_item (map to_json_value xs) = Inr (ns_deps n)" using deps by simp
    moreover have "PStr x \<in> set (map to_json_value xs)" using xs(2) by force
    ultimately show "x \<in> set (ns_deps n)" by (rule mapM_string_item)
  qed
  moreover have "decides raw \<longleftrightarrow> human_decision_config (ns_work n) \<noteq> None"
    unfolding decides_def work_map_def nm w option.case j(2) json_work [OF w j(1)] json_decision ..
  ultimately show ?thesis unfolding drafted_def nm using i e(1) ex by simp
qed

lemma accepted_draft_nodes:
  assumes "validate_generated_draft domain allow_web d bundle = Inr ()"
  obtains raws roles sc s where "1 \<le> length raws" "length raws \<le> MAX_GENERATED_NODES" "inline_owner_roles d = Inr roles"
    "length (sn_nodes s) = length raws" "set roles \<subseteq> {''requester'', ''collaborator''}"
    "check_draft_graph raws sc = Inr ()" "instantiate_inline_definition d (draft_bindings roles) = Inr s"
    "\<forall>n \<in> set (sn_nodes s). \<exists>raw \<in> set raws. drafted allow_web raw n"
    "\<forall>raw \<in> set raws. \<exists>n \<in> set (sn_nodes s). drafted allow_web raw n"
    "sc_depended sc = concat (map draft_deps raws)"
    "sc_has_agent sc = (\<exists>raw \<in> set raws. executed_by ''agent'' raw \<and> as_str (getv (node_map raw) ''id'') \<noteq> None)"
proof -
  obtain raws roles sc s where nodes: "getv d ''nodes'' = PList raws" and len: "1 \<le> length raws" "length raws \<le> MAX_GENERATED_NODES"
    and roles: "inline_owner_roles d = Inr roles" "set roles \<subseteq> {''requester'', ''collaborator''}"
    and scan: "foldM (check_draft_node allow_web bundle) raws empty_scan = Inr sc" and graph: "check_draft_graph raws sc = Inr ()"
    and inst: "instantiate_inline_definition d (draft_bindings roles) = Inr s"
    using assms by (rule accepted_draftE)
  obtain raws' where raws': "as_seq (getv d ''nodes'') = Some raws'"
    and bound: "mapM (bound_node (draft_bindings roles)) (map to_json_value raws') = Inr (sn_nodes s)"
    and template: "\<exists>parameters. \<forall>raw \<in> set raws'. \<exists>spec. template_node parameters (to_json_value raw) = Inr spec"
    using inst by (rule inline_instanceE) blast
  have [simp]: "raws' = raws" using raws' nodes by simp
  obtain parameters where t: "\<forall>raw \<in> set raws. \<exists>spec. template_node parameters (to_json_value raw) = Inr spec"
    using template by auto
  have each: "drafted allow_web raw n" if "raw \<in> set raws" "bound_node (draft_bindings roles) (to_json_value raw) = Inr n" for raw n
    using drafted_node [OF that(2)] scan_nodes(3) [OF scan] t that(1) by blast
  show thesis
  proof (rule that [OF len roles(1)])
    show "length (sn_nodes s) = length raws" using mapM_Inr_length [OF bound] by simp
    show "\<forall>n \<in> set (sn_nodes s). \<exists>raw \<in> set raws. drafted allow_web raw n"
      using mapM_in [OF bound] each by fastforce
    show "\<forall>raw \<in> set raws. \<exists>n \<in> set (sn_nodes s). drafted allow_web raw n"
    proof
      fix raw assume raw: "raw \<in> set raws"
      then have "to_json_value raw \<in> set (map to_json_value raws')" by simp
      from mapM_ok_each [OF bound this] each [OF raw] show "\<exists>n \<in> set (sn_nodes s). drafted allow_web raw n" by blast
    qed
    show "sc_depended sc = concat (map draft_deps raws)" using scan_nodes(1) [OF scan] by (simp add: empty_scan_def)
    show "sc_has_agent sc = (\<exists>raw \<in> set raws. executed_by ''agent'' raw \<and> as_str (getv (node_map raw) ''id'') \<noteq> None)"
      using scan_nodes(2) [OF scan] by (simp add: empty_scan_def)
  qed (use roles(2) graph inst in simp_all)
qed

section \<open>Every agent is reviewed\<close>

text \<open>A node on which no other depends.\<close>

definition final_node :: "instance_snapshot \<Rightarrow> string \<Rightarrow> bool" where
  "final_node s key \<longleftrightarrow> (\<forall>n \<in> set (sn_nodes s). key \<notin> set (ns_deps n))"

lemma reaches_final:
  assumes wf: "wf_snapshot s" and "key \<in> set (snapshot_keys s)"
  shows "\<exists>t \<in> set (snapshot_keys s). (key, t) \<in> (dep_rel s)\<^sup>* \<and> final_node s t"
proof -
  have "wf ((dep_rel s)\<inverse>)"
    using wf finite_dep_rel by (intro finite_acyclic_wf_converse) (simp_all add: wf_snapshot_def)
  then show ?thesis using assms(2)
  proof (induction key rule: wf_induct_rule)
    case (less key)
    show ?case
    proof (cases "final_node s key")
      case False
      then obtain n where n: "n \<in> set (sn_nodes s)" "key \<in> set (ns_deps n)" by (auto simp: final_node_def)
      have "deps_of s (ns_key n) = set (ns_deps n)" using wf n(1) by (simp add: wf_snapshot_def deps_of_spec)
      then have step: "(key, ns_key n) \<in> dep_rel s" using n by (auto simp: dep_rel_def)
      moreover have "ns_key n \<in> set (snapshot_keys s)" using n(1) by simp
      ultimately obtain t where "t \<in> set (snapshot_keys s)" "(ns_key n, t) \<in> (dep_rel s)\<^sup>*" "final_node s t"
        using less.IH [of "ns_key n"] by auto
      with step show ?thesis by (meson converse_rtrancl_into_rtrancl)
    qed (use less.prems in blast)
  qed
qed

lemma check_draft_graph_agent:
  assumes "check_draft_graph raws sc = Inr ()" and "sc_has_agent sc" and "raw \<in> set raws" and "is_terminal sc raw"
  shows "executed_by ''human'' raw" "decides raw"
proof -
  have "list_all (\<lambda>t. executed_by ''human'' t \<and> decides t) (filter (is_terminal sc) raws)"
    using assms(1,2) unfolding check_draft_graph_def by (simp add: rbind_Inr_iff reject_unless_Inr)
  then show "executed_by ''human'' raw" "decides raw" using assms(3,4) by (simp_all add: list_all_iff)
qed

lemma final_is_terminal:
  assumes drafted: "drafted allow_web raw n" and final: "final_node s (ns_key n)"
    and all: "\<forall>raw \<in> set raws. \<exists>n \<in> set (sn_nodes s). drafted allow_web raw n"
    and sc: "sc_depended sc = concat (map draft_deps raws)"
  shows "is_terminal sc raw"
proof -
  have "ns_key n \<notin> set (draft_deps raw')" if "raw' \<in> set raws" for raw'
    using all that final unfolding final_node_def drafted_def by blast
  then have "ns_key n \<notin> set (sc_depended sc)" using sc by auto
  moreover have "getv (node_map raw) ''id'' = PStr (ns_key n)" using drafted by (simp add: drafted_def)
  ultimately show ?thesis by (auto simp: is_terminal_def)
qed

text \<open>What the nodes without successors are, when the workflow has an agent.\<close>

definition ends_in_decisions :: "instance_snapshot \<Rightarrow> bool" where
  "ends_in_decisions s \<longleftrightarrow> (\<forall>t \<in> set (sn_nodes s). final_node s (ns_key t) \<longrightarrow>
     ns_executor t = HUMAN \<and> human_decision_config (ns_work t) \<noteq> None)"

lemma accepted_draft_ends:
  assumes graph: "check_draft_graph raws sc = Inr ()"
    and nodes: "\<forall>n \<in> set (sn_nodes s). \<exists>raw \<in> set raws. drafted allow_web raw n"
    and all: "\<forall>raw \<in> set raws. \<exists>n \<in> set (sn_nodes s). drafted allow_web raw n"
    and sc: "sc_depended sc = concat (map draft_deps raws)"
    and agents: "sc_has_agent sc = (\<exists>raw \<in> set raws. executed_by ''agent'' raw \<and> as_str (getv (node_map raw) ''id'') \<noteq> None)"
    and a: "a \<in> set (sn_nodes s)" "ns_executor a = AGENT"
  shows "ends_in_decisions s"
  unfolding ends_in_decisions_def
proof (intro ballI impI)
  fix t assume t: "t \<in> set (sn_nodes s)" "final_node s (ns_key t)"
  obtain ra where ra: "ra \<in> set raws" "drafted allow_web ra a" using nodes a(1) by blast
  have has: "sc_has_agent sc" unfolding agents
    using ra a(2) by (intro bexI [of _ ra]) (simp_all add: drafted_def executed_by_def)
  obtain rt where rt: "rt \<in> set raws" "drafted allow_web rt t" using nodes t(1) by blast
  have "executed_by ''human'' rt" "decides rt"
    using check_draft_graph_agent [OF graph has rt(1) final_is_terminal [OF rt(2) t(2) all sc]] by blast+
  then show "ns_executor t = HUMAN \<and> human_decision_config (ns_work t) \<noteq> None"
    using rt(2) by (cases "ns_executor t") (simp_all add: drafted_def executed_by_def)
qed

lemma accepted_draft_agent_ends:
  assumes accepted: "validate_generated_draft domain allow_web d bundle = Inr ()"
    and roles: "inline_owner_roles d = Inr roles" and s: "instantiate_inline_definition d (draft_bindings roles) = Inr s"
    and a: "a \<in> set (sn_nodes s)" "ns_executor a = AGENT"
  shows "ends_in_decisions s"
  using accepted
proof (rule accepted_draft_nodes, goal_cases)
  case (1 raws roles' sc s')
  have "roles' = roles" using 1(3) roles by simp
  then have "s' = s" using 1(7) s by simp
  from 1(8,9) have nodes: "\<forall>n \<in> set (sn_nodes s). \<exists>raw \<in> set raws. drafted allow_web raw n"
    "\<forall>raw \<in> set raws. \<exists>n \<in> set (sn_nodes s). drafted allow_web raw n" unfolding \<open>s' = s\<close> by blast+
  show ?case by (rule accepted_draft_ends [OF 1(6) nodes 1(10,11) a])
qed

lemma draft_owner:
  assumes "set roles \<subseteq> {''requester'', ''collaborator''}" and "p \<in> snd ` set (draft_bindings roles)"
  shows "p \<in> {''person_requester'', ''person_collaborator''}"
proof -
  obtain r where "r \<in> set roles" "p = ''person_'' @ r" using assms(2) by (auto simp: draft_bindings_def)
  with assms(1) show ?thesis by auto
qed

end
