(* ===== verification/Draft_Properties.thy ===== *)
theory Draft_Properties
  imports Draft_Theorems
begin

text \<open>
  The properties of generated drafts: what the acceptance of a definition that a language model has
  written guarantees of the workflow that is made of it, whatever the check of the travel domain is.
\<close>

section \<open>A draft that is accepted\<close>

definition drafted_node_object :: "string \<Rightarrow> string \<Rightarrow> string list \<Rightarrow> string \<Rightarrow> string \<Rightarrow> pmap \<Rightarrow> pval" where
  "drafted_node_object key executor deps output type extra = PDict
     [(''id'', PStr key), (''title'', PStr key), (''owner_role'', PStr ''requester''), (''executor'', PStr executor),
      (''deps'', PList (map PStr deps)),
      (''work'', PDict
         ([(''objective'', PStr ''write''), (''inputs'', PList (map (\<lambda>d. PStr (''dependencies.'' @ d)) deps)),
           (''outputs'', PList [PDict [(''id'', PStr output), (''label'', PStr ''Text''), (''type'', PStr type),
              (''required'', PBool True)]]),
           (''acceptance'', PList [PStr ''complete''])] @ extra))]"

text \<open>A person writes a brief, an agent a text from it, and a person decides on the text.\<close>

definition demo_draft :: pmap where
  "demo_draft = [(''goal'', PStr ''launch''), (''inputs'', PDict [(''brief'', PStr ''a text'')]),
     (''nodes'', PList
        [drafted_node_object ''brief'' ''human'' [] ''body'' ''text'' [],
         drafted_node_object ''text'' ''agent'' [''brief''] ''content'' ''text''
           [(''agent'', PDict [(''kind'', PStr ''text''), (''model_role'', PStr ''default''), (''instructions'', PStr ''write'')])],
         drafted_node_object ''sign'' ''human'' [''text''] ''decision'' ''decision''
           [(''decision'', PDict [(''kind'', PStr ''accept_reject''), (''reject_target'', PStr ''text'')])]])]"

definition no_domain :: "pmap \<Rightarrow> draft_context option \<Rightarrow> unit res" where
  "no_domain d bundle = Inr ()"

lemma demo_draft_accepted:
  "validate_generated_draft no_domain False demo_draft None = Inr ()"
  "inline_owner_roles demo_draft = Inr [''requester'']"
  "is_ok (instantiate_inline_definition demo_draft (draft_bindings [''requester'']))"
  by code_simp+

section \<open>Drafts\<close>

text \<open>C24: in the workflow made of an accepted draft, every agent is followed, over dependencies, by a person's
  decision on which nothing else depends: no result of an agent leaves the workflow unreviewed.\<close>

theorem accepted_draft_reviewed:
  assumes accepted: "validate_generated_draft domain allow_web d bundle = Inr ()"
    and roles: "inline_owner_roles d = Inr roles" and s: "instantiate_inline_definition d (draft_bindings roles) = Inr s"
    and a: "a \<in> set (sn_nodes s)" "ns_executor a = AGENT"
  shows "\<exists>t \<in> set (sn_nodes s). (ns_key a, ns_key t) \<in> (dep_rel s)\<^sup>+ \<and> final_node s (ns_key t) \<and>
     ns_executor t = HUMAN \<and> human_decision_config (ns_work t) \<noteq> None"
proof -
  have ends: "ends_in_decisions s" by (rule accepted_draft_agent_ends [OF accepted roles s a])
  have wf: "wf_snapshot s" by (rule validate_snapshot_wf) (rule inline_sound [OF s])
  moreover have "ns_key a \<in> set (snapshot_keys s)" using a(1) by simp
  ultimately obtain key where key: "key \<in> set (snapshot_keys s)" "(ns_key a, key) \<in> (dep_rel s)\<^sup>*" "final_node s key"
    using reaches_final by blast
  then obtain t where t: "t \<in> set (sn_nodes s)" "key = ns_key t" by auto
  then have human: "ns_executor t = HUMAN \<and> human_decision_config (ns_work t) \<noteq> None"
    using ends key(3) by (simp add: ends_in_decisions_def)
  have "ns_key a \<noteq> ns_key t"
  proof
    assume "ns_key a = ns_key t"
    with wf a(1) t(1) have "a = t" by (simp add: wf_snapshot_def simple_snapshot_def distinct_map inj_on_def)
    with human a(2) show False by simp
  qed
  with key t human show ?thesis by (auto dest: rtranclD)
qed

theorem accepted_draft_reviewed_witness:
  "\<exists>s a t. instantiate_inline_definition demo_draft (draft_bindings [''requester'']) = Inr s \<and> a \<in> set (sn_nodes s) \<and>
     ns_executor a = AGENT \<and> t \<in> set (sn_nodes s) \<and> (ns_key a, ns_key t) \<in> (dep_rel s)\<^sup>+ \<and> ns_executor t = HUMAN"
proof -
  obtain s where s: "instantiate_inline_definition demo_draft (draft_bindings [''requester'']) = Inr s"
    using demo_draft_accepted(3) by (cases "instantiate_inline_definition demo_draft (draft_bindings [''requester''])") simp_all
  have "case instantiate_inline_definition demo_draft (draft_bindings [''requester'']) of
      Inl _ \<Rightarrow> False | Inr s \<Rightarrow> list_ex (\<lambda>n. ns_executor n = AGENT) (sn_nodes s)" by code_simp
  then have "list_ex (\<lambda>n. ns_executor n = AGENT) (sn_nodes s)" unfolding s sum.case .
  then obtain a where a: "a \<in> set (sn_nodes s)" "ns_executor a = AGENT" by (auto simp: list_ex_iff)
  show ?thesis using accepted_draft_reviewed [OF demo_draft_accepted(1,2) s a] s a by blast
qed

text \<open>C25: an accepted draft can be instantiated with the requester and one collaborator as its owners; the
  workflow is valid, has one to eight nodes, uses tools only where web search is allowed, and no agent of it
  asks for the personal capability.\<close>

theorem accepted_draft_sound:
  assumes "validate_generated_draft domain allow_web d bundle = Inr ()"
  shows "\<exists>roles s. inline_owner_roles d = Inr roles \<and> instantiate_inline_definition d (draft_bindings roles) = Inr s \<and>
     validate_snapshot s = Inr () \<and> 1 \<le> length (sn_nodes s) \<and> length (sn_nodes s) \<le> MAX_GENERATED_NODES \<and>
     (\<forall>n \<in> set (sn_nodes s). (ns_executor n = TOOL \<longrightarrow> allow_web) \<and> \<not> personal_agent (ns_work n) \<and>
        ns_owner_person_id n \<in> {''person_requester'', ''person_collaborator''})"
  using assms
proof (rule accepted_draft_nodes)
  fix raws roles sc s
  assume len: "1 \<le> length raws" "length raws \<le> MAX_GENERATED_NODES" "length (sn_nodes s) = length raws"
    and roles: "inline_owner_roles d = Inr roles" "set roles \<subseteq> {''requester'', ''collaborator''}"
    and s: "instantiate_inline_definition d (draft_bindings roles) = Inr s"
    and nodes: "\<forall>n \<in> set (sn_nodes s). \<exists>raw \<in> set raws. drafted allow_web raw n"
  have "(ns_executor n = TOOL \<longrightarrow> allow_web) \<and> \<not> personal_agent (ns_work n) \<and>
     ns_owner_person_id n \<in> {''person_requester'', ''person_collaborator''}" if "n \<in> set (sn_nodes s)" for n
    using nodes that inline_sound(6) [OF s] draft_owner [OF roles(2)] unfolding drafted_def by blast
  with roles(1) s len inline_sound(1) [OF s] show ?thesis
    by (intro exI [of _ roles] exI [of _ s]) simp
qed

theorem accepted_draft_sound_witness:
  "\<exists>roles s. instantiate_inline_definition demo_draft (draft_bindings roles) = Inr s \<and> validate_snapshot s = Inr () \<and>
     length (sn_nodes s) \<le> MAX_GENERATED_NODES"
  using accepted_draft_sound [OF demo_draft_accepted(1)] by blast

end
