(* ===== verification/Edge.thy ===== *)
theory Edge
  imports Worker
begin

text \<open>
  \<open>src/larkflow/workflow/edge.py\<close>: personal devices that run work of their owner. A pairing code is
  issued for a person, a device redeems it once for a credential, and with the credential it claims,
  renews, completes and fails agent nodes of that person; a device can be revoked. The store is
  \<open>InMemoryEdgeStore\<close>, each operation of which runs under its lock.
\<close>

section \<open>Records\<close>

datatype edge_device_status = D_ACTIVE | D_REVOKED

record edge_pairing_ticket =
  et_id :: string
  et_tenant_id :: string
  et_person_id :: string
  et_code_hash :: string
  et_allowed_capabilities :: "string list"
  et_created_at :: time
  et_expires_at :: time
  et_created_by_person_id :: string
  et_used_at :: "time option"

record edge_pairing_grant =
  gr_code :: string
  gr_expires_at :: time
  gr_allowed_capabilities :: "string list"

record edge_device =
  ed_id :: string
  ed_tenant_id :: string
  ed_person_id :: string
  ed_name :: string
  ed_capabilities :: "string list"
  ed_credential_hash :: string
  ed_status :: edge_device_status
  ed_created_at :: time
  ed_last_seen_at :: "time option"
  ed_revoked_at :: "time option"

record edge_audit_event =
  ee_id :: string
  ee_tenant_id :: string
  ee_person_id :: string
  ee_event_type :: string
  ee_actor_person_id :: "string option"
  ee_occurred_at :: time
  ee_device_id :: "string option"
  ee_payload :: pmap

record edge_lease =
  el_device_id :: string
  el_request :: execution_request

record edge_store =
  es_pairings :: "(string, edge_pairing_ticket) odict"
  es_devices :: "(string, edge_device) odict"
  es_events :: "edge_audit_event list"

definition empty_edge_store :: edge_store where
  "empty_edge_store = \<lparr>es_pairings = [], es_devices = [], es_events = []\<rparr>"

section \<open>The store\<close>

definition create_pairing :: "edge_pairing_ticket \<Rightarrow> edge_audit_event \<Rightarrow> edge_store \<Rightarrow> (edge_store \<times> unit) res" where
  "create_pairing ticket event es =
     rbind (ensure (dget (es_pairings es) (et_id ticket) = None) (ValueError ''pairing ticket already exists'')) (\<lambda>_.
     Inr (es\<lparr>es_pairings := dput (et_id ticket) ticket (es_pairings es), es_events := es_events es @ [event]\<rparr>, ()))"

text \<open>\<open>x is None or not secrets.compare_digest(x.hash, supplied)\<close>\<close>

definition expect_hash :: "('a \<Rightarrow> string) \<Rightarrow> 'a option \<Rightarrow> string \<Rightarrow> exn \<Rightarrow> 'a res" where
  "expect_hash hash x supplied e =
     rbind (get_or_raise x e) (\<lambda>x. rbind (compare_digest (hash x) supplied) (\<lambda>same. rbind (ensure same e) (\<lambda>_. Inr x)))"

definition new_edge_device ::
    "edge_pairing_ticket \<Rightarrow> string \<Rightarrow> string \<Rightarrow> string list \<Rightarrow> string \<Rightarrow> time \<Rightarrow> edge_device" where
  "new_edge_device ticket did name capabilities credential_hash now =
     \<lparr>ed_id = did, ed_tenant_id = et_tenant_id ticket, ed_person_id = et_person_id ticket, ed_name = name,
      ed_capabilities = capabilities, ed_credential_hash = credential_hash, ed_status = D_ACTIVE,
      ed_created_at = now, ed_last_seen_at = Some now, ed_revoked_at = None\<rparr>"

definition paired_event :: "string \<Rightarrow> edge_device \<Rightarrow> time \<Rightarrow> edge_audit_event" where
  "paired_event eid device now =
     \<lparr>ee_id = eid, ee_tenant_id = ed_tenant_id device, ee_person_id = ed_person_id device,
      ee_event_type = ''edge.device_paired'', ee_actor_person_id = Some (ed_person_id device),
      ee_occurred_at = now, ee_device_id = Some (ed_id device),
      ee_payload = freeze_map [(''name'', PStr (ed_name device)),
        (''capabilities'', PTuple (map PStr (ed_capabilities device)))]\<rparr>"

definition store_pair_device ::
    "string \<Rightarrow> string \<Rightarrow> string \<Rightarrow> string \<Rightarrow> string list \<Rightarrow> string \<Rightarrow> time \<Rightarrow> string \<Rightarrow> edge_store
       \<Rightarrow> (edge_store \<times> edge_device) res" where
  "store_pair_device ticket_id code_hash did name capabilities credential_hash now eid es =
     rbind (expect_hash et_code_hash (dget (es_pairings es) ticket_id) code_hash
              (InvalidPairingCodeError ''pairing code is invalid'')) (\<lambda>ticket.
     rbind (ensure (et_used_at ticket = None) (PairingCodeUsedError ''pairing code has already been used'')) (\<lambda>_.
     rbind (ensure (now < et_expires_at ticket) (PairingCodeExpiredError ''pairing code has expired'')) (\<lambda>_.
     rbind (ensure (capabilities \<noteq> [] \<and> set capabilities \<subseteq> set (et_allowed_capabilities ticket))
              (UnsupportedEdgeCapabilityError ''requested capabilities are not allowed by this pairing code'')) (\<lambda>_.
     rbind (ensure (dget (es_devices es) did = None) (ValueError ''device already exists'')) (\<lambda>_.
     let device = new_edge_device ticket did name capabilities credential_hash now in
     Inr (es\<lparr>es_pairings := dput ticket_id (ticket\<lparr>et_used_at := Some now\<rparr>) (es_pairings es),
             es_devices := dput did device (es_devices es),
             es_events := es_events es @ [paired_event eid device now]\<rparr>, device))))))"

definition authenticate_device :: "string \<Rightarrow> string \<Rightarrow> time \<Rightarrow> edge_store \<Rightarrow> (edge_store \<times> edge_device) res" where
  "authenticate_device did credential_hash now es =
     rbind (expect_hash ed_credential_hash (dget (es_devices es) did) credential_hash
              (InvalidDeviceCredentialError ''device credential is invalid'')) (\<lambda>device.
     rbind (ensure (ed_status device \<noteq> D_REVOKED) (DeviceRevokedError ''device has been revoked'')) (\<lambda>_.
     let device = device\<lparr>ed_last_seen_at := Some now\<rparr> in
     Inr (es\<lparr>es_devices := dput did device (es_devices es)\<rparr>, device)))"

definition list_devices :: "string \<Rightarrow> edge_store \<Rightarrow> edge_device list" where
  "list_devices tenant es = filter (\<lambda>d. ed_tenant_id d = tenant) (sort_key ed_id (map snd (es_devices es)))"

definition revoked_event :: "string \<Rightarrow> string \<Rightarrow> edge_device \<Rightarrow> string \<Rightarrow> string \<Rightarrow> time \<Rightarrow> edge_audit_event" where
  "revoked_event eid tenant device actor reason now =
     \<lparr>ee_id = eid, ee_tenant_id = tenant, ee_person_id = ed_person_id device,
      ee_event_type = ''edge.device_revoked'', ee_actor_person_id = Some actor, ee_occurred_at = now,
      ee_device_id = Some (ed_id device), ee_payload = freeze_map [(''reason'', PStr reason)]\<rparr>"

definition store_revoke_device ::
    "string \<Rightarrow> string \<Rightarrow> string \<Rightarrow> string \<Rightarrow> time \<Rightarrow> string \<Rightarrow> edge_store \<Rightarrow> (edge_store \<times> edge_device) res" where
  "store_revoke_device tenant did actor reason now eid es =
     rbind (get_or_raise (dget (es_devices es) did) (EdgeDeviceNotFoundError did)) (\<lambda>device.
     rbind (ensure (ed_tenant_id device = tenant) (EdgeDeviceNotFoundError did)) (\<lambda>_.
     if ed_status device = D_REVOKED then Inr (es, device)
     else let device = device\<lparr>ed_status := D_REVOKED, ed_revoked_at := Some now\<rparr> in
       Inr (es\<lparr>es_devices := dput did device (es_devices es),
               es_events := es_events es @ [revoked_event eid tenant device actor reason now]\<rparr>, device)))"

definition edge_audit_log :: "string \<Rightarrow> edge_store \<Rightarrow> edge_audit_event list" where
  "edge_audit_log tenant es = filter (\<lambda>e. ee_tenant_id e = tenant) (es_events es)"

section \<open>Helpers of the service\<close>

definition secret_hash :: "string \<Rightarrow> string \<Rightarrow> string" where
  "secret_hash purpose secret = sha256_hex (utf8_encode (purpose @ '':'' @ secret))"

text \<open>\<open>value.strip().partition(".")\<close>\<close>

definition split_secret :: "string \<Rightarrow> exn \<Rightarrow> (string \<times> string) res" where
  "split_secret value e =
     (let s = py_strip value; i = takeWhile (\<lambda>c. c \<noteq> CHR ''.'') s; rest = dropWhile (\<lambda>c. c \<noteq> CHR ''.'') s in
      rbind (ensure (rest \<noteq> [] \<and> i \<noteq> [] \<and> tl rest \<noteq> []) e) (\<lambda>_. Inr (i, tl rest)))"

definition edge_text :: "pval \<Rightarrow> string res" where
  "edge_text v = (case as_str v of
     None \<Rightarrow> Inl (ValueError ''text is required'')
   | Some s \<Rightarrow> if blank s then Inl (ValueError ''text is required'') else Inr (py_strip s))"

definition capabilities_of :: "pval \<Rightarrow> string list res" where
  "capabilities_of values =
     rbind (ensure (case values of PStr _ \<Rightarrow> False | PBytes _ \<Rightarrow> False | _ \<Rightarrow> True)
              (ValueError ''capabilities must be a collection'')) (\<lambda>_.
     rbind (iter_items values) (\<lambda>items.
     rbind (mapM edge_text items) (\<lambda>texts.
     let capabilities = sort (remdups texts) in
     rbind (ensure (capabilities \<noteq> []) (ValueError ''at least one capability is required'')) (\<lambda>_.
     rbind (ensure (length capabilities \<le> 20) (ValueError ''too many capabilities'')) (\<lambda>_.
     Inr capabilities)))))"

definition worker_id_of :: "string \<Rightarrow> string" where
  "worker_id_of did = ''edge:'' @ did"

definition device_can_run :: "edge_device \<Rightarrow> node_spec \<Rightarrow> bool" where
  "device_can_run device spec \<longleftrightarrow>
     ns_executor spec = AGENT \<and> ns_owner_person_id spec = ed_person_id device \<and>
     (case as_map (getv (ns_work spec) ''agent'') of
        None \<Rightarrow> False
      | Some agent \<Rightarrow> (case as_str (getv agent ''kind'') of None \<Rightarrow> False | Some kind \<Rightarrow> kind \<in> set (ed_capabilities device)))"

section \<open>The service\<close>

record edge_service =
  ev_supported_capabilities :: "string list"
  ev_candidate_limit :: int
  ev_max_result_bytes :: int

text \<open>\<open>EdgeControlService.__init__\<close>.\<close>

definition mk_edge_service :: "pval \<Rightarrow> int \<Rightarrow> int \<Rightarrow> edge_service res" where
  "mk_edge_service supported limit max_bytes =
     rbind (ensure (1 \<le> limit) (ValueError ''candidate_limit must be positive'')) (\<lambda>_.
     rbind (ensure (1 \<le> max_bytes) (ValueError ''max_result_bytes must be positive'')) (\<lambda>_.
     rbind (ensure (case supported of PStr _ \<Rightarrow> False | PBytes _ \<Rightarrow> False | _ \<Rightarrow> True)
              (ValueError ''supported_capabilities must be a collection'')) (\<lambda>_.
     rbind (iter_items supported) (\<lambda>items.
     rbind (ensure (items \<noteq> []) (ValueError ''supported_capabilities cannot be empty'')) (\<lambda>_.
     Inr \<lparr>ev_supported_capabilities = map py_str items, ev_candidate_limit = limit, ev_max_result_bytes = max_bytes\<rparr>)))))"

text \<open>The ids and secrets that a call draws, in their order, and the time.\<close>

record edge_env =
  ev_ids :: "nat \<Rightarrow> string"
  ev_secrets :: "nat \<Rightarrow> string"
  ev_now :: time

definition HOUR :: int where "HOUR = 3600000000"

definition issued_event :: "string \<Rightarrow> edge_pairing_ticket \<Rightarrow> edge_audit_event" where
  "issued_event eid ticket =
     \<lparr>ee_id = eid, ee_tenant_id = et_tenant_id ticket, ee_person_id = et_person_id ticket,
      ee_event_type = ''edge.pairing_issued'', ee_actor_person_id = Some (et_created_by_person_id ticket),
      ee_occurred_at = et_created_at ticket, ee_device_id = None,
      ee_payload = freeze_map [(''expires_at'', PStr (isoformat (et_expires_at ticket))),
        (''allowed_capabilities'', PTuple (map PStr (et_allowed_capabilities ticket)))]\<rparr>"

definition issue_pairing ::
    "edge_service \<Rightarrow> edge_env \<Rightarrow> pval \<Rightarrow> pval \<Rightarrow> pval \<Rightarrow> int \<Rightarrow> pval \<Rightarrow> edge_store \<Rightarrow> (edge_store \<times> edge_pairing_grant) res" where
  "issue_pairing sv ev tenant person actor ttl permitted es =
     rbind (edge_text tenant) (\<lambda>tenant.
     rbind (edge_text person) (\<lambda>person.
     rbind (edge_text actor) (\<lambda>actor.
     rbind (ensure (0 < ttl \<and> ttl \<le> HOUR) (ValueError ''pairing ttl must be between 0 and 1 hour'')) (\<lambda>_.
     rbind (capabilities_of permitted) (\<lambda>capabilities.
     rbind (ensure (set capabilities \<subseteq> set (ev_supported_capabilities sv))
              (UnsupportedEdgeCapabilityError ''unsupported pairing capability'')) (\<lambda>_.
     let ticket = \<lparr>et_id = ev_ids ev 0, et_tenant_id = tenant, et_person_id = person,
            et_code_hash = secret_hash ''pairing'' (ev_secrets ev 0), et_allowed_capabilities = capabilities,
            et_created_at = ev_now ev, et_expires_at = ev_now ev + ttl, et_created_by_person_id = actor,
            et_used_at = None\<rparr> in
     rbind (create_pairing ticket (issued_event (ev_ids ev 1) ticket) es) (\<lambda>(es, _).
     Inr (es, \<lparr>gr_code = ev_ids ev 0 @ ''.'' @ ev_secrets ev 0, gr_expires_at = et_expires_at ticket,
               gr_allowed_capabilities = capabilities\<rparr>))))))))"

definition pair_device ::
    "edge_service \<Rightarrow> edge_env \<Rightarrow> string \<Rightarrow> pval \<Rightarrow> pval \<Rightarrow> edge_store \<Rightarrow> (edge_store \<times> edge_device \<times> string) res" where
  "pair_device sv ev code name requested es =
     rbind (split_secret code (InvalidPairingCodeError ''pairing code is invalid'')) (\<lambda>(ticket_id, secret).
     rbind (edge_text name) (\<lambda>name.
     rbind (ensure (length name \<le> 120) (ValueError ''device name is too long'')) (\<lambda>_.
     rbind (capabilities_of requested) (\<lambda>capabilities.
     rbind (ensure (set capabilities \<subseteq> set (ev_supported_capabilities sv))
              (UnsupportedEdgeCapabilityError ''unsupported device capability'')) (\<lambda>_.
     rbind (store_pair_device ticket_id (secret_hash ''pairing'' secret) (ev_ids ev 0) name capabilities
              (secret_hash ''device'' (ev_secrets ev 0)) (ev_now ev) (ev_ids ev 1) es) (\<lambda>(es, device).
     Inr (es, device, ed_id device @ ''.'' @ ev_secrets ev 0)))))))"

definition authenticate :: "edge_env \<Rightarrow> string \<Rightarrow> edge_store \<Rightarrow> (edge_store \<times> edge_device) res" where
  "authenticate ev credential es =
     rbind (split_secret credential (InvalidDeviceCredentialError ''device credential is invalid'')) (\<lambda>(did, secret).
     authenticate_device did (secret_hash ''device'' secret) (ev_now ev) es)"

definition revoke_device ::
    "edge_env \<Rightarrow> pval \<Rightarrow> pval \<Rightarrow> pval \<Rightarrow> pval \<Rightarrow> edge_store \<Rightarrow> (edge_store \<times> edge_device) res" where
  "revoke_device ev tenant did actor reason es =
     rbind (edge_text tenant) (\<lambda>tenant.
     rbind (edge_text did) (\<lambda>did.
     rbind (edge_text actor) (\<lambda>actor.
     rbind (edge_text reason) (\<lambda>reason.
     store_revoke_device tenant did actor reason (ev_now ev) (ev_ids ev 0) es))))"

section \<open>Work\<close>

text \<open>\<open>json.dumps(value, ensure_ascii=False, allow_nan=False)\<close>, with the separators of the default.\<close>

primrec json_spaced :: "pval \<Rightarrow> string res" where
  "json_spaced PNone = Inr ''null''"
| "json_spaced (PBool b) = Inr (if b then ''true'' else ''false'')"
| "json_spaced (PInt n) = Inr (dec_int n)"
| "json_spaced (PFloat t) = rbind (ensure (t \<notin> {''nan'', ''inf'', ''-inf''})
     (ValueError ''Out of range float values are not JSON compliant'')) (\<lambda>_. Inr t)"
| "json_spaced (PStr s) = Inr (json_str s)"
| "json_spaced (PBytes s) = Inl (TypeError ''object is not JSON serializable'')"
| "json_spaced (PList xs) = rbind (mapM (\<lambda>x. x) (map json_spaced xs)) (\<lambda>ts. Inr (''['' @ join '', '' ts @ '']''))"
| "json_spaced (PTuple xs) = rbind (mapM (\<lambda>x. x) (map json_spaced xs)) (\<lambda>ts. Inr (''['' @ join '', '' ts @ '']''))"
| "json_spaced (PSet xs) = Inl (TypeError ''object is not JSON serializable'')"
| "json_spaced (PDict m) =
     rbind (mapM (\<lambda>(k, t). rbind t (\<lambda>t. Inr (json_str k @ '': '' @ t))) (map (map_prod id json_spaced) m)) (\<lambda>ts.
     Inr (''{'' @ join '', '' ts @ ''}''))"
| "json_spaced (PFrozen m) = Inl (TypeError ''object is not JSON serializable'')"

definition edge_request :: "string \<Rightarrow> node_activation \<Rightarrow> workflow_instance \<Rightarrow> execution_request res" where
  "edge_request tenant a w =
     rbind (current_attempt w (act_node_key a)) (\<lambda>attempt.
     rbind (get_or_raise (act_claim_token a) (RuntimeError ''Edge activation is missing its execution lease'')) (\<lambda>token.
     rbind (get_or_raise (act_claim_expires_at a) (RuntimeError ''Edge activation is missing its execution lease'')) (\<lambda>expires.
     rbind (snapshot_node (wi_snapshot w) (act_node_key a)) (\<lambda>spec.
     Inr \<lparr>er_tenant_id = tenant, er_instance_id = act_instance_id a, er_node_key = act_node_key a,
          er_attempt_id = act_attempt_id a, er_attempt_no = act_attempt_no a,
          er_owner_person_id = act_owner_person_id a, er_executor = act_executor a,
          er_work = freeze_map (ns_work spec), er_input_snapshot = freeze_map (na_input_snapshot attempt),
          er_expected_node_version = act_expected_node_version a, er_claim_token = token,
          er_claim_expires_at = expires\<rparr>))))"

text \<open>The loop over the candidates of \<open>claim\<close>, which returns from inside.\<close>

definition eligible_for :: "edge_device \<Rightarrow> workflow_instance \<Rightarrow> string list" where
  "eligible_for device w = map ns_key (filter (device_can_run device) (sn_nodes (wi_snapshot w)))"

definition edge_dispatch ::
    "world \<Rightarrow> edge_device \<Rightarrow> string \<Rightarrow> string list \<Rightarrow> shared \<Rightarrow> shared \<times> node_activation list res" where
  "edge_dispatch wd device iid keys = shared_command wd (\<lambda>env r r'.
     dispatch_due env r r' (ed_tenant_id device) iid (worker_id_of (ed_id device)) 1 (Some keys) None)"

definition claimed_by_device :: "edge_device \<Rightarrow> node_activation list \<Rightarrow> node_activation option" where
  "claimed_by_device device acts = find (\<lambda>a. act_claimed_by a = Some (worker_id_of (ed_id device))) acts"

definition lease_of :: "world \<Rightarrow> edge_device \<Rightarrow> node_activation \<Rightarrow> shared \<Rightarrow> shared \<times> edge_lease option res" where
  "lease_of wd device a = shared_read wd (\<lambda>env r.
     rbind (repo_get r (ed_tenant_id device) (act_instance_id a)) (\<lambda>w.
     rbind (edge_request (ed_tenant_id device) a w) (\<lambda>request.
     Inr (Some \<lparr>el_device_id = ed_id device, el_request = request\<rparr>))))"

fun claim_loop :: "world \<Rightarrow> edge_device \<Rightarrow> string list \<Rightarrow> shared \<Rightarrow> shared \<times> edge_lease option res" where
  "claim_loop wd device [] sh = (sh, Inr None)"
| "claim_loop wd device (iid # iids) sh =
     (case shared_read wd (\<lambda>env r. rbind (repo_get r (ed_tenant_id device) iid) (\<lambda>w. Inr (eligible_for device w))) sh of
        (sh, Inl e) \<Rightarrow> (sh, Inl e)
      | (sh, Inr keys) \<Rightarrow>
          if keys = [] then claim_loop wd device iids sh
          else (case edge_dispatch wd device iid keys sh of
            (sh, Inl (ConcurrentUpdateError m)) \<Rightarrow> claim_loop wd device iids sh
          | (sh, Inl e) \<Rightarrow> (sh, Inl e)
          | (sh, Inr acts) \<Rightarrow> (case claimed_by_device device acts of
              None \<Rightarrow> claim_loop wd device iids sh
            | Some a \<Rightarrow> lease_of wd device a sh)))"

text \<open>A request of a device: it is authenticated on the store of the devices, then acts on the workflows.\<close>

definition with_device ::
    "edge_env \<Rightarrow> string \<Rightarrow> (edge_device \<Rightarrow> shared \<Rightarrow> shared \<times> 'a res) \<Rightarrow> edge_store \<Rightarrow> shared
       \<Rightarrow> edge_store \<times> shared \<times> 'a res" where
  "with_device ev credential f es sh = (case authenticate ev credential es of
     Inl e \<Rightarrow> (es, sh, Inl e)
   | Inr (es, device) \<Rightarrow> (es, f device sh))"

definition claim_for :: "edge_service \<Rightarrow> world \<Rightarrow> edge_device \<Rightarrow> shared \<Rightarrow> shared \<times> edge_lease option res" where
  "claim_for sv wd device sh =
     (case shared_read wd (\<lambda>env r. runnable_instance_ids r (ed_tenant_id device) (env_now env) (ev_candidate_limit sv)) sh of
        (sh, Inl e) \<Rightarrow> (sh, Inl e)
      | (sh, Inr iids) \<Rightarrow> claim_loop wd device iids sh)"

definition edge_claim ::
    "edge_service \<Rightarrow> edge_env \<Rightarrow> world \<Rightarrow> string \<Rightarrow> edge_store \<Rightarrow> shared \<Rightarrow> edge_store \<times> shared \<times> edge_lease option res" where
  "edge_claim sv ev wd credential = with_device ev credential (claim_for sv wd)"

definition require_lease_owner :: "world \<Rightarrow> edge_device \<Rightarrow> string \<Rightarrow> string \<Rightarrow> shared \<Rightarrow> shared \<times> unit res" where
  "require_lease_owner wd device iid key = shared_read wd (\<lambda>env r.
     rbind (repo_get r (ed_tenant_id device) iid) (\<lambda>w.
     rbind (snapshot_node (wi_snapshot w) key) (\<lambda>spec.
     ensure (device_can_run device spec)
       (InvalidDeviceCredentialError ''device is not authorized for this work contract''))))"

definition for_lease_owner ::
    "world \<Rightarrow> edge_device \<Rightarrow> string \<Rightarrow> string \<Rightarrow> (shared \<Rightarrow> shared \<times> 'a res) \<Rightarrow> shared \<Rightarrow> shared \<times> 'a res" where
  "for_lease_owner wd device iid key f sh = (case require_lease_owner wd device iid key sh of
     (sh, Inl e) \<Rightarrow> (sh, Inl e)
   | (sh, Inr _) \<Rightarrow> f sh)"

definition edge_renew ::
    "edge_env \<Rightarrow> world \<Rightarrow> string \<Rightarrow> string \<Rightarrow> string \<Rightarrow> int \<Rightarrow> int \<Rightarrow> string \<Rightarrow> edge_store \<Rightarrow> shared
       \<Rightarrow> edge_store \<times> shared \<times> time res" where
  "edge_renew ev wd credential iid key attempt_no node_version token = with_device ev credential (\<lambda>device.
     for_lease_owner wd device iid key (shared_command wd (\<lambda>env r r'.
       service_renew_automated_claim env r r' (ed_tenant_id device) iid key attempt_no node_version token
         (worker_id_of (ed_id device)) None)))"

definition check_result_size :: "edge_service \<Rightarrow> pmap \<Rightarrow> unit res" where
  "check_result_size sv result =
     rbind (json_spaced (to_json_value (PDict result))) (\<lambda>encoded.
     ensure (int (utf8_length encoded) \<le> ev_max_result_bytes sv)
       (ValueError ''Edge result exceeds the configured size limit''))"

definition complete_for ::
    "edge_service \<Rightarrow> world \<Rightarrow> string \<Rightarrow> string \<Rightarrow> int \<Rightarrow> int \<Rightarrow> string \<Rightarrow> pmap \<Rightarrow> quality_result option \<Rightarrow> edge_device
       \<Rightarrow> shared \<Rightarrow> shared \<times> workflow_instance res" where
  "complete_for sv wd iid key attempt_no node_version token result quality device =
     for_lease_owner wd device iid key (\<lambda>sh. case check_result_size sv result of
       Inl e \<Rightarrow> (sh, Inl e)
     | Inr _ \<Rightarrow> shared_command wd (\<lambda>env r r'.
         service_complete_automated env r r' (ed_tenant_id device) iid key attempt_no node_version token result
           quality (worker_id_of (ed_id device)) None) sh)"

definition edge_complete ::
    "edge_service \<Rightarrow> edge_env \<Rightarrow> world \<Rightarrow> string \<Rightarrow> string \<Rightarrow> string \<Rightarrow> int \<Rightarrow> int \<Rightarrow> string \<Rightarrow> pmap \<Rightarrow> quality_result option
       \<Rightarrow> edge_store \<Rightarrow> shared \<Rightarrow> edge_store \<times> shared \<times> workflow_instance res" where
  "edge_complete sv ev wd credential iid key attempt_no node_version token result quality =
     with_device ev credential (complete_for sv wd iid key attempt_no node_version token result quality)"

definition edge_fail ::
    "edge_env \<Rightarrow> world \<Rightarrow> string \<Rightarrow> string \<Rightarrow> string \<Rightarrow> int \<Rightarrow> int \<Rightarrow> string \<Rightarrow> pval \<Rightarrow> pval \<Rightarrow> edge_store \<Rightarrow> shared
       \<Rightarrow> edge_store \<times> shared \<times> workflow_instance res" where
  "edge_fail ev wd credential iid key attempt_no node_version token code message =
     with_device ev credential (\<lambda>device.
     for_lease_owner wd device iid key (\<lambda>sh.
       case rbind (edge_text code) (\<lambda>code. rbind (edge_text message) (\<lambda>message. Inr (code, message))) of
         Inl e \<Rightarrow> (sh, Inl e)
       | Inr (code, message) \<Rightarrow> shared_command wd (\<lambda>env r r'.
           service_fail_automated env r r' (ed_tenant_id device) iid key attempt_no node_version token
             (take 100 code) (take 2000 message) (worker_id_of (ed_id device)) None) sh))"

end
