(* ===== verification/Edge_Theorems.thy ===== *)
theory Edge_Theorems
  imports Edge
begin

text \<open>
  What the store of the personal devices keeps over any sequence of requests: a device was paired by
  redeeming one code, for its person and within its capabilities, and a revoked device stays revoked.
\<close>

section \<open>Hashes\<close>

lemma hex_digit_ascii: "n < 16 \<Longrightarrow> of_char (hex_digit n) < (128 :: nat)"
  by (simp add: hex_digit_def)

lemma ascii_append [simp]: "ascii (s @ t) \<longleftrightarrow> ascii s \<and> ascii t"
  by (simp add: ascii_def)

lemma ascii_concat: "ascii (concat ss) \<longleftrightarrow> (\<forall>s \<in> set ss. ascii s)"
  by (induction ss) (auto simp: ascii_def)

lemma ascii_hex2: "ascii (hex2 n)"
  by (simp add: hex2_def ascii_def hex_digit_ascii)

lemma ascii_sha256_hex: "ascii (sha256_hex bs)"
  unfolding sha256_hex_def Let_def by (auto simp: ascii_concat ascii_hex2)

lemma ascii_secret_hash [simp]: "ascii (secret_hash p s)"
  by (simp add: secret_hash_def ascii_sha256_hex)

lemma expect_hash_Inr: "expect_hash h x s e = Inr y \<longleftrightarrow> x = Some y \<and> ascii (h y) \<and> ascii s \<and> h y = s"
  by (cases x) (auto simp: expect_hash_def compare_digest_def rbind_Inr_iff ensure_Inr_iff)

lemma split_secret_fst: "split_secret s e = Inr (i, x) \<Longrightarrow> split_secret s e' = Inr (j, y) \<Longrightarrow> i = j"
  by (simp add: split_secret_def Let_def rbind_Inr_iff ensure_Inr_iff)

lemma split_secret_error: "split_secret s e = Inr p \<Longrightarrow> split_secret s e' = Inr p"
  by (simp add: split_secret_def Let_def rbind_Inr_iff ensure_Inr_iff)

text \<open>What the ids and the secrets have to be for a code to be read back: an id without a dot, and no white
  space at the ends.\<close>

definition clean_id :: "string \<Rightarrow> bool" where
  "clean_id i \<longleftrightarrow> i \<noteq> [] \<and> CHR ''.'' \<notin> set i \<and> \<not> py_space (hd i)"

definition clean_secret :: "string \<Rightarrow> bool" where
  "clean_secret s \<longleftrightarrow> s \<noteq> [] \<and> \<not> py_space (last s)"

lemma strip_clean: "i \<noteq> [] \<Longrightarrow> \<not> py_space (hd i) \<Longrightarrow> s \<noteq> [] \<Longrightarrow> \<not> py_space (last s) \<Longrightarrow> py_strip (i @ s) = i @ s"
  by (simp add: py_strip_def dropWhile_idem_hd hd_append hd_rev)

lemma split_code:
  assumes "clean_id i" and "clean_secret s"
  shows "split_secret (i @ ''.'' @ s) e = Inr (i, s)"
proof -
  have "py_strip (i @ ''.'' @ s) = i @ ''.'' @ s"
    using assms by (intro strip_clean) (simp_all add: clean_id_def clean_secret_def)
  moreover have "takeWhile (\<lambda>c. c \<noteq> CHR ''.'') (i @ ''.'' @ s) = i" "dropWhile (\<lambda>c. c \<noteq> CHR ''.'') (i @ ''.'' @ s) = ''.'' @ s"
    using assms(1) by (auto simp: clean_id_def takeWhile_append dropWhile_append)
  ultimately show ?thesis using assms by (simp add: split_secret_def clean_id_def clean_secret_def)
qed

lemma capabilities_not_empty: "capabilities_of v = Inr caps \<Longrightarrow> caps \<noteq> []"
  unfolding capabilities_of_def Let_def by (elim rbindE) (simp add: rbind_Inr_iff ensure_Inr_iff)

section \<open>Requests\<close>

text \<open>The successful requests that change the store of the devices.\<close>

inductive edge_step :: "edge_store \<Rightarrow> edge_store \<Rightarrow> bool" where
  issued: "issue_pairing sv ev tenant person actor ttl permitted es = Inr (es', grant) \<Longrightarrow> edge_step es es'"
| paired: "pair_device sv ev code name requested es = Inr (es', device, credential) \<Longrightarrow> edge_step es es'"
| seen: "authenticate ev credential es = Inr (es', device) \<Longrightarrow> edge_step es es'"
| revoked: "revoke_device ev tenant did actor reason es = Inr (es', device) \<Longrightarrow> edge_step es es'"

inductive_cases edge_stepE: "edge_step es es'"

lemma issue_pairingE:
  assumes "issue_pairing sv ev tenant person actor ttl permitted es = Inr (es', grant)"
  obtains t where "dget (es_pairings es) (et_id t) = None" "et_id t = ev_ids ev 0" "et_used_at t = None"
    "et_code_hash t = secret_hash ''pairing'' (ev_secrets ev 0)" "edge_text person = Inr (et_person_id t)"
    "edge_text tenant = Inr (et_tenant_id t)"
    "capabilities_of permitted = Inr (et_allowed_capabilities t)" "set (et_allowed_capabilities t) \<subseteq> set (ev_supported_capabilities sv)"
    "et_created_at t = ev_now ev" "ev_now ev < et_expires_at t" "et_expires_at t \<le> ev_now ev + HOUR"
    "es' = es\<lparr>es_pairings := dput (et_id t) t (es_pairings es), es_events := es_events es @ [issued_event (ev_ids ev 1) t]\<rparr>"
    "grant = \<lparr>gr_code = ev_ids ev 0 @ ''.'' @ ev_secrets ev 0, gr_expires_at = et_expires_at t,
       gr_allowed_capabilities = et_allowed_capabilities t\<rparr>"
  using assms unfolding issue_pairing_def Let_def create_pairing_def
proof (elim rbindE, goal_cases)
  case (1 tenant' person' actor' u caps w x)
  let ?t = "\<lparr>et_id = ev_ids ev 0, et_tenant_id = tenant', et_person_id = person',
            et_code_hash = secret_hash ''pairing'' (ev_secrets ev 0), et_allowed_capabilities = caps,
            et_created_at = ev_now ev, et_expires_at = ev_now ev + ttl, et_created_by_person_id = actor',
            et_used_at = None\<rparr>"
  show ?case by (rule 1(1) [of ?t]) (use 1(2-) in \<open>auto simp: rbind_Inr_iff ensure_Inr_iff\<close>)
qed

lemma pair_deviceE:
  assumes "pair_device sv ev code name requested es = Inr (es', device, credential)"
  obtains ticket_id secret t name' caps where "split_secret code (InvalidPairingCodeError ''pairing code is invalid'') = Inr (ticket_id, secret)"
    "edge_text name = Inr name'" "length name' \<le> 120" "capabilities_of requested = Inr caps"
    "dget (es_pairings es) ticket_id = Some t" "et_code_hash t = secret_hash ''pairing'' secret" "et_used_at t = None"
    "ev_now ev < et_expires_at t" "caps \<noteq> []" "set caps \<subseteq> set (et_allowed_capabilities t)" "set caps \<subseteq> set (ev_supported_capabilities sv)"
    "dget (es_devices es) (ev_ids ev 0) = None"
    "device = new_edge_device t (ev_ids ev 0) name' caps (secret_hash ''device'' (ev_secrets ev 0)) (ev_now ev)"
    "credential = ev_ids ev 0 @ ''.'' @ ev_secrets ev 0"
    "es' = es\<lparr>es_pairings := dput ticket_id (t\<lparr>et_used_at := Some (ev_now ev)\<rparr>) (es_pairings es),
             es_devices := dput (ev_ids ev 0) device (es_devices es),
             es_events := es_events es @ [paired_event (ev_ids ev 1) device (ev_now ev)]\<rparr>"
  using assms unfolding pair_device_def store_pair_device_def Let_def
  by (elim rbindE; clarsimp simp: rbind_Inr_iff ensure_Inr_iff expect_hash_Inr new_edge_device_def)

lemma authenticateE:
  assumes "authenticate ev credential es = Inr (es', device)"
  obtains did secret d where "split_secret credential (InvalidDeviceCredentialError ''device credential is invalid'') = Inr (did, secret)"
    "dget (es_devices es) did = Some d" "ed_credential_hash d = secret_hash ''device'' secret" "ed_status d = D_ACTIVE"
    "device = d\<lparr>ed_last_seen_at := Some (ev_now ev)\<rparr>" "es' = es\<lparr>es_devices := dput did device (es_devices es)\<rparr>"
  using assms unfolding authenticate_def authenticate_device_def Let_def
  by (elim rbindE; clarsimp simp: rbind_Inr_iff ensure_Inr_iff expect_hash_Inr)
    (metis edge_device_status.exhaust)

lemma revoke_deviceE:
  assumes "revoke_device ev tenant did actor reason es = Inr (es', device)"
  obtains did' tenant' d where "edge_text did = Inr did'" "edge_text tenant = Inr tenant'" "dget (es_devices es) did' = Some d"
    "ed_tenant_id d = tenant'" "ed_status device = D_REVOKED"
    "es' = es \<and> device = d \<or> ed_status d = D_ACTIVE \<and> device = d\<lparr>ed_status := D_REVOKED, ed_revoked_at := Some (ev_now ev)\<rparr> \<and>
       (\<exists>e. es' = es\<lparr>es_devices := dput did' device (es_devices es), es_events := es_events es @ [e]\<rparr>)"
  using assms unfolding revoke_device_def store_revoke_device_def Let_def
proof (elim rbindE, goal_cases)
  case (1 tenant' did' actor' reason' d u)
  then show ?case
    by (cases "ed_status d") (auto simp: get_or_raise_Inr_iff ensure_Inr_iff intro: 1(1) [of did' tenant' d])
qed

section \<open>The invariant of the store\<close>

definition used_codes :: "edge_store \<Rightarrow> (string \<times> edge_pairing_ticket) list" where
  "used_codes es = filter (\<lambda>(k, t). et_used_at t \<noteq> None) (es_pairings es)"

text \<open>The ticket that a device was paired with.\<close>

definition paired_with :: "edge_device \<Rightarrow> edge_pairing_ticket \<Rightarrow> bool" where
  "paired_with d t \<longleftrightarrow> et_used_at t = Some (ed_created_at d) \<and> ed_created_at d < et_expires_at t \<and>
     et_tenant_id t = ed_tenant_id d \<and> et_person_id t = ed_person_id d \<and>
     ed_capabilities d \<noteq> [] \<and> set (ed_capabilities d) \<subseteq> set (et_allowed_capabilities t)"

definition ticket_ok :: "string \<Rightarrow> edge_pairing_ticket \<Rightarrow> bool" where
  "ticket_ok k t \<longleftrightarrow> et_id t = k \<and> ascii (et_code_hash t) \<and> et_created_at t < et_expires_at t \<and>
     et_expires_at t \<le> et_created_at t + HOUR"

definition device_ok :: "edge_store \<Rightarrow> string \<Rightarrow> edge_device \<Rightarrow> bool" where
  "device_ok es k d \<longleftrightarrow> ed_id d = k \<and> ascii (ed_credential_hash d) \<and>
     (ed_status d = D_REVOKED \<longleftrightarrow> ed_revoked_at d \<noteq> None) \<and>
     (\<exists>i t. dget (es_pairings es) i = Some t \<and> paired_with d t)"

definition edge_inv :: "edge_store \<Rightarrow> bool" where
  "edge_inv es \<longleftrightarrow> distinct (dkeys (es_pairings es)) \<and> distinct (dkeys (es_devices es)) \<and>
     length (es_devices es) = length (used_codes es) \<and>
     (\<forall>k t. dget (es_pairings es) k = Some t \<longrightarrow> ticket_ok k t) \<and>
     (\<forall>k d. dget (es_devices es) k = Some d \<longrightarrow> device_ok es k d)"

lemma edge_inv_empty: "edge_inv empty_edge_store"
  by (simp add: edge_inv_def empty_edge_store_def used_codes_def)

lemma edge_invI:
  assumes "distinct (dkeys (es_pairings es))" and "distinct (dkeys (es_devices es))"
    and "length (es_devices es) = length (used_codes es)"
    and "\<And>k t. dget (es_pairings es) k = Some t \<Longrightarrow> ticket_ok k t"
    and "\<And>k d. dget (es_devices es) k = Some d \<Longrightarrow> device_ok es k d"
  shows "edge_inv es"
  unfolding edge_inv_def using assms by blast

lemma edge_invD:
  assumes "edge_inv es"
  shows "distinct (dkeys (es_pairings es))" and "distinct (dkeys (es_devices es))"
    and "length (es_devices es) = length (used_codes es)"
    and "dget (es_pairings es) k = Some t \<Longrightarrow> ticket_ok k t"
    and "dget (es_devices es) k = Some d \<Longrightarrow> device_ok es k d"
  using assms unfolding edge_inv_def by blast+

lemma device_okE:
  assumes "device_ok es k d"
  obtains i t where "ed_id d = k" "ascii (ed_credential_hash d)" "ed_status d = D_REVOKED \<longleftrightarrow> ed_revoked_at d \<noteq> None"
    "dget (es_pairings es) i = Some t" "paired_with d t"
  using assms unfolding device_ok_def by blast

lemma length_dput: "length (dput k v d) = (if k \<in> set (dkeys d) then length d else length d + 1)"
  by (induction d) auto

lemma length_filter_dput:
  assumes "distinct (dkeys d)" and "dget d k = Some v" and "\<not> P v" and "P v'"
  shows "length (filter (\<lambda>(k, v). P v) (dput k v' d)) = length (filter (\<lambda>(k, v). P v) d) + 1"
  using assms
proof (induction d)
  case (Cons x d)
  show ?case
  proof (cases "fst x = k")
    case True
    with Cons.prems show ?thesis by (cases x) auto
  next
    case False
    with Cons show ?thesis by (cases x) auto
  qed
qed simp

lemma used_codes_new: "dget ps k = None \<Longrightarrow> et_used_at t = None \<Longrightarrow>
    filter (\<lambda>(k, t). et_used_at t \<noteq> None) (dput k t ps) = filter (\<lambda>(k, t). et_used_at t \<noteq> None) ps"
  by (simp add: dget_None_iff dput_new)

text \<open>What never changes of a device.\<close>

definition same_device :: "edge_device \<Rightarrow> edge_device \<Rightarrow> bool" where
  "same_device d d' \<longleftrightarrow> ed_id d' = ed_id d \<and> ed_tenant_id d' = ed_tenant_id d \<and> ed_person_id d' = ed_person_id d \<and>
     ed_name d' = ed_name d \<and> ed_capabilities d' = ed_capabilities d \<and>
     ed_credential_hash d' = ed_credential_hash d \<and> ed_created_at d' = ed_created_at d"

lemma same_device_refl [simp]: "same_device d d"
  by (simp add: same_device_def)

lemma same_device_trans: "same_device a b \<Longrightarrow> same_device b c \<Longrightarrow> same_device a c"
  by (simp add: same_device_def)

lemma edge_inv_update_device:
  assumes inv: "edge_inv es" and d: "dget (es_devices es) k = Some d" and same: "same_device d d'"
    and status: "ed_status d' = D_REVOKED \<longleftrightarrow> ed_revoked_at d' \<noteq> None"
    and es': "es_pairings es' = es_pairings es" "es_devices es' = dput k d' (es_devices es)"
  shows "edge_inv es'"
proof (rule edge_invI)
  show "distinct (dkeys (es_pairings es'))" unfolding es' by (rule edge_invD(1) [OF inv])
  show "distinct (dkeys (es_devices es'))" unfolding es' by (rule distinct_dkeys_dput) (rule edge_invD(2) [OF inv])
  show "length (es_devices es') = length (used_codes es')"
    using edge_invD(3) [OF inv] dget_Some_in_dkeys [OF d] by (simp add: es' used_codes_def length_dput)
  show "ticket_ok i t" if "dget (es_pairings es') i = Some t" for i t
    using that unfolding es' by (rule edge_invD(4) [OF inv])
  show "device_ok es' j x" if x: "dget (es_devices es') j = Some x" for j x
  proof (cases "j = k")
    case True
    with x have "x = d'" by (simp add: es' dget_dput)
    with edge_invD(5) [OF inv d] same status True show ?thesis
      by (simp add: device_ok_def es' same_device_def paired_with_def)
  next
    case False
    with x have "dget (es_devices es) j = Some x" by (simp add: es' dget_dput)
    from edge_invD(5) [OF inv this] show ?thesis by (simp add: device_ok_def es')
  qed
qed

text \<open>A store with more or with used tickets keeps its devices.\<close>

lemma device_ok_mono:
  assumes "device_ok es k d"
    and "\<And>i t. dget (es_pairings es) i = Some t \<Longrightarrow> et_used_at t \<noteq> None \<Longrightarrow> dget (es_pairings es') i = Some t"
  shows "device_ok es' k d"
  using assms(1)
proof (rule device_okE)
  fix i t
  assume d: "ed_id d = k" "ascii (ed_credential_hash d)" "ed_status d = D_REVOKED \<longleftrightarrow> ed_revoked_at d \<noteq> None"
    and t: "dget (es_pairings es) i = Some t" "paired_with d t"
  then have "et_used_at t \<noteq> None" by (simp add: paired_with_def)
  with d t(2) assms(2) [OF t(1)] show ?thesis unfolding device_ok_def by blast
qed

lemma edge_inv_issue:
  assumes inv: "edge_inv es" and new: "dget (es_pairings es) (et_id t) = None" and t: "et_used_at t = None" "ticket_ok (et_id t) t"
  shows "edge_inv (es\<lparr>es_pairings := dput (et_id t) t (es_pairings es), es_events := e\<rparr>)" (is "edge_inv ?es")
proof (rule edge_invI)
  show "distinct (dkeys (es_pairings ?es))" by (simp add: distinct_dkeys_dput edge_invD(1) [OF inv])
  show "distinct (dkeys (es_devices ?es))" by (simp add: edge_invD(2) [OF inv])
  show "length (es_devices ?es) = length (used_codes ?es)"
    using edge_invD(3) [OF inv] used_codes_new [OF new t(1)] by (simp add: used_codes_def)
  show "ticket_ok k u" if "dget (es_pairings ?es) k = Some u" for k u
    using that t(2) edge_invD(4) [OF inv] by (auto simp: dget_dput split: if_splits)
  show "device_ok ?es k d" if "dget (es_devices ?es) k = Some d" for k d
  proof (rule device_ok_mono)
    show "device_ok es k d" using that by (intro edge_invD(5) [OF inv]) simp
  qed (use new in \<open>auto simp: dget_dput\<close>)
qed

lemma edge_inv_pair:
  assumes inv: "edge_inv es" and t: "dget (es_pairings es) i = Some t" "et_used_at t = None"
    and fresh: "dget (es_devices es) (ed_id d) = None"
    and d: "paired_with d (t\<lparr>et_used_at := Some now\<rparr>)" "ascii (ed_credential_hash d)" "ed_status d = D_ACTIVE" "ed_revoked_at d = None"
  shows "edge_inv (es\<lparr>es_pairings := dput i (t\<lparr>et_used_at := Some now\<rparr>) (es_pairings es),
     es_devices := dput (ed_id d) d (es_devices es), es_events := e\<rparr>)" (is "edge_inv ?es")
proof (rule edge_invI)
  let ?t = "t\<lparr>et_used_at := Some now\<rparr>"
  show "distinct (dkeys (es_pairings ?es))" by (simp add: distinct_dkeys_dput edge_invD(1) [OF inv])
  show "distinct (dkeys (es_devices ?es))" by (simp add: distinct_dkeys_dput edge_invD(2) [OF inv])
  have "length (used_codes ?es) = length (used_codes es) + 1"
    using length_filter_dput [OF edge_invD(1) [OF inv] t(1), of "\<lambda>t. et_used_at t \<noteq> None" ?t] t(2) by (simp add: used_codes_def)
  moreover have "length (es_devices ?es) = length (es_devices es) + 1"
    using fresh by (simp add: length_dput dget_None_iff)
  ultimately show "length (es_devices ?es) = length (used_codes ?es)" using edge_invD(3) [OF inv] by simp
  have "ticket_ok i ?t" using edge_invD(4) [OF inv t(1)] by (simp add: ticket_ok_def)
  then show "ticket_ok k u" if "dget (es_pairings ?es) k = Some u" for k u
    using that edge_invD(4) [OF inv] by (auto simp: dget_dput split: if_splits)
  show "device_ok ?es k x" if x: "dget (es_devices ?es) k = Some x" for k x
  proof (cases "k = ed_id d")
    case True
    have "dget (es_pairings ?es) i = Some ?t" by (simp add: dget_dput)
    moreover have "x = d" using x True by (simp add: dget_dput)
    ultimately show ?thesis using d True unfolding device_ok_def by auto
  next
    case False
    with x have "dget (es_devices es) k = Some x" by (simp add: dget_dput)
    then show ?thesis by (intro device_ok_mono [OF edge_invD(5) [OF inv]]) (use t in \<open>auto simp: dget_dput\<close>)
  qed
qed

lemma edge_step_inv:
  assumes "edge_step es es'" and inv: "edge_inv es"
  shows "edge_inv es'"
  using assms(1)
proof cases
  case (issued sv ev tenant person actor ttl permitted grant)
  then show ?thesis
  proof (rule issue_pairingE, goal_cases)
    case (1 t)
    then have "ticket_ok (et_id t) t" by (simp add: ticket_ok_def)
    from edge_inv_issue [OF inv 1(1,3) this] show ?case unfolding 1(12) .
  qed
next
  case (paired sv ev code name requested device credential)
  then show ?thesis
  proof (rule pair_deviceE, goal_cases)
    case (1 ticket_id secret t name' caps)
    have "paired_with device (t\<lparr>et_used_at := Some (ev_now ev)\<rparr>)"
      using 1(8-10,13) by (simp add: paired_with_def new_edge_device_def)
    moreover have "ed_id device = ev_ids ev 0" "ascii (ed_credential_hash device)" "ed_status device = D_ACTIVE" "ed_revoked_at device = None"
      using 1(13) by (simp_all add: new_edge_device_def)
    ultimately show ?case using edge_inv_pair [OF inv 1(5,7), of device "ev_now ev"] 1(12,15) by simp
  qed
next
  case (seen ev credential device)
  then show ?thesis
  proof (rule authenticateE, goal_cases)
    case (1 did secret d)
    have "ed_revoked_at d = None" using edge_invD(5) [OF inv 1(2)] 1(4) by (simp add: device_ok_def)
    then show ?case by (intro edge_inv_update_device [OF inv 1(2), of device]) (use 1 in \<open>simp_all add: same_device_def\<close>)
  qed
next
  case (revoked ev tenant did actor reason device)
  then show ?thesis
  proof (rule revoke_deviceE, goal_cases)
    case (1 did' tenant' d)
    from 1(6) show ?case
    proof (elim disjE conjE exE)
      fix e assume "device = d\<lparr>ed_status := D_REVOKED, ed_revoked_at := Some (ev_now ev)\<rparr>"
        and "es' = es\<lparr>es_devices := dput did' device (es_devices es), es_events := es_events es @ [e]\<rparr>"
      then show ?thesis by (intro edge_inv_update_device [OF inv 1(3), of device]) (simp_all add: same_device_def)
    qed (simp add: inv)
  qed
qed

lemma edge_reachable_inv: "edge_step\<^sup>*\<^sup>* empty_edge_store es \<Longrightarrow> edge_inv es"
  by (induction rule: rtranclp_induct) (blast intro: edge_inv_empty edge_step_inv)+

section \<open>What later requests keep\<close>

definition ticket_later :: "edge_pairing_ticket \<Rightarrow> edge_pairing_ticket \<Rightarrow> bool" where
  "ticket_later t t' \<longleftrightarrow> t' = t \<or> et_used_at t = None \<and> (\<exists>u. t' = t\<lparr>et_used_at := Some u\<rparr>)"

definition device_later :: "edge_device \<Rightarrow> edge_device \<Rightarrow> bool" where
  "device_later d d' \<longleftrightarrow> same_device d d' \<and>
     (ed_status d = D_REVOKED \<longrightarrow> ed_status d' = D_REVOKED \<and> ed_revoked_at d' = ed_revoked_at d)"

definition edge_later :: "edge_store \<Rightarrow> edge_store \<Rightarrow> bool" where
  "edge_later es es' \<longleftrightarrow>
     (\<forall>k t. dget (es_pairings es) k = Some t \<longrightarrow> (\<exists>t'. dget (es_pairings es') k = Some t' \<and> ticket_later t t')) \<and>
     (\<forall>k d. dget (es_devices es) k = Some d \<longrightarrow> (\<exists>d'. dget (es_devices es') k = Some d' \<and> device_later d d')) \<and>
     prefix (es_events es) (es_events es')"

lemma ticket_later_refl [simp]: "ticket_later t t" and device_later_refl [simp]: "device_later d d"
  by (simp_all add: ticket_later_def device_later_def)

lemma ticket_later_trans: "ticket_later a b \<Longrightarrow> ticket_later b c \<Longrightarrow> ticket_later a c"
  by (auto simp: ticket_later_def)

lemma device_later_trans: "device_later a b \<Longrightarrow> device_later b c \<Longrightarrow> device_later a c"
  by (auto simp: device_later_def intro: same_device_trans)

lemma edge_laterI:
  assumes "\<And>k t. dget (es_pairings es) k = Some t \<Longrightarrow> \<exists>t'. dget (es_pairings es') k = Some t' \<and> ticket_later t t'"
    and "\<And>k d. dget (es_devices es) k = Some d \<Longrightarrow> \<exists>d'. dget (es_devices es') k = Some d' \<and> device_later d d'"
    and "prefix (es_events es) (es_events es')"
  shows "edge_later es es'"
  unfolding edge_later_def using assms by blast

lemma edge_laterD:
  assumes "edge_later es es'"
  shows "dget (es_pairings es) k = Some t \<Longrightarrow> \<exists>t'. dget (es_pairings es') k = Some t' \<and> ticket_later t t'"
    and "dget (es_devices es) k = Some d \<Longrightarrow> \<exists>d'. dget (es_devices es') k = Some d' \<and> device_later d d'"
    and "prefix (es_events es) (es_events es')"
  using assms unfolding edge_later_def by blast+

lemma edge_later_refl: "edge_later es es"
  by (rule edge_laterI) auto

lemma edge_later_trans:
  assumes "edge_later a b" and "edge_later b c"
  shows "edge_later a c"
proof (rule edge_laterI)
  show "\<exists>t'. dget (es_pairings c) k = Some t' \<and> ticket_later t t'" if "dget (es_pairings a) k = Some t" for k t
    using edge_laterD(1) [OF assms(1) that] edge_laterD(1) [OF assms(2)] by (blast intro: ticket_later_trans)
  show "\<exists>d'. dget (es_devices c) k = Some d' \<and> device_later d d'" if "dget (es_devices a) k = Some d" for k d
    using edge_laterD(2) [OF assms(1) that] edge_laterD(2) [OF assms(2)] by (blast intro: device_later_trans)
  show "prefix (es_events a) (es_events c)"
    using edge_laterD(3) [OF assms(1)] edge_laterD(3) [OF assms(2)] by (rule prefix_order.order_trans)
qed

lemma later_update_device:
  assumes "dget (es_devices es) k = Some d" and "device_later d d'"
    and "es_pairings es' = es_pairings es" and "es_devices es' = dput k d' (es_devices es)" and "prefix (es_events es) (es_events es')"
  shows "edge_later es es'"
  by (rule edge_laterI) (use assms in \<open>auto simp: dget_dput\<close>)

lemma edge_step_later:
  assumes "edge_step es es'"
  shows "edge_later es es'"
  using assms
proof cases
  case (issued sv ev tenant person actor ttl permitted grant)
  then show ?thesis
  proof (rule issue_pairingE, goal_cases)
    case (1 t)
    show ?case unfolding 1(12) by (rule edge_laterI) (use 1(1) in \<open>auto simp: dget_dput\<close>)
  qed
next
  case (paired sv ev code name requested device credential)
  then show ?thesis
  proof (rule pair_deviceE, goal_cases)
    case (1 ticket_id secret t name' caps)
    have "ticket_later t (t\<lparr>et_used_at := Some (ev_now ev)\<rparr>)" using 1(7) by (auto simp: ticket_later_def)
    then show ?case unfolding 1(15) by (intro edge_laterI) (use 1(5,12) in \<open>auto simp: dget_dput\<close>)
  qed
next
  case (seen ev credential device)
  then show ?thesis
  proof (rule authenticateE, goal_cases)
    case (1 did secret d)
    have "device_later d device" using 1(4,5) by (simp add: device_later_def same_device_def)
    from later_update_device [OF 1(2) this] 1(6) show ?case by simp
  qed
next
  case (revoked ev tenant did actor reason device)
  then show ?thesis
  proof (rule revoke_deviceE, goal_cases)
    case (1 did' tenant' d)
    from 1(6) show ?case
    proof (elim disjE conjE exE)
      fix e assume "ed_status d = D_ACTIVE" and d': "device = d\<lparr>ed_status := D_REVOKED, ed_revoked_at := Some (ev_now ev)\<rparr>"
        and es': "es' = es\<lparr>es_devices := dput did' device (es_devices es), es_events := es_events es @ [e]\<rparr>"
      then have "device_later d device" by (simp add: device_later_def same_device_def)
      from later_update_device [OF 1(3) this] es' show ?thesis by simp
    qed (simp add: edge_later_refl)
  qed
qed

lemma edge_steps_later: "edge_step\<^sup>*\<^sup>* es es' \<Longrightarrow> edge_later es es'"
  by (induction rule: rtranclp_induct) (blast intro: edge_later_refl edge_later_trans edge_step_later)+

text \<open>An unused, unexpired code pairs a device, and the credential it gets authenticates it.\<close>

lemma unused_code_pairs:
  assumes issue: "issue_pairing sv ev tenant person actor ttl permitted es = Inr (es1, grant)" and later: "edge_step\<^sup>*\<^sup>* es1 es2"
    and unused: "\<exists>t. dget (es_pairings es2) (ev_ids ev 0) = Some t \<and> et_used_at t = None"
    and clean: "clean_id (ev_ids ev 0)" "clean_secret (ev_secrets ev 0)" "clean_id (ev_ids ev' 0)" "clean_secret (ev_secrets ev' 0)"
    and name: "edge_text name = Inr n" "length n \<le> 120"
    and caps: "capabilities_of requested = Inr caps" "set caps \<subseteq> set (gr_allowed_capabilities grant)"
    and time: "ev_now ev' < gr_expires_at grant" and fresh: "dget (es_devices es2) (ev_ids ev' 0) = None"
  shows "\<exists>es3 d credential. pair_device sv ev' (gr_code grant) name requested es2 = Inr (es3, d, credential) \<and>
     edge_text person = Inr (ed_person_id d) \<and> ed_capabilities d = caps \<and>
     (\<exists>es4. authenticate ev'' credential es3 = Inr (es4, d\<lparr>ed_last_seen_at := Some (ev_now ev'')\<rparr>))"
  using issue
proof (rule issue_pairingE, goal_cases)
  case (1 t)
  have "dget (es_pairings es1) (et_id t) = Some t" unfolding 1(12) by (simp add: dget_dput)
  then have t: "dget (es_pairings es2) (ev_ids ev 0) = Some t"
    using edge_laterD(1) [OF edge_steps_later [OF later], of "et_id t" t] unused 1(2) by (auto simp: ticket_later_def)
  let ?d = "new_edge_device t (ev_ids ev' 0) n caps (secret_hash ''device'' (ev_secrets ev' 0)) (ev_now ev')"
  let ?es3 = "es2\<lparr>es_pairings := dput (ev_ids ev 0) (t\<lparr>et_used_at := Some (ev_now ev')\<rparr>) (es_pairings es2),
     es_devices := dput (ev_ids ev' 0) ?d (es_devices es2), es_events := es_events es2 @ [paired_event (ev_ids ev' 1) ?d (ev_now ev')]\<rparr>"
  have "set caps \<subseteq> set (et_allowed_capabilities t)" "ev_now ev' < et_expires_at t" using caps(2) time 1(13) by simp_all
  then have "pair_device sv ev' (gr_code grant) name requested es2 =
      Inr (?es3, ?d, ev_ids ev' 0 @ ''.'' @ ev_secrets ev' 0)"
    using 1(3,4) t fresh caps(1) name split_code [OF clean(1,2)] capabilities_not_empty [OF caps(1)] subset_trans [OF _ 1(8), of "set caps"]
    by (simp add: pair_device_def store_pair_device_def 1(13) expect_hash_def compare_digest_def new_edge_device_def Let_def)
  moreover have "\<exists>es4. authenticate ev'' (ev_ids ev' 0 @ ''.'' @ ev_secrets ev' 0) ?es3 = Inr (es4, ?d\<lparr>ed_last_seen_at := Some (ev_now ev'')\<rparr>)"
    using split_code [OF clean(3,4)]
    by (simp add: authenticate_def authenticate_device_def expect_hash_def compare_digest_def dget_dput new_edge_device_def Let_def)
  moreover have "edge_text person = Inr (ed_person_id ?d)" "ed_capabilities ?d = caps" using 1(5) by (simp_all add: new_edge_device_def)
  ultimately show ?thesis by blast
qed

section \<open>What a device can claim\<close>

definition claims_allowed :: "string list option \<Rightarrow> string \<Rightarrow> dispatch_state \<Rightarrow> bool" where
  "claims_allowed keys iid st \<longleftrightarrow> wi_id (ds_instance st) = iid \<and>
     (\<forall>a \<in> set (ds_activations st). act_instance_id a = iid \<and> (act_claim_token a \<noteq> None \<longrightarrow> allowed keys (act_node_key a)))"

lemma activate_key:
  "activate ttl token w key worker now = Inr (u, act) \<Longrightarrow> act_node_key act = key \<and> act_instance_id act = wi_id w \<and>
     wi_id u = wi_id w \<and> (node_at w key = Some n \<longrightarrow> ni_executor n = HUMAN \<longrightarrow> act_claim_token act = None)"
  unfolding activate_def Let_def
  by (auto simp: rbind_Inr_iff get_node_Inr activation_of_def put_node_def put_attempt_def split: if_splits)

lemma reclaim_key: "reclaim_expired ttl token w key worker now = Inr (u, act) \<Longrightarrow>
    act_node_key act = key \<and> act_instance_id act = wi_id w \<and> wi_id u = wi_id w"
  unfolding reclaim_expired_def Let_def by (auto simp: rbind_Inr_iff activation_of_def put_node_def put_attempt_def)

lemma claims_allowed_dispatched:
  "claims_allowed keys iid st \<Longrightarrow> wi_id w = iid \<Longrightarrow> act_instance_id a = iid \<Longrightarrow>
     (act_claim_token a \<noteq> None \<Longrightarrow> allowed keys (act_node_key a)) \<Longrightarrow> claims_allowed keys iid (dispatched b (w, a) st)"
  by (auto simp: claims_allowed_def dispatched_def)

lemma claims_allowed_id: "claims_allowed keys iid st \<Longrightarrow> wi_id (ds_instance st) = iid"
  by (simp add: claims_allowed_def)

lemma dispatch_human_claims:
  "dispatch_human env spec st = Inr st' \<Longrightarrow> claims_allowed keys iid st \<Longrightarrow> claims_allowed keys iid st'"
  unfolding dispatch_human_def
  by (auto simp: rbind_Inr_iff get_node_Inr intro!: claims_allowed_dispatched dest: activate_key claims_allowed_id split: if_splits)

lemma dispatch_expired_claims:
  "dispatch_expired env wk m keys spec st = Inr st' \<Longrightarrow> claims_allowed keys iid st \<Longrightarrow> claims_allowed keys iid st'"
  unfolding dispatch_expired_def
  by (auto simp: rbind_Inr_iff get_node_Inr intro!: claims_allowed_dispatched dest: reclaim_key claims_allowed_id split: if_splits)

lemma dispatch_automated_claims:
  "dispatch_automated env wk m keys spec st = Inr st' \<Longrightarrow> claims_allowed keys iid st \<Longrightarrow> claims_allowed keys iid st'"
  unfolding dispatch_automated_def
  by (auto simp: rbind_Inr_iff get_node_Inr intro!: claims_allowed_dispatched dest: activate_key claims_allowed_id split: if_splits)

lemma dispatch_loops_claims:
  assumes "dispatch_loops env w worker m recover keys = Inr st"
  shows "claims_allowed keys (wi_id w) st"
proof -
  obtain s1 s2 where f: "foldM (dispatch_human env) (sn_nodes (wi_snapshot w))
        \<lparr>ds_instance = w, ds_activations = [], ds_automated = 0\<rparr> = Inr s1"
      "(if recover then foldM (dispatch_expired env (case worker of None \<Rightarrow> [] | Some s \<Rightarrow> s) m keys) (sn_nodes (wi_snapshot w)) s1
        else Inr s1) = Inr s2"
      "foldM (dispatch_automated env worker m keys) (sn_nodes (wi_snapshot w)) s2 = Inr st"
    using assms unfolding dispatch_loops_def Let_def by (elim rbindE)
  have "claims_allowed keys (wi_id w) s1"
    by (rule foldM_invariant [OF f(1)]) (auto simp: claims_allowed_def [of keys "wi_id w" "\<lparr>ds_instance = w, ds_activations = [], ds_automated = 0\<rparr>"]
      intro: dispatch_human_claims)
  moreover have "claims_allowed keys (wi_id w) s2" if "claims_allowed keys (wi_id w) s1"
  proof (cases recover)
    case True
    then have "foldM (dispatch_expired env (case worker of None \<Rightarrow> [] | Some s \<Rightarrow> s) m keys) (sn_nodes (wi_snapshot w)) s1 = Inr s2"
      using f(2) by simp
    then show ?thesis by (rule foldM_invariant) (use that in \<open>auto intro: dispatch_expired_claims\<close>)
  qed (use that f(2) in simp)
  ultimately have "claims_allowed keys (wi_id w) s2" by blast
  then show ?thesis by (rule foldM_invariant [OF f(3)]) (auto intro: dispatch_automated_claims)
qed

lemma dispatch_due_claims:
  assumes "dispatch_due env r r' tenant iid wk m keys corr = Inr (r1, acts)" and "repo_inv r"
    and "a \<in> set acts" and "act_claim_token a \<noteq> None"
  shows "allowed keys (act_node_key a) \<and> act_instance_id a = iid"
proof -
  obtain c i where ci: "correlation env corr = (c, i)" by fastforce
  obtain w st where w: "repo_get r tenant iid = Inr w" and st: "dispatch_loops env w (Some wk) m True keys = Inr st"
    and acts: "acts = ds_activations st"
    using assms(1) unfolding dispatch_due_def dispatch_def Let_def ci
    by (elim rbindE) (simp add: rbind_Inr_iff ensure_Inr_iff split: if_splits; blast)
  have "wi_id w = iid"
    using repo_invD [OF assms(2), of "(tenant, iid)" w] w by (simp add: repo_get_def get_or_raise_Inr_iff)
  with dispatch_loops_claims [OF st] assms(3,4) show ?thesis unfolding claims_allowed_def acts by blast
qed

text \<open>Where a lease comes from: a state in which the device could run the node.\<close>

definition may_work :: "shared \<Rightarrow> edge_device \<Rightarrow> string \<Rightarrow> string \<Rightarrow> bool" where
  "may_work sh device iid key \<longleftrightarrow> (\<exists>r \<in> set (sh_states sh). \<exists>w spec. find_instance r (ed_tenant_id device, iid) = Some w \<and>
     spec \<in> set (sn_nodes (wi_snapshot w)) \<and> ns_key spec = key \<and> device_can_run device spec)"

lemma may_work_mono: "may_work sh device iid key \<Longrightarrow> set (sh_states sh) \<subseteq> set (sh_states sh') \<Longrightarrow> may_work sh' device iid key"
  unfolding may_work_def by blast

lemma edge_request_node:
  "edge_request tenant a w = Inr q \<Longrightarrow> er_tenant_id q = tenant \<and> er_instance_id q = act_instance_id a \<and>
     er_node_key q = act_node_key a \<and> act_claim_token a = Some (er_claim_token q)"
  unfolding edge_request_def by (auto simp: rbind_Inr_iff get_or_raise_Inr_iff)

lemma lease_ofE:
  assumes "lease_of wd device a sh = (sh', Inr x)" and "others_are_commands wd" and "history (sh_states sh)"
  obtains lease where "x = Some lease" "el_device_id lease = ed_id device" "er_tenant_id (el_request lease) = ed_tenant_id device"
    "er_instance_id (el_request lease) = act_instance_id a" "er_node_key (el_request lease) = act_node_key a"
    "act_claim_token a \<noteq> None" "history (sh_states sh')" "set (sh_states sh) \<subseteq> set (sh_states sh')"
proof -
  obtain env r where q: "Inr x = rbind (repo_get r (ed_tenant_id device) (act_instance_id a)) (\<lambda>w.
     rbind (edge_request (ed_tenant_id device) a w) (\<lambda>request.
     Inr (Some \<lparr>el_device_id = ed_id device, el_request = request\<rparr>)))"
    and h: "history (sh_states sh')" "set (sh_states sh) \<subseteq> set (sh_states sh')"
    using assms unfolding lease_of_def by (rule shared_readE)
  from q [symmetric] show thesis
  proof (elim rbindE, goal_cases)
    case (1 w request)
    then show ?case using that [of "\<lparr>el_device_id = ed_id device, el_request = request\<rparr>"] edge_request_node [OF 1(2)] h by auto
  qed
qed

lemma eligible_forD: "key \<in> set (eligible_for device w) \<Longrightarrow> \<exists>spec \<in> set (sn_nodes (wi_snapshot w)). ns_key spec = key \<and> device_can_run device spec"
  by (auto simp: eligible_for_def)

lemma edge_dispatchE:
  assumes "edge_dispatch wd device iid keys sh = (sh', Inr acts)" and "others_are_commands wd" and "history (sh_states sh)"
  obtains "history (sh_states sh')" "set (sh_states sh) \<subseteq> set (sh_states sh')"
    "\<And>a. a \<in> set acts \<Longrightarrow> act_claim_token a \<noteq> None \<Longrightarrow> act_node_key a \<in> set keys \<and> act_instance_id a = iid"
  using assms unfolding edge_dispatch_def
proof (rule shared_commandE, goal_cases)
  case (1 env r r' r1 x)
  then show ?case by (blast intro: command.intros)
next
  case (2 env r r' r1)
  have "repo_inv r" by (rule history_repo_inv [OF 2(7,3)])
  with 2(1,7,8) dispatch_due_claims [OF 2(2)] show ?case unfolding allowed_def by simp
qed

lemma shared_command_after:
  assumes "shared_command wd f sh = (sh', x)" and "others_are_commands wd" and "history (sh_states sh)"
    and "\<And>env r r' r1 x. f env r r' = Inr (r1, x) \<Longrightarrow> command r r' r1"
  shows "history (sh_states sh')"
  using shared_command_history [OF assms(2-4), of f] assms(1) by simp

lemma claim_loop_lease:
  "claim_loop wd device iids sh = (sh', Inr (Some lease)) \<Longrightarrow> others_are_commands wd \<Longrightarrow> history (sh_states sh) \<Longrightarrow>
     history (sh_states sh') \<and> el_device_id lease = ed_id device \<and> er_tenant_id (el_request lease) = ed_tenant_id device \<and>
     may_work sh' device (er_instance_id (el_request lease)) (er_node_key (el_request lease))"
proof (induction iids arbitrary: sh)
  case (Cons iid iids)
  obtain sh1 x where r: "shared_read wd (\<lambda>env r. rbind (repo_get r (ed_tenant_id device) iid) (\<lambda>w. Inr (eligible_for device w))) sh = (sh1, x)"
    by fastforce
  with Cons.prems(1) obtain keys where x: "x = Inr keys" by (cases x) simp_all
  obtain env s where s: "x = rbind (repo_get s (ed_tenant_id device) iid) (\<lambda>w. Inr (eligible_for device w))"
    "s \<in> set (sh_states sh1)" and h1: "history (sh_states sh1)"
    using r Cons.prems(2,3) by (rule shared_readE)
  then obtain w where w: "find_instance s (ed_tenant_id device, iid) = Some w" and keys: "keys = eligible_for device w"
    using s(1) [unfolded x, symmetric] by (auto simp: rbind_Inr_iff repo_get_def get_or_raise_Inr_iff)
  have may: "may_work sh1 device iid key" if "key \<in> set keys" for key
    using s(2) w eligible_forD [OF that [unfolded keys]] unfolding may_work_def by blast
  show ?case
  proof (cases "keys = []")
    case True
    then show ?thesis using Cons.IH [OF _ Cons.prems(2) h1] Cons.prems(1) r x by simp
  next
    case False
    obtain sh2 y where d: "edge_dispatch wd device iid keys sh1 = (sh2, y)" by fastforce
    have h2: "history (sh_states sh2)"
      using d Cons.prems(2) h1 unfolding edge_dispatch_def by (rule shared_command_after) (blast intro: command.intros)
    show ?thesis
    proof (cases y)
      case (Inl e)
      then show ?thesis using Cons.prems(1) Cons.IH [OF _ Cons.prems(2) h2] r x False d by (cases e) simp_all
    next
      case (Inr acts)
      show ?thesis
      proof (cases "claimed_by_device device acts")
        case None
        then show ?thesis using Cons.prems(1) Cons.IH [OF _ Cons.prems(2) h2] r x False d Inr by simp
      next
        case (Some a)
        then have a: "a \<in> set acts" by (auto simp: claimed_by_device_def find_Some_iff)
        have l: "lease_of wd device a sh2 = (sh', Inr (Some lease))" using Cons.prems(1) r x False d Inr Some by simp
        then obtain lease' where l': "Some lease = Some lease'" "el_device_id lease' = ed_id device"
          "er_tenant_id (el_request lease') = ed_tenant_id device" "er_instance_id (el_request lease') = act_instance_id a"
          "er_node_key (el_request lease') = act_node_key a" "act_claim_token a \<noteq> None" "history (sh_states sh')"
          "set (sh_states sh2) \<subseteq> set (sh_states sh')"
          using Cons.prems(2) h2 by (rule lease_ofE) blast
        from d [unfolded Inr] Cons.prems(2) h1
        have "act_node_key a \<in> set keys \<and> act_instance_id a = iid \<and> set (sh_states sh1) \<subseteq> set (sh_states sh2)"
          by (rule edge_dispatchE) (use a l'(6) in blast)
        then have "may_work sh' device iid (act_node_key a)" "act_instance_id a = iid"
          using may_work_mono [OF may, of "act_node_key a" sh'] l'(8) by blast+
        with l' show ?thesis by simp
      qed
    qed
  qed
qed simp

end
