(* ===== verification/Edge_Demo.thy ===== *)
theory Edge_Demo
  imports Edge_Theorems Demo
begin

text \<open>
  A device of bob, paired with a code that ann had issued for him, and a process with one node, an agent
  of bob, which the device claims and completes.
\<close>

section \<open>The device\<close>

definition demo_edge :: edge_service where
  "demo_edge = \<lparr>ev_supported_capabilities = [''text''], ev_candidate_limit = 10, ev_max_result_bytes = 1000\<rparr>"

definition demo_edge_env :: "nat \<Rightarrow> edge_env" where
  "demo_edge_env n = \<lparr>ev_ids = \<lambda>i. (if i = 0 then ''d'' else ''e'') @ dec_nat n, ev_secrets = \<lambda>i. ''s'' @ dec_nat n, ev_now = int n\<rparr>"

definition demo_issue :: "edge_store \<Rightarrow> (edge_store \<times> edge_pairing_grant) res" where
  "demo_issue = issue_pairing demo_edge (demo_edge_env 2) (PStr ''acme'') (PStr ''bob'') (PStr ''ann'') 10 (PList [PStr ''text''])"

definition demo_pair :: "edge_store \<Rightarrow> (edge_store \<times> edge_device \<times> string) res" where
  "demo_pair = pair_device demo_edge (demo_edge_env 3) ''d2.s2'' (PStr ''Laptop'') (PList [PStr ''text''])"

text \<open>The device, but for the hash of its secret.\<close>

definition demo_device :: "string \<Rightarrow> edge_device" where
  "demo_device h = \<lparr>ed_id = ''d3'', ed_tenant_id = ''acme'', ed_person_id = ''bob'', ed_name = ''Laptop'',
     ed_capabilities = [''text''], ed_credential_hash = h, ed_status = D_ACTIVE, ed_created_at = 3,
     ed_last_seen_at = Some 3, ed_revoked_at = None\<rparr>"

lemma demo_texts:
  "edge_text (PStr ''acme'') = Inr ''acme''" "edge_text (PStr ''bob'') = Inr ''bob''" "edge_text (PStr ''ann'') = Inr ''ann''"
  "edge_text (PStr ''lost'') = Inr ''lost''" "edge_text (PStr ''d3'') = Inr ''d3''"
  "edge_text (PStr ''Laptop'') = Inr ''Laptop''" "capabilities_of (PList [PStr ''text'']) = Inr [''text'']"
  "ev_ids (demo_edge_env 2) 0 = ''d2''" "ev_ids (demo_edge_env 3) 0 = ''d3''" "ev_secrets (demo_edge_env 2) 0 = ''s2''"
  "ev_secrets (demo_edge_env 3) 0 = ''s3''" "ev_now (demo_edge_env 2) = 2" "ev_now (demo_edge_env 3) = 3" "ev_now (demo_edge_env 4) = 4"
  "split_secret ''d2.s2'' e = Inr (''d2'', ''s2'')" "split_secret ''d3.s3'' e = Inr (''d3'', ''s3'')"
  "clean_id ''d2''" "clean_secret ''s2''" "clean_id ''d3''" "clean_secret ''s3''"
  by code_simp+

definition demo_grant :: edge_pairing_grant where
  "demo_grant = \<lparr>gr_code = ''d2.s2'', gr_expires_at = 12, gr_allowed_capabilities = [''text'']\<rparr>"

definition demo_ticket :: edge_pairing_ticket where
  "demo_ticket = \<lparr>et_id = ''d2'', et_tenant_id = ''acme'', et_person_id = ''bob'', et_code_hash = secret_hash ''pairing'' ''s2'',
     et_allowed_capabilities = [''text''], et_created_at = 2, et_expires_at = 12, et_created_by_person_id = ''ann'', et_used_at = None\<rparr>"

lemma demo_issued:
  obtains es where "demo_issue empty_edge_store = Inr (es, demo_grant)" "es_devices es = []" "es_pairings es = [(''d2'', demo_ticket)]"
  by (simp add: demo_issue_def issue_pairing_def create_pairing_def empty_edge_store_def demo_texts demo_edge_def HOUR_def
      demo_grant_def demo_ticket_def Let_def)

lemma demo_redeemed:
  assumes "es_devices es = []" and "es_pairings es = [(''d2'', demo_ticket)]"
  obtains es' where "demo_pair es = Inr (es', demo_device (secret_hash ''device'' ''s3''), ''d3.s3'')"
    "es_devices es' = [(''d3'', demo_device (secret_hash ''device'' ''s3''))]"
  using assms by (simp add: demo_pair_def pair_device_def store_pair_device_def demo_texts demo_edge_def demo_ticket_def
      expect_hash_def compare_digest_def new_edge_device_def demo_device_def Let_def)

lemma demo_seen:
  assumes "es_devices es = [(''d3'', demo_device (secret_hash ''device'' ''s3''))]"
  obtains es' where "authenticate (demo_edge_env 4) ''d3.s3'' es =
    Inr (es', (demo_device (secret_hash ''device'' ''s3''))\<lparr>ed_last_seen_at := Some 4\<rparr>)"
  using assms by (simp add: authenticate_def authenticate_device_def demo_texts expect_hash_def compare_digest_def demo_device_def Let_def)

text \<open>The store with the device.\<close>

lemma demo_paired:
  obtains es1 es2 where "demo_issue empty_edge_store = Inr (es1, demo_grant)" "es_devices es1 = []"
    "es_pairings es1 = [(''d2'', demo_ticket)]"
    "demo_pair es1 = Inr (es2, demo_device (secret_hash ''device'' ''s3''), ''d3.s3'')"
    "es_devices es2 = [(''d3'', demo_device (secret_hash ''device'' ''s3''))]" "edge_step\<^sup>*\<^sup>* empty_edge_store es2"
proof -
  obtain es1 where i: "demo_issue empty_edge_store = Inr (es1, demo_grant)" "es_devices es1 = []" "es_pairings es1 = [(''d2'', demo_ticket)]"
    by (rule demo_issued)
  obtain es2 where p: "demo_pair es1 = Inr (es2, demo_device (secret_hash ''device'' ''s3''), ''d3.s3'')"
    "es_devices es2 = [(''d3'', demo_device (secret_hash ''device'' ''s3''))]" using i(2,3) by (rule demo_redeemed)
  have "edge_step empty_edge_store es1" "edge_step es1 es2"
    by (rule edge_step.issued, rule i(1) [unfolded demo_issue_def]) (rule edge_step.paired, rule p(1) [unfolded demo_pair_def])
  then have "edge_step\<^sup>*\<^sup>* empty_edge_store es2" by simp
  with i p show thesis by (rule that)
qed

lemma demo_known:
  obtains es where "es_devices es = [(''d3'', demo_device (secret_hash ''device'' ''s3''))]" "edge_step\<^sup>*\<^sup>* empty_edge_store es"
proof (rule demo_paired)
  fix es1 es2
  assume "es_devices es2 = [(''d3'', demo_device (secret_hash ''device'' ''s3''))]" "edge_step\<^sup>*\<^sup>* empty_edge_store es2"
  then show thesis by (rule that)
qed

section \<open>The process\<close>

definition demo_edge_work :: pmap where
  "demo_edge_work = [(''objective'', PStr ''write''),
     (''outputs'', PTuple [PFrozen [(''id'', PStr ''body''), (''label'', PStr ''Body''),
        (''type'', PStr ''text''), (''required'', PBool True)]]),
     (''acceptance'', PTuple [PStr ''complete'']),
     (''agent'', PFrozen [(''kind'', PStr ''text''), (''instructions'', PStr ''write'')])]"

definition demo_edge_snapshot :: instance_snapshot where
  "demo_edge_snapshot = mk_snapshot
     [\<lparr>ns_key = ''text'', ns_title = ''Text'', ns_owner_person_id = ''bob'', ns_executor = AGENT,
       ns_deps = [], ns_work = demo_edge_work\<rparr>] ''publish'' None False [] ''0.2''"

definition demo_e1 :: repository where
  "demo_e1 = ok_store (create_draft (demo_env 1) empty_repository ''p1'' ''acme'' ''ann'' demo_edge_snapshot ''ann'' None)"
definition demo_e2 :: repository where
  "demo_e2 = ok_store (confirm_draft (demo_env 2) demo_e1 demo_e1 ''acme'' ''p1'' ''ann'' None)"
definition demo_e3 :: repository where
  "demo_e3 = ok_store (dispatch_due (demo_env 3) demo_e2 demo_e2 ''acme'' ''p1'' ''edge:d3'' 1 (Some [''text'']) None)"

lemma demo_edge_history: "history [empty_repository, demo_e1, demo_e2]" "history [empty_repository, demo_e1, demo_e2, demo_e3]"
proof -
  have ok: "is_ok (create_draft (demo_env 1) empty_repository ''p1'' ''acme'' ''ann'' demo_edge_snapshot ''ann'' None)"
    "is_ok (confirm_draft (demo_env 2) demo_e1 demo_e1 ''acme'' ''p1'' ''ann'' None)"
    "is_ok (dispatch_due (demo_env 3) demo_e2 demo_e2 ''acme'' ''p1'' ''edge:d3'' 1 (Some [''text'']) None)"
    by code_simp+
  have c: "command empty_repository empty_repository demo_e1" "command demo_e1 demo_e1 demo_e2" "command demo_e2 demo_e2 demo_e3"
    using ok [THEN ok_storeD] unfolding demo_e1_def [symmetric] demo_e2_def [symmetric] demo_e3_def [symmetric]
    by (blast intro: command.intros)+
  have h: "history [empty_repository, demo_e1]"
    using history.intros(2) [OF history.intros(1), of empty_repository demo_e1] c(1) by simp
  from history.intros(2) [OF h, of demo_e1 demo_e2] c(2) show h2: "history [empty_repository, demo_e1, demo_e2]" by simp
  from history.intros(2) [OF h2, of demo_e2 demo_e3] c(3) show "history [empty_repository, demo_e1, demo_e2, demo_e3]" by simp
qed

definition demo_edge_world :: world where
  "demo_edge_world = \<lparr>wd_env = \<lambda>n. demo_env (n + 4), wd_others = \<lambda>n rs. rs\<rparr>"

lemma demo_edge_world: "others_are_commands demo_edge_world"
  by (simp add: others_are_commands_def demo_edge_world_def)

definition demo_edge_shared :: "repository list \<Rightarrow> shared" where
  "demo_edge_shared rs = \<lparr>sh_states = empty_repository # rs, sh_turn = 0\<rparr>"

lemma demo_claimed:
  obtains sh lease where "claim_for demo_edge demo_edge_world ((demo_device h)\<lparr>ed_last_seen_at := Some 4\<rparr>) (demo_edge_shared [demo_e1, demo_e2]) = (sh, Inr (Some lease))"
proof -
  have "case claim_for demo_edge demo_edge_world ((demo_device h)\<lparr>ed_last_seen_at := Some 4\<rparr>) (demo_edge_shared [demo_e1, demo_e2]) of
      (sh, Inr (Some lease)) \<Rightarrow> True | _ \<Rightarrow> False" by code_simp
  with that show thesis by (auto split: prod.splits sum.splits option.splits)
qed

lemma demo_completed:
  obtains sh w where "complete_for demo_edge demo_edge_world ''p1'' ''text'' 1 1 ''token-3-0'' [(''body'', PStr ''hello'')] None
     ((demo_device h)\<lparr>ed_last_seen_at := Some 4\<rparr>) (demo_edge_shared [demo_e1, demo_e2, demo_e3]) = (sh, Inr w)"
proof -
  have "case complete_for demo_edge demo_edge_world ''p1'' ''text'' 1 1 ''token-3-0'' [(''body'', PStr ''hello'')] None
      ((demo_device h)\<lparr>ed_last_seen_at := Some 4\<rparr>) (demo_edge_shared [demo_e1, demo_e2, demo_e3]) of
      (sh, Inr w) \<Rightarrow> True | _ \<Rightarrow> False" by code_simp
  with that show thesis by (auto split: prod.splits sum.splits)
qed

end
