(* ===== verification/Edge_Properties.thy ===== *)
theory Edge_Properties
  imports Edge_Demo
begin

text \<open>
  The properties of the personal devices: how a device comes to be, what a pairing code and a credential
  are good for, and on which work a device can act.
\<close>

section \<open>Pairing\<close>

text \<open>C32: every device was made by redeeming a pairing code before its expiry, it belongs to the person and the
  tenant the code was issued for and can do no more than the code allowed, and there are as many
  devices as used codes, whatever requests were made.\<close>

theorem device_was_paired:
  assumes "edge_step\<^sup>*\<^sup>* empty_edge_store es" and "dget (es_devices es) did = Some d"
  shows "ed_id d = did \<and>
     (\<exists>i t. dget (es_pairings es) i = Some t \<and> et_used_at t = Some (ed_created_at d) \<and> ed_created_at d < et_expires_at t \<and>
        et_expires_at t \<le> et_created_at t + HOUR \<and> et_tenant_id t = ed_tenant_id d \<and> et_person_id t = ed_person_id d \<and>
        set (ed_capabilities d) \<subseteq> set (et_allowed_capabilities t)) \<and>
     length (es_devices es) = length (filter (\<lambda>(k, t). et_used_at t \<noteq> None) (es_pairings es))"
proof -
  have inv: "edge_inv es" by (rule edge_reachable_inv [OF assms(1)])
  obtain i t where "ed_id d = did" "dget (es_pairings es) i = Some t" "paired_with d t"
    using edge_invD(5) [OF inv assms(2)] by (rule device_okE)
  moreover have "et_expires_at t \<le> et_created_at t + HOUR" using edge_invD(4) [OF inv calculation(2)] by (simp add: ticket_ok_def)
  ultimately show ?thesis using edge_invD(3) [OF inv] unfolding paired_with_def used_codes_def by blast
qed

theorem device_was_paired_witness:
  "\<exists>(es :: edge_store) d i t. dget (es_devices es) ''d3'' = Some d \<and> dget (es_pairings es) i = Some t \<and> et_person_id t = ed_person_id d \<and>
     length (es_devices es) = 1"
proof -
  obtain es where d: "es_devices es = [(''d3'', demo_device (secret_hash ''device'' ''s3''))]" and e: "edge_step\<^sup>*\<^sup>* empty_edge_store es"
    by (rule demo_known)
  from d have g: "dget (es_devices es) ''d3'' = Some (demo_device (secret_hash ''device'' ''s3''))" by simp
  from device_was_paired [OF e g] obtain i t where t: "dget (es_pairings es) i = Some t"
    "et_person_id t = ed_person_id (demo_device (secret_hash ''device'' ''s3''))" by blast
  have "length (es_devices es) = 1" by (simp add: d)
  with g t show ?thesis by blast
qed

text \<open>C33: a pairing code makes at most one device: after it was redeemed, no later request with a code of the same
  ticket succeeds, whatever was done in between.\<close>

theorem pairing_code_single_use:
  assumes "pair_device sv ev code name requested es = Inr (es1, device, credential)" and "edge_step\<^sup>*\<^sup>* es1 es2"
    and "split_secret code e = Inr (i, s)" and "split_secret code' e' = Inr (i, s')"
  shows "\<not> is_ok (pair_device sv' ev' code' name' requested' es2)"
proof
  assume "is_ok (pair_device sv' ev' code' name' requested' es2)"
  then obtain es3 d c where again: "pair_device sv' ev' code' name' requested' es2 = Inr (es3, d, c)"
    by (cases "pair_device sv' ev' code' name' requested' es2") auto
  obtain t where t: "dget (es_pairings es1) i = Some t" "et_used_at t \<noteq> None"
    using assms(1)
  proof (rule pair_deviceE, goal_cases)
    case (1 ticket_id secret t name' caps)
    have "ticket_id = i" by (rule split_secret_fst [OF 1(2) assms(3)])
    with 1(1) 1(16) show ?case by (simp add: dget_dput)
  qed
  from edge_laterD(1) [OF edge_steps_later [OF assms(2)] t(1)] t(2)
  have used: "dget (es_pairings es2) i = Some t" by (auto simp: ticket_later_def)
  show False using again
  proof (rule pair_deviceE, goal_cases)
    case (1 ticket_id secret u name'' caps)
    have "ticket_id = i" by (rule split_secret_fst [OF 1(1) assms(4)])
    with 1(5,7) used t(2) show ?case by simp
  qed
qed

theorem pairing_code_single_use_witness:
  "\<exists>es es'. is_ok (demo_pair es) \<and> \<not> is_ok (demo_pair es')"
proof -
  obtain es1 where i: "demo_issue empty_edge_store = Inr (es1, demo_grant)" "es_devices es1 = []" "es_pairings es1 = [(''d2'', demo_ticket)]"
    by (rule demo_issued)
  obtain es2 where p: "demo_pair es1 = Inr (es2, demo_device (secret_hash ''device'' ''s3''), ''d3.s3'')" using i(2,3) by (rule demo_redeemed)
  have "\<not> is_ok (demo_pair es2)"
    using pairing_code_single_use [OF p [unfolded demo_pair_def] rtranclp.rtrancl_refl demo_texts(15) demo_texts(15)]
    unfolding demo_pair_def .
  moreover have "is_ok (demo_pair es1)" by (simp add: p)
  ultimately show ?thesis by blast
qed

text \<open>C34: a revoked device is locked out for ever: whatever requests follow the revocation, every request with a
  credential of the device is refused and changes neither the store nor the workflows.\<close>

theorem revoked_device_locked_out:
  assumes "revoke_device ev tenant did actor reason es = Inr (es1, device)" and "edge_inv es"
    and "edge_step\<^sup>*\<^sup>* es1 es2" and "split_secret credential e = Inr (ed_id device, secret)"
  shows "\<exists>x. with_device ev' credential f es2 sh = (es2, sh, Inl x) \<and>
     x \<in> {DeviceRevokedError ''device has been revoked'', InvalidDeviceCredentialError ''device credential is invalid''}"
proof -
  have inv: "edge_inv es2"
    using assms(3) edge_step_inv [OF edge_step.revoked [OF assms(1)] assms(2)]
    by (induction rule: rtranclp_induct) (blast intro: edge_step_inv)+
  have old: "dget (es_devices es1) (ed_id device) = Some device \<and> ed_status device = D_REVOKED"
    using assms(1)
  proof (rule revoke_deviceE, goal_cases)
    case (1 did' tenant' d)
    have "ed_id d = did'" using edge_invD(5) [OF assms(2) 1(3)] by (simp add: device_ok_def)
    with 1(3,5,6) show ?case by (auto simp: dget_dput)
  qed
  obtain d where d: "dget (es_devices es2) (ed_id device) = Some d" "ed_status d = D_REVOKED"
    using edge_laterD(2) [OF edge_steps_later [OF assms(3)], of "ed_id device" device] old by (auto simp: device_later_def)
  have "ascii (ed_credential_hash d)" using edge_invD(5) [OF inv d(1)] by (simp add: device_ok_def)
  with d show ?thesis using split_secret_error [OF assms(4)]
    by (cases "ed_credential_hash d = secret_hash ''device'' secret")
      (auto simp: with_device_def authenticate_def authenticate_device_def expect_hash_def compare_digest_def)
qed

theorem revoked_device_locked_out_witness:
  "\<exists>es x. with_device (demo_edge_env 4) ''d3.s3'' (claim_for demo_edge demo_edge_world) es (demo_edge_shared [demo_e1, demo_e2]) =
     (es, demo_edge_shared [demo_e1, demo_e2], Inl x)"
proof -
  let ?d = "demo_device (secret_hash ''device'' ''s3'')"
  obtain es where d: "es_devices es = [(''d3'', ?d)]" and e: "edge_step\<^sup>*\<^sup>* empty_edge_store es" by (rule demo_known)
  from d obtain es1 where r: "revoke_device (demo_edge_env 3) (PStr ''acme'') (PStr ''d3'') (PStr ''ann'') (PStr ''lost'') es =
      Inr (es1, ?d\<lparr>ed_status := D_REVOKED, ed_revoked_at := Some 3\<rparr>)"
    by (simp add: revoke_device_def store_revoke_device_def demo_texts demo_device_def Let_def)
  have "split_secret ''d3.s3'' undefined = Inr (ed_id (?d\<lparr>ed_status := D_REVOKED, ed_revoked_at := Some 3\<rparr>), ''s3'')"
    by (simp add: demo_texts demo_device_def)
  from revoked_device_locked_out [OF r edge_reachable_inv [OF e] rtranclp.rtrancl_refl this] show ?thesis by blast
qed

text \<open>An issued code pairs: as long as it has not been redeemed, and before it expires, a device that asks for
  capabilities the code allows is paired with it and belongs to the person of the code, and the
  credential it is given authenticates it.\<close>

lemma issued_code_pairs:
  assumes "issue_pairing sv ev tenant person actor ttl permitted es = Inr (es1, grant)" and "edge_step\<^sup>*\<^sup>* es1 es2"
    and "\<exists>t. dget (es_pairings es2) (ev_ids ev 0) = Some t \<and> et_used_at t = None"
    and "clean_id (ev_ids ev 0)" "clean_secret (ev_secrets ev 0)" "clean_id (ev_ids ev' 0)" "clean_secret (ev_secrets ev' 0)"
    and "edge_text name = Inr n" "length n \<le> 120"
    and "capabilities_of requested = Inr caps" "set caps \<subseteq> set (gr_allowed_capabilities grant)"
    and "ev_now ev' < gr_expires_at grant" and "dget (es_devices es2) (ev_ids ev' 0) = None"
  shows "\<exists>es3 d credential. pair_device sv ev' (gr_code grant) name requested es2 = Inr (es3, d, credential) \<and>
     edge_text person = Inr (ed_person_id d) \<and> ed_capabilities d = caps \<and>
     (\<exists>es4. authenticate ev'' credential es3 = Inr (es4, d\<lparr>ed_last_seen_at := Some (ev_now ev'')\<rparr>))"
  by (rule unused_code_pairs [OF assms])

section \<open>Work\<close>

text \<open>The device that a credential stands for.\<close>

definition credential_of :: "edge_store \<Rightarrow> string \<Rightarrow> edge_device \<Rightarrow> bool" where
  "credential_of es credential d \<longleftrightarrow> (\<exists>did secret e. split_secret credential e = Inr (did, secret) \<and>
     dget (es_devices es) did = Some d \<and> ed_credential_hash d = secret_hash ''device'' secret)"

lemma with_deviceE:
  assumes "with_device ev credential f es sh = (es', sh', Inr x)"
  obtains d where "credential_of es credential d" "ed_status d = D_ACTIVE"
    "f (d\<lparr>ed_last_seen_at := Some (ev_now ev)\<rparr>) sh = (sh', Inr x)"
proof -
  obtain device where a: "authenticate ev credential es = Inr (es', device)" and f: "f device sh = (sh', Inr x)"
    using assms by (auto simp: with_device_def split: sum.splits prod.splits)
  from a show thesis
  proof (rule authenticateE, goal_cases)
    case (1 did secret d)
    then show ?case using that [of d] f unfolding credential_of_def by blast
  qed
qed

lemma can_run_seen [simp]: "device_can_run (d\<lparr>ed_last_seen_at := t\<rparr>) spec = device_can_run d spec"
  by (simp add: device_can_run_def split: option.split)



lemma device_can_runD:
  "device_can_run d spec \<Longrightarrow> ns_executor spec = AGENT \<and> ns_owner_person_id spec = ed_person_id d \<and>
     (\<exists>agent kind. as_map (getv (ns_work spec) ''agent'') = Some agent \<and> getv agent ''kind'' = PStr kind \<and>
        kind \<in> set (ed_capabilities d))"
  unfolding device_can_run_def
  by (cases "as_map (getv (ns_work spec) ''agent'')") (auto split: option.splits)


text \<open>C35: a device only claims agent work of its own person, within its capabilities: the lease it is given names a
  node that some state of the history shows to be executed by an agent of a kind the device was paired
  for and to be owned by the person of the device, and the device is active and known by its credential.\<close>

theorem device_claims_own_work:
  assumes "edge_claim sv ev wd credential es sh = (es', sh', Inr (Some lease))"
    and "others_are_commands wd" and "history (sh_states sh)"
  shows "\<exists>d. credential_of es credential d \<and> ed_status d = D_ACTIVE \<and> el_device_id lease = ed_id d \<and> history (sh_states sh') \<and>
     (\<exists>r \<in> set (sh_states sh'). \<exists>w spec. find_instance r (ed_tenant_id d, er_instance_id (el_request lease)) = Some w \<and>
        spec \<in> set (sn_nodes (wi_snapshot w)) \<and> ns_key spec = er_node_key (el_request lease) \<and>
        ns_executor spec = AGENT \<and> ns_owner_person_id spec = ed_person_id d \<and>
        (\<exists>agent kind. as_map (getv (ns_work spec) ''agent'') = Some agent \<and> getv agent ''kind'' = PStr kind \<and>
           kind \<in> set (ed_capabilities d)))"
proof -
  obtain d where d: "credential_of es credential d" "ed_status d = D_ACTIVE"
    and c: "claim_for sv wd (d\<lparr>ed_last_seen_at := Some (ev_now ev)\<rparr>) sh = (sh', Inr (Some lease))"
    using assms(1) unfolding edge_claim_def by (rule with_deviceE)
  let ?d = "d\<lparr>ed_last_seen_at := Some (ev_now ev)\<rparr>"
  obtain sh1 iids where r: "shared_read wd (\<lambda>env r. runnable_instance_ids r (ed_tenant_id ?d) (env_now env) (ev_candidate_limit sv)) sh = (sh1, Inr iids)"
    and l: "claim_loop wd ?d iids sh1 = (sh', Inr (Some lease))"
    using c unfolding claim_for_def by (auto split: prod.splits sum.splits)
  have "history (sh_states sh1)" using r assms(2,3) by (rule shared_read_after)
  from claim_loop_lease [OF l assms(2) this]
  have h: "history (sh_states sh')" "el_device_id lease = ed_id d"
    and may: "may_work sh' ?d (er_instance_id (el_request lease)) (er_node_key (el_request lease))" by simp_all
  from may [unfolded may_work_def] obtain r w spec where r: "r \<in> set (sh_states sh')"
    and w: "find_instance r (ed_tenant_id d, er_instance_id (el_request lease)) = Some w"
      "spec \<in> set (sn_nodes (wi_snapshot w))" "ns_key spec = er_node_key (el_request lease)" "device_can_run ?d spec"
    by auto
  note can = device_can_runD [OF w(4) [unfolded can_run_seen]]
  have "\<exists>r \<in> set (sh_states sh'). \<exists>w spec. find_instance r (ed_tenant_id d, er_instance_id (el_request lease)) = Some w \<and>
        spec \<in> set (sn_nodes (wi_snapshot w)) \<and> ns_key spec = er_node_key (el_request lease) \<and>
        ns_executor spec = AGENT \<and> ns_owner_person_id spec = ed_person_id d \<and>
        (\<exists>agent kind. as_map (getv (ns_work spec) ''agent'') = Some agent \<and> getv agent ''kind'' = PStr kind \<and>
           kind \<in> set (ed_capabilities d))"
    using r w(1-3) can by blast
  with d h show ?thesis by blast
qed

theorem device_claims_own_work_witness:
  "\<exists>es es' sh' lease (d :: edge_device). edge_claim demo_edge (demo_edge_env 4) demo_edge_world ''d3.s3'' es (demo_edge_shared [demo_e1, demo_e2]) =
     (es', sh', Inr (Some lease)) \<and> el_device_id lease = ed_id d \<and> ed_status d = D_ACTIVE"
proof -
  obtain es where d: "es_devices es = [(''d3'', demo_device (secret_hash ''device'' ''s3''))]" "edge_step\<^sup>*\<^sup>* empty_edge_store es" by (rule demo_known)
  obtain es' where a: "authenticate (demo_edge_env 4) ''d3.s3'' es =
      Inr (es', (demo_device (secret_hash ''device'' ''s3''))\<lparr>ed_last_seen_at := Some 4\<rparr>)" using d(1) by (rule demo_seen)
  obtain sh' lease where c: "claim_for demo_edge demo_edge_world ((demo_device (secret_hash ''device'' ''s3''))\<lparr>ed_last_seen_at := Some 4\<rparr>)
      (demo_edge_shared [demo_e1, demo_e2]) = (sh', Inr (Some lease))" by (rule demo_claimed)
  have claim: "edge_claim demo_edge (demo_edge_env 4) demo_edge_world ''d3.s3'' es (demo_edge_shared [demo_e1, demo_e2]) =
      (es', sh', Inr (Some lease))" by (simp only: edge_claim_def with_device_def a sum.case prod.case c)
  have h: "history (sh_states (demo_edge_shared [demo_e1, demo_e2]))" using demo_edge_history(1) by (simp add: demo_edge_shared_def)
  from device_claims_own_work [OF claim demo_edge_world h] claim show ?thesis by blast
qed




end
