(* ===== verification/Inbox.thy ===== *)
theory Inbox
  imports Shared_World
begin

text \<open>
  \<open>src/larkflow/workflow/inbound.py\<close>: completions of Feishu tasks. An event is appended once to the
  inbox, a first worker verifies it against the state of the task (a parameter, the task service is
  external), a second one submits the human work that the task stands for. Claims expire and failures
  are retried with a growing delay.
\<close>

section \<open>Records\<close>

datatype inbox_status = X_PENDING | X_VERIFYING | X_VERIFIED | X_PROCESSING | X_PROCESSED | X_FAILED | X_EXHAUSTED

record task_completion_signal =
  tc_id :: string
  tc_tenant_id :: string
  tc_task_guid :: string
  tc_event_types :: "string list"
  tc_occurred_at :: time
  tc_received_at :: time
  tc_source :: string
  tc_event_type :: string

record external_task_state =
  xt_guid :: string
  xt_status :: string
  xt_mode :: "int option"
  xt_completed_at :: "string option"
  xt_source :: "int option"
  xt_extra :: "string option"
  xt_assignee_ids :: "string list"
  xt_completed_assignee_ids :: "string list"

record inbox_record =
  ir_event :: task_completion_signal
  ir_status :: inbox_status
  ir_attempt_count :: int
  ir_available_at :: time
  ir_claimed_by :: "string option"
  ir_claim_token :: "string option"
  ir_claim_expires_at :: "time option"
  ir_processed_at :: "time option"
  ir_outcome :: "string option"
  ir_last_error :: "string option"
  ir_failure_stage :: "string option"
  ir_task_state :: "external_task_state option"

record inbox_claim =
  ic_event :: task_completion_signal
  ic_claim_token :: string
  ic_claimed_by :: string
  ic_claim_expires_at :: time
  ic_attempt_count :: int
  ic_task_state :: "external_task_state option"

type_synonym inbox = "(string \<times> string, inbox_record) odict"

definition TASK_UPDATE_EVENT :: string where "TASK_UPDATE_EVENT = ''task.task.update_user_access_v2''"
definition TASK_COMPLETED_UPDATE :: string where "TASK_COMPLETED_UPDATE = ''task_completed_update''"

text \<open>\<open>InboxRecord(event=event)\<close> with its \<open>__post_init__\<close>.\<close>

definition new_inbox_record :: "task_completion_signal \<Rightarrow> inbox_record" where
  "new_inbox_record event =
     \<lparr>ir_event = event, ir_status = X_PENDING, ir_attempt_count = 0, ir_available_at = tc_received_at event,
      ir_claimed_by = None, ir_claim_token = None, ir_claim_expires_at = None, ir_processed_at = None,
      ir_outcome = None, ir_last_error = None, ir_failure_stage = None, ir_task_state = None\<rparr>"

section \<open>The state of a task as JSON\<close>

definition opt_pval :: "('a \<Rightarrow> pval) \<Rightarrow> 'a option \<Rightarrow> pval" where
  "opt_pval f v = (case v of None \<Rightarrow> PNone | Some x \<Rightarrow> f x)"

definition task_state_to_dict :: "external_task_state \<Rightarrow> pmap" where
  "task_state_to_dict s =
     [(''guid'', PStr (xt_guid s)), (''status'', PStr (xt_status s)), (''mode'', opt_pval PInt (xt_mode s)),
      (''completed_at'', opt_pval PStr (xt_completed_at s)), (''source'', opt_pval PInt (xt_source s)),
      (''extra'', opt_pval PStr (xt_extra s)), (''assignee_ids'', PList (map PStr (xt_assignee_ids s))),
      (''completed_assignee_ids'', PList (map PStr (xt_completed_assignee_ids s)))]"

text \<open>\<open>isinstance(value, str) and value\<close>.\<close>

definition optional_text :: "pval \<Rightarrow> string option" where
  "optional_text v = (case as_str v of None \<Rightarrow> None | Some s \<Rightarrow> if s = [] then None else Some s)"

text \<open>What \<open>int(value)\<close> makes of a value that is no integer (a float or a text) is the parameter \<open>to_int\<close>, \<open>None\<close>
  where it raises \<open>TypeError\<close> or \<open>ValueError\<close>.\<close>

definition optional_int :: "(pval \<Rightarrow> int option) \<Rightarrow> pval \<Rightarrow> int option" where
  "optional_int to_int v = (case v of PBool b \<Rightarrow> None | PInt n \<Rightarrow> Some n | PNone \<Rightarrow> None | _ \<Rightarrow> to_int v)"

definition text_items :: "pval \<Rightarrow> string list res" where
  "text_items v = (if truthy v then rbind (iter_items v) (\<lambda>xs. Inr (map py_str xs)) else Inr [])"

definition text_or_empty :: "pval \<Rightarrow> string" where
  "text_or_empty v = (if truthy v then py_str v else [])"

definition task_state_from_dict :: "(pval \<Rightarrow> int option) \<Rightarrow> pmap \<Rightarrow> external_task_state res" where
  "task_state_from_dict to_int d =
     rbind (text_items (getv d ''assignee_ids'')) (\<lambda>assignees.
     rbind (text_items (getv d ''completed_assignee_ids'')) (\<lambda>completed.
     Inr \<lparr>xt_guid = text_or_empty (getv d ''guid''), xt_status = text_or_empty (getv d ''status''),
          xt_mode = optional_int to_int (getv d ''mode''), xt_completed_at = optional_text (getv d ''completed_at''),
          xt_source = optional_int to_int (getv d ''source''), xt_extra = optional_text (getv d ''extra''),
          xt_assignee_ids = assignees, xt_completed_assignee_ids = completed\<rparr>))"

section \<open>The inbox\<close>

definition append_inbox :: "task_completion_signal \<Rightarrow> inbox \<Rightarrow> inbox \<times> bool" where
  "append_inbox event ib =
     (let key = (tc_tenant_id event, tc_id event) in
      if dget ib key \<noteq> None then (ib, False) else (dput key (new_inbox_record event) ib, True))"

definition expired :: "inbox_record \<Rightarrow> time \<Rightarrow> bool" where
  "expired r now = (case ir_claim_expires_at r of None \<Rightarrow> False | Some t \<Rightarrow> t \<le> now)"

definition verifiable :: "inbox_record \<Rightarrow> time \<Rightarrow> bool" where
  "verifiable r now =
     (if ir_status r = X_PENDING \<or> (ir_status r = X_FAILED \<and> ir_failure_stage r = Some ''verification'') then ir_available_at r \<le> now
      else ir_status r = X_VERIFYING \<and> expired r now)"

definition processable :: "inbox_record \<Rightarrow> time \<Rightarrow> bool" where
  "processable r now =
     (if ir_status r = X_VERIFIED \<or> (ir_status r = X_FAILED \<and> ir_failure_stage r = Some ''processing'') then ir_available_at r \<le> now
      else ir_status r = X_PROCESSING \<and> expired r now)"

definition validate_inbox_claim :: "string \<Rightarrow> int \<Rightarrow> int \<Rightarrow> unit res" where
  "validate_inbox_claim worker limit ttl =
     rbind (ensure (\<not> blank worker) (ValueError ''inbound worker_id is required'')) (\<lambda>_.
     rbind (ensure (1 \<le> limit) (ValueError ''inbound claim_limit must be positive'')) (\<lambda>_.
     ensure (0 < ttl) (ValueError ''inbound claim_ttl must be positive'')))"

definition inbox_candidates :: "(inbox_record \<Rightarrow> time \<Rightarrow> bool) \<Rightarrow> string \<Rightarrow> time \<Rightarrow> inbox \<Rightarrow> ((string \<times> string) \<times> inbox_record) list" where
  "inbox_candidates predicate tenant now ib =
     sort_key (\<lambda>(_, r). (ir_available_at r, tc_received_at (ir_event r), tc_id (ir_event r)))
       (filter (\<lambda>((t, _), r). t = tenant \<and> predicate r now) ib)"

definition claim_inbox_record :: "inbox_status \<Rightarrow> string \<Rightarrow> string \<Rightarrow> time \<Rightarrow> inbox_record \<Rightarrow> inbox_record" where
  "claim_inbox_record status worker token expires r =
     r\<lparr>ir_status := status, ir_attempt_count := ir_attempt_count r + 1, ir_claimed_by := Some worker,
       ir_claim_token := Some token, ir_claim_expires_at := Some expires\<rparr>"

definition inbox_claim_of :: "string \<Rightarrow> string \<Rightarrow> time \<Rightarrow> inbox_record \<Rightarrow> inbox_claim" where
  "inbox_claim_of worker token expires r =
     \<lparr>ic_event = ir_event r, ic_claim_token = token, ic_claimed_by = worker, ic_claim_expires_at = expires,
      ic_attempt_count = ir_attempt_count r + 1, ic_task_state = ir_task_state r\<rparr>"

definition claim_as ::
    "inbox_status \<Rightarrow> (inbox_record \<Rightarrow> time \<Rightarrow> bool) \<Rightarrow> (nat \<Rightarrow> string) \<Rightarrow> string \<Rightarrow> string \<Rightarrow> time \<Rightarrow> int \<Rightarrow> int \<Rightarrow> inbox
       \<Rightarrow> (inbox \<times> inbox_claim list) res" where
  "claim_as status predicate tokens tenant worker now limit ttl ib =
     rbind (validate_inbox_claim worker limit ttl) (\<lambda>_.
     let candidates = enumerate 0 (take (nat limit) (inbox_candidates predicate tenant now ib)) in
     Inr (fold (\<lambda>(i, key, r). dput key (claim_inbox_record status worker (tokens i) (now + ttl) r)) candidates ib,
          map (\<lambda>(i, key, r). inbox_claim_of worker (tokens i) (now + ttl) r) candidates))"

definition claim_inbox ::
    "(nat \<Rightarrow> string) \<Rightarrow> string \<Rightarrow> string \<Rightarrow> time \<Rightarrow> int \<Rightarrow> int \<Rightarrow> inbox \<Rightarrow> (inbox \<times> inbox_claim list) res" where
  "claim_inbox = claim_as X_PROCESSING processable"

definition claim_inbox_verification ::
    "(nat \<Rightarrow> string) \<Rightarrow> string \<Rightarrow> string \<Rightarrow> time \<Rightarrow> int \<Rightarrow> int \<Rightarrow> inbox \<Rightarrow> (inbox \<times> inbox_claim list) res" where
  "claim_inbox_verification = claim_as X_VERIFYING verifiable"

definition claimed_inbox_record :: "inbox_status \<Rightarrow> string \<Rightarrow> string \<Rightarrow> string \<Rightarrow> inbox \<Rightarrow> inbox_record res" where
  "claimed_inbox_record expected tenant eid token ib =
     rbind (get_or_raise (dget ib (tenant, eid)) (InvalidInboxClaimError eid)) (\<lambda>r.
     rbind (ensure (ir_status r = expected) (InvalidInboxClaimError eid)) (\<lambda>_.
     rbind (get_or_raise (ir_claim_token r) (InvalidInboxClaimError eid)) (\<lambda>t.
     rbind (compare_digest t token) (\<lambda>same.
     rbind (ensure same (InvalidInboxClaimError eid)) (\<lambda>_. Inr r)))))"

text \<open>The end of a claim: what the five \<open>mark_\<close> operations do to the record.\<close>

definition unclaimed :: "inbox_record \<Rightarrow> inbox_record" where
  "unclaimed r = r\<lparr>ir_claimed_by := None, ir_claim_token := None, ir_claim_expires_at := None\<rparr>"

definition mark_inbox ::
    "inbox_status \<Rightarrow> (inbox_record \<Rightarrow> inbox_record) \<Rightarrow> string \<Rightarrow> string \<Rightarrow> string \<Rightarrow> inbox \<Rightarrow> (inbox \<times> unit) res" where
  "mark_inbox expected f tenant eid token ib =
     rbind (claimed_inbox_record expected tenant eid token ib) (\<lambda>r. Inr (dput (tenant, eid) (unclaimed (f r)) ib, ()))"

definition mark_inbox_verified ::
    "string \<Rightarrow> string \<Rightarrow> string \<Rightarrow> external_task_state \<Rightarrow> time \<Rightarrow> inbox \<Rightarrow> (inbox \<times> unit) res" where
  "mark_inbox_verified tenant eid token state now = mark_inbox X_VERIFYING (\<lambda>r.
     r\<lparr>ir_status := X_VERIFIED, ir_available_at := now, ir_task_state := Some state, ir_last_error := None,
       ir_failure_stage := None\<rparr>) tenant eid token"

definition mark_inbox_verification_failed ::
    "string \<Rightarrow> string \<Rightarrow> string \<Rightarrow> string \<Rightarrow> time \<Rightarrow> inbox \<Rightarrow> (inbox \<times> unit) res" where
  "mark_inbox_verification_failed tenant eid token err retry_at = mark_inbox X_VERIFYING (\<lambda>r.
     r\<lparr>ir_status := X_FAILED, ir_available_at := retry_at, ir_last_error := Some err,
       ir_failure_stage := Some ''verification''\<rparr>) tenant eid token"

definition mark_inbox_verification_exhausted ::
    "string \<Rightarrow> string \<Rightarrow> string \<Rightarrow> string \<Rightarrow> time \<Rightarrow> inbox \<Rightarrow> (inbox \<times> unit) res" where
  "mark_inbox_verification_exhausted tenant eid token err now = mark_inbox X_VERIFYING (\<lambda>r.
     r\<lparr>ir_status := X_EXHAUSTED, ir_available_at := now, ir_processed_at := Some now,
       ir_outcome := Some ''exhausted:verification_attempts'', ir_last_error := Some err,
       ir_failure_stage := Some ''verification''\<rparr>) tenant eid token"

definition mark_inbox_processed :: "string \<Rightarrow> string \<Rightarrow> string \<Rightarrow> string \<Rightarrow> time \<Rightarrow> inbox \<Rightarrow> (inbox \<times> unit) res" where
  "mark_inbox_processed tenant eid token outcome now = mark_inbox X_PROCESSING (\<lambda>r.
     r\<lparr>ir_status := X_PROCESSED, ir_processed_at := Some now, ir_outcome := Some outcome, ir_last_error := None,
       ir_failure_stage := None\<rparr>) tenant eid token"

definition mark_inbox_failed :: "string \<Rightarrow> string \<Rightarrow> string \<Rightarrow> string \<Rightarrow> time \<Rightarrow> inbox \<Rightarrow> (inbox \<times> unit) res" where
  "mark_inbox_failed tenant eid token err retry_at = mark_inbox X_PROCESSING (\<lambda>r.
     r\<lparr>ir_status := X_FAILED, ir_available_at := retry_at, ir_last_error := Some err,
       ir_failure_stage := Some ''processing''\<rparr>) tenant eid token"

definition inbox_records :: "string \<Rightarrow> inbox \<Rightarrow> inbox_record list" where
  "inbox_records tenant ib = map snd (filter (\<lambda>((t, _), r). t = tenant) ib)"

end
