(* ===== verification/Inbox_Workers.thy ===== *)
theory Inbox_Workers
  imports Inbox
begin

text \<open>
  The processes around the inbox (\<open>inbound.py\<close>, continued): the bridge that appends the events of the
  event bus, the worker that verifies them and the worker that submits the work. Other processes may
  use the inbox and the repository between any two of their calls.
\<close>

section \<open>The shared inbox\<close>

text \<open>What other processes do to the inbox at each moment, and the claim tokens drawn by a call.\<close>

record inbox_world =
  iw_others :: "nat \<Rightarrow> inbox \<Rightarrow> inbox"
  iw_tokens :: "nat \<Rightarrow> nat \<Rightarrow> string"

record inbox_shared =
  ib_inbox :: inbox
  ib_turn :: nat

definition inbox_call :: "inbox_world \<Rightarrow> ((nat \<Rightarrow> string) \<Rightarrow> inbox \<Rightarrow> (inbox \<times> 'a) res) \<Rightarrow> inbox_shared \<Rightarrow> inbox_shared \<times> 'a res" where
  "inbox_call iw f s =
     (let ib = iw_others iw (ib_turn s) (ib_inbox s); turn = ib_turn s + 1 in
      case f (iw_tokens iw turn) ib of
        Inl e \<Rightarrow> (\<lparr>ib_inbox = ib, ib_turn = turn\<rparr>, Inl e)
      | Inr (ib, x) \<Rightarrow> (\<lparr>ib_inbox = ib, ib_turn = turn\<rparr>, Inr x))"

section \<open>The bridge\<close>

text \<open>The time of an event (\<open>_event_time\<close>, floating point arithmetic on a number of milliseconds) is the
  parameter \<open>event_time\<close>, \<open>None\<close> where the conversion raises.\<close>

definition event_text :: "pval \<Rightarrow> string res" where
  "event_text v = (if is_text v then Inr (py_str v) else Inl (ValueError ''Task event requires a text''))"

definition is_collection :: "pval \<Rightarrow> bool" where
  "is_collection v = (case v of PList _ \<Rightarrow> True | PTuple _ \<Rightarrow> True | PSet _ \<Rightarrow> True | PDict _ \<Rightarrow> True | PFrozen _ \<Rightarrow> True | _ \<Rightarrow> False)"

definition event_types_of :: "pval \<Rightarrow> string list res" where
  "event_types_of v =
     rbind (ensure (is_collection v) (ValueError ''Task event requires event_types'')) (\<lambda>_.
     rbind (iter_items v) (\<lambda>items.
     rbind (mapM event_text items) (\<lambda>types. Inr (sort (remdups types)))))"

definition bridge_event ::
    "(pval \<Rightarrow> time option) \<Rightarrow> string \<Rightarrow> time \<Rightarrow> string \<Rightarrow> pmap \<Rightarrow> task_completion_signal option res" where
  "bridge_event event_time tenant now key payload =
     (if key \<noteq> TASK_UPDATE_EVENT then Inr None
      else
        rbind (get_or_raise (as_map (getv payload ''header'')) (ValueError ''Task event requires V2 header and event objects'')) (\<lambda>header.
        rbind (get_or_raise (as_map (getv payload ''event'')) (ValueError ''Task event requires V2 header and event objects'')) (\<lambda>body.
        rbind (event_text (getv header ''event_id'')) (\<lambda>eid.
        rbind (event_text (getv body ''task_guid'')) (\<lambda>guid.
        rbind (event_types_of (getv body ''event_types'')) (\<lambda>types.
        if TASK_COMPLETED_UPDATE \<notin> set types then Inr None
        else Inr (Some \<lparr>tc_id = eid, tc_tenant_id = tenant, tc_task_guid = guid, tc_event_types = types,
               tc_occurred_at = (case event_time (getv header ''create_time'') of None \<Rightarrow> now | Some t \<Rightarrow> t),
               tc_received_at = now, tc_source = ''feishu_event_bus'', tc_event_type = TASK_UPDATE_EVENT\<rparr>)))))))"

definition inbox_bridge ::
    "inbox_world \<Rightarrow> (pval \<Rightarrow> time option) \<Rightarrow> string \<Rightarrow> time \<Rightarrow> string \<Rightarrow> pmap \<Rightarrow> inbox_shared \<Rightarrow> inbox_shared \<times> bool res" where
  "inbox_bridge iw event_time tenant now key payload s =
     (case bridge_event event_time tenant now key payload of
        Inl e \<Rightarrow> (s, Inl e)
      | Inr None \<Rightarrow> (s, Inr False)
      | Inr (Some event) \<Rightarrow> inbox_call iw (\<lambda>_ ib. Inr (append_inbox event ib)) s)"

section \<open>Retries\<close>

definition inbox_retry_delay :: "int \<Rightarrow> int \<Rightarrow> int \<Rightarrow> int" where
  "inbox_retry_delay base maximum attempts = min maximum (base * 2 ^ nat (min (max (attempts - 1) 0) 10))"

section \<open>The verification worker\<close>

text \<open>Reading a task is external: it gives the state of the task, or raises (\<open>type: message\<close>).\<close>

record verification_worker =
  vw_tenant_id :: string
  vw_worker_id :: string
  vw_claim_limit :: int
  vw_claim_ttl :: int
  vw_retry_base :: int
  vw_retry_max :: int
  vw_max_attempts :: int
  vw_get_task :: "string \<Rightarrow> string + external_task_state"

definition check_worker_config :: "string \<Rightarrow> string \<Rightarrow> int \<Rightarrow> int \<Rightarrow> int \<Rightarrow> int \<Rightarrow> unit res" where
  "check_worker_config tenant worker limit ttl base maximum =
     rbind (validate_inbox_claim worker limit ttl) (\<lambda>_.
     rbind (ensure (\<not> blank tenant) (ValueError ''Target tenant_id is required'')) (\<lambda>_.
     ensure (0 < base \<and> base \<le> maximum) (ValueError ''retry delays are invalid'')))"

definition mk_verification_worker ::
    "string \<Rightarrow> string \<Rightarrow> int \<Rightarrow> int \<Rightarrow> int \<Rightarrow> int \<Rightarrow> int \<Rightarrow> (string \<Rightarrow> string + external_task_state) \<Rightarrow> verification_worker res" where
  "mk_verification_worker tenant worker limit ttl base maximum attempts get_task =
     rbind (check_worker_config tenant worker limit ttl base maximum) (\<lambda>_.
     rbind (ensure (1 \<le> attempts) (ValueError ''verification max_attempts must be positive'')) (\<lambda>_.
     Inr \<lparr>vw_tenant_id = tenant, vw_worker_id = worker, vw_claim_limit = limit, vw_claim_ttl = ttl, vw_retry_base = base,
          vw_retry_max = maximum, vw_max_attempts = attempts, vw_get_task = get_task\<rparr>))"

record verification_report =
  vr_claimed :: nat
  vr_verified :: nat
  vr_failed :: nat
  vr_exhausted :: nat
  vr_errors :: "string list"

definition completion_visible :: "external_task_state \<Rightarrow> bool" where
  "completion_visible t \<longleftrightarrow> xt_status t = ''done'' \<and> xt_completed_at t \<noteq> None \<and> xt_completed_at t \<noteq> Some []"

definition read_task :: "verification_worker \<Rightarrow> string \<Rightarrow> string + external_task_state" where
  "read_task vw guid = (case vw_get_task vw guid of
     Inl err \<Rightarrow> Inl err
   | Inr t \<Rightarrow>
       if \<not> completion_visible t then Inl ''RetryableInboundError: Task completion is not visible yet''
       else if xt_mode t = Some 1 \<and> xt_completed_assignee_ids t = []
         then Inl ''RetryableInboundError: Task assignee completion is not visible yet''
       else Inr t)"

definition failed_verification ::
    "inbox_world \<Rightarrow> verification_worker \<Rightarrow> time \<Rightarrow> inbox_claim \<Rightarrow> string \<Rightarrow> verification_report \<Rightarrow> inbox_shared
       \<Rightarrow> inbox_shared \<times> verification_report res" where
  "failed_verification iw vw now claim err p s =
     (let eid = tc_id (ic_event claim); err = eid @ '': '' @ err; exhausted = vw_max_attempts vw \<le> ic_attempt_count claim;
          err = (if exhausted then err @ ''; exhausted after '' @ dec_int (vw_max_attempts vw) @ '' attempts'' else err);
          p = p\<lparr>vr_failed := vr_failed p + 1, vr_exhausted := vr_exhausted p + (if exhausted then 1 else 0),
                vr_errors := vr_errors p @ [err]\<rparr> in
      case inbox_call iw (\<lambda>_. if exhausted
             then mark_inbox_verification_exhausted (vw_tenant_id vw) eid (ic_claim_token claim) err now
             else mark_inbox_verification_failed (vw_tenant_id vw) eid (ic_claim_token claim) err
                    (now + inbox_retry_delay (vw_retry_base vw) (vw_retry_max vw) (ic_attempt_count claim))) s of
        (s, Inl e) \<Rightarrow> (s, Inl e)
      | (s, Inr _) \<Rightarrow> (s, Inr p))"

definition verify_claim ::
    "inbox_world \<Rightarrow> verification_worker \<Rightarrow> time \<Rightarrow> inbox_claim \<Rightarrow> verification_report \<Rightarrow> inbox_shared
       \<Rightarrow> inbox_shared \<times> verification_report res" where
  "verify_claim iw vw now claim p s = (case read_task vw (tc_task_guid (ic_event claim)) of
     Inl err \<Rightarrow> failed_verification iw vw now claim err p s
   | Inr t \<Rightarrow>
       (case inbox_call iw (\<lambda>_. mark_inbox_verified (vw_tenant_id vw) (tc_id (ic_event claim)) (ic_claim_token claim) t now) s of
          (s, Inl e) \<Rightarrow> (s, Inl e)
        | (s, Inr _) \<Rightarrow> (s, Inr (p\<lparr>vr_verified := vr_verified p + 1\<rparr>))))"

fun verify_claims ::
    "inbox_world \<Rightarrow> verification_worker \<Rightarrow> time \<Rightarrow> inbox_claim list \<Rightarrow> verification_report \<Rightarrow> inbox_shared
       \<Rightarrow> inbox_shared \<times> verification_report res" where
  "verify_claims iw vw now [] p s = (s, Inr p)"
| "verify_claims iw vw now (claim # claims) p s = (case verify_claim iw vw now claim p s of
     (s, Inl e) \<Rightarrow> (s, Inl e)
   | (s, Inr p) \<Rightarrow> verify_claims iw vw now claims p s)"

definition verification_tick ::
    "inbox_world \<Rightarrow> verification_worker \<Rightarrow> time \<Rightarrow> inbox_shared \<Rightarrow> inbox_shared \<times> verification_report res" where
  "verification_tick iw vw now s =
     (case inbox_call iw (\<lambda>tokens. claim_inbox_verification tokens (vw_tenant_id vw) (vw_worker_id vw) now
             (vw_claim_limit vw) (vw_claim_ttl vw)) s of
        (s, Inl e) \<Rightarrow> (s, Inl e)
      | (s, Inr claims) \<Rightarrow> verify_claims iw vw now claims
          \<lparr>vr_claimed = length claims, vr_verified = 0, vr_failed = 0, vr_exhausted = 0, vr_errors = []\<rparr> s)"

section \<open>The inbound worker\<close>

definition FEISHU_TASK_KIND :: string where "FEISHU_TASK_KIND = ''feishu_task''"

text \<open>\<open>nw_describe\<close> is the text \<open>type: message\<close> of an exception.\<close>

record inbound_worker =
  nw_tenant_id :: string
  nw_worker_id :: string
  nw_claim_limit :: int
  nw_claim_ttl :: int
  nw_retry_base :: int
  nw_retry_max :: int
  nw_describe :: "exn \<Rightarrow> string"

definition mk_inbound_worker ::
    "string \<Rightarrow> string \<Rightarrow> int \<Rightarrow> int \<Rightarrow> int \<Rightarrow> int \<Rightarrow> (exn \<Rightarrow> string) \<Rightarrow> inbound_worker res" where
  "mk_inbound_worker tenant worker limit ttl base maximum describe =
     rbind (check_worker_config tenant worker limit ttl base maximum) (\<lambda>_.
     Inr \<lparr>nw_tenant_id = tenant, nw_worker_id = worker, nw_claim_limit = limit, nw_claim_ttl = ttl, nw_retry_base = base,
          nw_retry_max = maximum, nw_describe = describe\<rparr>)"

record inbound_report =
  nr_claimed :: nat
  nr_submitted :: nat
  nr_noops :: nat
  nr_rejected :: nat
  nr_failed :: nat
  nr_errors :: "string list"

text \<open>\<open>_validate_task\<close>: the reason to reject the completion, if any.\<close>

definition validate_task :: "external_task_state \<Rightarrow> projection_record \<Rightarrow> string \<Rightarrow> string option res" where
  "validate_task t p owner =
     (if Some (xt_guid t) \<noteq> pj_external_id p then Inr (Some ''task_guid_mismatch'')
      else if xt_extra t \<noteq> Some (pj_idempotency_key p) then Inr (Some ''task_binding_mismatch'')
      else if xt_source t \<noteq> Some 6 then Inr (Some ''task_source_mismatch'')
      else if xt_mode t \<noteq> Some 1 then Inr (Some ''task_not_all_assignees_mode'')
      else if xt_assignee_ids t \<noteq> [owner] then Inr (Some ''task_owner_mismatch'')
      else if \<not> completion_visible t then Inl (RetryableInboundError ''Task completion is not visible yet'')
      else if xt_completed_assignee_ids t = [] then Inl (RetryableInboundError ''Task assignee completion is not visible yet'')
      else if xt_completed_assignee_ids t \<noteq> [owner] then Inr (Some ''task_completed_by_non_owner'')
      else Inr None)"

definition terminal_node :: "node_status \<Rightarrow> bool" where
  "terminal_node s \<longleftrightarrow> s \<in> {N_DONE, N_FAILED, N_CANCELED}"

text \<open>What the instance as it has been read says: an outcome, or the node to be submitted.\<close>

definition submission_target ::
    "workflow_instance \<Rightarrow> projection_record \<Rightarrow> external_task_state \<Rightarrow> (string + node_instance) res" where
  "submission_target w p t =
     (case filter (\<lambda>n. ni_id n = pj_node_instance_id p) (map snd (wi_nodes w)) of
        [n] \<Rightarrow>
          rbind (if ni_current_attempt_no n \<noteq> pj_attempt_no p then Inr True
                 else rbind (current_attempt w (ni_node_key n)) (\<lambda>a. Inr (na_attempt_no a \<noteq> pj_attempt_no p))) (\<lambda>stale.
          if stale then Inr (Inl ''noops:stale_attempt'')
          else if terminal_node (ni_status n) then Inr (Inl ''noops:already_terminal'')
          else
            rbind (current_attempt w (ni_node_key n)) (\<lambda>a.
            if \<not> (ni_executor n = HUMAN \<or> na_status a = A_WAITING_HUMAN) \<or> ni_status n \<noteq> N_WAITING_HUMAN
            then Inr (Inl ''rejected:node_not_waiting_human'')
            else
              rbind (snapshot_node (wi_snapshot w) (ni_node_key n)) (\<lambda>spec.
              if human_decision_config (ns_work spec) \<noteq> None then Inr (Inl ''rejected:decision_requires_card'')
              else if requires_structured_human_input (ns_work spec) then Inr (Inl ''rejected:task_requires_deliverable'')
              else
                rbind (validate_task t p (ni_owner_person_id n)) (\<lambda>rejected.
                case rejected of Some reason \<Rightarrow> Inr (Inl (''rejected:'' @ reason)) | None \<Rightarrow> Inr (Inr n)))))
      | _ \<Rightarrow> Inr (Inl ''rejected:projection_node_mismatch''))"

text \<open>\<open>except ConcurrentUpdateError as exc: handler(exc)\<close>\<close>

fun unless_conflict :: "(string \<Rightarrow> shared \<Rightarrow> shared \<times> 'a res) \<Rightarrow> shared \<times> 'a res \<Rightarrow> shared \<times> 'a res" where
  "unless_conflict handler (sh, Inr x) = (sh, Inr x)"
| "unless_conflict handler (sh, Inl e) = (case e of ConcurrentUpdateError m \<Rightarrow> handler m sh | _ \<Rightarrow> (sh, Inl e))"

lemma unless_conflict_Inr:
  "unless_conflict handler (sh, y) = (sh', Inr x) \<longleftrightarrow>
     y = Inr x \<and> sh' = sh \<or> (\<exists>m. y = Inl (ConcurrentUpdateError m) \<and> handler m sh = (sh', Inr x))"
proof (cases y)
  case (Inl e)
  then show ?thesis by (cases e) simp_all
qed auto

definition after_conflict :: "world \<Rightarrow> string \<Rightarrow> string \<Rightarrow> string \<Rightarrow> string \<Rightarrow> shared \<Rightarrow> shared \<times> string res" where
  "after_conflict wd tenant iid key m sh =
     (case shared_read wd (\<lambda>env r. rbind (repo_get r tenant iid) (\<lambda>w. get_node w key)) sh of
        (sh, Inl e) \<Rightarrow> (sh, Inl e)
      | (sh, Inr current) \<Rightarrow>
          (sh, if terminal_node (ni_status current) then Inr ''noops:concurrent_terminal'' else Inl (ConcurrentUpdateError m)))"

definition submit_node ::
    "world \<Rightarrow> inbound_worker \<Rightarrow> task_completion_signal \<Rightarrow> projection_record \<Rightarrow> string \<Rightarrow> node_instance \<Rightarrow> shared
       \<Rightarrow> shared \<times> workflow_instance res" where
  "submit_node wd nw event p iid n = shared_command wd (\<lambda>env r r'.
     service_submit_human env r r' (nw_tenant_id nw) iid (ni_node_key n) (ni_owner_person_id n) (pj_attempt_no p) (ni_version n)
       [(''confirmed'', PBool True)] None (Some (tc_id event)))"

definition submit_completion ::
    "world \<Rightarrow> inbound_worker \<Rightarrow> task_completion_signal \<Rightarrow> projection_record \<Rightarrow> string \<Rightarrow> node_instance \<Rightarrow> shared \<Rightarrow> shared \<times> string res" where
  "submit_completion wd nw event p iid n sh =
     unless_conflict (after_conflict wd (nw_tenant_id nw) iid (ni_node_key n))
       (map_prod id (map_sum id (\<lambda>_. ''submitted:human_node'')) (submit_node wd nw event p iid n sh))"

definition process_event ::
    "world \<Rightarrow> inbound_worker \<Rightarrow> task_completion_signal \<Rightarrow> external_task_state \<Rightarrow> shared \<Rightarrow> shared \<times> string res" where
  "process_event wd nw event t sh =
     (case shared_read wd (\<lambda>env r. get_projection_by_external_id r (nw_tenant_id nw) FEISHU_TASK_KIND (tc_task_guid event)) sh of
        (sh, Inl e) \<Rightarrow> (sh, Inl e)
      | (sh, Inr None) \<Rightarrow> (sh, Inr ''noops:unbound_task'')
      | (sh, Inr (Some p)) \<Rightarrow>
          (case shared_read wd (\<lambda>env r. rbind (repo_get r (nw_tenant_id nw) (pj_instance_id p)) (\<lambda>w.
                  rbind (submission_target w p t) (\<lambda>target. Inr (wi_id w, target)))) sh of
             (sh, Inl e) \<Rightarrow> (sh, Inl e)
           | (sh, Inr (iid, Inl outcome)) \<Rightarrow> (sh, Inr outcome)
           | (sh, Inr (iid, Inr n)) \<Rightarrow> submit_completion wd nw event p iid n sh))"

definition count_outcome :: "string \<Rightarrow> inbound_report \<Rightarrow> inbound_report res" where
  "count_outcome outcome p =
     (let category = takeWhile (\<lambda>c. c \<noteq> CHR '':'') outcome in
      if category = ''submitted'' then Inr (p\<lparr>nr_submitted := nr_submitted p + 1\<rparr>)
      else if category = ''noops'' then Inr (p\<lparr>nr_noops := nr_noops p + 1\<rparr>)
      else if category = ''rejected'' then Inr (p\<lparr>nr_rejected := nr_rejected p + 1\<rparr>)
      else if category = ''failed'' then Inr (p\<lparr>nr_failed := nr_failed p + 1\<rparr>)
      else Inl (KeyError category))"

text \<open>The state of a tick: the inbox, the repository and the report.\<close>

record inbound_tick =
  it_inbox :: inbox_shared
  it_shared :: shared
  it_report :: inbound_report

definition inbound_outcome :: "world \<Rightarrow> inbound_worker \<Rightarrow> inbox_claim \<Rightarrow> shared \<Rightarrow> shared \<times> string res" where
  "inbound_outcome wd nw claim sh = (case ic_task_state claim of
     None \<Rightarrow> (sh, Inl (ValueError ''verified Inbox event has no Task state''))
   | Some t \<Rightarrow> process_event wd nw (ic_event claim) t sh)"

definition inbound_mark ::
    "inbox_world \<Rightarrow> (inbox \<Rightarrow> (inbox \<times> unit) res) \<Rightarrow> inbound_report \<Rightarrow> inbound_tick \<Rightarrow> inbound_tick \<times> unit res" where
  "inbound_mark iw f p tk = (case inbox_call iw (\<lambda>_. f) (it_inbox tk) of
     (s, x) \<Rightarrow> (tk\<lparr>it_inbox := s, it_report := p\<rparr>, x))"

definition work_claim ::
    "inbox_world \<Rightarrow> world \<Rightarrow> inbound_worker \<Rightarrow> time \<Rightarrow> inbox_claim \<Rightarrow> inbound_tick \<Rightarrow> inbound_tick \<times> unit res" where
  "work_claim iw wd nw now claim tk =
     (let eid = tc_id (ic_event claim); token = ic_claim_token claim; p = it_report tk in
      case inbound_outcome wd nw claim (it_shared tk) of
        (sh, Inl e) \<Rightarrow>
          (let err = eid @ '': '' @ nw_describe nw e in
           inbound_mark iw (mark_inbox_failed (nw_tenant_id nw) eid token err
               (now + inbox_retry_delay (nw_retry_base nw) (nw_retry_max nw) (ic_attempt_count claim)))
             (p\<lparr>nr_failed := nr_failed p + 1, nr_errors := nr_errors p @ [err]\<rparr>) (tk\<lparr>it_shared := sh\<rparr>))
      | (sh, Inr outcome) \<Rightarrow>
          (case count_outcome outcome p of
             Inl e \<Rightarrow> (tk\<lparr>it_shared := sh\<rparr>, Inl e)
           | Inr p \<Rightarrow> inbound_mark iw (mark_inbox_processed (nw_tenant_id nw) eid token outcome now) p (tk\<lparr>it_shared := sh\<rparr>)))"

fun work_claims ::
    "inbox_world \<Rightarrow> world \<Rightarrow> inbound_worker \<Rightarrow> time \<Rightarrow> inbox_claim list \<Rightarrow> inbound_tick \<Rightarrow> inbound_tick \<times> unit res" where
  "work_claims iw wd nw now [] tk = (tk, Inr ())"
| "work_claims iw wd nw now (claim # claims) tk = (case work_claim iw wd nw now claim tk of
     (tk, Inl e) \<Rightarrow> (tk, Inl e)
   | (tk, Inr _) \<Rightarrow> work_claims iw wd nw now claims tk)"

definition empty_inbound_report :: "nat \<Rightarrow> inbound_report" where
  "empty_inbound_report n = \<lparr>nr_claimed = n, nr_submitted = 0, nr_noops = 0, nr_rejected = 0, nr_failed = 0, nr_errors = []\<rparr>"

definition inbound_run_once ::
    "inbox_world \<Rightarrow> world \<Rightarrow> inbound_worker \<Rightarrow> time \<Rightarrow> inbox_shared \<Rightarrow> shared \<Rightarrow> inbound_tick \<times> unit res" where
  "inbound_run_once iw wd nw now s sh =
     (case inbox_call iw (\<lambda>tokens. claim_inbox tokens (nw_tenant_id nw) (nw_worker_id nw) now (nw_claim_limit nw) (nw_claim_ttl nw)) s of
        (s, Inl e) \<Rightarrow> (\<lparr>it_inbox = s, it_shared = sh, it_report = empty_inbound_report 0\<rparr>, Inl e)
      | (s, Inr claims) \<Rightarrow> work_claims iw wd nw now claims
          \<lparr>it_inbox = s, it_shared = sh, it_report = empty_inbound_report (length claims)\<rparr>)"

end
