(* ===== verification/Claims.thy ===== *)
theory Claims
  imports Prelude
begin

text \<open>
  A batch of claims writes one record per candidate, the i-th with the i-th token: what the queues of
  the repositories have in common.
\<close>

lemma claim_puts:
  assumes "distinct (map fst cs)"
  shows "(\<forall>i < length cs. dget (fold (\<lambda>(i, k, r). dput k (g i r)) (enumerate n cs) ib) (fst (cs ! i)) = Some (g (n + i) (snd (cs ! i)))) \<and>
     (\<forall>k. k \<notin> fst ` set cs \<longrightarrow> dget (fold (\<lambda>(i, k, r). dput k (g i r)) (enumerate n cs) ib) k = dget ib k)"
  using assms
proof (induction cs arbitrary: n ib)
  case (Cons c cs)
  obtain k r where c: "c = (k, r)" by (cases c)
  let ?ib = "dput k (g n r) ib"
  let ?f = "fold (\<lambda>(i, k, r). dput k (g i r)) (enumerate (Suc n) cs) ?ib"
  from Cons.prems have new: "k \<notin> fst ` set cs" and d: "distinct (map fst cs)" by (simp_all add: c)
  note IH = Cons.IH [OF d, of "Suc n" ?ib]
  have f: "fold (\<lambda>(i, k, r). dput k (g i r)) (enumerate n (c # cs)) ib = ?f" by (simp add: c)
  have "dget ?f (fst ((c # cs) ! i)) = Some (g (n + i) (snd ((c # cs) ! i)))" if "i < length (c # cs)" for i
  proof (cases i)
    case 0
    have "dget ?f k = dget ?ib k" using IH new by blast
    with 0 show ?thesis by (simp add: c dget_dput)
  next
    case (Suc j)
    with that have "dget ?f (fst (cs ! j)) = Some (g (Suc n + j) (snd (cs ! j)))" using IH by simp
    with Suc show ?thesis by simp
  qed
  moreover have "dget ?f j = dget ib j" if "j \<notin> fst ` set (c # cs)" for j
  proof -
    from that have j: "j \<notin> fst ` set cs" "j \<noteq> k" by (auto simp: c)
    have "dget ?f j = dget ?ib j" using IH j(1) by blast
    with j(2) show ?thesis by (simp add: dget_dput)
  qed
  ultimately show ?case unfolding f by blast
qed simp

lemma claim_puts_distinct:
  "distinct (dkeys ib) \<Longrightarrow> distinct (dkeys (fold (\<lambda>(i, k, r). dput k (g i r)) cs ib))"
  by (induction cs arbitrary: ib) (auto simp: distinct_dkeys_dput)

end
