(* ===== verification/Inbox_Theorems.thy ===== *)
theory Inbox_Theorems
  imports Inbox_Workers Claims
begin

text \<open>
  The life of a record of the inbox as a state machine of its own, and the inbox as a family of such
  records, each of which only takes steps of the machine whatever the processes do.
\<close>

section \<open>The machine of a record\<close>

inductive record_step :: "inbox_record \<Rightarrow> inbox_record \<Rightarrow> bool" where
  kept: "record_step r r"
| verifying: "verifiable r now \<Longrightarrow> record_step r (claim_inbox_record X_VERIFYING worker token expires r)"
| processing: "processable r now \<Longrightarrow> record_step r (claim_inbox_record X_PROCESSING worker token expires r)"
| verified: "ir_status r = X_VERIFYING \<Longrightarrow>
    record_step r (unclaimed (r\<lparr>ir_status := X_VERIFIED, ir_available_at := now, ir_task_state := Some state, ir_last_error := None,
      ir_failure_stage := None\<rparr>))"
| verification_failed: "ir_status r = X_VERIFYING \<Longrightarrow>
    record_step r (unclaimed (r\<lparr>ir_status := X_FAILED, ir_available_at := retry_at, ir_last_error := Some err,
      ir_failure_stage := Some ''verification''\<rparr>))"
| exhausted: "ir_status r = X_VERIFYING \<Longrightarrow>
    record_step r (unclaimed (r\<lparr>ir_status := X_EXHAUSTED, ir_available_at := now, ir_processed_at := Some now,
      ir_outcome := Some ''exhausted:verification_attempts'', ir_last_error := Some err, ir_failure_stage := Some ''verification''\<rparr>))"
| processed: "ir_status r = X_PROCESSING \<Longrightarrow>
    record_step r (unclaimed (r\<lparr>ir_status := X_PROCESSED, ir_processed_at := Some now, ir_outcome := Some outcome,
      ir_last_error := None, ir_failure_stage := None\<rparr>))"
| failed: "ir_status r = X_PROCESSING \<Longrightarrow>
    record_step r (unclaimed (r\<lparr>ir_status := X_FAILED, ir_available_at := retry_at, ir_last_error := Some err,
      ir_failure_stage := Some ''processing''\<rparr>))"

text \<open>Past the verification, finished, and what holds of a record in each status.\<close>

definition past_verification :: "inbox_record \<Rightarrow> bool" where
  "past_verification r \<longleftrightarrow> ir_status r \<in> {X_VERIFIED, X_PROCESSING, X_PROCESSED} \<or>
     ir_status r = X_FAILED \<and> ir_failure_stage r = Some ''processing''"

definition finished_record :: "inbox_record \<Rightarrow> bool" where
  "finished_record r \<longleftrightarrow> ir_status r \<in> {X_PROCESSED, X_EXHAUSTED}"

definition under_claim :: "inbox_record \<Rightarrow> bool" where
  "under_claim r \<longleftrightarrow> ir_status r \<in> {X_VERIFYING, X_PROCESSING}"

definition record_inv :: "inbox_record \<Rightarrow> bool" where
  "record_inv r \<longleftrightarrow>
     (under_claim r \<longleftrightarrow> ir_claim_token r \<noteq> None) \<and> (under_claim r \<longleftrightarrow> ir_claimed_by r \<noteq> None) \<and>
     (under_claim r \<longleftrightarrow> ir_claim_expires_at r \<noteq> None) \<and>
     (past_verification r \<longleftrightarrow> ir_task_state r \<noteq> None) \<and>
     (finished_record r \<longleftrightarrow> ir_outcome r \<noteq> None) \<and> (finished_record r \<longleftrightarrow> ir_processed_at r \<noteq> None) \<and>
     (ir_status r = X_FAILED \<longrightarrow> ir_failure_stage r \<in> {Some ''verification'', Some ''processing''}) \<and>
     0 \<le> ir_attempt_count r \<and> (ir_attempt_count r = 0 \<longleftrightarrow> ir_status r = X_PENDING)"

lemmas record_defs = past_verification_def finished_record_def under_claim_def unclaimed_def claim_inbox_record_def

lemma verifiable_status: "verifiable r now \<Longrightarrow> ir_status r \<in> {X_PENDING, X_VERIFYING} \<or>
    ir_status r = X_FAILED \<and> ir_failure_stage r = Some ''verification''"
  by (auto simp: verifiable_def split: if_splits)

lemma processable_status: "processable r now \<Longrightarrow> ir_status r \<in> {X_VERIFIED, X_PROCESSING} \<or>
    ir_status r = X_FAILED \<and> ir_failure_stage r = Some ''processing''"
  by (auto simp: processable_def split: if_splits)

lemma stages_differ: "(Some ''verification'' = Some ''processing'') = False" "(Some ''processing'' = Some ''verification'') = False"
  by simp_all

lemma record_step_inv: "record_step r r' \<Longrightarrow> record_inv r \<Longrightarrow> record_inv r'"
proof (induction rule: record_step.induct)
  case (kept r)
  then show ?case by assumption
next
  case (verifying r now worker token expires)
  from verifiable_status [OF verifying.hyps] verifying.prems show ?case
    by (elim disjE conjE insertE emptyE) (simp_all add: record_inv_def record_defs)
next
  case (processing r now worker token expires)
  from processable_status [OF processing.hyps] processing.prems show ?case
    by (elim disjE conjE insertE emptyE) (simp_all add: record_inv_def record_defs)
qed (simp_all add: record_inv_def record_defs)

lemma new_record_inv: "record_inv (new_inbox_record event)"
  by (simp add: record_inv_def record_defs new_inbox_record_def)

text \<open>What a record keeps for ever.\<close>

definition record_later :: "inbox_record \<Rightarrow> inbox_record \<Rightarrow> bool" where
  "record_later r r' \<longleftrightarrow> ir_event r' = ir_event r \<and> ir_attempt_count r \<le> ir_attempt_count r' \<and>
     (finished_record r \<longrightarrow> r' = r) \<and> (past_verification r \<longrightarrow> past_verification r' \<and> ir_task_state r' = ir_task_state r)"

lemma record_later_refl [simp]: "record_later r r"
  by (simp add: record_later_def)

lemma record_later_trans: "record_later a b \<Longrightarrow> record_later b c \<Longrightarrow> record_later a c"
  by (auto simp: record_later_def)

lemma record_step_later: "record_step r r' \<Longrightarrow> record_later r r'"
proof (induction rule: record_step.induct)
  case (verifying r now worker token expires)
  from verifiable_status [OF verifying.hyps] show ?case
    by (elim disjE conjE insertE emptyE) (simp_all add: record_later_def record_defs)
next
  case (processing r now worker token expires)
  from processable_status [OF processing.hyps] show ?case
    by (elim disjE conjE insertE emptyE) (simp_all add: record_later_def record_defs)
qed (simp_all add: record_later_def record_defs)

section \<open>Claims\<close>

lemma inbox_candidates_props:
  assumes "distinct (dkeys ib)"
  shows "distinct (map fst (inbox_candidates p tenant now ib))"
    and "(k, r) \<in> set (inbox_candidates p tenant now ib) \<longleftrightarrow> dget ib k = Some r \<and> fst k = tenant \<and> p r now"
proof -
  let ?xs = "filter (\<lambda>((t, _), r). t = tenant \<and> p r now) ib"
  have "distinct (map fst ?xs)" using assms by (rule distinct_map_filter)
  then have "distinct ?xs" "inj_on fst (set ?xs)" by (auto simp: distinct_map)
  then show "distinct (map fst (inbox_candidates p tenant now ib))"
    unfolding inbox_candidates_def by (simp only: distinct_map distinct_sort set_sort simp_thms)
  have "(k, r) \<in> set ib \<longleftrightarrow> dget ib k = Some r" using assms by (simp add: map_of_eq_Some_iff)
  then show "(k, r) \<in> set (inbox_candidates p tenant now ib) \<longleftrightarrow> dget ib k = Some r \<and> fst k = tenant \<and> p r now"
    unfolding inbox_candidates_def by (cases k) auto
qed

text \<open>A claim takes due records of its tenant, each once, and changes nothing else.\<close>

lemma claim_as_spec:
  assumes "claim_as st p tokens tenant worker now limit ttl ib = Inr (ib', claims)" and dis: "distinct (dkeys ib)"
  obtains cs where "distinct (map fst cs)" "length cs \<le> nat limit" "0 < ttl"
    "\<And>k r. (k, r) \<in> set cs \<Longrightarrow> dget ib k = Some r \<and> fst k = tenant \<and> p r now"
    "claims = map (\<lambda>(i, k, r). inbox_claim_of worker (tokens i) (now + ttl) r) (enumerate 0 cs)"
    "\<And>i. i < length cs \<Longrightarrow> dget ib' (fst (cs ! i)) = Some (claim_inbox_record st worker (tokens i) (now + ttl) (snd (cs ! i)))"
    "\<And>k. k \<notin> fst ` set cs \<Longrightarrow> dget ib' k = dget ib k" "distinct (dkeys ib')"
proof -
  let ?all = "inbox_candidates p tenant now ib"
  let ?cs = "take (nat limit) ?all"
  let ?g = "\<lambda>i. claim_inbox_record st worker (tokens i) (now + ttl)"
  have v: "validate_inbox_claim worker limit ttl = Inr ()"
    and ib': "ib' = fold (\<lambda>(i, k, r). dput k (?g i r)) (enumerate 0 ?cs) ib"
    and claims: "claims = map (\<lambda>(i, k, r). inbox_claim_of worker (tokens i) (now + ttl) r) (enumerate 0 ?cs)"
    using assms(1) by (auto simp: claim_as_def rbind_Inr_iff Let_def)
  have d: "distinct (map fst ?cs)" using inbox_candidates_props(1) [OF dis] by (simp add: take_map [symmetric])
  note puts = claim_puts [OF d, of ?g 0 ib, folded ib']
  show thesis
  proof (rule that [OF d])
    show "length ?cs \<le> nat limit" by simp
    show "0 < ttl" using v by (auto simp: validate_inbox_claim_def rbind_Inr_iff ensure_Inr_iff)
    show "dget ib k = Some r \<and> fst k = tenant \<and> p r now" if "(k, r) \<in> set ?cs" for k r
      using in_set_takeD [OF that] inbox_candidates_props(2) [OF dis] by blast
    show "claims = map (\<lambda>(i, k, r). inbox_claim_of worker (tokens i) (now + ttl) r) (enumerate 0 ?cs)" by (rule claims)
    show "dget ib' (fst (?cs ! i)) = Some (?g i (snd (?cs ! i)))" if "i < length ?cs" for i using puts that by auto
    show "dget ib' k = dget ib k" if "k \<notin> fst ` set ?cs" for k using puts that by blast
    show "distinct (dkeys ib')" unfolding ib' by (rule claim_puts_distinct [OF dis])
  qed
qed

section \<open>The inbox\<close>

text \<open>The operations of the processes on the inbox.\<close>

inductive inbox_step :: "inbox \<Rightarrow> inbox \<Rightarrow> bool" where
  append: "inbox_step ib (fst (append_inbox event ib))"
| claim: "claim_inbox tokens tenant worker now limit ttl ib = Inr (ib', claims) \<Longrightarrow> inbox_step ib ib'"
| claim_verification: "claim_inbox_verification tokens tenant worker now limit ttl ib = Inr (ib', claims) \<Longrightarrow> inbox_step ib ib'"
| mark_verified: "mark_inbox_verified tenant eid token state now ib = Inr (ib', u) \<Longrightarrow> inbox_step ib ib'"
| mark_verification_failed: "mark_inbox_verification_failed tenant eid token err retry_at ib = Inr (ib', u) \<Longrightarrow> inbox_step ib ib'"
| mark_exhausted: "mark_inbox_verification_exhausted tenant eid token err now ib = Inr (ib', u) \<Longrightarrow> inbox_step ib ib'"
| mark_processed: "mark_inbox_processed tenant eid token outcome now ib = Inr (ib', u) \<Longrightarrow> inbox_step ib ib'"
| mark_failed: "mark_inbox_failed tenant eid token err retry_at ib = Inr (ib', u) \<Longrightarrow> inbox_step ib ib'"

text \<open>What a step may do: records take steps of their machine, new ones are made of events, under their key.\<close>

definition records_step :: "inbox \<Rightarrow> inbox \<Rightarrow> bool" where
  "records_step ib ib' \<longleftrightarrow> distinct (dkeys ib') \<and>
     (\<forall>k r. dget ib k = Some r \<longrightarrow> (\<exists>r'. dget ib' k = Some r' \<and> record_step r r')) \<and>
     (\<forall>k r'. dget ib k = None \<longrightarrow> dget ib' k = Some r' \<longrightarrow>
        (\<exists>event. r' = new_inbox_record event \<and> k = (tc_tenant_id event, tc_id event)))"

lemma records_stepI:
  assumes "distinct (dkeys ib')"
    and "\<And>k r. dget ib k = Some r \<Longrightarrow> \<exists>r'. dget ib' k = Some r' \<and> record_step r r'"
    and "\<And>k r'. dget ib k = None \<Longrightarrow> dget ib' k = Some r' \<Longrightarrow>
      \<exists>event. r' = new_inbox_record event \<and> k = (tc_tenant_id event, tc_id event)"
  shows "records_step ib ib'"
  using assms unfolding records_step_def by blast

lemma records_stepD:
  "records_step ib ib' \<Longrightarrow> dget ib' k = Some r' \<Longrightarrow> dget ib k = Some r \<Longrightarrow> record_step r r'"
  "records_step ib ib' \<Longrightarrow> dget ib' k = Some r' \<Longrightarrow> dget ib k = None \<Longrightarrow>
     \<exists>event. r' = new_inbox_record event \<and> k = (tc_tenant_id event, tc_id event)"
  unfolding records_step_def by (metis option.inject) blast

lemma records_step_refl: "distinct (dkeys ib) \<Longrightarrow> records_step ib ib"
  using record_step.kept by (auto simp: records_step_def)

lemma records_step_put:
  assumes "distinct (dkeys ib)" and "dget ib k = Some r" and "record_step r r'"
  shows "records_step ib (dput k r' ib)"
proof (rule records_stepI)
  show "\<exists>t'. dget (dput k r' ib) j = Some t' \<and> record_step t t'" if "dget ib j = Some t" for j t
    using that assms(2,3) record_step.kept by (cases "j = k") (simp_all add: dget_dput)
  show "\<exists>event. t' = new_inbox_record event \<and> j = (tc_tenant_id event, tc_id event)"
    if "dget ib j = None" "dget (dput k r' ib) j = Some t'" for j t'
    using that assms(2) by (cases "j = k") (simp_all add: dget_dput)
qed (rule distinct_dkeys_dput [OF assms(1)])

lemma append_records_step:
  assumes "distinct (dkeys ib)"
  shows "records_step ib (fst (append_inbox event ib))"
proof (cases "dget ib (tc_tenant_id event, tc_id event)")
  case None
  then have new: "fst (append_inbox event ib) = dput (tc_tenant_id event, tc_id event) (new_inbox_record event) ib"
    by (simp add: append_inbox_def)
  show ?thesis unfolding new
  proof (rule records_stepI)
    show "\<exists>r'. dget (dput (tc_tenant_id event, tc_id event) (new_inbox_record event) ib) k = Some r' \<and> record_step r r'"
      if "dget ib k = Some r" for k r
    proof -
      have "k \<noteq> (tc_tenant_id event, tc_id event)" using None that by force
      with that record_step.kept show ?thesis by (simp only: dget_dput if_False option.inject ex_simps simp_thms)
    qed
    show "\<exists>e. r' = new_inbox_record e \<and> k = (tc_tenant_id e, tc_id e)"
      if "dget (dput (tc_tenant_id event, tc_id event) (new_inbox_record event) ib) k = Some r'" "dget ib k = None" for k r'
      using that by (simp only: dget_dput option.distinct split: if_splits) blast
  qed (rule distinct_dkeys_dput [OF assms])
qed (simp add: append_inbox_def records_step_refl [OF assms])

lemma claim_records_step:
  assumes "claim_as st p tokens tenant worker now limit ttl ib = Inr (ib', claims)" and dis: "distinct (dkeys ib)"
    and step: "\<And>r now token expires. p r now \<Longrightarrow> record_step r (claim_inbox_record st worker token expires r)"
  shows "records_step ib ib'"
  using assms(1) dis
proof (rule claim_as_spec, goal_cases)
  case (1 cs)
  have old: "dget ib k = Some r \<and> p r now \<and> dget ib' k = Some (claim_inbox_record st worker (tokens i) (now + ttl) r)"
    if "i < length cs" "cs ! i = (k, r)" for i k r
    using 1(4) [of k r] 1(6) [OF that(1)] that nth_mem [OF that(1)] by simp
  show ?case
  proof (rule records_stepI)
    show "\<exists>r'. dget ib' k = Some r' \<and> record_step r r'" if r: "dget ib k = Some r" for k r
    proof (cases "k \<in> fst ` set cs")
      case True
      then obtain i t where i: "i < length cs" "cs ! i = (k, t)" by (auto simp: in_set_conv_nth)
      from old [OF i] r step show ?thesis by auto
    next
      case False
      with 1(7) r record_step.kept show ?thesis by auto
    qed
    show "\<exists>event. r' = new_inbox_record event \<and> k = (tc_tenant_id event, tc_id event)"
      if "dget ib k = None" "dget ib' k = Some r'" for k r'
      using 1(4,7) that by (cases "k \<in> fst ` set cs") auto
  qed (rule 1(8))
qed

lemma mark_inboxE:
  assumes "mark_inbox expected f tenant eid token ib = Inr (ib', u)"
  obtains r where "dget ib (tenant, eid) = Some r" "ir_status r = expected" "ir_claim_token r = Some token"
    "ib' = dput (tenant, eid) (unclaimed (f r)) ib"
  using assms unfolding mark_inbox_def claimed_inbox_record_def
  by (auto simp: rbind_Inr_iff ensure_Inr_iff get_or_raise_Inr_iff compare_digest_def split: if_splits)

lemma mark_records_step:
  assumes "mark_inbox expected f tenant eid token ib = Inr (ib', u)" and "distinct (dkeys ib)"
    and "\<And>r. ir_status r = expected \<Longrightarrow> record_step r (unclaimed (f r))"
  shows "records_step ib ib'"
  using assms(1)
  by (rule mark_inboxE) (use records_step_put [OF assms(2)] assms(3) in blast)

lemma inbox_step_records:
  assumes "inbox_step ib ib'" and "distinct (dkeys ib)"
  shows "records_step ib ib'"
  using assms
proof (induction rule: inbox_step.induct)
  case (append ib event)
  then show ?case by (rule append_records_step)
next
  case (claim tokens tenant worker now limit ttl ib ib' claims)
  then show ?case unfolding claim_inbox_def by (rule claim_records_step) (rule record_step.processing)
next
  case (claim_verification tokens tenant worker now limit ttl ib ib' claims)
  then show ?case unfolding claim_inbox_verification_def by (rule claim_records_step) (rule record_step.verifying)
next
  case (mark_verified tenant eid token state now ib ib' u)
  then show ?case unfolding mark_inbox_verified_def by (rule mark_records_step) (rule record_step.verified)
next
  case (mark_verification_failed tenant eid token err retry_at ib ib' u)
  then show ?case unfolding mark_inbox_verification_failed_def by (rule mark_records_step) (rule record_step.verification_failed)
next
  case (mark_exhausted tenant eid token err now ib ib' u)
  then show ?case unfolding mark_inbox_verification_exhausted_def by (rule mark_records_step) (rule record_step.exhausted)
next
  case (mark_processed tenant eid token outcome now ib ib' u)
  then show ?case unfolding mark_inbox_processed_def by (rule mark_records_step) (rule record_step.processed)
next
  case (mark_failed tenant eid token err retry_at ib ib' u)
  then show ?case unfolding mark_inbox_failed_def by (rule mark_records_step) (rule record_step.failed)
qed

section \<open>Reachable inboxes\<close>

definition inbox_inv :: "inbox \<Rightarrow> bool" where
  "inbox_inv ib \<longleftrightarrow> distinct (dkeys ib) \<and>
     (\<forall>k r. dget ib k = Some r \<longrightarrow> record_inv r \<and> k = (tc_tenant_id (ir_event r), tc_id (ir_event r)))"

lemma inbox_invD:
  "inbox_inv ib \<Longrightarrow> dget ib k = Some r \<Longrightarrow> record_inv r \<and> k = (tc_tenant_id (ir_event r), tc_id (ir_event r))"
  unfolding inbox_inv_def by blast

lemma inbox_step_inv:
  assumes "inbox_step ib ib'" and "inbox_inv ib"
  shows "inbox_inv ib'"
proof -
  have s: "records_step ib ib'" using assms by (simp add: inbox_step_records inbox_inv_def)
  have "record_inv r' \<and> k = (tc_tenant_id (ir_event r'), tc_id (ir_event r'))" if r': "dget ib' k = Some r'" for k r'
  proof (cases "dget ib k")
    case None
    with records_stepD(2) [OF s r'] obtain event where "r' = new_inbox_record event" "k = (tc_tenant_id event, tc_id event)"
      by blast
    then show ?thesis by (simp add: new_record_inv) (simp add: new_inbox_record_def)
  next
    case (Some r)
    with records_stepD(1) [OF s r'] have step: "record_step r r'" by blast
    then have "ir_event r' = ir_event r" using record_step_later by (simp add: record_later_def)
    with step record_step_inv inbox_invD [OF assms(2) Some] show ?thesis by simp
  qed
  with s show ?thesis unfolding inbox_inv_def records_step_def by blast
qed

lemma inbox_inv_empty: "inbox_inv []"
  by (simp add: inbox_inv_def)

lemma inbox_reachable_inv: "inbox_step\<^sup>*\<^sup>* ib ib' \<Longrightarrow> inbox_inv ib \<Longrightarrow> inbox_inv ib'"
  by (induction rule: rtranclp_induct) (auto intro: inbox_step_inv)

lemma inbox_steps_later:
  assumes "inbox_step\<^sup>*\<^sup>* ib ib'" and "inbox_inv ib" and "dget ib k = Some r"
  obtains r' where "dget ib' k = Some r'" "record_later r r'"
  using assms
proof (induction arbitrary: thesis rule: rtranclp_induct)
  case base
  then show ?case using record_later_refl by blast
next
  case (step y z)
  obtain s where s: "dget y k = Some s" "record_later r s" using step.IH step.prems(2,3) by blast
  have "inbox_inv y" by (rule inbox_reachable_inv [OF step.hyps(1) step.prems(2)])
  then have "records_step y z" using inbox_step_records [OF step.hyps(2)] by (simp add: inbox_inv_def)
  with s(1) obtain r' where "dget z k = Some r'" "record_step s r'" unfolding records_step_def by blast
  with step.prems(1) s(2) show ?case using record_later_trans record_step_later by blast
qed

section \<open>The workers\<close>

text \<open>The other processes only use the operations of the inbox.\<close>

definition others_use_inbox :: "inbox_world \<Rightarrow> bool" where
  "others_use_inbox iw \<longleftrightarrow> (\<forall>n ib. inbox_step\<^sup>*\<^sup>* ib (iw_others iw n ib))"

lemma inbox_call_steps:
  assumes "others_use_inbox iw" and "\<And>tokens ib ib' x. f tokens ib = Inr (ib', x) \<Longrightarrow> inbox_step ib ib'"
  shows "inbox_step\<^sup>*\<^sup>* (ib_inbox s) (ib_inbox (fst (inbox_call iw f s)))"
proof -
  let ?ib = "iw_others iw (ib_turn s) (ib_inbox s)"
  have o: "inbox_step\<^sup>*\<^sup>* (ib_inbox s) ?ib" using assms(1) by (simp add: others_use_inbox_def)
  show ?thesis
  proof (cases "f (iw_tokens iw (ib_turn s + 1)) ?ib")
    case (Inl e)
    with o show ?thesis by (simp add: inbox_call_def Let_def)
  next
    case (Inr q)
    obtain ib' x where q: "q = (ib', x)" by (cases q)
    from o assms(2) [OF Inr [unfolded q]] have "inbox_step\<^sup>*\<^sup>* (ib_inbox s) ib'" by (rule rtranclp.rtrancl_into_rtrancl)
    with Inr show ?thesis by (simp add: inbox_call_def Let_def q)
  qed
qed

lemma inbox_call_steps_after:
  assumes "inbox_call iw f s = (s', y)" and "inbox_step\<^sup>*\<^sup>* ib0 (ib_inbox s)" and "others_use_inbox iw"
    and "\<And>tokens ib ib' x. f tokens ib = Inr (ib', x) \<Longrightarrow> inbox_step ib ib'"
  shows "inbox_step\<^sup>*\<^sup>* ib0 (ib_inbox s')"
  using rtranclp_trans [OF assms(2) inbox_call_steps [OF assms(3), of f s, OF assms(4)]] assms(1) by simp

lemma submission_command: "service_submit_human env r r' tenant iid key actor no v result quality corr = Inr (r1, x) \<Longrightarrow> command r r' r1"
  by (rule command.intros)

lemma submit_node_history:
  "others_are_commands wd \<Longrightarrow> history (sh_states sh) \<Longrightarrow> history (sh_states (fst (submit_node wd nw event p iid n sh)))"
  unfolding submit_node_def by (rule shared_command_history, assumption, assumption, rule submission_command)

lemma fst_unless_conflict: "fst (unless_conflict handler (sh, y)) \<in> insert sh {fst (handler m sh) | m. True}"
proof (cases y)
  case (Inl e)
  then show ?thesis by (cases e) auto
qed simp

lemma after_conflict_history:
  assumes "others_are_commands wd" and "history (sh_states sh)"
  shows "history (sh_states (fst (after_conflict wd tenant iid key m sh)))"
proof -
  let ?g = "\<lambda>env r. rbind (repo_get r tenant iid) (\<lambda>w. get_node w key)"
  obtain sh1 y where r: "shared_read wd ?g sh = (sh1, y)" by (cases "shared_read wd ?g sh")
  have "fst (after_conflict wd tenant iid key m sh) = sh1" unfolding after_conflict_def r by (cases y) simp_all
  with shared_read_after [OF r assms] show ?thesis by simp
qed

lemma submit_completion_history:
  assumes "others_are_commands wd" and "history (sh_states sh)"
  shows "history (sh_states (fst (submit_completion wd nw event p iid n sh)))"
proof -
  obtain sh1 y where s: "submit_node wd nw event p iid n sh = (sh1, y)" by (cases "submit_node wd nw event p iid n sh")
  have h: "history (sh_states sh1)" using submit_node_history [OF assms, of nw event p iid n] s by simp
  have "submit_completion wd nw event p iid n sh = unless_conflict (after_conflict wd (nw_tenant_id nw) iid (ni_node_key n))
      (sh1, map_sum id (\<lambda>_. ''submitted:human_node'') y)" by (simp add: submit_completion_def s)
  with fst_unless_conflict [of "after_conflict wd (nw_tenant_id nw) iid (ni_node_key n)" sh1 "map_sum id (\<lambda>_. ''submitted:human_node'') y"]
  show ?thesis using h after_conflict_history [OF assms(1) h] by auto
qed

lemma process_event_history:
  assumes "others_are_commands wd" and "history (sh_states sh)"
  shows "history (sh_states (fst (process_event wd nw event t sh)))"
proof -
  let ?f = "\<lambda>env r. get_projection_by_external_id r (nw_tenant_id nw) FEISHU_TASK_KIND (tc_task_guid event)"
  obtain sh1 y where c: "shared_read wd ?f sh = (sh1, y)" by (cases "shared_read wd ?f sh")
  have h: "history (sh_states sh1)" by (rule shared_read_after [OF c assms])
  show ?thesis
  proof (cases y)
    case (Inl e)
    with h show ?thesis by (simp add: process_event_def c)
  next
    case (Inr q)
    show ?thesis
    proof (cases q)
      case None
      with Inr h show ?thesis by (simp add: process_event_def c)
    next
      case (Some p)
      let ?g = "\<lambda>env r. rbind (repo_get r (nw_tenant_id nw) (pj_instance_id p)) (\<lambda>w.
                  rbind (submission_target w p t) (\<lambda>target. Inr (wi_id w, target)))"
      obtain sh2 z where g: "shared_read wd ?g sh1 = (sh2, z)" by (cases "shared_read wd ?g sh1")
      have h2: "history (sh_states sh2)" by (rule shared_read_after [OF g assms(1) h])
      with Inr Some submit_completion_history [OF assms(1) h2] show ?thesis
        by (cases z) (simp_all add: process_event_def c g split: sum.split prod.split)
    qed
  qed
qed

text \<open>What a tick keeps: the repository has a history, the inbox takes steps from where it started.\<close>

definition tick_ok :: "inbox \<Rightarrow> inbound_tick \<Rightarrow> bool" where
  "tick_ok ib tk \<longleftrightarrow> history (sh_states (it_shared tk)) \<and> inbox_step\<^sup>*\<^sup>* ib (ib_inbox (it_inbox tk))"

lemma inbound_mark_ok:
  assumes "inbound_mark iw f p tk = (tk', y)" and "tick_ok ib tk" and "others_use_inbox iw"
    and "\<And>ib ib' x. f ib = Inr (ib', x) \<Longrightarrow> inbox_step ib ib'"
  shows "tick_ok ib tk'"
proof -
  obtain s z where c: "inbox_call iw (\<lambda>_. f) (it_inbox tk) = (s, z)" by (cases "inbox_call iw (\<lambda>_. f) (it_inbox tk)")
  have "inbox_step\<^sup>*\<^sup>* ib (ib_inbox s)"
    by (rule inbox_call_steps_after [OF c _ assms(3,4)]) (use assms(2) in \<open>simp add: tick_ok_def\<close>)
  moreover have "tk' = tk\<lparr>it_inbox := s, it_report := p\<rparr>" using assms(1) by (simp add: inbound_mark_def c)
  ultimately show ?thesis using assms(2) by (simp add: tick_ok_def)
qed

lemma inbound_outcome_history:
  assumes "inbound_outcome wd nw c sh = (sh', y)" and "others_are_commands wd" and "history (sh_states sh)"
  shows "history (sh_states sh')"
  using assms process_event_history [OF assms(2,3), of nw "ic_event c"]
  by (cases "ic_task_state c") (simp_all add: inbound_outcome_def, metis fst_conv)

lemma work_claim_ok:
  assumes "work_claim iw wd nw now c tk = (tk', y)" and "tick_ok ib tk" and "others_use_inbox iw" and "others_are_commands wd"
  shows "tick_ok ib tk'"
proof -
  obtain sh z where o: "inbound_outcome wd nw c (it_shared tk) = (sh, z)" by (cases "inbound_outcome wd nw c (it_shared tk)")
  have "history (sh_states sh)"
    by (rule inbound_outcome_history [OF o assms(4)]) (use assms(2) in \<open>simp add: tick_ok_def\<close>)
  then have tk: "tick_ok ib (tk\<lparr>it_shared := sh\<rparr>)" using assms(2) by (simp add: tick_ok_def)
  show ?thesis
  proof (cases z)
    case (Inl e)
    show ?thesis using assms(1) unfolding work_claim_def o Let_def prod.case sum.case Inl
      by (rule inbound_mark_ok [OF _ tk assms(3)]) (rule inbox_step.mark_failed)
  next
    case (Inr outcome)
    show ?thesis
    proof (cases "count_outcome outcome (it_report tk)")
      case (Inl e)
      with assms(1) tk show ?thesis by (simp add: work_claim_def o Inr)
    next
      case (Inr p)
      show ?thesis using assms(1) unfolding work_claim_def o Let_def prod.case sum.case \<open>z = Inr outcome\<close> Inr
        by (rule inbound_mark_ok [OF _ tk assms(3)]) (rule inbox_step.mark_processed)
    qed
  qed
qed

lemma work_claims_ok:
  assumes "work_claims iw wd nw now cs tk = (tk', y)" and "tick_ok ib tk" and "others_use_inbox iw" and "others_are_commands wd"
  shows "tick_ok ib tk'"
  using assms(1,2)
proof (induction cs arbitrary: tk)
  case (Cons c cs)
  obtain tk1 z where w: "work_claim iw wd nw now c tk = (tk1, z)" by (cases "work_claim iw wd nw now c tk")
  have "tick_ok ib tk1" by (rule work_claim_ok [OF w Cons.prems(2) assms(3,4)])
  with Cons.IH [of tk1] Cons.prems(1) show ?case by (cases z) (simp_all add: w)
qed simp

lemma inbound_run_once_ok:
  assumes "others_use_inbox iw" and "others_are_commands wd" and "history (sh_states sh)"
  shows "tick_ok (ib_inbox s) (fst (inbound_run_once iw wd nw now s sh))"
proof -
  let ?f = "\<lambda>tokens. claim_inbox tokens (nw_tenant_id nw) (nw_worker_id nw) now (nw_claim_limit nw) (nw_claim_ttl nw)"
  obtain s' y where c: "inbox_call iw ?f s = (s', y)" by (cases "inbox_call iw ?f s")
  have st: "inbox_step\<^sup>*\<^sup>* (ib_inbox s) (ib_inbox s')"
    by (rule inbox_call_steps_after [OF c rtranclp.rtrancl_refl assms(1)]) (rule inbox_step.claim)
  show ?thesis
  proof (cases y)
    case (Inl e)
    with st assms(3) show ?thesis by (simp add: inbound_run_once_def c tick_ok_def)
  next
    case (Inr claims)
    let ?tk = "\<lparr>it_inbox = s', it_shared = sh, it_report = empty_inbound_report (length claims)\<rparr>"
    obtain tk' z where w: "work_claims iw wd nw now claims ?tk = (tk', z)" by (cases "work_claims iw wd nw now claims ?tk")
    have "tick_ok (ib_inbox s) tk'" by (rule work_claims_ok [OF w _ assms(1,2)]) (use st assms(3) in \<open>simp add: tick_ok_def\<close>)
    with Inr w show ?thesis by (simp add: inbound_run_once_def c)
  qed
qed

end
