(* ===== verification/Inbox_Demo.thy ===== *)
theory Inbox_Demo
  imports Inbox_Theorems Demo
begin

text \<open>
  A small example of a completion: a process of one human node, whose Feishu task is done by its owner,
  and the inbox while the event is appended, verified and claimed for processing.
\<close>

definition demo_signal :: task_completion_signal where
  "demo_signal = \<lparr>tc_id = ''e1'', tc_tenant_id = ''acme'', tc_task_guid = ''g1'', tc_event_types = [TASK_COMPLETED_UPDATE],
     tc_occurred_at = 4, tc_received_at = 5, tc_source = ''feishu_event_bus'', tc_event_type = TASK_UPDATE_EVENT\<rparr>"

definition demo_task :: external_task_state where
  "demo_task = \<lparr>xt_guid = ''g1'', xt_status = ''done'', xt_mode = Some 1, xt_completed_at = Some ''4'', xt_source = Some 6,
     xt_extra = Some ''key-1'', xt_assignee_ids = [''ann''], xt_completed_assignee_ids = [''ann'']\<rparr>"

section \<open>The inbox\<close>

definition ok_inbox :: "(inbox \<times> 'a) res \<Rightarrow> inbox" where
  "ok_inbox x = (case x of Inl _ \<Rightarrow> [] | Inr (ib, _) \<Rightarrow> ib)"

definition demo_verifying :: "inbox \<Rightarrow> (inbox \<times> inbox_claim list) res" where
  "demo_verifying = claim_inbox_verification (\<lambda>i. ''v'' @ dec_nat i) ''acme'' ''verifier'' 6 20 10"
definition demo_verify :: "inbox \<Rightarrow> (inbox \<times> unit) res" where
  "demo_verify = mark_inbox_verified ''acme'' ''e1'' ''v0'' demo_task 7"

definition demo_ib1 :: inbox where "demo_ib1 = fst (append_inbox demo_signal [])"
definition demo_ib2 :: inbox where "demo_ib2 = ok_inbox (demo_verifying demo_ib1)"
definition demo_ib3 :: inbox where "demo_ib3 = ok_inbox (demo_verify demo_ib2)"

lemma ok_inboxD: "is_ok x \<Longrightarrow> \<exists>y. x = Inr (ok_inbox x, y)"
  by (cases x) (auto simp: ok_inbox_def)

lemma demo_inbox_steps: "inbox_step\<^sup>*\<^sup>* [] demo_ib1" "inbox_step\<^sup>*\<^sup>* demo_ib1 demo_ib3" "inbox_step\<^sup>*\<^sup>* [] demo_ib3"
proof -
  have ok: "is_ok (demo_verifying demo_ib1)" "is_ok (demo_verify demo_ib2)" by code_simp+
  have s1: "inbox_step [] demo_ib1" unfolding demo_ib1_def by (rule inbox_step.append)
  obtain y where "demo_verifying demo_ib1 = Inr (demo_ib2, y)"
    using ok_inboxD [OF ok(1), folded demo_ib2_def] by blast
  then have s2: "inbox_step demo_ib1 demo_ib2" unfolding demo_verifying_def by (rule inbox_step.claim_verification)
  obtain z where "demo_verify demo_ib2 = Inr (demo_ib3, z)" using ok_inboxD [OF ok(2), folded demo_ib3_def] by blast
  then have s3: "inbox_step demo_ib2 demo_ib3" unfolding demo_verify_def by (rule inbox_step.mark_verified)
  show one: "inbox_step\<^sup>*\<^sup>* [] demo_ib1" using s1 by (rule r_into_rtranclp)
  show two: "inbox_step\<^sup>*\<^sup>* demo_ib1 demo_ib3"
    using s2 s3 by (blast intro: rtranclp.intros)
  show "inbox_step\<^sup>*\<^sup>* [] demo_ib3" by (rule rtranclp_trans [OF one two])
qed

lemma demo_inbox_records:
  "case dget demo_ib1 (''acme'', ''e1'') of None \<Rightarrow> False | Some r \<Rightarrow> ir_status r = X_PENDING \<and> ir_attempt_count r = 0"
  "case dget demo_ib3 (''acme'', ''e1'') of None \<Rightarrow> False | Some r \<Rightarrow> ir_status r = X_VERIFIED"
  by code_simp+

section \<open>The process\<close>

definition demo_task_snapshot :: instance_snapshot where
  "demo_task_snapshot = mk_snapshot
     [\<lparr>ns_key = ''call'', ns_title = ''Call'', ns_owner_person_id = ''ann'', ns_executor = HUMAN,
       ns_deps = [], ns_work = [(''objective'', PStr ''call the customer''), (''outputs'', PTuple [PFrozen [(''id'', PStr ''note''), (''type'', PStr ''text''), (''required'', PBool False)]]), (''acceptance'', PTuple [PStr ''called''])]\<rparr>]
     ''publish'' None False [] ''0.2''"

definition demo_projection :: projection_record where
  "demo_projection = \<lparr>pj_id = ''pj1'', pj_tenant_id = ''acme'', pj_instance_id = ''p1'', pj_node_instance_id = node_id_of ''p1'' ''call'',
     pj_attempt_no = 1, pj_kind = FEISHU_TASK_KIND, pj_idempotency_key = ''key-1'', pj_sync_version = 1, pj_state = [],
     pj_created_at = 4, pj_updated_at = 4, pj_external_id = Some ''g1'', pj_external_url = None\<rparr>"

definition demo_t1 :: repository where
  "demo_t1 = ok_store (create_draft (demo_env 1) empty_repository ''p1'' ''acme'' ''ann'' demo_task_snapshot ''ann'' None)"
definition demo_t2 :: repository where
  "demo_t2 = ok_store (confirm_draft (demo_env 2) demo_t1 demo_t1 ''acme'' ''p1'' ''ann'' None)"
definition demo_t3 :: repository where
  "demo_t3 = ok_store (dispatch_due (demo_env 3) demo_t2 demo_t2 ''acme'' ''p1'' ''worker'' 1 None None)"
definition demo_t4 :: repository where
  "demo_t4 = (case save_projection demo_t3 demo_projection of Inl _ \<Rightarrow> demo_t3 | Inr r \<Rightarrow> r)"

lemma demo_task_history: "history [empty_repository, demo_t1, demo_t2, demo_t3, demo_t4]"
proof -
  have ok: "is_ok (create_draft (demo_env 1) empty_repository ''p1'' ''acme'' ''ann'' demo_task_snapshot ''ann'' None)"
    "is_ok (confirm_draft (demo_env 2) demo_t1 demo_t1 ''acme'' ''p1'' ''ann'' None)"
    "is_ok (dispatch_due (demo_env 3) demo_t2 demo_t2 ''acme'' ''p1'' ''worker'' 1 None None)"
    "is_ok (save_projection demo_t3 demo_projection)"
    by code_simp+
  from ok(4) have p: "save_projection demo_t3 demo_projection = Inr demo_t4" by (cases "save_projection demo_t3 demo_projection") (simp_all add: demo_t4_def)
  have c: "command empty_repository empty_repository demo_t1" "command demo_t1 demo_t1 demo_t2" "command demo_t2 demo_t2 demo_t3"
    "command demo_t3 demo_t3 demo_t4"
    using ok(1-3) [THEN ok_storeD] p unfolding demo_t1_def [symmetric] demo_t2_def [symmetric] demo_t3_def [symmetric]
    by (blast intro: command.intros)+
  have h: "history [empty_repository, demo_t1]"
    using history.intros(2) [OF history.intros(1), of empty_repository demo_t1] c(1) by simp
  from history.intros(2) [OF h, of demo_t1 demo_t2] c(2) have h2: "history [empty_repository, demo_t1, demo_t2]" by simp
  from history.intros(2) [OF h2, of demo_t2 demo_t3] c(3) have h3: "history [empty_repository, demo_t1, demo_t2, demo_t3]" by simp
  from history.intros(2) [OF h3, of demo_t3 demo_t4] c(4) show ?thesis by simp
qed

definition demo_task_world :: world where
  "demo_task_world = \<lparr>wd_env = \<lambda>n. demo_env (n + 4), wd_others = \<lambda>n rs. rs\<rparr>"

lemma demo_task_world: "others_are_commands demo_task_world"
  by (simp add: others_are_commands_def demo_task_world_def)

definition demo_inbox_world :: inbox_world where
  "demo_inbox_world = \<lparr>iw_others = \<lambda>n ib. ib, iw_tokens = \<lambda>n i. ''t'' @ dec_nat n\<rparr>"

lemma demo_inbox_world: "others_use_inbox demo_inbox_world"
  by (simp add: others_use_inbox_def demo_inbox_world_def)

definition demo_task_shared :: shared where
  "demo_task_shared = \<lparr>sh_states = [empty_repository, demo_t1, demo_t2, demo_t3, demo_t4], sh_turn = 0\<rparr>"

definition demo_inbound :: inbound_worker where
  "demo_inbound = \<lparr>nw_tenant_id = ''acme'', nw_worker_id = ''inbound'', nw_claim_limit = 20, nw_claim_ttl = 120, nw_retry_base = 5,
     nw_retry_max = 300, nw_describe = \<lambda>e. ''error''\<rparr>"

lemma demo_task_submitted:
  "case process_event demo_task_world demo_inbound demo_signal demo_task demo_task_shared of
     (sh, Inr outcome) \<Rightarrow> outcome = ''submitted:human_node'' | _ \<Rightarrow> False"
  by code_simp

lemma demo_inbound_tick:
  "case inbound_run_once demo_inbox_world demo_task_world demo_inbound 9 \<lparr>ib_inbox = demo_ib3, ib_turn = 0\<rparr> demo_task_shared of
     (tk, y) \<Rightarrow> y = Inr () \<and> it_report tk = \<lparr>nr_claimed = 1, nr_submitted = 1, nr_noops = 0, nr_rejected = 0, nr_failed = 0, nr_errors = []\<rparr>"
  by code_simp

end
