(* ===== verification/Inbox_Properties.thy ===== *)
theory Inbox_Properties
  imports Inbox_Demo
begin

text \<open>
  The properties of the completions of tasks: what is kept of an event, how a record of the inbox can
  evolve, how often it is retried, and on whose behalf human work is submitted.
\<close>

section \<open>The state of a task as JSON\<close>

lemma text_items_PStr: "text_items (PList (map PStr xs)) = Inr xs"
proof -
  have "map py_str (map PStr xs) = xs" by (induction xs) simp_all
  then show ?thesis by (cases xs) (simp_all add: text_items_def)
qed

lemma optional_text_opt: "x \<noteq> Some [] \<Longrightarrow> optional_text (opt_pval PStr x) = x"
  by (cases x) (simp_all add: optional_text_def opt_pval_def)

lemma optional_int_opt: "optional_int to_int (opt_pval PInt x) = x"
  by (cases x) (simp_all add: optional_int_def opt_pval_def)

lemma text_or_empty_PStr: "text_or_empty (PStr s) = s"
  by (cases s) (simp_all add: text_or_empty_def)

text \<open>The state of a task that a verification stores is read back unchanged, as long as its optional texts are
  not empty, whatever \<open>int\<close> makes of other values.\<close>

lemma task_state_round_trip:
  assumes "xt_completed_at t \<noteq> Some []" and "xt_extra t \<noteq> Some []"
  shows "task_state_from_dict to_int (task_state_to_dict t) = Inr t"
  by (simp add: task_state_from_dict_def task_state_to_dict_def get_or_def text_items_PStr optional_text_opt [OF assms(1)]
      optional_text_opt [OF assms(2)] optional_int_opt text_or_empty_PStr)

section \<open>Retries\<close>

lemma retry_delay_pos: "0 < base \<Longrightarrow> base \<le> maximum \<Longrightarrow> base \<le> inbox_retry_delay base maximum n"
  unfolding inbox_retry_delay_def by simp

text \<open>A worker that could be made waits at least its base delay and at most its maximal delay before a retry, never
  less after more attempts; between the two the delay doubles with each attempt.\<close>

lemma retry_delay_bounds:
  assumes "check_worker_config tenant worker limit ttl base maximum = Inr u" and "n \<le> m"
  shows "base \<le> inbox_retry_delay base maximum n \<and> inbox_retry_delay base maximum n \<le> inbox_retry_delay base maximum m \<and>
     inbox_retry_delay base maximum m \<le> maximum \<and>
     (1 \<le> n \<longrightarrow> n \<le> 10 \<longrightarrow> inbox_retry_delay base maximum (n + 1) = min maximum (2 * inbox_retry_delay base maximum n))"
proof -
  have base: "0 < base" "base \<le> maximum" using assms(1) by (simp_all add: check_worker_config_def result_simps)
  have le: "nat (min (max (n - 1) 0) 10) \<le> nat (min (max (m - 1) 0) 10)" using assms(2) by simp
  then have "(2::int) ^ nat (min (max (n - 1) 0) 10) \<le> 2 ^ nat (min (max (m - 1) 0) 10)" by (rule power_increasing) simp
  then have "base * 2 ^ nat (min (max (n - 1) 0) 10) \<le> base * 2 ^ nat (min (max (m - 1) 0) 10)" using base by simp
  moreover have "inbox_retry_delay base maximum (n + 1) = min maximum (2 * inbox_retry_delay base maximum n)"
    if n: "1 \<le> n" "n \<le> 10"
  proof -
    have "nat (min (max (n + 1 - 1) 0) 10) = Suc (nat (min (max (n - 1) 0) 10))" using n by simp
    then show ?thesis using base unfolding inbox_retry_delay_def by (simp add: min_def)
  qed
  ultimately show ?thesis using retry_delay_pos [OF base] unfolding inbox_retry_delay_def by (simp add: min_def)
qed

section \<open>The inbox\<close>

text \<open>In every inbox that the operations reach, a record is stored under the tenant and the id of its event; it is
  claimed exactly while it is verified or processed, it carries a verified task state exactly from the
  end of its verification on, and an outcome exactly when it is finished.\<close>

lemma inbox_records_sound:
  assumes "inbox_step\<^sup>*\<^sup>* [] ib" and "dget ib k = Some r"
  shows "k = (tc_tenant_id (ir_event r), tc_id (ir_event r)) \<and>
     (ir_status r \<in> {X_VERIFYING, X_PROCESSING} \<longleftrightarrow> ir_claim_token r \<noteq> None) \<and>
     (ir_claim_token r \<noteq> None \<longleftrightarrow> ir_claimed_by r \<noteq> None) \<and> (ir_claim_token r \<noteq> None \<longleftrightarrow> ir_claim_expires_at r \<noteq> None) \<and>
     (ir_status r \<in> {X_VERIFIED, X_PROCESSING, X_PROCESSED} \<longrightarrow> ir_task_state r \<noteq> None) \<and>
     (ir_status r \<in> {X_PENDING, X_VERIFYING, X_EXHAUSTED} \<longrightarrow> ir_task_state r = None) \<and>
     (ir_status r \<in> {X_PROCESSED, X_EXHAUSTED} \<longleftrightarrow> ir_outcome r \<noteq> None) \<and>
     (ir_outcome r \<noteq> None \<longleftrightarrow> ir_processed_at r \<noteq> None)"
proof -
  note inv = inbox_invD [OF inbox_reachable_inv [OF assms(1) inbox_inv_empty] assms(2)]
  then have "record_inv r" by (rule conjunct1)
  note parts = this [unfolded record_inv_def under_claim_def finished_record_def]
  have "past_verification r \<longleftrightarrow> ir_task_state r \<noteq> None" using parts by (elim conjE) assumption
  then have "ir_status r \<in> {X_VERIFIED, X_PROCESSING, X_PROCESSED} \<longrightarrow> ir_task_state r \<noteq> None"
    "ir_status r \<in> {X_PENDING, X_VERIFYING, X_EXHAUSTED} \<longrightarrow> ir_task_state r = None"
    unfolding past_verification_def by fastforce+
  then show ?thesis using inv parts by (elim conjE) (intro conjI, assumption, blast+)
qed

text \<open>C38: an event is handled once: a record never disappears and keeps its event, its attempts are only counted up, the
  task state is never changed once it was verified, a finished record never changes again, and to
  append the same event again changes nothing.\<close>

theorem inbox_event_handled_once:
  assumes "inbox_step\<^sup>*\<^sup>* [] ib" and "inbox_step\<^sup>*\<^sup>* ib ib'" and "dget ib k = Some r"
  shows "\<exists>r'. dget ib' k = Some r' \<and> ir_event r' = ir_event r \<and> ir_attempt_count r \<le> ir_attempt_count r' \<and>
     (ir_task_state r \<noteq> None \<longrightarrow> ir_task_state r' = ir_task_state r) \<and> (ir_outcome r \<noteq> None \<longrightarrow> r' = r) \<and>
     append_inbox (ir_event r) ib' = (ib', False)"
proof -
  have inv: "inbox_inv ib" by (rule inbox_reachable_inv [OF assms(1) inbox_inv_empty])
  note r = inbox_invD [OF inv assms(3)]
  from assms(2) inv assms(3) obtain r' where r': "dget ib' k = Some r'" "record_later r r'" by (rule inbox_steps_later)
  have f: "finished_record r \<longleftrightarrow> ir_outcome r \<noteq> None" using conjunct1 [OF r] unfolding record_inv_def by (elim conjE)
  have v: "past_verification r \<longleftrightarrow> ir_task_state r \<noteq> None" using conjunct1 [OF r] unfolding record_inv_def by (elim conjE)
  have "append_inbox (ir_event r) ib' = (ib', False)"
    using r r'(1) by (simp add: append_inbox_def)
  with r' f v show ?thesis unfolding record_later_def by (intro exI [of _ r']) simp
qed

theorem inbox_event_handled_once_witness:
  "\<exists>r r'. dget demo_ib1 (''acme'', ''e1'') = Some r \<and> dget demo_ib3 (''acme'', ''e1'') = Some r' \<and> ir_event r' = ir_event r"
proof -
  obtain r where r: "dget demo_ib1 (''acme'', ''e1'') = Some r"
    using demo_inbox_records(1) by (cases "dget demo_ib1 (''acme'', ''e1'')") simp_all
  from inbox_event_handled_once [OF demo_inbox_steps(1,2) r] r show ?thesis by blast
qed

section \<open>Submissions\<close>

text \<open>The part of an outcome before the colon.\<close>

definition category :: "string \<Rightarrow> string" where
  "category outcome = takeWhile (\<lambda>c. c \<noteq> CHR '':'') outcome"

lemma category_simps:
  "category (''submitted:'' @ x) = ''submitted''" "category (''noops:'' @ x) = ''noops''" "category (''rejected:'' @ x) = ''rejected''"
  by (simp_all add: category_def)

lemma outcome_categories:
  "category ''submitted:human_node'' = ''submitted''" "category ''noops:unbound_task'' = ''noops''"
  "category ''noops:stale_attempt'' = ''noops''" "category ''noops:already_terminal'' = ''noops''"
  "category ''noops:concurrent_terminal'' = ''noops''" "category ''rejected:projection_node_mismatch'' = ''rejected''"
  "category ''rejected:node_not_waiting_human'' = ''rejected''" "category ''rejected:decision_requires_card'' = ''rejected''"
  "category ''rejected:task_requires_deliverable'' = ''rejected''"
  by (simp_all add: category_def)

lemma matching_node:
  assumes "submission_target w p t = Inr y" and "\<And>outcome. y = Inl outcome \<Longrightarrow> category outcome \<noteq> ''rejected''"
  obtains n where "filter (\<lambda>n. ni_id n = pj_node_instance_id p) (map snd (wi_nodes w)) = [n]"
proof (cases "filter (\<lambda>n. ni_id n = pj_node_instance_id p) (map snd (wi_nodes w))")
  case Nil
  with assms(1) have "y = Inl ''rejected:projection_node_mismatch''" by (simp add: submission_target_def)
  with assms(2) show thesis by (simp add: outcome_categories)
next
  case (Cons n ns)
  show thesis
  proof (cases ns)
    case Nil
    with Cons that show thesis by blast
  next
    case (Cons m ms)
    with \<open>filter (\<lambda>n. ni_id n = pj_node_instance_id p) (map snd (wi_nodes w)) = n # ns\<close> assms(1)
    have "y = Inl ''rejected:projection_node_mismatch''" by (simp add: submission_target_def)
    with assms(2) show thesis by (simp add: outcome_categories)
  qed
qed

lemma validate_task_None:
  assumes "validate_task t p owner = Inr None"
  shows "pj_external_id p = Some (xt_guid t) \<and> xt_extra t = Some (pj_idempotency_key p) \<and> xt_source t = Some 6 \<and> xt_mode t = Some 1 \<and>
     xt_status t = ''done'' \<and> xt_assignee_ids t = [owner] \<and> xt_completed_assignee_ids t = [owner]"
  using assms unfolding validate_task_def by (simp add: completion_visible_def split: if_split_asm)

lemma submission_targetE:
  assumes "submission_target w p t = Inr (Inr n)"
  obtains spec where "n \<in> snd ` set (wi_nodes w)" "ni_id n = pj_node_instance_id p" "ni_current_attempt_no n = pj_attempt_no p"
    "ni_status n = N_WAITING_HUMAN" "snapshot_node (wi_snapshot w) (ni_node_key n) = Inr spec" "human_decision_config (ns_work spec) = None"
    "\<not> requires_structured_human_input (ns_work spec)" "validate_task t p (ni_owner_person_id n) = Inr None"
proof -
  from assms obtain m where m: "filter (\<lambda>n. ni_id n = pj_node_instance_id p) (map snd (wi_nodes w)) = [m]"
    by (rule matching_node) simp
  then have "m \<in> set (filter (\<lambda>n. ni_id n = pj_node_instance_id p) (map snd (wi_nodes w)))" by simp
  then have m': "m \<in> snd ` set (wi_nodes w)" "ni_id m = pj_node_instance_id p" by auto
  from assms obtain spec where "m = n" "ni_current_attempt_no n = pj_attempt_no p"
    "ni_status n = N_WAITING_HUMAN" "snapshot_node (wi_snapshot w) (ni_node_key n) = Inr spec" "human_decision_config (ns_work spec) = None"
    "\<not> requires_structured_human_input (ns_work spec)" "validate_task t p (ni_owner_person_id n) = Inr None"
    unfolding submission_target_def m list.case
    by (auto simp: rbind_Inr_iff split: if_split_asm option.split_asm)
  with m' that show thesis by blast
qed

lemma save_completion_stores:
  assumes "save_completion env r' w event actor key no corr payload = Inr (r1, x)"
  shows "\<exists>e. find_instance r1 (instance_key w) = Some (w\<lparr>wi_version := e + 1\<rparr>)"
proof -
  from assms obtain audits outbox r2 where "repo_save r' w (wi_version w) audits outbox = Inr r2" "r1 = r2"
    by (auto simp: save_completion_def save_and_get_def rbind_Inr_iff Let_def split: prod.splits)
  then have "r_instances r1 = dput (instance_key w) (w\<lparr>wi_version := wi_version w + 1\<rparr>) (r_instances r')"
    by (auto simp: repo_save_Inr store_instance_instances)
  then show ?thesis by (auto simp: dget_dput)
qed

text \<open>A successful submission: the node was waiting for its owner, and is done in the state that was saved.\<close>

lemma submitted_state:
  assumes ok: "service_submit_human env r r' tenant iid key actor no v result quality corr = Inr (r1, x)" and inv: "repo_inv r"
  obtains w n w' a where "find_instance r (tenant, iid) = Some w" "node_at w key = Some n" "ni_owner_person_id n = actor"
    "ni_version n = v" "ni_current_attempt_no n = no" "ni_status n = N_WAITING_HUMAN" "ni_id n = node_id_of iid key"
    "find_instance r1 (tenant, iid) = Some w'" "node_statuses w' key = Some N_DONE" "attempt_at w' key no = Some a"
    "na_submitted_by_person_id a = Some actor"
proof -
  obtain w u res w' where get: "repo_get r tenant iid = Inr w" and act: "active w"
    and sub: "submit_human w key actor no v res quality (env_now env) = Inr u" and un: "unlock_after u key (env_now env) = Inr w'"
    and save: "save_completion env r' w' ''node.human_submitted'' (Some actor) key no corr [] = Inr (r1, x)"
    using ok unfolding service_submit_human_def by (elim rbindE) (simp only: require_active_Inr)
  have w: "find_instance r (tenant, iid) = Some w" using get by (simp add: repo_get_def result_simps)
  have wi: "instance_key w = (tenant, iid)" "instance_inv w" using repo_invD [OF inv w] by blast+
  have st: "wi_status w \<in> {I_RUNNING, I_PAUSED}" using act by simp
  have core: "core_inv w" using active_core wi(2) act by blast
  obtain n a n' a' where p: "point w key n a n' a'" "u = pointed w key n n' a'" "ni_owner_person_id n = actor"
    "no = ni_current_attempt_no n" "ni_version n = v" "ni_status n = N_WAITING_HUMAN" "ni_status n' = N_DONE"
    "na_submitted_by_person_id a' = Some actor"
    using submit_human_point [OF core sub] by blast
  have n: "node_at w key = Some n" using p(1) by (simp add: point_def)
  obtain w1 where w1: "unlock_after u key (env_now env) = Inr w1" "wi_attempts w1 = dput (key, no) a' (wi_attempts w)"
    "node_statuses w1 key = Some N_DONE"
    using point_done [OF wi(2) st p(1) _ p(7), of "env_now env"] p by auto
  have w': "w' = w1" using un w1(1) by simp
  have "instance_key w' = instance_key w" by (rule kernel_step_key [OF submit_step [OF act sub un] wi(2)])
  with wi(1) have key: "instance_key w' = (tenant, iid)" by simp
  obtain e where r1: "find_instance r1 (tenant, iid) = Some (w'\<lparr>wi_version := e + 1\<rparr>)"
    using save_completion_stores [OF save] unfolding key by blast
  have "ni_id n = node_id_of (wi_id w) key" using core_inv_node(1) [OF core n] by (simp add: node_ok_def)
  moreover have "wi_id w = iid" using wi(1) by simp
  ultimately have "ni_id n = node_id_of iid key" by simp
  moreover have "node_statuses (w'\<lparr>wi_version := e + 1\<rparr>) key = Some N_DONE" "attempt_at (w'\<lparr>wi_version := e + 1\<rparr>) key no = Some a'"
    using w1(2,3) by (simp_all add: w' node_statuses_fields dget_dput)
  ultimately show thesis using that [OF w n p(3,5) p(4) [symmetric] p(6) _ r1] p(8) by blast
qed

lemma submit_completion_submits:
  assumes "submit_completion wd nw event p iid n sh = (sh', Inr outcome)" and "category outcome = ''submitted''"
  shows "\<exists>x. submit_node wd nw event p iid n sh = (sh', Inr x)"
proof -
  obtain sh1 y where s: "submit_node wd nw event p iid n sh = (sh1, y)" by (cases "submit_node wd nw event p iid n sh")
  have no: "after_conflict wd tenant iid key m sh1 \<noteq> (sh', Inr outcome)" for tenant iid key m
    using assms(2) by (auto simp: after_conflict_def outcome_categories split: prod.split sum.split if_split)
  from assms(1) have "unless_conflict (after_conflict wd (nw_tenant_id nw) iid (ni_node_key n))
      (sh1, map_sum id (\<lambda>_. ''submitted:human_node'') y) = (sh', Inr outcome)" by (simp add: submit_completion_def s)
  with no have "map_sum id (\<lambda>_. ''submitted:human_node'') y = Inr outcome \<and> sh' = sh1" unfolding unless_conflict_Inr by blast
  with s show ?thesis by (cases y) auto
qed

lemma submit_completion_category:
  assumes "submit_completion wd nw event p iid n sh = (sh', Inr outcome)"
  shows "category outcome \<in> {''submitted'', ''noops'', ''rejected''}"
proof -
  obtain sh1 y where s: "submit_node wd nw event p iid n sh = (sh1, y)" by (cases "submit_node wd nw event p iid n sh")
  have no: "outcome = ''noops:concurrent_terminal''" if "after_conflict wd tenant iid key m sh1 = (sh', Inr outcome)" for tenant iid key m
    using that by (auto simp: after_conflict_def split: prod.splits sum.splits if_splits)
  from assms have "unless_conflict (after_conflict wd (nw_tenant_id nw) iid (ni_node_key n))
      (sh1, map_sum id (\<lambda>_. ''submitted:human_node'') y) = (sh', Inr outcome)" by (simp add: submit_completion_def s)
  then consider "map_sum id (\<lambda>_. ''submitted:human_node'') y = Inr outcome" | "outcome = ''noops:concurrent_terminal''"
    unfolding unless_conflict_Inr using no by blast
  then show ?thesis
  proof cases
    case 1
    then have "outcome = ''submitted:human_node''" by (cases y) auto
    then show ?thesis by (simp add: outcome_categories)
  qed (simp add: outcome_categories)
qed

definition declined :: "string \<Rightarrow> bool" where
  "declined outcome \<longleftrightarrow> category outcome \<in> {''noops'', ''rejected''}"

lemma declined_outcomes:
  "declined ''noops:stale_attempt''" "declined ''noops:already_terminal''" "declined ''rejected:projection_node_mismatch''"
  "declined ''rejected:node_not_waiting_human''" "declined ''rejected:decision_requires_card''"
  "declined ''rejected:task_requires_deliverable''" "declined (''rejected:'' @ reason)"
  by (simp_all add: declined_def outcome_categories category_simps del: append_Cons append_Nil)

text \<open>Every outcome that a computation gives without a submission is declined.\<close>

definition only_declines :: "(string + 'a) res \<Rightarrow> bool" where
  "only_declines m \<longleftrightarrow> (\<forall>outcome. m = Inr (Inl outcome) \<longrightarrow> declined outcome)"

lemma only_declinesI:
  "declined outcome \<Longrightarrow> only_declines (Inr (Inl outcome))" "only_declines (Inr (Inr n))"
  "(\<And>x. only_declines (f x)) \<Longrightarrow> only_declines (rbind m f)"
  "only_declines y \<Longrightarrow> only_declines z \<Longrightarrow> only_declines (if b then y else z)"
  "only_declines y \<Longrightarrow> (\<And>x. only_declines (f x)) \<Longrightarrow> only_declines (case v of None \<Rightarrow> y | Some x \<Rightarrow> f x)"
  "only_declines y \<Longrightarrow> (\<And>n. only_declines (g n)) \<Longrightarrow> only_declines (case xs of [n] \<Rightarrow> g n | _ \<Rightarrow> y)"
  by (auto simp: only_declines_def rbind_Inr_iff split: option.split list.split)

lemma target_category:
  assumes "submission_target w p t = Inr (Inl outcome)"
  shows "declined outcome"
proof -
  have "only_declines (submission_target w p t)"
    unfolding submission_target_def by (intro only_declinesI declined_outcomes)
  with assms show ?thesis by (simp add: only_declines_def)
qed

lemma process_eventE:
  assumes "process_event wd nw event t sh = (sh', Inr outcome)" and "category outcome = ''submitted''"
  obtains p n iid sh1 sh2 where
    "shared_read wd (\<lambda>env r. get_projection_by_external_id r (nw_tenant_id nw) FEISHU_TASK_KIND (tc_task_guid event)) sh = (sh1, Inr (Some p))"
    "shared_read wd (\<lambda>env r. rbind (repo_get r (nw_tenant_id nw) (pj_instance_id p)) (\<lambda>w.
        rbind (submission_target w p t) (\<lambda>target. Inr (wi_id w, target)))) sh1 = (sh2, Inr (iid, Inr n))"
    "submit_completion wd nw event p iid n sh2 = (sh', Inr outcome)"
proof -
  let ?f = "\<lambda>env r. get_projection_by_external_id r (nw_tenant_id nw) FEISHU_TASK_KIND (tc_task_guid event)"
  obtain sh1 y where c: "shared_read wd ?f sh = (sh1, y)" by (cases "shared_read wd ?f sh")
  from assms obtain p where y: "y = Inr (Some p)"
    unfolding process_event_def c prod.case by (auto simp: outcome_categories split: sum.split_asm option.split_asm)
  let ?g = "\<lambda>env r. rbind (repo_get r (nw_tenant_id nw) (pj_instance_id p)) (\<lambda>w.
        rbind (submission_target w p t) (\<lambda>target. Inr (wi_id w, target)))"
  obtain sh2 z where g: "shared_read wd ?g sh1 = (sh2, z)" by (cases "shared_read wd ?g sh1")
  from assms(1) obtain iid target where z: "z = Inr (iid, target)"
    unfolding process_event_def c y prod.case sum.case option.case g by (cases z) auto
  show thesis
  proof (cases target)
    case (Inl o')
    then have o: "o' = outcome" using assms(1) unfolding process_event_def c y prod.case sum.case option.case g z by simp
    from g z Inl obtain env r where "rbind (repo_get r (nw_tenant_id nw) (pj_instance_id p)) (\<lambda>w.
        rbind (submission_target w p t) (\<lambda>target. Inr (wi_id w, target))) = Inr (iid, Inl o')"
      by (auto simp: shared_read_def Let_def)
    then obtain w where "submission_target w p t = Inr (Inl o')" by (auto simp: rbind_Inr_iff)
    from target_category [OF this] assms(2) o show thesis by (simp add: declined_def)
  next
    case (Inr n)
    then have "submit_completion wd nw event p iid n sh2 = (sh', Inr outcome)"
      using assms(1) unfolding process_event_def c y prod.case sum.case option.case g z by simp
    with that c g y z Inr show thesis by blast
  qed
qed

lemma stored_node_id:
  assumes "repo_inv r" and "find_instance r (tenant, iid) = Some w" and "n \<in> snd ` set (wi_nodes w)"
  shows "ni_id n = node_id_of iid (ni_node_key n)"
proof -
  have w: "instance_inv w" "wi_id w = iid" using repo_invD [OF assms(1,2)] by auto
  from assms(3) obtain k where k: "(k, n) \<in> set (wi_nodes w)" by auto
  then have "wi_nodes w \<noteq> []" by auto
  with w(1) have core: "core_inv w" by (auto simp: instance_inv_def split: if_splits)
  then have "node_at w k = Some n" using k by (simp add: core_inv_def)
  from core_inv_node(1) [OF core this] w(2) show ?thesis by (simp add: node_ok_def)
qed

text \<open>C37: the inbound worker submits a node only when its owner has done the task of that node: the task that was read is
  the one of the event and of the projection, it was created for it by this application, it is
  assigned to the owner alone and completed by the owner; the node of the projection was waiting for
  its owner in the projected attempt and takes neither a decision nor a deliverable; after the
  submission it is done, in the name of the owner.\<close>

theorem submits_completed_tasks:
  assumes "process_event wd nw event t sh = (sh', Inr outcome)" and "category outcome = ''submitted''"
    and "others_are_commands wd" and "history (sh_states sh)"
  shows "\<exists>(p :: projection_record) (n :: node_instance). history (sh_states sh') \<and>
     (\<exists>r \<in> set (sh_states sh'). get_projection_by_external_id r (nw_tenant_id nw) FEISHU_TASK_KIND (tc_task_guid event) = Inr (Some p)) \<and>
     pj_external_id p = Some (xt_guid t) \<and> xt_extra t = Some (pj_idempotency_key p) \<and> xt_source t = Some 6 \<and> xt_status t = ''done'' \<and>
     xt_assignee_ids t = [ni_owner_person_id n] \<and> xt_completed_assignee_ids t = [ni_owner_person_id n] \<and>
     (\<exists>r \<in> set (sh_states sh'). \<exists>w spec. find_instance r (nw_tenant_id nw, pj_instance_id p) = Some w \<and>
        snapshot_node (wi_snapshot w) (ni_node_key n) = Inr spec \<and> human_decision_config (ns_work spec) = None \<and>
        \<not> requires_structured_human_input (ns_work spec)) \<and>
     (\<exists>r \<in> set (sh_states sh'). \<exists>w m. find_instance r (nw_tenant_id nw, pj_instance_id p) = Some w \<and>
        node_at w (ni_node_key n) = Some m \<and> ni_id m = pj_node_instance_id p \<and> ni_owner_person_id m = ni_owner_person_id n \<and>
        ni_status m = N_WAITING_HUMAN \<and> ni_current_attempt_no m = pj_attempt_no p) \<and>
     (\<exists>w a. find_instance (last (sh_states sh')) (nw_tenant_id nw, pj_instance_id p) = Some w \<and>
        node_statuses w (ni_node_key n) = Some N_DONE \<and> attempt_at w (ni_node_key n) (pj_attempt_no p) = Some a \<and>
        na_submitted_by_person_id a = Some (ni_owner_person_id n))"
proof -
  let ?tid = "nw_tenant_id nw"
  from assms(1,2) obtain p n iid sh1 sh2 where
    read: "shared_read wd (\<lambda>env r. get_projection_by_external_id r ?tid FEISHU_TASK_KIND (tc_task_guid event)) sh = (sh1, Inr (Some p))"
    and look: "shared_read wd (\<lambda>env r. rbind (repo_get r ?tid (pj_instance_id p)) (\<lambda>w.
        rbind (submission_target w p t) (\<lambda>target. Inr (wi_id w, target)))) sh1 = (sh2, Inr (iid, Inr n))"
    and sub: "submit_completion wd nw event p iid n sh2 = (sh', Inr outcome)"
    by (rule process_eventE)
  from read assms(3,4) obtain r1 where r1: "Inr (Some p) = get_projection_by_external_id r1 ?tid FEISHU_TASK_KIND (tc_task_guid event)"
    "r1 \<in> set (sh_states sh1)" "history (sh_states sh1)" by (rule shared_readE)
  from look assms(3) r1(3) obtain r2 where r2: "Inr (iid, Inr n) = rbind (repo_get r2 ?tid (pj_instance_id p)) (\<lambda>w.
        rbind (submission_target w p t) (\<lambda>target. Inr (wi_id w, target)))"
    "r2 \<in> set (sh_states sh2)" "history (sh_states sh2)" "set (sh_states sh1) \<subseteq> set (sh_states sh2)" by (rule shared_readE)
  from r2(1) [symmetric] obtain w where w: "repo_get r2 ?tid (pj_instance_id p) = Inr w" "submission_target w p t = Inr (Inr n)" "wi_id w = iid"
    by (auto simp: rbind_Inr_iff)
  have fw: "find_instance r2 (?tid, pj_instance_id p) = Some w" using w(1) by (simp add: repo_get_def result_simps)
  have iid: "iid = pj_instance_id p"
    using repo_invD [OF history_repo_inv [OF r2(3,2)] fw] w(3) by simp
  from w(2) obtain spec where tn0: "n \<in> snd ` set (wi_nodes w)" and tn: "ni_id n = pj_node_instance_id p" "ni_current_attempt_no n = pj_attempt_no p"
    "snapshot_node (wi_snapshot w) (ni_node_key n) = Inr spec" "human_decision_config (ns_work spec) = None"
    "\<not> requires_structured_human_input (ns_work spec)" "validate_task t p (ni_owner_person_id n) = Inr None"
    by (rule submission_targetE)
  have read_node: "ni_id n = node_id_of iid (ni_node_key n)"
    using stored_node_id [OF history_repo_inv [OF r2(3,2)] fw tn0] iid by simp
  from submit_completion_submits [OF sub assms(2)] obtain x where
    cmd: "submit_node wd nw event p iid n sh2 = (sh', Inr x)" ..
  from cmd [unfolded submit_node_def] assms(3) r2(3) obtain env r r' r3 where c: "service_submit_human env r r' ?tid iid (ni_node_key n)
     (ni_owner_person_id n) (pj_attempt_no p) (ni_version n) [(''confirmed'', PBool True)] None (Some (tc_id event)) = Inr (r3, x)"
    "r \<in> set (sh_states sh')" "r3 = last (sh_states sh')" "history (sh_states sh')" "set (sh_states sh2) \<subseteq> set (sh_states sh')"
    by (rule shared_commandE) (rule submission_command, assumption)
  from c(1) history_repo_inv [OF c(4,2)] obtain v m v' a where
    v: "find_instance r (?tid, iid) = Some v" "node_at v (ni_node_key n) = Some m" "ni_owner_person_id m = ni_owner_person_id n"
      "ni_current_attempt_no m = pj_attempt_no p" "ni_status m = N_WAITING_HUMAN" "ni_id m = node_id_of iid (ni_node_key n)"
    and v': "find_instance r3 (?tid, iid) = Some v'" "node_statuses v' (ni_node_key n) = Some N_DONE"
      "attempt_at v' (ni_node_key n) (pj_attempt_no p) = Some a" "na_submitted_by_person_id a = Some (ni_owner_person_id n)"
    by (rule submitted_state)
  note task = validate_task_None [OF tn(6)]
  have r12: "r1 \<in> set (sh_states sh')" "r2 \<in> set (sh_states sh')" using r1(2) r2(2,4) c(5) by blast+
  have "\<exists>r \<in> set (sh_states sh'). get_projection_by_external_id r ?tid FEISHU_TASK_KIND (tc_task_guid event) = Inr (Some p)"
    using r1(1) r12(1) by force
  moreover have "\<exists>r \<in> set (sh_states sh'). \<exists>w spec. find_instance r (?tid, pj_instance_id p) = Some w \<and>
        snapshot_node (wi_snapshot w) (ni_node_key n) = Inr spec \<and> human_decision_config (ns_work spec) = None \<and>
        \<not> requires_structured_human_input (ns_work spec)"
    using r12(2) fw tn(3-5) by blast
  moreover have "\<exists>r \<in> set (sh_states sh'). \<exists>w m. find_instance r (?tid, pj_instance_id p) = Some w \<and>
        node_at w (ni_node_key n) = Some m \<and> ni_id m = node_id_of iid (ni_node_key n) \<and> ni_owner_person_id m = ni_owner_person_id n \<and>
        ni_status m = N_WAITING_HUMAN \<and> ni_current_attempt_no m = pj_attempt_no p"
    using c(2) v unfolding iid by blast
  moreover have "ni_id n = node_id_of iid (ni_node_key n)" using read_node by simp
  ultimately show ?thesis using c(3,4) v' task tn(1) unfolding iid by (intro exI [of _ p] exI [of _ n]) simp
qed

theorem submits_completed_tasks_witness:
  "\<exists>(sh :: shared) (p :: projection_record). fst (process_event demo_task_world demo_inbound demo_signal demo_task demo_task_shared) = sh \<and>
     history (sh_states sh) \<and> pj_external_id p = Some ''g1'' \<and>
     (\<exists>w key. find_instance (last (sh_states sh)) (''acme'', pj_instance_id p) = Some w \<and> node_statuses w key = Some N_DONE)"
proof -
  obtain sh where s: "process_event demo_task_world demo_inbound demo_signal demo_task demo_task_shared = (sh, Inr ''submitted:human_node'')"
    using demo_task_submitted by (auto split: prod.splits sum.splits)
  have h: "history (sh_states demo_task_shared)" using demo_task_history by (simp add: demo_task_shared_def)
  have t: "nw_tenant_id demo_inbound = ''acme''" "xt_guid demo_task = ''g1''" by (simp_all add: demo_inbound_def demo_task_def)
  from submits_completed_tasks [OF s outcome_categories(1) demo_task_world h] s show ?thesis unfolding t by (elim exE conjE) auto
qed

section \<open>The report of a tick\<close>

lemma process_event_category:
  assumes "process_event wd nw event t sh = (sh', Inr outcome)"
  shows "category outcome \<in> {''submitted'', ''noops'', ''rejected''}"
proof -
  let ?f = "\<lambda>env r. get_projection_by_external_id r (nw_tenant_id nw) FEISHU_TASK_KIND (tc_task_guid event)"
  obtain sh1 y where c: "shared_read wd ?f sh = (sh1, y)" by (cases "shared_read wd ?f sh")
  from assms obtain q where y: "y = Inr q" unfolding process_event_def c prod.case by (cases y) simp_all
  show ?thesis
  proof (cases q)
    case None
    with assms have "outcome = ''noops:unbound_task''" unfolding process_event_def c y by simp
    then show ?thesis by (simp add: outcome_categories)
  next
    case (Some p)
    let ?g = "\<lambda>env r. rbind (repo_get r (nw_tenant_id nw) (pj_instance_id p)) (\<lambda>w.
        rbind (submission_target w p t) (\<lambda>target. Inr (wi_id w, target)))"
    obtain sh2 z where g: "shared_read wd ?g sh1 = (sh2, z)" by (cases "shared_read wd ?g sh1")
    from assms obtain iid target where z: "z = Inr (iid, target)"
      unfolding process_event_def c y Some prod.case sum.case option.case g by (cases z) auto
    show ?thesis
    proof (cases target)
      case (Inl o')
      then have o: "o' = outcome" using assms unfolding process_event_def c y Some prod.case sum.case option.case g z by simp
      from g z Inl obtain env r where "rbind (repo_get r (nw_tenant_id nw) (pj_instance_id p)) (\<lambda>w.
          rbind (submission_target w p t) (\<lambda>target. Inr (wi_id w, target))) = Inr (iid, Inl o')"
        by (auto simp: shared_read_def Let_def)
      then obtain w where "submission_target w p t = Inr (Inl o')" by (auto simp: rbind_Inr_iff)
      from target_category [OF this] o show ?thesis by (auto simp: declined_def)
    next
      case (Inr n)
      then have "submit_completion wd nw event p iid n sh2 = (sh', Inr outcome)"
        using assms unfolding process_event_def c y Some prod.case sum.case option.case g z by simp
      then show ?thesis by (rule submit_completion_category)
    qed
  qed
qed

definition inbound_accounts :: "inbound_report \<Rightarrow> nat \<Rightarrow> bool" where
  "inbound_accounts p n \<longleftrightarrow> nr_submitted p + nr_noops p + nr_rejected p + nr_failed p = n \<and> length (nr_errors p) = nr_failed p"

lemma count_outcome_known:
  assumes "category outcome \<in> {''submitted'', ''noops'', ''rejected''}" and "inbound_accounts p n"
  obtains p' where "count_outcome outcome p = Inr p'" "inbound_accounts p' (Suc n)" "nr_claimed p' = nr_claimed p"
  using assms unfolding count_outcome_def category_def [symmetric] Let_def
  by (elim insertE emptyE) (simp_all add: inbound_accounts_def)

text \<open>The errors that end a tick: the claim was lost in the meantime.\<close>

definition claim_lost :: "exn \<Rightarrow> bool" where
  "claim_lost e \<longleftrightarrow> (\<exists>m. e = InvalidInboxClaimError m \<or> e = TypeError m)"

lemma mark_inbox_error: "mark_inbox expected f tenant eid token ib = Inl e \<Longrightarrow> claim_lost e"
  by (auto simp: mark_inbox_def claimed_inbox_record_def claim_lost_def rbind_Inl_iff ensure_Inl_iff get_or_raise_Inl_iff
      compare_digest_def split: if_splits)

lemma inbound_mark_report:
  assumes "inbound_mark iw (mark_inbox expected f tenant eid token) p tk = (tk', y)"
  shows "it_report tk' = p \<and> (\<forall>e. y = Inl e \<longrightarrow> claim_lost e)"
proof -
  obtain s z where c: "inbox_call iw (\<lambda>_. mark_inbox expected f tenant eid token) (it_inbox tk) = (s, z)"
    by (cases "inbox_call iw (\<lambda>_. mark_inbox expected f tenant eid token) (it_inbox tk)")
  have "claim_lost e" if "z = Inl e" for e
    using c that mark_inbox_error by (auto simp: inbox_call_def Let_def split: sum.splits prod.splits)
  with assms c show ?thesis by (auto simp: inbound_mark_def)
qed

lemma work_claim_report:
  assumes "work_claim iw wd nw now c tk = (tk', y)" and acc: "inbound_accounts (it_report tk) n"
  shows "inbound_accounts (it_report tk') (Suc n) \<and> nr_claimed (it_report tk') = nr_claimed (it_report tk) \<and> (\<forall>e. y = Inl e \<longrightarrow> claim_lost e)"
proof -
  obtain sh z where o: "inbound_outcome wd nw c (it_shared tk) = (sh, z)" by (cases "inbound_outcome wd nw c (it_shared tk)")
  show ?thesis
  proof (cases z)
    case (Inl e)
    from inbound_mark_report [OF assms(1) [unfolded work_claim_def o Let_def prod.case sum.case Inl mark_inbox_failed_def]] acc
    show ?thesis by (simp add: inbound_accounts_def)
  next
    case (Inr outcome)
    have "category outcome \<in> {''submitted'', ''noops'', ''rejected''}"
      using o Inr process_event_category unfolding inbound_outcome_def by (cases "ic_task_state c") auto
    then obtain p' where p': "count_outcome outcome (it_report tk) = Inr p'" "inbound_accounts p' (Suc n)" "nr_claimed p' = nr_claimed (it_report tk)"
      using acc by (rule count_outcome_known)
    from inbound_mark_report [OF assms(1) [unfolded work_claim_def o Let_def prod.case sum.case Inr p'(1) mark_inbox_processed_def]] p'
    show ?thesis by simp
  qed
qed

lemma work_claims_report:
  assumes "work_claims iw wd nw now cs tk = (tk', y)" and "inbound_accounts (it_report tk) n"
  shows "nr_claimed (it_report tk') = nr_claimed (it_report tk) \<and> (y = Inr () \<longrightarrow> inbound_accounts (it_report tk') (n + length cs)) \<and>
     (\<forall>e. y = Inl e \<longrightarrow> claim_lost e)"
  using assms
proof (induction cs arbitrary: tk n)
  case (Cons c cs)
  obtain tk1 z where w: "work_claim iw wd nw now c tk = (tk1, z)" by (cases "work_claim iw wd nw now c tk")
  note r = work_claim_report [OF w Cons.prems(2)]
  show ?case
  proof (cases z)
    case (Inl e)
    with Cons.prems(1) w r show ?thesis by auto
  next
    case (Inr u)
    with Cons.prems(1) w have "work_claims iw wd nw now cs tk1 = (tk', y)" by simp
    from Cons.IH [OF this, of "Suc n"] r show ?thesis by simp
  qed
qed auto

text \<open>A tick of the inbound worker accounts for every event it claimed, whatever the other processes do: each is counted
  as exactly one of submitted, no-op, rejected or failed, the errors are those of the failed ones,
  and an exception ends the tick only when a claim was refused or lost; meanwhile the repository and
  the inbox only take steps of commands and of inbox operations.\<close>

lemma inbound_tick_accounts:
  assumes "inbound_run_once iw wd nw now s sh = (tk, y)"
    and "others_use_inbox iw" and "others_are_commands wd" and "history (sh_states sh)"
  shows "(y = Inr () \<longrightarrow> nr_submitted (it_report tk) + nr_noops (it_report tk) + nr_rejected (it_report tk) + nr_failed (it_report tk) =
        nr_claimed (it_report tk) \<and> length (nr_errors (it_report tk)) = nr_failed (it_report tk)) \<and>
     (\<forall>e. y = Inl e \<longrightarrow> (\<exists>m. e = InvalidInboxClaimError m \<or> e = TypeError m \<or> e = ValueError m)) \<and>
     history (sh_states (it_shared tk)) \<and> inbox_step\<^sup>*\<^sup>* (ib_inbox s) (ib_inbox (it_inbox tk))"
proof -
  let ?f = "\<lambda>tokens. claim_inbox tokens (nw_tenant_id nw) (nw_worker_id nw) now (nw_claim_limit nw) (nw_claim_ttl nw)"
  obtain s' z where c: "inbox_call iw ?f s = (s', z)" by (cases "inbox_call iw ?f s")
  have ok: "tick_ok (ib_inbox s) tk" using inbound_run_once_ok [OF assms(2-4), of s nw now] assms(1) by simp
  have "(y = Inr () \<longrightarrow> inbound_accounts (it_report tk) (nr_claimed (it_report tk))) \<and>
    (\<forall>e. y = Inl e \<longrightarrow> (\<exists>m. e = InvalidInboxClaimError m \<or> e = TypeError m \<or> e = ValueError m))"
  proof (cases z)
    case (Inl e)
    then have "\<exists>m. e = ValueError m"
      using c by (auto simp: inbox_call_def Let_def claim_inbox_def claim_as_def validate_inbox_claim_def rbind_Inl_iff ensure_Inl_iff
          split: sum.splits prod.splits)
    with assms(1) c Inl show ?thesis by (auto simp: inbound_run_once_def)
  next
    case (Inr claims)
    with assms(1) c have w: "work_claims iw wd nw now claims
        \<lparr>it_inbox = s', it_shared = sh, it_report = empty_inbound_report (length claims)\<rparr> = (tk, y)" by (simp add: inbound_run_once_def)
    have "inbound_accounts (empty_inbound_report (length claims)) 0" by (simp add: inbound_accounts_def empty_inbound_report_def)
    with work_claims_report [OF w, of 0] show ?thesis by (auto simp: claim_lost_def empty_inbound_report_def)
  qed
  with ok show ?thesis by (simp add: inbound_accounts_def tick_ok_def)
qed

end
