(* ===== verification/Knowledge_Contracts.thy ===== *)
theory Knowledge_Contracts
  imports Serde Sha256
begin

text \<open>
  \<open>src/larkflow/knowledge/contracts.py\<close>: the immutable records of a tenant's shared documents, and the
  fingerprints that bind an authorisation or a selection to exact versions. A constructor takes the
  fields as they are given, checks them and returns the record that \<open>__post_init__\<close> leaves. All times
  are aware.
\<close>

section \<open>Grammars and canonical text\<close>

definition hex_char :: "char \<Rightarrow> bool" where
  "hex_char c \<longleftrightarrow> is_digit c \<or> (CHR ''a'' \<le> c \<and> c \<le> CHR ''f'')"

definition hex_text :: "nat \<Rightarrow> string \<Rightarrow> bool" where
  "hex_text n s \<longleftrightarrow> length s = n \<and> list_all hex_char s"

definition lower_char :: "char \<Rightarrow> bool" where
  "lower_char c \<longleftrightarrow> CHR ''a'' \<le> c \<and> c \<le> CHR ''z''"

definition upper_char :: "char \<Rightarrow> bool" where
  "upper_char c \<longleftrightarrow> CHR ''A'' \<le> c \<and> c \<le> CHR ''Z''"

definition id_punct :: "char \<Rightarrow> bool" where
  "id_punct c \<longleftrightarrow> c \<in> {CHR ''_'', CHR ''.'', CHR '':'', CHR ''-''}"

text \<open>\<open>[a-z][a-z0-9_.:-]{0,n}\<close>\<close>

definition source_name :: "nat \<Rightarrow> string \<Rightarrow> bool" where
  "source_name n s \<longleftrightarrow> (case s of [] \<Rightarrow> False | c # cs \<Rightarrow>
     lower_char c \<and> length cs \<le> n \<and> list_all (\<lambda>c. lower_char c \<or> is_digit c \<or> id_punct c) cs)"

definition knowledge_source_id :: "string \<Rightarrow> bool" where
  "knowledge_source_id s \<longleftrightarrow> take 11 s = ''enterprise:'' \<and> source_name 116 (drop 11 s)"

definition knowledge_version_id :: "string \<Rightarrow> bool" where
  "knowledge_version_id s \<longleftrightarrow> (case s of [] \<Rightarrow> False | c # cs \<Rightarrow>
     (lower_char c \<or> upper_char c \<or> is_digit c) \<and> length cs \<le> 127 \<and>
     list_all (\<lambda>c. lower_char c \<or> upper_char c \<or> is_digit c \<or> id_punct c) cs)"

definition knowledge_proof_id :: "string \<Rightarrow> bool" where
  "knowledge_proof_id s \<longleftrightarrow> take 3 s = ''kp_'' \<and> hex_text 32 (drop 3 s)"

definition text_sha256 :: "string \<Rightarrow> string" where
  "text_sha256 s = sha256_hex (utf8_encode s)"

text \<open>\<open>json.dumps(manifest, ensure_ascii=False, sort_keys=True, separators=(",", ":"))\<close> of a manifest, which
  holds JSON values only.\<close>

definition canonical_text :: "pmap \<Rightarrow> string" where
  "canonical_text manifest = (case json_text True (PDict manifest) of Some s \<Rightarrow> s | None \<Rightarrow> [])"

definition canonical_hash :: "pmap \<Rightarrow> string" where
  "canonical_hash manifest = text_sha256 (canonical_text manifest)"

definition opt_str :: "string option \<Rightarrow> pval" where
  "opt_str v = (case v of None \<Rightarrow> PNone | Some s \<Rightarrow> PStr s)"

section \<open>The proof of an authorisation\<close>

definition ENTERPRISE_KNOWLEDGE_AUTHORIZATION_POLICY_V1 :: string where
  "ENTERPRISE_KNOWLEDGE_AUTHORIZATION_POLICY_V1 = ''tenant_all_members_v1''"

definition ENTERPRISE_KNOWLEDGE_AUTHORIZATION_STATEMENT_V1 :: string where
  "ENTERPRISE_KNOWLEDGE_AUTHORIZATION_STATEMENT_V1 =
     ''I confirm that this immutable content snapshot may be used by all members of the current tenant in larkflow.''"

record knowledge_proof =
  kp_tenant_id :: string
  kp_source_id :: string
  kp_version_id :: string
  kp_content_sha256 :: string
  kp_authorized_by_person_id :: string
  kp_authorized_at :: time
  kp_scope :: string
  kp_policy_version :: string
  kp_statement_sha256 :: string
  kp_proof_id :: string
  kp_fingerprint :: string

definition knowledge_proof_manifest :: "knowledge_proof \<Rightarrow> pmap" where
  "knowledge_proof_manifest p =
     [(''tenant_id'', PStr (kp_tenant_id p)), (''source_id'', PStr (kp_source_id p)), (''version_id'', PStr (kp_version_id p)),
      (''content_sha256'', PStr (kp_content_sha256 p)), (''authorized_by_person_id'', PStr (kp_authorized_by_person_id p)),
      (''authorized_at'', PStr (isoformat (kp_authorized_at p))), (''scope'', PStr (kp_scope p)),
      (''policy_version'', PStr (kp_policy_version p)), (''statement_sha256'', PStr (kp_statement_sha256 p))]"

definition enterprise_knowledge_authorization_fingerprint :: "knowledge_proof \<Rightarrow> string" where
  "enterprise_knowledge_authorization_fingerprint p = canonical_hash (knowledge_proof_manifest p)"

text \<open>\<open>if given and given != actual: raise ValueError\<close>\<close>

definition expect_given :: "string \<Rightarrow> string \<Rightarrow> string \<Rightarrow> unit res" where
  "expect_given given actual message = ensure (given = [] \<or> given = actual) (ValueError message)"

definition mk_knowledge_proof :: "knowledge_proof \<Rightarrow> knowledge_proof res" where
  "mk_knowledge_proof p =
     rbind (ensure (\<not> blank (kp_tenant_id p)) (ValueError ''enterprise knowledge proof tenant_id is required'')) (\<lambda>_.
     rbind (ensure (knowledge_source_id (kp_source_id p)) (ValueError ''enterprise knowledge proof source_id is invalid'')) (\<lambda>_.
     rbind (ensure (knowledge_version_id (kp_version_id p)) (ValueError ''enterprise knowledge proof version_id is invalid'')) (\<lambda>_.
     rbind (ensure (hex_text 64 (kp_content_sha256 p)) (ValueError ''enterprise knowledge proof content hash is invalid'')) (\<lambda>_.
     rbind (ensure (\<not> blank (kp_authorized_by_person_id p)) (ValueError ''enterprise knowledge proof administrator is required'')) (\<lambda>_.
     rbind (ensure (kp_scope p = ''tenant_all_members'') (ValueError ''enterprise knowledge proof scope is invalid'')) (\<lambda>_.
     rbind (ensure (kp_policy_version p = ENTERPRISE_KNOWLEDGE_AUTHORIZATION_POLICY_V1)
              (ValueError ''enterprise knowledge proof policy is invalid'')) (\<lambda>_.
     let statement = text_sha256 ENTERPRISE_KNOWLEDGE_AUTHORIZATION_STATEMENT_V1 in
     rbind (expect_given (kp_statement_sha256 p) statement ''enterprise knowledge proof statement is invalid'') (\<lambda>_.
     let p = p\<lparr>kp_statement_sha256 := statement\<rparr>; actual = enterprise_knowledge_authorization_fingerprint p in
     rbind (expect_given (kp_fingerprint p) actual ''enterprise knowledge proof fingerprint is invalid'') (\<lambda>_.
     let proof_id = ''kp_'' @ take 32 actual in
     rbind (expect_given (kp_proof_id p) proof_id ''enterprise knowledge proof id is invalid'') (\<lambda>_.
     Inr (p\<lparr>kp_fingerprint := actual, kp_proof_id := proof_id\<rparr>)))))))))))"

definition knowledge_proof_safe_value :: "knowledge_proof \<Rightarrow> pmap" where
  "knowledge_proof_safe_value p =
     [(''proof_id'', PStr (kp_proof_id p)), (''fingerprint'', PStr (kp_fingerprint p)), (''scope'', PStr (kp_scope p)),
      (''policy_version'', PStr (kp_policy_version p)), (''statement_sha256'', PStr (kp_statement_sha256 p)),
      (''authorized_at'', PStr (isoformat (kp_authorized_at p)))]"

section \<open>References and publications\<close>

record knowledge_ref =
  kr_tenant_id :: string
  kr_source_id :: string
  kr_version_id :: string
  kr_display_label :: string
  kr_media_type :: string
  kr_size_bytes :: int
  kr_content_sha256 :: string
  kr_published_at :: time
  kr_data_classification :: string
  kr_egress_decision :: string
  kr_authorization_proof_id :: "string option"
  kr_authorization_fingerprint :: "string option"

definition mk_knowledge_ref :: "knowledge_ref \<Rightarrow> knowledge_ref res" where
  "mk_knowledge_ref k =
     rbind (ensure (\<not> blank (kr_tenant_id k)) (ValueError ''enterprise knowledge tenant_id is required'')) (\<lambda>_.
     rbind (ensure (knowledge_source_id (kr_source_id k)) (ValueError ''enterprise knowledge source_id is invalid'')) (\<lambda>_.
     rbind (ensure (knowledge_version_id (kr_version_id k)) (ValueError ''enterprise knowledge version_id is invalid'')) (\<lambda>_.
     rbind (ensure (\<not> blank (kr_display_label k)) (ValueError ''enterprise knowledge display label is required'')) (\<lambda>_.
     rbind (ensure (kr_media_type k \<in> {''text/plain'', ''text/markdown''}) (ValueError ''enterprise knowledge media type is unsupported'')) (\<lambda>_.
     rbind (ensure (1 \<le> kr_size_bytes k) (ValueError ''enterprise knowledge size must be positive'')) (\<lambda>_.
     rbind (ensure (hex_text 64 (kr_content_sha256 k)) (ValueError ''enterprise knowledge hash is invalid'')) (\<lambda>_.
     rbind (ensure (kr_data_classification k = ''internal'') (ValueError ''enterprise knowledge classification must be internal'')) (\<lambda>_.
     rbind (ensure (kr_egress_decision k \<in> {''allow'', ''deny''}) (ValueError ''enterprise knowledge egress decision is invalid'')) (\<lambda>_.
     rbind (ensure (kr_authorization_proof_id k = None \<longleftrightarrow> kr_authorization_fingerprint k = None)
              (ValueError ''enterprise knowledge authorization proof is incomplete'')) (\<lambda>_.
     rbind (case kr_authorization_proof_id k of
              None \<Rightarrow> Inr ()
            | Some pid \<Rightarrow>
                rbind (ensure (knowledge_proof_id pid) (ValueError ''enterprise knowledge authorization proof id is invalid'')) (\<lambda>_.
                ensure (hex_text 64 (case kr_authorization_fingerprint k of None \<Rightarrow> [] | Some f \<Rightarrow> f))
                  (ValueError ''enterprise knowledge authorization fingerprint is invalid''))) (\<lambda>_.
     Inr k)))))))))))"

definition content_authorized :: "knowledge_ref \<Rightarrow> bool" where
  "content_authorized k \<longleftrightarrow> kr_authorization_proof_id k \<noteq> None"

definition knowledge_ref_value :: "knowledge_ref \<Rightarrow> pmap" where
  "knowledge_ref_value k =
     [(''source_id'', PStr (kr_source_id k)), (''version_id'', PStr (kr_version_id k)), (''display_label'', PStr (kr_display_label k)),
      (''media_type'', PStr (kr_media_type k)), (''size_bytes'', PInt (kr_size_bytes k)),
      (''content_sha256'', PStr (kr_content_sha256 k)), (''published_at'', PStr (isoformat (kr_published_at k))),
      (''data_classification'', PStr (kr_data_classification k)), (''egress_decision'', PStr (kr_egress_decision k))] @
     (case kr_authorization_proof_id k of
        None \<Rightarrow> []
      | Some pid \<Rightarrow> [(''authorization_proof_id'', PStr pid),
          (''authorization_fingerprint'', opt_str (kr_authorization_fingerprint k))])"

record knowledge_publication =
  ku_ref :: knowledge_ref
  ku_published_by_person_id :: string
  ku_status :: string
  ku_revoked_at :: "time option"
  ku_authorization_proof :: "knowledge_proof option"

definition proof_bound :: "knowledge_ref \<Rightarrow> knowledge_proof \<Rightarrow> bool" where
  "proof_bound k p \<longleftrightarrow> kp_tenant_id p = kr_tenant_id k \<and> kp_source_id p = kr_source_id k \<and> kp_version_id p = kr_version_id k \<and>
     kp_content_sha256 p = kr_content_sha256 k \<and> Some (kp_proof_id p) = kr_authorization_proof_id k \<and>
     Some (kp_fingerprint p) = kr_authorization_fingerprint k"

definition mk_knowledge_publication :: "knowledge_publication \<Rightarrow> knowledge_publication res" where
  "mk_knowledge_publication u =
     rbind (ensure (\<not> blank (ku_published_by_person_id u)) (ValueError ''enterprise knowledge publisher is required'')) (\<lambda>_.
     rbind (ensure (ku_status u \<in> {''published'', ''revoked''}) (ValueError ''enterprise knowledge publication status is invalid'')) (\<lambda>_.
     rbind (ensure (ku_status u = ''published'' \<longrightarrow> ku_revoked_at u = None)
              (ValueError ''published enterprise knowledge cannot be revoked'')) (\<lambda>_.
     rbind (if ku_status u = ''revoked'' then
              (case ku_revoked_at u of
                 None \<Rightarrow> Inl (ValueError ''revoked enterprise knowledge needs revoked_at'')
               | Some t \<Rightarrow> ensure (kr_published_at (ku_ref u) \<le> t) (ValueError ''enterprise knowledge revocation precedes publication''))
            else Inr ()) (\<lambda>_.
     rbind (case ku_authorization_proof u of
              None \<Rightarrow> ensure (\<not> content_authorized (ku_ref u)) (ValueError ''enterprise knowledge proof body is missing'')
            | Some p \<Rightarrow> ensure (proof_bound (ku_ref u) p) (ValueError ''enterprise knowledge proof binding is invalid'')) (\<lambda>_.
     Inr u)))))"

definition authorized_ref :: "knowledge_publication \<Rightarrow> knowledge_ref res" where
  "authorized_ref u =
     rbind (ensure (ku_status u = ''published'') (ValueError ''enterprise knowledge publication is revoked'')) (\<lambda>_.
     rbind (ensure (ku_authorization_proof u \<noteq> None) (ValueError ''enterprise knowledge publication lacks authorization proof'')) (\<lambda>_.
     Inr (ku_ref u)))"

section \<open>Selections\<close>

record knowledge_selection =
  ks_tenant_id :: string
  ks_sources :: "knowledge_ref list"
  ks_created_at :: time
  ks_fingerprint :: string

definition knowledge_source_identity :: "knowledge_ref \<Rightarrow> pval" where
  "knowledge_source_identity k = PDict
     [(''source_id'', PStr (kr_source_id k)), (''version_id'', PStr (kr_version_id k)), (''content_sha256'', PStr (kr_content_sha256 k)),
      (''data_classification'', PStr (kr_data_classification k)), (''egress_decision'', PStr (kr_egress_decision k)),
      (''authorization_proof_id'', opt_str (kr_authorization_proof_id k)),
      (''authorization_fingerprint'', opt_str (kr_authorization_fingerprint k))]"

definition enterprise_knowledge_fingerprint :: "knowledge_selection \<Rightarrow> string" where
  "enterprise_knowledge_fingerprint s = canonical_hash
     [(''tenant_id'', PStr (ks_tenant_id s)), (''kind'', PStr ''enterprise_shared''),
      (''sources'', PList (map knowledge_source_identity (ks_sources s)))]"

definition mk_knowledge_selection :: "knowledge_selection \<Rightarrow> knowledge_selection res" where
  "mk_knowledge_selection s =
     rbind (ensure (\<not> blank (ks_tenant_id s)) (ValueError ''enterprise knowledge selection tenant_id is required'')) (\<lambda>_.
     rbind (ensure (ks_sources s \<noteq> []) (ValueError ''enterprise knowledge selection is empty'')) (\<lambda>_.
     rbind (ensure (list_all (\<lambda>k. kr_tenant_id k = ks_tenant_id s) (ks_sources s))
              (ValueError ''enterprise knowledge selection crosses tenants'')) (\<lambda>_.
     rbind (ensure (distinct (map kr_source_id (ks_sources s))) (ValueError ''enterprise knowledge selection repeats a source'')) (\<lambda>_.
     let s = s\<lparr>ks_sources := sort_key (\<lambda>k. (kr_source_id k, kr_version_id k)) (ks_sources s)\<rparr>;
         actual = enterprise_knowledge_fingerprint s in
     rbind (expect_given (ks_fingerprint s) actual ''enterprise knowledge selection fingerprint is invalid'') (\<lambda>_.
     Inr (s\<lparr>ks_fingerprint := actual\<rparr>))))))"

definition knowledge_selection_manifest :: "knowledge_selection \<Rightarrow> pmap" where
  "knowledge_selection_manifest s =
     [(''kind'', PStr ''enterprise_shared''), (''tenant_id'', PStr (ks_tenant_id s)), (''fingerprint'', PStr (ks_fingerprint s)),
      (''sources'', PList (map (PDict \<circ> knowledge_ref_value) (ks_sources s)))]"

end
