(* ===== verification/Planning_Context.thy ===== *)
theory Planning_Context
  imports Knowledge_Contracts
begin

text \<open>
  \<open>src/larkflow/planning/context.py\<close>: the material that one planning or agent request may read. A
  constructor takes the fields as given, checks them and returns the record that \<open>__post_init__\<close>
  leaves. The text of a chunk is a list of code points (the whole of Unicode); its UTF-8 encoding and
  decoding are those of the Python standard library (strict). All times are aware.
\<close>

section \<open>UTF-8 of code points\<close>

type_synonym code_text = "nat list"

text \<open>\<open>str.isspace\<close> of a code point, which is what \<open>strip\<close> removes.\<close>

definition code_space :: "nat \<Rightarrow> bool" where
  "code_space n \<longleftrightarrow> n \<in> {9..13} \<union> {28..32} \<union> {133, 160, 5760} \<union> {8192..8202} \<union> {8232, 8233, 8239, 8287, 12288}"

text \<open>\<open>text.encode("utf-8")\<close> raises on a lone surrogate.\<close>

definition scalar_value :: "nat \<Rightarrow> bool" where
  "scalar_value n \<longleftrightarrow> n < 0xD800 \<or> (0xDFFF < n \<and> n < 0x110000)"

definition utf8_code :: "nat \<Rightarrow> nat list" where
  "utf8_code n =
     (if n < 128 then [n]
      else if n < 2048 then [192 + n div 64, 128 + n mod 64]
      else if n < 65536 then [224 + n div 4096, 128 + n div 64 mod 64, 128 + n mod 64]
      else [240 + n div 262144, 128 + n div 4096 mod 64, 128 + n div 64 mod 64, 128 + n mod 64])"

definition utf8_codes :: "nat list \<Rightarrow> nat list" where
  "utf8_codes text = concat (map utf8_code text)"

definition utf8_bytes :: "nat list \<Rightarrow> nat list option" where
  "utf8_bytes text = (if list_all scalar_value text then Some (utf8_codes text) else None)"

definition continuation :: "nat \<Rightarrow> bool" where
  "continuation b \<longleftrightarrow> 128 \<le> b \<and> b < 192"

text \<open>\<open>content.decode("utf-8")\<close>: no overlong form, no surrogate, nothing above \<open>U+10FFFF\<close>.\<close>

definition cons_text :: "nat \<Rightarrow> nat list option \<Rightarrow> nat list option" where
  "cons_text n text = map_option ((#) n) text"

fun utf8_text :: "nat list \<Rightarrow> nat list option" where
  "utf8_text [] = Some []"
| "utf8_text (a # bs) =
     (if a < 128 then cons_text a (utf8_text bs)
      else if a < 194 then None
      else if a < 224 then (case bs of
          b # bs' \<Rightarrow> if continuation b then cons_text ((a - 192) * 64 + (b - 128)) (utf8_text bs') else None
        | _ \<Rightarrow> None)
      else if a < 240 then (case bs of
          b # c # bs' \<Rightarrow>
            (let n = ((a - 224) * 64 + (b - 128)) * 64 + (c - 128) in
             if continuation b \<and> continuation c \<and> 2048 \<le> n \<and> scalar_value n then cons_text n (utf8_text bs') else None)
        | _ \<Rightarrow> None)
      else if a < 245 then (case bs of
          b # c # d # bs' \<Rightarrow>
            (let n = (((a - 240) * 64 + (b - 128)) * 64 + (c - 128)) * 64 + (d - 128) in
             if continuation b \<and> continuation c \<and> continuation d \<and> 65536 \<le> n \<and> scalar_value n
             then cons_text n (utf8_text bs') else None)
        | _ \<Rightarrow> None)
      else None)"

lemma continuation_low: "continuation b \<Longrightarrow> b = 128 + (b - 128) \<and> b - 128 < 64"
  by (auto simp: continuation_def)

lemma utf8_code_two:
  assumes "194 \<le> a" "a < 224" "continuation b"
  shows "utf8_code ((a - 192) * 64 + (b - 128)) = [a, b]" "scalar_value ((a - 192) * 64 + (b - 128))"
proof -
  obtain x y where "a = 192 + x" "b = 128 + y" "2 \<le> x" "x < 32" "y < 64"
    using assms by (auto simp: continuation_def intro: that [of "a - 192" "b - 128"])
  then show "utf8_code ((a - 192) * 64 + (b - 128)) = [a, b]" "scalar_value ((a - 192) * 64 + (b - 128))"
    by (simp_all add: utf8_code_def scalar_value_def)
qed

lemma div_digits:
  fixes x y :: nat
  assumes "y < 64"
  shows "(x * 64 + y) div 64 = x" "(x * 64 + y) mod 64 = y"
  using assms by simp_all

lemma utf8_code_three:
  assumes "224 \<le> a" "a < 240" "continuation b" "continuation c"
    and "2048 \<le> ((a - 224) * 64 + (b - 128)) * 64 + (c - 128)"
  shows "utf8_code (((a - 224) * 64 + (b - 128)) * 64 + (c - 128)) = [a, b, c]"
proof -
  define x y z n where "x = a - 224" and "y = b - 128" and "z = c - 128" and n: "n = (x * 64 + y) * 64 + z"
  then have xyz: "a = 224 + x" "b = 128 + y" "c = 128 + z" "x < 16" "y < 64" "z < 64"
    using assms(1,2) continuation_low [OF assms(3)] continuation_low [OF assms(4)] by simp_all
  then have d: "n div 64 = x * 64 + y" "n mod 64 = z" "n div 64 div 64 = x" "n div 64 mod 64 = y"
    by (simp_all only: n div_digits xyz)
  have "n div 64 div 64 = n div 4096" by (simp add: div_mult2_eq [symmetric])
  moreover have "n < 65536" "\<not> n < 2048" using xyz assms(5) by (simp_all add: n)
  ultimately have "utf8_code n = [a, b, c]" using d xyz by (simp add: utf8_code_def)
  then show ?thesis using xyz by (simp add: n)
qed

lemma utf8_code_four:
  assumes "240 \<le> a" "a < 245" "continuation b" "continuation c" "continuation d"
    and "65536 \<le> (((a - 240) * 64 + (b - 128)) * 64 + (c - 128)) * 64 + (d - 128)"
  shows "utf8_code ((((a - 240) * 64 + (b - 128)) * 64 + (c - 128)) * 64 + (d - 128)) = [a, b, c, d]"
proof -
  define x y z w n where "x = a - 240" and "y = b - 128" and "z = c - 128" and "w = d - 128"
    and n: "n = ((x * 64 + y) * 64 + z) * 64 + w"
  then have xyz: "a = 240 + x" "b = 128 + y" "c = 128 + z" "d = 128 + w" "x < 5" "y < 64" "z < 64" "w < 64"
    using assms(1,2) continuation_low [OF assms(3)] continuation_low [OF assms(4)] continuation_low [OF assms(5)] by simp_all
  then have e: "n div 64 = (x * 64 + y) * 64 + z" "n mod 64 = w" "n div 64 div 64 = x * 64 + y" "n div 64 mod 64 = z"
      "n div 64 div 64 div 64 = x" "n div 64 div 64 mod 64 = y"
    by (simp_all only: n div_digits xyz)
  have "n div 64 div 64 = n div 4096" "n div 64 div 64 div 64 = n div 262144" by (simp_all add: div_mult2_eq [symmetric])
  moreover have "\<not> n < 65536" using xyz assms(6) by (simp add: n)
  ultimately have "utf8_code n = [a, b, c, d]" using e xyz by (simp add: utf8_code_def)
  then show ?thesis using xyz by (simp add: n)
qed

lemma cons_text_Some: "cons_text n u = Some t \<longleftrightarrow> (\<exists>t'. u = Some t' \<and> t = n # t')"
  by (cases u) (auto simp: cons_text_def)

lemma utf8_codes_Cons: "utf8_codes (n # t) = utf8_code n @ utf8_codes t"
  by (simp add: utf8_codes_def)

lemma utf8_text_encodes:
  "utf8_text bs = Some codes \<Longrightarrow> utf8_codes codes = bs \<and> list_all scalar_value codes"
proof (induction bs arbitrary: codes rule: utf8_text.induct)
  case 1
  then show ?case by (simp add: utf8_codes_def)
next
  case (2 a bs)
  consider "a < 128" | "194 \<le> a" "a < 224" | "224 \<le> a" "a < 240" | "240 \<le> a" "a < 245"
    using 2(5) by (auto split: if_splits simp: not_less)
  then show ?case
  proof cases
    case 1
    with 2(5) obtain t where "utf8_text bs = Some t" "codes = a # t" by (auto simp: cons_text_Some)
    with 2(1) [OF 1] 1 show ?thesis by (auto simp: utf8_codes_Cons utf8_code_def scalar_value_def)
  next
    case c: 2
    with 2(5) obtain b bs' t where *: "bs = b # bs'" "continuation b" "utf8_text bs' = Some t"
        "codes = ((a - 192) * 64 + (b - 128)) # t"
      by (auto simp: cons_text_Some split: list.splits if_splits)
    then show ?thesis using 2(2) [OF _ _ _ *(1,2)] utf8_code_two [OF c *(2)] c
      by (auto simp: utf8_codes_Cons)
  next
    case c: 3
    with 2(5) obtain b d bs' t where *: "bs = b # d # bs'" "continuation b" "continuation d" "utf8_text bs' = Some t"
        "codes = (((a - 224) * 64 + (b - 128)) * 64 + (d - 128)) # t"
        "2048 \<le> ((a - 224) * 64 + (b - 128)) * 64 + (d - 128)" "scalar_value (((a - 224) * 64 + (b - 128)) * 64 + (d - 128))"
      by (auto simp: cons_text_Some Let_def split: list.splits if_splits)
    then show ?thesis using 2(3) [OF _ _ _ _ *(1) refl refl] utf8_code_three [OF c *(2,3,6)] c
      by (auto simp: utf8_codes_Cons)
  next
    case c: 4
    with 2(5) obtain b d e bs' t where *: "bs = b # d # e # bs'" "continuation b" "continuation d" "continuation e"
        "utf8_text bs' = Some t" "codes = ((((a - 240) * 64 + (b - 128)) * 64 + (d - 128)) * 64 + (e - 128)) # t"
        "65536 \<le> (((a - 240) * 64 + (b - 128)) * 64 + (d - 128)) * 64 + (e - 128)"
        "scalar_value ((((a - 240) * 64 + (b - 128)) * 64 + (d - 128)) * 64 + (e - 128))"
      by (auto simp: cons_text_Some Let_def split: list.splits if_splits)
    then show ?thesis using 2(4) [OF _ _ _ _ _ *(1) refl refl refl] utf8_code_four [OF c *(2,3,4,7)] c
      by (auto simp: utf8_codes_Cons)
  qed
qed

lemma continuation_digit: "y < 64 \<Longrightarrow> continuation (128 + y)"
  by (simp add: continuation_def)

lemma utf8_text_code:
  assumes "scalar_value n"
  shows "utf8_text (utf8_code n @ bs) = cons_text n (utf8_text bs)"
proof -
  have m: "n mod 64 < 64" "n div 64 mod 64 < 64" "n div 4096 mod 64 < 64" by simp_all
  have three: "n = (n div 4096 * 64 + n div 64 mod 64) * 64 + n mod 64"
    using div_mult_mod_eq [of "n div 64" 64] div_mult_mod_eq [of n 64] by (simp add: div_mult2_eq [symmetric])
  have four: "n = ((n div 262144 * 64 + n div 4096 mod 64) * 64 + n div 64 mod 64) * 64 + n mod 64"
    using div_mult_mod_eq [of "n div 4096" 64] three by (simp add: div_mult2_eq [symmetric])
  consider "n < 128" | "128 \<le> n" "n < 2048" | "2048 \<le> n" "n < 65536" | "65536 \<le> n" "n < 1114112"
    using assms by (force simp: scalar_value_def)
  then show ?thesis
  proof cases
    case 1
    then show ?thesis by (simp add: utf8_code_def)
  next
    case c: 2
    then have "2 \<le> n div 64" "n div 64 < 32" by simp_all
    then show ?thesis using c m by (simp add: utf8_code_def continuation_digit)
  next
    case c: 3
    then have "n div 4096 < 16" by simp
    then show ?thesis using c m assms three [symmetric] by (simp add: utf8_code_def continuation_digit Let_def)
  next
    case c: 4
    then have "n div 262144 < 5" by simp
    then show ?thesis using c m assms four [symmetric] by (simp add: utf8_code_def continuation_digit Let_def)
  qed
qed

lemma utf8_text_codes: "list_all scalar_value t \<Longrightarrow> utf8_text (utf8_codes t) = Some t"
  by (induction t) (simp_all add: utf8_codes_Cons utf8_text_code cons_text_def, simp add: utf8_codes_def)

lemma utf8_text_Some_iff: "utf8_text bs = Some t \<longleftrightarrow> utf8_bytes t = Some bs"
  using utf8_text_encodes [of bs t] utf8_text_codes [of t] by (auto simp: utf8_bytes_def)

section \<open>Sources, attachments, chunks\<close>

text \<open>\<open>_SOURCE_ID\<close>: \<open>[a-z][a-z0-9_.:-]{0,127}\<close>.\<close>

definition context_source_id :: "string \<Rightarrow> bool" where
  "context_source_id s = source_name 127 s"

record source_ref =
  sr_source_id :: string
  sr_kind :: string
  sr_label :: string
  sr_content_sha256 :: string

definition mk_source_ref :: "source_ref \<Rightarrow> source_ref res" where
  "mk_source_ref s =
     rbind (ensure (context_source_id (sr_source_id s)) (ValueError ''context source_id is invalid'')) (\<lambda>_.
     rbind (ensure (sr_kind s \<in> {''attachment'', ''enterprise_knowledge''}) (ValueError ''context source kind is unsupported'')) (\<lambda>_.
     rbind (ensure (\<not> blank (sr_label s)) (ValueError ''context source label is required'')) (\<lambda>_.
     rbind (ensure (hex_text 64 (sr_content_sha256 s)) (ValueError ''context source hash is invalid'')) (\<lambda>_.
     Inr s))))"

text \<open>The size of a frozen reference is any number of the snapshot; \<open>size < 1\<close> of a number (a float by its
  text, \<open>nan < 1\<close> is false), \<open>TypeError\<close> of anything else.\<close>

record attachment_ref =
  ar_attachment_id :: string
  ar_source_id :: string
  ar_display_filename :: string
  ar_media_type :: string
  ar_size_bytes :: pval
  ar_content_sha256 :: string
  ar_data_classification :: string
  ar_egress_decision :: string

fun below_one :: "pval \<Rightarrow> bool res" where
  "below_one (PInt n) = Inr (n < 1)"
| "below_one (PBool b) = Inr (\<not> b)"
| "below_one (PFloat t) = Inr (take 1 t = ''-'' \<or> take 2 t = ''0.'' \<or> (CHR ''e'' \<in> set t \<and> CHR ''-'' \<in> set t))"
| "below_one _ = Inl (TypeError ''not supported between instances'')"

definition mk_attachment_ref :: "attachment_ref \<Rightarrow> attachment_ref res" where
  "mk_attachment_ref a =
     rbind (ensure (\<not> blank (ar_attachment_id a)) (ValueError ''attachment_id is required'')) (\<lambda>_.
     rbind (ensure (context_source_id (ar_source_id a)) (ValueError ''attachment source_id is invalid'')) (\<lambda>_.
     rbind (ensure (\<not> blank (ar_display_filename a)) (ValueError ''attachment display filename is required'')) (\<lambda>_.
     rbind (ensure (ar_media_type a \<in> {''text/plain'', ''text/markdown''}) (ValueError ''attachment media type is unsupported'')) (\<lambda>_.
     rbind (below_one (ar_size_bytes a)) (\<lambda>small.
     rbind (ensure (\<not> small) (ValueError ''attachment size must be positive'')) (\<lambda>_.
     rbind (ensure (hex_text 64 (ar_content_sha256 a)) (ValueError ''attachment hash is invalid'')) (\<lambda>_.
     rbind (ensure (ar_data_classification a = ''internal'') (ValueError ''attachment classification must be internal'')) (\<lambda>_.
     rbind (ensure (ar_egress_decision a \<in> {''allow'', ''deny''}) (ValueError ''attachment egress decision is invalid'')) (\<lambda>_.
     Inr a)))))))))"

definition attachment_ref_value :: "attachment_ref \<Rightarrow> pmap" where
  "attachment_ref_value a =
     [(''attachment_id'', PStr (ar_attachment_id a)), (''source_id'', PStr (ar_source_id a)),
      (''display_filename'', PStr (ar_display_filename a)), (''media_type'', PStr (ar_media_type a)),
      (''size_bytes'', ar_size_bytes a), (''content_sha256'', PStr (ar_content_sha256 a)),
      (''data_classification'', PStr (ar_data_classification a)), (''egress_decision'', PStr (ar_egress_decision a))]"

record context_chunk =
  cc_source_id :: string
  cc_order :: int
  cc_text :: "nat list"
  cc_text_sha256 :: string

definition mk_context_chunk :: "context_chunk \<Rightarrow> context_chunk res" where
  "mk_context_chunk c =
     rbind (ensure (context_source_id (cc_source_id c)) (ValueError ''context chunk source_id is invalid'')) (\<lambda>_.
     rbind (ensure (0 \<le> cc_order c) (ValueError ''context chunk order must be non-negative'')) (\<lambda>_.
     rbind (ensure (cc_text c \<noteq> []) (ValueError ''context chunk text is required'')) (\<lambda>_.
     rbind (get_or_raise (utf8_bytes (cc_text c)) (ValueError ''surrogates not allowed'')) (\<lambda>bytes.
     let actual = sha256_hex bytes in
     rbind (expect_given (cc_text_sha256 c) actual ''context chunk hash does not match text'') (\<lambda>_.
     Inr (c\<lparr>cc_text_sha256 := actual\<rparr>))))))"

section \<open>The bundle\<close>

record context_bundle =
  cb_tenant_id :: string
  cb_scope_kind :: string
  cb_scope_id :: string
  cb_purpose :: string
  cb_actor_person_id :: string
  cb_sources :: "source_ref list"
  cb_chunks :: "context_chunk list"
  cb_attachments :: "attachment_ref list"
  cb_enterprise_knowledge :: "knowledge_ref list"
  cb_node_key :: "string option"
  cb_attempt_id :: "string option"
  cb_data_classification :: string
  cb_egress_decision :: string
  cb_created_at :: time
  cb_expires_at :: "time option"
  cb_fingerprint :: string

definition set_items :: "(string \<times> string option) list \<Rightarrow> pmap" where
  "set_items xs = concat (map (\<lambda>(k, v). case v of None \<Rightarrow> [] | Some s \<Rightarrow> [(k, PStr s)]) xs)"

definition source_ref_identity :: "source_ref \<Rightarrow> pval" where
  "source_ref_identity s = PDict [(''source_id'', PStr (sr_source_id s)), (''kind'', PStr (sr_kind s)),
     (''content_sha256'', PStr (sr_content_sha256 s))]"

definition attachment_identity :: "attachment_ref \<Rightarrow> pval" where
  "attachment_identity a = PDict [(''attachment_id'', PStr (ar_attachment_id a)), (''source_id'', PStr (ar_source_id a)),
     (''content_sha256'', PStr (ar_content_sha256 a)), (''data_classification'', PStr (ar_data_classification a)),
     (''egress_decision'', PStr (ar_egress_decision a))]"

definition chunk_identity :: "context_chunk \<Rightarrow> pval" where
  "chunk_identity c = PDict [(''source_id'', PStr (cc_source_id c)), (''order'', PInt (cc_order c)),
     (''text_sha256'', PStr (cc_text_sha256 c))]"

definition bundle_manifest :: "context_bundle \<Rightarrow> pmap" where
  "bundle_manifest b =
     [(''tenant_id'', PStr (cb_tenant_id b)),
      (''scope'', PDict [(''kind'', PStr (cb_scope_kind b)), (''id'', PStr (cb_scope_id b))]),
      (''purpose'', PStr (cb_purpose b)), (''data_classification'', PStr (cb_data_classification b)),
      (''egress_decision'', PStr (cb_egress_decision b)),
      (''sources'', PList (map source_ref_identity (cb_sources b))),
      (''attachments'', PList (map attachment_identity (cb_attachments b))),
      (''enterprise_knowledge'', PList (map knowledge_source_identity (cb_enterprise_knowledge b))),
      (''chunks'', PList (map chunk_identity (cb_chunks b)))] @
     set_items [(''node_key'', cb_node_key b), (''attempt_id'', cb_attempt_id b)]"

definition context_bundle_fingerprint :: "context_bundle \<Rightarrow> string" where
  "context_bundle_fingerprint b = canonical_hash (bundle_manifest b)"

definition unset :: "string option \<Rightarrow> bool" where
  "unset v \<longleftrightarrow> v = None \<or> v = Some []"

definition mk_context_bundle :: "context_bundle \<Rightarrow> context_bundle res" where
  "mk_context_bundle b =
     rbind (ensure (\<not> blank (cb_tenant_id b)) (ValueError ''context bundle tenant_id is required'')) (\<lambda>_.
     rbind (ensure (\<not> blank (cb_scope_id b)) (ValueError ''context bundle scope_id is required'')) (\<lambda>_.
     rbind (ensure (\<not> blank (cb_actor_person_id b)) (ValueError ''context bundle actor_person_id is required'')) (\<lambda>_.
     rbind (ensure ((cb_scope_kind b, cb_purpose b) \<in> {(''console_draft_request'', ''planning''), (''workflow_instance'', ''agent_execution'')})
              (ValueError ''context bundle scope and purpose are unsupported'')) (\<lambda>_.
     rbind (if cb_purpose b = ''planning''
            then ensure (cb_node_key b = None \<and> cb_attempt_id b = None) (ValueError ''planning context cannot bind a node or Attempt'')
            else ensure (\<not> unset (cb_node_key b) \<and> \<not> unset (cb_attempt_id b)) (ValueError ''Agent context must bind a node and Attempt'')) (\<lambda>_.
     rbind (ensure (cb_sources b \<noteq> [] \<and> cb_chunks b \<noteq> [] \<and> (cb_attachments b \<noteq> [] \<or> cb_enterprise_knowledge b \<noteq> []))
              (ValueError ''context bundle must contain authorized material'')) (\<lambda>_.
     rbind (ensure (cb_data_classification b = ''internal'') (ValueError ''context bundle classification must be internal'')) (\<lambda>_.
     rbind (ensure (cb_egress_decision b = ''allow'') (ValueError ''context bundle egress must be allowed'')) (\<lambda>_.
     rbind (ensure (case cb_expires_at b of None \<Rightarrow> False | Some t \<Rightarrow> cb_created_at b < t) (ValueError ''context bundle expiry is invalid'')) (\<lambda>_.
     let expected = map sr_source_id (cb_sources b) in
     rbind (ensure (expected = map ar_source_id (cb_attachments b) @ map kr_source_id (cb_enterprise_knowledge b))
              (ValueError ''context bundle source manifest is inconsistent'')) (\<lambda>_.
     rbind (ensure (distinct expected) (ValueError ''context bundle repeats a source'')) (\<lambda>_.
     rbind (ensure (list_all content_authorized (cb_enterprise_knowledge b))
              (ValueError ''enterprise knowledge source lacks authorization proof'')) (\<lambda>_.
     rbind (ensure (map cc_order (cb_chunks b) = map int [0..<length (cb_chunks b)])
              (ValueError ''context bundle chunks must have canonical order'')) (\<lambda>_.
     rbind (ensure (list_all (\<lambda>c. cc_source_id c \<in> set expected) (cb_chunks b))
              (ValueError ''context bundle chunk source is not authorized'')) (\<lambda>_.
     let actual = context_bundle_fingerprint b in
     rbind (expect_given (cb_fingerprint b) actual ''context bundle fingerprint is invalid'') (\<lambda>_.
     Inr (b\<lparr>cb_fingerprint := actual\<rparr>))))))))))))))))"

definition bundle_snapshot_manifest :: "context_bundle \<Rightarrow> pmap" where
  "bundle_snapshot_manifest b =
     [(''scope_kind'', PStr (cb_scope_kind b)), (''scope_id'', PStr (cb_scope_id b)), (''purpose'', PStr (cb_purpose b)),
      (''data_classification'', PStr (cb_data_classification b)), (''egress_decision'', PStr (cb_egress_decision b)),
      (''fingerprint'', PStr (cb_fingerprint b)),
      (''attachments'', PList (map (PDict \<circ> attachment_ref_value) (cb_attachments b))),
      (''enterprise_knowledge'', PList (map (PDict \<circ> knowledge_ref_value) (cb_enterprise_knowledge b)))] @
     set_items [(''node_key'', cb_node_key b), (''attempt_id'', cb_attempt_id b)]"

text \<open>One entry of \<open>prompt_sources\<close>: the source id, the label of the source (the last of that id) and the content.\<close>

definition prompt_sources :: "context_bundle \<Rightarrow> (string \<times> string \<times> nat list) list res" where
  "prompt_sources b =
     (let labels = rev (map (\<lambda>s. (sr_source_id s, sr_label s)) (cb_sources b)) in
      mapM (\<lambda>c. rbind (get_or_raise (map_of labels (cc_source_id c)) (KeyError (cc_source_id c)))
             (\<lambda>label. Inr (cc_source_id c, label, cc_text c))) (cb_chunks b))"

end
