(* ===== verification/Draft_Planning.thy ===== *)
theory Draft_Planning
  imports Planning_Context Draft_Validation
begin

text \<open>
  \<open>src/larkflow/planning/service.py\<close>, \<open>planning/bounded.py\<close>, \<open>planning/contracts.py\<close> and the loop of
  \<open>src/larkflow/workflow/draft_generation.py\<close>: a brief becomes a candidate definition. The language model, the
  texts of the prompts, the strict JSON reader and the classification of Chinese texts are parameters. A planner
  may call back \<open>on_repair\<close> while it runs, so that a run is a tree of such calls.
\<close>

section \<open>Runs of a planner\<close>

text \<open>A run has ended with a result, or calls \<open>on_repair()\<close> and goes on with what that call did.\<close>

datatype 'a generation = Done "'a res" | Repair "unit res \<Rightarrow> 'a generation"

primrec gmap :: "('a \<Rightarrow> 'b res) \<Rightarrow> 'a generation \<Rightarrow> 'b generation" where
  "gmap f (Done x) = Done (rbind x f)"
| "gmap f (Repair k) = Repair (\<lambda>r. gmap f (k r))"

text \<open>The run in a state that \<open>on_repair\<close> changes.\<close>

primrec run_generation :: "'a generation \<Rightarrow> ('s \<Rightarrow> 's \<times> unit res) \<Rightarrow> 's \<Rightarrow> 's \<times> 'a res" where
  "run_generation (Done x) repair s = (s, x)"
| "run_generation (Repair k) repair s = run_generation (k (snd (repair s))) repair (fst (repair s))"

text \<open>The results that a run may have, and the number of calls of \<open>on_repair\<close> that it may make.\<close>

primrec results :: "'a generation \<Rightarrow> 'a res set" where
  "results (Done x) = {x}"
| "results (Repair k) = (\<Union>r. results (k r))"

primrec repairs_at_most :: "'a generation \<Rightarrow> nat \<Rightarrow> bool" where
  "repairs_at_most (Done x) n = True"
| "repairs_at_most (Repair k) n = (n \<noteq> 0 \<and> (\<forall>r. repairs_at_most (k r) (n - 1)))"

lemma run_generation_result: "snd (run_generation g repair s) \<in> results g"
  by (induction g arbitrary: s) (simp, simp, blast)

lemma results_gmap: "results (gmap f g) = (\<lambda>x. rbind x f) ` results g"
  by (induction g) auto

lemma repairs_gmap: "repairs_at_most (gmap f g) n = repairs_at_most g n"
  by (induction g arbitrary: n) auto

section \<open>Contracts\<close>

text \<open>\<open>to_mutable\<close>, on values the same function as \<open>to_json_value\<close>.\<close>

definition to_mutable :: "pval \<Rightarrow> pval" where
  "to_mutable v = to_json_value v"

definition mutable_map :: "pmap \<Rightarrow> pmap" where
  "mutable_map m = map (map_prod id to_mutable) m"

record planner_request =
  pr_tenant_id :: string
  pr_actor_person_id :: string
  pr_request_id :: string
  pr_brief :: string
  pr_context :: string
  pr_context_bundle :: "context_bundle option"

definition mk_planner_request :: "planner_request \<Rightarrow> planner_request res" where
  "mk_planner_request q =
     rbind (ensure (list_all (\<lambda>s. \<not> blank s) [pr_tenant_id q, pr_actor_person_id q, pr_request_id q])
              (ValueError ''planner request field is required'')) (\<lambda>_.
     case pr_context_bundle q of
       None \<Rightarrow> Inr q
     | Some b \<Rightarrow>
         rbind (ensure (cb_tenant_id b = pr_tenant_id q) (ValueError ''planner context tenant does not match request'')) (\<lambda>_.
         rbind (ensure (cb_actor_person_id b = pr_actor_person_id q) (ValueError ''planner context actor does not match request'')) (\<lambda>_.
         rbind (ensure (cb_scope_id b = pr_request_id q) (ValueError ''planner context scope does not match request'')) (\<lambda>_.
         Inr q))))"

text \<open>\<open>PlannerResult\<close>: only the candidate is read again, frozen.\<close>

definition planner_result :: "pmap \<Rightarrow> pmap" where
  "planner_result candidate = freeze_map candidate"

type_synonym planner_runtime = "planner_request \<Rightarrow> pmap generation"

section \<open>The evidence that a request needs\<close>

text \<open>What the texts of a request say (lists of Chinese terms): whether it is about travel, forbids the web, needs
  external facts, and the labels of the travel facts that the documents lack.\<close>

record request_signals =
  rs_travel_intent :: bool
  rs_no_web :: bool
  rs_external_terms :: bool
  rs_missing_evidence :: "string list"

definition validate_request :: "bool \<Rightarrow> request_signals \<Rightarrow> context_bundle option \<Rightarrow> unit res" where
  "validate_request allow_web signals bundle =
     (if rs_no_web signals then
        rbind (ensure (bundle \<noteq> None) (DraftGenerationRejected ''no web and no documents'')) (\<lambda>_.
        ensure (rs_travel_intent signals \<longrightarrow> rs_missing_evidence signals = []) (DraftGenerationRejected ''documents lack evidence''))
      else ensure (\<not> ((rs_travel_intent signals \<or> rs_external_terms signals) \<and> \<not> allow_web))
             (DraftCapabilityUnavailable ''no web search backend''))"

text \<open>The parameters of validation: the classification, and the check of the travel domain.\<close>

record draft_validator =
  va_allow_web :: bool
  va_signals :: "string \<Rightarrow> string \<Rightarrow> context_bundle option \<Rightarrow> request_signals"
  va_domain :: "pmap \<Rightarrow> context_bundle option \<Rightarrow> unit res"

definition check_request :: "draft_validator \<Rightarrow> string \<Rightarrow> string \<Rightarrow> context_bundle option \<Rightarrow> unit res" where
  "check_request va brief background bundle = validate_request (va_allow_web va) (va_signals va brief background bundle) bundle"

definition draft_context_of :: "context_bundle \<Rightarrow> draft_context" where
  "draft_context_of b = \<lparr>dc_attachments = map ar_attachment_id (cb_attachments b),
     dc_enterprise_knowledge = map kr_source_id (cb_enterprise_knowledge b)\<rparr>"

definition validate_candidate :: "draft_validator \<Rightarrow> pmap \<Rightarrow> context_bundle option \<Rightarrow> unit res" where
  "validate_candidate va candidate bundle =
     validate_generated_draft (\<lambda>d _. va_domain va d bundle) (va_allow_web va) candidate (map_option draft_context_of bundle)"

section \<open>Server-owned fields\<close>

text \<open>What \<open>generate\<close> and \<open>plan\<close> write over a candidate: the schema version, the inputs, and the references of the
  agent nodes to the documents.\<close>

definition server_inputs :: "string \<Rightarrow> string \<Rightarrow> context_bundle option \<Rightarrow> pmap" where
  "server_inputs brief background bundle =
     [(''brief'', PStr brief), (''context'', PStr background)] @
     (case bundle of
        None \<Rightarrow> []
      | Some b \<Rightarrow>
          (if cb_attachments b \<noteq> [] then [(''project_attachments'', PList (map (PDict \<circ> attachment_ref_value) (cb_attachments b)))] else []) @
          (if cb_enterprise_knowledge b \<noteq> []
           then [(''enterprise_knowledge'', PList (map (PDict \<circ> knowledge_ref_value) (cb_enterprise_knowledge b)))] else []))"

definition server_owned :: "string \<Rightarrow> string \<Rightarrow> context_bundle option \<Rightarrow> pmap \<Rightarrow> pmap" where
  "server_owned brief background bundle candidate =
     (let candidate = dput ''inputs'' (PDict (server_inputs brief background bundle)) (dput ''schema_version'' (PStr ''0.2'') candidate) in
      case bundle of
        None \<Rightarrow> candidate
      | Some b \<Rightarrow>
          (let candidate = (if cb_attachments b \<noteq> [] then bind_project_attachment_inputs candidate else candidate) in
           if cb_enterprise_knowledge b \<noteq> [] then bind_enterprise_knowledge_inputs candidate else candidate))"

section \<open>The generator\<close>

text \<open>\<open>dg_complete\<close> is the n-th call of the language model (\<open>None\<close>: not a text), \<open>dg_decode\<close> the strict reader
  \<open>_strict_json_definition\<close>.\<close>

record draft_generator =
  dg_complete :: "nat \<Rightarrow> code_text \<Rightarrow> code_text option res"
  dg_prompt :: "string \<Rightarrow> string \<Rightarrow> context_bundle option \<Rightarrow> code_text"
  dg_repair_prompt :: "string \<Rightarrow> string \<Rightarrow> context_bundle option \<Rightarrow> code_text option \<Rightarrow> exn \<Rightarrow> code_text"
  dg_decode :: "code_text \<Rightarrow> pmap res"
  dg_max_result_chars :: int
  dg_validator :: draft_validator

definition MAX_GENERATION_ATTEMPTS :: nat where "MAX_GENERATION_ATTEMPTS = 2"
definition MAX_WIZARD_TEXT_CHARS :: nat where "MAX_WIZARD_TEXT_CHARS = 1000"

definition wizard_text :: "pval \<Rightarrow> bool \<Rightarrow> string res" where
  "wizard_text v required =
     (if v = PNone \<and> \<not> required then Inr []
      else
        rbind (get_or_raise (as_str v) (DraftGenerationRejected ''a text is required'')) (\<lambda>s.
        rbind (ensure (required \<longrightarrow> py_strip s \<noteq> []) (DraftGenerationRejected ''text is empty'')) (\<lambda>_.
        rbind (ensure (length (py_strip s) \<le> MAX_WIZARD_TEXT_CHARS) (DraftGenerationRejected ''text is too long'')) (\<lambda>_.
        Inr (py_strip s)))))"

definition generated_candidate ::
    "draft_generator \<Rightarrow> string \<Rightarrow> string \<Rightarrow> context_bundle option \<Rightarrow> code_text option \<Rightarrow> pmap res" where
  "generated_candidate g brief background bundle reply =
     rbind (get_or_raise reply (DraftGenerationRejected ''empty result'')) (\<lambda>reply.
     rbind (ensure (list_ex (\<lambda>n. \<not> code_space n) reply) (DraftGenerationRejected ''empty result'')) (\<lambda>_.
     rbind (ensure (int (length reply) \<le> dg_max_result_chars g) (DraftGenerationRejected ''result is too long'')) (\<lambda>_.
     rbind (dg_decode g reply) (\<lambda>candidate.
     let candidate = server_owned brief background bundle candidate in
     rbind (validate_candidate (dg_validator g) candidate bundle) (\<lambda>_. Inr candidate)))))"

text \<open>\<open>except DraftGenerationRejected\<close>, its subclass \<open>DraftCapabilityUnavailable\<close> being raised again.\<close>

fun repairable :: "exn \<Rightarrow> bool" where
  "repairable (DraftGenerationRejected m) = True"
| "repairable (AttachmentContextRejected m) = True"
| "repairable _ = False"

text \<open>The result that the repair prompt quotes, when it is a text that is not too long.\<close>

definition quoted_result :: "draft_generator \<Rightarrow> code_text option \<Rightarrow> code_text option" where
  "quoted_result g reply = (case reply of
     None \<Rightarrow> None | Some r \<Rightarrow> if int (length r) \<le> dg_max_result_chars g then Some r else None)"

fun draft_attempts ::
    "draft_generator \<Rightarrow> string \<Rightarrow> string \<Rightarrow> context_bundle option \<Rightarrow> nat \<Rightarrow> nat \<Rightarrow> code_text \<Rightarrow> pmap generation" where
  "draft_attempts g brief background bundle attempt 0 prompt = Done (Inl (ExternalError ''AssertionError''))"
| "draft_attempts g brief background bundle attempt (Suc left) prompt =
     (case dg_complete g attempt prompt of
        Inl e \<Rightarrow> Done (Inl e)
      | Inr reply \<Rightarrow>
          (case generated_candidate g brief background bundle reply of
             Inr candidate \<Rightarrow> Done (Inr candidate)
           | Inl e \<Rightarrow>
               if repairable e \<and> left \<noteq> 0 then Repair (\<lambda>r. case r of
                   Inl e' \<Rightarrow> Done (Inl e')
                 | Inr _ \<Rightarrow> draft_attempts g brief background bundle (Suc attempt) left
                     (dg_repair_prompt g brief background bundle (quoted_result g reply) e))
               else Done (Inl e)))"

definition generate_definition :: "draft_generator \<Rightarrow> pval \<Rightarrow> pval \<Rightarrow> context_bundle option \<Rightarrow> pmap generation" where
  "generate_definition g brief background bundle =
     (case rbind (wizard_text brief True) (\<lambda>brief.
           rbind (wizard_text background False) (\<lambda>background.
           rbind (check_request (dg_validator g) brief background bundle) (\<lambda>_. Inr (brief, background)))) of
        Inl e \<Rightarrow> Done (Inl e)
      | Inr (brief, background) \<Rightarrow>
          draft_attempts g brief background bundle 0 MAX_GENERATION_ATTEMPTS (dg_prompt g brief background bundle))"

definition bounded_planner :: "draft_generator \<Rightarrow> planner_runtime" where
  "bounded_planner g q = gmap (\<lambda>candidate. Inr (planner_result candidate))
     (generate_definition g (PStr (pr_brief q)) (PStr (pr_context q)) (pr_context_bundle q))"

section \<open>The planning service\<close>

definition plan :: "draft_validator \<Rightarrow> planner_runtime \<Rightarrow> planner_request \<Rightarrow> pmap generation" where
  "plan va runtime q =
     (case check_request va (pr_brief q) (pr_context q) (pr_context_bundle q) of
        Inl e \<Rightarrow> Done (Inl e)
      | Inr _ \<Rightarrow> gmap (\<lambda>candidate.
          let candidate = server_owned (pr_brief q) (pr_context q) (pr_context_bundle q) (mutable_map candidate) in
          rbind (validate_candidate va candidate (pr_context_bundle q)) (\<lambda>_. Inr (planner_result candidate))) (runtime q))"

definition planning_generate ::
    "draft_validator \<Rightarrow> planner_runtime \<Rightarrow> string \<Rightarrow> string \<Rightarrow> string \<Rightarrow> string \<Rightarrow> string \<Rightarrow> context_bundle option \<Rightarrow> pmap generation" where
  "planning_generate va runtime tenant actor rid brief background bundle =
     (case mk_planner_request \<lparr>pr_tenant_id = tenant, pr_actor_person_id = actor, pr_request_id = rid, pr_brief = brief,
          pr_context = background, pr_context_bundle = bundle\<rparr> of
        Inl e \<Rightarrow> Done (Inl e)
      | Inr q \<Rightarrow> gmap (\<lambda>candidate. Inr (mutable_map candidate)) (plan va runtime q))"

end
