(* ===== verification/Draft_Requests.thy ===== *)
theory Draft_Requests
  imports Draft_Planning Shared_World
begin

text \<open>
  \<open>src/larkflow/workflow/console_drafts.py\<close>: the requests of employees for a workflow draft, kept in
  \<open>InMemoryConsoleDraftRepository\<close> with the claims of the workers, and \<open>ConsoleDraftService\<close>, through
  which their owners create, read and cancel them. Texts that are not Latin-1 (the public error
  labels) are lists of code points; the status message shown to the user is left out.
\<close>

section \<open>Requests\<close>

datatype draft_status =
    R_COLLECTING | R_PENDING | R_GENERATING | R_REPAIRING | R_CREATING | R_FAILED | R_READY | R_REJECTED | R_EXHAUSTED | R_CANCELED

record draft_request =
  dr_id :: string
  dr_tenant_id :: string
  dr_requester_person_id :: string
  dr_collaborator_person_id :: string
  dr_brief :: string
  dr_context :: string
  dr_status :: draft_status
  dr_attempt_count :: int
  dr_available_at :: time
  dr_created_at :: time
  dr_updated_at :: time
  dr_definition :: "pmap option"
  dr_instance_id :: "string option"
  dr_completed_at :: "time option"
  dr_last_error :: "string option"
  dr_public_error_code :: "string option"
  dr_public_error_fields :: "code_text list"
  dr_canceled_at :: "time option"
  dr_canceled_by_person_id :: "string option"
  dr_generation_deferred :: bool
  dr_attachment_manifest :: "attachment_ref list"
  dr_enterprise_source_selection :: "string list"
  dr_enterprise_selection_version :: int
  dr_enterprise_knowledge_manifest :: "knowledge_ref list"
  dr_enterprise_selection_fingerprint :: "string option"

record draft_claim =
  dc_request :: draft_request
  dc_claim_token :: string

text \<open>\<open>_items\<close> and \<open>_claims\<close>.\<close>

type_synonym request_key = "string \<times> string"

record draft_repo =
  dq_items :: "(request_key, draft_request) odict"
  dq_claims :: "(request_key, string \<times> time) odict"

definition empty_draft_repo :: draft_repo where
  "empty_draft_repo = \<lparr>dq_items = [], dq_claims = []\<rparr>"

definition CONSOLE_DRAFT_MAX_ATTEMPTS :: int where "CONSOLE_DRAFT_MAX_ATTEMPTS = 2"

definition terminal_draft :: "draft_status \<Rightarrow> bool" where
  "terminal_draft s \<longleftrightarrow> s \<in> {R_READY, R_REJECTED, R_EXHAUSTED, R_CANCELED}"

definition cancelable_draft :: "draft_status \<Rightarrow> bool" where
  "cancelable_draft s \<longleftrightarrow> s \<in> {R_PENDING, R_GENERATING, R_REPAIRING, R_FAILED}"

section \<open>The repository\<close>

definition same_request :: "draft_request \<Rightarrow> draft_request \<Rightarrow> bool" where
  "same_request a b \<longleftrightarrow> dr_tenant_id a = dr_tenant_id b \<and> dr_id a = dr_id b \<and>
     dr_requester_person_id a = dr_requester_person_id b \<and> dr_collaborator_person_id a = dr_collaborator_person_id b \<and>
     dr_brief a = dr_brief b \<and> dr_context a = dr_context b \<and> dr_generation_deferred a = dr_generation_deferred b"

definition put_request :: "string \<Rightarrow> string \<Rightarrow> draft_request \<Rightarrow> draft_repo \<Rightarrow> draft_repo" where
  "put_request tenant rid req dq = dq\<lparr>dq_items := dput (tenant, rid) req (dq_items dq)\<rparr>"

definition drop_claim :: "string \<Rightarrow> string \<Rightarrow> draft_repo \<Rightarrow> draft_repo" where
  "drop_claim tenant rid dq = dq\<lparr>dq_claims := dpop (tenant, rid) (dq_claims dq)\<rparr>"

definition create_request :: "draft_request \<Rightarrow> draft_repo \<Rightarrow> (draft_repo \<times> draft_request) res" where
  "create_request req dq = (case dget (dq_items dq) (dr_tenant_id req, dr_id req) of
     None \<Rightarrow> Inr (put_request (dr_tenant_id req) (dr_id req) req dq, req)
   | Some current \<Rightarrow> if same_request current req then Inr (dq, current) else Inl (ConsoleDraftConflictError ''request_id_conflict''))"

definition get_request_for_owner :: "string \<Rightarrow> string \<Rightarrow> string \<Rightarrow> draft_repo \<Rightarrow> draft_request res" where
  "get_request_for_owner tenant rid person dq =
     rbind (get_or_raise (dget (dq_items dq) (tenant, rid)) (ConsoleDraftNotFoundError rid)) (\<lambda>req.
     rbind (compare_digest (dr_requester_person_id req) person) (\<lambda>same.
     rbind (ensure same (ConsoleDraftNotFoundError rid)) (\<lambda>_. Inr req)))"

text \<open>The requests of one owner, most recent first (a sort in reverse keeps the order of equal keys).\<close>

definition list_requests_for_owner :: "string \<Rightarrow> string \<Rightarrow> int \<Rightarrow> draft_repo \<Rightarrow> draft_request list res" where
  "list_requests_for_owner tenant person limit dq =
     rbind (mapM (\<lambda>req. rbind (compare_digest (dr_requester_person_id req) person) (\<lambda>same. Inr (same, req)))
         (filter (\<lambda>req. dr_tenant_id req = tenant) (map snd (dq_items dq)))) (\<lambda>xs.
     Inr (take (nat limit) (rev (sort_key (\<lambda>req. (dr_created_at req, dr_id req)) (rev (map snd (filter fst xs)))))))"

definition queue_collecting_context ::
    "string \<Rightarrow> string \<Rightarrow> string \<Rightarrow> attachment_ref list \<Rightarrow> knowledge_ref list \<Rightarrow> string option \<Rightarrow> time \<Rightarrow> draft_repo
       \<Rightarrow> (draft_repo \<times> draft_request) res" where
  "queue_collecting_context tenant rid person attachments enterprise fingerprint now dq =
     rbind (get_request_for_owner tenant rid person dq) (\<lambda>req.
     rbind (ensure (dr_status req = R_COLLECTING) (ConsoleDraftConflictError ''draft_not_collecting'')) (\<lambda>_.
     let updated = req\<lparr>dr_status := R_PENDING, dr_attachment_manifest := attachments,
           dr_enterprise_knowledge_manifest := enterprise, dr_enterprise_selection_fingerprint := fingerprint,
           dr_available_at := now, dr_updated_at := now\<rparr> in
     Inr (put_request tenant rid updated dq, updated)))"

definition queue_collecting ::
    "string \<Rightarrow> string \<Rightarrow> string \<Rightarrow> attachment_ref list \<Rightarrow> time \<Rightarrow> draft_repo \<Rightarrow> (draft_repo \<times> draft_request) res" where
  "queue_collecting tenant rid person manifest now = queue_collecting_context tenant rid person manifest [] None now"

subsection \<open>Claims\<close>

definition validate_draft_claim :: "string \<Rightarrow> int \<Rightarrow> int \<Rightarrow> unit res" where
  "validate_draft_claim worker limit ttl =
     rbind (ensure (\<not> blank worker) (ValueError ''console draft worker_id is required'')) (\<lambda>_.
     rbind (ensure (1 \<le> limit \<and> limit \<le> 100) (ValueError ''console draft claim limit must be between 1 and 100'')) (\<lambda>_.
     ensure (0 < ttl) (ValueError ''console draft claim_ttl must be positive'')))"

definition draft_claimable :: "draft_request \<Rightarrow> (string \<times> time) option \<Rightarrow> time \<Rightarrow> bool" where
  "draft_claimable req claim now \<longleftrightarrow> \<not> terminal_draft (dr_status req) \<and> dr_available_at req \<le> now \<and>
     (case claim of
        None \<Rightarrow> dr_status req \<in> {R_PENDING, R_FAILED}
      | Some (token, expires) \<Rightarrow> expires \<le> now \<and> dr_status req \<in> {R_GENERATING, R_REPAIRING, R_CREATING, R_FAILED})"

definition draft_candidates :: "string \<Rightarrow> time \<Rightarrow> draft_repo \<Rightarrow> draft_request list" where
  "draft_candidates tenant now dq =
     sort_key (\<lambda>req. (dr_available_at req, dr_created_at req, dr_id req))
       (filter (\<lambda>req. dr_tenant_id req = tenant \<and> draft_claimable req (dget (dq_claims dq) (tenant, dr_id req)) now)
         (map snd (dq_items dq)))"

definition claimed_request :: "time \<Rightarrow> draft_request \<Rightarrow> draft_request" where
  "claimed_request now req = req\<lparr>dr_status := (if dr_definition req \<noteq> None then R_CREATING else R_GENERATING),
     dr_attempt_count := dr_attempt_count req + 1, dr_updated_at := now\<rparr>"

definition put_claim :: "string \<Rightarrow> time \<Rightarrow> int \<Rightarrow> string \<Rightarrow> draft_request \<Rightarrow> draft_repo \<Rightarrow> draft_repo" where
  "put_claim tenant now ttl token req dq =
     \<lparr>dq_items = dput (tenant, dr_id req) (claimed_request now req) (dq_items dq),
      dq_claims = dput (tenant, dr_id req) (token, now + ttl) (dq_claims dq)\<rparr>"

definition claim_drafts ::
    "(nat \<Rightarrow> string) \<Rightarrow> string \<Rightarrow> string \<Rightarrow> time \<Rightarrow> int \<Rightarrow> int \<Rightarrow> draft_repo \<Rightarrow> (draft_repo \<times> draft_claim list) res" where
  "claim_drafts tokens tenant worker now limit ttl dq =
     rbind (validate_draft_claim worker limit ttl) (\<lambda>_.
     let candidates = enumerate 0 (take (nat limit) (draft_candidates tenant now dq)) in
     Inr (fold (\<lambda>(i, req). put_claim tenant now ttl (tokens i) req) candidates dq,
          map (\<lambda>(i, req). \<lparr>dc_request = claimed_request now req, dc_claim_token = tokens i\<rparr>) candidates))"

text \<open>\<open>_claimed\<close>: the token is checked, not the expiry.\<close>

definition claimed_draft :: "string \<Rightarrow> string \<Rightarrow> string \<Rightarrow> draft_repo \<Rightarrow> draft_request res" where
  "claimed_draft tenant rid token dq =
     rbind (get_or_raise (dget (dq_claims dq) (tenant, rid)) (InvalidConsoleDraftClaimError rid)) (\<lambda>claim.
     rbind (compare_digest (fst claim) token) (\<lambda>same.
     rbind (ensure same (InvalidConsoleDraftClaimError rid)) (\<lambda>_.
     get_or_raise (dget (dq_items dq) (tenant, rid)) (KeyError rid))))"

definition mark_repairing :: "string \<Rightarrow> string \<Rightarrow> string \<Rightarrow> time \<Rightarrow> draft_repo \<Rightarrow> (draft_repo \<times> unit) res" where
  "mark_repairing tenant rid token now dq =
     rbind (claimed_draft tenant rid token dq) (\<lambda>req.
     rbind (ensure (dr_status req = R_GENERATING) (InvalidConsoleDraftClaimError rid)) (\<lambda>_.
     Inr (put_request tenant rid (req\<lparr>dr_status := R_REPAIRING, dr_updated_at := now\<rparr>) dq, ())))"

definition save_candidate ::
    "string \<Rightarrow> string \<Rightarrow> string \<Rightarrow> pmap \<Rightarrow> time \<Rightarrow> draft_repo \<Rightarrow> (draft_repo \<times> draft_request) res" where
  "save_candidate tenant rid token document now dq =
     rbind (claimed_draft tenant rid token dq) (\<lambda>req.
     rbind (ensure (dr_status req \<in> {R_GENERATING, R_REPAIRING} \<and> dr_definition req \<in> {None, Some []})
              (InvalidConsoleDraftClaimError rid)) (\<lambda>_.
     let updated = req\<lparr>dr_status := R_CREATING, dr_definition := Some document, dr_updated_at := now\<rparr> in
     Inr (put_request tenant rid updated dq, updated)))"

definition or_kept :: "string option \<Rightarrow> string option \<Rightarrow> string option" where
  "or_kept a b = (if unset a then b else a)"

definition settled_request ::
    "draft_status \<Rightarrow> time \<Rightarrow> string option \<Rightarrow> string option \<Rightarrow> string option \<Rightarrow> code_text list \<Rightarrow> draft_request \<Rightarrow> draft_request" where
  "settled_request status now instance err code labels req =
     req\<lparr>dr_status := status, dr_instance_id := or_kept instance (dr_instance_id req), dr_updated_at := now,
       dr_completed_at := Some now, dr_last_error := err, dr_public_error_code := code, dr_public_error_fields := labels\<rparr>"

definition settle_draft ::
    "(draft_request \<Rightarrow> draft_request) \<Rightarrow> string \<Rightarrow> string \<Rightarrow> string \<Rightarrow> draft_repo \<Rightarrow> (draft_repo \<times> unit) res" where
  "settle_draft f tenant rid token dq =
     rbind (claimed_draft tenant rid token dq) (\<lambda>req.
     Inr (drop_claim tenant rid (put_request tenant rid (f req) dq), ()))"

definition mark_draft_ready :: "string \<Rightarrow> string \<Rightarrow> string \<Rightarrow> string \<Rightarrow> time \<Rightarrow> draft_repo \<Rightarrow> (draft_repo \<times> unit) res" where
  "mark_draft_ready tenant rid token instance now = settle_draft (settled_request R_READY now (Some instance) None None []) tenant rid token"

definition mark_rejected ::
    "string \<Rightarrow> string \<Rightarrow> string \<Rightarrow> string \<Rightarrow> string \<Rightarrow> code_text list \<Rightarrow> time \<Rightarrow> draft_repo \<Rightarrow> (draft_repo \<times> unit) res" where
  "mark_rejected tenant rid token err code labels now =
     settle_draft (settled_request R_REJECTED now None (Some err) (Some code) labels) tenant rid token"

definition failed_request :: "string \<Rightarrow> string \<Rightarrow> time \<Rightarrow> time \<Rightarrow> bool \<Rightarrow> draft_request \<Rightarrow> draft_request" where
  "failed_request err code now retry_at exhausted req =
     req\<lparr>dr_status := (if exhausted then R_EXHAUSTED else R_FAILED), dr_available_at := retry_at, dr_updated_at := now,
       dr_completed_at := (if exhausted then Some now else None), dr_last_error := Some err, dr_public_error_code := Some code,
       dr_public_error_fields := []\<rparr>"

definition mark_failed ::
    "string \<Rightarrow> string \<Rightarrow> string \<Rightarrow> string \<Rightarrow> string \<Rightarrow> time \<Rightarrow> time \<Rightarrow> bool \<Rightarrow> draft_repo \<Rightarrow> (draft_repo \<times> unit) res" where
  "mark_failed tenant rid token err code now retry_at exhausted = settle_draft (failed_request err code now retry_at exhausted) tenant rid token"

definition canceled_request :: "time \<Rightarrow> string \<Rightarrow> draft_request \<Rightarrow> draft_request" where
  "canceled_request now person req =
     req\<lparr>dr_status := R_CANCELED, dr_updated_at := now, dr_completed_at := Some now, dr_last_error := None,
       dr_public_error_code := None, dr_public_error_fields := [], dr_canceled_at := Some now,
       dr_canceled_by_person_id := Some person\<rparr>"

definition cancel_request :: "string \<Rightarrow> string \<Rightarrow> string \<Rightarrow> time \<Rightarrow> draft_repo \<Rightarrow> (draft_repo \<times> draft_request) res" where
  "cancel_request tenant rid person now dq =
     rbind (get_request_for_owner tenant rid person dq) (\<lambda>req.
     if dr_status req = R_CANCELED then Inr (dq, req)
     else
       rbind (ensure (cancelable_draft (dr_status req)) (ConsoleDraftConflictError ''draft_not_cancelable'')) (\<lambda>_.
       let updated = canceled_request now person req in
       Inr (drop_claim tenant rid (put_request tenant rid updated dq), updated)))"

definition assert_claim_active :: "string \<Rightarrow> string \<Rightarrow> string \<Rightarrow> draft_repo \<Rightarrow> unit res" where
  "assert_claim_active tenant rid token dq =
     rbind (claimed_draft tenant rid token dq) (\<lambda>req.
     ensure (dr_status req \<in> {R_GENERATING, R_REPAIRING, R_CREATING}) (InvalidConsoleDraftClaimError rid))"

section \<open>What the owner sees\<close>

record public_request =
  pq_id :: string
  pq_status :: string
  pq_collaborator_relation :: string
  pq_instance_id :: "string option"
  pq_created_at :: string
  pq_updated_at :: string
  pq_completed_at :: "string option"
  pq_attachment_count :: nat
  pq_enterprise_knowledge_count :: nat
  pq_enterprise_selection_version :: int
  pq_attempt :: "int \<times> int"
  pq_can_cancel :: bool
  pq_actionable_error :: "(string \<times> code_text list) option"
  pq_brief :: string

fun public_status :: "draft_status \<Rightarrow> string" where
  "public_status R_COLLECTING = ''collecting''"
| "public_status R_PENDING = ''queued''"
| "public_status R_GENERATING = ''generating''"
| "public_status R_REPAIRING = ''repairing''"
| "public_status R_CREATING = ''preparing''"
| "public_status R_FAILED = ''retrying''"
| "public_status R_READY = ''ready''"
| "public_status R_REJECTED = ''rejected''"
| "public_status R_EXHAUSTED = ''failed''"
| "public_status R_CANCELED = ''canceled''"

definition public_request_of :: "int \<Rightarrow> draft_request \<Rightarrow> public_request res" where
  "public_request_of max_attempts req =
     rbind (compare_digest (dr_requester_person_id req) (dr_collaborator_person_id req)) (\<lambda>same.
     Inr \<lparr>pq_id = dr_id req,
          pq_status = (if 1 < dr_attempt_count req \<and> dr_status req \<in> {R_GENERATING, R_REPAIRING, R_CREATING, R_FAILED}
            then ''retrying'' else public_status (dr_status req)),
          pq_collaborator_relation = (if same then ''you'' else ''collaborator''),
          pq_instance_id = dr_instance_id req, pq_created_at = isoformat (dr_created_at req),
          pq_updated_at = isoformat (dr_updated_at req), pq_completed_at = map_option isoformat (dr_completed_at req),
          pq_attachment_count = length (dr_attachment_manifest req),
          pq_enterprise_knowledge_count = length (dr_enterprise_knowledge_manifest req),
          pq_enterprise_selection_version = dr_enterprise_selection_version req,
          pq_attempt = (dr_attempt_count req, max_attempts), pq_can_cancel = cancelable_draft (dr_status req),
          pq_actionable_error = map_option (\<lambda>code. (code, dr_public_error_fields req)) (dr_public_error_code req),
          pq_brief = dr_brief req\<rparr>)"

section \<open>The service of the owners\<close>

text \<open>The directory is external: \<open>get_person\<close> gives the id of a person and whether it is active, or raises;
  \<open>None\<close> where the directory has no such method.\<close>

type_synonym directory = "(string \<Rightarrow> string \<Rightarrow> (string \<times> bool) res) option"

record console_principal =
  cp_tenant_id :: string
  cp_person_id :: string

definition normalized_request_id :: "pval \<Rightarrow> string res" where
  "normalized_request_id v =
     rbind (get_or_raise (as_str v) (ValueError ''request_id must be 32 lowercase hexadecimal characters'')) (\<lambda>s.
     rbind (ensure (hex_text 32 s) (ValueError ''request_id must be 32 lowercase hexadecimal characters'')) (\<lambda>_. Inr s))"

definition bounded_draft_text :: "pval \<Rightarrow> bool \<Rightarrow> string res" where
  "bounded_draft_text v required =
     (if v = PNone \<and> \<not> required then Inr []
      else
        rbind (get_or_raise (as_str v) (ValueError ''field must be a string'')) (\<lambda>s.
        rbind (ensure (required \<longrightarrow> py_strip s \<noteq> []) (ValueError ''field is required'')) (\<lambda>_.
        rbind (ensure (length (py_strip s) \<le> MAX_WIZARD_TEXT_CHARS) (ValueError ''field exceeds the limit'')) (\<lambda>_.
        Inr (py_strip s)))))"

fun unless_unknown_person :: "'a res \<Rightarrow> 'a res" where
  "unless_unknown_person (Inl (DirectoryValidationError m)) = Inl (ConsoleDraftConflictError ''collaborator_unavailable'')"
| "unless_unknown_person (Inl (KeyError m)) = Inl (ConsoleDraftConflictError ''collaborator_unavailable'')"
| "unless_unknown_person x = x"

definition validate_collaborator :: "directory \<Rightarrow> console_principal \<Rightarrow> string \<Rightarrow> unit res" where
  "validate_collaborator directory p collaborator =
     rbind (get_or_raise directory (ConsoleDraftConflictError ''directory_unavailable'')) (\<lambda>get_person.
     rbind (unless_unknown_person (get_person (cp_tenant_id p) collaborator)) (\<lambda>(pid, active).
     ensure (pid = collaborator \<and> active) (ConsoleDraftConflictError ''collaborator_unavailable'')))"

definition new_draft_request :: "console_principal \<Rightarrow> string \<Rightarrow> string \<Rightarrow> string \<Rightarrow> string \<Rightarrow> bool \<Rightarrow> time \<Rightarrow> draft_request" where
  "new_draft_request p rid brief background collaborator defer now =
     \<lparr>dr_id = rid, dr_tenant_id = cp_tenant_id p, dr_requester_person_id = cp_person_id p,
      dr_collaborator_person_id = collaborator, dr_brief = brief, dr_context = background,
      dr_status = (if defer then R_COLLECTING else R_PENDING), dr_attempt_count = 0, dr_available_at = now,
      dr_created_at = now, dr_updated_at = now, dr_definition = None, dr_instance_id = None, dr_completed_at = None,
      dr_last_error = None, dr_public_error_code = None, dr_public_error_fields = [], dr_canceled_at = None,
      dr_canceled_by_person_id = None, dr_generation_deferred = defer, dr_attachment_manifest = [],
      dr_enterprise_source_selection = [], dr_enterprise_selection_version = 0, dr_enterprise_knowledge_manifest = [],
      dr_enterprise_selection_fingerprint = None\<rparr>"

definition draft_collaborator :: "directory \<Rightarrow> console_principal \<Rightarrow> string option \<Rightarrow> string res" where
  "draft_collaborator directory p given =
     (let collaborator = py_strip (case given of None \<Rightarrow> [] | Some s \<Rightarrow> s) in
      if collaborator = [] then Inr (cp_person_id p)
      else rbind (validate_collaborator directory p collaborator) (\<lambda>_. Inr collaborator))"

text \<open>A mutation, and the answer made of the request it returns (the mutation stays when that raises).\<close>

definition answer_request :: "(draft_repo \<times> draft_request) res \<Rightarrow> draft_repo \<Rightarrow> draft_repo \<times> public_request res" where
  "answer_request x dq = (case x of
     Inl e \<Rightarrow> (dq, Inl e)
   | Inr (dq, req) \<Rightarrow> (dq, public_request_of CONSOLE_DRAFT_MAX_ATTEMPTS req))"

definition service_create_request ::
    "directory \<Rightarrow> console_principal \<Rightarrow> pval \<Rightarrow> pval \<Rightarrow> pval \<Rightarrow> string option \<Rightarrow> pval \<Rightarrow> time \<Rightarrow> draft_repo
       \<Rightarrow> draft_repo \<times> public_request res" where
  "service_create_request directory p rid brief background given defer now dq = answer_request
     (rbind (normalized_request_id rid) (\<lambda>rid.
      rbind (bounded_draft_text brief True) (\<lambda>brief.
      rbind (bounded_draft_text background False) (\<lambda>background.
      rbind (draft_collaborator directory p given) (\<lambda>collaborator.
      rbind (case defer of PBool b \<Rightarrow> Inr b | _ \<Rightarrow> Inl (ValueError ''defer_generation must be a boolean'')) (\<lambda>defer.
      create_request (new_draft_request p rid brief background collaborator defer now) dq)))))) dq"

definition service_get_request :: "console_principal \<Rightarrow> pval \<Rightarrow> draft_repo \<Rightarrow> public_request res" where
  "service_get_request p rid dq =
     rbind (normalized_request_id rid) (\<lambda>rid.
     rbind (get_request_for_owner (cp_tenant_id p) rid (cp_person_id p) dq) (public_request_of CONSOLE_DRAFT_MAX_ATTEMPTS))"

definition service_list_requests :: "console_principal \<Rightarrow> int \<Rightarrow> draft_repo \<Rightarrow> public_request list res" where
  "service_list_requests p limit dq =
     rbind (ensure (1 \<le> limit \<and> limit \<le> 20) (ValueError ''draft request limit must be between 1 and 20'')) (\<lambda>_.
     rbind (list_requests_for_owner (cp_tenant_id p) (cp_person_id p) limit dq) (mapM (public_request_of CONSOLE_DRAFT_MAX_ATTEMPTS)))"

definition service_cancel_request :: "console_principal \<Rightarrow> pval \<Rightarrow> time \<Rightarrow> draft_repo \<Rightarrow> draft_repo \<times> public_request res" where
  "service_cancel_request p rid now dq = answer_request
     (rbind (normalized_request_id rid) (\<lambda>rid. cancel_request (cp_tenant_id p) rid (cp_person_id p) now dq)) dq"

end
