(* ===== verification/Attachments.thy ===== *)
theory Attachments
  imports Draft_Requests
begin

text \<open>
  \<open>src/larkflow/workflow/console_attachments.py\<close>: the text files that an employee adds to a draft request
  while it is collecting. \<open>InMemoryConsoleAttachmentRepository\<close> (over the requests),
  \<open>InMemoryAttachmentBlobStore\<close>, \<open>ConsoleAttachmentService\<close> for the owner, and \<open>PlanningContextService\<close>, which
  makes the planning context of a frozen manifest. Contents are bytes below 256, texts code points.
\<close>

section \<open>Attachments\<close>

definition MAX_ATTACHMENTS_PER_REQUEST :: nat where "MAX_ATTACHMENTS_PER_REQUEST = 8"
definition MAX_ATTACHMENT_BYTES :: int where "MAX_ATTACHMENT_BYTES = 32 * 1024"
definition MAX_ATTACHMENTS_TOTAL_BYTES :: int where "MAX_ATTACHMENTS_TOTAL_BYTES = 128 * 1024"
definition MAX_RETAINED_ATTACHMENTS_PER_TENANT :: nat where "MAX_RETAINED_ATTACHMENTS_PER_TENANT = 1024"
definition MAX_RETAINED_ATTACHMENT_BYTES_PER_TENANT :: int where
  "MAX_RETAINED_ATTACHMENT_BYTES_PER_TENANT = 32 * 1024 * 1024"
definition MAX_CONTEXT_BUNDLE_CHARS :: int where "MAX_CONTEXT_BUNDLE_CHARS = 60000"
definition MAX_ATTACHMENT_FILENAME_CHARS :: nat where "MAX_ATTACHMENT_FILENAME_CHARS = 120"
definition CONTEXT_BUNDLE_TTL :: int where "CONTEXT_BUNDLE_TTL = 15 * 60 * 1000000"

definition attachment_id_text :: "string \<Rightarrow> bool" where
  "attachment_id_text s = hex_text 32 s"

definition object_key_text :: "string \<Rightarrow> bool" where
  "object_key_text s \<longleftrightarrow> length s = 49 \<and> hex_text 16 (take 16 s) \<and> s ! 16 = CHR ''/'' \<and> hex_text 32 (drop 17 s)"

record console_attachment =
  ca_tenant_id :: string
  ca_attachment_id :: string
  ca_origin_request_id :: string
  ca_instance_id :: "string option"
  ca_uploader_person_id :: string
  ca_display_filename :: string
  ca_media_type :: string
  ca_size_bytes :: int
  ca_content_sha256 :: string
  ca_object_key :: string
  ca_status :: string
  ca_data_classification :: string
  ca_model_egress_policy :: string
  ca_created_at :: time
  ca_revoked_at :: "time option"

definition path_separator :: "char \<Rightarrow> bool" where
  "path_separator c \<longleftrightarrow> c = CHR ''/'' \<or> c = CHR 0x5C"

definition mk_console_attachment :: "console_attachment \<Rightarrow> console_attachment res" where
  "mk_console_attachment a =
     rbind (ensure (\<not> blank (ca_tenant_id a) \<and> \<not> blank (ca_uploader_person_id a)) (ValueError ''attachment tenant and uploader are required'')) (\<lambda>_.
     rbind (ensure (attachment_id_text (ca_attachment_id a)) (ValueError ''attachment id is invalid'')) (\<lambda>_.
     rbind (ensure (attachment_id_text (ca_origin_request_id a)) (ValueError ''attachment origin request id is invalid'')) (\<lambda>_.
     rbind (ensure (object_key_text (ca_object_key a)) (ValueError ''attachment object key is invalid'')) (\<lambda>_.
     rbind (ensure (\<not> blank (ca_display_filename a) \<and> length (ca_display_filename a) \<le> MAX_ATTACHMENT_FILENAME_CHARS \<and>
              \<not> list_ex path_separator (ca_display_filename a)) (ValueError ''attachment display filename is invalid'')) (\<lambda>_.
     rbind (ensure (ca_media_type a \<in> {''text/plain'', ''text/markdown''}) (ValueError ''attachment media type is invalid'')) (\<lambda>_.
     rbind (ensure (1 \<le> ca_size_bytes a \<and> ca_size_bytes a \<le> MAX_ATTACHMENT_BYTES) (ValueError ''attachment size is invalid'')) (\<lambda>_.
     rbind (ensure (hex_text 64 (ca_content_sha256 a)) (ValueError ''attachment content hash is invalid'')) (\<lambda>_.
     rbind (ensure (ca_status a \<in> {''ready'', ''revoked''}) (ValueError ''attachment status is invalid'')) (\<lambda>_.
     rbind (ensure (ca_data_classification a = ''internal'') (ValueError ''attachment classification must be internal'')) (\<lambda>_.
     rbind (ensure (ca_model_egress_policy a \<in> {''allow'', ''deny''}) (ValueError ''attachment egress policy is invalid'')) (\<lambda>_.
     rbind (ensure (ca_status a = ''ready'' \<longrightarrow> ca_revoked_at a = None) (ValueError ''ready attachment cannot have revoked_at'')) (\<lambda>_.
     rbind (ensure (ca_status a = ''revoked'' \<longrightarrow> ca_revoked_at a \<noteq> None) (ValueError ''revoked attachment requires revoked_at'')) (\<lambda>_.
     Inr a)))))))))))))"

definition attachment_reference :: "console_attachment \<Rightarrow> attachment_ref res" where
  "attachment_reference a = mk_attachment_ref
     \<lparr>ar_attachment_id = ca_attachment_id a, ar_source_id = ''attachment:'' @ ca_attachment_id a,
      ar_display_filename = ca_display_filename a, ar_media_type = ca_media_type a, ar_size_bytes = PInt (ca_size_bytes a),
      ar_content_sha256 = ca_content_sha256 a, ar_data_classification = ca_data_classification a,
      ar_egress_decision = ca_model_egress_policy a\<rparr>"

section \<open>The store\<close>

text \<open>The requests, the attachments, and the blobs by object key.\<close>

record console_store =
  cs_drafts :: draft_repo
  cs_attachments :: "(string \<times> string, console_attachment) odict"
  cs_blobs :: "(string, nat list) odict"

subsection \<open>Blobs\<close>

definition blob_key :: "string \<Rightarrow> unit res" where
  "blob_key key = ensure (object_key_text key) (ValueError ''attachment object key is invalid'')"

definition blob_put :: "string \<Rightarrow> nat list \<Rightarrow> console_store \<Rightarrow> console_store res" where
  "blob_put key content s =
     rbind (blob_key key) (\<lambda>_.
     rbind (ensure (dget (cs_blobs s) key = None) (FileExistsError ''attachment blob already exists'')) (\<lambda>_.
     Inr (s\<lparr>cs_blobs := dput key content (cs_blobs s)\<rparr>)))"

definition blob_get :: "string \<Rightarrow> console_store \<Rightarrow> nat list res" where
  "blob_get key s =
     rbind (blob_key key) (\<lambda>_. get_or_raise (dget (cs_blobs s) key) (FileNotFoundError ''attachment blob is missing''))"

definition blob_delete :: "string \<Rightarrow> console_store \<Rightarrow> console_store res" where
  "blob_delete key s = rbind (blob_key key) (\<lambda>_. Inr (s\<lparr>cs_blobs := dpop key (cs_blobs s)\<rparr>))"

subsection \<open>The repository\<close>

fun as_attachment_error :: "'a res \<Rightarrow> 'a res" where
  "as_attachment_error (Inl (ConsoleDraftNotFoundError m)) = Inl (ConsoleAttachmentNotFoundError m)"
| "as_attachment_error x = x"

definition request_owner :: "string \<Rightarrow> string \<Rightarrow> string \<Rightarrow> console_store \<Rightarrow> draft_request res" where
  "request_owner tenant rid person s = as_attachment_error (get_request_for_owner tenant rid person (cs_drafts s))"

definition require_collecting :: "draft_request \<Rightarrow> unit res" where
  "require_collecting req = ensure (dr_status req = R_COLLECTING) (ConsoleAttachmentConflictError ''draft_not_collecting'')"

definition require_planning_state :: "draft_request \<Rightarrow> unit res" where
  "require_planning_state req =
     ensure (dr_status req \<in> {R_PENDING, R_GENERATING, R_REPAIRING, R_CREATING, R_FAILED})
       (AttachmentContextRejected ''draft request is not in a planning state'')"

definition authorize_collecting :: "string \<Rightarrow> string \<Rightarrow> string \<Rightarrow> console_store \<Rightarrow> unit res" where
  "authorize_collecting tenant rid person s = rbind (request_owner tenant rid person s) require_collecting"

definition total_bytes :: "console_attachment list \<Rightarrow> int" where
  "total_bytes xs = sum_list (map ca_size_bytes xs)"

definition retained_for_request :: "string \<Rightarrow> string \<Rightarrow> console_store \<Rightarrow> console_attachment list" where
  "retained_for_request tenant rid s =
     filter (\<lambda>a. ca_tenant_id a = tenant \<and> ca_origin_request_id a = rid) (map snd (cs_attachments s))"

definition retained_for_tenant :: "string \<Rightarrow> console_store \<Rightarrow> console_attachment list" where
  "retained_for_tenant tenant s = filter (\<lambda>a. ca_tenant_id a = tenant) (map snd (cs_attachments s))"

definition check_attachment_limits :: "console_attachment list \<Rightarrow> console_attachment list \<Rightarrow> int \<Rightarrow> unit res" where
  "check_attachment_limits for_request for_tenant incoming =
     rbind (ensure (length for_request < MAX_ATTACHMENTS_PER_REQUEST) (ConsoleAttachmentConflictError ''too_many_attachments'')) (\<lambda>_.
     rbind (ensure (total_bytes for_request + incoming \<le> MAX_ATTACHMENTS_TOTAL_BYTES)
              (ConsoleAttachmentConflictError ''attachments_too_large'')) (\<lambda>_.
     rbind (ensure (length for_tenant < MAX_RETAINED_ATTACHMENTS_PER_TENANT)
              (ConsoleAttachmentConflictError ''tenant_attachment_quota_exceeded'')) (\<lambda>_.
     ensure (total_bytes for_tenant + incoming \<le> MAX_RETAINED_ATTACHMENT_BYTES_PER_TENANT)
       (ConsoleAttachmentConflictError ''tenant_attachment_quota_exceeded''))))"

definition create_for_request :: "console_attachment \<Rightarrow> console_store \<Rightarrow> (console_store \<times> console_attachment) res" where
  "create_for_request a s =
     rbind (request_owner (ca_tenant_id a) (ca_origin_request_id a) (ca_uploader_person_id a) s) (\<lambda>req.
     rbind (require_collecting req) (\<lambda>_.
     rbind (check_attachment_limits (retained_for_request (ca_tenant_id a) (ca_origin_request_id a) s)
              (retained_for_tenant (ca_tenant_id a) s) (ca_size_bytes a)) (\<lambda>_.
     let key = (ca_tenant_id a, ca_attachment_id a) in
     rbind (ensure (dget (cs_attachments s) key = None) (ConsoleAttachmentConflictError ''attachment_id_conflict'')) (\<lambda>_.
     Inr (s\<lparr>cs_attachments := dput key a (cs_attachments s)\<rparr>, a)))))"

definition by_age :: "console_attachment list \<Rightarrow> console_attachment list" where
  "by_age = sort_key (\<lambda>a. (ca_created_at a, ca_attachment_id a))"

definition list_attachments :: "string \<Rightarrow> string \<Rightarrow> string \<Rightarrow> console_store \<Rightarrow> console_attachment list res" where
  "list_attachments tenant rid person s =
     rbind (request_owner tenant rid person s) (\<lambda>_. Inr (by_age (retained_for_request tenant rid s)))"

definition ready_for_request :: "string \<Rightarrow> string \<Rightarrow> console_store \<Rightarrow> console_attachment list" where
  "ready_for_request tenant rid s = by_age (filter (\<lambda>a. ca_status a = ''ready'') (retained_for_request tenant rid s))"

definition revoke_attachment ::
    "string \<Rightarrow> string \<Rightarrow> string \<Rightarrow> string \<Rightarrow> time \<Rightarrow> console_store \<Rightarrow> (console_store \<times> console_attachment) res" where
  "revoke_attachment tenant rid aid person now s =
     rbind (request_owner tenant rid person s) (\<lambda>req.
     rbind (require_collecting req) (\<lambda>_.
     rbind (get_or_raise (dget (cs_attachments s) (tenant, aid)) (ConsoleAttachmentNotFoundError aid)) (\<lambda>a.
     rbind (ensure (ca_origin_request_id a = rid \<and> ca_status a = ''ready'') (ConsoleAttachmentNotFoundError aid)) (\<lambda>_.
     rbind (mk_console_attachment (a\<lparr>ca_status := ''revoked'', ca_revoked_at := Some now\<rparr>)) (\<lambda>revoked.
     Inr (s\<lparr>cs_attachments := dput (tenant, aid) revoked (cs_attachments s)\<rparr>, revoked))))))"

definition freeze_and_queue ::
    "string \<Rightarrow> string \<Rightarrow> string \<Rightarrow> time \<Rightarrow> console_store \<Rightarrow> (console_store \<times> draft_request) res" where
  "freeze_and_queue tenant rid person now s =
     rbind (request_owner tenant rid person s) (\<lambda>req.
     rbind (require_collecting req) (\<lambda>_.
     let attachments = ready_for_request tenant rid s in
     rbind (ensure (\<not> list_ex (\<lambda>a. ca_model_egress_policy a \<noteq> ''allow'') attachments) (ConsoleAttachmentConflictError ''egress_denied'')) (\<lambda>_.
     rbind (mapM attachment_reference attachments) (\<lambda>manifest.
     rbind (queue_collecting tenant rid person manifest now (cs_drafts s)) (\<lambda>(dq, updated).
     Inr (s\<lparr>cs_drafts := dq\<rparr>, updated))))))"

text \<open>The dictionary comprehension keyed by attachment id: the last attachment of an id counts.\<close>

definition by_attachment_id :: "console_attachment list \<Rightarrow> (string, console_attachment) odict" where
  "by_attachment_id xs = fold (\<lambda>a. dput (ca_attachment_id a) a) xs []"

text \<open>\<open>item.reference() == expected\<close>: sizes are compared as numbers.\<close>

definition same_reference :: "attachment_ref \<Rightarrow> attachment_ref \<Rightarrow> bool" where
  "same_reference a b \<longleftrightarrow> a\<lparr>ar_size_bytes := PNone\<rparr> = b\<lparr>ar_size_bytes := PNone\<rparr> \<and> py_eq (ar_size_bytes a) (ar_size_bytes b)"

definition manifest_record ::
    "(string, console_attachment) odict \<Rightarrow> string \<Rightarrow> bool \<Rightarrow> attachment_ref \<Rightarrow> console_attachment res" where
  "manifest_record by_id expected_instance promoted expected =
     rbind (get_or_raise (dget by_id (ar_attachment_id expected)) (AttachmentContextRejected ''frozen attachment is unavailable'')) (\<lambda>a.
     rbind (ensure (ca_status a = ''ready'' \<and> ca_revoked_at a = None) (AttachmentContextRejected ''frozen attachment is unavailable'')) (\<lambda>_.
     rbind (ensure (promoted \<longrightarrow> ca_instance_id a = Some expected_instance) (AttachmentContextRejected ''attachment is not bound to the instance'')) (\<lambda>_.
     rbind (ensure (\<not> promoted \<longrightarrow> ca_instance_id a \<in> {None, Some expected_instance})
              (AttachmentContextRejected ''attachment is bound to another instance'')) (\<lambda>_.
     rbind (attachment_reference a) (\<lambda>reference.
     rbind (ensure (same_reference reference expected) (AttachmentContextRejected ''frozen attachment metadata differ'')) (\<lambda>_. Inr a))))))"

definition ordered_manifest_records ::
    "attachment_ref list \<Rightarrow> (string, console_attachment) odict \<Rightarrow> string \<Rightarrow> bool \<Rightarrow> console_attachment list res" where
  "ordered_manifest_records manifest by_id expected_instance promoted =
     rbind (mapM (manifest_record by_id expected_instance promoted) manifest) (\<lambda>ordered.
     rbind (ensure (length ordered = length by_id) (AttachmentContextRejected ''manifest contains unauthorized content'')) (\<lambda>_.
     Inr ordered))"

definition draft_instance_id :: "string \<Rightarrow> string" where
  "draft_instance_id rid = ''console_draft_'' @ rid"

definition resolve_for_planning :: "draft_request \<Rightarrow> console_store \<Rightarrow> console_attachment list res" where
  "resolve_for_planning req s =
     rbind (request_owner (dr_tenant_id req) (dr_id req) (dr_requester_person_id req) s) (\<lambda>current.
     rbind (require_planning_state current) (\<lambda>_.
     rbind (ensure (dr_attachment_manifest current = dr_attachment_manifest req)
              (AttachmentContextRejected ''manifest differs from the current request'')) (\<lambda>_.
     ordered_manifest_records (dr_attachment_manifest req) (by_attachment_id (ready_for_request (dr_tenant_id req) (dr_id req) s))
       (draft_instance_id (dr_id req)) False)))"

definition resolve_for_agent :: "string \<Rightarrow> string \<Rightarrow> attachment_ref list \<Rightarrow> console_store \<Rightarrow> console_attachment list res" where
  "resolve_for_agent tenant iid manifest s =
     ordered_manifest_records manifest
       (by_attachment_id (filter (\<lambda>a. ca_tenant_id a = tenant \<and> ca_instance_id a = Some iid \<and>
            ca_attachment_id a \<in> set (map ar_attachment_id manifest)) (map snd (cs_attachments s))))
       iid True"

text \<open>The loop over the set of the ids of the manifest, which stops at the first attachment that cannot be
  promoted; the ones before it stay promoted. (A set has no order: that of the manifest is taken.)\<close>

definition promote_attachment :: "draft_request \<Rightarrow> string \<Rightarrow> string \<Rightarrow> console_store \<Rightarrow> console_store res" where
  "promote_attachment req iid aid s =
     rbind (get_or_raise (dget (cs_attachments s) (dr_tenant_id req, aid)) (AttachmentContextRejected ''promotion manifest is incomplete'')) (\<lambda>a.
     rbind (ensure (ca_origin_request_id a = dr_id req) (AttachmentContextRejected ''promotion manifest is incomplete'')) (\<lambda>_.
     rbind (ensure (ca_instance_id a \<in> {None, Some iid}) (AttachmentContextRejected ''attachment is bound to another instance'')) (\<lambda>_.
     rbind (mk_console_attachment (a\<lparr>ca_instance_id := Some iid\<rparr>)) (\<lambda>promoted.
     Inr (s\<lparr>cs_attachments := dput (dr_tenant_id req, aid) promoted (cs_attachments s)\<rparr>)))))"

fun promote_all :: "draft_request \<Rightarrow> string \<Rightarrow> string list \<Rightarrow> console_store \<Rightarrow> console_store \<times> unit res" where
  "promote_all req iid [] s = (s, Inr ())"
| "promote_all req iid (aid # aids) s = (case promote_attachment req iid aid s of
     Inl e \<Rightarrow> (s, Inl e)
   | Inr s \<Rightarrow> promote_all req iid aids s)"

definition promote_attachments :: "draft_request \<Rightarrow> string \<Rightarrow> console_store \<Rightarrow> console_store \<times> unit res" where
  "promote_attachments req iid = promote_all req iid (remdups (map ar_attachment_id (dr_attachment_manifest req)))"

section \<open>The service of the owner\<close>

record attachment_service =
  as_model_egress_policy :: string

definition mk_attachment_service :: "string \<Rightarrow> attachment_service res" where
  "mk_attachment_service policy =
     rbind (ensure (policy \<in> {''allow'', ''deny''}) (ValueError ''attachment model egress policy is invalid'')) (\<lambda>_.
     Inr \<lparr>as_model_egress_policy = policy\<rparr>)"

definition planning_enabled :: "attachment_service \<Rightarrow> bool" where
  "planning_enabled sv \<longleftrightarrow> as_model_egress_policy sv = ''allow''"

definition validated_filename :: "pval \<Rightarrow> string res" where
  "validated_filename v =
     rbind (get_or_raise (as_str v) (ConsoleAttachmentConflictError ''invalid_filename'')) (\<lambda>s.
     let filename = py_strip s in
     rbind (ensure (filename \<noteq> [] \<and> length filename \<le> MAX_ATTACHMENT_FILENAME_CHARS \<and> \<not> list_ex path_separator filename \<and>
              filename \<notin> {''.'', ''..''} \<and> \<not> list_ex (\<lambda>c. (of_char c :: nat) < 32) filename)
              (ConsoleAttachmentConflictError ''invalid_filename'')) (\<lambda>_. Inr filename))"

definition validated_attachment_id :: "pval \<Rightarrow> string res" where
  "validated_attachment_id v = (case as_str v of
     Some s \<Rightarrow> if attachment_id_text s then Inr s else Inl (ConsoleAttachmentNotFoundError ''attachment'')
   | None \<Rightarrow> Inl (ConsoleAttachmentNotFoundError ''attachment''))"

definition public_attachment :: "console_attachment \<Rightarrow> pmap" where
  "public_attachment a =
     [(''id'', PStr (ca_attachment_id a)), (''display_filename'', PStr (ca_display_filename a)), (''media_type'', PStr (ca_media_type a)),
      (''size_bytes'', PInt (ca_size_bytes a)), (''content_sha256'', PStr (ca_content_sha256 a)), (''status'', PStr (ca_status a)),
      (''data_classification'', PStr (ca_data_classification a)), (''model_egress_policy'', PStr (ca_model_egress_policy a)),
      (''created_at'', PStr (isoformat (ca_created_at a))), (''revoked_at'', opt_str (map_option isoformat (ca_revoked_at a)))]"

text \<open>The checks of \<open>upload\<close>, up to the new attachment and its bytes. The content is \<open>None\<close> when it is not
  a string; \<open>aid\<close> is the random id that is drawn.\<close>

definition uploaded_attachment ::
    "attachment_service \<Rightarrow> console_principal \<Rightarrow> string \<Rightarrow> pval \<Rightarrow> pval \<Rightarrow> code_text option \<Rightarrow> string \<Rightarrow> time \<Rightarrow> console_store
       \<Rightarrow> (console_attachment \<times> nat list) res" where
  "uploaded_attachment sv p rid filename media_type content aid now s =
     rbind (ensure (planning_enabled sv) (ConsoleAttachmentConflictError ''attachment_planning_unavailable'')) (\<lambda>_.
     rbind (authorize_collecting (cp_tenant_id p) rid (cp_person_id p) s) (\<lambda>_.
     rbind (validated_filename filename) (\<lambda>filename.
     rbind (in_str_set media_type [''text/plain'', ''text/markdown'']) (\<lambda>known.
     rbind (ensure known (ConsoleAttachmentConflictError ''unsupported_media_type'')) (\<lambda>_.
     rbind (get_or_raise content (ConsoleAttachmentConflictError ''invalid_utf8'')) (\<lambda>content.
     rbind (get_or_raise (utf8_bytes content) (ValueError ''surrogates not allowed'')) (\<lambda>encoded.
     rbind (ensure (list_ex (\<lambda>n. \<not> code_space n) content) (ConsoleAttachmentConflictError ''empty_attachment'')) (\<lambda>_.
     rbind (ensure (int (length encoded) \<le> MAX_ATTACHMENT_BYTES) (ConsoleAttachmentConflictError ''attachment_too_large'')) (\<lambda>_.
     rbind (mk_console_attachment
         \<lparr>ca_tenant_id = cp_tenant_id p, ca_attachment_id = aid, ca_origin_request_id = rid, ca_instance_id = None,
          ca_uploader_person_id = cp_person_id p, ca_display_filename = filename, ca_media_type = py_str media_type,
          ca_size_bytes = int (length encoded), ca_content_sha256 = sha256_hex encoded,
          ca_object_key = take 16 (text_sha256 (cp_tenant_id p)) @ ''/'' @ aid, ca_status = ''ready'',
          ca_data_classification = ''internal'', ca_model_egress_policy = as_model_egress_policy sv, ca_created_at = now,
          ca_revoked_at = None\<rparr>) (\<lambda>a. Inr (a, encoded)))))))))))"

text \<open>The blob is put first, and deleted again when the repository refuses the attachment.\<close>

definition upload_attachment ::
    "attachment_service \<Rightarrow> console_principal \<Rightarrow> string \<Rightarrow> pval \<Rightarrow> pval \<Rightarrow> code_text option \<Rightarrow> string \<Rightarrow> time \<Rightarrow> console_store
       \<Rightarrow> console_store \<times> pmap res" where
  "upload_attachment sv p rid filename media_type content aid now s =
     (case uploaded_attachment sv p rid filename media_type content aid now s of
        Inl e \<Rightarrow> (s, Inl e)
      | Inr (a, encoded) \<Rightarrow>
          (case blob_put (ca_object_key a) encoded s of
             Inl e \<Rightarrow> (s, Inl e)
           | Inr s \<Rightarrow>
               (case create_for_request a s of
                  Inr (s, stored) \<Rightarrow> (s, Inr [(''attachment'', PDict (public_attachment stored))])
                | Inl e \<Rightarrow> (case blob_delete (ca_object_key a) s of Inl e' \<Rightarrow> (s, Inl e') | Inr s \<Rightarrow> (s, Inl e)))))"

definition list_public_attachments :: "console_principal \<Rightarrow> string \<Rightarrow> console_store \<Rightarrow> pmap res" where
  "list_public_attachments p rid s =
     rbind (list_attachments (cp_tenant_id p) rid (cp_person_id p) s) (\<lambda>xs.
     Inr [(''attachments'', PList (map (PDict \<circ> public_attachment) xs)), (''total'', PInt (int (length xs)))])"

definition revoke_own_attachment :: "console_principal \<Rightarrow> string \<Rightarrow> pval \<Rightarrow> time \<Rightarrow> console_store \<Rightarrow> (console_store \<times> pmap) res" where
  "revoke_own_attachment p rid aid now s =
     rbind (validated_attachment_id aid) (\<lambda>aid.
     rbind (revoke_attachment (cp_tenant_id p) rid aid (cp_person_id p) now s) (\<lambda>(s, a).
     Inr (s, [(''attachment'', PDict (public_attachment a))])))"

definition generate_request :: "attachment_service \<Rightarrow> console_principal \<Rightarrow> string \<Rightarrow> time \<Rightarrow> console_store \<Rightarrow> (console_store \<times> string) res" where
  "generate_request sv p rid now s =
     rbind (if planning_enabled sv then Inr ()
            else
              rbind (authorize_collecting (cp_tenant_id p) rid (cp_person_id p) s) (\<lambda>_.
              rbind (list_attachments (cp_tenant_id p) rid (cp_person_id p) s) (\<lambda>xs.
              ensure (filter (\<lambda>a. ca_status a = ''ready'') xs = []) (ConsoleAttachmentConflictError ''egress_denied'')))) (\<lambda>_.
     rbind (freeze_and_queue (cp_tenant_id p) rid (cp_person_id p) now s) (\<lambda>(s, req). Inr (s, dr_id req)))"

section \<open>The planning context\<close>

fun unless_blob_missing :: "exn \<Rightarrow> 'a res \<Rightarrow> 'a res" where
  "unless_blob_missing e (Inl (FileNotFoundError m)) = Inl e"
| "unless_blob_missing e (Inl (ValueError m)) = Inl e"
| "unless_blob_missing e x = x"

text \<open>The checks of one attachment: its text, when the number of characters so far stays within the budget.
  The exceptions carry the class of the caller, \<open>wrap\<close>.\<close>

definition checked_content :: "(string \<Rightarrow> exn) \<Rightarrow> int \<Rightarrow> console_store \<Rightarrow> console_attachment \<Rightarrow> int \<Rightarrow> code_text res" where
  "checked_content wrap budget s a so_far =
     rbind (ensure (ca_status a = ''ready'' \<and> ca_revoked_at a = None) (wrap ''attachment is revoked or unavailable'')) (\<lambda>_.
     rbind (ensure (ca_data_classification a = ''internal'') (wrap ''attachment classification is unsupported'')) (\<lambda>_.
     rbind (ensure (ca_model_egress_policy a = ''allow'') (wrap ''attachment egress is not authorized'')) (\<lambda>_.
     rbind (unless_blob_missing (wrap ''attachment content is unavailable'') (blob_get (ca_object_key a) s)) (\<lambda>content.
     rbind (ensure (int (length content) = ca_size_bytes a) (wrap ''attachment length differs'')) (\<lambda>_.
     rbind (ensure (sha256_hex content = ca_content_sha256 a) (wrap ''attachment hash differs'')) (\<lambda>_.
     rbind (get_or_raise (utf8_text content) (wrap ''attachment is not UTF-8'')) (\<lambda>decoded.
     rbind (ensure (so_far + int (length decoded) \<le> budget) (wrap ''attachments exceed the character budget'')) (\<lambda>_.
     Inr decoded))))))))"

text \<open>The sources and chunks that the loop collects, with the number of characters so far.\<close>

record context_material =
  cm_sources :: "source_ref list"
  cm_chunks :: "context_chunk list"
  cm_chars :: int

definition empty_material :: context_material where
  "empty_material = \<lparr>cm_sources = [], cm_chunks = [], cm_chars = 0\<rparr>"

definition add_material :: "attachment_ref \<Rightarrow> code_text \<Rightarrow> context_material \<Rightarrow> context_material res" where
  "add_material reference decoded m =
     rbind (mk_source_ref \<lparr>sr_source_id = ar_source_id reference, sr_kind = ''attachment'',
         sr_label = ar_display_filename reference, sr_content_sha256 = ar_content_sha256 reference\<rparr>) (\<lambda>source.
     rbind (mk_context_chunk \<lparr>cc_source_id = ar_source_id reference, cc_order = int (length (cm_chunks m)), cc_text = decoded,
         cc_text_sha256 = []\<rparr>) (\<lambda>chunk.
     Inr \<lparr>cm_sources = cm_sources m @ [source], cm_chunks = cm_chunks m @ [chunk],
          cm_chars = cm_chars m + int (length decoded)\<rparr>))"

definition planning_material :: "console_store \<Rightarrow> console_attachment \<Rightarrow> attachment_ref list \<times> context_material
       \<Rightarrow> (attachment_ref list \<times> context_material) res" where
  "planning_material s a = (\<lambda>(references, m).
     rbind (checked_content AttachmentContextRejected MAX_CONTEXT_BUNDLE_CHARS s a (cm_chars m)) (\<lambda>decoded.
     rbind (attachment_reference a) (\<lambda>reference.
     rbind (add_material reference decoded m) (\<lambda>m. Inr (references @ [reference], m)))))"

record planning_context_service =
  pc_model_egress_policy :: string

definition mk_planning_context_service :: "string \<Rightarrow> planning_context_service res" where
  "mk_planning_context_service policy =
     rbind (ensure (policy \<in> {''allow'', ''deny''}) (ValueError ''planning context model egress policy is invalid'')) (\<lambda>_.
     Inr \<lparr>pc_model_egress_policy = policy\<rparr>)"

definition planning_bundle ::
    "string \<Rightarrow> string \<Rightarrow> string \<Rightarrow> attachment_ref list \<Rightarrow> context_material \<Rightarrow> string \<Rightarrow> string \<Rightarrow> time \<Rightarrow> int \<Rightarrow> context_bundle res" where
  "planning_bundle tenant rid person references m classification egress now ttl = mk_context_bundle
     \<lparr>cb_tenant_id = tenant, cb_scope_kind = ''console_draft_request'', cb_scope_id = rid, cb_purpose = ''planning'',
      cb_actor_person_id = person, cb_sources = cm_sources m, cb_chunks = cm_chunks m, cb_attachments = references,
      cb_enterprise_knowledge = [], cb_node_key = None, cb_attempt_id = None, cb_data_classification = classification,
      cb_egress_decision = egress, cb_created_at = now, cb_expires_at = Some (now + ttl), cb_fingerprint = []\<rparr>"

definition build_for_planning ::
    "planning_context_service \<Rightarrow> draft_request \<Rightarrow> time \<Rightarrow> console_store \<Rightarrow> context_bundle option res" where
  "build_for_planning sv req now s =
     (if dr_attachment_manifest req = [] then Inr None
      else
        rbind (ensure (pc_model_egress_policy sv = ''allow'') (AttachmentContextRejected ''this worker may not send attachments'')) (\<lambda>_.
        rbind (resolve_for_planning req s) (\<lambda>attachments.
        rbind (foldM (planning_material s) attachments ([], empty_material)) (\<lambda>(references, m).
        rbind (planning_bundle (dr_tenant_id req) (dr_id req) (dr_requester_person_id req) references m ''internal'' ''allow'' now
            CONTEXT_BUNDLE_TTL) (\<lambda>bundle. Inr (Some bundle))))))"

end
