(* ===== verification/Draft_Worker.thy ===== *)
theory Draft_Worker
  imports Attachments
begin

text \<open>
  \<open>ConsoleDraftWorker\<close> of \<open>src/larkflow/workflow/console_drafts.py\<close>: it claims the requests that are due,
  builds the planning context, has a definition generated, keeps the candidate, creates the workflow
  draft and promotes the attachments. Owners and other workers may use the console store, and other
  processes the repository of workflows, between any two of its calls. Its context service is
  \<open>PlanningContextService\<close>.
\<close>

section \<open>The shared console store\<close>

text \<open>What the others do to the store at each moment, and the tokens and the clock of a call.\<close>

record console_env =
  ke_tokens :: "nat \<Rightarrow> string"
  ke_now :: time

record console_world =
  kw_others :: "nat \<Rightarrow> console_store \<Rightarrow> console_store"
  kw_env :: "nat \<Rightarrow> console_env"

record console_shared =
  kz_store :: console_store
  kz_turn :: nat

text \<open>The state of the worker's process: the console store, and the repository of workflows.\<close>

record draft_process =
  dp_console :: console_shared
  dp_shared :: shared

type_synonym 'a process_step = "draft_process \<Rightarrow> draft_process \<times> 'a res"

definition sbind :: "'a process_step \<Rightarrow> ('a \<Rightarrow> 'b process_step) \<Rightarrow> 'b process_step" where
  "sbind f g st = (case f st of (st, Inl e) \<Rightarrow> (st, Inl e) | (st, Inr x) \<Rightarrow> g x st)"

definition pure_step :: "'a res \<Rightarrow> 'a process_step" where
  "pure_step x st = (st, x)"

definition console_call ::
    "console_world \<Rightarrow> (console_env \<Rightarrow> console_store \<Rightarrow> console_store \<times> 'a res) \<Rightarrow> console_shared \<Rightarrow> console_shared \<times> 'a res" where
  "console_call kw f s =
     (let turn = kz_turn s + 1; r = f (kw_env kw turn) (kw_others kw (kz_turn s) (kz_store s)) in
      (\<lparr>kz_store = fst r, kz_turn = turn\<rparr>, snd r))"

definition on_console :: "console_world \<Rightarrow> (console_env \<Rightarrow> console_store \<Rightarrow> console_store \<times> 'a res) \<Rightarrow> 'a process_step" where
  "on_console kw f st = (let r = console_call kw f (dp_console st) in (st\<lparr>dp_console := fst r\<rparr>, snd r))"

definition on_repository :: "(shared \<Rightarrow> shared \<times> 'a res) \<Rightarrow> 'a process_step" where
  "on_repository f st = (let r = f (dp_shared st) in (st\<lparr>dp_shared := fst r\<rparr>, snd r))"

text \<open>An operation on the requests, and a read.\<close>

definition on_drafts :: "(draft_repo \<Rightarrow> (draft_repo \<times> 'a) res) \<Rightarrow> console_store \<Rightarrow> console_store \<times> 'a res" where
  "on_drafts f s = (case f (cs_drafts s) of Inl e \<Rightarrow> (s, Inl e) | Inr (dq, x) \<Rightarrow> (s\<lparr>cs_drafts := dq\<rparr>, Inr x))"

definition reading :: "(console_store \<Rightarrow> 'a res) \<Rightarrow> console_store \<Rightarrow> console_store \<times> 'a res" where
  "reading f s = (s, f s)"

section \<open>The worker\<close>

text \<open>\<open>kd_generator\<close> gives the run of the generator at a moment, \<open>kd_describe\<close> the text \<open>type: message\<close> of an
  exception, \<open>kd_message\<close> its message alone.\<close>

record draft_worker =
  kd_tenant_id :: string
  kd_worker_id :: string
  kd_claim_limit :: int
  kd_claim_ttl :: int
  kd_retry_base :: int
  kd_retry_max :: int
  kd_generator :: "nat \<Rightarrow> planner_request \<Rightarrow> pmap generation"
  kd_context_service :: "planning_context_service option"
  kd_describe :: "exn \<Rightarrow> string"
  kd_message :: "exn \<Rightarrow> code_text"

definition check_draft_worker :: "draft_worker \<Rightarrow> int \<Rightarrow> draft_worker res" where
  "check_draft_worker wk max_attempts =
     rbind (validate_draft_claim (kd_worker_id wk) (kd_claim_limit wk) (kd_claim_ttl wk)) (\<lambda>_.
     rbind (ensure (\<not> blank (kd_tenant_id wk)) (ValueError ''console draft worker tenant is required'')) (\<lambda>_.
     rbind (ensure (0 < kd_retry_base wk \<and> kd_retry_base wk \<le> kd_retry_max wk) (ValueError ''console draft retry delays are invalid'')) (\<lambda>_.
     rbind (ensure (max_attempts = CONSOLE_DRAFT_MAX_ATTEMPTS) (ValueError ''Console draft max_attempts is fixed'')) (\<lambda>_. Inr wk))))"

definition draft_retry_delay :: "int \<Rightarrow> int \<Rightarrow> int \<Rightarrow> int" where
  "draft_retry_delay attempts base maximum = min maximum (base * 2 ^ nat (max 0 (min (attempts - 1) 16)))"

subsection \<open>One claim\<close>

definition claim_active :: "console_world \<Rightarrow> draft_worker \<Rightarrow> draft_claim \<Rightarrow> unit process_step" where
  "claim_active kw wk claim = on_console kw (\<lambda>_. reading (\<lambda>s.
     assert_claim_active (kd_tenant_id wk) (dr_id (dc_request claim)) (dc_claim_token claim) (cs_drafts s)))"

definition has_material :: "draft_request \<Rightarrow> bool" where
  "has_material req \<longleftrightarrow> dr_attachment_manifest req \<noteq> [] \<or> dr_enterprise_knowledge_manifest req \<noteq> []"

definition claim_context :: "console_world \<Rightarrow> draft_worker \<Rightarrow> draft_request \<Rightarrow> context_bundle option process_step" where
  "claim_context kw wk req = sbind
     (case kd_context_service wk of
        Some sv \<Rightarrow> on_console kw (\<lambda>env. reading (build_for_planning sv req (ke_now env)))
      | None \<Rightarrow> pure_step (rbind (ensure (\<not> has_material req) (DraftGenerationRejected ''no context service'')) (\<lambda>_. Inr None)))
     (\<lambda>bundle. pure_step (rbind (ensure (has_material req \<longrightarrow> bundle \<noteq> None) (DraftGenerationRejected ''no authorized context'')) (\<lambda>_. Inr bundle)))"

definition generation_request :: "draft_worker \<Rightarrow> draft_request \<Rightarrow> context_bundle option \<Rightarrow> planner_request" where
  "generation_request wk req bundle =
     \<lparr>pr_tenant_id = kd_tenant_id wk, pr_actor_person_id = dr_requester_person_id req, pr_request_id = dr_id req,
      pr_brief = dr_brief req, pr_context = dr_context req, pr_context_bundle = bundle\<rparr>"

definition repair_step :: "console_world \<Rightarrow> draft_worker \<Rightarrow> draft_claim \<Rightarrow> unit process_step" where
  "repair_step kw wk claim = on_console kw (\<lambda>env. on_drafts
     (mark_repairing (kd_tenant_id wk) (dr_id (dc_request claim)) (dc_claim_token claim) (ke_now env)))"

definition generate_step ::
    "console_world \<Rightarrow> draft_worker \<Rightarrow> draft_claim \<Rightarrow> context_bundle option \<Rightarrow> pmap process_step" where
  "generate_step kw wk claim bundle st = run_generation
     (kd_generator wk (kz_turn (dp_console st)) (generation_request wk (dc_request claim) bundle)) (repair_step kw wk claim) st"

text \<open>The request with its definition: the one on record, or a new one, generated and then kept.\<close>

definition candidate_step ::
    "console_world \<Rightarrow> draft_worker \<Rightarrow> draft_claim \<Rightarrow> context_bundle option \<Rightarrow> (draft_request \<times> pmap) process_step" where
  "candidate_step kw wk claim bundle = (let req = dc_request claim in
     case dr_definition req of
       Some document \<Rightarrow> pure_step (Inr (req, document))
     | None \<Rightarrow>
         sbind (generate_step kw wk claim bundle) (\<lambda>document.
         sbind (claim_active kw wk claim) (\<lambda>_.
         sbind (on_console kw (\<lambda>env. on_drafts
             (save_candidate (kd_tenant_id wk) (dr_id req) (dc_claim_token claim) document (ke_now env)))) (\<lambda>req.
         pure_step (Inr (req, document))))))"

definition role_bindings :: "draft_request \<Rightarrow> string list \<Rightarrow> (string, string) odict res" where
  "role_bindings req = mapM (\<lambda>role. rbind (get_or_raise
       (map_of [(''requester'', dr_requester_person_id req), (''collaborator'', dr_collaborator_person_id req)] role) (KeyError role))
     (\<lambda>person. Inr (role, person)))"

text \<open>\<open>",".join(dict.fromkeys(...))\<close>: each kind at its first place.\<close>

definition source_kinds :: "context_bundle \<Rightarrow> string" where
  "source_kinds b = join '','' (rev (remdups (rev (map sr_kind (cb_sources b)))))"

definition planning_manifest :: "context_bundle \<Rightarrow> pmap" where
  "planning_manifest b = dput ''source_kinds'' (PStr (source_kinds b))
     (filter (\<lambda>(k, v). k \<notin> {''attachments'', ''enterprise_knowledge''}) (bundle_snapshot_manifest b))"

definition context_inputs :: "context_bundle \<Rightarrow> pmap \<Rightarrow> pmap" where
  "context_inputs b inputs =
     dput ''context_manifest'' (PDict (planning_manifest b))
       ((if cb_enterprise_knowledge b \<noteq> []
         then dput ''enterprise_knowledge'' (PList (map (PDict \<circ> knowledge_ref_value) (cb_enterprise_knowledge b))) else id)
        ((if cb_attachments b \<noteq> []
          then dput ''project_attachments'' (PList (map (PDict \<circ> attachment_ref_value) (cb_attachments b))) else id) inputs))"

definition with_context :: "context_bundle option \<Rightarrow> instance_snapshot \<Rightarrow> instance_snapshot" where
  "with_context bundle snapshot = (case bundle of
     None \<Rightarrow> snapshot
   | Some b \<Rightarrow> snapshot\<lparr>sn_inputs := freeze_map (context_inputs b (sn_inputs snapshot))\<rparr>)"

definition draft_snapshot :: "draft_request \<Rightarrow> pmap \<Rightarrow> context_bundle option \<Rightarrow> instance_snapshot res" where
  "draft_snapshot req document bundle =
     rbind (inline_owner_roles document) (\<lambda>roles.
     rbind (role_bindings req roles) (\<lambda>bindings.
     rbind (instantiate_inline_definition document bindings) (\<lambda>snapshot. Inr (with_context bundle snapshot))))"

text \<open>\<open>instance.snapshot != snapshot\<close>\<close>

definition snapshot_eq :: "instance_snapshot \<Rightarrow> instance_snapshot \<Rightarrow> bool" where
  "snapshot_eq a b \<longleftrightarrow> list_all2 spec_eq (sn_nodes a) (sn_nodes b) \<and> sn_goal a = sn_goal b \<and>
     sn_template_version_id a = sn_template_version_id b \<and> sn_locked a = sn_locked b \<and> map_eq (sn_inputs a) (sn_inputs b) \<and>
     sn_schema_version a = sn_schema_version b"

fun already_exists :: "exn \<Rightarrow> bool" where
  "already_exists (InstanceAlreadyExistsError m) = True"
| "already_exists _ = False"

fun unless_missing :: "'a res \<Rightarrow> 'a res" where
  "unless_missing (Inl (InstanceNotFoundError m)) = Inl (ConsoleDraftConflictError ''existing_draft_unreadable'')"
| "unless_missing x = x"

definition find_existing :: "world \<Rightarrow> draft_worker \<Rightarrow> draft_request \<Rightarrow> instance_snapshot \<Rightarrow> shared \<Rightarrow> shared \<times> string res" where
  "find_existing wd wk req snapshot = shared_read wd (\<lambda>_ r.
     rbind (unless_missing (repo_get r (kd_tenant_id wk) (draft_instance_id (dr_id req)))) (\<lambda>w.
     rbind (ensure (wi_owner_person_id w = dr_requester_person_id req \<and> snapshot_eq (wi_snapshot w) snapshot)
              (ConsoleDraftConflictError ''existing_draft_mismatch'')) (\<lambda>_. Inr (wi_id w))))"

definition create_instance :: "world \<Rightarrow> draft_worker \<Rightarrow> draft_request \<Rightarrow> instance_snapshot \<Rightarrow> shared \<Rightarrow> shared \<times> string res" where
  "create_instance wd wk req snapshot sh =
     (case shared_command wd (\<lambda>env r r'. create_draft env r' (draft_instance_id (dr_id req)) (kd_tenant_id wk)
             (dr_requester_person_id req) snapshot (dr_requester_person_id req) (Some (dr_id req))) sh of
        (sh, Inr w) \<Rightarrow> (sh, Inr (wi_id w))
      | (sh, Inl e) \<Rightarrow> if already_exists e then find_existing wd wk req snapshot sh else (sh, Inl e))"

definition promote_step :: "console_world \<Rightarrow> draft_request \<Rightarrow> string \<Rightarrow> context_bundle option \<Rightarrow> unit process_step" where
  "promote_step kw req iid bundle =
     (if bundle = None then pure_step (Inr ()) else on_console kw (\<lambda>_. promote_attachments req iid))"

definition apply_draft_claim :: "console_world \<Rightarrow> world \<Rightarrow> draft_worker \<Rightarrow> draft_claim \<Rightarrow> unit process_step" where
  "apply_draft_claim kw wd wk claim =
     sbind (claim_active kw wk claim) (\<lambda>_.
     sbind (claim_context kw wk (dc_request claim)) (\<lambda>bundle.
     sbind (claim_active kw wk claim) (\<lambda>_.
     sbind (candidate_step kw wk claim bundle) (\<lambda>(req, document).
     sbind (pure_step (draft_snapshot req document bundle)) (\<lambda>snapshot.
     sbind (on_repository (create_instance wd wk req snapshot)) (\<lambda>iid.
     sbind (promote_step kw req iid bundle) (\<lambda>_.
     on_console kw (\<lambda>env. on_drafts (mark_draft_ready (kd_tenant_id wk) (dr_id req) (dc_claim_token claim) iid (ke_now env))))))))))"

subsection \<open>Errors that the owner can act on\<close>

text \<open>The six field names, and the two prefixes of messages that list missing fields.\<close>

definition SAFE_ERROR_FIELDS :: "code_text list" where
  "SAFE_ERROR_FIELDS = [[20986, 21457, 22320], [20986, 34892, 26085, 26399], [20986, 34892, 20154, 25968], [39044, 31639], [26223, 28857, 36164, 26009], [20132, 36890, 36164, 26009]]"

definition MISSING_FIELDS_PREFIX :: code_text where
  "MISSING_FIELDS_PREFIX = [26053, 28216, 35268, 21010, 24517, 39035, 20808, 25910, 38598, 24517, 22635, 38656, 27714, 65306]"

definition MISSING_EVIDENCE_PREFIX :: code_text where
  "MISSING_EVIDENCE_PREFIX = [38468, 20214, 36164, 26009, 19981, 36275, 65292, 32570, 23569, 21487, 29992, 35777, 25454, 65306]"

fun split_code :: "nat \<Rightarrow> code_text \<Rightarrow> code_text list" where
  "split_code c [] = [[]]"
| "split_code c (n # t) = (if n = c then [] # split_code c t
     else (case split_code c t of [] \<Rightarrow> [[n]] | p # ps \<Rightarrow> (n # p) # ps))"

definition listed_fields :: "code_text \<Rightarrow> code_text \<Rightarrow> code_text list" where
  "listed_fields start message =
     (if take (length start) message = start
      then filter (\<lambda>f. f \<in> set SAFE_ERROR_FIELDS) (split_code 12289 (drop (length start) message)) else [])"

fun capability_missing :: "exn \<Rightarrow> bool" where
  "capability_missing (DraftCapabilityUnavailable m) = True"
| "capability_missing _ = False"

definition actionable_draft_error :: "exn \<Rightarrow> code_text \<Rightarrow> string \<times> code_text list" where
  "actionable_draft_error e message =
     (if listed_fields MISSING_FIELDS_PREFIX message \<noteq> [] then (''missing_required_fields'', listed_fields MISSING_FIELDS_PREFIX message)
      else if listed_fields MISSING_EVIDENCE_PREFIX message \<noteq> [] then (''missing_source_evidence'', listed_fields MISSING_EVIDENCE_PREFIX message)
      else if capability_missing e then (''search_capability_unavailable'', [])
      else (''unsafe_draft'', []))"

subsection \<open>One tick\<close>

record draft_report =
  dt_claimed :: nat
  dt_processed :: nat
  dt_rejected :: nat
  dt_failed :: nat
  dt_canceled :: nat
  dt_errors :: "string list"

text \<open>\<open>except (DraftGenerationRejected, TemplateValidationError)\<close> and \<open>except InvalidConsoleDraftClaimError\<close>.\<close>

fun draft_rejection :: "exn \<Rightarrow> bool" where
  "draft_rejection (DraftGenerationRejected m) = True"
| "draft_rejection (DraftCapabilityUnavailable m) = True"
| "draft_rejection (AttachmentContextRejected m) = True"
| "draft_rejection (TemplateValidationError m) = True"
| "draft_rejection _ = False"

fun invalid_draft_claim :: "exn \<Rightarrow> bool" where
  "invalid_draft_claim (InvalidConsoleDraftClaimError m) = True"
| "invalid_draft_claim _ = False"

definition was_canceled :: "console_world \<Rightarrow> draft_worker \<Rightarrow> draft_request \<Rightarrow> bool process_step" where
  "was_canceled kw wk req = on_console kw (\<lambda>_. reading (\<lambda>s.
     rbind (get_request_for_owner (kd_tenant_id wk) (dr_id req) (dr_requester_person_id req) (cs_drafts s))
       (\<lambda>current. Inr (dr_status current = R_CANCELED))))"

definition unless_canceled ::
    "console_world \<Rightarrow> draft_worker \<Rightarrow> draft_request \<Rightarrow> draft_report \<Rightarrow> exn \<Rightarrow> draft_report process_step" where
  "unless_canceled kw wk req p e =
     (if invalid_draft_claim e then
        sbind (was_canceled kw wk req) (\<lambda>canceled.
          pure_step (if canceled then Inr (p\<lparr>dt_canceled := dt_canceled p + 1\<rparr>) else Inl e))
      else pure_step (Inl e))"

text \<open>\<open>try: step\<close>, then the report, or the cancellation that has taken the claim away.\<close>

definition mark_or_canceled ::
    "console_world \<Rightarrow> draft_worker \<Rightarrow> draft_request \<Rightarrow> unit process_step \<Rightarrow> draft_report \<Rightarrow> draft_report \<Rightarrow> draft_report process_step" where
  "mark_or_canceled kw wk req step p p' st = (case step st of
     (st, Inr _) \<Rightarrow> (st, Inr p')
   | (st, Inl e) \<Rightarrow> unless_canceled kw wk req p e st)"

definition reject_claim ::
    "console_world \<Rightarrow> draft_worker \<Rightarrow> draft_claim \<Rightarrow> draft_report \<Rightarrow> exn \<Rightarrow> draft_report process_step" where
  "reject_claim kw wk claim p e = (let req = dc_request claim; (code, labels) = actionable_draft_error e (kd_message wk e) in
     mark_or_canceled kw wk req
       (on_console kw (\<lambda>env. on_drafts (mark_rejected (kd_tenant_id wk) (dr_id req) (dc_claim_token claim) (kd_describe wk e) code labels (ke_now env))))
       p (p\<lparr>dt_rejected := dt_rejected p + 1\<rparr>))"

definition fail_claim ::
    "console_world \<Rightarrow> draft_worker \<Rightarrow> draft_claim \<Rightarrow> draft_report \<Rightarrow> exn \<Rightarrow> draft_report process_step" where
  "fail_claim kw wk claim p e =
     (let req = dc_request claim; err = dr_id req @ '': '' @ kd_describe wk e;
          exhausted = CONSOLE_DRAFT_MAX_ATTEMPTS \<le> dr_attempt_count req in
      mark_or_canceled kw wk req
        (on_console kw (\<lambda>env. on_drafts (mark_failed (kd_tenant_id wk) (dr_id req) (dc_claim_token claim) err
           (if exhausted then ''generation_failed'' else ''generation_temporarily_unavailable'') (ke_now env)
           (ke_now env + draft_retry_delay (dr_attempt_count req) (kd_retry_base wk) (kd_retry_max wk)) exhausted)))
        p (p\<lparr>dt_failed := dt_failed p + 1, dt_errors := dt_errors p @ [err]\<rparr>))"

definition work_draft_claim ::
    "console_world \<Rightarrow> world \<Rightarrow> draft_worker \<Rightarrow> draft_claim \<Rightarrow> draft_report \<Rightarrow> draft_report process_step" where
  "work_draft_claim kw wd wk claim p st = (case apply_draft_claim kw wd wk claim st of
     (st, Inr _) \<Rightarrow> (st, Inr (p\<lparr>dt_processed := dt_processed p + 1\<rparr>))
   | (st, Inl e) \<Rightarrow>
       if draft_rejection e then reject_claim kw wk claim p e st
       else if invalid_draft_claim e then unless_canceled kw wk (dc_request claim) p e st
       else fail_claim kw wk claim p e st)"

fun work_draft_claims ::
    "console_world \<Rightarrow> world \<Rightarrow> draft_worker \<Rightarrow> draft_claim list \<Rightarrow> draft_report \<Rightarrow> draft_report process_step" where
  "work_draft_claims kw wd wk [] p = pure_step (Inr p)"
| "work_draft_claims kw wd wk (claim # claims) p =
     sbind (work_draft_claim kw wd wk claim p) (\<lambda>p. work_draft_claims kw wd wk claims p)"

definition draft_run_once :: "console_world \<Rightarrow> world \<Rightarrow> draft_worker \<Rightarrow> draft_report process_step" where
  "draft_run_once kw wd wk = sbind
     (on_console kw (\<lambda>env. on_drafts (claim_drafts (ke_tokens env) (kd_tenant_id wk) (kd_worker_id wk) (ke_now env)
        (kd_claim_limit wk) (kd_claim_ttl wk))))
     (\<lambda>claims. work_draft_claims kw wd wk claims
        \<lparr>dt_claimed = length claims, dt_processed = 0, dt_rejected = 0, dt_failed = 0, dt_canceled = 0, dt_errors = []\<rparr>)"

end
