(* ===== verification/Draft_Request_Theorems.thy ===== *)
theory Draft_Request_Theorems
  imports Draft_Worker Claims
begin

text \<open>
  The life of a draft request, with the claim on it, as a state machine of its own, and the repository of
  requests as a family of such cells, each of which only takes steps of the machine.
\<close>

section \<open>The machine of a request\<close>

type_synonym cell = "draft_request \<times> (string \<times> time) option"

inductive draft_step :: "cell \<Rightarrow> cell \<Rightarrow> bool" where
  kept: "draft_step c c"
| queued: "dr_status r = R_COLLECTING \<Longrightarrow>
    draft_step (r, c) (r\<lparr>dr_status := R_PENDING, dr_attachment_manifest := attachments, dr_enterprise_knowledge_manifest := enterprise,
      dr_enterprise_selection_fingerprint := fingerprint, dr_available_at := now, dr_updated_at := now\<rparr>, c)"
| claimed: "draft_claimable r c now \<Longrightarrow> draft_step (r, c) (claimed_request now r, Some (token, expires))"
| repairing: "dr_status r = R_GENERATING \<Longrightarrow> draft_step (r, Some c) (r\<lparr>dr_status := R_REPAIRING, dr_updated_at := now\<rparr>, Some c)"
| candidate: "dr_status r \<in> {R_GENERATING, R_REPAIRING} \<Longrightarrow>
    draft_step (r, Some c) (r\<lparr>dr_status := R_CREATING, dr_definition := Some document, dr_updated_at := now\<rparr>, Some c)"
| ready: "draft_step (r, Some c) (settled_request R_READY now (Some iid) None None [] r, None)"
| rejected: "draft_step (r, Some c) (settled_request R_REJECTED now None (Some err) (Some code) labels r, None)"
| failed: "draft_step (r, Some c) (failed_request err code now retry_at exhausted r, None)"
| canceled: "cancelable_draft (dr_status r) \<Longrightarrow> draft_step (r, c) (canceled_request now (dr_requester_person_id r) r, None)"

definition active_draft :: "draft_status \<Rightarrow> bool" where
  "active_draft s \<longleftrightarrow> s \<in> {R_GENERATING, R_REPAIRING, R_CREATING}"

fun cell_inv :: "cell \<Rightarrow> bool" where
  "cell_inv (r, c) \<longleftrightarrow>
     (active_draft (dr_status r) \<longleftrightarrow> c \<noteq> None) \<and> (terminal_draft (dr_status r) \<longleftrightarrow> dr_completed_at r \<noteq> None) \<and>
     (dr_status r = R_CREATING \<longrightarrow> dr_definition r \<noteq> None) \<and>
     (dr_status r \<in> {R_COLLECTING, R_PENDING, R_GENERATING, R_REPAIRING} \<longrightarrow> dr_definition r = None) \<and>
     dr_canceled_by_person_id r = (if dr_status r = R_CANCELED then Some (dr_requester_person_id r) else None) \<and>
     (dr_status r \<in> {R_REJECTED, R_EXHAUSTED, R_FAILED} \<longrightarrow> dr_last_error r \<noteq> None \<and> dr_public_error_code r \<noteq> None) \<and>
     0 \<le> dr_attempt_count r \<and> (dr_status r \<in> {R_COLLECTING, R_PENDING} \<longrightarrow> dr_attempt_count r = 0) \<and>
     (dr_status r \<notin> {R_COLLECTING, R_PENDING, R_CANCELED} \<longrightarrow> 1 \<le> dr_attempt_count r) \<and>
     (dr_instance_id r \<noteq> None \<longrightarrow> dr_status r = R_READY)"

declare cell_inv.simps [simp del]

lemmas cell_defs = cell_inv.simps active_draft_def terminal_draft_def cancelable_draft_def claimed_request_def settled_request_def failed_request_def
  canceled_request_def or_kept_def unset_def

lemma claimable_status: "draft_claimable r c now \<Longrightarrow> dr_status r \<in> {R_PENDING, R_FAILED, R_GENERATING, R_REPAIRING, R_CREATING}"
  by (auto simp: draft_claimable_def split: option.splits prod.splits)

lemma active_cell:
  assumes "cell_inv (r, Some c)"
  shows "dr_status r = R_GENERATING \<or> dr_status r = R_REPAIRING \<or> dr_status r = R_CREATING" "1 \<le> dr_attempt_count r"
    "dr_canceled_by_person_id r = None" "dr_instance_id r = None" "\<not> terminal_draft (dr_status r)" "dr_status r \<noteq> R_COLLECTING"
proof -
  from assms have "active_draft (dr_status r)" unfolding cell_inv.simps by blast
  then show st: "dr_status r = R_GENERATING \<or> dr_status r = R_REPAIRING \<or> dr_status r = R_CREATING" by (simp add: active_draft_def)
  have "dr_status r \<notin> {R_COLLECTING, R_PENDING, R_CANCELED, R_READY, R_REJECTED, R_EXHAUSTED}" using st by (elim disjE) simp_all
  with assms show "1 \<le> dr_attempt_count r" "dr_canceled_by_person_id r = None" "dr_instance_id r = None" "\<not> terminal_draft (dr_status r)"
      "dr_status r \<noteq> R_COLLECTING"
    unfolding cell_inv.simps terminal_draft_def by simp_all
qed

lemma draft_step_inv: "draft_step x y \<Longrightarrow> cell_inv x \<Longrightarrow> cell_inv y"
proof (induction rule: draft_step.induct)
  case (kept c)
  then show ?case by assumption
next
  case (claimed r c now token expires)
  from claimable_status [OF claimed.hyps] claimed.prems show ?case
    by (elim insertE emptyE) (simp_all add: cell_defs)
next
  case (canceled r now c)
  then show ?case by (cases "dr_status r") (simp_all add: cell_defs)
next
  case (ready r c now iid)
  from active_cell [OF ready.prems] show ?case by (simp add: cell_defs)
next
  case (rejected r c now err code labels)
  from active_cell [OF rejected.prems] show ?case by (simp add: cell_defs)
next
  case (failed r c err code now retry_at exhausted)
  from active_cell [OF failed.prems] show ?case by (simp add: cell_defs)
next
  case (candidate r c document now)
  then show ?case by (elim insertE emptyE) (simp_all add: cell_defs)
qed (simp_all add: cell_defs)

text \<open>What a request keeps for ever.\<close>

definition same_author :: "draft_request \<Rightarrow> draft_request \<Rightarrow> bool" where
  "same_author r r' \<longleftrightarrow> dr_id r' = dr_id r \<and> dr_tenant_id r' = dr_tenant_id r \<and> dr_requester_person_id r' = dr_requester_person_id r \<and>
     dr_collaborator_person_id r' = dr_collaborator_person_id r \<and> dr_brief r' = dr_brief r \<and> dr_context r' = dr_context r"

definition request_later :: "draft_request \<Rightarrow> draft_request \<Rightarrow> bool" where
  "request_later r r' \<longleftrightarrow> same_author r r' \<and> dr_attempt_count r \<le> dr_attempt_count r' \<and>
     (terminal_draft (dr_status r) \<longrightarrow> r' = r) \<and> (dr_definition r \<noteq> None \<longrightarrow> dr_definition r' = dr_definition r) \<and>
     (dr_status r \<noteq> R_COLLECTING \<longrightarrow> dr_status r' \<noteq> R_COLLECTING \<and> dr_attachment_manifest r' = dr_attachment_manifest r \<and>
        dr_enterprise_knowledge_manifest r' = dr_enterprise_knowledge_manifest r)"

lemma request_later_refl [simp]: "request_later r r"
  by (simp add: request_later_def same_author_def)

lemma request_later_trans: "request_later a b \<Longrightarrow> request_later b c \<Longrightarrow> request_later a c"
  by (auto simp: request_later_def same_author_def)

lemma draft_step_later: "draft_step x y \<Longrightarrow> cell_inv x \<Longrightarrow> request_later (fst x) (fst y)"
proof (induction rule: draft_step.induct)
  case (claimed r c now token expires)
  from claimable_status [OF claimed.hyps] show ?case
    by (elim insertE emptyE) (simp_all add: request_later_def same_author_def cell_defs)
next
  case (ready r c now iid)
  from active_cell [OF ready.prems] show ?case
    by (simp add: request_later_def same_author_def settled_request_def failed_request_def)
next
  case (rejected r c now err code labels)
  from active_cell [OF rejected.prems] show ?case
    by (simp add: request_later_def same_author_def settled_request_def failed_request_def)
next
  case (failed r c err code now retry_at exhausted)
  from active_cell [OF failed.prems] show ?case
    by (simp add: request_later_def same_author_def settled_request_def failed_request_def)
next
  case (candidate r c document now)
  then show ?case by (elim insertE emptyE) (simp_all add: request_later_def same_author_def cell_defs)
next
  case (canceled r now c)
  then have "\<not> terminal_draft (dr_status r)" "dr_status r \<noteq> R_COLLECTING" by (auto simp: cancelable_draft_def terminal_draft_def)
  then show ?case by (simp add: request_later_def same_author_def canceled_request_def)
qed (simp_all add: request_later_def same_author_def cell_defs)

section \<open>The repository\<close>

inductive drafts_op :: "draft_repo \<Rightarrow> draft_repo \<Rightarrow> bool" where
  create: "create_request (new_draft_request p rid brief background collaborator defer now) dq = Inr (dq', r) \<Longrightarrow> drafts_op dq dq'"
| queue: "queue_collecting_context tenant rid person attachments enterprise fingerprint now dq = Inr (dq', r) \<Longrightarrow> drafts_op dq dq'"
| claim: "claim_drafts tokens tenant worker now limit ttl dq = Inr (dq', claims) \<Longrightarrow> drafts_op dq dq'"
| repair: "mark_repairing tenant rid token now dq = Inr (dq', u) \<Longrightarrow> drafts_op dq dq'"
| keep: "save_candidate tenant rid token document now dq = Inr (dq', r) \<Longrightarrow> drafts_op dq dq'"
| ready: "mark_draft_ready tenant rid token iid now dq = Inr (dq', u) \<Longrightarrow> drafts_op dq dq'"
| reject: "mark_rejected tenant rid token err code labels now dq = Inr (dq', u) \<Longrightarrow> drafts_op dq dq'"
| fail: "mark_failed tenant rid token err code now retry_at exhausted dq = Inr (dq', u) \<Longrightarrow> drafts_op dq dq'"
| cancel: "cancel_request tenant rid person now dq = Inr (dq', r) \<Longrightarrow> drafts_op dq dq'"

definition drafts_inv :: "draft_repo \<Rightarrow> bool" where
  "drafts_inv dq \<longleftrightarrow> distinct (dkeys (dq_items dq)) \<and> distinct (dkeys (dq_claims dq)) \<and>
     (\<forall>k. dget (dq_items dq) k = None \<longrightarrow> dget (dq_claims dq) k = None) \<and>
     (\<forall>k r. dget (dq_items dq) k = Some r \<longrightarrow> cell_inv (r, dget (dq_claims dq) k) \<and> k = (dr_tenant_id r, dr_id r))"

lemma drafts_invD:
  assumes "drafts_inv dq"
  shows "dget (dq_items dq) k = None \<Longrightarrow> dget (dq_claims dq) k = None"
    and "dget (dq_items dq) k = Some r \<Longrightarrow> cell_inv (r, dget (dq_claims dq) k)"
    and "dget (dq_items dq) k = Some r \<Longrightarrow> k = (dr_tenant_id r, dr_id r)"
    and "distinct (dkeys (dq_items dq))" and "distinct (dkeys (dq_claims dq))"
  using assms unfolding drafts_inv_def by blast+

definition cell_at :: "draft_repo \<Rightarrow> request_key \<Rightarrow> cell option" where
  "cell_at dq k = map_option (\<lambda>r. (r, dget (dq_claims dq) k)) (dget (dq_items dq) k)"

text \<open>A step of every cell, and new cells under their keys.\<close>

definition cells_step :: "draft_repo \<Rightarrow> draft_repo \<Rightarrow> bool" where
  "cells_step dq dq' \<longleftrightarrow>
     (distinct (dkeys (dq_items dq)) \<longrightarrow> distinct (dkeys (dq_items dq'))) \<and>
     (distinct (dkeys (dq_claims dq)) \<longrightarrow> distinct (dkeys (dq_claims dq'))) \<and>
     (\<forall>k. dget (dq_items dq) k = None \<longrightarrow> dget (dq_claims dq) k = None \<longrightarrow> dget (dq_claims dq') k = None) \<and>
     (\<forall>k r'. dget (dq_items dq) k = None \<longrightarrow> dget (dq_items dq') k = Some r' \<longrightarrow>
        (\<exists>p rid brief background collaborator defer now. r' = new_draft_request p rid brief background collaborator defer now) \<and>
        k = (dr_tenant_id r', dr_id r')) \<and>
     (\<forall>k r. dget (dq_items dq) k = Some r \<longrightarrow>
        (\<exists>r'. dget (dq_items dq') k = Some r' \<and> draft_step (r, dget (dq_claims dq) k) (r', dget (dq_claims dq') k)))"

lemma cells_step_old:
  "cells_step dq dq' \<Longrightarrow> dget (dq_items dq) k = Some r \<Longrightarrow>
     \<exists>r'. dget (dq_items dq') k = Some r' \<and> draft_step (r, dget (dq_claims dq) k) (r', dget (dq_claims dq') k)"
  unfolding cells_step_def by blast

lemma cells_step_new:
  assumes "cells_step dq dq'" and "dget (dq_items dq) k = None"
  shows "dget (dq_claims dq) k = None \<Longrightarrow> dget (dq_claims dq') k = None"
    and "dget (dq_items dq') k = Some r' \<Longrightarrow> k = (dr_tenant_id r', dr_id r')"
    and "dget (dq_items dq') k = Some r' \<Longrightarrow>
      \<exists>p rid brief background collaborator defer now. r' = new_draft_request p rid brief background collaborator defer now"
  using assms unfolding cells_step_def by blast+

lemma new_request_inv: "cell_inv (new_draft_request p rid brief background collaborator defer now, None)"
  by (simp add: new_draft_request_def cell_defs)

lemma cells_step_inv:
  assumes step: "cells_step dq dq'" and inv: "drafts_inv dq"
  shows "drafts_inv dq'"
proof -
  have cells: "cell_inv (r', dget (dq_claims dq') k) \<and> k = (dr_tenant_id r', dr_id r')" if r': "dget (dq_items dq') k = Some r'" for k r'
  proof (cases "dget (dq_items dq) k")
    case None
    obtain p rid brief background collaborator deferred now where new: "r' = new_draft_request p rid brief background collaborator deferred now"
      using cells_step_new(3) [OF step None r'] by blast
    show ?thesis
      using cells_step_new(1) [OF step None drafts_invD(1) [OF inv None]] cells_step_new(2) [OF step None r'] new_request_inv new by simp
  next
    case (Some r)
    from cells_step_old [OF step this] r'
    have s: "draft_step (r, dget (dq_claims dq) k) (r', dget (dq_claims dq') k)" by simp
    note c = drafts_invD(2,3) [OF inv Some]
    have "same_author r r'" using draft_step_later [OF s c(1)] by (simp add: request_later_def)
    with draft_step_inv [OF s c(1)] c(2) show ?thesis by (simp add: same_author_def)
  qed
  have "dget (dq_claims dq') k = None" if "dget (dq_items dq') k = None" for k
  proof -
    have n: "dget (dq_items dq) k = None" using cells_step_old [OF step, of k] that by (cases "dget (dq_items dq) k") auto
    from cells_step_new(1) [OF step n drafts_invD(1) [OF inv n]] show ?thesis .
  qed
  moreover have "distinct (dkeys (dq_items dq'))" "distinct (dkeys (dq_claims dq'))"
    using step drafts_invD(4,5) [OF inv] unfolding cells_step_def by blast+
  ultimately show ?thesis using cells unfolding drafts_inv_def by simp
qed

text \<open>An operation on one cell.\<close>

lemma cells_step_one:
  assumes "dget (dq_items dq) k = Some r" and "draft_step (r, dget (dq_claims dq) k) (r', c')"
    and items: "dq_items dq' = dput k r' (dq_items dq)"
    and claims: "distinct (dkeys (dq_claims dq)) \<Longrightarrow> distinct (dkeys (dq_claims dq'))" "dget (dq_claims dq') k = c'"
      "\<And>j. j \<noteq> k \<Longrightarrow> dget (dq_claims dq') j = dget (dq_claims dq) j"
  shows "cells_step dq dq'"
proof -
  have old: "\<exists>t'. dget (dq_items dq') j = Some t' \<and> draft_step (t, dget (dq_claims dq) j) (t', dget (dq_claims dq') j)"
    if "dget (dq_items dq) j = Some t" for j t
    using that assms(1,2) draft_step.kept claims by (cases "j = k") (simp_all add: items dget_dput)
  have "dget (dq_items dq') j = None" if "dget (dq_items dq) j = None" for j
    using that assms(1) by (cases "j = k") (simp_all add: items dget_dput)
  moreover have "dget (dq_claims dq') j = None" if "dget (dq_items dq) j = None" "dget (dq_claims dq) j = None" for j
    using that assms(1) claims(3) by (cases "j = k") simp_all
  moreover have "distinct (dkeys (dq_items dq)) \<longrightarrow> distinct (dkeys (dq_items dq'))" by (simp add: items distinct_dkeys_dput)
  ultimately show ?thesis using old claims(1) unfolding cells_step_def by simp
qed

lemma claimed_draftE:
  assumes "claimed_draft tenant rid token dq = Inr r"
  obtains expires where "dget (dq_items dq) (tenant, rid) = Some r" "dget (dq_claims dq) (tenant, rid) = Some (token, expires)"
  using assms unfolding claimed_draft_def
  by (auto simp: rbind_Inr_iff ensure_Inr_iff get_or_raise_Inr_iff compare_digest_def split: if_splits)

lemma owned_requestE:
  assumes "get_request_for_owner tenant rid person dq = Inr r"
  obtains "dget (dq_items dq) (tenant, rid) = Some r" "dr_requester_person_id r = person"
  using assms unfolding get_request_for_owner_def
  by (auto simp: rbind_Inr_iff ensure_Inr_iff get_or_raise_Inr_iff compare_digest_def split: if_splits)

section \<open>Operations take steps\<close>

lemma cells_step_refl: "cells_step dq dq"
  using draft_step.kept unfolding cells_step_def by simp

lemma put_request_sel [simp]:
  "dq_items (put_request tenant rid r dq) = dput (tenant, rid) r (dq_items dq)" "dq_claims (put_request tenant rid r dq) = dq_claims dq"
  by (simp_all add: put_request_def)

lemma drop_claim_sel [simp]:
  "dq_items (drop_claim tenant rid dq) = dq_items dq" "dq_claims (drop_claim tenant rid dq) = dpop (tenant, rid) (dq_claims dq)"
  by (simp_all add: drop_claim_def)

lemma put_cell_step:
  assumes "dget (dq_items dq) (tenant, rid) = Some r"
    and "draft_step (r, dget (dq_claims dq) (tenant, rid)) (r', dget (dq_claims dq) (tenant, rid))"
  shows "cells_step dq (put_request tenant rid r' dq)"
  using assms by (rule cells_step_one) simp_all

lemma settle_cell_step:
  assumes "dget (dq_items dq) (tenant, rid) = Some r" and "draft_step (r, dget (dq_claims dq) (tenant, rid)) (r', None)"
  shows "cells_step dq (drop_claim tenant rid (put_request tenant rid r' dq))"
  using assms by (rule cells_step_one) (simp_all add: distinct_dkeys_dpop dget_dpop)

lemma settle_draft_step:
  assumes "settle_draft f tenant rid token dq = Inr (dq', u)" and "\<And>r c. draft_step (r, Some c) (f r, None)"
  shows "cells_step dq dq'"
proof -
  obtain r where r: "claimed_draft tenant rid token dq = Inr r" "dq' = drop_claim tenant rid (put_request tenant rid (f r) dq)"
    using assms(1) by (auto simp: settle_draft_def rbind_Inr_iff)
  obtain expires where "dget (dq_items dq) (tenant, rid) = Some r" "dget (dq_claims dq) (tenant, rid) = Some (token, expires)"
    using r(1) by (rule claimed_draftE)
  with assms(2) show ?thesis unfolding r(2) by (intro settle_cell_step) simp_all
qed

lemma create_request_step:
  assumes "create_request (new_draft_request p rid brief background collaborator deferred now) dq = Inr (dq', r)"
  shows "cells_step dq dq'"
proof (cases "dget (dq_items dq) (cp_tenant_id p, rid)")
  case (Some t)
  with assms have "dq' = dq" by (simp add: create_request_def new_draft_request_def split: if_splits)
  then show ?thesis by (simp add: cells_step_refl)
next
  case None
  let ?r = "new_draft_request p rid brief background collaborator deferred now"
  have ids: "dr_tenant_id ?r = cp_tenant_id p" "dr_id ?r = rid" by (simp_all add: new_draft_request_def)
  have dq': "dq' = put_request (cp_tenant_id p) rid ?r dq" using assms None by (auto simp: create_request_def ids)
  have "\<exists>t'. dget (dq_items dq') k = Some t' \<and> draft_step (t, dget (dq_claims dq) k) (t', dget (dq_claims dq') k)"
    if "dget (dq_items dq) k = Some t" for k t
    using that None draft_step.kept by (cases "k = (cp_tenant_id p, rid)") (simp_all add: dq' dget_dput)
  moreover have "(\<exists>p rid brief background collaborator defer now. t' = new_draft_request p rid brief background collaborator defer now) \<and>
      k = (dr_tenant_id t', dr_id t')"
    if "dget (dq_items dq) k = None" "dget (dq_items dq') k = Some t'" for k t'
  proof -
    from that have t': "t' = ?r" "k = (cp_tenant_id p, rid)" by (auto simp: dq' dget_dput split: if_splits)
    then show ?thesis by (simp only: ids simp_thms) blast
  qed
  ultimately show ?thesis unfolding cells_step_def by (simp add: dq' distinct_dkeys_dput)
qed

lemma fold_put_claim:
  "dq_items (fold (\<lambda>(i, r). put_claim tenant now ttl (tokens i) r) (enumerate n rs) dq) =
     fold (\<lambda>(i, k, r). dput k (claimed_request now r)) (enumerate n (map (\<lambda>r. ((tenant, dr_id r), r)) rs)) (dq_items dq) \<and>
   dq_claims (fold (\<lambda>(i, r). put_claim tenant now ttl (tokens i) r) (enumerate n rs) dq) =
     fold (\<lambda>(i, k, r). dput k (tokens i, now + ttl)) (enumerate n (map (\<lambda>r. ((tenant, dr_id r), r)) rs)) (dq_claims dq)"
  by (induction rs arbitrary: n dq) (simp_all add: put_claim_def)

lemma draft_candidates_props:
  assumes "drafts_inv dq"
  shows "distinct (map dr_id (draft_candidates tenant now dq))"
    and "r \<in> set (draft_candidates tenant now dq) \<longleftrightarrow>
      dget (dq_items dq) (tenant, dr_id r) = Some r \<and> draft_claimable r (dget (dq_claims dq) (tenant, dr_id r)) now"
proof -
  have mem: "r \<in> snd ` set (dq_items dq) \<longleftrightarrow> dget (dq_items dq) (dr_tenant_id r, dr_id r) = Some r" for r
  proof
    assume "r \<in> snd ` set (dq_items dq)"
    then obtain k where "(k, r) \<in> set (dq_items dq)" by auto
    then have "dget (dq_items dq) k = Some r" using drafts_invD(4) [OF assms] by (simp add: map_of_eq_Some_iff)
    with drafts_invD(3) [OF assms this] show "dget (dq_items dq) (dr_tenant_id r, dr_id r) = Some r" by simp
  next
    assume "dget (dq_items dq) (dr_tenant_id r, dr_id r) = Some r"
    then show "r \<in> snd ` set (dq_items dq)" by (force dest: map_of_SomeD)
  qed
  show *: "r \<in> set (draft_candidates tenant now dq) \<longleftrightarrow>
      dget (dq_items dq) (tenant, dr_id r) = Some r \<and> draft_claimable r (dget (dq_claims dq) (tenant, dr_id r)) now" for r
    using mem [of r] drafts_invD(3) [OF assms, of "(tenant, dr_id r)" r] by (auto simp: draft_candidates_def)
  have keys: "map (\<lambda>r. (dr_tenant_id r, dr_id r)) (map snd (dq_items dq)) = dkeys (dq_items dq)"
  proof -
    have "(dr_tenant_id (snd p), dr_id (snd p)) = fst p" if "p \<in> set (dq_items dq)" for p
    proof -
      have "dget (dq_items dq) (fst p) = Some (snd p)" using that drafts_invD(4) [OF assms] by simp
      from drafts_invD(3) [OF assms this] show ?thesis by simp
    qed
    then show ?thesis by simp
  qed
  have "distinct (map (\<lambda>r. (dr_tenant_id r, dr_id r)) (map snd (dq_items dq)))" unfolding keys by (rule drafts_invD(4) [OF assms])
  then have d: "distinct (map (\<lambda>r. (dr_tenant_id r, dr_id r)) (filter P (map snd (dq_items dq))))" for P by (rule distinct_map_filter)
  have "distinct (map (\<lambda>r. (dr_tenant_id r, dr_id r)) (draft_candidates tenant now dq))"
    using d unfolding draft_candidates_def by (simp only: distinct_map distinct_sort set_sort simp_thms)
  then show "distinct (map dr_id (draft_candidates tenant now dq))"
    unfolding distinct_map by (auto simp: inj_on_def draft_candidates_def)
qed

text \<open>A batch of claims: due requests of the tenant, each once, under the tokens drawn; nothing else changes.\<close>

lemma claim_drafts_spec:
  assumes "claim_drafts tokens tenant worker now limit ttl dq = Inr (dq', claims)" and inv: "drafts_inv dq"
  obtains rs where "distinct (map dr_id rs)" "length rs \<le> nat limit" "0 < ttl"
    "\<And>r. r \<in> set rs \<Longrightarrow> dget (dq_items dq) (tenant, dr_id r) = Some r \<and> draft_claimable r (dget (dq_claims dq) (tenant, dr_id r)) now"
    "claims = map (\<lambda>(i, r). \<lparr>dc_request = claimed_request now r, dc_claim_token = tokens i\<rparr>) (enumerate 0 rs)"
    "\<And>i. i < length rs \<Longrightarrow> dget (dq_items dq') (tenant, dr_id (rs ! i)) = Some (claimed_request now (rs ! i)) \<and>
       dget (dq_claims dq') (tenant, dr_id (rs ! i)) = Some (tokens i, now + ttl)"
    "\<And>k. k \<notin> (\<lambda>r. (tenant, dr_id r)) ` set rs \<Longrightarrow> dget (dq_items dq') k = dget (dq_items dq) k \<and> dget (dq_claims dq') k = dget (dq_claims dq) k"
    "distinct (dkeys (dq_items dq'))" "distinct (dkeys (dq_claims dq'))"
proof -
  let ?rs = "take (nat limit) (draft_candidates tenant now dq)"
  let ?cs = "map (\<lambda>r. ((tenant, dr_id r), r)) ?rs"
  have v: "validate_draft_claim worker limit ttl = Inr ()"
    and dq': "dq' = fold (\<lambda>(i, r). put_claim tenant now ttl (tokens i) r) (enumerate 0 ?rs) dq"
    and claims: "claims = map (\<lambda>(i, r). \<lparr>dc_request = claimed_request now r, dc_claim_token = tokens i\<rparr>) (enumerate 0 ?rs)"
    using assms(1) by (auto simp: claim_drafts_def rbind_Inr_iff Let_def)
  have d: "distinct (map dr_id ?rs)" using draft_candidates_props(1) [OF inv, of tenant now] by (simp add: take_map [symmetric])
  have "map fst ?cs = map (Pair tenant) (map dr_id ?rs)" by simp
  then have dcs: "distinct (map fst ?cs)" using d by (simp only: distinct_map) (simp add: inj_on_def)
  note items = claim_puts [OF dcs, of "\<lambda>i. claimed_request now" 0 "dq_items dq"]
  note cls = claim_puts [OF dcs, of "\<lambda>i r. (tokens i, now + ttl)" 0 "dq_claims dq"]
  note eqs = fold_put_claim [of tenant now ttl tokens 0 ?rs dq, folded dq']
  have keys: "fst ` set ?cs = (\<lambda>r. (tenant, dr_id r)) ` set ?rs" by force
  show thesis
  proof (rule that [OF d])
    show "length ?rs \<le> nat limit" by simp
    show "0 < ttl" using v by (auto simp: validate_draft_claim_def rbind_Inr_iff ensure_Inr_iff)
    show "dget (dq_items dq) (tenant, dr_id r) = Some r \<and> draft_claimable r (dget (dq_claims dq) (tenant, dr_id r)) now"
      if "r \<in> set ?rs" for r
      using in_set_takeD [OF that] draft_candidates_props(2) [OF inv] by blast
    show "claims = map (\<lambda>(i, r). \<lparr>dc_request = claimed_request now r, dc_claim_token = tokens i\<rparr>) (enumerate 0 ?rs)" by (rule claims)
    show "dget (dq_items dq') (tenant, dr_id (?rs ! i)) = Some (claimed_request now (?rs ! i)) \<and>
        dget (dq_claims dq') (tenant, dr_id (?rs ! i)) = Some (tokens i, now + ttl)" if i: "i < length ?rs" for i
    proof -
      have c: "?cs ! i = ((tenant, dr_id (?rs ! i)), ?rs ! i)" "i < length ?cs" using i by simp_all
      show ?thesis using conjunct1 [OF items] conjunct1 [OF cls] c(2) unfolding eqs [THEN conjunct1] eqs [THEN conjunct2]
        by (metis (no_types, lifting) c(1) add_0 fst_conv snd_conv)
    qed
    show "dget (dq_items dq') k = dget (dq_items dq) k \<and> dget (dq_claims dq') k = dget (dq_claims dq) k"
      if "k \<notin> (\<lambda>r. (tenant, dr_id r)) ` set ?rs" for k
      using conjunct2 [OF items] conjunct2 [OF cls] that unfolding keys eqs [THEN conjunct1] eqs [THEN conjunct2] by blast
    show "distinct (dkeys (dq_items dq'))" "distinct (dkeys (dq_claims dq'))"
      unfolding eqs [THEN conjunct1] eqs [THEN conjunct2] by (rule claim_puts_distinct, rule drafts_invD [OF inv])+
  qed
qed

lemma claim_drafts_step:
  assumes "claim_drafts tokens tenant worker now limit ttl dq = Inr (dq', claims)" and inv: "drafts_inv dq"
  shows "cells_step dq dq'"
  using assms
proof (rule claim_drafts_spec, goal_cases)
  case (1 rs)
  let ?keys = "(\<lambda>r. (tenant, dr_id r)) ` set rs"
  have old: "\<exists>t'. dget (dq_items dq') k = Some t' \<and> draft_step (t, dget (dq_claims dq) k) (t', dget (dq_claims dq') k)"
    if t: "dget (dq_items dq) k = Some t" for k t
  proof (cases "k \<in> ?keys")
    case True
    then obtain i where i: "i < length rs" "k = (tenant, dr_id (rs ! i))" by (auto simp: in_set_conv_nth)
    have "t = rs ! i" "draft_claimable t (dget (dq_claims dq) k) now" using 1(4) [OF nth_mem [OF i(1)]] t by (simp_all add: i(2))
    with 1(6) [OF i(1)] i(2) draft_step.claimed show ?thesis by simp
  next
    case False
    with 1(7) [OF False] t draft_step.kept show ?thesis by simp
  qed
  have new: "k \<notin> ?keys" if "dget (dq_items dq) k = None" for k
    using 1(4) that by force
  show ?case unfolding cells_step_def using old new 1(7-9) by auto
qed

lemma queue_step:
  assumes "queue_collecting_context tenant rid person attachments enterprise fingerprint now dq = Inr (dq', r')"
  shows "cells_step dq dq'"
proof -
  obtain r where r: "get_request_for_owner tenant rid person dq = Inr r" "dr_status r = R_COLLECTING"
    "dq' = put_request tenant rid (r\<lparr>dr_status := R_PENDING, dr_attachment_manifest := attachments,
       dr_enterprise_knowledge_manifest := enterprise, dr_enterprise_selection_fingerprint := fingerprint,
       dr_available_at := now, dr_updated_at := now\<rparr>) dq"
    using assms by (auto simp: queue_collecting_context_def rbind_Inr_iff ensure_Inr_iff Let_def)
  from r(1) have "dget (dq_items dq) (tenant, rid) = Some r" by (rule owned_requestE)
  then show ?thesis unfolding r(3) by (rule put_cell_step) (rule draft_step.queued [OF r(2)])
qed

lemma repair_request_step:
  assumes "mark_repairing tenant rid token now dq = Inr (dq', u)"
  shows "cells_step dq dq'"
proof -
  obtain r where r: "claimed_draft tenant rid token dq = Inr r" "dr_status r = R_GENERATING"
    "dq' = put_request tenant rid (r\<lparr>dr_status := R_REPAIRING, dr_updated_at := now\<rparr>) dq"
    using assms by (auto simp: mark_repairing_def rbind_Inr_iff ensure_Inr_iff)
  obtain expires where c: "dget (dq_items dq) (tenant, rid) = Some r" "dget (dq_claims dq) (tenant, rid) = Some (token, expires)"
    using r(1) by (rule claimed_draftE)
  from c(1) show ?thesis unfolding r(3) by (rule put_cell_step) (simp only: c(2), rule draft_step.repairing [OF r(2)])
qed

lemma keep_candidate_step:
  assumes "save_candidate tenant rid token document now dq = Inr (dq', r')"
  shows "cells_step dq dq'"
proof -
  obtain r where r: "claimed_draft tenant rid token dq = Inr r" "dr_status r \<in> {R_GENERATING, R_REPAIRING}"
    "dq' = put_request tenant rid (r\<lparr>dr_status := R_CREATING, dr_definition := Some document, dr_updated_at := now\<rparr>) dq"
    using assms by (auto simp: save_candidate_def rbind_Inr_iff ensure_Inr_iff Let_def)
  obtain expires where c: "dget (dq_items dq) (tenant, rid) = Some r" "dget (dq_claims dq) (tenant, rid) = Some (token, expires)"
    using r(1) by (rule claimed_draftE)
  from c(1) show ?thesis unfolding r(3) by (rule put_cell_step) (simp only: c(2), rule draft_step.candidate [OF r(2)])
qed

lemma cancel_request_step:
  assumes "cancel_request tenant rid person now dq = Inr (dq', r')"
  shows "cells_step dq dq'"
proof -
  obtain r where r: "get_request_for_owner tenant rid person dq = Inr r"
    using assms by (auto simp: cancel_request_def rbind_Inr_iff)
  then have i: "dget (dq_items dq) (tenant, rid) = Some r" "dr_requester_person_id r = person" by (auto elim: owned_requestE)
  show ?thesis
  proof (cases "dr_status r = R_CANCELED")
    case True
    with assms r show ?thesis by (simp add: cancel_request_def cells_step_refl)
  next
    case False
    with assms r have c: "cancelable_draft (dr_status r)"
      and dq': "dq' = drop_claim tenant rid (put_request tenant rid (canceled_request now person r) dq)"
      by (auto simp: cancel_request_def rbind_Inr_iff ensure_Inr_iff Let_def)
    from i(1) show ?thesis unfolding dq'
      by (rule settle_cell_step) (simp only: i(2) [symmetric], rule draft_step.canceled [OF c])
  qed
qed

lemma drafts_op_step: "drafts_op dq dq' \<Longrightarrow> drafts_inv dq \<Longrightarrow> cells_step dq dq'"
proof (induction rule: drafts_op.induct)
  case create from create.hyps show ?case by (rule create_request_step)
next
  case queue from queue.hyps show ?case by (rule queue_step)
next
  case claim then show ?case by (rule claim_drafts_step)
next
  case repair from repair.hyps show ?case by (rule repair_request_step)
next
  case keep from keep.hyps show ?case by (rule keep_candidate_step)
next
  case ready from ready.hyps show ?case unfolding mark_draft_ready_def by (rule settle_draft_step) (rule draft_step.ready)
next
  case reject from reject.hyps show ?case unfolding mark_rejected_def by (rule settle_draft_step) (rule draft_step.rejected)
next
  case fail from fail.hyps show ?case unfolding mark_failed_def by (rule settle_draft_step) (rule draft_step.failed)
next
  case cancel from cancel.hyps show ?case by (rule cancel_request_step)
qed

section \<open>Reachable repositories\<close>

lemma empty_drafts_inv: "drafts_inv empty_draft_repo"
  by (simp add: drafts_inv_def empty_draft_repo_def)

lemma drafts_op_inv: "drafts_op dq dq' \<Longrightarrow> drafts_inv dq \<Longrightarrow> drafts_inv dq'"
  using cells_step_inv drafts_op_step by blast

lemma drafts_reachable_inv: "drafts_op\<^sup>*\<^sup>* dq dq' \<Longrightarrow> drafts_inv dq \<Longrightarrow> drafts_inv dq'"
  by (induction rule: rtranclp_induct) (auto intro: drafts_op_inv)

lemma drafts_op_later:
  assumes "drafts_op dq dq'" and "drafts_inv dq" and "dget (dq_items dq) k = Some r"
  obtains r' where "dget (dq_items dq') k = Some r'" "request_later r r'"
proof -
  obtain r' where "dget (dq_items dq') k = Some r'" "draft_step (r, dget (dq_claims dq) k) (r', dget (dq_claims dq') k)"
    using cells_step_old [OF drafts_op_step [OF assms(1,2)] assms(3)] by blast
  with that draft_step_later drafts_invD(2) [OF assms(2,3)] show thesis by fastforce
qed

lemma drafts_reachable_later:
  assumes "drafts_op\<^sup>*\<^sup>* dq dq'" and "drafts_inv dq" and "dget (dq_items dq) k = Some r"
  obtains r' where "dget (dq_items dq') k = Some r'" "request_later r r'"
  using assms
proof (induction arbitrary: thesis rule: rtranclp_induct)
  case base
  then show ?case using request_later_refl by blast
next
  case (step y z)
  obtain s where s: "dget (dq_items y) k = Some s" "request_later r s" using step.IH step.prems(2,3) by blast
  have "drafts_inv y" by (rule drafts_reachable_inv [OF step.hyps(1) step.prems(2)])
  with step.hyps(2) obtain r' where "dget (dq_items z) k = Some r'" "request_later s r'" using s(1) by (rule drafts_op_later)
  with step.prems(1) s(2) show ?case using request_later_trans by blast
qed

end
