(* ===== verification/Attachment_Theorems.thy ===== *)
theory Attachment_Theorems
  imports Draft_Request_Theorems
begin

text \<open>
  The console store as a whole: every operation keeps the limits on attachments and their blobs intact, and
  a manifest that has been frozen can be resolved for as long as the request lives.
\<close>

section \<open>Valid attachments\<close>

definition attachment_ok :: "console_attachment \<Rightarrow> bool" where
  "attachment_ok a \<longleftrightarrow> mk_console_attachment a = Inr a"

lemma mk_console_attachment_same: "mk_console_attachment a = Inr b \<Longrightarrow> b = a \<and> attachment_ok a"
proof -
  assume mk: "mk_console_attachment a = Inr b"
  then have "b = a" unfolding mk_console_attachment_def by (simp add: rbind_Inr_iff)
  with mk show ?thesis by (simp add: attachment_ok_def)
qed

lemma attachment_okD:
  assumes "attachment_ok a"
  shows "attachment_id_text (ca_attachment_id a)" "attachment_id_text (ca_origin_request_id a)" "object_key_text (ca_object_key a)"
    "\<not> blank (ca_display_filename a)" "ca_media_type a \<in> {''text/plain'', ''text/markdown''}"
    "1 \<le> ca_size_bytes a" "ca_size_bytes a \<le> MAX_ATTACHMENT_BYTES" "hex_text 64 (ca_content_sha256 a)"
    "ca_data_classification a = ''internal''" "ca_model_egress_policy a \<in> {''allow'', ''deny''}"
    "ca_status a = ''ready'' \<Longrightarrow> ca_revoked_at a = None"
  using assms unfolding attachment_ok_def mk_console_attachment_def
  by (simp_all add: rbind_Inr_iff ensure_Inr_iff)

definition reference_of :: "console_attachment \<Rightarrow> attachment_ref" where
  "reference_of a =
     \<lparr>ar_attachment_id = ca_attachment_id a, ar_source_id = ''attachment:'' @ ca_attachment_id a,
      ar_display_filename = ca_display_filename a, ar_media_type = ca_media_type a, ar_size_bytes = PInt (ca_size_bytes a),
      ar_content_sha256 = ca_content_sha256 a, ar_data_classification = ca_data_classification a,
      ar_egress_decision = ca_model_egress_policy a\<rparr>"

lemma hex_char_lower: "hex_char c \<Longrightarrow> lower_char c \<or> is_digit c"
  unfolding hex_char_def lower_char_def
  by (auto intro: order_trans [of c "CHR ''f''"])

lemma hex_not_blank: "hex_text n s \<Longrightarrow> n \<noteq> 0 \<Longrightarrow> \<not> blank s"
proof
  assume hex: "hex_text n s" "n \<noteq> 0" and b: "blank s"
  then obtain c cs where s: "s = c # cs" by (cases s) (auto simp: hex_text_def)
  with hex b have "hex_char c" "py_space c" by (simp_all add: hex_text_def blank_iff)
  then show False by (auto simp: hex_char_def is_digit_def py_space_def Let_def less_eq_char_def)
qed

lemma attachment_source_id: "attachment_id_text aid \<Longrightarrow> context_source_id (''attachment:'' @ aid)"
proof -
  assume "attachment_id_text aid"
  then have "length aid = 32" "list_all (\<lambda>c. lower_char c \<or> is_digit c \<or> id_punct c) aid"
    using hex_char_lower by (auto simp: attachment_id_text_def hex_text_def list_all_iff)
  moreover have "list_all (\<lambda>c. lower_char c \<or> is_digit c \<or> id_punct c) ''ttachment:''" "lower_char (CHR ''a'')" by code_simp+
  ultimately show ?thesis by (simp add: context_source_id_def source_name_def)
qed

lemma attachment_reference_ok: "attachment_ok a \<Longrightarrow> attachment_reference a = Inr (reference_of a)"
proof -
  assume ok: "attachment_ok a"
  have "\<not> blank (ca_attachment_id a)" using attachment_okD(1) [OF ok] by (simp add: attachment_id_text_def hex_not_blank)
  moreover note attachment_source_id [OF attachment_okD(1) [OF ok]] attachment_okD [OF ok]
  ultimately show ?thesis
    by (simp add: attachment_reference_def mk_attachment_ref_def reference_of_def not_less del: insert_iff)
qed

section \<open>Sizes\<close>

text \<open>All that the limits look at.\<close>

definition profile :: "console_attachment \<Rightarrow> string \<times> string \<times> int" where
  "profile a = (ca_tenant_id a, ca_origin_request_id a, ca_size_bytes a)"

definition profiles :: "console_store \<Rightarrow> (string \<times> string \<times> int) list" where
  "profiles s = map profile (map snd (cs_attachments s))"

definition request_sizes :: "string \<Rightarrow> string \<Rightarrow> (string \<times> string \<times> int) list \<Rightarrow> int list" where
  "request_sizes tenant rid ps = map (snd \<circ> snd) (filter (\<lambda>(t, r, n). t = tenant \<and> r = rid) ps)"

definition tenant_sizes :: "string \<Rightarrow> (string \<times> string \<times> int) list \<Rightarrow> int list" where
  "tenant_sizes tenant ps = map (snd \<circ> snd) (filter (\<lambda>(t, r, n). t = tenant) ps)"

lemma retained_sizes:
  "map ca_size_bytes (retained_for_request tenant rid s) = request_sizes tenant rid (profiles s)"
  "map ca_size_bytes (retained_for_tenant tenant s) = tenant_sizes tenant (profiles s)"
  by (simp_all add: retained_for_request_def retained_for_tenant_def request_sizes_def tenant_sizes_def profiles_def
      filter_map comp_def profile_def)

definition within_limits :: "(string \<times> string \<times> int) list \<Rightarrow> bool" where
  "within_limits ps \<longleftrightarrow>
     (\<forall>tenant rid. length (request_sizes tenant rid ps) \<le> MAX_ATTACHMENTS_PER_REQUEST \<and>
        sum_list (request_sizes tenant rid ps) \<le> MAX_ATTACHMENTS_TOTAL_BYTES) \<and>
     (\<forall>tenant. length (tenant_sizes tenant ps) \<le> MAX_RETAINED_ATTACHMENTS_PER_TENANT \<and>
        sum_list (tenant_sizes tenant ps) \<le> MAX_RETAINED_ATTACHMENT_BYTES_PER_TENANT)"

lemma within_limits_add:
  assumes "within_limits ps"
    and "check_attachment_limits (retained_for_request (ca_tenant_id a) (ca_origin_request_id a) s)
        (retained_for_tenant (ca_tenant_id a) s) (ca_size_bytes a) = Inr u"
    and ps: "profiles s = ps"
  shows "within_limits (ps @ [profile a])"
proof -
  have len: "length (retained_for_request t r s) = length (request_sizes t r ps)" "length (retained_for_tenant t s) = length (tenant_sizes t ps)" for t r
    using arg_cong [OF retained_sizes(1) [of t r s], of length] arg_cong [OF retained_sizes(2) [of t s], of length] by (simp_all add: ps)
  have tot: "total_bytes (retained_for_request t r s) = sum_list (request_sizes t r ps)"
    "total_bytes (retained_for_tenant t s) = sum_list (tenant_sizes t ps)" for t r
    by (simp_all add: total_bytes_def retained_sizes ps)
  have new: "length (request_sizes (ca_tenant_id a) (ca_origin_request_id a) ps) < MAX_ATTACHMENTS_PER_REQUEST"
    "sum_list (request_sizes (ca_tenant_id a) (ca_origin_request_id a) ps) + ca_size_bytes a \<le> MAX_ATTACHMENTS_TOTAL_BYTES"
    "length (tenant_sizes (ca_tenant_id a) ps) < MAX_RETAINED_ATTACHMENTS_PER_TENANT"
    "sum_list (tenant_sizes (ca_tenant_id a) ps) + ca_size_bytes a \<le> MAX_RETAINED_ATTACHMENT_BYTES_PER_TENANT"
    using assms(2) by (simp_all add: check_attachment_limits_def rbind_Inr_iff ensure_Inr_iff len tot)
  have r: "request_sizes t r (ps @ [profile a]) =
      request_sizes t r ps @ (if t = ca_tenant_id a \<and> r = ca_origin_request_id a then [ca_size_bytes a] else [])" for t r
    by (auto simp: request_sizes_def profile_def)
  have t: "tenant_sizes t (ps @ [profile a]) = tenant_sizes t ps @ (if t = ca_tenant_id a then [ca_size_bytes a] else [])" for t
    by (auto simp: tenant_sizes_def profile_def)
  show ?thesis using assms(1) new unfolding within_limits_def r t by simp
qed

lemma map_dput_same:
  "dget d k = Some u \<Longrightarrow> g u = g v \<Longrightarrow> map g (map snd (dput k v d)) = map g (map snd d)"
  by (induction d) auto

lemma dpop_dput_new: "dget d k = None \<Longrightarrow> dpop k (dput k v d) = d"
  by (induction d) (auto split: if_splits)

section \<open>The store\<close>

definition blob_intact :: "console_store \<Rightarrow> console_attachment \<Rightarrow> bool" where
  "blob_intact s a \<longleftrightarrow> (\<exists>bytes decoded. dget (cs_blobs s) (ca_object_key a) = Some bytes \<and> int (length bytes) = ca_size_bytes a \<and>
     sha256_hex bytes = ca_content_sha256 a \<and> utf8_text bytes = Some decoded \<and> decoded \<noteq> [])"

definition owned_by_requester :: "console_store \<Rightarrow> console_attachment \<Rightarrow> bool" where
  "owned_by_requester s a \<longleftrightarrow> (\<exists>req. dget (dq_items (cs_drafts s)) (ca_tenant_id a, ca_origin_request_id a) = Some req \<and>
     ca_uploader_person_id a = dr_requester_person_id req)"

definition console_inv :: "console_store \<Rightarrow> bool" where
  "console_inv s \<longleftrightarrow> drafts_inv (cs_drafts s) \<and> distinct (dkeys (cs_attachments s)) \<and> within_limits (profiles s) \<and>
     (\<forall>k a. dget (cs_attachments s) k = Some a \<longrightarrow>
        k = (ca_tenant_id a, ca_attachment_id a) \<and> attachment_ok a \<and> blob_intact s a \<and> owned_by_requester s a)"

lemma console_invD:
  assumes "console_inv s"
  shows "drafts_inv (cs_drafts s)" "distinct (dkeys (cs_attachments s))" "within_limits (profiles s)"
    and "dget (cs_attachments s) k = Some a \<Longrightarrow> k = (ca_tenant_id a, ca_attachment_id a)"
    and "dget (cs_attachments s) k = Some a \<Longrightarrow> attachment_ok a"
    and "dget (cs_attachments s) k = Some a \<Longrightarrow> blob_intact s a"
    and "dget (cs_attachments s) k = Some a \<Longrightarrow> owned_by_requester s a"
  using assms unfolding console_inv_def by blast+

lemma console_invI:
  assumes "drafts_inv (cs_drafts s)" "distinct (dkeys (cs_attachments s))" "within_limits (profiles s)"
    and "\<And>k a. dget (cs_attachments s) k = Some a \<Longrightarrow>
      k = (ca_tenant_id a, ca_attachment_id a) \<and> attachment_ok a \<and> blob_intact s a \<and> owned_by_requester s a"
  shows "console_inv s"
  using assms unfolding console_inv_def by blast

definition empty_console :: console_store where
  "empty_console = \<lparr>cs_drafts = empty_draft_repo, cs_attachments = [], cs_blobs = []\<rparr>"

lemma empty_console_inv: "console_inv empty_console"
  by (simp add: console_inv_def empty_console_def empty_drafts_inv profiles_def within_limits_def request_sizes_def tenant_sizes_def
      MAX_ATTACHMENTS_TOTAL_BYTES_def MAX_RETAINED_ATTACHMENT_BYTES_PER_TENANT_def)

text \<open>The operations of owners and workers on the store.\<close>

inductive console_op :: "console_store \<Rightarrow> console_store \<Rightarrow> bool" where
  nothing: "console_op s s"
| drafts: "drafts_op (cs_drafts s) dq \<Longrightarrow> console_op s (s\<lparr>cs_drafts := dq\<rparr>)"
| upload: "console_op s (fst (upload_attachment sv p rid filename media_type content aid now s))"
| revoke: "revoke_attachment tenant rid aid person now s = Inr (s', a) \<Longrightarrow> console_op s s'"
| freeze: "freeze_and_queue tenant rid person now s = Inr (s', req) \<Longrightarrow> console_op s s'"
| promote: "console_op s (fst (promote_attachments req (draft_instance_id (dr_id req)) s))"

lemma request_ownerE:
  assumes "request_owner tenant rid person s = Inr req"
  obtains "dget (dq_items (cs_drafts s)) (tenant, rid) = Some req" "dr_requester_person_id req = person"
proof (cases "get_request_for_owner tenant rid person (cs_drafts s)")
  case (Inr r)
  with assms have "get_request_for_owner tenant rid person (cs_drafts s) = Inr req" by (simp add: request_owner_def)
  then show thesis using that by (auto elim: owned_requestE)
next
  case (Inl e)
  with assms show thesis unfolding request_owner_def by (cases e) simp_all
qed

text \<open>The requests may move on, and an attachment may change its status or its instance.\<close>

lemma console_drafts_inv:
  assumes "console_inv s" and "drafts_op (cs_drafts s) dq"
  shows "console_inv (s\<lparr>cs_drafts := dq\<rparr>)"
proof -
  have "owned_by_requester (s\<lparr>cs_drafts := dq\<rparr>) a" if "dget (cs_attachments s) k = Some a" for k a
  proof -
    from console_invD(7) [OF assms(1) that] obtain req
      where req: "dget (dq_items (cs_drafts s)) (ca_tenant_id a, ca_origin_request_id a) = Some req" "ca_uploader_person_id a = dr_requester_person_id req"
      by (auto simp: owned_by_requester_def)
    obtain req' where "dget (dq_items dq) (ca_tenant_id a, ca_origin_request_id a) = Some req'" "request_later req req'"
      using assms(2) console_invD(1) [OF assms(1)] req(1) by (rule drafts_op_later)
    with req(2) show ?thesis by (auto simp: owned_by_requester_def request_later_def same_author_def)
  qed
  with assms drafts_op_inv show ?thesis by (simp add: console_inv_def profiles_def blob_intact_def)
qed

lemma replace_attachment_inv:
  assumes inv: "console_inv s" and a: "dget (cs_attachments s) k = Some a" and ok: "attachment_ok b"
    and same: "ca_tenant_id b = ca_tenant_id a" "ca_attachment_id b = ca_attachment_id a" "ca_origin_request_id b = ca_origin_request_id a"
      "ca_uploader_person_id b = ca_uploader_person_id a" "ca_size_bytes b = ca_size_bytes a" "ca_content_sha256 b = ca_content_sha256 a"
      "ca_object_key b = ca_object_key a"
  shows "console_inv (s\<lparr>cs_attachments := dput k b (cs_attachments s)\<rparr>)"
proof -
  note a_inv = console_invD(4,6,7) [OF inv a]
  have b: "k = (ca_tenant_id b, ca_attachment_id b)" "blob_intact s b" "owned_by_requester s b"
    using a_inv by (simp_all add: blob_intact_def owned_by_requester_def same)
  have p: "map profile (map snd (dput k b (cs_attachments s))) = map profile (map snd (cs_attachments s))"
    using a by (rule map_dput_same) (simp add: profile_def same)
  let ?s = "s\<lparr>cs_attachments := dput k b (cs_attachments s)\<rparr>"
  have frame: "blob_intact ?s c = blob_intact s c" "owned_by_requester ?s c = owned_by_requester s c" for c
    by (simp_all add: blob_intact_def owned_by_requester_def)
  have "profiles ?s = profiles s" using p by (simp only: profiles_def) simp
  moreover have "j = (ca_tenant_id c, ca_attachment_id c) \<and> attachment_ok c \<and> blob_intact s c \<and> owned_by_requester s c"
    if "dget (dput k b (cs_attachments s)) j = Some c" for j c
    using that b ok console_invD(4-7) [OF inv, of j c] by (auto simp only: dget_dput split: if_splits)
  ultimately show ?thesis using console_invD(1-3) [OF inv]
    by (intro console_invI) (simp_all add: frame distinct_dkeys_dput)
qed

lemma revoke_inv:
  assumes "revoke_attachment tenant rid aid person now s = Inr (s', b)" and inv: "console_inv s"
  shows "console_inv s'"
proof -
  obtain a where a: "dget (cs_attachments s) (tenant, aid) = Some a"
    and b: "mk_console_attachment (a\<lparr>ca_status := ''revoked'', ca_revoked_at := Some now\<rparr>) = Inr b"
    and s': "s' = s\<lparr>cs_attachments := dput (tenant, aid) b (cs_attachments s)\<rparr>"
    using assms(1) unfolding revoke_attachment_def by (auto simp: rbind_Inr_iff ensure_Inr_iff get_or_raise_Inr_iff)
  from mk_console_attachment_same [OF b] show ?thesis unfolding s' by (intro replace_attachment_inv [OF inv a]) simp_all
qed

lemma promote_all_inv:
  assumes "console_inv s"
  shows "console_inv (fst (promote_all req iid aids s))"
  using assms
proof (induction aids arbitrary: s)
  case (Cons aid aids)
  show ?case
  proof (cases "promote_attachment req iid aid s")
    case (Inr s1)
    then obtain a b where a: "dget (cs_attachments s) (dr_tenant_id req, aid) = Some a"
      and b: "mk_console_attachment (a\<lparr>ca_instance_id := Some iid\<rparr>) = Inr b"
      and s1: "s1 = s\<lparr>cs_attachments := dput (dr_tenant_id req, aid) b (cs_attachments s)\<rparr>"
      unfolding promote_attachment_def by (auto simp: rbind_Inr_iff ensure_Inr_iff get_or_raise_Inr_iff)
    from mk_console_attachment_same [OF b] have "console_inv s1"
      unfolding s1 by (intro replace_attachment_inv [OF Cons.prems a]) simp_all
    with Cons.IH Inr show ?thesis by simp
  qed (simp add: Cons.prems)
qed simp

lemma freeze_drafts_op:
  assumes "freeze_and_queue tenant rid person now s = Inr (s', req)"
  obtains dq where "drafts_op (cs_drafts s) dq" "s' = s\<lparr>cs_drafts := dq\<rparr>"
proof -
  obtain manifest dq where "queue_collecting tenant rid person manifest now (cs_drafts s) = Inr (dq, req)" "s' = s\<lparr>cs_drafts := dq\<rparr>"
    using assms unfolding freeze_and_queue_def Let_def by (auto simp: rbind_Inr_iff)
  with drafts_op.queue that show thesis unfolding queue_collecting_def by blast
qed

lemma uploaded_attachmentE:
  assumes "uploaded_attachment sv p rid filename media_type content aid now s = Inr (a, encoded)"
  obtains decoded where "attachment_ok a" "ca_size_bytes a = int (length encoded)" "ca_content_sha256 a = sha256_hex encoded"
    "utf8_bytes decoded = Some encoded" "decoded \<noteq> []"
    "ca_instance_id a = None" "ca_tenant_id a = cp_tenant_id p" "ca_uploader_person_id a = cp_person_id p" "ca_origin_request_id a = rid"
proof -
  obtain decoded filename' where d: "utf8_bytes decoded = Some encoded" "list_ex (\<lambda>n. \<not> code_space n) decoded"
    and mk: "mk_console_attachment
         \<lparr>ca_tenant_id = cp_tenant_id p, ca_attachment_id = aid, ca_origin_request_id = rid, ca_instance_id = None,
          ca_uploader_person_id = cp_person_id p, ca_display_filename = filename', ca_media_type = py_str media_type,
          ca_size_bytes = int (length encoded), ca_content_sha256 = sha256_hex encoded,
          ca_object_key = take 16 (text_sha256 (cp_tenant_id p)) @ ''/'' @ aid, ca_status = ''ready'',
          ca_data_classification = ''internal'', ca_model_egress_policy = as_model_egress_policy sv, ca_created_at = now,
          ca_revoked_at = None\<rparr> = Inr a"
    using assms unfolding uploaded_attachment_def
    by (elim rbindE) (auto simp: get_or_raise_Inr_iff ensure_Inr_iff rbind_Inr_iff)
  from d(2) have "decoded \<noteq> []" by auto
  with that d(1) mk_console_attachment_same [OF mk] show thesis by simp
qed

text \<open>An upload either stores both the blob and the attachment or leaves the store as it was.\<close>

lemma blob_put_then_delete: "blob_put key bytes s = Inr s1 \<Longrightarrow> blob_delete key s1 = Inr s"
  by (auto simp: blob_put_def blob_delete_def rbind_Inr_iff ensure_Inr_iff dpop_dput_new)

lemma create_for_requestE:
  assumes "create_for_request a s = Inr (s', b)"
  obtains req u where "dget (dq_items (cs_drafts s)) (ca_tenant_id a, ca_origin_request_id a) = Some req"
    "dr_requester_person_id req = ca_uploader_person_id a" "dr_status req = R_COLLECTING"
    "check_attachment_limits (retained_for_request (ca_tenant_id a) (ca_origin_request_id a) s)
       (retained_for_tenant (ca_tenant_id a) s) (ca_size_bytes a) = Inr u"
    "dget (cs_attachments s) (ca_tenant_id a, ca_attachment_id a) = None"
    "s' = s\<lparr>cs_attachments := cs_attachments s @ [((ca_tenant_id a, ca_attachment_id a), a)]\<rparr>" "b = a"
proof -
  obtain req u where r: "request_owner (ca_tenant_id a) (ca_origin_request_id a) (ca_uploader_person_id a) s = Inr req"
    "dr_status req = R_COLLECTING"
    "check_attachment_limits (retained_for_request (ca_tenant_id a) (ca_origin_request_id a) s)
       (retained_for_tenant (ca_tenant_id a) s) (ca_size_bytes a) = Inr u"
    "dget (cs_attachments s) (ca_tenant_id a, ca_attachment_id a) = None"
    "s' = s\<lparr>cs_attachments := dput (ca_tenant_id a, ca_attachment_id a) a (cs_attachments s)\<rparr>" "b = a"
    using assms unfolding create_for_request_def require_collecting_def Let_def by (auto simp: rbind_Inr_iff ensure_Inr_iff)
  have s': "s' = s\<lparr>cs_attachments := cs_attachments s @ [((ca_tenant_id a, ca_attachment_id a), a)]\<rparr>"
    using r(4,5) by (simp add: dput_new dget_None_iff)
  from r(1) that r(2-4,6) s' show thesis by (auto elim!: request_ownerE)
qed

lemma upload_cases:
  obtains (refused) e where "upload_attachment sv p rid filename media_type content aid now s = (s, Inl e)"
  | (stored) a encoded s1 m where "uploaded_attachment sv p rid filename media_type content aid now s = Inr (a, encoded)"
    "blob_put (ca_object_key a) encoded s = Inr s1" "create_for_request a s1 = Inr (fst (upload_attachment sv p rid filename media_type content aid now s), a)"
    "snd (upload_attachment sv p rid filename media_type content aid now s) = Inr m"
proof (cases "uploaded_attachment sv p rid filename media_type content aid now s")
  case (Inl e)
  then show thesis by (intro refused [of e]) (simp add: upload_attachment_def)
next
  case u: (Inr x)
  obtain a encoded where x: "x = (a, encoded)" by (cases x)
  show thesis
  proof (cases "blob_put (ca_object_key a) encoded s")
    case (Inl e)
    with u show thesis by (intro refused [of e]) (simp add: upload_attachment_def x)
  next
    case p: (Inr s1)
    show thesis
    proof (cases "create_for_request a s1")
      case (Inl e)
      with u p blob_put_then_delete [OF p] show thesis by (intro refused [of e]) (simp add: upload_attachment_def x)
    next
      case (Inr y)
      obtain s2 b where y: "y = (s2, b)" by (cases y)
      with Inr have "create_for_request a s1 = Inr (s2, a)" by (auto elim!: create_for_requestE)
      with u p Inr y show thesis by (intro stored [of a encoded s1]) (simp_all add: upload_attachment_def x)
    qed
  qed
qed

lemma upload_inv:
  assumes inv: "console_inv s"
  shows "console_inv (fst (upload_attachment sv p rid filename media_type content aid now s))" (is "console_inv ?s'")
proof (cases rule: upload_cases [of sv p rid filename media_type content aid now s])
  case (refused e)
  with inv show ?thesis by simp
next
  case (stored a encoded s1 m)
  from stored(2) have s1: "s1 = s\<lparr>cs_blobs := dput (ca_object_key a) encoded (cs_blobs s)\<rparr>" "dget (cs_blobs s) (ca_object_key a) = None"
    by (auto simp: blob_put_def rbind_Inr_iff ensure_Inr_iff)
  obtain decoded where a: "attachment_ok a" "ca_size_bytes a = int (length encoded)" "ca_content_sha256 a = sha256_hex encoded"
      "utf8_bytes decoded = Some encoded" "decoded \<noteq> []"
    using stored(1) by (rule uploaded_attachmentE)
  obtain req u where c: "dget (dq_items (cs_drafts s1)) (ca_tenant_id a, ca_origin_request_id a) = Some req"
      "dr_requester_person_id req = ca_uploader_person_id a"
      "check_attachment_limits (retained_for_request (ca_tenant_id a) (ca_origin_request_id a) s1)
         (retained_for_tenant (ca_tenant_id a) s1) (ca_size_bytes a) = Inr u"
      "dget (cs_attachments s1) (ca_tenant_id a, ca_attachment_id a) = None"
      "?s' = s1\<lparr>cs_attachments := cs_attachments s1 @ [((ca_tenant_id a, ca_attachment_id a), a)]\<rparr>"
    using stored(3) by (rule create_for_requestE) blast
  have intact: "blob_intact ?s' a" using a utf8_text_Some_iff [of encoded decoded]
    by (auto simp: blob_intact_def c(5) s1(1) dget_dput)
  have old: "blob_intact ?s' b" if "blob_intact s b" for b
  proof -
    have "ca_object_key b \<noteq> ca_object_key a" using that s1(2) by (auto simp: blob_intact_def)
    with that show ?thesis by (simp add: blob_intact_def c(5) s1(1) dget_dput)
  qed
  have frame: "owned_by_requester ?s' b = owned_by_requester s b" for b by (simp add: owned_by_requester_def c(5) s1(1))
  have own: "owned_by_requester s a" using c(1,2) by (simp add: owned_by_requester_def s1(1))
  have p: "profiles s1 = profiles s" "profiles ?s' = profiles s @ [profile a]" by (simp_all add: profiles_def c(5) s1(1))
  show ?thesis
  proof (rule console_invI)
    show "drafts_inv (cs_drafts ?s')" using console_invD(1) [OF inv] by (simp add: c(5) s1(1))
    show "distinct (dkeys (cs_attachments ?s'))" using console_invD(2) [OF inv] c(4) by (simp add: c(5) s1(1) dget_None_iff)
    show "within_limits (profiles ?s')" unfolding p(2) by (rule within_limits_add [OF console_invD(3) [OF inv] c(3) p(1)])
  next
    fix k b
    assume b: "dget (cs_attachments ?s') k = Some b"
    show "k = (ca_tenant_id b, ca_attachment_id b) \<and> attachment_ok b \<and> blob_intact ?s' b \<and> owned_by_requester ?s' b"
    proof (cases "dget (cs_attachments s) k")
      case None
      with b have "k = (ca_tenant_id a, ca_attachment_id a)" "b = a"
        by (auto simp: c(5) s1(1) map_add_def split: if_splits option.splits)
      with a(1) intact own frame show ?thesis by simp
    next
      case (Some d)
      have "k \<noteq> (ca_tenant_id a, ca_attachment_id a)" using Some c(4) by (auto simp: s1(1))
      with b Some have "b = d" by (auto simp: c(5) s1(1) map_add_def split: if_splits option.splits)
      with console_invD(4-7) [OF inv Some] old frame show ?thesis by simp
    qed
  qed
qed

lemma console_op_inv: "console_op s s' \<Longrightarrow> console_inv s \<Longrightarrow> console_inv s'"
proof (induction rule: console_op.induct)
  case nothing
  then show ?case by assumption
next
  case drafts
  then show ?case by (rule console_drafts_inv [rotated])
next
  case upload
  then show ?case by (rule upload_inv)
next
  case revoke
  then show ?case by (rule revoke_inv)
next
  case (freeze tenant rid person now s s' req)
  obtain dq where "drafts_op (cs_drafts s) dq" "s' = s\<lparr>cs_drafts := dq\<rparr>" using freeze.hyps by (rule freeze_drafts_op)
  with freeze.prems console_drafts_inv show ?case by simp
next
  case promote
  then show ?case unfolding promote_attachments_def by (rule promote_all_inv)
qed

lemma console_reachable_inv: "console_op\<^sup>*\<^sup>* s s' \<Longrightarrow> console_inv s \<Longrightarrow> console_inv s'"
  by (induction rule: rtranclp_induct) (auto intro: console_op_inv)

section \<open>Frozen manifests\<close>

text \<open>An attachment apart from the workflow that it is bound to.\<close>

definition core :: "console_attachment \<Rightarrow> console_attachment" where
  "core a = a\<lparr>ca_instance_id := None\<rparr>"

definition ready_of :: "string \<Rightarrow> string \<Rightarrow> console_attachment \<Rightarrow> bool" where
  "ready_of tenant rid a \<longleftrightarrow> ca_status a = ''ready'' \<and> ca_tenant_id a = tenant \<and> ca_origin_request_id a = rid"

definition ready_cores :: "string \<Rightarrow> string \<Rightarrow> console_store \<Rightarrow> console_attachment list" where
  "ready_cores tenant rid s = filter (ready_of tenant rid) (map core (map snd (cs_attachments s)))"

lemma map_insort_key: "(\<And>x. k (g x) = k x) \<Longrightarrow> map g (insort_key k x xs) = insort_key k (g x) (map g xs)"
  by (induction xs) simp_all

lemma map_sort_key: "(\<And>x. k (g x) = k x) \<Longrightarrow> map g (sort_key k xs) = sort_key k (map g xs)"
  by (induction xs) (simp_all add: map_insort_key)

lemma core_fields [simp]:
  "ca_created_at (core a) = ca_created_at a" "ca_attachment_id (core a) = ca_attachment_id a" "ready_of t r (core a) = ready_of t r a"
  "reference_of (core a) = reference_of a"
  by (simp_all add: core_def ready_of_def reference_of_def)

lemma ready_for_request_cores: "map core (ready_for_request tenant rid s) = by_age (ready_cores tenant rid s)"
  unfolding ready_for_request_def retained_for_request_def ready_cores_def by_age_def
  by (simp add: map_sort_key filter_map comp_def ready_of_def conj_ac) (simp add: core_def)

lemma filter_dput_same:
  "dget d k = Some u \<Longrightarrow> filter P (map g (map snd (dput k v d))) =
     (if P (g u) = P (g v) \<and> (P (g u) \<longrightarrow> g u = g v) then filter P (map g (map snd d)) else filter P (map g (map snd (dput k v d))))"
proof (induction d)
  case (Cons p d)
  then show ?case by (cases p) auto
qed simp

lemma ready_cores_replace:
  assumes "dget (cs_attachments s) k = Some a" and "ready_of tenant rid a \<or> ready_of tenant rid b \<Longrightarrow> core a = core b"
  shows "ready_cores tenant rid (s\<lparr>cs_attachments := dput k b (cs_attachments s)\<rparr>) = ready_cores tenant rid s"
proof -
  have "ready_of tenant rid (core a) = ready_of tenant rid (core b) \<and> (ready_of tenant rid (core a) \<longrightarrow> core a = core b)"
    using assms(2) core_fields(3) by metis
  then show ?thesis using filter_dput_same [OF assms(1), of "ready_of tenant rid" core b] by (simp add: ready_cores_def)
qed

text \<open>Every attachment is bound to no workflow or to the one of its request.\<close>

definition bound_to_own :: "console_store \<Rightarrow> bool" where
  "bound_to_own s \<longleftrightarrow> (\<forall>k a. dget (cs_attachments s) k = Some a \<longrightarrow>
     ca_instance_id a \<in> {None, Some (draft_instance_id (ca_origin_request_id a))})"

lemma bound_to_own_put:
  "bound_to_own s \<Longrightarrow> ca_instance_id a \<in> {None, Some (draft_instance_id (ca_origin_request_id a))} \<Longrightarrow>
     bound_to_own (s\<lparr>cs_attachments := dput k a (cs_attachments s)\<rparr>)"
  unfolding bound_to_own_def by (simp add: dget_dput)

text \<open>What a step does to a request that collects no longer.\<close>

definition frozen_step :: "string \<Rightarrow> string \<Rightarrow> console_store \<Rightarrow> console_store \<Rightarrow> bool" where
  "frozen_step tenant rid s s' \<longleftrightarrow> ready_cores tenant rid s' = ready_cores tenant rid s \<and>
     (bound_to_own s \<longrightarrow> bound_to_own s') \<and>
     (\<forall>k bytes. dget (cs_blobs s) k = Some bytes \<longrightarrow> dget (cs_blobs s') k = Some bytes)"

lemma frozen_step_refl: "frozen_step tenant rid s s"
  by (simp add: frozen_step_def)

lemma frozen_step_trans: "frozen_step tenant rid s t \<Longrightarrow> frozen_step tenant rid t u \<Longrightarrow> frozen_step tenant rid s u"
  by (simp add: frozen_step_def)

lemma promote_all_frozen:
  assumes "iid = draft_instance_id (dr_id req)"
  shows "frozen_step tenant rid s (fst (promote_all req iid aids s))"
proof (induction aids arbitrary: s)
  case (Cons aid aids)
  show ?case
  proof (cases "promote_attachment req iid aid s")
    case (Inr s1)
    then obtain a b where a: "dget (cs_attachments s) (dr_tenant_id req, aid) = Some a" "ca_origin_request_id a = dr_id req"
      and b: "mk_console_attachment (a\<lparr>ca_instance_id := Some iid\<rparr>) = Inr b"
      and s1: "s1 = s\<lparr>cs_attachments := dput (dr_tenant_id req, aid) b (cs_attachments s)\<rparr>"
      unfolding promote_attachment_def by (auto simp: rbind_Inr_iff ensure_Inr_iff get_or_raise_Inr_iff)
    have b': "b = a\<lparr>ca_instance_id := Some iid\<rparr>" using mk_console_attachment_same [OF b] by simp
    have "ready_cores tenant rid s1 = ready_cores tenant rid s"
      unfolding s1 by (rule ready_cores_replace [OF a(1)]) (simp add: b' core_def)
    moreover have "bound_to_own s \<longrightarrow> bound_to_own s1"
      unfolding s1 using a(2) assms by (intro impI bound_to_own_put) (simp_all add: b')
    ultimately have "frozen_step tenant rid s s1" by (simp add: frozen_step_def s1)
    from frozen_step_trans [OF this Cons.IH] Inr show ?thesis by simp
  qed (simp add: frozen_step_refl)
qed (simp add: frozen_step_refl)

lemma upload_frozen:
  assumes req: "dget (dq_items (cs_drafts s)) (tenant, rid) = Some req" "dr_status req \<noteq> R_COLLECTING"
  shows "frozen_step tenant rid s (fst (upload_attachment sv p rid' filename media_type content aid now s))" (is "frozen_step _ _ _ ?s'")
proof (cases rule: upload_cases [of sv p rid' filename media_type content aid now s])
  case (refused e)
  then show ?thesis by (simp add: frozen_step_refl)
next
  case (stored a encoded s1 m)
  from stored(2) have s1: "s1 = s\<lparr>cs_blobs := dput (ca_object_key a) encoded (cs_blobs s)\<rparr>" "dget (cs_blobs s) (ca_object_key a) = None"
    by (auto simp: blob_put_def rbind_Inr_iff ensure_Inr_iff)
  have unbound: "ca_instance_id a = None" using stored(1) by (rule uploaded_attachmentE)
  obtain t u where c: "dget (dq_items (cs_drafts s1)) (ca_tenant_id a, ca_origin_request_id a) = Some t" "dr_status t = R_COLLECTING"
      "dget (cs_attachments s1) (ca_tenant_id a, ca_attachment_id a) = None"
      "?s' = s1\<lparr>cs_attachments := cs_attachments s1 @ [((ca_tenant_id a, ca_attachment_id a), a)]\<rparr>"
    using stored(3) by (rule create_for_requestE) blast
  have "\<not> ready_of tenant rid a" using c(1,2) req by (auto simp: ready_of_def s1(1))
  then have "ready_cores tenant rid ?s' = ready_cores tenant rid s" by (simp add: ready_cores_def c(4) s1(1))
  moreover have "bound_to_own s \<longrightarrow> bound_to_own ?s'"
  proof
    assume b: "bound_to_own s"
    have "?s' = s1\<lparr>cs_attachments := dput (ca_tenant_id a, ca_attachment_id a) a (cs_attachments s1)\<rparr>"
      using c(3,4) by (simp add: dput_new dget_None_iff)
    moreover have "bound_to_own s1" using b by (simp add: bound_to_own_def s1(1))
    ultimately show "bound_to_own ?s'" using unbound by (simp add: bound_to_own_put)
  qed
  moreover have "dget (cs_blobs ?s') k = Some bytes" if "dget (cs_blobs s) k = Some bytes" for k bytes
  proof -
    have "k \<noteq> ca_object_key a" using that s1(2) by auto
    with that show ?thesis by (simp add: c(4) s1(1) dget_dput)
  qed
  ultimately show ?thesis by (simp add: frozen_step_def)
qed

lemma console_op_frozen:
  assumes "console_op s s'" and "dget (dq_items (cs_drafts s)) (tenant, rid) = Some req" and "dr_status req \<noteq> R_COLLECTING"
    and "console_inv s"
  shows "frozen_step tenant rid s s'"
  using assms
proof (induction rule: console_op.induct)
  case nothing
  then show ?case by (simp add: frozen_step_refl)
next
  case drafts
  then show ?case by (simp add: frozen_step_def ready_cores_def bound_to_own_def)
next
  case upload
  from upload.prems(1,2) show ?case by (rule upload_frozen)
next
  case (revoke tenant' rid' aid person now s s' b)
  obtain a t where a: "dget (cs_attachments s) (tenant', aid) = Some a" "ca_origin_request_id a = rid'"
    and t: "request_owner tenant' rid' person s = Inr t" "dr_status t = R_COLLECTING"
    and b: "mk_console_attachment (a\<lparr>ca_status := ''revoked'', ca_revoked_at := Some now\<rparr>) = Inr b"
    and s': "s' = s\<lparr>cs_attachments := dput (tenant', aid) b (cs_attachments s)\<rparr>"
    using revoke.hyps unfolding revoke_attachment_def require_collecting_def
    by (auto simp: rbind_Inr_iff ensure_Inr_iff get_or_raise_Inr_iff)
  have b': "b = a\<lparr>ca_status := ''revoked'', ca_revoked_at := Some now\<rparr>" using mk_console_attachment_same [OF b] by simp
  have "ca_tenant_id a = tenant'" using console_invD(4) [OF revoke.prems(3) a(1)] by simp
  moreover have "dget (dq_items (cs_drafts s)) (tenant', rid') = Some t" using t(1) by (rule request_ownerE)
  ultimately have "\<not> (ready_of tenant rid a \<or> ready_of tenant rid b)"
    using a(2) t(2) revoke.prems(1,2) by (auto simp: ready_of_def b')
  then have "ready_cores tenant rid s' = ready_cores tenant rid s" unfolding s' by (intro ready_cores_replace [OF a(1)]) simp
  moreover have "bound_to_own s \<longrightarrow> bound_to_own s'"
    unfolding s' using a(1) by (intro impI bound_to_own_put) (auto simp: b' bound_to_own_def)
  ultimately show ?case by (simp add: frozen_step_def s')
next
  case (freeze tenant' rid' person now s s' req')
  obtain dq where "drafts_op (cs_drafts s) dq" "s' = s\<lparr>cs_drafts := dq\<rparr>" using freeze.hyps by (rule freeze_drafts_op)
  then show ?case by (simp add: frozen_step_def ready_cores_def bound_to_own_def)
next
  case promote
  then show ?case unfolding promote_attachments_def by (intro promote_all_frozen refl)
qed

lemma console_op_drafts:
  assumes "console_op s s'" and "console_inv s" and "dget (dq_items (cs_drafts s)) k = Some r"
  obtains r' where "dget (dq_items (cs_drafts s')) k = Some r'" "request_later r r'"
proof -
  have "drafts_op\<^sup>*\<^sup>* (cs_drafts s) (cs_drafts s')" using assms(1)
  proof (induction rule: console_op.induct)
    case (freeze tenant rid person now s s' req)
    then show ?case by (rule freeze_drafts_op) auto
  next
    case (revoke tenant rid aid person now s s' a)
    then show ?case unfolding revoke_attachment_def by (auto simp: rbind_Inr_iff)
  next
    case (upload s sv p rid filename media_type content aid now)
    show ?case
    proof (cases rule: upload_cases [of sv p rid filename media_type content aid now s])
      case (stored a encoded s1 m)
      have "cs_drafts (fst (upload_attachment sv p rid filename media_type content aid now s)) = cs_drafts s1"
        using stored(3) by (rule create_for_requestE) simp
      with stored(2) show ?thesis by (auto simp: blob_put_def rbind_Inr_iff)
    qed simp
  next
    case (promote s req)
    have "cs_drafts (fst (promote_all req iid aids s)) = cs_drafts s" for iid aids
      by (induction aids arbitrary: s) (auto simp: promote_attachment_def rbind_Inr_iff split: sum.splits)
    then show ?case by (simp add: promote_attachments_def)
  qed auto
  then show thesis using drafts_reachable_later [OF _ console_invD(1) [OF assms(2)] assms(3)] that by blast
qed

text \<open>Once a request has left the collecting state, its ready attachments and their contents stay.\<close>

lemma frozen_for_ever:
  assumes "console_op\<^sup>*\<^sup>* s s'" and "console_inv s" and "dget (dq_items (cs_drafts s)) (tenant, rid) = Some req"
    and "dr_status req \<noteq> R_COLLECTING"
  shows "frozen_step tenant rid s s' \<and> (\<exists>req'. dget (dq_items (cs_drafts s')) (tenant, rid) = Some req' \<and> request_later req req')"
  using assms
proof (induction rule: rtranclp_induct)
  case base
  then show ?case by (auto simp: frozen_step_refl)
next
  case (step y z)
  then obtain r where r: "frozen_step tenant rid s y" "dget (dq_items (cs_drafts y)) (tenant, rid) = Some r" "request_later req r" by blast
  have inv: "console_inv y" by (rule console_reachable_inv [OF step.hyps(1) step.prems(1)])
  have "dr_status r \<noteq> R_COLLECTING" using r(3) step.prems(3) by (simp add: request_later_def)
  with step.hyps(2) r(2) inv have "frozen_step tenant rid y z" by (intro console_op_frozen)
  moreover obtain r' where "dget (dq_items (cs_drafts z)) (tenant, rid) = Some r'" "request_later r r'"
    using step.hyps(2) inv r(2) by (rule console_op_drafts)
  ultimately show ?case using r(1,3) frozen_step_trans request_later_trans by blast
qed

end
