(* ===== verification/Agent_Context.thy ===== *)
theory Agent_Context
  imports Attachments Worker
begin

text \<open>
  \<open>src/larkflow/agent_runtime/contracts.py\<close>, \<open>agent_runtime/executor.py\<close> and
  \<open>src/larkflow/workflow/agent_context.py\<close>: one attempt of an agent node, from the claimed request of the
  worker through the resolution of its authorised context and the capabilities issued for it to the call
  of the replaceable runtime, which is a parameter. \<open>AgentContextService\<close> resolves the project attachments
  that were frozen into the inputs of the instance.
\<close>

section \<open>Contracts\<close>

definition PROJECT_ATTACHMENTS_INPUT :: string where "PROJECT_ATTACHMENTS_INPUT = ''instance_inputs.project_attachments''"
definition ENTERPRISE_KNOWLEDGE_INPUT :: string where "ENTERPRISE_KNOWLEDGE_INPUT = ''instance_inputs.enterprise_knowledge''"
definition READ_ATTACHMENTS :: string where "READ_ATTACHMENTS = ''context.read.project_attachments''"
definition READ_KNOWLEDGE :: string where "READ_KNOWLEDGE = ''context.read.enterprise_knowledge''"

record capability_envelope =
  ce_tenant_id :: string
  ce_actor_person_id :: string
  ce_instance_id :: string
  ce_node_key :: string
  ce_attempt_id :: string
  ce_attempt_no :: int
  ce_allowed_capabilities :: "string list"
  ce_knowledge_scopes :: "string list"
  ce_data_classification :: string
  ce_egress_decision :: string
  ce_max_context_chars :: int
  ce_issued_at :: time
  ce_expires_at :: time
  ce_envelope_id :: string
  ce_fingerprint :: string

definition envelope_value :: "capability_envelope \<Rightarrow> pmap" where
  "envelope_value e =
     [(''tenant_id'', PStr (ce_tenant_id e)), (''actor_person_id'', PStr (ce_actor_person_id e)),
      (''instance_id'', PStr (ce_instance_id e)), (''node_key'', PStr (ce_node_key e)), (''attempt_id'', PStr (ce_attempt_id e)),
      (''attempt_no'', PInt (ce_attempt_no e)), (''allowed_capabilities'', PList (map PStr (ce_allowed_capabilities e))),
      (''knowledge_scopes'', PList (map PStr (ce_knowledge_scopes e))),
      (''data_classification'', PStr (ce_data_classification e)), (''egress_decision'', PStr (ce_egress_decision e)),
      (''max_context_chars'', PInt (ce_max_context_chars e)), (''issued_at'', PStr (isoformat (ce_issued_at e))),
      (''expires_at'', PStr (isoformat (ce_expires_at e)))]"

definition capability_fingerprint :: "capability_envelope \<Rightarrow> string" where
  "capability_fingerprint e = canonical_hash (envelope_value e)"

definition mk_capability_envelope :: "capability_envelope \<Rightarrow> capability_envelope res" where
  "mk_capability_envelope e =
     rbind (ensure (list_all (\<lambda>s. \<not> blank s) [ce_tenant_id e, ce_actor_person_id e, ce_instance_id e, ce_node_key e, ce_attempt_id e])
              (ValueError ''capability envelope field is required'')) (\<lambda>_.
     rbind (ensure (1 \<le> ce_attempt_no e) (ValueError ''capability envelope attempt_no must be positive'')) (\<lambda>_.
     rbind (ensure (distinct (ce_allowed_capabilities e)) (ValueError ''capability envelope capabilities must be unique'')) (\<lambda>_.
     rbind (ensure (distinct (ce_knowledge_scopes e)) (ValueError ''capability envelope knowledge scopes must be unique'')) (\<lambda>_.
     rbind (ensure (ce_data_classification e \<in> {''none'', ''internal''}) (ValueError ''capability envelope classification is invalid'')) (\<lambda>_.
     rbind (ensure (ce_egress_decision e \<in> {''none'', ''allow'', ''deny''}) (ValueError ''capability envelope egress decision is invalid'')) (\<lambda>_.
     rbind (ensure (0 \<le> ce_max_context_chars e) (ValueError ''capability envelope context budget is invalid'')) (\<lambda>_.
     rbind (ensure (ce_issued_at e < ce_expires_at e) (ValueError ''capability envelope expiry is invalid'')) (\<lambda>_.
     let fingerprint = capability_fingerprint e; envelope_id = ''cap_'' @ take 32 fingerprint in
     rbind (expect_given (ce_fingerprint e) fingerprint ''capability envelope fingerprint is invalid'') (\<lambda>_.
     rbind (expect_given (ce_envelope_id e) envelope_id ''capability envelope id is invalid'') (\<lambda>_.
     Inr (e\<lparr>ce_fingerprint := fingerprint, ce_envelope_id := envelope_id\<rparr>)))))))))))"

definition envelope_audit_value :: "capability_envelope \<Rightarrow> pmap" where
  "envelope_audit_value e =
     [(''envelope_id'', PStr (ce_envelope_id e)), (''fingerprint'', PStr (ce_fingerprint e))] @ envelope_value e"

record agent_context_request =
  aq_tenant_id :: string
  aq_instance_id :: string
  aq_node_key :: string
  aq_attempt_id :: string
  aq_attempt_no :: int
  aq_owner_person_id :: string
  aq_work_contract :: pmap
  aq_input_snapshot :: pmap

definition mk_agent_context_request :: "agent_context_request \<Rightarrow> agent_context_request res" where
  "mk_agent_context_request q =
     rbind (ensure (list_all (\<lambda>s. \<not> blank s) [aq_tenant_id q, aq_instance_id q, aq_node_key q, aq_attempt_id q, aq_owner_person_id q])
              (ValueError ''Agent context request field is required'')) (\<lambda>_.
     rbind (ensure (1 \<le> aq_attempt_no q) (ValueError ''Agent context request attempt_no must be positive'')) (\<lambda>_.
     Inr (q\<lparr>aq_work_contract := freeze_map (aq_work_contract q), aq_input_snapshot := freeze_map (aq_input_snapshot q)\<rparr>)))"

record agent_run_request =
  gq_tenant_id :: string
  gq_instance_id :: string
  gq_node_key :: string
  gq_attempt_id :: string
  gq_attempt_no :: int
  gq_owner_person_id :: string
  gq_executor :: string
  gq_work_contract :: pmap
  gq_input_snapshot :: pmap
  gq_context_bundle :: "context_bundle option"
  gq_capability_envelope :: "capability_envelope option"
  gq_policy :: pmap

definition bundle_bound :: "context_bundle \<Rightarrow> agent_run_request \<Rightarrow> bool" where
  "bundle_bound b q \<longleftrightarrow> cb_tenant_id b = gq_tenant_id q \<and> cb_scope_id b = gq_instance_id q \<and>
     cb_actor_person_id b = gq_owner_person_id q \<and> cb_node_key b = Some (gq_node_key q) \<and> cb_attempt_id b = Some (gq_attempt_id q)"

definition envelope_bound :: "capability_envelope \<Rightarrow> agent_run_request \<Rightarrow> bool" where
  "envelope_bound e q \<longleftrightarrow> ce_tenant_id e = gq_tenant_id q \<and> ce_instance_id e = gq_instance_id q \<and>
     ce_actor_person_id e = gq_owner_person_id q \<and> ce_node_key e = gq_node_key q \<and> ce_attempt_id e = gq_attempt_id q \<and>
     ce_attempt_no e = gq_attempt_no q"

definition context_capabilities :: "context_bundle option \<Rightarrow> string list" where
  "context_capabilities b = (case b of None \<Rightarrow> []
   | Some b \<Rightarrow> (if cb_attachments b \<noteq> [] then [READ_ATTACHMENTS] else []) @
       (if cb_enterprise_knowledge b \<noteq> [] then [READ_KNOWLEDGE] else []))"

definition bundle_chars :: "context_bundle \<Rightarrow> int" where
  "bundle_chars b = sum_list (map (\<lambda>c. int (length (cc_text c))) (cb_chunks b))"

definition check_envelope :: "agent_run_request \<Rightarrow> capability_envelope \<Rightarrow> unit res" where
  "check_envelope q e =
     rbind (ensure (envelope_bound e q) (ValueError ''Agent capability envelope binding is invalid'')) (\<lambda>_.
     let read = set (filter (prefix_of ''context.read.'') (ce_allowed_capabilities e)) in
     case gq_context_bundle q of
       Some b \<Rightarrow>
         rbind (ensure (set (context_capabilities (Some b)) = read) (ValueError ''Agent context capability is missing'')) (\<lambda>_.
         ensure (bundle_chars b \<le> ce_max_context_chars e) (ValueError ''Agent context exceeds capability budget''))
     | None \<Rightarrow> ensure (read = {}) (ValueError ''Agent context capability has no authorized bundle''))"

definition mk_agent_run_request :: "agent_run_request \<Rightarrow> agent_run_request res" where
  "mk_agent_run_request q =
     rbind (ensure (case gq_context_bundle q of None \<Rightarrow> True | Some b \<Rightarrow> bundle_bound b q)
              (ValueError ''Agent context bundle binding is invalid'')) (\<lambda>_.
     rbind (case gq_capability_envelope q of None \<Rightarrow> Inr () | Some e \<Rightarrow> check_envelope q e) (\<lambda>_.
     Inr (q\<lparr>gq_work_contract := freeze_map (gq_work_contract q), gq_input_snapshot := freeze_map (gq_input_snapshot q),
            gq_policy := freeze_map (gq_policy q)\<rparr>)))"

text \<open>The result of a runtime; only its deliverables and its metadata are used.\<close>

record agent_run_result =
  gr_deliverables :: pmap
  gr_runtime_metadata :: pmap

text \<open>\<open>AgentRunResult.__post_init__\<close> freezes what the runtime returns.\<close>

definition mk_agent_run_result :: "pmap \<Rightarrow> pmap \<Rightarrow> agent_run_result" where
  "mk_agent_run_result deliverables metadata =
     \<lparr>gr_deliverables = freeze_map deliverables, gr_runtime_metadata = freeze_map metadata\<rparr>"

record agent_runtime =
  rt_accepts :: "string \<Rightarrow> pmap \<Rightarrow> bool"
  rt_run :: "agent_run_request \<Rightarrow> agent_run_result res"

type_synonym agent_context_resolver = "agent_context_request \<Rightarrow> context_bundle option res"

section \<open>The executor\<close>

record agent_executor =
  ag_runtime :: agent_runtime
  ag_policy :: pmap
  ag_context_resolver :: "agent_context_resolver option"
  ag_capability_ttl :: int
  ag_max_context_chars :: int

definition mk_agent_executor ::
    "agent_runtime \<Rightarrow> pmap \<Rightarrow> agent_context_resolver option \<Rightarrow> int \<Rightarrow> int \<Rightarrow> agent_executor res" where
  "mk_agent_executor runtime policy resolver ttl chars =
     rbind (ensure (0 < ttl) (ValueError ''Agent capability TTL must be positive'')) (\<lambda>_.
     rbind (ensure (1 \<le> chars) (ValueError ''Agent context character budget must be positive'')) (\<lambda>_.
     Inr \<lparr>ag_runtime = runtime, ag_policy = policy, ag_context_resolver = resolver, ag_capability_ttl = ttl,
          ag_max_context_chars = chars\<rparr>))"

text \<open>\<open>value.get("ref") if isinstance(value, Mapping) else value\<close>\<close>

definition input_reference :: "pval \<Rightarrow> pval" where
  "input_reference v = (case as_map v of Some m \<Rightarrow> getv m ''ref'' | None \<Rightarrow> v)"

fun any_reference :: "string list \<Rightarrow> pval list \<Rightarrow> bool res" where
  "any_reference names [] = Inr False"
| "any_reference names (v # vs) =
     rbind (in_str_set (input_reference v) names) (\<lambda>found. if found then Inr True else any_reference names vs)"

text \<open>\<open>work.get("inputs") or ()\<close>; a text has no references, a value that is not iterable raises.\<close>

definition declares_context :: "pmap \<Rightarrow> bool res" where
  "declares_context work =
     (let inputs = (if truthy (getv work ''inputs'') then getv work ''inputs'' else PTuple []) in
      case inputs of
        PStr _ \<Rightarrow> Inr False
      | PBytes _ \<Rightarrow> Inr False
      | _ \<Rightarrow> rbind (iter_items inputs) (any_reference [PROJECT_ATTACHMENTS_INPUT, ENTERPRISE_KNOWLEDGE_INPUT]))"

definition context_request :: "execution_request \<Rightarrow> agent_context_request res" where
  "context_request q = mk_agent_context_request
     \<lparr>aq_tenant_id = er_tenant_id q, aq_instance_id = er_instance_id q, aq_node_key = er_node_key q, aq_attempt_id = er_attempt_id q,
      aq_attempt_no = er_attempt_no q, aq_owner_person_id = er_owner_person_id q, aq_work_contract = er_work q,
      aq_input_snapshot = er_input_snapshot q\<rparr>"

definition resolved_context :: "agent_executor \<Rightarrow> execution_request \<Rightarrow> context_bundle option res" where
  "resolved_context x q =
     rbind (context_request q) (\<lambda>cq.
     case ag_context_resolver x of
       Some resolve \<Rightarrow> resolve cq
     | None \<Rightarrow>
         rbind (declares_context (er_work q)) (\<lambda>declared.
         rbind (ensure (\<not> declared) (AgentContextUnavailable ''Agent node requested authorized context'')) (\<lambda>_. Inr None)))"

definition issued_envelope :: "agent_executor \<Rightarrow> execution_request \<Rightarrow> context_bundle option \<Rightarrow> time \<Rightarrow> capability_envelope res" where
  "issued_envelope x q bundle now =
     (let capabilities = context_capabilities bundle in
      mk_capability_envelope
        \<lparr>ce_tenant_id = er_tenant_id q, ce_actor_person_id = er_owner_person_id q, ce_instance_id = er_instance_id q,
         ce_node_key = er_node_key q, ce_attempt_id = er_attempt_id q, ce_attempt_no = er_attempt_no q,
         ce_allowed_capabilities = capabilities,
         ce_knowledge_scopes = (case bundle of None \<Rightarrow> [] | Some b \<Rightarrow>
           (if cb_attachments b \<noteq> [] then [''project_attachments''] else []) @
           (if cb_enterprise_knowledge b \<noteq> [] then [''enterprise_knowledge''] else [])),
         ce_data_classification = (case bundle of None \<Rightarrow> ''none'' | Some b \<Rightarrow> cb_data_classification b),
         ce_egress_decision = (case bundle of None \<Rightarrow> ''none'' | Some b \<Rightarrow> cb_egress_decision b),
         ce_max_context_chars = (if capabilities \<noteq> [] then ag_max_context_chars x else 0),
         ce_issued_at = now, ce_expires_at = now + ag_capability_ttl x, ce_envelope_id = [], ce_fingerprint = []\<rparr>)"

definition run_request ::
    "agent_executor \<Rightarrow> execution_request \<Rightarrow> context_bundle option \<Rightarrow> capability_envelope option \<Rightarrow> agent_run_request res" where
  "run_request x q bundle envelope = mk_agent_run_request
     \<lparr>gq_tenant_id = er_tenant_id q, gq_instance_id = er_instance_id q, gq_node_key = er_node_key q, gq_attempt_id = er_attempt_id q,
      gq_attempt_no = er_attempt_no q, gq_owner_person_id = er_owner_person_id q, gq_executor = executor_value (er_executor q),
      gq_work_contract = er_work q, gq_input_snapshot = er_input_snapshot q, gq_context_bundle = bundle,
      gq_capability_envelope = envelope, gq_policy = ag_policy x\<rparr>"

text \<open>Everything before the call of the runtime: the request it is called with.\<close>

definition authorized_run :: "agent_executor \<Rightarrow> execution_request \<Rightarrow> time \<Rightarrow> agent_run_request res" where
  "authorized_run x q now =
     rbind (resolved_context x q) (\<lambda>bundle.
     if ag_context_resolver x = None then run_request x q None None
     else rbind (issued_envelope x q bundle now) (\<lambda>e. run_request x q bundle (Some e)))"

text \<open>\<open>_runtime_evidence\<close>, which replaces whatever the runtime put there.\<close>

definition runtime_evidence :: "agent_run_request \<Rightarrow> capability_envelope \<Rightarrow> pmap \<Rightarrow> pval" where
  "runtime_evidence q e metadata = PDict
     ([(''capability_envelope'', PDict (envelope_audit_value e)), (''runtime_metadata'', PDict metadata)] @
      (case gq_context_bundle q of None \<Rightarrow> [] | Some b \<Rightarrow> [(''context_manifest'', PDict (bundle_snapshot_manifest b))]))"

definition delivered :: "agent_run_request \<Rightarrow> agent_run_result \<Rightarrow> pmap" where
  "delivered q r = (case gq_capability_envelope q of
     None \<Rightarrow> gr_deliverables r
   | Some e \<Rightarrow> dput ''_runtime_evidence'' (runtime_evidence q e (gr_runtime_metadata r)) (gr_deliverables r))"

definition agent_execute :: "agent_executor \<Rightarrow> execution_request \<Rightarrow> time \<Rightarrow> execution_result res" where
  "agent_execute x q now =
     rbind (authorized_run x q now) (\<lambda>run.
     rbind (rt_run (ag_runtime x) run) (\<lambda>r.
     rbind (validate_node_deliverable (er_work q) (to_json_value (PDict (delivered run r))) True) (\<lambda>m.
     Inr \<lparr>ex_result = m, ex_quality_result = None\<rparr>)))"

text \<open>The executor as the worker sees it; \<open>describe\<close> gives the \<open>error_code\<close> of an exception and its text.\<close>

definition automated_agent :: "(exn \<Rightarrow> pval \<times> string) \<Rightarrow> agent_executor \<Rightarrow> time \<Rightarrow> automated_executor" where
  "automated_agent describe x now =
     \<lparr>ax_accepts = Some (\<lambda>kind work. rt_accepts (ag_runtime x) (executor_value kind) work),
      ax_execute = (\<lambda>q. case agent_execute x q now of
         Inl e \<Rightarrow> Raised (fst (describe e)) (snd (describe e))
       | Inr r \<Rightarrow> Returned r)\<rparr>"

section \<open>Project attachments as context\<close>

definition AGENT_CONTEXT_TTL :: int where "AGENT_CONTEXT_TTL = 5 * 60 * 1000000"

record agent_context_service =
  ac_model_egress_policy :: string
  ac_max_context_chars :: int

definition mk_agent_context_service :: "string \<Rightarrow> int \<Rightarrow> agent_context_service res" where
  "mk_agent_context_service policy chars =
     rbind (ensure (policy \<in> {''allow'', ''deny''}) (ValueError ''Agent context model egress policy is invalid'')) (\<lambda>_.
     rbind (ensure (1 \<le> chars) (ValueError ''Agent context character budget must be positive'')) (\<lambda>_.
     Inr \<lparr>ac_model_egress_policy = policy, ac_max_context_chars = chars\<rparr>))"

definition declares_project_attachments :: "pmap \<Rightarrow> bool" where
  "declares_project_attachments work =
     (case as_seq (if truthy (getv work ''inputs'') then getv work ''inputs'' else PTuple []) of
        None \<Rightarrow> False
      | Some vs \<Rightarrow> list_ex (\<lambda>v. input_reference v = PStr PROJECT_ATTACHMENTS_INPUT) vs)"

text \<open>\<open>AttachmentRef(**dict(item))\<close>: an unknown or a missing argument is a \<open>TypeError\<close>; \<open>value.strip()\<close> of a
  value that is no text is an \<open>AttributeError\<close> (which the caller does not catch), \<open>fullmatch\<close> of one a
  \<open>TypeError\<close>. Snapshots are JSON: they hold no byte strings.\<close>

definition ATTACHMENT_REF_FIELDS :: "string list" where
  "ATTACHMENT_REF_FIELDS = [''attachment_id'', ''source_id'', ''display_filename'', ''media_type'', ''size_bytes'',
     ''content_sha256'', ''data_classification'', ''egress_decision'']"

definition text_argument :: "exn \<Rightarrow> pval \<Rightarrow> string res" where
  "text_argument e v = get_or_raise (as_str v) e"

definition member_argument :: "string list \<Rightarrow> exn \<Rightarrow> pval \<Rightarrow> string res" where
  "member_argument names e v = rbind (in_str_set v names) (\<lambda>found. rbind (ensure found e) (\<lambda>_. Inr (py_str v)))"

definition attachment_ref_of :: "pmap \<Rightarrow> attachment_ref res" where
  "attachment_ref_of m =
     rbind (ensure (set (dkeys m) \<subseteq> set ATTACHMENT_REF_FIELDS) (TypeError ''unexpected keyword argument'')) (\<lambda>_.
     rbind (ensure (set (take 6 ATTACHMENT_REF_FIELDS) \<subseteq> set (dkeys m)) (TypeError ''missing required arguments'')) (\<lambda>_.
     rbind (text_argument (AttributeError ''strip'') (getv m ''attachment_id'')) (\<lambda>aid.
     rbind (ensure (\<not> blank aid) (ValueError ''attachment_id is required'')) (\<lambda>_.
     rbind (text_argument (TypeError ''expected string'') (getv m ''source_id'')) (\<lambda>source.
     rbind (ensure (context_source_id source) (ValueError ''attachment source_id is invalid'')) (\<lambda>_.
     rbind (text_argument (AttributeError ''strip'') (getv m ''display_filename'')) (\<lambda>filename.
     rbind (ensure (\<not> blank filename) (ValueError ''attachment display filename is required'')) (\<lambda>_.
     rbind (member_argument [''text/plain'', ''text/markdown''] (ValueError ''attachment media type is unsupported'') (getv m ''media_type'')) (\<lambda>media.
     rbind (below_one (getv m ''size_bytes'')) (\<lambda>small.
     rbind (ensure (\<not> small) (ValueError ''attachment size must be positive'')) (\<lambda>_.
     rbind (text_argument (TypeError ''expected string'') (getv m ''content_sha256'')) (\<lambda>hash.
     rbind (ensure (hex_text 64 hash) (ValueError ''attachment hash is invalid'')) (\<lambda>_.
     let classification = get_or m ''data_classification'' (PStr ''internal'') in
     rbind (ensure (classification = PStr ''internal'') (ValueError ''attachment classification must be internal'')) (\<lambda>_.
     rbind (member_argument [''allow'', ''deny''] (ValueError ''attachment egress decision is invalid'')
              (get_or m ''egress_decision'' (PStr ''allow''))) (\<lambda>egress.
     Inr \<lparr>ar_attachment_id = aid, ar_source_id = source, ar_display_filename = filename, ar_media_type = media,
          ar_size_bytes = getv m ''size_bytes'', ar_content_sha256 = hash, ar_data_classification = ''internal'',
          ar_egress_decision = egress\<rparr>)))))))))))))))"

fun unless_malformed :: "'a res \<Rightarrow> 'a res" where
  "unless_malformed (Inl (TypeError m)) = Inl (AgentContextRejected ''frozen attachment reference is invalid'')"
| "unless_malformed (Inl (ValueError m)) = Inl (AgentContextRejected ''frozen attachment reference is invalid'')"
| "unless_malformed x = x"

definition frozen_reference :: "pval \<Rightarrow> attachment_ref res" where
  "frozen_reference v =
     rbind (get_or_raise (as_map v) (AgentContextRejected ''frozen attachment reference is invalid'')) (\<lambda>m.
     unless_malformed (attachment_ref_of m))"

definition attachment_manifest :: "pval \<Rightarrow> attachment_ref list res" where
  "attachment_manifest v =
     rbind (get_or_raise (as_seq v) (AgentContextRejected ''frozen attachment manifest is invalid'')) (\<lambda>vs.
     rbind (mapM frozen_reference vs) (\<lambda>references.
     rbind (ensure (distinct (map ar_attachment_id references)) (AgentContextRejected ''frozen attachment references repeat'')) (\<lambda>_.
     Inr references)))"

definition MANIFEST_FIELDS :: "string list" where
  "MANIFEST_FIELDS = [''scope_kind'', ''scope_id'', ''purpose'', ''data_classification'', ''egress_decision'', ''fingerprint'']"

text \<open>The scope id, the fingerprint and the source kinds of the manifest of the planning context.\<close>

definition context_manifest :: "pval \<Rightarrow> (string \<times> string \<times> string) res" where
  "context_manifest v =
     rbind (get_or_raise (as_map v) (AgentContextRejected ''context manifest is invalid'')) (\<lambda>m.
     rbind (ensure (set MANIFEST_FIELDS \<subseteq> set (dkeys m) \<and> set (dkeys m) \<subseteq> set (MANIFEST_FIELDS @ [''source_kinds'']))
              (AgentContextRejected ''context manifest is invalid'')) (\<lambda>_.
     rbind (ensure (list_all (\<lambda>k. as_str (getv m k) \<noteq> None) MANIFEST_FIELDS) (AgentContextRejected ''context manifest is invalid'')) (\<lambda>_.
     rbind (ensure (getv m ''scope_kind'' = PStr ''console_draft_request'' \<and> getv m ''purpose'' = PStr ''planning'' \<and>
              getv m ''data_classification'' = PStr ''internal'' \<and> getv m ''egress_decision'' = PStr ''allow'')
              (AgentContextRejected ''context policy is invalid'')) (\<lambda>_.
     let kinds = (case as_str (getv m ''source_kinds'') of None \<Rightarrow> ''attachment'' | Some s \<Rightarrow> s) in
     rbind (ensure (kinds \<in> {''attachment'', ''attachment,enterprise_knowledge''}) (AgentContextRejected ''source kinds are invalid'')) (\<lambda>_.
     Inr (py_str (getv m ''scope_id''), py_str (getv m ''fingerprint''), kinds))))))"

fun unless_context_rejected :: "'a res \<Rightarrow> 'a res" where
  "unless_context_rejected (Inl (AttachmentContextRejected m)) = Inl (AgentContextRejected ''frozen attachment manifest is unavailable'')"
| "unless_context_rejected x = x"

definition agent_material ::
    "agent_context_service \<Rightarrow> console_store \<Rightarrow> attachment_ref \<times> console_attachment \<Rightarrow> context_material \<Rightarrow> context_material res" where
  "agent_material sv s = (\<lambda>(expected, a) m.
     rbind (checked_content AgentContextRejected (ac_max_context_chars sv) s a (cm_chars m)) (\<lambda>decoded. add_material expected decoded m))"

text \<open>What the frozen inputs and the repository give: the manifest, the attachments, and their one uploader.\<close>

definition frozen_attachments ::
    "agent_context_request \<Rightarrow> console_store \<Rightarrow> ((string \<times> string \<times> string) \<times> attachment_ref list \<times> console_attachment list \<times> string) res" where
  "frozen_attachments q s =
     rbind (get_or_raise (as_map (getv (aq_input_snapshot q) ''instance_inputs'')) (AgentContextRejected ''instance inputs are missing'')) (\<lambda>inputs.
     rbind (attachment_manifest (getv inputs ''project_attachments'')) (\<lambda>references.
     rbind (context_manifest (getv inputs ''context_manifest'')) (\<lambda>manifest.
     rbind (ensure (references \<noteq> []) (AgentContextRejected ''instance has no frozen attachments'')) (\<lambda>_.
     rbind (unless_context_rejected (resolve_for_agent (aq_tenant_id q) (aq_instance_id q) references s)) (\<lambda>attachments.
     rbind (ensure (length attachments = length references) (AgentContextRejected ''frozen attachment manifest is incomplete'')) (\<lambda>_.
     case attachments of
       [] \<Rightarrow> Inl (AgentContextRejected ''attachment origin binding differs'')
     | a # _ \<Rightarrow>
         rbind (ensure (list_all (\<lambda>b. ca_origin_request_id b = fst manifest \<and> ca_uploader_person_id b = ca_uploader_person_id a) attachments)
                  (AgentContextRejected ''attachment origin binding differs'')) (\<lambda>_.
         Inr (manifest, references, attachments, ca_uploader_person_id a))))))))"

definition agent_bundle :: "agent_context_request \<Rightarrow> attachment_ref list \<Rightarrow> context_material \<Rightarrow> time \<Rightarrow> context_bundle res" where
  "agent_bundle q references m now = mk_context_bundle
     \<lparr>cb_tenant_id = aq_tenant_id q, cb_scope_kind = ''workflow_instance'', cb_scope_id = aq_instance_id q,
      cb_purpose = ''agent_execution'', cb_actor_person_id = aq_owner_person_id q, cb_sources = cm_sources m, cb_chunks = cm_chunks m,
      cb_attachments = references, cb_enterprise_knowledge = [], cb_node_key = Some (aq_node_key q),
      cb_attempt_id = Some (aq_attempt_id q), cb_data_classification = ''internal'', cb_egress_decision = ''allow'',
      cb_created_at = now, cb_expires_at = Some (now + AGENT_CONTEXT_TTL), cb_fingerprint = []\<rparr>"

definition resolve_agent_context :: "agent_context_service \<Rightarrow> console_store \<Rightarrow> time \<Rightarrow> agent_context_resolver" where
  "resolve_agent_context sv s now q =
     (if \<not> declares_project_attachments (aq_work_contract q) then Inr None
      else
        rbind (ensure (ac_model_egress_policy sv = ''allow'') (AgentContextRejected ''this worker may not send attachments'')) (\<lambda>_.
        rbind (frozen_attachments q s) (\<lambda>(manifest, references, attachments, uploader).
        rbind (foldM (agent_material sv s) (zip references attachments) empty_material) (\<lambda>m.
        rbind (planning_bundle (aq_tenant_id q) (fst manifest) uploader references m ''internal'' ''allow'' now AGENT_CONTEXT_TTL) (\<lambda>planning.
        rbind (ensure (snd (snd manifest) = ''attachment'' \<longrightarrow> cb_fingerprint planning = fst (snd manifest))
                 (AgentContextRejected ''planning fingerprint differs'')) (\<lambda>_.
        rbind (agent_bundle q references m now) (\<lambda>bundle. Inr (Some bundle))))))))"

end
