(* ===== verification/Context_Theorems.thy ===== *)
theory Context_Theorems
  imports Attachment_Theorems Agent_Context
begin

text \<open>
  What the context services return: the bundle of a frozen manifest is always available within the budget of
  characters, and consists of exactly the stored texts.
\<close>

section \<open>The content of an attachment\<close>

definition text_of :: "console_store \<Rightarrow> console_attachment \<Rightarrow> code_text" where
  "text_of s a = (case dget (cs_blobs s) (ca_object_key a) of
     None \<Rightarrow> [] | Some bytes \<Rightarrow> (case utf8_text bytes of None \<Rightarrow> [] | Some t \<Rightarrow> t))"

lemma blob_get_intact:
  assumes "attachment_ok a" and "blob_intact s a"
  obtains bytes where "blob_get (ca_object_key a) s = Inr bytes" "int (length bytes) = ca_size_bytes a"
    "sha256_hex bytes = ca_content_sha256 a" "utf8_text bytes = Some (text_of s a)" "text_of s a \<noteq> []"
proof -
  obtain bytes decoded where "dget (cs_blobs s) (ca_object_key a) = Some bytes" "int (length bytes) = ca_size_bytes a"
     "sha256_hex bytes = ca_content_sha256 a" "utf8_text bytes = Some decoded" "decoded \<noteq> []"
    using assms(2) by (auto simp: blob_intact_def)
  with attachment_okD(3) [OF assms(1)] that show thesis by (simp add: blob_get_def blob_key_def text_of_def)
qed

definition usable :: "console_attachment \<Rightarrow> bool" where
  "usable a \<longleftrightarrow> ca_status a = ''ready'' \<and> ca_model_egress_policy a = ''allow''"

lemma checked_content_ok:
  assumes ok: "attachment_ok a" and intact: "blob_intact s a" and use: "usable a"
    and budget: "so_far + int (length (text_of s a)) \<le> budget"
  shows "checked_content wrap budget s a so_far = Inr (text_of s a)"
proof -
  obtain bytes where b: "blob_get (ca_object_key a) s = Inr bytes" "int (length bytes) = ca_size_bytes a"
    "sha256_hex bytes = ca_content_sha256 a" "utf8_text bytes = Some (text_of s a)"
    using ok intact by (rule blob_get_intact)
  from use have u: "ca_status a = ''ready''" "ca_model_egress_policy a = ''allow''" by (simp_all add: usable_def)
  have "unless_blob_missing e (Inr bytes) = Inr bytes" for e by simp
  with b u attachment_okD(9) [OF ok] attachment_okD(11) [OF ok u(1)] budget show ?thesis by (simp add: checked_content_def)
qed

lemma unless_blob_missing_Inr: "unless_blob_missing e x = Inr y \<longleftrightarrow> x = Inr y"
proof (cases x)
  case (Inl e')
  then show ?thesis by (cases e') simp_all
qed simp

lemma checked_contentD:
  assumes "checked_content wrap budget s a so_far = Inr t"
  shows "ca_status a = ''ready''" "ca_revoked_at a = None" "ca_data_classification a = ''internal''" "ca_model_egress_policy a = ''allow''"
    and "t = text_of s a" and "so_far + int (length t) \<le> budget"
    and "\<exists>bytes. dget (cs_blobs s) (ca_object_key a) = Some bytes \<and> int (length bytes) = ca_size_bytes a \<and>
      sha256_hex bytes = ca_content_sha256 a \<and> utf8_bytes t = Some bytes"
proof -
  obtain bytes where b: "ca_status a = ''ready''" "ca_revoked_at a = None" "ca_data_classification a = ''internal''"
      "ca_model_egress_policy a = ''allow''" "blob_get (ca_object_key a) s = Inr bytes" "int (length bytes) = ca_size_bytes a"
      "sha256_hex bytes = ca_content_sha256 a" "utf8_text bytes = Some t" "so_far + int (length t) \<le> budget"
    using assms unfolding checked_content_def
    by (auto simp: rbind_Inr_iff ensure_Inr_iff get_or_raise_Inr_iff unless_blob_missing_Inr)
  from b(5) have g: "dget (cs_blobs s) (ca_object_key a) = Some bytes" by (simp add: blob_get_def rbind_Inr_iff get_or_raise_Inr_iff)
  show "ca_status a = ''ready''" "ca_revoked_at a = None" "ca_data_classification a = ''internal''" "ca_model_egress_policy a = ''allow''"
    "so_far + int (length t) \<le> budget" by (fact b)+
  show "t = text_of s a" using g b(8) by (simp add: text_of_def)
  show "\<exists>bytes. dget (cs_blobs s) (ca_object_key a) = Some bytes \<and> int (length bytes) = ca_size_bytes a \<and>
      sha256_hex bytes = ca_content_sha256 a \<and> utf8_bytes t = Some bytes"
    using g b(6-8) utf8_text_Some_iff by blast
qed

section \<open>Material\<close>

definition source_of :: "attachment_ref \<Rightarrow> source_ref" where
  "source_of r = \<lparr>sr_source_id = ar_source_id r, sr_kind = ''attachment'', sr_label = ar_display_filename r,
     sr_content_sha256 = ar_content_sha256 r\<rparr>"

definition chunk_of :: "console_store \<Rightarrow> nat \<Rightarrow> console_attachment \<Rightarrow> context_chunk" where
  "chunk_of s i a = \<lparr>cc_source_id = ''attachment:'' @ ca_attachment_id a, cc_order = int i, cc_text = text_of s a,
     cc_text_sha256 = ca_content_sha256 a\<rparr>"

definition grown :: "console_store \<Rightarrow> console_attachment list \<Rightarrow> context_material \<Rightarrow> context_material" where
  "grown s xs m =
     \<lparr>cm_sources = cm_sources m @ map (source_of \<circ> reference_of) xs,
      cm_chunks = cm_chunks m @ map (\<lambda>(i, a). chunk_of s i a) (enumerate (length (cm_chunks m)) xs),
      cm_chars = cm_chars m + (\<Sum>a \<leftarrow> xs. int (length (text_of s a)))\<rparr>"

definition material_of :: "console_store \<Rightarrow> console_attachment list \<Rightarrow> context_material" where
  "material_of s xs = grown s xs empty_material"

lemma grown_Nil [simp]: "grown s [] m = m"
  by (simp add: grown_def)

lemma grown_Cons: "grown s (a # xs) m = grown s xs (grown s [a] m)"
  by (simp add: grown_def)

text \<open>References agree when all but their sizes are equal.\<close>

definition refers_to :: "attachment_ref \<Rightarrow> console_attachment \<Rightarrow> bool" where
  "refers_to r a \<longleftrightarrow> same_reference (reference_of a) r"

lemma refers_toD:
  assumes "refers_to r a"
  shows "ar_attachment_id r = ca_attachment_id a" "ar_source_id r = ''attachment:'' @ ca_attachment_id a" "source_of r = source_of (reference_of a)"
    "r\<lparr>ar_size_bytes := PNone\<rparr> = (reference_of a)\<lparr>ar_size_bytes := PNone\<rparr>"
proof -
  have r: "r\<lparr>ar_size_bytes := PNone\<rparr> = (reference_of a)\<lparr>ar_size_bytes := PNone\<rparr>"
    using assms by (simp add: refers_to_def same_reference_def)
  then show "r\<lparr>ar_size_bytes := PNone\<rparr> = (reference_of a)\<lparr>ar_size_bytes := PNone\<rparr>" .
  have "ar_attachment_id (r\<lparr>ar_size_bytes := PNone\<rparr>) = ca_attachment_id a"
    "ar_source_id (r\<lparr>ar_size_bytes := PNone\<rparr>) = ''attachment:'' @ ca_attachment_id a"
    "source_of (r\<lparr>ar_size_bytes := PNone\<rparr>) = source_of (reference_of a)"
    unfolding r by (simp_all add: reference_of_def source_of_def)
  then show "ar_attachment_id r = ca_attachment_id a" "ar_source_id r = ''attachment:'' @ ca_attachment_id a"
      "source_of r = source_of (reference_of a)"
    by (simp_all add: source_of_def)
qed

lemma refers_to_own [simp]: "refers_to (reference_of a) a"
  by (simp add: refers_to_def same_reference_def reference_of_def)

lemma add_material_ok:
  assumes ok: "attachment_ok a" and intact: "blob_intact s a" and r: "refers_to r a"
  shows "add_material r (text_of s a) m = Inr (grown s [a] m)"
proof -
  obtain bytes where b: "sha256_hex bytes = ca_content_sha256 a" "utf8_text bytes = Some (text_of s a)" "text_of s a \<noteq> []"
    using ok intact by (rule blob_get_intact)
  then have bytes: "utf8_bytes (text_of s a) = Some bytes" by (simp add: utf8_text_Some_iff)
  have sid: "context_source_id (''attachment:'' @ ca_attachment_id a)" using attachment_source_id [OF attachment_okD(1) [OF ok]] .
  have "mk_source_ref (source_of r) = Inr (source_of (reference_of a))"
    unfolding refers_toD(3) [OF r] using sid attachment_okD [OF ok]
    by (simp add: mk_source_ref_def source_of_def reference_of_def del: insert_iff) simp
  moreover have "mk_context_chunk \<lparr>cc_source_id = ar_source_id r, cc_order = int (length (cm_chunks m)), cc_text = text_of s a,
      cc_text_sha256 = []\<rparr> = Inr (chunk_of s (length (cm_chunks m)) a)"
    using sid b bytes by (simp add: mk_context_chunk_def chunk_of_def refers_toD(2) [OF r] expect_given_def)
  ultimately show ?thesis by (simp add: add_material_def grown_def source_of_def [symmetric])
qed

definition sound_for :: "console_store \<Rightarrow> console_attachment \<Rightarrow> bool" where
  "sound_for s a \<longleftrightarrow> attachment_ok a \<and> blob_intact s a \<and> usable a"

lemma planning_loop:
  assumes "\<forall>a \<in> set xs. sound_for s a" and "cm_chars m + (\<Sum>a \<leftarrow> xs. int (length (text_of s a))) \<le> MAX_CONTEXT_BUNDLE_CHARS"
  shows "foldM (planning_material s) xs (rs, m) = Inr (rs @ map reference_of xs, grown s xs m)"
  using assms
proof (induction xs arbitrary: rs m)
  case (Cons a xs)
  have a: "attachment_ok a" "blob_intact s a" "usable a" using Cons.prems(1) by (simp_all add: sound_for_def)
  have "0 \<le> (\<Sum>a \<leftarrow> xs. int (length (text_of s a)))" by (rule sum_list_nonneg) auto
  with Cons.prems(2) have "cm_chars m + int (length (text_of s a)) \<le> MAX_CONTEXT_BUNDLE_CHARS" by simp
  then have "planning_material s a (rs, m) = Inr (rs @ [reference_of a], grown s [a] m)"
    using a by (simp add: planning_material_def checked_content_ok attachment_reference_ok add_material_ok)
  moreover have "foldM (planning_material s) xs (rs @ [reference_of a], grown s [a] m) =
      Inr ((rs @ [reference_of a]) @ map reference_of xs, grown s xs (grown s [a] m))"
    using Cons.prems by (intro Cons.IH) (simp_all add: grown_def)
  ultimately show ?case by (simp add: grown_Cons [of s a xs])
qed simp

lemma agent_loop:
  assumes "list_all2 refers_to rs xs" and "\<forall>a \<in> set xs. sound_for s a"
    and "cm_chars m + (\<Sum>a \<leftarrow> xs. int (length (text_of s a))) \<le> ac_max_context_chars sv"
  shows "foldM (agent_material sv s) (zip rs xs) m = Inr (grown s xs m)"
  using assms
proof (induction rs xs arbitrary: m rule: list_all2_induct)
  case (Cons r rs a xs)
  have a: "attachment_ok a" "blob_intact s a" "usable a" using Cons.prems(1) by (simp_all add: sound_for_def)
  have "0 \<le> (\<Sum>a \<leftarrow> xs. int (length (text_of s a)))" by (rule sum_list_nonneg) auto
  with Cons.prems(2) have "cm_chars m + int (length (text_of s a)) \<le> ac_max_context_chars sv" by simp
  then have "agent_material sv s (r, a) m = Inr (grown s [a] m)"
    using a Cons.hyps(1) by (simp add: agent_material_def checked_content_ok add_material_ok)
  moreover have "foldM (agent_material sv s) (zip rs xs) (grown s [a] m) = Inr (grown s xs (grown s [a] m))"
    using Cons.prems by (intro Cons.IH) (simp_all add: grown_def)
  ultimately show ?case by (simp add: grown_Cons [of s a xs])
qed simp

section \<open>Bundles\<close>

lemma material_ids: "map sr_source_id (cm_sources (material_of s xs)) = map (\<lambda>a. ''attachment:'' @ ca_attachment_id a) xs"
  by (simp add: material_of_def grown_def empty_material_def source_of_def reference_of_def)

lemma material_chunks:
  "map cc_order (cm_chunks (material_of s xs)) = map int [0..<length xs]"
  "map cc_source_id (cm_chunks (material_of s xs)) = map (\<lambda>a. ''attachment:'' @ ca_attachment_id a) xs"
  "length (cm_chunks (material_of s xs)) = length xs"
  "map cc_text (cm_chunks (material_of s xs)) = map (text_of s) xs"
proof -
  let ?cs = "map (\<lambda>(i, a). chunk_of s i a) (enumerate 0 xs)"
  have cs: "cm_chunks (material_of s xs) = ?cs" by (simp add: material_of_def grown_def empty_material_def)
  have nth: "?cs ! i = chunk_of s i (xs ! i)" if "i < length xs" for i using that by (simp add: nth_enumerate_eq)
  show "map cc_order (cm_chunks (material_of s xs)) = map int [0..<length xs]"
    "map cc_source_id (cm_chunks (material_of s xs)) = map (\<lambda>a. ''attachment:'' @ ca_attachment_id a) xs"
    "map cc_text (cm_chunks (material_of s xs)) = map (text_of s) xs"
    unfolding cs by (rule nth_equalityI; simp add: nth_enumerate_eq chunk_of_def)+
  show "length (cm_chunks (material_of s xs)) = length xs" unfolding cs by simp
qed

definition sealed :: "context_bundle \<Rightarrow> context_bundle" where
  "sealed b = b\<lparr>cb_fingerprint := context_bundle_fingerprint b\<rparr>"

lemma bundle_of_attachments:
  assumes "cb_sources b = cm_sources (material_of s xs)" "cb_chunks b = cm_chunks (material_of s xs)"
    and "list_all2 refers_to (cb_attachments b) xs" "cb_enterprise_knowledge b = []" "xs \<noteq> []" "distinct (map ca_attachment_id xs)"
    and "\<not> blank (cb_tenant_id b)" "\<not> blank (cb_scope_id b)" "\<not> blank (cb_actor_person_id b)"
    and "cb_scope_kind b = ''console_draft_request'' \<and> cb_purpose b = ''planning'' \<and> cb_node_key b = None \<and> cb_attempt_id b = None \<or>
      cb_scope_kind b = ''workflow_instance'' \<and> cb_purpose b = ''agent_execution'' \<and> \<not> unset (cb_node_key b) \<and> \<not> unset (cb_attempt_id b)"
    and "cb_data_classification b = ''internal''" "cb_egress_decision b = ''allow''"
    and "cb_expires_at b = Some t" "cb_created_at b < t" "cb_fingerprint b = []"
  shows "mk_context_bundle b = Inr (sealed b)"
proof -
  let ?ids = "map (\<lambda>a. ''attachment:'' @ ca_attachment_id a) xs"
  have ids: "map sr_source_id (cb_sources b) = ?ids" unfolding assms(1) by (rule material_ids)
  have refs: "map ar_source_id (cb_attachments b) = ?ids"
    using assms(3) by (induction rule: list_all2_induct) (simp_all add: refers_toD)
  have d: "distinct ?ids"
  proof -
    have "?ids = map ((@) ''attachment:'') (map ca_attachment_id xs)" by simp
    then show ?thesis using assms(6) by (simp only: distinct_map) (simp add: inj_on_def)
  qed
  have chunks: "list_all (\<lambda>c. cc_source_id c \<in> set ?ids) (cb_chunks b)"
  proof -
    have "cc_source_id ` set (cb_chunks b) = set ?ids"
      unfolding assms(2) using arg_cong [OF material_chunks(2) [of s xs], of set] by simp
    then show ?thesis by (auto simp only: list_all_iff)
  qed
  have ne: "cb_sources b \<noteq> []" "cb_chunks b \<noteq> []" "cb_attachments b \<noteq> []"
    using ids refs assms(2,5) material_chunks(3) [of s xs] by auto
  have order: "map cc_order (cb_chunks b) = map int [0..<length (cb_chunks b)]"
    unfolding assms(2) material_chunks(3) by (rule material_chunks(1))
  have binding: "(cb_scope_kind b, cb_purpose b) \<in> {(''console_draft_request'', ''planning''), (''workflow_instance'', ''agent_execution'')}"
    "(if cb_purpose b = ''planning''
      then ensure (cb_node_key b = None \<and> cb_attempt_id b = None) (ValueError ''planning context cannot bind a node or Attempt'')
      else ensure (\<not> unset (cb_node_key b) \<and> \<not> unset (cb_attempt_id b)) (ValueError ''Agent context must bind a node and Attempt'')) = Inr ()"
    using assms(10) by (elim disjE conjE; simp)+
  show ?thesis
    unfolding mk_context_bundle_def sealed_def
    using assms(4,7-9,11-15) binding ids refs d chunks ne order
    by (simp add: expect_given_def Let_def del: insert_iff set_map map_map)
qed

section \<open>Resolving a manifest\<close>

lemma fold_dput_new:
  "distinct (map f xs) \<Longrightarrow> set (map f xs) \<inter> set (dkeys d) = {} \<Longrightarrow> fold (\<lambda>a. dput (f a) a) xs d = d @ map (\<lambda>a. (f a, a)) xs"
proof (induction xs arbitrary: d)
  case (Cons x xs)
  then have "dput (f x) x d = d @ [(f x, x)]" by (intro dput_new) auto
  moreover have "set (map f xs) \<inter> set (dkeys (d @ [(f x, x)])) = {}" using Cons.prems by auto
  ultimately show ?case using Cons.IH [of "d @ [(f x, x)]"] Cons.prems(1) by simp
qed simp

lemma by_attachment_id_distinct:
  "distinct (map ca_attachment_id xs) \<Longrightarrow> by_attachment_id xs = map (\<lambda>a. (ca_attachment_id a, a)) xs"
  using fold_dput_new [of ca_attachment_id xs "[]"] by (simp add: by_attachment_id_def)

lemma dget_by_attachment_id:
  "distinct (map ca_attachment_id xs) \<Longrightarrow> a \<in> set xs \<Longrightarrow> dget (by_attachment_id xs) (ca_attachment_id a) = Some a"
  by (auto simp: by_attachment_id_distinct map_of_eq_Some_iff comp_def)

lemma stored_ids_distinct:
  assumes "console_inv s" and "\<forall>a \<in> set (map snd (cs_attachments s)). P a \<longrightarrow> ca_tenant_id a = tenant"
  shows "distinct (map ca_attachment_id (filter P (map snd (cs_attachments s))))"
proof -
  let ?xs = "filter P (map snd (cs_attachments s))"
  have "(ca_tenant_id (snd p), ca_attachment_id (snd p)) = fst p" if "p \<in> set (cs_attachments s)" for p
  proof -
    have "dget (cs_attachments s) (fst p) = Some (snd p)" using that console_invD(2) [OF assms(1)] by simp
    from console_invD(4) [OF assms(1) this] show ?thesis by simp
  qed
  then have "map (\<lambda>a. (ca_tenant_id a, ca_attachment_id a)) (map snd (cs_attachments s)) = dkeys (cs_attachments s)" by simp
  then have "distinct (map (\<lambda>a. (ca_tenant_id a, ca_attachment_id a)) (map snd (cs_attachments s)))"
    using console_invD(2) [OF assms(1)] by (simp only:)
  then have "distinct (map (\<lambda>a. (ca_tenant_id a, ca_attachment_id a)) ?xs)" by (rule distinct_map_filter)
  then have d: "distinct ?xs" and inj: "inj_on (\<lambda>a. (ca_tenant_id a, ca_attachment_id a)) (set ?xs)" unfolding distinct_map by blast+
  have t: "ca_tenant_id a = tenant" if "a \<in> set ?xs" for a using assms(2) that unfolding set_filter by blast
  have "inj_on ca_attachment_id (set ?xs)"
  proof (rule inj_onI)
    fix a b
    assume "a \<in> set ?xs" "b \<in> set ?xs" "ca_attachment_id a = ca_attachment_id b"
    with t [of a] t [of b] show "a = b" by (intro inj_onD [OF inj]) simp_all
  qed
  with d show ?thesis by (simp only: distinct_map)
qed

lemma stored_attachment:
  assumes "console_inv s" and "a \<in> set (map snd (cs_attachments s))"
  shows "dget (cs_attachments s) (ca_tenant_id a, ca_attachment_id a) = Some a"
proof -
  from assms(2) obtain k where "(k, a) \<in> set (cs_attachments s)" by auto
  then have "dget (cs_attachments s) k = Some a" using console_invD(2) [OF assms(1)] by simp
  with console_invD(4) [OF assms(1) this] show ?thesis by simp
qed

text \<open>A manifest that lists the references of given attachments resolves to them.\<close>

lemma ordered_manifest_ok:
  assumes refs: "list_all2 refers_to rs xs" and d: "distinct (map ca_attachment_id xs)" and by_id: "set by_id = set (map (\<lambda>a. (ca_attachment_id a, a)) xs)"
      "length by_id = length xs"
    and ok: "\<forall>a \<in> set xs. attachment_ok a \<and> ca_status a = ''ready'' \<and>
      (if promoted then ca_instance_id a = Some iid else ca_instance_id a \<in> {None, Some iid})"
  shows "ordered_manifest_records rs by_id iid promoted = Inr xs"
proof -
  have dk: "distinct (dkeys by_id)"
  proof -
    have "distinct (map (\<lambda>a. (ca_attachment_id a, a)) xs)" using d by (auto simp: distinct_map inj_on_def)
    then have "length (map (\<lambda>a. (ca_attachment_id a, a)) xs) = card (set by_id)" unfolding by_id(1) by (simp only: distinct_card)
    then have "distinct by_id" using by_id(2) by (simp add: card_distinct)
    moreover have "inj_on fst (set by_id)" using d unfolding by_id(1) by (auto simp: distinct_map inj_on_def)
    ultimately show ?thesis by (simp add: distinct_map)
  qed
  have one: "manifest_record by_id iid promoted r = Inr a" if r: "refers_to r a" and a: "a \<in> set xs" for r a
  proof -
    have "(ca_attachment_id a, a) \<in> set by_id" unfolding by_id(1) using a by simp
    then have "dget by_id (ca_attachment_id a) = Some a" using dk by simp
    moreover from ok a have "attachment_ok a" "ca_status a = ''ready''" by simp_all
    moreover have "promoted \<longrightarrow> ca_instance_id a = Some iid" "\<not> promoted \<longrightarrow> ca_instance_id a \<in> {None, Some iid}"
      using bspec [OF ok a] by (simp_all split: if_splits)
    ultimately show ?thesis using r attachment_okD(11) [of a]
      by (simp add: manifest_record_def refers_toD(1) attachment_reference_ok refers_to_def)
  qed
  have "mapM (manifest_record by_id iid promoted) rs = Inr xs"
    using refs by (simp only: mapM_Inr_iff) (auto elim!: list.rel_mono_strong intro: one)
  then show ?thesis by (simp add: ordered_manifest_records_def by_id(2))
qed

text \<open>A request whose manifest has been frozen.\<close>

definition frozen_request :: "console_store \<Rightarrow> draft_request \<Rightarrow> bool" where
  "frozen_request s req \<longleftrightarrow> dget (dq_items (cs_drafts s)) (dr_tenant_id req, dr_id req) = Some req \<and> dr_status req \<noteq> R_COLLECTING \<and>
     ascii (dr_requester_person_id req) \<and> dr_attachment_manifest req = map reference_of (by_age (ready_cores (dr_tenant_id req) (dr_id req) s)) \<and>
     (\<forall>a \<in> set (ready_cores (dr_tenant_id req) (dr_id req) s). ca_model_egress_policy a = ''allow'')"

abbreviation ready_attachments :: "console_store \<Rightarrow> draft_request \<Rightarrow> console_attachment list" where
  "ready_attachments s req \<equiv> ready_for_request (dr_tenant_id req) (dr_id req) s"

lemma ready_references: "map reference_of (ready_for_request tenant rid s) = map reference_of (by_age (ready_cores tenant rid s))"
  unfolding ready_for_request_cores [symmetric] by simp

lemma set_ready_for_request:
  "set (ready_for_request tenant rid s) = {a \<in> set (map snd (cs_attachments s)). ready_of tenant rid a}"
  by (auto simp: ready_for_request_def by_age_def retained_for_request_def ready_of_def)

lemma frozen_request_later:
  assumes "console_op\<^sup>*\<^sup>* s s'" and inv: "console_inv s" and fr: "frozen_request s req"
  obtains req' where "dget (dq_items (cs_drafts s')) (dr_tenant_id req, dr_id req) = Some req'" "request_later req req'" "frozen_request s' req'"
proof -
  from fr have r: "dget (dq_items (cs_drafts s)) (dr_tenant_id req, dr_id req) = Some req" "dr_status req \<noteq> R_COLLECTING"
    by (simp_all add: frozen_request_def)
  from frozen_for_ever [OF assms(1) inv r] obtain req' where f: "frozen_step (dr_tenant_id req) (dr_id req) s s'"
    "dget (dq_items (cs_drafts s')) (dr_tenant_id req, dr_id req) = Some req'" "request_later req req'" by blast
  have same: "dr_tenant_id req' = dr_tenant_id req" "dr_id req' = dr_id req" "dr_attachment_manifest req' = dr_attachment_manifest req"
    "dr_status req' \<noteq> R_COLLECTING" "dr_requester_person_id req' = dr_requester_person_id req"
    using f(3) r(2) by (simp_all add: request_later_def same_author_def)
  have "frozen_request s' req'" using fr f(1,2) same(4) unfolding frozen_request_def same(1-3,5) frozen_step_def by simp
  with f(2,3) that show thesis by blast
qed

lemma freeze_frozen_request:
  assumes "freeze_and_queue tenant rid person now s = Inr (s', req)" and inv: "console_inv s"
  shows "frozen_request s' req" "dr_status req = R_PENDING"
proof -
  let ?xs = "ready_for_request tenant rid s"
  obtain manifest dq where m: "\<forall>a \<in> set ?xs. ca_model_egress_policy a = ''allow''" "mapM attachment_reference ?xs = Inr manifest"
    "queue_collecting tenant rid person manifest now (cs_drafts s) = Inr (dq, req)" "s' = s\<lparr>cs_drafts := dq\<rparr>"
    using assms(1) unfolding freeze_and_queue_def Let_def by (auto simp: rbind_Inr_iff ensure_Inr_iff list_ex_iff)
  have ok: "\<forall>a \<in> set ?xs. attachment_ok a"
    using stored_attachment [OF inv] console_invD(5) [OF inv] unfolding set_ready_for_request by blast
  have "list_all2 (\<lambda>a r. attachment_reference a = Inr r) ?xs manifest" using m(2) by (simp only: mapM_Inr_iff)
  then have manifest: "manifest = map reference_of ?xs" using ok
    by (induction rule: list_all2_induct) (simp_all add: attachment_reference_ok)
  obtain r where r: "get_request_for_owner tenant rid person (cs_drafts s) = Inr r"
    and req: "req = r\<lparr>dr_status := R_PENDING, dr_attachment_manifest := manifest, dr_enterprise_knowledge_manifest := [],
       dr_enterprise_selection_fingerprint := None, dr_available_at := now, dr_updated_at := now\<rparr>"
    and dq: "dq = put_request tenant rid req (cs_drafts s)"
    using m(3) unfolding queue_collecting_def queue_collecting_context_def Let_def by (auto simp: rbind_Inr_iff ensure_Inr_iff)
  have k: "tenant = dr_tenant_id req" "rid = dr_id req"
    using r drafts_invD(3) [OF console_invD(1) [OF inv]] by (auto elim!: owned_requestE simp: req)
  have ascii: "ascii (dr_requester_person_id req)"
    using r unfolding get_request_for_owner_def by (auto simp: rbind_Inr_iff compare_digest_def req split: if_splits)
  have cores: "ready_cores tenant rid s' = ready_cores tenant rid s" by (simp add: ready_cores_def m(4))
  have egress: "\<forall>a \<in> set (ready_cores tenant rid s). ca_model_egress_policy a = ''allow''"
  proof
    fix a
    assume "a \<in> set (ready_cores tenant rid s)"
    then have "a \<in> set (map core ?xs)" unfolding ready_for_request_cores by (simp add: by_age_def)
    with m(1) show "ca_model_egress_policy a = ''allow''" by (auto simp: core_def)
  qed
  have "dget (dq_items dq) (tenant, rid) = Some req" by (simp add: dq dget_dput)
  then show "frozen_request s' req"
    unfolding frozen_request_def k [symmetric] cores using egress manifest ready_references ascii by (simp add: m(4) req)
  show "dr_status req = R_PENDING" by (simp add: req)
qed

text \<open>The ready attachments of a frozen request are sound.\<close>

lemma frozen_attachments_sound:
  assumes inv: "console_inv s" and fr: "frozen_request s req" and a: "a \<in> set (ready_attachments s req)"
  shows "sound_for s a" "dget (cs_attachments s) (dr_tenant_id req, ca_attachment_id a) = Some a" "ca_origin_request_id a = dr_id req"
    "ca_uploader_person_id a = dr_requester_person_id req" "ca_tenant_id a = dr_tenant_id req"
proof -
  from a have m: "a \<in> set (map snd (cs_attachments s))" "ready_of (dr_tenant_id req) (dr_id req) a" by (auto simp only: set_ready_for_request mem_Collect_eq)
  then show t: "ca_tenant_id a = dr_tenant_id req" and o: "ca_origin_request_id a = dr_id req" by (simp_all add: ready_of_def)
  note st = stored_attachment [OF inv m(1)]
  then show "dget (cs_attachments s) (dr_tenant_id req, ca_attachment_id a) = Some a" by (simp add: t)
  have "core a \<in> set (ready_cores (dr_tenant_id req) (dr_id req) s)" using m by (force simp: ready_cores_def)
  then have "ca_model_egress_policy (core a) = ''allow''" using fr by (simp add: frozen_request_def)
  then show "sound_for s a" using m(2) console_invD(5,6) [OF inv st] by (simp add: sound_for_def usable_def ready_of_def core_def)
  show "ca_uploader_person_id a = dr_requester_person_id req"
    using console_invD(7) [OF inv st] fr by (auto simp: owned_by_requester_def frozen_request_def t o)
qed

lemma ready_ids_distinct:
  assumes "console_inv s"
  shows "distinct (map ca_attachment_id (ready_for_request tenant rid s))"
proof -
  let ?ys = "filter (ready_of tenant rid) (map snd (cs_attachments s))"
  have "distinct (map ca_attachment_id ?ys)" by (rule stored_ids_distinct [OF assms, of _ tenant]) (simp add: ready_of_def)
  moreover have "ready_for_request tenant rid s = by_age ?ys"
    unfolding ready_for_request_def retained_for_request_def filter_filter
    by (intro arg_cong [where f = by_age] filter_cong) (auto simp: ready_of_def)
  ultimately show ?thesis unfolding by_age_def by (simp only: distinct_map distinct_sort set_sort simp_thms)
qed

definition planning_state :: "draft_status \<Rightarrow> bool" where
  "planning_state st \<longleftrightarrow> st \<in> {R_PENDING, R_GENERATING, R_REPAIRING, R_CREATING, R_FAILED}"

definition total_chars :: "console_store \<Rightarrow> draft_request \<Rightarrow> int" where
  "total_chars s req = (\<Sum>a \<leftarrow> ready_attachments s req. int (length (text_of s a)))"

text \<open>The bundle of a frozen request: its attachments by age, each with its stored text.\<close>

definition frozen_bundle :: "console_store \<Rightarrow> draft_request \<Rightarrow> time \<Rightarrow> int \<Rightarrow> context_bundle" where
  "frozen_bundle s req now ttl = sealed
     \<lparr>cb_tenant_id = dr_tenant_id req, cb_scope_kind = ''console_draft_request'', cb_scope_id = dr_id req, cb_purpose = ''planning'',
      cb_actor_person_id = dr_requester_person_id req, cb_sources = cm_sources (material_of s (ready_attachments s req)),
      cb_chunks = cm_chunks (material_of s (ready_attachments s req)), cb_attachments = map reference_of (ready_attachments s req),
      cb_enterprise_knowledge = [], cb_node_key = None, cb_attempt_id = None, cb_data_classification = ''internal'',
      cb_egress_decision = ''allow'', cb_created_at = now, cb_expires_at = Some (now + ttl), cb_fingerprint = []\<rparr>"

lemma attachment_not_blank:
  assumes "attachment_ok a"
  shows "\<not> blank (ca_tenant_id a)" "\<not> blank (ca_uploader_person_id a)" "\<not> blank (ca_origin_request_id a)"
proof -
  show "\<not> blank (ca_tenant_id a)" "\<not> blank (ca_uploader_person_id a)"
    using assms unfolding attachment_ok_def mk_console_attachment_def by (simp_all add: rbind_Inr_iff ensure_Inr_iff)
  show "\<not> blank (ca_origin_request_id a)"
    using attachment_okD(2) [OF assms] by (simp add: attachment_id_text_def hex_not_blank)
qed

lemma resolve_frozen:
  assumes inv: "console_inv s" and bound: "bound_to_own s" and fr: "frozen_request s cur" and st: "planning_state (dr_status cur)"
    and later: "request_later req cur" and req: "dr_status req \<noteq> R_COLLECTING"
  shows "resolve_for_planning req s = Inr (ready_attachments s cur)"
proof -
  let ?xs = "ready_attachments s cur"
  have same: "dr_tenant_id req = dr_tenant_id cur" "dr_id req = dr_id cur" "dr_requester_person_id req = dr_requester_person_id cur"
    "dr_attachment_manifest req = dr_attachment_manifest cur"
    using later req by (simp_all add: request_later_def same_author_def)
  have owner: "request_owner (dr_tenant_id req) (dr_id req) (dr_requester_person_id req) s = Inr cur"
    using fr unfolding same by (simp add: request_owner_def get_request_for_owner_def frozen_request_def compare_digest_def)
  have ok: "\<forall>a \<in> set ?xs. attachment_ok a \<and> ca_status a = ''ready'' \<and>
      (if False then ca_instance_id a = Some (draft_instance_id (dr_id cur)) else ca_instance_id a \<in> {None, Some (draft_instance_id (dr_id cur))})"
  proof
    fix a
    assume a: "a \<in> set ?xs"
    note snd = frozen_attachments_sound [OF inv fr a]
    from bound snd(2,3) have "ca_instance_id a \<in> {None, Some (draft_instance_id (dr_id cur))}" unfolding bound_to_own_def by metis
    with snd(1) show "attachment_ok a \<and> ca_status a = ''ready'' \<and>
      (if False then ca_instance_id a = Some (draft_instance_id (dr_id cur)) else ca_instance_id a \<in> {None, Some (draft_instance_id (dr_id cur))})"
      by (simp add: sound_for_def usable_def)
  qed
  have m: "dr_attachment_manifest cur = map reference_of ?xs" using fr by (simp add: frozen_request_def ready_references)
  have d: "distinct (map ca_attachment_id ?xs)" by (rule ready_ids_distinct [OF inv])
  have "ordered_manifest_records (map reference_of ?xs) (by_attachment_id ?xs) (draft_instance_id (dr_id cur)) False = Inr ?xs"
    by (rule ordered_manifest_ok [OF _ d _ _ ok]) (simp_all add: list.rel_map list_all2_same by_attachment_id_distinct [OF d])
  with owner st show ?thesis
    by (simp add: resolve_for_planning_def require_planning_state_def planning_state_def same m)
qed

lemma frozen_bundle_ok:
  assumes inv: "console_inv s" and fr: "frozen_request s req" and ne: "dr_attachment_manifest req \<noteq> []" and ttl: "0 < ttl"
  shows "planning_bundle (dr_tenant_id req) (dr_id req) (dr_requester_person_id req) (map reference_of (ready_attachments s req))
      (material_of s (ready_attachments s req)) ''internal'' ''allow'' now ttl = Inr (frozen_bundle s req now ttl)"
proof -
  let ?xs = "ready_attachments s req"
  have xs: "?xs \<noteq> []" using ne fr by (auto simp: frozen_request_def ready_references [symmetric])
  then obtain a where a: "a \<in> set ?xs" by fastforce
  note snd = frozen_attachments_sound [OF inv fr a]
  from snd(1) attachment_not_blank [of a] have nb: "\<not> blank (dr_tenant_id req)" "\<not> blank (dr_requester_person_id req)" "\<not> blank (dr_id req)"
    by (simp_all add: sound_for_def snd(3-5))
  show ?thesis
    unfolding planning_bundle_def frozen_bundle_def
    by (rule bundle_of_attachments [where xs = ?xs and s = s and t = "now + ttl"]) (simp_all add: xs nb ttl ready_ids_distinct [OF inv] list.rel_map list_all2_same)
qed

text \<open>The planning context of a frozen request is always available, within the budget of characters.\<close>

lemma planning_available:
  assumes inv: "console_inv s" and bound: "bound_to_own s" and fr: "frozen_request s cur" and st: "planning_state (dr_status cur)"
    and later: "request_later req cur" and req: "dr_status req \<noteq> R_COLLECTING" and ne: "dr_attachment_manifest cur \<noteq> []"
    and policy: "pc_model_egress_policy sv = ''allow''" and chars: "total_chars s cur \<le> MAX_CONTEXT_BUNDLE_CHARS"
  shows "build_for_planning sv req now s = Inr (Some (frozen_bundle s cur now CONTEXT_BUNDLE_TTL))"
proof -
  let ?xs = "ready_attachments s cur"
  have same: "dr_tenant_id req = dr_tenant_id cur" "dr_id req = dr_id cur" "dr_requester_person_id req = dr_requester_person_id cur"
    "dr_attachment_manifest req = dr_attachment_manifest cur"
    using later req by (simp_all add: request_later_def same_author_def)
  have loop: "foldM (planning_material s) ?xs ([], empty_material) = Inr ([] @ map reference_of ?xs, grown s ?xs empty_material)"
    using frozen_attachments_sound(1) [OF inv fr] chars by (intro planning_loop) (simp_all add: total_chars_def empty_material_def)
  have ttl: "0 < CONTEXT_BUNDLE_TTL" by (simp add: CONTEXT_BUNDLE_TTL_def)
  show ?thesis
    using resolve_frozen [OF inv bound fr st later req] ne policy loop frozen_bundle_ok [OF inv fr ne ttl]
    by (simp add: build_for_planning_def same material_of_def [symmetric])
qed

section \<open>The frozen inputs of an instance\<close>

lemma dget_freeze_map: "dget (freeze_map m) k = map_option freeze (dget m k)"
  by (induction m) (auto simp: freeze_map_def)

lemma getv_freeze_map: "getv (freeze_map m) k = freeze (getv m k)"
  by (simp add: get_or_def dget_freeze_map split: option.split)

lemma freeze_reference: "freeze (PDict (attachment_ref_value (reference_of a))) = PFrozen (attachment_ref_value (reference_of a))"
  by (simp add: attachment_ref_value_def reference_of_def)

lemma frozen_reference_ok: "attachment_ok a \<Longrightarrow> frozen_reference (PFrozen (attachment_ref_value (reference_of a))) = Inr (reference_of a)"
proof -
  assume ok: "attachment_ok a"
  have "\<not> blank (ca_attachment_id a)" using attachment_okD(1) [OF ok] by (simp add: attachment_id_text_def hex_not_blank)
  moreover note attachment_source_id [OF attachment_okD(1) [OF ok]] attachment_okD [OF ok]
  ultimately have "attachment_ref_of (attachment_ref_value (reference_of a)) = Inr (reference_of a)"
    by (auto simp: attachment_ref_of_def attachment_ref_value_def reference_of_def ATTACHMENT_REF_FIELDS_def text_argument_def
        member_argument_def in_str_set_def get_or_def not_less)
  then show ?thesis by (simp add: frozen_reference_def)
qed

lemma attachment_manifest_ok:
  assumes "\<forall>a \<in> set xs. attachment_ok a" and "distinct (map ca_attachment_id xs)"
  shows "attachment_manifest (freeze (PList (map (PDict \<circ> attachment_ref_value) (map reference_of xs)))) = Inr (map reference_of xs)"
proof -
  have "mapM frozen_reference (map (\<lambda>a. PFrozen (attachment_ref_value (reference_of a))) xs) = Inr (map reference_of xs)"
    using assms(1) by (simp add: mapM_Inr_iff list.rel_map list_all2_same frozen_reference_ok)
  moreover have "freeze (PList (map (PDict \<circ> attachment_ref_value) (map reference_of xs))) =
      PTuple (map (\<lambda>a. PFrozen (attachment_ref_value (reference_of a))) xs)"
    using freeze_reference by simp
  moreover have "map ar_attachment_id (map reference_of xs) = map ca_attachment_id xs" by (simp add: reference_of_def)
  ultimately show ?thesis using assms(2)
    by (simp only: attachment_manifest_def as_seq.simps get_or_raise_simps rbind.simps ensure_True)
qed

lemma source_kinds_attachments:
  assumes "cb_sources b = map (source_of \<circ> f) xs" and "xs \<noteq> []"
  shows "source_kinds b = ''attachment''"
proof -
  have k: "rev (map sr_kind (cb_sources b)) = replicate (length xs) ''attachment''"
    unfolding assms(1) by (induction xs) (simp_all add: source_of_def replicate_append_same)
  have "remdups (replicate (Suc n) x) = [x]" for n and x :: string by (induction n) simp_all
  from this [of "length xs - 1" "''attachment''"] assms(2) show ?thesis unfolding source_kinds_def k by simp
qed

lemma planning_manifest_ok:
  assumes "cb_scope_kind b = ''console_draft_request''" "cb_purpose b = ''planning''" "cb_node_key b = None" "cb_attempt_id b = None"
    "cb_data_classification b = ''internal''" "cb_egress_decision b = ''allow''" and kinds: "source_kinds b = ''attachment''"
  shows "context_manifest (freeze (PDict (planning_manifest b))) = Inr (cb_scope_id b, cb_fingerprint b, ''attachment'')"
proof -
  have m: "planning_manifest b =
     [(''scope_kind'', PStr ''console_draft_request''), (''scope_id'', PStr (cb_scope_id b)), (''purpose'', PStr ''planning''),
      (''data_classification'', PStr ''internal''), (''egress_decision'', PStr ''allow''), (''fingerprint'', PStr (cb_fingerprint b)),
      (''source_kinds'', PStr ''attachment'')]"
    by (simp add: planning_manifest_def bundle_snapshot_manifest_def set_items_def assms)
  show ?thesis unfolding m by (simp add: context_manifest_def MANIFEST_FIELDS_def get_or_def)
qed

lemma context_inputs_get:
  "getv (context_inputs b inputs) ''context_manifest'' = PDict (planning_manifest b)"
  "cb_attachments b \<noteq> [] \<Longrightarrow> getv (context_inputs b inputs) ''project_attachments'' = PList (map (PDict \<circ> attachment_ref_value) (cb_attachments b))"
  by (simp_all add: context_inputs_def get_or_def dget_dput)

section \<open>The same material at a later time\<close>

lemma core_content: "text_of s (core a) = text_of s a" "chunk_of s i (core a) = chunk_of s i a"
  by (simp_all add: text_of_def chunk_of_def core_def)

lemma material_core: "material_of s (map core xs) = material_of s xs"
proof -
  have "map (\<lambda>(i, a). chunk_of s i a) (enumerate 0 (map core xs)) = map (\<lambda>(i, a). chunk_of s i a) (enumerate 0 xs)"
    by (rule nth_equalityI) (simp_all add: nth_enumerate_eq core_content)
  then show ?thesis by (simp add: material_of_def grown_def empty_material_def comp_def core_content)
qed

lemma text_of_kept:
  assumes "blob_intact s a" and "\<forall>k bytes. dget (cs_blobs s) k = Some bytes \<longrightarrow> dget (cs_blobs s') k = Some bytes"
  shows "text_of s' a = text_of s a"
proof -
  obtain bytes where "dget (cs_blobs s) (ca_object_key a) = Some bytes" using assms(1) by (auto simp: blob_intact_def)
  moreover from this assms(2) have "dget (cs_blobs s') (ca_object_key a) = Some bytes" by blast
  ultimately show ?thesis by (simp add: text_of_def)
qed

lemma material_kept:
  assumes "\<forall>a \<in> set xs. text_of s' a = text_of s a"
  shows "material_of s' xs = material_of s xs"
proof -
  have "map (\<lambda>(i, a). chunk_of s' i a) (enumerate 0 xs) = map (\<lambda>(i, a). chunk_of s i a) (enumerate 0 xs)"
    using assms by (intro nth_equalityI) (simp_all add: nth_enumerate_eq chunk_of_def)
  moreover have "(\<Sum>a \<leftarrow> xs. int (length (text_of s' a))) = (\<Sum>a \<leftarrow> xs. int (length (text_of s a)))"
    using assms by (intro arg_cong [where f = sum_list] map_cong) simp_all
  ultimately show ?thesis by (simp add: material_of_def grown_def empty_material_def)
qed

lemma frozen_material_kept:
  assumes inv: "console_inv s" and step: "frozen_step tenant rid s s'"
  shows "material_of s' (ready_for_request tenant rid s') = material_of s (ready_for_request tenant rid s)"
    and "map reference_of (ready_for_request tenant rid s') = map reference_of (ready_for_request tenant rid s)"
proof -
  have same: "map core (ready_for_request tenant rid s') = map core (ready_for_request tenant rid s)"
    using step unfolding ready_for_request_cores by (simp add: frozen_step_def)
  have kept: "\<forall>a \<in> set (ready_for_request tenant rid s). text_of s' a = text_of s a"
  proof
    fix a
    assume "a \<in> set (ready_for_request tenant rid s)"
    then have "a \<in> set (map snd (cs_attachments s))" unfolding set_ready_for_request by simp
    from console_invD(6) [OF inv stored_attachment [OF inv this]] step show "text_of s' a = text_of s a"
      by (intro text_of_kept) (simp_all add: frozen_step_def)
  qed
  have "material_of s' (ready_for_request tenant rid s') = material_of s' (map core (ready_for_request tenant rid s'))" by (simp add: material_core)
  also have "\<dots> = material_of s' (ready_for_request tenant rid s)" unfolding same by (rule material_core)
  also have "\<dots> = material_of s (ready_for_request tenant rid s)" by (rule material_kept [OF kept])
  finally show "material_of s' (ready_for_request tenant rid s') = material_of s (ready_for_request tenant rid s)" .
  have "map reference_of (map core (ready_for_request tenant rid s')) = map reference_of (map core (ready_for_request tenant rid s))"
    by (simp only: same)
  then show "map reference_of (ready_for_request tenant rid s') = map reference_of (ready_for_request tenant rid s)"
    by (simp only: map_map comp_def core_fields)
qed

section \<open>Promotion\<close>

text \<open>An attachment that is bound to a workflow stays so.\<close>

definition bindings_kept :: "console_store \<Rightarrow> console_store \<Rightarrow> bool" where
  "bindings_kept s s' \<longleftrightarrow> (bound_to_own s \<longrightarrow> bound_to_own s') \<and>
     (\<forall>k a i. dget (cs_attachments s) k = Some a \<longrightarrow> ca_instance_id a = Some i \<longrightarrow>
        (\<exists>a'. dget (cs_attachments s') k = Some a' \<and> ca_instance_id a' = Some i))"

lemma bindings_kept_refl: "bindings_kept s s"
  by (simp add: bindings_kept_def)

lemma bindings_kept_trans: "bindings_kept s t \<Longrightarrow> bindings_kept t u \<Longrightarrow> bindings_kept s u"
  unfolding bindings_kept_def by blast

lemma bindings_keptE:
  assumes "bindings_kept s s'" "dget (cs_attachments s) k = Some a" "ca_instance_id a = Some i"
  obtains a' where "dget (cs_attachments s') k = Some a'" "ca_instance_id a' = Some i"
  using assms unfolding bindings_kept_def by blast

lemma bindings_kept_put:
  assumes "dget (cs_attachments s) k = Some a" and "ca_instance_id a \<noteq> None \<Longrightarrow> ca_instance_id b = ca_instance_id a"
    and "bound_to_own s \<Longrightarrow> ca_instance_id b \<in> {None, Some (draft_instance_id (ca_origin_request_id b))}"
  shows "bindings_kept s (s\<lparr>cs_attachments := dput k b (cs_attachments s)\<rparr>)"
proof -
  have "\<exists>a'. dget (dput k b (cs_attachments s)) j = Some a' \<and> ca_instance_id a' = Some i"
    if "dget (cs_attachments s) j = Some c" "ca_instance_id c = Some i" for j c i
    using that assms(1,2) by (cases "j = k") (simp_all add: dget_dput)
  with assms(3) bound_to_own_put show ?thesis by (simp add: bindings_kept_def)
qed

lemma promote_attachmentE:
  assumes "promote_attachment req iid aid s = Inr s1"
  obtains a where "dget (cs_attachments s) (dr_tenant_id req, aid) = Some a" "ca_origin_request_id a = dr_id req"
    "ca_instance_id a \<in> {None, Some iid}"
    "s1 = s\<lparr>cs_attachments := dput (dr_tenant_id req, aid) (a\<lparr>ca_instance_id := Some iid\<rparr>) (cs_attachments s)\<rparr>"
proof -
  obtain a b where a: "dget (cs_attachments s) (dr_tenant_id req, aid) = Some a" "ca_origin_request_id a = dr_id req"
    "ca_instance_id a \<in> {None, Some iid}" and b: "mk_console_attachment (a\<lparr>ca_instance_id := Some iid\<rparr>) = Inr b"
    and s1: "s1 = s\<lparr>cs_attachments := dput (dr_tenant_id req, aid) b (cs_attachments s)\<rparr>"
    using assms unfolding promote_attachment_def by (auto simp: rbind_Inr_iff ensure_Inr_iff get_or_raise_Inr_iff)
  from mk_console_attachment_same [OF b] a s1 that show thesis by simp
qed

lemma promote_all_bindings:
  assumes "iid = draft_instance_id (dr_id req)"
  shows "bindings_kept s (fst (promote_all req iid aids s))"
proof (induction aids arbitrary: s)
  case (Cons aid aids)
  show ?case
  proof (cases "promote_attachment req iid aid s")
    case (Inr s1)
    then obtain a where a: "dget (cs_attachments s) (dr_tenant_id req, aid) = Some a" "ca_origin_request_id a = dr_id req"
      "ca_instance_id a \<in> {None, Some iid}"
      "s1 = s\<lparr>cs_attachments := dput (dr_tenant_id req, aid) (a\<lparr>ca_instance_id := Some iid\<rparr>) (cs_attachments s)\<rparr>"
      by (rule promote_attachmentE)
    have "bindings_kept s s1" unfolding a(4) using a(2,3) assms by (intro bindings_kept_put [OF a(1)]) auto
    from bindings_kept_trans [OF this Cons.IH] Inr show ?thesis by simp
  qed (simp add: bindings_kept_refl)
qed (simp add: bindings_kept_refl)

lemma promote_all_binds:
  assumes "promote_all req iid aids s = (s', Inr u)" and iid: "iid = draft_instance_id (dr_id req)" and "aid \<in> set aids"
  obtains a where "dget (cs_attachments s') (dr_tenant_id req, aid) = Some a" "ca_instance_id a = Some iid"
  using assms(1,3)
proof (induction aids arbitrary: s thesis)
  case (Cons b aids)
  then obtain s1 where s1: "promote_attachment req iid b s = Inr s1" "promote_all req iid aids s1 = (s', Inr u)"
    by (auto split: sum.splits)
  show ?case
  proof (cases "aid \<in> set aids")
    case True
    with Cons.IH [OF _ s1(2)] Cons.prems(1) show ?thesis by blast
  next
    case False
    with Cons.prems(3) have b: "b = aid" by simp
    obtain a where s1': "s1 = s\<lparr>cs_attachments := dput (dr_tenant_id req, b) (a\<lparr>ca_instance_id := Some iid\<rparr>) (cs_attachments s)\<rparr>"
      using s1(1) by (rule promote_attachmentE)
    let ?a = "a\<lparr>ca_instance_id := Some iid\<rparr>"
    have a: "dget (cs_attachments s1) (dr_tenant_id req, aid) = Some ?a" by (simp add: s1' dget_dput b)
    have i: "ca_instance_id ?a = Some iid" by simp
    have "bindings_kept s1 s'" using promote_all_bindings [OF iid, of s1 aids] s1(2) by simp
    from this a i show ?thesis by (rule bindings_keptE) (rule Cons.prems(1))
  qed
qed simp

lemma console_op_bindings:
  assumes "console_op s s'"
  shows "bindings_kept s s'"
  using assms
proof (induction rule: console_op.induct)
  case nothing
  then show ?case by (simp add: bindings_kept_refl)
next
  case drafts
  then show ?case by (simp add: bindings_kept_def bound_to_own_def)
next
  case (upload s sv p rid filename media_type content aid now)
  show ?case
  proof (cases rule: upload_cases [of sv p rid filename media_type content aid now s])
    case (refused e)
    then show ?thesis by (simp add: bindings_kept_refl)
  next
    case (stored a encoded s1 m)
    let ?s' = "fst (upload_attachment sv p rid filename media_type content aid now s)"
    from stored(2) have s1: "cs_attachments s1 = cs_attachments s" by (auto simp: blob_put_def rbind_Inr_iff)
    have unbound: "ca_instance_id a = None" using stored(1) by (rule uploaded_attachmentE)
    have c: "dget (cs_attachments s) (ca_tenant_id a, ca_attachment_id a) = None"
        "cs_attachments ?s' = cs_attachments s @ [((ca_tenant_id a, ca_attachment_id a), a)]"
      using stored(3) by (rule create_for_requestE; simp add: s1)+
    have put: "cs_attachments ?s' = dput (ca_tenant_id a, ca_attachment_id a) a (cs_attachments s)"
      using c by (simp add: dput_new dget_None_iff)
    have "\<exists>a'. dget (cs_attachments ?s') j = Some a' \<and> ca_instance_id a' = Some i"
      if "dget (cs_attachments s) j = Some d" "ca_instance_id d = Some i" for j d i
    proof -
      have "j \<noteq> (ca_tenant_id a, ca_attachment_id a)" using that(1) c(1) by auto
      with that show ?thesis by (simp add: put dget_dput)
    qed
    moreover have "bound_to_own s \<longrightarrow> bound_to_own ?s'" unfolding bound_to_own_def put using unbound by (simp add: dget_dput)
    ultimately show ?thesis unfolding bindings_kept_def by blast
  qed
next
  case (revoke tenant rid aid person now s s' b)
  obtain a where a: "dget (cs_attachments s) (tenant, aid) = Some a"
    and b: "mk_console_attachment (a\<lparr>ca_status := ''revoked'', ca_revoked_at := Some now\<rparr>) = Inr b"
    and s': "s' = s\<lparr>cs_attachments := dput (tenant, aid) b (cs_attachments s)\<rparr>"
    using revoke.hyps unfolding revoke_attachment_def by (auto simp: rbind_Inr_iff ensure_Inr_iff get_or_raise_Inr_iff)
  have b': "b = a\<lparr>ca_status := ''revoked'', ca_revoked_at := Some now\<rparr>" using mk_console_attachment_same [OF b] by simp
  show ?case unfolding s'
  proof (rule bindings_kept_put [OF a])
    assume "bound_to_own s"
    with a have "ca_instance_id a \<in> {None, Some (draft_instance_id (ca_origin_request_id a))}" unfolding bound_to_own_def by blast
    then show "ca_instance_id b \<in> {None, Some (draft_instance_id (ca_origin_request_id b))}" by (simp add: b')
  qed (simp add: b')
next
  case (freeze tenant rid person now s s' req)
  obtain dq where "s' = s\<lparr>cs_drafts := dq\<rparr>" using freeze.hyps by (rule freeze_drafts_op)
  then show ?case by (simp add: bindings_kept_def bound_to_own_def)
next
  case promote
  then show ?case unfolding promote_attachments_def by (intro promote_all_bindings refl)
qed

lemma console_reachable_bindings: "console_op\<^sup>*\<^sup>* s s' \<Longrightarrow> bindings_kept s s'"
  by (induction rule: rtranclp_induct) (auto intro: bindings_kept_refl bindings_kept_trans console_op_bindings)

lemma empty_console_bound: "bound_to_own empty_console"
  by (simp add: bound_to_own_def empty_console_def)

end
