(* ===== verification/Frozen_Material.thy ===== *)
theory Frozen_Material
  imports Context_Theorems
begin

text \<open>
  The way of the attachments from the request of an owner to the agents of the workflow: the bundle that the
  planner was given when the draft was generated is what every agent node that declares project attachments
  is given, however much time and however many other operations lie in between.
\<close>

section \<open>Promoted attachments\<close>

definition promoted :: "console_store \<Rightarrow> draft_request \<Rightarrow> bool" where
  "promoted s req \<longleftrightarrow> (\<forall>aid \<in> set (map ar_attachment_id (dr_attachment_manifest req)).
     \<exists>a. dget (cs_attachments s) (dr_tenant_id req, aid) = Some a \<and> ca_instance_id a = Some (draft_instance_id (dr_id req)))"

lemma promote_promotes:
  assumes "promote_attachments req (draft_instance_id (dr_id req)) s = (s', Inr u)"
  shows "promoted s' req"
  unfolding promoted_def
proof
  fix aid
  assume "aid \<in> set (map ar_attachment_id (dr_attachment_manifest req))"
  then have "aid \<in> set (remdups (map ar_attachment_id (dr_attachment_manifest req)))" by simp
  with promote_all_binds [OF assms [unfolded promote_attachments_def] refl]
  show "\<exists>a. dget (cs_attachments s') (dr_tenant_id req, aid) = Some a \<and> ca_instance_id a = Some (draft_instance_id (dr_id req))"
    by blast
qed

lemma promoted_later:
  assumes "promoted s req" and "bindings_kept s s'" and "dr_tenant_id req' = dr_tenant_id req" "dr_id req' = dr_id req"
    "dr_attachment_manifest req' = dr_attachment_manifest req"
  shows "promoted s' req'"
  unfolding promoted_def assms(3-5)
proof
  fix aid
  assume "aid \<in> set (map ar_attachment_id (dr_attachment_manifest req))"
  with assms(1) obtain a where "dget (cs_attachments s) (dr_tenant_id req, aid) = Some a" "ca_instance_id a = Some (draft_instance_id (dr_id req))"
    unfolding promoted_def by blast
  with assms(2) obtain a' where "dget (cs_attachments s') (dr_tenant_id req, aid) = Some a'" "ca_instance_id a' = Some (draft_instance_id (dr_id req))"
    by (rule bindings_keptE)
  then show "\<exists>a. dget (cs_attachments s') (dr_tenant_id req, aid) = Some a \<and> ca_instance_id a = Some (draft_instance_id (dr_id req))" by blast
qed

text \<open>The references of a promoted request resolve to its ready attachments.\<close>

lemma manifest_ids:
  assumes "frozen_request s req"
  shows "map ar_attachment_id (dr_attachment_manifest req) = map ca_attachment_id (ready_attachments s req)"
proof -
  have m: "dr_attachment_manifest req = map reference_of (ready_attachments s req)" using assms by (simp add: frozen_request_def ready_references)
  show ?thesis unfolding m by (simp add: reference_of_def)
qed

lemma resolve_promoted:
  assumes inv: "console_inv s" and fr: "frozen_request s req" and pr: "promoted s req"
  shows "resolve_for_agent (dr_tenant_id req) (draft_instance_id (dr_id req)) (dr_attachment_manifest req) s = Inr (ready_attachments s req)"
proof -
  let ?iid = "draft_instance_id (dr_id req)"
  let ?xs = "ready_attachments s req"
  let ?P = "\<lambda>a. ca_tenant_id a = dr_tenant_id req \<and> ca_instance_id a = Some ?iid \<and>
    ca_attachment_id a \<in> set (map ar_attachment_id (dr_attachment_manifest req))"
  let ?ys = "filter ?P (map snd (cs_attachments s))"
  have dx: "distinct (map ca_attachment_id ?xs)" by (rule ready_ids_distinct [OF inv])
  have dy: "distinct (map ca_attachment_id ?ys)" by (rule stored_ids_distinct [OF inv, of _ "dr_tenant_id req"]) simp
  have bound: "ca_instance_id a = Some ?iid" if a: "a \<in> set ?xs" for a
  proof -
    have "ca_attachment_id a \<in> set (map ar_attachment_id (dr_attachment_manifest req))" unfolding manifest_ids [OF fr] using a by simp
    with pr obtain b where "dget (cs_attachments s) (dr_tenant_id req, ca_attachment_id a) = Some b" "ca_instance_id b = Some ?iid"
      unfolding promoted_def by blast
    with frozen_attachments_sound(2) [OF inv fr a] show ?thesis by simp
  qed
  have sets: "set ?ys = set ?xs"
  proof (intro equalityI subsetI)
    fix a
    assume "a \<in> set ?ys"
    then have a: "a \<in> set (map snd (cs_attachments s))" "?P a" unfolding set_filter by blast+
    from a(2) have "ca_attachment_id a \<in> ca_attachment_id ` set ?xs" unfolding manifest_ids [OF fr] by (simp only: set_map)
    then obtain b where b: "b \<in> set ?xs" "ca_attachment_id a = ca_attachment_id b" by (rule imageE) blast
    have "Some a = Some b"
      using stored_attachment [OF inv a(1)] frozen_attachments_sound(2) [OF inv fr b(1)] conjunct1 [OF a(2)] b(2) by (simp only:)
    with b(1) show "a \<in> set ?xs" by (simp only: option.inject)
  next
    fix a
    assume a: "a \<in> set ?xs"
    then have "a \<in> set (map snd (cs_attachments s))" unfolding set_ready_for_request by blast
    moreover have "ca_attachment_id a \<in> set (map ar_attachment_id (dr_attachment_manifest req))" unfolding manifest_ids [OF fr] using a by simp
    ultimately show "a \<in> set ?ys" unfolding set_filter using bound [OF a] frozen_attachments_sound(5) [OF inv fr a] by blast
  qed
  have len: "length ?ys = length ?xs"
    using distinct_map [THEN iffD1, THEN conjunct1, OF dx] distinct_map [THEN iffD1, THEN conjunct1, OF dy] sets
    by (metis (no_types) distinct_card)
  have ok: "\<forall>a \<in> set ?xs. attachment_ok a \<and> ca_status a = ''ready'' \<and>
      (if True then ca_instance_id a = Some ?iid else ca_instance_id a \<in> {None, Some ?iid})"
    using frozen_attachments_sound(1) [OF inv fr] bound by (simp add: sound_for_def usable_def)
  have "ordered_manifest_records (dr_attachment_manifest req) (by_attachment_id ?ys) ?iid True = Inr ?xs"
  proof (rule ordered_manifest_ok [OF _ dx _ _ ok])
    have m: "dr_attachment_manifest req = map reference_of ?xs" using fr by (simp add: frozen_request_def ready_references)
    show "list_all2 refers_to (dr_attachment_manifest req) ?xs" unfolding m by (simp add: list.rel_map list_all2_same)
    show "set (by_attachment_id ?ys) = set (map (\<lambda>a. (ca_attachment_id a, a)) ?xs)"
      unfolding by_attachment_id_distinct [OF dy] by (simp only: set_map [of "\<lambda>a. (ca_attachment_id a, a)"] sets)
    show "length (by_attachment_id ?ys) = length ?xs" unfolding by_attachment_id_distinct [OF dy] by (rule trans [OF length_map len])
  qed
  then show ?thesis unfolding resolve_for_agent_def .
qed

section \<open>The context of an agent\<close>

lemma bundle_fields:
  "cb_sources (frozen_bundle s req now ttl) = cm_sources (material_of s (ready_attachments s req))"
  "cb_chunks (frozen_bundle s req now ttl) = cm_chunks (material_of s (ready_attachments s req))"
  "cb_attachments (frozen_bundle s req now ttl) = map reference_of (ready_attachments s req)"
  "cb_scope_id (frozen_bundle s req now ttl) = dr_id req"
  "cb_scope_kind (frozen_bundle s req now ttl) = ''console_draft_request''"
  "cb_purpose (frozen_bundle s req now ttl) = ''planning''" "cb_node_key (frozen_bundle s req now ttl) = None"
  "cb_attempt_id (frozen_bundle s req now ttl) = None" "cb_data_classification (frozen_bundle s req now ttl) = ''internal''"
  "cb_egress_decision (frozen_bundle s req now ttl) = ''allow''"
  by (simp_all add: frozen_bundle_def sealed_def)

text \<open>The fingerprint covers neither the time of creation nor that of expiry.\<close>

lemma frozen_fingerprint:
  assumes "material_of s' (ready_attachments s' req') = material_of s (ready_attachments s req)"
    and "map reference_of (ready_attachments s' req') = map reference_of (ready_attachments s req)"
    and "dr_tenant_id req' = dr_tenant_id req" "dr_id req' = dr_id req"
  shows "cb_fingerprint (frozen_bundle s' req' now' ttl') = cb_fingerprint (frozen_bundle s req now ttl)"
  unfolding frozen_bundle_def sealed_def context_bundle_fingerprint_def bundle_manifest_def using assms by simp

lemma chars_of_material: "bundle_chars b = (\<Sum>a \<leftarrow> xs. int (length (text_of s a)))" if "cb_chunks b = cm_chunks (material_of s xs)"
proof -
  have "bundle_chars b = sum_list (map (int \<circ> length) (map cc_text (cb_chunks b)))" by (simp add: bundle_chars_def comp_def)
  then show ?thesis unfolding that material_chunks(4) by (simp add: comp_def)
qed

definition agent_bundle_of :: "console_store \<Rightarrow> draft_request \<Rightarrow> agent_context_request \<Rightarrow> time \<Rightarrow> context_bundle" where
  "agent_bundle_of s req q now = sealed
     \<lparr>cb_tenant_id = aq_tenant_id q, cb_scope_kind = ''workflow_instance'', cb_scope_id = aq_instance_id q,
      cb_purpose = ''agent_execution'', cb_actor_person_id = aq_owner_person_id q,
      cb_sources = cm_sources (material_of s (ready_attachments s req)), cb_chunks = cm_chunks (material_of s (ready_attachments s req)),
      cb_attachments = map reference_of (ready_attachments s req), cb_enterprise_knowledge = [], cb_node_key = Some (aq_node_key q),
      cb_attempt_id = Some (aq_attempt_id q), cb_data_classification = ''internal'', cb_egress_decision = ''allow'',
      cb_created_at = now, cb_expires_at = Some (now + AGENT_CONTEXT_TTL), cb_fingerprint = []\<rparr>"

lemma not_blank_set: "\<not> blank t \<Longrightarrow> \<not> unset (Some t)"
  by (auto simp: unset_def blank_def py_strip_def)

lemma agent_bundle_ok:
  assumes inv: "console_inv s" and fr: "frozen_request s req" and ne: "dr_attachment_manifest req \<noteq> []"
    and nb: "\<not> blank (aq_tenant_id q)" "\<not> blank (aq_instance_id q)" "\<not> blank (aq_owner_person_id q)" "\<not> blank (aq_node_key q)"
      "\<not> blank (aq_attempt_id q)"
  shows "agent_bundle q (map reference_of (ready_attachments s req)) (material_of s (ready_attachments s req)) now =
    Inr (agent_bundle_of s req q now)"
proof -
  let ?xs = "ready_attachments s req"
  have xs: "?xs \<noteq> []" using ne fr by (auto simp: frozen_request_def ready_references [symmetric])
  have ttl: "(0::int) < AGENT_CONTEXT_TTL" by (simp add: AGENT_CONTEXT_TTL_def)
  show ?thesis
    unfolding agent_bundle_def agent_bundle_of_def
    by (rule bundle_of_attachments [where xs = ?xs and s = s and t = "now + AGENT_CONTEXT_TTL"])
      (simp_all add: xs nb not_blank_set ttl ready_ids_distinct [OF inv] list.rel_map list_all2_same)
qed

text \<open>The inputs that freeze a bundle resolve to its attachments when these are promoted.\<close>

lemma frozen_inputs_resolve:
  assumes inv: "console_inv s" and fr: "frozen_request s req" and pr: "promoted s req" and ne: "dr_attachment_manifest req \<noteq> []"
    and b: "b = frozen_bundle s0 req0 t0 ttl" and mat: "material_of s (ready_attachments s req) = material_of s0 (ready_attachments s0 req0)"
      "map reference_of (ready_attachments s req) = map reference_of (ready_attachments s0 req0)" "dr_id req0 = dr_id req"
    and q: "aq_tenant_id q = dr_tenant_id req" "aq_instance_id q = draft_instance_id (dr_id req)"
      "as_map (getv (aq_input_snapshot q) ''instance_inputs'') = Some (freeze_map (context_inputs b inputs))"
  shows "frozen_attachments q s = Inr ((dr_id req, cb_fingerprint b, ''attachment''), map reference_of (ready_attachments s req),
    ready_attachments s req, dr_requester_person_id req)"
proof -
  let ?xs = "ready_attachments s req"
  have m: "dr_attachment_manifest req = map reference_of ?xs" using fr by (simp add: frozen_request_def ready_references)
  have xs: "?xs \<noteq> []" using ne m by auto
  then obtain a as where as: "?xs = a # as" by (cases ?xs) auto
  note snd = frozen_attachments_sound [OF inv fr]
  have ok: "\<forall>a \<in> set ?xs. attachment_ok a" using snd(1) by (simp add: sound_for_def)
  have atts: "cb_attachments b = map reference_of ?xs" unfolding b bundle_fields(3) mat(2) ..
  have "attachment_manifest (getv (freeze_map (context_inputs b inputs)) ''project_attachments'') = Inr (map reference_of ?xs)"
    using attachment_manifest_ok [OF ok ready_ids_distinct [OF inv]] context_inputs_get(2) [of b inputs] xs
    unfolding getv_freeze_map atts by simp
  moreover have "cb_sources b = map (source_of \<circ> reference_of) ?xs"
    unfolding b bundle_fields(1) mat(1) [symmetric] by (simp add: material_of_def grown_def empty_material_def)
  then have kinds: "source_kinds b = ''attachment''" by (rule source_kinds_attachments) (rule xs)
  have "context_manifest (getv (freeze_map (context_inputs b inputs)) ''context_manifest'') = Inr (dr_id req, cb_fingerprint b, ''attachment'')"
    unfolding getv_freeze_map context_inputs_get(1)
    using planning_manifest_ok [of b, OF _ _ _ _ _ _ kinds] by (simp add: b bundle_fields mat(3))
  moreover have "resolve_for_agent (aq_tenant_id q) (aq_instance_id q) (map reference_of ?xs) s = Inr ?xs"
    using resolve_promoted [OF inv fr pr] unfolding q m .
  moreover have "list_all (\<lambda>b. ca_origin_request_id b = dr_id req \<and> ca_uploader_person_id b = ca_uploader_person_id a) ?xs"
    unfolding list_all_iff using snd(3,4) as by simp
  moreover have "ca_uploader_person_id a = dr_requester_person_id req" using snd(4) as by simp
  ultimately show ?thesis unfolding frozen_attachments_def using q(3) as by simp
qed

lemma agent_context_available:
  assumes inv: "console_inv s" and fr: "frozen_request s req" and pr: "promoted s req" and ne: "dr_attachment_manifest req \<noteq> []"
    and b: "b = frozen_bundle s0 req0 t0 ttl" and mat: "material_of s (ready_attachments s req) = material_of s0 (ready_attachments s0 req0)"
      "map reference_of (ready_attachments s req) = map reference_of (ready_attachments s0 req0)" "dr_id req0 = dr_id req"
      "dr_tenant_id req0 = dr_tenant_id req"
    and q: "aq_tenant_id q = dr_tenant_id req" "aq_instance_id q = draft_instance_id (dr_id req)"
      "as_map (getv (aq_input_snapshot q) ''instance_inputs'') = Some (freeze_map (context_inputs b inputs))"
      "declares_project_attachments (aq_work_contract q)"
    and nb: "\<not> blank (aq_tenant_id q)" "\<not> blank (aq_instance_id q)" "\<not> blank (aq_owner_person_id q)" "\<not> blank (aq_node_key q)"
      "\<not> blank (aq_attempt_id q)"
    and policy: "ac_model_egress_policy sv = ''allow''" and chars: "bundle_chars b \<le> ac_max_context_chars sv"
  shows "resolve_agent_context sv s now q = Inr (Some (agent_bundle_of s req q now))"
proof -
  let ?xs = "ready_attachments s req"
  have ttl: "(0::int) < AGENT_CONTEXT_TTL" by (simp add: AGENT_CONTEXT_TTL_def)
  have "(\<Sum>a \<leftarrow> ?xs. int (length (text_of s a))) \<le> ac_max_context_chars sv"
    using chars chars_of_material [of b s ?xs] by (simp add: b bundle_fields mat(1))
  then have loop: "foldM (agent_material sv s) (zip (map reference_of ?xs) ?xs) empty_material = Inr (material_of s ?xs)"
    using frozen_attachments_sound(1) [OF inv fr] agent_loop [of "map reference_of ?xs" ?xs s empty_material sv]
    by (simp add: list.rel_map list_all2_same empty_material_def material_of_def)
  have planning: "planning_bundle (aq_tenant_id q) (dr_id req) (dr_requester_person_id req) (map reference_of ?xs) (material_of s ?xs)
      ''internal'' ''allow'' now AGENT_CONTEXT_TTL = Inr (frozen_bundle s req now AGENT_CONTEXT_TTL)"
    unfolding q(1) by (rule frozen_bundle_ok [OF inv fr ne ttl])
  have fp: "cb_fingerprint (frozen_bundle s req now AGENT_CONTEXT_TTL) = cb_fingerprint b"
    unfolding b by (rule frozen_fingerprint [OF mat(1,2) mat(4) [symmetric] mat(3) [symmetric]])
  note res = frozen_inputs_resolve [OF inv fr pr ne b mat(1-3) q(1-3)]
  note ab = agent_bundle_ok [OF inv fr ne nb]
  show ?thesis unfolding resolve_agent_context_def using q(4) policy
    by (simp only: res loop planning fp ab if_False not_True_eq_False rbind.simps ensure_True prod.case fst_conv snd_conv simp_thms)
qed

section \<open>From the freeze to the agent\<close>

lemma console_reachable_good:
  assumes "console_op\<^sup>*\<^sup>* empty_console s"
  shows "console_inv s" "bound_to_own s"
  using console_reachable_inv [OF assms empty_console_inv] console_reachable_bindings [OF assms] empty_console_bound
  by (simp_all add: bindings_kept_def)

lemma later_same:
  assumes "request_later req req'" and "dr_status req \<noteq> R_COLLECTING"
  shows "dr_tenant_id req' = dr_tenant_id req" "dr_id req' = dr_id req" "dr_requester_person_id req' = dr_requester_person_id req"
    "dr_attachment_manifest req' = dr_attachment_manifest req"
  using assms by (simp_all add: request_later_def same_author_def)

lemma planning_materialD:
  assumes "planning_material s a (rs, m) = Inr (rs', m')"
  shows "cm_chars m' = cm_chars m + int (length (text_of s a))" "cm_chars m' \<le> MAX_CONTEXT_BUNDLE_CHARS"
proof -
  obtain t r where t: "checked_content AttachmentContextRejected MAX_CONTEXT_BUNDLE_CHARS s a (cm_chars m) = Inr t"
    and m': "add_material r t m = Inr m'"
    using assms unfolding planning_material_def by (auto simp: rbind_Inr_iff)
  from m' have "cm_chars m' = cm_chars m + int (length t)" unfolding add_material_def by (auto simp: rbind_Inr_iff)
  with checked_contentD(5,6) [OF t] show "cm_chars m' = cm_chars m + int (length (text_of s a))" "cm_chars m' \<le> MAX_CONTEXT_BUNDLE_CHARS"
    by simp_all
qed

lemma planning_loop_chars:
  assumes "foldM (planning_material s) xs (rs, m) = Inr (rs', m')" and "cm_chars m \<le> MAX_CONTEXT_BUNDLE_CHARS"
  shows "cm_chars m + (\<Sum>a \<leftarrow> xs. int (length (text_of s a))) \<le> MAX_CONTEXT_BUNDLE_CHARS"
  using assms
proof (induction xs arbitrary: rs m)
  case (Cons a xs)
  then obtain rs1 m1 where m1: "planning_material s a (rs, m) = Inr (rs1, m1)" "foldM (planning_material s) xs (rs1, m1) = Inr (rs', m')"
    by (auto simp: rbind_Inr_iff)
  from Cons.IH [OF m1(2)] planning_materialD [OF m1(1)] show ?case by simp
qed simp

text \<open>A bundle that was built for a frozen request is its frozen bundle.\<close>

lemma built_bundle:
  assumes inv: "console_inv s" and bound: "bound_to_own s" and fr: "frozen_request s cur" and later: "request_later req cur"
    and req: "dr_status req \<noteq> R_COLLECTING" and b: "build_for_planning sv req now s = Inr (Some b)"
  shows "b = frozen_bundle s cur now CONTEXT_BUNDLE_TTL" "dr_attachment_manifest cur \<noteq> []"
proof -
  let ?xs = "ready_attachments s cur"
  note same = later_same [OF later req]
  obtain xs rm where ne: "dr_attachment_manifest req \<noteq> []" and policy: "pc_model_egress_policy sv = ''allow''"
    and res: "resolve_for_planning req s = Inr xs" and loop: "foldM (planning_material s) xs ([], empty_material) = Inr rm"
    using b unfolding build_for_planning_def by (auto simp: rbind_Inr_iff ensure_Inr_iff split: if_splits)
  show mne: "dr_attachment_manifest cur \<noteq> []" using ne by (simp add: same)
  have owner: "request_owner (dr_tenant_id req) (dr_id req) (dr_requester_person_id req) s = Inr cur"
    using fr unfolding same [symmetric] by (simp add: request_owner_def get_request_for_owner_def frozen_request_def compare_digest_def)
  with res have st: "planning_state (dr_status cur)"
    unfolding resolve_for_planning_def by (auto simp: rbind_Inr_iff ensure_Inr_iff require_planning_state_def planning_state_def)
  from resolve_frozen [OF inv bound fr st later req] res have xs: "xs = ?xs" by simp
  have "total_chars s cur \<le> MAX_CONTEXT_BUNDLE_CHARS"
    using planning_loop_chars [of s xs "[]" empty_material "fst rm" "snd rm"] loop
    by (simp add: total_chars_def xs empty_material_def MAX_CONTEXT_BUNDLE_CHARS_def)
  from planning_available [OF inv bound fr st later req mne policy this, of now] b
  show "b = frozen_bundle s cur now CONTEXT_BUNDLE_TTL" by simp
qed

text \<open>The material of a frozen request stays as it is, whatever happens to the store.\<close>

lemma frozen_material_later:
  assumes "console_op\<^sup>*\<^sup>* s s'" and inv: "console_inv s" and fr: "frozen_request s req"
  obtains req' where "request_later req req'" "frozen_request s' req'" "console_inv s'" "bindings_kept s s'"
    "material_of s' (ready_attachments s' req') = material_of s (ready_attachments s req)"
    "map reference_of (ready_attachments s' req') = map reference_of (ready_attachments s req)"
proof -
  obtain req' where r: "dget (dq_items (cs_drafts s')) (dr_tenant_id req, dr_id req) = Some req'" "request_later req req'" "frozen_request s' req'"
    using assms by (rule frozen_request_later)
  have fr': "dget (dq_items (cs_drafts s)) (dr_tenant_id req, dr_id req) = Some req" "dr_status req \<noteq> R_COLLECTING"
    using fr by (simp_all add: frozen_request_def)
  have step: "frozen_step (dr_tenant_id req) (dr_id req) s s'" using frozen_for_ever [OF assms(1) inv fr'] by (rule conjunct1)
  have "material_of s' (ready_attachments s' req') = material_of s (ready_attachments s req)"
    "map reference_of (ready_attachments s' req') = map reference_of (ready_attachments s req)"
    unfolding later_same [OF r(2) fr'(2)] by (rule frozen_material_kept [OF inv step])+
  with r console_reachable_inv [OF assms(1) inv] console_reachable_bindings [OF assms(1)] that show thesis by blast
qed

lemma promote_op: "promote_attachments req (draft_instance_id (dr_id req)) s = (s', x) \<Longrightarrow> console_op\<^sup>*\<^sup>* s s'"
  using console_op.promote [of s req] by auto

lemma bindings_bound: "bindings_kept s s' \<Longrightarrow> bound_to_own s \<Longrightarrow> bound_to_own s'"
  by (simp add: bindings_kept_def)

text \<open>A frozen request is planned with a bundle, its attachments are promoted, and an agent asks for them.\<close>

lemma agent_material_frozen:
  assumes s0: "console_inv s0" "bound_to_own s0" "frozen_request s0 req" and op1: "console_op\<^sup>*\<^sup>* s0 s1"
    and built: "build_for_planning psv req t1 s1 = Inr (Some b)" and op2: "console_op\<^sup>*\<^sup>* s1 s2"
    and promote: "promote_attachments req (draft_instance_id (dr_id req)) s2 = (s3, Inr ())" and op4: "console_op\<^sup>*\<^sup>* s3 s4"
    and q: "aq_tenant_id q = dr_tenant_id req" "aq_instance_id q = draft_instance_id (dr_id req)"
      "as_map (getv (aq_input_snapshot q) ''instance_inputs'') = Some (freeze_map (context_inputs b inputs))"
      "declares_project_attachments (aq_work_contract q)"
    and nb: "\<not> blank (aq_tenant_id q)" "\<not> blank (aq_instance_id q)" "\<not> blank (aq_owner_person_id q)" "\<not> blank (aq_node_key q)"
      "\<not> blank (aq_attempt_id q)"
    and policy: "ac_model_egress_policy sv = ''allow''" and chars: "bundle_chars b \<le> ac_max_context_chars sv"
  shows "\<exists>req4. resolve_agent_context sv s4 t4 q = Inr (Some (agent_bundle_of s4 req4 q t4)) \<and>
    cb_sources (agent_bundle_of s4 req4 q t4) = cb_sources b \<and> cb_chunks (agent_bundle_of s4 req4 q t4) = cb_chunks b \<and>
    cb_attachments (agent_bundle_of s4 req4 q t4) = cb_attachments b"
proof -
  have rc: "dr_status req \<noteq> R_COLLECTING" using s0(3) by (simp add: frozen_request_def)
  obtain req1 where r1: "request_later req req1" "frozen_request s1 req1" "console_inv s1" "bindings_kept s0 s1"
    by (rule frozen_material_later [OF op1 s0(1,3)])
  note same1 = later_same [OF r1(1) rc]
  from built_bundle [OF r1(3) bindings_bound [OF r1(4) s0(2)] r1(2,1) rc built]
  have b: "b = frozen_bundle s1 req1 t1 CONTEXT_BUNDLE_TTL" and ne: "dr_attachment_manifest req1 \<noteq> []" by blast+
  have op3: "console_op\<^sup>*\<^sup>* s2 s3" by (rule promote_op [OF promote])
  have op: "console_op\<^sup>*\<^sup>* s1 s4" using op2 op3 op4 by (meson rtranclp_trans)
  obtain req4 where r4: "request_later req1 req4" "frozen_request s4 req4" "console_inv s4"
    and mat: "material_of s4 (ready_attachments s4 req4) = material_of s1 (ready_attachments s1 req1)"
      "map reference_of (ready_attachments s4 req4) = map reference_of (ready_attachments s1 req1)"
    by (rule frozen_material_later [OF op r1(3,2)])
  have rc1: "dr_status req1 \<noteq> R_COLLECTING" using r1(2) by (simp add: frozen_request_def)
  note same4 = later_same [OF r4(1) rc1]
  have pr: "promoted s4 req4"
    by (rule promoted_later [OF promote_promotes [OF promote] console_reachable_bindings [OF op4]]) (simp_all add: same1 same4)
  have ne4: "dr_attachment_manifest req4 \<noteq> []" using ne by (simp add: same4)
  have q4: "aq_tenant_id q = dr_tenant_id req4" "aq_instance_id q = draft_instance_id (dr_id req4)" using q(1,2) by (simp_all add: same1 same4)
  have "resolve_agent_context sv s4 t4 q = Inr (Some (agent_bundle_of s4 req4 q t4))"
    by (rule agent_context_available [OF r4(3,2) pr ne4 b mat same4(2) [symmetric] same4(1) [symmetric] q4 q(3,4) nb policy chars])
  moreover have "cb_sources (agent_bundle_of s4 req4 q t4) = cb_sources b" "cb_chunks (agent_bundle_of s4 req4 q t4) = cb_chunks b"
    "cb_attachments (agent_bundle_of s4 req4 q t4) = cb_attachments b"
    by (simp_all add: agent_bundle_of_def sealed_def b bundle_fields mat)
  ultimately show ?thesis by blast
qed

lemma agent_bundle_fields:
  "cb_tenant_id (agent_bundle_of s r q t) = aq_tenant_id q" "cb_scope_id (agent_bundle_of s r q t) = aq_instance_id q"
  "cb_actor_person_id (agent_bundle_of s r q t) = aq_owner_person_id q" "cb_node_key (agent_bundle_of s r q t) = Some (aq_node_key q)"
  "cb_attempt_id (agent_bundle_of s r q t) = Some (aq_attempt_id q)"
  by (simp_all add: agent_bundle_of_def sealed_def)

end
