(* ===== verification/Agent_Context_Theorems.thy ===== *)
theory Agent_Context_Theorems
  imports Frozen_Material
begin

text \<open>
  What a runtime is called with: the bundle consists of the texts of stored attachments, checked against
  their hashes, and the capabilities are those that the bundle needs.
\<close>

section \<open>Chunks and their attachments\<close>

definition readable :: "console_store \<Rightarrow> console_attachment \<Rightarrow> bool" where
  "readable s a \<longleftrightarrow> ca_status a = ''ready'' \<and> ca_revoked_at a = None \<and> ca_data_classification a = ''internal'' \<and>
     ca_model_egress_policy a = ''allow''"

text \<open>The chunk is the stored content of the attachment, whose hash is the recorded one.\<close>

definition text_stored :: "console_store \<Rightarrow> console_attachment \<Rightarrow> context_chunk \<Rightarrow> bool" where
  "text_stored s a c \<longleftrightarrow> (\<exists>bytes. dget (cs_blobs s) (ca_object_key a) = Some bytes \<and> sha256_hex bytes = ca_content_sha256 a \<and>
     utf8_bytes (cc_text c) = Some bytes)"

lemma mk_context_chunk_text: "mk_context_chunk c = Inr c' \<Longrightarrow> cc_text c' = cc_text c"
  unfolding mk_context_chunk_def Let_def by (auto simp: rbind_Inr_iff split: option.splits)

lemma agent_materialD:
  assumes "agent_material sv s (r, a) m = Inr m'"
  obtains c where "cm_chunks m' = cm_chunks m @ [c]" "cm_chars m' = cm_chars m + int (length (cc_text c))" "readable s a" "text_stored s a c"
    "cm_chars m' \<le> ac_max_context_chars sv"
proof -
  obtain t where t: "checked_content AgentContextRejected (ac_max_context_chars sv) s a (cm_chars m) = Inr t" and m': "add_material r t m = Inr m'"
    using assms unfolding agent_material_def by (auto simp: rbind_Inr_iff)
  obtain c where c: "mk_context_chunk \<lparr>cc_source_id = ar_source_id r, cc_order = int (length (cm_chunks m)), cc_text = t, cc_text_sha256 = []\<rparr> = Inr c"
    and chars: "cm_chunks m' = cm_chunks m @ [c]" "cm_chars m' = cm_chars m + int (length t)"
    using m' unfolding add_material_def by (auto simp: rbind_Inr_iff)
  from mk_context_chunk_text [OF c] have ct: "cc_text c = t" by simp
  note d = checked_contentD [OF t]
  from d(7) have "text_stored s a c" unfolding text_stored_def ct by blast
  with that [of c] chars d(1-4,6) show thesis by (simp add: ct readable_def)
qed

definition chunk_chars :: "context_chunk list \<Rightarrow> int" where
  "chunk_chars cs = (\<Sum>c \<leftarrow> cs. int (length (cc_text c)))"

lemma agent_loopD:
  assumes "foldM (agent_material sv s) (zip rs xs) m = Inr m'" and "length rs = length xs" and "cm_chars m \<le> ac_max_context_chars sv"
  obtains cs where "cm_chunks m' = cm_chunks m @ cs" "cm_chars m' = cm_chars m + chunk_chars cs" "cm_chars m' \<le> ac_max_context_chars sv"
    "list_all2 (\<lambda>c a. readable s a \<and> text_stored s a c) cs xs"
  using assms(2,1,3)
proof (induction rs xs arbitrary: m thesis rule: list_induct2)
  case Nil
  from Nil(1) [of "[]"] Nil(2,3) show ?case by (simp add: chunk_chars_def)
next
  case (Cons r rs a xs)
  from Cons.prems(2) obtain m1 where m1: "agent_material sv s (r, a) m = Inr m1" "foldM (agent_material sv s) (zip rs xs) m1 = Inr m'"
    by (auto simp: rbind_Inr_iff)
  obtain c where c: "cm_chunks m1 = cm_chunks m @ [c]" "cm_chars m1 = cm_chars m + int (length (cc_text c))" "readable s a" "text_stored s a c"
    "cm_chars m1 \<le> ac_max_context_chars sv"
    using m1(1) by (rule agent_materialD)
  obtain cs where "cm_chunks m' = cm_chunks m1 @ cs" "cm_chars m' = cm_chars m1 + chunk_chars cs" "cm_chars m' \<le> ac_max_context_chars sv"
    "list_all2 (\<lambda>c a. readable s a \<and> text_stored s a c) cs xs"
    by (rule Cons.IH [OF _ m1(2) c(5)])
  with c Cons.prems(1) [of "c # cs"] show ?case by (simp add: chunk_chars_def)
qed

lemma dget_fold_dput: "dget (fold (\<lambda>a. dput (f a) a) xs d) k = Some a \<Longrightarrow> a \<in> set xs \<or> dget d k = Some a"
proof (induction xs arbitrary: d)
  case (Cons x xs)
  from Cons.IH [of "dput (f x) x d"] Cons.prems show ?case by (auto simp: dget_dput split: if_splits)
qed simp

lemma dget_by_attachment_idD: "dget (by_attachment_id xs) k = Some a \<Longrightarrow> a \<in> set xs"
  using dget_fold_dput [of ca_attachment_id xs "[]"] by (auto simp: by_attachment_id_def)

lemma list_all2_member: "list_all2 P xs ys \<Longrightarrow> y \<in> set ys \<Longrightarrow> \<exists>x \<in> set xs. P x y"
  by (induction rule: list_all2_induct) auto

lemma list_all2_member': "list_all2 P xs ys \<Longrightarrow> x \<in> set xs \<Longrightarrow> \<exists>y \<in> set ys. P x y"
  by (induction rule: list_all2_induct) auto

text \<open>What resolves for an agent is stored for its tenant and bound to its instance.\<close>

lemma resolve_for_agentD:
  assumes "resolve_for_agent tenant iid manifest s = Inr xs" and "a \<in> set xs"
  shows "a \<in> set (map snd (cs_attachments s))" "ca_tenant_id a = tenant" "ca_instance_id a = Some iid"
proof -
  let ?P = "\<lambda>a. ca_tenant_id a = tenant \<and> ca_instance_id a = Some iid \<and> ca_attachment_id a \<in> set (map ar_attachment_id manifest)"
  let ?ys = "filter ?P (map snd (cs_attachments s))"
  have "mapM (manifest_record (by_attachment_id ?ys) iid True) manifest = Inr xs"
    using assms(1) unfolding resolve_for_agent_def ordered_manifest_records_def by (auto simp: rbind_Inr_iff)
  then have "list_all2 (\<lambda>r a. manifest_record (by_attachment_id ?ys) iid True r = Inr a) manifest xs" by (simp only: mapM_Inr_iff)
  from list_all2_member [OF this assms(2)] obtain r where "manifest_record (by_attachment_id ?ys) iid True r = Inr a" by (elim bexE)
  then have "dget (by_attachment_id ?ys) (ar_attachment_id r) = Some a"
    unfolding manifest_record_def by (auto simp only: rbind_Inr_iff get_or_raise_Inr_iff)
  then have "a \<in> set ?ys" by (rule dget_by_attachment_idD)
  then have "a \<in> set (map snd (cs_attachments s)) \<and> ?P a" unfolding set_filter by blast
  then show "a \<in> set (map snd (cs_attachments s))" "ca_tenant_id a = tenant" "ca_instance_id a = Some iid" by blast+
qed

lemma mk_context_bundle_same: "mk_context_bundle b = Inr b' \<Longrightarrow> b' = sealed b"
  unfolding mk_context_bundle_def Let_def sealed_def by (simp add: rbind_Inr_iff)

text \<open>The bundle of an agent.\<close>

definition stored_text :: "string \<Rightarrow> string \<Rightarrow> console_store \<Rightarrow> context_chunk \<Rightarrow> bool" where
  "stored_text tenant iid s c \<longleftrightarrow> (\<exists>a \<in> set (map snd (cs_attachments s)). ca_tenant_id a = tenant \<and> ca_instance_id a = Some iid \<and>
     readable s a \<and> text_stored s a c)"

lemma resolved_bundle:
  assumes "resolve_agent_context sv s now q = Inr (Some b)" and "1 \<le> ac_max_context_chars sv"
  shows "declares_project_attachments (aq_work_contract q)" "ac_model_egress_policy sv = ''allow''"
    "bundle_chars b \<le> ac_max_context_chars sv" "\<forall>c \<in> set (cb_chunks b). stored_text (aq_tenant_id q) (aq_instance_id q) s c"
    "cb_enterprise_knowledge b = []" "cb_attachments b \<noteq> []"
proof -
  show "declares_project_attachments (aq_work_contract q)" "ac_model_egress_policy sv = ''allow''"
    using assms(1) unfolding resolve_agent_context_def by (auto simp: rbind_Inr_iff ensure_Inr_iff split: if_splits)
  obtain manifest references xs person m where
    f: "frozen_attachments q s = Inr (manifest, references, xs, person)"
    and loop: "foldM (agent_material sv s) (zip references xs) empty_material = Inr m" and b: "agent_bundle q references m now = Inr b"
    using assms(1) unfolding resolve_agent_context_def by (auto simp: rbind_Inr_iff split: if_splits)
  from f have res: "unless_context_rejected (resolve_for_agent (aq_tenant_id q) (aq_instance_id q) references s) = Inr xs"
    and len: "length xs = length references" and ne: "references \<noteq> []"
    unfolding frozen_attachments_def by (auto simp: rbind_Inr_iff ensure_Inr_iff neq_Nil_conv split: list.split_asm)
  have xs: "resolve_for_agent (aq_tenant_id q) (aq_instance_id q) references s = Inr xs"
  proof (cases "resolve_for_agent (aq_tenant_id q) (aq_instance_id q) references s")
    case (Inl e)
    with res show ?thesis by (cases e) simp_all
  qed (use res in simp)
  have chunks: "cb_chunks b = cm_chunks m" "cb_enterprise_knowledge b = []" "cb_attachments b = references"
    using mk_context_bundle_same [OF b [unfolded agent_bundle_def]] by (simp_all add: sealed_def)
  then show "cb_enterprise_knowledge b = []" "cb_attachments b \<noteq> []" using ne by simp_all
  obtain cs where cs: "cm_chunks m = cm_chunks empty_material @ cs" "cm_chars m = cm_chars empty_material + chunk_chars cs"
    "cm_chars m \<le> ac_max_context_chars sv" "list_all2 (\<lambda>c a. readable s a \<and> text_stored s a c) cs xs"
    using loop len [symmetric] by (rule agent_loopD) (use assms(2) in \<open>simp_all add: empty_material_def\<close>)
  show "bundle_chars b \<le> ac_max_context_chars sv"
    using cs(1-3) by (simp add: bundle_chars_def chunks chunk_chars_def empty_material_def)
  show "\<forall>c \<in> set (cb_chunks b). stored_text (aq_tenant_id q) (aq_instance_id q) s c"
  proof
    fix c
    assume "c \<in> set (cb_chunks b)"
    then have "c \<in> set cs" using cs(1) by (simp add: chunks empty_material_def)
    from list_all2_member' [OF cs(4) this] obtain a where a: "a \<in> set xs" "readable s a" "text_stored s a c" by (elim bexE conjE)
    with resolve_for_agentD [OF xs a(1)] show "stored_text (aq_tenant_id q) (aq_instance_id q) s c" unfolding stored_text_def by blast
  qed
qed

end
