(* ===== verification/Draft_Worker_Theorems.thy ===== *)
theory Draft_Worker_Theorems
  imports Frozen_Material
begin

text \<open>
  The draft worker among the others: whatever the planner returns and whatever owners and other workers do
  to the console store between two calls, a tick consists of operations on the store and of commands of the
  workflow service, and its report accounts for every claim.
\<close>

section \<open>Steps of a process\<close>

definition console_others :: "console_world \<Rightarrow> bool" where
  "console_others kw \<longleftrightarrow> (\<forall>n s. console_op\<^sup>*\<^sup>* s (kw_others kw n s))"

text \<open>From one state of the process to a later one.\<close>

abbreviation on_record :: "draft_process \<Rightarrow> bool" where
  "on_record st \<equiv> history (sh_states (dp_shared st))"

definition moves :: "draft_process \<Rightarrow> draft_process \<Rightarrow> bool" where
  "moves st st' \<longleftrightarrow> console_op\<^sup>*\<^sup>* (kz_store (dp_console st)) (kz_store (dp_console st')) \<and>
     (on_record st \<longrightarrow> on_record st' \<and>
        set (sh_states (dp_shared st)) \<subseteq> set (sh_states (dp_shared st')))"

lemma moves_refl [simp]: "moves st st"
  by (simp add: moves_def)

lemma moves_record: "moves st st' \<Longrightarrow> on_record st \<Longrightarrow> on_record st'"
  by (simp add: moves_def)

lemma moves_trans: "moves a b \<Longrightarrow> moves b c \<Longrightarrow> moves a c"
  unfolding moves_def by (meson order_trans rtranclp_trans)

definition step_moves :: "'a process_step \<Rightarrow> bool" where
  "step_moves f \<longleftrightarrow> (\<forall>st. on_record st \<longrightarrow> moves st (fst (f st)))"

lemma step_movesD: "step_moves f \<Longrightarrow> f st = (st', x) \<Longrightarrow> on_record st \<Longrightarrow> moves st st'"
  unfolding step_moves_def by (metis fst_conv)

lemma step_moves_pure [intro!]: "step_moves (pure_step x)"
  by (simp add: step_moves_def pure_step_def)

lemma step_moves_sbind [intro]:
  assumes "step_moves f" and "\<And>x. step_moves (g x)"
  shows "step_moves (sbind f g)"
  unfolding step_moves_def
proof (intro allI impI)
  fix st
  assume rec: "on_record st"
  obtain st1 r where f: "f st = (st1, r)" by fastforce
  from step_movesD [OF assms(1) f rec] have m: "moves st st1" .
  from moves_record [OF m rec] f assms(2) m show "moves st (fst (sbind f g st))"
    by (cases r) (auto simp: sbind_def step_moves_def intro: moves_trans)
qed

lemma sbindE:
  assumes "sbind f g st = (st', Inr y)"
  obtains st1 x where "f st = (st1, Inr x)" "g x st1 = (st', Inr y)"
proof -
  obtain st1 r where f: "f st = (st1, r)" by fastforce
  with assms that show thesis by (cases r) (simp_all add: sbind_def)
qed

lemma step_moves_console:
  assumes others: "console_others kw" and op: "\<And>env s. console_op\<^sup>*\<^sup>* s (fst (f env s))"
  shows "step_moves (on_console kw f)"
proof -
  have "console_op\<^sup>*\<^sup>* (kz_store s) (kz_store (fst (console_call kw f s)))" for s
    using rtranclp_trans [OF others [unfolded console_others_def, rule_format] op] by (simp add: console_call_def Let_def)
  then show ?thesis by (simp add: step_moves_def moves_def on_console_def Let_def)
qed

lemma step_moves_reading: "console_others kw \<Longrightarrow> step_moves (on_console kw (\<lambda>env. reading (f env)))"
  by (rule step_moves_console) (simp_all add: reading_def)

lemma step_moves_drafts:
  assumes "console_others kw" and "\<And>env dq dq' x. f env dq = Inr (dq', x) \<Longrightarrow> drafts_op dq dq'"
  shows "step_moves (on_console kw (\<lambda>env. on_drafts (f env)))"
proof (rule step_moves_console [OF assms(1)])
  fix env s
  show "console_op\<^sup>*\<^sup>* s (fst (on_drafts (f env) s))"
  proof (cases "f env (cs_drafts s)")
    case (Inr p)
    obtain dq x where p: "p = (dq, x)" by (cases p)
    from console_op.drafts [OF assms(2) [OF Inr [unfolded p]]] Inr p show ?thesis by (auto simp: on_drafts_def)
  qed (simp add: on_drafts_def)
qed

lemma on_draftsE:
  assumes "on_console kw (\<lambda>env. on_drafts (f env)) st = (st', Inr x)"
  obtains env s dq where "f env (cs_drafts s) = Inr (dq, x)" "kz_store (dp_console st') = s\<lparr>cs_drafts := dq\<rparr>"
    "s = kw_others kw (kz_turn (dp_console st)) (kz_store (dp_console st))" "dp_shared st' = dp_shared st"
proof -
  let ?env = "kw_env kw (kz_turn (dp_console st) + 1)"
  let ?s = "kw_others kw (kz_turn (dp_console st)) (kz_store (dp_console st))"
  obtain dq where dq: "f ?env (cs_drafts ?s) = Inr (dq, x)"
    using assms by (auto simp: on_console_def console_call_def on_drafts_def Let_def split: sum.splits)
  have "kz_store (dp_console st') = ?s\<lparr>cs_drafts := dq\<rparr>" "dp_shared st' = dp_shared st"
    using assms dq by (auto simp: on_console_def console_call_def on_drafts_def Let_def)
  with that [of ?env ?s dq] dq show thesis by simp
qed

lemma step_moves_generation:
  assumes "step_moves repair"
  shows "on_record st \<Longrightarrow> moves st (fst (run_generation g repair st))"
proof (induction g arbitrary: st)
  case (Repair k)
  have m: "moves st (fst (repair st))" using assms Repair.prems by (simp add: step_moves_def)
  with Repair.IH moves_record [OF m Repair.prems] show ?case by (auto intro: moves_trans)
qed simp

section \<open>The steps of the worker\<close>

lemma repair_moves: "console_others kw \<Longrightarrow> step_moves (repair_step kw wk claim)"
  unfolding repair_step_def by (rule step_moves_drafts) (assumption, rule drafts_op.repair)

lemma active_moves: "console_others kw \<Longrightarrow> step_moves (claim_active kw wk claim)"
  unfolding claim_active_def by (rule step_moves_reading)

lemma context_moves: "console_others kw \<Longrightarrow> step_moves (claim_context kw wk req)"
  unfolding claim_context_def by (auto split: option.split intro: step_moves_reading)

lemma candidate_moves:
  assumes "console_others kw"
  shows "step_moves (candidate_step kw wk claim b)"
proof -
  have "step_moves (generate_step kw wk claim b)"
    unfolding step_moves_def generate_step_def using step_moves_generation [OF repair_moves [OF assms]] by blast
  moreover have "step_moves (on_console kw (\<lambda>env. on_drafts (save_candidate tenant rid token document (ke_now env))))" for tenant rid token document
    by (rule step_moves_drafts [OF assms]) (rule drafts_op.keep)
  ultimately show ?thesis unfolding candidate_step_def Let_def
    by (cases "dr_definition (dc_request claim)") (simp_all add: step_moves_pure step_moves_sbind active_moves [OF assms])
qed

text \<open>The workflow has the id of the request, belongs to the requester and has the snapshot of the draft.\<close>

definition workflow_made :: "draft_worker \<Rightarrow> draft_request \<Rightarrow> instance_snapshot \<Rightarrow> shared \<Rightarrow> bool" where
  "workflow_made wk req snapshot sh \<longleftrightarrow> (\<exists>r \<in> set (sh_states sh). \<exists>w. repo_get r (kd_tenant_id wk) (draft_instance_id (dr_id req)) = Inr w \<and>
     wi_owner_person_id w = dr_requester_person_id req \<and> (wi_snapshot w = snapshot \<or> snapshot_eq (wi_snapshot w) snapshot))"

lemma stored_id: "history rs \<Longrightarrow> r \<in> set rs \<Longrightarrow> repo_get r tenant iid = Inr w \<Longrightarrow> wi_id w = iid"
  using repo_invD(1) [OF history_repo_inv] by (fastforce simp: repo_get_def get_or_raise_Inr_iff)

lemma unless_missing_Inr: "unless_missing x = Inr y \<longleftrightarrow> x = Inr y"
proof (cases x)
  case (Inl e)
  then show ?thesis by (cases e) simp_all
qed simp

lemma find_existing_made:
  assumes "find_existing wd wk req snapshot sh = (sh', x)" and "others_are_commands wd" "history (sh_states sh)"
  shows "history (sh_states sh')" "set (sh_states sh) \<subseteq> set (sh_states sh')"
    and "x = Inr iid \<Longrightarrow> iid = draft_instance_id (dr_id req) \<and> workflow_made wk req snapshot sh'"
proof -
  obtain env r where r: "x = rbind (unless_missing (repo_get r (kd_tenant_id wk) (draft_instance_id (dr_id req)))) (\<lambda>w.
     rbind (ensure (wi_owner_person_id w = dr_requester_person_id req \<and> snapshot_eq (wi_snapshot w) snapshot)
              (ConsoleDraftConflictError ''existing_draft_mismatch'')) (\<lambda>_. Inr (wi_id w)))" "r \<in> set (sh_states sh')"
    "history (sh_states sh')" "set (sh_states sh) \<subseteq> set (sh_states sh')"
    using assms unfolding find_existing_def by (rule shared_readE)
  then show "history (sh_states sh')" "set (sh_states sh) \<subseteq> set (sh_states sh')" by blast+
  assume "x = Inr iid"
  then obtain w where w: "repo_get r (kd_tenant_id wk) (draft_instance_id (dr_id req)) = Inr w"
      "wi_owner_person_id w = dr_requester_person_id req" "snapshot_eq (wi_snapshot w) snapshot" "iid = wi_id w"
    using r(1) by (auto simp: rbind_Inr_iff ensure_Inr_iff unless_missing_Inr)
  with stored_id [OF r(3,2) w(1)] r(2) show "iid = draft_instance_id (dr_id req) \<and> workflow_made wk req snapshot sh'"
    unfolding workflow_made_def by blast
qed

lemma create_draft_instance:
  assumes "create_draft env r' iid tenant owner snapshot actor corr = Inr (r1, w)"
  shows "repo_get r1 tenant iid = Inr w" "wi_owner_person_id w = owner" "wi_snapshot w = snapshot" "wi_id w = iid"
proof -
  let ?w = "new_instance iid tenant owner snapshot (env_now env)"
  obtain audits where add: "repo_add r' ?w audits [] = Inr r1" and get: "repo_get r1 tenant iid = Inr w"
    using assms unfolding create_draft_def Let_def
    by (elim rbindE) (auto simp: rbind_Inr_iff split: prod.splits)
  then have "w = ?w"
    by (auto simp: repo_add_def rbind_Inr_iff ensure_Inr_iff repo_get_def get_or_raise_Inr_iff dget_dput new_instance_def)
  with get show "repo_get r1 tenant iid = Inr w" "wi_owner_person_id w = owner" "wi_snapshot w = snapshot" "wi_id w = iid"
    by (simp_all add: new_instance_def)
qed

lemma shared_command_kept:
  assumes "shared_command wd f sh = (sh', y)" and "others_are_commands wd" and "history (sh_states sh)"
  shows "set (sh_states sh) \<subseteq> set (sh_states sh')"
proof -
  note h1 = others_run_history [OF assms(2,3)]
  note h2 = others_run_history [OF assms(2) conjunct1 [OF h1]]
  have "set (sh_states (others_run wd (others_run wd sh))) \<subseteq> set (sh_states sh')"
    using assms(1) by (auto simp: shared_command_def Let_def split: sum.splits)
  with h1 h2 show ?thesis by blast
qed

lemma create_instance_made:
  assumes "create_instance wd wk req snapshot sh = (sh', x)" and "others_are_commands wd" "history (sh_states sh)"
  shows "history (sh_states sh') \<and> set (sh_states sh) \<subseteq> set (sh_states sh') \<and>
    (\<forall>iid. x = Inr iid \<longrightarrow> iid = draft_instance_id (dr_id req) \<and> workflow_made wk req snapshot sh')"
proof -
  let ?cmd = "\<lambda>env r r'. create_draft env r' (draft_instance_id (dr_id req)) (kd_tenant_id wk)
             (dr_requester_person_id req) snapshot (dr_requester_person_id req) (Some (dr_id req))"
  obtain sh1 y where c: "shared_command wd ?cmd sh = (sh1, y)" by fastforce
  have cmd: "?cmd env r r' = Inr (r1, w) \<Longrightarrow> command r r' r1" for env r r' r1 w by (rule command.intros(1))
  have h1: "history (sh_states sh1)" using shared_command_history [OF assms(2,3) cmd, of ?cmd] c by simp
  show ?thesis
  proof (cases y)
    case (Inr w)
    obtain env r r' r1 where e: "create_draft env r' (draft_instance_id (dr_id req)) (kd_tenant_id wk)
             (dr_requester_person_id req) snapshot (dr_requester_person_id req) (Some (dr_id req)) = Inr (r1, w)"
        "r1 \<in> set (sh_states sh1)" "set (sh_states sh) \<subseteq> set (sh_states sh1)"
      using c [unfolded Inr] assms(2,3) cmd by (rule shared_commandE)
    have "sh' = sh1" "x = Inr (wi_id w)" using assms(1) c Inr by (simp_all add: create_instance_def)
    with create_draft_instance [OF e(1)] e(2,3) h1 show ?thesis unfolding workflow_made_def by blast
  next
    case (Inl e)
    have s1: "set (sh_states sh) \<subseteq> set (sh_states sh1)" by (rule shared_command_kept [OF c assms(2,3)])
    show ?thesis
    proof (cases "already_exists e")
      case True
      then have "find_existing wd wk req snapshot sh1 = (sh', x)" using assms(1) c Inl by (simp add: create_instance_def)
      note f = find_existing_made [OF this assms(2) h1]
      from f(1,2) f(3) s1 show ?thesis by blast
    next
      case False
      then have "sh' = sh1" "x = Inl e" using assms(1) c Inl by (simp_all add: create_instance_def)
      with h1 s1 show ?thesis by simp
    qed
  qed
qed

lemma instance_moves:
  assumes "others_are_commands wd"
  shows "step_moves (on_repository (create_instance wd wk req snapshot))"
  unfolding step_moves_def
proof (intro allI impI)
  fix st :: draft_process
  obtain sh x where c: "create_instance wd wk req snapshot (dp_shared st) = (sh, x)" by fastforce
  show "moves st (fst (on_repository (create_instance wd wk req snapshot) st))"
    using create_instance_made [OF c assms] by (auto simp: moves_def on_repository_def Let_def c)
qed

lemma instance_id:
  assumes "on_repository (create_instance wd wk req snapshot) st = (st', Inr iid)" and "others_are_commands wd"
    and "history (sh_states (dp_shared st))"
  shows "iid = draft_instance_id (dr_id req)" "workflow_made wk req snapshot (dp_shared st')"
proof -
  obtain sh x where c: "create_instance wd wk req snapshot (dp_shared st) = (sh, x)" by fastforce
  with assms(1) have "x = Inr iid" "dp_shared st' = sh" by (auto simp: on_repository_def Let_def)
  with create_instance_made [OF c assms(2,3)]
  show "iid = draft_instance_id (dr_id req)" "workflow_made wk req snapshot (dp_shared st')" by simp_all
qed

lemma promote_moves:
  assumes "console_others kw"
  shows "step_moves (promote_step kw req (draft_instance_id (dr_id req)) b)"
proof -
  have "step_moves (on_console kw (\<lambda>_. promote_attachments req (draft_instance_id (dr_id req))))"
    by (rule step_moves_console [OF assms]) (rule r_into_rtranclp, rule console_op.promote)
  then show ?thesis by (simp add: promote_step_def step_moves_pure)
qed

text \<open>What is made does not go away.\<close>

lemma workflow_made_later: "workflow_made wk req snapshot sh \<Longrightarrow> set (sh_states sh) \<subseteq> set (sh_states sh') \<Longrightarrow> workflow_made wk req snapshot sh'"
  unfolding workflow_made_def by blast

section \<open>One claim\<close>

text \<open>The rest of a claim once the definition is there.\<close>

definition finish_claim ::
    "console_world \<Rightarrow> world \<Rightarrow> draft_worker \<Rightarrow> draft_claim \<Rightarrow> context_bundle option \<Rightarrow> draft_request \<Rightarrow> pmap \<Rightarrow> unit process_step" where
  "finish_claim kw wd wk claim b req document =
     sbind (pure_step (draft_snapshot req document b)) (\<lambda>snapshot.
     sbind (on_repository (create_instance wd wk req snapshot)) (\<lambda>iid.
     sbind (promote_step kw req iid b) (\<lambda>_.
     on_console kw (\<lambda>env. on_drafts (mark_draft_ready (kd_tenant_id wk) (dr_id req) (dc_claim_token claim) iid (ke_now env))))))"

lemma apply_claim_finish:
  "apply_draft_claim kw wd wk claim =
     sbind (claim_active kw wk claim) (\<lambda>_.
     sbind (claim_context kw wk (dc_request claim)) (\<lambda>b.
     sbind (claim_active kw wk claim) (\<lambda>_.
     sbind (candidate_step kw wk claim b) (\<lambda>(req, document). finish_claim kw wd wk claim b req document))))"
  unfolding apply_draft_claim_def finish_claim_def ..

lemma ready_moves: "console_others kw \<Longrightarrow>
    step_moves (on_console kw (\<lambda>env. on_drafts (mark_draft_ready tenant rid token iid (ke_now env))))"
  by (rule step_moves_drafts) (assumption, rule drafts_op.ready)

lemma finish_moves:
  assumes "console_others kw" and "others_are_commands wd"
  shows "step_moves (finish_claim kw wd wk claim b req document)"
  unfolding step_moves_def
proof (intro allI impI)
  fix st
  assume rec: "on_record st"
  show "moves st (fst (finish_claim kw wd wk claim b req document st))"
  proof (cases "draft_snapshot req document b")
    case (Inl e)
    then show ?thesis by (simp add: finish_claim_def sbind_def pure_step_def)
  next
    case snapshot: (Inr snapshot)
    obtain st1 r where c: "on_repository (create_instance wd wk req snapshot) st = (st1, r)" by fastforce
    have m1: "moves st st1" by (rule step_movesD [OF instance_moves [OF assms(2)] c rec])
    show ?thesis
    proof (cases r)
      case (Inl e)
      with m1 c snapshot show ?thesis by (simp add: finish_claim_def sbind_def pure_step_def)
    next
      case (Inr iid)
      let ?rest = "sbind (promote_step kw req iid b) (\<lambda>_.
          on_console kw (\<lambda>env. on_drafts (mark_draft_ready (kd_tenant_id wk) (dr_id req) (dc_claim_token claim) iid (ke_now env))))"
      have iid: "iid = draft_instance_id (dr_id req)" by (rule instance_id [OF c [unfolded Inr] assms(2) rec])
      have "step_moves ?rest" unfolding iid by (intro step_moves_sbind promote_moves ready_moves assms(1))
      then have "moves st1 (fst (?rest st1))" using moves_record [OF m1 rec] by (simp add: step_moves_def)
      from moves_trans [OF m1 this] c Inr snapshot show ?thesis by (simp add: finish_claim_def sbind_def pure_step_def split: prod.splits)
    qed
  qed
qed

lemma apply_moves:
  assumes "console_others kw" and "others_are_commands wd"
  shows "step_moves (apply_draft_claim kw wd wk claim)"
  unfolding apply_claim_finish
  by (intro step_moves_sbind active_moves context_moves candidate_moves assms) (simp add: finish_moves [OF assms] split: prod.split)

section \<open>A tick\<close>

text \<open>The counters of a report: each claim that was worked on has one outcome, each failure an error.\<close>

definition tally :: "draft_report \<Rightarrow> nat" where
  "tally p = dt_processed p + dt_rejected p + dt_failed p + dt_canceled p"

definition counts_one :: "draft_report \<Rightarrow> draft_report process_step \<Rightarrow> bool" where
  "counts_one p f \<longleftrightarrow> (\<forall>st st' p'. f st = (st', Inr p') \<longrightarrow>
     tally p' = tally p + 1 \<and> dt_claimed p' = dt_claimed p \<and>
     (length (dt_errors p) = dt_failed p \<longrightarrow> length (dt_errors p') = dt_failed p'))"

lemma unless_canceled_counts: "counts_one p (unless_canceled kw wk req p e)"
  unfolding counts_one_def unless_canceled_def
  by (auto elim!: sbindE simp: pure_step_def tally_def split: if_splits)

lemma mark_or_canceled_counts:
  assumes "tally p' = tally p + 1" "dt_claimed p' = dt_claimed p" "length (dt_errors p) = dt_failed p \<Longrightarrow> length (dt_errors p') = dt_failed p'"
  shows "counts_one p (mark_or_canceled kw wk req step p p')"
  using assms unless_canceled_counts [of p kw wk req]
  by (auto simp: counts_one_def mark_or_canceled_def split: prod.splits sum.splits)

lemma reject_counts: "counts_one p (reject_claim kw wk claim p e)"
  unfolding reject_claim_def Let_def by (auto intro!: mark_or_canceled_counts simp: tally_def split: prod.split)

lemma fail_counts: "counts_one p (fail_claim kw wk claim p e)"
  unfolding fail_claim_def Let_def by (rule mark_or_canceled_counts) (simp_all add: tally_def)

lemma work_claim_counts: "counts_one p (work_draft_claim kw wd wk claim p)"
  unfolding counts_one_def
proof (intro allI impI)
  fix st st' p'
  assume w: "work_draft_claim kw wd wk claim p st = (st', Inr p')"
  obtain st1 r where a: "apply_draft_claim kw wd wk claim st = (st1, r)" by fastforce
  show "tally p' = tally p + 1 \<and> dt_claimed p' = dt_claimed p \<and>
     (length (dt_errors p) = dt_failed p \<longrightarrow> length (dt_errors p') = dt_failed p')"
  proof (cases r)
    case (Inr u)
    with w a show ?thesis by (auto simp: work_draft_claim_def tally_def)
  next
    case (Inl e)
    with w a show ?thesis
      using reject_counts [of p kw wk claim e] unless_canceled_counts [of p kw wk "dc_request claim" e] fail_counts [of p kw wk claim e]
      by (simp add: work_draft_claim_def counts_one_def split: if_splits)
  qed
qed

lemma work_claims_counts:
  "work_draft_claims kw wd wk claims p st = (st', Inr p') \<Longrightarrow>
     tally p' = tally p + length claims \<and> dt_claimed p' = dt_claimed p \<and>
     (length (dt_errors p) = dt_failed p \<longrightarrow> length (dt_errors p') = dt_failed p')"
proof (induction claims arbitrary: p st)
  case Nil
  then show ?case by (simp add: pure_step_def)
next
  case (Cons claim claims)
  from Cons.prems obtain st1 p1 where p1: "work_draft_claim kw wd wk claim p st = (st1, Inr p1)"
    "work_draft_claims kw wd wk claims p1 st1 = (st', Inr p')" unfolding work_draft_claims.simps by (rule sbindE)
  from Cons.IH [OF p1(2)] work_claim_counts [of p kw wd wk claim, unfolded counts_one_def, rule_format, OF p1(1)] show ?case by auto
qed

lemma reject_moves: "console_others kw \<Longrightarrow>
    step_moves (on_console kw (\<lambda>env. on_drafts (mark_rejected tenant rid token err code labels (ke_now env))))"
  by (rule step_moves_drafts) (assumption, rule drafts_op.reject)

lemma fail_moves: "console_others kw \<Longrightarrow>
    step_moves (on_console kw (\<lambda>env. on_drafts (mark_failed tenant rid token err code (ke_now env) (ke_now env + delay) exhausted)))"
  by (rule step_moves_drafts) (assumption, rule drafts_op.fail)

lemma unless_canceled_moves: "console_others kw \<Longrightarrow> step_moves (unless_canceled kw wk req p e)"
  unfolding unless_canceled_def was_canceled_def by (simp add: step_moves_sbind step_moves_reading step_moves_pure)

lemma mark_or_canceled_moves:
  assumes "console_others kw" and "step_moves step"
  shows "step_moves (mark_or_canceled kw wk req step p p')"
  unfolding step_moves_def
proof (intro allI impI)
  fix st
  assume rec: "on_record st"
  obtain st1 r where f: "step st = (st1, r)" by fastforce
  have m: "moves st st1" by (rule step_movesD [OF assms(2) f rec])
  show "moves st (fst (mark_or_canceled kw wk req step p p' st))"
  proof (cases r)
    case (Inl e)
    have "moves st1 (fst (unless_canceled kw wk req p e st1))"
      using unless_canceled_moves [OF assms(1)] moves_record [OF m rec] by (simp add: step_moves_def)
    from moves_trans [OF m this] Inl f show ?thesis by (simp add: mark_or_canceled_def)
  qed (use m f in \<open>simp add: mark_or_canceled_def\<close>)
qed

lemma work_claim_moves:
  assumes "console_others kw" and "others_are_commands wd"
  shows "step_moves (work_draft_claim kw wd wk claim p)"
  unfolding step_moves_def
proof (intro allI impI)
  fix st
  assume rec: "on_record st"
  obtain st1 r where f: "apply_draft_claim kw wd wk claim st = (st1, r)" by fastforce
  have m: "moves st st1" by (rule step_movesD [OF apply_moves [OF assms] f rec])
  have "step_moves (reject_claim kw wk claim p e)" "step_moves (fail_claim kw wk claim p e)"
    "step_moves (unless_canceled kw wk (dc_request claim) p e)" for e
    unfolding reject_claim_def fail_claim_def Let_def
    by (simp_all add: mark_or_canceled_moves assms(1) reject_moves fail_moves unless_canceled_moves split: prod.split)
  then have "moves st1 (fst (reject_claim kw wk claim p e st1))" "moves st1 (fst (fail_claim kw wk claim p e st1))"
    "moves st1 (fst (unless_canceled kw wk (dc_request claim) p e st1))" for e
    using moves_record [OF m rec] by (simp_all add: step_moves_def)
  with moves_trans [OF m] m f show "moves st (fst (work_draft_claim kw wd wk claim p st))"
    by (cases r) (simp_all add: work_draft_claim_def)
qed

lemma work_claims_moves:
  assumes "console_others kw" and "others_are_commands wd"
  shows "step_moves (work_draft_claims kw wd wk claims p)"
  by (induction claims arbitrary: p) (simp_all add: step_moves_pure step_moves_sbind work_claim_moves [OF assms])

lemma tick_moves:
  assumes "console_others kw" and "others_are_commands wd"
  shows "step_moves (draft_run_once kw wd wk)"
  unfolding draft_run_once_def
  by (intro step_moves_sbind step_moves_drafts [OF assms(1)] work_claims_moves [OF assms]) (rule drafts_op.claim)

lemma tick_counts:
  assumes "draft_run_once kw wd wk st = (st', Inr p)"
  shows "dt_claimed p = tally p" "length (dt_errors p) = dt_failed p" "dt_claimed p \<le> nat (kd_claim_limit wk)"
proof -
  obtain st1 claims where c: "on_console kw (\<lambda>env. on_drafts (claim_drafts (ke_tokens env) (kd_tenant_id wk) (kd_worker_id wk) (ke_now env)
        (kd_claim_limit wk) (kd_claim_ttl wk))) st = (st1, Inr claims)"
    and w: "work_draft_claims kw wd wk claims
        \<lparr>dt_claimed = length claims, dt_processed = 0, dt_rejected = 0, dt_failed = 0, dt_canceled = 0, dt_errors = []\<rparr> st1 = (st', Inr p)"
    using assms unfolding draft_run_once_def by (rule sbindE)
  from work_claims_counts [OF w] show "dt_claimed p = tally p" "length (dt_errors p) = dt_failed p" by (simp_all add: tally_def)
  from c obtain env :: console_env and s :: console_store and dq :: draft_repo where "claim_drafts (ke_tokens env) (kd_tenant_id wk) (kd_worker_id wk) (ke_now env)
        (kd_claim_limit wk) (kd_claim_ttl wk) (cs_drafts s) = Inr (dq, claims)" by (rule on_draftsE)
  then have "length claims \<le> nat (kd_claim_limit wk)" by (auto simp: claim_drafts_def rbind_Inr_iff Let_def)
  with work_claims_counts [OF w] show "dt_claimed p \<le> nat (kd_claim_limit wk)" by simp
qed

section \<open>A claim that succeeds\<close>

lemma console_later:
  assumes "console_op\<^sup>*\<^sup>* s s'" and "console_inv s" and "dget (dq_items (cs_drafts s)) k = Some r"
  obtains r' where "dget (dq_items (cs_drafts s')) k = Some r'" "request_later r r'"
  using assms
proof (induction arbitrary: thesis rule: rtranclp_induct)
  case base
  then show ?case using request_later_refl by blast
next
  case (step y z)
  obtain u where u: "dget (dq_items (cs_drafts y)) k = Some u" "request_later r u" using step.IH step.prems(2,3) by blast
  have "console_inv y" by (rule console_reachable_inv [OF step.hyps(1) step.prems(2)])
  with step.hyps(2) obtain r' where "dget (dq_items (cs_drafts z)) k = Some r'" "request_later u r'" using u(1) by (rule console_op_drafts)
  with step.prems(1) u(2) show ?case using request_later_trans by blast
qed

text \<open>The request of a claim, with its definition, on record.\<close>

definition claim_known :: "draft_worker \<Rightarrow> draft_claim \<Rightarrow> draft_process \<Rightarrow> bool" where
  "claim_known wk claim st \<longleftrightarrow> console_inv (kz_store (dp_console st)) \<and>
     (\<exists>cur. dget (dq_items (cs_drafts (kz_store (dp_console st)))) (kd_tenant_id wk, dr_id (dc_request claim)) = Some cur \<and>
        request_later (dc_request claim) cur)"

definition definition_known :: "draft_worker \<Rightarrow> draft_claim \<Rightarrow> pmap \<Rightarrow> draft_process \<Rightarrow> bool" where
  "definition_known wk claim document st \<longleftrightarrow> console_inv (kz_store (dp_console st)) \<and>
     (\<exists>cur. dget (dq_items (cs_drafts (kz_store (dp_console st)))) (kd_tenant_id wk, dr_id (dc_request claim)) = Some cur \<and>
        request_later (dc_request claim) cur \<and> dr_definition cur = Some document)"

lemma claim_known_moves:
  assumes "claim_known wk claim st" and "moves st st'"
  shows "claim_known wk claim st'"
proof -
  obtain cur where inv: "console_inv (kz_store (dp_console st))"
    and cur: "dget (dq_items (cs_drafts (kz_store (dp_console st)))) (kd_tenant_id wk, dr_id (dc_request claim)) = Some cur"
      "request_later (dc_request claim) cur"
    using assms(1) unfolding claim_known_def by blast
  have ops: "console_op\<^sup>*\<^sup>* (kz_store (dp_console st)) (kz_store (dp_console st'))" using assms(2) by (simp add: moves_def)
  obtain r where "dget (dq_items (cs_drafts (kz_store (dp_console st')))) (kd_tenant_id wk, dr_id (dc_request claim)) = Some r"
    "request_later cur r" using ops inv cur(1) by (rule console_later)
  with console_reachable_inv [OF ops inv] request_later_trans [OF cur(2)] show ?thesis unfolding claim_known_def by blast
qed

lemma definition_known_moves:
  assumes "definition_known wk claim document st" and "moves st st'"
  shows "definition_known wk claim document st'"
proof -
  obtain cur where inv: "console_inv (kz_store (dp_console st))"
    and cur: "dget (dq_items (cs_drafts (kz_store (dp_console st)))) (kd_tenant_id wk, dr_id (dc_request claim)) = Some cur"
      "request_later (dc_request claim) cur" "dr_definition cur = Some document"
    using assms(1) unfolding definition_known_def by blast
  have ops: "console_op\<^sup>*\<^sup>* (kz_store (dp_console st)) (kz_store (dp_console st'))" using assms(2) by (simp add: moves_def)
  obtain r where r: "dget (dq_items (cs_drafts (kz_store (dp_console st')))) (kd_tenant_id wk, dr_id (dc_request claim)) = Some r"
    "request_later cur r" using ops inv cur(1) by (rule console_later)
  from r(2) cur(3) have "dr_definition r = Some document" by (simp add: request_later_def)
  with r console_reachable_inv [OF ops inv] request_later_trans [OF cur(2)] show ?thesis unfolding definition_known_def by blast
qed

lemma claim_later_same: "request_later r r' \<Longrightarrow> same_author r r'"
  by (simp add: request_later_def)

lemma same_author_trans: "same_author a b \<Longrightarrow> same_author b c \<Longrightarrow> same_author a c"
  by (simp add: same_author_def)

lemma step_known:
  assumes "step_moves f" "f st = (st', x)" "on_record st" "claim_known wk claim st"
  shows "on_record st'" "claim_known wk claim st'"
  using moves_record claim_known_moves step_movesD [OF assms(1-3)] assms(3,4) by blast+

lemma candidate_known:
  assumes kw: "console_others kw" and cand: "candidate_step kw wk claim b st = (st', Inr (req, document))" and rec: "on_record st"
    and known: "claim_known wk claim st"
  shows "on_record st'" "definition_known wk claim document st'" "same_author (dc_request claim) req"
proof -
  note step = step_known [OF candidate_moves [OF kw] cand rec known]
  show "on_record st'" by (rule step(1))
  show "definition_known wk claim document st'"
  proof (cases "dr_definition (dc_request claim)")
    case (Some d)
    with cand have d: "d = document" by (simp add: candidate_step_def Let_def pure_step_def)
    obtain cur where "console_inv (kz_store (dp_console st'))"
       "dget (dq_items (cs_drafts (kz_store (dp_console st')))) (kd_tenant_id wk, dr_id (dc_request claim)) = Some cur"
      "request_later (dc_request claim) cur" using step(2) unfolding claim_known_def by blast
    moreover from this(3) Some have "dr_definition cur = Some document" by (simp add: request_later_def d)
    ultimately show ?thesis unfolding definition_known_def by blast
  next
    case None
    then obtain st1 st2 where g: "generate_step kw wk claim b st = (st1, Inr document)" and a: "claim_active kw wk claim st1 = (st2, Inr ())"
      and k: "on_console kw (\<lambda>env. on_drafts
             (save_candidate (kd_tenant_id wk) (dr_id (dc_request claim)) (dc_claim_token claim) document (ke_now env))) st2 = (st', Inr req)"
      using cand unfolding candidate_step_def Let_def by (auto elim!: sbindE simp: pure_step_def)
    from k obtain env :: console_env and s :: console_store and dq :: draft_repo where sv: "save_candidate (kd_tenant_id wk) (dr_id (dc_request claim)) (dc_claim_token claim) document (ke_now env) (cs_drafts s)
        = Inr (dq, req)" and s': "kz_store (dp_console st') = s\<lparr>cs_drafts := dq\<rparr>" by (rule on_draftsE)
    have "dget (dq_items dq) (kd_tenant_id wk, dr_id (dc_request claim)) = Some req" "dr_definition req = Some document"
      using sv by (auto simp: save_candidate_def rbind_Inr_iff Let_def dget_dput)
    with step(2) show ?thesis unfolding claim_known_def definition_known_def s' by auto
  qed
  show "same_author (dc_request claim) req"
  proof (cases "dr_definition (dc_request claim)")
    case (Some d)
    with cand show ?thesis by (simp add: candidate_step_def Let_def pure_step_def same_author_def)
  next
    case None
    then obtain st2 where k: "on_console kw (\<lambda>env. on_drafts
             (save_candidate (kd_tenant_id wk) (dr_id (dc_request claim)) (dc_claim_token claim) document (ke_now env))) st2 = (st', Inr req)"
      using cand unfolding candidate_step_def Let_def by (auto elim!: sbindE simp: pure_step_def)
    from k obtain env :: console_env and s :: console_store and dq :: draft_repo where sv: "save_candidate (kd_tenant_id wk) (dr_id (dc_request claim)) (dc_claim_token claim) document (ke_now env) (cs_drafts s)
        = Inr (dq, req)" and s': "kz_store (dp_console st') = s\<lparr>cs_drafts := dq\<rparr>" by (rule on_draftsE)
    have "dget (dq_items dq) (kd_tenant_id wk, dr_id (dc_request claim)) = Some req"
      using sv by (auto simp: save_candidate_def rbind_Inr_iff Let_def dget_dput)
    with step(2) show ?thesis unfolding claim_known_def s' by (auto dest: claim_later_same)
  qed
qed

text \<open>A finished claim: the workflow is on record, and the request is ready under its id, with its definition.\<close>

definition draft_done :: "draft_worker \<Rightarrow> draft_claim \<Rightarrow> draft_process \<Rightarrow> bool" where
  "draft_done wk claim st \<longleftrightarrow> (\<exists>r req b document snapshot.
     dget (dq_items (cs_drafts (kz_store (dp_console st)))) (kd_tenant_id wk, dr_id (dc_request claim)) = Some r \<and>
     dr_status r = R_READY \<and> dr_instance_id r = Some (draft_instance_id (dr_id (dc_request claim))) \<and> dr_definition r = Some document \<and>
     same_author (dc_request claim) r \<and> same_author (dc_request claim) req \<and>
     draft_snapshot req document b = Inr snapshot \<and> workflow_made wk req snapshot (dp_shared st))"

lemma finish_done:
  assumes kw: "console_others kw" and wd: "others_are_commands wd" and fin: "finish_claim kw wd wk claim b req document st = (st', Inr ())"
    and rec: "on_record st" and known: "definition_known wk claim document st" and author: "same_author (dc_request claim) req"
  shows "draft_done wk claim st'"
proof -
  obtain snapshot iid st1 st2 where sn: "draft_snapshot req document b = Inr snapshot"
    and c: "on_repository (create_instance wd wk req snapshot) st = (st1, Inr iid)"
    and p: "promote_step kw req iid b st1 = (st2, Inr ())"
    and r: "on_console kw (\<lambda>env. on_drafts (mark_draft_ready (kd_tenant_id wk) (dr_id req) (dc_claim_token claim) iid (ke_now env))) st2 = (st', Inr ())"
    using fin unfolding finish_claim_def by (auto elim!: sbindE simp: pure_step_def)
  note iid = instance_id [OF c wd rec]
  have m1: "moves st st1" by (rule step_movesD [OF instance_moves [OF wd] c rec])
  have m2: "moves st1 st2" by (rule step_movesD [OF promote_moves [OF kw] p [unfolded iid(1)] moves_record [OF m1 rec]])
  have k2: "definition_known wk claim document st2" by (rule definition_known_moves [OF definition_known_moves [OF known m1] m2])
  have rid: "dr_id req = dr_id (dc_request claim)" using author by (simp add: same_author_def)
  from r obtain env :: console_env and s :: console_store and dq :: draft_repo where mr: "mark_draft_ready (kd_tenant_id wk) (dr_id req) (dc_claim_token claim) iid (ke_now env) (cs_drafts s) = Inr (dq, ())"
    and s': "kz_store (dp_console st') = s\<lparr>cs_drafts := dq\<rparr>" "s = kw_others kw (kz_turn (dp_console st2)) (kz_store (dp_console st2))"
    "dp_shared st' = dp_shared st2" by (rule on_draftsE)
  let ?st = "st2\<lparr>dp_console := (dp_console st2)\<lparr>kz_store := s\<rparr>\<rparr>"
  have "moves st2 ?st" using kw by (simp add: moves_def console_others_def s'(2))
  from definition_known_moves [OF k2 this] obtain cur where cur: "dget (dq_items (cs_drafts s)) (kd_tenant_id wk, dr_id (dc_request claim)) = Some cur"
      "request_later (dc_request claim) cur" "dr_definition cur = Some document" unfolding definition_known_def by auto
  let ?r = "settled_request R_READY (ke_now env) (Some iid) None None [] cur"
  from mr obtain x where x: "claimed_draft (kd_tenant_id wk) (dr_id req) (dc_claim_token claim) (cs_drafts s) = Inr x"
      "dq = drop_claim (kd_tenant_id wk) (dr_id req) (put_request (kd_tenant_id wk) (dr_id req)
        (settled_request R_READY (ke_now env) (Some iid) None None [] x) (cs_drafts s))"
    unfolding mark_draft_ready_def settle_draft_def by (auto simp: rbind_Inr_iff)
  have "x = cur" using x(1) cur(1) by (auto elim!: claimed_draftE simp: rid)
  then have item: "dget (dq_items (cs_drafts (kz_store (dp_console st')))) (kd_tenant_id wk, dr_id (dc_request claim)) = Some ?r"
    by (simp add: s'(1) x(2) dget_dput rid)
  have made: "workflow_made wk req snapshot (dp_shared st')"
    using workflow_made_later [OF iid(2)] m2 moves_record [OF m1 rec] by (simp add: s'(3) moves_def)
  have "dr_status ?r = R_READY" "dr_instance_id ?r = Some (draft_instance_id (dr_id (dc_request claim)))" "dr_definition ?r = Some document"
    "same_author (dc_request claim) ?r"
    using cur(2,3) by (simp_all add: settled_request_def or_kept_def unset_def iid(1) rid draft_instance_id_def same_author_def request_later_def)
  with item made sn author show ?thesis unfolding draft_done_def by blast
qed

lemma apply_done:
  assumes kw: "console_others kw" and wd: "others_are_commands wd" and app: "apply_draft_claim kw wd wk claim st = (st', Inr ())"
    and rec: "on_record st" and known: "claim_known wk claim st"
  shows "draft_done wk claim st'"
proof -
  obtain st1 st2 st3 st4 b req document where a1: "claim_active kw wk claim st = (st1, Inr ())"
    and c: "claim_context kw wk (dc_request claim) st1 = (st2, Inr b)" and a2: "claim_active kw wk claim st2 = (st3, Inr ())"
    and k: "candidate_step kw wk claim b st3 = (st4, Inr (req, document))"
    and f: "finish_claim kw wd wk claim b req document st4 = (st', Inr ())"
    using app unfolding apply_claim_finish by (auto elim!: sbindE)
  note k1 = step_known [OF active_moves [OF kw] a1 rec known]
  note k2 = step_known [OF context_moves [OF kw] c k1]
  note k3 = step_known [OF active_moves [OF kw] a2 k2]
  note k4 = candidate_known [OF kw k k3]
  show ?thesis by (rule finish_done [OF kw wd f k4])
qed

end
