(* ===== verification/Planning_Theorems.thy ===== *)
theory Planning_Theorems
  imports Draft_Planning Draft_Theorems
begin

text \<open>
  What a planner returns, whatever runtime is behind it: a plain JSON document that passed the validation,
  with the inputs of the server.
\<close>

section \<open>Plain documents\<close>

definition plain :: "pval \<Rightarrow> bool" where
  "plain v \<longleftrightarrow> to_json_value v = v"

definition plain_map :: "pmap \<Rightarrow> bool" where
  "plain_map m \<longleftrightarrow> mutable_map m = m"

lemma plain_simps [simp]:
  "plain PNone" "plain (PBool b)" "plain (PInt n)" "plain (PFloat t)" "plain (PStr s)"
  "plain (PDict m) \<longleftrightarrow> plain_map m"
  by (simp_all add: plain_def plain_map_def mutable_map_def to_mutable_def [abs_def])

lemma plain_list: "plain (PList xs) \<longleftrightarrow> (\<forall>x \<in> set xs. plain x)"
proof -
  have "map to_json_value xs = xs \<longleftrightarrow> (\<forall>x \<in> set xs. to_json_value x = x)" by (induction xs) auto
  then show ?thesis by (simp add: plain_def)
qed

lemma plain_map_Cons [simp]: "plain_map [] \<longleftrightarrow> True" "plain_map ((k, v) # m) \<longleftrightarrow> plain v \<and> plain_map m"
  by (simp_all add: plain_map_def mutable_map_def plain_def to_mutable_def)

lemma plain_map_append [simp]: "plain_map (a @ b) \<longleftrightarrow> plain_map a \<and> plain_map b"
  by (induction a) auto

lemma plain_dput: "plain_map m \<Longrightarrow> plain v \<Longrightarrow> plain_map (dput k v m)"
  by (induction m) auto

lemma plain_getv: "plain_map m \<Longrightarrow> plain (getv m k)"
  by (induction m) (auto simp: get_or_def split: if_splits)

lemma plain_mutable: "plain_map (mutable_map m)"
  by (simp add: plain_map_def mutable_map_def to_mutable_def comp_def map_prod_def split: prod.split)

lemma mutable_planner_result: "plain_map m \<Longrightarrow> mutable_map (planner_result m) = m"
proof -
  have "mutable_map (freeze_map (mutable_map m)) = mutable_map m"
    by (simp add: mutable_map_def freeze_map_def to_mutable_def comp_def map_prod_def split: prod.split)
  then show "plain_map m \<Longrightarrow> ?thesis" by (simp add: planner_result_def plain_map_def)
qed

section \<open>The fields of the server\<close>

lemma plain_bind_node: "plain node \<Longrightarrow> plain (bind_node_input reference node)"
proof -
  assume node: "plain node"
  show "plain (bind_node_input reference node)"
  proof (cases "bind_node_input reference node = node")
    case False
    then obtain m work inputs where m: "node = PDict m" "getv m ''work'' = PDict work" "getv work ''inputs'' = PList inputs"
      and new: "bind_node_input reference node =
        PDict (dput ''work'' (PDict (dput ''inputs'' (PList (inputs @ [PStr reference])) work)) m)"
      unfolding bind_node_input_def by (auto split: pval.splits if_splits)
    have "plain_map m" using node m(1) by simp
    with plain_getv [of m "''work''"] have "plain_map work" unfolding m(2) by simp
    with plain_getv [of work "''inputs''"] have "\<forall>x \<in> set inputs. plain x" unfolding m(3) by (simp add: plain_list)
    with \<open>plain_map m\<close> \<open>plain_map work\<close> show ?thesis unfolding new by (simp add: plain_dput plain_list)
  qed (simp add: node)
qed

lemma bind_inputs_cases:
  obtains "bind_inputs reference d = d"
  | nodes where "getv d ''nodes'' = PList nodes" "bind_inputs reference d = dput ''nodes'' (PList (map (bind_node_input reference) nodes)) d"
  unfolding bind_inputs_def by (cases "getv d ''nodes''") simp_all

lemma plain_bind_inputs: "plain_map d \<Longrightarrow> plain_map (bind_inputs reference d)"
proof (cases rule: bind_inputs_cases [of reference d])
  case (2 nodes)
  assume "plain_map d"
  from plain_getv [OF this, of "''nodes''"] this show ?thesis unfolding 2 by (simp add: plain_dput plain_list plain_bind_node)
qed simp

lemma getv_dput_other: "k \<noteq> j \<Longrightarrow> getv (dput k v m) j = getv m j"
  by (simp add: get_or_def dget_dput)

lemma getv_dput_same: "getv (dput k v m) k = v"
  by (simp add: get_or_def dget_dput)

lemma bind_inputs_keeps: "k \<noteq> ''nodes'' \<Longrightarrow> getv (bind_inputs reference d) k = getv d k"
  by (cases rule: bind_inputs_cases [of reference d]) (simp_all add: getv_dput_other)

lemma server_owned_keeps:
  assumes "k \<noteq> ''nodes''"
  shows "getv (server_owned brief background bundle d) k =
    getv (dput ''inputs'' (PDict (server_inputs brief background bundle)) (dput ''schema_version'' (PStr ''0.2'') d)) k"
  using assms unfolding server_owned_def bind_project_attachment_inputs_def bind_enterprise_knowledge_inputs_def
  by (cases "bundle") (simp_all add: Let_def bind_inputs_keeps)

definition plain_sizes :: "context_bundle option \<Rightarrow> bool" where
  "plain_sizes bundle \<longleftrightarrow> (case bundle of None \<Rightarrow> True | Some b \<Rightarrow> \<forall>r \<in> set (cb_attachments b). \<exists>n. ar_size_bytes r = PInt n)"

lemma plain_attachment: "ar_size_bytes r = PInt n \<Longrightarrow> plain_map (attachment_ref_value r)"
  by (simp add: attachment_ref_value_def)

lemma plain_knowledge: "plain_map (knowledge_ref_value k)"
  by (cases "kr_authorization_fingerprint k") (simp_all add: knowledge_ref_value_def opt_str_def split: option.split)

lemma plain_server_inputs: "plain_sizes bundle \<Longrightarrow> plain_map (server_inputs brief background bundle)"
  unfolding server_inputs_def plain_sizes_def
  by (cases "bundle") (auto simp: plain_list plain_knowledge intro: plain_attachment)

lemma plain_server_owned: "plain_sizes bundle \<Longrightarrow> plain_map d \<Longrightarrow> plain_map (server_owned brief background bundle d)"
  unfolding server_owned_def bind_project_attachment_inputs_def bind_enterprise_knowledge_inputs_def
  by (cases "bundle") (simp_all add: Let_def plain_bind_inputs plain_dput plain_server_inputs)

section \<open>The service\<close>

lemma results_gmap_Inr: "Inr d \<in> results (gmap f g) \<longleftrightarrow> (\<exists>c. Inr c \<in> results g \<and> f c = Inr d)"
proof
  assume "Inr d \<in> results (gmap f g)"
  then obtain x where "x \<in> results g" "rbind x f = Inr d" unfolding results_gmap by (elim imageE) simp
  then show "\<exists>c. Inr c \<in> results g \<and> f c = Inr d" by (cases x) auto
next
  assume "\<exists>c. Inr c \<in> results g \<and> f c = Inr d"
  then show "Inr d \<in> results (gmap f g)" unfolding results_gmap by (elim exE conjE) (rule image_eqI, simp_all)
qed

lemma planned_candidate:
  assumes "run_generation (planning_generate va runtime tenant actor rid brief background bundle) repair st = (st', Inr d)"
    and "plain_sizes bundle"
  obtains x where "d = server_owned brief background bundle (mutable_map x)" "validate_candidate va d bundle = Inr ()"
    "check_request va brief background bundle = Inr ()"
proof -
  let ?g = "planning_generate va runtime tenant actor rid brief background bundle"
  let ?q = "\<lparr>pr_tenant_id = tenant, pr_actor_person_id = actor, pr_request_id = rid, pr_brief = brief,
      pr_context = background, pr_context_bundle = bundle\<rparr>"
  have d: "Inr d \<in> results ?g" using run_generation_result [of ?g repair st] assms(1) by simp
  have q: "mk_planner_request ?q = Inr ?q"
  proof (cases "mk_planner_request ?q")
    case (Inl e)
    with d show ?thesis by (simp add: planning_generate_def)
  next
    case (Inr q')
    then show ?thesis unfolding mk_planner_request_def by (auto simp: rbind_Inr_iff split: option.splits)
  qed
  have g: "?g = gmap (\<lambda>candidate. Inr (mutable_map candidate)) (plan va runtime ?q)" by (simp add: planning_generate_def q)
  obtain c where c: "Inr c \<in> results (plan va runtime ?q)" "d = mutable_map c"
    using d unfolding g results_gmap_Inr by auto
  have ok: "check_request va brief background bundle = Inr ()"
    using c(1) by (cases "check_request va brief background bundle") (simp_all add: plan_def)
  obtain x where x: "validate_candidate va (server_owned brief background bundle (mutable_map x)) bundle = Inr ()"
      "c = planner_result (server_owned brief background bundle (mutable_map x))"
    using c(1) by (auto simp: plan_def ok results_gmap_Inr rbind_Inr_iff Let_def)
  have "d = server_owned brief background bundle (mutable_map x)"
    unfolding c(2) x(2) by (intro mutable_planner_result plain_server_owned assms(2) plain_mutable)
  with x(1) ok that [of x] show thesis by simp
qed

text \<open>A run of the bounded planner repairs at most once.\<close>

lemma attempts_repairs: "repairs_at_most (draft_attempts g brief background bundle attempt left prompt) (left - 1)"
proof (induction left arbitrary: attempt prompt)
  case (Suc left)
  show ?case
  proof (cases "dg_complete g attempt prompt")
    case (Inr reply)
    with Suc.IH show ?thesis by (auto split: sum.splits)
  qed simp
qed simp

lemma planning_repairs:
  "repairs_at_most (runtime q) n \<Longrightarrow> repairs_at_most (plan va runtime q) n"
  by (simp add: plan_def repairs_gmap split: sum.split)

lemma bounded_repairs: "repairs_at_most (bounded_planner g q) 1"
proof -
  have "repairs_at_most (draft_attempts g brief background cb 0 MAX_GENERATION_ATTEMPTS prompt) 1" for brief background cb prompt
    using attempts_repairs [of g brief background cb 0 MAX_GENERATION_ATTEMPTS prompt] by (simp add: MAX_GENERATION_ATTEMPTS_def)
  then show ?thesis by (auto simp: bounded_planner_def repairs_gmap generate_definition_def split: sum.split)
qed

lemma bounded_service_repairs:
  "repairs_at_most (planning_generate va (bounded_planner g) tenant actor rid brief background bundle) 1"
  using planning_repairs [OF bounded_repairs] by (simp add: planning_generate_def repairs_gmap split: sum.split)

end
