(* ===== verification/Console_Demo.thy ===== *)
theory Console_Demo
  imports Agent_Context_Theorems Draft_Worker_Theorems Planning_Theorems Draft_Properties
begin

text \<open>
  A small example for the console: an owner makes a draft request, adds a file to it and has it generated.
\<close>

section \<open>Digests\<close>

lemma hex_digit_hex: "n < 16 \<Longrightarrow> hex_char (hex_digit n)"
proof -
  assume "n < 16"
  then have "n \<in> set [0..<16]" by simp
  moreover have "list_all (\<lambda>n. hex_char (hex_digit n)) [0..<16]" by code_simp
  ultimately show ?thesis unfolding list_all_iff by blast
qed

lemma sha256_hex_text: "hex_text 64 (sha256_hex bs)"
proof -
  have "list_all hex_char (hex2 n)" for n by (simp add: hex2_def hex_digit_hex)
  then have "list_all hex_char (sha256_hex bs)" unfolding sha256_hex_def Let_def by (auto simp: list_all_iff)
  then show ?thesis by (simp add: hex_text_def length_sha256_hex)
qed

section \<open>The example\<close>

definition demo_request_id :: string where "demo_request_id = replicate 32 (CHR ''1'')"
definition demo_attachment_id :: string where "demo_attachment_id = replicate 32 (CHR ''2'')"

definition demo_owner :: console_principal where
  "demo_owner = \<lparr>cp_tenant_id = ''t1'', cp_person_id = ''owner''\<rparr>"

definition demo_draft_request :: draft_request where
  "demo_draft_request = new_draft_request demo_owner demo_request_id ''plan'' ''none'' ''owner'' True 0"

definition demo_console :: console_store where
  "demo_console = empty_console\<lparr>cs_drafts := put_request ''t1'' demo_request_id demo_draft_request empty_draft_repo\<rparr>"

lemma demo_created: "create_request demo_draft_request empty_draft_repo = Inr (cs_drafts demo_console, demo_draft_request)"
  by (simp add: create_request_def demo_draft_request_def new_draft_request_def demo_owner_def demo_console_def empty_draft_repo_def)

definition demo_file :: console_attachment where
  "demo_file = \<lparr>ca_tenant_id = ''t1'', ca_attachment_id = demo_attachment_id, ca_origin_request_id = demo_request_id, ca_instance_id = None,
     ca_uploader_person_id = ''owner'', ca_display_filename = ''a.txt'', ca_media_type = ''text/plain'', ca_size_bytes = 2,
     ca_content_sha256 = sha256_hex [104, 105], ca_object_key = take 16 (text_sha256 ''t1'') @ CHR ''/'' # demo_attachment_id,
     ca_status = ''ready'', ca_data_classification = ''internal'', ca_model_egress_policy = ''allow'', ca_created_at = 1, ca_revoked_at = None\<rparr>"

definition demo_uploaded :: console_store where
  "demo_uploaded = demo_console\<lparr>cs_attachments := [((''t1'', demo_attachment_id), demo_file)], cs_blobs := [(ca_object_key demo_file, [104, 105])]\<rparr>"

lemma hex_text_take: "hex_text n s \<Longrightarrow> k \<le> n \<Longrightarrow> hex_text k (take k s)"
  by (auto simp: hex_text_def list_all_iff dest: in_set_takeD)

lemma demo_key: "object_key_text (take 16 (text_sha256 ''t1'') @ CHR ''/'' # demo_attachment_id)"
proof -
  have "hex_text 16 (take 16 (text_sha256 ''t1''))" unfolding text_sha256_def by (rule hex_text_take [OF sha256_hex_text]) simp
  moreover from this have "length (take 16 (text_sha256 ''t1'')) = 16" by (simp add: hex_text_def)
  moreover have "hex_text 32 demo_attachment_id" "length demo_attachment_id = 32" by code_simp+
  ultimately show ?thesis by (simp add: object_key_text_def nth_append)
qed

lemma demo_bytes: "utf8_bytes [104, 105] = Some [104, 105]"
  by (simp add: utf8_bytes_def scalar_value_def utf8_codes_def utf8_code_def)

lemma demo_console_texts:
  "validated_filename (PStr ''a.txt'') = Inr ''a.txt''"
  "in_str_set (PStr ''text/plain'') [''text/plain'', ''text/markdown''] = Inr True"
  "attachment_id_text demo_attachment_id" "attachment_id_text demo_request_id" "\<not> blank ''t1''" "\<not> blank ''owner''" "\<not> blank ''a.txt''" "ascii ''owner''"
  "utf8_text [104, 105] = Some [104, 105]"
  by code_simp+

lemma demo_file_ok: "mk_console_attachment demo_file = Inr demo_file"
  by (simp add: mk_console_attachment_def demo_file_def demo_console_texts demo_bytes demo_key sha256_hex_text MAX_ATTACHMENT_BYTES_def
      MAX_ATTACHMENT_FILENAME_CHARS_def path_separator_def)

lemma demo_owned:
  "request_owner ''t1'' demo_request_id ''owner'' demo_console = Inr demo_draft_request"
  "dr_status demo_draft_request = R_COLLECTING"
  by (simp_all add: request_owner_def get_request_for_owner_def demo_console_def demo_draft_request_def new_draft_request_def demo_owner_def
      put_request_def dget_dput compare_digest_def demo_console_texts)

lemma demo_upload:
  "upload_attachment \<lparr>as_model_egress_policy = ''allow''\<rparr> demo_owner demo_request_id (PStr ''a.txt'') (PStr ''text/plain'') (Some [104, 105])
     demo_attachment_id 1 demo_console = (demo_uploaded, Inr [(''attachment'', PDict (public_attachment demo_file))])"
proof -
  have up: "uploaded_attachment \<lparr>as_model_egress_policy = ''allow''\<rparr> demo_owner demo_request_id (PStr ''a.txt'') (PStr ''text/plain'')
      (Some [104, 105]) demo_attachment_id 1 demo_console = Inr (demo_file, [104, 105])"
    using demo_file_ok unfolding demo_file_def
    by (simp add: uploaded_attachment_def planning_enabled_def authorize_collecting_def demo_owner_def demo_owned require_collecting_def
      demo_console_texts demo_bytes MAX_ATTACHMENT_BYTES_def py_str_def code_space_def)
  have "blob_put (ca_object_key demo_file) [104, 105] demo_console =
      Inr (demo_console\<lparr>cs_blobs := [(ca_object_key demo_file, [104, 105])]\<rparr>)"
    using demo_key by (simp add: blob_put_def blob_key_def demo_file_def demo_console_def empty_console_def)
  moreover have "create_for_request demo_file (demo_console\<lparr>cs_blobs := [(ca_object_key demo_file, [104, 105])]\<rparr>) = Inr (demo_uploaded, demo_file)"
    using demo_owned
    by (simp add: create_for_request_def require_collecting_def check_attachment_limits_def retained_for_request_def retained_for_tenant_def
      total_bytes_def demo_uploaded_def demo_console_def empty_console_def request_owner_def demo_file_def MAX_ATTACHMENTS_PER_REQUEST_def
      MAX_ATTACHMENTS_TOTAL_BYTES_def MAX_RETAINED_ATTACHMENTS_PER_TENANT_def MAX_RETAINED_ATTACHMENT_BYTES_PER_TENANT_def)
  ultimately show ?thesis by (simp add: upload_attachment_def up)
qed

end
