(* ===== verification/Console_Properties.thy ===== *)
theory Console_Properties
  imports Console_Demo
begin

text \<open>
  The properties of the console: draft requests and their attachments, the planner and the draft worker, and
  the context that the agents of a workflow are given.
\<close>

section \<open>The example, frozen and promoted\<close>

definition demo_frozen_request :: draft_request where
  "demo_frozen_request = demo_draft_request\<lparr>dr_status := R_PENDING, dr_attachment_manifest := [reference_of demo_file],
     dr_enterprise_knowledge_manifest := [], dr_enterprise_selection_fingerprint := None, dr_available_at := 2, dr_updated_at := 2\<rparr>"

definition demo_frozen :: console_store where
  "demo_frozen = demo_uploaded\<lparr>cs_drafts := put_request ''t1'' demo_request_id demo_frozen_request (cs_drafts demo_uploaded)\<rparr>"

definition demo_promoted :: console_store where
  "demo_promoted = demo_frozen\<lparr>cs_attachments := [((''t1'', demo_attachment_id), demo_file\<lparr>ca_instance_id := Some (draft_instance_id demo_request_id)\<rparr>)]\<rparr>"

lemma demo_create_reached: "console_op\<^sup>*\<^sup>* empty_console demo_console"
proof -
  have "drafts_op (cs_drafts empty_console) (cs_drafts demo_console)"
    using demo_created unfolding demo_draft_request_def by (intro drafts_op.create) (simp add: empty_console_def)
  then have "console_op empty_console (empty_console\<lparr>cs_drafts := cs_drafts demo_console\<rparr>)" by (rule console_op.drafts)
  then show ?thesis by (simp add: demo_console_def)
qed

lemma demo_reached: "console_op\<^sup>*\<^sup>* empty_console demo_uploaded"
  using demo_create_reached
    console_op.upload [of demo_console "\<lparr>as_model_egress_policy = ''allow''\<rparr>" demo_owner demo_request_id "PStr ''a.txt''" "PStr ''text/plain''"
      "Some [104, 105]" demo_attachment_id 1]
  unfolding demo_upload fst_conv by (rule rtranclp.rtrancl_into_rtrancl)

lemma demo_file_stored: "attachment_ok demo_file" "ready_for_request ''t1'' demo_request_id demo_uploaded = [demo_file]"
  "attachment_reference demo_file = Inr (reference_of demo_file)"
proof -
  show ok: "attachment_ok demo_file" using demo_file_ok by (simp add: attachment_ok_def)
  show "attachment_reference demo_file = Inr (reference_of demo_file)" by (rule attachment_reference_ok [OF ok])
  show "ready_for_request ''t1'' demo_request_id demo_uploaded = [demo_file]"
    by (simp add: ready_for_request_def retained_for_request_def demo_uploaded_def demo_file_def by_age_def)
qed

lemma demo_freeze: "freeze_and_queue ''t1'' demo_request_id ''owner'' 2 demo_uploaded = Inr (demo_frozen, demo_frozen_request)"
proof -
  have d: "cs_drafts demo_uploaded = cs_drafts demo_console" by (simp add: demo_uploaded_def)
  have o: "request_owner ''t1'' demo_request_id ''owner'' demo_uploaded = Inr demo_draft_request"
    using demo_owned(1) by (simp add: request_owner_def d)
  have g: "get_request_for_owner ''t1'' demo_request_id ''owner'' (cs_drafts demo_uploaded) = Inr demo_draft_request"
    using o unfolding request_owner_def
    by (cases "get_request_for_owner ''t1'' demo_request_id ''owner'' (cs_drafts demo_uploaded)" rule: sum.exhaust)
      (auto elim: as_attachment_error.elims)
  have e: "ca_model_egress_policy demo_file = ''allow''" by (simp add: demo_file_def)
  show ?thesis
    by (simp add: freeze_and_queue_def o require_collecting_def demo_owned(2) demo_file_stored e queue_collecting_def queue_collecting_context_def g
        demo_frozen_def demo_frozen_request_def Let_def)
qed

lemma demo_built: "\<exists>b. build_for_planning \<lparr>pc_model_egress_policy = ''allow''\<rparr> demo_frozen_request 3 demo_frozen = Inr (Some b) \<and>
    bundle_chars b = 2"
proof -
  have tenant: "dr_tenant_id demo_frozen_request = ''t1''" "dr_id demo_frozen_request = demo_request_id"
    by (simp_all add: demo_frozen_request_def demo_draft_request_def new_draft_request_def demo_owner_def)
  note good = console_reachable_good [OF demo_reached]
  note fr = freeze_frozen_request [OF demo_freeze good(1)]
  have reach: "console_op\<^sup>*\<^sup>* empty_console demo_frozen"
    using demo_reached console_op.freeze [OF demo_freeze] by (rule rtranclp.rtrancl_into_rtrancl)
  note good' = console_reachable_good [OF reach]
  have ready: "ready_attachments demo_frozen demo_frozen_request = [demo_file]"
    unfolding tenant using demo_file_stored(2) by (simp add: ready_for_request_def retained_for_request_def demo_frozen_def)
  have t: "text_of demo_frozen demo_file = [104, 105]" by (simp add: text_of_def demo_frozen_def demo_uploaded_def cons_text_def)
  have chars: "total_chars demo_frozen demo_frozen_request = 2" unfolding total_chars_def ready by (simp add: t)
  have "build_for_planning \<lparr>pc_model_egress_policy = ''allow''\<rparr> demo_frozen_request 3 demo_frozen =
      Inr (Some (frozen_bundle demo_frozen demo_frozen_request 3 CONTEXT_BUNDLE_TTL))"
    by (rule planning_available [OF good' fr(1) _ request_later_refl])
      (simp_all add: fr(2) planning_state_def demo_frozen_request_def chars [unfolded demo_frozen_request_def] MAX_CONTEXT_BUNDLE_CHARS_def)
  moreover have "bundle_chars (frozen_bundle demo_frozen demo_frozen_request 3 CONTEXT_BUNDLE_TTL) = 2"
    unfolding chars_of_material [OF bundle_fields(2)] ready by (simp add: t)
  ultimately show ?thesis by blast
qed

lemma demo_promote: "promote_attachments demo_frozen_request (draft_instance_id demo_request_id) demo_frozen = (demo_promoted, Inr ())"
proof -
  have m: "map ar_attachment_id (dr_attachment_manifest demo_frozen_request) = [demo_attachment_id]"
    by (simp add: demo_frozen_request_def reference_of_def demo_file_def)
  have t: "dr_tenant_id demo_frozen_request = ''t1''" "dr_id demo_frozen_request = demo_request_id"
    by (simp_all add: demo_frozen_request_def demo_draft_request_def new_draft_request_def demo_owner_def)
  have f: "ca_origin_request_id demo_file = demo_request_id" "ca_instance_id demo_file = None" by (simp_all add: demo_file_def)
  have ok: "mk_console_attachment (demo_file\<lparr>ca_instance_id := i\<rparr>) = Inr (demo_file\<lparr>ca_instance_id := i\<rparr>)" for i
    using demo_file_ok unfolding mk_console_attachment_def by (simp add: rbind_Inr_iff)
  have a: "dget (cs_attachments demo_frozen) (''t1'', demo_attachment_id) = Some demo_file" by (simp add: demo_frozen_def demo_uploaded_def)
  show ?thesis
    unfolding promote_attachments_def m
    by (simp add: promote_attachment_def t a f ok) (simp add: demo_promoted_def demo_frozen_def demo_uploaded_def)
qed

section \<open>From the freeze to the agents\<close>

lemma captured_inputs: "capture_input_snapshot w key = Inr input \<Longrightarrow> getv input ''instance_inputs'' = PFrozen (sn_inputs (wi_snapshot w))"
  unfolding capture_input_snapshot_def Let_def
  by (auto simp: rbind_Inr_iff freeze_map_def get_or_def dget_dput split: if_splits)

lemma context_requestD:
  assumes "context_request x = Inr q"
  shows "aq_tenant_id q = er_tenant_id x" "aq_instance_id q = er_instance_id x" "aq_owner_person_id q = er_owner_person_id x"
    "aq_node_key q = er_node_key x" "aq_attempt_id q = er_attempt_id x" "aq_work_contract q = freeze_map (er_work x)"
    "aq_input_snapshot q = freeze_map (er_input_snapshot x)"
    "\<not> blank (aq_tenant_id q)" "\<not> blank (aq_instance_id q)" "\<not> blank (aq_owner_person_id q)" "\<not> blank (aq_node_key q)" "\<not> blank (aq_attempt_id q)"
  using assms unfolding context_request_def mk_agent_context_request_def by (auto simp: rbind_Inr_iff ensure_Inr_iff)

lemma request_inputs:
  assumes "wi_snapshot w = with_context (Some b) snapshot" and "capture_input_snapshot w key = Inr input"
    and "context_request x = Inr q" and "er_input_snapshot x = freeze_map input"
  shows "as_map (getv (aq_input_snapshot q) ''instance_inputs'') = Some (freeze_map (context_inputs b (sn_inputs snapshot)))"
  using captured_inputs [OF assms(2)] by (simp add: context_requestD(7) [OF assms(3)] assms(1,4) getv_freeze_map with_context_def)

lemma freeze_request_ids:
  assumes "freeze_and_queue tenant rid person now s = Inr (s0, req)" and "console_inv s"
  shows "dr_tenant_id req = tenant" "dr_id req = rid"
proof -
  obtain dq where dq: "drafts_op (cs_drafts s) dq" "s0 = s\<lparr>cs_drafts := dq\<rparr>" using assms(1) by (rule freeze_drafts_op)
  have "dget (dq_items (cs_drafts s0)) (tenant, rid) = Some req"
    using assms(1) unfolding freeze_and_queue_def queue_collecting_def queue_collecting_context_def Let_def
    by (auto simp: rbind_Inr_iff dget_dput)
  with drafts_invD(3) [OF drafts_op_inv [OF dq(1) console_invD(1) [OF assms(2)]]] dq(2)
  show "dr_tenant_id req = tenant" "dr_id req = rid" by fastforce+
qed

text \<open>C7: an agent reads what the owner froze. The attachments of a request are frozen when it is queued; the
  bundle made of them for the planner (whatever happened to the store in between) is written into the inputs
  of the workflow, and the attachments are bound to it. Whatever operations follow, an attempt of any agent
  node that declares project attachments, in a worker that may send them and has the budget, is given a bundle
  with the very same sources, texts and references, bound to that attempt.\<close>

theorem agent_reads_what_was_frozen:
  assumes "console_op\<^sup>*\<^sup>* empty_console s" and "freeze_and_queue tenant rid person now s = Inr (s0, req)"
    and "console_op\<^sup>*\<^sup>* s0 s1" and "build_for_planning psv req t1 s1 = Inr (Some b)"
    and "console_op\<^sup>*\<^sup>* s1 s2" and "promote_attachments req (draft_instance_id rid) s2 = (s3, Inr ())" and "console_op\<^sup>*\<^sup>* s3 s4"
    and "wi_snapshot w = with_context (Some b) snapshot" and "capture_input_snapshot w key = Inr input"
    and "context_request x = Inr q" and "er_input_snapshot x = freeze_map input"
    and "er_tenant_id x = tenant" and "er_instance_id x = draft_instance_id rid" and "declares_project_attachments (aq_work_contract q)"
    and "ac_model_egress_policy sv = ''allow''" and "bundle_chars b \<le> ac_max_context_chars sv"
  shows "\<exists>b'. resolve_agent_context sv s4 t4 q = Inr (Some b') \<and> cb_sources b' = cb_sources b \<and> cb_chunks b' = cb_chunks b \<and>
    cb_attachments b' = cb_attachments b \<and> cb_scope_id b' = er_instance_id x \<and> cb_actor_person_id b' = er_owner_person_id x \<and>
    cb_node_key b' = Some (er_node_key x) \<and> cb_attempt_id b' = Some (er_attempt_id x)"
proof -
  note good = console_reachable_good [OF assms(1)]
  note ids = freeze_request_ids [OF assms(2) good(1)]
  have op: "console_op\<^sup>*\<^sup>* empty_console s0" using assms(1) console_op.freeze [OF assms(2)] by (rule rtranclp.rtrancl_into_rtrancl)
  note q = context_requestD [OF assms(10)]
  have "aq_tenant_id q = dr_tenant_id req" "aq_instance_id q = draft_instance_id (dr_id req)" by (simp_all add: q assms(12,13) ids)
  from agent_material_frozen [OF console_reachable_good [OF op] freeze_frozen_request(1) [OF assms(2) good(1)] assms(3-5) assms(6) [folded ids(2)]
      assms(7) this request_inputs [OF assms(8-11)] assms(14) q(8-12) assms(15,16), of t4]
  obtain req4 where "resolve_agent_context sv s4 t4 q = Inr (Some (agent_bundle_of s4 req4 q t4))"
    "cb_sources (agent_bundle_of s4 req4 q t4) = cb_sources b" "cb_chunks (agent_bundle_of s4 req4 q t4) = cb_chunks b"
    "cb_attachments (agent_bundle_of s4 req4 q t4) = cb_attachments b" by blast
  then show ?thesis by (intro exI [of _ "agent_bundle_of s4 req4 q t4"]) (simp add: agent_bundle_fields q)
qed

text \<open>A workflow with one agent node, and its request.\<close>

definition demo_agent_work :: pmap where
  "demo_agent_work = [(''inputs'', PTuple [PStr PROJECT_ATTACHMENTS_INPUT])]"

definition demo_agent_snapshot :: instance_snapshot where
  "demo_agent_snapshot = mk_snapshot [\<lparr>ns_key = ''text'', ns_title = ''Text'', ns_owner_person_id = ''owner'', ns_executor = AGENT,
     ns_deps = [], ns_work = demo_agent_work\<rparr>] ''publish'' None False [] ''0.2''"

definition demo_agent_instance :: "context_bundle \<Rightarrow> workflow_instance" where
  "demo_agent_instance b = (new_instance (draft_instance_id demo_request_id) ''t1'' ''owner'' (with_context (Some b) demo_agent_snapshot) 4)
     \<lparr>wi_nodes := [(''text'', \<lparr>ni_id = ''n1'', ni_instance_id = draft_instance_id demo_request_id, ni_node_key = ''text'',
        ni_owner_person_id = ''owner'', ni_executor = AGENT, ni_status = N_READY, ni_current_attempt_no = 1, ni_version = 0,
        ni_ready_at = Some 4, ni_started_at = None, ni_completed_at = None\<rparr>)],
      wi_attempts := [((''text'', 1), \<lparr>na_id = ''a1'', na_node_instance_id = ''n1'', na_attempt_no = 1, na_status = A_PENDING,
        na_input_snapshot = [], na_result = None, na_quality_result = None, na_claimed_by = None, na_claim_token = None,
        na_claim_expires_at = None, na_started_at = None, na_completed_at = None, na_submitted_by_person_id = None,
        na_error_code = None, na_error_message = None\<rparr>)]\<rparr>"

definition demo_execution :: "pmap \<Rightarrow> execution_request" where
  "demo_execution input = \<lparr>er_tenant_id = ''t1'', er_instance_id = draft_instance_id demo_request_id, er_node_key = ''text'',
     er_attempt_id = ''a1'', er_attempt_no = 1, er_owner_person_id = ''owner'', er_executor = AGENT, er_work = demo_agent_work,
     er_input_snapshot = freeze_map input, er_expected_node_version = 1, er_claim_token = ''c'', er_claim_expires_at = 9\<rparr>"

lemma demo_capture: "\<exists>input. capture_input_snapshot (demo_agent_instance b) ''text'' = Inr input"
  by (simp add: capture_input_snapshot_def demo_agent_instance_def new_instance_def with_context_def demo_agent_snapshot_def mk_snapshot_def
      snapshot_node_def current_attempt_def get_node_def Let_def)

lemma demo_context_request: "\<exists>q. context_request (demo_execution input) = Inr q \<and> declares_project_attachments (aq_work_contract q)"
proof -
  have "\<not> blank (draft_instance_id demo_request_id)" "\<not> blank ''t1''" "\<not> blank ''owner''" "\<not> blank ''text''" "\<not> blank ''a1''" by code_simp+
  moreover have "declares_project_attachments (freeze_map demo_agent_work)" by code_simp
  ultimately show ?thesis by (simp add: context_request_def mk_agent_context_request_def demo_execution_def)
qed

theorem agent_reads_what_was_frozen_witness:
  "\<exists>b q b'. build_for_planning \<lparr>pc_model_egress_policy = ''allow''\<rparr> demo_frozen_request 3 demo_frozen = Inr (Some b) \<and>
     resolve_agent_context \<lparr>ac_model_egress_policy = ''allow'', ac_max_context_chars = 12000\<rparr> demo_promoted 5 q = Inr (Some b') \<and>
     cb_chunks b' = cb_chunks b \<and> bundle_chars b = 2"
proof -
  obtain b where b: "build_for_planning \<lparr>pc_model_egress_policy = ''allow''\<rparr> demo_frozen_request 3 demo_frozen = Inr (Some b)" "bundle_chars b = 2"
    using demo_built by blast
  obtain input where input: "capture_input_snapshot (demo_agent_instance b) ''text'' = Inr input" using demo_capture by blast
  obtain q where q: "context_request (demo_execution input) = Inr q" "declares_project_attachments (aq_work_contract q)"
    using demo_context_request by blast
  have w: "wi_snapshot (demo_agent_instance b) = with_context (Some b) demo_agent_snapshot" by (simp add: demo_agent_instance_def new_instance_def)
  have x: "er_input_snapshot (demo_execution input) = freeze_map input" "er_tenant_id (demo_execution input) = ''t1''"
    "er_instance_id (demo_execution input) = draft_instance_id demo_request_id" by (simp_all add: demo_execution_def)
  have sv: "ac_model_egress_policy \<lparr>ac_model_egress_policy = ''allow'', ac_max_context_chars = 12000\<rparr> = ''allow''"
    "bundle_chars b \<le> ac_max_context_chars \<lparr>ac_model_egress_policy = ''allow'', ac_max_context_chars = 12000\<rparr>" by (simp_all add: b(2))
  from agent_reads_what_was_frozen [OF demo_reached demo_freeze rtranclp.rtrancl_refl b(1) rtranclp.rtrancl_refl demo_promote rtranclp.rtrancl_refl
      w input q(1) x q(2) sv, of 5]
  show ?thesis using b by blast
qed

section \<open>What a runtime is called with\<close>

lemma mk_agent_run_requestD:
  assumes "mk_agent_run_request r = Inr run" and "gq_capability_envelope r = Some e"
  shows "gq_capability_envelope run = Some e" "envelope_bound e run" "gq_context_bundle run = gq_context_bundle r"
    "gq_context_bundle run = Some b \<Longrightarrow> bundle_bound b run \<and> bundle_chars b \<le> ce_max_context_chars e"
    "gq_tenant_id run = gq_tenant_id r" "gq_instance_id run = gq_instance_id r" "gq_node_key run = gq_node_key r"
    "gq_attempt_id run = gq_attempt_id r" "gq_owner_person_id run = gq_owner_person_id r"
proof -
  from assms have check: "check_envelope r e = Inr ()" "\<And>b. gq_context_bundle r = Some b \<Longrightarrow> bundle_bound b r"
    and run: "run = r\<lparr>gq_work_contract := freeze_map (gq_work_contract r), gq_input_snapshot := freeze_map (gq_input_snapshot r),
       gq_policy := freeze_map (gq_policy r)\<rparr>"
    unfolding mk_agent_run_request_def by (auto simp: rbind_Inr_iff ensure_Inr_iff)
  show "gq_capability_envelope run = Some e" "gq_context_bundle run = gq_context_bundle r"
    "gq_tenant_id run = gq_tenant_id r" "gq_instance_id run = gq_instance_id r" "gq_node_key run = gq_node_key r"
    "gq_attempt_id run = gq_attempt_id r" "gq_owner_person_id run = gq_owner_person_id r"
    by (simp_all add: run assms(2))
  show "envelope_bound e run" using check(1) by (auto simp: check_envelope_def rbind_Inr_iff ensure_Inr_iff envelope_bound_def run)
  show "gq_context_bundle run = Some b \<Longrightarrow> bundle_bound b run \<and> bundle_chars b \<le> ce_max_context_chars e"
    using check by (auto simp: check_envelope_def rbind_Inr_iff ensure_Inr_iff bundle_bound_def run Let_def)
qed

text \<open>The bundle is what the resolver gave, and the envelope was issued for it.\<close>

lemma authorized_runE:
  assumes "authorized_run x q t = Inr run" and "ag_context_resolver x = Some resolve"
  obtains cq cb e where "context_request q = Inr cq" "resolve cq = Inr cb" "issued_envelope x q cb t = Inr e"
    "mk_agent_run_request \<lparr>gq_tenant_id = er_tenant_id q, gq_instance_id = er_instance_id q, gq_node_key = er_node_key q,
      gq_attempt_id = er_attempt_id q, gq_attempt_no = er_attempt_no q, gq_owner_person_id = er_owner_person_id q,
      gq_executor = executor_value (er_executor q), gq_work_contract = er_work q, gq_input_snapshot = er_input_snapshot q,
      gq_context_bundle = cb, gq_capability_envelope = Some e, gq_policy = ag_policy x\<rparr> = Inr run"
  using assms unfolding authorized_run_def resolved_context_def run_request_def by (auto simp: rbind_Inr_iff)

lemma issued_envelopeD:
  assumes "issued_envelope x q cb t = Inr e"
  shows "ce_allowed_capabilities e = context_capabilities cb" "ce_issued_at e = t" "ce_expires_at e = t + ag_capability_ttl x"
    "ce_max_context_chars e = (if context_capabilities cb \<noteq> [] then ag_max_context_chars x else 0)"
  using assms unfolding issued_envelope_def mk_capability_envelope_def Let_def by (auto simp: rbind_Inr_iff)

text \<open>C8: a runtime is only called with what it is authorised for. With the attachments of the console as its
  resolver, the executor hands over an envelope that is bound to the attempt, expires, and allows exactly the
  reads that the bundle needs; a bundle is only there when the node declares attachments and this worker may
  send them, it is bound to the attempt, fits both budgets, and every text in it is the stored content, with
  the recorded hash, of a ready attachment that is bound to this workflow of this tenant and may be sent to a
  model.\<close>

theorem agent_run_authorized:
  assumes "authorized_run x q t = Inr run" and "ag_context_resolver x = Some (resolve_agent_context sv s now)"
    and "1 \<le> ac_max_context_chars sv"
  shows "\<exists>e. gq_capability_envelope run = Some e \<and> envelope_bound e run \<and> gq_tenant_id run = er_tenant_id q \<and>
     gq_instance_id run = er_instance_id q \<and> gq_attempt_id run = er_attempt_id q \<and>
     ce_allowed_capabilities e = context_capabilities (gq_context_bundle run) \<and> ce_expires_at e = t + ag_capability_ttl x \<and>
     (\<forall>b. gq_context_bundle run = Some b \<longrightarrow>
        declares_project_attachments (freeze_map (er_work q)) \<and> ac_model_egress_policy sv = ''allow'' \<and> bundle_bound b run \<and>
        bundle_chars b \<le> ac_max_context_chars sv \<and> bundle_chars b \<le> ag_max_context_chars x \<and>
        (\<forall>c \<in> set (cb_chunks b). stored_text (er_tenant_id q) (er_instance_id q) s c))"
  using assms(1,2)
proof (rule authorized_runE)
  fix cq cb e
  assume cq: "context_request q = Inr cq" and res: "resolve_agent_context sv s now cq = Inr cb" and e: "issued_envelope x q cb t = Inr e"
    and run: "mk_agent_run_request \<lparr>gq_tenant_id = er_tenant_id q, gq_instance_id = er_instance_id q, gq_node_key = er_node_key q,
      gq_attempt_id = er_attempt_id q, gq_attempt_no = er_attempt_no q, gq_owner_person_id = er_owner_person_id q,
      gq_executor = executor_value (er_executor q), gq_work_contract = er_work q, gq_input_snapshot = er_input_snapshot q,
      gq_context_bundle = cb, gq_capability_envelope = Some e, gq_policy = ag_policy x\<rparr> = Inr run"
  note r = mk_agent_run_requestD [OF run, simplified, OF refl]
  have "declares_project_attachments (freeze_map (er_work q)) \<and> ac_model_egress_policy sv = ''allow'' \<and> bundle_bound b run \<and>
      bundle_chars b \<le> ac_max_context_chars sv \<and> bundle_chars b \<le> ag_max_context_chars x \<and>
      (\<forall>c \<in> set (cb_chunks b). stored_text (er_tenant_id q) (er_instance_id q) s c)" if b: "gq_context_bundle run = Some b" for b
  proof -
    have cb: "cb = Some b" using b r(3) by simp
    note d = resolved_bundle [OF res [unfolded cb] assms(3)]
    have "context_capabilities (Some b) \<noteq> []" using d(6) by (simp add: context_capabilities_def)
    then have "ce_max_context_chars e = ag_max_context_chars x" using issued_envelopeD(4) [OF e] by (simp add: cb)
    with d r(4) [OF b] show ?thesis by (simp add: context_requestD [OF cq])
  qed
  with r(1,2) r(3) r(5-9) issued_envelopeD [OF e] show ?thesis by (intro exI [of _ e]) simp
qed

definition demo_agent_executor :: agent_executor where
  "demo_agent_executor = \<lparr>ag_runtime = \<lparr>rt_accepts = (\<lambda>_ _. True), rt_run = (\<lambda>_. Inr (mk_agent_run_result [] []))\<rparr>, ag_policy = [],
     ag_context_resolver = Some (resolve_agent_context \<lparr>ac_model_egress_policy = ''allow'', ac_max_context_chars = 12000\<rparr> demo_promoted 5),
     ag_capability_ttl = 60, ag_max_context_chars = 12000\<rparr>"

lemma demo_agent_context:
  "\<exists>input q b. context_request (demo_execution input) = Inr q \<and>
     resolve_agent_context \<lparr>ac_model_egress_policy = ''allow'', ac_max_context_chars = 12000\<rparr> demo_promoted 5 q = Inr (Some b) \<and>
     bundle_chars b = 2 \<and> cb_tenant_id b = ''t1'' \<and> cb_scope_id b = draft_instance_id demo_request_id \<and> cb_actor_person_id b = ''owner'' \<and>
     cb_node_key b = Some ''text'' \<and> cb_attempt_id b = Some ''a1'' \<and> cb_data_classification b = ''internal'' \<and> cb_egress_decision b = ''allow''"
proof -
  obtain b where b: "build_for_planning \<lparr>pc_model_egress_policy = ''allow''\<rparr> demo_frozen_request 3 demo_frozen = Inr (Some b)" "bundle_chars b = 2"
    using demo_built by blast
  obtain input where input: "capture_input_snapshot (demo_agent_instance b) ''text'' = Inr input" using demo_capture by blast
  obtain q where q: "context_request (demo_execution input) = Inr q" "declares_project_attachments (aq_work_contract q)"
    using demo_context_request by blast
  note good = console_reachable_good [OF demo_reached]
  have reach: "console_op\<^sup>*\<^sup>* empty_console demo_frozen"
    using demo_reached console_op.freeze [OF demo_freeze] by (rule rtranclp.rtrancl_into_rtrancl)
  have ids: "dr_tenant_id demo_frozen_request = ''t1''" "dr_id demo_frozen_request = demo_request_id"
    by (rule freeze_request_ids [OF demo_freeze good(1)])+
  note qd = context_requestD [OF q(1)]
  have x: "er_input_snapshot (demo_execution input) = freeze_map input" by (simp add: demo_execution_def)
  have w: "wi_snapshot (demo_agent_instance b) = with_context (Some b) demo_agent_snapshot" by (simp add: demo_agent_instance_def new_instance_def)
  have aq: "aq_tenant_id q = dr_tenant_id demo_frozen_request" "aq_instance_id q = draft_instance_id (dr_id demo_frozen_request)"
    by (simp_all add: qd ids demo_execution_def)
  have sv: "ac_model_egress_policy \<lparr>ac_model_egress_policy = ''allow'', ac_max_context_chars = 12000\<rparr> = ''allow''"
    "bundle_chars b \<le> ac_max_context_chars \<lparr>ac_model_egress_policy = ''allow'', ac_max_context_chars = 12000\<rparr>" by (simp_all add: b(2))
  from agent_material_frozen [OF console_reachable_good [OF reach] freeze_frozen_request(1) [OF demo_freeze good(1)] rtranclp.rtrancl_refl b(1)
      rtranclp.rtrancl_refl demo_promote [folded ids(2)] rtranclp.rtrancl_refl aq request_inputs [OF w input q(1) x] q(2) qd(8-12) sv, of 5]
  obtain r where r: "resolve_agent_context \<lparr>ac_model_egress_policy = ''allow'', ac_max_context_chars = 12000\<rparr> demo_promoted 5 q =
      Inr (Some (agent_bundle_of demo_promoted r q 5))" "cb_chunks (agent_bundle_of demo_promoted r q 5) = cb_chunks b" by blast
  have "cb_data_classification (agent_bundle_of demo_promoted r q 5) = ''internal''" "cb_egress_decision (agent_bundle_of demo_promoted r q 5) = ''allow''"
    by (simp_all add: agent_bundle_of_def sealed_def)
  moreover have "bundle_chars (agent_bundle_of demo_promoted r q 5) = 2" using b(2) by (simp add: bundle_chars_def r(2))
  ultimately show ?thesis using q(1) r(1)
    by (intro exI [of _ input] exI [of _ q] exI [of _ "agent_bundle_of demo_promoted r q 5"]) (simp add: agent_bundle_fields qd demo_execution_def)
qed

lemma demo_authorized: "\<exists>input run b. authorized_run demo_agent_executor (demo_execution input) 6 = Inr run \<and> gq_context_bundle run = Some b \<and> bundle_chars b = 2"
proof -
  obtain input q b where q: "context_request (demo_execution input) = Inr q"
    and res: "resolve_agent_context \<lparr>ac_model_egress_policy = ''allow'', ac_max_context_chars = 12000\<rparr> demo_promoted 5 q = Inr (Some b)"
    and b: "bundle_chars b = 2" "cb_tenant_id b = ''t1''" "cb_scope_id b = draft_instance_id demo_request_id" "cb_actor_person_id b = ''owner''"
      "cb_node_key b = Some ''text''" "cb_attempt_id b = Some ''a1''" "cb_data_classification b = ''internal''" "cb_egress_decision b = ''allow''"
    using demo_agent_context by blast
  have sv: "1 \<le> ac_max_context_chars \<lparr>ac_model_egress_policy = ''allow'', ac_max_context_chars = 12000\<rparr>" by simp
  note d = resolved_bundle(5,6) [OF res sv]
  have nb: "\<not> blank (draft_instance_id demo_request_id)" "\<not> blank ''t1''" "\<not> blank ''owner''" "\<not> blank ''text''" "\<not> blank ''a1''" by code_simp+
  have caps: "context_capabilities (Some b) = [READ_ATTACHMENTS]" by (simp add: context_capabilities_def d)
  have pre: "prefix_of ''context.read.'' READ_ATTACHMENTS" by code_simp
  obtain e where e: "issued_envelope demo_agent_executor (demo_execution input) (Some b) 6 = Inr e" "envelope_bound e r \<longleftrightarrow> gq_tenant_id r = ''t1'' \<and>
      gq_instance_id r = draft_instance_id demo_request_id \<and> gq_owner_person_id r = ''owner'' \<and> gq_node_key r = ''text'' \<and>
      gq_attempt_id r = ''a1'' \<and> gq_attempt_no r = 1" for r
    using nb b d by (simp add: issued_envelope_def mk_capability_envelope_def caps demo_agent_executor_def demo_execution_def expect_given_def Let_def
        envelope_bound_def) metis
  note ed = issued_envelopeD [OF e(1)]
  have "run_request demo_agent_executor (demo_execution input) (Some b) (Some e) = Inr run \<Longrightarrow> gq_context_bundle run = Some b" for run
    unfolding run_request_def by (auto dest: mk_agent_run_requestD(3))
  moreover have "is_ok (run_request demo_agent_executor (demo_execution input) (Some b) (Some e))"
    using b by (simp add: run_request_def mk_agent_run_request_def check_envelope_def e(2) bundle_bound_def demo_execution_def ed caps pre Let_def
        demo_agent_executor_def)
  ultimately obtain run where "run_request demo_agent_executor (demo_execution input) (Some b) (Some e) = Inr run" "gq_context_bundle run = Some b"
    by (cases "run_request demo_agent_executor (demo_execution input) (Some b) (Some e)") auto
  moreover have "resolved_context demo_agent_executor (demo_execution input) = Inr (Some b)" by (simp add: resolved_context_def q res demo_agent_executor_def)
  moreover have "ag_context_resolver demo_agent_executor \<noteq> None" by (simp add: demo_agent_executor_def)
  ultimately show ?thesis using e(1) b(1)
    by (intro exI [of _ input] exI [of _ run] exI [of _ b]) (auto simp: authorized_run_def)
qed

theorem agent_run_authorized_witness:
  "\<exists>input run b. authorized_run demo_agent_executor (demo_execution input) 6 = Inr run \<and> gq_context_bundle run = Some b \<and> cb_chunks b \<noteq> [] \<and>
     (\<forall>c \<in> set (cb_chunks b). stored_text ''t1'' (draft_instance_id demo_request_id) demo_promoted c)"
proof -
  obtain input run b where a: "authorized_run demo_agent_executor (demo_execution input) 6 = Inr run" "gq_context_bundle run = Some b" "bundle_chars b = 2"
    using demo_authorized by blast
  have r: "ag_context_resolver demo_agent_executor =
      Some (resolve_agent_context \<lparr>ac_model_egress_policy = ''allow'', ac_max_context_chars = 12000\<rparr> demo_promoted 5)" by (simp add: demo_agent_executor_def)
  have sv: "1 \<le> ac_max_context_chars \<lparr>ac_model_egress_policy = ''allow'', ac_max_context_chars = 12000\<rparr>" by simp
  have x: "er_tenant_id (demo_execution input) = ''t1''" "er_instance_id (demo_execution input) = draft_instance_id demo_request_id"
    by (simp_all add: demo_execution_def)
  from agent_run_authorized [OF a(1) r sv, unfolded x] a(2)
  have "\<forall>c \<in> set (cb_chunks b). stored_text ''t1'' (draft_instance_id demo_request_id) demo_promoted c" by blast
  moreover have "cb_chunks b \<noteq> []" using a(3) by (auto simp: bundle_chars_def)
  ultimately show ?thesis using a(1,2) by blast
qed

end
