(* ===== verification/Request_Properties.thy ===== *)
theory Request_Properties
  imports Console_Properties
begin

text \<open>
  The properties of the draft requests, of the attachments in the store, of the planner and of the draft
  worker. \<open>console_op\<close> is the relation of all operations of owners, gateways and workers on the console store.
\<close>

section \<open>Requests\<close>

text \<open>C27: in every console store that the operations reach, a request is stored under its tenant and its id; it has
  a claim exactly while it is generated, repaired or created, a definition whenever it is created, a completion
  time exactly when it is at an end, a workflow only when it is ready; it was canceled by nobody but its
  requester, and a request that failed or was rejected says why.\<close>

theorem draft_requests_sound:
  assumes "console_op\<^sup>*\<^sup>* empty_console s" and "dget (dq_items (cs_drafts s)) (tenant, rid) = Some r"
  shows "dr_tenant_id r = tenant \<and> dr_id r = rid \<and>
    (dget (dq_claims (cs_drafts s)) (tenant, rid) \<noteq> None \<longleftrightarrow> dr_status r \<in> {R_GENERATING, R_REPAIRING, R_CREATING}) \<and>
    (dr_completed_at r \<noteq> None \<longleftrightarrow> terminal_draft (dr_status r)) \<and> (dr_status r = R_CREATING \<longrightarrow> dr_definition r \<noteq> None) \<and>
    (dr_instance_id r \<noteq> None \<longrightarrow> dr_status r = R_READY) \<and>
    dr_canceled_by_person_id r = (if dr_status r = R_CANCELED then Some (dr_requester_person_id r) else None) \<and>
    (dr_status r \<in> {R_REJECTED, R_EXHAUSTED, R_FAILED} \<longrightarrow> dr_public_error_code r \<noteq> None)"
proof -
  have inv: "drafts_inv (cs_drafts s)" using console_reachable_good(1) [OF assms(1)] by (rule console_invD)
  from drafts_invD(2,3) [OF inv assms(2)] show ?thesis by (simp add: cell_inv.simps active_draft_def)
qed

theorem draft_requests_sound_witness:
  "dr_status demo_draft_request = R_COLLECTING \<and> dr_completed_at demo_draft_request = None \<and>
     dget (dq_claims (cs_drafts demo_uploaded)) (''t1'', demo_request_id) = None"
proof -
  have "dget (dq_items (cs_drafts demo_uploaded)) (''t1'', demo_request_id) = Some demo_draft_request"
    by (simp add: demo_uploaded_def demo_console_def dget_dput)
  from draft_requests_sound [OF demo_reached this] demo_owned(2) show ?thesis
    by (cases "dget (dq_claims (cs_drafts demo_uploaded)) (''t1'', demo_request_id)") (auto simp: terminal_draft_def)
qed

text \<open>C26: a request only moves forwards. Whatever operations follow, it stays on record with its author and its
  texts; its attempts are only counted up; a definition, once kept, and a manifest, once frozen, are never
  changed; and a request that is ready, rejected, exhausted or canceled never changes again.\<close>

theorem draft_requests_final:
  assumes "console_op\<^sup>*\<^sup>* empty_console s" and "console_op\<^sup>*\<^sup>* s s'" and "dget (dq_items (cs_drafts s)) (tenant, rid) = Some r"
  shows "\<exists>r'. dget (dq_items (cs_drafts s')) (tenant, rid) = Some r' \<and>
    dr_requester_person_id r' = dr_requester_person_id r \<and> dr_brief r' = dr_brief r \<and> dr_context r' = dr_context r \<and>
    dr_attempt_count r \<le> dr_attempt_count r' \<and> (dr_definition r \<noteq> None \<longrightarrow> dr_definition r' = dr_definition r) \<and>
    (dr_status r \<noteq> R_COLLECTING \<longrightarrow> dr_status r' \<noteq> R_COLLECTING \<and> dr_attachment_manifest r' = dr_attachment_manifest r) \<and>
    (terminal_draft (dr_status r) \<longrightarrow> r' = r)"
proof -
  obtain r' where "dget (dq_items (cs_drafts s')) (tenant, rid) = Some r'" "request_later r r'"
    by (rule console_later [OF assms(2) console_reachable_good(1) [OF assms(1)] assms(3)])
  then show ?thesis by (intro exI [of _ r']) (simp add: request_later_def same_author_def)
qed

theorem draft_requests_final_witness:
  "\<exists>r'. dget (dq_items (cs_drafts demo_promoted)) (''t1'', demo_request_id) = Some r' \<and>
     dr_attachment_manifest r' = [reference_of demo_file] \<and> dr_status r' \<noteq> R_COLLECTING"
proof -
  have reach: "console_op\<^sup>*\<^sup>* empty_console demo_frozen"
    using demo_reached console_op.freeze [OF demo_freeze] by (rule rtranclp.rtrancl_into_rtrancl)
  have id: "dr_id demo_frozen_request = demo_request_id" using demo_freeze console_reachable_good(1) [OF demo_reached] by (rule freeze_request_ids)
  have "dget (dq_items (cs_drafts demo_frozen)) (''t1'', demo_request_id) = Some demo_frozen_request" by (simp add: demo_frozen_def dget_dput)
  moreover have "dr_status demo_frozen_request = R_PENDING" "dr_attachment_manifest demo_frozen_request = [reference_of demo_file]"
    by (simp_all add: demo_frozen_request_def)
  ultimately show ?thesis using draft_requests_final [OF reach promote_op [OF demo_promote [folded id]], of "''t1''" demo_request_id demo_frozen_request]
    by (simp only: id draft_status.distinct simp_thms) metis
qed

section \<open>Attachments\<close>

text \<open>C28: in every store that the operations reach, a request retains at most eight attachments of together at most
  128 KiB, and a tenant at most 1024 of together at most 32 MiB, revoked ones included; every attachment is
  valid, its uploader is the requester, and its content is stored, has the recorded length and hash, and is a
  text that is not empty.\<close>

theorem attachments_bounded:
  assumes "console_op\<^sup>*\<^sup>* empty_console s"
  shows "length (retained_for_request tenant rid s) \<le> MAX_ATTACHMENTS_PER_REQUEST \<and>
    total_bytes (retained_for_request tenant rid s) \<le> MAX_ATTACHMENTS_TOTAL_BYTES \<and>
    length (retained_for_tenant tenant s) \<le> MAX_RETAINED_ATTACHMENTS_PER_TENANT \<and>
    total_bytes (retained_for_tenant tenant s) \<le> MAX_RETAINED_ATTACHMENT_BYTES_PER_TENANT \<and>
    (\<forall>a \<in> set (retained_for_request tenant rid s). mk_console_attachment a = Inr a \<and> blob_intact s a \<and>
       (\<exists>r. dget (dq_items (cs_drafts s)) (tenant, rid) = Some r \<and> ca_uploader_person_id a = dr_requester_person_id r))"
proof -
  note inv = console_reachable_good(1) [OF assms]
  have lim: "within_limits (profiles s)" using inv by (rule console_invD)
  have len: "length (retained_for_request tenant rid s) = length (request_sizes tenant rid (profiles s))"
    "length (retained_for_tenant tenant s) = length (tenant_sizes tenant (profiles s))"
    using arg_cong [OF retained_sizes(1) [of tenant rid s], of length] arg_cong [OF retained_sizes(2) [of tenant s], of length] by simp_all
  have "mk_console_attachment a = Inr a \<and> blob_intact s a \<and>
      (\<exists>r. dget (dq_items (cs_drafts s)) (tenant, rid) = Some r \<and> ca_uploader_person_id a = dr_requester_person_id r)"
    if a: "a \<in> set (retained_for_request tenant rid s)" for a
  proof -
    from a have m: "a \<in> set (map snd (cs_attachments s))" "ca_tenant_id a = tenant" "ca_origin_request_id a = rid"
      unfolding retained_for_request_def set_filter by blast+
    note d = console_invD(5-7) [OF inv stored_attachment [OF inv m(1)]]
    from d(1) have "mk_console_attachment a = Inr a" using mk_console_attachment_same [of a] unfolding attachment_ok_def
      by (cases "mk_console_attachment a") auto
    with d(2,3) show ?thesis by (auto simp: owned_by_requester_def m)
  qed
  with lim show ?thesis unfolding within_limits_def len total_bytes_def retained_sizes by blast
qed

theorem attachments_bounded_witness:
  "length (retained_for_request ''t1'' demo_request_id demo_uploaded) \<le> MAX_ATTACHMENTS_PER_REQUEST \<and>
     retained_for_request ''t1'' demo_request_id demo_uploaded = [demo_file] \<and> blob_intact demo_uploaded demo_file"
proof -
  have "retained_for_request ''t1'' demo_request_id demo_uploaded = [demo_file]"
    by (simp add: retained_for_request_def demo_uploaded_def demo_file_def)
  with attachments_bounded [OF demo_reached, of "''t1''" demo_request_id] show ?thesis by simp
qed

text \<open>C29: an upload is all or nothing: it answers with an error and leaves the store exactly as it was (the blob that
  was put is deleted again), or the attachment it made and its content are both stored; it never touches a
  request, another attachment or another blob.\<close>

theorem upload_all_or_nothing:
  "case snd (upload_attachment sv p rid filename media_type content aid now s) of
     Inl e \<Rightarrow> fst (upload_attachment sv p rid filename media_type content aid now s) = s
   | Inr m \<Rightarrow> \<exists>a encoded. uploaded_attachment sv p rid filename media_type content aid now s = Inr (a, encoded) \<and>
       (let s' = fst (upload_attachment sv p rid filename media_type content aid now s) in
        cs_attachments s' = dput (ca_tenant_id a, ca_attachment_id a) a (cs_attachments s) \<and> cs_blobs s' = dput (ca_object_key a) encoded (cs_blobs s) \<and>
        dget (cs_attachments s) (ca_tenant_id a, ca_attachment_id a) = None \<and> dget (cs_blobs s) (ca_object_key a) = None \<and>
        cs_drafts s' = cs_drafts s)"
proof (cases rule: upload_cases [of sv p rid filename media_type content aid now s])
  case (refused e)
  then show ?thesis by simp
next
  case (stored a encoded s1 m)
  from stored(2) have "s1 = s\<lparr>cs_blobs := dput (ca_object_key a) encoded (cs_blobs s)\<rparr>" "dget (cs_blobs s) (ca_object_key a) = None"
    by (auto simp: blob_put_def rbind_Inr_iff ensure_Inr_iff)
  moreover have "fst (upload_attachment sv p rid filename media_type content aid now s) =
      s1\<lparr>cs_attachments := dput (ca_tenant_id a, ca_attachment_id a) a (cs_attachments s1)\<rparr>"
    "dget (cs_attachments s1) (ca_tenant_id a, ca_attachment_id a) = None"
    using stored(3) unfolding create_for_request_def Let_def by (auto simp: rbind_Inr_iff ensure_Inr_iff)
  ultimately show ?thesis using stored(1,4) by (simp add: Let_def)
qed

text \<open>C30: the planning context is available: after a request was frozen with attachments, and whatever operations
  follow, as long as it is neither finished nor collecting, a worker that may send attachments builds the bundle
  of exactly the frozen references, unless their texts are together longer than 60000 characters.\<close>

theorem planning_context_available:
  assumes "console_op\<^sup>*\<^sup>* empty_console s" and "freeze_and_queue tenant rid person now s = Inr (s0, req)" and "console_op\<^sup>*\<^sup>* s0 s1"
    and "dget (dq_items (cs_drafts s1)) (tenant, rid) = Some cur" and "dr_status cur \<in> {R_PENDING, R_GENERATING, R_REPAIRING, R_CREATING, R_FAILED}"
    and "dr_attachment_manifest req \<noteq> []" and "pc_model_egress_policy sv = ''allow''"
    and "(\<Sum>a \<leftarrow> ready_for_request tenant rid s1. int (length (text_of s1 a))) \<le> MAX_CONTEXT_BUNDLE_CHARS"
  shows "\<exists>b. build_for_planning sv req t s1 = Inr (Some b) \<and> cb_attachments b = dr_attachment_manifest req \<and>
    map cc_text (cb_chunks b) = map (text_of s1) (ready_for_request tenant rid s1)"
proof -
  note good = console_reachable_good [OF assms(1)]
  note ids = freeze_request_ids [OF assms(2) good(1)]
  note fr = freeze_frozen_request [OF assms(2) good(1)]
  have op: "console_op\<^sup>*\<^sup>* empty_console s0" using assms(1) console_op.freeze [OF assms(2)] by (rule rtranclp.rtrancl_into_rtrancl)
  obtain req1 where r1: "dget (dq_items (cs_drafts s1)) (dr_tenant_id req, dr_id req) = Some req1" "request_later req req1" "frozen_request s1 req1"
    using assms(3) console_reachable_good(1) [OF op] fr(1) by (rule frozen_request_later)
  have cur: "req1 = cur" using r1(1) assms(4) by (simp add: ids)
  have rc: "dr_status req \<noteq> R_COLLECTING" by (simp add: fr(2))
  note same = later_same [OF r1(2) [unfolded cur] rc]
  note good1 = console_reachable_good [OF rtranclp_trans [OF op assms(3)]]
  have m: "dr_attachment_manifest cur = map reference_of (ready_attachments s1 cur)"
    using r1(3) unfolding cur frozen_request_def ready_references by blast
  have "build_for_planning sv req t s1 = Inr (Some (frozen_bundle s1 cur t CONTEXT_BUNDLE_TTL))"
    using assms(5-8) planning_available [OF good1 r1(3) [unfolded cur] _ r1(2) [unfolded cur] rc]
    by (simp add: planning_state_def same total_chars_def ids)
  moreover have "cb_attachments (frozen_bundle s1 cur t CONTEXT_BUNDLE_TTL) = dr_attachment_manifest req"
    unfolding bundle_fields m [symmetric] by (rule same)
  moreover have "map cc_text (cb_chunks (frozen_bundle s1 cur t CONTEXT_BUNDLE_TTL)) = map (text_of s1) (ready_for_request tenant rid s1)"
    unfolding bundle_fields material_chunks(4) by (simp add: same ids)
  ultimately show ?thesis by blast
qed

theorem planning_context_available_witness:
  "\<exists>b. build_for_planning \<lparr>pc_model_egress_policy = ''allow''\<rparr> demo_frozen_request 3 demo_frozen = Inr (Some b) \<and>
     map cc_text (cb_chunks b) = [[104, 105]]"
proof -
  have ready: "ready_for_request ''t1'' demo_request_id demo_frozen = [demo_file]"
    using demo_file_stored(2) by (simp add: ready_for_request_def retained_for_request_def demo_frozen_def)
  have t: "text_of demo_frozen demo_file = [104, 105]" by (simp add: text_of_def demo_frozen_def demo_uploaded_def cons_text_def)
  have cur: "dget (dq_items (cs_drafts demo_frozen)) (''t1'', demo_request_id) = Some demo_frozen_request" by (simp add: demo_frozen_def dget_dput)
  have "\<exists>b. build_for_planning \<lparr>pc_model_egress_policy = ''allow''\<rparr> demo_frozen_request 3 demo_frozen = Inr (Some b) \<and>
      cb_attachments b = dr_attachment_manifest demo_frozen_request \<and>
      map cc_text (cb_chunks b) = map (text_of demo_frozen) (ready_for_request ''t1'' demo_request_id demo_frozen)"
    by (rule planning_context_available [OF demo_reached demo_freeze rtranclp.rtrancl_refl cur])
      (simp_all add: demo_frozen_request_def ready t MAX_CONTEXT_BUNDLE_CHARS_def)
  then show ?thesis by (auto simp: ready t)
qed

end
