(* ===== verification/Draft_Worker_Properties.thy ===== *)
theory Draft_Worker_Properties
  imports Console_Demo
begin

text \<open>The properties of the planner and of the draft worker.\<close>

section \<open>Planning\<close>

text \<open>C10: whatever the planner behind the service answers, and whatever its repairs find, a definition that
  \<open>PlanningService.generate\<close> returns has passed the validation in the form in which it is returned; its inputs
  and its schema version are those of the server, not of the planner; and it can be instantiated with the
  requester and the collaborator as its owners, as a valid workflow of one to eight nodes, none of which uses a
  tool unless web search is allowed.\<close>

theorem planned_definition_accepted:
  assumes "run_generation (planning_generate va runtime tenant actor rid brief background cb) repair st = (st', Inr d)"
    and "\<And>b r. cb = Some b \<Longrightarrow> r \<in> set (cb_attachments b) \<Longrightarrow> \<exists>n. ar_size_bytes r = PInt n"
  shows "validate_candidate va d cb = Inr () \<and> getv d ''inputs'' = PDict (server_inputs brief background cb) \<and>
    getv d ''schema_version'' = PStr ''0.2'' \<and>
    (\<exists>roles s. inline_owner_roles d = Inr roles \<and> instantiate_inline_definition d (draft_bindings roles) = Inr s \<and>
       validate_snapshot s = Inr () \<and> 1 \<le> length (sn_nodes s) \<and> length (sn_nodes s) \<le> MAX_GENERATED_NODES \<and>
       (\<forall>n \<in> set (sn_nodes s). ns_executor n = TOOL \<longrightarrow> va_allow_web va))"
  using assms(1)
proof (rule planned_candidate)
  show "plain_sizes cb" using assms(2) by (auto simp: plain_sizes_def split: option.split)
next
  fix x
  assume d: "d = server_owned brief background cb (mutable_map x)" and valid: "validate_candidate va d cb = Inr ()"
  have "getv d ''inputs'' = PDict (server_inputs brief background cb)" "getv d ''schema_version'' = PStr ''0.2''"
    unfolding d by (simp_all add: server_owned_keeps getv_dput_same getv_dput_other)
  moreover have "\<exists>roles s. inline_owner_roles d = Inr roles \<and> instantiate_inline_definition d (draft_bindings roles) = Inr s \<and>
       validate_snapshot s = Inr () \<and> 1 \<le> length (sn_nodes s) \<and> length (sn_nodes s) \<le> MAX_GENERATED_NODES \<and>
       (\<forall>n \<in> set (sn_nodes s). ns_executor n = TOOL \<longrightarrow> va_allow_web va)"
    using valid unfolding validate_candidate_def
  proof (rule accepted_draft_nodes)
    fix raws roles sc s
    assume len: "1 \<le> length raws" "length raws \<le> MAX_GENERATED_NODES" "length (sn_nodes s) = length raws"
      and roles: "inline_owner_roles d = Inr roles" and s: "instantiate_inline_definition d (draft_bindings roles) = Inr s"
      and nodes: "\<forall>n \<in> set (sn_nodes s). \<exists>raw \<in> set raws. drafted (va_allow_web va) raw n"
    have "\<forall>n \<in> set (sn_nodes s). ns_executor n = TOOL \<longrightarrow> va_allow_web va" using nodes unfolding drafted_def by blast
    with roles s len inline_sound(1) [OF s] show ?thesis by (intro exI [of _ roles] exI [of _ s]) simp
  qed
  ultimately show ?thesis using valid by blast
qed

definition demo_validator :: draft_validator where
  "demo_validator = \<lparr>va_allow_web = False,
     va_signals = (\<lambda>_ _ _. \<lparr>rs_travel_intent = False, rs_no_web = False, rs_external_terms = False, rs_missing_evidence = []\<rparr>),
     va_domain = (\<lambda>_ _. Inr ())\<rparr>"

lemma demo_planned:
  "is_ok (snd (run_generation (planning_generate demo_validator (\<lambda>q. Done (Inr demo_draft)) ''t1'' ''owner'' ''r1'' ''plan'' ''none'' None)
     (\<lambda>s. (s, Inr ())) ()))"
  by code_simp

theorem planned_definition_accepted_witness:
  "\<exists>d. snd (run_generation (planning_generate demo_validator (\<lambda>q. Done (Inr demo_draft)) ''t1'' ''owner'' ''r1'' ''plan'' ''none'' None)
     (\<lambda>s. (s, Inr ())) ()) = Inr d \<and> getv d ''inputs'' = PDict [(''brief'', PStr ''plan''), (''context'', PStr ''none'')]"
proof -
  let ?run = "run_generation (planning_generate demo_validator (\<lambda>q. Done (Inr demo_draft)) ''t1'' ''owner'' ''r1'' ''plan'' ''none'' None)
     (\<lambda>s. (s, Inr ())) ()"
  obtain d where d: "snd ?run = Inr d" using demo_planned by (cases "snd ?run") simp_all
  then have "?run = ((), Inr d)" by (simp add: prod_eq_iff)
  from planned_definition_accepted [OF this] d show ?thesis by (simp add: server_inputs_def)
qed

section \<open>The draft worker\<close>

text \<open>C31: a tick of the draft worker is a well-behaved part of the system, whatever the planner does and whatever
  owners, gateways and other workers do to the console store and to the workflows between its calls: it changes
  the console store by its operations and the workflows by commands of the service only; and when it reports,
  every claim it took, at most the limit, has one outcome (a draft, a rejection, a failure with its error, or a
  cancellation that took the claim away).\<close>

theorem draft_tick_accounts:
  assumes "console_others kw" and "others_are_commands wd" and "history (sh_states (dp_shared st))"
    and "draft_run_once kw wd wk st = (st', x)"
  shows "console_op\<^sup>*\<^sup>* (kz_store (dp_console st)) (kz_store (dp_console st')) \<and> history (sh_states (dp_shared st')) \<and>
    (\<forall>p. x = Inr p \<longrightarrow> dt_claimed p = dt_processed p + dt_rejected p + dt_failed p + dt_canceled p \<and>
       dt_claimed p \<le> nat (kd_claim_limit wk) \<and> length (dt_errors p) = dt_failed p)"
proof -
  have "moves st st'" by (rule step_movesD [OF tick_moves [OF assms(1,2)] assms(4,3)])
  then show ?thesis using assms(3,4) tick_counts [of kw wd wk st st'] by (auto simp: moves_def tally_def)
qed

text \<open>A worker whose planner answers with the same definition, and a console with one request that is pending.\<close>

definition demo_draft_worker :: draft_worker where
  "demo_draft_worker = \<lparr>kd_tenant_id = ''t1'', kd_worker_id = ''w'', kd_claim_limit = 2, kd_claim_ttl = 60, kd_retry_base = 5, kd_retry_max = 60,
     kd_generator = (\<lambda>_ _. Done (Inr demo_draft)), kd_context_service = None, kd_describe = (\<lambda>_. ''error''), kd_message = (\<lambda>_. [])\<rparr>"

definition demo_console_world :: console_world where
  "demo_console_world = \<lparr>kw_others = (\<lambda>_ s. s), kw_env = (\<lambda>n. \<lparr>ke_tokens = (\<lambda>i. ''k'' @ dec_nat i), ke_now = int n\<rparr>)\<rparr>"

definition demo_draft_world :: world where
  "demo_draft_world = \<lparr>wd_env = demo_env, wd_others = (\<lambda>_ rs. rs)\<rparr>"

definition demo_pending :: draft_request where
  "demo_pending = new_draft_request demo_owner demo_request_id ''plan'' ''none'' ''owner'' False 0"

definition demo_process :: draft_process where
  "demo_process = \<lparr>dp_console = \<lparr>kz_store = empty_console\<lparr>cs_drafts := put_request ''t1'' demo_request_id demo_pending empty_draft_repo\<rparr>, kz_turn = 0\<rparr>,
     dp_shared = \<lparr>sh_states = [empty_repository], sh_turn = 0\<rparr>\<rparr>"

lemma demo_worlds: "console_others demo_console_world" "others_are_commands demo_draft_world" "history (sh_states (dp_shared demo_process))"
  by (simp_all add: console_others_def demo_console_world_def others_are_commands_def demo_draft_world_def demo_process_def history.intros)

theorem draft_tick_accounts_witness:
  "\<exists>st p. draft_run_once demo_console_world demo_draft_world demo_draft_worker demo_process = (st, Inr p) \<and> dt_claimed p = 1 \<and> dt_processed p = 1 \<and>
     dt_failed p = 0"
proof -
  have run: "case snd (draft_run_once demo_console_world demo_draft_world demo_draft_worker demo_process) of
      Inl _ \<Rightarrow> False | Inr p \<Rightarrow> dt_claimed p = 1 \<and> dt_processed p = 1" by code_simp
  obtain st x where r: "draft_run_once demo_console_world demo_draft_world demo_draft_worker demo_process = (st, x)" by fastforce
  with run obtain p where p: "x = Inr p" "dt_claimed p = 1" "dt_processed p = 1" by (cases x) auto
  from draft_tick_accounts [OF demo_worlds r] p r show ?thesis by auto
qed








end
