(* ===== verification/Spec2Isabelle.thy ===== *)
theory Spec2Isabelle
  imports Kernel_Properties System_Properties Template_Properties Worker_Properties Draft_Properties Edge_Properties Inbox_Properties
    Request_Properties Draft_Worker_Properties
begin

text \<open>
  A verification of the central workflow service of larkflow (\<open>src/larkflow/workflow\<close>) and of the console
  behind which its drafts are made (also \<open>src/larkflow/planning\<close> and \<open>src/larkflow/agent_runtime\<close>). A user's
  project is a graph of human, agent and tool nodes. It is drafted, confirmed by its owner, which
  freezes the graph, and then executed: a node becomes ready when all the nodes it depends on are
  done, people submit results, workers claim automated nodes with expiring tokens, and the owner may
  pause, cancel, restart, recover or edit what has not run yet. Every command loads one aggregate,
  computes a new one and saves it with a compare and swap of its version, together with audit events
  and outbox events.

  The theories, in the order of the code (file names are below \<open>src/larkflow/workflow\<close>):

  \<^item> \<open>Prelude\<close>: exceptions as \<open>Inl\<close>, loops as \<open>foldM\<close>, insertion ordered dictionaries, the string
    operations of the standard library. \<open>Py_Text\<close>: \<open>str\<close>, \<open>json.dumps\<close>, UTF-8. \<open>Sha256\<close>:
    \<open>hashlib.sha256\<close> on 32-bit words, for the hash of an edited snapshot.
  \<^item> \<open>Domain_Model\<close> (\<open>model.py\<close>): the enumerations, dataclasses and \<open>FrozenDict\<close>; \<open>Deliverables\<close>
    (\<open>deliverables.py\<close>, \<open>decision.py\<close>): typed outputs and human decisions; \<open>Serde\<close> (\<open>serde.py\<close>,
    \<open>events.py\<close>): the JSON form of a snapshot, audit and outbox events.
  \<^item> \<open>Snapshot_Graph\<close> and \<open>Graph_Theorems\<close> (\<open>graph.py\<close>): validation, Kahn's order, the ready set, the
    downstream search; correctness against the dependency relation. \<open>Transitions\<close>
    (\<open>transitions.py\<close>): the three state machines, as instances of the locales \<open>status_machine\<close> and
    \<open>ranked_machine\<close>.
  \<^item> \<open>Aggregate\<close>: the invariant \<open>instance_inv\<close> of a workflow instance, stated once for all
    operations: \<open>core_inv\<close> (the runtime records agree with the frozen snapshot, ids and attempt
    numbers are consistent, a claim is present exactly on a running automated attempt) and the
    frontier conditions (a node that has left the state pending has all its dependencies done), and
    the relations \<open>evolves\<close> and \<open>progress\<close>, what an operation may change.
  \<^item> \<open>Workflow_Spec\<close>: an abstract scheduler that only knows the status of each node, which the
    operations of the kernel refine; its measure of remaining work bounds the steps without rework.
  \<^item> \<open>Scheduler\<close> (\<open>scheduler.py\<close>), \<open>Runner\<close> (\<open>runner.py\<close>), \<open>Lifecycle\<close> (\<open>lifecycle.py\<close>), \<open>Restart\<close>
    (\<open>restart.py\<close>), \<open>Recovery\<close> (\<open>recovery.py\<close>), \<open>Editing\<close> (\<open>editing.py\<close>): one definition per function of
    the code, every guard and every raise included, with the lemmas that each operation keeps
    \<open>instance_inv\<close> and what it does to the records.
  \<^item> \<open>Repository\<close>, \<open>Outbox\<close> and \<open>Template_Store\<close> (\<open>repository.py\<close>): the in-memory stores, the
    executable reference of the persistence protocol. \<open>Store_Contracts\<close> states the contracts
    \<open>versioned_store\<close> (optimistic concurrency) and \<open>one_shot_store\<close> (a preview is consumed once) as
    locales and interprets them on the operations of the repository.
  \<^item> \<open>Service\<close>, \<open>Service_Work\<close>, \<open>Service_Preview\<close> (\<open>service.py\<close>, \<open>directory.py\<close>): the commands of
    \<open>WorkflowService\<close>. A command is a function of an environment \<open>env\<close> (the id, token and time
    sources and an optional directory, which are parameters), of the repository \<open>r\<close> it reads and of the
    repository \<open>r'\<close> it saves to; \<open>r = r'\<close> when nothing interferes.
  \<^item> \<open>Template_Service\<close> (\<open>template_service.py\<close>): documents, validation, versions and statuses of
    templates, instantiation; \<open>Template_Theorems\<close> relates the validated to the instantiated nodes and
    \<open>Template_Histories\<close> keeps the invariant \<open>service_inv\<close> over sequences of commands, failed ones
    included, from which \<open>Template_Properties\<close> follows.
  \<^item> \<open>Kernel_Steps\<close> and \<open>System\<close>: every command as one step on the aggregate it has read, and the
    concurrent system: \<open>command r r' r1\<close> is a successful command that read \<open>r\<close> and turned the current
    repository \<open>r'\<close> into \<open>r1\<close>; \<open>history rs\<close> lists the states of the repository from the empty one,
    where each command may have read any earlier state.
  \<^item> \<open>Shared_World\<close>: processes around the service, each of which reads and commands one shared repository;
    what the others do between two of its accesses is a parameter.
  \<^item> \<open>Worker\<close> (\<open>runtime.py\<close>): one tick of \<open>WorkflowWorker\<close>, with the executors as parameters;
    \<open>Worker_Properties\<close> shows that a tick is a history of commands and that its report accounts for
    what it did.
  \<^item> \<open>Edge\<close> (\<open>edge.py\<close>): the store and the control service of personal devices, which are paired by a
    code and then claim, renew, complete and fail agent nodes of their person. \<open>Edge_Theorems\<close> keeps
    \<open>edge_inv\<close> over all requests and describes what a later store may differ in; \<open>Edge_Demo\<close> is an
    example, \<open>Edge_Properties\<close> states what pairing, revocation and a lease guarantee. Hashes are those
    of \<open>Sha256\<close>; no property assumes that they have no collisions.
  \<^item> \<open>Inbox\<close> and \<open>Inbox_Workers\<close> (\<open>inbound.py\<close>): completions of Feishu tasks, which are queued, verified
    against the task and submitted as human work by two workers. The task service is a parameter.
    \<open>Inbox_Theorems\<close> gives the state machine of one record and shows that the inbox is a family of such
    machines and that the ticks of the workers are made of commands; \<open>Inbox_Demo\<close> is an example,
    \<open>Inbox_Properties\<close> states what is kept of an event and on whose behalf work is submitted.
  \<^item> \<open>Draft_Validation\<close> (\<open>draft_validation.py\<close>): what a definition written by a language model must
    satisfy; \<open>Draft_Theorems\<close> and \<open>Draft_Properties\<close> show what this guarantees of the workflow made of it.
  \<^item> \<open>Knowledge_Contracts\<close> (\<open>knowledge/contracts.py\<close>, below \<open>src/larkflow\<close>), \<open>Planning_Context\<close>
    (\<open>planning/context.py\<close>): the records of shared documents and the bundle of material that one request
    to a model may read, with the checks of every constructor. \<open>Draft_Planning\<close> (\<open>planning/service.py\<close>,
    \<open>planning/bounded.py\<close>, \<open>planning/contracts.py\<close>, and the loop of \<open>draft_generation.py\<close>): one generation
    of a draft, with one repair; the runtime is an interaction of type \<open>generation\<close>, whose answers are a
    parameter. \<open>Planning_Theorems\<close>: what \<open>PlanningService.generate\<close> returns has passed the validation.
  \<^item> \<open>Draft_Requests\<close> (\<open>console_drafts.py\<close>): the requests of employees, their in-memory repository and the
    service of the owner; \<open>Attachments\<close> (\<open>console_attachments.py\<close>): the attachments of a request, the
    blob store, upload, revocation, the freezing of the manifest and the context of the planner;
    \<open>Agent_Context\<close> (\<open>agent_runtime/contracts.py\<close>, \<open>agent_runtime/executor.py\<close>, \<open>agent_context.py\<close>): the
    context and the capabilities of one agent call; \<open>Draft_Worker\<close> (\<open>console_drafts.py\<close>): the worker that
    claims a request, has it generated and makes the workflow.
  \<^item> \<open>Claims\<close> is what the batches of the queues have in common. \<open>Draft_Request_Theorems\<close>: the life of a request as
    a state machine \<open>draft_step\<close>, and the repository as a family of such machines. \<open>Attachment_Theorems\<close>:
    \<open>console_op\<close>, the relation of all operations of owners, gateways and workers on the console store, and
    \<open>console_inv\<close>, which they keep (limits of the attachments, blobs with their recorded hash, a frozen
    manifest that is still there). \<open>Context_Theorems\<close> and \<open>Frozen_Material\<close>: from the manifest to the bundle of
    the planner and to the bundle of each agent. \<open>Agent_Context_Theorems\<close>: what a runtime is called with.
    \<open>Draft_Worker_Theorems\<close>: a tick is made of operations on the console store and commands of the service,
    and accounts for its claims. \<open>Console_Demo\<close> is an example; \<open>Console_Properties\<close>, \<open>Request_Properties\<close> and
    \<open>Draft_Worker_Properties\<close> state the properties.
  \<^item> \<open>Demo\<close>: a small process, run through the commands, on which the theorems
    are instantiated. \<open>Kernel_Properties\<close>, \<open>System_Properties\<close> and this theory state the properties.

  Bounds and termination: Kahn's loop and the downstream search are total functions with a measure;
  loops over finite lists are \<open>foldM\<close>; there is no fuel. The limits of the attachments (8 files of 32 KiB and
  128 KiB together per request, 1024 files and 32 MiB per tenant), of a bundle (60000 characters), of the
  nodes (8) and of the attempts (2) of a draft are the constants of the code. Python's integers are \<open>int\<close>. A time is an
  \<open>int\<close> (an aware \<open>datetime\<close>, of which the code uses the order and the addition of a duration). A
  missing key is the value \<open>Inl (KeyError k)\<close>. Each \<open>error\<close> constructor is an exception class of the code;
  its text carries the constant part of the message.

  Hypotheses: \<open>command\<close> leaves out the resumption of a draft. The code does not refuse it
  (\<open>resume_starts_draft\<close>) although its documents say that only a confirmed process runs, and it breaks
  the invariant. A failed command saves nothing, so only successful ones are steps;
  \<open>add_template_not_atomic\<close> shows the one operation of the template store for which this is not so.

  Parameters: the id, token and time sources, the directory, the executors, the task service, the travel
  rules of \<open>draft_validation.py\<close> (they search Chinese text with regular expressions), the planner and its
  prompts behind \<open>PlanningService\<close>, the texts of the messages that name an exception, and what other processes do
  to a shared store between two calls.

  Not modelled: the PostgreSQL repositories (SQL text and its driver) and the blob store on disk; the Feishu
  adapters, chat commands and projections; the HTTP handlers, sessions and accounts of the console; the
  executors and the completion runtime that call language models and search services; the prompts and the
  strict JSON reader of their answers; the repository and the service of enterprise documents, of which only
  the records and their contracts are here; the program on a personal device and its HTTP gateway; daemons,
  command lines and configuration. They perform input and output around what is modelled. Of
  \<open>projection.py\<close> and \<open>directory.py\<close> there are only the parts that the repository and the service use.
\<close>

section \<open>Histories\<close>



text \<open>C14: a version number identifies what it numbers: an instance is never removed, its version never
  decreases, and two states of one history that show the same version show the same instance.\<close>

theorem version_identifies_state:
  assumes "history rs" and "i \<le> j" and "j < length rs" and "find_instance (rs ! i) k = Some w"
  shows "\<exists>v. find_instance (rs ! j) k = Some v \<and> wi_version w \<le> wi_version v \<and>
     (wi_version v = wi_version w \<longrightarrow> v = w)"
  using repo_laterD [OF history_repo_later [OF assms(1-3)] assms(4)] unfolding later_def by blast

theorem version_identifies_state_witness:
  "\<exists>w v. find_instance demo_r2 (''acme'', ''p1'') = Some w \<and> find_instance demo_r3 (''acme'', ''p1'') = Some v \<and>
     wi_version w \<le> wi_version v"
proof -
  let ?rs = "[empty_repository, demo_r1, demo_r2, demo_r3]"
  obtain w where w: "find_instance (?rs ! 2) (''acme'', ''p1'') = Some w" using demo_stored(1) by auto
  have "2 \<le> (3 :: nat)" "3 < length ?rs" by simp_all
  from version_identifies_state [OF demo_history this w] w show ?thesis by auto
qed

text \<open>C2: the past is never rewritten while the graph stays at one revision: the snapshot is the same,
  finished attempts are kept as they are, no node disappears, and a node that changed has a higher
  version.\<close>

theorem past_never_rewritten:
  assumes "history rs" and "i \<le> j" and "j < length rs"
    and "find_instance (rs ! i) k = Some w" and "find_instance (rs ! j) k = Some v"
  shows "wi_graph_revision w \<le> wi_graph_revision v \<and>
     (wi_graph_revision v = wi_graph_revision w \<longrightarrow> wi_snapshot v = wi_snapshot w \<and>
        (\<forall>key m a. attempt_at w key m = Some a \<longrightarrow> attempt_finished a \<longrightarrow> attempt_at v key m = Some a) \<and>
        (\<forall>key n. node_at w key = Some n \<longrightarrow>
           (\<exists>n'. node_at v key = Some n' \<and> (n' = n \<or> ni_version n < ni_version n'))))"
proof -
  from repo_laterD [OF history_repo_later [OF assms(1-3)] assms(4)] assms(5)
  have "progress w (v\<lparr>wi_version := wi_version w\<rparr>)" by (simp add: later_def)
  then have le: "wi_graph_revision w \<le> wi_graph_revision v"
    and ev: "wi_graph_revision v = wi_graph_revision w \<Longrightarrow>
      evolves_except {} w (v\<lparr>wi_version := wi_version w\<rparr>) \<and> wi_snapshot v = wi_snapshot w"
    by (simp_all add: progress_def evolves_except_empty)
  from ev have "wi_graph_revision v = wi_graph_revision w \<longrightarrow> wi_snapshot v = wi_snapshot w \<and>
        (\<forall>key m a. attempt_at w key m = Some a \<longrightarrow> attempt_finished a \<longrightarrow> attempt_at v key m = Some a) \<and>
        (\<forall>key n. node_at w key = Some n \<longrightarrow>
           (\<exists>n'. node_at v key = Some n' \<and> (n' = n \<or> ni_version n < ni_version n')))"
    by (simp add: evolves_except_def)
  with le show ?thesis by blast
qed

theorem past_never_rewritten_witness:
  "\<exists>w v. find_instance demo_r2 (''acme'', ''p1'') = Some w \<and> find_instance demo_r3 (''acme'', ''p1'') = Some v \<and>
     wi_graph_revision w \<le> wi_graph_revision v"
proof -
  let ?rs = "[empty_repository, demo_r1, demo_r2, demo_r3]"
  obtain w v where w: "find_instance (?rs ! 2) (''acme'', ''p1'') = Some w"
      "find_instance (?rs ! 3) (''acme'', ''p1'') = Some v" using demo_stored by auto
  have "2 \<le> (3 :: nat)" "3 < length ?rs" by simp_all
  from past_never_rewritten [OF demo_history this w] w show ?thesis by auto
qed

text \<open>The audit log only grows at its end, and a stored preview of a restart or of a graph edit
  changes at most once, from open to consumed.\<close>

lemma audit_append_only:
  assumes "history rs" and "i \<le> j" and "j < length rs"
  shows "prefix (r_audit_events (rs ! i)) (r_audit_events (rs ! j)) \<and>
     (\<forall>k p. dget (r_restart_previews (rs ! i)) k = Some p \<longrightarrow>
        (\<exists>q. dget (r_restart_previews (rs ! j)) k = Some q \<and>
           (q = p \<or> rp_consumed_at p = None \<and> rp_consumed_at q \<noteq> None))) \<and>
     (\<forall>k p. dget (r_graph_edit_previews (rs ! i)) k = Some p \<longrightarrow>
        (\<exists>q. dget (r_graph_edit_previews (rs ! j)) k = Some q \<and>
           (q = p \<or> ge_consumed_at p = None \<and> ge_consumed_at q \<noteq> None)))"
  using history_repo_later [OF assms] unfolding repo_later_def previews_kept_def consumed_once_def by simp





text \<open>In every history an event is in the outbox at most once (two records never agree in tenant,
  event type, aggregate and version), and a record carries a claim exactly while it is processed.\<close>

lemma events_queued_once:
  assumes "history rs" and "r \<in> set rs" and "dget (r_outbox r) k = Some q"
  shows "(\<forall>k' q'. dget (r_outbox r) k' = Some q' \<longrightarrow> oe_tenant_id (or_event q') = oe_tenant_id (or_event q) \<longrightarrow>
       dedupe_key (or_event q') = dedupe_key (or_event q) \<longrightarrow> k' = k) \<and>
     (or_status q = Q_PROCESSING \<longleftrightarrow> or_claim_token q \<noteq> None) \<and>
     (or_status q = Q_PROCESSING \<longleftrightarrow> or_claim_expires_at q \<noteq> None)"
proof -
  have ok: "outbox_inv r" "queued_once r" using history_outbox [OF assms(1,2)] by (simp_all add: outbox_ok_def)
  have "claim_fields q" using ok(1) assms(3) unfolding outbox_inv_def by blast
  then have "(or_status q = Q_PROCESSING \<longleftrightarrow> or_claim_token q \<noteq> None) \<and>
     (or_status q = Q_PROCESSING \<longleftrightarrow> or_claim_expires_at q \<noteq> None)"
    by (simp add: claim_fields_def split: if_splits)
  moreover have "k' = k" if "dget (r_outbox r) k' = Some q'" "oe_tenant_id (or_event q') = oe_tenant_id (or_event q)"
    "dedupe_key (or_event q') = dedupe_key (or_event q)" for k' q'
    by (rule queued_onceD(2) [OF ok(2) that(1) assms(3)]) (rule event_key_cong [OF that(2,3)])
  ultimately show ?thesis by blast
qed

end
